(* ===== verification/Prelude.thy ===== *)
theory Prelude
  imports Main "HOL-Library.AList" "HOL-Library.Char_ord" "HOL-Library.List_Lexorder"
    "HOL-Library.Product_Lexorder" "HOL-Library.Multiset"
begin

text \<open>
  Shared vocabulary of the development: Python exceptions as values and the combinators that
  thread them, insertion-ordered dictionaries as association lists, Python strings (one
  character per code point, code points below 256), decimal rendering of integers, and the
  generic lemmas the components use.
\<close>

section \<open>Exceptions as values\<close>

text \<open>
  A raised exception is the value \<open>Inl e\<close>. The string is the constant part of the message
  of the code's \<^verbatim>\<open>raise\<close> statement; interpolated values are dropped.
  \<open>PlannerError\<close>, \<open>PromotionError\<close> and \<open>UdfError\<close> are subclasses of Python's ValueError
  (a UDF that raises anything is \<open>UdfError\<close>), which \<open>is_value_error\<close> records.
\<close>

datatype exc =
    ValueError string
  | KeyError string
  | TypeError string
  | PlannerError string
  | PromotionError string
  | ConflictError string
  | UdfError string
  | OverflowError string
  | StoreError string  \<comment> \<open>raised by a database driver\<close>

type_synonym 'a res = "exc + 'a"

fun is_value_error :: "exc \<Rightarrow> bool" where
  "is_value_error (ValueError _) = True"
| "is_value_error (PlannerError _) = True"
| "is_value_error (PromotionError _) = True"
| "is_value_error (UdfError _) = True"
| "is_value_error _ = False"

named_theorems res_simps \<open>simplification of the exception combinators\<close>
named_theorems dict_simps \<open>simplification of dictionary operations\<close>

fun rbind :: "'a res \<Rightarrow> ('a \<Rightarrow> 'b res) \<Rightarrow> 'b res" where
  "rbind (Inl e) f = Inl e"
| "rbind (Inr x) f = f x"

text \<open>The statement \<^verbatim>\<open>if not c: raise e\<close>.\<close>

definition require :: "bool \<Rightarrow> exc \<Rightarrow> unit res" where
  "require c e = (if c then Inr () else Inl e)"

text \<open>A list comprehension whose body may raise.\<close>

fun map_res :: "('a \<Rightarrow> 'b res) \<Rightarrow> 'a list \<Rightarrow> 'b list res" where
  "map_res f [] = Inr []"
| "map_res f (x # xs) = rbind (f x) (\<lambda>y. rbind (map_res f xs) (\<lambda>ys. Inr (y # ys)))"

text \<open>A for loop over a mutable state whose body may raise.\<close>

fun fold_res :: "('a \<Rightarrow> 's \<Rightarrow> 's res) \<Rightarrow> 'a list \<Rightarrow> 's \<Rightarrow> 's res" where
  "fold_res f [] s = Inr s"
| "fold_res f (x # xs) s = rbind (f x s) (fold_res f xs)"

text \<open>A for loop whose body only checks.\<close>

fun for_each :: "('a \<Rightarrow> unit res) \<Rightarrow> 'a list \<Rightarrow> unit res" where
  "for_each f [] = Inr ()"
| "for_each f (x # xs) = rbind (f x) (\<lambda>_. for_each f xs)"

lemma rbind_Inr_iff [simp, res_simps]:
  "rbind m f = Inr y \<longleftrightarrow> (\<exists>x. m = Inr x \<and> f x = Inr y)"
  by (cases m) auto

lemma rbind_Inl_iff [res_simps]:
  "rbind m f = Inl e \<longleftrightarrow> m = Inl e \<or> (\<exists>x. m = Inr x \<and> f x = Inl e)"
  by (cases m) auto

lemma require_Inr_iff [simp, res_simps]: "require c e = Inr u \<longleftrightarrow> c"
  by (simp add: require_def)

lemma require_Inl_iff [simp, res_simps]: "require c e = Inl e' \<longleftrightarrow> \<not> c \<and> e' = e"
  by (auto simp: require_def)

lemma require_True [simp]: "require True e = Inr ()"
  by (simp add: require_def)

lemma require_False [simp]: "require False e = Inl e"
  by (simp add: require_def)

lemma rbind_assoc: "rbind (rbind m f) g = rbind m (\<lambda>x. rbind (f x) g)"
  by (cases m) auto

lemma rbind_cong [fundef_cong]:
  "m = m' \<Longrightarrow> (\<And>x. m' = Inr x \<Longrightarrow> f x = g x) \<Longrightarrow> rbind m f = rbind m' g"
  by (cases m') auto

lemma map_res_cong [fundef_cong]:
  "xs = ys \<Longrightarrow> (\<And>x. x \<in> set ys \<Longrightarrow> f x = g x) \<Longrightarrow> map_res f xs = map_res g ys"
  by (induction ys arbitrary: xs) auto

lemma for_each_Inr_iff [simp, res_simps]:
  "for_each f xs = Inr u \<longleftrightarrow> (\<forall>x \<in> set xs. f x = Inr ())"
  by (induction xs) auto

lemma map_res_Inr_iff: "map_res f xs = Inr ys \<longleftrightarrow> list_all2 (\<lambda>x y. f x = Inr y) xs ys"
  by (induction xs arbitrary: ys) (auto simp: list_all2_Cons1)

lemma map_res_length: "map_res f xs = Inr ys \<Longrightarrow> length ys = length xs"
  by (simp add: map_res_Inr_iff list_all2_lengthD)

lemma map_res_set: "map_res f xs = Inr ys \<Longrightarrow> y \<in> set ys \<Longrightarrow> \<exists>x \<in> set xs. f x = Inr y"
  by (induction xs arbitrary: ys) auto

lemma map_res_all_Inr: "(\<And>x. x \<in> set xs \<Longrightarrow> f x = Inr (g x)) \<Longrightarrow> map_res f xs = Inr (map g xs)"
  by (induction xs) auto

lemma map_res_total: "(\<And>x. x \<in> set xs \<Longrightarrow> \<exists>y. f x = Inr y) \<Longrightarrow> \<exists>ys. map_res f xs = Inr ys"
  by (induction xs) auto

lemma fold_res_append [simp]: "fold_res f (xs @ ys) s = rbind (fold_res f xs s) (fold_res f ys)"
proof (induction xs arbitrary: s)
  case (Cons x xs)
  show ?case by (cases "f x s") (simp_all add: Cons.IH)
qed simp

text \<open>An invariant of the loop body is one of the loop.\<close>

lemma fold_res_invariant:
  assumes "fold_res f xs s = Inr s'" and "P s"
    and "\<And>x s s'. x \<in> set xs \<Longrightarrow> P s \<Longrightarrow> f x s = Inr s' \<Longrightarrow> P s'"
  shows "P s'"
  using assms
proof (induction xs arbitrary: s)
  case Nil
  then show ?case by simp
next
  case (Cons x xs)
  from Cons.prems(1) obtain t where t: "f x s = Inr t" "fold_res f xs t = Inr s'" by auto
  from Cons.prems(3)[OF _ Cons.prems(2) t(1)] have "P t" by simp
  from Cons.IH[OF t(2) this] Cons.prems(3) show ?case by (meson list.set_intros(2))
qed

text \<open>Conditions on an optional value, in a form that evaluates.\<close>

lemma all_Some_code [code_unfold]:
  "(\<forall>v. HOL.equal x (Some v) \<longrightarrow> Q v) \<longleftrightarrow> (case x of None \<Rightarrow> True | Some v \<Rightarrow> Q v)"
  by (cases x) (simp_all add: equal_eq)

lemma ex_Some_code [code_unfold]:
  "(\<exists>v. HOL.equal x (Some v) \<and> Q v) \<longleftrightarrow> (case x of None \<Rightarrow> False | Some v \<Rightarrow> Q v)"
  by (cases x) (simp_all add: equal_eq)

section \<open>Dictionaries\<close>

text \<open>
  A Python dict keeps insertion order: assignment to an existing key keeps its position, a
  new key goes to the end. That is \<open>AList.update\<close>; lookup is \<open>map_of\<close>.
\<close>

type_synonym ('k, 'v) dict = "('k \<times> 'v) list"

definition dict_keys :: "('k, 'v) dict \<Rightarrow> 'k list" where
  "dict_keys d = map fst d"

definition dict_values :: "('k, 'v) dict \<Rightarrow> 'v list" where
  "dict_values d = map snd d"

definition dict_set :: "'k \<Rightarrow> 'v \<Rightarrow> ('k, 'v) dict \<Rightarrow> ('k, 'v) dict" where
  "dict_set k v d = AList.update k v d"

text \<open>A dict comprehension \<^verbatim>\<open>{k: v for ...}\<close>: later duplicates win.\<close>

fun dict_extend :: "('k, 'v) dict \<Rightarrow> ('k \<times> 'v) list \<Rightarrow> ('k, 'v) dict" where
  "dict_extend d [] = d"
| "dict_extend d ((k, v) # kvs) = dict_extend (dict_set k v d) kvs"

definition dict_of :: "('k \<times> 'v) list \<Rightarrow> ('k, 'v) dict" where
  "dict_of kvs = dict_extend [] kvs"

abbreviation dict_wf :: "('k, 'v) dict \<Rightarrow> bool" where
  "dict_wf d \<equiv> distinct (dict_keys d)"

lemma dict_set_lookup [simp, dict_simps]: "map_of (dict_set k v d) = (map_of d)(k \<mapsto> v)"
  by (simp add: dict_set_def update_conv')

lemma dict_set_keys_set [simp, dict_simps]: "set (dict_keys (dict_set k v d)) = insert k (set (dict_keys d))"
  by (simp add: dict_keys_def dict_set_def dom_update flip: dom_map_of_conv_image_fst)
    (auto simp: dom_map_of_conv_image_fst update_conv')

lemma dict_set_wf [simp, dict_simps]: "dict_wf d \<Longrightarrow> dict_wf (dict_set k v d)"
  by (simp add: dict_keys_def dict_set_def distinct_update)

lemma dict_extend_lookup: "map_of (dict_extend d kvs) = map_of d ++ map_of (rev kvs)"
  by (induction d kvs rule: dict_extend.induct) (auto simp: map_add_def fun_eq_iff split: option.splits)

lemma dict_of_lookup [dict_simps]: "map_of (dict_of kvs) = map_of (rev kvs)"
  by (simp add: dict_of_def dict_extend_lookup)

lemma dict_extend_wf: "dict_wf d \<Longrightarrow> dict_wf (dict_extend d kvs)"
  by (induction d kvs rule: dict_extend.induct) auto

lemma dict_of_wf [simp, dict_simps]: "dict_wf (dict_of kvs)"
  unfolding dict_of_def by (rule dict_extend_wf) (simp add: dict_keys_def)

lemma dict_set_new: "k \<notin> set (dict_keys d) \<Longrightarrow> dict_set k v d = d @ [(k, v)]"
  by (induction d) (auto simp: dict_set_def dict_keys_def)

lemma dict_extend_distinct:
  "distinct (dict_keys d @ map fst kvs) \<Longrightarrow> dict_extend d kvs = d @ kvs"
  by (induction d kvs rule: dict_extend.induct) (auto simp: dict_set_new dict_keys_def)

lemma dict_of_distinct [dict_simps]: "distinct (map fst kvs) \<Longrightarrow> dict_of kvs = kvs"
  by (simp add: dict_of_def dict_extend_distinct dict_keys_def)

lemma dict_of_lookup_distinct:
  "distinct (map fst kvs) \<Longrightarrow> map_of (dict_of kvs) = map_of kvs"
  by (simp add: dict_of_distinct)

lemma dict_of_lookup_Some: "map_of (dict_of kvs) k = Some v \<Longrightarrow> (k, v) \<in> set kvs"
  by (auto simp: dict_of_lookup dest: map_of_SomeD)

lemma dict_of_lookup_None: "map_of (dict_of kvs) k = None \<longleftrightarrow> k \<notin> fst ` set kvs"
  by (simp add: dict_of_lookup map_of_eq_None_iff)

lemma dict_of_keys [dict_simps]: "set (dict_keys (dict_of kvs)) = fst ` set kvs"
  using dict_of_lookup_None[of kvs]
  by (force simp: dict_keys_def map_of_eq_None_iff)

section \<open>Strings\<close>

text \<open>
  Python's \<^verbatim>\<open>str.isspace\<close> on code points below 256: tab to carriage return, the four
  separators 28 to 31, space, NEL (133) and no-break space (160).
\<close>

definition py_isspace :: "char \<Rightarrow> bool" where
  "py_isspace c =
     (let n = (of_char c :: nat) in 9 \<le> n \<and> n \<le> 13 \<or> 28 \<le> n \<and> n \<le> 32 \<or> n = 133 \<or> n = 160)"

definition py_strip :: "string \<Rightarrow> string" where
  "py_strip s = rev (dropWhile py_isspace (rev (dropWhile py_isspace s)))"

text \<open>The guard \<^verbatim>\<open>not s or not s.strip()\<close> that most constructors use.\<close>

definition blank :: "string \<Rightarrow> bool" where
  "blank s \<longleftrightarrow> s = [] \<or> py_strip s = []"

lemma blank_iff: "blank s \<longleftrightarrow> (\<forall>c \<in> set s. py_isspace c)"
  by (auto simp: blank_def py_strip_def dropWhile_eq_Nil_conv dest: set_dropWhileD)
    (metis dropWhile_eq_Nil_conv in_set_conv_decomp dropWhile_append3 list.distinct(1) set_dropWhileD)

lemma blank_Nil [simp]: "blank []"
  by (simp add: blank_def)

text \<open>\<^verbatim>\<open>str.lower\<close> on code points below 256 (A-Z and the Latin-1 capitals).\<close>

definition py_lower_char :: "char \<Rightarrow> char" where
  "py_lower_char c =
     (let n = (of_char c :: nat)
      in if 65 \<le> n \<and> n \<le> 90 \<or> 192 \<le> n \<and> n \<le> 222 \<and> n \<noteq> 215 then char_of (n + 32) else c)"

definition py_lower :: "string \<Rightarrow> string" where
  "py_lower s = map py_lower_char s"

text \<open>\<^verbatim>\<open>sep.join(xs)\<close>.\<close>

fun py_join :: "string \<Rightarrow> string list \<Rightarrow> string" where
  "py_join sep [] = []"
| "py_join sep [x] = x"
| "py_join sep (x # y # zs) = x @ sep @ py_join sep (y # zs)"

section \<open>Decimal rendering\<close>

definition digit :: "nat \<Rightarrow> char" where
  "digit n = char_of (48 + n)"

definition digit_val :: "char \<Rightarrow> nat" where
  "digit_val c = of_char c - 48"

definition is_digit :: "char \<Rightarrow> bool" where
  "is_digit c \<longleftrightarrow> 48 \<le> (of_char c :: nat) \<and> (of_char c :: nat) \<le> 57"

lemma digit_val_digit [simp]: "n < 10 \<Longrightarrow> digit_val (digit n) = n"
  by (simp add: digit_def digit_val_def)

lemma is_digit_digit [simp]: "n < 10 \<Longrightarrow> is_digit (digit n)"
  by (simp add: digit_def is_digit_def)

fun nat_str :: "nat \<Rightarrow> string" where
  "nat_str n = (if n < 10 then [digit n] else nat_str (n div 10) @ [digit (n mod 10)])"

declare nat_str.simps [simp del]

definition str_nat :: "string \<Rightarrow> nat" where
  "str_nat s = foldl (\<lambda>a c. 10 * a + digit_val c) 0 s"

definition int_str :: "int \<Rightarrow> string" where
  "int_str i = (if i < 0 then CHR ''-'' # nat_str (nat (- i)) else nat_str (nat i))"

lemma str_nat_nat_str [simp]: "str_nat (nat_str n) = n"
proof (induction n rule: nat_str.induct)
  case (1 n)
  show ?case
  proof (cases "n < 10")
    case True
    then show ?thesis by (simp add: nat_str.simps[of n] str_nat_def)
  next
    case False
    then have "str_nat (nat_str n) = 10 * str_nat (nat_str (n div 10)) + n mod 10"
      by (simp add: nat_str.simps[of n] str_nat_def)
    with 1 False show ?thesis by simp
  qed
qed

lemma nat_str_inj [simp]: "nat_str m = nat_str n \<longleftrightarrow> m = n"
  by (metis str_nat_nat_str)

lemma nat_str_digits: "c \<in> set (nat_str n) \<Longrightarrow> is_digit c"
proof (induction n rule: nat_str.induct)
  case (1 n)
  then show ?case
    by (cases "n < 10") (auto simp: nat_str.simps[of n])
qed

lemma nat_str_nonempty [simp]: "nat_str n \<noteq> []"
  by (simp add: nat_str.simps[of n])

lemma int_str_chars: "c \<in> set (int_str i) \<Longrightarrow> is_digit c \<or> c = CHR ''-''"
  by (auto simp: int_str_def dest: nat_str_digits split: if_splits)

lemma nat_str_no_minus: "nat_str n \<noteq> CHR ''-'' # s"
proof
  assume "nat_str n = CHR ''-'' # s"
  then have "is_digit (CHR ''-'')" using nat_str_digits[of "CHR ''-''" n] by simp
  then show False by (simp add: is_digit_def)
qed

lemma int_str_inj [simp]: "int_str i = int_str j \<longleftrightarrow> i = j"
  using nat_str_no_minus nat_str_no_minus[symmetric]
  by (auto simp: int_str_def split: if_splits)

text \<open>The same rendering over binary integers, for evaluation.\<close>

function pos_str :: "int \<Rightarrow> string" where
  "pos_str i = (if i < 10 then [digit (nat i)] else pos_str (i div 10) @ [digit (nat (i mod 10))])"
  by pat_completeness auto

termination
  by (relation "measure nat") auto

declare pos_str.simps [simp del]

lemma pos_str_nat_str: "0 \<le> i \<Longrightarrow> pos_str i = nat_str (nat i)"
proof (induction i rule: pos_str.induct)
  case (1 i)
  then show ?case
    by (auto simp: pos_str.simps[of i] nat_str.simps[of "nat i"] nat_div_distrib nat_mod_distrib)
qed

lemma int_str_code [code]: "int_str i = (if i < 0 then CHR ''-'' # pos_str (- i) else pos_str i)"
  by (simp add: int_str_def pos_str_nat_str)

section \<open>Sequences\<close>

lemma Max_insert_max:
  "finite A \<Longrightarrow> Max (insert (max f x) A) = Max (insert f (insert (x :: 'a :: linorder) A))"
  by (cases "A = {}") (simp_all add: max.assoc)

text \<open>
  The last of the elements with the greatest key, as a loop
  \<^verbatim>\<open>if latest is None or key(x) >= key(latest): latest = x\<close> finds it.
\<close>

fun latest_from :: "('a \<Rightarrow> 'k :: linorder) \<Rightarrow> 'a option \<Rightarrow> 'a list \<Rightarrow> 'a option" where
  "latest_from f acc [] = acc"
| "latest_from f acc (x # xs) =
     latest_from f (case acc of None \<Rightarrow> Some x | Some y \<Rightarrow> if f y \<le> f x then Some x else acc) xs"

lemma latest_from_append:
  "latest_from f acc (xs @ ys) = latest_from f (latest_from f acc xs) ys"
  by (induction f acc xs rule: latest_from.induct) auto

lemma latest_from_Some: "latest_from f (Some a) xs \<noteq> None"
  by (induction xs arbitrary: a) (auto split: option.splits)

lemma latest_from_None_iff: "latest_from f None xs = None \<longleftrightarrow> xs = []"
  by (cases xs) (auto simp: latest_from_Some)

lemma latest_from_max:
  "latest_from f acc xs = Some x \<Longrightarrow>
    (x \<in> set xs \<or> acc = Some x) \<and> (\<forall>y \<in> set xs. f y \<le> f x) \<and> (\<forall>a. acc = Some a \<longrightarrow> f a \<le> f x)"
proof (induction f acc xs rule: latest_from.induct)
  case (2 f acc y ys)
  then show ?case by (cases acc) (auto split: if_splits)
qed simp

text \<open>Elements with increasing positions: the latest one has the greatest (key, position).\<close>

lemma latest_from_position:
  fixes i :: "'a \<Rightarrow> 'i :: linorder"
  assumes "sorted_wrt (<) (map i xs)" "\<And>a y. acc = Some a \<Longrightarrow> y \<in> set xs \<Longrightarrow> i a < i y"
    "latest_from f acc xs = Some x" "y \<in> set xs \<or> acc = Some y"
  shows "(f y, i y) \<le> (f x, i x)"
  using assms
proof (induction f acc xs arbitrary: y rule: latest_from.induct)
  case (1 f acc)
  then show ?case by simp
next
  case (2 f acc z zs)
  let ?acc = "case acc of None \<Rightarrow> Some z | Some y \<Rightarrow> if f y \<le> f z then Some z else acc"
  have s: "sorted_wrt (<) (map i zs)" "\<forall>w \<in> set zs. i z < i w" using "2.prems"(1) by auto
  have less: "i a < i w" if "?acc = Some a" "w \<in> set zs" for a w
    using that s(2) "2.prems"(2) by (cases acc) (auto split: if_splits)
  have l: "latest_from f ?acc zs = Some x" using "2.prems"(3) by simp
  note IH = "2.IH"[OF s(1) less l]
  obtain a where a: "?acc = Some a" by (cases acc; cases "f (the acc) \<le> f z") auto
  have ax: "(f a, i a) \<le> (f x, i x)" using IH a by blast
  have za: "(f w, i w) \<le> (f a, i a)" if "w = z \<or> acc = Some w" for w
    using that a "2.prems"(2)[of _ z] by (cases acc) (auto split: if_splits)
  show ?case
  proof (cases "y \<in> set zs")
    case True
    then show ?thesis using IH by blast
  next
    case False
    then have "y = z \<or> acc = Some y" using "2.prems"(4) by auto
    then show ?thesis by (rule order_trans[OF za ax])
  qed
qed

text \<open>The latest element and what stands before and after it.\<close>

lemma latest_from_split:
  "latest_from f None xs = Some x \<Longrightarrow> \<exists>pre post. xs = pre @ x # post
     \<and> (\<forall>y \<in> set pre. f y \<le> f x) \<and> (\<forall>y \<in> set post. f y < f x)"
proof (induction xs arbitrary: x rule: rev_induct)
  case (snoc z xs)
  show ?case
  proof (cases "latest_from f None xs")
    case None
    with snoc.prems have "xs = []" "x = z" by (auto simp: latest_from_append latest_from_None_iff)
    then show ?thesis by (intro exI[of _ "[]"]) simp
  next
    case (Some y)
    then obtain pre post where y: "xs = pre @ y # post" "\<forall>w \<in> set pre. f w \<le> f y" "\<forall>w \<in> set post. f w < f y"
      using snoc.IH by blast
    show ?thesis
    proof (cases "f y \<le> f z")
      case True
      with snoc.prems Some have "x = z" by (simp add: latest_from_append)
      with y True show ?thesis by (intro exI[of _ xs] exI[of _ "[]"]) fastforce
    next
      case False
      with snoc.prems Some have "x = y" by (simp add: latest_from_append)
      with y False show ?thesis by (intro exI[of _ pre] exI[of _ "post @ [z]"]) auto
    qed
  qed
qed simp

lemma filter_split:
  assumes "filter Q xs = pre @ x # post"
  shows "\<exists>us vs. xs = us @ x # vs \<and> Q x \<and> filter Q us = pre \<and> filter Q vs = post"
  using assms
proof (induction xs arbitrary: pre)
  case (Cons y ys)
  show ?case
  proof (cases "Q y \<and> pre = []")
    case True
    with Cons.prems show ?thesis by (intro exI[of _ "[]"] exI[of _ ys]) auto
  next
    case False
    then have "filter Q ys = (if Q y then tl pre else pre) @ x # post"
      using Cons.prems by (cases pre) auto
    from Cons.IH[OF this] obtain us vs where us: "ys = us @ x # vs" "Q x"
      "filter Q us = (if Q y then tl pre else pre)" "filter Q vs = post" by blast
    have "filter Q (y # us) = pre" using us(3) False Cons.prems by (cases pre) auto
    with us show ?thesis by (intro exI[of _ "y # us"] exI[of _ vs]) simp
  qed
qed simp

lemma latest_from_map: "latest_from f (map_option g acc) (map g xs) = map_option g (latest_from (f \<circ> g) acc xs)"
proof (induction xs arbitrary: acc)
  case (Cons x xs)
  show ?case by (cases acc) (simp_all add: Cons.IH[of "Some _", simplified])
qed simp

lemma list_all2_set1: "list_all2 P xs ys \<Longrightarrow> x \<in> set xs \<Longrightarrow> \<exists>y \<in> set ys. P x y"
  by (induction xs ys rule: list_all2_induct) auto

lemma list_all2_set2: "list_all2 P xs ys \<Longrightarrow> y \<in> set ys \<Longrightarrow> \<exists>x \<in> set xs. P x y"
  by (induction xs ys rule: list_all2_induct) auto

text \<open>The measure of a depth-first search: the known names outside the recursion stack.\<close>

lemma stack_decreases:
  assumes "finite A" "x \<in> A" "x \<notin> set visiting"
  shows "card (A - set (visiting @ [x])) < card (A - set visiting)"
  using assms by (intro psubset_card_mono) auto

lemma sort_mset_cong: "mset xs = mset ys \<Longrightarrow> sort xs = sort ys"
  by (rule properties_for_sort) (simp_all add: mset_sort)

text \<open>Splitting a text at the last occurrence of a character that the tail does not have.\<close>

lemma append_sep_unique_first:
  assumes "xs @ c # ys = xs' @ c # ys'" "c \<notin> set xs" "c \<notin> set xs'"
  shows "xs = xs' \<and> ys = ys'"
  using assms by (auto simp: append_eq_Cons_conv Cons_eq_append_conv append_eq_append_conv2)

lemma append_sep_unique:
  assumes "xs @ c # ys = xs' @ c # ys'" "c \<notin> set ys" "c \<notin> set ys'"
  shows "xs = xs' \<and> ys = ys'"
proof -
  from assms(1) have "rev (xs @ c # ys) = rev (xs' @ c # ys')" by (rule arg_cong)
  then have "rev ys @ c # rev xs = rev ys' @ c # rev xs'" by simp
  then have "rev ys = rev ys' \<and> rev xs = rev xs'"
    by (rule append_sep_unique_first) (use assms in simp_all)
  then show ?thesis by simp
qed

end
