(* ===== verification/KeyCodec.thy ===== *)
theory KeyCodec
  imports Prelude
begin

text \<open>
  The entity-key codec (fs_core/keycodec.py) and the EntityKey value object (fs_core/models.py):
  validation of the parts, canonical order, the encoded text, and the proofs that the encoding
  is canonical and loses nothing.
\<close>

section \<open>Encoding\<close>

text \<open>The characters \<^verbatim>\<open>_RESERVED\<close>, checked in this order.\<close>

definition reserved :: "char list" where
  "reserved = [CHR ''|'', CHR ''='']"

definition validate_part :: "string \<times> string \<Rightarrow> unit res" where
  "validate_part p =
     (let (name, value) = p in
      rbind (require (\<not> blank name) (ValueError ''entity key part name must be non-empty'')) (\<lambda>_.
      rbind (require (\<not> blank value) (ValueError ''entity key value must be non-empty'')) (\<lambda>_.
      for_each (\<lambda>(token, label).
        for_each (\<lambda>c. require (c \<notin> set token)
            (ValueError (''entity key '' @ label @ '' must not contain reserved character'')))
          reserved)
        [(name, ''name''), (value, ''value'')])))"

definition validate_key_order :: "(string, string) dict \<Rightarrow> string list \<Rightarrow> unit res" where
  "validate_key_order parts order =
     require (length order = length parts \<and> set order = set (dict_keys parts))
       (ValueError ''key_order must contain exactly the keys'')"

definition dict_index :: "(string, 'v) dict \<Rightarrow> string \<Rightarrow> 'v res" where
  "dict_index d k = (case map_of d k of None \<Rightarrow> Inl (KeyError k) | Some v \<Rightarrow> Inr v)"

definition encode_entity_key :: "(string, string) dict \<Rightarrow> string list option \<Rightarrow> string res" where
  "encode_entity_key parts key_order =
     rbind (require (parts \<noteq> []) (ValueError ''entity key must have at least one part'')) (\<lambda>_.
     rbind (for_each validate_part parts) (\<lambda>_.
     rbind (case key_order of
              None \<Rightarrow> Inr (sort (dict_keys parts))
            | Some order \<Rightarrow> rbind (validate_key_order parts order) (\<lambda>_. Inr order)) (\<lambda>ordered.
     rbind (map_res (\<lambda>name. rbind (dict_index parts name) (\<lambda>v. Inr (name @ ''='' @ v))) ordered)
       (\<lambda>ts. Inr (py_join ''|'' ts)))))"

section \<open>The EntityKey value object\<close>

record entity_key =
  ek_parts :: "(string \<times> string) list"

definition ek_encode :: "entity_key \<Rightarrow> string res" where
  "ek_encode k = encode_entity_key (dict_of (ek_parts k)) (Some (map fst (ek_parts k)))"

text \<open>The constructor runs \<open>ek_encode\<close> for its checks (\<^verbatim>\<open>__post_init__\<close>).\<close>

definition mk_entity_key :: "(string \<times> string) list \<Rightarrow> entity_key res" where
  "mk_entity_key parts =
     (let k = \<lparr>ek_parts = parts\<rparr> in rbind (ek_encode k) (\<lambda>_. Inr k))"

definition ek_from_mapping :: "(string, string) dict \<Rightarrow> string list option \<Rightarrow> entity_key res" where
  "ek_from_mapping parts key_order =
     rbind (encode_entity_key parts key_order) (\<lambda>_.
     rbind (map_res (\<lambda>name. rbind (dict_index parts name) (\<lambda>v. Inr (name, v)))
              (case key_order of Some order \<Rightarrow> order | None \<Rightarrow> sort (dict_keys parts)))
       mk_entity_key)"

text \<open>What the constructor guarantees, and the text that \<open>ek_encode\<close> then returns.\<close>

definition part_ok :: "string \<times> string \<Rightarrow> bool" where
  "part_ok p \<longleftrightarrow>
     \<not> blank (fst p) \<and> \<not> blank (snd p)
     \<and> (\<forall>c \<in> set reserved. c \<notin> set (fst p) \<and> c \<notin> set (snd p))"

definition ek_valid :: "entity_key \<Rightarrow> bool" where
  "ek_valid k \<longleftrightarrow>
     ek_parts k \<noteq> [] \<and> distinct (map fst (ek_parts k)) \<and> (\<forall>p \<in> set (ek_parts k). part_ok p)"

definition part_text :: "string \<times> string \<Rightarrow> string" where
  "part_text p = fst p @ ''='' @ snd p"

definition ek_text :: "entity_key \<Rightarrow> string" where
  "ek_text k = py_join ''|'' (map part_text (ek_parts k))"

lemma validate_part_Inr [simp, res_simps]: "validate_part p = Inr u \<longleftrightarrow> part_ok p"
  by (cases p) (auto simp: validate_part_def part_ok_def reserved_def)

lemma dict_index_Inr [simp]: "dict_index d k = Inr v \<longleftrightarrow> map_of d k = Some v"
  by (auto simp: dict_index_def split: option.splits)

lemma dict_of_length_le: "length (dict_of kvs) = card (fst ` set kvs)"
proof -
  have "length (dict_of kvs) = card (set (dict_keys (dict_of kvs)))"
    using distinct_card[OF dict_of_wf[of kvs]] by (simp add: dict_keys_def)
  then show ?thesis by (simp add: dict_of_keys)
qed

lemma map_res_lookup:
  assumes "\<And>n. n \<in> set ns \<Longrightarrow> map_of d n = Some (f n)"
  shows "map_res (\<lambda>n. rbind (dict_index d n) (\<lambda>v. Inr (g n v))) ns = Inr (map (\<lambda>n. g n (f n)) ns)"
  using assms by (intro map_res_all_Inr) (simp add: dict_index_def)

lemma map_res_lookup_items:
  assumes "distinct (map fst kvs)"
  shows "map_res (\<lambda>n. rbind (dict_index kvs n) (\<lambda>v. Inr (g n v))) (map fst kvs)
    = Inr (map (\<lambda>(n, v). g n v) kvs)"
proof -
  have "map_res (\<lambda>n. rbind (dict_index kvs n) (\<lambda>v. Inr (g n v))) (map fst kvs)
      = Inr (map (\<lambda>n. g n (the (map_of kvs n))) (map fst kvs))"
    by (rule map_res_lookup) (auto simp: map_of_eq_None_iff)
  moreover have "map (\<lambda>n. g n (the (map_of kvs n))) (map fst kvs) = map (\<lambda>(n, v). g n v) kvs"
    using assms by (auto simp: map_of_eq_Some_iff)
  ultimately show ?thesis by simp
qed

lemma map_res_lookup_Inr:
  "map_res (\<lambda>n. rbind (dict_index d n) (\<lambda>v. Inr (g n v))) ns = Inr ys \<Longrightarrow>
     ys = map (\<lambda>n. g n (the (map_of d n))) ns"
  by (induction ns arbitrary: ys) auto

lemma part_text_split: "(\<lambda>(n, v). n @ CHR ''='' # v) = part_text"
  by (auto simp: part_text_def)

lemma ek_encode_valid: "ek_valid k \<Longrightarrow> ek_encode k = Inr (ek_text k)"
  unfolding ek_valid_def ek_encode_def encode_entity_key_def ek_text_def
  by (auto simp: dict_of_distinct validate_key_order_def dict_keys_def map_res_lookup_items
      part_text_split for_each_Inr_iff[of validate_part, THEN iffD2])

lemma dict_of_mem: "p \<in> set (dict_of kvs) \<Longrightarrow> p \<in> set kvs"
  by (metis dict_of_lookup_Some dict_of_wf dict_keys_def map_of_is_SomeI prod.collapse)

lemma ek_encode_Inr: "ek_encode k = Inr s \<Longrightarrow> ek_valid k \<and> s = ek_text k"
proof -
  assume a: "ek_encode k = Inr s"
  let ?ps = "ek_parts k"
  from a have ne: "dict_of ?ps \<noteq> []" and ok: "\<forall>p \<in> set (dict_of ?ps). part_ok p"
    and len: "length ?ps = length (dict_of ?ps)"
    by (auto simp: ek_encode_def encode_entity_key_def validate_key_order_def)
  from len have "card (set (map fst ?ps)) = length (map fst ?ps)"
    by (simp add: dict_of_length_le)
  then have d: "distinct (map fst ?ps)" by (rule card_distinct)
  with ne ok have "ek_valid k" by (simp add: ek_valid_def dict_of_distinct)
  with a show ?thesis by (simp add: ek_encode_valid)
qed

lemma mk_entity_key_Inr [simp, res_simps]:
  "mk_entity_key ps = Inr k \<longleftrightarrow> k = \<lparr>ek_parts = ps\<rparr> \<and> ek_valid k"
  by (auto simp: mk_entity_key_def Let_def ek_encode_valid dest: ek_encode_Inr)

section \<open>The encoding is injective\<close>

lemma py_join_inj:
  assumes "py_join [c] xs = py_join [c] ys" "xs \<noteq> []" "ys \<noteq> []"
    "\<forall>x \<in> set xs. c \<notin> set x" "\<forall>y \<in> set ys. c \<notin> set y"
  shows "xs = ys"
  using assms
proof (induction "[c]" xs arbitrary: ys rule: py_join.induct)
  case 1
  then show ?case by simp
next
  case (2 x)
  then show ?case by (cases ys; cases "tl ys") (auto simp: neq_Nil_conv)
next
  case (3 x y zs)
  then obtain u us where ys: "ys = u # us" by (cases ys) auto
  with 3 obtain w ws where us: "us = w # ws" by (cases us) auto
  from 3 ys us have "x @ c # py_join [c] (y # zs) = u @ c # py_join [c] (w # ws)" by simp
  then have "x = u \<and> py_join [c] (y # zs) = py_join [c] (w # ws)"
    by (rule append_sep_unique_first) (use 3 ys in auto)
  with 3 ys us show ?case by auto
qed

lemma part_text_inj:
  assumes "part_ok p" "part_ok q" "part_text p = part_text q"
  shows "p = q"
  using append_sep_unique_first[of "fst p" "CHR ''=''" "snd p" "fst q" "snd q"] assms
  by (simp add: part_ok_def reserved_def prod_eq_iff part_text_def)

lemma ek_text_inj:
  assumes "ek_valid a" "ek_valid b" "ek_text a = ek_text b"
  shows "a = b"
proof -
  have "map part_text (ek_parts a) = map part_text (ek_parts b)"
    using assms by (intro py_join_inj)
      (auto simp: ek_valid_def ek_text_def part_ok_def reserved_def part_text_def)
  then have "ek_parts a = ek_parts b"
  proof (rule map_inj_on)
    show "inj_on part_text (set (ek_parts a) \<union> set (ek_parts b))"
      using assms(1,2) part_text_inj unfolding inj_on_def ek_valid_def by blast
  qed
  then show ?thesis by simp
qed

section \<open>The encoding is canonical\<close>

lemma sort_keys_perm:
  assumes "distinct (dict_keys d)" "distinct (dict_keys e)" "set d = set e"
  shows "sort (dict_keys d) = sort (dict_keys e)"
  using assms by (intro sorted_distinct_set_unique) (auto simp: dict_keys_def)

lemma map_of_perm:
  assumes "distinct (dict_keys d)" "distinct (dict_keys e)" "set d = set e"
  shows "map_of d = map_of e"
  using assms by (simp add: dict_keys_def map_of_inject_set)

lemma from_mapping_valid:
  assumes "ek_from_mapping d order = Inr k"
  shows "ek_valid k \<and> encode_entity_key d order = Inr (ek_text k)"
proof -
  let ?ns = "case order of Some order \<Rightarrow> order | None \<Rightarrow> sort (dict_keys d)"
  let ?f = "\<lambda>n. the (map_of d n)"
  from assms obtain s ps where s: "encode_entity_key d order = Inr s"
    and ps: "map_res (\<lambda>n. rbind (dict_index d n) (\<lambda>v. Inr (n, v))) ?ns = Inr ps"
    and k: "k = \<lparr>ek_parts = ps\<rparr>" "ek_valid k"
    by (auto simp: ek_from_mapping_def)
  from ps have "ps = map (\<lambda>n. (n, ?f n)) ?ns" by (rule map_res_lookup_Inr)
  moreover from s obtain ts where
    ts: "map_res (\<lambda>n. rbind (dict_index d n) (\<lambda>v. Inr (n @ ''='' @ v))) ?ns = Inr ts"
    and join: "s = py_join ''|'' ts"
    by (auto simp: encode_entity_key_def split: option.splits)
  moreover from ts have "ts = map (\<lambda>n. n @ ''='' @ ?f n) ?ns" by (rule map_res_lookup_Inr)
  ultimately have "s = ek_text k" by (simp add: k(1) ek_text_def part_text_def comp_def)
  with s k(2) show ?thesis by simp
qed

text \<open>Without an explicit order, any two dicts with the same items give the same key.\<close>

lemma from_mapping_canonical:
  assumes "dict_wf d" "dict_wf e" "set d = set e"
    "ek_from_mapping d None = Inr k" "ek_from_mapping e None = Inr k'"
  shows "k = k'"
proof -
  have "sort (dict_keys d) = sort (dict_keys e)" using assms(1-3) by (rule sort_keys_perm)
  moreover have "map_of d = map_of e" using assms(1-3) by (rule map_of_perm)
  ultimately show ?thesis using assms(4,5) by (auto simp: ek_from_mapping_def dict_index_def)
qed

lemma from_mapping_order:
  assumes "dict_wf d" "dict_wf e" "set d = set e" "ek_from_mapping d None = Inr k"
  shows "ek_from_mapping e None = Inr k"
proof -
  have s: "sort (dict_keys d) = sort (dict_keys e)" using assms(1-3) by (rule sort_keys_perm)
  have m: "dict_index d = dict_index e" using map_of_perm[OF assms(1-3)] by (simp add: dict_index_def fun_eq_iff)
  have "d \<noteq> []" "\<forall>p \<in> set d. part_ok p" using assms(4) by (auto simp: ek_from_mapping_def encode_entity_key_def)
  then have "e \<noteq> []" "\<forall>p \<in> set e. part_ok p" using assms(3) by auto
  then show ?thesis
    using assms(4) unfolding ek_from_mapping_def encode_entity_key_def s m by auto
qed

end
