(* ===== verification/PyTime.thy ===== *)
theory PyTime
  imports Prelude "HOL-Library.Monad_Syntax"
begin

text \<open>
  Python's datetime as the program uses it: calendar fields plus an optional fixed UTC offset,
  comparison through the absolute instant in microseconds, the ISO text form and its parser.
  A timedelta is an integer number of microseconds.
\<close>

section \<open>Values and instants\<close>

record datetime =
  year :: nat
  month :: nat
  day :: nat
  hour :: nat
  minute :: nat
  second :: nat
  microsecond :: nat
  utcoff :: "int option"  \<comment> \<open>utcoffset in microseconds; None for a naive value\<close>

type_synonym timedelta = int

definition aware :: "datetime \<Rightarrow> bool" where
  "aware d \<longleftrightarrow> utcoff d \<noteq> None"

definition is_leap :: "nat \<Rightarrow> bool" where
  "is_leap y \<longleftrightarrow> y mod 4 = 0 \<and> (y mod 100 \<noteq> 0 \<or> y mod 400 = 0)"

definition days_in_month :: "nat \<Rightarrow> nat \<Rightarrow> nat" where
  "days_in_month y m =
     (if m = 2 then (if is_leap y then 29 else 28)
      else if m \<in> {4, 6, 9, 11} then 30 else 31)"

definition days_before_year :: "nat \<Rightarrow> int" where
  "days_before_year y =
     (let z = int y - 1 in z * 365 + z div 4 - z div 100 + z div 400)"

fun days_before_month :: "nat \<Rightarrow> nat \<Rightarrow> nat" where
  "days_before_month y 0 = 0"
| "days_before_month y (Suc m) =
     (if m = 0 then 0 else days_before_month y m + days_in_month y m)"

text \<open>The proleptic Gregorian ordinal of \<^verbatim>\<open>date.toordinal\<close>; 1970-01-01 is day 719163.\<close>

definition ordinal :: "datetime \<Rightarrow> int" where
  "ordinal d = days_before_year (year d) + int (days_before_month (year d) (month d)) + int (day d)"

definition us_per_day :: int where
  "us_per_day = 86400000000"

text \<open>Microseconds of the wall clock since 1970-01-01T00:00.\<close>

definition wall_us :: "datetime \<Rightarrow> int" where
  "wall_us d =
     (ordinal d - 719163) * us_per_day
     + ((int (hour d) * 60 + int (minute d)) * 60 + int (second d)) * 1000000
     + int (microsecond d)"

text \<open>The absolute instant, in microseconds of UTC since the epoch.\<close>

definition instant :: "datetime \<Rightarrow> int" where
  "instant d = wall_us d - (case utcoff d of None \<Rightarrow> 0 | Some off \<Rightarrow> off)"

text \<open>
  Ordering two datetimes raises TypeError when exactly one is naive. The order of aware
  values is the order of their instants, whatever their offsets.
\<close>

definition dt_compare :: "(int \<Rightarrow> int \<Rightarrow> bool) \<Rightarrow> datetime \<Rightarrow> datetime \<Rightarrow> bool res" where
  "dt_compare r a b =
     (if aware a = aware b then Inr (r (instant a) (instant b))
      else Inl (TypeError ''can't compare offset-naive and offset-aware datetimes''))"

text \<open>Equality never raises: values of different awareness are unequal.\<close>

definition dt_eq :: "datetime \<Rightarrow> datetime \<Rightarrow> bool" where
  "dt_eq a b \<longleftrightarrow> aware a = aware b \<and> instant a = instant b"

fun opt_dt_eq :: "datetime option \<Rightarrow> datetime option \<Rightarrow> bool" where
  "opt_dt_eq None None = True"
| "opt_dt_eq (Some a) (Some b) = dt_eq a b"
| "opt_dt_eq _ _ = False"

definition require_aware :: "datetime \<Rightarrow> unit res" where
  "require_aware d = require (aware d) (ValueError ''must be timezone-aware'')"

definition require_aware_opt :: "datetime option \<Rightarrow> unit res" where
  "require_aware_opt d = (case d of None \<Rightarrow> Inr () | Some v \<Rightarrow> require_aware v)"

abbreviation aware_opt :: "datetime option \<Rightarrow> bool" where
  "aware_opt d \<equiv> (\<forall>v. d = Some v \<longrightarrow> aware v)"

lemma require_aware_Inr [simp, res_simps]: "require_aware d = Inr u \<longleftrightarrow> aware d"
  by (simp add: require_aware_def)

lemma require_aware_opt_Inr [simp, res_simps]: "require_aware_opt d = Inr u \<longleftrightarrow> aware_opt d"
  by (auto simp: require_aware_opt_def split: option.splits)

lemma dt_compare_aware [simp]:
  "aware a \<Longrightarrow> aware b \<Longrightarrow> dt_compare r a b = Inr (r (instant a) (instant b))"
  by (simp add: dt_compare_def)

lemma dt_eq_refl [simp]: "dt_eq a a"
  by (simp add: dt_eq_def)

lemma dt_eq_sym: "dt_eq a b \<longleftrightarrow> dt_eq b a"
  by (auto simp: dt_eq_def)

lemma dt_eq_trans: "dt_eq a b \<Longrightarrow> dt_eq b c \<Longrightarrow> dt_eq a c"
  by (simp add: dt_eq_def)

lemma opt_dt_eq_refl [simp]: "opt_dt_eq a a"
  by (cases a) simp_all

lemma opt_dt_eq_sym: "opt_dt_eq a b \<longleftrightarrow> opt_dt_eq b a"
  by (cases a; cases b) (simp_all add: dt_eq_sym)

lemma opt_dt_eq_trans: "opt_dt_eq a b \<Longrightarrow> opt_dt_eq b c \<Longrightarrow> opt_dt_eq a c"
  by (cases a; cases b; cases c) (auto intro: dt_eq_trans)

text \<open>The field ranges that Python's constructor enforces.\<close>

definition datetime_valid :: "datetime \<Rightarrow> bool" where
  "datetime_valid d \<longleftrightarrow>
     1 \<le> year d \<and> year d \<le> 9999 \<and> 1 \<le> month d \<and> month d \<le> 12
     \<and> 1 \<le> day d \<and> day d \<le> days_in_month (year d) (month d)
     \<and> hour d < 24 \<and> minute d < 60 \<and> second d < 60 \<and> microsecond d < 1000000
     \<and> (case utcoff d of None \<Rightarrow> True | Some off \<Rightarrow> \<bar>off\<bar> < us_per_day)"

section \<open>In UTC an instant determines its fields\<close>

definition year_length :: "nat \<Rightarrow> int" where
  "year_length y = (if is_leap y then 366 else 365)"

lemma div_pred:
  fixes z k :: int
  assumes "0 < k"
  shows "z div k = (z - 1) div k + (if z mod k = 0 then 1 else 0)"
proof (cases "z mod k = 0")
  case True
  then have "z - 1 = k * (z div k - 1) + (k - 1)"
    using mult_div_mod_eq[of k z] by (simp add: right_diff_distrib)
  then have "(z - 1) div k = z div k - 1" by (rule int_div_pos_eq) (use assms in simp_all)
  with True show ?thesis by simp
next
  case False
  have r: "0 \<le> z mod k" "z mod k < k" using assms by simp_all
  with False have "0 < z mod k" by (metis order_le_less)
  with r have r': "0 \<le> z mod k - 1" "z mod k - 1 < k" by linarith+
  have "z - 1 = k * (z div k) + (z mod k - 1)" using mult_div_mod_eq[of k z] by simp
  then have "(z - 1) div k = z div k" using r' by (rule int_div_pos_eq)
  with False show ?thesis by simp
qed

lemma mixed_radix:
  fixes a a' :: int and u u' k :: nat
  assumes "a * int k + int u = a' * int k + int u'" "u < k" "u' < k"
  shows "a = a' \<and> u = u'"
proof -
  have "(a * int k + int u) div int k = a" "(a' * int k + int u') div int k = a'"
    using assms(2,3) by (auto intro!: int_div_pos_eq)
  with assms(1) have "a = a'" by simp
  with assms(1) show ?thesis by simp
qed

lemma leap_days:
  "c \<longrightarrow> b \<Longrightarrow> b \<longrightarrow> a \<Longrightarrow> (if a \<and> (\<not> b \<or> c) then 366 else 365 :: int)
    = 365 + (if a then 1 else 0) - (if b then 1 else 0) + (if c then 1 else 0)"
  by (cases a; cases b; cases c) simp_all

lemma days_before_year_Suc: "1 \<le> y \<Longrightarrow> days_before_year (Suc y) = days_before_year y + year_length y"
proof -
  assume "1 \<le> y"
  have leap: "is_leap y \<longleftrightarrow> int y mod 4 = 0 \<and> (int y mod 100 \<noteq> 0 \<or> int y mod 400 = 0)"
    unfolding is_leap_def using zmod_int[of y 4] zmod_int[of y 100] zmod_int[of y 400]
    by (metis of_nat_eq_0_iff of_nat_numeral)
  have "int y mod 400 = 0 \<Longrightarrow> int y mod 100 = 0" "int y mod 100 = 0 \<Longrightarrow> int y mod 4 = 0" by presburger+
  note imp = this
  have s: "days_before_year (Suc y) = int y * 365 + int y div 4 - int y div 100 + int y div 400"
    by (simp add: days_before_year_def Let_def)
  have t: "days_before_year y
      = (int y - 1) * 365 + (int y - 1) div 4 - (int y - 1) div 100 + (int y - 1) div 400"
    by (simp add: days_before_year_def Let_def)
  have d4: "int y div 4 = (int y - 1) div 4 + (if int y mod 4 = 0 then 1 else 0)"
    and d100: "int y div 100 = (int y - 1) div 100 + (if int y mod 100 = 0 then 1 else 0)"
    and d400: "int y div 400 = (int y - 1) div 400 + (if int y mod 400 = 0 then 1 else 0)"
    by (rule div_pred, simp)+
  have "year_length y = 365 + (if int y mod 4 = 0 then 1 else 0)
      - (if int y mod 100 = 0 then 1 else 0) + (if int y mod 400 = 0 then 1 else 0)"
    unfolding year_length_def leap by (rule leap_days) (rule impI, erule imp)+
  with d4 d100 d400 show ?thesis unfolding s t by (simp only: left_diff_distrib)
qed

lemma days_before_year_mono: "1 \<le> y \<Longrightarrow> y < y' \<Longrightarrow> days_before_year y + year_length y \<le> days_before_year y'"
proof (induction y')
  case (Suc y')
  then show ?case
    by (cases "y = y'") (auto simp: days_before_year_Suc year_length_def)
qed simp

lemma days_before_month_mono:
  "1 \<le> m \<Longrightarrow> m < m' \<Longrightarrow> days_before_month y m + days_in_month y m \<le> days_before_month y m'"
proof (induction m')
  case (Suc m')
  then show ?case by (cases "m = m'") auto
qed simp

lemma days_before_december: "int (days_before_month y 12) + 31 = year_length y"
  by (simp add: year_length_def days_in_month_def numeral_eq_Suc)

lemma day_of_year_bound:
  assumes "1 \<le> m" "m \<le> 12" "1 \<le> d" "d \<le> days_in_month y m"
  shows "int (days_before_month y m) + int d \<le> year_length y"
proof (cases "m = 12")
  case True
  with assms days_before_december[of y] show ?thesis by (simp add: days_in_month_def)
next
  case False
  with assms days_before_month_mono[of m 12 y] days_before_december[of y] show ?thesis by simp
qed

lemma ordinal_inj:
  assumes "datetime_valid a" "datetime_valid b" "ordinal a = ordinal b"
  shows "year a = year b \<and> month a = month b \<and> day a = day b"
proof -
  have less: False if v: "datetime_valid a" "datetime_valid b" and lt: "year a < year b"
    and eq: "ordinal a = ordinal b" for a b :: datetime
    using v day_of_year_bound[of "month a" "day a" "year a"] days_before_year_mono[of "year a" "year b"] lt eq
    by (auto simp: datetime_valid_def ordinal_def)
  have y: "year a = year b"
    using less[of a b] less[of b a] assms by (metis linorder_neqE_nat)
  have lessm: False if v: "datetime_valid a" "datetime_valid b" and lt: "month a < month b"
    and y: "year a = year b" and eq: "ordinal a = ordinal b" for a b :: datetime
    using v days_before_month_mono[of "month a" "month b" "year a"] lt eq y
    by (auto simp: datetime_valid_def ordinal_def)
  have m: "month a = month b"
    using lessm[of a b] lessm[of b a] assms y by (metis linorder_neqE_nat)
  show ?thesis using y m assms(3) by (simp add: ordinal_def)
qed

lemma time_of_day_inj:
  fixes h h' m m' s s' u u' :: nat
  assumes "((int h * 60 + int m) * 60 + int s) * 1000000 + int u
         = ((int h' * 60 + int m') * 60 + int s') * 1000000 + int u'"
    "m < 60" "m' < 60" "s < 60" "s' < 60" "u < 1000000" "u' < 1000000"
  shows "h = h' \<and> m = m' \<and> s = s' \<and> u = u'"
proof -
  have "((int h * 60 + int m) * 60 + int s) * int 1000000 + int u
      = ((int h' * 60 + int m') * 60 + int s') * int 1000000 + int u'"
    using assms(1) by (simp only: of_nat_numeral)
  from mixed_radix[OF this assms(6,7)]
  have 1: "(int h * 60 + int m) * int 60 + int s = (int h' * 60 + int m') * int 60 + int s'"
    and u: "u = u'" by (simp_all only: of_nat_numeral)
  from mixed_radix[OF 1 assms(4,5)]
  have 2: "int h * int 60 + int m = int h' * int 60 + int m'" and s: "s = s'"
    by (simp_all only: of_nat_numeral)
  from mixed_radix[OF 2 assms(2,3)] have "h = h'" "m = m'" by simp_all
  with s u show ?thesis by simp
qed

lemma wall_us_inj:
  assumes v: "datetime_valid a" "datetime_valid b" and eq: "wall_us a = wall_us b"
    and off: "utcoff a = utcoff b"
  shows "a = b"
proof -
  let ?t = "\<lambda>d. ((int (hour d) * 60 + int (minute d)) * 60 + int (second d)) * 1000000 + int (microsecond d)"
  have t: "0 \<le> ?t d \<and> ?t d < us_per_day" if "datetime_valid d" for d
  proof -
    from that have "hour d \<le> 23" "minute d \<le> 59" "second d \<le> 59" "microsecond d \<le> 999999"
      by (auto simp: datetime_valid_def)
    then have "int (hour d) \<le> 23" "int (minute d) \<le> 59" "int (second d) \<le> 59"
      "int (microsecond d) \<le> 999999" by linarith+
    then have "?t d \<le> ((23 * 60 + 59) * 60 + 59) * 1000000 + 999999"
      by (intro add_mono mult_right_mono) simp_all
    then show ?thesis by (simp add: us_per_day_def)
  qed
  have o: "(wall_us d) div us_per_day = ordinal d - 719163" if "datetime_valid d" for d
    using t[OF that] by (simp add: wall_us_def us_per_day_def)
  have ord: "ordinal a = ordinal b" using o[OF v(1)] o[OF v(2)] eq by simp
  from ordinal_inj[OF v ord] have date: "year a = year b" "month a = month b" "day a = day b" by auto
  have "?t a = ?t b" using eq ord by (simp add: wall_us_def)
  then have "hour a = hour b \<and> minute a = minute b \<and> second a = second b \<and> microsecond a = microsecond b"
    by (rule time_of_day_inj) (use v in \<open>auto simp: datetime_valid_def\<close>)
  with date off show ?thesis by (cases a; cases b) simp
qed

lemma instant_inj_offset:
  "datetime_valid a \<Longrightarrow> datetime_valid b \<Longrightarrow> utcoff a = utcoff b \<Longrightarrow> instant a = instant b \<Longrightarrow> a = b"
  by (auto simp: instant_def intro: wall_us_inj)

text \<open>A UTC value given by its fields, for concrete instances.\<close>

definition utc :: "nat \<Rightarrow> nat \<Rightarrow> nat \<Rightarrow> nat \<Rightarrow> datetime" where
  "utc y m d h = \<lparr>year = y, month = m, day = d, hour = h, minute = 0, second = 0,
     microsecond = 0, utcoff = Some 0\<rparr>"

lemma aware_utc [simp]: "aware (utc y m d h)"
  by (simp add: utc_def aware_def)

lemma instant_utc:
  "instant (utc y m d h) =
     (days_before_year y + int (days_before_month y m) + int d - 719163) * us_per_day
     + int h * 3600000000"
  by (simp add: instant_def utc_def wall_us_def ordinal_def)

section \<open>The ISO text form\<close>

definition pad2 :: "nat \<Rightarrow> string" where
  "pad2 n = [digit (n div 10 mod 10), digit (n mod 10)]"

definition pad4 :: "nat \<Rightarrow> string" where
  "pad4 n = pad2 (n div 100) @ pad2 (n mod 100)"

definition pad6 :: "nat \<Rightarrow> string" where
  "pad6 n = pad2 (n div 10000) @ pad4 (n mod 10000)"

text \<open>The optional fraction that isoformat prints only when it is not zero.\<close>

definition iso_fraction :: "nat \<Rightarrow> string" where
  "iso_fraction us = (if us = 0 then [] else CHR ''.'' # pad6 us)"

definition iso_offset :: "int \<Rightarrow> string" where
  "iso_offset off =
     (let a = nat \<bar>off\<bar>; us = a mod 1000000; s = a div 1000000; ss = s mod 60; m = s div 60
      in (if off < 0 then CHR ''-'' else CHR ''+'')
         # pad2 (m div 60) @ CHR '':'' # pad2 (m mod 60)
         @ (if ss = 0 \<and> us = 0 then [] else CHR '':'' # pad2 ss @ iso_fraction us))"

definition isoformat :: "datetime \<Rightarrow> string" where
  "isoformat d =
     pad4 (year d) @ CHR ''-'' # pad2 (month d) @ CHR ''-'' # pad2 (day d)
     @ CHR ''T'' # pad2 (hour d) @ CHR '':'' # pad2 (minute d) @ CHR '':'' # pad2 (second d)
     @ iso_fraction (microsecond d)
     @ (case utcoff d of None \<Rightarrow> [] | Some off \<Rightarrow> iso_offset off)"

text \<open>
  The parser reads exactly the extended form that isoformat writes (the only form the stores
  and events of the program hold).
\<close>

fun take_digits :: "nat \<Rightarrow> string \<Rightarrow> nat \<Rightarrow> (nat \<times> string) option" where
  "take_digits 0 s acc = Some (acc, s)"
| "take_digits (Suc n) [] acc = None"
| "take_digits (Suc n) (c # s) acc =
     (if is_digit c then take_digits n s (10 * acc + digit_val c) else None)"

fun expect :: "char \<Rightarrow> string \<Rightarrow> string option" where
  "expect c [] = None"
| "expect c (d # s) = (if c = d then Some s else None)"

definition take_sep :: "char \<Rightarrow> nat \<Rightarrow> string \<Rightarrow> (nat \<times> string) option" where
  "take_sep c n s = Option.bind (expect c s) (\<lambda>s. take_digits n s 0)"

text \<open>An optional fraction: absent means zero.\<close>

definition take_fraction :: "string \<Rightarrow> (nat \<times> string) option" where
  "take_fraction s =
     (if s \<noteq> [] \<and> hd s = CHR ''.'' then take_sep (CHR ''.'') 6 s else Some (0, s))"

definition take_offset :: "string \<Rightarrow> int option option" where
  "take_offset s =
     (if s = [] then Some None
      else if hd s = CHR ''+'' \<or> hd s = CHR ''-'' then
        do {
          (h, s1) \<leftarrow> take_digits 2 (tl s) 0;
          (m, s2) \<leftarrow> take_sep (CHR '':'') 2 s1;
          (ss, s3) \<leftarrow> (if s2 = [] then Some (0, s2) else take_sep (CHR '':'') 2 s2);
          (us, s4) \<leftarrow> take_fraction s3;
          let a = int (((h * 60 + m) * 60 + ss) * 1000000 + us);
          if s4 = [] \<and> m < 60 \<and> ss < 60 \<and> a < us_per_day
          then Some (Some (if hd s = CHR ''-'' then - a else a)) else None
        }
      else None)"

definition parse_iso :: "string \<Rightarrow> datetime option" where
  "parse_iso s0 =
     do {
       (y, s) \<leftarrow> take_digits 4 s0 0;
       (mo, s) \<leftarrow> take_sep (CHR ''-'') 2 s;
       (d, s) \<leftarrow> take_sep (CHR ''-'') 2 s;
       (h, s) \<leftarrow> take_sep (CHR ''T'') 2 s;
       (mi, s) \<leftarrow> take_sep (CHR '':'') 2 s;
       (se, s) \<leftarrow> take_sep (CHR '':'') 2 s;
       (us, s) \<leftarrow> take_fraction s;
       off \<leftarrow> take_offset s;
       let dt = \<lparr>year = y, month = mo, day = d, hour = h, minute = mi, second = se,
                 microsecond = us, utcoff = off\<rparr>;
       if datetime_valid dt then Some dt else None
     }"

definition fromisoformat :: "string \<Rightarrow> datetime res" where
  "fromisoformat s =
     (case parse_iso s of None \<Rightarrow> Inl (ValueError ''Invalid isoformat string'') | Some d \<Rightarrow> Inr d)"

lemma take_digits_pad2: "n < 100 \<Longrightarrow> take_digits 2 (pad2 n @ s) a = Some (100 * a + n, s)"
  by (simp add: pad2_def numeral_2_eq_2)

lemma take_digits_add:
  "take_digits (m + n) s a = Option.bind (take_digits m s a) (\<lambda>(b, t). take_digits n t b)"
  by (induction m s a rule: take_digits.induct) auto

lemma take_digits_pad4: "n < 10000 \<Longrightarrow> take_digits 4 (pad4 n @ s) a = Some (10000 * a + n, s)"
  using take_digits_add[of 2 2 "pad4 n @ s" a]
  by (simp add: pad4_def take_digits_pad2 append_assoc)

lemma take_digits_pad6: "n < 1000000 \<Longrightarrow> take_digits 6 (pad6 n @ s) a = Some (1000000 * a + n, s)"
  using take_digits_add[of 2 4 "pad6 n @ s" a]
  by (simp add: pad6_def take_digits_pad2 take_digits_pad4 append_assoc)

lemma take_sep_pad2 [simp]: "n < 100 \<Longrightarrow> take_sep c 2 (c # pad2 n @ s) = Some (n, s)"
  by (simp add: take_sep_def take_digits_pad2)

lemma take_sep_pad2_end [simp]: "n < 100 \<Longrightarrow> take_sep c 2 (c # pad2 n) = Some (n, [])"
  using take_sep_pad2[of n c "[]"] by simp

lemma take_fraction_iso:
  assumes "us < 1000000" "s = [] \<or> hd s \<noteq> CHR ''.''"
  shows "take_fraction (iso_fraction us @ s) = Some (us, s)"
  using assms take_digits_pad6[of us s 0]
  by (auto simp: take_fraction_def iso_fraction_def take_sep_def)

lemma take_offset_iso:
  assumes "\<bar>off\<bar> < us_per_day"
  shows "take_offset (iso_offset off) = Some (Some off)"
proof -
  define a where "a = nat \<bar>off\<bar>"
  define us where "us = a mod 1000000"
  define s where "s = a div 1000000"
  have a: "a = s * 1000000 + us" "us < 1000000" by (simp_all add: us_def s_def)
  have "a < 86400000000" using assms by (simp add: a_def us_per_day_def)
  with a have s: "s < 86400" by linarith
  then have h: "s div 60 div 60 < 100" "s div 60 mod 60 < 100" "s mod 60 < 100" by (simp_all; linarith)+
  have eq: "((s div 60 div 60 * 60 + s div 60 mod 60) * 60 + s mod 60) * 1000000 + us = a"
    using a by simp
  have sign: "off < 0 \<Longrightarrow> - int a = off" "\<not> off < 0 \<Longrightarrow> int a = off" by (simp_all add: a_def)
  have rest: "(if t = [] then Some (0, t) else take_sep (CHR '':'') 2 t)
      = Some (s mod 60, iso_fraction us)"
    if "t = (if s mod 60 = 0 \<and> us = 0 then [] else CHR '':'' # pad2 (s mod 60) @ iso_fraction us)" for t
    using that h(3) by (auto simp: iso_fraction_def)
  have fr: "take_fraction (iso_fraction us) = Some (us, [])"
    using take_fraction_iso[of us "[]"] a(2) by simp
  have "take_digits 2 (pad2 (s div 60 div 60) @ t) 0 = Some (s div 60 div 60, t)" for t
    using take_digits_pad2[of "s div 60 div 60" t 0] h(1) by simp
  note step = this take_sep_pad2[OF h(2)] rest[OF refl] fr
  have "int a < us_per_day" using assms by (simp add: a_def)
  moreover have "3600000000 * int (s div 60 div 60) + 60000000 * int (s div 60 mod 60)
      + int (s mod 60) * 1000000 + int us = int a"
    using a(1) mult_div_mod_eq[of 60 s] mult_div_mod_eq[of 60 "s div 60"] by linarith
  ultimately show ?thesis
    unfolding take_offset_def iso_offset_def Let_def a_def[symmetric] us_def[symmetric] s_def[symmetric]
    using step sign eq by (simp add: Let_def)
qed

lemma iso_offset_head: "iso_offset off \<noteq> [] \<and> hd (iso_offset off) \<noteq> CHR ''.''"
  by (simp add: iso_offset_def Let_def)

lemma parse_iso_isoformat:
  assumes "datetime_valid d"
  shows "parse_iso (isoformat d) = Some d"
proof -
  have dim: "days_in_month y m \<le> 31" for y m by (simp add: days_in_month_def)
  note v = assms[unfolded datetime_valid_def]
  have b: "year d < 10000" "month d < 100" "day d < 100" "hour d < 100" "minute d < 100"
      "second d < 100" "microsecond d < 1000000"
    using v dim[of "year d" "month d"] by auto
  let ?tail = "case utcoff d of None \<Rightarrow> [] | Some off \<Rightarrow> iso_offset off"
  have tail: "take_offset ?tail = Some (utcoff d)"
    using v by (auto simp: take_offset_iso split: option.splits) (simp add: take_offset_def)
  have fr: "take_fraction (iso_fraction (microsecond d) @ ?tail) = Some (microsecond d, ?tail)"
    using b(7) by (intro take_fraction_iso) (auto simp: iso_offset_head split: option.splits)
  have y: "take_digits 4 (pad4 (year d) @ s) 0 = Some (year d, s)" for s
    using take_digits_pad4[of "year d" s 0] b(1) by simp
  have same: "\<lparr>year = year d, month = month d, day = day d, hour = hour d, minute = minute d,
      second = second d, microsecond = microsecond d, utcoff = utcoff d\<rparr> = d"
    by simp
  show ?thesis
    unfolding parse_iso_def isoformat_def
    using assms b fr tail by (simp add: y Let_def same)
qed

lemma fromisoformat_isoformat [simp]:
  "datetime_valid d \<Longrightarrow> fromisoformat (isoformat d) = Inr d"
  by (simp add: fromisoformat_def parse_iso_isoformat)

lemma isoformat_inj:
  "datetime_valid a \<Longrightarrow> datetime_valid b \<Longrightarrow> isoformat a = isoformat b \<longleftrightarrow> a = b"
  by (metis option.inject parse_iso_isoformat)

end
