(* ===== verification/PyJson.thy ===== *)
theory PyJson
  imports Prelude
begin

text \<open>
  Values as the program passes them around: the JSON tree of \<^verbatim>\<open>json.loads\<close> and
  \<^verbatim>\<open>yaml.safe_load\<close>, Python's cross-type equality on it, its text forms, and the checked
  reads that the \<^verbatim>\<open>from_dict\<close> constructors make.
\<close>

section \<open>Values\<close>

text \<open>
  A finite float is the pair that \<^verbatim>\<open>float.as_integer_ratio\<close> returns (lowest terms, positive
  denominator); negative zero is kept apart because it prints differently. \<open>JOpaque s\<close> is an
  object outside JSON whose \<^verbatim>\<open>str\<close> is \<open>s\<close>.
\<close>

datatype pyfloat = Ratio int nat | NegZero | Inf bool | NaN

datatype json =
    JNull
  | JBool bool
  | JInt int
  | JFloat pyfloat
  | JStr string
  | JList "json list"
  | JObj "(string \<times> json) list"
  | JOpaque string

section \<open>Equality\<close>

text \<open>
  Python compares numbers across types (\<open>1 == 1.0 == True\<close>), a NaN is unequal to itself,
  lists compare pointwise and dicts by keys, regardless of order.
\<close>

fun py_number :: "json \<Rightarrow> (int \<times> nat) option" where
  "py_number (JBool b) = Some (if b then 1 else 0, 1)"
| "py_number (JInt i) = Some (i, 1)"
| "py_number (JFloat (Ratio n d)) = Some (n, d)"
| "py_number (JFloat NegZero) = Some (0, 1)"
| "py_number _ = None"

fun py_eq :: "json \<Rightarrow> json \<Rightarrow> bool"
  and py_eq_list :: "json list \<Rightarrow> json list \<Rightarrow> bool"
  and py_eq_items :: "(string \<times> json) list \<Rightarrow> (string \<times> json) list \<Rightarrow> bool" where
  "py_eq (JList xs) w = (case w of JList ys \<Rightarrow> py_eq_list xs ys | _ \<Rightarrow> False)"
| "py_eq (JObj xs) w =
     (case w of JObj ys \<Rightarrow> length xs = length ys \<and> py_eq_items xs ys | _ \<Rightarrow> False)"
| "py_eq (JFloat (Inf s)) w = (w = JFloat (Inf s))"
| "py_eq (JFloat NaN) w = False"
| "py_eq v w =
     (case py_number v of Some n \<Rightarrow> py_number w = Some n | None \<Rightarrow> v = w)"
| "py_eq_list [] ys = (ys = [])"
| "py_eq_list (x # xs) ys =
     (case ys of [] \<Rightarrow> False | y # ys' \<Rightarrow> py_eq x y \<and> py_eq_list xs ys')"
| "py_eq_items [] ys = True"
| "py_eq_items ((k, v) # xs) ys =
     (case map_of ys k of None \<Rightarrow> False | Some w \<Rightarrow> py_eq v w \<and> py_eq_items xs ys)"

text \<open>Values that equal themselves: no NaN inside, and dict keys are distinct.\<close>

fun self_equal :: "json \<Rightarrow> bool" where
  "self_equal (JFloat NaN) = False"
| "self_equal (JList xs) = (\<forall>x \<in> set xs. self_equal x)"
| "self_equal (JObj xs) = (distinct (map fst xs) \<and> (\<forall>x \<in> set xs. self_equal (snd x)))"
| "self_equal _ = True"

lemma py_eq_list_refl: "(\<forall>x \<in> set xs. py_eq x x) \<Longrightarrow> py_eq_list xs xs"
  by (induction xs) auto

lemma py_eq_items_refl:
  "(\<forall>x \<in> set kvs. py_eq (snd x) (snd x) \<and> map_of ys (fst x) = Some (snd x)) \<Longrightarrow>
     py_eq_items kvs ys"
  by (induction kvs) auto

lemma py_eq_refl [simp]: "self_equal v \<Longrightarrow> py_eq v v"
proof (induction v)
  case (JFloat f)
  then show ?case by (cases f) auto
next
  case (JList xs)
  then show ?case by (auto intro: py_eq_list_refl)
next
  case (JObj kvs)
  then have "py_eq_items kvs kvs"
    by (intro py_eq_items_refl) (auto simp: snds.simps)
  then show ?case by simp
qed simp_all

section \<open>Text\<close>

text \<open>
  The keyword arguments of \<^verbatim>\<open>json.dumps\<close> that the program varies. \<^verbatim>\<open>float.__repr__\<close> is the
  parameter \<open>repr\<close>. Keys are always sorted (\<open>sort_keys=True\<close>).
\<close>

record dumps_style =
  item_sep :: string
  key_sep :: string
  ensure_ascii :: bool
  allow_nan :: bool
  default_str :: bool

definition hex_digit :: "nat \<Rightarrow> char" where
  "hex_digit n = (if n < 10 then char_of (48 + n) else char_of (87 + n))"

definition escape_char :: "bool \<Rightarrow> char \<Rightarrow> string" where
  "escape_char ascii c =
     (let n = of_char c :: nat in
      if c = CHR 0x22 \<or> c = CHR 0x5C then [CHR 0x5C, c]
      else if n = 8 then [CHR 0x5C, CHR ''b'']
      else if n = 9 then [CHR 0x5C, CHR ''t'']
      else if n = 10 then [CHR 0x5C, CHR ''n'']
      else if n = 12 then [CHR 0x5C, CHR ''f'']
      else if n = 13 then [CHR 0x5C, CHR ''r'']
      else if n < 32 \<or> (ascii \<and> 126 < n)
           then [CHR 0x5C, CHR ''u'', CHR ''0'', CHR ''0'', hex_digit (n div 16), hex_digit (n mod 16)]
      else [c])"

definition quote :: "bool \<Rightarrow> string \<Rightarrow> string" where
  "quote ascii s = CHR 0x22 # concat (map (escape_char ascii) s) @ [CHR 0x22]"

fun float_text :: "(pyfloat \<Rightarrow> string) \<Rightarrow> pyfloat \<Rightarrow> string" where
  "float_text repr NaN = ''NaN''"
| "float_text repr (Inf neg) = (if neg then ''-Infinity'' else ''Infinity'')"
| "float_text repr f = repr f"

fun json_dumps :: "(pyfloat \<Rightarrow> string) \<Rightarrow> dumps_style \<Rightarrow> json \<Rightarrow> string res" where
  "json_dumps repr st JNull = Inr ''null''"
| "json_dumps repr st (JBool b) = Inr (if b then ''true'' else ''false'')"
| "json_dumps repr st (JInt i) = Inr (int_str i)"
| "json_dumps repr st (JFloat f) =
     (case f of
        NaN \<Rightarrow> if allow_nan st then Inr (float_text repr f)
               else Inl (ValueError ''Out of range float values are not JSON compliant'')
      | Inf _ \<Rightarrow> if allow_nan st then Inr (float_text repr f)
               else Inl (ValueError ''Out of range float values are not JSON compliant'')
      | _ \<Rightarrow> Inr (float_text repr f))"
| "json_dumps repr st (JStr s) = Inr (quote (ensure_ascii st) s)"
| "json_dumps repr st (JList xs) =
     rbind (map_res (json_dumps repr st) xs)
       (\<lambda>ts. Inr (''['' @ py_join (item_sep st) ts @ '']''))"
| "json_dumps repr st (JObj kvs) =
     rbind (map_res (\<lambda>(k, v). rbind (json_dumps repr st v) (\<lambda>t. Inr (k, t))) kvs)
       (\<lambda>kts. Inr (''{'' @ py_join (item_sep st)
          (map (\<lambda>(k, t). quote (ensure_ascii st) k @ key_sep st @ t) (sort_key fst kts)) @ ''}''))"
| "json_dumps repr st (JOpaque s) =
     (if default_str st then Inr (quote (ensure_ascii st) s)
      else Inl (TypeError ''Object is not JSON serializable''))"

section \<open>Checked reads\<close>

text \<open>
  \<^verbatim>\<open>data[key]\<close> and \<^verbatim>\<open>data.get(key)\<close> on a parsed document. A read of a wrongly typed value,
  which Python would pass on untyped, is a TypeError here.
\<close>

definition jtype_error :: exc where
  "jtype_error = TypeError ''unexpected JSON type''"

fun jitem :: "json \<Rightarrow> string \<Rightarrow> json res" where
  "jitem (JObj kvs) k = (case map_of kvs k of None \<Rightarrow> Inl (KeyError k) | Some v \<Rightarrow> Inr v)"
| "jitem _ k = Inl jtype_error"

fun jget :: "json \<Rightarrow> string \<Rightarrow> json \<Rightarrow> json res" where
  "jget (JObj kvs) k d = (case map_of kvs k of None \<Rightarrow> Inr d | Some v \<Rightarrow> Inr v)"
| "jget _ k d = Inl jtype_error"

fun as_str :: "json \<Rightarrow> string res" where
  "as_str (JStr s) = Inr s" | "as_str _ = Inl jtype_error"

fun as_int :: "json \<Rightarrow> int res" where
  "as_int (JInt i) = Inr i" | "as_int _ = Inl jtype_error"

fun as_bool :: "json \<Rightarrow> bool res" where
  "as_bool (JBool b) = Inr b" | "as_bool _ = Inl jtype_error"

fun as_list :: "json \<Rightarrow> json list res" where
  "as_list (JList xs) = Inr xs" | "as_list _ = Inl jtype_error"

fun as_obj :: "json \<Rightarrow> (string \<times> json) list res" where
  "as_obj (JObj kvs) = Inr kvs" | "as_obj _ = Inl jtype_error"

definition as_opt :: "(json \<Rightarrow> 'a res) \<Rightarrow> json \<Rightarrow> 'a option res" where
  "as_opt f v = (if v = JNull then Inr None else rbind (f v) (\<lambda>x. Inr (Some x)))"

definition of_opt :: "('a \<Rightarrow> json) \<Rightarrow> 'a option \<Rightarrow> json" where
  "of_opt f x = (case x of None \<Rightarrow> JNull | Some v \<Rightarrow> f v)"

definition str_item :: "json \<Rightarrow> string \<Rightarrow> string res" where
  "str_item d k = rbind (jitem d k) as_str"

definition int_item :: "json \<Rightarrow> string \<Rightarrow> int res" where
  "int_item d k = rbind (jitem d k) as_int"

definition opt_str_get :: "json \<Rightarrow> string \<Rightarrow> string option res" where
  "opt_str_get d k = rbind (jget d k JNull) (as_opt as_str)"

text \<open>A dict of strings: \<^verbatim>\<open>dict(data[key])\<close>.\<close>

definition as_str_dict :: "json \<Rightarrow> (string \<times> string) list res" where
  "as_str_dict v =
     rbind (as_obj v) (map_res (\<lambda>(k, w). rbind (as_str w) (\<lambda>s. Inr (k, s))))"

definition of_str_dict :: "(string \<times> string) list \<Rightarrow> json" where
  "of_str_dict d = JObj (map (\<lambda>(k, s). (k, JStr s)) d)"

lemma as_opt_of_opt [simp]:
  assumes "\<And>y. x = Some y \<Longrightarrow> f (g y) = Inr y" "\<And>y. x = Some y \<Longrightarrow> g y \<noteq> JNull"
  shows "as_opt f (of_opt g x) = Inr x"
  using assms by (cases x) (auto simp: as_opt_def of_opt_def)

lemma as_opt_str [simp]: "as_opt as_str (of_opt JStr x) = Inr x"
  by simp

lemma as_opt_int [simp]: "as_opt as_int (of_opt JInt x) = Inr x"
  by simp

lemma as_str_dict_of_str_dict [simp]: "as_str_dict (of_str_dict d) = Inr d"
  unfolding as_str_dict_def of_str_dict_def by (induction d) auto

end
