(* ===== verification/Models.thy ===== *)
theory Models
  imports KeyCodec PyTime PyJson
begin

text \<open>
  The domain value objects of fs_core/models.py with the checks of their constructors, and the
  dictionary form of a write set with its parser.
\<close>

section \<open>References\<close>

record feature_ref =
  fr_name :: string
  fr_version :: int

definition mk_feature_ref :: "string \<Rightarrow> int \<Rightarrow> feature_ref res" where
  "mk_feature_ref name version =
     rbind (require (\<not> blank name) (ValueError ''feature name must be non-empty'')) (\<lambda>_.
     rbind (require (1 \<le> version) (ValueError ''feature version must be >= 1'')) (\<lambda>_.
     Inr \<lparr>fr_name = name, fr_version = version\<rparr>))"

definition ref_text :: "feature_ref \<Rightarrow> string" where
  "ref_text r = fr_name r @ '':v'' @ int_str (fr_version r)"

definition ref_ok :: "feature_ref \<Rightarrow> bool" where
  "ref_ok r \<longleftrightarrow> \<not> blank (fr_name r) \<and> 1 \<le> fr_version r"

record feature_view_ref =
  vr_view :: string
  vr_version :: int

definition mk_feature_view_ref :: "string \<Rightarrow> int \<Rightarrow> feature_view_ref res" where
  "mk_feature_view_ref view version =
     rbind (require (\<not> blank view) (ValueError ''view name must be non-empty'')) (\<lambda>_.
     rbind (require (1 \<le> version) (ValueError ''view version must be >= 1'')) (\<lambda>_.
     Inr \<lparr>vr_view = view, vr_version = version\<rparr>))"

definition view_ref_text :: "feature_view_ref \<Rightarrow> string" where
  "view_ref_text r = vr_view r @ '':v'' @ int_str (vr_version r)"

lemma mk_feature_ref_Inr [simp, res_simps]:
  "mk_feature_ref n v = Inr r \<longleftrightarrow> r = \<lparr>fr_name = n, fr_version = v\<rparr> \<and> ref_ok r"
  by (auto simp: mk_feature_ref_def ref_ok_def)

text \<open>
  The text of a reference identifies it: the version's digits contain no \<open>v\<close>, so the last
  \<open>:v\<close> splits the text, whatever the name contains.
\<close>

lemma name_version_text_inj:
  assumes "n @ '':v'' @ int_str i = n' @ '':v'' @ int_str i'"
  shows "n = n' \<and> i = i'"
proof -
  have "\<not> is_digit (CHR ''v'')" by (simp add: is_digit_def)
  then have "CHR ''v'' \<notin> set (int_str j)" for j
    using int_str_chars[of "CHR ''v''" j] by auto
  then have "n @ '':'' = n' @ '':'' \<and> int_str i = int_str i'"
    using assms by (intro append_sep_unique[where c = "CHR ''v''"]) simp_all
  then show ?thesis by simp
qed

lemma ref_text_inj [simp]: "ref_text r = ref_text r' \<longleftrightarrow> r = r'"
proof
  assume "ref_text r = ref_text r'"
  then have "fr_name r = fr_name r' \<and> fr_version r = fr_version r'"
    unfolding ref_text_def by (rule name_version_text_inj)
  then show "r = r'" by (cases r; cases r') simp
qed simp

section \<open>Source stamps\<close>

record source_stamp =
  ss_report_ts :: datetime
  ss_content_hash :: string
  ss_available_at :: "datetime option"
  ss_availability_source :: "string option"

definition mk_source_stamp ::
    "datetime \<Rightarrow> string \<Rightarrow> datetime option \<Rightarrow> string option \<Rightarrow> source_stamp res" where
  "mk_source_stamp report_ts content_hash avail src =
     rbind (require_aware report_ts) (\<lambda>_.
     rbind (require (\<not> blank content_hash) (ValueError ''content_hash must be non-empty'')) (\<lambda>_.
     rbind (require_aware_opt avail) (\<lambda>_.
     Inr \<lparr>ss_report_ts = report_ts, ss_content_hash = content_hash, ss_available_at = avail,
          ss_availability_source = src\<rparr>)))"

definition stamp_ok :: "source_stamp \<Rightarrow> bool" where
  "stamp_ok s \<longleftrightarrow>
     aware (ss_report_ts s) \<and> \<not> blank (ss_content_hash s) \<and> aware_opt (ss_available_at s)"

lemma mk_source_stamp_ok: "mk_source_stamp t h a s = Inr x \<Longrightarrow> stamp_ok x"
  by (auto simp: mk_source_stamp_def stamp_ok_def)

section \<open>Feature results\<close>

record feature_result =
  r_ref :: feature_ref
  r_entity_key :: entity_key
  r_value :: json
  r_data_ts :: datetime
  r_calc_ts :: datetime
  r_max_input_data_ts :: "datetime option"
  r_input_fingerprint :: "string option"
  r_value_hash :: "string option"
  r_available_at :: "datetime option"
  r_availability_source :: "string option"
  r_model_uri :: "string option"
  r_model_digest :: "string option"
  r_model_output_name :: "string option"
  r_bundle_digest :: "string option"

text \<open>The constructor: \<^verbatim>\<open>__post_init__\<close> rejects naive timestamps.\<close>

definition mk_feature_result :: "feature_result \<Rightarrow> feature_result res" where
  "mk_feature_result r =
     rbind (require_aware (r_data_ts r)) (\<lambda>_.
     rbind (require_aware (r_calc_ts r)) (\<lambda>_.
     rbind (require_aware_opt (r_max_input_data_ts r)) (\<lambda>_.
     rbind (require_aware_opt (r_available_at r)) (\<lambda>_. Inr r))))"

definition result_ok :: "feature_result \<Rightarrow> bool" where
  "result_ok r \<longleftrightarrow>
     aware (r_data_ts r) \<and> aware (r_calc_ts r) \<and> aware_opt (r_max_input_data_ts r)
     \<and> aware_opt (r_available_at r)"

lemma mk_feature_result_Inr [simp, res_simps]:
  "mk_feature_result r = Inr r' \<longleftrightarrow> r' = r \<and> result_ok r"
  by (auto simp: mk_feature_result_def result_ok_def)

lemma mk_feature_result_ok [simp]: "result_ok r \<Longrightarrow> mk_feature_result r = Inr r"
  by simp

definition trusted_available_at :: "feature_result \<Rightarrow> datetime option" where
  "trusted_available_at r =
     (if r_availability_source r = Some ''source_provided'' then r_available_at r else None)"

section \<open>Write sets and their dictionary form\<close>

record write_set =
  ws_view :: string
  ws_view_version :: int
  ws_entity_key :: entity_key
  ws_results :: "(string, feature_result) dict"
  ws_source_refs :: "(string, string) dict"
  ws_request_id :: "string option"
  ws_job_id :: "string option"
  ws_run_id :: "string option"
  ws_correlation_id :: "string option"
  ws_write_policy :: string
  ws_node_statuses :: "(string, string) dict"

definition of_iso :: "datetime \<Rightarrow> json" where
  "of_iso d = JStr (isoformat d)"

definition as_iso :: "json \<Rightarrow> datetime res" where
  "as_iso v = rbind (as_str v) fromisoformat"

definition of_pairs :: "(string \<times> string) list \<Rightarrow> json" where
  "of_pairs ps = JList (map (\<lambda>(n, v). JList [JStr n, JStr v]) ps)"

fun as_pair :: "json \<Rightarrow> (string \<times> string) res" where
  "as_pair (JList [a, b]) = rbind (as_str a) (\<lambda>n. rbind (as_str b) (\<lambda>v. Inr (n, v)))"
| "as_pair _ = Inl jtype_error"

definition as_pairs :: "json \<Rightarrow> (string \<times> string) list res" where
  "as_pairs v = rbind (as_list v) (map_res as_pair)"

definition result_to_dict :: "feature_result \<Rightarrow> json" where
  "result_to_dict r = JObj
     [(''feature_name'', JStr (fr_name (r_ref r))),
      (''feature_version'', JInt (fr_version (r_ref r))),
      (''value'', r_value r),
      (''data_ts'', of_iso (r_data_ts r)),
      (''calc_ts'', of_iso (r_calc_ts r)),
      (''max_input_data_ts'', of_opt of_iso (r_max_input_data_ts r)),
      (''input_fingerprint'', of_opt JStr (r_input_fingerprint r)),
      (''value_hash'', of_opt JStr (r_value_hash r)),
      (''available_at'', of_opt of_iso (r_available_at r)),
      (''availability_source'', of_opt JStr (r_availability_source r)),
      (''model_uri'', of_opt JStr (r_model_uri r)),
      (''model_digest'', of_opt JStr (r_model_digest r)),
      (''model_output_name'', of_opt JStr (r_model_output_name r)),
      (''bundle_digest'', of_opt JStr (r_bundle_digest r))]"

definition write_set_to_dict :: "write_set \<Rightarrow> json" where
  "write_set_to_dict w = JObj
     [(''view'', JStr (ws_view w)),
      (''view_version'', JInt (ws_view_version w)),
      (''entity_key'', of_pairs (ek_parts (ws_entity_key w))),
      (''results'', JObj (map (\<lambda>(n, r). (n, result_to_dict r)) (ws_results w))),
      (''source_refs'', of_str_dict (ws_source_refs w)),
      (''request_id'', of_opt JStr (ws_request_id w)),
      (''job_id'', of_opt JStr (ws_job_id w)),
      (''run_id'', of_opt JStr (ws_run_id w)),
      (''correlation_id'', of_opt JStr (ws_correlation_id w)),
      (''write_policy'', JStr (ws_write_policy w))]"

definition opt_iso_get :: "json \<Rightarrow> string \<Rightarrow> datetime option res" where
  "opt_iso_get d k = rbind (jget d k JNull) (as_opt as_iso)"

definition result_from_dict :: "entity_key \<Rightarrow> json \<Rightarrow> feature_result res" where
  "result_from_dict ek d =
     rbind (str_item d ''feature_name'') (\<lambda>name.
     rbind (int_item d ''feature_version'') (\<lambda>version.
     rbind (mk_feature_ref name version) (\<lambda>ref.
     rbind (jitem d ''value'') (\<lambda>val.
     rbind (rbind (jitem d ''data_ts'') as_iso) (\<lambda>data_ts.
     rbind (rbind (jitem d ''calc_ts'') as_iso) (\<lambda>calc_ts.
     rbind (opt_iso_get d ''max_input_data_ts'') (\<lambda>max_ts.
     rbind (opt_str_get d ''input_fingerprint'') (\<lambda>fp.
     rbind (opt_str_get d ''value_hash'') (\<lambda>vh.
     rbind (opt_iso_get d ''available_at'') (\<lambda>av.
     rbind (opt_str_get d ''availability_source'') (\<lambda>avs.
     rbind (opt_str_get d ''model_uri'') (\<lambda>mu.
     rbind (opt_str_get d ''model_digest'') (\<lambda>md.
     rbind (opt_str_get d ''model_output_name'') (\<lambda>mo.
     rbind (opt_str_get d ''bundle_digest'') (\<lambda>bd.
     mk_feature_result
       \<lparr>r_ref = ref, r_entity_key = ek, r_value = val, r_data_ts = data_ts, r_calc_ts = calc_ts,
        r_max_input_data_ts = max_ts, r_input_fingerprint = fp, r_value_hash = vh,
        r_available_at = av, r_availability_source = avs, r_model_uri = mu, r_model_digest = md,
        r_model_output_name = mo, r_bundle_digest = bd\<rparr>)))))))))))))))"

definition write_set_from_dict :: "json \<Rightarrow> write_set res" where
  "write_set_from_dict d =
     rbind (rbind (rbind (jitem d ''entity_key'') as_pairs) mk_entity_key) (\<lambda>ek.
     rbind (rbind (rbind (jitem d ''results'') as_obj)
       (map_res (\<lambda>(n, item). rbind (result_from_dict ek item) (\<lambda>r. Inr (n, r))))) (\<lambda>results.
     rbind (str_item d ''view'') (\<lambda>view.
     rbind (int_item d ''view_version'') (\<lambda>version.
     rbind (rbind (jitem d ''source_refs'') as_str_dict) (\<lambda>refs.
     rbind (opt_str_get d ''request_id'') (\<lambda>rid.
     rbind (opt_str_get d ''job_id'') (\<lambda>jid.
     rbind (opt_str_get d ''run_id'') (\<lambda>run.
     rbind (opt_str_get d ''correlation_id'') (\<lambda>cid.
     rbind (rbind (jget d ''write_policy'' (JStr ''online_first'')) as_str) (\<lambda>policy.
     Inr \<lparr>ws_view = view, ws_view_version = version, ws_entity_key = ek, ws_results = results,
          ws_source_refs = refs, ws_request_id = rid, ws_job_id = jid, ws_run_id = run,
          ws_correlation_id = cid, ws_write_policy = policy, ws_node_statuses = []\<rparr>))))))))))"

text \<open>Everything the constructors and Python's datetime guarantee of a result in a write set.\<close>

definition result_wf :: "entity_key \<Rightarrow> feature_result \<Rightarrow> bool" where
  "result_wf ek r \<longleftrightarrow>
     result_ok r \<and> ref_ok (r_ref r) \<and> r_entity_key r = ek
     \<and> datetime_valid (r_data_ts r) \<and> datetime_valid (r_calc_ts r)
     \<and> (\<forall>t. r_max_input_data_ts r = Some t \<longrightarrow> datetime_valid t)
     \<and> (\<forall>t. r_available_at r = Some t \<longrightarrow> datetime_valid t)"

definition write_set_wf :: "write_set \<Rightarrow> bool" where
  "write_set_wf w \<longleftrightarrow>
     ek_valid (ws_entity_key w) \<and> (\<forall>r \<in> set (ws_results w). result_wf (ws_entity_key w) (snd r))"

lemma as_iso_of_iso [simp]: "datetime_valid d \<Longrightarrow> as_iso (of_iso d) = Inr d"
  by (simp add: as_iso_def of_iso_def)

lemma of_iso_not_null [simp]: "of_iso d \<noteq> JNull"
  by (simp add: of_iso_def)

lemma as_opt_iso [simp]:
  "(\<And>t. x = Some t \<Longrightarrow> datetime_valid t) \<Longrightarrow> as_opt as_iso (of_opt of_iso x) = Inr x"
  by simp

lemma as_pairs_of_pairs [simp]: "as_pairs (of_pairs ps) = Inr ps"
  unfolding as_pairs_def of_pairs_def by (induction ps) auto

lemmas read_simps = str_item_def int_item_def opt_str_get_def opt_iso_get_def

lemma result_from_to_dict:
  assumes "result_wf ek r"
  shows "result_from_dict ek (result_to_dict r) = Inr r"
proof -
  have ref: "mk_feature_ref (fr_name (r_ref r)) (fr_version (r_ref r)) = Inr (r_ref r)"
    using assms by (simp add: result_wf_def)
  show ?thesis
    using assms unfolding result_from_dict_def result_to_dict_def result_wf_def read_simps
    by (simp add: ref result_ok_def)
qed

lemma results_from_to_dict:
  assumes "\<forall>r \<in> set rs. result_wf ek (snd r)"
  shows "map_res (\<lambda>(n, item). rbind (result_from_dict ek item) (\<lambda>r. Inr (n, r)))
     (map (\<lambda>(n, r). (n, result_to_dict r)) rs) = Inr rs"
  using assms by (induction rs) (auto simp: result_from_to_dict)

lemma write_set_from_to_dict:
  assumes "write_set_wf w"
  shows "write_set_from_dict (write_set_to_dict w) = Inr (w\<lparr>ws_node_statuses := []\<rparr>)"
proof -
  have ek: "mk_entity_key (ek_parts (ws_entity_key w)) = Inr (ws_entity_key w)"
    using assms by (simp add: write_set_wf_def)
  show ?thesis
    using assms unfolding write_set_from_dict_def write_set_to_dict_def write_set_wf_def read_simps
    by (simp add: ek results_from_to_dict)
qed

section \<open>Raw report metadata\<close>

record raw_report_meta =
  m_report_ref :: string
  m_report_type :: string
  m_entity_type :: string
  m_entity_key :: entity_key
  m_report_ts :: datetime
  m_payload_size_bytes :: int
  m_content_hash :: string
  m_storage_uri :: string
  m_created_at :: datetime
  m_format :: string
  m_compression :: string
  m_available_at :: "datetime option"
  m_availability_source :: "string option"

definition mk_raw_report_meta :: "raw_report_meta \<Rightarrow> raw_report_meta res" where
  "mk_raw_report_meta m =
     rbind (require (\<not> blank (m_report_ref m)) (ValueError ''report_ref must be non-empty'')) (\<lambda>_.
     rbind (require (0 \<le> m_payload_size_bytes m) (ValueError ''payload_size_bytes must be >= 0'')) (\<lambda>_.
     rbind (require_aware (m_report_ts m)) (\<lambda>_.
     rbind (require_aware (m_created_at m)) (\<lambda>_.
     rbind (case m_available_at m of
              None \<Rightarrow> Inr ()
            | Some av \<Rightarrow>
                rbind (require_aware av) (\<lambda>_.
                require (\<not> (m_availability_source m = Some ''source_provided''
                            \<and> instant av < instant (m_report_ts m)))
                  (ValueError ''available_at must not precede report_ts''))) (\<lambda>_.
     rbind (require (m_availability_source m \<in> {None, Some ''source_provided'', Some ''ingestion_time''})
              (ValueError ''availability_source must be source_provided or ingestion_time'')) (\<lambda>_.
     Inr m))))))"

definition meta_ok :: "raw_report_meta \<Rightarrow> bool" where
  "meta_ok m \<longleftrightarrow>
     \<not> blank (m_report_ref m) \<and> 0 \<le> m_payload_size_bytes m \<and> aware (m_report_ts m)
     \<and> aware (m_created_at m) \<and> aware_opt (m_available_at m)
     \<and> (m_availability_source m = Some ''source_provided'' \<longrightarrow>
          (\<forall>av. m_available_at m = Some av \<longrightarrow> instant (m_report_ts m) \<le> instant av))
     \<and> m_availability_source m \<in> {None, Some ''source_provided'', Some ''ingestion_time''}"

lemma mk_raw_report_meta_Inr [simp, res_simps]:
  "mk_raw_report_meta m = Inr m' \<longleftrightarrow> m' = m \<and> meta_ok m"
  by (auto simp: mk_raw_report_meta_def meta_ok_def not_less split: option.splits)

lemma mk_raw_report_meta_ok [simp]: "meta_ok m \<Longrightarrow> mk_raw_report_meta m = Inr m"
  by simp

end
