(* ===== verification/WriteGuard.thy ===== *)
theory WriteGuard
  imports Models
begin

text \<open>
  The D9 write guard (fs_core/write_guard.py) and the contract of an online store that applies
  it, as a locale: what every store that decides by the guard guarantees, whatever holds its
  values.
\<close>

section \<open>The guard\<close>

datatype outcome = Written | WrittenRecompute | SkippedStale | Noop

definition write_outcomes :: "outcome list" where
  "write_outcomes = [Written, WrittenRecompute]"

definition guard_tuple :: "datetime \<Rightarrow> datetime option \<Rightarrow> datetime \<times> datetime" where
  "guard_tuple data_ts max_ts = (data_ts, case max_ts of Some m \<Rightarrow> m | None \<Rightarrow> data_ts)"

text \<open>Tuples compare lexicographically, datetimes by their instants.\<close>

definition tuple_instants :: "datetime \<times> datetime \<Rightarrow> int \<times> int" where
  "tuple_instants t = (instant (fst t), instant (snd t))"

definition fp_text :: "string option \<Rightarrow> string" where
  "fp_text fp = (case fp of Some s \<Rightarrow> s | None \<Rightarrow> [])"

definition decide_write ::
    "datetime \<times> datetime \<Rightarrow> string option \<Rightarrow> (datetime \<times> datetime) option \<Rightarrow> string option
      \<Rightarrow> datetime option \<Rightarrow> datetime option \<Rightarrow> outcome" where
  "decide_write incoming in_fp current cur_fp in_av cur_av =
     (case current of
        None \<Rightarrow> Written
      | Some cur \<Rightarrow>
          if tuple_instants cur < tuple_instants incoming then Written
          else if tuple_instants incoming < tuple_instants cur then SkippedStale
          else if fp_text in_fp = fp_text cur_fp then
            (case (in_av, cur_av) of
               (Some a, Some c) \<Rightarrow> if \<not> dt_eq a c then WrittenRecompute else Noop
             | _ \<Rightarrow> Noop)
          else WrittenRecompute)"

text \<open>The call that both online stores make for an incoming and an existing result.\<close>

definition result_tuple :: "feature_result \<Rightarrow> datetime \<times> datetime" where
  "result_tuple r = guard_tuple (r_data_ts r) (r_max_input_data_ts r)"

definition freshness :: "feature_result \<Rightarrow> int \<times> int" where
  "freshness r = tuple_instants (result_tuple r)"

definition decide_result :: "feature_result \<Rightarrow> feature_result option \<Rightarrow> outcome" where
  "decide_result r existing =
     decide_write (result_tuple r) (r_input_fingerprint r)
       (map_option result_tuple existing)
       (case existing of Some e \<Rightarrow> r_input_fingerprint e | None \<Rightarrow> None)
       (trusted_available_at r)
       (case existing of Some e \<Rightarrow> trusted_available_at e | None \<Rightarrow> None)"

definition aggregate_online_status :: "outcome list \<Rightarrow> outcome" where
  "aggregate_online_status outcomes =
     (if \<exists>x \<in> set outcomes. x \<in> set write_outcomes then Written
      else if SkippedStale \<in> set outcomes then SkippedStale else Noop)"

lemma write_outcomes_iff [simp]: "x \<in> set write_outcomes \<longleftrightarrow> x = Written \<or> x = WrittenRecompute"
  by (simp add: write_outcomes_def)

lemma decide_result_None [simp]: "decide_result r None = Written"
  by (simp add: decide_result_def decide_write_def)

text \<open>The decision against an existing value, by freshness.\<close>

lemma decide_result_Some:
  "decide_result r (Some c) =
     (if freshness c < freshness r then Written
      else if freshness r < freshness c then SkippedStale
      else if fp_text (r_input_fingerprint r) \<noteq> fp_text (r_input_fingerprint c) then WrittenRecompute
      else case (trusted_available_at r, trusted_available_at c) of
        (Some a, Some b) \<Rightarrow> if \<not> dt_eq a b then WrittenRecompute else Noop
      | _ \<Rightarrow> Noop)"
  by (simp add: decide_result_def decide_write_def freshness_def)

lemma decide_result_stale: "decide_result r (Some c) = SkippedStale \<longleftrightarrow> freshness r < freshness c"
  by (auto simp: decide_result_Some split: option.splits)

lemma decide_result_written_ge:
  "decide_result r (Some c) \<in> set write_outcomes \<Longrightarrow> freshness c \<le> freshness r"
  by (metis decide_result_stale linorder_not_le outcome.distinct(3,7) write_outcomes_iff)

lemma decide_result_noop_eq: "decide_result r (Some c) = Noop \<Longrightarrow> freshness r = freshness c"
  by (auto simp: decide_result_Some split: if_splits)

lemma decide_result_replay: "decide_result r (Some r) = Noop"
  by (auto simp: decide_result_Some split: option.splits)

text \<open>Only these fields of the stored value enter the decision.\<close>

lemma decide_result_cong:
  assumes "r_data_ts c = r_data_ts c'" "r_max_input_data_ts c = r_max_input_data_ts c'"
    "r_input_fingerprint c = r_input_fingerprint c'" "r_available_at c = r_available_at c'"
    "r_availability_source c = r_availability_source c'"
  shows "decide_result r (Some c) = decide_result r (Some c')" "freshness c = freshness c'"
  using assms
  by (simp_all add: decide_result_def result_tuple_def trusted_available_at_def freshness_def)

section \<open>The contract of an online store\<close>

text \<open>
  A store keeps one value per serving key. \<open>inv\<close> is the store's invariant, \<open>adm\<close> and
  \<open>adm_key\<close> say which writes and reads the contract covers, and \<open>proj\<close> is the part of a
  result that the store keeps.
\<close>

type_synonym serving_key = "string \<times> int \<times> entity_key \<times> string \<times> int"

definition serving_key :: "string \<Rightarrow> int \<Rightarrow> feature_result \<Rightarrow> serving_key" where
  "serving_key view version r =
     (view, version, r_entity_key r, fr_name (r_ref r), fr_version (r_ref r))"

locale online_store =
  fixes inv :: "'s \<Rightarrow> bool"
    and adm :: "string \<Rightarrow> feature_result \<Rightarrow> bool"
    and adm_key :: "serving_key \<Rightarrow> bool"
    and proj :: "feature_result \<Rightarrow> feature_result"
    and put :: "'s \<Rightarrow> string \<Rightarrow> int \<Rightarrow> feature_result \<Rightarrow> (outcome \<times> 's) res"
    and get :: "'s \<Rightarrow> serving_key \<Rightarrow> feature_result option"
  assumes put_ok: "inv s \<Longrightarrow> adm view r \<Longrightarrow>
      \<exists>s'. put s view version r = Inr (decide_result r (get s (serving_key view version r)), s')
         \<and> inv s'
         \<and> (\<forall>k. adm_key k \<longrightarrow> get s' k =
              (if k = serving_key view version r
                  \<and> decide_result r (get s (serving_key view version r)) \<in> set write_outcomes
               then Some (proj r) else get s k))"
    and adm_serving: "adm view r \<Longrightarrow> adm_key (serving_key view version r)"
    and proj_guard: "r_data_ts (proj r) = r_data_ts r"
      "r_max_input_data_ts (proj r) = r_max_input_data_ts r"
      "r_input_fingerprint (proj r) = r_input_fingerprint r"
      "r_available_at (proj r) = r_available_at r"
      "r_availability_source (proj r) = r_availability_source r"
begin

text \<open>The freshness held under a key, if any.\<close>

definition held :: "'s \<Rightarrow> serving_key \<Rightarrow> (int \<times> int) option" where
  "held s k = map_option freshness (get s k)"

fun put_all :: "'s \<Rightarrow> (string \<times> int \<times> feature_result) list \<Rightarrow> (outcome list \<times> 's) res" where
  "put_all s [] = Inr ([], s)"
| "put_all s ((view, version, r) # ws) =
     rbind (put s view version r) (\<lambda>(out, s').
     rbind (put_all s' ws) (\<lambda>(outs, s''). Inr (out # outs, s'')))"

lemma decide_proj: "decide_result r (Some (proj c)) = decide_result r (Some c)"
  "freshness (proj c) = freshness c"
  using decide_result_cong[of "proj c" c] proj_guard by simp_all

lemma putE:
  assumes "inv s" "adm view r"
  obtains s' where
    "put s view version r = Inr (decide_result r (get s (serving_key view version r)), s')" "inv s'"
    "\<And>k. adm_key k \<Longrightarrow> get s' k =
        (if k = serving_key view version r
            \<and> decide_result r (get s (serving_key view version r)) \<in> set write_outcomes
         then Some (proj r) else get s k)"
  using put_ok[OF assms] by blast

text \<open>One write: the key then holds the larger of the old and the incoming freshness.\<close>

lemma put_held:
  assumes "inv s" "adm view r" "put s view version r = Inr (out, s')" "adm_key k"
  shows "inv s'"
    "held s' k =
       (if k = serving_key view version r
        then Some (case held s k of None \<Rightarrow> freshness r | Some f \<Rightarrow> max f (freshness r))
        else held s k)"
proof -
  obtain s1 where s1: "put s view version r = Inr (decide_result r (get s (serving_key view version r)), s1)"
    "inv s1" "\<And>k. adm_key k \<Longrightarrow> get s1 k =
        (if k = serving_key view version r
            \<and> decide_result r (get s (serving_key view version r)) \<in> set write_outcomes
         then Some (proj r) else get s k)"
    using putE[OF assms(1,2)] by metis
  with assms(3) have eq: "s' = s1" "out = decide_result r (get s (serving_key view version r))" by auto
  from s1(2) show "inv s'" by (simp add: eq)
  show "held s' k =
       (if k = serving_key view version r
        then Some (case held s k of None \<Rightarrow> freshness r | Some f \<Rightarrow> max f (freshness r))
        else held s k)"
  proof (cases "k = serving_key view version r")
    case False
    with s1(3)[OF assms(4)] show ?thesis by (simp add: held_def eq)
  next
    case True
    show ?thesis
    proof (cases "get s k")
      case None
      with True s1(3)[OF assms(4)] show ?thesis by (simp add: held_def eq decide_proj)
    next
      case (Some c)
      have "max (freshness c) (freshness r) =
          (if decide_result r (Some c) \<in> set write_outcomes then freshness r else freshness c)"
        using decide_result_written_ge[of r c] decide_result_stale[of r c] decide_result_noop_eq[of r c]
        by (cases "decide_result r (Some c)") (auto simp: max_def)
      with True Some s1(3)[OF assms(4)] show ?thesis by (simp add: held_def eq decide_proj)
    qed
  qed
qed

text \<open>A run of writes never fails, and every key ends with the maximum freshness written to it.\<close>

lemma put_all_total:
  assumes "inv s" "\<forall>(view, version, r) \<in> set ws. adm view r"
  shows "\<exists>outs s'. put_all s ws = Inr (outs, s') \<and> inv s'"
  using assms
proof (induction ws arbitrary: s)
  case (Cons w ws)
  obtain view version r where w: "w = (view, version, r)" by (cases w)
  with Cons.prems have "adm view r" by simp
  then obtain out s1 where s1: "put s view version r = Inr (out, s1)" "inv s1"
    using put_ok[OF Cons.prems(1)] by blast
  with Cons.IH[of s1] Cons.prems w show ?case by auto
qed simp

lemma put_all_held:
  assumes "inv s" "\<forall>(view, version, r) \<in> set ws. adm view r" "put_all s ws = Inr (outs, s')"
    "adm_key k"
  shows "held s' k =
    (let fs = map (\<lambda>(view, version, r). freshness r) (filter (\<lambda>(view, version, r). serving_key view version r = k) ws)
     in case held s k of
          None \<Rightarrow> if fs = [] then None else Some (Max (set fs))
        | Some f \<Rightarrow> Some (Max (insert f (set fs))))"
  using assms
proof (induction ws arbitrary: s outs)
  case Nil
  then show ?case by (simp split: option.splits)
next
  case (Cons w ws)
  obtain view version r where w: "w = (view, version, r)" by (cases w)
  from Cons.prems(3) obtain out s1 outs' where
    s1: "put s view version r = Inr (out, s1)" "put_all s1 ws = Inr (outs', s')"
    by (auto simp: w)
  have r: "adm view r" using Cons.prems(2) by (simp add: w)
  have ws: "\<forall>(view, version, r) \<in> set ws. adm view r" using Cons.prems(2) by simp
  note held1 = put_held[OF Cons.prems(1) r s1(1) Cons.prems(4)]
  note IH = Cons.IH[OF held1(1) ws s1(2) Cons.prems(4)]
  show ?case
  proof (cases "serving_key view version r = k")
    case False
    with held1(2) IH show ?thesis by (simp add: w)
  next
    case True
    let ?fs = "map (\<lambda>(view, version, r). freshness r) (filter (\<lambda>(view, version, r). serving_key view version r = k) ws)"
    have "Max (insert (max f (freshness r)) (set ?fs)) = Max (insert f (insert (freshness r) (set ?fs)))" for f
      by (rule Max_insert_max) simp
    with True held1(2) IH show ?thesis
      by (auto simp: w Let_def insert_commute split: option.splits)
  qed
qed

text \<open>Writing the value a key already holds is a no-op.\<close>

lemma put_replay:
  assumes "inv s" "adm view r" "get s (serving_key view version r) = Some (proj r)" "adm_key k"
  shows "\<exists>s'. put s view version r = Inr (Noop, s') \<and> inv s' \<and> get s' k = get s k"
proof -
  obtain s' where
    "put s view version r = Inr (decide_result r (get s (serving_key view version r)), s')" "inv s'"
    "\<And>k. adm_key k \<Longrightarrow> get s' k =
        (if k = serving_key view version r
            \<and> decide_result r (get s (serving_key view version r)) \<in> set write_outcomes
         then Some (proj r) else get s k)"
    using putE[OF assms(1,2)] by metis
  with assms show ?thesis by (simp add: decide_proj decide_result_replay)
qed

end

end
