(* ===== verification/OnlineStore.thy ===== *)
theory OnlineStore
  imports WriteGuard
begin

text \<open>
  The in-memory online store (fs_core/stores/online.py): one value per serving key, written
  through the D9 guard; it meets the online-store contract for results of valid entity keys.
\<close>

section \<open>Operations\<close>

type_synonym mem_key = "string \<times> string \<times> int \<times> string \<times> int"

type_synonym online_mem = "mem_key \<rightharpoonup> feature_result"

definition online_key :: "string \<Rightarrow> int \<Rightarrow> entity_key \<Rightarrow> string \<Rightarrow> int \<Rightarrow> mem_key" where
  "online_key view version ek name fver = (ek_text ek, view, version, name, fver)"

definition online_write ::
    "online_mem \<Rightarrow> string \<Rightarrow> int \<Rightarrow> feature_result \<Rightarrow> outcome \<times> online_mem" where
  "online_write vals view version r =
     (let key = online_key view version (r_entity_key r) (fr_name (r_ref r)) (fr_version (r_ref r));
          existing = vals key;
          out = decide_write (guard_tuple (r_data_ts r) (r_max_input_data_ts r)) (r_input_fingerprint r)
            (case existing of
               Some e \<Rightarrow> Some (guard_tuple (r_data_ts e) (r_max_input_data_ts e)) | None \<Rightarrow> None)
            (case existing of Some e \<Rightarrow> r_input_fingerprint e | None \<Rightarrow> None)
            (trusted_available_at r)
            (case existing of Some e \<Rightarrow> trusted_available_at e | None \<Rightarrow> None)
      in (out, if out \<in> set write_outcomes then vals(key \<mapsto> r) else vals))"

text \<open>The dict comprehension of \<^verbatim>\<open>write_many\<close>: outcomes by reference, in order.\<close>

fun online_write_all ::
    "online_mem \<Rightarrow> string \<Rightarrow> int \<Rightarrow> feature_result list \<Rightarrow> (string \<times> outcome) list
      \<Rightarrow> (string, outcome) dict \<times> online_mem" where
  "online_write_all vals view version [] outs = (dict_of outs, vals)"
| "online_write_all vals view version (r # rs) outs =
     (let (out, vals') = online_write vals view version r
      in online_write_all vals' view version rs (outs @ [(ref_text (r_ref r), out)]))"

definition online_write_many ::
    "online_mem \<Rightarrow> string \<Rightarrow> int \<Rightarrow> feature_result list \<Rightarrow> (string, outcome) dict \<times> online_mem" where
  "online_write_many vals view version rs = online_write_all vals view version rs []"

definition online_get ::
    "online_mem \<Rightarrow> string \<Rightarrow> int \<Rightarrow> entity_key \<Rightarrow> string \<Rightarrow> int \<Rightarrow> feature_result option" where
  "online_get vals view version ek name fver = vals (online_key view version ek name fver)"

section \<open>The contract\<close>

definition mem_get :: "online_mem \<Rightarrow> serving_key \<Rightarrow> feature_result option" where
  "mem_get vals k = (case k of (view, version, ek, name, fver) \<Rightarrow> online_get vals view version ek name fver)"

definition mem_adm :: "string \<Rightarrow> feature_result \<Rightarrow> bool" where
  "mem_adm view r \<longleftrightarrow> ek_valid (r_entity_key r)"

definition mem_adm_key :: "serving_key \<Rightarrow> bool" where
  "mem_adm_key k \<longleftrightarrow> (case k of (view, version, ek, name, fver) \<Rightarrow> ek_valid ek)"

lemma online_write_decide:
  "online_write vals view version r =
     (let k = serving_key view version r; out = decide_result r (mem_get vals k)
      in (out, if out \<in> set write_outcomes
               then vals(online_key view version (r_entity_key r) (fr_name (r_ref r)) (fr_version (r_ref r)) \<mapsto> r)
               else vals))"
  by (simp add: online_write_def decide_result_def mem_get_def serving_key_def online_get_def
      result_tuple_def Let_def option.case_eq_if map_option_case)

interpretation mem: online_store "\<lambda>_. True" mem_adm mem_adm_key "\<lambda>r. r"
  "\<lambda>s view version r. Inr (online_write s view version r)" mem_get
proof unfold_locales
  fix s view version r
  assume "mem_adm view r"
  then have v: "ek_valid (r_entity_key r)" by (simp add: mem_adm_def)
  show "\<exists>s'. Inr (online_write s view version r) =
      Inr (decide_result r (mem_get s (serving_key view version r)), s')
      \<and> True \<and> (\<forall>k. mem_adm_key k \<longrightarrow> mem_get s' k =
         (if k = serving_key view version r
             \<and> decide_result r (mem_get s (serving_key view version r)) \<in> set write_outcomes
          then Some r else mem_get s k))"
    using v ek_text_inj[OF _ v]
    by (auto simp: online_write_decide Let_def mem_get_def online_get_def online_key_def serving_key_def
        mem_adm_key_def)
qed (auto simp: mem_adm_def mem_adm_key_def serving_key_def)

end
