(* ===== verification/Documents.thy ===== *)
theory Documents
  imports Models
begin

text \<open>
  Documents as the messages and snapshots of the program carry them. A text written by
  \<^verbatim>\<open>json.dumps(d, sort_keys=True)\<close> is represented by the document that \<^verbatim>\<open>json.loads\<close> reads
  from it: \<open>d\<close> with the keys of every object sorted. The locale \<open>codec\<close> is the contract of a
  class with \<^verbatim>\<open>to_dict\<close> and \<^verbatim>\<open>from_dict\<close>; what a reader of the text gets back is proved once
  inside it.
\<close>

section \<open>The text of a document\<close>

definition plain_style :: dumps_style where
  "plain_style = \<lparr>item_sep = '', '', key_sep = '': '', ensure_ascii = True, allow_nan = True,
     default_str = False\<rparr>"

fun sort_keys :: "json \<Rightarrow> json" where
  "sort_keys (JList xs) = JList (map sort_keys xs)"
| "sort_keys (JObj kvs) = JObj (sort_key fst (map (\<lambda>(k, v). (k, sort_keys v)) kvs))"
| "sort_keys v = v"

definition encode_json :: "(pyfloat \<Rightarrow> string) \<Rightarrow> json \<Rightarrow> json res" where
  "encode_json repr d = rbind (json_dumps repr plain_style d) (\<lambda>_. Inr (sort_keys d))"

text \<open>Documents without objects that JSON cannot hold.\<close>

fun json_plain :: "json \<Rightarrow> bool" where
  "json_plain (JOpaque s) = False"
| "json_plain (JList xs) = (\<forall>x \<in> set xs. json_plain x)"
| "json_plain (JObj kvs) = (\<forall>x \<in> set kvs. json_plain (snd x))"
| "json_plain v = True"

named_theorems doc_simps \<open>reading fields of written documents\<close>

declare sort_keys.simps(2) [simp del]

lemma json_plain_dumps: "json_plain d \<Longrightarrow> \<exists>s. json_dumps repr plain_style d = Inr s"
proof (induction d)
  case (JFloat f)
  then show ?case by (cases f) (auto simp: plain_style_def)
next
  case (JList xs)
  then have "\<exists>ts. map_res (json_dumps repr plain_style) xs = Inr ts" by (intro map_res_total) auto
  then show ?case by auto
next
  case (JObj kvs)
  have "\<exists>s. json_dumps repr plain_style v = Inr s" if "(k, v) \<in> set kvs" for k v
    using JObj.IH[OF that, of v] JObj.prems that by (auto simp: snds.simps)
  then have "\<exists>ts. map_res (\<lambda>(k, v). rbind (json_dumps repr plain_style v) (\<lambda>t. Inr (k, t))) kvs = Inr ts"
    by (intro map_res_total) auto
  then show ?case by auto
qed auto

lemma encode_json_plain [simp]: "json_plain d \<Longrightarrow> encode_json repr d = Inr (sort_keys d)"
  using json_plain_dumps[of d repr] by (auto simp: encode_json_def)

lemma map_of_sort_key_fst [simp]:
  fixes kvs :: "('k :: linorder \<times> 'v) list"
  shows "map_of (sort_key fst kvs) k = map_of kvs k"
proof -
  have f: "map_of xs k = map_of (filter (\<lambda>x. fst x = k) xs) k" for xs :: "('k \<times> 'v) list"
    by (induction xs) auto
  have "filter (\<lambda>x. fst x = k) (sort_key fst kvs) = filter (\<lambda>x. fst x = k) kvs"
    by (rule sort_key_stable)
  with f[of "sort_key fst kvs"] f[of kvs] show ?thesis by simp
qed

lemma insort_key_map: "map g (insort_key (\<lambda>x. f (g x)) x xs) = insort_key f (g x) (map g xs)"
  by (induction xs) auto

lemma sort_key_map: "sort_key f (map g xs) = map g (sort_key (\<lambda>x. f (g x)) xs)"
  by (induction xs) (simp_all add: insort_key_map)

lemma sort_key_sorted [simp]: "sort_key f (sort_key f xs) = sort_key f xs"
  by (rule sort_key_id_if_sorted) simp

lemma sort_key_perm:
  fixes xs :: "('k :: linorder \<times> 'v) list"
  assumes "mset xs = mset ys" "distinct (map fst xs)"
  shows "sort_key fst xs = sort_key fst ys"
proof (rule properties_for_sort_key)
  show "mset (sort_key fst ys) = mset xs" using assms(1) by simp
  show "sorted (map fst (sort_key fst ys))" by simp
  fix k assume "k \<in> set (sort_key fst ys)"
  then have "k \<in> set xs" using assms(1) by (metis mset_eq_setD set_sort)
  have d: "distinct (map fst zs) \<Longrightarrow> k \<in> set zs \<Longrightarrow> filter (\<lambda>x. fst k = fst x) zs = [k]" for zs
    by (induction zs) (auto simp: filter_empty_conv image_iff intro: filter_False)
  have "mset (map fst ys) = mset (map fst xs)" using assms(1) by simp
  then have ys: "distinct (map fst ys)" "k \<in> set ys"
    using assms \<open>k \<in> set xs\<close> by (metis mset_eq_imp_distinct_iff, metis mset_eq_setD)
  have "filter (\<lambda>x. fst k = fst x) (sort_key fst ys) = filter (\<lambda>x. fst k = fst x) ys"
    using sort_key_stable[of fst "fst k" ys] by (simp add: eq_commute)
  then show "filter (\<lambda>x. fst k = fst x) (sort_key fst ys) = filter (\<lambda>x. fst k = fst x) xs"
    using d[OF ys] d[OF assms(2) \<open>k \<in> set xs\<close>] by simp
qed

lemma mset_same_map:
  fixes xs :: "('k \<times> 'v) list"
  assumes "map_of xs = map_of ys" "distinct (map fst xs)" "distinct (map fst ys)"
  shows "mset xs = mset ys"
proof -
  have g: "p \<in> set zs \<longleftrightarrow> map_of zs (fst p) = Some (snd p)" if "distinct (map fst zs)"
    for zs :: "('k \<times> 'v) list" and p
    using that by (cases p) simp
  have "set xs = set ys"
    by (rule set_eqI) (simp only: g[OF assms(2)] g[OF assms(3)] assms(1))
  then show ?thesis using assms(2,3) by (simp add: distinct_map set_eq_iff_mset_eq_distinct)
qed

lemma sort_key_same_map:
  fixes xs :: "('k :: linorder \<times> 'v) list"
  assumes "map_of xs = map_of ys" "distinct (map fst xs)" "distinct (map fst ys)"
  shows "sort_key fst xs = sort_key fst ys"
  by (rule sort_key_perm) (rule mset_same_map assms)+

lemma distinct_map_sort [simp]: "distinct (map g (sort_key f xs)) = distinct (map g xs)"
  by (metis mset_eq_imp_distinct_iff mset_map mset_sort)

lemma sort_key_map_snd: "sort_key fst (map (\<lambda>(k, v). (k, g v)) kvs) = map (\<lambda>(k, v). (k, g v)) (sort_key fst kvs)"
  by (simp add: sort_key_map case_prod_beta)

lemma map_of_map_values: "map_of (map (\<lambda>(k, v). (k, g v)) kvs) k = map_option g (map_of kvs k)"
  by (induction kvs) auto

lemma sort_keys_empty [simp]: "sort_keys (JObj []) = JObj []"
  by (simp add: sort_keys.simps(2))

lemma sort_keys_idem [simp]: "sort_keys (sort_keys d) = sort_keys d"
proof (induction d)
  case (JObj kvs)
  have "map (\<lambda>(k, v). (k, sort_keys (sort_keys v))) kvs = map (\<lambda>(k, v). (k, sort_keys v)) kvs"
    using JObj by (auto simp: snds.simps)
  then have "sort_key fst (map (\<lambda>(k, v). (k, sort_keys (sort_keys v))) kvs)
      = sort_key fst (map (\<lambda>(k, v). (k, sort_keys v)) kvs)" by (rule arg_cong)
  then show ?case by (simp add: sort_keys.simps(2) sort_key_map case_prod_beta comp_def)
qed auto

lemma json_plain_sort_keys [simp]: "json_plain d \<Longrightarrow> json_plain (sort_keys d)"
  by (induction d) (auto simp: sort_keys.simps(2) snds.simps)

section \<open>Reading and writing fields\<close>

lemma jitem_sort_keys [simp, doc_simps]: "jitem (sort_keys d) k = rbind (jitem d k) (\<lambda>v. Inr (sort_keys v))"
  by (cases d) (simp_all add: sort_keys.simps(2) map_of_map_values split: option.split)

lemma jget_sort_keys [simp, doc_simps]:
  "sort_keys v = v \<Longrightarrow> jget (sort_keys d) k v = rbind (jget d k v) (\<lambda>v. Inr (sort_keys v))"
  by (cases d) (simp_all add: sort_keys.simps(2) map_of_map_values split: option.split)

definition of_str_list :: "string list \<Rightarrow> json" where
  "of_str_list xs = JList (map JStr xs)"

definition as_str_list :: "json \<Rightarrow> string list res" where
  "as_str_list v = rbind (as_list v) (map_res as_str)"

definition iso_item :: "json \<Rightarrow> string \<Rightarrow> datetime res" where
  "iso_item d k = rbind (jitem d k) as_iso"

definition str_list_get :: "json \<Rightarrow> string \<Rightarrow> string list res" where
  "str_list_get d k = rbind (jget d k (JList [])) as_str_list"

definition str_get :: "json \<Rightarrow> string \<Rightarrow> string \<Rightarrow> string res" where
  "str_get d k v = rbind (jget d k (JStr v)) as_str"

definition int_get :: "json \<Rightarrow> string \<Rightarrow> int \<Rightarrow> int res" where
  "int_get d k v = rbind (jget d k (JInt v)) as_int"

definition bool_get :: "json \<Rightarrow> string \<Rightarrow> bool \<Rightarrow> bool res" where
  "bool_get d k v = rbind (jget d k (JBool v)) as_bool"

definition opt_int_get :: "json \<Rightarrow> string \<Rightarrow> int option res" where
  "opt_int_get d k = rbind (jget d k JNull) (as_opt as_int)"

definition str_dict_item :: "json \<Rightarrow> string \<Rightarrow> (string, string) dict res" where
  "str_dict_item d k = rbind (jitem d k) as_str_dict"

definition list_item :: "(json \<Rightarrow> 'a res) \<Rightarrow> json \<Rightarrow> string \<Rightarrow> 'a list res" where
  "list_item f d k = rbind (rbind (jitem d k) as_list) (map_res f)"

lemmas field_reads = str_item_def int_item_def opt_str_get_def opt_iso_get_def iso_item_def
  str_list_get_def str_get_def int_get_def bool_get_def opt_int_get_def str_dict_item_def

lemma as_str_list_of_str_list [simp]: "as_str_list (of_str_list xs) = Inr xs"
  unfolding as_str_list_def of_str_list_def by (induction xs) auto

lemma sort_keys_writes [simp]:
  "sort_keys (of_iso t) = of_iso t"
  "sort_keys (of_opt of_iso ot) = of_opt of_iso ot"
  "sort_keys (of_opt JStr os) = of_opt JStr os"
  "sort_keys (of_opt JInt oi) = of_opt JInt oi"
  "sort_keys (of_str_list xs) = of_str_list xs"
  "sort_keys (of_str_dict d) = of_str_dict (sort_key fst d)"
  "sort_keys (of_pairs ps) = of_pairs ps"
  by (auto simp: of_iso_def of_opt_def of_str_list_def of_str_dict_def of_pairs_def sort_keys.simps(2)
      sort_key_map_snd case_prod_beta sort_key_map split: option.splits)

lemma json_plain_writes [simp]:
  "json_plain (of_iso t)" "json_plain (of_opt of_iso ot)" "json_plain (of_opt JStr os)"
  "json_plain (of_opt JInt oi)" "json_plain (of_str_list xs)" "json_plain (of_str_dict d)"
  "json_plain (of_pairs ps)"
  by (auto simp: of_iso_def of_opt_def of_str_list_def of_str_dict_def of_pairs_def split: option.splits)

lemma map_res_read_back:
  assumes "\<And>x. x \<in> set xs \<Longrightarrow> f (g x) = Inr (h x)"
  shows "map_res f (map g xs) = Inr (map h xs)"
  using assms by (induction xs) auto

section \<open>The contract of a document class\<close>

text \<open>
  \<open>normal\<close> is what the text keeps of an object: dictionaries come back in key order, and
  Python's \<^verbatim>\<open>==\<close> on dictionaries does not read the order.
\<close>

locale codec =
  fixes to_dict :: "'a \<Rightarrow> json res"
    and from_dict :: "json \<Rightarrow> 'a res"
    and wf :: "'a \<Rightarrow> bool"
    and normal :: "'a \<Rightarrow> 'a"
  assumes written: "wf a \<Longrightarrow>
      \<exists>d. to_dict a = Inr d \<and> json_plain d \<and> from_dict (sort_keys d) = Inr (normal a)"
    and wf_normal: "wf a \<Longrightarrow> wf (normal a)"
    and normal_normal: "normal (normal a) = normal a"
begin

lemma to_json_total:
  assumes "wf a"
  shows "\<exists>d. rbind (to_dict a) (encode_json repr) = Inr d \<and> from_dict d = Inr (normal a)"
  using written[OF assms] by fastforce

lemma wire:
  assumes "wf a"
  shows "rbind (rbind (to_dict a) (encode_json repr)) from_dict = Inr (normal a)"
  using written[OF assms] by fastforce

lemma wire_twice:
  assumes "wf a"
  shows "rbind (rbind (rbind (rbind (to_dict a) (encode_json repr)) from_dict)
      (\<lambda>b. rbind (to_dict b) (encode_json repr))) from_dict = Inr (normal a)"
  by (simp only: wire[OF assms] rbind.simps wire[OF wf_normal[OF assms]] normal_normal)

lemma list_written:
  assumes "\<forall>a \<in> set as. wf a"
  shows "\<exists>ds. map_res to_dict as = Inr ds \<and> (\<forall>d \<in> set ds. json_plain d)
    \<and> map_res from_dict (map sort_keys ds) = Inr (map normal as)"
  using assms
proof (induction as)
  case (Cons a as)
  then obtain ds where "map_res to_dict as = Inr ds" "\<forall>d \<in> set ds. json_plain d"
    "map_res from_dict (map sort_keys ds) = Inr (map normal as)" by auto
  with written[of a] Cons.prems show ?case by auto
qed simp

end

section \<open>Snapshot stores\<close>

text \<open>
  A Valkey string key holds the text of one snapshot. Its expiry (\<^verbatim>\<open>ex=ttl_s\<close>) is the server's
  and is not modelled: what is stored stays until it is overwritten.
\<close>

type_synonym snapshots = "string \<rightharpoonup> json"

text \<open>The contract that the projections share: the last snapshot put under an id is read.\<close>

locale snapshot_store =
  fixes put :: "'s \<Rightarrow> 'a \<Rightarrow> 's res"
    and get :: "'s \<Rightarrow> string \<Rightarrow> 'a option res"
    and id_of :: "'a \<Rightarrow> string"
    and ok :: "'a \<Rightarrow> bool"
    and norm :: "'a \<Rightarrow> 'a"
  assumes put_get: "ok a \<Longrightarrow>
      \<exists>s'. put s a = Inr s' \<and> (\<forall>i. get s' i = (if i = id_of a then Inr (Some (norm a)) else get s i))"
begin

definition latest_put :: "'a list \<Rightarrow> string \<Rightarrow> 'a option" where
  "latest_put as i = find (\<lambda>a. id_of a = i) (rev as)"

lemma puts:
  assumes "\<forall>a \<in> set as. ok a"
  shows "\<exists>s'. fold_res (\<lambda>a s. put s a) as s = Inr s' \<and>
    (\<forall>i. get s' i = (case latest_put as i of Some a \<Rightarrow> Inr (Some (norm a)) | None \<Rightarrow> get s i))"
  using assms
proof (induction as rule: rev_induct)
  case (snoc a as)
  then obtain s1 where s1: "fold_res (\<lambda>a s. put s a) as s = Inr s1"
    "\<forall>i. get s1 i = (case latest_put as i of Some a \<Rightarrow> Inr (Some (norm a)) | None \<Rightarrow> get s i)" by auto
  obtain s2 where "put s1 a = Inr s2"
    "\<forall>i. get s2 i = (if i = id_of a then Inr (Some (norm a)) else get s1 i)"
    using put_get[of a s1] snoc.prems by auto
  with s1 show ?case by (auto simp: latest_put_def)
qed (simp add: latest_put_def)

end

end
