(* ===== verification/ValkeyOnline.thy ===== *)
theory ValkeyOnline
  imports WriteGuard Documents
begin

text \<open>
  The Valkey-backed online store (fs_core/stores/valkey_online.py): the hash layout, the atomic
  Lua guard as the server runs it, the record codec, and the proof that on canonical UTC
  timestamps it meets the same contract as the in-memory store.
\<close>

section \<open>Lua numbers\<close>

text \<open>
  Lua holds numbers as IEEE doubles: an integer keeps its top 53 bits, rounded half to even.
\<close>

fun bit_length :: "nat \<Rightarrow> nat" where
  "bit_length n = (if n = 0 then 0 else Suc (bit_length (n div 2)))"

declare bit_length.simps [simp del]

definition round_half_even :: "nat \<Rightarrow> nat \<Rightarrow> nat" where
  "round_half_even n k =
     (let q = n div 2 ^ k; r = n mod 2 ^ k; h = 2 ^ (k - 1)
      in if r < h \<or> (r = h \<and> even q) then q else q + 1)"

definition lua_double :: "int \<Rightarrow> int" where
  "lua_double i =
     (let n = nat \<bar>i\<bar>; k = bit_length n - 53
      in if k = 0 then i else sgn i * int (round_half_even n k * 2 ^ k))"

text \<open>\<^verbatim>\<open>tonumber\<close> of a decoded field: nil when the field is missing, null or no integer.\<close>

definition lua_field :: "(string \<times> json) list \<Rightarrow> string \<Rightarrow> json" where
  "lua_field c k = (case map_of c k of Some v \<Rightarrow> v | None \<Rightarrow> JNull)"

fun lua_tonumber :: "json \<Rightarrow> int option" where
  "lua_tonumber (JInt i) = Some (lua_double i)"
| "lua_tonumber _ = None"

section \<open>The script and the client\<close>

text \<open>Stored values are documents: \<^verbatim>\<open>cjson.decode\<close> and \<^verbatim>\<open>json.loads\<close> invert \<^verbatim>\<open>json.dumps\<close>.\<close>

type_synonym valkey = "string \<rightharpoonup> (string \<rightharpoonup> json)"

definition hget :: "valkey \<Rightarrow> string \<Rightarrow> string \<Rightarrow> json option" where
  "hget db key field = (case db key of None \<Rightarrow> None | Some h \<Rightarrow> h field)"

definition hset :: "valkey \<Rightarrow> string \<Rightarrow> string \<Rightarrow> json \<Rightarrow> valkey" where
  "hset db key field doc =
     db(key \<mapsto> (case db key of None \<Rightarrow> Map.empty | Some h \<Rightarrow> h)(field \<mapsto> doc))"

definition lua_fingerprint :: "(string \<times> json) list \<Rightarrow> json" where
  "lua_fingerprint c =
     (if lua_field c ''input_fingerprint'' = JNull then JStr [] else lua_field c ''input_fingerprint'')"

definition lua_availability :: "(string \<times> json) list \<Rightarrow> json" where
  "lua_availability c =
     (if lua_field c ''availability_source'' = JStr ''source_provided''
         \<and> lua_field c ''available_at'' \<noteq> JNull
      then lua_field c ''available_at'' else JStr [])"

text \<open>The script body: the code it returns and the database after it.\<close>

definition d9_script ::
    "valkey \<Rightarrow> string \<Rightarrow> string \<Rightarrow> json \<Rightarrow> int \<Rightarrow> int \<Rightarrow> string \<Rightarrow> string \<Rightarrow> (nat \<times> valkey) res" where
  "d9_script db key field doc dts_arg max_arg fp_arg av_arg =
     (case hget db key field of
        None \<Rightarrow> Inr (1, hset db key field doc)
      | Some cur \<Rightarrow>
          rbind (case cur of JObj c \<Rightarrow> Inr c | _ \<Rightarrow> Inl (ValueError ''Lua error'')) (\<lambda>c.
          case lua_tonumber (lua_field c ''data_ts_epoch_us'') of
            None \<Rightarrow> Inl (ValueError ''Lua error'')
          | Some cur_dts \<Rightarrow>
              let cur_max = (case lua_tonumber (lua_field c ''max_input_data_ts_epoch_us'') of
                               Some m \<Rightarrow> m | None \<Rightarrow> cur_dts);
                  in_dts = lua_double dts_arg; in_max = lua_double max_arg
              in if in_dts < cur_dts \<or> (in_dts = cur_dts \<and> in_max < cur_max) then Inr (0, db)
                 else if in_dts = cur_dts \<and> in_max = cur_max then
                   (if JStr fp_arg = lua_fingerprint c then
                      (if av_arg \<noteq> [] \<and> lua_availability c \<noteq> JStr [] \<and> JStr av_arg \<noteq> lua_availability c
                       then Inr (3, hset db key field doc) else Inr (2, db))
                    else Inr (3, hset db key field doc))
                 else Inr (1, hset db key field doc)))"

fun outcome_by_code :: "nat \<Rightarrow> outcome" where
  "outcome_by_code 0 = SkippedStale"
| "outcome_by_code (Suc 0) = Written"
| "outcome_by_code (Suc (Suc 0)) = Noop"
| "outcome_by_code _ = WrittenRecompute"

definition valkey_key :: "string \<Rightarrow> int \<Rightarrow> string \<Rightarrow> string" where
  "valkey_key view version ek = ''fs:online:'' @ view @ '':v'' @ int_str version @ '':'' @ ek"

definition valkey_field :: "string \<Rightarrow> int \<Rightarrow> string" where
  "valkey_field name version = name @ '':v'' @ int_str version"

definition valkey_epoch_us :: "datetime \<Rightarrow> int res" where
  "valkey_epoch_us d =
     rbind (require (aware d) (ValueError ''data_ts must be timezone-aware'')) (\<lambda>_. Inr (instant d))"

definition record_doc :: "feature_result \<Rightarrow> int \<Rightarrow> int \<Rightarrow> json" where
  "record_doc r epoch_us max_epoch_us = JObj
     [(''value'', r_value r),
      (''data_ts'', of_iso (r_data_ts r)),
      (''calc_ts'', of_iso (r_calc_ts r)),
      (''data_ts_epoch_us'', JInt epoch_us),
      (''max_input_data_ts'', of_opt of_iso (r_max_input_data_ts r)),
      (''max_input_data_ts_epoch_us'', JInt max_epoch_us),
      (''input_fingerprint'', of_opt JStr (r_input_fingerprint r)),
      (''value_hash'', of_opt JStr (r_value_hash r)),
      (''available_at'', of_opt of_iso (r_available_at r)),
      (''availability_source'', of_opt JStr (r_availability_source r))]"

definition encode_record :: "(pyfloat \<Rightarrow> string) \<Rightarrow> feature_result \<Rightarrow> int \<Rightarrow> int \<Rightarrow> json res" where
  "encode_record repr r epoch_us max_epoch_us =
     (let doc = record_doc r epoch_us max_epoch_us in
      case json_dumps repr plain_style doc of
        Inr _ \<Rightarrow> Inr doc
      | Inl _ \<Rightarrow> Inl (ValueError ''feature value is not JSON-serializable''))"

definition valkey_write ::
    "(pyfloat \<Rightarrow> string) \<Rightarrow> valkey \<Rightarrow> string \<Rightarrow> int \<Rightarrow> feature_result \<Rightarrow> (outcome \<times> valkey) res" where
  "valkey_write repr db view version r =
     rbind (valkey_epoch_us (r_data_ts r)) (\<lambda>epoch_us.
     rbind (case r_max_input_data_ts r of
              Some m \<Rightarrow> valkey_epoch_us m | None \<Rightarrow> Inr epoch_us) (\<lambda>max_us.
     rbind (encode_record repr r epoch_us max_us) (\<lambda>doc.
     rbind (d9_script db
              (valkey_key view version (ek_text (r_entity_key r)))
              (valkey_field (fr_name (r_ref r)) (fr_version (r_ref r)))
              doc epoch_us max_us (fp_text (r_input_fingerprint r))
              (case trusted_available_at r of Some t \<Rightarrow> isoformat t | None \<Rightarrow> [])) (\<lambda>(code, db').
     Inr (outcome_by_code code, db')))))"

text \<open>
  \<^verbatim>\<open>write_many\<close> writes in order; when a write raises, the earlier ones stay.
\<close>

fun valkey_write_seq ::
    "(pyfloat \<Rightarrow> string) \<Rightarrow> valkey \<Rightarrow> string \<Rightarrow> int \<Rightarrow> feature_result list \<Rightarrow> (string \<times> outcome) list
      \<Rightarrow> (string, outcome) dict res \<times> valkey" where
  "valkey_write_seq repr db view version [] outs = (Inr (dict_of outs), db)"
| "valkey_write_seq repr db view version (r # rs) outs =
     (case valkey_write repr db view version r of
        Inl e \<Rightarrow> (Inl e, db)
      | Inr (out, db') \<Rightarrow> valkey_write_seq repr db' view version rs (outs @ [(ref_text (r_ref r), out)]))"

text \<open>\<^verbatim>\<open>_decode_record\<close>: every listed exception becomes a ValueError.\<close>

definition decode_record :: "json \<Rightarrow> entity_key \<Rightarrow> string \<Rightarrow> int \<Rightarrow> feature_result res" where
  "decode_record d ek name version =
     (case rbind (opt_iso_get d ''max_input_data_ts'') (\<lambda>max_ts.
           rbind (mk_feature_ref name version) (\<lambda>ref.
           rbind (jitem d ''value'') (\<lambda>val.
           rbind (rbind (jitem d ''data_ts'') as_iso) (\<lambda>data_ts.
           rbind (rbind (jitem d ''calc_ts'') as_iso) (\<lambda>calc_ts.
           rbind (opt_str_get d ''input_fingerprint'') (\<lambda>fp.
           rbind (opt_str_get d ''value_hash'') (\<lambda>vh.
           rbind (opt_iso_get d ''available_at'') (\<lambda>av.
           rbind (opt_str_get d ''availability_source'') (\<lambda>avs.
           mk_feature_result
             \<lparr>r_ref = ref, r_entity_key = ek, r_value = val, r_data_ts = data_ts,
              r_calc_ts = calc_ts, r_max_input_data_ts = max_ts, r_input_fingerprint = fp,
              r_value_hash = vh, r_available_at = av, r_availability_source = avs,
              r_model_uri = None, r_model_digest = None, r_model_output_name = None,
              r_bundle_digest = None\<rparr>))))))))) of
        Inr r \<Rightarrow> Inr r
      | Inl _ \<Rightarrow> Inl (ValueError ''malformed online record''))"

definition valkey_get ::
    "valkey \<Rightarrow> string \<Rightarrow> int \<Rightarrow> entity_key \<Rightarrow> string \<Rightarrow> int \<Rightarrow> feature_result option res" where
  "valkey_get db view version ek name fver =
     (case hget db (valkey_key view version (ek_text ek)) (valkey_field name fver) of
        None \<Rightarrow> Inr None
      | Some raw \<Rightarrow> rbind (decode_record raw ek name fver) (\<lambda>r. Inr (Some r)))"

section \<open>Keys and numbers\<close>

lemma bit_length_le: "n < 2 ^ k \<Longrightarrow> bit_length n \<le> k"
proof (induction k arbitrary: n)
  case 0
  then show ?case by (simp add: bit_length.simps)
next
  case (Suc k)
  then have "n div 2 < 2 ^ k" by simp
  from Suc.IH[OF this] show ?case by (simp add: bit_length.simps[of n])
qed

lemma lua_double_exact: "\<bar>i\<bar> < 2 ^ 53 \<Longrightarrow> lua_double i = i"
  using bit_length_le[of "nat \<bar>i\<bar>" 53] by (simp add: lua_double_def Let_def nat_less_iff)

lemma valkey_field_ref: "valkey_field (fr_name r) (fr_version r) = ref_text r"
  by (simp add: valkey_field_def ref_text_def)

lemma valkey_field_inj: "valkey_field n v = valkey_field n' v' \<longleftrightarrow> n = n' \<and> v = v'"
  unfolding valkey_field_def using name_version_text_inj[of n v n' v'] by auto

lemma colon_not_in_int_str: "CHR '':'' \<notin> set (int_str i)"
proof -
  have "\<not> is_digit (CHR '':'')" by (simp add: is_digit_def)
  then show ?thesis using int_str_chars[of "CHR '':''" i] by auto
qed

lemma valkey_key_inj:
  assumes "CHR '':'' \<notin> set view" "CHR '':'' \<notin> set view'"
    "valkey_key view v ek = valkey_key view' v' ek'"
  shows "view = view' \<and> v = v' \<and> ek = ek'"
proof -
  from assms(3) have "view @ CHR '':'' # (CHR ''v'' # int_str v @ CHR '':'' # ek)
      = view' @ CHR '':'' # (CHR ''v'' # int_str v' @ CHR '':'' # ek')"
    by (simp add: valkey_key_def)
  from append_sep_unique_first[OF this assms(1,2)]
  have 1: "view = view'" and "int_str v @ CHR '':'' # ek = int_str v' @ CHR '':'' # ek'" by auto
  from append_sep_unique_first[OF this(2) colon_not_in_int_str colon_not_in_int_str] 1
  show ?thesis by simp
qed

lemma hget_hset: "hget (hset db k f d) k' f' = (if k' = k \<and> f' = f then Some d else hget db k' f')"
  by (auto simp: hget_def hset_def split: option.splits)

section \<open>The contract\<close>

text \<open>
  Canonical timestamps: valid, in UTC, and inside the range of exact doubles (to the year
  2255). A result is covered when its timestamps are canonical, its value is serializable and
  the view name has no colon.
\<close>

definition canonical :: "datetime \<Rightarrow> bool" where
  "canonical d \<longleftrightarrow> datetime_valid d \<and> utcoff d = Some 0 \<and> \<bar>instant d\<bar> < 2 ^ 53"

definition result_canonical :: "feature_result \<Rightarrow> bool" where
  "result_canonical r \<longleftrightarrow>
     canonical (r_data_ts r) \<and> canonical (r_calc_ts r)
     \<and> (\<forall>t. r_max_input_data_ts r = Some t \<longrightarrow> canonical t)
     \<and> (\<forall>t. r_available_at r = Some t \<longrightarrow> canonical t)"

definition valkey_adm :: "(pyfloat \<Rightarrow> string) \<Rightarrow> string \<Rightarrow> feature_result \<Rightarrow> bool" where
  "valkey_adm repr view r \<longleftrightarrow>
     CHR '':'' \<notin> set view \<and> ek_valid (r_entity_key r) \<and> ref_ok (r_ref r) \<and> result_canonical r
     \<and> (\<exists>s. json_dumps repr plain_style (r_value r) = Inr s)"

definition valkey_adm_key :: "serving_key \<Rightarrow> bool" where
  "valkey_adm_key k \<longleftrightarrow>
     (case k of (view, version, ek, name, fver) \<Rightarrow> CHR '':'' \<notin> set view \<and> ek_valid ek)"

text \<open>Valkey keeps no model lineage and no bundle digest.\<close>

definition drop_lineage :: "feature_result \<Rightarrow> feature_result" where
  "drop_lineage r =
     r\<lparr>r_model_uri := None, r_model_digest := None, r_model_output_name := None,
       r_bundle_digest := None\<rparr>"

definition doc_of :: "feature_result \<Rightarrow> json" where
  "doc_of r = record_doc r (instant (fst (result_tuple r))) (instant (snd (result_tuple r)))"

definition valkey_lookup :: "valkey \<Rightarrow> serving_key \<Rightarrow> feature_result option" where
  "valkey_lookup db k =
     (case k of (view, version, ek, name, fver) \<Rightarrow>
        (case valkey_get db view version ek name fver of Inr x \<Rightarrow> x | Inl _ \<Rightarrow> None))"

definition valkey_inv :: "(pyfloat \<Rightarrow> string) \<Rightarrow> valkey \<Rightarrow> bool" where
  "valkey_inv repr db \<longleftrightarrow>
     (\<forall>view version ek name fver doc. valkey_adm_key (view, version, ek, name, fver) \<longrightarrow>
        hget db (valkey_key view version (ek_text ek)) (valkey_field name fver) = Some doc \<longrightarrow>
        (\<exists>r. valkey_adm repr view r \<and> doc = doc_of r
           \<and> serving_key view version r = (view, version, ek, name, fver)))"

lemma canonical_aware [simp]: "canonical d \<Longrightarrow> aware d"
  by (simp add: canonical_def aware_def)

lemma canonical_iso_eq:
  "canonical a \<Longrightarrow> canonical b \<Longrightarrow> isoformat a = isoformat b \<longleftrightarrow> dt_eq a b"
  by (auto simp: canonical_def isoformat_inj dt_eq_def aware_def intro: instant_inj_offset)

lemma iso_nonempty [simp]: "isoformat d \<noteq> []"
  by (simp add: isoformat_def pad4_def pad2_def)

lemma adm_ok: "valkey_adm repr view r \<Longrightarrow> result_ok r"
  by (auto simp: valkey_adm_def result_canonical_def result_ok_def)

lemma adm_tuple_canonical:
  "valkey_adm repr view r \<Longrightarrow> canonical (fst (result_tuple r)) \<and> canonical (snd (result_tuple r))"
  by (auto simp: valkey_adm_def result_canonical_def result_tuple_def guard_tuple_def split: option.splits)

lemma encode_record_ok:
  assumes "json_dumps repr plain_style (r_value r) = Inr s"
  shows "encode_record repr r a b = Inr (record_doc r a b)"
proof -
  have iso: "json_dumps repr st (of_iso d) = Inr (quote (ensure_ascii st) (isoformat d))" for st d
    by (simp add: of_iso_def)
  have opt: "\<exists>s. json_dumps repr st (of_opt of_iso x) = Inr s" for st x
    by (cases x) (simp_all add: of_opt_def iso)
  have opts: "\<exists>s. json_dumps repr st (of_opt JStr x) = Inr s" for st x
    by (cases x) (simp_all add: of_opt_def)
  obtain o1 o2 o3 o4 o5 where o:
    "json_dumps repr plain_style (of_opt of_iso (r_max_input_data_ts r)) = Inr o1"
    "json_dumps repr plain_style (of_opt of_iso (r_available_at r)) = Inr o2"
    "json_dumps repr plain_style (of_opt JStr (r_input_fingerprint r)) = Inr o3"
    "json_dumps repr plain_style (of_opt JStr (r_value_hash r)) = Inr o4"
    "json_dumps repr plain_style (of_opt JStr (r_availability_source r)) = Inr o5"
    using opt opts by metis
  show ?thesis by (simp add: encode_record_def record_doc_def Let_def assms o iso)
qed

lemma decode_doc_as:
  assumes "valkey_adm repr view r"
  shows "decode_record (doc_of r) ek (fr_name (r_ref r)) (fr_version (r_ref r))
    = Inr ((drop_lineage r)\<lparr>r_entity_key := ek\<rparr>)"
proof -
  have ref: "mk_feature_ref (fr_name (r_ref r)) (fr_version (r_ref r)) = Inr (r_ref r)"
    using assms by (simp add: valkey_adm_def)
  let ?d = "(drop_lineage r)\<lparr>r_entity_key := ek\<rparr>"
  have mk: "mk_feature_result ?d = Inr ?d"
    using adm_ok[OF assms] by (simp add: drop_lineage_def result_ok_def)
  have v: "datetime_valid (r_data_ts r)" "datetime_valid (r_calc_ts r)"
    "\<And>t. r_max_input_data_ts r = Some t \<Longrightarrow> datetime_valid t"
    "\<And>t. r_available_at r = Some t \<Longrightarrow> datetime_valid t"
    using assms by (auto simp: valkey_adm_def result_canonical_def canonical_def)
  have d: "?d =
     \<lparr>r_ref = r_ref r, r_entity_key = ek, r_value = r_value r, r_data_ts = r_data_ts r,
      r_calc_ts = r_calc_ts r, r_max_input_data_ts = r_max_input_data_ts r,
      r_input_fingerprint = r_input_fingerprint r, r_value_hash = r_value_hash r,
      r_available_at = r_available_at r, r_availability_source = r_availability_source r,
      r_model_uri = None, r_model_digest = None, r_model_output_name = None, r_bundle_digest = None\<rparr>"
    by (simp add: drop_lineage_def)
  show ?thesis
    using v unfolding decode_record_def doc_of_def record_doc_def read_simps
    by (simp add: ref flip: d) (simp only: mk sum.case)
qed

lemma decode_doc:
  assumes "valkey_adm repr view r"
  shows "decode_record (doc_of r) (r_entity_key r) (fr_name (r_ref r)) (fr_version (r_ref r))
    = Inr (drop_lineage r)"
  using decode_doc_as[OF assms, of "r_entity_key r"] by (simp add: drop_lineage_def)

text \<open>What the script reads from the document of a covered value.\<close>

lemma script_reads:
  assumes "valkey_adm repr view c"
  obtains c' where "doc_of c = JObj c'"
    "lua_tonumber (lua_field c' ''data_ts_epoch_us'') = Some (instant (fst (result_tuple c)))"
    "lua_tonumber (lua_field c' ''max_input_data_ts_epoch_us'') = Some (instant (snd (result_tuple c)))"
    "lua_fingerprint c' = JStr (fp_text (r_input_fingerprint c))"
    "lua_availability c' = JStr (case trusted_available_at c of Some t \<Rightarrow> isoformat t | None \<Rightarrow> [])"
    "lua_double (instant (fst (result_tuple c))) = instant (fst (result_tuple c))"
    "lua_double (instant (snd (result_tuple c))) = instant (snd (result_tuple c))"
proof -
  have num: "lua_double (instant (fst (result_tuple c))) = instant (fst (result_tuple c))"
    "lua_double (instant (snd (result_tuple c))) = instant (snd (result_tuple c))"
    using adm_tuple_canonical[OF assms] by (auto simp: canonical_def lua_double_exact)
  obtain c' where c': "doc_of c = JObj c'"
    and n: "lua_tonumber (lua_field c' ''data_ts_epoch_us'') = Some (instant (fst (result_tuple c)))"
      "lua_tonumber (lua_field c' ''max_input_data_ts_epoch_us'') = Some (instant (snd (result_tuple c)))"
    and f: "lua_field c' ''input_fingerprint'' = of_opt JStr (r_input_fingerprint c)"
    and a: "lua_field c' ''availability_source'' = of_opt JStr (r_availability_source c)"
      "lua_field c' ''available_at'' = of_opt of_iso (r_available_at c)"
    by (simp add: doc_of_def record_doc_def lua_field_def num)
  have "lua_fingerprint c' = JStr (fp_text (r_input_fingerprint c))"
    by (simp add: lua_fingerprint_def f of_opt_def fp_text_def split: option.splits)
  moreover have "lua_availability c' = JStr (case trusted_available_at c of Some t \<Rightarrow> isoformat t | None \<Rightarrow> [])"
    by (auto simp: lua_availability_def a of_opt_def of_iso_def trusted_available_at_def split: option.splits)
  ultimately show thesis using that c' n num by blast
qed

text \<open>On covered values the script decides exactly as the shared guard does.\<close>

lemma script_decides:
  assumes r: "valkey_adm repr view r" and c: "valkey_adm repr view' c"
    and cur: "hget db key field = Some (doc_of c)"
  shows "\<exists>code. d9_script db key field doc (instant (fst (result_tuple r))) (instant (snd (result_tuple r)))
      (fp_text (r_input_fingerprint r))
      (case trusted_available_at r of Some t \<Rightarrow> isoformat t | None \<Rightarrow> [])
    = Inr (code, if decide_result r (Some c) \<in> set write_outcomes then hset db key field doc else db)
    \<and> outcome_by_code code = decide_result r (Some c)"
proof -
  obtain c' where c': "doc_of c = JObj c'"
    and n1: "lua_tonumber (lua_field c' ''data_ts_epoch_us'') = Some (instant (fst (result_tuple c)))"
    and n2: "lua_tonumber (lua_field c' ''max_input_data_ts_epoch_us'') = Some (instant (snd (result_tuple c)))"
    and fp: "lua_fingerprint c' = JStr (fp_text (r_input_fingerprint c))"
    and ca: "lua_availability c' = JStr (case trusted_available_at c of Some t \<Rightarrow> isoformat t | None \<Rightarrow> [])"
    by (rule script_reads[OF c])
  have num: "lua_double (instant (fst (result_tuple r))) = instant (fst (result_tuple r))"
    "lua_double (instant (snd (result_tuple r))) = instant (snd (result_tuple r))"
    using adm_tuple_canonical[OF r] by (auto simp: canonical_def lua_double_exact)
  let ?ra = "case trusted_available_at r of Some t \<Rightarrow> isoformat t | None \<Rightarrow> []"
  have can: "canonical t" if "trusted_available_at x = Some t" "valkey_adm repr v x" for t x v
    using that by (auto simp: trusted_available_at_def valkey_adm_def result_canonical_def split: if_splits option.splits)
  have av: "(?ra \<noteq> [] \<and> lua_availability c' \<noteq> JStr [] \<and> JStr ?ra \<noteq> lua_availability c')
     = (case (trusted_available_at r, trusted_available_at c) of (Some a, Some b) \<Rightarrow> \<not> dt_eq a b | _ \<Rightarrow> False)"
    using can[OF _ r] can[OF _ c]
    by (cases "trusted_available_at r"; cases "trusted_available_at c") (simp_all add: ca canonical_iso_eq)
  have dec: "decide_result r (Some c) =
     (if freshness c < freshness r then Written
      else if freshness r < freshness c then SkippedStale
      else if fp_text (r_input_fingerprint r) \<noteq> fp_text (r_input_fingerprint c) then WrittenRecompute
      else if ?ra \<noteq> [] \<and> lua_availability c' \<noteq> JStr [] \<and> JStr ?ra \<noteq> lua_availability c'
      then WrittenRecompute else Noop)"
    unfolding decide_result_Some av by (simp split: option.splits)
  have lt: "freshness r < freshness c \<longleftrightarrow>
      instant (fst (result_tuple r)) < instant (fst (result_tuple c))
      \<or> instant (fst (result_tuple r)) = instant (fst (result_tuple c))
        \<and> instant (snd (result_tuple r)) < instant (snd (result_tuple c))"
    by (auto simp: freshness_def tuple_instants_def less_prod_simp)
  have eq: "freshness r = freshness c \<longleftrightarrow>
      instant (fst (result_tuple r)) = instant (fst (result_tuple c))
      \<and> instant (snd (result_tuple r)) = instant (snd (result_tuple c))"
    by (simp add: freshness_def tuple_instants_def)
  have scr: "d9_script db key field doc (instant (fst (result_tuple r))) (instant (snd (result_tuple r)))
      (fp_text (r_input_fingerprint r)) ?ra =
     (if freshness r < freshness c then Inr (0, db)
      else if freshness r = freshness c then
        (if fp_text (r_input_fingerprint r) = fp_text (r_input_fingerprint c)
         then (if ?ra \<noteq> [] \<and> lua_availability c' \<noteq> JStr [] \<and> JStr ?ra \<noteq> lua_availability c'
               then Inr (3, hset db key field doc) else Inr (2, db))
         else Inr (3, hset db key field doc))
      else Inr (1, hset db key field doc))"
    unfolding d9_script_def cur c' option.case json.case rbind.simps n1 n2 Let_def num fp
      lt eq json.inject ..
  show ?thesis
    unfolding scr dec
    by (cases "freshness r < freshness c"; cases "freshness r = freshness c"; simp only: if_True if_False)
      (auto simp: numeral_eq_Suc)
qed

text \<open>Distinct covered serving keys live in distinct hash fields.\<close>

lemma valkey_slot_inj:
  assumes "valkey_adm_key (view, version, ek, name, fver)"
    "valkey_adm_key (view', version', ek', name', fver')"
    "valkey_key view version (ek_text ek) = valkey_key view' version' (ek_text ek')"
    "valkey_field name fver = valkey_field name' fver'"
  shows "(view, version, ek, name, fver) = (view', version', ek', name', fver')"
proof -
  have "view = view' \<and> version = version' \<and> ek_text ek = ek_text ek'"
    using assms(1-3) by (intro valkey_key_inj) (simp_all add: valkey_adm_key_def)
  moreover have "name = name' \<and> fver = fver'" using assms(4) by (simp add: valkey_field_inj)
  ultimately show ?thesis using assms(1,2) ek_text_inj by (auto simp: valkey_adm_key_def)
qed

lemma valkey_lookup_None:
  "hget db (valkey_key view version (ek_text ek)) (valkey_field name fver) = None
    \<Longrightarrow> valkey_lookup db (view, version, ek, name, fver) = None"
  by (simp add: valkey_lookup_def valkey_get_def)

lemma valkey_lookup_Some:
  assumes "valkey_adm repr view c" "serving_key view version c = (view, version, ek, name, fver)"
    "hget db (valkey_key view version (ek_text ek)) (valkey_field name fver) = Some (doc_of c)"
  shows "valkey_lookup db (view, version, ek, name, fver) = Some (drop_lineage c)"
  using assms(2,3) decode_doc[OF assms(1)]
  by (auto simp: valkey_lookup_def valkey_get_def serving_key_def)

lemma valkey_adm_serving: "valkey_adm repr view r \<Longrightarrow> valkey_adm_key (serving_key view version r)"
  by (simp add: valkey_adm_def valkey_adm_key_def serving_key_def)

lemma valkey_write_aware:
  assumes "aware (r_data_ts r)" "aware_opt (r_max_input_data_ts r)"
    "json_dumps repr plain_style (r_value r) = Inr s"
  shows "valkey_write repr db view version r =
    rbind (d9_script db (valkey_key view version (ek_text (r_entity_key r)))
        (valkey_field (fr_name (r_ref r)) (fr_version (r_ref r))) (doc_of r)
        (instant (fst (result_tuple r))) (instant (snd (result_tuple r)))
        (fp_text (r_input_fingerprint r))
        (case trusted_available_at r of Some t \<Rightarrow> isoformat t | None \<Rightarrow> []))
      (\<lambda>(code, db'). Inr (outcome_by_code code, db'))"
proof -
  have t: "fst (result_tuple r) = r_data_ts r"
    "snd (result_tuple r) = (case r_max_input_data_ts r of Some m \<Rightarrow> m | None \<Rightarrow> r_data_ts r)"
    by (simp_all add: result_tuple_def guard_tuple_def)
  have e: "valkey_epoch_us (r_data_ts r) = Inr (instant (r_data_ts r))"
    using assms(1) by (simp add: valkey_epoch_us_def)
  have m: "(case r_max_input_data_ts r of Some m \<Rightarrow> valkey_epoch_us m
      | None \<Rightarrow> Inr (instant (r_data_ts r))) = Inr (instant (snd (result_tuple r)))"
    using assms(2) by (cases "r_max_input_data_ts r") (simp_all add: t valkey_epoch_us_def)
  show ?thesis
    unfolding valkey_write_def e rbind.simps m encode_record_ok[OF assms(3)] doc_of_def
    by (simp only: t(1))
qed

lemma valkey_write_script:
  assumes "valkey_adm repr view r"
  shows "valkey_write repr db view version r =
    rbind (d9_script db (valkey_key view version (ek_text (r_entity_key r)))
        (valkey_field (fr_name (r_ref r)) (fr_version (r_ref r))) (doc_of r)
        (instant (fst (result_tuple r))) (instant (snd (result_tuple r)))
        (fp_text (r_input_fingerprint r))
        (case trusted_available_at r of Some t \<Rightarrow> isoformat t | None \<Rightarrow> []))
      (\<lambda>(code, db'). Inr (outcome_by_code code, db'))"
proof -
  obtain s where "json_dumps repr plain_style (r_value r) = Inr s" using assms by (auto simp: valkey_adm_def)
  moreover have "aware (r_data_ts r)" "aware_opt (r_max_input_data_ts r)"
    using assms by (auto simp: valkey_adm_def result_canonical_def)
  ultimately show ?thesis by (intro valkey_write_aware)
qed

lemma valkey_write_ok:
  fixes version :: int
  assumes inv: "valkey_inv repr db" and adm: "valkey_adm repr view r"
  defines "sk \<equiv> serving_key view version r"
    and "slot \<equiv> valkey_key view version (ek_text (r_entity_key r))"
    and "field \<equiv> valkey_field (fr_name (r_ref r)) (fr_version (r_ref r))"
  shows "valkey_write repr db view version r =
    Inr (decide_result r (valkey_lookup db sk),
         if decide_result r (valkey_lookup db sk) \<in> set write_outcomes then hset db slot field (doc_of r) else db)"
proof (cases "hget db slot field")
  case None
  then have "valkey_lookup db sk = None"
    unfolding sk_def serving_key_def slot_def field_def by (rule valkey_lookup_None)
  with None show ?thesis
    unfolding valkey_write_script[OF adm] slot_def field_def by (simp add: d9_script_def)
next
  case (Some doc)
  have "valkey_adm_key sk" unfolding sk_def by (rule valkey_adm_serving[OF adm])
  with inv Some obtain c where c: "valkey_adm repr view c" "doc = doc_of c"
    "serving_key view version c = sk"
    unfolding valkey_inv_def sk_def serving_key_def slot_def field_def by blast
  have "valkey_lookup db sk = Some (drop_lineage c)"
    unfolding sk_def serving_key_def
    by (rule valkey_lookup_Some[OF c(1)])
      (use c Some in \<open>simp_all add: sk_def serving_key_def slot_def field_def\<close>)
  moreover have "decide_result r (Some (drop_lineage c)) = decide_result r (Some c)"
    by (rule decide_result_cong) (simp_all add: drop_lineage_def)
  moreover obtain code where
    "d9_script db slot field (doc_of r) (instant (fst (result_tuple r))) (instant (snd (result_tuple r)))
      (fp_text (r_input_fingerprint r))
      (case trusted_available_at r of Some t \<Rightarrow> isoformat t | None \<Rightarrow> [])
    = Inr (code, if decide_result r (Some c) \<in> set write_outcomes then hset db slot field (doc_of r) else db)"
    "outcome_by_code code = decide_result r (Some c)"
    using script_decides[OF adm c(1)] Some c(2) by blast
  ultimately show ?thesis
    unfolding valkey_write_script[OF adm] slot_def[symmetric] field_def[symmetric] by simp
qed

lemma valkey_inv_hset:
  assumes "valkey_inv repr db" "valkey_adm repr view r"
  shows "valkey_inv repr (hset db (valkey_key view version (ek_text (r_entity_key r)))
      (valkey_field (fr_name (r_ref r)) (fr_version (r_ref r))) (doc_of r))"
  unfolding valkey_inv_def
proof (intro allI impI)
  fix view' version' ek name fver doc
  assume k: "valkey_adm_key (view', version', ek, name, fver)"
    and h: "hget (hset db (valkey_key view version (ek_text (r_entity_key r)))
      (valkey_field (fr_name (r_ref r)) (fr_version (r_ref r))) (doc_of r))
      (valkey_key view' version' (ek_text ek)) (valkey_field name fver) = Some doc"
  note sk = valkey_adm_serving[OF assms(2), of version, unfolded serving_key_def]
  show "\<exists>r. valkey_adm repr view' r \<and> doc = doc_of r
      \<and> serving_key view' version' r = (view', version', ek, name, fver)"
  proof (cases "valkey_key view' version' (ek_text ek) = valkey_key view version (ek_text (r_entity_key r))
      \<and> valkey_field name fver = valkey_field (fr_name (r_ref r)) (fr_version (r_ref r))")
    case True
    with valkey_slot_inj[OF k sk] h assms(2) show ?thesis
      by (auto simp: hget_hset serving_key_def)
  next
    case False
    with h have "hget db (valkey_key view' version' (ek_text ek)) (valkey_field name fver) = Some doc"
      by (simp only: hget_hset if_False)
    with assms(1) k show ?thesis unfolding valkey_inv_def by blast
  qed
qed

lemma valkey_lookup_hset:
  assumes "valkey_adm repr view r" "valkey_adm_key k"
  shows "valkey_lookup (hset db (valkey_key view version (ek_text (r_entity_key r)))
      (valkey_field (fr_name (r_ref r)) (fr_version (r_ref r))) (doc_of r)) k
    = (if k = serving_key view version r then Some (drop_lineage r) else valkey_lookup db k)"
proof (cases "k = serving_key view version r")
  case True
  then show ?thesis
    using valkey_lookup_Some[OF assms(1), of version] by (simp add: serving_key_def hget_hset)
next
  case False
  obtain view' version' ek name fver where k: "k = (view', version', ek, name, fver)"
    by (cases k)
  note sk = valkey_adm_serving[OF assms(1), of version, unfolded serving_key_def]
  have "\<not> (valkey_key view' version' (ek_text ek) = valkey_key view version (ek_text (r_entity_key r))
      \<and> valkey_field name fver = valkey_field (fr_name (r_ref r)) (fr_version (r_ref r)))"
    using valkey_slot_inj[OF assms(2)[unfolded k] sk] False by (auto simp: k serving_key_def)
  with False show ?thesis by (simp only: k valkey_lookup_def prod.case valkey_get_def hget_hset if_False)
qed

interpretation valkey: online_store "valkey_inv repr" "valkey_adm repr" valkey_adm_key drop_lineage
  "valkey_write repr" valkey_lookup for repr
proof unfold_locales
  fix db view version r
  assume inv: "valkey_inv repr db" and adm: "valkey_adm repr view r"
  show "\<exists>s'. valkey_write repr db view version r =
      Inr (decide_result r (valkey_lookup db (serving_key view version r)), s')
      \<and> valkey_inv repr s' \<and> (\<forall>k. valkey_adm_key k \<longrightarrow> valkey_lookup s' k =
         (if k = serving_key view version r
             \<and> decide_result r (valkey_lookup db (serving_key view version r)) \<in> set write_outcomes
          then Some (drop_lineage r) else valkey_lookup db k))"
    by (intro exI conjI, rule valkey_write_ok[OF inv adm])
      (auto simp: inv valkey_inv_hset[OF inv adm] valkey_lookup_hset[OF adm])
qed (auto simp: valkey_adm_serving drop_lineage_def)

section \<open>Where the texts decide\<close>

text \<open>
  At equal freshness and fingerprint the script compares availabilities as ISO texts, so two
  texts of one instant count as a correction.
\<close>

lemma availability_text_decides:
  assumes c: "valkey_adm repr view c" and cur: "hget db (valkey_key view version (ek_text (r_entity_key c)))
      (valkey_field (fr_name (r_ref c)) (fr_version (r_ref c))) = Some (doc_of c)"
    and a: "trusted_available_at c = Some a" "isoformat b \<noteq> isoformat a"
  shows "\<exists>db'. valkey_write repr db view version (c\<lparr>r_available_at := Some b\<rparr>) = Inr (WrittenRecompute, db')"
proof -
  let ?r = "c\<lparr>r_available_at := Some b\<rparr>"
  obtain s where s: "json_dumps repr plain_style (r_value ?r) = Inr s" using c by (auto simp: valkey_adm_def)
  have aw: "aware (r_data_ts ?r)" "aware_opt (r_max_input_data_ts ?r)"
    using c by (auto simp: valkey_adm_def result_canonical_def)
  have same: "result_tuple ?r = result_tuple c" by (simp add: result_tuple_def)
  have "r_availability_source c = Some ''source_provided''"
    using a(1) by (auto simp: trusted_available_at_def split: if_splits)
  then have tb: "trusted_available_at ?r = Some b" by (simp add: trusted_available_at_def)
  obtain c' where c': "doc_of c = JObj c'"
    "lua_tonumber (lua_field c' ''data_ts_epoch_us'') = Some (instant (fst (result_tuple c)))"
    "lua_tonumber (lua_field c' ''max_input_data_ts_epoch_us'') = Some (instant (snd (result_tuple c)))"
    "lua_fingerprint c' = JStr (fp_text (r_input_fingerprint c))"
    "lua_availability c' = JStr (isoformat a)"
    "lua_double (instant (fst (result_tuple c))) = instant (fst (result_tuple c))"
    "lua_double (instant (snd (result_tuple c))) = instant (snd (result_tuple c))"
    by (rule script_reads[OF c]) (simp add: a(1))
  show ?thesis
    unfolding valkey_write_aware[OF aw s] same tb
    using a(2) cur c' by (simp add: d9_script_def numeral_eq_Suc)
qed

text \<open>A key name may end in the text of another view's version: the two views share a slot.\<close>

lemma write_empty:
  assumes "aware (r_data_ts r)" "aware_opt (r_max_input_data_ts r)"
    "json_dumps repr plain_style (r_value r) = Inr s"
  shows "valkey_write repr Map.empty view version r =
    Inr (Written, hset Map.empty (valkey_key view version (ek_text (r_entity_key r)))
      (valkey_field (fr_name (r_ref r)) (fr_version (r_ref r))) (doc_of r))"
  unfolding valkey_write_aware[OF assms] by (simp add: d9_script_def hget_def)

end
