(* ===== verification/OnlineRefinement.thy ===== *)
theory OnlineRefinement
  imports OnlineStore ValkeyOnline
begin

text \<open>
  Sequences of online writes: the in-memory store and the Valkey store return the same
  outcomes and serve the same values, up to the lineage fields that Valkey does not keep.
\<close>

type_synonym online_writes = "(string \<times> int \<times> feature_result) list"

fun online_run :: "online_mem \<Rightarrow> online_writes \<Rightarrow> outcome list \<times> online_mem" where
  "online_run s [] = ([], s)"
| "online_run s ((view, version, r) # ws) =
     (let (out, s') = online_write s view version r; (outs, s'') = online_run s' ws
      in (out # outs, s''))"

fun valkey_run :: "(pyfloat \<Rightarrow> string) \<Rightarrow> valkey \<Rightarrow> online_writes \<Rightarrow> (outcome list \<times> valkey) res" where
  "valkey_run repr db [] = Inr ([], db)"
| "valkey_run repr db ((view, version, r) # ws) =
     rbind (valkey_write repr db view version r) (\<lambda>(out, db').
     rbind (valkey_run repr db' ws) (\<lambda>(outs, db''). Inr (out # outs, db'')))"

lemma online_run_put_all: "mem.put_all s ws = Inr (online_run s ws)"
  by (induction s ws rule: online_run.induct) (auto split: prod.splits)

lemma valkey_run_put_all: "valkey.put_all repr db ws = valkey_run repr db ws"
proof (induction repr db ws rule: valkey_run.induct)
  case (2 repr db view version r ws)
  show ?case by (cases "valkey_write repr db view version r") (auto simp: 2)
qed simp

text \<open>The freshness of the results written under one key.\<close>

definition freshness_under :: "serving_key \<Rightarrow> online_writes \<Rightarrow> (int \<times> int) list" where
  "freshness_under k ws =
     map (\<lambda>(view, version, r). freshness r)
       (filter (\<lambda>(view, version, r). serving_key view version r = k) ws)"

lemma online_run_freshness:
  assumes "\<forall>(view, version, r) \<in> set ws. mem_adm view r" "mem_adm_key k" "freshness_under k ws \<noteq> []"
  shows "map_option freshness (mem_get (snd (online_run Map.empty ws)) k)
    = Some (Max (set (freshness_under k ws)))"
proof -
  have "mem.put_all Map.empty ws = Inr (fst (online_run Map.empty ws), snd (online_run Map.empty ws))"
    by (simp add: online_run_put_all)
  from mem.put_all_held[OF _ assms(1) this assms(2)] assms(3) show ?thesis
    by (cases k) (simp add: mem.held_def mem_get_def online_get_def freshness_under_def Let_def)
qed

text \<open>The simulation: lookups agree up to \<open>drop_lineage\<close>.\<close>

definition stores_agree :: "valkey \<Rightarrow> online_mem \<Rightarrow> bool" where
  "stores_agree db s \<longleftrightarrow>
     (\<forall>k. valkey_adm_key k \<longrightarrow> valkey_lookup db k = map_option drop_lineage (mem_get s k))"

lemma decide_drop_lineage:
  "decide_result r (map_option drop_lineage x) = decide_result r x"
  by (cases x) (auto simp: drop_lineage_def intro: decide_result_cong)

lemma agree_write:
  assumes inv: "valkey_inv repr db" and adm: "valkey_adm repr view r" and ag: "stores_agree db s"
  shows "\<exists>db'. valkey_write repr db view version r = Inr (fst (online_write s view version r), db')
    \<and> valkey_inv repr db' \<and> stores_agree db' (snd (online_write s view version r))"
proof -
  let ?k = "serving_key view version r"
  have ka: "valkey_adm_key ?k" by (rule valkey_adm_serving[OF adm])
  have madm: "mem_adm view r" using adm by (simp add: valkey_adm_def mem_adm_def)
  from mem.put_ok[OF _ madm, of s version] obtain s' where
    m: "online_write s view version r = (decide_result r (mem_get s ?k), s')"
    and ms: "\<And>k. mem_adm_key k \<Longrightarrow> mem_get s' k =
      (if k = ?k \<and> decide_result r (mem_get s ?k) \<in> set write_outcomes then Some r else mem_get s k)"
    by auto
  from valkey.put_ok[OF inv adm, of version] obtain db' where
    v: "valkey_write repr db view version r = Inr (decide_result r (valkey_lookup db ?k), db')"
    "valkey_inv repr db'"
    and vs: "\<And>k. valkey_adm_key k \<Longrightarrow> valkey_lookup db' k =
      (if k = ?k \<and> decide_result r (valkey_lookup db ?k) \<in> set write_outcomes
       then Some (drop_lineage r) else valkey_lookup db k)"
    by blast
  have same: "decide_result r (valkey_lookup db ?k) = decide_result r (mem_get s ?k)"
  proof -
    have "valkey_lookup db ?k = map_option drop_lineage (mem_get s ?k)"
      using ag ka unfolding stores_agree_def by blast
    then show ?thesis by (simp only: decide_drop_lineage)
  qed
  have "stores_agree db' s'"
    unfolding stores_agree_def
  proof (intro allI impI)
    fix k
    assume k: "valkey_adm_key k"
    have "mem_adm_key k" using k by (cases k) (auto simp: valkey_adm_key_def mem_adm_key_def)
    then show "valkey_lookup db' k = map_option drop_lineage (mem_get s' k)"
    proof -
      have "valkey_lookup db k = map_option drop_lineage (mem_get s k)"
        using ag k unfolding stores_agree_def by blast
      then show ?thesis unfolding vs[OF k] ms[OF \<open>mem_adm_key k\<close>] same by auto
    qed
  qed
  with v m same show ?thesis by simp
qed

lemma valkey_refines_run:
  assumes "valkey_inv repr db" "\<forall>(view, version, r) \<in> set ws. valkey_adm repr view r" "stores_agree db s"
  shows "\<exists>db'. valkey_run repr db ws = Inr (fst (online_run s ws), db')
    \<and> valkey_inv repr db' \<and> stores_agree db' (snd (online_run s ws))"
  using assms
proof (induction ws arbitrary: db s)
  case (Cons w ws)
  obtain view version r where w: "w = (view, version, r)" by (cases w)
  obtain out s1 where s1: "online_write s view version r = (out, s1)" by (cases "online_write s view version r")
  have "valkey_adm repr view r" using Cons.prems(2) by (simp add: w)
  from agree_write[OF Cons.prems(1) this Cons.prems(3), of version] s1 obtain db1 where
    1: "valkey_write repr db view version r = Inr (out, db1)" "valkey_inv repr db1" "stores_agree db1 s1" by auto
  from Cons.IH[OF 1(2) _ 1(3)] Cons.prems(2) obtain db' where
    "valkey_run repr db1 ws = Inr (fst (online_run s1 ws), db')" "valkey_inv repr db'"
    "stores_agree db' (snd (online_run s1 ws))" by auto
  with 1(1) s1 show ?case by (auto simp: w split: prod.splits)
qed simp

lemma valkey_empty: "valkey_inv repr Map.empty" "stores_agree Map.empty Map.empty"
  by (auto simp: valkey_inv_def hget_def stores_agree_def valkey_lookup_def valkey_get_def mem_get_def
      online_get_def)

end
