(* ===== verification/Hashing.thy ===== *)
theory Hashing
  imports PyTime PyJson
begin

text \<open>
  Canonical hashing of values and inputs (fs_core/hashing.py). SHA-256 (hashlib, a C library)
  and the shortest float rendering are the two functions of the record \<open>hasher\<close>, a
  parameter of everything that hashes.
\<close>

record hasher =
  sha256_hex :: "string \<Rightarrow> string"
  float_repr :: "pyfloat \<Rightarrow> string"

definition canonical_style :: dumps_style where
  "canonical_style = \<lparr>item_sep = '','', key_sep = '':'', ensure_ascii = False,
     allow_nan = False, default_str = False\<rparr>"

text \<open>\<^verbatim>\<open>except (TypeError, ValueError) as exc: raise ValueError\<close>.\<close>

definition canonical_value_json :: "hasher \<Rightarrow> json \<Rightarrow> string res" where
  "canonical_value_json H v =
     (case json_dumps (float_repr H) canonical_style v of
        Inr s \<Rightarrow> Inr s
      | Inl _ \<Rightarrow> Inl (ValueError ''value is not canonically JSON-serializable''))"

definition value_hash_of :: "hasher \<Rightarrow> json \<Rightarrow> string res" where
  "value_hash_of H v =
     rbind (canonical_value_json H v) (\<lambda>s. Inr (''sha256:'' @ sha256_hex H s))"

definition to_epoch_us :: "datetime \<Rightarrow> int res" where
  "to_epoch_us d =
     rbind (require (aware d) (ValueError ''timestamp must be timezone-aware'')) (\<lambda>_. Inr (instant d))"

text \<open>One normalized input: \<^verbatim>\<open>[input_id, epoch_us, value_hash]\<close>, ordered as Python orders lists.\<close>

definition normalize_input :: "string \<times> datetime \<times> string \<Rightarrow> (string \<times> int \<times> string) res" where
  "normalize_input x =
     (let (i, ts, h) = x in rbind (to_epoch_us ts) (\<lambda>us. Inr (i, us, h)))"

definition input_fingerprint_of :: "hasher \<Rightarrow> (string \<times> datetime \<times> string) list \<Rightarrow> string res" where
  "input_fingerprint_of H inputs =
     rbind (map_res normalize_input inputs) (\<lambda>ns.
     rbind (canonical_value_json H
              (JList (map (\<lambda>(i, us, h). JList [JStr i, JInt us, JStr h]) (sort ns))))
       (\<lambda>s. Inr (''sha256:'' @ sha256_hex H s)))"

lemma normalize_input_aware:
  "aware ts \<Longrightarrow> normalize_input (i, ts, h) = Inr (i, instant ts, h)"
  by (simp add: normalize_input_def to_epoch_us_def)

lemma map_res_normalize:
  assumes "\<forall>x \<in> set inputs. aware (fst (snd x))"
  shows "map_res normalize_input inputs = Inr (map (\<lambda>(i, ts, h). (i, instant ts, h)) inputs)"
  using assms by (intro map_res_all_Inr) (auto simp: normalize_input_aware)

text \<open>The fingerprint reads neither the order of the inputs nor the offset of a timestamp.\<close>

lemma fingerprint_of_instants:
  assumes "\<forall>x \<in> set xs. aware (fst (snd x))" "\<forall>x \<in> set ys. aware (fst (snd x))"
    and "mset (map (\<lambda>(i, ts, h). (i, instant ts, h)) xs) = mset (map (\<lambda>(i, ts, h). (i, instant ts, h)) ys)"
  shows "input_fingerprint_of H xs = input_fingerprint_of H ys"
proof -
  note sort_mset_cong[OF assms(3)]
  then show ?thesis
    using assms(1,2) by (simp add: input_fingerprint_of_def map_res_normalize)
qed

text \<open>An input list of aware timestamps always has a fingerprint: its JSON has no float.\<close>

lemma dumps_inputs_total:
  "\<exists>ts. map_res (json_dumps r st) (map (\<lambda>(i, us, h). JList [JStr i, JInt us, JStr h]) ns) = Inr ts"
  by (induction ns) auto

lemma fingerprint_total:
  assumes "\<forall>x \<in> set xs. aware (fst (snd x))"
  shows "\<exists>s. input_fingerprint_of H xs = Inr s"
proof -
  let ?ns = "sort (map (\<lambda>(i, ts, h). (i, instant ts, h)) xs)"
  obtain ts where "map_res (json_dumps (float_repr H) canonical_style)
      (map (\<lambda>(i, us, h). JList [JStr i, JInt us, JStr h]) ?ns) = Inr ts"
    using dumps_inputs_total by blast
  with assms show ?thesis
    by (simp add: input_fingerprint_of_def map_res_normalize canonical_value_json_def)
qed

end
