(* ===== verification/Registry.thy ===== *)
theory Registry
  imports Models
begin

text \<open>
  The registry contract objects of fs_core/registry/models.py: entities, sources, features with
  their dependency edges, views, and the checks their constructors make.
\<close>

section \<open>Constants\<close>

definition default_depth_cap :: int where
  "default_depth_cap = 3"

definition max_depth_cap :: int where
  "max_depth_cap = 5"

text \<open>The \<^verbatim>\<open>PROPAGATION_*\<close> strings as an enumeration.\<close>

datatype propagation = Lazy | Reactive | Scheduled | NoPropagation

definition propagation_of :: "string \<Rightarrow> propagation option" where
  "propagation_of s =
     (if s = ''lazy'' then Some Lazy else if s = ''reactive'' then Some Reactive
      else if s = ''scheduled'' then Some Scheduled else if s = ''none'' then Some NoPropagation
      else None)"

datatype lifecycle = Draft | Shadow | Live | Deprecated

definition lifecycle_of_token :: "string \<Rightarrow> lifecycle option" where
  "lifecycle_of_token s =
     (if s = ''draft'' then Some Draft else if s = ''shadow'' then Some Shadow
      else if s = ''live'' then Some Live else if s = ''deprecated'' then Some Deprecated
      else None)"

definition lifecycle_alias :: "string \<Rightarrow> lifecycle option" where
  "lifecycle_alias s =
     (if s = ''active'' then Some Live
      else if s = ''inactive'' \<or> s = ''disabled'' then Some Deprecated else None)"

definition normalize_lifecycle :: "string \<Rightarrow> lifecycle option" where
  "normalize_lifecycle status =
     (let token = py_lower (py_strip status)
      in case lifecycle_of_token token of Some l \<Rightarrow> Some l | None \<Rightarrow> lifecycle_alias token)"

text \<open>\<^verbatim>\<open>ALLOWED_DEPENDENCY_LIFECYCLES\<close>: what a feature of each lifecycle may depend on.\<close>

fun allowed_dependency :: "lifecycle \<Rightarrow> lifecycle list" where
  "allowed_dependency Live = [Live]"
| "allowed_dependency Shadow = [Live, Shadow]"
| "allowed_dependency Draft = [Live, Shadow, Draft]"
| "allowed_dependency Deprecated = [Draft, Shadow, Live, Deprecated]"

section \<open>Names\<close>

text \<open>The loop of \<^verbatim>\<open>_check_no_empty_or_duplicate\<close> over the set \<open>seen\<close>.\<close>

fun check_names :: "string list \<Rightarrow> string list \<Rightarrow> unit res" where
  "check_names seen [] = Inr ()"
| "check_names seen (name # names) =
     rbind (require (\<not> blank name) (ValueError ''must not contain empty names'')) (\<lambda>_.
     rbind (require (name \<notin> set seen) (ValueError ''has duplicate name'')) (\<lambda>_.
     check_names (name # seen) names))"

definition check_no_empty_or_duplicate :: "string list \<Rightarrow> unit res" where
  "check_no_empty_or_duplicate names = check_names [] names"

lemma check_names_Inr:
  "check_names seen names = Inr u \<longleftrightarrow>
     (\<forall>n \<in> set names. \<not> blank n) \<and> distinct names \<and> set names \<inter> set seen = {}"
  by (induction seen names rule: check_names.induct) auto

lemma check_no_empty_or_duplicate_Inr [simp]:
  "check_no_empty_or_duplicate names = Inr u \<longleftrightarrow> (\<forall>n \<in> set names. \<not> blank n) \<and> distinct names"
  by (simp add: check_no_empty_or_duplicate_def check_names_Inr)

section \<open>Entities and sources\<close>

record entity_def =
  e_name :: string
  e_key_fields :: "string list"

definition mk_entity_def :: "entity_def \<Rightarrow> entity_def res" where
  "mk_entity_def e =
     rbind (require (\<not> blank (e_name e)) (ValueError ''entity name must be non-empty'')) (\<lambda>_.
     rbind (require (e_key_fields e \<noteq> []) (ValueError ''must have at least one key field'')) (\<lambda>_.
     rbind (check_no_empty_or_duplicate (e_key_fields e)) (\<lambda>_. Inr e)))"

record source_def =
  s_name :: string
  s_type :: string
  s_report_type :: string
  s_ts_field :: string

definition mk_source_def :: "source_def \<Rightarrow> source_def res" where
  "mk_source_def s =
     rbind (require (\<not> blank (s_name s)) (ValueError ''source name must be non-empty'')) (\<lambda>_.
     rbind (require (s_type s = ''raw_report'') (ValueError ''source has unsupported type'')) (\<lambda>_.
     rbind (require (\<not> blank (s_report_type s)) (ValueError ''source must have a report_type'')) (\<lambda>_.
     rbind (require (\<not> blank (s_ts_field s)) (ValueError ''source must have a ts_field'')) (\<lambda>_.
     Inr s))))"

section \<open>Dependency edges and model specs\<close>

record feature_dep =
  d_feature :: string
  d_version :: "int option"
  d_required :: bool
  d_max_age :: "int option"
  d_propagation :: propagation

definition mk_feature_dep ::
    "string \<Rightarrow> int option \<Rightarrow> bool \<Rightarrow> int option \<Rightarrow> string \<Rightarrow> feature_dep res" where
  "mk_feature_dep feature version req max_age prop =
     rbind (require (\<not> blank feature) (ValueError ''feature dependency must name a feature'')) (\<lambda>_.
     rbind (require (\<forall>v. version = Some v \<longrightarrow> 1 \<le> v)
              (ValueError ''must pin an explicit version >= 1'')) (\<lambda>_.
     rbind (require (\<forall>a. max_age = Some a \<longrightarrow> 0 \<le> a)
              (ValueError ''max_input_age_seconds must be >= 0'')) (\<lambda>_.
     case propagation_of prop of
       None \<Rightarrow> Inl (ValueError ''has unknown propagation policy'')
     | Some p \<Rightarrow> Inr \<lparr>d_feature = feature, d_version = version, d_required = req,
                     d_max_age = max_age, d_propagation = p\<rparr>)))"

text \<open>A bare-string dependency: the defaults of the dataclass.\<close>

definition bare_dep :: "string \<Rightarrow> feature_dep res" where
  "bare_dep name = mk_feature_dep name None True None ''lazy''"

definition dep_ok :: "feature_dep \<Rightarrow> bool" where
  "dep_ok d \<longleftrightarrow>
     \<not> blank (d_feature d) \<and> (\<forall>v. d_version d = Some v \<longrightarrow> 1 \<le> v)
     \<and> (\<forall>a. d_max_age d = Some a \<longrightarrow> 0 \<le> a)"

lemma mk_feature_dep_ok: "mk_feature_dep f v r a p = Inr d \<Longrightarrow> dep_ok d"
  by (auto simp: mk_feature_dep_def dep_ok_def split: option.splits)

record model_spec =
  ms_uri :: string
  ms_digest :: string
  ms_output_name :: string
  ms_runner :: "string option"
  ms_batch_only :: bool

definition mk_model_spec :: "model_spec \<Rightarrow> model_spec res" where
  "mk_model_spec m =
     rbind (require (\<not> blank (ms_uri m)) (ValueError ''model feature must declare a model uri'')) (\<lambda>_.
     rbind (require (\<not> blank (ms_digest m)) (ValueError ''model feature must declare a model digest'')) (\<lambda>_.
     rbind (require (\<not> blank (ms_output_name m))
              (ValueError ''model feature must declare a model output_name'')) (\<lambda>_.
     rbind (require (ms_batch_only m) (ValueError ''model feature must be batch_only=True'')) (\<lambda>_.
     Inr m))))"

section \<open>Features\<close>

record feature_def =
  f_name :: string
  f_kind :: string
  f_version :: int
  f_udf :: string
  f_dtype :: string
  f_status :: string
  f_inputs :: "string list"
  f_deps :: "feature_dep list"
  f_model :: "model_spec option"
  f_description :: "string option"
  f_lifecycle :: lifecycle

text \<open>
  \<^verbatim>\<open>FeatureDef.__post_init__\<close>. The lifecycle of the argument is ignored and derived from
  the status, as the \<^verbatim>\<open>init=False\<close> field is.
\<close>

definition check_kind :: "feature_def \<Rightarrow> unit res" where
  "check_kind f =
     (if f_kind f = ''udf'' then
        rbind (require (\<not> blank (f_udf f)) (ValueError ''feature must reference a udf'')) (\<lambda>_.
        require (f_inputs f \<noteq> [] \<or> f_deps f \<noteq> [])
          (ValueError ''feature must have at least one input or dependency''))
      else if f_kind f = ''model'' then
        rbind (require (f_model f \<noteq> None) (ValueError ''model feature must declare a model spec'')) (\<lambda>_.
        rbind (require (blank (f_udf f)) (ValueError ''model feature must not reference a udf'')) (\<lambda>_.
        rbind (require (f_inputs f = []) (ValueError ''model feature must not read raw sources'')) (\<lambda>_.
        require (f_deps f \<noteq> []) (ValueError ''model feature must declare at least one input feature''))))
      else
        require (f_inputs f = [] \<and> f_deps f = [])
          (ValueError ''model_score feature must not have inputs or deps''))"

definition mk_feature_def :: "feature_def \<Rightarrow> feature_def res" where
  "mk_feature_def f =
     rbind (require (\<not> blank (f_name f)) (ValueError ''feature name must be non-empty'')) (\<lambda>_.
     rbind (require (f_kind f \<in> {''udf'', ''model_score'', ''model''})
              (ValueError ''feature has unsupported kind'')) (\<lambda>_.
     rbind (require (1 \<le> f_version f) (ValueError ''feature version must be >= 1'')) (\<lambda>_.
     rbind (require (\<not> blank (f_dtype f)) (ValueError ''feature must have a dtype'')) (\<lambda>_.
     rbind (require (\<not> blank (f_status f)) (ValueError ''feature must have a status'')) (\<lambda>_.
     case normalize_lifecycle (f_status f) of
       None \<Rightarrow> Inl (ValueError ''feature has unknown lifecycle/status'')
     | Some l \<Rightarrow>
         rbind (require (f_kind f = ''model'' \<or> f_model f = None)
                  (ValueError ''feature must not declare a model spec'')) (\<lambda>_.
         rbind (check_kind f) (\<lambda>_. Inr (f\<lparr>f_lifecycle := l\<rparr>))))))))"

definition f_ref :: "feature_def \<Rightarrow> feature_ref" where
  "f_ref f = \<lparr>fr_name = f_name f, fr_version = f_version f\<rparr>"

definition dep_names :: "feature_def \<Rightarrow> string list" where
  "dep_names f = map d_feature (f_deps f)"

definition feature_ok :: "feature_def \<Rightarrow> bool" where
  "feature_ok f \<longleftrightarrow>
     \<not> blank (f_name f) \<and> 1 \<le> f_version f \<and> f_kind f \<in> {''udf'', ''model_score'', ''model''}
     \<and> normalize_lifecycle (f_status f) = Some (f_lifecycle f)
     \<and> (f_kind f = ''udf'' \<longrightarrow> \<not> blank (f_udf f) \<and> (f_inputs f \<noteq> [] \<or> f_deps f \<noteq> []))
     \<and> (f_kind f = ''model'' \<longrightarrow> f_model f \<noteq> None \<and> f_inputs f = [] \<and> f_deps f \<noteq> [])
     \<and> (f_kind f = ''model_score'' \<longrightarrow> f_inputs f = [] \<and> f_deps f = [])"

lemma mk_feature_def_ok: "mk_feature_def f = Inr g \<Longrightarrow> feature_ok g"
  by (auto simp: mk_feature_def_def feature_ok_def check_kind_def split: option.splits if_splits)

section \<open>Views and the registry\<close>

record view_def =
  v_name :: string
  v_entity :: string
  v_key_fields :: "string list"
  v_version :: int
  v_owner :: string
  v_status :: string
  v_features :: "feature_def list"
  v_groups :: "(string, string list) dict"
  v_max_depth :: "int option"

definition mk_view_def :: "view_def \<Rightarrow> view_def res" where
  "mk_view_def v =
     rbind (require (\<not> blank (v_name v)) (ValueError ''feature view name must be non-empty'')) (\<lambda>_.
     rbind (require (\<not> blank (v_entity v)) (ValueError ''feature view must reference an entity'')) (\<lambda>_.
     rbind (require (v_key_fields v \<noteq> []) (ValueError ''feature view must have key_fields'')) (\<lambda>_.
     rbind (check_no_empty_or_duplicate (v_key_fields v)) (\<lambda>_.
     rbind (require (1 \<le> v_version v) (ValueError ''feature view version must be >= 1'')) (\<lambda>_.
     rbind (require (\<not> blank (v_owner v)) (ValueError ''feature view must have an owner'')) (\<lambda>_.
     rbind (require (\<not> blank (v_status v)) (ValueError ''feature view must have a status'')) (\<lambda>_.
     rbind (require (v_features v \<noteq> []) (ValueError ''feature view must have at least one feature'')) (\<lambda>_.
     rbind (require (\<forall>d. v_max_depth v = Some d \<longrightarrow> 1 \<le> d \<and> d \<le> max_depth_cap)
              (ValueError ''max_dependency_depth out of range'')) (\<lambda>_.
     rbind (for_each (\<lambda>(group, members).
              rbind (require (\<not> blank group) (ValueError ''feature view has an empty feature group name'')) (\<lambda>_.
              rbind (require (members \<noteq> []) (ValueError ''feature group must be non-empty'')) (\<lambda>_.
              check_no_empty_or_duplicate members))) (v_groups v)) (\<lambda>_.
     Inr v))))))))))"

definition v_ref :: "view_def \<Rightarrow> feature_view_ref" where
  "v_ref v = \<lparr>vr_view = v_name v, vr_version = v_version v\<rparr>"

record registry =
  reg_version :: string
  reg_entities :: "entity_def list"
  reg_sources :: "source_def list"
  reg_views :: "view_def list"

definition mk_registry :: "registry \<Rightarrow> registry res" where
  "mk_registry r =
     rbind (require (\<not> blank (reg_version r)) (ValueError ''registry_version must be non-empty'')) (\<lambda>_.
     rbind (require (reg_entities r \<noteq> []) (ValueError ''registry must define at least one entity'')) (\<lambda>_.
     rbind (require (reg_sources r \<noteq> []) (ValueError ''registry must define at least one source'')) (\<lambda>_.
     rbind (require (reg_views r \<noteq> []) (ValueError ''registry must define at least one feature view'')) (\<lambda>_.
     Inr r))))"

text \<open>The linear scan of \<^verbatim>\<open>Registry.find_view\<close>.\<close>

fun find_view_in :: "view_def list \<Rightarrow> string \<Rightarrow> int \<Rightarrow> view_def option" where
  "find_view_in [] name version = None"
| "find_view_in (v # vs) name version =
     (if v_name v = name \<and> v_version v = version then Some v else find_view_in vs name version)"

definition reg_find_view :: "registry \<Rightarrow> string \<Rightarrow> int \<Rightarrow> view_def res" where
  "reg_find_view r name version =
     (case find_view_in (reg_views r) name version of
        Some v \<Rightarrow> Inr v | None \<Rightarrow> Inl (ValueError ''unknown view''))"

text \<open>\<^verbatim>\<open>{f.name: f for f in view.features}\<close>, built anew by each user of a view.\<close>

definition features_by_name :: "view_def \<Rightarrow> (string, feature_def) dict" where
  "features_by_name v = dict_of (map (\<lambda>f. (f_name f, f)) (v_features v))"

lemma find_view_in_Some:
  "find_view_in vs n ver = Some v \<Longrightarrow> v \<in> set vs \<and> v_name v = n \<and> v_version v = ver"
  by (induction vs) (auto split: if_splits)

lemma reg_find_view_Inr:
  "reg_find_view r n ver = Inr v \<Longrightarrow> v \<in> set (reg_views r) \<and> v_name v = n \<and> v_version v = ver"
  by (auto simp: reg_find_view_def dest: find_view_in_Some split: option.splits)

lemma features_by_name_Some:
  "map_of (features_by_name v) n = Some f \<Longrightarrow> f \<in> set (v_features v) \<and> f_name f = n"
  by (auto simp: features_by_name_def dest: dict_of_lookup_Some)

lemma features_by_name_None:
  "map_of (features_by_name v) n = None \<longleftrightarrow> n \<notin> f_name ` set (v_features v)"
  by (simp add: features_by_name_def dict_of_lookup_None image_image)

lemma features_by_name_distinct:
  assumes "distinct (map f_name (v_features v))" "f \<in> set (v_features v)"
  shows "map_of (features_by_name v) (f_name f) = Some f"
proof -
  have "features_by_name v = map (\<lambda>f. (f_name f, f)) (v_features v)"
    unfolding features_by_name_def using assms(1) by (intro dict_of_distinct) (simp add: comp_def)
  then show ?thesis using assms by (auto simp: map_of_eq_Some_iff comp_def)
qed

end
