(* ===== verification/Validator.thy ===== *)
theory Validator
  imports Registry
begin

text \<open>
  Cross-object validation of a registry (fs_core/registry/validator.py) and what acceptance
  guarantees: unique names, known references, version pins, lifecycle-safe edges, and dependency
  graphs that are acyclic with chains no longer than the cap.
\<close>

section \<open>The dependency graph\<close>

fun list_max :: "int \<Rightarrow> int list \<Rightarrow> int" where
  "list_max m [] = m"
| "list_max m (x # xs) = list_max (max m x) xs"

text \<open>\<^verbatim>\<open>0 if not deps else 1 + max(...)\<close> over the depths of the edges.\<close>

fun depth_from :: "int list \<Rightarrow> int" where
  "depth_from [] = 0"
| "depth_from (x # xs) = 1 + list_max x xs"

lemma list_max_Max: "list_max m xs = Max (insert m (set xs))"
proof (induction m xs rule: list_max.induct)
  case (2 m x xs)
  then show ?case by (cases "xs = []") (simp_all add: max.assoc)
qed simp

lemma depth_from_greater:
  assumes "x \<in> set ds"
  shows "x < depth_from ds"
proof (cases ds)
  case (Cons y ys)
  with assms have "x \<le> Max (insert y (set ys))" by (intro Max_ge) auto
  then show ?thesis by (simp add: Cons list_max_Max)
qed (use assms in simp)

lemma depth_from_nonneg:
  assumes "\<forall>x \<in> set ds. 0 \<le> x"
  shows "0 \<le> depth_from ds"
proof (cases ds)
  case (Cons x xs)
  with assms depth_from_greater[of x ds] show ?thesis by force
qed simp

lemma depth_from_le:
  assumes "0 \<le> b" "\<forall>x \<in> set ds. x < b"
  shows "depth_from ds \<le> b"
proof (cases ds)
  case (Cons y ys)
  with assms(2) have "Max (insert y (set ys)) < b" by (subst Max_less_iff) auto
  then have "1 + Max (insert y (set ys)) \<le> b" by linarith
  then show ?thesis by (simp only: Cons depth_from.simps list_max_Max)
qed (use assms in simp)

text \<open>
  The recursive closure \<^verbatim>\<open>_depth\<close>: \<open>visiting\<close> is the recursion stack, the map \<open>m\<close> is the
  dict \<^verbatim>\<open>depth\<close> that memoizes finished features. The second function is the generator
  expression over the edges. A call outside the stack adds a known name to it, so the number of
  known names outside the stack decreases.
\<close>

function depth_of ::
    "(string, feature_def) dict \<Rightarrow> int \<Rightarrow> string list \<Rightarrow> string \<Rightarrow> (string \<rightharpoonup> int)
      \<Rightarrow> (int \<times> (string \<rightharpoonup> int)) res"
  and depths_of ::
    "(string, feature_def) dict \<Rightarrow> int \<Rightarrow> string list \<Rightarrow> feature_dep list \<Rightarrow> (string \<rightharpoonup> int)
      \<Rightarrow> (int list \<times> (string \<rightharpoonup> int)) res" where
  "depth_of fbn cap visiting name m =
     (case m name of
        Some d \<Rightarrow> Inr (d, m)
      | None \<Rightarrow>
          if name \<in> set visiting then Inl (ValueError ''dependency cycle detected'')
          else case map_of fbn name of
            None \<Rightarrow> Inl (KeyError name)
          | Some f \<Rightarrow>
              rbind (depths_of fbn cap (visiting @ [name]) (f_deps f) m) (\<lambda>(ds, m').
                let d = depth_from ds
                in if cap < d then Inl (ValueError ''dependency depth exceeding cap'')
                   else Inr (d, m'(name \<mapsto> d))))"
| "depths_of fbn cap visiting [] m = Inr ([], m)"
| "depths_of fbn cap visiting (dep # deps) m =
     rbind (depth_of fbn cap visiting (d_feature dep) m) (\<lambda>(d, m').
     rbind (depths_of fbn cap visiting deps m') (\<lambda>(ds, m''). Inr (d # ds, m'')))"
  by pat_completeness auto

termination
  by (relation "measures
      [\<lambda>x. case x of Inl (fbn, cap, visiting, name, m) \<Rightarrow> card (fst ` set fbn - set visiting)
                   | Inr (fbn, cap, visiting, deps, m) \<Rightarrow> card (fst ` set fbn - set visiting),
       \<lambda>x. case x of Inl _ \<Rightarrow> 0 | Inr (fbn, cap, visiting, deps, m) \<Rightarrow> Suc (length deps)]")
    (auto intro!: stack_decreases[simplified] dest: map_of_SomeD simp: rev_image_eqI)

declare depth_of.simps [simp del]

definition graph_cap :: "view_def \<Rightarrow> int" where
  "graph_cap v = (case v_max_depth v of Some c \<Rightarrow> if c = 0 then default_depth_cap else c
                                      | None \<Rightarrow> default_depth_cap)"

definition validate_dependency_graph :: "view_def \<Rightarrow> unit res" where
  "validate_dependency_graph v =
     rbind (fold_res (\<lambda>f m. rbind (depth_of (features_by_name v) (graph_cap v) [] (f_name f) m)
                              (\<lambda>(_, m'). Inr m'))
              (v_features v) Map.empty)
       (\<lambda>_. Inr ())"

text \<open>
  What the memo table always satisfies: an entry is the longest chain below its feature, and
  every dependency of an entry has a smaller entry.
\<close>

definition depth_entry :: "(string, feature_def) dict \<Rightarrow> int \<Rightarrow> (string \<rightharpoonup> int) \<Rightarrow> string \<Rightarrow> int \<Rightarrow> bool" where
  "depth_entry fbn cap m n d \<longleftrightarrow>
     0 \<le> d \<and> d \<le> cap \<and>
     (\<exists>f. map_of fbn n = Some f \<and> (\<forall>dep \<in> set (f_deps f). \<exists>d'. m (d_feature dep) = Some d' \<and> d' < d))"

definition depth_table :: "(string, feature_def) dict \<Rightarrow> int \<Rightarrow> (string \<rightharpoonup> int) \<Rightarrow> bool" where
  "depth_table fbn cap m \<longleftrightarrow> (\<forall>n d. m n = Some d \<longrightarrow> depth_entry fbn cap m n d)"

lemma depth_entry_mono: "depth_entry fbn cap m n d \<Longrightarrow> m \<subseteq>\<^sub>m m' \<Longrightarrow> depth_entry fbn cap m' n d"
  by (fastforce simp: depth_entry_def map_le_def dom_def)

lemma depth_sound:
  "depth_of fbn cap visiting name m = Inr (d, m') \<Longrightarrow> depth_table fbn cap m \<Longrightarrow> 0 \<le> cap \<Longrightarrow>
     depth_table fbn cap m' \<and> m \<subseteq>\<^sub>m m' \<and> (\<forall>n \<in> set visiting. m' n = m n) \<and> m' name = Some d"
  "depths_of fbn cap visiting deps m = Inr (ds, m') \<Longrightarrow> depth_table fbn cap m \<Longrightarrow> 0 \<le> cap \<Longrightarrow>
     depth_table fbn cap m' \<and> m \<subseteq>\<^sub>m m' \<and> (\<forall>n \<in> set visiting. m' n = m n)
     \<and> list_all2 (\<lambda>dep d. m' (d_feature dep) = Some d) deps ds"
proof (induction fbn cap visiting name m and fbn cap visiting deps m arbitrary: d m' and ds m'
    rule: depth_of_depths_of.induct)
  case (1 fbn cap visiting name m)
  show ?case
  proof (cases "m name")
    case (Some e)
    with 1 show ?thesis by (simp add: depth_of.simps)
  next
    case None
    with "1.prems" obtain f ds m1 where nv: "name \<notin> set visiting"
      and f: "map_of fbn name = Some f"
      and ds: "depths_of fbn cap (visiting @ [name]) (f_deps f) m = Inr (ds, m1)"
      and d: "d = depth_from ds" "d \<le> cap"
      and m': "m' = m1(name \<mapsto> d)"
      by (auto simp: depth_of.simps[of fbn cap visiting name m] Let_def
          split: if_splits option.splits)
    from "1.IH"[OF None nv f ds "1.prems"(2,3)]
    have t1: "depth_table fbn cap m1" and le: "m \<subseteq>\<^sub>m m1" and m1: "m1 name = None"
      and fr: "\<forall>n \<in> set visiting. m1 n = m n"
      and all: "list_all2 (\<lambda>dep d. m1 (d_feature dep) = Some d) (f_deps f) ds"
      using None by auto
    have le': "m1 \<subseteq>\<^sub>m m'" using m1 by (auto simp: m' map_le_def dom_def)
    have below: "x < d" if "x \<in> set ds" for x
      using that by (simp add: d(1) depth_from_greater)
    have "\<forall>x \<in> set ds. 0 \<le> x"
      using t1 by (auto simp: depth_table_def depth_entry_def dest!: list_all2_set2[OF all])
    then have "0 \<le> d" by (simp add: d(1) depth_from_nonneg)
    moreover have "\<exists>d'. m1 (d_feature dep) = Some d' \<and> d' < d" if "dep \<in> set (f_deps f)" for dep
      using list_all2_set1[OF all that] below by auto
    ultimately have "depth_entry fbn cap m1 name d"
      using f d(2) by (simp add: depth_entry_def)
    with t1 le' have "depth_table fbn cap m'"
      by (auto simp: depth_table_def m' intro: depth_entry_mono split: if_splits)
    moreover have "m \<subseteq>\<^sub>m m'" using le le' by (rule map_le_trans)
    moreover have "\<forall>n \<in> set visiting. m' n = m n" using nv fr by (auto simp: m')
    moreover have "m' name = Some d" by (simp add: m')
    ultimately show ?thesis by blast
  qed
next
  case (2 fbn cap visiting m)
  then show ?case by simp
next
  case (3 fbn cap visiting dep deps m)
  from "3.prems"(1) obtain d m1 ds' where
    d: "depth_of fbn cap visiting (d_feature dep) m = Inr (d, m1)"
    and ds': "depths_of fbn cap visiting deps m1 = Inr (ds', m')" and ds: "ds = d # ds'"
    by auto
  from "3.IH"(1)[OF d "3.prems"(2,3)] have
    1: "depth_table fbn cap m1" "m \<subseteq>\<^sub>m m1" "\<forall>n \<in> set visiting. m1 n = m n"
      "m1 (d_feature dep) = Some d" by auto
  from "3.IH"(2)[OF d refl ds' 1(1) "3.prems"(3)] have
    2: "depth_table fbn cap m'" "m1 \<subseteq>\<^sub>m m'" "\<forall>n \<in> set visiting. m' n = m1 n"
      "list_all2 (\<lambda>dep d. m' (d_feature dep) = Some d) deps ds'" by auto
  from 1(4) 2(2) have "m' (d_feature dep) = Some d" by (force simp: map_le_def dom_def)
  with 1 2 ds show ?case by (auto intro: map_le_trans)
qed

text \<open>
  Completeness: a ranking of the features that every edge decreases, bounded by the cap, is all
  the search needs to succeed.
\<close>

definition ranked :: "(string, feature_def) dict \<Rightarrow> int \<Rightarrow> (string \<Rightarrow> int) \<Rightarrow> bool" where
  "ranked fbn cap rank \<longleftrightarrow>
     (\<forall>n f. map_of fbn n = Some f \<longrightarrow> 0 \<le> rank n \<and> rank n \<le> cap \<and>
        (\<forall>dep \<in> set (f_deps f). map_of fbn (d_feature dep) \<noteq> None \<and> rank (d_feature dep) < rank n))"

definition below_rank :: "(string \<Rightarrow> int) \<Rightarrow> (string \<rightharpoonup> int) \<Rightarrow> bool" where
  "below_rank rank m \<longleftrightarrow> (\<forall>n d. m n = Some d \<longrightarrow> d \<le> rank n)"

lemma depth_complete:
  "ranked fbn cap rank \<Longrightarrow> below_rank rank m \<Longrightarrow> map_of fbn name \<noteq> None \<Longrightarrow>
     (\<forall>v \<in> set visiting. rank name < rank v) \<Longrightarrow>
     \<exists>d m'. depth_of fbn cap visiting name m = Inr (d, m') \<and> d \<le> rank name \<and> below_rank rank m'"
  "ranked fbn cap rank \<Longrightarrow> below_rank rank m \<Longrightarrow>
     (\<forall>dep \<in> set deps. map_of fbn (d_feature dep) \<noteq> None \<and> (\<forall>v \<in> set visiting. rank (d_feature dep) < rank v)) \<Longrightarrow>
     \<exists>ds m'. depths_of fbn cap visiting deps m = Inr (ds, m') \<and> below_rank rank m'
       \<and> list_all2 (\<lambda>dep d. d \<le> rank (d_feature dep)) deps ds"
proof (induction fbn cap visiting name m and fbn cap visiting deps m
    rule: depth_of_depths_of.induct)
  case (1 fbn cap visiting name m)
  show ?case
  proof (cases "m name")
    case (Some e)
    with 1 show ?thesis by (simp add: depth_of.simps below_rank_def)
  next
    case None
    from "1.prems" obtain f where f: "map_of fbn name = Some f" by auto
    from "1.prems" have nv: "name \<notin> set visiting" by auto
    from "1.prems"(1) f have r: "0 \<le> rank name" "rank name \<le> cap"
      "\<forall>dep \<in> set (f_deps f). map_of fbn (d_feature dep) \<noteq> None \<and> rank (d_feature dep) < rank name"
      by (auto simp: ranked_def)
    have "\<exists>ds m'. depths_of fbn cap (visiting @ [name]) (f_deps f) m = Inr (ds, m') \<and> below_rank rank m'
       \<and> list_all2 (\<lambda>dep d. d \<le> rank (d_feature dep)) (f_deps f) ds"
      by (rule "1.IH"[OF None nv f "1.prems"(1,2)]) (use r(3) "1.prems"(4) in fastforce)
    then obtain ds m1 where ds: "depths_of fbn cap (visiting @ [name]) (f_deps f) m = Inr (ds, m1)"
      and b: "below_rank rank m1" and l: "list_all2 (\<lambda>dep d. d \<le> rank (d_feature dep)) (f_deps f) ds"
      by auto
    have "\<forall>x \<in> set ds. x < rank name"
      using r(3) by (fastforce dest: list_all2_set2[OF l])
    with r(1) have "depth_from ds \<le> rank name" by (rule depth_from_le)
    with None nv f ds b r(2) show ?thesis
      by (auto simp: depth_of.simps[of fbn cap visiting name m] below_rank_def Let_def)
  qed
next
  case (2 fbn cap visiting m)
  then show ?case by simp
next
  case (3 fbn cap visiting dep deps m)
  from "3.prems"(3) have p: "map_of fbn (d_feature dep) \<noteq> None"
    "\<forall>v \<in> set visiting. rank (d_feature dep) < rank v" by auto
  from "3.IH"(1)[OF "3.prems"(1,2) p] obtain d m1 where
    d: "depth_of fbn cap visiting (d_feature dep) m = Inr (d, m1)" "d \<le> rank (d_feature dep)"
       "below_rank rank m1" by auto
  have "\<exists>ds m'. depths_of fbn cap visiting deps m1 = Inr (ds, m') \<and> below_rank rank m'
       \<and> list_all2 (\<lambda>dep d. d \<le> rank (d_feature dep)) deps ds"
    by (rule "3.IH"(2)[OF d(1) refl "3.prems"(1) d(3)]) (use "3.prems"(3) in simp)
  with d show ?case by auto
qed

section \<open>The whole registry\<close>

fun unique_names :: "string list \<Rightarrow> string list \<Rightarrow> unit res" where
  "unique_names seen [] = Inr ()"
| "unique_names seen (name # names) =
     (if name \<in> set seen then Inl (ValueError ''duplicate name'') else unique_names (name # seen) names)"

text \<open>The checks of one edge of one feature.\<close>

definition validate_dep :: "(string, feature_def) dict \<Rightarrow> feature_def \<Rightarrow> feature_dep \<Rightarrow> unit res" where
  "validate_dep fbn f dep =
     (case map_of fbn (d_feature dep) of
        None \<Rightarrow> Inl (ValueError ''depends on unknown feature'')
      | Some target \<Rightarrow>
          rbind (require (\<forall>v. d_version dep = Some v \<longrightarrow> v = f_version target)
                   (ValueError ''pins a version the registry does not have'')) (\<lambda>_.
          require (f_lifecycle target \<in> set (allowed_dependency (f_lifecycle f)))
            (ValueError ''may not depend on a feature of this lifecycle'')))"

definition validate_view :: "entity_def list \<Rightarrow> source_def list \<Rightarrow> view_def \<Rightarrow> unit res" where
  "validate_view entities sources v =
     (case map_of (dict_of (map (\<lambda>e. (e_name e, e)) entities)) (v_entity v) of
        None \<Rightarrow> Inl (ValueError ''feature view references unknown entity'')
      | Some e \<Rightarrow>
          rbind (require (v_key_fields v = e_key_fields e)
                   (ValueError ''key_fields must exactly match entity key_fields'')) (\<lambda>_.
          rbind (unique_names [] (map f_name (v_features v))) (\<lambda>_.
          rbind (for_each (\<lambda>f.
                   rbind (for_each (\<lambda>src. require (src \<in> s_name ` set sources)
                            (ValueError ''references unknown source'')) (f_inputs f)) (\<lambda>_.
                   for_each (validate_dep (features_by_name v) f) (f_deps f))) (v_features v)) (\<lambda>_.
          rbind (validate_dependency_graph v) (\<lambda>_.
          for_each (\<lambda>(g, members).
              for_each (\<lambda>n. require (n \<in> f_name ` set (v_features v))
                  (ValueError ''feature group references unknown feature'')) members) (v_groups v))))))"

definition validate_registry :: "registry \<Rightarrow> unit res" where
  "validate_registry r =
     rbind (unique_names [] (map e_name (reg_entities r))) (\<lambda>_.
     rbind (unique_names [] (map s_name (reg_sources r))) (\<lambda>_.
     rbind (unique_names [] (map v_name (reg_views r))) (\<lambda>_.
     for_each (validate_view (reg_entities r) (reg_sources r)) (reg_views r))))"

lemma unique_names_Inr: "unique_names seen ns = Inr u \<longleftrightarrow> distinct ns \<and> set ns \<inter> set seen = {}"
  by (induction seen ns rule: unique_names.induct) auto


section \<open>What acceptance means\<close>

text \<open>The loop over the features leaves every one of them in the table.\<close>

lemma validate_graph_table:
  assumes "fold_res (\<lambda>f m. rbind (depth_of fbn cap [] (f_name f) m) (\<lambda>(_, m'). Inr m')) fs m = Inr m'"
    "depth_table fbn cap m" "0 \<le> cap"
  shows "depth_table fbn cap m' \<and> m \<subseteq>\<^sub>m m' \<and> (\<forall>f \<in> set fs. m' (f_name f) \<noteq> None)"
  using assms
proof (induction fs arbitrary: m)
  case Nil
  then show ?case by simp
next
  case (Cons f fs)
  from Cons.prems(1) obtain d m1 where d: "depth_of fbn cap [] (f_name f) m = Inr (d, m1)"
    and rest: "fold_res (\<lambda>f m. rbind (depth_of fbn cap [] (f_name f) m) (\<lambda>(_, m'). Inr m')) fs m1 = Inr m'"
    by auto
  from depth_sound(1)[OF d Cons.prems(2,3)]
  have 1: "depth_table fbn cap m1" "m \<subseteq>\<^sub>m m1" "m1 (f_name f) = Some d" by auto
  from Cons.IH[OF rest 1(1) Cons.prems(3)]
  have 2: "depth_table fbn cap m'" "m1 \<subseteq>\<^sub>m m'" "\<forall>f \<in> set fs. m' (f_name f) \<noteq> None" by auto
  moreover have "m' (f_name f) = Some d" using 1(3) 2(2) by (force simp: map_le_def dom_def)
  ultimately show ?case using map_le_trans[OF 1(2) 2(2)] by simp
qed

lemma graph_cap_nonneg: "(\<forall>d. v_max_depth v = Some d \<longrightarrow> 1 \<le> d) \<Longrightarrow> 0 \<le> graph_cap v"
  by (auto simp: graph_cap_def default_depth_cap_def split: option.splits)

lemma validate_graph_sound:
  assumes "validate_dependency_graph v = Inr ()" "0 \<le> graph_cap v"
  shows "\<exists>rank. ranked (features_by_name v) (graph_cap v) rank"
proof -
  let ?fbn = "features_by_name v" and ?cap = "graph_cap v"
  from assms(1) obtain m where "fold_res (\<lambda>f m. rbind (depth_of ?fbn ?cap [] (f_name f) m)
      (\<lambda>(_, m'). Inr m')) (v_features v) Map.empty = Inr m"
    by (auto simp: validate_dependency_graph_def)
  from validate_graph_table[OF this _ assms(2)]
  have t: "depth_table ?fbn ?cap m" and all: "\<forall>f \<in> set (v_features v). m (f_name f) \<noteq> None"
    by (auto simp: depth_table_def)
  have "ranked ?fbn ?cap (\<lambda>n. the (m n))"
    unfolding ranked_def
  proof (intro allI impI)
    fix n f assume f: "map_of ?fbn n = Some f"
    then have "m n \<noteq> None" using all features_by_name_Some by blast
    then obtain d where d: "m n = Some d" by auto
    with t have e: "depth_entry ?fbn ?cap m n d" by (simp add: depth_table_def)
    moreover have "map_of ?fbn (d_feature dep) \<noteq> None" if "dep \<in> set (f_deps f)" for dep
      using e that t f by (fastforce simp: depth_entry_def depth_table_def)
    ultimately show "0 \<le> the (m n) \<and> the (m n) \<le> ?cap \<and> (\<forall>dep \<in> set (f_deps f).
        map_of ?fbn (d_feature dep) \<noteq> None \<and> the (m (d_feature dep)) < the (m n))"
      using d f by (fastforce simp: depth_entry_def)
  qed
  then show ?thesis by blast
qed

lemma validate_graph_complete:
  assumes "ranked (features_by_name v) (graph_cap v) rank"
  shows "validate_dependency_graph v = Inr ()"
proof -
  let ?fbn = "features_by_name v" and ?cap = "graph_cap v"
  have "\<exists>m'. fold_res (\<lambda>f m. rbind (depth_of ?fbn ?cap [] (f_name f) m) (\<lambda>(_, m'). Inr m')) fs m = Inr m'"
    if "below_rank rank m" "set fs \<subseteq> set (v_features v)" for fs m
    using that
  proof (induction fs arbitrary: m)
    case (Cons f fs)
    then have "map_of ?fbn (f_name f) \<noteq> None" by (simp add: features_by_name_None)
    from depth_complete(1)[OF assms Cons.prems(1) this, of "[]"] obtain d m1 where
      "depth_of ?fbn ?cap [] (f_name f) m = Inr (d, m1)" "below_rank rank m1" by auto
    with Cons show ?case by auto
  qed simp
  from this[of Map.empty "v_features v"] show ?thesis
    by (auto simp: validate_dependency_graph_def below_rank_def)
qed

lemma validate_dep_Inr:
  "validate_dep fbn f dep = Inr u \<longleftrightarrow>
     (\<exists>t. map_of fbn (d_feature dep) = Some t
        \<and> (\<forall>v. d_version dep = Some v \<longrightarrow> v = f_version t)
        \<and> f_lifecycle t \<in> set (allowed_dependency (f_lifecycle f)))"
  by (auto simp: validate_dep_def split: option.splits)

text \<open>What an accepted view satisfies, for its users.\<close>

definition view_valid :: "view_def \<Rightarrow> bool" where
  "view_valid v \<longleftrightarrow>
     distinct (map f_name (v_features v))
     \<and> (\<forall>f \<in> set (v_features v). \<forall>dep \<in> set (f_deps f).
          validate_dep (features_by_name v) f dep = Inr ())
     \<and> (\<exists>rank. ranked (features_by_name v) (graph_cap v) rank)"

lemma validate_registry_view:
  assumes "validate_registry r = Inr ()" "v \<in> set (reg_views r)" "0 \<le> graph_cap v"
  shows "view_valid v"
  using assms
  by (auto simp: validate_registry_def validate_view_def view_valid_def unique_names_Inr
      split: option.splits dest!: bspec intro: validate_graph_sound)

lemma view_valid_dep:
  assumes "view_valid v" "map_of (features_by_name v) n = Some f" "dep \<in> set (f_deps f)"
  shows "\<exists>t. map_of (features_by_name v) (d_feature dep) = Some t
     \<and> (\<forall>ver. d_version dep = Some ver \<longrightarrow> ver = f_version t)
     \<and> f_lifecycle t \<in> set (allowed_dependency (f_lifecycle f))"
proof -
  from assms(2) have "f \<in> set (v_features v)" by (simp add: features_by_name_Some)
  with assms(1,3) have "validate_dep (features_by_name v) f dep = Inr ()"
    unfolding view_valid_def by blast
  then show ?thesis by (simp add: validate_dep_Inr)
qed

end
