(* ===== verification/Planner.thy ===== *)
theory Planner
  imports Validator
begin

text \<open>
  The feature planner (fs_core/planner.py): expansion of requested features and groups into an
  ordered output set, the lifecycle and kind gates, and the dependency search that runs before
  any computation.
\<close>

section \<open>Definitions\<close>

record feature_plan =
  p_view :: string
  p_view_version :: int
  p_requested_outputs :: "feature_ref list"
  p_compute_features :: "string list"
  p_expanded_groups :: "(string, string list) dict"
  p_shadow_features :: "string list"

definition check_computable :: "bool \<Rightarrow> feature_def \<Rightarrow> unit res" where
  "check_computable allow_shadow f =
     (if f_kind f = ''model_score'' then
        Inl (PlannerError ''is a model_score feature and cannot be computed'')
      else if f_kind f = ''model'' then
        Inl (PlannerError ''is a batch-only model feature (F3)'')
      else case f_lifecycle f of
        Draft \<Rightarrow> Inl (PlannerError ''is a draft feature'')
      | Shadow \<Rightarrow> if allow_shadow then Inr () else Inl (PlannerError ''is a shadow feature'')
      | Live \<Rightarrow> Inr ()
      | Deprecated \<Rightarrow> Inl (PlannerError ''has lifecycle and cannot be computed''))"

text \<open>The closure \<^verbatim>\<open>_add\<close>: \<open>seen\<close> holds exactly the names of \<open>ordered\<close>.\<close>

definition add_name :: "string \<Rightarrow> string list \<Rightarrow> string list" where
  "add_name name ordered = (if name \<in> set ordered then ordered else ordered @ [name])"

definition plan_name :: "(string, feature_def) dict \<Rightarrow> bool \<Rightarrow> string \<Rightarrow> string list \<Rightarrow> string list res" where
  "plan_name fbn allow_shadow name ordered =
     (case map_of fbn name of
        None \<Rightarrow> Inl (PlannerError ''unknown feature'')
      | Some f \<Rightarrow> rbind (check_computable allow_shadow f) (\<lambda>_. Inr (add_name name ordered)))"

definition plan_group ::
    "(string, feature_def) dict \<Rightarrow> (string, string list) dict \<Rightarrow> bool \<Rightarrow> string
      \<Rightarrow> (string list \<times> (string, string list) dict) \<Rightarrow> (string list \<times> (string, string list) dict) res" where
  "plan_group fbn groups allow_shadow gname st =
     (let (ordered, expanded) = st in
      case map_of groups gname of
        None \<Rightarrow> Inl (PlannerError ''unknown feature group'')
      | Some members \<Rightarrow>
          rbind (fold_res (plan_name fbn allow_shadow) members ordered)
            (\<lambda>ordered'. Inr (ordered', dict_set gname members expanded)))"

text \<open>
  The depth-first search \<^verbatim>\<open>_visit\<close>: \<open>visiting\<close> is the stack, \<open>fin\<close> the finished names,
  newest first.
\<close>

function visit ::
    "(string, feature_def) dict \<Rightarrow> string list \<Rightarrow> string \<Rightarrow> string list \<Rightarrow> string list res"
  and visit_deps ::
    "(string, feature_def) dict \<Rightarrow> string list \<Rightarrow> feature_dep list \<Rightarrow> string list \<Rightarrow> string list res" where
  "visit fbn visiting name fin =
     (if name \<in> set fin then Inr fin
      else if name \<in> set visiting then Inl (PlannerError ''dependency cycle detected'')
      else case map_of fbn name of
        None \<Rightarrow> Inl (PlannerError ''unknown feature'')
      | Some f \<Rightarrow>
          rbind (visit_deps fbn (visiting @ [name]) (f_deps f) fin) (\<lambda>fin'. Inr (name # fin')))"
| "visit_deps fbn visiting [] fin = Inr fin"
| "visit_deps fbn visiting (dep # deps) fin =
     (case map_of fbn (d_feature dep) of
        None \<Rightarrow> Inl (PlannerError ''depends on unknown feature'')
      | Some target \<Rightarrow>
          if f_kind target = ''model'' then Inl (PlannerError ''depends on batch-only model feature'')
          else rbind (visit fbn visiting (d_feature dep) fin) (visit_deps fbn visiting deps))"
  by pat_completeness auto

termination
  by (relation "measures
      [\<lambda>x. case x of Inl (fbn, visiting, name, fin) \<Rightarrow> card (fst ` set fbn - set visiting)
                   | Inr (fbn, visiting, deps, fin) \<Rightarrow> card (fst ` set fbn - set visiting),
       \<lambda>x. case x of Inl _ \<Rightarrow> 0 | Inr (fbn, visiting, deps, fin) \<Rightarrow> Suc (length deps)]")
    (auto intro!: stack_decreases[simplified] dest: map_of_SomeD simp: rev_image_eqI)

declare visit.simps [simp del]

definition validate_deps :: "(string, feature_def) dict \<Rightarrow> string list \<Rightarrow> string list res" where
  "validate_deps fbn names = fold_res (visit fbn []) names []"

definition plan_features :: "view_def \<Rightarrow> string list \<Rightarrow> string list \<Rightarrow> bool \<Rightarrow> feature_plan res" where
  "plan_features v requested_features requested_groups allow_shadow =
     (let fbn = features_by_name v in
      rbind (fold_res (plan_name fbn allow_shadow) requested_features []) (\<lambda>ordered0.
      rbind (fold_res (plan_group fbn (v_groups v) allow_shadow) requested_groups (ordered0, []))
        (\<lambda>(ordered, expanded).
      rbind (require (ordered \<noteq> []) (PlannerError ''request expands to no output features'')) (\<lambda>_.
      rbind (validate_deps fbn ordered) (\<lambda>_.
      rbind (map_res (\<lambda>n. case map_of fbn n of None \<Rightarrow> Inl (KeyError n) | Some f \<Rightarrow> Inr f) ordered)
        (\<lambda>fs.
      Inr \<lparr>p_view = v_name v, p_view_version = v_version v,
           p_requested_outputs = map f_ref fs, p_compute_features = ordered,
           p_expanded_groups = expanded,
           p_shadow_features = map f_name (filter (\<lambda>f. f_lifecycle f = Shadow) fs)\<rparr>))))))"

section \<open>The output set\<close>

definition computable :: "bool \<Rightarrow> feature_def \<Rightarrow> bool" where
  "computable allow_shadow f \<longleftrightarrow>
     f_kind f \<notin> {''model_score'', ''model''}
     \<and> (f_lifecycle f = Live \<or> f_lifecycle f = Shadow \<and> allow_shadow)"

lemma check_computable_Inr [simp]: "check_computable a f = Inr u \<longleftrightarrow> computable a f"
  by (auto simp: check_computable_def computable_def split: lifecycle.splits)

lemma plan_name_Inr [simp]:
  "plan_name fbn a n ordered = Inr ordered' \<longleftrightarrow>
     (\<exists>f. map_of fbn n = Some f \<and> computable a f) \<and> ordered' = add_name n ordered"
  by (auto simp: plan_name_def split: option.splits)

lemma set_add_name [simp]: "set (add_name n xs) = insert n (set xs)"
  by (auto simp: add_name_def)

lemma distinct_add_name [simp]: "distinct xs \<Longrightarrow> distinct (add_name n xs)"
  by (simp add: add_name_def)

definition planned :: "(string, feature_def) dict \<Rightarrow> bool \<Rightarrow> string list \<Rightarrow> bool" where
  "planned fbn a ordered \<longleftrightarrow>
     distinct ordered \<and> (\<forall>n \<in> set ordered. \<exists>f. map_of fbn n = Some f \<and> computable a f)"

lemma plan_names:
  assumes "fold_res (plan_name fbn a) names ordered = Inr ordered'" "planned fbn a ordered"
  shows "planned fbn a ordered' \<and> set ordered' = set ordered \<union> set names
    \<and> (\<exists>more. ordered' = ordered @ more)"
  using assms
proof (induction names arbitrary: ordered)
  case (Cons n names)
  then have "planned fbn a (add_name n ordered)"
    and "fold_res (plan_name fbn a) names (add_name n ordered) = Inr ordered'"
    by (auto simp: planned_def)
  from Cons.IH[OF this(2,1)] show ?case by (auto simp: add_name_def split: if_splits)
qed simp

lemma plan_group_Inr:
  "plan_group fbn groups a g (ordered, ex) = Inr st \<longleftrightarrow>
     (\<exists>members mid. map_of groups g = Some members
        \<and> fold_res (plan_name fbn a) members ordered = Inr mid
        \<and> st = (mid, dict_set g members ex))"
  by (auto simp: plan_group_def split: option.splits)

lemma plan_groups:
  assumes "fold_res (plan_group fbn groups a) gs (ordered, ex) = Inr (ordered', ex')"
    "planned fbn a ordered"
  shows "planned fbn a ordered'
    \<and> set ordered' = set ordered \<union> (\<Union>g \<in> set gs. set (the (map_of groups g)))
    \<and> (\<exists>more. ordered' = ordered @ more)
    \<and> (\<forall>g \<in> set gs. map_of groups g \<noteq> None)"
  using assms
proof (induction gs arbitrary: ordered ex)
  case (Cons g gs)
  then obtain members mid where g: "map_of groups g = Some members"
    and mid: "fold_res (plan_name fbn a) members ordered = Inr mid"
    and rest: "fold_res (plan_group fbn groups a) gs (mid, dict_set g members ex) = Inr (ordered', ex')"
    by (auto simp: plan_group_Inr)
  from plan_names[OF mid Cons.prems(2)] have
    1: "planned fbn a mid" "set mid = set ordered \<union> set members" "\<exists>more. mid = ordered @ more" by auto
  from Cons.IH[OF rest 1(1)] 1 g show ?case by auto
qed simp

section \<open>The dependency search\<close>

text \<open>
  The list of finished names is in topological order (newest first): each name is known and its
  dependencies are known, are no batch model features, and were finished before it.
\<close>

fun topological :: "(string, feature_def) dict \<Rightarrow> string list \<Rightarrow> bool" where
  "topological fbn [] = True"
| "topological fbn (n # fin) =
     ((\<exists>f. map_of fbn n = Some f \<and>
        (\<forall>dep \<in> set (f_deps f). d_feature dep \<in> set fin
           \<and> (\<exists>t. map_of fbn (d_feature dep) = Some t \<and> f_kind t \<noteq> ''model'')))
      \<and> topological fbn fin)"

lemma visit_sound:
  "visit fbn visiting name fin = Inr fin' \<Longrightarrow> topological fbn fin \<Longrightarrow>
     topological fbn fin' \<and> set fin \<subseteq> set fin' \<and> name \<in> set fin'"
  "visit_deps fbn visiting deps fin = Inr fin' \<Longrightarrow> topological fbn fin \<Longrightarrow>
     topological fbn fin' \<and> set fin \<subseteq> set fin'
     \<and> (\<forall>dep \<in> set deps. d_feature dep \<in> set fin'
          \<and> (\<exists>t. map_of fbn (d_feature dep) = Some t \<and> f_kind t \<noteq> ''model''))"
proof (induction fbn visiting name fin and fbn visiting deps fin arbitrary: fin' and fin'
    rule: visit_visit_deps.induct)
  case (1 fbn visiting name fin)
  show ?case
  proof (cases "name \<in> set fin")
    case True
    with 1 show ?thesis by (simp add: visit.simps)
  next
    case False
    with "1.prems"(1) obtain f d1 where nv: "name \<notin> set visiting" and f: "map_of fbn name = Some f"
      and d1: "visit_deps fbn (visiting @ [name]) (f_deps f) fin = Inr d1" and fin': "fin' = name # d1"
      by (auto simp: visit.simps[of fbn visiting name fin] split: if_splits option.splits)
    from "1.IH"[OF False nv f d1 "1.prems"(2)] f show ?thesis by (auto simp: fin')
  qed
next
  case (2 fbn visiting fin)
  then show ?case by simp
next
  case (3 fbn visiting dep deps fin)
  from "3.prems"(1) obtain t d1 where t: "map_of fbn (d_feature dep) = Some t" "f_kind t \<noteq> ''model''"
    and d1: "visit fbn visiting (d_feature dep) fin = Inr d1"
    and rest: "visit_deps fbn visiting deps d1 = Inr fin'"
    by (auto split: option.splits if_splits)
  from "3.IH"(1)[OF t d1 "3.prems"(2)]
  have 1: "topological fbn d1" "set fin \<subseteq> set d1" "d_feature dep \<in> set d1" by auto
  from "3.IH"(2)[OF t d1 rest 1(1)] 1 t show ?case by auto
qed

lemma validate_deps_sound:
  assumes "validate_deps fbn names = Inr fin'"
  shows "topological fbn fin' \<and> set names \<subseteq> set fin'"
proof -
  have "fold_res (visit fbn []) names d = Inr d' \<Longrightarrow> topological fbn d \<Longrightarrow>
      topological fbn d' \<and> set d \<subseteq> set d' \<and> set names \<subseteq> set d'" for d d'
  proof (induction names arbitrary: d)
    case (Cons n ns)
    then obtain d1 where "visit fbn [] n d = Inr d1" "fold_res (visit fbn []) ns d1 = Inr d'" by auto
    with visit_sound(1)[OF this(1) Cons.prems(2)] Cons.IH[of d1] show ?case by auto
  qed simp
  with assms show ?thesis by (simp add: validate_deps_def)
qed

text \<open>The edge relation of a view, and what a topological list says about everything below it.\<close>

definition dep_edge :: "(string, feature_def) dict \<Rightarrow> string \<Rightarrow> string \<Rightarrow> bool" where
  "dep_edge fbn n m \<longleftrightarrow>
     (\<exists>f. map_of fbn n = Some f \<and> (\<exists>dep \<in> set (f_deps f). d_feature dep = m))"

lemma topological_edge:
  "topological fbn ns \<Longrightarrow> n \<in> set ns \<Longrightarrow> dep_edge fbn n m \<Longrightarrow>
     m \<in> set ns \<and> (\<exists>t. map_of fbn m = Some t \<and> f_kind t \<noteq> ''model'')"
  by (induction ns) (auto simp: dep_edge_def)

lemma topological_closed:
  assumes "(dep_edge fbn)\<^sup>*\<^sup>* n m" "topological fbn ns" "n \<in> set ns"
  shows "m \<in> set ns"
  using assms by (induction rule: rtranclp_induct) (auto dest: topological_edge)

lemma topological_known: "topological fbn ns \<Longrightarrow> n \<in> set ns \<Longrightarrow> map_of fbn n \<noteq> None"
  by (induction ns) auto

lemma topological_acyclic:
  assumes "topological fbn ns" "n \<in> set ns"
  shows "\<not> (dep_edge fbn)\<^sup>+\<^sup>+ n n"
  using assms
proof (induction ns arbitrary: n)
  case (Cons k ns)
  then have top: "topological fbn ns"
    and deps: "\<And>m. dep_edge fbn k m \<Longrightarrow> m \<in> set ns" by (auto simp: dep_edge_def)
  show ?case
  proof (cases "n \<in> set ns")
    case True
    with Cons.IH[OF top] show ?thesis by blast
  next
    case False
    with Cons.prems have "n = k" by simp
    show ?thesis
    proof
      assume "(dep_edge fbn)\<^sup>+\<^sup>+ n n"
      then obtain m where "dep_edge fbn n m" "(dep_edge fbn)\<^sup>*\<^sup>* m n" by (blast dest: tranclpD)
      with deps \<open>n = k\<close> topological_closed[OF _ top] False show False by blast
    qed
  qed
qed simp

text \<open>Completeness: over a ranked view and a closed set of names without model features.\<close>

definition plan_closed :: "(string, feature_def) dict \<Rightarrow> string set \<Rightarrow> bool" where
  "plan_closed fbn S \<longleftrightarrow>
     (\<forall>n \<in> S. \<exists>f. map_of fbn n = Some f \<and> (\<forall>dep \<in> set (f_deps f). d_feature dep \<in> S
        \<and> (\<exists>t. map_of fbn (d_feature dep) = Some t \<and> f_kind t \<noteq> ''model'')))"

lemma visit_complete:
  "ranked fbn cap rank \<Longrightarrow> plan_closed fbn S \<Longrightarrow> name \<in> S \<Longrightarrow>
     (\<forall>v \<in> set visiting. rank name < rank v) \<Longrightarrow> \<exists>fin'. visit fbn visiting name fin = Inr fin'"
  "ranked fbn cap rank \<Longrightarrow> plan_closed fbn S \<Longrightarrow>
     (\<forall>dep \<in> set deps. d_feature dep \<in> S \<and> (\<exists>t. map_of fbn (d_feature dep) = Some t \<and> f_kind t \<noteq> ''model'')
        \<and> (\<forall>v \<in> set visiting. rank (d_feature dep) < rank v)) \<Longrightarrow>
     \<exists>fin'. visit_deps fbn visiting deps fin = Inr fin'"
proof (induction fbn visiting name fin and fbn visiting deps fin rule: visit_visit_deps.induct)
  case (1 fbn visiting name fin)
  show ?case
  proof (cases "name \<in> set fin")
    case True
    then show ?thesis by (simp add: visit.simps)
  next
    case False
    from "1.prems"(2,3) obtain f where f: "map_of fbn name = Some f"
      and deps: "\<forall>dep \<in> set (f_deps f). d_feature dep \<in> S
         \<and> (\<exists>t. map_of fbn (d_feature dep) = Some t \<and> f_kind t \<noteq> ''model'')"
      unfolding plan_closed_def by blast
    from "1.prems"(1) f have r: "\<forall>dep \<in> set (f_deps f). rank (d_feature dep) < rank name"
      by (auto simp: ranked_def)
    from "1.prems"(4) have nv: "name \<notin> set visiting" by auto
    have "\<exists>fin'. visit_deps fbn (visiting @ [name]) (f_deps f) fin = Inr fin'"
      by (rule "1.IH"[OF False nv f "1.prems"(1,2)]) (use deps r "1.prems"(4) in fastforce)
    with False nv f show ?thesis by (auto simp: visit.simps[of fbn visiting name fin])
  qed
next
  case (2 fbn visiting fin)
  then show ?case by simp
next
  case (3 fbn visiting dep deps fin)
  from "3.prems"(3) obtain t where t: "map_of fbn (d_feature dep) = Some t" "f_kind t \<noteq> ''model''"
    and S: "d_feature dep \<in> S" "\<forall>v \<in> set visiting. rank (d_feature dep) < rank v" by auto
  from "3.IH"(1)[OF t "3.prems"(1,2) S] obtain d1 where d1: "visit fbn visiting (d_feature dep) fin = Inr d1"
    by blast
  have "\<exists>fin'. visit_deps fbn visiting deps d1 = Inr fin'"
    by (rule "3.IH"(2)[OF t d1 "3.prems"(1,2)]) (use "3.prems"(3) in simp)
  with t d1 show ?case by auto
qed

lemma validate_deps_complete:
  assumes "ranked fbn cap rank" "plan_closed fbn S" "set names \<subseteq> S"
  shows "\<exists>fin'. validate_deps fbn names = Inr fin'"
proof -
  have "\<exists>fin'. fold_res (visit fbn []) names d = Inr fin'" for d
    using assms(3)
  proof (induction names arbitrary: d)
    case (Cons n ns)
    with visit_complete(1)[OF assms(1,2), of n "[]" d] show ?case by auto
  qed simp
  then show ?thesis by (simp add: validate_deps_def)
qed

section \<open>What a plan promises\<close>

lemma plan_features_Inr:
  assumes "plan_features v req groups a = Inr p"
  shows "\<exists>ordered0 ex d. fold_res (plan_name (features_by_name v) a) req [] = Inr ordered0
      \<and> fold_res (plan_group (features_by_name v) (v_groups v) a) groups (ordered0, [])
          = Inr (p_compute_features p, ex)
      \<and> p_compute_features p \<noteq> []
      \<and> validate_deps (features_by_name v) (p_compute_features p) = Inr d
      \<and> map_res (\<lambda>n. case map_of (features_by_name v) n of None \<Rightarrow> Inl (KeyError n) | Some f \<Rightarrow> Inr f)
          (p_compute_features p) = Inr (map (\<lambda>n. the (map_of (features_by_name v) n)) (p_compute_features p))
      \<and> p_shadow_features p = map f_name (filter (\<lambda>f. f_lifecycle f = Shadow)
          (map (\<lambda>n. the (map_of (features_by_name v) n)) (p_compute_features p)))"
proof -
  have lookup: "map_res (\<lambda>n. case map_of fbn n of None \<Rightarrow> Inl (KeyError n) | Some f \<Rightarrow> Inr f) ns = Inr fs
      \<Longrightarrow> fs = map (\<lambda>n. the (map_of fbn n)) ns" for fbn :: "(string, feature_def) dict" and ns fs
    by (induction ns arbitrary: fs) (auto split: option.splits)
  from assms show ?thesis
    unfolding plan_features_def Let_def
    by (auto dest: lookup)
qed

lemma plan_outputs:
  assumes "plan_features v req groups a = Inr p"
  shows "planned (features_by_name v) a (p_compute_features p)
    \<and> set (p_compute_features p) = set req \<union> (\<Union>g \<in> set groups. set (the (map_of (v_groups v) g)))"
  using plan_features_Inr[OF assms] plan_names[of "features_by_name v" a req "[]"]
    plan_groups[of "features_by_name v" "v_groups v" a groups]
  by (fastforce simp: planned_def)

lemma plan_topological:
  assumes "plan_features v req groups a = Inr p"
  shows "\<exists>d. topological (features_by_name v) d \<and> set (p_compute_features p) \<subseteq> set d"
  using plan_features_Inr[OF assms] validate_deps_sound by blast

text \<open>In a validated view, everything below a live feature is live.\<close>

lemma live_below:
  assumes "view_valid v" "(dep_edge (features_by_name v))\<^sup>*\<^sup>* n m"
    "map_of (features_by_name v) n = Some f" "f_lifecycle f = Live"
  shows "\<exists>g. map_of (features_by_name v) m = Some g \<and> f_lifecycle g = Live"
  using assms(2,3,4)
proof (induction rule: rtranclp_induct)
  case (step y z)
  then obtain g dep where g: "map_of (features_by_name v) y = Some g" "f_lifecycle g = Live"
    "dep \<in> set (f_deps g)" "d_feature dep = z" by (fastforce simp: dep_edge_def)
  from view_valid_dep[OF assms(1) g(1,3)] g(2,4) show ?case by auto
qed simp

section \<open>When a request is planned\<close>

lemma plan_names_total:
  assumes "\<forall>n \<in> set names. \<exists>f. map_of fbn n = Some f \<and> computable a f"
  shows "\<exists>ordered'. fold_res (plan_name fbn a) names ordered = Inr ordered'"
  using assms
proof (induction names arbitrary: ordered)
  case (Cons n names)
  then obtain f where "map_of fbn n = Some f" "computable a f" by auto
  then have "plan_name fbn a n ordered = Inr (add_name n ordered)" by simp
  with Cons show ?case by simp
qed simp

lemma plan_groups_total:
  assumes "\<forall>g \<in> set gs. \<exists>members. map_of groups g = Some members
      \<and> (\<forall>n \<in> set members. \<exists>f. map_of fbn n = Some f \<and> computable a f)"
  shows "\<exists>ordered' ex'. fold_res (plan_group fbn groups a) gs (ordered, ex) = Inr (ordered', ex')"
  using assms
proof (induction gs arbitrary: ordered ex)
  case (Cons g gs)
  then obtain members where m: "map_of groups g = Some members"
    "\<forall>n \<in> set members. \<exists>f. map_of fbn n = Some f \<and> computable a f" by auto
  obtain mid where "fold_res (plan_name fbn a) members ordered = Inr mid"
    using plan_names_total[OF m(2)] by blast
  with m(1) have "plan_group fbn groups a g (ordered, ex) = Inr (mid, dict_set g members ex)"
    by (simp add: plan_group_Inr)
  with Cons show ?case by simp
qed simp

text \<open>The names a request asks for, its groups expanded.\<close>

definition wanted :: "view_def \<Rightarrow> string list \<Rightarrow> string list \<Rightarrow> string set" where
  "wanted v req groups = set req \<union> (\<Union>g \<in> set groups. set (the (map_of (v_groups v) g)))"

definition below :: "view_def \<Rightarrow> string set \<Rightarrow> string set" where
  "below v S = {m. \<exists>n \<in> S. (dep_edge (features_by_name v))\<^sup>*\<^sup>* n m}"

definition request_ok :: "view_def \<Rightarrow> string list \<Rightarrow> string list \<Rightarrow> bool \<Rightarrow> bool" where
  "request_ok v req groups a \<longleftrightarrow>
     wanted v req groups \<noteq> {} \<and> (\<forall>g \<in> set groups. map_of (v_groups v) g \<noteq> None)
     \<and> (\<forall>n \<in> wanted v req groups. \<exists>f. map_of (features_by_name v) n = Some f \<and> computable a f)
     \<and> (\<forall>m \<in> below v (wanted v req groups). \<forall>t.
          map_of (features_by_name v) m = Some t \<longrightarrow> f_kind t \<noteq> ''model'')"

lemma below_self: "n \<in> S \<Longrightarrow> n \<in> below v S"
  by (auto simp: below_def)

lemma below_edge: "n \<in> below v S \<Longrightarrow> dep_edge (features_by_name v) n m \<Longrightarrow> m \<in> below v S"
  unfolding below_def by (blast intro: rtranclp.rtrancl_into_rtrancl)

lemma below_known:
  assumes "view_valid v" "\<forall>n \<in> S. map_of (features_by_name v) n \<noteq> None" "m \<in> below v S"
  shows "map_of (features_by_name v) m \<noteq> None"
proof -
  from assms(3) obtain n where "n \<in> S" "(dep_edge (features_by_name v))\<^sup>*\<^sup>* n m" by (auto simp: below_def)
  from this(2,1) show ?thesis
  proof (induction rule: rtranclp_induct)
    case (step y z)
    from step(2) obtain g dep where "map_of (features_by_name v) y = Some g" "dep \<in> set (f_deps g)"
      "d_feature dep = z" by (auto simp: dep_edge_def)
    with view_valid_dep[OF assms(1)] show ?case by fastforce
  qed (use assms(2) in blast)
qed

lemma below_plan_closed:
  assumes "view_valid v" "\<forall>n \<in> S. map_of (features_by_name v) n \<noteq> None"
    "\<forall>m \<in> below v S. \<forall>t. map_of (features_by_name v) m = Some t \<longrightarrow> f_kind t \<noteq> ''model''"
  shows "plan_closed (features_by_name v) (below v S)"
  unfolding plan_closed_def
proof
  fix n
  assume n: "n \<in> below v S"
  then obtain f where f: "map_of (features_by_name v) n = Some f" using below_known[OF assms(1,2)] by blast
  have "d_feature dep \<in> below v S \<and> (\<exists>t. map_of (features_by_name v) (d_feature dep) = Some t \<and> f_kind t \<noteq> ''model'')"
    if "dep \<in> set (f_deps f)" for dep
  proof -
    have d: "d_feature dep \<in> below v S"
      using f that by (intro below_edge[OF n]) (auto simp: dep_edge_def)
    with below_known[OF assms(1,2)] assms(3) show ?thesis by blast
  qed
  with f show "\<exists>f. map_of (features_by_name v) n = Some f \<and> (\<forall>dep \<in> set (f_deps f). d_feature dep \<in> below v S
      \<and> (\<exists>t. map_of (features_by_name v) (d_feature dep) = Some t \<and> f_kind t \<noteq> ''model''))" by blast
qed

lemma plan_features_complete:
  assumes "view_valid v" "request_ok v req groups a"
  shows "\<exists>p. plan_features v req groups a = Inr p"
proof -
  let ?fbn = "features_by_name v" and ?W = "wanted v req groups"
  have ok: "\<forall>n \<in> ?W. \<exists>f. map_of ?fbn n = Some f \<and> computable a f"
    using assms(2) by (simp add: request_ok_def)
  obtain o1 where o1: "fold_res (plan_name ?fbn a) req [] = Inr o1"
    using plan_names_total[of req ?fbn a "[]"] ok by (auto simp: wanted_def)
  have "\<forall>g \<in> set groups. \<exists>members. map_of (v_groups v) g = Some members
      \<and> (\<forall>n \<in> set members. \<exists>f. map_of ?fbn n = Some f \<and> computable a f)"
  proof
    fix g
    assume g: "g \<in> set groups"
    then obtain members where "map_of (v_groups v) g = Some members"
      using assms(2) by (auto simp: request_ok_def)
    with g ok show "\<exists>members. map_of (v_groups v) g = Some members
      \<and> (\<forall>n \<in> set members. \<exists>f. map_of ?fbn n = Some f \<and> computable a f)"
      by (force simp: wanted_def)
  qed
  then obtain o2 ex where o2: "fold_res (plan_group ?fbn (v_groups v) a) groups (o1, []) = Inr (o2, ex)"
    using plan_groups_total by blast
  have "planned ?fbn a o1" "set o1 = set req" using plan_names[OF o1] by (auto simp: planned_def)
  with plan_groups[OF o2] have o2': "set o2 = ?W" by (simp add: wanted_def)
  have "plan_closed ?fbn (below v ?W)"
    using assms ok by (intro below_plan_closed) (auto simp: request_ok_def)
  moreover obtain rank where "ranked ?fbn (graph_cap v) rank" using assms(1) by (auto simp: view_valid_def)
  ultimately obtain d where d: "validate_deps ?fbn o2 = Inr d"
    using validate_deps_complete[of ?fbn _ rank "below v ?W" o2] o2' below_self by blast
  have fs: "map_res (\<lambda>n. case map_of ?fbn n of None \<Rightarrow> Inl (KeyError n) | Some f \<Rightarrow> Inr f) o2
      = Inr (map (\<lambda>n. the (map_of ?fbn n)) o2)"
    using ok o2' by (intro map_res_all_Inr) force
  have "o2 \<noteq> []" using assms(2) o2' by (auto simp: request_ok_def)
  then show ?thesis by (simp add: plan_features_def Let_def o1 o2 d fs)
qed

lemma plan_features_request_ok:
  assumes "plan_features v req groups a = Inr p"
  shows "request_ok v req groups a"
proof -
  let ?fbn = "features_by_name v" and ?W = "wanted v req groups"
  from plan_features_Inr[OF assms] obtain o1 ex where
    o1: "fold_res (plan_name ?fbn a) req [] = Inr o1"
    and o2: "fold_res (plan_group ?fbn (v_groups v) a) groups (o1, []) = Inr (p_compute_features p, ex)"
    and ne: "p_compute_features p \<noteq> []" by blast
  have 1: "planned ?fbn a o1" using plan_names[OF o1] by (simp add: planned_def)
  have W: "set (p_compute_features p) = ?W" using plan_outputs[OF assms] by (simp add: wanted_def)
  obtain d where d: "topological ?fbn d" "?W \<subseteq> set d" using plan_topological[OF assms] W by auto
  have comp: "\<forall>n \<in> ?W. \<exists>f. map_of ?fbn n = Some f \<and> computable a f"
    using plan_outputs[OF assms] W by (simp add: planned_def)
  have "f_kind t \<noteq> ''model''" if "m \<in> below v ?W" "map_of ?fbn m = Some t" for m t
  proof -
    from that(1) obtain n where n: "n \<in> ?W" "(dep_edge ?fbn)\<^sup>*\<^sup>* n m" by (auto simp: below_def)
    from n(2) show ?thesis
    proof (cases rule: rtranclp.cases)
      case rtrancl_refl
      with comp n(1) that(2) show ?thesis by (auto simp: computable_def)
    next
      case (rtrancl_into_rtrancl y)
      then have "y \<in> set d" using topological_closed[OF _ d(1)] n(1) d(2) by blast
      from topological_edge[OF d(1) this rtrancl_into_rtrancl(2)] that(2) show ?thesis by auto
    qed
  qed
  moreover have "?W \<noteq> {}" using ne W by auto
  moreover have "\<forall>g \<in> set groups. map_of (v_groups v) g \<noteq> None" using plan_groups[OF o2 1] by blast
  ultimately show ?thesis using comp unfolding request_ok_def by blast
qed

section \<open>The depth cap\<close>

text \<open>
  When every dependency is known, the graph check accepts exactly the views whose dependency
  chains, however they wind, have at most \<open>graph_cap\<close> edges.
\<close>

lemma ranked_chain:
  assumes "ranked fbn cap rank" "(dep_edge fbn ^^ k) n m" "map_of fbn n \<noteq> None"
  shows "rank m + int k \<le> rank n \<and> map_of fbn m \<noteq> None"
  using assms(2)
proof (induction k arbitrary: m)
  case 0
  with assms(3) show ?case by simp
next
  case (Suc k)
  then obtain y where y: "(dep_edge fbn ^^ k) n y" "dep_edge fbn y m" by (auto elim: relpowp_Suc_E)
  from y(2) obtain g dep where "map_of fbn y = Some g" "dep \<in> set (f_deps g)" "d_feature dep = m"
    by (auto simp: dep_edge_def)
  with assms(1) have "rank m < rank y" "map_of fbn m \<noteq> None" unfolding ranked_def by blast+
  with Suc.IH[OF y(1)] show ?case by simp
qed

lemma chains_ranked:
  assumes cap: "\<And>n m k. (dep_edge fbn ^^ k) n m \<Longrightarrow> int k \<le> cap"
    and known: "\<And>n f dep. map_of fbn n = Some f \<Longrightarrow> dep \<in> set (f_deps f) \<Longrightarrow> map_of fbn (d_feature dep) \<noteq> None"
  shows "\<exists>rank. ranked fbn cap rank"
proof -
  let ?ks = "\<lambda>n. {k. \<exists>m. (dep_edge fbn ^^ k) n m}"
  have fin: "finite (?ks n)" for n
  proof (rule finite_subset)
    show "?ks n \<subseteq> {.. nat cap}"
    proof
      fix k
      assume "k \<in> ?ks n"
      then obtain m where "(dep_edge fbn ^^ k) n m" by blast
      from cap[OF this] show "k \<in> {.. nat cap}" by simp
    qed
  qed simp
  have zero: "0 \<in> ?ks n" for n by (auto intro: exI[of _ n])
  have "int (Max (?ks n)) \<le> cap" for n
    using Max_in[OF fin[of n]] zero cap by blast
  moreover have "Max (?ks (d_feature dep)) < Max (?ks n)"
    if "map_of fbn n = Some f" "dep \<in> set (f_deps f)" for n f dep
  proof -
    have "Max (?ks (d_feature dep)) \<in> ?ks (d_feature dep)"
      using zero by (intro Max_in[OF fin]) blast
    then obtain m where m: "(dep_edge fbn ^^ Max (?ks (d_feature dep))) (d_feature dep) m" by blast
    have "dep_edge fbn n (d_feature dep)" using that by (auto simp: dep_edge_def)
    from relpowp_Suc_I2[OF this m] have "Suc (Max (?ks (d_feature dep))) \<in> ?ks n" by blast
    from Max_ge[OF fin this] show ?thesis by simp
  qed
  ultimately have "ranked fbn cap (\<lambda>n. int (Max (?ks n)))"
    unfolding ranked_def using known by simp
  then show ?thesis by blast
qed

lemma graph_accepts_chains:
  assumes "0 \<le> graph_cap v"
    and known: "\<forall>f \<in> set (v_features v). \<forall>dep \<in> set (f_deps f). map_of (features_by_name v) (d_feature dep) \<noteq> None"
  shows "validate_dependency_graph v = Inr () \<longleftrightarrow>
    (\<forall>n m k. (dep_edge (features_by_name v) ^^ k) n m \<longrightarrow> int k \<le> graph_cap v)" (is "?acc \<longleftrightarrow> ?short")
proof
  assume ?acc
  from validate_graph_sound[OF this assms(1)] obtain rank where
    rank: "ranked (features_by_name v) (graph_cap v) rank" by blast
  show ?short
  proof (intro allI impI)
    fix n m k
    assume c: "(dep_edge (features_by_name v) ^^ k) n m"
    show "int k \<le> graph_cap v"
    proof (cases k)
      case 0
      with assms(1) show ?thesis by simp
    next
      case (Suc j)
      with c obtain y where "dep_edge (features_by_name v) n y" by (auto elim: relpowp_Suc_E2 simp del: relpowp.simps)
      then obtain f where f: "map_of (features_by_name v) n = Some f" by (auto simp: dep_edge_def)
      from ranked_chain[OF rank c] f have 1: "rank m + int k \<le> rank n" "map_of (features_by_name v) m \<noteq> None"
        by auto
      with rank f have "0 \<le> rank m" "rank n \<le> graph_cap v" unfolding ranked_def by blast+
      with 1 show ?thesis by simp
    qed
  qed
next
  assume s: ?short
  have "\<exists>rank. ranked (features_by_name v) (graph_cap v) rank"
    by (rule chains_ranked) (use s known features_by_name_Some in blast)+
  then show ?acc using validate_graph_complete by blast
qed

end
