(* ===== verification/Compute.thy ===== *)
theory Compute
  imports Hashing Planner
begin

text \<open>
  The compute core (fs_core/compute/context.py, udf_registry.py, engine.py): the per-request
  caches, the recursive resolution of a feature and its edges with their freshness rules, and
  the metadata each computed value carries. A UDF, a source loader and the hash functions are
  parameters; timing metrics are left out.
\<close>

section \<open>The request context\<close>

datatype node_status = StOk | StDegraded | StSkipped

record computation =
  co_value :: json
  co_data_ts :: datetime
  co_max_input :: datetime
  co_value_hash :: string
  co_fingerprint :: string
  co_status :: node_status
  co_available_at :: "datetime option"
  co_availability_source :: "string option"

record context_state =
  cx_sources :: "(string, json) dict"
  cx_features :: "(string, computation) dict"
  cx_statuses :: "(string, node_status) dict"

definition empty_context :: context_state where
  "empty_context = \<lparr>cx_sources = [], cx_features = [], cx_statuses = []\<rparr>"

definition get_source ::
    "(string \<Rightarrow> json res) \<Rightarrow> string \<Rightarrow> context_state \<Rightarrow> (json \<times> context_state) res" where
  "get_source load name cx =
     (case map_of (cx_sources cx) name of
        Some v \<Rightarrow> Inr (v, cx)
      | None \<Rightarrow> rbind (load name) (\<lambda>v. Inr (v, cx\<lparr>cx_sources := dict_set name v (cx_sources cx)\<rparr>)))"

definition cache_feature :: "string \<Rightarrow> computation \<Rightarrow> context_state \<Rightarrow> context_state" where
  "cache_feature name c cx =
     cx\<lparr>cx_features := dict_set name c (cx_features cx),
        cx_statuses := dict_set name (co_status c) (cx_statuses cx)\<rparr>"

definition is_skipped :: "string \<Rightarrow> context_state \<Rightarrow> bool" where
  "is_skipped name cx \<longleftrightarrow> map_of (cx_statuses cx) name = Some StSkipped"

definition mark_skipped :: "string \<Rightarrow> context_state \<Rightarrow> context_state" where
  "mark_skipped name cx = cx\<lparr>cx_statuses := dict_set name StSkipped (cx_statuses cx)\<rparr>"

section \<open>The engine\<close>

type_synonym udf = "(string, json) dict \<Rightarrow> (string, json) dict \<Rightarrow> json res"

record engine_env =
  en_load :: "string \<Rightarrow> json res"
  en_stamps :: "(string, source_stamp) dict"
  en_calc_ts :: datetime
  en_udfs :: "(string, udf) dict"
  en_hasher :: hasher

definition udf_get :: "(string, udf) dict \<Rightarrow> string \<Rightarrow> udf res" where
  "udf_get udfs i =
     (case map_of udfs i of None \<Rightarrow> Inl (ValueError ''unknown udf id'') | Some f \<Rightarrow> Inr f)"

text \<open>\<^verbatim>\<open>timedelta(seconds=n)\<close> raises beyond 999999999 days.\<close>

definition edge_is_stale :: "feature_dep \<Rightarrow> datetime \<Rightarrow> datetime \<Rightarrow> bool res" where
  "edge_is_stale dep input_data_ts calc_ts =
     (case d_max_age dep of
        None \<Rightarrow> Inr False
      | Some age \<Rightarrow>
          rbind (require (aware calc_ts = aware input_data_ts)
            (TypeError ''can't subtract offset-naive and offset-aware datetimes'')) (\<lambda>_.
          rbind (require (age < 86400 * 1000000000) (OverflowError ''days=%d; must have magnitude <= 999999999''))
            (\<lambda>_. Inr (instant calc_ts - instant input_data_ts > age * 1000000))))"

text \<open>Python's \<^verbatim>\<open>min\<close> and \<^verbatim>\<open>max\<close>: the first of the least (greatest) items.\<close>

definition first_min :: "datetime \<Rightarrow> datetime list \<Rightarrow> datetime" where
  "first_min x xs = foldl (\<lambda>a b. if instant b < instant a then b else a) x xs"

definition first_max :: "datetime \<Rightarrow> datetime list \<Rightarrow> datetime" where
  "first_max x xs = foldl (\<lambda>a b. if instant b > instant a then b else a) x xs"

definition py_min :: "datetime list \<Rightarrow> datetime res" where
  "py_min xs = (case xs of [] \<Rightarrow> Inl (ValueError ''min() arg is an empty sequence'')
                | y # ys \<Rightarrow> Inr (first_min y ys))"

definition py_max :: "datetime list \<Rightarrow> datetime res" where
  "py_max xs = (case xs of [] \<Rightarrow> Inl (ValueError ''max() arg is an empty sequence'')
                | y # ys \<Rightarrow> Inr (first_max y ys))"

text \<open>One input of a node: its identity, timestamp and hash, and its availability.\<close>

record node_input =
  ni_id :: string
  ni_ts :: datetime
  ni_hash :: string
  ni_available :: "datetime option"
  ni_source :: "string option"

definition source_input :: "(string, source_stamp) dict \<Rightarrow> string \<Rightarrow> node_input res" where
  "source_input stamps src =
     (case map_of stamps src of
        None \<Rightarrow> Inl (ValueError ''no source stamp was provided'')
      | Some s \<Rightarrow> Inr \<lparr>ni_id = ''source:'' @ src, ni_ts = ss_report_ts s, ni_hash = ss_content_hash s,
                    ni_available = ss_available_at s, ni_source = ss_availability_source s\<rparr>)"

definition dep_input :: "(string, feature_def) dict \<Rightarrow> string \<times> computation \<Rightarrow> node_input res" where
  "dep_input fbn x =
     (case x of (dep, c) \<Rightarrow>
      case map_of fbn dep of
        None \<Rightarrow> Inl (KeyError dep)
      | Some f \<Rightarrow> Inr \<lparr>ni_id = ref_text (f_ref f), ni_ts = co_data_ts c, ni_hash = co_value_hash c,
                    ni_available = co_available_at c, ni_source = co_availability_source c\<rparr>)"

definition availability :: "node_input list \<Rightarrow> (datetime option \<times> string option) res" where
  "availability inputs =
     (let avs = map ni_available inputs; all_available = (avs \<noteq> [] \<and> None \<notin> set avs);
          all_trusted = (all_available \<and> (\<forall>i \<in> set inputs. ni_source i = Some ''source_provided''))
      in if all_available then
           rbind (py_max (map the avs)) (\<lambda>m.
           Inr (Some m, Some (if all_trusted then ''source_provided'' else ''ingestion_time'')))
         else Inr (None, None))"

text \<open>The second half of \<^verbatim>\<open>_resolve\<close>: the node's value and metadata from its inputs.\<close>

definition compute_node ::
    "engine_env \<Rightarrow> (string, feature_def) dict \<Rightarrow> feature_def \<Rightarrow> (string, json) dict
      \<Rightarrow> (string, computation) dict \<Rightarrow> bool \<Rightarrow> computation res" where
  "compute_node E fbn f sources dep_comps degraded =
     rbind (map_res (source_input (en_stamps E)) (f_inputs f)) (\<lambda>srcs.
     rbind (map_res (dep_input fbn) dep_comps) (\<lambda>deps.
     let inputs = srcs @ deps in
     rbind (udf_get (en_udfs E) (f_udf f)) (\<lambda>u.
     rbind (u sources (map (\<lambda>(d, c). (d, co_value c)) dep_comps)) (\<lambda>val.
     rbind (py_min (map ni_ts inputs)) (\<lambda>data_ts.
     rbind (py_max (map ni_ts inputs)) (\<lambda>max_ts.
     rbind (value_hash_of (en_hasher E) val) (\<lambda>vh.
     rbind (input_fingerprint_of (en_hasher E) (map (\<lambda>i. (ni_id i, ni_ts i, ni_hash i)) inputs)) (\<lambda>fp.
     rbind (availability inputs) (\<lambda>(av, avs).
     Inr \<lparr>co_value = val, co_data_ts = data_ts, co_max_input = max_ts, co_value_hash = vh,
          co_fingerprint = fp, co_status = (if degraded then StDegraded else StOk),
          co_available_at = av, co_availability_source = avs\<rparr>)))))))))"

text \<open>\<^verbatim>\<open>{src: context.get_source(src) for src in feature.inputs}\<close>\<close>

definition read_sources ::
    "(string \<Rightarrow> json res) \<Rightarrow> string list \<Rightarrow> context_state \<Rightarrow> ((string, json) dict \<times> context_state) res" where
  "read_sources load names cx =
     fold_res (\<lambda>src (acc, cx). rbind (get_source load src cx) (\<lambda>(v, cx'). Inr (dict_set src v acc, cx')))
       names ([], cx)"

text \<open>
  \<^verbatim>\<open>_resolve\<close>, with its edge loop as \<open>resolve_deps\<close>. The first component of a result is None
  for a skipped node.
\<close>

function resolve ::
    "engine_env \<Rightarrow> (string, feature_def) dict \<Rightarrow> string list \<Rightarrow> string \<Rightarrow> context_state
      \<Rightarrow> (computation option \<times> context_state) res"
  and resolve_deps ::
    "engine_env \<Rightarrow> (string, feature_def) dict \<Rightarrow> string list \<Rightarrow> string \<Rightarrow> feature_dep list
      \<Rightarrow> (string, computation) dict \<Rightarrow> bool \<Rightarrow> context_state
      \<Rightarrow> (((string, computation) dict \<times> bool) option \<times> context_state) res" where
  "resolve E fbn visiting name cx =
     (case map_of (cx_features cx) name of
        Some c \<Rightarrow> Inr (Some c, cx)
      | None \<Rightarrow>
          if is_skipped name cx then Inr (None, cx)
          else (case map_of fbn name of
            None \<Rightarrow> Inl (ValueError ''unknown feature'')
          | Some f \<Rightarrow>
              if name \<in> set visiting then Inl (ValueError ''dependency cycle detected'')
              else rbind (read_sources (en_load E) (f_inputs f) cx) (\<lambda>(sources, cx1).
                rbind (resolve_deps E fbn (visiting @ [name]) name (f_deps f) [] False cx1) (\<lambda>(res, cx2).
                case res of
                  None \<Rightarrow> Inr (None, cx2)
                | Some (dep_comps, degraded) \<Rightarrow>
                    rbind (compute_node E fbn f sources dep_comps degraded) (\<lambda>c.
                    Inr (Some c, cache_feature name c cx2))))))"
| "resolve_deps E fbn visiting name [] comps degraded cx = Inr (Some (comps, degraded), cx)"
| "resolve_deps E fbn visiting name (dep # deps) comps degraded cx =
     rbind (resolve E fbn visiting (d_feature dep) cx) (\<lambda>(comp, cx1).
     case comp of
       None \<Rightarrow>
         if d_required dep then Inr (None, mark_skipped name cx1)
         else resolve_deps E fbn visiting name deps comps True cx1
     | Some c \<Rightarrow>
         rbind (edge_is_stale dep (co_data_ts c) (en_calc_ts E)) (\<lambda>stale.
         if stale \<and> d_required dep then Inr (None, mark_skipped name cx1)
         else resolve_deps E fbn visiting name deps (dict_set (d_feature dep) c comps)
                (degraded \<or> stale \<or> co_status c = StDegraded) cx1))"
  by pat_completeness auto

termination
  by (relation "measures
      [\<lambda>x. case x of Inl (E, fbn, visiting, name, cx) \<Rightarrow> card (fst ` set fbn - set visiting)
                   | Inr (E, fbn, visiting, name, deps, comps, degraded, cx) \<Rightarrow> card (fst ` set fbn - set visiting),
       \<lambda>x. case x of Inl _ \<Rightarrow> 0 | Inr (E, fbn, visiting, name, deps, comps, degraded, cx) \<Rightarrow> Suc (length deps)]")
    (auto intro!: stack_decreases[simplified] dest: map_of_SomeD simp: rev_image_eqI)

declare resolve.simps [simp del]

text \<open>The first view with the name decides; another version of it is an error.\<close>

fun engine_find_view :: "view_def list \<Rightarrow> string \<Rightarrow> int \<Rightarrow> view_def res" where
  "engine_find_view [] name version = Inl (ValueError ''unknown view'')"
| "engine_find_view (v # vs) name version =
     (if v_name v = name then
        (if v_version v \<noteq> version then Inl (ValueError ''view version mismatch'') else Inr v)
      else engine_find_view vs name version)"

definition computation_result ::
    "feature_def \<Rightarrow> entity_key \<Rightarrow> datetime \<Rightarrow> computation \<Rightarrow> feature_result res" where
  "computation_result f ek calc_ts c = mk_feature_result
     \<lparr>r_ref = f_ref f, r_entity_key = ek, r_value = co_value c, r_data_ts = co_data_ts c,
      r_calc_ts = calc_ts, r_max_input_data_ts = Some (co_max_input c),
      r_input_fingerprint = Some (co_fingerprint c), r_value_hash = Some (co_value_hash c),
      r_available_at = co_available_at c, r_availability_source = co_availability_source c,
      r_model_uri = None, r_model_digest = None, r_model_output_name = None, r_bundle_digest = None\<rparr>"

definition compute_step ::
    "engine_env \<Rightarrow> (string, feature_def) dict \<Rightarrow> entity_key \<Rightarrow> string
      \<Rightarrow> (string, feature_result) dict \<times> context_state
      \<Rightarrow> ((string, feature_result) dict \<times> context_state) res" where
  "compute_step E fbn ek name acc =
     (case acc of (results, cx) \<Rightarrow>
      rbind (resolve E fbn [] name cx) (\<lambda>(comp, cx').
      case comp of
        None \<Rightarrow> Inr (results, cx')
      | Some c \<Rightarrow>
          (case map_of fbn name of
             None \<Rightarrow> Inl (KeyError name)
           | Some f \<Rightarrow>
               rbind (computation_result f ek (en_calc_ts E) c) (\<lambda>r.
               Inr (dict_set name r results, cx')))))"

definition compute ::
    "engine_env \<Rightarrow> registry \<Rightarrow> string \<Rightarrow> int \<Rightarrow> entity_key \<Rightarrow> string list \<Rightarrow> context_state
      \<Rightarrow> ((string, feature_result) dict \<times> context_state) res" where
  "compute E reg view version ek requested cx =
     rbind (engine_find_view (reg_views reg) view version) (\<lambda>v.
     fold_res (compute_step E (features_by_name v) ek) requested ([], cx))"

section \<open>What the caches hold\<close>

abbreviation feats :: "context_state \<Rightarrow> string \<rightharpoonup> computation" where
  "feats cx \<equiv> map_of (cx_features cx)"

text \<open>An edge that a computed node used or dropped: required edges are present and fresh.\<close>

definition edge_met :: "engine_env \<Rightarrow> (string, computation) dict \<Rightarrow> feature_dep \<Rightarrow> bool" where
  "edge_met E comps dep \<longleftrightarrow>
     (d_required dep \<longrightarrow>
       (\<exists>k. map_of comps (d_feature dep) = Some k
          \<and> edge_is_stale dep (co_data_ts k) (en_calc_ts E) = Inr False))"

definition comps_in :: "(string \<rightharpoonup> computation) \<Rightarrow> (string, computation) dict \<Rightarrow> bool" where
  "comps_in fs comps \<longleftrightarrow> (\<forall>d k. map_of comps d = Some k \<longrightarrow> fs d = Some k)"

definition node_right ::
    "engine_env \<Rightarrow> (string, feature_def) dict \<Rightarrow> (string \<rightharpoonup> computation) \<Rightarrow> feature_def \<Rightarrow> computation \<Rightarrow> bool" where
  "node_right E fbn fs f c \<longleftrightarrow>
     (\<exists>sources comps degraded. compute_node E fbn f sources comps degraded = Inr c
        \<and> dict_wf comps \<and> comps_in fs comps
        \<and> set (dict_keys comps) \<subseteq> d_feature ` set (f_deps f)
        \<and> (\<forall>dep \<in> set (f_deps f). edge_met E comps dep))"

text \<open>\<open>B\<close> holds the computations that the caller cached before the request.\<close>

definition ctx_ok ::
    "engine_env \<Rightarrow> (string, feature_def) dict \<Rightarrow> (string \<rightharpoonup> computation) \<Rightarrow> context_state \<Rightarrow> bool" where
  "ctx_ok E fbn B cx \<longleftrightarrow>
     (\<forall>n c. feats cx n = Some c \<longrightarrow> B n = Some c \<or>
        (\<exists>f. map_of fbn n = Some f \<and> node_right E fbn (feats cx) f c))"

lemma ctx_ok_empty [simp]: "ctx_ok E fbn B empty_context"
  by (simp add: ctx_ok_def empty_context_def)

lemma comps_in_mono: "comps_in fs comps \<Longrightarrow> fs \<subseteq>\<^sub>m fs' \<Longrightarrow> comps_in fs' comps"
  by (force simp: comps_in_def map_le_def)

lemma node_right_mono: "node_right E fbn fs f c \<Longrightarrow> fs \<subseteq>\<^sub>m fs' \<Longrightarrow> node_right E fbn fs' f c"
  unfolding node_right_def by (blast intro: comps_in_mono)

lemma feats_mark_skipped [simp]: "cx_features (mark_skipped n cx) = cx_features cx"
  by (simp add: mark_skipped_def)

lemma ctx_ok_same_feats: "cx_features cx' = cx_features cx \<Longrightarrow> ctx_ok E fbn B cx' \<longleftrightarrow> ctx_ok E fbn B cx"
  by (simp add: ctx_ok_def)

lemma read_sources_feats: "read_sources load names cx = Inr (acc, cx') \<Longrightarrow>
    cx_features cx' = cx_features cx \<and> cx_statuses cx' = cx_statuses cx"
proof -
  have "fold_res (\<lambda>src (acc, cx). rbind (get_source load src cx) (\<lambda>(v, cx'). Inr (dict_set src v acc, cx')))
      names (a, cx) = Inr (acc, cx') \<Longrightarrow>
      cx_features cx' = cx_features cx \<and> cx_statuses cx' = cx_statuses cx" for a
  proof (induction names arbitrary: a cx)
    case (Cons n names)
    then obtain v cx1 where 1: "get_source load n cx = Inr (v, cx1)"
      and 2: "fold_res (\<lambda>src (acc, cx). rbind (get_source load src cx) (\<lambda>(v, cx'). Inr (dict_set src v acc, cx')))
        names (dict_set n v a, cx1) = Inr (acc, cx')" by auto
    from 1 have "cx_features cx1 = cx_features cx \<and> cx_statuses cx1 = cx_statuses cx"
      by (auto simp: get_source_def split: option.splits)
    with Cons.IH[OF 2] show ?case by simp
  qed simp
  then show "read_sources load names cx = Inr (acc, cx') \<Longrightarrow> ?thesis" by (simp add: read_sources_def)
qed

text \<open>The state relation of one resolution below the stack \<open>visiting\<close>.\<close>

definition ctx_step ::
    "engine_env \<Rightarrow> (string, feature_def) dict \<Rightarrow> (string \<rightharpoonup> computation) \<Rightarrow> string list
      \<Rightarrow> context_state \<Rightarrow> context_state \<Rightarrow> bool" where
  "ctx_step E fbn B visiting cx cx' \<longleftrightarrow>
     ctx_ok E fbn B cx' \<and> feats cx \<subseteq>\<^sub>m feats cx' \<and> (\<forall>n \<in> set visiting. feats cx' n = None)"

definition ctx_start ::
    "engine_env \<Rightarrow> (string, feature_def) dict \<Rightarrow> (string \<rightharpoonup> computation) \<Rightarrow> string list
      \<Rightarrow> context_state \<Rightarrow> bool" where
  "ctx_start E fbn B visiting cx \<longleftrightarrow> ctx_ok E fbn B cx \<and> (\<forall>n \<in> set visiting. feats cx n = None)"

lemma ctx_step_start: "ctx_step E fbn B visiting cx cx' \<Longrightarrow> ctx_start E fbn B visiting cx'"
  by (simp add: ctx_step_def ctx_start_def)

lemma ctx_step_trans:
  "ctx_step E fbn B visiting cx cx1 \<Longrightarrow> ctx_step E fbn B visiting cx1 cx2 \<Longrightarrow> ctx_step E fbn B visiting cx cx2"
  unfolding ctx_step_def using map_le_trans by blast

lemma resolve_sound:
  "resolve E fbn visiting name cx = Inr (oc, cx') \<Longrightarrow> ctx_start E fbn B visiting cx \<Longrightarrow>
     ctx_step E fbn B visiting cx cx'
     \<and> (case oc of Some c \<Rightarrow> feats cx' name = Some c | None \<Rightarrow> is_skipped name cx')"
  "resolve_deps E fbn visiting name deps comps degraded cx = Inr (res, cx') \<Longrightarrow>
     ctx_start E fbn B visiting cx \<Longrightarrow> comps_in (feats cx) comps \<Longrightarrow> dict_wf comps \<Longrightarrow>
     ctx_step E fbn B visiting cx cx'
     \<and> (case res of None \<Rightarrow> is_skipped name cx'
        | Some (comps', degraded') \<Rightarrow> comps_in (feats cx') comps' \<and> dict_wf comps'
            \<and> map_of comps \<subseteq>\<^sub>m map_of comps'
            \<and> set (dict_keys comps') \<subseteq> set (dict_keys comps) \<union> d_feature ` set deps
            \<and> (\<forall>dep \<in> set deps. edge_met E comps' dep))"
proof (induction E fbn visiting name cx and E fbn visiting name deps comps degraded cx
    arbitrary: oc cx' and res cx' rule: resolve_resolve_deps.induct)
  case (1 E fbn visiting name cx)
  show ?case
  proof (cases "feats cx name")
    case (Some c)
    with "1.prems"(1) have "oc = Some c" "cx' = cx" by (auto simp: resolve.simps)
    with Some "1.prems"(2) show ?thesis by (simp add: ctx_step_def ctx_start_def)
  next
    case nc: None
    show ?thesis
    proof (cases "is_skipped name cx")
      case True
      with nc "1.prems" show ?thesis by (auto simp: resolve.simps ctx_step_def ctx_start_def)
    next
      case False
      with nc "1.prems"(1) obtain f sources cx1 res cx2 where f: "map_of fbn name = Some f"
        and nv: "name \<notin> set visiting"
        and src: "read_sources (en_load E) (f_inputs f) cx = Inr (sources, cx1)"
        and deps: "resolve_deps E fbn (visiting @ [name]) name (f_deps f) [] False cx1 = Inr (res, cx2)"
        and fin: "(case res of None \<Rightarrow> Inr (None, cx2)
            | Some (dep_comps, degraded) \<Rightarrow>
                rbind (compute_node E fbn f sources dep_comps degraded) (\<lambda>c.
                Inr (Some c, cache_feature name c cx2))) = Inr (oc, cx')"
        by (auto simp: resolve.simps[of E fbn visiting name cx] split: option.splits if_splits)
      have same: "cx_features cx1 = cx_features cx" using read_sources_feats[OF src] by simp
      have "ctx_start E fbn B (visiting @ [name]) cx1"
        using "1.prems"(2) nc by (simp add: ctx_start_def ctx_ok_def same)
      from "1.IH"[OF nc False f nv src refl deps this]
      have step: "ctx_step E fbn B (visiting @ [name]) cx1 cx2"
        and out: "case res of None \<Rightarrow> is_skipped name cx2
        | Some (comps', degraded') \<Rightarrow> comps_in (feats cx2) comps' \<and> dict_wf comps'
            \<and> set (dict_keys comps') \<subseteq> d_feature ` set (f_deps f)
            \<and> (\<forall>dep \<in> set (f_deps f). edge_met E comps' dep)"
        by (auto simp: comps_in_def dict_keys_def split: option.splits prod.splits)
      show ?thesis
      proof (cases res)
        case None
        with fin step out same show ?thesis by (auto simp: ctx_step_def)
      next
        case (Some p)
        obtain comps degraded where p: "p = (comps, degraded)" by (cases p)
        with fin Some obtain c where c: "compute_node E fbn f sources comps degraded = Inr c"
          and r: "oc = Some c" "cx' = cache_feature name c cx2" by auto
        have fs: "feats cx' = (feats cx2)(name \<mapsto> c)" by (simp add: r cache_feature_def)
        have none: "feats cx2 name = None" using step by (simp add: ctx_step_def)
        then have le: "feats cx2 \<subseteq>\<^sub>m feats cx'" by (auto simp: fs map_le_def)
        have new: "node_right E fbn (feats cx2) f c"
          unfolding node_right_def using c out Some p by auto
        have "ctx_ok E fbn B cx'"
          unfolding ctx_ok_def
        proof (intro allI impI)
          fix n k
          assume "feats cx' n = Some k"
          then have "n = name \<and> k = c \<or> feats cx2 n = Some k" by (auto simp: fs split: if_splits)
          then have "B n = Some k \<or> (\<exists>g. map_of fbn n = Some g \<and> node_right E fbn (feats cx2) g k)"
            using f new step unfolding ctx_step_def ctx_ok_def by blast
          then show "B n = Some k \<or> (\<exists>g. map_of fbn n = Some g \<and> node_right E fbn (feats cx') g k)"
            using le by (blast intro: node_right_mono)
        qed
        moreover have "feats cx \<subseteq>\<^sub>m feats cx'"
          using step le same by (auto simp: ctx_step_def intro: map_le_trans)
        moreover have "\<forall>n \<in> set visiting. feats cx' n = None"
          using step nv by (auto simp: ctx_step_def fs)
        ultimately show ?thesis by (simp add: ctx_step_def r(1) fs)
      qed
    qed
  qed
next
  case (2 E fbn visiting name comps degraded cx)
  then show ?case by (auto simp: ctx_step_def ctx_start_def)
next
  case (3 E fbn visiting name dep deps comps degraded cx)
  from "3.prems"(1) obtain oc cx1 where d: "resolve E fbn visiting (d_feature dep) cx = Inr (oc, cx1)"
    and rest: "(case oc of
       None \<Rightarrow>
         if d_required dep then Inr (None, mark_skipped name cx1)
         else resolve_deps E fbn visiting name deps comps True cx1
     | Some c \<Rightarrow>
         rbind (edge_is_stale dep (co_data_ts c) (en_calc_ts E)) (\<lambda>stale.
         if stale \<and> d_required dep then Inr (None, mark_skipped name cx1)
         else resolve_deps E fbn visiting name deps (dict_set (d_feature dep) c comps)
                (degraded \<or> stale \<or> co_status c = StDegraded) cx1)) = Inr (res, cx')"
    by auto
  from "3.IH"(1)[OF d "3.prems"(2)] have step: "ctx_step E fbn B visiting cx cx1"
    and oc: "case oc of Some c \<Rightarrow> feats cx1 (d_feature dep) = Some c | None \<Rightarrow> is_skipped (d_feature dep) cx1"
    by auto
  note start1 = ctx_step_start[OF step]
  have comps1: "comps_in (feats cx1) comps"
    using "3.prems"(3) step by (auto simp: ctx_step_def intro: comps_in_mono)
  have skip: ?case if "res = None" "cx' = mark_skipped name cx1"
    using step that by (simp add: ctx_step_def ctx_ok_def) (simp add: is_skipped_def mark_skipped_def)
  show ?case
  proof (cases oc)
    case None
    show ?thesis
    proof (cases "d_required dep")
      case True
      with None rest have "res = None" "cx' = mark_skipped name cx1" by auto
      then show ?thesis by (rule skip)
    next
      case False
      with None rest have r: "resolve_deps E fbn visiting name deps comps True cx1 = Inr (res, cx')" by simp
      from "3.IH"(2)[OF d refl None False r start1 comps1 "3.prems"(4)] step False show ?thesis
        by (auto simp: edge_met_def split: option.splits intro: ctx_step_trans)
    qed
  next
    case (Some c)
    with rest obtain stale where stale: "edge_is_stale dep (co_data_ts c) (en_calc_ts E) = Inr stale" by auto
    show ?thesis
    proof (cases "stale \<and> d_required dep")
      case True
      with Some stale rest have "res = None" "cx' = mark_skipped name cx1" by auto
      then show ?thesis by (rule skip)
    next
      case False
      let ?comps = "dict_set (d_feature dep) c comps"
      from False Some stale rest have r: "resolve_deps E fbn visiting name deps ?comps
          (degraded \<or> stale \<or> co_status c = StDegraded) cx1 = Inr (res, cx')" by (simp split: if_splits)
      have c1: "feats cx1 (d_feature dep) = Some c" using oc Some by simp
      have in1: "comps_in (feats cx1) ?comps" using comps1 c1 by (simp add: comps_in_def)
      have wf: "dict_wf ?comps" using "3.prems"(4) by simp
      have le: "map_of comps \<subseteq>\<^sub>m map_of ?comps"
        using comps1 c1 by (auto simp: map_le_def comps_in_def)
      have met: "edge_met E comps' dep" if "map_of ?comps \<subseteq>\<^sub>m map_of comps'" for comps'
        using that stale False by (force simp: edge_met_def map_le_def)
      note IH = "3.IH"(3)[OF d refl Some stale False r start1 in1 wf]
      show ?thesis
      proof (cases res)
        case None
        with IH step show ?thesis by (auto intro: ctx_step_trans)
      next
        case (Some p)
        obtain comps' degraded' where p: "p = (comps', degraded')" by (cases p)
        have le': "map_of ?comps \<subseteq>\<^sub>m map_of comps'" using IH by (simp del: dict_set_lookup add: Some p)
        show ?thesis
          using IH step map_le_trans[OF le le'] met[OF le'] unfolding Some p
          by (auto intro: ctx_step_trans)
      qed
    qed
  qed
qed

end
