(* ===== verification/Engine.thy ===== *)
theory Engine
  imports Compute
begin

text \<open>
  What the compute core guarantees: the temporal metadata of every computed node, the
  freshness of the edges it used, the results of a request, and when a request succeeds.
\<close>

section \<open>The metadata of a node\<close>

lemma first_min_spec:
  "first_min x xs \<in> set (x # xs) \<and> (\<forall>y \<in> set (x # xs). instant (first_min x xs) \<le> instant y)"
proof (induction xs arbitrary: x)
  case (Cons z zs)
  show ?case using Cons.IH[of "if instant z < instant x then z else x"]
    by (auto simp: first_min_def split: if_splits)
qed (simp add: first_min_def)

lemma first_max_spec:
  "first_max x xs \<in> set (x # xs) \<and> (\<forall>y \<in> set (x # xs). instant y \<le> instant (first_max x xs))"
proof (induction xs arbitrary: x)
  case (Cons z zs)
  show ?case using Cons.IH[of "if instant z > instant x then z else x"]
    by (auto simp: first_max_def split: if_splits)
qed (simp add: first_max_def)

lemma py_min_Inr: "py_min xs = Inr m \<Longrightarrow> m \<in> set xs \<and> (\<forall>y \<in> set xs. instant m \<le> instant y)"
  using first_min_spec by (auto simp: py_min_def split: list.splits)

lemma py_max_Inr: "py_max xs = Inr m \<Longrightarrow> m \<in> set xs \<and> (\<forall>y \<in> set xs. instant y \<le> instant m)"
  using first_max_spec by (auto simp: py_max_def split: list.splits)

lemma map_res_normalize_aware:
  "map_res normalize_input xs = Inr ns \<Longrightarrow> \<forall>x \<in> set xs. aware (fst (snd x))"
  by (induction xs arbitrary: ns) (auto simp: normalize_input_def to_epoch_us_def)

lemma fingerprint_aware: "input_fingerprint_of H xs = Inr s \<Longrightarrow> \<forall>x \<in> set xs. aware (fst (snd x))"
  by (auto simp: input_fingerprint_of_def dest: map_res_normalize_aware)

definition fp_inputs :: "node_input list \<Rightarrow> (string \<times> datetime \<times> string) list" where
  "fp_inputs inputs = map (\<lambda>i. (ni_id i, ni_ts i, ni_hash i)) inputs"

lemma availability_Inr:
  assumes "availability inputs = Inr (av, avs)"
  shows "case av of
      None \<Rightarrow> avs = None \<and> (inputs = [] \<or> (\<exists>i \<in> set inputs. ni_available i = None))
    | Some m \<Rightarrow>
        (\<forall>i \<in> set inputs. \<exists>a. ni_available i = Some a \<and> instant a \<le> instant m)
        \<and> (\<exists>i \<in> set inputs. ni_available i = Some m)
        \<and> (avs = Some ''source_provided'' \<longleftrightarrow> (\<forall>i \<in> set inputs. ni_source i = Some ''source_provided''))"
proof (cases av)
  case None
  with assms show ?thesis
    by (fastforce simp: availability_def Let_def image_iff split: if_splits)
next
  case (Some m)
  with assms have ne: "None \<notin> ni_available ` set inputs"
    and m: "py_max (map (the \<circ> ni_available) inputs) = Inr m"
    and src: "avs = Some (if \<forall>i \<in> set inputs. ni_source i = Some ''source_provided''
        then ''source_provided'' else ''ingestion_time'')"
    by (auto simp: availability_def Let_def split: if_splits)
  have some: "\<exists>a. ni_available i = Some a" if "i \<in> set inputs" for i
    using ne that by (cases "ni_available i") force+
  have "\<exists>a. ni_available i = Some a \<and> instant a \<le> instant m" if i: "i \<in> set inputs" for i
    using some[OF i] py_max_Inr[OF m] i by force
  moreover have "\<exists>i \<in> set inputs. ni_available i = Some m"
    using py_max_Inr[OF m] some by force
  ultimately show ?thesis using src Some by auto
qed

text \<open>Everything a computed node says about its inputs.\<close>

definition node_meta :: "hasher \<Rightarrow> node_input list \<Rightarrow> computation \<Rightarrow> bool" where
  "node_meta H inputs c \<longleftrightarrow>
     (\<exists>i \<in> set inputs. co_data_ts c = ni_ts i)
     \<and> (\<forall>i \<in> set inputs. aware (ni_ts i) \<and> instant (co_data_ts c) \<le> instant (ni_ts i)
          \<and> instant (ni_ts i) \<le> instant (co_max_input c))
     \<and> (\<exists>i \<in> set inputs. co_max_input c = ni_ts i)
     \<and> value_hash_of H (co_value c) = Inr (co_value_hash c)
     \<and> input_fingerprint_of H (fp_inputs inputs) = Inr (co_fingerprint c)
     \<and> availability inputs = Inr (co_available_at c, co_availability_source c)"

lemma compute_nodeE:
  assumes "compute_node E fbn f sources comps degraded = Inr c"
  obtains srcs deps u where
    "map_res (source_input (en_stamps E)) (f_inputs f) = Inr srcs"
    "map_res (dep_input fbn) comps = Inr deps"
    "udf_get (en_udfs E) (f_udf f) = Inr u"
    "u sources (map (\<lambda>(d, c). (d, co_value c)) comps) = Inr (co_value c)"
    "co_status c = (if degraded then StDegraded else StOk)"
    "node_meta (en_hasher E) (srcs @ deps) c"
proof -
  from assms obtain srcs deps u val data_ts max_ts vh fp av avs where
    1: "map_res (source_input (en_stamps E)) (f_inputs f) = Inr srcs"
    "map_res (dep_input fbn) comps = Inr deps"
    "udf_get (en_udfs E) (f_udf f) = Inr u"
    "u sources (map (\<lambda>(d, c). (d, co_value c)) comps) = Inr val"
    and m: "py_min (map ni_ts (srcs @ deps)) = Inr data_ts" "py_max (map ni_ts (srcs @ deps)) = Inr max_ts"
    and h: "value_hash_of (en_hasher E) val = Inr vh"
    "input_fingerprint_of (en_hasher E) (fp_inputs (srcs @ deps)) = Inr fp"
    "availability (srcs @ deps) = Inr (av, avs)"
    and c: "c = \<lparr>co_value = val, co_data_ts = data_ts, co_max_input = max_ts, co_value_hash = vh,
          co_fingerprint = fp, co_status = (if degraded then StDegraded else StOk),
          co_available_at = av, co_availability_source = avs\<rparr>"
    unfolding compute_node_def fp_inputs_def Let_def by auto
  have "\<exists>i \<in> set (srcs @ deps). data_ts = ni_ts i" "\<forall>i \<in> set (srcs @ deps). instant data_ts \<le> instant (ni_ts i)"
    using py_min_Inr[OF m(1)] by auto
  moreover have "\<exists>i \<in> set (srcs @ deps). max_ts = ni_ts i" "\<forall>i \<in> set (srcs @ deps). instant (ni_ts i) \<le> instant max_ts"
    using py_max_Inr[OF m(2)] by auto
  moreover have "\<forall>i \<in> set (srcs @ deps). aware (ni_ts i)"
    using fingerprint_aware[OF h(2)] unfolding fp_inputs_def by (simp only: set_map ball_simps fst_conv snd_conv)
  ultimately have "node_meta (en_hasher E) (srcs @ deps) c"
    using h unfolding node_meta_def c by simp
  moreover have "co_value c = val" "co_status c = (if degraded then StDegraded else StOk)"
    by (simp_all add: c)
  ultimately show thesis using that[OF 1(1-3)] 1(4) by simp
qed

lemma source_inputs_mem:
  assumes "map_res (source_input stamps) names = Inr srcs" "src \<in> set names"
  shows "\<exists>s. map_of stamps src = Some s
    \<and> \<lparr>ni_id = ''source:'' @ src, ni_ts = ss_report_ts s, ni_hash = ss_content_hash s,
       ni_available = ss_available_at s, ni_source = ss_availability_source s\<rparr> \<in> set srcs"
  using list_all2_set1[OF assms(1)[unfolded map_res_Inr_iff] assms(2)]
  by (auto simp: source_input_def split: option.splits)

lemma dep_inputs_mem:
  assumes "map_res (dep_input fbn) comps = Inr deps" "(d, k) \<in> set comps"
  shows "\<exists>g. map_of fbn d = Some g
    \<and> \<lparr>ni_id = ref_text (f_ref g), ni_ts = co_data_ts k, ni_hash = co_value_hash k,
       ni_available = co_available_at k, ni_source = co_availability_source k\<rparr> \<in> set deps"
  using list_all2_set1[OF assms(1)[unfolded map_res_Inr_iff] assms(2)]
  by (auto simp: dep_input_def split: option.splits)

text \<open>
  The freshness facts of a node: no input, neither source nor required dependency, is older
  than its data timestamp; every required edge kept its age bound; a known availability covers
  every input.
\<close>

definition within_age :: "engine_env \<Rightarrow> feature_dep \<Rightarrow> computation \<Rightarrow> bool" where
  "within_age E dep k \<longleftrightarrow>
     (\<forall>age. d_max_age dep = Some age \<longrightarrow>
        instant (en_calc_ts E) - instant (co_data_ts k) \<le> age * 1000000)"

lemma edge_fresh_age: "edge_is_stale dep (co_data_ts k) (en_calc_ts E) = Inr False \<Longrightarrow> within_age E dep k"
  by (auto simp: edge_is_stale_def within_age_def split: option.splits)

definition node_fresh ::
    "engine_env \<Rightarrow> (string \<rightharpoonup> computation) \<Rightarrow> feature_def \<Rightarrow> computation \<Rightarrow> bool" where
  "node_fresh E fs f c \<longleftrightarrow>
     aware (co_data_ts c) \<and> aware (co_max_input c)
     \<and> instant (co_data_ts c) \<le> instant (co_max_input c)
     \<and> value_hash_of (en_hasher E) (co_value c) = Inr (co_value_hash c)
     \<and> (\<forall>src \<in> set (f_inputs f). \<exists>s. map_of (en_stamps E) src = Some s
          \<and> instant (co_data_ts c) \<le> instant (ss_report_ts s)
          \<and> instant (ss_report_ts s) \<le> instant (co_max_input c)
          \<and> (\<forall>a. co_available_at c = Some a \<longrightarrow>
               (\<exists>b. ss_available_at s = Some b \<and> instant b \<le> instant a)))
     \<and> (\<forall>dep \<in> set (f_deps f). d_required dep \<longrightarrow>
          (\<exists>k. fs (d_feature dep) = Some k \<and> within_age E dep k
             \<and> instant (co_data_ts c) \<le> instant (co_data_ts k)
             \<and> (\<forall>a. co_available_at c = Some a \<longrightarrow>
                  (\<exists>b. co_available_at k = Some b \<and> instant b \<le> instant a))))"

lemma node_right_fresh:
  assumes "node_right E fbn fs f c"
  shows "node_fresh E fs f c"
proof -
  from assms obtain sources comps degraded where
    c: "compute_node E fbn f sources comps degraded = Inr c" and wf: "dict_wf comps" "comps_in fs comps"
    and met: "\<forall>dep \<in> set (f_deps f). edge_met E comps dep"
    unfolding node_right_def by blast
  from compute_nodeE[OF c] obtain srcs deps where
    s: "map_res (source_input (en_stamps E)) (f_inputs f) = Inr srcs"
    and d: "map_res (dep_input fbn) comps = Inr deps"
    and meta: "node_meta (en_hasher E) (srcs @ deps) c" by metis
  have av: "\<exists>b. ni_available i = Some b \<and> instant b \<le> instant a"
    if "i \<in> set (srcs @ deps)" "co_available_at c = Some a" for i a
    using availability_Inr[of "srcs @ deps" "co_available_at c"] meta that
    by (auto simp: node_meta_def)
  have ts: "instant (co_data_ts c) \<le> instant (ni_ts i)" "instant (ni_ts i) \<le> instant (co_max_input c)"
    if "i \<in> set (srcs @ deps)" for i
    using meta that by (auto simp: node_meta_def)
  have 1: "\<exists>s. map_of (en_stamps E) src = Some s
          \<and> instant (co_data_ts c) \<le> instant (ss_report_ts s)
          \<and> instant (ss_report_ts s) \<le> instant (co_max_input c)
          \<and> (\<forall>a. co_available_at c = Some a \<longrightarrow>
               (\<exists>b. ss_available_at s = Some b \<and> instant b \<le> instant a))"
    if "src \<in> set (f_inputs f)" for src
    using source_inputs_mem[OF s that] ts av by fastforce
  have 2: "\<exists>k. fs (d_feature dep) = Some k \<and> within_age E dep k
             \<and> instant (co_data_ts c) \<le> instant (co_data_ts k)
             \<and> (\<forall>a. co_available_at c = Some a \<longrightarrow>
                  (\<exists>b. co_available_at k = Some b \<and> instant b \<le> instant a))"
    if dep: "dep \<in> set (f_deps f)" "d_required dep" for dep
  proof -
    from met dep obtain k where k: "map_of comps (d_feature dep) = Some k" "within_age E dep k"
      by (auto simp: edge_met_def intro: edge_fresh_age)
    from k(1) wf(2) have "fs (d_feature dep) = Some k" by (simp add: comps_in_def)
    with k dep_inputs_mem[OF d map_of_SomeD[OF k(1)]] ts av show ?thesis by fastforce
  qed
  have "aware (co_data_ts c)" "aware (co_max_input c)" "instant (co_data_ts c) \<le> instant (co_max_input c)"
    using meta by (auto simp: node_meta_def)
  moreover have "value_hash_of (en_hasher E) (co_value c) = Inr (co_value_hash c)"
    using meta by (simp add: node_meta_def)
  ultimately show ?thesis using 1 2 unfolding node_fresh_def by blast
qed

section \<open>A request\<close>

text \<open>The engine's results: each comes from a cached node that meets \<open>node_right\<close>.\<close>

definition results_right ::
    "engine_env \<Rightarrow> (string, feature_def) dict \<Rightarrow> entity_key \<Rightarrow> context_state
      \<Rightarrow> (string, feature_result) dict \<Rightarrow> bool" where
  "results_right E fbn ek cx results \<longleftrightarrow>
     (\<forall>n r. map_of results n = Some r \<longrightarrow>
        (\<exists>f c. map_of fbn n = Some f \<and> feats cx n = Some c
           \<and> computation_result f ek (en_calc_ts E) c = Inr r))"

lemma compute_steps_right:
  assumes "fold_res (compute_step E fbn ek) names (results, cx) = Inr (results', cx')"
    "ctx_ok E fbn B cx" "results_right E fbn ek cx results"
  shows "ctx_ok E fbn B cx' \<and> feats cx \<subseteq>\<^sub>m feats cx' \<and> results_right E fbn ek cx' results'
    \<and> set (dict_keys results') \<subseteq> set (dict_keys results) \<union> set names
    \<and> (dict_wf results \<longrightarrow> dict_wf results')"
  using assms
proof (induction names arbitrary: results cx)
  case (Cons n names)
  then obtain st where step: "compute_step E fbn ek n (results, cx) = Inr st"
    and rest: "fold_res (compute_step E fbn ek) names st = Inr (results', cx')" by auto
  from step obtain oc cx1 where r: "resolve E fbn [] n cx = Inr (oc, cx1)" by (auto simp: compute_step_def)
  from resolve_sound(1)[OF r] Cons.prems(2) have
    ok: "ctx_ok E fbn B cx1" "feats cx \<subseteq>\<^sub>m feats cx1"
    and oc: "case oc of Some c \<Rightarrow> feats cx1 n = Some c | None \<Rightarrow> is_skipped n cx1"
    by (auto simp: ctx_start_def ctx_step_def)
  have keep: "results_right E fbn ek cx1 results"
    using Cons.prems(3) ok(2) by (force simp: results_right_def map_le_def)
  show ?case
  proof (cases oc)
    case None
    with step r have st: "st = (results, cx1)" by (simp add: compute_step_def)
    from Cons.IH[OF rest[unfolded st] ok(1) keep] ok(2) show ?thesis
      by (auto intro: map_le_trans)
  next
    case (Some c)
    with step r obtain f x where f: "map_of fbn n = Some f"
      "computation_result f ek (en_calc_ts E) c = Inr x" and st: "st = (dict_set n x results, cx1)"
      by (auto simp: compute_step_def split: option.splits)
    have "results_right E fbn ek cx1 (dict_set n x results)"
      using keep f oc Some by (auto simp: results_right_def)
    from Cons.IH[OF rest[unfolded st] ok(1) this] ok(2) show ?thesis
      by (auto intro: map_le_trans)
  qed
qed simp

lemma engine_find_view_Inr:
  "engine_find_view vs name version = Inr v \<Longrightarrow> v \<in> set vs \<and> v_name v = name \<and> v_version v = version"
  by (induction vs) (auto split: if_splits)

lemma computeE:
  assumes "compute E reg view version ek requested cx = Inr (results, cx')"
    "\<And>v. v \<in> set (reg_views reg) \<Longrightarrow> v_name v = view \<Longrightarrow> ctx_ok E (features_by_name v) B cx"
  shows "\<exists>v. v \<in> set (reg_views reg) \<and> v_name v = view \<and> v_version v = version
    \<and> ctx_ok E (features_by_name v) B cx' \<and> results_right E (features_by_name v) ek cx' results
    \<and> set (dict_keys results) \<subseteq> set requested \<and> dict_wf results"
proof -
  from assms(1) obtain v where v: "engine_find_view (reg_views reg) view version = Inr v"
    and f: "fold_res (compute_step E (features_by_name v) ek) requested ([], cx) = Inr (results, cx')"
    by (auto simp: compute_def)
  note v' = engine_find_view_Inr[OF v]
  have "results_right E (features_by_name v) ek cx []" by (simp add: results_right_def)
  with compute_steps_right[OF f assms(2)] v' show ?thesis by (auto simp: dict_keys_def)
qed

section \<open>When a request succeeds\<close>

text \<open>
  Everything outside the engine works: sources load and are stamped, UDFs exist, return, and
  return values that hash. \<open>anchored\<close> asks of every feature an input that cannot be dropped.
\<close>

definition udf_total :: "engine_env \<Rightarrow> feature_def \<Rightarrow> bool" where
  "udf_total E f \<longleftrightarrow>
     (\<exists>u. map_of (en_udfs E) (f_udf f) = Some u
        \<and> (\<forall>sources deps. \<exists>v h. u sources deps = Inr v \<and> value_hash_of (en_hasher E) v = Inr h))"

definition anchored :: "feature_def \<Rightarrow> bool" where
  "anchored f \<longleftrightarrow> f_inputs f \<noteq> [] \<or> (\<exists>dep \<in> set (f_deps f). d_required dep)"

definition env_total :: "engine_env \<Rightarrow> (string, feature_def) dict \<Rightarrow> string set \<Rightarrow> bool" where
  "env_total E fbn S \<longleftrightarrow>
     aware (en_calc_ts E)
     \<and> (\<forall>s. \<exists>v. en_load E s = Inr v)
     \<and> (\<forall>n \<in> S. \<forall>f. map_of fbn n = Some f \<longrightarrow>
          udf_total E f \<and> anchored f
          \<and> (\<forall>src \<in> set (f_inputs f). \<exists>s. map_of (en_stamps E) src = Some s \<and> stamp_ok s)
          \<and> (\<forall>dep \<in> set (f_deps f). \<forall>age. d_max_age dep = Some age \<longrightarrow> age < 86400 * 1000000000))"

lemma read_sources_total:
  assumes "\<forall>s. \<exists>v. load s = Inr v"
  shows "\<exists>p. read_sources load names cx = Inr p"
proof -
  have "\<exists>p. fold_res (\<lambda>src (acc, cx). rbind (get_source load src cx) (\<lambda>(v, cx'). Inr (dict_set src v acc, cx')))
      names (a, cx) = Inr p" for a
  proof (induction names arbitrary: a cx)
    case (Cons n names)
    obtain w where "load n = Inr w" using assms by blast
    then obtain v cx1 where "get_source load n cx = Inr (v, cx1)"
      by (cases "map_of (cx_sources cx) n") (simp_all add: get_source_def)
    with Cons.IH show ?case by simp
  qed simp
  then show ?thesis by (simp add: read_sources_def)
qed

lemma availability_total: "\<exists>av avs. availability inputs = Inr (av, avs)"
  by (cases inputs) (auto simp: availability_def Let_def py_max_def)

lemma compute_node_total:
  assumes udf: "udf_total E f" and anch: "f_inputs f \<noteq> [] \<or> comps \<noteq> []"
    and src: "\<forall>src \<in> set (f_inputs f). \<exists>s. map_of (en_stamps E) src = Some s \<and> stamp_ok s"
    and comps: "\<forall>(d, k) \<in> set comps. map_of fbn d \<noteq> None \<and> aware (co_data_ts k)"
  shows "\<exists>c. compute_node E fbn f sources comps degraded = Inr c"
proof -
  obtain srcs where srcs: "map_res (source_input (en_stamps E)) (f_inputs f) = Inr srcs"
    using src map_res_total[of "f_inputs f" "source_input (en_stamps E)"]
    by (fastforce simp: source_input_def)
  obtain deps where deps: "map_res (dep_input fbn) comps = Inr deps"
    using comps map_res_total[of comps "dep_input fbn"] by (fastforce simp: dep_input_def)
  have "aware (ni_ts i)" if "i \<in> set srcs" for i
    using map_res_set[OF srcs that] src by (fastforce simp: source_input_def stamp_ok_def split: option.splits)
  moreover have "aware (ni_ts i)" if "i \<in> set deps" for i
    using map_res_set[OF deps that] comps by (fastforce simp: dep_input_def split: option.splits)
  ultimately have aw: "\<forall>x \<in> set (fp_inputs (srcs @ deps)). aware (fst (snd x))"
    by (auto simp: fp_inputs_def)
  obtain fp where fp: "input_fingerprint_of (en_hasher E) (fp_inputs (srcs @ deps)) = Inr fp"
    using fingerprint_total[OF aw] by blast
  have "length srcs = length (f_inputs f)" "length deps = length comps"
    using srcs deps by (simp_all add: map_res_length)
  with anch have ne: "srcs @ deps \<noteq> []" by auto
  obtain a where a: "py_min (map ni_ts (srcs @ deps)) = Inr a"
    using ne by (cases "srcs @ deps") (auto simp: py_min_def)
  obtain b where b: "py_max (map ni_ts (srcs @ deps)) = Inr b"
    using ne by (cases "srcs @ deps") (auto simp: py_max_def)
  obtain av avs where av: "availability (srcs @ deps) = Inr (av, avs)"
    using availability_total by blast
  from udf obtain u where u: "map_of (en_udfs E) (f_udf f) = Some u"
    "\<forall>sources deps. \<exists>v h. u sources deps = Inr v \<and> value_hash_of (en_hasher E) v = Inr h"
    by (auto simp: udf_total_def)
  then obtain v h where v: "u sources (map (\<lambda>(d, c). (d, co_value c)) comps) = Inr v"
    "value_hash_of (en_hasher E) v = Inr h" by blast
  show ?thesis
    using fp unfolding compute_node_def srcs deps rbind.simps Let_def udf_get_def u(1) option.case v a b av
    by (simp add: fp_inputs_def)
qed

definition base_ok :: "(string, feature_def) dict \<Rightarrow> (string \<rightharpoonup> computation) \<Rightarrow> bool" where
  "base_ok fbn B \<longleftrightarrow> (\<forall>n c. B n = Some c \<longrightarrow> map_of fbn n \<noteq> None \<and> aware (co_data_ts c))"

lemma ctx_ok_aware: "base_ok fbn B \<Longrightarrow> ctx_ok E fbn B cx \<Longrightarrow> feats cx n = Some c \<Longrightarrow> map_of fbn n \<noteq> None \<and> aware (co_data_ts c)"
  unfolding ctx_ok_def base_ok_def using node_right_fresh by (fastforce simp: node_fresh_def)

lemma edge_is_stale_total:
  assumes "aware (co_data_ts k)" "aware (en_calc_ts E)"
    "\<forall>age. d_max_age dep = Some age \<longrightarrow> age < 86400 * 1000000000"
  shows "\<exists>b. edge_is_stale dep (co_data_ts k) (en_calc_ts E) = Inr b"
  using assms by (cases "d_max_age dep") (simp_all add: edge_is_stale_def ex_bool_eq)

lemma resolve_complete:
  "ranked fbn cap rank \<Longrightarrow> plan_closed fbn S \<Longrightarrow> env_total E fbn S \<Longrightarrow> base_ok fbn B \<Longrightarrow> name \<in> S \<Longrightarrow>
     (\<forall>v \<in> set visiting. rank name < rank v) \<Longrightarrow> ctx_start E fbn B visiting cx \<Longrightarrow>
     \<exists>p. resolve E fbn visiting name cx = Inr p"
  "ranked fbn cap rank \<Longrightarrow> plan_closed fbn S \<Longrightarrow> env_total E fbn S \<Longrightarrow> base_ok fbn B \<Longrightarrow>
     (\<forall>dep \<in> set deps. d_feature dep \<in> S \<and> (\<forall>v \<in> set visiting. rank (d_feature dep) < rank v)
        \<and> (\<forall>age. d_max_age dep = Some age \<longrightarrow> age < 86400 * 1000000000)) \<Longrightarrow>
     ctx_start E fbn B visiting cx \<Longrightarrow> comps_in (feats cx) comps \<Longrightarrow> dict_wf comps \<Longrightarrow>
     \<exists>p. resolve_deps E fbn visiting name deps comps degraded cx = Inr p"
proof (induction E fbn visiting name cx and E fbn visiting name deps comps degraded cx
    rule: resolve_resolve_deps.induct)
  case (1 E fbn visiting name cx)
  show ?case
  proof (cases "feats cx name \<noteq> None \<or> is_skipped name cx")
    case True
    then show ?thesis by (auto simp: resolve.simps split: option.splits)
  next
    case False
    then have nc: "feats cx name = None" and ns: "\<not> is_skipped name cx" by auto
    from "1.prems"(2,5) obtain f where f: "map_of fbn name = Some f"
      and deps: "\<forall>dep \<in> set (f_deps f). d_feature dep \<in> S"
      unfolding plan_closed_def by blast
    have nv: "name \<notin> set visiting" using "1.prems"(6) by auto
    have envf: "udf_total E f" "anchored f"
      "\<forall>src \<in> set (f_inputs f). \<exists>s. map_of (en_stamps E) src = Some s \<and> stamp_ok s"
      "\<forall>dep \<in> set (f_deps f). \<forall>age. d_max_age dep = Some age \<longrightarrow> age < 86400 * 1000000000"
      and load: "\<forall>s. \<exists>v. en_load E s = Inr v"
      using "1.prems"(3,5) f unfolding env_total_def by blast+
    obtain sources cx1 where src: "read_sources (en_load E) (f_inputs f) cx = Inr (sources, cx1)"
      using read_sources_total[OF load] by (metis surj_pair)
    have same: "cx_features cx1 = cx_features cx" using read_sources_feats[OF src] by simp
    have start: "ctx_start E fbn B (visiting @ [name]) cx1"
      using "1.prems"(7) nc by (simp add: ctx_start_def ctx_ok_def same)
    have r: "rank (d_feature dep) < rank name" if "dep \<in> set (f_deps f)" for dep
      using "1.prems"(1) f that by (auto simp: ranked_def)
    have "\<forall>dep \<in> set (f_deps f). d_feature dep \<in> S \<and> (\<forall>v \<in> set (visiting @ [name]). rank (d_feature dep) < rank v)
        \<and> (\<forall>age. d_max_age dep = Some age \<longrightarrow> age < 86400 * 1000000000)"
      using deps r envf(4) "1.prems"(6) by fastforce
    from "1.IH"[OF nc ns f nv src refl "1.prems"(1-4) this start] obtain res cx2 where
      d: "resolve_deps E fbn (visiting @ [name]) name (f_deps f) [] False cx1 = Inr (res, cx2)"
      by (auto simp: comps_in_def dict_keys_def)
    have "\<exists>p. (case res of None \<Rightarrow> Inr (None, cx2)
        | Some (dep_comps, degraded) \<Rightarrow>
            rbind (compute_node E fbn f sources dep_comps degraded) (\<lambda>c.
            Inr (Some c, cache_feature name c cx2))) = Inr p"
    proof (cases res)
      case (Some q)
      obtain comps degraded where q: "q = (comps, degraded)" by (cases q)
      from resolve_sound(2)[OF d start] Some q have ok: "ctx_ok E fbn B cx2" "comps_in (feats cx2) comps"
        "dict_wf comps" "\<forall>dep \<in> set (f_deps f). edge_met E comps dep"
        by (auto simp: comps_in_def dict_keys_def ctx_step_def)
      have "f_inputs f \<noteq> [] \<or> comps \<noteq> []"
        using envf(2) ok(4) by (auto simp: anchored_def edge_met_def)
      moreover have "\<forall>(d, k) \<in> set comps. map_of fbn d \<noteq> None \<and> aware (co_data_ts k)"
        using ok(2,3) ctx_ok_aware[OF "1.prems"(4) ok(1)]
        by (auto simp: comps_in_def dict_keys_def map_of_eq_Some_iff)
      ultimately obtain c where "compute_node E fbn f sources comps degraded = Inr c"
        using compute_node_total[OF envf(1) _ envf(3)] by blast
      with Some q show ?thesis by simp
    qed simp
    with nc ns f nv src d show ?thesis by (simp add: resolve.simps[of E fbn visiting name cx])
  qed
next
  case (2 E fbn visiting name comps degraded cx)
  then show ?case by simp
next
  case (3 E fbn visiting name dep deps comps degraded cx)
  have dep: "d_feature dep \<in> S" "\<forall>v \<in> set visiting. rank (d_feature dep) < rank v"
    "\<forall>age. d_max_age dep = Some age \<longrightarrow> age < 86400 * 1000000000"
    and tail: "\<forall>dep \<in> set deps. d_feature dep \<in> S \<and> (\<forall>v \<in> set visiting. rank (d_feature dep) < rank v)
        \<and> (\<forall>age. d_max_age dep = Some age \<longrightarrow> age < 86400 * 1000000000)"
    using "3.prems"(5) by auto
  from "3.IH"(1)[OF "3.prems"(1-4) dep(1,2) "3.prems"(6)] obtain oc cx1 where
    d: "resolve E fbn visiting (d_feature dep) cx = Inr (oc, cx1)" by auto
  from resolve_sound(1)[OF d "3.prems"(6)] have step: "ctx_step E fbn B visiting cx cx1"
    and oc: "case oc of Some c \<Rightarrow> feats cx1 (d_feature dep) = Some c | None \<Rightarrow> is_skipped (d_feature dep) cx1"
    by auto
  note start1 = ctx_step_start[OF step]
  have in1: "comps_in (feats cx1) comps"
    using "3.prems"(7) step by (auto simp: ctx_step_def intro: comps_in_mono)
  show ?case
  proof (cases oc)
    case None
    show ?thesis
    proof (cases "d_required dep")
      case False
      from "3.IH"(2)[OF d refl None False "3.prems"(1-4) tail start1 in1 "3.prems"(8)] None False d
      show ?thesis by simp
    qed (use None d in simp)
  next
    case (Some c)
    have c1: "feats cx1 (d_feature dep) = Some c" using oc Some by simp
    have "aware (co_data_ts c)" "aware (en_calc_ts E)"
      using ctx_ok_aware[OF "3.prems"(4) _ c1] start1 "3.prems"(3) by (auto simp: ctx_start_def env_total_def)
    then obtain stale where stale: "edge_is_stale dep (co_data_ts c) (en_calc_ts E) = Inr stale"
      using edge_is_stale_total dep(3) by blast
    show ?thesis
    proof (cases "stale \<and> d_required dep")
      case False
      have "comps_in (feats cx1) (dict_set (d_feature dep) c comps)" "dict_wf (dict_set (d_feature dep) c comps)"
        using in1 c1 "3.prems"(8) by (simp_all add: comps_in_def)
      from "3.IH"(3)[OF d refl Some stale False "3.prems"(1-4) tail start1 this] Some False stale d
      show ?thesis by auto
    qed (use Some d stale in simp)
  qed
qed

text \<open>In a closed set of ranked features with valid stamps, availabilities are aware.\<close>

lemma available_aware:
  assumes "ranked fbn cap rank" "plan_closed fbn S" "env_total E fbn S" "ctx_ok E fbn Map.empty cx"
  shows "n \<in> S \<Longrightarrow> feats cx n = Some c \<Longrightarrow> aware_opt (co_available_at c)"
proof (induction "nat (rank n)" arbitrary: n c rule: less_induct)
  case less
  from assms(4) less.prems(2) obtain f where f: "map_of fbn n = Some f" "node_right E fbn (feats cx) f c"
    unfolding ctx_ok_def by fastforce
  from f(2) obtain sources comps degraded where
    node: "compute_node E fbn f sources comps degraded = Inr c"
    and comps: "dict_wf comps" "comps_in (feats cx) comps" "set (dict_keys comps) \<subseteq> d_feature ` set (f_deps f)"
    unfolding node_right_def by blast
  obtain srcs deps where
    srcs: "map_res (source_input (en_stamps E)) (f_inputs f) = Inr srcs"
    and deps: "map_res (dep_input fbn) comps = Inr deps"
    and meta: "node_meta (en_hasher E) (srcs @ deps) c"
    by (rule compute_nodeE[OF node]) (rule that, assumption+)
  have stamps: "\<forall>src \<in> set (f_inputs f). \<exists>s. map_of (en_stamps E) src = Some s \<and> stamp_ok s"
    using assms(3) less.prems(1) f(1) unfolding env_total_def by blast
  have 1: "aware_opt (ni_available i)" if i: "i \<in> set srcs" for i
  proof -
    from map_res_set[OF srcs i] obtain src where "src \<in> set (f_inputs f)" "source_input (en_stamps E) src = Inr i"
      by blast
    moreover from this stamps obtain s where "map_of (en_stamps E) src = Some s" "stamp_ok s" by blast
    ultimately show ?thesis by (auto simp: source_input_def stamp_ok_def)
  qed
  have 2: "aware_opt (ni_available i)" if i: "i \<in> set deps" for i
  proof -
    from map_res_set[OF deps i] obtain y where y: "y \<in> set comps" "dep_input fbn y = Inr i" by blast
    obtain m k where mk: "y = (m, k)" by (cases y)
    with y have k: "(m, k) \<in> set comps" "ni_available i = co_available_at k"
      by (auto simp: dep_input_def split: option.splits)
    then have "map_of comps m = Some k" using comps(1) by (simp add: dict_keys_def map_of_eq_Some_iff)
    with comps(2) have fk: "feats cx m = Some k" by (simp add: comps_in_def)
    from k(1) comps(3) obtain dep where dep: "dep \<in> set (f_deps f)" "d_feature dep = m"
      by (force simp: dict_keys_def)
    have mS: "m \<in> S" using assms(2) less.prems(1) f(1) dep unfolding plan_closed_def by fastforce
    then obtain g where "map_of fbn m = Some g" using assms(2) unfolding plan_closed_def by blast
    then have "rank m < rank n" "0 \<le> rank m" using assms(1) f(1) dep unfolding ranked_def by blast+
    then have "nat (rank m) < nat (rank n)" by simp
    from less.hyps[OF this mS fk] k(2) show ?thesis by simp
  qed
  have "availability (srcs @ deps) = Inr (co_available_at c, co_availability_source c)"
    using meta by (simp add: node_meta_def)
  from availability_Inr[OF this] 1 2 show ?case by (force split: option.splits)
qed

text \<open>
  A request for features in a closed, ranked set succeeds when everything outside works.
\<close>

lemma compute_step_total:
  assumes "ranked fbn cap rank" "plan_closed fbn S" "env_total E fbn S" "n \<in> S" "ctx_ok E fbn Map.empty cx"
  shows "\<exists>results' cx'. compute_step E fbn ek n (results, cx) = Inr (results', cx') \<and> ctx_ok E fbn Map.empty cx'
    \<and> (n \<in> set (dict_keys results') \<or> is_skipped n cx') \<and> set (dict_keys results) \<subseteq> set (dict_keys results')"
proof -
  have start: "ctx_start E fbn Map.empty [] cx" using assms(5) by (simp add: ctx_start_def)
  have "base_ok fbn Map.empty" by (simp add: base_ok_def)
  from resolve_complete(1)[OF assms(1-3) this assms(4) _ start] obtain oc cx' where
    r: "resolve E fbn [] n cx = Inr (oc, cx')" by auto
  from resolve_sound(1)[OF r start] have ok: "ctx_ok E fbn Map.empty cx'"
    and oc: "case oc of Some c \<Rightarrow> feats cx' n = Some c | None \<Rightarrow> is_skipped n cx'"
    by (auto simp: ctx_step_def)
  show ?thesis
  proof (cases oc)
    case None
    with r ok oc show ?thesis by (simp add: compute_step_def)
  next
    case (Some c)
    with oc have c: "feats cx' n = Some c" by simp
    obtain f where f: "map_of fbn n = Some f" using assms(2,4) unfolding plan_closed_def by blast
    obtain g where "node_right E fbn (feats cx') g c" using ok c unfolding ctx_ok_def by fastforce
    from node_right_fresh[OF this] have "aware (co_data_ts c)" "aware (co_max_input c)"
      by (auto simp: node_fresh_def)
    moreover have "aware_opt (co_available_at c)" by (rule available_aware[OF assms(1-3) ok assms(4) c])
    moreover have "aware (en_calc_ts E)" using assms(3) by (simp add: env_total_def)
    ultimately obtain x where "computation_result f ek (en_calc_ts E) c = Inr x"
      by (simp add: computation_result_def result_ok_def)
    with r Some f ok show ?thesis by (simp add: compute_step_def) auto
  qed
qed

lemma compute_total:
  assumes "ranked (features_by_name v) cap rank" "plan_closed (features_by_name v) S"
    "env_total E (features_by_name v) S" "engine_find_view (reg_views reg) view version = Inr v"
    "set requested \<subseteq> S"
  shows "\<exists>results cx. compute E reg view version ek requested empty_context = Inr (results, cx)"
proof -
  have "\<exists>results' cx'. fold_res (compute_step E (features_by_name v) ek) requested (results, cx) = Inr (results', cx')"
    if "ctx_ok E (features_by_name v) Map.empty cx" for results cx
    using that assms(5)
  proof (induction requested arbitrary: results cx)
    case (Cons n ns)
    from Cons.prems(2) have "n \<in> S" by simp
    from compute_step_total[OF assms(1-3) this Cons.prems(1)] obtain results1 cx1 where
      "compute_step E (features_by_name v) ek n (results, cx) = Inr (results1, cx1)"
      "ctx_ok E (features_by_name v) Map.empty cx1" by blast
    with Cons show ?case by simp
  qed simp
  then show ?thesis using assms(4) by (simp add: compute_def)
qed

section \<open>A feature without firm inputs\<close>

text \<open>
  When every dependency is optional and skipped and no source is read, the node has no input
  timestamp and the minimum raises.
\<close>

lemma all_skipped_deps:
  assumes "\<forall>dep \<in> set deps. \<not> d_required dep \<and> feats cx (d_feature dep) = None \<and> is_skipped (d_feature dep) cx"
  shows "\<exists>degraded'. resolve_deps E fbn visiting name deps comps degraded cx = Inr (Some (comps, degraded'), cx)"
  using assms
proof (induction deps arbitrary: degraded)
  case (Cons dep deps)
  then have "resolve E fbn visiting (d_feature dep) cx = Inr (None, cx)" by (simp add: resolve.simps)
  with Cons show ?case by simp
qed simp

lemma optional_only_raises:
  assumes "map_of fbn name = Some f" "feats cx name = None" "\<not> is_skipped name cx" "f_inputs f = []"
    "\<forall>dep \<in> set (f_deps f). \<not> d_required dep \<and> feats cx (d_feature dep) = None \<and> is_skipped (d_feature dep) cx"
    "map_of (en_udfs E) (f_udf f) = Some u" "u [] [] = Inr v"
  shows "resolve E fbn [] name cx = Inl (ValueError ''min() arg is an empty sequence'')"
proof -
  have s: "read_sources (en_load E) (f_inputs f) cx = Inr ([], cx)" by (simp add: assms(4) read_sources_def)
  obtain degraded where d: "resolve_deps E fbn [name] name (f_deps f) [] False cx = Inr (Some ([], degraded), cx)"
    using all_skipped_deps[OF assms(5)] by blast
  have "compute_node E fbn f [] [] degraded = Inl (ValueError ''min() arg is an empty sequence'')"
    by (simp add: compute_node_def assms(4,6,7) udf_get_def py_min_def)
  with s d assms(1-3) show ?thesis by (simp add: resolve.simps[of E fbn "[]" name cx])
qed

end
