(* ===== verification/Pit.thy ===== *)
theory Pit
  imports Models
begin

text \<open>
  Point-in-time eligibility (fs_core/pit.py): the leakage rule that the training builder and
  both offline stores share, and what its selection loop returns.
\<close>

section \<open>The rule\<close>

record offline_record =
  or_view :: string
  or_view_version :: int
  or_result :: feature_result

text \<open>
  The cutoff \<^verbatim>\<open>observation_ts - safety_gap\<close>, as the instant of the datetime that the
  code returns; the subtraction raises when the wall clock would leave year 1.
\<close>

definition wall_min :: int where
  "wall_min = (1 - 719163) * us_per_day"

definition effective_data_cutoff :: "datetime \<Rightarrow> timedelta \<Rightarrow> int res" where
  "effective_data_cutoff observation_ts safety_gap =
     rbind (require_aware observation_ts) (\<lambda>_.
     rbind (require (0 \<le> safety_gap) (ValueError ''safety_gap must be non-negative'')) (\<lambda>_.
     rbind (require (wall_min \<le> wall_us observation_ts - safety_gap)
              (OverflowError ''date value out of range'')) (\<lambda>_.
     Inr (instant observation_ts - safety_gap))))"

definition not_after :: "datetime \<Rightarrow> int \<Rightarrow> bool res" where
  "not_after d t =
     rbind (require (aware d) (TypeError ''can't compare offset-naive and offset-aware datetimes''))
       (\<lambda>_. Inr (instant d \<le> t))"

definition effective_available :: "feature_result \<Rightarrow> datetime" where
  "effective_available r = (case r_available_at r of Some t \<Rightarrow> t | None \<Rightarrow> r_calc_ts r)"

definition is_pit_eligible :: "offline_record \<Rightarrow> datetime \<Rightarrow> timedelta \<Rightarrow> bool res" where
  "is_pit_eligible rec observation_ts safety_gap =
     rbind (effective_data_cutoff observation_ts safety_gap) (\<lambda>cutoff.
     let result = or_result rec in
     rbind (not_after (r_data_ts result) cutoff) (\<lambda>ok.
     if \<not> ok then Inr False
     else dt_compare (\<le>) (effective_available result) observation_ts))"

definition pit_key :: "offline_record \<Rightarrow> int \<times> int" where
  "pit_key rec = (instant (r_data_ts (or_result rec)), instant (r_calc_ts (or_result rec)))"

text \<open>One round of the loop: the selected record so far and the count of future records.\<close>

definition pit_step ::
    "datetime \<Rightarrow> timedelta \<Rightarrow> offline_record \<Rightarrow> offline_record option \<times> nat
      \<Rightarrow> (offline_record option \<times> nat) res" where
  "pit_step observation_ts safety_gap rec acc =
     (case acc of (selected, ignored) \<Rightarrow>
     rbind (dt_compare (>) (r_data_ts (or_result rec)) observation_ts) (\<lambda>future.
     let ignored' = (if future then ignored + 1 else ignored) in
     rbind (is_pit_eligible rec observation_ts safety_gap) (\<lambda>eligible.
     if \<not> eligible then Inr (selected, ignored')
     else case selected of
        None \<Rightarrow> Inr (Some rec, ignored')
      | Some sel \<Rightarrow>
          if pit_key rec \<ge> pit_key sel then Inr (Some rec, ignored') else Inr (selected, ignored'))))"

definition select_pit ::
    "offline_record list \<Rightarrow> datetime \<Rightarrow> timedelta \<Rightarrow> (offline_record option \<times> nat) res" where
  "select_pit records observation_ts safety_gap =
     fold_res (pit_step observation_ts safety_gap) records (None, 0)"

section \<open>What the loop returns\<close>

text \<open>The rule as a predicate: both clocks, without the error paths.\<close>

definition pit_allowed :: "datetime \<Rightarrow> timedelta \<Rightarrow> feature_result \<Rightarrow> bool" where
  "pit_allowed observation_ts safety_gap r \<longleftrightarrow>
     instant (r_data_ts r) \<le> instant observation_ts - safety_gap
     \<and> instant (effective_available r) \<le> instant observation_ts"

definition pit_args_ok :: "datetime \<Rightarrow> timedelta \<Rightarrow> bool" where
  "pit_args_ok observation_ts safety_gap \<longleftrightarrow>
     aware observation_ts \<and> 0 \<le> safety_gap \<and> wall_min \<le> wall_us observation_ts - safety_gap"

abbreviation records_ok :: "offline_record list \<Rightarrow> bool" where
  "records_ok records \<equiv> (\<forall>rec \<in> set records. result_ok (or_result rec))"

lemma effective_available_aware: "result_ok r \<Longrightarrow> aware (effective_available r)"
  by (auto simp: result_ok_def effective_available_def split: option.splits)

lemma effective_data_cutoff_Inr [simp]:
  "effective_data_cutoff obs gap = Inr c \<longleftrightarrow> pit_args_ok obs gap \<and> c = instant obs - gap"
  by (auto simp: effective_data_cutoff_def pit_args_ok_def)

lemma pit_args_cutoff: "pit_args_ok obs gap \<Longrightarrow> effective_data_cutoff obs gap = Inr (instant obs - gap)"
  by simp

lemma is_pit_eligible_ok:
  assumes "result_ok (or_result rec)" "pit_args_ok obs gap"
  shows "is_pit_eligible rec obs gap = Inr (pit_allowed obs gap (or_result rec))"
  using assms effective_available_aware[OF assms(1)]
  by (simp add: is_pit_eligible_def pit_args_cutoff not_after_def Let_def pit_allowed_def
      result_ok_def pit_args_ok_def)

lemma pit_step_ok:
  assumes "result_ok (or_result rec)" "pit_args_ok obs gap"
  shows "pit_step obs gap rec (sel, n) =
    Inr (if pit_allowed obs gap (or_result rec) then latest_from pit_key sel [rec] else sel,
         if instant obs < instant (r_data_ts (or_result rec)) then n + 1 else n)"
  using assms
  by (auto simp: pit_step_def is_pit_eligible_ok Let_def result_ok_def pit_args_ok_def split: option.splits)

lemma fold_pit_step:
  assumes "records_ok records" "pit_args_ok obs gap"
  shows "fold_res (pit_step obs gap) records (sel, n) =
    Inr (latest_from pit_key sel (filter (\<lambda>rec. pit_allowed obs gap (or_result rec)) records),
         n + length (filter (\<lambda>rec. instant obs < instant (r_data_ts (or_result rec))) records))"
  using assms(1)
proof (induction records arbitrary: sel n)
  case (Cons rec records)
  then show ?case using assms(2) by (simp add: pit_step_ok)
qed simp

lemma select_pit_ok:
  assumes "records_ok records" "pit_args_ok obs gap"
  shows "select_pit records obs gap =
    Inr (latest_from pit_key None (filter (\<lambda>rec. pit_allowed obs gap (or_result rec)) records),
         length (filter (\<lambda>rec. instant obs < instant (r_data_ts (or_result rec))) records))"
  by (simp add: select_pit_def fold_pit_step[OF assms])

text \<open>
  Bad arguments never select anything: with at least one record they raise, and an empty
  history returns nothing whatever the arguments.
\<close>

lemma pit_step_args:
  assumes "pit_step obs gap rec acc = Inr acc'"
  shows "pit_args_ok obs gap"
  using assms by (cases acc) (auto simp: pit_step_def is_pit_eligible_def Let_def)

lemma select_pit_args:
  assumes "select_pit records obs gap = Inr (sel, n)" "records \<noteq> []"
  shows "pit_args_ok obs gap"
  using assms pit_step_args by (cases records) (auto simp: select_pit_def)

lemma select_pit_nil [simp]: "select_pit [] obs gap = Inr (None, 0)"
  by (simp add: select_pit_def)

lemma select_pit_selected:
  assumes "records_ok records" "select_pit records obs gap = Inr (Some rec, n)"
  shows "rec \<in> set records" "pit_allowed obs gap (or_result rec)"
    "\<And>x. x \<in> set records \<Longrightarrow> pit_allowed obs gap (or_result x) \<Longrightarrow> pit_key x \<le> pit_key rec"
proof -
  have "records \<noteq> []" using assms(2) by auto
  from select_pit_ok[OF assms(1) select_pit_args[OF assms(2) this]] assms(2)
  have l: "latest_from pit_key None (filter (\<lambda>rec. pit_allowed obs gap (or_result rec)) records) = Some rec"
    by simp
  from latest_from_max[OF l] show "rec \<in> set records" "pit_allowed obs gap (or_result rec)"
    "\<And>x. x \<in> set records \<Longrightarrow> pit_allowed obs gap (or_result x) \<Longrightarrow> pit_key x \<le> pit_key rec"
    by auto
qed

lemma select_pit_None:
  assumes "records_ok records" "select_pit records obs gap = Inr (None, n)" "rec \<in> set records"
  shows "\<not> pit_allowed obs gap (or_result rec)"
proof -
  have "records \<noteq> []" using assms(3) by auto
  from select_pit_ok[OF assms(1) select_pit_args[OF assms(2) this]] assms(2)
  have "latest_from pit_key None (filter (\<lambda>rec. pit_allowed obs gap (or_result rec)) records) = None"
    by simp
  with assms(3) show ?thesis by (simp add: latest_from_None_iff filter_empty_conv)
qed

text \<open>The selected record is the last of the allowed ones with the greatest key.\<close>

lemma select_pit_split:
  assumes "records_ok records" "select_pit records obs gap = Inr (Some rec, n)"
  shows "\<exists>pre post. records = pre @ rec # post \<and> pit_allowed obs gap (or_result rec)
    \<and> (\<forall>x \<in> set pre. pit_allowed obs gap (or_result x) \<longrightarrow> pit_key x \<le> pit_key rec)
    \<and> (\<forall>x \<in> set post. pit_allowed obs gap (or_result x) \<longrightarrow> pit_key x < pit_key rec)"
proof -
  let ?Q = "\<lambda>rec. pit_allowed obs gap (or_result rec)"
  have "records \<noteq> []" using assms(2) by auto
  from select_pit_ok[OF assms(1) select_pit_args[OF assms(2) this]] assms(2)
  have l: "latest_from pit_key None (filter ?Q records) = Some rec" by simp
  from latest_from_split[OF l] obtain pre post where s: "filter ?Q records = pre @ rec # post"
    "\<forall>y \<in> set pre. pit_key y \<le> pit_key rec" "\<forall>y \<in> set post. pit_key y < pit_key rec" by blast
  from filter_split[OF s(1)] obtain us vs where "records = us @ rec # vs" "?Q rec"
    "filter ?Q us = pre" "filter ?Q vs = post" by blast
  with s(2,3) show ?thesis by (intro exI[of _ us] exI[of _ vs]) auto
qed

lemma select_pit_count:
  assumes "records_ok records" "select_pit records obs gap = Inr (sel, n)"
  shows "n = length (filter (\<lambda>rec. instant obs < instant (r_data_ts (or_result rec))) records)"
proof (cases "records = []")
  case False
  from select_pit_ok[OF assms(1) select_pit_args[OF assms(2) this]] assms(2) show ?thesis by simp
qed (use assms(2) in simp)

end
