(* ===== verification/OfflineStore.thy ===== *)
theory OfflineStore
  imports Pit
begin

text \<open>
  The in-memory offline store (fs_core/stores/offline.py) and the contract of an offline
  store, as a locale: an append-only history that lookups filter in append order, and a
  point-in-time read that is the shared rule on that history.
\<close>

section \<open>The contract\<close>

text \<open>An omitted filter argument is None.\<close>

definition filter_ok :: "'a option \<Rightarrow> 'a \<Rightarrow> bool" where
  "filter_ok wanted x \<longleftrightarrow> (case wanted of None \<Rightarrow> True | Some w \<Rightarrow> x = w)"

definition offline_match ::
    "entity_key \<Rightarrow> string option \<Rightarrow> int option \<Rightarrow> string option \<Rightarrow> int option \<Rightarrow> offline_record \<Rightarrow> bool" where
  "offline_match ek name version view view_version rec \<longleftrightarrow>
     r_entity_key (or_result rec) = ek
     \<and> filter_ok name (fr_name (r_ref (or_result rec)))
     \<and> filter_ok version (fr_version (r_ref (or_result rec)))
     \<and> filter_ok view (or_view rec) \<and> filter_ok view_version (or_view_version rec)"

type_synonym offline_get_fn =
  "entity_key \<Rightarrow> string option \<Rightarrow> int option \<Rightarrow> string option \<Rightarrow> int option \<Rightarrow> offline_record list res"

definition offline_rec :: "string \<Rightarrow> int \<Rightarrow> feature_result \<Rightarrow> offline_record" where
  "offline_rec view version r = \<lparr>or_view = view, or_view_version = version, or_result = r\<rparr>"

text \<open>
  \<open>inv\<close> is the store's invariant, \<open>adm\<close> says which results it accepts, \<open>proj\<close> what a
  result becomes when it is read back.
\<close>

locale offline_store =
  fixes inv :: "'s \<Rightarrow> bool"
    and adm :: "'s \<Rightarrow> string \<Rightarrow> int \<Rightarrow> feature_result \<Rightarrow> bool"
    and proj :: "feature_result \<Rightarrow> feature_result"
    and append :: "'s \<Rightarrow> string \<Rightarrow> int \<Rightarrow> feature_result \<Rightarrow> 's res"
    and get :: "'s \<Rightarrow> offline_get_fn"
    and get_pit :: "'s \<Rightarrow> entity_key \<Rightarrow> string \<Rightarrow> int \<Rightarrow> string \<Rightarrow> int \<Rightarrow> datetime \<Rightarrow> timedelta
      \<Rightarrow> offline_record option res"
  assumes get_ok: "inv s \<Longrightarrow> ek_valid ek \<Longrightarrow>
      \<exists>rs. get s ek name version view view_version = Inr rs
         \<and> (\<forall>rec \<in> set rs. result_ok (or_result rec) \<and> offline_match ek name version view view_version rec)"
    and append_ok: "inv s \<Longrightarrow> adm s w wv r \<Longrightarrow>
      \<exists>s'. append s w wv r = Inr s' \<and> inv s' \<and> (\<forall>w' wv' r'. adm s w' wv' r' \<longrightarrow> adm s' w' wv' r')
         \<and> (\<forall>ek name version view view_version. ek_valid ek \<longrightarrow>
              get s' ek name version view view_version =
              rbind (get s ek name version view view_version) (\<lambda>rs.
              Inr (rs @ filter (offline_match ek name version view view_version)
                         [offline_rec w wv (proj r)])))"
    and get_pit_ok: "inv s \<Longrightarrow> ek_valid ek \<Longrightarrow> pit_args_ok obs gap \<Longrightarrow>
      get_pit s ek fname fversion w wv obs gap =
      rbind (get s ek (Some fname) (Some fversion) (Some w) (Some wv)) (\<lambda>rs.
      rbind (select_pit rs obs gap) (\<lambda>(sel, n). Inr sel))"
    and adm_valid: "adm s w wv r \<Longrightarrow> ek_valid (r_entity_key r) \<and> result_ok r
      \<and> (self_equal (r_value r) \<longrightarrow> py_eq (r_value (proj r)) (r_value r))"
    and proj_same: "r_entity_key (proj r) = r_entity_key r" "r_ref (proj r) = r_ref r"
      "r_input_fingerprint (proj r) = r_input_fingerprint r"
      "r_availability_source (proj r) = r_availability_source r"
    and proj_times: "adm s w wv r \<Longrightarrow> dt_eq (r_data_ts (proj r)) (r_data_ts r)
      \<and> opt_dt_eq (r_available_at (proj r)) (r_available_at r)"
begin

text \<open>\<^verbatim>\<open>append_many\<close> as a loop of appends.\<close>

definition append_all :: "'s \<Rightarrow> string \<Rightarrow> int \<Rightarrow> feature_result list \<Rightarrow> 's res" where
  "append_all s w wv rs = fold_res (\<lambda>r s. append s w wv r) rs s"

text \<open>A run of appends extends every lookup by the matching new records, in order.\<close>

lemma append_all_get:
  assumes "inv s" "\<forall>r \<in> set rs. adm s w wv r"
  shows "\<exists>s'. append_all s w wv rs = Inr s' \<and> inv s' \<and> (\<forall>w' wv' r'. adm s w' wv' r' \<longrightarrow> adm s' w' wv' r')
    \<and> (\<forall>ek name version view view_version. ek_valid ek \<longrightarrow>
        get s' ek name version view view_version =
        rbind (get s ek name version view view_version) (\<lambda>old.
        Inr (old @ filter (offline_match ek name version view view_version)
                    (map (\<lambda>r. offline_rec w wv (proj r)) rs))))"
  using assms
proof (induction rs arbitrary: s)
  case Nil
  have "rbind m (\<lambda>old. Inr (old @ [])) = m" for m :: "offline_record list res" by (cases m) simp_all
  with Nil show ?case by (simp add: append_all_def)
next
  case (Cons r rs)
  have "adm s w wv r" using Cons.prems(2) by simp
  from append_ok[OF Cons.prems(1) this] obtain s1 where s1: "append s w wv r = Inr s1" "inv s1"
    and mono: "\<And>w' wv' r'. adm s w' wv' r' \<Longrightarrow> adm s1 w' wv' r'"
    and g1: "\<And>ek name version view view_version. ek_valid ek \<Longrightarrow>
      get s1 ek name version view view_version =
        rbind (get s ek name version view view_version) (\<lambda>rs.
        Inr (rs @ filter (offline_match ek name version view view_version)
                   [offline_rec w wv (proj r)]))"
    by blast
  have "\<forall>r \<in> set rs. adm s1 w wv r" using Cons.prems(2) mono by simp
  from Cons.IH[OF s1(2) this] obtain s2 where s2: "append_all s1 w wv rs = Inr s2" "inv s2"
    "\<And>w' wv' r'. adm s1 w' wv' r' \<Longrightarrow> adm s2 w' wv' r'"
    and g2: "\<And>ek name version view view_version. ek_valid ek \<Longrightarrow>
      get s2 ek name version view view_version =
        rbind (get s1 ek name version view view_version) (\<lambda>old.
        Inr (old @ filter (offline_match ek name version view view_version)
                    (map (\<lambda>r. offline_rec w wv (proj r)) rs)))"
    by blast
  have "get s2 ek name version view view_version =
        rbind (get s ek name version view view_version) (\<lambda>old.
        Inr (old @ filter (offline_match ek name version view view_version)
                    (map (\<lambda>r. offline_rec w wv (proj r)) (r # rs))))"
    if "ek_valid ek" for ek name version view view_version
    unfolding g2[OF that] g1[OF that] rbind_assoc by simp
  with s1 s2 mono show ?case by (intro exI[of _ s2]) (simp add: append_all_def)
qed

text \<open>Point-in-time reads select by the shared rule, in every store that meets the contract.\<close>

lemma get_pit_selected:
  assumes "inv s" "ek_valid ek" "pit_args_ok obs gap"
    "get_pit s ek fname fversion w wv obs gap = Inr (Some rec)"
  shows "offline_match ek (Some fname) (Some fversion) (Some w) (Some wv) rec"
    "pit_allowed obs gap (or_result rec)" "result_ok (or_result rec)"
proof -
  obtain rs where rs: "get s ek (Some fname) (Some fversion) (Some w) (Some wv) = Inr rs"
    "\<And>rec. rec \<in> set rs \<Longrightarrow> result_ok (or_result rec) \<and> offline_match ek (Some fname) (Some fversion) (Some w) (Some wv) rec"
    using get_ok[OF assms(1,2)] by blast
  from assms(4) get_pit_ok[OF assms(1-3)] rs(1) obtain n where
    sel: "select_pit rs obs gap = Inr (Some rec, n)" by auto
  have ok: "records_ok rs" using rs(2) by blast
  from select_pit_selected(1,2)[OF ok sel] rs(2)
  show "offline_match ek (Some fname) (Some fversion) (Some w) (Some wv) rec"
    "pit_allowed obs gap (or_result rec)" "result_ok (or_result rec)" by blast+
qed

end

section \<open>The in-memory store\<close>

type_synonym offline_mem = "offline_record list"

definition mem_append :: "offline_mem \<Rightarrow> string \<Rightarrow> int \<Rightarrow> feature_result \<Rightarrow> offline_mem" where
  "mem_append hist view version r = hist @ [offline_rec view version r]"

definition mem_append_many :: "offline_mem \<Rightarrow> string \<Rightarrow> int \<Rightarrow> feature_result list \<Rightarrow> offline_mem" where
  "mem_append_many hist view version rs = fold (\<lambda>r h. mem_append h view version r) rs hist"

text \<open>The lookup compares encoded keys.\<close>

definition mem_offline_get :: "offline_mem \<Rightarrow> offline_get_fn" where
  "mem_offline_get hist ek name version view view_version =
     Inr (filter (\<lambda>rec.
       ek_text (r_entity_key (or_result rec)) = ek_text ek
       \<and> filter_ok name (fr_name (r_ref (or_result rec)))
       \<and> filter_ok version (fr_version (r_ref (or_result rec)))
       \<and> filter_ok view (or_view rec) \<and> filter_ok view_version (or_view_version rec)) hist)"

definition mem_get_pit ::
    "offline_mem \<Rightarrow> entity_key \<Rightarrow> string \<Rightarrow> int \<Rightarrow> string \<Rightarrow> int \<Rightarrow> datetime \<Rightarrow> timedelta
      \<Rightarrow> offline_record option res" where
  "mem_get_pit hist ek fname fversion view version observation_ts safety_gap =
     rbind (mem_offline_get hist ek (Some fname) (Some fversion) (Some view) (Some version)) (\<lambda>records.
     rbind (select_pit records observation_ts safety_gap) (\<lambda>(selected, ignored). Inr selected))"

definition mem_hist_ok :: "offline_mem \<Rightarrow> bool" where
  "mem_hist_ok hist \<longleftrightarrow>
     (\<forall>rec \<in> set hist. result_ok (or_result rec) \<and> ek_valid (r_entity_key (or_result rec)))"

definition mem_result_adm :: "offline_mem \<Rightarrow> string \<Rightarrow> int \<Rightarrow> feature_result \<Rightarrow> bool" where
  "mem_result_adm hist view version r \<longleftrightarrow> result_ok r \<and> ek_valid (r_entity_key r)"

lemma mem_offline_get_match:
  assumes "mem_hist_ok hist" "ek_valid ek"
  shows "mem_offline_get hist ek name version view view_version
    = Inr (filter (offline_match ek name version view view_version) hist)"
proof -
  have "ek_text (r_entity_key (or_result rec)) = ek_text ek \<longleftrightarrow> r_entity_key (or_result rec) = ek"
    if "rec \<in> set hist" for rec
    using that assms ek_text_inj by (auto simp: mem_hist_ok_def)
  then show ?thesis
    unfolding mem_offline_get_def by (auto intro!: filter_cong simp: offline_match_def)
qed

lemma mem_append_hist_ok:
  "mem_hist_ok hist \<Longrightarrow> mem_result_adm hist view version r \<Longrightarrow> mem_hist_ok (mem_append hist view version r)"
  by (auto simp: mem_hist_ok_def mem_result_adm_def mem_append_def offline_rec_def)

interpretation memoff: offline_store mem_hist_ok mem_result_adm "\<lambda>r. r"
  "\<lambda>s w wv r. Inr (mem_append s w wv r)" mem_offline_get mem_get_pit
proof unfold_locales
  fix s w wv r
  assume inv: "mem_hist_ok s" and adm: "mem_result_adm s w wv r"
  note inv' = mem_append_hist_ok[OF inv adm]
  show "\<exists>s'. Inr (mem_append s w wv r) = Inr s' \<and> mem_hist_ok s'
      \<and> (\<forall>w' wv' r'. mem_result_adm s w' wv' r' \<longrightarrow> mem_result_adm s' w' wv' r')
      \<and> (\<forall>ek name version view view_version. ek_valid ek \<longrightarrow>
           mem_offline_get s' ek name version view view_version =
           rbind (mem_offline_get s ek name version view view_version) (\<lambda>rs.
           Inr (rs @ filter (offline_match ek name version view view_version) [offline_rec w wv r])))"
    by (auto simp: inv' mem_offline_get_match[OF inv] mem_offline_get_match[OF inv'])
      (auto simp: mem_result_adm_def mem_append_def)
next
  fix s ek name version view view_version
  assume "mem_hist_ok s" "ek_valid ek"
  then show "\<exists>rs. mem_offline_get s ek name version view view_version = Inr rs
      \<and> (\<forall>rec \<in> set rs. result_ok (or_result rec) \<and> offline_match ek name version view view_version rec)"
    by (auto simp: mem_offline_get_match mem_hist_ok_def)
qed (auto simp: mem_get_pit_def mem_result_adm_def py_eq_refl)

lemma mem_append_many_hist: "mem_append_many hist view version rs = hist @ map (offline_rec view version) rs"
  by (induction rs arbitrary: hist) (simp_all add: mem_append_many_def mem_append_def)

end
