(* ===== verification/PostgresOffline.thy ===== *)
theory PostgresOffline
  imports OfflineStore
begin

text \<open>
  The Postgres offline store (fs_core/stores/postgres_offline.py): rows of
  \<^verbatim>\<open>features_offline\<close>, the inserts, and the two queries as SQL evaluates them. It meets the
  offline-store contract; its ordered query selects what the Python loop selects.
\<close>

section \<open>The table\<close>

text \<open>A \<^verbatim>\<open>TIMESTAMPTZ\<close> column holds an instant; \<^verbatim>\<open>row_id\<close> is a sequence number.\<close>

record pg_row =
  row_id :: nat
  c_entity_key :: "(string \<times> string) list"
  c_entity_key_encoded :: string
  c_view :: string
  c_view_version :: int
  c_feature_name :: string
  c_feature_version :: int
  c_value_json :: json
  c_data_ts :: int
  c_calc_ts :: int
  c_max_input_data_ts :: "int option"
  c_input_fingerprint :: "string option"
  c_value_hash :: "string option"
  c_model_uri :: "string option"
  c_model_digest :: "string option"
  c_model_output_name :: "string option"
  c_bundle_digest :: "string option"
  c_available_at :: "int option"
  c_availability_source :: "string option"

record pg_table =
  t_rows :: "pg_row list"
  t_next :: nat

text \<open>
  The server and its driver, a parameter: the instant a timestamp parameter denotes, the
  datetime a column is read as, the \<^verbatim>\<open>jsonb\<close> normal form of a value (None: rejected),
  which rows satisfy the column types, and Python's float rendering.
\<close>

record pg =
  pg_instant :: "datetime \<Rightarrow> int"
  pg_datetime :: "int \<Rightarrow> datetime"
  pg_jsonb :: "json \<Rightarrow> json option"
  pg_accepts :: "pg_row \<Rightarrow> bool"
  pg_repr :: "pyfloat \<Rightarrow> string"

text \<open>
  What psycopg documents of \<^verbatim>\<open>TIMESTAMPTZ\<close>: an aware datetime is sent as its instant, and a
  column is read as an aware datetime of that instant.
\<close>

definition pg_laws :: "pg \<Rightarrow> bool" where
  "pg_laws P \<longleftrightarrow>
     (\<forall>d. aware d \<longrightarrow> pg_instant P d = instant d)
     \<and> (\<forall>i. aware (pg_datetime P i) \<and> instant (pg_datetime P i) = i)"

section \<open>Operations\<close>

definition pg_style :: dumps_style where
  "pg_style = \<lparr>item_sep = '', '', key_sep = '': '', ensure_ascii = True, allow_nan = True,
     default_str = False\<rparr>"

definition dump_value :: "pg \<Rightarrow> json \<Rightarrow> json res" where
  "dump_value P v =
     (case json_dumps (pg_repr P) pg_style v of
        Inr _ \<Rightarrow> Inr v
      | Inl _ \<Rightarrow> Inl (ValueError ''feature value is not JSON-serializable''))"

definition result_to_params :: "pg \<Rightarrow> string \<Rightarrow> int \<Rightarrow> feature_result \<Rightarrow> pg_row res" where
  "result_to_params P view view_version r =
     rbind (dump_value P (r_value r)) (\<lambda>v.
     Inr \<lparr>row_id = 0, c_entity_key = ek_parts (r_entity_key r),
       c_entity_key_encoded = ek_text (r_entity_key r), c_view = view, c_view_version = view_version,
       c_feature_name = fr_name (r_ref r), c_feature_version = fr_version (r_ref r), c_value_json = v,
       c_data_ts = pg_instant P (r_data_ts r), c_calc_ts = pg_instant P (r_calc_ts r),
       c_max_input_data_ts = map_option (pg_instant P) (r_max_input_data_ts r),
       c_input_fingerprint = r_input_fingerprint r, c_value_hash = r_value_hash r,
       c_model_uri = r_model_uri r, c_model_digest = r_model_digest r,
       c_model_output_name = r_model_output_name r, c_bundle_digest = r_bundle_digest r,
       c_available_at = map_option (pg_instant P) (r_available_at r),
       c_availability_source = r_availability_source r\<rparr>)"

text \<open>The server stores one row: \<^verbatim>\<open>jsonb\<close> conversion, type check, next \<^verbatim>\<open>row_id\<close>.\<close>

definition pg_insert :: "pg \<Rightarrow> pg_row \<Rightarrow> pg_table \<Rightarrow> pg_table res" where
  "pg_insert P row t =
     (case pg_jsonb P (c_value_json row) of
        None \<Rightarrow> Inl (StoreError ''invalid input syntax for type json'')
      | Some v \<Rightarrow>
          let row' = row\<lparr>row_id := t_next t, c_value_json := v\<rparr> in
          if pg_accepts P row' then Inr (t\<lparr>t_rows := t_rows t @ [row'], t_next := Suc (t_next t)\<rparr>)
          else Inl (StoreError ''row rejected''))"

definition pg_append :: "pg \<Rightarrow> pg_table \<Rightarrow> string \<Rightarrow> int \<Rightarrow> feature_result \<Rightarrow> pg_table res" where
  "pg_append P t view view_version r =
     rbind (result_to_params P view view_version r) (\<lambda>row. pg_insert P row t)"

text \<open>One COPY in one transaction: all rows are built first, and an error stores nothing.\<close>

definition pg_append_many ::
    "pg \<Rightarrow> pg_table \<Rightarrow> string \<Rightarrow> int \<Rightarrow> feature_result list \<Rightarrow> pg_table res" where
  "pg_append_many P t view view_version rs =
     rbind (map_res (result_to_params P view view_version) rs) (\<lambda>rows.
     fold_res (pg_insert P) rows t)"

definition row_to_record :: "pg \<Rightarrow> pg_row \<Rightarrow> offline_record res" where
  "row_to_record P row =
     (case rbind (mk_entity_key (c_entity_key row)) (\<lambda>ek.
           rbind (mk_feature_ref (c_feature_name row) (c_feature_version row)) (\<lambda>ref.
           rbind (mk_feature_result
             \<lparr>r_ref = ref, r_entity_key = ek, r_value = c_value_json row,
              r_data_ts = pg_datetime P (c_data_ts row), r_calc_ts = pg_datetime P (c_calc_ts row),
              r_max_input_data_ts = map_option (pg_datetime P) (c_max_input_data_ts row),
              r_input_fingerprint = c_input_fingerprint row, r_value_hash = c_value_hash row,
              r_available_at = map_option (pg_datetime P) (c_available_at row),
              r_availability_source = c_availability_source row, r_model_uri = c_model_uri row,
              r_model_digest = c_model_digest row, r_model_output_name = c_model_output_name row,
              r_bundle_digest = c_bundle_digest row\<rparr>) (\<lambda>r.
           Inr (offline_rec (c_view row) (c_view_version row) r)))) of
        Inr rec \<Rightarrow> Inr rec
      | Inl _ \<Rightarrow> Inl (ValueError ''malformed features_offline row''))"

text \<open>The WHERE clause of \<^verbatim>\<open>get\<close>: a condition per argument that is not None.\<close>

definition pg_where ::
    "entity_key \<Rightarrow> string option \<Rightarrow> int option \<Rightarrow> string option \<Rightarrow> int option \<Rightarrow> pg_row \<Rightarrow> bool" where
  "pg_where ek name version view view_version row \<longleftrightarrow>
     c_entity_key_encoded row = ek_text ek
     \<and> filter_ok view (c_view row) \<and> filter_ok view_version (c_view_version row)
     \<and> filter_ok name (c_feature_name row) \<and> filter_ok version (c_feature_version row)"

definition pg_get :: "pg \<Rightarrow> pg_table \<Rightarrow> offline_get_fn" where
  "pg_get P t ek name version view view_version =
     map_res (row_to_record P)
       (sort_key row_id (filter (pg_where ek name version view view_version) (t_rows t)))"

text \<open>The parameters of the query: the subtraction may overflow, nothing else is checked.\<close>

definition pg_cutoff :: "pg \<Rightarrow> datetime \<Rightarrow> timedelta \<Rightarrow> int res" where
  "pg_cutoff P observation_ts safety_gap =
     rbind (require (0 \<le> safety_gap) (ValueError ''safety_gap must be non-negative'')) (\<lambda>_.
     rbind (require (wall_min \<le> wall_us observation_ts - safety_gap)
              (OverflowError ''date value out of range'')) (\<lambda>_.
     Inr (pg_instant P observation_ts - safety_gap)))"

definition pg_order :: "pg_row \<Rightarrow> int \<times> int \<times> int" where
  "pg_order row = (- c_data_ts row, - c_calc_ts row, - int (row_id row))"

definition pg_pit_where :: "int \<Rightarrow> int \<Rightarrow> pg_row \<Rightarrow> bool" where
  "pg_pit_where cutoff obs row \<longleftrightarrow>
     c_data_ts row \<le> cutoff
     \<and> (case c_available_at row of Some a \<Rightarrow> a | None \<Rightarrow> c_calc_ts row) \<le> obs"

definition pg_get_pit ::
    "pg \<Rightarrow> pg_table \<Rightarrow> entity_key \<Rightarrow> string \<Rightarrow> int \<Rightarrow> string \<Rightarrow> int \<Rightarrow> datetime \<Rightarrow> timedelta
      \<Rightarrow> offline_record option res" where
  "pg_get_pit P t ek fname fversion view version observation_ts safety_gap =
     rbind (pg_cutoff P observation_ts safety_gap) (\<lambda>cutoff.
     case sort_key pg_order
            (filter (\<lambda>row. pg_where ek (Some fname) (Some fversion) (Some view) (Some version) row
                \<and> pg_pit_where cutoff (pg_instant P observation_ts) row) (t_rows t)) of
       [] \<Rightarrow> Inr None
     | row # rows \<Rightarrow> rbind (row_to_record P row) (\<lambda>rec. Inr (Some rec)))"

section \<open>Reading back\<close>

text \<open>What a stored result becomes: timestamps at the same instants, the value as \<^verbatim>\<open>jsonb\<close>.\<close>

definition pg_norm :: "pg \<Rightarrow> feature_result \<Rightarrow> feature_result" where
  "pg_norm P r = r\<lparr>
     r_value := (case pg_jsonb P (r_value r) of Some v \<Rightarrow> v | None \<Rightarrow> r_value r),
     r_data_ts := pg_datetime P (pg_instant P (r_data_ts r)),
     r_calc_ts := pg_datetime P (pg_instant P (r_calc_ts r)),
     r_max_input_data_ts := map_option (pg_datetime P \<circ> pg_instant P) (r_max_input_data_ts r),
     r_available_at := map_option (pg_datetime P \<circ> pg_instant P) (r_available_at r)\<rparr>"

definition pg_row_ok :: "pg \<Rightarrow> pg_row \<Rightarrow> bool" where
  "pg_row_ok P row \<longleftrightarrow>
     ek_valid \<lparr>ek_parts = c_entity_key row\<rparr>
     \<and> c_entity_key_encoded row = ek_text \<lparr>ek_parts = c_entity_key row\<rparr>
     \<and> ref_ok \<lparr>fr_name = c_feature_name row, fr_version = c_feature_version row\<rparr>"

definition pg_inv :: "pg \<Rightarrow> pg_table \<Rightarrow> bool" where
  "pg_inv P t \<longleftrightarrow>
     pg_laws P \<and> (\<forall>row \<in> set (t_rows t). pg_row_ok P row \<and> row_id row < t_next t)
     \<and> sorted_wrt (<) (map row_id (t_rows t))"

definition pg_adm :: "pg \<Rightarrow> pg_table \<Rightarrow> string \<Rightarrow> int \<Rightarrow> feature_result \<Rightarrow> bool" where
  "pg_adm P t view version r \<longleftrightarrow>
     pg_laws P \<and> result_ok r \<and> ek_valid (r_entity_key r) \<and> ref_ok (r_ref r)
     \<and> (\<exists>row. result_to_params P view version r = Inr row
          \<and> (\<exists>v. pg_jsonb P (r_value r) = Some v \<and> (self_equal (r_value r) \<longrightarrow> py_eq v (r_value r))
               \<and> (\<forall>n. pg_accepts P (row\<lparr>row_id := n, c_value_json := v\<rparr>))))"

text \<open>The record of a row, when the row is well formed.\<close>

definition row_record :: "pg \<Rightarrow> pg_row \<Rightarrow> offline_record" where
  "row_record P row = offline_rec (c_view row) (c_view_version row)
     \<lparr>r_ref = \<lparr>fr_name = c_feature_name row, fr_version = c_feature_version row\<rparr>,
      r_entity_key = \<lparr>ek_parts = c_entity_key row\<rparr>, r_value = c_value_json row,
      r_data_ts = pg_datetime P (c_data_ts row), r_calc_ts = pg_datetime P (c_calc_ts row),
      r_max_input_data_ts = map_option (pg_datetime P) (c_max_input_data_ts row),
      r_input_fingerprint = c_input_fingerprint row, r_value_hash = c_value_hash row,
      r_available_at = map_option (pg_datetime P) (c_available_at row),
      r_availability_source = c_availability_source row, r_model_uri = c_model_uri row,
      r_model_digest = c_model_digest row, r_model_output_name = c_model_output_name row,
      r_bundle_digest = c_bundle_digest row\<rparr>"

lemma mk_entity_key_of_valid: "ek_valid \<lparr>ek_parts = ps\<rparr> \<Longrightarrow> mk_entity_key ps = Inr \<lparr>ek_parts = ps\<rparr>"
  by simp

lemma row_record_ok: "pg_laws P \<Longrightarrow> result_ok (or_result (row_record P row))"
  by (auto simp: row_record_def offline_rec_def result_ok_def pg_laws_def)

lemma row_to_record_ok:
  assumes "pg_laws P" "pg_row_ok P row"
  shows "row_to_record P row = Inr (row_record P row)"
proof -
  have ref: "mk_feature_ref (c_feature_name row) (c_feature_version row)
      = Inr \<lparr>fr_name = c_feature_name row, fr_version = c_feature_version row\<rparr>"
    using assms(2) by (simp add: pg_row_ok_def)
  have ek: "mk_entity_key (c_entity_key row) = Inr \<lparr>ek_parts = c_entity_key row\<rparr>"
    using assms(2) by (intro mk_entity_key_of_valid) (simp add: pg_row_ok_def)
  show ?thesis
    using row_record_ok[OF assms(1)] by (simp add: row_to_record_def ref ek row_record_def offline_rec_def)
qed

lemma row_record_key: "pg_laws P \<Longrightarrow> pit_key (row_record P row) = (c_data_ts row, c_calc_ts row)"
  by (simp add: pit_key_def row_record_def offline_rec_def pg_laws_def)

lemma row_record_allowed:
  "pg_laws P \<Longrightarrow> pit_allowed obs gap (or_result (row_record P row))
    \<longleftrightarrow> pg_pit_where (instant obs - gap) (instant obs) row"
  by (auto simp: pit_allowed_def row_record_def offline_rec_def pg_laws_def pg_pit_where_def
      effective_available_def split: option.splits)

lemma row_record_match:
  assumes "pg_row_ok P row" "ek_valid ek"
  shows "offline_match ek name version view view_version (row_record P row)
    \<longleftrightarrow> pg_where ek name version view view_version row"
proof -
  have "\<lparr>ek_parts = c_entity_key row\<rparr> = ek \<longleftrightarrow> c_entity_key_encoded row = ek_text ek"
    using assms ek_text_inj[of "\<lparr>ek_parts = c_entity_key row\<rparr>" ek] by (auto simp: pg_row_ok_def)
  then show ?thesis by (auto simp: offline_match_def pg_where_def row_record_def offline_rec_def)
qed

text \<open>In a table kept by inserts, \<^verbatim>\<open>ORDER BY row_id\<close> is the append order.\<close>

lemma sort_by_id: "sorted_wrt (<) (map f xs) \<Longrightarrow> sort_key f xs = (xs :: 'a list)"
  for f :: "'a \<Rightarrow> nat"
  by (rule sort_key_id_if_sorted) (auto intro: strict_sorted_imp_sorted)

lemma sorted_ids_filter: "sorted_wrt (<) (map f xs) \<Longrightarrow> sorted_wrt (<) (map f (filter Q xs))"
  by (simp add: sorted_wrt_map sorted_wrt_filter)

lemma pg_get_records:
  assumes "pg_inv P t" "ek_valid ek"
  shows "pg_get P t ek name version view view_version
    = Inr (map (row_record P) (filter (pg_where ek name version view view_version) (t_rows t)))"
  unfolding pg_get_def
  using assms(1) by (subst sort_by_id)
    (auto intro!: map_res_all_Inr simp: pg_inv_def row_to_record_ok sorted_ids_filter)

section \<open>The ordered query\<close>

text \<open>\<^verbatim>\<open>ORDER BY data_ts DESC, calc_ts DESC, row_id DESC LIMIT 1\<close> is the loop's selection.\<close>

definition row_key :: "pg_row \<Rightarrow> int \<times> int" where
  "row_key row = (c_data_ts row, c_calc_ts row)"

lemma order_limit_one:
  assumes ids: "sorted_wrt (<) (map row_id xs)" and l: "latest_from row_key None xs = Some x"
  shows "\<exists>rest. sort_key pg_order xs = x # rest"
proof -
  have "xs \<noteq> []" using l by auto
  then obtain h rest where h: "sort_key pg_order xs = h # rest"
    by (metis length_0_conv length_sort neq_Nil_conv)
  have hx: "h \<in> set xs" using h by (metis list.set_intros(1) set_sort)
  have x: "x \<in> set xs" using latest_from_max[OF l] by auto
  have "sorted (map pg_order (h # rest))" using h by (metis sorted_sort_key)
  moreover have "x \<in> set (h # rest)" using h x by (metis set_sort)
  ultimately have 1: "pg_order h \<le> pg_order x" by auto
  have 2: "(row_key h, row_id h) \<le> (row_key x, row_id x)"
    by (rule latest_from_position[OF ids _ l]) (use hx in simp_all)
  have "row_id h = row_id x"
    using 1 2 by (auto simp: pg_order_def row_key_def less_eq_prod_simp less_prod_simp)
  moreover have "inj_on row_id (set xs)"
    using ids by (simp add: strict_sorted_iff distinct_map)
  ultimately have "h = x" using hx x by (auto dest: inj_onD)
  with h show ?thesis by simp
qed

lemma pg_get_pit_loop:
  assumes "pg_inv P t" "ek_valid ek" "pit_args_ok obs gap"
  shows "pg_get_pit P t ek fname fversion w wv obs gap =
      rbind (pg_get P t ek (Some fname) (Some fversion) (Some w) (Some wv)) (\<lambda>rs.
      rbind (select_pit rs obs gap) (\<lambda>(sel, n). Inr sel))"
proof -
  let ?rows = "filter (pg_where ek (Some fname) (Some fversion) (Some w) (Some wv)) (t_rows t)"
  let ?xs = "filter (pg_pit_where (instant obs - gap) (instant obs)) ?rows"
  have laws: "pg_laws P" and ids: "sorted_wrt (<) (map row_id ?xs)"
    and ok: "\<And>row. row \<in> set ?xs \<Longrightarrow> pg_row_ok P row"
    using assms(1) by (auto simp: pg_inv_def intro!: sorted_ids_filter)
  have obs: "pg_instant P obs = instant obs" using laws assms(3) by (simp add: pg_laws_def pit_args_ok_def)
  have cut: "pg_cutoff P obs gap = Inr (instant obs - gap)"
    using assms(3) obs by (simp add: pg_cutoff_def pit_args_ok_def)
  have xs: "filter (\<lambda>row. pg_where ek (Some fname) (Some fversion) (Some w) (Some wv) row
      \<and> pg_pit_where (instant obs - gap) (pg_instant P obs) row) (t_rows t) = ?xs"
    by (simp add: obs conj_commute)
  have "records_ok (map (row_record P) ?rows)" using row_record_ok[OF laws] by auto
  note sel = select_pit_ok[OF this assms(3)]
  have "filter (\<lambda>rec. pit_allowed obs gap (or_result rec)) (map (row_record P) ?rows) = map (row_record P) ?xs"
    by (simp only: filter_map comp_def row_record_allowed[OF laws])
  then have right: "latest_from pit_key None (filter (\<lambda>rec. pit_allowed obs gap (or_result rec)) (map (row_record P) ?rows))
      = map_option (row_record P) (latest_from row_key None ?xs)"
    using latest_from_map[of pit_key "row_record P" None ?xs]
    by (simp add: comp_def row_record_key[OF laws] row_key_def[abs_def])
  have "pg_get_pit P t ek fname fversion w wv obs gap
      = Inr (map_option (row_record P) (latest_from row_key None ?xs))"
  proof (cases "latest_from row_key None ?xs")
    case None
    then have "?xs = []" by (simp only: latest_from_None_iff)
    with None show ?thesis unfolding pg_get_pit_def cut rbind.simps xs by simp
  next
    case (Some x)
    obtain rest where "sort_key pg_order ?xs = x # rest" using order_limit_one[OF ids Some] by blast
    moreover have "x \<in> set ?xs" using latest_from_max[OF Some] by auto
    ultimately show ?thesis
      unfolding pg_get_pit_def cut rbind.simps xs Some by (simp add: row_to_record_ok[OF laws ok])
  qed
  then show ?thesis
    unfolding pg_get_records[OF assms(1,2)] rbind.simps sel right by simp
qed

section \<open>Appending\<close>

lemma pg_append_row:
  assumes "pg_inv P t" "pg_adm P t view version r"
  shows "\<exists>row. pg_append P t view version r = Inr (t\<lparr>t_rows := t_rows t @ [row], t_next := Suc (t_next t)\<rparr>)
    \<and> row_id row = t_next t \<and> pg_row_ok P row
    \<and> row_record P row = offline_rec view version (pg_norm P r)"
proof -
  from assms(2) obtain row v where row: "result_to_params P view version r = Inr row"
    and v: "pg_jsonb P (r_value r) = Some v"
    and acc: "\<And>n. pg_accepts P (row\<lparr>row_id := n, c_value_json := v\<rparr>)"
    and ok: "ek_valid (r_entity_key r)" "ref_ok (r_ref r)"
    by (auto simp: pg_adm_def)
  let ?row = "row\<lparr>row_id := t_next t, c_value_json := v\<rparr>"
  have fields: "c_value_json row = r_value r" "c_entity_key row = ek_parts (r_entity_key r)"
    "c_entity_key_encoded row = ek_text (r_entity_key r)" "c_feature_name row = fr_name (r_ref r)"
    "c_feature_version row = fr_version (r_ref r)"
    using row by (auto simp: result_to_params_def dump_value_def split: sum.splits)
  have 1: "pg_append P t view version r = Inr (t\<lparr>t_rows := t_rows t @ [?row], t_next := Suc (t_next t)\<rparr>)"
    by (simp add: pg_append_def row pg_insert_def fields(1) v Let_def acc)
  have 2: "pg_row_ok P ?row"
    using ok by (cases "r_entity_key r"; cases "r_ref r") (simp add: pg_row_ok_def fields)
  have 3: "row_record P ?row = offline_rec view version (pg_norm P r)"
    using row v by (auto simp: result_to_params_def dump_value_def row_record_def pg_norm_def offline_rec_def
        option.map_comp split: sum.splits)
  from 1 2 3 show ?thesis by auto
qed

interpretation pgoff: offline_store "pg_inv P" "pg_adm P" "pg_norm P" "pg_append P" "pg_get P" "pg_get_pit P"
  for P
proof unfold_locales
  fix s w wv r
  assume inv: "pg_inv P s" and adm: "pg_adm P s w wv r"
  obtain row where row: "pg_append P s w wv r = Inr (s\<lparr>t_rows := t_rows s @ [row], t_next := Suc (t_next s)\<rparr>)"
    "row_id row = t_next s" "pg_row_ok P row" "row_record P row = offline_rec w wv (pg_norm P r)"
    using pg_append_row[OF inv adm] by blast
  let ?s = "s\<lparr>t_rows := t_rows s @ [row], t_next := Suc (t_next s)\<rparr>"
  have inv': "pg_inv P ?s"
    using inv row(2,3) by (auto simp: pg_inv_def sorted_wrt_append)
  have "offline_match ek name version view view_version (offline_rec w wv (pg_norm P r))
      \<longleftrightarrow> pg_where ek name version view view_version row" if "ek_valid ek" for ek name version view view_version
    using row_record_match[OF row(3) that] row(4) by simp
  then show "\<exists>s'. pg_append P s w wv r = Inr s' \<and> pg_inv P s'
      \<and> (\<forall>w' wv' r'. pg_adm P s w' wv' r' \<longrightarrow> pg_adm P s' w' wv' r')
      \<and> (\<forall>ek name version view view_version. ek_valid ek \<longrightarrow>
           pg_get P s' ek name version view view_version =
           rbind (pg_get P s ek name version view view_version) (\<lambda>rs.
           Inr (rs @ filter (offline_match ek name version view view_version)
                      [offline_rec w wv (pg_norm P r)])))"
    by (intro exI[of _ ?s]) (simp add: row inv' pg_get_records[OF inv] pg_get_records[OF inv'] pg_adm_def)
next
  fix s ek name version view view_version
  assume inv: "pg_inv P s" and ek: "ek_valid ek"
  then show "\<exists>rs. pg_get P s ek name version view view_version = Inr rs
      \<and> (\<forall>rec \<in> set rs. result_ok (or_result rec) \<and> offline_match ek name version view view_version rec)"
    unfolding pg_get_records[OF inv ek]
    by (auto simp: pg_inv_def row_record_ok row_record_match)
next
  fix s ek obs gap fname fversion w wv
  assume "pg_inv P s" "ek_valid ek" "pit_args_ok obs gap"
  then show "pg_get_pit P s ek fname fversion w wv obs gap =
      rbind (pg_get P s ek (Some fname) (Some fversion) (Some w) (Some wv)) (\<lambda>rs.
      rbind (select_pit rs obs gap) (\<lambda>(sel, n). Inr sel))"
    by (rule pg_get_pit_loop)
next
  fix s w wv r
  assume "pg_adm P s w wv r"
  then show "ek_valid (r_entity_key r) \<and> result_ok r
      \<and> (self_equal (r_value r) \<longrightarrow> py_eq (r_value (pg_norm P r)) (r_value r))"
    by (auto simp: pg_adm_def pg_norm_def)
next
  fix s w wv r
  assume "pg_adm P s w wv r"
  then show "dt_eq (r_data_ts (pg_norm P r)) (r_data_ts r)
      \<and> opt_dt_eq (r_available_at (pg_norm P r)) (r_available_at r)"
    by (cases "r_available_at r") (auto simp: pg_adm_def pg_norm_def pg_laws_def result_ok_def dt_eq_def)
qed (simp_all add: pg_norm_def)

section \<open>The table refines the in-memory history\<close>

definition pg_history :: "pg \<Rightarrow> pg_table \<Rightarrow> offline_mem" where
  "pg_history P t = map (row_record P) (t_rows t)"

lemma pg_history_ok: "pg_inv P t \<Longrightarrow> mem_hist_ok (pg_history P t)"
  by (auto simp: pg_history_def mem_hist_ok_def pg_inv_def row_record_ok)
    (auto simp: row_record_def offline_rec_def pg_row_ok_def)

lemma pg_get_history:
  assumes "pg_inv P t" "ek_valid ek"
  shows "pg_get P t ek name version view vv = mem_offline_get (pg_history P t) ek name version view vv"
proof -
  have "filter (offline_match ek name version view vv) (pg_history P t)
      = map (row_record P) (filter (pg_where ek name version view vv) (t_rows t))"
    unfolding pg_history_def filter_map comp_def
    using assms by (intro arg_cong[where f = "map (row_record P)"] filter_cong) (auto simp: pg_inv_def row_record_match)
  then show ?thesis
    by (simp add: pg_get_records[OF assms] mem_offline_get_match[OF pg_history_ok[OF assms(1)] assms(2)])
qed

lemma pg_append_history:
  assumes "pg_inv P t" "pg_adm P t view version r"
  shows "\<exists>t'. pg_append P t view version r = Inr t' \<and> pg_inv P t'
    \<and> pg_history P t' = mem_append (pg_history P t) view version (pg_norm P r)"
proof -
  obtain row where row: "pg_append P t view version r = Inr (t\<lparr>t_rows := t_rows t @ [row], t_next := Suc (t_next t)\<rparr>)"
    "row_record P row = offline_rec view version (pg_norm P r)"
    using pg_append_row[OF assms] by blast
  from pgoff.append_ok[OF assms] row(1) have "pg_inv P (t\<lparr>t_rows := t_rows t @ [row], t_next := Suc (t_next t)\<rparr>)"
    by auto
  with row show ?thesis by (simp add: pg_history_def mem_append_def)
qed

text \<open>The COPY of a batch stores what a loop of single inserts stores.\<close>

lemma pg_append_many_all:
  assumes "\<forall>r \<in> set rs. pg_adm P t view version r"
  shows "pg_append_many P t view version rs = pgoff.append_all P t view version rs"
proof -
  let ?g = "\<lambda>r. case result_to_params P view version r of Inr row \<Rightarrow> row"
  have g: "result_to_params P view version r = Inr (?g r)" if "r \<in> set rs" for r
    using assms that by (auto simp: pg_adm_def)
  then have rows: "map_res (result_to_params P view version) rs = Inr (map ?g rs)"
    by (rule map_res_all_Inr)
  have "fold_res (pg_insert P) (map ?g us) s = fold_res (\<lambda>r s. pg_append P s view version r) us s"
    if "set us \<subseteq> set rs" for us s
    using that
  proof (induction us arbitrary: s)
    case (Cons u us)
    obtain row where "result_to_params P view version u = Inr row" using g[of u] Cons.prems by auto
    then have "pg_append P s view version u = pg_insert P (?g u) s" by (simp add: pg_append_def)
    then show ?case using Cons by (cases "pg_insert P (?g u) s") simp_all
  qed simp
  with rows show ?thesis by (simp add: pg_append_many_def pgoff.append_all_def)
qed

lemma pg_append_many_history:
  assumes "pg_inv P t" "\<forall>r \<in> set rs. pg_adm P t view version r"
  shows "\<exists>t'. pg_append_many P t view version rs = Inr t' \<and> pg_inv P t'
    \<and> pg_history P t' = mem_append_many (pg_history P t) view version (map (pg_norm P) rs)"
  unfolding pg_append_many_all[OF assms(2)] pgoff.append_all_def mem_append_many_def
  using assms
proof (induction rs arbitrary: t)
  case (Cons r rs)
  then obtain t1 where t1: "pg_append P t view version r = Inr t1" "pg_inv P t1"
    "pg_history P t1 = mem_append (pg_history P t) view version (pg_norm P r)"
    using pg_append_history[of P t view version r] by auto
  have "\<forall>r \<in> set rs. pg_adm P t1 view version r" using Cons.prems(2) by (simp add: pg_adm_def)
  from Cons.IH[OF t1(2) this] t1 show ?case by simp
qed simp

end
