(* ===== verification/RawReports.thy ===== *)
theory RawReports
  imports PostgresOffline
begin

text \<open>
  Raw report metadata (fs_core/raw/): the idempotent projection write with its conflict and
  correction rules, in memory and on Postgres, as one contract; the report resolver and the
  request-scoped overlays.
\<close>

section \<open>Corrections\<close>

record correction_context =
  cc_change_origin :: string
  cc_manifest_id :: "string option"
  cc_request_id :: "string option"
  cc_actor_key_id :: "string option"

record availability_change =
  ac_report_ref :: string
  ac_old_available_at :: "datetime option"
  ac_new_available_at :: "datetime option"
  ac_old_source :: "string option"
  ac_new_source :: "string option"
  ac_changed_at :: datetime
  ac_change_origin :: string
  ac_manifest_id :: "string option"
  ac_request_id :: "string option"
  ac_actor_key_id :: "string option"

text \<open>The current time is an argument.\<close>

definition build_availability_change ::
    "datetime \<Rightarrow> raw_report_meta \<Rightarrow> raw_report_meta \<Rightarrow> correction_context option \<Rightarrow> availability_change" where
  "build_availability_change now existing incoming ctx =
     (let c = (case ctx of Some c \<Rightarrow> c
               | None \<Rightarrow> \<lparr>cc_change_origin = ''unknown'', cc_manifest_id = None, cc_request_id = None,
                        cc_actor_key_id = None\<rparr>)
      in \<lparr>ac_report_ref = m_report_ref existing, ac_old_available_at = m_available_at existing,
          ac_new_available_at = m_available_at incoming,
          ac_old_source = m_availability_source existing,
          ac_new_source = m_availability_source incoming, ac_changed_at = now,
          ac_change_origin = cc_change_origin c, ac_manifest_id = cc_manifest_id c,
          ac_request_id = cc_request_id c, ac_actor_key_id = cc_actor_key_id c\<rparr>)"

text \<open>\<^verbatim>\<open>_IDENTITY_FIELDS\<close>: everything but the reference, the write time and the availability.\<close>

definition raw_meta_conflicts :: "raw_report_meta \<Rightarrow> raw_report_meta \<Rightarrow> bool" where
  "raw_meta_conflicts a b \<longleftrightarrow>
     m_report_type a \<noteq> m_report_type b \<or> m_entity_type a \<noteq> m_entity_type b
     \<or> m_entity_key a \<noteq> m_entity_key b \<or> \<not> dt_eq (m_report_ts a) (m_report_ts b)
     \<or> m_payload_size_bytes a \<noteq> m_payload_size_bytes b \<or> m_content_hash a \<noteq> m_content_hash b
     \<or> m_storage_uri a \<noteq> m_storage_uri b \<or> m_format a \<noteq> m_format b
     \<or> m_compression a \<noteq> m_compression b"

definition is_availability_correction :: "raw_report_meta \<Rightarrow> raw_report_meta \<Rightarrow> bool" where
  "is_availability_correction existing incoming \<longleftrightarrow>
     (if raw_meta_conflicts existing incoming then False
      else m_availability_source incoming = Some ''source_provided''
           \<and> m_available_at incoming \<noteq> None
           \<and> \<not> opt_dt_eq (m_available_at incoming) (m_available_at existing))"

definition corrected :: "raw_report_meta \<Rightarrow> raw_report_meta \<Rightarrow> raw_report_meta" where
  "corrected existing incoming =
     existing\<lparr>m_available_at := m_available_at incoming,
              m_availability_source := m_availability_source incoming\<rparr>"

lemma conflicts_refl [simp]: "\<not> raw_meta_conflicts m m"
  by (simp add: raw_meta_conflicts_def)

lemma conflicts_sym: "raw_meta_conflicts a b \<longleftrightarrow> raw_meta_conflicts b a"
  by (auto simp: raw_meta_conflicts_def dt_eq_sym)

lemma conflicts_trans: "\<not> raw_meta_conflicts a b \<Longrightarrow> \<not> raw_meta_conflicts b c \<Longrightarrow> \<not> raw_meta_conflicts a c"
  by (auto simp: raw_meta_conflicts_def intro: dt_eq_trans)

lemma corrected_same: "\<not> raw_meta_conflicts existing incoming \<Longrightarrow> \<not> raw_meta_conflicts (corrected existing incoming) incoming"
  by (simp add: raw_meta_conflicts_def corrected_def)

text \<open>A correction of a valid row by a valid report is valid.\<close>

lemma corrected_ok:
  assumes "meta_ok existing" "meta_ok incoming" "is_availability_correction existing incoming"
  shows "meta_ok (corrected existing incoming)"
proof -
  have "dt_eq (m_report_ts existing) (m_report_ts incoming)"
    using assms(3) by (simp add: is_availability_correction_def raw_meta_conflicts_def split: if_splits)
  with assms show ?thesis by (auto simp: meta_ok_def corrected_def dt_eq_def)
qed

section \<open>The contract of a metadata repository\<close>

text \<open>\<open>proj\<close> and \<open>projc\<close> are what a row and an audit row become when they are read back.\<close>

locale meta_repository =
  fixes inv :: "'s \<Rightarrow> bool"
    and adm :: "'s \<Rightarrow> raw_report_meta \<Rightarrow> bool"
    and proj :: "raw_report_meta \<Rightarrow> raw_report_meta"
    and projc :: "availability_change \<Rightarrow> availability_change"
    and get :: "'s \<Rightarrow> string \<Rightarrow> raw_report_meta res"
    and changes :: "'s \<Rightarrow> availability_change list"
    and upsert :: "'s \<Rightarrow> datetime \<Rightarrow> raw_report_meta \<Rightarrow> correction_context option \<Rightarrow> (bool \<times> 's) res"
  assumes get_cases: "inv s \<Longrightarrow> get s ref = Inl (KeyError ref) \<or> (\<exists>m. get s ref = Inr m \<and> m_report_ref m = ref)"
    and upsert_new: "inv s \<Longrightarrow> adm s m \<Longrightarrow> get s (m_report_ref m) = Inl (KeyError (m_report_ref m)) \<Longrightarrow>
      \<exists>s'. upsert s now m ctx = Inr (True, s') \<and> inv s' \<and> changes s' = changes s
         \<and> get s' = (get s)(m_report_ref m := Inr (proj m)) \<and> (\<forall>m'. adm s m' \<longrightarrow> adm s' m')"
    and upsert_conflict: "inv s \<Longrightarrow> get s (m_report_ref m) = Inr e \<Longrightarrow> raw_meta_conflicts e m \<Longrightarrow>
      upsert s now m ctx = Inl (ConflictError (m_report_ref m))"
    and upsert_correct: "inv s \<Longrightarrow> adm s m \<Longrightarrow> get s (m_report_ref m) = Inr e \<Longrightarrow>
      is_availability_correction e m \<Longrightarrow>
      \<exists>s'. upsert s now m ctx = Inr (True, s') \<and> inv s'
         \<and> changes s' = changes s @ [projc (build_availability_change now e m ctx)]
         \<and> get s' = (get s)(m_report_ref m := Inr (corrected e (proj m))) \<and> (\<forall>m'. adm s m' \<longrightarrow> adm s' m')"
    and upsert_same: "inv s \<Longrightarrow> get s (m_report_ref m) = Inr e \<Longrightarrow> \<not> raw_meta_conflicts e m \<Longrightarrow>
      \<not> is_availability_correction e m \<Longrightarrow> upsert s now m ctx = Inr (False, s)"
    and proj_same: "adm s m \<Longrightarrow> \<not> raw_meta_conflicts (proj m) m \<and> m_report_ref (proj m) = m_report_ref m
      \<and> m_availability_source (proj m) = m_availability_source m
      \<and> opt_dt_eq (m_available_at m) (m_available_at (proj m))"
begin

text \<open>Every branch of a write of an admissible report.\<close>

lemma upsert_branches:
  assumes "inv s" "adm s m"
  shows "(\<exists>s' changed e'. upsert s now m ctx = Inr (changed, s') \<and> inv s'
      \<and> get s' (m_report_ref m) = Inr e' \<and> \<not> raw_meta_conflicts e' m \<and> \<not> is_availability_correction e' m
      \<and> (\<forall>ref. ref \<noteq> m_report_ref m \<longrightarrow> get s' ref = get s ref)
      \<and> (\<forall>e. get s (m_report_ref m) = Inr e \<longrightarrow> \<not> raw_meta_conflicts e e')
      \<and> (if (\<exists>e. get s (m_report_ref m) = Inr e \<and> is_availability_correction e m)
         then length (changes s') = Suc (length (changes s)) else changes s' = changes s)
      \<and> (\<not> changed \<longrightarrow> s' = s) \<and> (\<forall>m'. adm s m' \<longrightarrow> adm s' m'))
    \<or> (\<exists>e. get s (m_report_ref m) = Inr e \<and> raw_meta_conflicts e m
        \<and> upsert s now m ctx = Inl (ConflictError (m_report_ref m)))"
proof -
  note p = proj_same[OF assms(2)]
  from get_cases[OF assms(1), of "m_report_ref m"] show ?thesis
  proof (elim disjE exE conjE)
    assume none: "get s (m_report_ref m) = Inl (KeyError (m_report_ref m))"
    from upsert_new[OF assms none] obtain s' where "upsert s now m ctx = Inr (True, s')" "inv s'"
      "changes s' = changes s" "get s' = (get s)(m_report_ref m := Inr (proj m))" "\<forall>m'. adm s m' \<longrightarrow> adm s' m'"
      by blast
    moreover have "\<not> is_availability_correction (proj m) m"
      using p by (simp add: is_availability_correction_def)
    ultimately show ?thesis using none p by (intro disjI1 exI[of _ s'] exI[of _ True]) simp
  next
    fix e
    assume e: "get s (m_report_ref m) = Inr e"
    show ?thesis
    proof (cases "raw_meta_conflicts e m")
      case True
      with upsert_conflict[OF assms(1) e] e show ?thesis by blast
    next
      case nc: False
      show ?thesis
      proof (cases "is_availability_correction e m")
        case True
        from upsert_correct[OF assms e True] obtain s' where "upsert s now m ctx = Inr (True, s')" "inv s'"
          "changes s' = changes s @ [projc (build_availability_change now e m ctx)]"
          "get s' = (get s)(m_report_ref m := Inr (corrected e (proj m)))" "\<forall>m'. adm s m' \<longrightarrow> adm s' m'"
          by blast
        moreover have c: "\<not> raw_meta_conflicts (corrected e (proj m)) m"
          using nc by (simp add: raw_meta_conflicts_def corrected_def)
        moreover have "\<not> is_availability_correction (corrected e (proj m)) m"
          using p by (simp add: is_availability_correction_def corrected_def)
        moreover have "\<not> raw_meta_conflicts e (corrected e (proj m))"
          by (simp add: raw_meta_conflicts_def corrected_def)
        ultimately show ?thesis using e True by (intro disjI1 exI[of _ s'] exI[of _ True]) auto
      next
        case False
        with upsert_same[OF assms(1) e nc False] e nc assms show ?thesis
          by (intro disjI1 exI[of _ s] exI[of _ False]) simp
      qed
    qed
  qed
qed

text \<open>Writing the same report twice: the second write changes nothing.\<close>

lemma upsert_idempotent:
  assumes "inv s" "adm s m" "upsert s now m ctx = Inr (changed, s')"
  shows "upsert s' now' m ctx' = Inr (False, s')"
proof -
  from upsert_branches[OF assms(1,2), of now ctx] assms(3) obtain e' where
    "inv s'" "get s' (m_report_ref m) = Inr e'" "\<not> raw_meta_conflicts e' m" "\<not> is_availability_correction e' m"
    by auto
  then show ?thesis by (rule upsert_same)
qed

fun upsert_all :: "'s \<Rightarrow> (datetime \<times> raw_report_meta \<times> correction_context option) list \<Rightarrow> 's" where
  "upsert_all s [] = s"
| "upsert_all s ((now, m, ctx) # ws) =
     upsert_all (case upsert s now m ctx of Inr (changed, s') \<Rightarrow> s' | Inl e \<Rightarrow> s) ws"

text \<open>
  Whatever is written, rejected writes included, a known report keeps its identity fields and
  the audit trail only grows.
\<close>

lemma upsert_all_identity:
  assumes "inv s" "\<forall>(now, m, ctx) \<in> set ws. adm s m" "get s ref = Inr e"
  shows "inv (upsert_all s ws)
    \<and> (\<exists>e'. get (upsert_all s ws) ref = Inr e' \<and> m_report_ref e' = ref \<and> \<not> raw_meta_conflicts e e')
    \<and> length (changes s) \<le> length (changes (upsert_all s ws))"
  using assms
proof (induction ws arbitrary: s e)
  case Nil
  with get_cases[OF Nil(1), of ref] show ?case by auto
next
  case (Cons w ws)
  obtain now m ctx where w: "w = (now, m, ctx)" by (cases w)
  have adm: "adm s m" using Cons.prems(2) by (simp add: w)
  let ?s1 = "case upsert s now m ctx of Inr (changed, s') \<Rightarrow> s' | Inl e \<Rightarrow> s"
  have 1: "inv ?s1 \<and> (\<exists>e1. get ?s1 ref = Inr e1 \<and> \<not> raw_meta_conflicts e e1)
      \<and> length (changes s) \<le> length (changes ?s1) \<and> (\<forall>m'. adm s m' \<longrightarrow> adm ?s1 m')"
    using upsert_branches[OF Cons.prems(1) adm, of now ctx]
  proof (elim disjE exE conjE)
    fix s' changed e'
    assume a: "upsert s now m ctx = Inr (changed, s')" "inv s'" "get s' (m_report_ref m) = Inr e'"
      "\<forall>r. r \<noteq> m_report_ref m \<longrightarrow> get s' r = get s r"
      "\<forall>e. get s (m_report_ref m) = Inr e \<longrightarrow> \<not> raw_meta_conflicts e e'"
      "if (\<exists>e. get s (m_report_ref m) = Inr e \<and> is_availability_correction e m)
       then length (changes s') = Suc (length (changes s)) else changes s' = changes s"
      "\<forall>m'. adm s m' \<longrightarrow> adm s' m'"
    have "\<exists>e1. get s' ref = Inr e1 \<and> \<not> raw_meta_conflicts e e1"
      using a(3-5) Cons.prems(3) by (cases "ref = m_report_ref m") auto
    then show ?thesis using a(1,2,6,7) by (auto split: if_splits)
  next
    fix e'
    assume "upsert s now m ctx = Inl (ConflictError (m_report_ref m))"
    then show ?thesis using Cons.prems(1,3) by auto
  qed
  then obtain e1 where e1: "get ?s1 ref = Inr e1" "\<not> raw_meta_conflicts e e1" by blast
  have "\<forall>(now, m, ctx) \<in> set ws. adm ?s1 m" using Cons.prems(2) 1 by auto
  from Cons.IH[OF _ this e1(1)] 1 obtain e2 where
    e2: "get (upsert_all ?s1 ws) ref = Inr e2" "m_report_ref e2 = ref" "\<not> raw_meta_conflicts e1 e2"
    and rest: "inv (upsert_all ?s1 ws)" "length (changes ?s1) \<le> length (changes (upsert_all ?s1 ws))"
    by blast
  have "\<not> raw_meta_conflicts e e2" using e1(2) e2(3) by (rule conflicts_trans)
  with e2(1,2) have "\<exists>e'. get (upsert_all ?s1 ws) ref = Inr e' \<and> m_report_ref e' = ref \<and> \<not> raw_meta_conflicts e e'"
    by blast
  moreover have "length (changes s) \<le> length (changes (upsert_all ?s1 ws))"
    using 1 rest(2) by (blast intro: le_trans)
  ultimately show ?case unfolding w upsert_all.simps using rest(1) by blast
qed

end

section \<open>In memory\<close>

record mem_meta =
  mm_meta :: "(string, raw_report_meta) dict"
  mm_changes :: "availability_change list"

definition mem_add_meta :: "mem_meta \<Rightarrow> raw_report_meta \<Rightarrow> mem_meta" where
  "mem_add_meta s m = s\<lparr>mm_meta := dict_set (m_report_ref m) m (mm_meta s)\<rparr>"

definition mem_get_meta :: "mem_meta \<Rightarrow> string \<Rightarrow> raw_report_meta res" where
  "mem_get_meta s ref = (case map_of (mm_meta s) ref of None \<Rightarrow> Inl (KeyError ref) | Some m \<Rightarrow> Inr m)"

definition mem_upsert ::
    "mem_meta \<Rightarrow> datetime \<Rightarrow> raw_report_meta \<Rightarrow> correction_context option \<Rightarrow> (bool \<times> mem_meta) res" where
  "mem_upsert s now m ctx =
     (case map_of (mm_meta s) (m_report_ref m) of
        None \<Rightarrow> Inr (True, s\<lparr>mm_meta := dict_set (m_report_ref m) m (mm_meta s)\<rparr>)
      | Some existing \<Rightarrow>
          if raw_meta_conflicts existing m then Inl (ConflictError (m_report_ref m))
          else if is_availability_correction existing m then
            (let s1 = s\<lparr>mm_changes := mm_changes s @ [build_availability_change now existing m ctx]\<rparr> in
             rbind (mk_raw_report_meta (corrected existing m)) (\<lambda>e'.
             Inr (True, s1\<lparr>mm_meta := dict_set (m_report_ref m) e' (mm_meta s1)\<rparr>)))
          else Inr (False, s))"

definition mem_meta_inv :: "mem_meta \<Rightarrow> bool" where
  "mem_meta_inv s \<longleftrightarrow>
     (\<forall>ref m. map_of (mm_meta s) ref = Some m \<longrightarrow> m_report_ref m = ref \<and> meta_ok m)"

interpretation memmeta: meta_repository mem_meta_inv "\<lambda>_. meta_ok" "\<lambda>m. m" "\<lambda>c. c"
  mem_get_meta mm_changes mem_upsert
proof unfold_locales
  fix s ref
  assume "mem_meta_inv s"
  then show "mem_get_meta s ref = Inl (KeyError ref) \<or> (\<exists>m. mem_get_meta s ref = Inr m \<and> m_report_ref m = ref)"
    by (auto simp: mem_get_meta_def mem_meta_inv_def split: option.splits)
next
  fix s m now ctx
  assume "mem_meta_inv s" "meta_ok m" "mem_get_meta s (m_report_ref m) = Inl (KeyError (m_report_ref m))"
  then show "\<exists>s'. mem_upsert s now m ctx = Inr (True, s') \<and> mem_meta_inv s' \<and> mm_changes s' = mm_changes s
      \<and> mem_get_meta s' = (mem_get_meta s)(m_report_ref m := Inr m) \<and> (\<forall>m'. meta_ok m' \<longrightarrow> meta_ok m')"
    by (auto simp: mem_get_meta_def mem_upsert_def mem_meta_inv_def fun_eq_iff split: option.splits)
next
  fix s m e now ctx
  assume "mem_meta_inv s" "mem_get_meta s (m_report_ref m) = Inr e" "raw_meta_conflicts e m"
  then show "mem_upsert s now m ctx = Inl (ConflictError (m_report_ref m))"
    by (auto simp: mem_get_meta_def mem_upsert_def split: option.splits)
next
  fix s m e now ctx
  assume inv: "mem_meta_inv s" and m: "meta_ok m" and e: "mem_get_meta s (m_report_ref m) = Inr e"
    and c: "is_availability_correction e m"
  from e have le: "map_of (mm_meta s) (m_report_ref m) = Some e"
    by (auto simp: mem_get_meta_def split: option.splits)
  with inv have e': "m_report_ref e = m_report_ref m" "meta_ok e" by (auto simp: mem_meta_inv_def)
  have ok: "meta_ok (corrected e m)" by (rule corrected_ok[OF e'(2) m c])
  have mk: "mk_raw_report_meta (corrected e m) = Inr (corrected e m)" using ok by simp
  have nc: "\<not> raw_meta_conflicts e m" using c by (simp add: is_availability_correction_def split: if_splits)
  have r: "m_report_ref (corrected e m) = m_report_ref m" by (simp add: corrected_def e')
  show "\<exists>s'. mem_upsert s now m ctx = Inr (True, s') \<and> mem_meta_inv s'
         \<and> mm_changes s' = mm_changes s @ [build_availability_change now e m ctx]
         \<and> mem_get_meta s' = (mem_get_meta s)(m_report_ref m := Inr (corrected e m)) \<and> (\<forall>m'. meta_ok m' \<longrightarrow> meta_ok m')"
    using inv ok by (auto simp: mem_upsert_def le nc c mk mem_meta_inv_def mem_get_meta_def fun_eq_iff r)
next
  fix s m e now ctx
  assume "mem_meta_inv s" "mem_get_meta s (m_report_ref m) = Inr e" "\<not> raw_meta_conflicts e m"
    "\<not> is_availability_correction e m"
  then show "mem_upsert s now m ctx = Inr (False, s)"
    by (auto simp: mem_get_meta_def mem_upsert_def split: option.splits)
qed auto

section \<open>On Postgres\<close>

text \<open>A row of \<^verbatim>\<open>raw_reports_meta\<close>; the audit table keeps its changes in order.\<close>

record meta_row =
  q_report_ref :: string
  q_report_type :: string
  q_entity_type :: string
  q_entity_key :: "(string \<times> string) list"
  q_report_ts :: int
  q_payload_size_bytes :: int
  q_content_hash :: string
  q_storage_uri :: string
  q_format :: string
  q_compression :: string
  q_created_at :: int
  q_available_at :: "int option"
  q_availability_source :: "string option"

record pg_meta =
  pm_rows :: "(string, meta_row) dict"  \<comment> \<open>PRIMARY KEY (report_ref)\<close>
  pm_changes :: "availability_change list"

definition meta_to_params :: "pg \<Rightarrow> raw_report_meta \<Rightarrow> meta_row" where
  "meta_to_params P m =
     \<lparr>q_report_ref = m_report_ref m, q_report_type = m_report_type m,
      q_entity_type = m_entity_type m, q_entity_key = ek_parts (m_entity_key m),
      q_report_ts = pg_instant P (m_report_ts m), q_payload_size_bytes = m_payload_size_bytes m,
      q_content_hash = m_content_hash m, q_storage_uri = m_storage_uri m, q_format = m_format m,
      q_compression = m_compression m, q_created_at = pg_instant P (m_created_at m),
      q_available_at = map_option (pg_instant P) (m_available_at m),
      q_availability_source = m_availability_source m\<rparr>"

definition row_to_meta :: "pg \<Rightarrow> meta_row \<Rightarrow> raw_report_meta res" where
  "row_to_meta P row =
     (case rbind (mk_entity_key (q_entity_key row)) (\<lambda>ek. mk_raw_report_meta
        \<lparr>m_report_ref = q_report_ref row, m_report_type = q_report_type row,
         m_entity_type = q_entity_type row, m_entity_key = ek,
         m_report_ts = pg_datetime P (q_report_ts row),
         m_payload_size_bytes = q_payload_size_bytes row, m_content_hash = q_content_hash row,
         m_storage_uri = q_storage_uri row, m_created_at = pg_datetime P (q_created_at row),
         m_format = q_format row, m_compression = q_compression row,
         m_available_at = map_option (pg_datetime P) (q_available_at row),
         m_availability_source = q_availability_source row\<rparr>) of
        Inr m \<Rightarrow> Inr m
      | Inl _ \<Rightarrow> Inl (ValueError ''malformed raw_reports_meta row''))"

definition pg_get_meta :: "pg \<Rightarrow> pg_meta \<Rightarrow> string \<Rightarrow> raw_report_meta res" where
  "pg_get_meta P s ref =
     (case map_of (pm_rows s) ref of None \<Rightarrow> Inl (KeyError ref) | Some row \<Rightarrow> row_to_meta P row)"

text \<open>\<^verbatim>\<open>add\<close>: INSERT ... ON CONFLICT DO UPDATE of every column.\<close>

definition pg_add_meta :: "pg \<Rightarrow> pg_meta \<Rightarrow> raw_report_meta \<Rightarrow> pg_meta" where
  "pg_add_meta P s m = s\<lparr>pm_rows := dict_set (m_report_ref m) (meta_to_params P m) (pm_rows s)\<rparr>"

text \<open>An audit row as it is read back.\<close>

definition norm_ts :: "pg \<Rightarrow> datetime \<Rightarrow> datetime" where
  "norm_ts P d = pg_datetime P (pg_instant P d)"

definition norm_change :: "pg \<Rightarrow> availability_change \<Rightarrow> availability_change" where
  "norm_change P c =
     c\<lparr>ac_old_available_at := map_option (norm_ts P) (ac_old_available_at c),
       ac_new_available_at := map_option (norm_ts P) (ac_new_available_at c),
       ac_changed_at := norm_ts P (ac_changed_at c)\<rparr>"

text \<open>The update and its audit row are one transaction.\<close>

definition pg_upsert ::
    "pg \<Rightarrow> pg_meta \<Rightarrow> datetime \<Rightarrow> raw_report_meta \<Rightarrow> correction_context option \<Rightarrow> (bool \<times> pg_meta) res" where
  "pg_upsert P s now m ctx =
     (case map_of (pm_rows s) (m_report_ref m) of
        None \<Rightarrow> Inr (True, s\<lparr>pm_rows := dict_set (m_report_ref m) (meta_to_params P m) (pm_rows s)\<rparr>)
      | Some row \<Rightarrow>
          rbind (row_to_meta P row) (\<lambda>existing.
          if raw_meta_conflicts existing m then Inl (ConflictError (m_report_ref m))
          else if is_availability_correction existing m then
            Inr (True, s\<lparr>pm_rows := dict_set (m_report_ref m)
                   (row\<lparr>q_available_at := map_option (pg_instant P) (m_available_at m),
                        q_availability_source := m_availability_source m\<rparr>) (pm_rows s),
                 pm_changes := pm_changes s @ [norm_change P (build_availability_change now existing m ctx)]\<rparr>)
          else Inr (False, s)))"

definition norm_meta :: "pg \<Rightarrow> raw_report_meta \<Rightarrow> raw_report_meta" where
  "norm_meta P m =
     m\<lparr>m_report_ts := norm_ts P (m_report_ts m), m_created_at := norm_ts P (m_created_at m),
       m_available_at := map_option (norm_ts P) (m_available_at m)\<rparr>"

definition row_meta :: "pg \<Rightarrow> meta_row \<Rightarrow> raw_report_meta" where
  "row_meta P row =
        \<lparr>m_report_ref = q_report_ref row, m_report_type = q_report_type row,
         m_entity_type = q_entity_type row, m_entity_key = \<lparr>ek_parts = q_entity_key row\<rparr>,
         m_report_ts = pg_datetime P (q_report_ts row),
         m_payload_size_bytes = q_payload_size_bytes row, m_content_hash = q_content_hash row,
         m_storage_uri = q_storage_uri row, m_created_at = pg_datetime P (q_created_at row),
         m_format = q_format row, m_compression = q_compression row,
         m_available_at = map_option (pg_datetime P) (q_available_at row),
         m_availability_source = q_availability_source row\<rparr>"

definition meta_row_ok :: "pg \<Rightarrow> string \<Rightarrow> meta_row \<Rightarrow> bool" where
  "meta_row_ok P ref row \<longleftrightarrow>
     q_report_ref row = ref \<and> ek_valid \<lparr>ek_parts = q_entity_key row\<rparr> \<and> meta_ok (row_meta P row)"

definition pg_meta_inv :: "pg \<Rightarrow> pg_meta \<Rightarrow> bool" where
  "pg_meta_inv P s \<longleftrightarrow>
     pg_laws P \<and> (\<forall>ref row. map_of (pm_rows s) ref = Some row \<longrightarrow> meta_row_ok P ref row)"

definition pg_meta_adm :: "pg \<Rightarrow> pg_meta \<Rightarrow> raw_report_meta \<Rightarrow> bool" where
  "pg_meta_adm P s m \<longleftrightarrow> pg_laws P \<and> meta_ok m \<and> ek_valid (m_entity_key m)"

lemma row_to_meta_ok: "meta_row_ok P ref row \<Longrightarrow> row_to_meta P row = Inr (row_meta P row)"
  by (auto simp: row_to_meta_def meta_row_ok_def mk_entity_key_of_valid row_meta_def)

lemma meta_row_ok_ref: "meta_row_ok P ref row \<Longrightarrow> m_report_ref (row_meta P row) = ref"
  by (simp add: meta_row_ok_def row_meta_def)

lemma norm_ts_eq: "pg_laws P \<Longrightarrow> aware d \<Longrightarrow> dt_eq (norm_ts P d) d"
  by (simp add: norm_ts_def pg_laws_def dt_eq_def)

lemma row_meta_params: "row_meta P (meta_to_params P m) = norm_meta P m"
  by (cases "m_available_at m") (simp_all add: row_meta_def meta_to_params_def norm_meta_def norm_ts_def)

lemma norm_meta_ok: "pg_laws P \<Longrightarrow> meta_ok m \<Longrightarrow> meta_ok (norm_meta P m)"
  by (cases "m_available_at m") (auto simp: meta_ok_def norm_meta_def norm_ts_def pg_laws_def)

lemma meta_params_ok:
  "pg_meta_adm P s m \<Longrightarrow> meta_row_ok P (m_report_ref m) (meta_to_params P m)"
  unfolding meta_row_ok_def row_meta_params
  by (cases "m_entity_key m") (simp add: pg_meta_adm_def norm_meta_ok meta_to_params_def)

lemma corrected_norm:
  assumes "pg_meta_adm P s m" "meta_ok e" "is_availability_correction e m"
  shows "meta_ok (corrected e (norm_meta P m))"
proof -
  have P: "pg_laws P" "meta_ok m" using assms(1) by (auto simp: pg_meta_adm_def)
  have m: "aware (m_report_ts m)" "aware_opt (m_available_at m)" using P by (auto simp: meta_ok_def)
  obtain a where a: "m_available_at m = Some a" "aware a"
    using assms(3) m(2) by (auto simp: is_availability_correction_def split: if_splits)
  have e: "\<not> raw_meta_conflicts e m" "m_availability_source m = Some ''source_provided''"
    "\<not> opt_dt_eq (m_available_at m) (m_available_at e)"
    using assms(3) by (auto simp: is_availability_correction_def split: if_splits)
  have aa: "dt_eq (norm_ts P a) a" using norm_ts_eq P a by blast
  have "\<not> raw_meta_conflicts e (norm_meta P m)"
    using e(1) norm_ts_eq[OF P(1) m(1)] by (auto simp: raw_meta_conflicts_def norm_meta_def dt_eq_def)
  moreover have "\<not> opt_dt_eq (m_available_at (norm_meta P m)) (m_available_at e)"
    using e(3) aa a by (cases "m_available_at e") (auto simp: norm_meta_def dt_eq_def)
  ultimately have "is_availability_correction e (norm_meta P m)"
    using e(2) a by (simp add: is_availability_correction_def norm_meta_def)
  then show ?thesis by (rule corrected_ok[OF assms(2) norm_meta_ok[OF P]])
qed

interpretation pgmeta: meta_repository "pg_meta_inv P" "pg_meta_adm P" "norm_meta P" "norm_change P"
  "pg_get_meta P" pm_changes "pg_upsert P" for P
proof unfold_locales
  fix s ref
  assume inv: "pg_meta_inv P s"
  show "pg_get_meta P s ref = Inl (KeyError ref) \<or> (\<exists>m. pg_get_meta P s ref = Inr m \<and> m_report_ref m = ref)"
  proof (cases "map_of (pm_rows s) ref")
    case (Some row)
    with inv have "meta_row_ok P ref row" by (simp add: pg_meta_inv_def)
    with Some show ?thesis by (simp add: pg_get_meta_def row_to_meta_ok meta_row_ok_ref)
  qed (simp add: pg_get_meta_def)
next
  fix s m now ctx
  assume inv: "pg_meta_inv P s" and adm: "pg_meta_adm P s m"
    and none: "pg_get_meta P s (m_report_ref m) = Inl (KeyError (m_report_ref m))"
  have "map_of (pm_rows s) (m_report_ref m) = None"
  proof (cases "map_of (pm_rows s) (m_report_ref m)")
    case (Some row)
    with inv have "meta_row_ok P (m_report_ref m) row" by (simp add: pg_meta_inv_def)
    with Some none show ?thesis by (simp add: pg_get_meta_def row_to_meta_ok)
  qed simp
  then show "\<exists>s'. pg_upsert P s now m ctx = Inr (True, s') \<and> pg_meta_inv P s' \<and> pm_changes s' = pm_changes s
      \<and> pg_get_meta P s' = (pg_get_meta P s)(m_report_ref m := Inr (norm_meta P m))
      \<and> (\<forall>m'. pg_meta_adm P s m' \<longrightarrow> pg_meta_adm P s' m')"
    using inv meta_params_ok[OF adm]
    by (auto simp: pg_upsert_def pg_meta_inv_def pg_get_meta_def fun_eq_iff row_to_meta_ok row_meta_params
        pg_meta_adm_def)
next
  fix s m e now ctx
  assume "pg_meta_inv P s" "pg_get_meta P s (m_report_ref m) = Inr e" "raw_meta_conflicts e m"
  then show "pg_upsert P s now m ctx = Inl (ConflictError (m_report_ref m))"
    by (auto simp: pg_get_meta_def pg_upsert_def split: option.splits)
next
  fix s m e now ctx
  assume inv: "pg_meta_inv P s" and adm: "pg_meta_adm P s m"
    and e: "pg_get_meta P s (m_report_ref m) = Inr e" and c: "is_availability_correction e m"
  from e obtain row where row: "map_of (pm_rows s) (m_report_ref m) = Some row" "row_to_meta P row = Inr e"
    by (auto simp: pg_get_meta_def split: option.splits)
  with inv have ok: "meta_row_ok P (m_report_ref m) row" by (simp add: pg_meta_inv_def)
  with row have em: "e = row_meta P row" by (simp add: row_to_meta_ok)
  have nc: "\<not> raw_meta_conflicts e m" using c by (simp add: is_availability_correction_def split: if_splits)
  let ?row = "row\<lparr>q_available_at := map_option (pg_instant P) (m_available_at m),
                 q_availability_source := m_availability_source m\<rparr>"
  have rm: "row_meta P ?row = corrected e (norm_meta P m)"
    by (cases "m_available_at m") (simp_all add: row_meta_def em corrected_def norm_meta_def norm_ts_def)
  have "meta_ok e" using ok by (simp add: meta_row_ok_def em)
  then have "meta_row_ok P (m_report_ref m) ?row"
    using ok corrected_norm[OF adm _ c] by (simp add: meta_row_ok_def rm)
  with inv row nc c show "\<exists>s'. pg_upsert P s now m ctx = Inr (True, s') \<and> pg_meta_inv P s'
      \<and> pm_changes s' = pm_changes s @ [norm_change P (build_availability_change now e m ctx)]
      \<and> pg_get_meta P s' = (pg_get_meta P s)(m_report_ref m := Inr (corrected e (norm_meta P m)))
      \<and> (\<forall>m'. pg_meta_adm P s m' \<longrightarrow> pg_meta_adm P s' m')"
    by (auto simp: pg_upsert_def pg_meta_inv_def pg_get_meta_def fun_eq_iff row_to_meta_ok rm pg_meta_adm_def)
next
  fix s m e now ctx
  assume "pg_meta_inv P s" "pg_get_meta P s (m_report_ref m) = Inr e" "\<not> raw_meta_conflicts e m"
    "\<not> is_availability_correction e m"
  then show "pg_upsert P s now m ctx = Inr (False, s)"
    by (auto simp: pg_get_meta_def pg_upsert_def split: option.splits)
next
  fix s m
  assume adm: "pg_meta_adm P s m"
  then have "dt_eq (norm_ts P (m_report_ts m)) (m_report_ts m)"
    by (intro norm_ts_eq) (auto simp: pg_meta_adm_def meta_ok_def)
  moreover have "opt_dt_eq (m_available_at m) (map_option (norm_ts P) (m_available_at m))"
    using adm norm_ts_eq by (cases "m_available_at m") (auto simp: pg_meta_adm_def meta_ok_def dt_eq_sym)
  ultimately show "\<not> raw_meta_conflicts (norm_meta P m) m \<and> m_report_ref (norm_meta P m) = m_report_ref m
      \<and> m_availability_source (norm_meta P m) = m_availability_source m
      \<and> opt_dt_eq (m_available_at m) (m_available_at (norm_meta P m))"
    by (simp add: raw_meta_conflicts_def norm_meta_def)
qed

section \<open>Resolution of a source\<close>

text \<open>
  \<^verbatim>\<open>make_source_loader\<close>. A metadata repository and a payload store are the functions that read
  them; the payload store's KeyError is the only exception it may raise here.
\<close>

definition make_source_loader ::
    "(string \<Rightarrow> raw_report_meta res) \<Rightarrow> (string \<Rightarrow> json res) \<Rightarrow> (string, string) dict
      \<Rightarrow> (string, string) dict option \<Rightarrow> string \<Rightarrow> json res" where
  "make_source_loader get_meta get_payload source_refs expected_types source_name =
     (case map_of source_refs source_name of
        None \<Rightarrow> Inl (ValueError ''no report_ref bound for source'')
      | Some report_ref \<Rightarrow>
          rbind (case get_meta report_ref of
                   Inl (KeyError _) \<Rightarrow> Inl (ValueError ''unknown report_ref'')
                 | r \<Rightarrow> r) (\<lambda>meta.
          rbind (case expected_types of
                   None \<Rightarrow> Inr ()
                 | Some types \<Rightarrow>
                     (case map_of types source_name of
                        None \<Rightarrow> Inr ()
                      | Some expected \<Rightarrow> require (m_report_type meta = expected)
                          (ValueError ''source expected another report_type''))) (\<lambda>_.
          case get_payload (m_storage_uri meta) of
            Inl (KeyError _) \<Rightarrow> Inl (ValueError ''no payload stored at storage_uri'')
          | r \<Rightarrow> r)))"

definition mem_get_payload :: "(string, json) dict \<Rightarrow> string \<Rightarrow> json res" where
  "mem_get_payload store uri = (case map_of store uri of None \<Rightarrow> Inl (KeyError uri) | Some v \<Rightarrow> Inr v)"

definition overlay_get_payload :: "(string, json) dict \<Rightarrow> (string \<Rightarrow> json res) \<Rightarrow> string \<Rightarrow> json res" where
  "overlay_get_payload overlay base uri =
     (case map_of overlay uri of Some v \<Rightarrow> Inr v | None \<Rightarrow> base uri)"

definition overlay_get_meta ::
    "(string, raw_report_meta) dict \<Rightarrow> (string \<Rightarrow> raw_report_meta res) \<Rightarrow> string \<Rightarrow> raw_report_meta res" where
  "overlay_get_meta overlay base ref =
     (case map_of overlay ref of Some m \<Rightarrow> Inr m | None \<Rightarrow> base ref)"

text \<open>What a loaded source guarantees, and which errors a failing load may raise.\<close>

lemma make_source_loader_Inr:
  assumes "make_source_loader get_meta get_payload refs (Some types) src = Inr v"
  shows "\<exists>ref m. map_of refs src = Some ref \<and> get_meta ref = Inr m \<and> get_payload (m_storage_uri m) = Inr v
    \<and> (\<forall>t. map_of types src = Some t \<longrightarrow> m_report_type m = t)"
  using assms by (auto simp: make_source_loader_def split: option.splits sum.splits exc.splits)

section \<open>Runs of writes\<close>

text \<open>A caller that ignores a rejected write keeps the state it had.\<close>

fun pg_upsert_all ::
    "pg \<Rightarrow> pg_meta \<Rightarrow> (datetime \<times> raw_report_meta \<times> correction_context option) list \<Rightarrow> pg_meta" where
  "pg_upsert_all P s [] = s"
| "pg_upsert_all P s ((now, m, ctx) # ws) =
     pg_upsert_all P (case pg_upsert P s now m ctx of Inr (changed, s') \<Rightarrow> s' | Inl e \<Rightarrow> s) ws"

lemma pg_upsert_all_run: "pg_upsert_all P s ws = pgmeta.upsert_all P s ws"
  by (induction P s ws rule: pg_upsert_all.induct) simp_all

end
