(* ===== verification/Consistency.thy ===== *)
theory Consistency
  imports OfflineStore Registry
begin

text \<open>
  The online/offline consistency check (fs_core/consistency.py): a read-only comparison of
  the newest offline value with the online one.
\<close>

section \<open>The check\<close>

datatype consistency_status =
    ConsOk | MissingOnline | MissingOffline | MissingBoth
  | StaleOnline | OnlineNewer | ValueMismatch

record consistency_item =
  ci_name :: string
  ci_status :: consistency_status
  ci_offline_value :: json
  ci_online_value :: json
  ci_offline_data_ts :: "datetime option"
  ci_online_data_ts :: "datetime option"
  ci_offline_version :: "int option"
  ci_online_version :: "int option"

record consistency_report =
  cr_ok :: bool  \<comment> \<open>overall status: ok or inconsistent\<close>
  cr_items :: "(string, consistency_item) dict"

type_synonym online_get_fn =
  "string \<Rightarrow> int \<Rightarrow> entity_key \<Rightarrow> string \<Rightarrow> int \<Rightarrow> feature_result option res"

definition data_key :: "offline_record \<Rightarrow> int" where
  "data_key rec = instant (r_data_ts (or_result rec))"

text \<open>The loop keeps the last of the records with the greatest data timestamp.\<close>

definition latest_offline :: "offline_record list \<Rightarrow> offline_record option" where
  "latest_offline records = latest_from data_key None records"

definition consistency_status ::
    "offline_record option \<Rightarrow> feature_result option \<Rightarrow> consistency_status" where
  "consistency_status off on =
     (case (off, on) of
        (None, None) \<Rightarrow> MissingBoth
      | (Some _, None) \<Rightarrow> MissingOnline
      | (None, Some _) \<Rightarrow> MissingOffline
      | (Some rec, Some r) \<Rightarrow>
          let o_ts = instant (r_data_ts (or_result rec)); n_ts = instant (r_data_ts r)
          in if n_ts < o_ts then StaleOnline
             else if n_ts > o_ts then OnlineNewer
             else if \<not> py_eq (r_value (or_result rec)) (r_value r) then ValueMismatch
             else ConsOk)"

definition classify :: "string \<Rightarrow> offline_record option \<Rightarrow> feature_result option \<Rightarrow> consistency_item" where
  "classify name off on =
     \<lparr>ci_name = name, ci_status = consistency_status off on,
      ci_offline_value = (case off of Some rec \<Rightarrow> r_value (or_result rec) | None \<Rightarrow> JNull),
      ci_online_value = (case on of Some r \<Rightarrow> r_value r | None \<Rightarrow> JNull),
      ci_offline_data_ts = map_option (r_data_ts \<circ> or_result) off,
      ci_online_data_ts = map_option r_data_ts on,
      ci_offline_version = map_option (fr_version \<circ> r_ref \<circ> or_result) off,
      ci_online_version = map_option (fr_version \<circ> r_ref) on\<rparr>"

definition check_item ::
    "offline_get_fn \<Rightarrow> online_get_fn \<Rightarrow> view_def \<Rightarrow> int \<Rightarrow> entity_key \<Rightarrow> string
      \<Rightarrow> (string, consistency_item) dict \<Rightarrow> (string, consistency_item) dict res" where
  "check_item off on v vv ek name items =
     (case map_of (features_by_name v) name of
        None \<Rightarrow> Inl (ValueError ''unknown feature'')
      | Some f \<Rightarrow>
          rbind (off ek (Some name) (Some (f_version f)) (Some (v_name v)) (Some vv)) (\<lambda>records.
          rbind (on (v_name v) vv ek name (f_version f)) (\<lambda>online_result.
          Inr (dict_set name (classify name (latest_offline records) online_result) items))))"

definition check_consistency ::
    "offline_get_fn \<Rightarrow> online_get_fn \<Rightarrow> view_def \<Rightarrow> int \<Rightarrow> entity_key \<Rightarrow> string list
      \<Rightarrow> consistency_report res" where
  "check_consistency off on v vv ek names =
     rbind (fold_res (check_item off on v vv ek) names []) (\<lambda>items.
     Inr \<lparr>cr_ok = (\<forall>item \<in> set (dict_values items). ci_status item = ConsOk), cr_items = items\<rparr>)"

section \<open>What a report says\<close>

definition item_for ::
    "offline_get_fn \<Rightarrow> online_get_fn \<Rightarrow> view_def \<Rightarrow> int \<Rightarrow> entity_key \<Rightarrow> string \<Rightarrow> consistency_item \<Rightarrow> bool" where
  "item_for off on v vv ek name item \<longleftrightarrow>
     (\<exists>f records r. map_of (features_by_name v) name = Some f
        \<and> off ek (Some name) (Some (f_version f)) (Some (v_name v)) (Some vv) = Inr records
        \<and> on (v_name v) vv ek name (f_version f) = Inr r
        \<and> item = classify name (latest_offline records) r)"

lemma check_items:
  assumes "fold_res (check_item off on v vv ek) names items = Inr items'" "dict_wf items"
  shows "dict_wf items' \<and> set (dict_keys items') = set (dict_keys items) \<union> set names
    \<and> (\<forall>name item. map_of items' name = Some item \<longrightarrow>
         map_of items name = Some item \<and> name \<notin> set names \<or> item_for off on v vv ek name item)"
  using assms
proof (induction names arbitrary: items)
  case (Cons name names)
  then obtain items1 where 1: "check_item off on v vv ek name items = Inr items1"
    "fold_res (check_item off on v vv ek) names items1 = Inr items'" by auto
  then obtain item where it: "items1 = dict_set name item items" "item_for off on v vv ek name item"
    by (auto simp: check_item_def item_for_def split: option.splits)
  from Cons.IH[OF 1(2)] it(1) Cons.prems(2) have IH: "dict_wf items'"
    "set (dict_keys items') = insert name (set (dict_keys items)) \<union> set names"
    "\<And>n i. map_of items' n = Some i \<Longrightarrow>
        map_of items1 n = Some i \<and> n \<notin> set names \<or> item_for off on v vv ek n i"
    by auto
  have "map_of items n = Some i \<and> n \<notin> set (name # names) \<or> item_for off on v vv ek n i"
    if "map_of items' n = Some i" for n i
    using IH(3)[OF that] it by (auto split: if_splits)
  with IH(1,2) show ?case by simp
qed auto

lemma check_consistencyE:
  assumes "check_consistency off on v vv ek names = Inr report"
  shows "set (dict_keys (cr_items report)) = set names"
    "map_of (cr_items report) name = Some item \<Longrightarrow> item_for off on v vv ek name item"
    "cr_ok report \<longleftrightarrow> (\<forall>name item. map_of (cr_items report) name = Some item \<longrightarrow> ci_status item = ConsOk)"
proof -
  from assms obtain items where items: "fold_res (check_item off on v vv ek) names [] = Inr items"
    and r: "report = \<lparr>cr_ok = (\<forall>item \<in> set (dict_values items). ci_status item = ConsOk), cr_items = items\<rparr>"
    by (auto simp: check_consistency_def)
  have c: "dict_wf items" "set (dict_keys items) = set names"
    "\<And>name item. map_of items name = Some item \<Longrightarrow> item_for off on v vv ek name item"
    using check_items[OF items] by (auto simp: dict_keys_def)
  show "set (dict_keys (cr_items report)) = set names" using c(2) r by simp
  show "map_of (cr_items report) name = Some item \<Longrightarrow> item_for off on v vv ek name item"
    using c(3) r by simp
  have "item \<in> set (dict_values items) \<longleftrightarrow> (\<exists>name. map_of items name = Some item)" for item
    using c(1) by (force simp: dict_values_def dict_keys_def map_of_eq_Some_iff)
  then show "cr_ok report \<longleftrightarrow> (\<forall>name item. map_of (cr_items report) name = Some item \<longrightarrow> ci_status item = ConsOk)"
    using r by auto
qed

text \<open>An item is ok exactly when both values exist, at one data timestamp, and are equal.\<close>

lemma consistency_ok_iff:
  "consistency_status off on = ConsOk \<longleftrightarrow>
     (\<exists>rec r. off = Some rec \<and> on = Some r
        \<and> instant (r_data_ts (or_result rec)) = instant (r_data_ts r)
        \<and> py_eq (r_value (or_result rec)) (r_value r))"
  by (auto simp: consistency_status_def Let_def split: option.splits if_splits)

lemma item_ok_iff:
  "(\<exists>item. item_for off on v vv ek name item \<and> ci_status item = ConsOk) \<longleftrightarrow>
     (\<exists>f records rec r. map_of (features_by_name v) name = Some f
        \<and> off ek (Some name) (Some (f_version f)) (Some (v_name v)) (Some vv) = Inr records
        \<and> on (v_name v) vv ek name (f_version f) = Inr (Some r) \<and> latest_offline records = Some rec
        \<and> instant (r_data_ts (or_result rec)) = instant (r_data_ts r)
        \<and> py_eq (r_value (or_result rec)) (r_value r))"  (is "?l \<longleftrightarrow> ?r")
proof
  assume ?l
  then obtain f records r where 1: "map_of (features_by_name v) name = Some f"
    "off ek (Some name) (Some (f_version f)) (Some (v_name v)) (Some vv) = Inr records"
    "on (v_name v) vv ek name (f_version f) = Inr r"
    "consistency_status (latest_offline records) r = ConsOk"
    by (auto simp: item_for_def classify_def)
  then show ?r by (auto simp: consistency_ok_iff)
next
  assume ?r
  then obtain f records rec r where 1: "map_of (features_by_name v) name = Some f"
    "off ek (Some name) (Some (f_version f)) (Some (v_name v)) (Some vv) = Inr records"
    "on (v_name v) vv ek name (f_version f) = Inr (Some r)" "latest_offline records = Some rec"
    "instant (r_data_ts (or_result rec)) = instant (r_data_ts r)"
    "py_eq (r_value (or_result rec)) (r_value r)" by blast
  have "item_for off on v vv ek name (classify name (latest_offline records) (Some r))"
    unfolding item_for_def using 1(1-3) by blast
  moreover have "ci_status (classify name (latest_offline records) (Some r)) = ConsOk"
    using 1(4-6) by (simp add: classify_def consistency_ok_iff)
  ultimately show ?l by blast
qed

end
