(* ===== verification/Dedup.thy ===== *)
theory Dedup
  imports PostgresOffline
begin

text \<open>
  Exact-duplicate detection (fs_core/dedup.py): the match rule, the partition loop, and the
  proof that a rerun over a store that kept the first run's new rows finds only duplicates.
\<close>

section \<open>The match rule\<close>

definition token_style :: dumps_style where
  "token_style = \<lparr>item_sep = '', '', key_sep = '': '', ensure_ascii = True, allow_nan = True,
     default_str = True\<rparr>"

definition value_token :: "(pyfloat \<Rightarrow> string) \<Rightarrow> json \<Rightarrow> string res" where
  "value_token repr v = json_dumps repr token_style v"

record signature =
  sg_key :: string
  sg_name :: string
  sg_version :: int
  sg_data_ts :: datetime
  sg_token :: string
  sg_fingerprint :: "string option"
  sg_available :: "datetime option"

definition signature :: "(pyfloat \<Rightarrow> string) \<Rightarrow> feature_result \<Rightarrow> signature res" where
  "signature repr r =
     rbind (value_token repr (r_value r)) (\<lambda>tok.
     Inr \<lparr>sg_key = ek_text (r_entity_key r), sg_name = fr_name (r_ref r),
       sg_version = fr_version (r_ref r), sg_data_ts = r_data_ts r, sg_token = tok,
       sg_fingerprint = r_input_fingerprint r, sg_available = trusted_available_at r\<rparr>)"

text \<open>Tuple equality: datetimes by Python's \<^verbatim>\<open>==\<close>.\<close>

definition sig_eq :: "signature \<Rightarrow> signature \<Rightarrow> bool" where
  "sig_eq a b \<longleftrightarrow>
     sg_key a = sg_key b \<and> sg_name a = sg_name b \<and> sg_version a = sg_version b
     \<and> dt_eq (sg_data_ts a) (sg_data_ts b) \<and> sg_token a = sg_token b
     \<and> sg_fingerprint a = sg_fingerprint b \<and> opt_dt_eq (sg_available a) (sg_available b)"

definition same_fingerprint :: "feature_result \<Rightarrow> feature_result \<Rightarrow> bool" where
  "same_fingerprint existing candidate \<longleftrightarrow>
     r_input_fingerprint existing = None \<or> r_input_fingerprint candidate = None
     \<or> r_input_fingerprint existing = r_input_fingerprint candidate"

definition same_availability :: "feature_result \<Rightarrow> feature_result \<Rightarrow> bool" where
  "same_availability existing candidate \<longleftrightarrow>
     (let e = trusted_available_at existing; c = trusted_available_at candidate
      in e = None \<or> c = None \<or> opt_dt_eq e c)"

definition exact_duplicate :: "feature_result \<Rightarrow> feature_result \<Rightarrow> bool" where
  "exact_duplicate existing candidate \<longleftrightarrow>
     dt_eq (r_data_ts existing) (r_data_ts candidate)
     \<and> py_eq (r_value existing) (r_value candidate)
     \<and> same_fingerprint existing candidate \<and> same_availability existing candidate"

definition exists_in_offline :: "offline_get_fn \<Rightarrow> string \<Rightarrow> int \<Rightarrow> feature_result \<Rightarrow> bool res" where
  "exists_in_offline get view view_version r =
     rbind (get (r_entity_key r) (Some (fr_name (r_ref r))) (Some (fr_version (r_ref r)))
              (Some view) (Some view_version)) (\<lambda>existing.
     Inr (\<exists>rec \<in> set existing. exact_duplicate (or_result rec) r))"

section \<open>The partition\<close>

record partition_state =
  ps_new :: "feature_result list"
  ps_skipped :: nat
  ps_seen :: "signature list"

definition partition_step ::
    "(pyfloat \<Rightarrow> string) \<Rightarrow> offline_get_fn \<Rightarrow> string \<Rightarrow> int \<Rightarrow> feature_result \<Rightarrow> partition_state
      \<Rightarrow> partition_state res" where
  "partition_step repr get view view_version r st =
     rbind (signature repr r) (\<lambda>sg.
     if \<exists>x \<in> set (ps_seen st). sig_eq x sg then Inr (st\<lparr>ps_skipped := ps_skipped st + 1\<rparr>)
     else rbind (exists_in_offline get view view_version r) (\<lambda>dup.
       if dup then Inr (st\<lparr>ps_skipped := ps_skipped st + 1\<rparr>)
       else Inr (st\<lparr>ps_seen := sg # ps_seen st, ps_new := ps_new st @ [r]\<rparr>)))"

definition partition_new_results ::
    "(pyfloat \<Rightarrow> string) \<Rightarrow> offline_get_fn \<Rightarrow> string \<Rightarrow> int \<Rightarrow> feature_result list
      \<Rightarrow> (feature_result list \<times> nat) res" where
  "partition_new_results repr get view view_version results =
     rbind (fold_res (partition_step repr get view view_version) results
              \<lparr>ps_new = [], ps_skipped = 0, ps_seen = []\<rparr>)
       (\<lambda>st. Inr (ps_new st, ps_skipped st))"

section \<open>What the partition keeps\<close>

lemma json_dumps_token: "\<exists>s. json_dumps repr token_style v = Inr s"
proof (induction v)
  case (JFloat f)
  then show ?case by (cases f) (simp_all add: token_style_def)
next
  case (JList xs)
  then obtain g where "\<And>x. x \<in> set xs \<Longrightarrow> json_dumps repr token_style x = Inr (g x)" by metis
  then have "map_res (json_dumps repr token_style) xs = Inr (map g xs)" by (rule map_res_all_Inr)
  then show ?case by simp
next
  case (JObj kvs)
  then have "\<And>x. x \<in> set kvs \<Longrightarrow> \<exists>t. json_dumps repr token_style (snd x) = Inr t"
    by (auto simp: snds.simps)
  then obtain g where "\<And>x. x \<in> set kvs \<Longrightarrow> json_dumps repr token_style (snd x) = Inr (g x)" by metis
  then have "map_res (\<lambda>(k, v). rbind (json_dumps repr token_style v) (\<lambda>t. Inr (k, t))) kvs
      = Inr (map (\<lambda>x. (fst x, g x)) kvs)"
    by (intro map_res_all_Inr) auto
  then show ?case by simp
qed (simp_all add: token_style_def)

lemma signature_total: "\<exists>sg. signature repr r = Inr sg"
  using json_dumps_token[of repr "r_value r"] by (auto simp: signature_def value_token_def)

text \<open>What a result is skipped for, given the results already kept.\<close>

definition covered_by ::
    "(pyfloat \<Rightarrow> string) \<Rightarrow> offline_get_fn \<Rightarrow> string \<Rightarrow> int \<Rightarrow> feature_result list \<Rightarrow> feature_result \<Rightarrow> bool" where
  "covered_by repr get view vv kept r \<longleftrightarrow>
     r \<in> set kept \<or> exists_in_offline get view vv r = Inr True
     \<or> (\<exists>k \<in> set kept. case (signature repr k, signature repr r) of
          (Inr a, Inr b) \<Rightarrow> sig_eq a b | _ \<Rightarrow> False)"

lemma covered_by_iff:
  "covered_by repr get view vv kept r \<longleftrightarrow> r \<in> set kept \<or> exists_in_offline get view vv r = Inr True
     \<or> (\<exists>k \<in> set kept. \<exists>a b. signature repr k = Inr a \<and> signature repr r = Inr b \<and> sig_eq a b)"
proof -
  have "(case (x, y) of (Inr a, Inr b) \<Rightarrow> sig_eq a b | _ \<Rightarrow> False)
      \<longleftrightarrow> (\<exists>a b. x = Inr a \<and> y = Inr b \<and> sig_eq a b)" for x y :: "signature res"
    by (cases x; cases y) auto
  then show ?thesis unfolding covered_by_def by blast
qed

lemma covered_mono: "covered_by repr get view vv kept r \<Longrightarrow> covered_by repr get view vv (kept @ ks) r"
  by (auto simp: covered_by_def)

definition seen_ok :: "(pyfloat \<Rightarrow> string) \<Rightarrow> partition_state \<Rightarrow> bool" where
  "seen_ok repr st \<longleftrightarrow> (\<forall>x \<in> set (ps_seen st). \<exists>k \<in> set (ps_new st). signature repr k = Inr x)"

lemma partition_stepE:
  assumes "partition_step repr get view vv r st = Inr st1" "seen_ok repr st"
  shows "seen_ok repr st1 \<and> covered_by repr get view vv (ps_new st1) r
    \<and> (ps_new st1 = ps_new st \<and> ps_skipped st1 = Suc (ps_skipped st)
       \<or> ps_new st1 = ps_new st @ [r] \<and> ps_skipped st1 = ps_skipped st
         \<and> exists_in_offline get view vv r = Inr False)"
proof -
  from assms(1) obtain sg where sg: "signature repr r = Inr sg" by (auto simp: partition_step_def)
  show ?thesis
  proof (cases "\<exists>x \<in> set (ps_seen st). sig_eq x sg")
    case True
    then obtain x k where "k \<in> set (ps_new st)" "signature repr k = Inr x" "sig_eq x sg"
      using assms(2) unfolding seen_ok_def by blast
    then have "covered_by repr get view vv (ps_new st) r" unfolding covered_by_def sg by fastforce
    moreover have "st1 = st\<lparr>ps_skipped := ps_skipped st + 1\<rparr>"
      using assms(1) True by (simp add: partition_step_def sg)
    ultimately show ?thesis using assms(2) by (simp add: seen_ok_def)
  next
    case False
    with assms(1) obtain dup where dup: "exists_in_offline get view vv r = Inr dup"
      "st1 = (if dup then st\<lparr>ps_skipped := ps_skipped st + 1\<rparr>
              else st\<lparr>ps_seen := sg # ps_seen st, ps_new := ps_new st @ [r]\<rparr>)"
      by (auto simp: partition_step_def sg split: if_splits)
    with assms(2) show ?thesis
      by (cases dup) (auto simp: seen_ok_def covered_by_def sg)
  qed
qed

lemma partition_loop:
  assumes "fold_res (partition_step repr get view vv) results st = Inr st'" "seen_ok repr st"
  shows "\<exists>ks. ps_new st' = ps_new st @ ks \<and> set ks \<subseteq> set results
      \<and> length ks + ps_skipped st' = ps_skipped st + length results
      \<and> (\<forall>k \<in> set ks. exists_in_offline get view vv k = Inr False)
      \<and> (\<forall>r \<in> set results. covered_by repr get view vv (ps_new st') r)"
  using assms
proof (induction results arbitrary: st)
  case (Cons r results)
  then obtain st1 where st1: "partition_step repr get view vv r st = Inr st1"
    "fold_res (partition_step repr get view vv) results st1 = Inr st'" by auto
  note step = partition_stepE[OF st1(1) Cons.prems(2)]
  from Cons.IH[OF st1(2)] step obtain ks where ks: "ps_new st' = ps_new st1 @ ks" "set ks \<subseteq> set results"
    "length ks + ps_skipped st' = ps_skipped st1 + length results"
    "\<forall>k \<in> set ks. exists_in_offline get view vv k = Inr False"
    "\<forall>r \<in> set results. covered_by repr get view vv (ps_new st') r" by blast
  have r: "covered_by repr get view vv (ps_new st') r"
    unfolding ks(1) using step by (blast intro: covered_mono)
  from step show ?case
  proof (elim conjE disjE)
    assume "ps_new st1 = ps_new st" "ps_skipped st1 = Suc (ps_skipped st)"
    with ks r show ?thesis by (intro exI[of _ ks]) auto
  next
    assume "ps_new st1 = ps_new st @ [r]" "ps_skipped st1 = ps_skipped st"
      "exists_in_offline get view vv r = Inr False"
    with ks r show ?thesis by (intro exI[of _ "r # ks"]) auto
  qed
qed simp

lemma partition_new_resultsE:
  assumes "partition_new_results repr get view vv results = Inr (new, skipped)"
  shows "set new \<subseteq> set results" "length new + skipped = length results"
    "\<And>k. k \<in> set new \<Longrightarrow> exists_in_offline get view vv k = Inr False"
    "\<And>r. r \<in> set results \<Longrightarrow> covered_by repr get view vv new r"
  using assms partition_loop[of repr get view vv results "\<lparr>ps_new = [], ps_skipped = 0, ps_seen = []\<rparr>"]
  by (auto simp: partition_new_results_def seen_ok_def)

text \<open>If every result exists in the store already, all of them are skipped.\<close>

lemma partition_all_known:
  assumes "\<forall>r \<in> set results. exists_in_offline get view vv r = Inr True"
  shows "partition_new_results repr get view vv results = Inr ([], length results)"
proof -
  have "fold_res (partition_step repr get view vv) results \<lparr>ps_new = [], ps_skipped = n, ps_seen = []\<rparr>
      = Inr \<lparr>ps_new = [], ps_skipped = n + length results, ps_seen = []\<rparr>" for n
    using assms
  proof (induction results arbitrary: n)
    case (Cons r results)
    obtain sg where "signature repr r = Inr sg" using signature_total by blast
    with Cons.prems have "partition_step repr get view vv r \<lparr>ps_new = [], ps_skipped = n, ps_seen = []\<rparr>
        = Inr \<lparr>ps_new = [], ps_skipped = Suc n, ps_seen = []\<rparr>"
      by (simp add: partition_step_def)
    with Cons show ?case by simp
  qed simp
  then show ?thesis by (simp add: partition_new_results_def)
qed

section \<open>Reruns\<close>

lemma exists_in_offline_Inr:
  "get (r_entity_key r) (Some (fr_name (r_ref r))) (Some (fr_version (r_ref r))) (Some view) (Some vv) = Inr rs
    \<Longrightarrow> exists_in_offline get view vv r = Inr (\<exists>rec \<in> set rs. exact_duplicate (or_result rec) r)"
  by (simp add: exists_in_offline_def)

lemma trusted_proj:
  assumes "r_availability_source p = r_availability_source r" "opt_dt_eq (r_available_at p) (r_available_at r)"
  shows "opt_dt_eq (trusted_available_at p) (trusted_available_at r)"
  using assms by (simp add: trusted_available_at_def)

context offline_store
begin

text \<open>A stored result matches any candidate with the same signature and an equal value.\<close>

lemma stored_duplicate:
  assumes "adm s w wv k" "signature repr k = Inr a" "signature repr r = Inr b" "sig_eq a b"
    "r_value k = r_value r" "self_equal (r_value r)"
  shows "exact_duplicate (proj k) r"
proof -
  have ab: "dt_eq (r_data_ts k) (r_data_ts r)" "r_input_fingerprint k = r_input_fingerprint r"
    "opt_dt_eq (trusted_available_at k) (trusted_available_at r)"
    using assms(2-4) by (auto simp: signature_def sig_eq_def)
  have "opt_dt_eq (trusted_available_at (proj k)) (trusted_available_at k)"
    using proj_times[OF assms(1)] proj_same(4) by (intro trusted_proj) simp_all
  then have "opt_dt_eq (trusted_available_at (proj k)) (trusted_available_at r)"
    using ab(3) by (rule opt_dt_eq_trans)
  moreover have "dt_eq (r_data_ts (proj k)) (r_data_ts r)"
    using proj_times[OF assms(1)] ab(1) by (blast intro: dt_eq_trans)
  moreover have "py_eq (r_value (proj k)) (r_value r)"
    using adm_valid[OF assms(1)] assms(5,6) by simp
  ultimately show ?thesis
    using ab(2) proj_same(3)
    by (simp add: exact_duplicate_def same_fingerprint_def same_availability_def Let_def)
qed

text \<open>
  Run the partition and append what it kept: every result is in the store. Results with one
  signature must carry one value, and values must equal themselves (a NaN never matches the
  stored NaN).
\<close>

lemma partition_durable:
  assumes "inv s" "\<forall>r \<in> set results. adm s w wv r \<and> self_equal (r_value r)"
    and sv: "\<And>r r' a b. r \<in> set results \<Longrightarrow> r' \<in> set results \<Longrightarrow> signature repr r = Inr a
      \<Longrightarrow> signature repr r' = Inr b \<Longrightarrow> sig_eq a b \<Longrightarrow> r_value r = r_value r'"
    and run: "partition_new_results repr (get s) w wv results = Inr (new, skipped)"
  shows "\<exists>s'. append_all s w wv new = Inr s' \<and> inv s'
    \<and> (\<forall>r \<in> set results. exists_in_offline (get s') w wv r = Inr True)"
proof -
  note part = partition_new_resultsE[OF run]
  have "\<forall>r \<in> set new. adm s w wv r" using assms(2) part(1) by blast
  from append_all_get[OF assms(1) this] obtain s' where s': "append_all s w wv new = Inr s'" "inv s'"
    and get': "\<And>ek name version view vv. ek_valid ek \<Longrightarrow> get s' ek name version view vv =
        rbind (get s ek name version view vv) (\<lambda>old.
        Inr (old @ filter (offline_match ek name version view vv) (map (\<lambda>r. offline_rec w wv (proj r)) new)))"
    by blast
  have "exists_in_offline (get s') w wv r = Inr True" if r: "r \<in> set results" for r
  proof -
    have adm: "adm s w wv r" and self: "self_equal (r_value r)" using assms(2) r by auto
    have ek: "ek_valid (r_entity_key r)" using adm_valid[OF adm] by simp
    let ?m = "offline_match (r_entity_key r) (Some (fr_name (r_ref r))) (Some (fr_version (r_ref r))) (Some w) (Some wv)"
    obtain old where old: "get s (r_entity_key r) (Some (fr_name (r_ref r))) (Some (fr_version (r_ref r)))
        (Some w) (Some wv) = Inr old"
      using get_ok[OF assms(1) ek] by blast
    have ex': "exists_in_offline (get s') w wv r = Inr (\<exists>rec \<in> set old \<union>
        set (filter ?m (map (\<lambda>r. offline_rec w wv (proj r)) new)). exact_duplicate (or_result rec) r)"
      by (subst exists_in_offline_Inr[where rs = "old @ filter ?m (map (\<lambda>r. offline_rec w wv (proj r)) new)"])
        (simp_all add: get'[OF ek] old)
    have new_dup: ?thesis
      if k: "k \<in> set new" "signature repr k = Inr a" "signature repr r = Inr b" "sig_eq a b" for k a b
    proof -
      have kr: "k \<in> set results" using k(1) part(1) by blast
      have kadm: "adm s w wv k" using assms(2) kr by blast
      have dup: "exact_duplicate (proj k) r"
        by (rule stored_duplicate[OF kadm k(2-4) sv[OF kr r k(2-4)] self])
      have "r_entity_key k = r_entity_key r"
        using k(2-4) ek adm_valid[OF kadm] ek_text_inj by (auto simp: signature_def sig_eq_def)
      then have "?m (offline_rec w wv (proj k))"
        using k(2-4) by (auto simp: offline_match_def offline_rec_def filter_ok_def proj_same signature_def sig_eq_def)
      with k(1) dup show ?thesis unfolding ex' by (force simp: offline_rec_def)
    qed
    from part(4)[OF r] show ?thesis
      unfolding covered_by_def
    proof (elim disjE bexE)
      assume "r \<in> set new"
      moreover obtain a where "signature repr r = Inr a" using signature_total by blast
      moreover have "sig_eq a a" by (simp add: sig_eq_def)
      ultimately show ?thesis using new_dup by blast
    next
      assume "exists_in_offline (get s) w wv r = Inr True"
      then have "\<exists>rec \<in> set old. exact_duplicate (or_result rec) r"
        using exists_in_offline_Inr[where get = "get s", OF old] by simp
      then show ?thesis unfolding ex' by auto
    next
      fix k
      assume "k \<in> set new" "case (signature repr k, signature repr r) of
          (Inr a, Inr b) \<Rightarrow> sig_eq a b | _ \<Rightarrow> False"
      then show ?thesis using new_dup by (auto split: sum.splits)
    qed
  qed
  with s' show ?thesis by blast
qed

text \<open>A second run on the same results finds duplicates only.\<close>

lemma partition_rerun:
  assumes "inv s" "\<forall>r \<in> set results. adm s w wv r \<and> self_equal (r_value r)"
    and "\<And>r r' a b. r \<in> set results \<Longrightarrow> r' \<in> set results \<Longrightarrow> signature repr r = Inr a
      \<Longrightarrow> signature repr r' = Inr b \<Longrightarrow> sig_eq a b \<Longrightarrow> r_value r = r_value r'"
    and "partition_new_results repr (get s) w wv results = Inr (new, skipped)"
  shows "\<exists>s'. append_all s w wv new = Inr s' \<and> inv s'
    \<and> partition_new_results repr (get s') w wv results = Inr ([], length results)"
proof -
  have "\<exists>s'. append_all s w wv new = Inr s' \<and> inv s'
      \<and> (\<forall>r \<in> set results. exists_in_offline (get s') w wv r = Inr True)"
    by (rule partition_durable[OF assms(1,2) _ assms(4)]) (rule assms(3))
  then show ?thesis using partition_all_known[of results] by blast
qed

text \<open>What is in the store stays there.\<close>

lemma exists_stays:
  assumes "inv s" "\<forall>k \<in> set rs. adm s w wv k" "append_all s w wv rs = Inr s'"
    "ek_valid (r_entity_key r)" "exists_in_offline (get s) v vv r = Inr True"
  shows "exists_in_offline (get s') v vv r = Inr True"
proof -
  let ?q = "\<lambda>s. get s (r_entity_key r) (Some (fr_name (r_ref r))) (Some (fr_version (r_ref r))) (Some v) (Some vv)"
  obtain old where old: "?q s = Inr old" using get_ok[OF assms(1,4)] by blast
  from append_all_get[OF assms(1,2)] assms(3,4) old obtain ks where "?q s' = Inr (old @ ks)" by force
  with old assms(5) show ?thesis by (auto simp: exists_in_offline_def)
qed

end

end
