(* ===== verification/FeatureStore.thy ===== *)
theory FeatureStore
  imports Engine OnlineStore ValkeyOnline RawReports Consistency Dedup
begin

text \<open>
  The FeatureStore workflow (fs_core/feature_store.py): resolver, context, compute core and the
  two stores composed, with the state of both stores explicit on every path, errors included;
  and the recomputation of a dependent from offline history.
\<close>

section \<open>The stores and the environment\<close>

text \<open>The operations of an offline and an online store that the workflow calls.\<close>

record ('o, 'n) store_ops =
  so_get :: "'o \<Rightarrow> offline_get_fn"
  so_get_pit :: "'o \<Rightarrow> entity_key \<Rightarrow> string \<Rightarrow> int \<Rightarrow> string \<Rightarrow> int \<Rightarrow> datetime \<Rightarrow> timedelta
    \<Rightarrow> offline_record option res"
  so_append_many :: "'o \<Rightarrow> string \<Rightarrow> int \<Rightarrow> feature_result list \<Rightarrow> 'o res"
  so_write_many :: "'n \<Rightarrow> string \<Rightarrow> int \<Rightarrow> feature_result list \<Rightarrow> (string, outcome) dict res \<times> 'n"

definition mem_ops :: "(offline_mem, online_mem) store_ops" where
  "mem_ops = \<lparr>so_get = mem_offline_get, so_get_pit = mem_get_pit,
     so_append_many = (\<lambda>s view version rs. Inr (mem_append_many s view version rs)),
     so_write_many = (\<lambda>s view version rs.
       case online_write_many s view version rs of (outs, s') \<Rightarrow> (Inr outs, s'))\<rparr>"

definition prod_ops :: "pg \<Rightarrow> (pg_table, valkey) store_ops" where
  "prod_ops P = \<lparr>so_get = pg_get P, so_get_pit = pg_get_pit P, so_append_many = pg_append_many P,
     so_write_many = (\<lambda>db view version rs. valkey_write_seq (pg_repr P) db view version rs [])\<rparr>"

record fs_env =
  fe_registry :: registry
  fe_udfs :: "(string, udf) dict"
  fe_hasher :: hasher
  fe_get_meta :: "string \<Rightarrow> raw_report_meta res"
  fe_get_payload :: "string \<Rightarrow> json res"

definition expected_types :: "fs_env \<Rightarrow> (string, string) dict" where
  "expected_types F = dict_of (map (\<lambda>s. (s_name s, s_report_type s)) (reg_sources (fe_registry F)))"

record fs_request =
  fq_view :: string
  fq_view_version :: int
  fq_entity_key :: entity_key
  fq_features :: "string list"
  fq_source_refs :: "(string, string) dict"
  fq_source_stamps :: "(string, source_stamp) dict"
  fq_calc_ts :: datetime
  fq_request_id :: "string option"
  fq_job_id :: "string option"
  fq_run_id :: "string option"
  fq_correlation_id :: "string option"
  fq_write_policy :: string

section \<open>Computing\<close>

fun status_text :: "node_status \<Rightarrow> string" where
  "status_text StOk = ''OK''"
| "status_text StDegraded = ''DEGRADED''"
| "status_text StSkipped = ''SKIPPED''"

definition fs_engine_env :: "fs_env \<Rightarrow> (string \<Rightarrow> json res) \<Rightarrow> (string, source_stamp) dict \<Rightarrow> datetime \<Rightarrow> engine_env" where
  "fs_engine_env F load stamps calc_ts =
     \<lparr>en_load = load, en_stamps = stamps, en_calc_ts = calc_ts, en_udfs = fe_udfs F,
      en_hasher = fe_hasher F\<rparr>"

definition compute_write_set :: "fs_env \<Rightarrow> (string \<Rightarrow> json res) option \<Rightarrow> fs_request \<Rightarrow> write_set res" where
  "compute_write_set F source_loader q =
     (let load = (case source_loader of Some l \<Rightarrow> l
                  | None \<Rightarrow> make_source_loader (fe_get_meta F) (fe_get_payload F) (fq_source_refs q)
                             (Some (expected_types F)))
      in rbind (compute (fs_engine_env F load (fq_source_stamps q) (fq_calc_ts q)) (fe_registry F)
                  (fq_view q) (fq_view_version q) (fq_entity_key q) (fq_features q) empty_context)
           (\<lambda>(results, cx).
         Inr \<lparr>ws_view = fq_view q, ws_view_version = fq_view_version q,
              ws_entity_key = fq_entity_key q, ws_results = results,
              ws_source_refs = fq_source_refs q, ws_request_id = fq_request_id q,
              ws_job_id = fq_job_id q, ws_run_id = fq_run_id q,
              ws_correlation_id = fq_correlation_id q, ws_write_policy = fq_write_policy q,
              ws_node_statuses = map (\<lambda>(n, s). (n, status_text s)) (cx_statuses cx)\<rparr>))"

section \<open>Computing and persisting\<close>

text \<open>An online outcome, or None for \<^verbatim>\<open>disabled\<close>.\<close>

record compute_outcome =
  cp_results :: "(string, feature_result) dict"
  cp_online :: "(string, outcome option) dict"
  cp_skipped :: nat
  cp_statuses :: "(string, string) dict"

definition fs_compute ::
    "('o, 'n) store_ops \<Rightarrow> (pyfloat \<Rightarrow> string) \<Rightarrow> fs_env \<Rightarrow> fs_request \<Rightarrow> bool \<Rightarrow> bool \<Rightarrow> 'o \<times> 'n
      \<Rightarrow> compute_outcome res \<times> 'o \<times> 'n" where
  "fs_compute ops repr F q write_online skip_dup st =
     (case st of (off, on) \<Rightarrow>
      case compute_write_set F None q of
        Inl e \<Rightarrow> (Inl e, off, on)
      | Inr ws \<Rightarrow>
      let results = dict_values (ws_results ws) in
      case (if skip_dup then partition_new_results repr (so_get ops off) (fq_view q) (fq_view_version q) results
            else Inr (results, 0)) of
        Inl e \<Rightarrow> (Inl e, off, on)
      | Inr (to_write, skipped) \<Rightarrow>
      case so_append_many ops off (fq_view q) (fq_view_version q) to_write of
        Inl e \<Rightarrow> (Inl e, off, on)
      | Inr off' \<Rightarrow>
          let out = (\<lambda>online. \<lparr>cp_results = ws_results ws, cp_online = online, cp_skipped = skipped,
                               cp_statuses = ws_node_statuses ws\<rparr>) in
          if write_online then
            (case so_write_many ops on (fq_view q) (fq_view_version q) to_write of
               (Inl e, on') \<Rightarrow> (Inl e, off', on')
             | (Inr outs, on') \<Rightarrow> (Inr (out (map (\<lambda>(k, o1). (k, Some o1)) outs)), off', on'))
          else (Inr (out (dict_of (map (\<lambda>r. (ref_text (r_ref r), None)) to_write))), off', on))"

section \<open>Recomputing a dependent\<close>

text \<open>\<^verbatim>\<open>a or b\<close> on an optional text: None and the empty text fall through.\<close>

definition text_or :: "string option \<Rightarrow> string res \<Rightarrow> string res" where
  "text_or a b = (case a of Some s \<Rightarrow> if s = [] then b else Inr s | None \<Rightarrow> b)"

definition computation_of_record :: "hasher \<Rightarrow> feature_result \<Rightarrow> computation res" where
  "computation_of_record H r =
     rbind (text_or (r_value_hash r) (value_hash_of H (r_value r))) (\<lambda>vh.
     rbind (text_or (r_input_fingerprint r) (value_hash_of H (r_value r))) (\<lambda>fp.
     Inr \<lparr>co_value = r_value r, co_data_ts = r_data_ts r,
          co_max_input = (case r_max_input_data_ts r of Some m \<Rightarrow> m | None \<Rightarrow> r_data_ts r),
          co_value_hash = vh, co_fingerprint = fp, co_status = StOk,
          co_available_at = r_available_at r, co_availability_source = r_availability_source r\<rparr>))"

text \<open>The prefill loop; the result is None when an input has no eligible value.\<close>

fun prefill ::
    "('o, 'n) store_ops \<Rightarrow> hasher \<Rightarrow> 'o \<Rightarrow> (string, feature_def) dict \<Rightarrow> string \<Rightarrow> int \<Rightarrow> entity_key
      \<Rightarrow> datetime \<Rightarrow> timedelta \<Rightarrow> feature_dep list \<Rightarrow> context_state \<Rightarrow> context_state option res" where
  "prefill ops H off fbn view version ek calc_ts gap [] cx = Inr (Some cx)"
| "prefill ops H off fbn view version ek calc_ts gap (dep # deps) cx =
     (case map_of fbn (d_feature dep) of
        None \<Rightarrow> Inl (ValueError ''depends on unknown feature'')
      | Some target \<Rightarrow>
          let fver = (case d_version dep of Some v \<Rightarrow> v | None \<Rightarrow> f_version target) in
          rbind (so_get_pit ops off ek (d_feature dep) fver view version calc_ts gap) (\<lambda>rec.
          case rec of
            None \<Rightarrow> Inr None
          | Some x \<Rightarrow>
              rbind (computation_of_record H (or_result x)) (\<lambda>c.
              prefill ops H off fbn view version ek calc_ts gap deps (cache_feature (d_feature dep) c cx))))"

definition compute_dependent_from_offline ::
    "('o, 'n) store_ops \<Rightarrow> fs_env \<Rightarrow> 'o \<Rightarrow> string \<Rightarrow> int \<Rightarrow> entity_key \<Rightarrow> string \<Rightarrow> datetime \<Rightarrow> timedelta
      \<Rightarrow> feature_result option res" where
  "compute_dependent_from_offline ops F off view version ek name calc_ts gap =
     rbind (reg_find_view (fe_registry F) view version) (\<lambda>v.
     let fbn = features_by_name v in
     case map_of fbn name of
       None \<Rightarrow> Inl (ValueError ''unknown feature'')
     | Some f \<Rightarrow>
         rbind (prefill ops (fe_hasher F) off fbn view version ek calc_ts gap (f_deps f) empty_context)
           (\<lambda>cx.
         case cx of
           None \<Rightarrow> Inr None
         | Some cx \<Rightarrow>
             let no_source = (\<lambda>_. Inl (ValueError ''recompute wave cannot read raw source'')) in
             rbind (compute (fs_engine_env F no_source [] calc_ts) (fe_registry F) view version ek [name] cx)
               (\<lambda>(results, cx'). Inr (map_of results name))))"

section \<open>Reruns\<close>

lemma computation_result_fields:
  "computation_result f ek t c = Inr r \<Longrightarrow>
     r_ref r = f_ref f \<and> r_entity_key r = ek \<and> r_value r = co_value c \<and> r_data_ts r = co_data_ts c
     \<and> r_calc_ts r = t \<and> r_max_input_data_ts r = Some (co_max_input c)
     \<and> r_available_at r = co_available_at c \<and> r_availability_source r = co_availability_source c
     \<and> result_ok r"
  by (auto simp: computation_result_def)

text \<open>The results of a request: one per distinct name, for the requested entity.\<close>

lemma compute_write_set_results:
  assumes "compute_write_set F loader q = Inr ws"
  shows "dict_wf (ws_results ws)"
    "\<And>n r. map_of (ws_results ws) n = Some r \<Longrightarrow>
        r_entity_key r = fq_entity_key q \<and> fr_name (r_ref r) = n \<and> result_ok r"
proof -
  from assms obtain load cx where
    c: "compute (fs_engine_env F load (fq_source_stamps q) (fq_calc_ts q)) (fe_registry F)
          (fq_view q) (fq_view_version q) (fq_entity_key q) (fq_features q) empty_context
        = Inr (ws_results ws, cx)"
    by (auto simp: compute_write_set_def Let_def)
  from computeE[OF c] obtain v where
    r: "results_right (fs_engine_env F load (fq_source_stamps q) (fq_calc_ts q)) (features_by_name v)
        (fq_entity_key q) cx (ws_results ws)"
    and wf: "dict_wf (ws_results ws)"
    by auto
  show "dict_wf (ws_results ws)" by (rule wf)
  fix n r
  assume "map_of (ws_results ws) n = Some r"
  with r obtain f c where "map_of (features_by_name v) n = Some f"
    "computation_result f (fq_entity_key q) (fq_calc_ts q) c = Inr r"
    unfolding results_right_def fs_engine_env_def by (simp, blast)
  then show "r_entity_key r = fq_entity_key q \<and> fr_name (r_ref r) = n \<and> result_ok r"
    using computation_result_fields features_by_name_Some by (fastforce simp: f_ref_def)
qed

lemma dict_values_mem: "r \<in> set (dict_values d) \<Longrightarrow> dict_wf d \<Longrightarrow> \<exists>n. map_of d n = Some r"
  by (force simp: dict_values_def dict_keys_def map_of_eq_Some_iff)

text \<open>A second identical call with duplicate skipping appends nothing and reports every result.\<close>

lemma mem_append_all: "memoff.append_all s w wv rs = Inr (mem_append_many s w wv rs)"
  unfolding memoff.append_all_def mem_append_many_def
  by (induction rs arbitrary: s) simp_all

lemma fs_compute_rerun:
  assumes inv: "mem_hist_ok off" and ek: "ek_valid (fq_entity_key q)"
    and run: "fs_compute mem_ops repr F q wo True (off, on) = (Inr out, off1, on1)"
    and self: "\<And>n r. map_of (cp_results out) n = Some r \<Longrightarrow> self_equal (r_value r)"
  shows "\<exists>out2. fs_compute mem_ops repr F q wo True (off1, on1) = (Inr out2, off1, on1)
    \<and> cp_results out2 = cp_results out \<and> cp_skipped out2 = length (cp_results out)
    \<and> cp_online out2 = []"
proof -
  from run obtain ws where ws: "compute_write_set F None q = Inr ws"
    by (auto simp: fs_compute_def split: sum.splits)
  let ?rs = "dict_values (ws_results ws)"
  from run ws obtain new skipped where
    part: "partition_new_results repr (mem_offline_get off) (fq_view q) (fq_view_version q) ?rs = Inr (new, skipped)"
    and off1: "off1 = mem_append_many off (fq_view q) (fq_view_version q) new"
    and res: "cp_results out = ws_results ws"
    by (auto simp: fs_compute_def mem_ops_def Let_def split: sum.splits if_splits prod.splits)
  note w = compute_write_set_results[OF ws]
  have mem: "\<exists>n. map_of (ws_results ws) n = Some r" if "r \<in> set ?rs" for r
    using dict_values_mem[OF that w(1)] .
  have adm: "\<forall>r \<in> set ?rs. mem_result_adm off (fq_view q) (fq_view_version q) r \<and> self_equal (r_value r)"
  proof
    fix r
    assume "r \<in> set ?rs"
    then obtain n where "map_of (ws_results ws) n = Some r" using mem by blast
    with w(2) ek self[unfolded res]
    show "mem_result_adm off (fq_view q) (fq_view_version q) r \<and> self_equal (r_value r)"
      by (simp add: mem_result_adm_def)
  qed
  have sv: "r_value r = r_value r'" if "r \<in> set ?rs" "r' \<in> set ?rs" "signature repr r = Inr a"
    "signature repr r' = Inr b" "sig_eq a b" for r r' a b
  proof -
    have "fr_name (r_ref r) = fr_name (r_ref r')" using that(3-5) by (auto simp: signature_def sig_eq_def)
    with mem[OF that(1)] mem[OF that(2)] w(2) have "r = r'" by (metis option.inject)
    then show ?thesis by simp
  qed
  from memoff.partition_rerun[OF inv adm sv part] off1 have
    "partition_new_results repr (mem_offline_get off1) (fq_view q) (fq_view_version q) ?rs = Inr ([], length ?rs)"
    by (simp add: mem_append_all)
  then show ?thesis
    using res by (auto simp: fs_compute_def ws mem_ops_def Let_def mem_append_many_def online_write_many_def
        dict_of_def dict_values_def)
qed

section \<open>Recomputation reads only eligible history\<close>

text \<open>What the prefill caches: the newest eligible value of each dependency.\<close>

definition from_history :: "hasher \<Rightarrow> datetime \<Rightarrow> timedelta \<Rightarrow> computation \<Rightarrow> bool" where
  "from_history H calc_ts gap c \<longleftrightarrow>
     (\<exists>r. pit_allowed calc_ts gap r \<and> computation_of_record H r = Inr c)"

lemma from_history_cutoff:
  "from_history H calc_ts gap c \<Longrightarrow> instant (co_data_ts c) \<le> instant calc_ts - gap"
  by (auto simp: from_history_def computation_of_record_def pit_allowed_def)

lemma prefill_spec:
  assumes "prefill mem_ops H off fbn view version ek calc_ts gap deps cx = Inr (Some cx')"
    "mem_hist_ok off" "ek_valid ek" "pit_args_ok calc_ts gap"
    "\<forall>n c. feats cx n = Some c \<longrightarrow> from_history H calc_ts gap c"
  shows "(\<forall>n c. feats cx' n = Some c \<longrightarrow> from_history H calc_ts gap c)
    \<and> dom (feats cx') = dom (feats cx) \<union> d_feature ` set deps"
  using assms(1,5)
proof (induction deps arbitrary: cx)
  case (Cons dep deps)
  then obtain target rec c where t: "map_of fbn (d_feature dep) = Some target"
    and rec: "mem_get_pit off ek (d_feature dep)
        (case d_version dep of Some v \<Rightarrow> v | None \<Rightarrow> f_version target) view version calc_ts gap = Inr (Some rec)"
    and c: "computation_of_record H (or_result rec) = Inr c"
    and rest: "prefill mem_ops H off fbn view version ek calc_ts gap deps (cache_feature (d_feature dep) c cx) = Inr (Some cx')"
    by (auto simp: Let_def mem_ops_def split: option.splits)
  have "pit_allowed calc_ts gap (or_result rec)"
    using memoff.get_pit_selected(2)[OF assms(2-4) rec] .
  with c have h: "from_history H calc_ts gap c" by (auto simp: from_history_def)
  have fs: "feats (cache_feature (d_feature dep) c cx) = (feats cx)(d_feature dep \<mapsto> c)"
    by (simp add: cache_feature_def)
  have "\<forall>n k. feats (cache_feature (d_feature dep) c cx) n = Some k \<longrightarrow> from_history H calc_ts gap k"
    using Cons.prems(2) h by (auto simp: fs)
  from Cons.IH[OF rest this] show ?case by (auto simp: fs)
qed simp

lemma engine_find_same:
  "engine_find_view vs name version = Inr v \<Longrightarrow> find_view_in vs name version = Some v"
  by (induction vs) (auto split: if_splits)

lemma no_stamps: "map_res (source_input []) names = Inr srcs \<Longrightarrow> names = [] \<and> srcs = []"
  by (cases names) (auto simp: source_input_def)

lemma compute_one:
  assumes "compute E reg view version ek [name] cx = Inr (results, cx')" "map_of results name = Some r"
    "\<And>v. v \<in> set (reg_views reg) \<Longrightarrow> v_name v = view \<Longrightarrow> ctx_ok E (features_by_name v) B cx"
  shows "\<exists>v f c. find_view_in (reg_views reg) view version = Some v \<and> map_of (features_by_name v) name = Some f
    \<and> feats cx' name = Some c \<and> computation_result f ek (en_calc_ts E) c = Inr r
    \<and> ctx_ok E (features_by_name v) B cx' \<and> feats cx \<subseteq>\<^sub>m feats cx'"
proof -
  from assms(1) obtain v where v: "engine_find_view (reg_views reg) view version = Inr v"
    and f: "fold_res (compute_step E (features_by_name v) ek) [name] ([], cx) = Inr (results, cx')"
    unfolding compute_def by auto
  note v' = engine_find_view_Inr[OF v]
  have "results_right E (features_by_name v) ek cx []" by (simp add: results_right_def)
  from compute_steps_right[OF f assms(3) this] v' assms(2) have
    "ctx_ok E (features_by_name v) B cx'" "feats cx \<subseteq>\<^sub>m feats cx'"
    "results_right E (features_by_name v) ek cx' results" by auto
  with assms(2) engine_find_same[OF v] show ?thesis
    unfolding results_right_def by blast
qed

text \<open>
  Neither the newest nor the oldest input of a recomputed dependent lies past the cutoff.
\<close>

lemma dependent_within_cutoff:
  assumes "mem_hist_ok off" "ek_valid ek" "pit_args_ok calc_ts gap"
    and run: "compute_dependent_from_offline mem_ops F off view version ek name calc_ts gap = Inr (Some r)"
    and acyclic: "\<And>v f. find_view_in (reg_views (fe_registry F)) view version = Some v \<Longrightarrow>
      map_of (features_by_name v) name = Some f \<Longrightarrow> name \<notin> set (dep_names f)"
  shows "instant (r_data_ts r) \<le> instant calc_ts - gap
    \<and> (\<exists>m. r_max_input_data_ts r = Some m \<and> instant m \<le> instant calc_ts - gap)
    \<and> r_calc_ts r = calc_ts \<and> r_entity_key r = ek"
proof -
  let ?H = "fe_hasher F"
  let ?E = "fs_engine_env F (\<lambda>_. Inl (ValueError ''recompute wave cannot read raw source'')) [] calc_ts"
  from run obtain v f cx results cx' where
    v: "find_view_in (reg_views (fe_registry F)) view version = Some v"
    and f: "map_of (features_by_name v) name = Some f"
    and pre: "prefill mem_ops ?H off (features_by_name v) view version ek calc_ts gap (f_deps f) empty_context
        = Inr (Some cx)"
    and c: "compute ?E (fe_registry F) view version ek [name] cx = Inr (results, cx')"
    and r: "map_of results name = Some r"
    by (auto simp: compute_dependent_from_offline_def reg_find_view_def Let_def split: option.splits)
  from prefill_spec[OF pre assms(1-3)] have
    hist: "\<And>n k. feats cx n = Some k \<Longrightarrow> from_history ?H calc_ts gap k"
    and d: "dom (feats cx) = d_feature ` set (f_deps f)"
    by (auto simp: empty_context_def)
  have "ctx_ok ?E (features_by_name w) (feats cx) cx" for w by (simp add: ctx_ok_def)
  from compute_one[OF c r this] v f obtain k where
    k: "feats cx' name = Some k" "computation_result f ek (en_calc_ts ?E) k = Inr r"
    and ok: "ctx_ok ?E (features_by_name v) (feats cx) cx'" and le: "feats cx \<subseteq>\<^sub>m feats cx'"
    by (elim exE conjE) (simp only: option.inject)
  have "feats cx name = None" using d acyclic[OF v f] by (auto simp: dep_names_def)
  with ok k(1) f have "node_right ?E (features_by_name v) (feats cx') f k"
    unfolding ctx_ok_def by fastforce
  then obtain sources comps degraded where
    node: "compute_node ?E (features_by_name v) f sources comps degraded = Inr k"
    and comps: "dict_wf comps" "comps_in (feats cx') comps" "set (dict_keys comps) \<subseteq> d_feature ` set (f_deps f)"
    unfolding node_right_def by blast
  obtain srcs deps where
    srcs: "map_res (source_input (en_stamps ?E)) (f_inputs f) = Inr srcs"
    and deps: "map_res (dep_input (features_by_name v)) comps = Inr deps"
    and meta: "node_meta (en_hasher ?E) (srcs @ deps) k"
    by (rule compute_nodeE[OF node]) (rule that, assumption+)
  have "srcs = []" using no_stamps srcs by (simp add: fs_engine_env_def)
  have cut: "instant (ni_ts i) \<le> instant calc_ts - gap" if "i \<in> set deps" for i
  proof -
    from map_res_set[OF deps that] obtain y where y: "y \<in> set comps" "dep_input (features_by_name v) y = Inr i"
      by blast
    obtain n x where yx: "y = (n, x)" by (cases y)
    with y have nx: "(n, x) \<in> set comps" "ni_ts i = co_data_ts x"
      by (auto simp: dep_input_def split: option.splits)
    then have "map_of comps n = Some x" using comps(1) by (simp add: dict_keys_def map_of_eq_Some_iff)
    with comps(2) have x: "feats cx' n = Some x" by (simp add: comps_in_def)
    have "n \<in> dom (feats cx)" using nx(1) comps(3) d by (force simp: dict_keys_def)
    with le x have "feats cx n = Some x" by (auto simp: map_le_def)
    then show ?thesis using from_history_cutoff[OF hist] nx(2) by simp
  qed
  have "instant (co_data_ts k) \<le> instant calc_ts - gap" "instant (co_max_input k) \<le> instant calc_ts - gap"
    using meta cut \<open>srcs = []\<close> by (auto simp: node_meta_def)
  with computation_result_fields[OF k(2)] show ?thesis by (simp add: fs_engine_env_def)
qed

text \<open>A dependency without an eligible value skips the dependent, optional or not.\<close>

lemma prefill_missing:
  assumes "map_of fbn (d_feature dep) = Some target"
    "so_get_pit ops off ek (d_feature dep)
       (case d_version dep of Some v \<Rightarrow> v | None \<Rightarrow> f_version target) view version calc_ts gap = Inr None"
  shows "prefill ops H off fbn view version ek calc_ts gap (dep # deps) cx = Inr None"
  using assms by (simp add: Let_def)

lemma prefill_needs_all:
  assumes "prefill ops H off fbn view version ek calc_ts gap deps cx = Inr (Some cx')" "dep \<in> set deps"
  shows "\<exists>target rec. map_of fbn (d_feature dep) = Some target
    \<and> so_get_pit ops off ek (d_feature dep)
        (case d_version dep of Some v \<Rightarrow> v | None \<Rightarrow> f_version target) view version calc_ts gap = Inr (Some rec)"
  using assms
proof (induction deps arbitrary: cx)
  case (Cons d deps)
  then obtain target rec c where "map_of fbn (d_feature d) = Some target"
    "so_get_pit ops off ek (d_feature d)
        (case d_version d of Some v \<Rightarrow> v | None \<Rightarrow> f_version target) view version calc_ts gap = Inr (Some rec)"
    "prefill ops H off fbn view version ek calc_ts gap deps (cache_feature (d_feature d) c cx) = Inr (Some cx')"
    by (auto simp: Let_def split: option.splits)
  with Cons show ?case by auto
qed simp

lemma dependent_needs_all:
  assumes "compute_dependent_from_offline ops F off view version ek name calc_ts gap = Inr (Some r)"
    "find_view_in (reg_views (fe_registry F)) view version = Some v"
    "map_of (features_by_name v) name = Some f" "dep \<in> set (f_deps f)"
  shows "\<exists>target rec. map_of (features_by_name v) (d_feature dep) = Some target
    \<and> so_get_pit ops off ek (d_feature dep)
        (case d_version dep of Some w \<Rightarrow> w | None \<Rightarrow> f_version target) view version calc_ts gap = Inr (Some rec)"
proof -
  from assms(1-3) obtain cx where
    "prefill ops (fe_hasher F) off (features_by_name v) view version ek calc_ts gap (f_deps f) empty_context = Inr (Some cx)"
    by (auto simp: compute_dependent_from_offline_def reg_find_view_def Let_def split: option.splits)
  from prefill_needs_all[OF this assms(4)] show ?thesis .
qed

end
