(* ===== verification/Training.thy ===== *)
theory Training
  imports Dedup Registry
begin

text \<open>
  The point-in-time training dataset builder (fs_core/training.py), over any offline store's
  lookup, and the guarantees on every cell of the dataset it returns.
\<close>

section \<open>The dataset\<close>

datatype cell_status = CellOk | CellMissing

record observation =
  ob_entity :: "(string, string) dict"
  ob_ts :: datetime
  ob_context :: "json option"

record training_cell =
  tc_status :: cell_status
  tc_value :: json
  tc_version :: "int option"
  tc_data_ts :: "datetime option"

record training_row =
  tr_entity :: "(string, string) dict"
  tr_observation_ts :: datetime
  tr_context :: "json option"
  tr_features :: "(string, json) dict"
  tr_metadata :: "(string, training_cell) dict"

record training_summary =
  su_rows :: nat
  su_features :: nat
  su_missing :: nat
  su_future_ignored :: nat
  su_gap_seconds :: int

record training_dataset =
  td_rows :: "training_row list"
  td_summary :: training_summary

section \<open>The builder\<close>

text \<open>The two policies; any other text is rejected.\<close>

definition keep_null :: string where "keep_null = ''keep_null''"
definition error_policy :: string where "error_policy = ''error''"

definition training_versions :: "view_def \<Rightarrow> string list \<Rightarrow> (string, int) dict res" where
  "training_versions v names =
     fold_res (\<lambda>name versions.
       case map_of (features_by_name v) name of
         None \<Rightarrow> Inl (ValueError ''unknown feature'')
       | Some f \<Rightarrow> Inr (dict_set name (f_version f) versions)) names []"

definition missing_cell :: training_cell where
  "missing_cell = \<lparr>tc_status = CellMissing, tc_value = JNull, tc_version = None, tc_data_ts = None\<rparr>"

definition ok_cell :: "feature_result \<Rightarrow> training_cell" where
  "ok_cell r = \<lparr>tc_status = CellOk, tc_value = r_value r, tc_version = Some (fr_version (r_ref r)),
     tc_data_ts = Some (r_data_ts r)\<rparr>"

text \<open>The state of the inner loop: the two dicts of the row and the two running counters.\<close>

record cell_state =
  cs_features :: "(string, json) dict"
  cs_metadata :: "(string, training_cell) dict"
  cs_missing :: nat
  cs_ignored :: nat

definition training_cell_step ::
    "offline_get_fn \<Rightarrow> view_def \<Rightarrow> int \<Rightarrow> (string, int) dict \<Rightarrow> entity_key \<Rightarrow> datetime \<Rightarrow> string
      \<Rightarrow> timedelta \<Rightarrow> string \<Rightarrow> cell_state \<Rightarrow> cell_state res" where
  "training_cell_step get v vv versions ek obs policy gap name st =
     (case map_of versions name of
        None \<Rightarrow> Inl (KeyError name)
      | Some version \<Rightarrow>
     rbind (get ek (Some name) (Some version) (Some (v_name v)) (Some vv)) (\<lambda>records.
     rbind (select_pit records obs gap) (\<lambda>(selected, ignored).
     let st = st\<lparr>cs_ignored := cs_ignored st + ignored\<rparr> in
     case selected of
       None \<Rightarrow>
         if policy = error_policy then Inl (ValueError ''missing feature'')
         else Inr (st\<lparr>cs_features := dict_set name JNull (cs_features st),
                     cs_metadata := dict_set name missing_cell (cs_metadata st),
                     cs_missing := cs_missing st + 1\<rparr>)
     | Some rec \<Rightarrow>
         Inr (st\<lparr>cs_features := dict_set name (r_value (or_result rec)) (cs_features st),
                 cs_metadata := dict_set name (ok_cell (or_result rec)) (cs_metadata st)\<rparr>))))"

definition observation_key :: "view_def \<Rightarrow> observation \<Rightarrow> entity_key res" where
  "observation_key v ob =
     rbind (map_res (\<lambda>field. rbind (dict_index (ob_entity ob) field) (\<lambda>x. Inr (field, x)))
              (v_key_fields v)) (\<lambda>kvs.
     ek_from_mapping (dict_of kvs) (Some (v_key_fields v)))"

definition training_row_step ::
    "offline_get_fn \<Rightarrow> view_def \<Rightarrow> int \<Rightarrow> (string, int) dict \<Rightarrow> string list \<Rightarrow> string \<Rightarrow> timedelta
      \<Rightarrow> observation \<Rightarrow> training_row list \<times> nat \<times> nat \<Rightarrow> (training_row list \<times> nat \<times> nat) res" where
  "training_row_step get v vv versions names policy gap ob acc =
     (case acc of (rows, missing, ignored) \<Rightarrow>
     rbind (require_aware (ob_ts ob)) (\<lambda>_.
     rbind (observation_key v ob) (\<lambda>ek.
     rbind (fold_res (training_cell_step get v vv versions ek (ob_ts ob) policy gap) names
              \<lparr>cs_features = [], cs_metadata = [], cs_missing = missing, cs_ignored = ignored\<rparr>) (\<lambda>st.
     Inr (rows @ [\<lparr>tr_entity = ob_entity ob, tr_observation_ts = ob_ts ob, tr_context = ob_context ob,
                   tr_features = cs_features st, tr_metadata = cs_metadata st\<rparr>],
          cs_missing st, cs_ignored st)))))"

definition build_training_dataset ::
    "offline_get_fn \<Rightarrow> view_def \<Rightarrow> int \<Rightarrow> string list \<Rightarrow> observation list \<Rightarrow> string \<Rightarrow> timedelta
      \<Rightarrow> training_dataset res" where
  "build_training_dataset get v vv names observations policy gap =
     rbind (require (policy \<in> {keep_null, error_policy}) (ValueError ''unknown missing_policy'')) (\<lambda>_.
     rbind (require (0 \<le> gap) (ValueError ''safety_gap must be non-negative'')) (\<lambda>_.
     rbind (training_versions v names) (\<lambda>versions.
     rbind (fold_res (training_row_step get v vv versions names policy gap) observations ([], 0, 0))
       (\<lambda>(rows, missing, ignored).
     Inr \<lparr>td_rows = rows,
          td_summary = \<lparr>su_rows = length rows, su_features = length names, su_missing = missing,
            su_future_ignored = ignored, su_gap_seconds = gap div 1000000\<rparr>\<rparr>))))"

section \<open>What a row holds\<close>

text \<open>
  A cell is right for an observation when it is the value of an allowed stored record that no
  other allowed record is newer than, or is missing and no stored record is allowed.
\<close>

definition cell_right ::
    "offline_get_fn \<Rightarrow> view_def \<Rightarrow> int \<Rightarrow> entity_key \<Rightarrow> datetime \<Rightarrow> timedelta \<Rightarrow> string \<Rightarrow> int
      \<Rightarrow> training_cell \<Rightarrow> bool" where
  "cell_right get v vv ek obs gap name version cell \<longleftrightarrow>
     (\<exists>records. get ek (Some name) (Some version) (Some (v_name v)) (Some vv) = Inr records
        \<and> (if tc_status cell = CellOk then
             \<exists>rec \<in> set records. pit_allowed obs gap (or_result rec) \<and> cell = ok_cell (or_result rec)
               \<and> (\<forall>x \<in> set records. pit_allowed obs gap (or_result x) \<longrightarrow> pit_key x \<le> pit_key rec)
           else cell = missing_cell \<and> (\<forall>x \<in> set records. \<not> pit_allowed obs gap (or_result x))))"

definition row_right ::
    "offline_get_fn \<Rightarrow> view_def \<Rightarrow> int \<Rightarrow> (string, int) dict \<Rightarrow> string list \<Rightarrow> timedelta
      \<Rightarrow> observation \<Rightarrow> training_row \<Rightarrow> bool" where
  "row_right get v vv versions names gap ob row \<longleftrightarrow>
     tr_entity row = ob_entity ob \<and> tr_observation_ts row = ob_ts ob \<and> tr_context row = ob_context ob
     \<and> aware (ob_ts ob)
     \<and> (\<exists>ek. observation_key v ob = Inr ek
         \<and> (\<forall>name \<in> set names. \<exists>version cell. map_of versions name = Some version
              \<and> map_of (tr_metadata row) name = Some cell
              \<and> map_of (tr_features row) name = Some (tc_value cell)
              \<and> cell_right get v vv ek (ob_ts ob) gap name version cell))"

definition cells_right ::
    "offline_get_fn \<Rightarrow> view_def \<Rightarrow> int \<Rightarrow> (string, int) dict \<Rightarrow> entity_key \<Rightarrow> datetime \<Rightarrow> timedelta
      \<Rightarrow> string set \<Rightarrow> cell_state \<Rightarrow> bool" where
  "cells_right get v vv versions ek obs gap done_names st \<longleftrightarrow>
     (\<forall>name \<in> done_names. \<exists>version cell. map_of versions name = Some version
        \<and> map_of (cs_metadata st) name = Some cell
        \<and> map_of (cs_features st) name = Some (tc_value cell)
        \<and> cell_right get v vv ek obs gap name version cell)"

lemma training_cell_stepE:
  assumes step: "training_cell_step get v vv versions ek obs policy gap name st = Inr st'"
    and ok: "\<forall>name version rs. get ek (Some name) (Some version) (Some (v_name v)) (Some vv) = Inr rs
      \<longrightarrow> records_ok rs"
  shows "\<exists>version cell. map_of versions name = Some version
    \<and> cs_metadata st' = dict_set name cell (cs_metadata st)
    \<and> cs_features st' = dict_set name (tc_value cell) (cs_features st)
    \<and> cell_right get v vv ek obs gap name version cell"
proof -
  from step obtain version records sel ignored where
    v: "map_of versions name = Some version"
    and g: "get ek (Some name) (Some version) (Some (v_name v)) (Some vv) = Inr records"
    and s: "select_pit records obs gap = Inr (sel, ignored)"
    by (auto simp: training_cell_step_def split: option.splits)
  have rok: "records_ok records" using ok g by blast
  show ?thesis
  proof (cases sel)
    case None
    with step v g s have "cs_metadata st' = dict_set name missing_cell (cs_metadata st)"
      "cs_features st' = dict_set name JNull (cs_features st)"
      by (auto simp: training_cell_step_def Let_def split: if_splits)
    moreover have "cell_right get v vv ek obs gap name version missing_cell"
      using select_pit_None[OF rok s[unfolded None]] g by (simp add: cell_right_def missing_cell_def)
    ultimately show ?thesis using v by (intro exI[of _ version] exI[of _ missing_cell]) (simp add: missing_cell_def)
  next
    case (Some rec)
    with step v g s have "cs_metadata st' = dict_set name (ok_cell (or_result rec)) (cs_metadata st)"
      "cs_features st' = dict_set name (r_value (or_result rec)) (cs_features st)"
      by (auto simp: training_cell_step_def Let_def)
    moreover have "cell_right get v vv ek obs gap name version (ok_cell (or_result rec))"
      using select_pit_selected[OF rok s[unfolded Some]] g by (auto simp: cell_right_def ok_cell_def)
    ultimately show ?thesis
      using v by (intro exI[of _ version] exI[of _ "ok_cell (or_result rec)"]) (simp add: ok_cell_def)
  qed
qed

lemma training_cells:
  assumes "fold_res (training_cell_step get v vv versions ek obs policy gap) names st = Inr st'"
    and ok: "\<forall>name version rs. get ek (Some name) (Some version) (Some (v_name v)) (Some vv) = Inr rs
      \<longrightarrow> records_ok rs"
    and "cells_right get v vv versions ek obs gap D st"
  shows "cells_right get v vv versions ek obs gap (D \<union> set names) st'"
  using assms(1,3)
proof (induction names arbitrary: st D)
  case (Cons name names)
  then obtain st1 where st1: "training_cell_step get v vv versions ek obs policy gap name st = Inr st1"
    "fold_res (training_cell_step get v vv versions ek obs policy gap) names st1 = Inr st'" by auto
  from training_cell_stepE[OF st1(1) ok] obtain version cell where
    c: "map_of versions name = Some version" "cs_metadata st1 = dict_set name cell (cs_metadata st)"
    "cs_features st1 = dict_set name (tc_value cell) (cs_features st)"
    "cell_right get v vv ek obs gap name version cell" by blast
  have "cells_right get v vv versions ek obs gap (insert name D) st1"
    using Cons.prems(2) c by (auto simp: cells_right_def)
  from Cons.IH[OF st1(2) this] show ?case by simp
qed simp

definition stored_ok :: "offline_get_fn \<Rightarrow> bool" where
  "stored_ok get \<longleftrightarrow>
     (\<forall>ek name version view vv rs. ek_valid ek \<longrightarrow> get ek name version view vv = Inr rs \<longrightarrow> records_ok rs)"

lemma training_rows:
  assumes "fold_res (training_row_step get v vv versions names policy gap) obs (rows, m, n) = Inr (rows', m', n')"
    and ok: "stored_ok get"
  shows "\<exists>new. rows' = rows @ new \<and> list_all2 (row_right get v vv versions names gap) obs new"
  using assms(1)
proof (induction obs arbitrary: rows m n)
  case (Cons ob obs)
  then obtain acc where step: "training_row_step get v vv versions names policy gap ob (rows, m, n) = Inr acc"
    and tail: "fold_res (training_row_step get v vv versions names policy gap) obs acc = Inr (rows', m', n')"
    by auto
  from step obtain ek st where ob: "aware (ob_ts ob)" "observation_key v ob = Inr ek"
    and st: "fold_res (training_cell_step get v vv versions ek (ob_ts ob) policy gap) names
        \<lparr>cs_features = [], cs_metadata = [], cs_missing = m, cs_ignored = n\<rparr> = Inr st"
    and acc: "acc = (rows @ [\<lparr>tr_entity = ob_entity ob, tr_observation_ts = ob_ts ob, tr_context = ob_context ob,
                   tr_features = cs_features st, tr_metadata = cs_metadata st\<rparr>],
          cs_missing st, cs_ignored st)"
    by (auto simp: training_row_step_def)
  note rest = tail[unfolded acc]
  from Cons.IH[OF rest] obtain new where new:
    "rows' = (rows @ [\<lparr>tr_entity = ob_entity ob, tr_observation_ts = ob_ts ob, tr_context = ob_context ob,
                   tr_features = cs_features st, tr_metadata = cs_metadata st\<rparr>]) @ new"
    "list_all2 (row_right get v vv versions names gap) obs new" by blast
  have "ek_valid ek" using ob(2) from_mapping_valid by (auto simp: observation_key_def)
  then have "\<forall>name version rs. get ek (Some name) (Some version) (Some (v_name v)) (Some vv) = Inr rs
      \<longrightarrow> records_ok rs"
    using ok unfolding stored_ok_def by blast
  from training_cells[OF st this, of "{}"]
  have "cells_right get v vv versions ek (ob_ts ob) gap (set names) st" by (simp add: cells_right_def)
  with ob have "row_right get v vv versions names gap ob
      \<lparr>tr_entity = ob_entity ob, tr_observation_ts = ob_ts ob, tr_context = ob_context ob,
                   tr_features = cs_features st, tr_metadata = cs_metadata st\<rparr>"
    by (simp add: row_right_def cells_right_def)
  with new show ?case by (intro exI) (auto simp: append_assoc)
qed simp

lemma training_versions_lookup:
  assumes "training_versions v names = Inr versions" "map_of versions name = Some version"
  shows "\<exists>f \<in> set (v_features v). f_name f = name \<and> f_version f = version"
proof -
  let ?P = "\<lambda>versions. \<forall>n w. map_of versions n = Some w \<longrightarrow>
      (\<exists>f \<in> set (v_features v). f_name f = n \<and> f_version f = w)"
  have "?P versions"
    by (rule fold_res_invariant[OF assms(1)[unfolded training_versions_def]])
      (fastforce split: option.splits if_splits dest: features_by_name_Some)+
  with assms(2) show ?thesis by blast
qed

lemma build_training_datasetE:
  assumes "build_training_dataset get v vv names obs policy gap = Inr ds" "stored_ok get"
  shows "\<exists>versions. training_versions v names = Inr versions
    \<and> list_all2 (row_right get v vv versions names gap) obs (td_rows ds)"
proof -
  from assms(1) obtain versions rows m n where v: "training_versions v names = Inr versions"
    and r: "fold_res (training_row_step get v vv versions names policy gap) obs ([], 0, 0) = Inr (rows, m, n)"
    and ds: "td_rows ds = rows"
    by (auto simp: build_training_dataset_def)
  from training_rows[OF r assms(2)] v ds show ?thesis by simp
qed

text \<open>The lookups of a store that meets the contract qualify.\<close>

context offline_store
begin

lemma store_stored_ok: "inv s \<Longrightarrow> stored_ok (get s)"
  unfolding stored_ok_def using get_ok by (metis sum.inject(2))

lemma dataset_rows_right:
  assumes "inv s" "build_training_dataset (get s) v vv names obs policy gap = Inr ds"
  shows "\<exists>versions. training_versions v names = Inr versions
    \<and> list_all2 (row_right (get s) v vv versions names gap) obs (td_rows ds)"
  using build_training_datasetE[OF assms(2) store_stored_ok[OF assms(1)]] .

end

end
