(* ===== verification/Promotion.thy ===== *)
theory Promotion
  imports Models
begin

text \<open>
  Promotion governance (fs_core/registry/promotion.py): environment pointers and audit records
  with their JSON forms, the in-memory and the filesystem pointer store as one contract, and
  promotion and rollback under the approval rules.
\<close>

section \<open>Records\<close>

definition stage_shadow :: string where "stage_shadow = ''shadow''"
definition stage_live :: string where "stage_live = ''live''"

definition stages :: "string list" where
  "stages = [stage_shadow, stage_live]"

record approval_profile =
  ap_name :: string
  ap_required :: nat
  ap_min_days :: int

definition profile_bank :: approval_profile where
  "profile_bank = \<lparr>ap_name = ''bank'', ap_required = 2, ap_min_days = 7\<rparr>"

definition profile_energy :: approval_profile where
  "profile_energy = \<lparr>ap_name = ''energy'', ap_required = 1, ap_min_days = 0\<rparr>"

definition profiles :: "(string, approval_profile) dict" where
  "profiles = [(ap_name profile_bank, profile_bank), (ap_name profile_energy, profile_energy)]"

record env_pointer =
  pt_env :: string
  pt_stage :: string
  pt_digest :: string
  pt_updated_at :: datetime
  pt_shadow_started :: "datetime option"
  pt_previous :: "string option"

definition pointer_to_dict :: "env_pointer \<Rightarrow> json" where
  "pointer_to_dict p = JObj
     [(''env'', JStr (pt_env p)), (''stage'', JStr (pt_stage p)), (''bundle_digest'', JStr (pt_digest p)),
      (''updated_at'', of_iso (pt_updated_at p)),
      (''shadow_started_at'', of_opt of_iso (pt_shadow_started p)),
      (''previous_digest'', of_opt JStr (pt_previous p))]"

text \<open>\<^verbatim>\<open>datetime.fromisoformat(x) if x else None\<close>: an empty text counts as absent.\<close>

definition as_iso_if :: "json \<Rightarrow> datetime option res" where
  "as_iso_if v = (if v = JStr [] then Inr None else as_opt as_iso v)"

definition pointer_from_dict :: "json \<Rightarrow> env_pointer res" where
  "pointer_from_dict d =
     rbind (jget d ''shadow_started_at'' JNull) (\<lambda>shadow.
     rbind (str_item d ''env'') (\<lambda>env.
     rbind (str_item d ''stage'') (\<lambda>stage.
     rbind (str_item d ''bundle_digest'') (\<lambda>digest.
     rbind (rbind (jitem d ''updated_at'') as_iso) (\<lambda>upd.
     rbind (as_iso_if shadow) (\<lambda>started.
     rbind (opt_str_get d ''previous_digest'') (\<lambda>prev.
     Inr \<lparr>pt_env = env, pt_stage = stage, pt_digest = digest, pt_updated_at = upd,
          pt_shadow_started = started, pt_previous = prev\<rparr>)))))))"

record promotion_record =
  pr_id :: string
  pr_action :: string
  pr_env :: string
  pr_stage :: string
  pr_digest :: string
  pr_previous :: "string option"
  pr_actor :: string
  pr_reason :: string
  pr_created_at :: datetime
  pr_approved_by :: "string list"
  pr_profile :: "string option"
  pr_shadow_started :: "datetime option"
  pr_override :: bool
  pr_override_reason :: "string option"

definition record_to_dict :: "promotion_record \<Rightarrow> json" where
  "record_to_dict r = JObj
     [(''promotion_id'', JStr (pr_id r)), (''action'', JStr (pr_action r)), (''env'', JStr (pr_env r)),
      (''stage'', JStr (pr_stage r)), (''bundle_digest'', JStr (pr_digest r)),
      (''previous_digest'', of_opt JStr (pr_previous r)), (''actor'', JStr (pr_actor r)),
      (''reason'', JStr (pr_reason r)), (''created_at'', of_iso (pr_created_at r)),
      (''approved_by'', JList (map JStr (pr_approved_by r))), (''profile'', of_opt JStr (pr_profile r)),
      (''shadow_started_at'', of_opt of_iso (pr_shadow_started r)),
      (''shadow_age_override'', JBool (pr_override r)),
      (''override_reason'', of_opt JStr (pr_override_reason r))]"

definition record_from_dict :: "json \<Rightarrow> promotion_record res" where
  "record_from_dict d =
     rbind (jget d ''shadow_started_at'' JNull) (\<lambda>shadow.
     rbind (str_item d ''promotion_id'') (\<lambda>pid.
     rbind (str_item d ''action'') (\<lambda>action.
     rbind (str_item d ''env'') (\<lambda>env.
     rbind (str_item d ''stage'') (\<lambda>stage.
     rbind (str_item d ''bundle_digest'') (\<lambda>digest.
     rbind (opt_str_get d ''previous_digest'') (\<lambda>prev.
     rbind (str_item d ''actor'') (\<lambda>actor.
     rbind (str_item d ''reason'') (\<lambda>reason.
     rbind (rbind (jitem d ''created_at'') as_iso) (\<lambda>created.
     rbind (rbind (rbind (jget d ''approved_by'' (JList [])) as_list) (map_res as_str)) (\<lambda>approved.
     rbind (opt_str_get d ''profile'') (\<lambda>prof.
     rbind (as_iso_if shadow) (\<lambda>started.
     rbind (rbind (jget d ''shadow_age_override'' (JBool False)) as_bool) (\<lambda>ov.
     rbind (opt_str_get d ''override_reason'') (\<lambda>ovr.
     Inr \<lparr>pr_id = pid, pr_action = action, pr_env = env, pr_stage = stage, pr_digest = digest,
          pr_previous = prev, pr_actor = actor, pr_reason = reason, pr_created_at = created,
          pr_approved_by = approved, pr_profile = prof, pr_shadow_started = started,
          pr_override = ov, pr_override_reason = ovr\<rparr>)))))))))))))))"

definition pointer_ok :: "env_pointer \<Rightarrow> bool" where
  "pointer_ok p \<longleftrightarrow>
     pt_stage p \<in> set stages \<and> datetime_valid (pt_updated_at p)
     \<and> (\<forall>t. pt_shadow_started p = Some t \<longrightarrow> datetime_valid t)"

definition record_ok :: "promotion_record \<Rightarrow> bool" where
  "record_ok r \<longleftrightarrow>
     datetime_valid (pr_created_at r) \<and> (\<forall>t. pr_shadow_started r = Some t \<longrightarrow> datetime_valid t)"

lemma iso_not_empty_json: "of_opt of_iso x \<noteq> JStr []"
  by (cases x) (simp_all add: of_opt_def of_iso_def isoformat_def pad4_def pad2_def)

lemma as_iso_if_of_opt: "(\<And>t. x = Some t \<Longrightarrow> datetime_valid t) \<Longrightarrow> as_iso_if (of_opt of_iso x) = Inr x"
  by (simp add: as_iso_if_def iso_not_empty_json)

lemma pointer_from_to_dict:
  assumes "pointer_ok p"
  shows "pointer_from_dict (pointer_to_dict p) = Inr p"
  using assms unfolding pointer_from_dict_def pointer_to_dict_def read_simps pointer_ok_def
  by (simp add: as_iso_if_of_opt)

lemma strs_back: "map_res as_str (map JStr xs) = Inr xs"
  by (induction xs) simp_all

lemma record_from_to_dict:
  assumes "record_ok r"
  shows "record_from_dict (record_to_dict r) = Inr r"
  using assms unfolding record_from_dict_def record_to_dict_def read_simps record_ok_def
  by (simp add: as_iso_if_of_opt strs_back)

section \<open>The contract of a pointer store\<close>

record 's store_fns =
  ps_get :: "'s \<Rightarrow> string \<Rightarrow> string \<Rightarrow> env_pointer option res"
  ps_set :: "'s \<Rightarrow> env_pointer \<Rightarrow> 's"
  ps_append :: "'s \<Rightarrow> promotion_record \<Rightarrow> 's"
  ps_records :: "'s \<Rightarrow> promotion_record list res"

locale pointer_store =
  fixes inv :: "'s \<Rightarrow> bool"
    and adm :: "'s \<Rightarrow> promotion_record \<Rightarrow> bool"
    and ops :: "'s store_fns"
  assumes get_total: "inv s \<Longrightarrow> stage \<in> set stages \<Longrightarrow>
      \<exists>x. ps_get ops s env stage = Inr x \<and> (\<forall>p. x = Some p \<longrightarrow> pointer_ok p)"
    and set_ok: "inv s \<Longrightarrow> pointer_ok p \<Longrightarrow> inv (ps_set ops s p)"
    and get_set: "inv s \<Longrightarrow> pointer_ok p \<Longrightarrow> stage \<in> set stages \<Longrightarrow>
      ps_get ops (ps_set ops s p) env stage =
        (if env = pt_env p \<and> stage = pt_stage p then Inr (Some p) else ps_get ops s env stage)"
    and adm_set: "inv s \<Longrightarrow> pointer_ok p \<Longrightarrow> adm (ps_set ops s p) r \<longleftrightarrow> adm s r"
    and append_ok: "inv s \<Longrightarrow> adm s r \<Longrightarrow> inv (ps_append ops s r)"
    and get_append: "inv s \<Longrightarrow> adm s r \<Longrightarrow> ps_get ops (ps_append ops s r) = ps_get ops s"
    and records_total: "inv s \<Longrightarrow> \<exists>rs. ps_records ops s = Inr rs"
    and records_set: "inv s \<Longrightarrow> pointer_ok p \<Longrightarrow> ps_records ops (ps_set ops s p) = ps_records ops s"
    and records_append: "inv s \<Longrightarrow> adm s r \<Longrightarrow> ps_records ops s = Inr rs \<Longrightarrow>
      \<exists>rs'. ps_records ops (ps_append ops s r) = Inr rs' \<and> mset rs' = add_mset r (mset rs)"

section \<open>Promotion\<close>

definition unique_approvers :: "string list \<Rightarrow> string list res" where
  "unique_approvers approved_by =
     (let cleaned = filter (\<lambda>a. \<not> blank a) approved_by; unique = dict_keys (dict_of (map (\<lambda>a. (a, ())) cleaned))
      in if length unique \<noteq> length cleaned
         then Inl (PromotionError ''approvers must be unique'') else Inr unique)"

record promotion_request =
  rq_bundle_exists :: bool
  rq_digest :: string
  rq_env :: string
  rq_stage :: string
  rq_actor :: string
  rq_reason :: string
  rq_now :: datetime
  rq_profile :: "string option"
  rq_approved_by :: "string list"
  rq_override :: bool
  rq_override_reason :: "string option"
  rq_uuid :: string  \<comment> \<open>the fresh identifier that uuid4 draws\<close>

definition soak_check :: "datetime option \<Rightarrow> datetime \<Rightarrow> approval_profile \<Rightarrow> unit res" where
  "soak_check started now prof =
     (case started of
        None \<Rightarrow> Inl (PromotionError ''bundle is not in shadow for this env'')
      | Some t \<Rightarrow>
          rbind (require (aware now = aware t)
            (TypeError ''can't subtract offset-naive and offset-aware datetimes'')) (\<lambda>_.
          require (\<not> instant now - instant t < ap_min_days prof * us_per_day)
            (PromotionError ''shadow soak too short'')))"

definition shadow_start :: "env_pointer option \<Rightarrow> string \<Rightarrow> datetime option" where
  "shadow_start shadow digest =
     (case shadow of
        Some p \<Rightarrow> if pt_digest p = digest then pt_shadow_started p else None
      | None \<Rightarrow> None)"

definition promote_live :: "'s store_fns \<Rightarrow> 's \<Rightarrow> promotion_request \<Rightarrow> promotion_record res" where
  "promote_live ops s q =
     (case rq_profile q of
        None \<Rightarrow> Inl (PromotionError ''a --profile is required to promote to live'')
      | Some profile \<Rightarrow>
     (case map_of profiles profile of
        None \<Rightarrow> Inl (PromotionError ''unknown profile'')
      | Some prof \<Rightarrow>
     rbind (unique_approvers (rq_approved_by q)) (\<lambda>approvers.
     rbind (require (ap_required prof \<le> length approvers) (PromotionError ''not enough unique approvers'')) (\<lambda>_.
     rbind (ps_get ops s (rq_env q) stage_shadow) (\<lambda>shadow.
     let started = shadow_start shadow (rq_digest q) in
     rbind (if rq_override q
            then require (\<exists>t. rq_override_reason q = Some t \<and> \<not> blank t)
                   (PromotionError ''override requires an explicit reason'')
            else soak_check started (rq_now q) prof) (\<lambda>_.
     rbind (ps_get ops s (rq_env q) stage_live) (\<lambda>previous.
     Inr \<lparr>pr_id = ''prm_'' @ rq_uuid q, pr_action = ''promote'', pr_env = rq_env q, pr_stage = stage_live,
          pr_digest = rq_digest q, pr_previous = map_option pt_digest previous,
          pr_actor = rq_actor q, pr_reason = rq_reason q, pr_created_at = rq_now q,
          pr_approved_by = approvers, pr_profile = Some (ap_name prof), pr_shadow_started = started,
          pr_override = rq_override q,
          pr_override_reason = (if rq_override q then rq_override_reason q else None)\<rparr>)))))))"

text \<open>The shadow branch of \<^verbatim>\<open>promote\<close>.\<close>

definition promote_shadow :: "'s store_fns \<Rightarrow> 's \<Rightarrow> promotion_request \<Rightarrow> promotion_record res" where
  "promote_shadow ops s q =
     rbind (ps_get ops s (rq_env q) stage_shadow) (\<lambda>previous.
     Inr \<lparr>pr_id = ''prm_'' @ rq_uuid q, pr_action = ''promote'', pr_env = rq_env q, pr_stage = stage_shadow,
          pr_digest = rq_digest q, pr_previous = map_option pt_digest previous,
          pr_actor = rq_actor q, pr_reason = rq_reason q, pr_created_at = rq_now q, pr_approved_by = [],
          pr_profile = None, pr_shadow_started = Some (rq_now q), pr_override = False,
          pr_override_reason = None\<rparr>)"

definition promote :: "'s store_fns \<Rightarrow> 's \<Rightarrow> promotion_request \<Rightarrow> (promotion_record \<times> 's) res" where
  "promote ops s q =
     rbind (require (rq_bundle_exists q) (PromotionError ''unknown bundle'')) (\<lambda>_.
     rbind (require (rq_stage q \<in> set stages) (PromotionError ''target stage must be one of shadow, live'')) (\<lambda>_.
     rbind (require (\<not> blank (rq_reason q)) (PromotionError ''a promotion reason is required'')) (\<lambda>_.
     rbind (if rq_stage q = stage_shadow then promote_shadow ops s q else promote_live ops s q) (\<lambda>rec.
     let s1 = ps_set ops s
          \<lparr>pt_env = rq_env q, pt_stage = rq_stage q, pt_digest = rq_digest q, pt_updated_at = rq_now q,
           pt_shadow_started = pr_shadow_started rec, pt_previous = pr_previous rec\<rparr>
     in Inr (rec, ps_append ops s1 rec)))))"

record rollback_request =
  rb_env :: string
  rb_actor :: string
  rb_reason :: string
  rb_now :: datetime
  rb_stage :: string
  rb_to_previous :: bool
  rb_digest :: "string option"
  rb_bundle_exists :: "bool option"
  rb_uuid :: string

definition rollback_target :: "rollback_request \<Rightarrow> env_pointer \<Rightarrow> string res" where
  "rollback_target q cur =
     (if rb_to_previous q then
        (case pt_previous cur of
           None \<Rightarrow> Inl (PromotionError ''no previous digest recorded to roll back to'')
         | Some t \<Rightarrow> Inr t)
      else
        (case rb_digest q of
           None \<Rightarrow> Inl (PromotionError ''provide --bundle-digest or --to-previous'')
         | Some d \<Rightarrow>
             if d = [] then Inl (PromotionError ''provide --bundle-digest or --to-previous'')
             else if rb_bundle_exists q = Some False then Inl (PromotionError ''unknown bundle to roll back to'')
             else Inr d))"

definition rollback :: "'s store_fns \<Rightarrow> 's \<Rightarrow> rollback_request \<Rightarrow> (promotion_record \<times> 's) res" where
  "rollback ops s q =
     rbind (require (\<not> blank (rb_reason q)) (PromotionError ''a rollback reason is required'')) (\<lambda>_.
     rbind (require (rb_stage q \<in> set stages) (PromotionError ''target stage must be one of shadow, live'')) (\<lambda>_.
     rbind (ps_get ops s (rb_env q) (rb_stage q)) (\<lambda>current.
     case current of
       None \<Rightarrow> Inl (PromotionError ''no current pointer to roll back'')
     | Some cur \<Rightarrow>
     rbind (rollback_target q cur) (\<lambda>target.
     let rec = \<lparr>pr_id = ''rbk_'' @ rb_uuid q, pr_action = ''rollback'', pr_env = rb_env q,
            pr_stage = rb_stage q, pr_digest = target, pr_previous = Some (pt_digest cur),
            pr_actor = rb_actor q, pr_reason = rb_reason q, pr_created_at = rb_now q, pr_approved_by = [],
            pr_profile = None,
            pr_shadow_started = (if rb_stage q = stage_shadow then pt_shadow_started cur else None),
            pr_override = False, pr_override_reason = None\<rparr>;
         s1 = ps_set ops s
           \<lparr>pt_env = rb_env q, pt_stage = rb_stage q, pt_digest = target, pt_updated_at = rb_now q,
            pt_shadow_started = pr_shadow_started rec, pt_previous = Some (pt_digest cur)\<rparr>
     in Inr (rec, ps_append ops s1 rec)))))"

section \<open>What a promotion and a rollback do\<close>

lemma unique_approvers_Inr:
  assumes "unique_approvers xs = Inr ys"
  shows "distinct ys \<and> set ys = {a \<in> set xs. \<not> blank a} \<and> distinct (filter (\<lambda>a. \<not> blank a) xs)"
proof -
  let ?c = "filter (\<lambda>a. \<not> blank a) xs"
  have k: "set (dict_keys (dict_of (map (\<lambda>a. (a, ())) ?c))) = set ?c"
    by (simp add: dict_of_keys image_image)
  from assms have ys: "ys = dict_keys (dict_of (map (\<lambda>a. (a, ())) ?c))" "length ys = length ?c"
    by (auto simp: unique_approvers_def Let_def split: if_splits)
  have "distinct ys" by (simp add: ys(1))
  moreover from this have "card (set ?c) = length ?c"
    using distinct_card[of ys] ys k by simp
  then have "distinct ?c" by (rule card_distinct)
  ultimately show ?thesis using ys(1) k by auto
qed

text \<open>The governance rule of a live promotion.\<close>

definition soaked :: "env_pointer option \<Rightarrow> string \<Rightarrow> datetime \<Rightarrow> int \<Rightarrow> bool" where
  "soaked shadow digest now days \<longleftrightarrow>
     (\<exists>p t. shadow = Some p \<and> pt_digest p = digest \<and> pt_shadow_started p = Some t
        \<and> days * us_per_day \<le> instant now - instant t)"

definition live_governed :: "promotion_request \<Rightarrow> env_pointer option \<Rightarrow> promotion_record \<Rightarrow> bool" where
  "live_governed q shadow rec \<longleftrightarrow>
     (\<exists>name prof. rq_profile q = Some name \<and> map_of profiles name = Some prof
        \<and> pr_profile rec = Some (ap_name prof)
        \<and> distinct (pr_approved_by rec) \<and> set (pr_approved_by rec) \<subseteq> set (rq_approved_by q)
        \<and> (\<forall>a \<in> set (pr_approved_by rec). \<not> blank a)
        \<and> ap_required prof \<le> length (pr_approved_by rec)
        \<and> (if rq_override q
            then pr_override rec \<and> (\<exists>t. pr_override_reason rec = Some t \<and> \<not> blank t)
            else \<not> pr_override rec \<and> soaked shadow (rq_digest q) (rq_now q) (ap_min_days prof)))"

definition promoted_pointer :: "promotion_request \<Rightarrow> promotion_record \<Rightarrow> env_pointer" where
  "promoted_pointer q rec =
     \<lparr>pt_env = rq_env q, pt_stage = rq_stage q, pt_digest = rq_digest q, pt_updated_at = rq_now q,
      pt_shadow_started = pr_shadow_started rec, pt_previous = pr_previous rec\<rparr>"

lemma soak_check_Inr:
  assumes "soak_check (shadow_start shadow d) now prof = Inr u"
  shows "soaked shadow d now (ap_min_days prof)"
  using assms by (auto simp: soak_check_def shadow_start_def soaked_def not_less split: option.splits if_splits)

lemma promote_live_governed:
  assumes "promote_live ops s q = Inr rec" "ps_get ops s (rq_env q) stage_shadow = Inr shadow"
  shows "live_governed q shadow rec"
proof -
  from assms obtain name prof approvers where
    p: "rq_profile q = Some name" "map_of profiles name = Some prof"
    and a: "unique_approvers (rq_approved_by q) = Inr approvers" "ap_required prof \<le> length approvers"
    and c: "(if rq_override q
            then require (\<exists>t. rq_override_reason q = Some t \<and> \<not> blank t)
                   (PromotionError ''override requires an explicit reason'')
            else soak_check (shadow_start shadow (rq_digest q)) (rq_now q) prof) = Inr ()"
    and r: "pr_approved_by rec = approvers" "pr_profile rec = Some (ap_name prof)"
    "pr_override rec = rq_override q" "pr_override_reason rec = (if rq_override q then rq_override_reason q else None)"
    by (auto simp: promote_live_def Let_def split: option.splits)
  note u = unique_approvers_Inr[OF a(1)]
  show ?thesis
    unfolding live_governed_def
    using p a(2) u c r soak_check_Inr[of shadow "rq_digest q" "rq_now q" prof]
    by (intro exI[of _ name] exI[of _ prof]) auto
qed

context pointer_store
begin

text \<open>A successful call repoints exactly one pointer and adds exactly one audit record.\<close>

lemma promote_effect:
  assumes "inv s" "datetime_valid (rq_now q)" "promote ops s q = Inr (rec, s')" "adm s rec"
  shows "inv s' \<and> pointer_ok (promoted_pointer q rec)
    \<and> (\<forall>env stage. stage \<in> set stages \<longrightarrow> ps_get ops s' env stage =
          (if env = rq_env q \<and> stage = rq_stage q then Inr (Some (promoted_pointer q rec))
           else ps_get ops s env stage))
    \<and> (\<exists>rs rs'. ps_records ops s = Inr rs \<and> ps_records ops s' = Inr rs' \<and> mset rs' = add_mset rec (mset rs))
    \<and> (\<exists>cur. ps_get ops s (rq_env q) (rq_stage q) = Inr cur \<and> pr_previous rec = map_option pt_digest cur)"
proof -
  from assms(3) have st: "rq_stage q \<in> set stages"
    and rec: "(if rq_stage q = stage_shadow then promote_shadow ops s q else promote_live ops s q) = Inr rec"
    and s': "s' = ps_append ops (ps_set ops s (promoted_pointer q rec)) rec"
    by (auto simp: promote_def Let_def promoted_pointer_def)
  have stage: "rq_stage q = stage_shadow \<or> rq_stage q = stage_live" using st by (auto simp: stages_def)
  obtain sh where sh: "ps_get ops s (rq_env q) stage_shadow = Inr sh" "\<And>p. sh = Some p \<Longrightarrow> pointer_ok p"
    using get_total[OF assms(1), of stage_shadow "rq_env q"] by (auto simp: stages_def)
  have started: "\<forall>t. pr_shadow_started rec = Some t \<longrightarrow> datetime_valid t"
  proof (cases "rq_stage q = stage_shadow")
    case True
    with rec assms(2) show ?thesis by (auto simp: promote_shadow_def)
  next
    case False
    with rec sh show ?thesis
      by (auto simp: promote_live_def shadow_start_def Let_def pointer_ok_def split: option.splits if_splits)
  qed
  have ok: "pointer_ok (promoted_pointer q rec)"
    using started assms(2) st by (simp add: pointer_ok_def promoted_pointer_def)
  have prev: "\<exists>cur. ps_get ops s (rq_env q) (rq_stage q) = Inr cur \<and> pr_previous rec = map_option pt_digest cur"
    using rec stage by (auto simp: promote_shadow_def promote_live_def Let_def split: option.splits if_splits)
  let ?s1 = "ps_set ops s (promoted_pointer q rec)"
  have s1: "inv ?s1" "adm ?s1 rec" using set_ok[OF assms(1) ok] adm_set[OF assms(1) ok] assms(4) by simp_all
  obtain rs where rs: "ps_records ops s = Inr rs" using records_total[OF assms(1)] by blast
  then have rs1: "ps_records ops ?s1 = Inr rs" using records_set[OF assms(1) ok] by simp
  from records_append[OF s1 rs1] obtain rs' where rs': "ps_records ops s' = Inr rs'"
    "mset rs' = add_mset rec (mset rs)" unfolding s' by blast
  have "ps_get ops s' env stage = (if env = rq_env q \<and> stage = rq_stage q then Inr (Some (promoted_pointer q rec))
           else ps_get ops s env stage)" if "stage \<in> set stages" for env stage
    unfolding s' get_append[OF s1] get_set[OF assms(1) ok that] by (simp add: promoted_pointer_def)
  moreover have "inv s'" unfolding s' by (rule append_ok[OF s1])
  ultimately show ?thesis using ok rs rs' prev by blast
qed

lemma rollback_effect:
  assumes "inv s" "datetime_valid (rb_now q)" "rollback ops s q = Inr (rec, s')" "adm s rec"
  shows "inv s' \<and> (\<exists>cur ptr. ps_get ops s (rb_env q) (rb_stage q) = Inr (Some cur)
      \<and> rollback_target q cur = Inr (pt_digest ptr) \<and> pt_previous ptr = Some (pt_digest cur)
      \<and> pt_shadow_started ptr = (if rb_stage q = stage_shadow then pt_shadow_started cur else None)
      \<and> (\<forall>env stage. stage \<in> set stages \<longrightarrow> ps_get ops s' env stage =
          (if env = rb_env q \<and> stage = rb_stage q then Inr (Some ptr) else ps_get ops s env stage)))
    \<and> (\<exists>rs rs'. ps_records ops s = Inr rs \<and> ps_records ops s' = Inr rs' \<and> mset rs' = add_mset rec (mset rs))"
proof -
  from assms(3) obtain cur target where st: "rb_stage q \<in> set stages"
    and cur: "ps_get ops s (rb_env q) (rb_stage q) = Inr (Some cur)"
    and t: "rollback_target q cur = Inr target"
    and r: "pr_shadow_started rec = (if rb_stage q = stage_shadow then pt_shadow_started cur else None)"
    and s': "s' = ps_append ops (ps_set ops s
       \<lparr>pt_env = rb_env q, pt_stage = rb_stage q, pt_digest = target, pt_updated_at = rb_now q,
        pt_shadow_started = (if rb_stage q = stage_shadow then pt_shadow_started cur else None),
        pt_previous = Some (pt_digest cur)\<rparr>) rec"
    by (auto simp: rollback_def Let_def split: option.splits)
  let ?p = "\<lparr>pt_env = rb_env q, pt_stage = rb_stage q, pt_digest = target, pt_updated_at = rb_now q,
        pt_shadow_started = (if rb_stage q = stage_shadow then pt_shadow_started cur else None),
        pt_previous = Some (pt_digest cur)\<rparr>"
  have "pointer_ok cur" using get_total[OF assms(1) st, of "rb_env q"] cur by auto
  then have ok: "pointer_ok ?p" using assms(2) st by (auto simp: pointer_ok_def)
  let ?s1 = "ps_set ops s ?p"
  have s1: "inv ?s1" "adm ?s1 rec" using set_ok[OF assms(1) ok] adm_set[OF assms(1) ok] assms(4) by simp_all
  obtain rs where rs: "ps_records ops s = Inr rs" using records_total[OF assms(1)] by blast
  then have rs1: "ps_records ops ?s1 = Inr rs" using records_set[OF assms(1) ok] by simp
  from records_append[OF s1 rs1] obtain rs' where rs': "ps_records ops s' = Inr rs'"
    "mset rs' = add_mset rec (mset rs)" unfolding s' by blast
  have g: "ps_get ops s' env stage = (if env = rb_env q \<and> stage = rb_stage q then Inr (Some ?p)
           else ps_get ops s env stage)" if "stage \<in> set stages" for env stage
    unfolding s' get_append[OF s1] get_set[OF assms(1) ok that] by simp
  have "inv s'" unfolding s' by (rule append_ok[OF s1])
  then show ?thesis using rs rs' cur t g by (intro conjI exI[of _ cur] exI[of _ ?p]) auto
qed

text \<open>Promotion followed by rollback to the previous digest serves the earlier bundle again.\<close>

lemma promote_rollback:
  assumes "inv s" "datetime_valid (rq_now q)" "promote ops s q = Inr (rec, s1)" "adm s rec"
    "ps_get ops s (rq_env q) (rq_stage q) = Inr (Some cur)"
    and b: "rb_env b = rq_env q" "rb_stage b = rq_stage q" "rb_to_previous b" "datetime_valid (rb_now b)"
    "rollback ops s1 b = Inr (rec2, s2)" "adm s1 rec2"
  shows "\<exists>p. ps_get ops s2 (rq_env q) (rq_stage q) = Inr (Some p) \<and> pt_digest p = pt_digest cur
    \<and> pt_previous p = Some (rq_digest q)"
proof -
  note e = promote_effect[OF assms(1-4)]
  have st: "rq_stage q \<in> set stages" using assms(3) by (auto simp: promote_def)
  from e st have c1: "ps_get ops s1 (rq_env q) (rq_stage q) = Inr (Some (promoted_pointer q rec))"
    and prev: "pt_previous (promoted_pointer q rec) = Some (pt_digest cur)"
    using assms(5) by (auto simp: promoted_pointer_def)
  from e have "inv s1" by blast
  from rollback_effect[OF this b(4,5,6)] obtain cur1 ptr where
    p: "ps_get ops s1 (rb_env b) (rb_stage b) = Inr (Some cur1)" "rollback_target b cur1 = Inr (pt_digest ptr)"
    "pt_previous ptr = Some (pt_digest cur1)"
    and g: "\<forall>env stage. stage \<in> set stages \<longrightarrow> ps_get ops s2 env stage =
          (if env = rb_env b \<and> stage = rb_stage b then Inr (Some ptr) else ps_get ops s1 env stage)"
    by blast
  have "cur1 = promoted_pointer q rec" using p(1) c1 b(1,2) by simp
  with p(2,3) prev b(3) have "pt_digest ptr = pt_digest cur" "pt_previous ptr = Some (rq_digest q)"
    by (auto simp: rollback_target_def promoted_pointer_def)
  with g st b(1,2) show ?thesis by auto
qed

text \<open>
  Rolling the shadow pointer to another digest keeps the soak start of the bundle it leaves:
  a digest that was never promoted to shadow passes the soak check at once.
\<close>

lemma shadow_rollback_soaks:
  assumes "inv s" "ps_get ops s env stage_shadow = Inr (Some cur)" "pt_shadow_started cur = Some t"
    "days * us_per_day \<le> instant now - instant t"
    and b: "rb_env b = env" "rb_stage b = stage_shadow" "\<not> rb_to_previous b" "rb_digest b = Some d" "d \<noteq> []"
    "datetime_valid (rb_now b)" "rollback ops s b = Inr (rec, s')" "adm s rec"
  shows "\<exists>x. ps_get ops s' env stage_shadow = Inr x \<and> soaked x d now days"
proof -
  from rollback_effect[OF assms(1) b(6-8)] b(1,2) assms(2) obtain ptr where
    p: "rollback_target b cur = Inr (pt_digest ptr)" "pt_shadow_started ptr = Some t"
    and g: "\<forall>e stage. stage \<in> set stages \<longrightarrow> ps_get ops s' e stage =
          (if e = env \<and> stage = stage_shadow then Inr (Some ptr) else ps_get ops s e stage)"
    using assms(3) by auto
  from p(1) b(3-5) have "pt_digest ptr = d" by (auto simp: rollback_target_def split: if_splits)
  moreover have "ps_get ops s' env stage_shadow = Inr (Some ptr)" using g by (simp add: stages_def)
  ultimately show ?thesis using p(2) assms(4) by (auto simp: soaked_def)
qed

end

section \<open>The in-memory store\<close>

record mem_pointers =
  mp_pointers :: "(string \<times> string, env_pointer) dict"
  mp_records :: "promotion_record list"

definition mem_pointer_ops :: "mem_pointers store_fns" where
  "mem_pointer_ops =
     \<lparr>ps_get = (\<lambda>s env stage. Inr (map_of (mp_pointers s) (env, stage))),
      ps_set = (\<lambda>s p. s\<lparr>mp_pointers := dict_set (pt_env p, pt_stage p) p (mp_pointers s)\<rparr>),
      ps_append = (\<lambda>s r. s\<lparr>mp_records := mp_records s @ [r]\<rparr>),
      ps_records = (\<lambda>s. Inr (mp_records s))\<rparr>"

definition mem_pointers_inv :: "mem_pointers \<Rightarrow> bool" where
  "mem_pointers_inv s \<longleftrightarrow> (\<forall>k p. map_of (mp_pointers s) k = Some p \<longrightarrow> pointer_ok p)"

interpretation memptr: pointer_store mem_pointers_inv "\<lambda>_ _. True" mem_pointer_ops
  by unfold_locales (auto simp: mem_pointers_inv_def mem_pointer_ops_def)

section \<open>The filesystem store\<close>

text \<open>
  The two directories: file name to document. \<^verbatim>\<open>json.loads\<close> of a written text gives back the
  document.
\<close>

record file_pointers =
  fl_pointers :: "(string, json) dict"
  fl_records :: "(string, json) dict"

definition pointer_path :: "string \<Rightarrow> string \<Rightarrow> string" where
  "pointer_path env stage = env @ ''__'' @ stage @ ''.json''"

text \<open>\<^verbatim>\<open>strftime("%Y%m%dT%H%M%S%f")\<close> of the wall clock (four-digit years).\<close>

definition time_stamp :: "datetime \<Rightarrow> string" where
  "time_stamp d = pad4 (year d) @ pad2 (month d) @ pad2 (day d) @ ''T'' @ pad2 (hour d)
     @ pad2 (minute d) @ pad2 (second d) @ pad6 (microsecond d)"

definition record_path :: "promotion_record \<Rightarrow> string" where
  "record_path r = time_stamp (pr_created_at r) @ ''_'' @ pr_id r @ ''.json''"

definition file_pointer_ops :: "file_pointers store_fns" where
  "file_pointer_ops =
     \<lparr>ps_get = (\<lambda>s env stage.
        case map_of (fl_pointers s) (pointer_path env stage) of
          None \<Rightarrow> Inr None
        | Some doc \<Rightarrow> rbind (pointer_from_dict doc) (\<lambda>p. Inr (Some p))),
      ps_set = (\<lambda>s p. s\<lparr>fl_pointers :=
        dict_set (pointer_path (pt_env p) (pt_stage p)) (pointer_to_dict p) (fl_pointers s)\<rparr>),
      ps_append = (\<lambda>s r. s\<lparr>fl_records := dict_set (record_path r) (record_to_dict r) (fl_records s)\<rparr>),
      ps_records = (\<lambda>s. map_res (\<lambda>(name, doc). record_from_dict doc) (sort_key fst (fl_records s)))\<rparr>"

definition file_pointers_inv :: "file_pointers \<Rightarrow> bool" where
  "file_pointers_inv s \<longleftrightarrow>
     (\<forall>k doc. map_of (fl_pointers s) k = Some doc \<longrightarrow> (\<exists>p. pointer_ok p \<and> doc = pointer_to_dict p))
     \<and> (\<forall>(k, doc) \<in> set (fl_records s). \<exists>r. record_ok r \<and> doc = record_to_dict r)"

definition file_record_adm :: "file_pointers \<Rightarrow> promotion_record \<Rightarrow> bool" where
  "file_record_adm s r \<longleftrightarrow> record_ok r \<and> record_path r \<notin> set (dict_keys (fl_records s))"

lemma pointer_path_inj:
  assumes "stage \<in> set stages" "stage' \<in> set stages"
  shows "pointer_path env stage = pointer_path env' stage' \<longleftrightarrow> env = env' \<and> stage = stage'"
  using assms
  by (auto simp: pointer_path_def stages_def stage_shadow_def stage_live_def append_eq_append_conv2
      append_eq_Cons_conv Cons_eq_append_conv)

lemma map_res_mset:
  "mset xs = mset ys \<Longrightarrow> (\<And>x. x \<in> set xs \<Longrightarrow> f x = Inr (g x)) \<Longrightarrow>
    map_res f ys = Inr (map g ys) \<and> mset (map g ys) = image_mset g (mset xs)"
  using map_res_all_Inr[of ys f g] mset_eq_setD[of xs ys] by auto

definition doc_record :: "json \<Rightarrow> promotion_record" where
  "doc_record doc = (case record_from_dict doc of Inr r \<Rightarrow> r | Inl _ \<Rightarrow> undefined)"

lemma file_records:
  assumes "file_pointers_inv s"
  shows "\<exists>rs. ps_records file_pointer_ops s = Inr rs
    \<and> mset rs = image_mset (\<lambda>(k, doc). doc_record doc) (mset (fl_records s))"
proof -
  have "(case x of (k, doc) \<Rightarrow> record_from_dict doc) = Inr (case x of (k, doc) \<Rightarrow> doc_record doc)"
    if "x \<in> set (fl_records s)" for x
    using assms that by (fastforce simp: file_pointers_inv_def doc_record_def record_from_to_dict)
  from map_res_mset[of "fl_records s" "sort_key fst (fl_records s)", OF _ this]
  show ?thesis by (auto simp: file_pointer_ops_def)
qed

interpretation fileptr: pointer_store file_pointers_inv file_record_adm file_pointer_ops
proof unfold_locales
  fix s env stage
  assume inv: "file_pointers_inv s"
  show "\<exists>x. ps_get file_pointer_ops s env stage = Inr x \<and> (\<forall>p. x = Some p \<longrightarrow> pointer_ok p)"
  proof (cases "map_of (fl_pointers s) (pointer_path env stage)")
    case (Some doc)
    with inv obtain p where "pointer_ok p" "doc = pointer_to_dict p"
      unfolding file_pointers_inv_def by blast
    with Some show ?thesis by (simp add: file_pointer_ops_def pointer_from_to_dict)
  qed (simp add: file_pointer_ops_def)
next
  fix s p
  assume "file_pointers_inv s" "pointer_ok p"
  then show "file_pointers_inv (ps_set file_pointer_ops s p)"
    by (auto simp: file_pointers_inv_def file_pointer_ops_def)
next
  fix s p stage env
  assume "file_pointers_inv s" and p: "pointer_ok p" and st: "stage \<in> set stages"
  have "pt_stage p \<in> set stages" using p by (simp add: pointer_ok_def)
  from pointer_path_inj[OF st this] show "ps_get file_pointer_ops (ps_set file_pointer_ops s p) env stage =
        (if env = pt_env p \<and> stage = pt_stage p then Inr (Some p) else ps_get file_pointer_ops s env stage)"
    using p by (simp add: file_pointer_ops_def pointer_from_to_dict)
next
  fix s p r
  show "file_record_adm (ps_set file_pointer_ops s p) r = file_record_adm s r"
    by (simp add: file_record_adm_def file_pointer_ops_def)
next
  fix s r
  assume "file_pointers_inv s" "file_record_adm s r"
  then show "file_pointers_inv (ps_append file_pointer_ops s r)"
    by (auto simp: file_pointers_inv_def file_pointer_ops_def file_record_adm_def dict_set_new)
next
  fix s r
  show "ps_get file_pointer_ops (ps_append file_pointer_ops s r) = ps_get file_pointer_ops s"
    by (simp add: file_pointer_ops_def fun_eq_iff)
next
  fix s
  assume "file_pointers_inv s"
  from file_records[OF this] show "\<exists>rs. ps_records file_pointer_ops s = Inr rs" by blast
next
  fix s p
  show "ps_records file_pointer_ops (ps_set file_pointer_ops s p) = ps_records file_pointer_ops s"
    by (simp add: file_pointer_ops_def)
next
  fix s r rs
  assume inv: "file_pointers_inv s" and adm: "file_record_adm s r"
    and rs: "ps_records file_pointer_ops s = Inr rs"
  have new: "fl_records (ps_append file_pointer_ops s r) = fl_records s @ [(record_path r, record_to_dict r)]"
    using adm by (simp add: file_pointer_ops_def file_record_adm_def dict_set_new)
  have "file_pointers_inv (ps_append file_pointer_ops s r)"
    using inv adm by (auto simp: file_pointers_inv_def file_pointer_ops_def file_record_adm_def dict_set_new)
  from file_records[OF this] obtain rs' where rs': "ps_records file_pointer_ops (ps_append file_pointer_ops s r) = Inr rs'"
    "mset rs' = image_mset (\<lambda>(k, doc). doc_record doc) (mset (fl_records s @ [(record_path r, record_to_dict r)]))"
    unfolding new by blast
  from file_records[OF inv] rs have "mset rs = image_mset (\<lambda>(k, doc). doc_record doc) (mset (fl_records s))" by auto
  moreover have "doc_record (record_to_dict r) = r"
    using adm by (simp add: doc_record_def file_record_adm_def record_from_to_dict)
  ultimately show "\<exists>rs'. ps_records file_pointer_ops (ps_append file_pointer_ops s r) = Inr rs' \<and> mset rs' = add_mset r (mset rs)"
    using rs' by simp
qed

end
