(* ===== verification/Acceptance.thy ===== *)
theory Acceptance
  imports Planner
begin

text \<open>
  The registry validator against its rules: the checks of
  fs_core/registry/validator.py accept exactly the registries that satisfy them.
\<close>

definition dep_valid :: "view_def \<Rightarrow> feature_def \<Rightarrow> feature_dep \<Rightarrow> bool" where
  "dep_valid v f dep \<longleftrightarrow>
     (\<exists>t. map_of (features_by_name v) (d_feature dep) = Some t
        \<and> (\<forall>ver. d_version dep = Some ver \<longrightarrow> ver = f_version t)
        \<and> f_lifecycle t \<in> set (allowed_dependency (f_lifecycle f)))"

definition view_rules :: "entity_def list \<Rightarrow> source_def list \<Rightarrow> view_def \<Rightarrow> bool" where
  "view_rules entities sources v \<longleftrightarrow>
     (\<exists>e \<in> set entities. e_name e = v_entity v \<and> v_key_fields v = e_key_fields e)
     \<and> distinct (map f_name (v_features v))
     \<and> (\<forall>f \<in> set (v_features v). set (f_inputs f) \<subseteq> s_name ` set sources
          \<and> (\<forall>dep \<in> set (f_deps f). dep_valid v f dep))
     \<and> (\<forall>n m k. (dep_edge (features_by_name v) ^^ k) n m \<longrightarrow> int k \<le> graph_cap v)
     \<and> (\<forall>(g, members) \<in> set (v_groups v). set members \<subseteq> f_name ` set (v_features v))"

definition registry_rules :: "registry \<Rightarrow> bool" where
  "registry_rules r \<longleftrightarrow>
     distinct (map e_name (reg_entities r)) \<and> distinct (map s_name (reg_sources r))
     \<and> distinct (map v_name (reg_views r))
     \<and> (\<forall>v \<in> set (reg_views r). view_rules (reg_entities r) (reg_sources r) v)"

lemma entity_lookup:
  assumes "distinct (map e_name es)"
  shows "map_of (dict_of (map (\<lambda>e. (e_name e, e)) es)) n = Some e \<longleftrightarrow> e \<in> set es \<and> e_name e = n"
  using assms by (subst dict_of_lookup_distinct) (auto simp: comp_def map_of_eq_Some_iff)

lemma dep_valid_iff: "validate_dep (features_by_name v) f dep = Inr () \<longleftrightarrow> dep_valid v f dep"
  by (simp add: validate_dep_Inr dep_valid_def)

lemma validate_view_iff:
  assumes "distinct (map e_name es)" "0 \<le> graph_cap v"
  shows "validate_view es ss v = Inr () \<longleftrightarrow> view_rules es ss v"
proof -
  let ?deps = "\<forall>f \<in> set (v_features v). \<forall>dep \<in> set (f_deps f). dep_valid v f dep"
  have 1: "validate_view es ss v = Inr () \<longleftrightarrow>
     (\<exists>e \<in> set es. e_name e = v_entity v \<and> v_key_fields v = e_key_fields e)
     \<and> distinct (map f_name (v_features v))
     \<and> (\<forall>f \<in> set (v_features v). set (f_inputs f) \<subseteq> s_name ` set ss
          \<and> (\<forall>dep \<in> set (f_deps f). dep_valid v f dep))
     \<and> validate_dependency_graph v = Inr ()
     \<and> (\<forall>(g, members) \<in> set (v_groups v). set members \<subseteq> f_name ` set (v_features v))"
  proof (cases "map_of (dict_of (map (\<lambda>e. (e_name e, e)) es)) (v_entity v)")
    case None
    then have "\<nexists>e. e \<in> set es \<and> e_name e = v_entity v"
      using entity_lookup[OF assms(1)] by (metis option.distinct(1))
    then show ?thesis using None by (auto simp: validate_view_def)
  next
    case (Some e)
    then have e: "e \<in> set es" "e_name e = v_entity v" using entity_lookup[OF assms(1)] by auto
    have u: "e' = e" if "e' \<in> set es" "e_name e' = v_entity v" for e'
      using that e assms(1) by (auto simp: distinct_map inj_on_def)
    have "(\<exists>e \<in> set es. e_name e = v_entity v \<and> v_key_fields v = e_key_fields e) \<longleftrightarrow> v_key_fields v = e_key_fields e"
      using e u by blast
    then show ?thesis
      unfolding validate_view_def Some option.case
      by (simp add: unique_names_Inr dep_valid_iff subset_iff split_beta Ball_def)
  qed
  have 2: "?deps \<Longrightarrow> validate_dependency_graph v = Inr () \<longleftrightarrow>
    (\<forall>n m k. (dep_edge (features_by_name v) ^^ k) n m \<longrightarrow> int k \<le> graph_cap v)"
    by (rule graph_accepts_chains[OF assms(2)]) (fastforce simp: dep_valid_def)
  show ?thesis unfolding 1 view_rules_def using 2 by blast
qed

lemma validate_registry_iff:
  assumes "\<forall>v \<in> set (reg_views r). 0 \<le> graph_cap v"
  shows "validate_registry r = Inr () \<longleftrightarrow> registry_rules r"
  using assms validate_view_iff[of "reg_entities r" _ "reg_sources r"]
  by (auto simp: validate_registry_def registry_rules_def unique_names_Inr)

end
