(* ===== verification/Loader.thy ===== *)
theory Loader
  imports Documents Acceptance
begin

text \<open>
  Building a registry from the parsed YAML document (fs_core/registry/loader.py). The document
  is a \<open>json\<close> tree whose mappings have string keys; a field of a type that the dataclass does
  not declare is a TypeError here, where Python may store it unread.
\<close>

section \<open>Shapes\<close>

text \<open>A \<^verbatim>\<open>_KEYS\<close> constant: the required and the optional keys of one kind of mapping.\<close>

type_synonym key_spec = "string list \<times> string list"

definition registry_keys :: key_spec where
  "registry_keys = ([''registry_version'', ''entities'', ''sources'', ''feature_views''], [])"

definition entity_keys :: key_spec where
  "entity_keys = ([''key_fields''], [])"

definition source_keys :: key_spec where
  "source_keys = ([''type'', ''report_type'', ''ts_field''], [])"

definition view_keys :: key_spec where
  "view_keys = ([''entity'', ''key_fields'', ''view_version'', ''owner'', ''status'', ''features''],
     [''feature_groups'', ''max_dependency_depth''])"

definition feature_keys :: key_spec where
  "feature_keys = ([''kind'', ''feature_version'', ''dtype'', ''status''],
     [''udf'', ''inputs'', ''deps'', ''model'', ''description''])"

definition model_keys :: key_spec where
  "model_keys = ([''uri'', ''digest'', ''output_name''], [''runner'', ''batch_only''])"

definition dep_keys :: key_spec where
  "dep_keys = ([''feature''], [''version'', ''required'', ''max_input_age_seconds'', ''propagation''])"

fun check_keys :: "json \<Rightarrow> key_spec \<Rightarrow> unit res" where
  "check_keys (JObj kvs) (req, optional) =
     rbind (require (set (map fst kvs) \<subseteq> set req \<union> set optional) (ValueError ''has unknown keys'')) (\<lambda>_.
     require (set req \<subseteq> set (map fst kvs)) (ValueError ''is missing required keys''))"
| "check_keys _ spec = Inl (ValueError ''must be a mapping'')"

fun as_mapping :: "json \<Rightarrow> (string \<times> json) list res" where
  "as_mapping (JObj kvs) = Inr kvs"
| "as_mapping _ = Inl (ValueError ''must be a mapping'')"

fun as_name :: "json \<Rightarrow> string res" where
  "as_name (JStr s) = Inr s"
| "as_name _ = Inl (ValueError ''must contain only strings'')"

fun as_str_tuple :: "json \<Rightarrow> string list res" where
  "as_str_tuple (JList xs) = map_res as_name xs"
| "as_str_tuple _ = Inl (ValueError ''must be a list'')"

lemma check_keys_Inr:
  "check_keys d (req, optional) = Inr u \<longleftrightarrow>
     (\<exists>kvs. d = JObj kvs \<and> fst ` set kvs \<subseteq> set req \<union> set optional \<and> set req \<subseteq> fst ` set kvs)"
  by (cases d) auto

lemma as_mapping_Inr [simp]: "as_mapping d = Inr kvs \<longleftrightarrow> d = JObj kvs"
  by (cases d) auto

lemma as_name_Inr [simp]: "as_name v = Inr s \<longleftrightarrow> v = JStr s"
  by (cases v) auto

lemma as_str_tuple_Inr: "as_str_tuple v = Inr ss \<longleftrightarrow> v = JList (map JStr ss)"
proof (cases v)
  case (JList xs)
  have "map_res as_name xs = Inr ss \<longleftrightarrow> xs = map JStr ss"
    by (induction xs arbitrary: ss) auto
  with JList show ?thesis by simp
qed auto

section \<open>Entries\<close>

definition build_entity :: "string \<Rightarrow> json \<Rightarrow> entity_def res" where
  "build_entity name body =
     rbind (check_keys body entity_keys) (\<lambda>_.
     rbind (rbind (jitem body ''key_fields'') as_str_tuple) (\<lambda>key_fields.
     mk_entity_def \<lparr>e_name = name, e_key_fields = key_fields\<rparr>))"

definition build_source :: "string \<Rightarrow> json \<Rightarrow> source_def res" where
  "build_source name body =
     rbind (check_keys body source_keys) (\<lambda>_.
     rbind (str_item body ''type'') (\<lambda>type.
     rbind (str_item body ''report_type'') (\<lambda>report_type.
     rbind (str_item body ''ts_field'') (\<lambda>ts_field.
     mk_source_def \<lparr>s_name = name, s_type = type, s_report_type = report_type, s_ts_field = ts_field\<rparr>))))"

definition build_model :: "json \<Rightarrow> model_spec option res" where
  "build_model v =
     (if v = JNull then Inr None
      else
        rbind (check_keys v model_keys) (\<lambda>_.
        rbind (str_item v ''uri'') (\<lambda>uri.
        rbind (str_item v ''digest'') (\<lambda>digest.
        rbind (str_item v ''output_name'') (\<lambda>output_name.
        rbind (opt_str_get v ''runner'') (\<lambda>runner.
        rbind (bool_get v ''batch_only'' True) (\<lambda>batch_only.
        rbind (mk_model_spec \<lparr>ms_uri = uri, ms_digest = digest, ms_output_name = output_name,
          ms_runner = runner, ms_batch_only = batch_only\<rparr>) (\<lambda>m. Inr (Some m)))))))))"

fun build_dep :: "json \<Rightarrow> feature_dep res" where
  "build_dep (JStr name) = bare_dep name"
| "build_dep (JObj kvs) =
     (let e = JObj kvs in
      rbind (check_keys e dep_keys) (\<lambda>_.
      rbind (str_item e ''feature'') (\<lambda>feature.
      rbind (opt_int_get e ''version'') (\<lambda>version.
      rbind (bool_get e ''required'' True) (\<lambda>req.
      rbind (opt_int_get e ''max_input_age_seconds'') (\<lambda>max_age.
      rbind (str_get e ''propagation'' ''lazy'') (\<lambda>prop.
      mk_feature_dep feature version req max_age prop)))))))"
| "build_dep _ = Inl (ValueError ''dep must be a name or mapping'')"

fun build_deps :: "json \<Rightarrow> feature_dep list res" where
  "build_deps (JList entries) = map_res build_dep entries"
| "build_deps _ = Inl (ValueError ''deps must be a list'')"

definition build_feature :: "string \<Rightarrow> json \<Rightarrow> feature_def res" where
  "build_feature name body =
     rbind (check_keys body feature_keys) (\<lambda>_.
     rbind (str_item body ''kind'') (\<lambda>kind.
     rbind (int_item body ''feature_version'') (\<lambda>version.
     rbind (str_get body ''udf'' []) (\<lambda>udf.
     rbind (str_item body ''dtype'') (\<lambda>dtype.
     rbind (str_item body ''status'') (\<lambda>status.
     rbind (rbind (jget body ''inputs'' (JList [])) as_str_tuple) (\<lambda>inputs.
     rbind (rbind (jget body ''deps'' (JList [])) build_deps) (\<lambda>deps.
     rbind (rbind (jget body ''model'' JNull) build_model) (\<lambda>model.
     rbind (opt_str_get body ''description'') (\<lambda>description.
     mk_feature_def \<lparr>f_name = name, f_kind = kind, f_version = version, f_udf = udf, f_dtype = dtype,
       f_status = status, f_inputs = inputs, f_deps = deps, f_model = model,
       f_description = description, f_lifecycle = Draft\<rparr>))))))))))"

definition build_group :: "string \<times> json \<Rightarrow> (string \<times> string list) res" where
  "build_group = (\<lambda>(group, members). rbind (as_str_tuple members) (\<lambda>ms. Inr (group, ms)))"

definition build_view :: "string \<Rightarrow> json \<Rightarrow> view_def res" where
  "build_view name body =
     rbind (check_keys body view_keys) (\<lambda>_.
     rbind (rbind (jitem body ''features'') as_mapping) (\<lambda>fs.
     rbind (map_res (\<lambda>(n, b). build_feature n b) fs) (\<lambda>features.
     rbind (rbind (jget body ''feature_groups'' (JObj [])) as_mapping) (\<lambda>gs.
     rbind (map_res build_group gs) (\<lambda>groups.
     rbind (str_item body ''entity'') (\<lambda>entity.
     rbind (rbind (jitem body ''key_fields'') as_str_tuple) (\<lambda>key_fields.
     rbind (int_item body ''view_version'') (\<lambda>version.
     rbind (str_item body ''owner'') (\<lambda>owner.
     rbind (str_item body ''status'') (\<lambda>status.
     rbind (opt_int_get body ''max_dependency_depth'') (\<lambda>depth.
     mk_view_def \<lparr>v_name = name, v_entity = entity, v_key_fields = key_fields, v_version = version,
       v_owner = owner, v_status = status, v_features = features, v_groups = groups,
       v_max_depth = depth\<rparr>)))))))))))"

section \<open>The registry\<close>

definition build_registry :: "json \<Rightarrow> registry res" where
  "build_registry data =
     rbind (check_keys data registry_keys) (\<lambda>_.
     rbind (rbind (jitem data ''entities'') as_mapping) (\<lambda>es.
     rbind (map_res (\<lambda>(n, b). build_entity n b) es) (\<lambda>entities.
     rbind (rbind (jitem data ''sources'') as_mapping) (\<lambda>ss.
     rbind (map_res (\<lambda>(n, b). build_source n b) ss) (\<lambda>sources.
     rbind (rbind (jitem data ''feature_views'') as_mapping) (\<lambda>vs.
     rbind (map_res (\<lambda>(n, b). build_view n b) vs) (\<lambda>views.
     rbind (str_item data ''registry_version'') (\<lambda>version.
     rbind (mk_registry \<lparr>reg_version = version, reg_entities = entities, reg_sources = sources,
       reg_views = views\<rparr>) (\<lambda>r.
     rbind (validate_registry r) (\<lambda>_. Inr r))))))))))"

text \<open>
  \<^verbatim>\<open>load_registry_file\<close> after the file is read: \<open>yaml\<close> is \<^verbatim>\<open>yaml.safe_load\<close>, \<open>None\<close> its
  YAMLError.
\<close>

definition load_registry_text :: "(string \<Rightarrow> json option) \<Rightarrow> string \<Rightarrow> registry res" where
  "load_registry_text yaml text =
     (case yaml text of
        None \<Rightarrow> Inl (ValueError ''registry file is not valid YAML'')
      | Some (JObj kvs) \<Rightarrow> build_registry (JObj kvs)
      | Some _ \<Rightarrow> Inl (ValueError ''registry file must contain a mapping at the top level''))"

section \<open>What a loaded registry satisfies\<close>

text \<open>The field conditions of the dataclasses, for a whole registry.\<close>

definition entity_ok :: "entity_def \<Rightarrow> bool" where
  "entity_ok e \<longleftrightarrow> \<not> blank (e_name e) \<and> e_key_fields e \<noteq> []
     \<and> (\<forall>k \<in> set (e_key_fields e). \<not> blank k) \<and> distinct (e_key_fields e)"

definition source_ok :: "source_def \<Rightarrow> bool" where
  "source_ok s \<longleftrightarrow> \<not> blank (s_name s) \<and> s_type s = ''raw_report''
     \<and> \<not> blank (s_report_type s) \<and> \<not> blank (s_ts_field s)"

definition view_ok :: "view_def \<Rightarrow> bool" where
  "view_ok v \<longleftrightarrow> \<not> blank (v_name v) \<and> 1 \<le> v_version v \<and> v_features v \<noteq> []
     \<and> (\<forall>d. v_max_depth v = Some d \<longrightarrow> 1 \<le> d \<and> d \<le> max_depth_cap)
     \<and> (\<forall>f \<in> set (v_features v). feature_ok f \<and> (\<forall>d \<in> set (f_deps f). dep_ok d))
     \<and> (\<forall>(g, ms) \<in> set (v_groups v). \<not> blank g \<and> ms \<noteq> [] \<and> distinct ms)"

definition registry_ok :: "registry \<Rightarrow> bool" where
  "registry_ok r \<longleftrightarrow>
     reg_entities r \<noteq> [] \<and> reg_sources r \<noteq> [] \<and> reg_views r \<noteq> []
     \<and> (\<forall>e \<in> set (reg_entities r). entity_ok e) \<and> (\<forall>s \<in> set (reg_sources r). source_ok s)
     \<and> (\<forall>v \<in> set (reg_views r). view_ok v) \<and> registry_rules r"

lemma build_entity_ok: "build_entity n b = Inr e \<Longrightarrow> entity_ok e \<and> e_name e = n"
  by (auto simp: build_entity_def mk_entity_def_def entity_ok_def)

lemma build_source_ok: "build_source n b = Inr s \<Longrightarrow> source_ok s \<and> s_name s = n"
  by (auto simp: build_source_def mk_source_def_def source_ok_def)

lemma build_dep_ok: "build_dep v = Inr d \<Longrightarrow> dep_ok d"
  by (cases v rule: build_dep.cases) (auto simp: bare_dep_def Let_def dest: mk_feature_dep_ok)

lemma build_deps_ok: "build_deps v = Inr ds \<Longrightarrow> d \<in> set ds \<Longrightarrow> dep_ok d"
  by (cases v rule: build_deps.cases) (auto dest!: map_res_set dest: build_dep_ok)

lemma mk_feature_def_fields: "mk_feature_def f = Inr g \<Longrightarrow> f_name g = f_name f \<and> f_deps g = f_deps f"
  by (auto simp: mk_feature_def_def split: option.splits)

lemma build_feature_ok:
  assumes "build_feature n b = Inr f"
  shows "feature_ok f \<and> f_name f = n \<and> (\<forall>d \<in> set (f_deps f). dep_ok d)"
proof -
  from assms obtain g deps w where g: "mk_feature_def g = Inr f" "f_name g = n" "f_deps g = deps"
    "build_deps w = Inr deps"
    by (force simp: build_feature_def)
  from mk_feature_def_fields[OF g(1)] mk_feature_def_ok[OF g(1)] g(2-) build_deps_ok[OF g(4)]
  show ?thesis by simp
qed

lemma mk_view_def_Inr:
  assumes "mk_view_def v = Inr w"
  shows "w = v \<and> \<not> blank (v_name v) \<and> 1 \<le> v_version v \<and> v_features v \<noteq> []
     \<and> (\<forall>d. v_max_depth v = Some d \<longrightarrow> 1 \<le> d \<and> d \<le> max_depth_cap)
     \<and> (\<forall>(g, ms) \<in> set (v_groups v). \<not> blank g \<and> ms \<noteq> [] \<and> distinct ms)"
  using assms by (fastforce simp: mk_view_def_def)

lemma build_named:
  assumes "map_res (\<lambda>(n, b). build n b) kvs = Inr xs" "\<And>n b x. build n b = Inr x \<Longrightarrow> ok x \<and> name x = n"
  shows "map name xs = map fst kvs \<and> (\<forall>x \<in> set xs. ok x)"
  using assms(1)
proof (induction kvs arbitrary: xs)
  case (Cons kv kvs)
  obtain n b where kv: "kv = (n, b)" by (cases kv)
  with Cons.prems obtain x ys where x: "build n b = Inr x" "xs = x # ys"
    "map_res (\<lambda>(n, b). build n b) kvs = Inr ys" by auto
  from Cons.IH[OF x(3)] assms(2)[OF x(1)] x(2) kv show ?case by simp
qed simp

lemma build_view_ok:
  assumes "build_view n b = Inr v"
  shows "view_ok v \<and> v_name v = n"
proof -
  from assms obtain fs features w where v: "map_res (\<lambda>(n, b). build_feature n b) fs = Inr features"
    "mk_view_def w = Inr v" "v_name w = n" "v_features w = features"
    by (force simp: build_view_def)
  have "build_feature n b = Inr f \<Longrightarrow>
      (feature_ok f \<and> (\<forall>d \<in> set (f_deps f). dep_ok d)) \<and> f_name f = n" for n b f
    using build_feature_ok by blast
  from build_named[where build = build_feature and name = f_name, OF v(1) this] mk_view_def_Inr[OF v(2)] v(3,4) show ?thesis
    by (simp add: view_ok_def)
qed

lemma entities_named:
  "map_res (\<lambda>(n, b). build_entity n b) kvs = Inr xs \<Longrightarrow> map e_name xs = map fst kvs \<and> (\<forall>x \<in> set xs. entity_ok x)"
  by (rule build_named[where build = build_entity and name = e_name]) (simp_all add: build_entity_ok)

lemma sources_named:
  "map_res (\<lambda>(n, b). build_source n b) kvs = Inr xs \<Longrightarrow> map s_name xs = map fst kvs \<and> (\<forall>x \<in> set xs. source_ok x)"
  by (rule build_named[where build = build_source and name = s_name]) (simp_all add: build_source_ok)

lemma views_named:
  "map_res (\<lambda>(n, b). build_view n b) kvs = Inr xs \<Longrightarrow> map v_name xs = map fst kvs \<and> (\<forall>x \<in> set xs. view_ok x)"
  by (rule build_named[where build = build_view and name = v_name]) (simp_all add: build_view_ok)

lemma view_ok_cap: "view_ok v \<Longrightarrow> 0 \<le> graph_cap v"
  by (rule graph_cap_nonneg) (auto simp: view_ok_def)

text \<open>
  A document that loads gives a registry that satisfies every rule, with one entry for every
  name of the document, in its order.
\<close>

lemma build_registry_parts:
  assumes "build_registry d = Inr r"
  shows "\<exists>es ss vs. jitem d ''entities'' = Inr (JObj es) \<and> jitem d ''sources'' = Inr (JObj ss)
    \<and> jitem d ''feature_views'' = Inr (JObj vs)
    \<and> map_res (\<lambda>(n, b). build_entity n b) es = Inr (reg_entities r)
    \<and> map_res (\<lambda>(n, b). build_source n b) ss = Inr (reg_sources r)
    \<and> map_res (\<lambda>(n, b). build_view n b) vs = Inr (reg_views r)
    \<and> reg_entities r \<noteq> [] \<and> reg_sources r \<noteq> [] \<and> reg_views r \<noteq> [] \<and> validate_registry r = Inr ()"
  using assms by (auto simp: build_registry_def mk_registry_def)

lemma build_registry_ok:
  assumes "build_registry d = Inr r"
  shows "registry_ok r"
proof -
  from build_registry_parts[OF assms] obtain es ss vs where p:
    "map_res (\<lambda>(n, b). build_entity n b) es = Inr (reg_entities r)"
    "map_res (\<lambda>(n, b). build_source n b) ss = Inr (reg_sources r)"
    "map_res (\<lambda>(n, b). build_view n b) vs = Inr (reg_views r)"
    "reg_entities r \<noteq> []" "reg_sources r \<noteq> []" "reg_views r \<noteq> []" "validate_registry r = Inr ()" by blast
  have v: "\<forall>v \<in> set (reg_views r). view_ok v" using views_named[OF p(3)] by blast
  then have "registry_rules r" using validate_registry_iff[of r] view_ok_cap p(7) by blast
  with p v entities_named[OF p(1)] sources_named[OF p(2)]
  show ?thesis by (simp add: registry_ok_def)
qed

lemma build_registry_names:
  assumes "build_registry d = Inr r"
  shows "\<exists>es ss vs. jitem d ''entities'' = Inr (JObj es) \<and> jitem d ''sources'' = Inr (JObj ss)
    \<and> jitem d ''feature_views'' = Inr (JObj vs)
    \<and> map e_name (reg_entities r) = map fst es \<and> map s_name (reg_sources r) = map fst ss
    \<and> map v_name (reg_views r) = map fst vs"
proof -
  from build_registry_parts[OF assms] obtain es ss vs where p:
    "jitem d ''entities'' = Inr (JObj es)" "jitem d ''sources'' = Inr (JObj ss)"
    "jitem d ''feature_views'' = Inr (JObj vs)"
    "map_res (\<lambda>(n, b). build_entity n b) es = Inr (reg_entities r)"
    "map_res (\<lambda>(n, b). build_source n b) ss = Inr (reg_sources r)"
    "map_res (\<lambda>(n, b). build_view n b) vs = Inr (reg_views r)" by blast
  from entities_named[OF p(4)] sources_named[OF p(5)] views_named[OF p(6)] p(1-3) show ?thesis by blast
qed

text \<open>A misspelt key is never ignored.\<close>

lemma unknown_key_rejected:
  assumes "k \<notin> set req \<union> set optional" "k \<in> fst ` set kvs"
  shows "check_keys (JObj kvs) (req, optional) = Inl (ValueError ''has unknown keys'')"
  using assms by (auto simp: require_def)

end
