(* ===== verification/Events.thy ===== *)
theory Events
  imports Documents
begin

text \<open>
  The messages between the service and its workers (fs_core/events/models.py): compute
  requests with their report descriptors, completions, feature updates and offline writes. Each
  class has its constructor checks, its dictionary form and its parser, and is a \<open>codec\<close>.
\<close>

section \<open>Timestamps of an event\<close>

text \<open>\<^verbatim>\<open>_iso\<close> rejects a naive datetime.\<close>

definition event_iso :: "datetime \<Rightarrow> json res" where
  "event_iso t =
     rbind (require (aware t) (ValueError ''event datetimes must be timezone-aware''))
       (\<lambda>_. Inr (of_iso t))"

definition event_iso_opt :: "datetime option \<Rightarrow> json res" where
  "event_iso_opt t = (case t of None \<Rightarrow> Inr JNull | Some v \<Rightarrow> event_iso v)"

definition stamp :: "datetime \<Rightarrow> bool" where
  "stamp t \<longleftrightarrow> aware t \<and> datetime_valid t"

definition stamp_opt :: "datetime option \<Rightarrow> bool" where
  "stamp_opt t = (case t of None \<Rightarrow> True | Some v \<Rightarrow> stamp v)"

lemma event_iso_stamp [simp]: "stamp t \<Longrightarrow> event_iso t = Inr (of_iso t)"
  by (simp add: event_iso_def stamp_def)

lemma event_iso_opt_stamp [simp]: "stamp_opt t \<Longrightarrow> event_iso_opt t = Inr (of_opt of_iso t)"
  by (cases t) (simp_all add: event_iso_opt_def stamp_opt_def of_opt_def)

lemma as_iso_stamp [simp]: "stamp t \<Longrightarrow> as_iso (of_iso t) = Inr t"
  by (simp add: stamp_def)

lemma as_opt_iso_stamp [simp]: "stamp_opt t \<Longrightarrow> as_opt as_iso (of_opt of_iso t) = Inr t"
  by (cases t) (simp_all add: stamp_opt_def as_opt_def of_opt_def)

section \<open>Free-form objects\<close>

definition sort_items :: "(string \<times> json) list \<Rightarrow> (string \<times> json) list" where
  "sort_items kvs = sort_key fst (map (\<lambda>(k, v). (k, sort_keys v)) kvs)"

lemma sort_keys_obj: "sort_keys (JObj kvs) = JObj (sort_items kvs)"
  by (simp add: sort_items_def sort_keys.simps(2))

lemma as_obj_sort_keys [simp]: "as_obj (sort_keys (JObj kvs)) = Inr (sort_items kvs)"
  by (simp add: sort_keys_obj)

lemma sort_items_idem [simp]: "sort_items (sort_items kvs) = sort_items kvs"
  using sort_keys_idem[of "JObj kvs"] by (simp only: sort_keys_obj json.inject)

section \<open>Dictionaries of objects\<close>

definition of_obj_dict :: "(string, (string, json) dict) dict \<Rightarrow> json" where
  "of_obj_dict d = JObj (map (\<lambda>(n, s). (n, JObj s)) d)"

definition as_obj_dict :: "json \<Rightarrow> (string, (string, json) dict) dict res" where
  "as_obj_dict v = rbind (as_obj v) (map_res (\<lambda>(n, w). rbind (as_obj w) (\<lambda>s. Inr (n, s))))"

definition sort_obj_dict :: "(string, (string, json) dict) dict \<Rightarrow> (string, (string, json) dict) dict" where
  "sort_obj_dict d = sort_key fst (map (\<lambda>(n, s). (n, sort_items s)) d)"

lemma as_obj_dict_sorted [simp]: "as_obj_dict (sort_keys (of_obj_dict d)) = Inr (sort_obj_dict d)"
proof -
  have "sort_items (map (\<lambda>(n, s). (n, JObj s)) d) = map (\<lambda>(n, s). (n, sort_keys (JObj s))) (sort_key fst d)"
    by (simp add: sort_items_def sort_key_map case_prod_beta comp_def)
  moreover have "map_res (\<lambda>(n, w). rbind (as_obj w) (\<lambda>s. Inr (n, s)))
      (map (\<lambda>(n, s). (n, sort_keys (JObj s))) (sort_key fst d)) = Inr (map (\<lambda>(n, s). (n, sort_items s)) (sort_key fst d))"
    by (intro map_res_read_back) auto
  ultimately show ?thesis by (simp add: as_obj_dict_def of_obj_dict_def sort_obj_dict_def sort_key_map_snd)
qed

lemma sort_obj_dict_idem [simp]: "sort_obj_dict (sort_obj_dict d) = sort_obj_dict d"
  by (simp add: sort_obj_dict_def sort_key_map case_prod_beta comp_def)

definition obj_plain :: "(string, json) dict \<Rightarrow> bool" where
  "obj_plain kvs \<longleftrightarrow> (\<forall>x \<in> set kvs. json_plain (snd x))"

lemma obj_plain_sort_items [simp]: "obj_plain kvs \<Longrightarrow> obj_plain (sort_items kvs)"
  using json_plain_sort_keys[of "JObj kvs"] by (simp add: sort_keys_obj obj_plain_def)

lemma json_plain_obj_dict:
  "json_plain (of_obj_dict d) \<longleftrightarrow> (\<forall>x \<in> set d. obj_plain (snd x))"
  by (force simp: of_obj_dict_def obj_plain_def)

lemma json_plain_sort_obj_dict [simp]: "json_plain (of_obj_dict d) \<Longrightarrow> json_plain (of_obj_dict (sort_obj_dict d))"
  by (auto simp: json_plain_obj_dict sort_obj_dict_def)

section \<open>Entities\<close>

record entity_ref =
  er_type :: string
  er_key :: "(string, string) dict"

text \<open>The partition key of every message about the entity.\<close>

definition er_encoded :: "entity_ref \<Rightarrow> string res" where
  "er_encoded e = encode_entity_key (er_key e) None"

definition er_to_dict :: "entity_ref \<Rightarrow> json" where
  "er_to_dict e = JObj [(''entity_type'', JStr (er_type e)), (''entity_key'', of_str_dict (er_key e))]"

definition er_from_dict :: "json \<Rightarrow> entity_ref res" where
  "er_from_dict d =
     rbind (str_item d ''entity_type'') (\<lambda>entity_type.
     rbind (str_dict_item d ''entity_key'') (\<lambda>entity_key.
     Inr \<lparr>er_type = entity_type, er_key = entity_key\<rparr>))"

definition er_normal :: "entity_ref \<Rightarrow> entity_ref" where
  "er_normal e = e\<lparr>er_key := sort_key fst (er_key e)\<rparr>"

lemma er_read [simp]: "er_from_dict (sort_keys (er_to_dict e)) = Inr (er_normal e)"
  by (simp add: er_from_dict_def er_to_dict_def er_normal_def field_reads)

lemma er_plain [simp]: "json_plain (er_to_dict e)"
  by (simp add: er_to_dict_def)

lemma er_normal_idem [simp]: "er_normal (er_normal e) = er_normal e"
  by (simp add: er_normal_def)

interpretation er: codec "\<lambda>e. Inr (er_to_dict e)" er_from_dict "\<lambda>_. True" er_normal
  by unfold_locales simp_all

text \<open>The partition key survives the transport.\<close>

lemma er_encoded_normal:
  assumes "er_encoded e = Inr s"
  shows "er_encoded (er_normal e) = Inr s"
proof -
  have ks: "sort (dict_keys (sort_key fst (er_key e))) = sort (dict_keys (er_key e))"
    by (rule sort_mset_cong) (simp add: dict_keys_def)
  have "dict_index (sort_key fst (er_key e)) = dict_index (er_key e)"
    by (simp add: dict_index_def fun_eq_iff)
  moreover have "for_each validate_part (sort_key fst (er_key e)) = Inr ()"
    using assms by (auto simp: er_encoded_def encode_entity_key_def)
  moreover have "sort_key fst (er_key e) = [] \<longleftrightarrow> er_key e = []"
    by (metis length_0_conv length_sort)
  ultimately show ?thesis
    using assms by (simp add: er_encoded_def er_normal_def encode_entity_key_def ks)
qed

section \<open>Report descriptors\<close>

record report_descriptor =
  rd_report_ref :: string
  rd_source_name :: string
  rd_report_type :: string
  rd_schema_version :: string
  rd_report_ts :: datetime
  rd_object_key :: string
  rd_content_hash :: string
  rd_size_bytes :: int
  rd_compression :: string
  rd_format :: string
  rd_available_at :: "datetime option"

definition rd_to_dict :: "report_descriptor \<Rightarrow> json res" where
  "rd_to_dict e =
     rbind (event_iso (rd_report_ts e)) (\<lambda>report_ts.
     rbind (event_iso_opt (rd_available_at e)) (\<lambda>available_at.
     Inr (JObj
       [(''report_ref'', JStr (rd_report_ref e)),
        (''source_name'', JStr (rd_source_name e)),
        (''report_type'', JStr (rd_report_type e)),
        (''schema_version'', JStr (rd_schema_version e)),
        (''report_ts'', report_ts),
        (''object_key'', JStr (rd_object_key e)),
        (''content_hash'', JStr (rd_content_hash e)),
        (''size_bytes'', JInt (rd_size_bytes e)),
        (''compression'', JStr (rd_compression e)),
        (''format'', JStr (rd_format e)),
        (''available_at'', available_at)])))"

definition rd_from_dict :: "json \<Rightarrow> report_descriptor res" where
  "rd_from_dict d =
     rbind (str_item d ''report_ref'') (\<lambda>report_ref.
     rbind (str_item d ''source_name'') (\<lambda>source_name.
     rbind (str_item d ''report_type'') (\<lambda>report_type.
     rbind (str_item d ''schema_version'') (\<lambda>schema_version.
     rbind (iso_item d ''report_ts'') (\<lambda>report_ts.
     rbind (str_item d ''object_key'') (\<lambda>object_key.
     rbind (str_item d ''content_hash'') (\<lambda>content_hash.
     rbind (int_item d ''size_bytes'') (\<lambda>size_bytes.
     rbind (str_item d ''compression'') (\<lambda>compression.
     rbind (str_item d ''format'') (\<lambda>format.
     rbind (opt_iso_get d ''available_at'') (\<lambda>available_at.
     Inr \<lparr>rd_report_ref = report_ref, rd_source_name = source_name,
        rd_report_type = report_type, rd_schema_version = schema_version,
        rd_report_ts = report_ts, rd_object_key = object_key,
        rd_content_hash = content_hash, rd_size_bytes = size_bytes,
        rd_compression = compression, rd_format = format,
        rd_available_at = available_at\<rparr>)))))))))))"

definition rd_wf :: "report_descriptor \<Rightarrow> bool" where
  "rd_wf e \<longleftrightarrow>
     stamp (rd_report_ts e)
     \<and> stamp_opt (rd_available_at e)"

definition rd_normal :: "report_descriptor \<Rightarrow> report_descriptor" where
  "rd_normal e = e"

lemma rd_written:
  assumes "rd_wf e"
  shows "\<exists>d. rd_to_dict e = Inr d \<and> json_plain d \<and> rd_from_dict (sort_keys d) = Inr (rd_normal e)"
  using assms unfolding rd_to_dict_def rd_from_dict_def rd_wf_def rd_normal_def field_reads
  by simp

interpretation rd: codec rd_to_dict rd_from_dict rd_wf rd_normal
  by (unfold_locales, erule rd_written) (simp_all add: rd_wf_def rd_normal_def)

lemma rd_normal_map: "map rd_normal rs = rs"
  by (induction rs) (simp_all add: rd_normal_def)

section \<open>Compute requests\<close>

record compute_requested =
  cq_event_type :: string
  cq_event_version :: int
  cq_request_id :: string
  cq_job_id :: string
  cq_priority :: string
  cq_deadline_ms :: int
  cq_entity :: entity_ref
  cq_view :: string
  cq_view_version :: int
  cq_groups :: "string list"
  cq_features :: "string list"
  cq_reports :: "report_descriptor list"
  cq_write_policy :: string
  cq_idempotency_key :: string
  cq_correlation_id :: string
  cq_occurred_at :: datetime
  cq_event_ts :: "datetime option"
  cq_expires_at :: "datetime option"

text \<open>The constructor: both deadline fields are aware, and the deadline follows the request.\<close>

definition mk_compute_requested :: "compute_requested \<Rightarrow> compute_requested res" where
  "mk_compute_requested e =
     rbind (event_iso_opt (cq_event_ts e)) (\<lambda>_.
     rbind (event_iso_opt (cq_expires_at e)) (\<lambda>_.
     rbind (case (cq_expires_at e, cq_event_ts e) of
              (Some expires, Some reference) \<Rightarrow>
                require (\<not> instant expires \<le> instant reference)
                  (ValueError ''expires_at must be strictly after event_ts'')
            | _ \<Rightarrow> Inr ()) (\<lambda>_.
     Inr e)))"

definition deadline_ok :: "compute_requested \<Rightarrow> bool" where
  "deadline_ok e \<longleftrightarrow>
     (case (cq_expires_at e, cq_event_ts e) of
        (Some expires, Some reference) \<Rightarrow> instant reference < instant expires
      | _ \<Rightarrow> True)"

lemma mk_compute_requested_ok:
  "stamp_opt (cq_event_ts e) \<Longrightarrow> stamp_opt (cq_expires_at e) \<Longrightarrow> deadline_ok e \<Longrightarrow>
     mk_compute_requested e = Inr e"
  by (auto simp: mk_compute_requested_def deadline_ok_def split: option.splits)

definition cq_to_dict :: "compute_requested \<Rightarrow> json res" where
  "cq_to_dict e =
     rbind (map_res rd_to_dict (cq_reports e)) (\<lambda>reports.
     rbind (event_iso (cq_occurred_at e)) (\<lambda>occurred_at.
     rbind (event_iso_opt (cq_event_ts e)) (\<lambda>event_ts.
     rbind (event_iso_opt (cq_expires_at e)) (\<lambda>expires_at.
     Inr (JObj
       [(''event_type'', JStr (cq_event_type e)),
        (''event_version'', JInt (cq_event_version e)),
        (''request_id'', JStr (cq_request_id e)),
        (''job_id'', JStr (cq_job_id e)),
        (''priority'', JStr (cq_priority e)),
        (''deadline_ms'', JInt (cq_deadline_ms e)),
        (''entity'', er_to_dict (cq_entity e)),
        (''view'', JStr (cq_view e)),
        (''view_version'', JInt (cq_view_version e)),
        (''requested_feature_groups'', of_str_list (cq_groups e)),
        (''requested_features'', of_str_list (cq_features e)),
        (''reports'', JList reports),
        (''write_policy'', JStr (cq_write_policy e)),
        (''idempotency_key'', JStr (cq_idempotency_key e)),
        (''correlation_id'', JStr (cq_correlation_id e)),
        (''occurred_at'', occurred_at),
        (''event_ts'', event_ts),
        (''expires_at'', expires_at)])))))"

definition cq_from_dict :: "json \<Rightarrow> compute_requested res" where
  "cq_from_dict d =
     rbind (str_item d ''request_id'') (\<lambda>request_id.
     rbind (str_item d ''job_id'') (\<lambda>job_id.
     rbind (str_item d ''priority'') (\<lambda>priority.
     rbind (int_item d ''deadline_ms'') (\<lambda>deadline_ms.
     rbind (rbind (jitem d ''entity'') er_from_dict) (\<lambda>entity.
     rbind (str_item d ''view'') (\<lambda>view.
     rbind (int_item d ''view_version'') (\<lambda>view_version.
     rbind (list_item rd_from_dict d ''reports'') (\<lambda>reports.
     rbind (str_item d ''write_policy'') (\<lambda>write_policy.
     rbind (str_item d ''idempotency_key'') (\<lambda>idempotency_key.
     rbind (str_item d ''correlation_id'') (\<lambda>correlation_id.
     rbind (iso_item d ''occurred_at'') (\<lambda>occurred_at.
     rbind (str_list_get d ''requested_feature_groups'') (\<lambda>groups.
     rbind (str_list_get d ''requested_features'') (\<lambda>features.
     rbind (opt_iso_get d ''event_ts'') (\<lambda>event_ts.
     rbind (opt_iso_get d ''expires_at'') (\<lambda>expires_at.
     rbind (str_get d ''event_type'' ''feature_compute.requested'') (\<lambda>event_type.
     rbind (int_get d ''event_version'' 1) (\<lambda>event_version.
     mk_compute_requested \<lparr>cq_event_type = event_type, cq_event_version = event_version,
        cq_request_id = request_id, cq_job_id = job_id, cq_priority = priority,
        cq_deadline_ms = deadline_ms, cq_entity = entity, cq_view = view,
        cq_view_version = view_version, cq_groups = groups, cq_features = features,
        cq_reports = reports, cq_write_policy = write_policy,
        cq_idempotency_key = idempotency_key, cq_correlation_id = correlation_id,
        cq_occurred_at = occurred_at, cq_event_ts = event_ts,
        cq_expires_at = expires_at\<rparr>))))))))))))))))))"

definition cq_wf :: "compute_requested \<Rightarrow> bool" where
  "cq_wf e \<longleftrightarrow>
     list_all rd_wf (cq_reports e)
     \<and> stamp (cq_occurred_at e)
     \<and> stamp_opt (cq_event_ts e)
     \<and> stamp_opt (cq_expires_at e)
     \<and> deadline_ok e"

definition cq_normal :: "compute_requested \<Rightarrow> compute_requested" where
  "cq_normal e = e\<lparr>cq_entity := er_normal (cq_entity e)\<rparr>"

lemma cq_written:
  assumes "cq_wf e"
  shows "\<exists>d. cq_to_dict e = Inr d \<and> json_plain d \<and> cq_from_dict (sort_keys d) = Inr (cq_normal e)"
proof -
  from assms obtain ds where "map_res rd_to_dict (cq_reports e) = Inr ds"
    "\<forall>d \<in> set ds. json_plain d"
    "map_res rd_from_dict (map sort_keys ds) = Inr (map rd_normal (cq_reports e))"
    using rd.list_written[of "cq_reports e"] by (auto simp: cq_wf_def list_all_iff)
  with assms show ?thesis
    unfolding cq_to_dict_def cq_from_dict_def cq_wf_def cq_normal_def field_reads list_item_def
    by (simp add: deadline_ok_def mk_compute_requested_ok rd_normal_map)
qed

interpretation cq: codec cq_to_dict cq_from_dict cq_wf cq_normal
  by (unfold_locales, erule cq_written) (simp_all add: cq_wf_def cq_normal_def deadline_ok_def rd_normal_def)

section \<open>Completions\<close>

record compute_completed =
  cc_event_type :: string
  cc_event_version :: int
  cc_request_id :: string
  cc_job_id :: string
  cc_entity :: entity_ref
  cc_view :: string
  cc_view_version :: int
  cc_written_features :: "string list"
  cc_online_write_status :: "string option"
  cc_correlation_id :: string
  cc_occurred_at :: datetime

definition cc_to_dict :: "compute_completed \<Rightarrow> json res" where
  "cc_to_dict e =
     rbind (event_iso (cc_occurred_at e)) (\<lambda>occurred_at.
     Inr (JObj
       [(''event_type'', JStr (cc_event_type e)),
        (''event_version'', JInt (cc_event_version e)),
        (''request_id'', JStr (cc_request_id e)),
        (''job_id'', JStr (cc_job_id e)),
        (''entity'', er_to_dict (cc_entity e)),
        (''view'', JStr (cc_view e)),
        (''view_version'', JInt (cc_view_version e)),
        (''written_features'', of_str_list (cc_written_features e)),
        (''online_write_status'', of_opt JStr (cc_online_write_status e)),
        (''correlation_id'', JStr (cc_correlation_id e)),
        (''occurred_at'', occurred_at)]))"

definition cc_from_dict :: "json \<Rightarrow> compute_completed res" where
  "cc_from_dict d =
     rbind (str_item d ''request_id'') (\<lambda>request_id.
     rbind (str_item d ''job_id'') (\<lambda>job_id.
     rbind (rbind (jitem d ''entity'') er_from_dict) (\<lambda>entity.
     rbind (str_item d ''view'') (\<lambda>view.
     rbind (int_item d ''view_version'') (\<lambda>view_version.
     rbind (str_item d ''correlation_id'') (\<lambda>correlation_id.
     rbind (iso_item d ''occurred_at'') (\<lambda>occurred_at.
     rbind (str_list_get d ''written_features'') (\<lambda>written_features.
     rbind (opt_str_get d ''online_write_status'') (\<lambda>online_write_status.
     rbind (str_get d ''event_type'' ''feature_compute.completed'') (\<lambda>event_type.
     rbind (int_get d ''event_version'' 1) (\<lambda>event_version.
     Inr \<lparr>cc_event_type = event_type, cc_event_version = event_version,
        cc_request_id = request_id, cc_job_id = job_id, cc_entity = entity,
        cc_view = view, cc_view_version = view_version,
        cc_written_features = written_features,
        cc_online_write_status = online_write_status,
        cc_correlation_id = correlation_id, cc_occurred_at = occurred_at\<rparr>)))))))))))"

definition cc_wf :: "compute_completed \<Rightarrow> bool" where
  "cc_wf e \<longleftrightarrow>
     stamp (cc_occurred_at e)"

definition cc_normal :: "compute_completed \<Rightarrow> compute_completed" where
  "cc_normal e = e\<lparr>cc_entity := er_normal (cc_entity e)\<rparr>"

lemma cc_written:
  assumes "cc_wf e"
  shows "\<exists>d. cc_to_dict e = Inr d \<and> json_plain d \<and> cc_from_dict (sort_keys d) = Inr (cc_normal e)"
  using assms unfolding cc_to_dict_def cc_from_dict_def cc_wf_def cc_normal_def field_reads
  by simp

interpretation cc: codec cc_to_dict cc_from_dict cc_wf cc_normal
  by (unfold_locales, erule cc_written) (simp_all add: cc_wf_def cc_normal_def)

section \<open>Feature updates\<close>

record feature_updated =
  fu_event_type :: string
  fu_event_version :: int
  fu_update_id :: string
  fu_entity :: entity_ref
  fu_view :: string
  fu_view_version :: int
  fu_feature_name :: string
  fu_feature_version :: int
  fu_data_ts :: datetime
  fu_calc_ts :: datetime
  fu_max_input_data_ts :: "datetime option"
  fu_input_fingerprint :: "string option"
  fu_value_hash :: "string option"
  fu_run_id :: "string option"
  fu_job_id :: "string option"
  fu_manifest_id :: "string option"
  fu_source :: string
  fu_occurred_at :: datetime

definition update_sources :: "string list" where
  "update_sources =
     [''offline_writer'', ''batch_worker'', ''dwh_import'', ''table_import'', ''recompute_wave'']"

definition mk_feature_updated :: "feature_updated \<Rightarrow> feature_updated res" where
  "mk_feature_updated e =
     rbind (require (fu_source e \<in> set update_sources)
              (ValueError ''FeatureUpdated has unknown source'')) (\<lambda>_.
     rbind (event_iso (fu_data_ts e)) (\<lambda>_.
     rbind (event_iso (fu_calc_ts e)) (\<lambda>_.
     rbind (event_iso_opt (fu_max_input_data_ts e)) (\<lambda>_. Inr e))))"

lemma mk_feature_updated_ok:
  "fu_source e \<in> set update_sources \<Longrightarrow> stamp (fu_data_ts e) \<Longrightarrow> stamp (fu_calc_ts e) \<Longrightarrow>
     stamp_opt (fu_max_input_data_ts e) \<Longrightarrow> mk_feature_updated e = Inr e"
  by (simp add: mk_feature_updated_def)

definition fu_to_dict :: "feature_updated \<Rightarrow> json res" where
  "fu_to_dict e =
     rbind (event_iso (fu_data_ts e)) (\<lambda>data_ts.
     rbind (event_iso (fu_calc_ts e)) (\<lambda>calc_ts.
     rbind (event_iso_opt (fu_max_input_data_ts e)) (\<lambda>max_input_data_ts.
     rbind (event_iso (fu_occurred_at e)) (\<lambda>occurred_at.
     Inr (JObj
       [(''event_type'', JStr (fu_event_type e)),
        (''event_version'', JInt (fu_event_version e)),
        (''update_id'', JStr (fu_update_id e)),
        (''entity'', er_to_dict (fu_entity e)),
        (''view'', JStr (fu_view e)),
        (''view_version'', JInt (fu_view_version e)),
        (''feature_name'', JStr (fu_feature_name e)),
        (''feature_version'', JInt (fu_feature_version e)),
        (''data_ts'', data_ts),
        (''calc_ts'', calc_ts),
        (''max_input_data_ts'', max_input_data_ts),
        (''input_fingerprint'', of_opt JStr (fu_input_fingerprint e)),
        (''value_hash'', of_opt JStr (fu_value_hash e)),
        (''run_id'', of_opt JStr (fu_run_id e)),
        (''job_id'', of_opt JStr (fu_job_id e)),
        (''manifest_id'', of_opt JStr (fu_manifest_id e)),
        (''source'', JStr (fu_source e)),
        (''occurred_at'', occurred_at)])))))"

definition fu_from_dict :: "json \<Rightarrow> feature_updated res" where
  "fu_from_dict d =
     rbind (str_item d ''update_id'') (\<lambda>update_id.
     rbind (rbind (jitem d ''entity'') er_from_dict) (\<lambda>entity.
     rbind (str_item d ''view'') (\<lambda>view.
     rbind (int_item d ''view_version'') (\<lambda>view_version.
     rbind (str_item d ''feature_name'') (\<lambda>feature_name.
     rbind (int_item d ''feature_version'') (\<lambda>feature_version.
     rbind (iso_item d ''data_ts'') (\<lambda>data_ts.
     rbind (iso_item d ''calc_ts'') (\<lambda>calc_ts.
     rbind (str_item d ''source'') (\<lambda>source.
     rbind (iso_item d ''occurred_at'') (\<lambda>occurred_at.
     rbind (opt_iso_get d ''max_input_data_ts'') (\<lambda>max_input_data_ts.
     rbind (opt_str_get d ''input_fingerprint'') (\<lambda>input_fingerprint.
     rbind (opt_str_get d ''value_hash'') (\<lambda>value_hash.
     rbind (opt_str_get d ''run_id'') (\<lambda>run_id.
     rbind (opt_str_get d ''job_id'') (\<lambda>job_id.
     rbind (opt_str_get d ''manifest_id'') (\<lambda>manifest_id.
     rbind (str_get d ''event_type'' ''feature_updated'') (\<lambda>event_type.
     rbind (int_get d ''event_version'' 1) (\<lambda>event_version.
     mk_feature_updated \<lparr>fu_event_type = event_type, fu_event_version = event_version,
        fu_update_id = update_id, fu_entity = entity, fu_view = view,
        fu_view_version = view_version, fu_feature_name = feature_name,
        fu_feature_version = feature_version, fu_data_ts = data_ts,
        fu_calc_ts = calc_ts, fu_max_input_data_ts = max_input_data_ts,
        fu_input_fingerprint = input_fingerprint, fu_value_hash = value_hash,
        fu_run_id = run_id, fu_job_id = job_id, fu_manifest_id = manifest_id,
        fu_source = source, fu_occurred_at = occurred_at\<rparr>))))))))))))))))))"

definition fu_wf :: "feature_updated \<Rightarrow> bool" where
  "fu_wf e \<longleftrightarrow>
     stamp (fu_data_ts e)
     \<and> stamp (fu_calc_ts e)
     \<and> stamp_opt (fu_max_input_data_ts e)
     \<and> stamp (fu_occurred_at e)
     \<and> fu_source e \<in> set update_sources"

definition fu_normal :: "feature_updated \<Rightarrow> feature_updated" where
  "fu_normal e = e\<lparr>fu_entity := er_normal (fu_entity e)\<rparr>"

lemma fu_written:
  assumes "fu_wf e"
  shows "\<exists>d. fu_to_dict e = Inr d \<and> json_plain d \<and> fu_from_dict (sort_keys d) = Inr (fu_normal e)"
  using assms unfolding fu_to_dict_def fu_from_dict_def fu_wf_def fu_normal_def field_reads
  by (simp add: mk_feature_updated_ok)

interpretation fu: codec fu_to_dict fu_from_dict fu_wf fu_normal
  by (unfold_locales, erule fu_written) (simp_all add: fu_wf_def fu_normal_def)

section \<open>Write sets\<close>

text \<open>What the text of a write set keeps of it, and the write sets that can be written.\<close>

definition result_normal :: "feature_result \<Rightarrow> feature_result" where
  "result_normal r = r\<lparr>r_value := sort_keys (r_value r)\<rparr>"

definition ws_normal :: "write_set \<Rightarrow> write_set" where
  "ws_normal w = w\<lparr>ws_results := sort_key fst (map (\<lambda>(n, r). (n, result_normal r)) (ws_results w)),
     ws_source_refs := sort_key fst (ws_source_refs w), ws_node_statuses := []\<rparr>"

definition write_set_sendable :: "write_set \<Rightarrow> bool" where
  "write_set_sendable w \<longleftrightarrow>
     write_set_wf w \<and> (\<forall>r \<in> set (ws_results w). json_plain (r_value (snd r)))"

lemma result_read:
  assumes "result_wf ek r"
  shows "result_from_dict ek (sort_keys (result_to_dict r)) = Inr (result_normal r)"
proof -
  have ref: "mk_feature_ref (fr_name (r_ref r)) (fr_version (r_ref r)) = Inr (r_ref r)"
    using assms by (simp add: result_wf_def)
  show ?thesis
    using assms unfolding result_from_dict_def result_to_dict_def result_wf_def read_simps
    by (simp add: ref result_ok_def result_normal_def)
qed

lemma results_read:
  assumes "\<forall>r \<in> set rs. result_wf ek (snd r)"
  shows "map_res (\<lambda>(n, item). rbind (result_from_dict ek item) (\<lambda>r. Inr (n, r)))
     (sort_items (map (\<lambda>(n, r). (n, result_to_dict r)) rs))
     = Inr (sort_key fst (map (\<lambda>(n, r). (n, result_normal r)) rs))"
proof -
  have "sort_items (map (\<lambda>(n, r). (n, result_to_dict r)) rs)
      = map (\<lambda>(n, r). (n, sort_keys (result_to_dict r))) (sort_key fst rs)"
    by (simp add: sort_items_def sort_key_map case_prod_beta comp_def)
  moreover have "sort_key fst (map (\<lambda>(n, r). (n, result_normal r)) rs)
      = map (\<lambda>(n, r). (n, result_normal r)) (sort_key fst rs)"
    by (rule sort_key_map_snd)
  moreover have "map_res (\<lambda>(n, item). rbind (result_from_dict ek item) (\<lambda>r. Inr (n, r)))
      (map (\<lambda>(n, r). (n, sort_keys (result_to_dict r))) (sort_key fst rs))
      = Inr (map (\<lambda>(n, r). (n, result_normal r)) (sort_key fst rs))"
    using assms by (intro map_res_read_back) (auto simp: result_read)
  ultimately show ?thesis by simp
qed

lemma result_normal_wf [simp]: "result_wf ek (result_normal r) = result_wf ek r"
  by (simp add: result_wf_def result_normal_def result_ok_def)

lemma result_normal_idem [simp]: "result_normal (result_normal r) = result_normal r"
  by (simp add: result_normal_def)

lemma ws_read:
  assumes "write_set_sendable w"
  shows "write_set_from_dict (sort_keys (write_set_to_dict w)) = Inr (ws_normal w)"
proof -
  have ek: "mk_entity_key (ek_parts (ws_entity_key w)) = Inr (ws_entity_key w)"
    using assms by (simp add: write_set_sendable_def write_set_wf_def)
  have "\<forall>r \<in> set (ws_results w). result_wf (ws_entity_key w) (snd r)"
    using assms by (simp add: write_set_sendable_def write_set_wf_def)
  note rs = results_read[OF this]
  show ?thesis
    unfolding write_set_from_dict_def write_set_to_dict_def read_simps
    by (simp add: ek rs ws_normal_def)
qed

lemma result_plain: "json_plain (r_value r) \<Longrightarrow> json_plain (result_to_dict r)"
  by (simp add: result_to_dict_def)

lemma ws_plain: "write_set_sendable w \<Longrightarrow> json_plain (write_set_to_dict w)"
  by (auto simp: write_set_to_dict_def write_set_sendable_def result_plain)

lemma ws_normal_sendable: "write_set_sendable w \<Longrightarrow> write_set_sendable (ws_normal w)"
  by (auto simp: write_set_sendable_def ws_normal_def write_set_wf_def)
    (auto simp: result_normal_def)

lemma ws_normal_idem: "ws_normal (ws_normal w) = ws_normal w"
  by (simp add: ws_normal_def sort_key_map case_prod_beta comp_def)

section \<open>Offline writes\<close>

record offline_write_requested =
  ow_event_type :: string
  ow_event_version :: int
  ow_request_id :: string
  ow_job_id :: string
  ow_correlation_id :: string
  ow_occurred_at :: datetime
  ow_write_set :: write_set

definition ow_to_dict :: "offline_write_requested \<Rightarrow> json res" where
  "ow_to_dict e =
     rbind (event_iso (ow_occurred_at e)) (\<lambda>occurred_at.
     Inr (JObj
       [(''event_type'', JStr (ow_event_type e)),
        (''event_version'', JInt (ow_event_version e)),
        (''request_id'', JStr (ow_request_id e)),
        (''job_id'', JStr (ow_job_id e)),
        (''correlation_id'', JStr (ow_correlation_id e)),
        (''occurred_at'', occurred_at),
        (''write_set'', write_set_to_dict (ow_write_set e))]))"

definition ow_from_dict :: "json \<Rightarrow> offline_write_requested res" where
  "ow_from_dict d =
     rbind (str_item d ''request_id'') (\<lambda>request_id.
     rbind (str_item d ''job_id'') (\<lambda>job_id.
     rbind (str_item d ''correlation_id'') (\<lambda>correlation_id.
     rbind (iso_item d ''occurred_at'') (\<lambda>occurred_at.
     rbind (rbind (jitem d ''write_set'') write_set_from_dict) (\<lambda>write_set.
     rbind (str_get d ''event_type'' ''feature_write.offline.requested'') (\<lambda>event_type.
     rbind (int_get d ''event_version'' 1) (\<lambda>event_version.
     Inr \<lparr>ow_event_type = event_type, ow_event_version = event_version,
        ow_request_id = request_id, ow_job_id = job_id,
        ow_correlation_id = correlation_id, ow_occurred_at = occurred_at,
        ow_write_set = write_set\<rparr>)))))))"

definition ow_wf :: "offline_write_requested \<Rightarrow> bool" where
  "ow_wf e \<longleftrightarrow>
     stamp (ow_occurred_at e)
     \<and> write_set_sendable (ow_write_set e)"

definition ow_normal :: "offline_write_requested \<Rightarrow> offline_write_requested" where
  "ow_normal e = e\<lparr>ow_write_set := ws_normal (ow_write_set e)\<rparr>"

lemma ow_written:
  assumes "ow_wf e"
  shows "\<exists>d. ow_to_dict e = Inr d \<and> json_plain d \<and> ow_from_dict (sort_keys d) = Inr (ow_normal e)"
  using assms unfolding ow_to_dict_def ow_from_dict_def ow_wf_def ow_normal_def field_reads
  by (simp add: ws_read ws_plain)

interpretation ow: codec ow_to_dict ow_from_dict ow_wf ow_normal
  by (unfold_locales, erule ow_written) (simp_all add: ow_wf_def ow_normal_def ws_normal_sendable ws_normal_idem)

end
