(* ===== verification/Propagation.thy ===== *)
theory Propagation
  imports Events Acceptance
begin

text \<open>
  Propagation planning (fs_core/propagation.py): the reverse dependency index, the feature
  updates that a durable write emits, the recompute wave of an update, and the debounce store.
  The clock and the random update ids are parameters.
\<close>

section \<open>The reverse dependency index\<close>

type_synonym dependents_index = "(string, (string \<times> feature_dep) list) dict"

definition index_edge :: "string \<Rightarrow> feature_dep \<Rightarrow> dependents_index \<Rightarrow> dependents_index" where
  "index_edge name dep index =
     (if d_propagation dep = Reactive then
        dict_set (d_feature dep)
          ((case map_of index (d_feature dep) of None \<Rightarrow> [] | Some es \<Rightarrow> es) @ [(name, dep)]) index
      else index)"

definition reactive_dependents :: "view_def \<Rightarrow> dependents_index" where
  "reactive_dependents v =
     fold (\<lambda>f index. fold (index_edge (f_name f)) (f_deps f) index) (v_features v) []"

definition features_with_reactive_dependents :: "view_def \<Rightarrow> string list" where
  "features_with_reactive_dependents v = dict_keys (reactive_dependents v)"

text \<open>What the index holds: the reactive edges onto a feature, in registry order.\<close>

definition edges_onto :: "string \<Rightarrow> (string \<times> feature_dep) list \<Rightarrow> (string \<times> feature_dep) list" where
  "edges_onto n es = filter (\<lambda>(_, dep). d_propagation dep = Reactive \<and> d_feature dep = n) es"

definition view_edges :: "view_def \<Rightarrow> (string \<times> feature_dep) list" where
  "view_edges v = concat (map (\<lambda>f. map (\<lambda>dep. (f_name f, dep)) (f_deps f)) (v_features v))"

definition index_of :: "(string \<times> feature_dep) list \<Rightarrow> dependents_index \<Rightarrow> bool" where
  "index_of es index \<longleftrightarrow>
     (\<forall>n. map_of index n = (if edges_onto n es = [] then None else Some (edges_onto n es)))"

lemma index_edge_index_of:
  assumes "index_of es index"
  shows "index_of (es @ [(name, dep)]) (index_edge name dep index)"
  using assms by (auto simp: index_of_def index_edge_def edges_onto_def)

lemma fold_index_edges:
  "index_of es index \<Longrightarrow>
     index_of (es @ map (\<lambda>dep. (name, dep)) deps) (fold (index_edge name) deps index)"
proof (induction deps arbitrary: es index)
  case (Cons dep deps)
  from Cons.IH[OF index_edge_index_of[OF Cons.prems, of name dep]] show ?case by simp
qed simp

lemma fold_index_features:
  "index_of es index \<Longrightarrow>
     index_of (es @ concat (map (\<lambda>f. map (\<lambda>dep. (f_name f, dep)) (f_deps f)) fs))
       (fold (\<lambda>f index. fold (index_edge (f_name f)) (f_deps f) index) fs index)"
proof (induction fs arbitrary: es index)
  case (Cons f fs)
  from Cons.IH[OF fold_index_edges[OF Cons.prems, of "f_name f" "f_deps f"]] show ?case by simp
qed simp

lemma reactive_dependents_lookup:
  "map_of (reactive_dependents v) n
     = (if edges_onto n (view_edges v) = [] then None else Some (edges_onto n (view_edges v)))"
proof -
  have "index_of [] []" by (simp add: index_of_def edges_onto_def)
  from fold_index_features[OF this, of "v_features v"] show ?thesis
    by (simp add: index_of_def reactive_dependents_def view_edges_def)
qed

lemma edges_onto_view:
  "(m, dep) \<in> set (edges_onto n (view_edges v)) \<longleftrightarrow>
     (\<exists>f \<in> set (v_features v). f_name f = m \<and> dep \<in> set (f_deps f))
     \<and> d_propagation dep = Reactive \<and> d_feature dep = n"
  by (auto simp: edges_onto_def view_edges_def)

lemma reactive_feature_iff:
  "n \<in> set (features_with_reactive_dependents v) \<longleftrightarrow>
     (\<exists>f \<in> set (v_features v). \<exists>dep \<in> set (f_deps f). d_propagation dep = Reactive \<and> d_feature dep = n)"
proof -
  have "n \<in> set (features_with_reactive_dependents v) \<longleftrightarrow> map_of (reactive_dependents v) n \<noteq> None"
    by (simp add: features_with_reactive_dependents_def dict_keys_def map_of_eq_None_iff)
  also have "\<dots> \<longleftrightarrow> (\<exists>x. x \<in> set (edges_onto n (view_edges v)))"
    by (cases "edges_onto n (view_edges v)") (auto simp: reactive_dependents_lookup)
  finally show ?thesis by (auto simp: edges_onto_view split_paired_Ex)
qed

section \<open>Emitting updates\<close>

record emission =
  em_entity_type :: string
  em_source :: string
  em_run_id :: "string option"
  em_job_id :: "string option"
  em_manifest_id :: "string option"
  em_occurred_at :: datetime

definition feature_update_of :: "view_def \<Rightarrow> emission \<Rightarrow> string \<Rightarrow> feature_result \<Rightarrow> feature_updated" where
  "feature_update_of v em update_id r =
     \<lparr>fu_event_type = ''feature_updated'', fu_event_version = 1, fu_update_id = update_id,
      fu_entity = \<lparr>er_type = em_entity_type em, er_key = dict_of (ek_parts (r_entity_key r))\<rparr>,
      fu_view = v_name v, fu_view_version = v_version v,
      fu_feature_name = fr_name (r_ref r), fu_feature_version = fr_version (r_ref r),
      fu_data_ts = r_data_ts r, fu_calc_ts = r_calc_ts r,
      fu_max_input_data_ts = r_max_input_data_ts r, fu_input_fingerprint = r_input_fingerprint r,
      fu_value_hash = r_value_hash r, fu_run_id = em_run_id em, fu_job_id = em_job_id em,
      fu_manifest_id = em_manifest_id em, fu_source = em_source em,
      fu_occurred_at = em_occurred_at em\<rparr>"

text \<open>The loop over the results; \<open>uuid n\<close> is the id drawn for the n-th event.\<close>

definition build_feature_updated_events ::
    "(nat \<Rightarrow> string) \<Rightarrow> view_def \<Rightarrow> feature_result list \<Rightarrow> emission \<Rightarrow> feature_updated list res" where
  "build_feature_updated_events uuid v results em =
     (let triggers = features_with_reactive_dependents v in
      fold_res (\<lambda>r events.
          if fr_name (r_ref r) \<notin> set triggers then Inr events
          else rbind (mk_feature_updated (feature_update_of v em (uuid (length events)) r))
                 (\<lambda>e. Inr (events @ [e])))
        results [])"

text \<open>
  Publishing appends the event to its topic under the entity's key; \<open>send\<close> is the publisher,
  which may fail.
\<close>

fun publish_feature_updates ::
    "(string \<Rightarrow> string \<Rightarrow> feature_updated \<Rightarrow> 's \<Rightarrow> unit res \<times> 's) \<Rightarrow> feature_updated list \<Rightarrow> 's \<Rightarrow> unit res \<times> 's" where
  "publish_feature_updates send [] s = (Inr (), s)"
| "publish_feature_updates send (e # es) s =
     (case er_encoded (fu_entity e) of
        Inl x \<Rightarrow> (Inl x, s)
      | Inr key \<Rightarrow>
          (case send ''fp.feature-updates'' key e s of
             (Inl x, s') \<Rightarrow> (Inl x, s')
           | (Inr _, s') \<Rightarrow> publish_feature_updates send es s'))"

definition emit_feature_updates ::
    "(string \<Rightarrow> string \<Rightarrow> feature_updated \<Rightarrow> 's \<Rightarrow> unit res \<times> 's) \<Rightarrow> (nat \<Rightarrow> string) \<Rightarrow> view_def
      \<Rightarrow> feature_result list \<Rightarrow> emission \<Rightarrow> 's \<Rightarrow> nat res \<times> 's" where
  "emit_feature_updates send uuid v results em s =
     (case build_feature_updated_events uuid v results em of
        Inl e \<Rightarrow> (Inl e, s)
      | Inr events \<Rightarrow>
          (case publish_feature_updates send events s of
             (Inl e, s') \<Rightarrow> (Inl e, s')
           | (Inr _, s') \<Rightarrow> (Inr (length events), s')))"

definition emits :: "view_def \<Rightarrow> feature_result \<Rightarrow> bool" where
  "emits v r \<longleftrightarrow> fr_name (r_ref r) \<in> set (features_with_reactive_dependents v)"

text \<open>The events announce exactly the results with reactive dependents, in order.\<close>

lemma build_events_from:
  assumes "\<forall>r \<in> set results. result_ok r" "em_source em \<in> set update_sources"
  shows "fold_res (\<lambda>r events.
          if fr_name (r_ref r) \<notin> set (features_with_reactive_dependents v) then Inr events
          else rbind (mk_feature_updated (feature_update_of v em (uuid (length events)) r))
                 (\<lambda>e. Inr (events @ [e]))) results events
    = Inr (events @ map (\<lambda>(i, r). feature_update_of v em (uuid i) r)
        (enumerate (length events) (filter (emits v) results)))"
  using assms(1)
proof (induction results arbitrary: events)
  case (Cons r results)
  have ok: "mk_feature_updated (feature_update_of v em u r) = Inr (feature_update_of v em u r)" for u
    using Cons.prems assms(2)
    by (cases "r_max_input_data_ts r")
      (auto simp: mk_feature_updated_def feature_update_of_def event_iso_def event_iso_opt_def result_ok_def)
  show ?case
  proof (cases "emits v r")
    case True
    with Cons show ?thesis by (simp add: ok emits_def)
  next
    case False
    with Cons show ?thesis by (simp add: emits_def)
  qed
qed simp

lemma build_events_exact:
  assumes "\<forall>r \<in> set results. result_ok r" "em_source em \<in> set update_sources"
  shows "build_feature_updated_events uuid v results em
    = Inr (map (\<lambda>(i, r). feature_update_of v em (uuid i) r)
        (enumerate 0 (filter (emits v) results)))"
  using build_events_from[OF assms, of v uuid "[]"] by (simp add: build_feature_updated_events_def)

text \<open>No value enters an event.\<close>

lemma build_events_values_free:
  "build_feature_updated_events uuid v (map (\<lambda>r. r\<lparr>r_value := g r\<rparr>) results) em
     = build_feature_updated_events uuid v results em"
proof -
  have "fold_res (\<lambda>r events.
          if fr_name (r_ref r) \<notin> set triggers then Inr events
          else rbind (mk_feature_updated (feature_update_of v em (uuid (length events)) r))
                 (\<lambda>e. Inr (events @ [e]))) (map (\<lambda>r. r\<lparr>r_value := g r\<rparr>) results) events
      = fold_res (\<lambda>r events.
          if fr_name (r_ref r) \<notin> set triggers then Inr events
          else rbind (mk_feature_updated (feature_update_of v em (uuid (length events)) r))
                 (\<lambda>e. Inr (events @ [e]))) results events" for triggers events
    by (induction results arbitrary: events) (simp_all add: feature_update_of_def cong: rbind_cong)
  then show ?thesis by (simp add: build_feature_updated_events_def)
qed

section \<open>The recompute wave\<close>

record recompute_candidate =
  rc_entity :: entity_ref
  rc_view :: string
  rc_view_version :: int
  rc_dependent_feature :: string
  rc_dependent_version :: int
  rc_changed_input_feature :: string
  rc_changed_input_version :: int
  rc_policy :: string
  rc_reason :: string

definition candidate_for :: "feature_updated \<Rightarrow> feature_def \<Rightarrow> string \<Rightarrow> recompute_candidate" where
  "candidate_for ev f name =
     \<lparr>rc_entity = fu_entity ev, rc_view = fu_view ev, rc_view_version = fu_view_version ev,
      rc_dependent_feature = name, rc_dependent_version = f_version f,
      rc_changed_input_feature = fu_feature_name ev, rc_changed_input_version = fu_feature_version ev,
      rc_policy = ''reactive'', rc_reason = ''reactive_edge''\<rparr>"

text \<open>\<^verbatim>\<open>dep.version or event.feature_version\<close>: an absent pin and the pin 0 follow the event.\<close>

definition resolved_version :: "feature_dep \<Rightarrow> int \<Rightarrow> int" where
  "resolved_version dep version =
     (case d_version dep of None \<Rightarrow> version | Some v \<Rightarrow> if v = 0 then version else v)"

definition wave_step ::
    "(string, feature_def) dict \<Rightarrow> feature_updated \<Rightarrow> string \<times> feature_dep
      \<Rightarrow> recompute_candidate list \<Rightarrow> recompute_candidate list res" where
  "wave_step fbn ev edge candidates =
     (let (name, dep) = edge in
      case map_of fbn name of
        None \<Rightarrow> Inl (KeyError name)
      | Some f \<Rightarrow>
          if resolved_version dep (fu_feature_version ev) \<noteq> fu_feature_version ev then Inr candidates
          else Inr (candidates @ [candidate_for ev f name]))"

definition plan_recompute_wave :: "registry \<Rightarrow> feature_updated \<Rightarrow> recompute_candidate list res" where
  "plan_recompute_wave R ev =
     (case find_view_in (reg_views R) (fu_view ev) (fu_view_version ev) of
        None \<Rightarrow> Inr []
      | Some v \<Rightarrow>
          rbind (fold_res (wave_step (features_by_name v) ev)
                   (case map_of (reactive_dependents v) (fu_feature_name ev) of
                      None \<Rightarrow> [] | Some es \<Rightarrow> es) [])
            (\<lambda>candidates.
              Inr (sort_key (\<lambda>c. (rc_dependent_feature c, rc_dependent_version c)) candidates)))"

definition edge_matches :: "feature_updated \<Rightarrow> feature_dep \<Rightarrow> bool" where
  "edge_matches ev dep \<longleftrightarrow>
     d_propagation dep = Reactive \<and> d_feature dep = fu_feature_name ev
     \<and> (\<forall>v. d_version dep = Some v \<longrightarrow> v = 0 \<or> v = fu_feature_version ev)"

lemma resolved_version_iff:
  "resolved_version dep n = n \<longleftrightarrow> (\<forall>v. d_version dep = Some v \<longrightarrow> v = 0 \<or> v = n)"
  by (auto simp: resolved_version_def split: option.splits)

lemma wave_fold:
  assumes "\<forall>(name, dep) \<in> set es. map_of fbn name = Some (g name)"
  shows "fold_res (wave_step fbn ev) es cs
    = Inr (cs @ map (\<lambda>(name, dep). candidate_for ev (g name) name)
        (filter (\<lambda>(name, dep). resolved_version dep (fu_feature_version ev) = fu_feature_version ev) es))"
  using assms by (induction es arbitrary: cs) (auto simp: wave_step_def)

lemma plan_wave_eq:
  assumes v: "find_view_in (reg_views R) (fu_view ev) (fu_view_version ev) = Some v"
  shows "plan_recompute_wave R ev = Inr (sort_key (\<lambda>c. (rc_dependent_feature c, rc_dependent_version c))
     (map (\<lambda>(name, dep). candidate_for ev (the (map_of (features_by_name v) name)) name)
       (filter (\<lambda>(name, dep). edge_matches ev dep) (view_edges v))))"
proof -
  let ?es = "edges_onto (fu_feature_name ev) (view_edges v)"
  have "\<forall>(name, dep) \<in> set ?es. map_of (features_by_name v) name = Some (the (map_of (features_by_name v) name))"
    by (auto simp: edges_onto_view) (metis features_by_name_None image_eqI option.exhaust_sel)
  note wave_fold[OF this, of ev "[]"]
  moreover have "filter (\<lambda>(name, dep). resolved_version dep (fu_feature_version ev) = fu_feature_version ev) ?es
      = filter (\<lambda>(name, dep). edge_matches ev dep) (view_edges v)"
    unfolding edges_onto_def filter_filter
    by (rule filter_cong) (auto simp: edge_matches_def resolved_version_iff)
  moreover have "(case map_of (reactive_dependents v) (fu_feature_name ev) of None \<Rightarrow> [] | Some es \<Rightarrow> es) = ?es"
    by (simp add: reactive_dependents_lookup)
  ultimately show ?thesis by (simp add: plan_recompute_wave_def v)
qed

lemma plan_wave_total: "\<exists>cs. plan_recompute_wave R ev = Inr cs"
  using plan_wave_eq[of R ev]
  by (cases "find_view_in (reg_views R) (fu_view ev) (fu_view_version ev)") (auto simp: plan_recompute_wave_def)

lemma plan_wave_members:
  assumes "find_view_in (reg_views R) (fu_view ev) (fu_view_version ev) = Some v"
    and "distinct (map f_name (v_features v))" and "plan_recompute_wave R ev = Inr cs"
  shows "set cs = {candidate_for ev f (f_name f) | f dep.
      f \<in> set (v_features v) \<and> dep \<in> set (f_deps f) \<and> edge_matches ev dep}"
proof -
  have "map_of (features_by_name v) (f_name f) = Some f" if "f \<in> set (v_features v)" for f
    by (rule features_by_name_distinct[OF assms(2) that])
  then show ?thesis
    using assms(3) unfolding plan_wave_eq[OF assms(1)]
    by (force simp: view_edges_def)
qed

text \<open>A candidate depends on the changed feature.\<close>

lemma candidate_edge:
  assumes "plan_recompute_wave R ev = Inr cs" "c \<in> set cs"
  shows "\<exists>v. find_view_in (reg_views R) (fu_view ev) (fu_view_version ev) = Some v
    \<and> (distinct (map f_name (v_features v)) \<longrightarrow>
         dep_edge (features_by_name v) (rc_dependent_feature c) (fu_feature_name ev))
    \<and> rc_view c = fu_view ev \<and> rc_view_version c = fu_view_version ev"
proof -
  obtain v where v: "find_view_in (reg_views R) (fu_view ev) (fu_view_version ev) = Some v"
    using assms by (auto simp: plan_recompute_wave_def split: option.splits)
  then obtain name dep where c: "c = candidate_for ev (the (map_of (features_by_name v) name)) name"
    "(name, dep) \<in> set (view_edges v)" "edge_matches ev dep"
    using assms unfolding plan_wave_eq[OF v] by auto
  then obtain f where f: "f \<in> set (v_features v)" "f_name f = name" "dep \<in> set (f_deps f)"
    by (auto simp: view_edges_def)
  have "dep_edge (features_by_name v) name (fu_feature_name ev)" if "distinct (map f_name (v_features v))"
    using features_by_name_distinct[OF that f(1)] f c(3) by (auto simp: dep_edge_def edge_matches_def)
  with v c(1) show ?thesis by (auto simp: candidate_for_def)
qed

section \<open>Cascades\<close>

text \<open>
  Recomputing a candidate announces a new update of the dependent, whose wave is planned in
  turn. \<open>cascade R ev k ev'\<close>: \<open>ev'\<close> is announced k waves after \<open>ev\<close>.
\<close>

definition announces :: "recompute_candidate \<Rightarrow> feature_updated \<Rightarrow> bool" where
  "announces c ev \<longleftrightarrow>
     fu_view ev = rc_view c \<and> fu_view_version ev = rc_view_version c
     \<and> fu_feature_name ev = rc_dependent_feature c \<and> fu_feature_version ev = rc_dependent_version c"

inductive cascade :: "registry \<Rightarrow> feature_updated \<Rightarrow> nat \<Rightarrow> feature_updated \<Rightarrow> bool" for R ev where
  start: "cascade R ev 0 ev"
| wave: "cascade R ev k ev' \<Longrightarrow> plan_recompute_wave R ev' = Inr cs \<Longrightarrow> c \<in> set cs \<Longrightarrow>
     announces c ev'' \<Longrightarrow> cascade R ev (Suc k) ev''"

inductive_cases cascade_SucE: "cascade R ev (Suc k) ev''"

lemma cascade_path:
  assumes "cascade R ev k ev'"
    and "find_view_in (reg_views R) (fu_view ev) (fu_view_version ev) = Some v"
    and "distinct (map f_name (v_features v))"
  shows "fu_view ev' = fu_view ev \<and> fu_view_version ev' = fu_view_version ev
    \<and> (dep_edge (features_by_name v) ^^ k) (fu_feature_name ev') (fu_feature_name ev)"
  using assms(1)
proof (induction rule: cascade.induct)
  case (wave k ev' cs c ev'')
  from candidate_edge[OF wave.hyps(2,3)] wave.IH assms(2,3)
  have "dep_edge (features_by_name v) (rc_dependent_feature c) (fu_feature_name ev')"
    "rc_view c = fu_view ev" "rc_view_version c = fu_view_version ev" by auto
  with wave.IH wave.hyps(4) show ?case by (auto simp: announces_def intro: relpowp_Suc_I2 simp del: relpowp.simps)
qed simp

lemma cascade_bounded:
  assumes "validate_registry R = Inr ()" "\<forall>v \<in> set (reg_views R). 0 \<le> graph_cap v"
    and "find_view_in (reg_views R) (fu_view ev) (fu_view_version ev) = Some v"
    and "cascade R ev k ev'"
  shows "int k \<le> graph_cap v"
proof -
  have "view_rules (reg_entities R) (reg_sources R) v"
    using assms(1-3) validate_registry_iff[of R] by (auto simp: registry_rules_def dest: find_view_in_Some)
  then have d: "distinct (map f_name (v_features v))"
    and short: "\<And>n m j. (dep_edge (features_by_name v) ^^ j) n m \<Longrightarrow> int j \<le> graph_cap v"
    by (auto simp: view_rules_def)
  from short cascade_path[OF assms(4,3) d] show ?thesis by blast
qed

section \<open>Debounce\<close>

record debounce_entry =
  de_entity :: entity_ref
  de_view :: string
  de_view_version :: int
  de_dependent_feature :: string
  de_dependent_version :: int
  de_changed_input_feature :: string
  de_changed_input_version :: int
  de_latest_update_id :: string
  de_latest_data_ts :: datetime
  de_latest_calc_ts :: datetime
  de_first_seen_at :: datetime
  de_updated_at :: datetime
  de_count :: nat
  de_trigger_update_ids :: "string list"

type_synonym debounce_key = "string \<times> string \<times> string \<times> int \<times> string \<times> int"

type_synonym debounce_store = "(debounce_key, debounce_entry) dict"

definition debounce_key :: "recompute_candidate \<Rightarrow> debounce_key res" where
  "debounce_key c =
     rbind (er_encoded (rc_entity c)) (\<lambda>encoded.
     Inr (er_type (rc_entity c), encoded, rc_view c, rc_view_version c,
          rc_dependent_feature c, rc_dependent_version c))"

definition new_entry :: "recompute_candidate \<Rightarrow> feature_updated \<Rightarrow> datetime \<Rightarrow> debounce_entry" where
  "new_entry c ev now =
     \<lparr>de_entity = rc_entity c, de_view = rc_view c, de_view_version = rc_view_version c,
      de_dependent_feature = rc_dependent_feature c, de_dependent_version = rc_dependent_version c,
      de_changed_input_feature = rc_changed_input_feature c,
      de_changed_input_version = rc_changed_input_version c,
      de_latest_update_id = fu_update_id ev, de_latest_data_ts = fu_data_ts ev,
      de_latest_calc_ts = fu_calc_ts ev, de_first_seen_at = now, de_updated_at = now,
      de_count = 1, de_trigger_update_ids = [fu_update_id ev]\<rparr>"

definition advance_entry :: "debounce_entry \<Rightarrow> feature_updated \<Rightarrow> datetime \<Rightarrow> debounce_entry res" where
  "advance_entry e ev now =
     (let e' = e\<lparr>de_count := de_count e + 1, de_updated_at := now,
                 de_trigger_update_ids := de_trigger_update_ids e @ [fu_update_id ev]\<rparr>
      in rbind (dt_compare (\<ge>) (fu_data_ts ev) (de_latest_data_ts e)) (\<lambda>fresh.
         Inr (if fresh then e'\<lparr>de_latest_update_id := fu_update_id ev,
                 de_latest_data_ts := fu_data_ts ev, de_latest_calc_ts := fu_calc_ts ev\<rparr>
              else e')))"

text \<open>\<^verbatim>\<open>observe\<close>: whether a new unit was created, and the store after it.\<close>

definition observe ::
    "debounce_store \<Rightarrow> recompute_candidate \<Rightarrow> feature_updated \<Rightarrow> datetime \<Rightarrow> (bool \<times> debounce_store) res" where
  "observe store c ev now =
     rbind (debounce_key c) (\<lambda>key.
     case map_of store key of
       None \<Rightarrow> Inr (True, dict_set key (new_entry c ev now) store)
     | Some e \<Rightarrow> rbind (advance_entry e ev now) (\<lambda>e'. Inr (False, dict_set key e' store)))"

definition debounce_pending :: "debounce_store \<Rightarrow> debounce_entry list" where
  "debounce_pending store = dict_values store"

definition debounce_drain :: "debounce_store \<Rightarrow> debounce_entry list \<times> debounce_store" where
  "debounce_drain store = (dict_values store, [])"

text \<open>
  The reference: the observations of one key as one unit, with the first observation's
  candidate and the data of the freshest update, the last one among equals.
\<close>

type_synonym observation_step = "recompute_candidate \<times> feature_updated \<times> datetime"

definition freshest :: "observation_step list \<Rightarrow> observation_step option" where
  "freshest os = latest_from (\<lambda>(_, ev, _). instant (fu_data_ts ev)) None os"

definition coalesced :: "observation_step list \<Rightarrow> debounce_entry option" where
  "coalesced os =
     (case (os, freshest os) of
        ((c, ev0, now0) # _, Some (_, ev, _)) \<Rightarrow>
          Some ((new_entry c ev0 now0)
            \<lparr>de_latest_update_id := fu_update_id ev, de_latest_data_ts := fu_data_ts ev,
             de_latest_calc_ts := fu_calc_ts ev, de_updated_at := snd (snd (last os)),
             de_count := length os,
             de_trigger_update_ids := map (\<lambda>(_, ev, _). fu_update_id ev) os\<rparr>)
      | _ \<Rightarrow> None)"

definition observe_all :: "observation_step list \<Rightarrow> debounce_store \<Rightarrow> debounce_store res" where
  "observe_all os store =
     fold_res (\<lambda>(c, ev, now) st. rbind (observe st c ev now) (\<lambda>(_, st'). Inr st')) os store"

definition of_key :: "debounce_key \<Rightarrow> observation_step list \<Rightarrow> observation_step list" where
  "of_key k os = filter (\<lambda>(c, _, _). debounce_key c = Inr k) os"

lemma freshest_snoc:
  "freshest (os @ [(c, ev, now)]) =
     (case freshest os of
        None \<Rightarrow> Some (c, ev, now)
      | Some (c', ev', now') \<Rightarrow>
          if instant (fu_data_ts ev') \<le> instant (fu_data_ts ev) then Some (c, ev, now) else freshest os)"
  by (auto simp: freshest_def latest_from_append split: option.splits)

lemma freshest_mem: "freshest os = Some x \<Longrightarrow> x \<in> set os"
  unfolding freshest_def by (drule latest_from_max) auto

lemma freshest_None [simp]: "freshest os = None \<longleftrightarrow> os = []"
  by (simp add: freshest_def latest_from_None_iff)

lemma coalesced_None [simp]: "coalesced os = None \<longleftrightarrow> os = []"
  by (auto simp: coalesced_def split: list.splits option.splits)

lemma coalesced_single: "coalesced [(c, ev, now)] = Some (new_entry c ev now)"
  by (simp add: coalesced_def freshest_def new_entry_def)

lemma coalesced_snoc:
  assumes "coalesced os = Some e" "aware (fu_data_ts ev)" "\<forall>(_, ev, _) \<in> set os. aware (fu_data_ts ev)"
  shows "\<exists>e'. advance_entry e ev now = Inr e' \<and> coalesced (os @ [(c, ev, now)]) = Some e'"
proof -
  obtain c0 ev0 now0 os' where os: "os = (c0, ev0, now0) # os'"
    using assms(1) by (cases os) (auto simp: coalesced_def)
  obtain c1 ev1 now1 where f: "freshest os = Some (c1, ev1, now1)"
    using os by (cases "freshest os") auto
  then have "aware (fu_data_ts ev1)" using assms(3) freshest_mem by fastforce
  then have "dt_compare (\<ge>) (fu_data_ts ev) (fu_data_ts ev1) = Inr (instant (fu_data_ts ev1) \<le> instant (fu_data_ts ev))"
    using assms(2) by simp
  moreover have "de_latest_data_ts e = fu_data_ts ev1"
    using assms(1) f os by (auto simp: coalesced_def)
  moreover have "coalesced (os @ [(c, ev, now)]) = Some ((new_entry c0 ev0 now0)
      \<lparr>de_latest_update_id := fu_update_id (if instant (fu_data_ts ev1) \<le> instant (fu_data_ts ev) then ev else ev1),
       de_latest_data_ts := fu_data_ts (if instant (fu_data_ts ev1) \<le> instant (fu_data_ts ev) then ev else ev1),
       de_latest_calc_ts := fu_calc_ts (if instant (fu_data_ts ev1) \<le> instant (fu_data_ts ev) then ev else ev1),
       de_updated_at := now, de_count := length os + 1,
       de_trigger_update_ids := map (\<lambda>(_, ev, _). fu_update_id ev) os @ [fu_update_id ev]\<rparr>)"
    using f os freshest_snoc[of os c ev now] by (auto simp: coalesced_def)
  ultimately show ?thesis
    using assms(1) f os by (auto simp: advance_entry_def Let_def coalesced_def)
qed

text \<open>After any observations the store holds one unit per key: the reference of its observations.\<close>

lemma observe_all_coalesced:
  assumes "\<forall>(c, ev, _) \<in> set os. aware (fu_data_ts ev) \<and> (\<exists>k. debounce_key c = Inr k)"
  shows "\<exists>store. observe_all os [] = Inr store \<and> dict_wf store
    \<and> (\<forall>k. map_of store k = coalesced (of_key k os))"
  using assms
proof (induction os rule: rev_induct)
  case Nil
  then show ?case by (simp add: observe_all_def of_key_def dict_keys_def coalesced_def)
next
  case (snoc x os)
  obtain c ev now where x: "x = (c, ev, now)" by (cases x)
  from snoc obtain store where st: "observe_all os [] = Inr store" "dict_wf store"
    "\<forall>k. map_of store k = coalesced (of_key k os)" by auto
  obtain k where k: "debounce_key c = Inr k" "aware (fu_data_ts ev)" using snoc.prems x by auto
  have other: "of_key k' (os @ [x]) = of_key k' os" if "k' \<noteq> k" for k'
    using that k by (simp add: of_key_def x)
  have this_key: "of_key k (os @ [x]) = of_key k os @ [(c, ev, now)]"
    using k by (simp add: of_key_def x)
  show ?case
  proof (cases "map_of store k")
    case None
    then have "of_key k os = []" using st(3) coalesced_None by metis
    moreover have "observe_all (os @ [x]) [] = Inr (dict_set k (new_entry c ev now) store)"
      using st(1) None k by (simp add: observe_all_def x observe_def)
    ultimately show ?thesis
      using st other this_key by (auto simp: coalesced_single)
  next
    case (Some e)
    then have "coalesced (of_key k os) = Some e" using st(3) by simp
    moreover have "\<forall>(_, ev, _) \<in> set (of_key k os). aware (fu_data_ts ev)"
      using snoc.prems by (auto simp: of_key_def)
    ultimately obtain e' where e': "advance_entry e ev now = Inr e'"
      "coalesced (of_key k os @ [(c, ev, now)]) = Some e'" using coalesced_snoc k(2) by blast
    have "observe_all (os @ [x]) [] = Inr (dict_set k e' store)"
      using st(1) Some k e'(1) by (simp add: observe_all_def x observe_def)
    then show ?thesis using st e'(2) other this_key by auto
  qed
qed

lemma dict_wf_values: "dict_wf d \<Longrightarrow> e \<in> set (dict_values d) \<longleftrightarrow> (\<exists>k. map_of d k = Some e)"
  by (force simp: dict_values_def dict_keys_def)

end
