(* ===== verification/BatchStatus.thy ===== *)
theory BatchStatus
  imports Events
begin

text \<open>
  The batch job status (fs_core/stores/batch_status.py): chunk and job snapshots, the merge of a
  chunk report into its job, the derived job status, and the in-memory and Valkey stores. The
  clock is a parameter.
\<close>

section \<open>Snapshots\<close>

definition terminal_chunk :: "string list" where
  "terminal_chunk = [''completed'', ''completed_with_errors'', ''failed'']"

record chunk_status =
  bk_chunk_id :: string
  bk_chunk_index :: int
  bk_status :: string
  bk_item_count :: int
  bk_updated_at :: datetime
  bk_ok_items :: int
  bk_failed_items :: int
  bk_first_errors :: "string list"
  bk_finished_at :: "datetime option"

definition mk_chunk_status :: "chunk_status \<Rightarrow> chunk_status res" where
  "mk_chunk_status c =
     rbind (require_aware (bk_updated_at c)) (\<lambda>_.
     rbind (require_aware_opt (bk_finished_at c)) (\<lambda>_. Inr c))"

definition bk_to_dict :: "chunk_status \<Rightarrow> json" where
  "bk_to_dict c = JObj
     [(''chunk_id'', JStr (bk_chunk_id c)),
      (''chunk_index'', JInt (bk_chunk_index c)),
      (''status'', JStr (bk_status c)),
      (''item_count'', JInt (bk_item_count c)),
      (''ok_items'', JInt (bk_ok_items c)),
      (''failed_items'', JInt (bk_failed_items c)),
      (''first_errors'', of_str_list (bk_first_errors c)),
      (''updated_at'', of_iso (bk_updated_at c)),
      (''finished_at'', of_opt of_iso (bk_finished_at c))]"

definition bk_from_dict :: "json \<Rightarrow> chunk_status res" where
  "bk_from_dict d =
     rbind (str_item d ''chunk_id'') (\<lambda>chunk_id.
     rbind (int_item d ''chunk_index'') (\<lambda>chunk_index.
     rbind (str_item d ''status'') (\<lambda>status.
     rbind (int_item d ''item_count'') (\<lambda>item_count.
     rbind (iso_item d ''updated_at'') (\<lambda>updated_at.
     rbind (int_get d ''ok_items'' 0) (\<lambda>ok_items.
     rbind (int_get d ''failed_items'' 0) (\<lambda>failed_items.
     rbind (str_list_get d ''first_errors'') (\<lambda>first_errors.
     rbind (opt_iso_get d ''finished_at'') (\<lambda>finished_at.
     mk_chunk_status \<lparr>bk_chunk_id = chunk_id, bk_chunk_index = chunk_index, bk_status = status,
        bk_item_count = item_count, bk_updated_at = updated_at, bk_ok_items = ok_items,
        bk_failed_items = failed_items, bk_first_errors = first_errors,
        bk_finished_at = finished_at\<rparr>)))))))))"

definition bk_wf :: "chunk_status \<Rightarrow> bool" where
  "bk_wf c \<longleftrightarrow> stamp (bk_updated_at c) \<and> stamp_opt (bk_finished_at c)"

record job_status =
  bj_job_id :: string
  bj_status :: string
  bj_view :: string
  bj_view_version :: int
  bj_created_at :: datetime
  bj_updated_at :: datetime
  bj_total_items :: int
  bj_chunk_count :: int
  bj_write_online :: bool
  bj_features :: "string list"
  bj_groups :: "string list"
  bj_chunks :: "(string, chunk_status) dict"
  bj_finished_at :: "datetime option"
  bj_error_summary :: "(string, json) dict"
  bj_manifest_id :: "string option"
  bj_manifest_ids :: "string list"
  bj_online_refresh_mode :: "string option"

definition mk_job_status :: "job_status \<Rightarrow> job_status res" where
  "mk_job_status j =
     rbind (require_aware (bj_created_at j)) (\<lambda>_.
     rbind (require_aware (bj_updated_at j)) (\<lambda>_.
     rbind (require_aware_opt (bj_finished_at j)) (\<lambda>_. Inr j)))"

text \<open>The counts come from the chunk states, never from counters.\<close>

definition chunk_states :: "job_status \<Rightarrow> string list" where
  "chunk_states j = map bk_status (dict_values (bj_chunks j))"

definition completed_chunks :: "job_status \<Rightarrow> nat" where
  "completed_chunks j =
     length (filter (\<lambda>s. s \<in> {''completed'', ''completed_with_errors''}) (chunk_states j))"

definition failed_chunks :: "job_status \<Rightarrow> nat" where
  "failed_chunks j = length (filter (\<lambda>s. s = ''failed'') (chunk_states j))"

definition failed_items :: "job_status \<Rightarrow> int" where
  "failed_items j = sum_list (map bk_failed_items (dict_values (bj_chunks j)))"

definition bj_to_dict :: "job_status \<Rightarrow> json" where
  "bj_to_dict j = JObj
     [(''job_id'', JStr (bj_job_id j)),
      (''status'', JStr (bj_status j)),
      (''view'', JStr (bj_view j)),
      (''view_version'', JInt (bj_view_version j)),
      (''requested_features'', of_str_list (bj_features j)),
      (''requested_feature_groups'', of_str_list (bj_groups j)),
      (''total_items'', JInt (bj_total_items j)),
      (''chunk_count'', JInt (bj_chunk_count j)),
      (''write_online'', JBool (bj_write_online j)),
      (''completed_chunks'', JInt (int (completed_chunks j))),
      (''failed_chunks'', JInt (int (failed_chunks j))),
      (''failed_items'', JInt (failed_items j)),
      (''chunks'', JObj (map (\<lambda>(cid, c). (cid, bk_to_dict c)) (bj_chunks j))),
      (''created_at'', of_iso (bj_created_at j)),
      (''updated_at'', of_iso (bj_updated_at j)),
      (''finished_at'', of_opt of_iso (bj_finished_at j)),
      (''error_summary'', JObj (bj_error_summary j)),
      (''manifest_id'', of_opt JStr (bj_manifest_id j)),
      (''manifest_ids'', of_str_list (bj_manifest_ids j)),
      (''online_refresh_mode'', of_opt JStr (bj_online_refresh_mode j))]"

definition chunks_from_dict :: "json \<Rightarrow> (string, chunk_status) dict res" where
  "chunks_from_dict v =
     rbind (as_obj v) (map_res (\<lambda>(cid, c). rbind (bk_from_dict c) (\<lambda>x. Inr (cid, x))))"

definition bj_from_dict :: "json \<Rightarrow> job_status res" where
  "bj_from_dict d =
     rbind (str_item d ''job_id'') (\<lambda>job_id.
     rbind (str_item d ''status'') (\<lambda>status.
     rbind (str_item d ''view'') (\<lambda>view.
     rbind (int_item d ''view_version'') (\<lambda>view_version.
     rbind (iso_item d ''created_at'') (\<lambda>created_at.
     rbind (iso_item d ''updated_at'') (\<lambda>updated_at.
     rbind (int_item d ''total_items'') (\<lambda>total_items.
     rbind (int_item d ''chunk_count'') (\<lambda>chunk_count.
     rbind (rbind (jitem d ''write_online'') as_bool) (\<lambda>write_online.
     rbind (str_list_get d ''requested_features'') (\<lambda>features.
     rbind (str_list_get d ''requested_feature_groups'') (\<lambda>groups.
     rbind (rbind (jget d ''chunks'' (JObj [])) chunks_from_dict) (\<lambda>chunks.
     rbind (opt_iso_get d ''finished_at'') (\<lambda>finished_at.
     rbind (rbind (jget d ''error_summary'' (JObj [])) as_obj) (\<lambda>error_summary.
     rbind (opt_str_get d ''manifest_id'') (\<lambda>manifest_id.
     rbind (str_list_get d ''manifest_ids'') (\<lambda>manifest_ids.
     rbind (opt_str_get d ''online_refresh_mode'') (\<lambda>online_refresh_mode.
     mk_job_status \<lparr>bj_job_id = job_id, bj_status = status, bj_view = view,
        bj_view_version = view_version, bj_created_at = created_at, bj_updated_at = updated_at,
        bj_total_items = total_items, bj_chunk_count = chunk_count, bj_write_online = write_online,
        bj_features = features, bj_groups = groups, bj_chunks = chunks,
        bj_finished_at = finished_at, bj_error_summary = error_summary, bj_manifest_id = manifest_id,
        bj_manifest_ids = manifest_ids, bj_online_refresh_mode = online_refresh_mode\<rparr>)))))))))))))))))"

definition bj_wf :: "job_status \<Rightarrow> bool" where
  "bj_wf j \<longleftrightarrow>
     stamp (bj_created_at j) \<and> stamp (bj_updated_at j) \<and> stamp_opt (bj_finished_at j)
     \<and> dict_wf (bj_chunks j) \<and> (\<forall>c \<in> set (bj_chunks j). bk_wf (snd c))
     \<and> json_plain (JObj (bj_error_summary j))"

definition bj_normal :: "job_status \<Rightarrow> job_status" where
  "bj_normal j = j\<lparr>bj_chunks := sort_key fst (bj_chunks j),
     bj_error_summary := sort_items (bj_error_summary j)\<rparr>"

lemma bk_read:
  assumes "bk_wf c"
  shows "bk_from_dict (sort_keys (bk_to_dict c)) = Inr c"
  using assms unfolding bk_from_dict_def bk_to_dict_def bk_wf_def field_reads
  by (cases "bk_finished_at c") (simp_all add: mk_chunk_status_def stamp_def stamp_opt_def)

lemma chunks_read:
  assumes "\<forall>c \<in> set cs. bk_wf (snd c)"
  shows "chunks_from_dict (sort_keys (JObj (map (\<lambda>(cid, c). (cid, bk_to_dict c)) cs))) = Inr (sort_key fst cs)"
proof -
  have "sort_items (map (\<lambda>(cid, c). (cid, bk_to_dict c)) cs)
      = map (\<lambda>(cid, c). (cid, sort_keys (bk_to_dict c))) (sort_key fst cs)"
    by (simp add: sort_items_def sort_key_map case_prod_beta comp_def)
  moreover have "map_res (\<lambda>(cid, c). rbind (bk_from_dict c) (\<lambda>x. Inr (cid, x)))
      (map (\<lambda>(cid, c). (cid, sort_keys (bk_to_dict c))) (sort_key fst cs)) = Inr (map (\<lambda>x. x) (sort_key fst cs))"
    using assms by (intro map_res_read_back) (auto simp: bk_read)
  ultimately show ?thesis by (simp add: chunks_from_dict_def)
qed

lemma bk_plain [simp]: "json_plain (bk_to_dict c)"
  by (simp add: bk_to_dict_def)

lemma bj_read:
  assumes "bj_wf j"
  shows "bj_from_dict (sort_keys (bj_to_dict j)) = Inr (bj_normal j)"
proof -
  have c: "\<forall>c \<in> set (bj_chunks j). bk_wf (snd c)" using assms by (simp add: bj_wf_def)
  show ?thesis
    using assms unfolding bj_from_dict_def bj_to_dict_def bj_wf_def bj_normal_def field_reads
    by (cases "bj_finished_at j") (simp_all add: chunks_read[OF c] mk_job_status_def stamp_def stamp_opt_def)
qed

lemma bj_plain: "bj_wf j \<Longrightarrow> json_plain (bj_to_dict j)"
  by (auto simp: bj_to_dict_def bj_wf_def)

lemma bj_normal_wf: "bj_wf j \<Longrightarrow> bj_wf (bj_normal j)"
proof -
  assume j: "bj_wf j"
  then have "json_plain (JObj (sort_items (bj_error_summary j)))"
    using json_plain_sort_keys[of "JObj (bj_error_summary j)"] by (simp add: bj_wf_def sort_keys_obj)
  with j show ?thesis by (simp add: bj_wf_def bj_normal_def dict_keys_def)
qed

interpretation bj: codec "\<lambda>j. Inr (bj_to_dict j)" bj_from_dict bj_wf bj_normal
  by unfold_locales (simp_all add: bj_read bj_plain bj_normal_wf, simp add: bj_normal_def)

section \<open>Merging a chunk report\<close>

definition derive_job_status :: "job_status \<Rightarrow> string" where
  "derive_job_status j =
     (let states = chunk_states j in
      if int (length states) < bj_chunk_count j
         \<or> (\<exists>s \<in> set states. s \<in> {''accepted'', ''running''}) then
        (if states \<noteq> [] \<and> (\<forall>s \<in> set states. s = ''accepted'')
            \<and> int (length states) = bj_chunk_count j then ''accepted''
         else ''running'')
      else if \<forall>s \<in> set states. s = ''failed'' then ''failed''
      else if \<exists>s \<in> set states. s \<in> {''failed'', ''completed_with_errors''} then ''completed_with_errors''
      else ''completed'')"

text \<open>The assignment of one chunk state; \<^verbatim>\<open>dataclasses.replace\<close> copies the job.\<close>

definition with_chunk :: "datetime \<Rightarrow> job_status \<Rightarrow> chunk_status \<Rightarrow> job_status" where
  "with_chunk now j c =
     (let merged = j\<lparr>bj_chunks := dict_set (bk_chunk_id c) c (bj_chunks j), bj_updated_at := now\<rparr>;
          status = derive_job_status merged
      in merged\<lparr>bj_status := status,
           bj_finished_at := (if status \<in> set terminal_chunk then Some now else None)\<rparr>)"

definition merge_chunk :: "datetime \<Rightarrow> job_status \<Rightarrow> chunk_status \<Rightarrow> job_status" where
  "merge_chunk now j c =
     (case map_of (bj_chunks j) (bk_chunk_id c) of
        Some e \<Rightarrow>
          if bk_status e \<in> set terminal_chunk \<and> bk_status c \<notin> set terminal_chunk then j
          else with_chunk now j c
      | None \<Rightarrow> with_chunk now j c)"

text \<open>A report is dropped when it would take a finished chunk back.\<close>

definition late_report :: "job_status \<Rightarrow> chunk_status \<Rightarrow> bool" where
  "late_report j c \<longleftrightarrow>
     (\<exists>e. map_of (bj_chunks j) (bk_chunk_id c) = Some e \<and> bk_status e \<in> set terminal_chunk)
     \<and> bk_status c \<notin> set terminal_chunk"

lemma merge_chunk_cases: "merge_chunk now j c = (if late_report j c then j else with_chunk now j c)"
  by (auto simp: merge_chunk_def late_report_def split: option.splits)

lemma with_chunk_chunks [simp]: "bj_chunks (with_chunk now j c) = dict_set (bk_chunk_id c) c (bj_chunks j)"
  by (simp add: with_chunk_def Let_def)

lemma with_chunk_count [simp]: "bj_chunk_count (with_chunk now j c) = bj_chunk_count j"
  by (simp add: with_chunk_def Let_def)

lemma merge_chunk_lookup:
  "map_of (bj_chunks (merge_chunk now j c)) =
     (if late_report j c then map_of (bj_chunks j) else (map_of (bj_chunks j))(bk_chunk_id c \<mapsto> c))"
  by (simp add: merge_chunk_cases)

lemma merge_chunk_count [simp]: "bj_chunk_count (merge_chunk now j c) = bj_chunk_count j"
  by (simp add: merge_chunk_cases)

text \<open>Deliveries: each report with the time of its merge.\<close>

definition merge_all :: "(datetime \<times> chunk_status) list \<Rightarrow> job_status \<Rightarrow> job_status" where
  "merge_all ds j = fold (\<lambda>(now, c) j. merge_chunk now j c) ds j"

lemma merge_all_Nil [simp]: "merge_all [] j = j"
  by (simp add: merge_all_def)

lemma merge_all_Cons [simp]: "merge_all ((now, c) # ds) j = merge_all ds (merge_chunk now j c)"
  by (simp add: merge_all_def)

definition finished_chunk :: "job_status \<Rightarrow> string \<Rightarrow> bool" where
  "finished_chunk j cid \<longleftrightarrow> (\<exists>c. map_of (bj_chunks j) cid = Some c \<and> bk_status c \<in> set terminal_chunk)"

lemma finished_stays: "finished_chunk j cid \<Longrightarrow> finished_chunk (merge_chunk now j c) cid"
  by (auto simp: finished_chunk_def merge_chunk_lookup late_report_def)

lemma finished_stays_all: "finished_chunk j cid \<Longrightarrow> finished_chunk (merge_all ds j) cid"
proof (induction ds arbitrary: j)
  case (Cons d ds)
  then show ?case by (cases d) (simp add: finished_stays)
qed simp

section \<open>The derived status\<close>

text \<open>The status reads the chunk states as a bag: neither their order nor their names.\<close>

lemma derive_cong:
  assumes "mset (chunk_states j) = mset (chunk_states j')" "bj_chunk_count j = bj_chunk_count j'"
  shows "derive_job_status j = derive_job_status j'"
proof -
  have "set (chunk_states j) = set (chunk_states j')" "length (chunk_states j) = length (chunk_states j')"
    using assms(1) by (metis mset_eq_setD, metis size_mset)
  moreover from this have "chunk_states j = [] \<longleftrightarrow> chunk_states j' = []" by auto
  ultimately show ?thesis by (simp only: derive_job_status_def assms(2) Let_def)
qed

text \<open>A job is finished exactly when all its chunks have reported an end.\<close>

definition known_state :: "string \<Rightarrow> bool" where
  "known_state s \<longleftrightarrow> s \<in> set terminal_chunk \<or> s \<in> {''accepted'', ''running''}"

definition open_job :: "job_status \<Rightarrow> bool" where
  "open_job j \<longleftrightarrow> int (length (chunk_states j)) < bj_chunk_count j
     \<or> (\<exists>s \<in> set (chunk_states j). s \<in> {''accepted'', ''running''})"

lemma open_states: "''accepted'' \<notin> set terminal_chunk" "''running'' \<notin> set terminal_chunk"
  "''failed'' \<in> set terminal_chunk" "''completed'' \<in> set terminal_chunk"
  "''completed_with_errors'' \<in> set terminal_chunk" "''failed'' \<noteq> ''completed''"
  "''completed_with_errors'' \<noteq> ''completed''" "''running'' \<noteq> ''completed''" "''accepted'' \<noteq> ''completed''"
  by (simp_all add: terminal_chunk_def)

lemma derive_open:
  assumes "open_job j"
  shows "derive_job_status j = ''accepted'' \<or> derive_job_status j = ''running''"
  using assms unfolding derive_job_status_def open_job_def Let_def by presburger

lemma derive_closed:
  assumes "\<not> open_job j"
  shows "derive_job_status j =
    (if \<forall>s \<in> set (chunk_states j). s = ''failed'' then ''failed''
     else if \<exists>s \<in> set (chunk_states j). s \<in> {''failed'', ''completed_with_errors''} then ''completed_with_errors''
     else ''completed'')"
  using assms unfolding derive_job_status_def open_job_def Let_def by presburger

lemma open_job_iff:
  assumes "\<forall>s \<in> set (chunk_states j). known_state s"
  shows "\<not> open_job j \<longleftrightarrow> bj_chunk_count j \<le> int (length (chunk_states j))
    \<and> (\<forall>s \<in> set (chunk_states j). s \<in> set terminal_chunk)"
proof -
  have "s \<in> set terminal_chunk \<longleftrightarrow> s \<notin> {''accepted'', ''running''}" if "known_state s" for s
    using that open_states(1,2) by (auto simp only: known_state_def insert_iff empty_iff)
  with assms show ?thesis unfolding open_job_def by fastforce
qed

lemma derive_terminal_iff:
  assumes "\<forall>s \<in> set (chunk_states j). known_state s"
  shows "derive_job_status j \<in> set terminal_chunk \<longleftrightarrow>
     bj_chunk_count j \<le> int (length (chunk_states j)) \<and> (\<forall>s \<in> set (chunk_states j). s \<in> set terminal_chunk)"
proof (cases "open_job j")
  case True
  with derive_open[OF True] open_states(1,2) have "derive_job_status j \<notin> set terminal_chunk" by metis
  with True show ?thesis using open_job_iff[OF assms] by simp
next
  case False
  with derive_closed[OF False] open_states(3-5) have "derive_job_status j \<in> set terminal_chunk" by presburger
  with False show ?thesis using open_job_iff[OF assms] by simp
qed

lemma derive_completed_iff:
  assumes "\<forall>s \<in> set (chunk_states j). known_state s" "0 < bj_chunk_count j"
  shows "derive_job_status j = ''completed'' \<longleftrightarrow>
     bj_chunk_count j \<le> int (length (chunk_states j)) \<and> (\<forall>s \<in> set (chunk_states j). s = ''completed'')"
proof (cases "open_job j")
  case True
  with derive_open[OF True] open_states(8,9) have "derive_job_status j \<noteq> ''completed''" by metis
  moreover have "\<not> (bj_chunk_count j \<le> int (length (chunk_states j)) \<and> (\<forall>s \<in> set (chunk_states j). s = ''completed''))"
    using True open_job_iff[OF assms(1)] open_states(4) by metis
  ultimately show ?thesis by simp
next
  case False
  then have o: "bj_chunk_count j \<le> int (length (chunk_states j))"
    "\<forall>s \<in> set (chunk_states j). s \<in> set terminal_chunk" using open_job_iff[OF assms(1)] by auto
  with assms(2) obtain s where s: "s \<in> set (chunk_states j)" by (cases "chunk_states j") auto
  have t: "x \<in> set terminal_chunk \<longleftrightarrow> x = ''completed'' \<or> x = ''completed_with_errors'' \<or> x = ''failed''" for x
    by (simp add: terminal_chunk_def)
  from derive_closed[OF False] o s open_states(6,7) show ?thesis
    unfolding t insert_iff empty_iff by (smt (verit))
qed

lemma filter_disjoint_length:
  "\<forall>x. \<not> (P x \<and> Q x) \<Longrightarrow> length (filter P xs) + length (filter Q xs) \<le> length xs"
  by (induction xs) auto

lemma chunk_counts_bounded:
  "completed_chunks j + failed_chunks j \<le> length (bj_chunks j)"
proof -
  have "\<forall>s. \<not> (s \<in> {''completed'', ''completed_with_errors''} \<and> s = ''failed'')" by auto
  from filter_disjoint_length[OF this, of "chunk_states j"]
  have "completed_chunks j + failed_chunks j \<le> length (chunk_states j)"
    by (simp only: completed_chunks_def failed_chunks_def)
  then show ?thesis by (simp add: chunk_states_def dict_values_def)
qed

section \<open>Convergence\<close>

text \<open>
  At-least-once delivery: every chunk has one final report \<open>fin\<close>, delivered at least once,
  among any late or repeated progress reports.
\<close>

definition settles :: "(string \<rightharpoonup> chunk_status) \<Rightarrow> (datetime \<times> chunk_status) list \<Rightarrow> bool" where
  "settles fin ds \<longleftrightarrow>
     (\<forall>(now, c) \<in> set ds. bk_chunk_id c \<in> dom fin
        \<and> (bk_status c \<in> set terminal_chunk \<longrightarrow> fin (bk_chunk_id c) = Some c))
     \<and> (\<forall>cid c. fin cid = Some c \<longrightarrow> bk_chunk_id c = cid \<and> bk_status c \<in> set terminal_chunk
          \<and> c \<in> snd ` set ds)"

definition heading :: "(string \<rightharpoonup> chunk_status) \<Rightarrow> job_status \<Rightarrow> bool" where
  "heading fin j \<longleftrightarrow>
     (\<forall>cid c. map_of (bj_chunks j) cid = Some c \<longrightarrow>
        cid \<in> dom fin \<and> (bk_status c \<in> set terminal_chunk \<longrightarrow> fin cid = Some c))"

definition derived :: "job_status \<Rightarrow> bool" where
  "derived j \<longleftrightarrow> bj_status j = derive_job_status j"

lemma derive_fields: "derive_job_status (j\<lparr>bj_status := s, bj_finished_at := t\<rparr>) = derive_job_status j"
  by (rule derive_cong) (simp_all add: chunk_states_def)

lemma with_chunk_derived: "derived (with_chunk now j c)"
  by (simp add: derived_def with_chunk_def Let_def derive_fields)

lemma merge_derived: "derived j \<or> bk_status c \<in> set terminal_chunk \<Longrightarrow> derived (merge_chunk now j c)"
  by (auto simp: merge_chunk_cases with_chunk_derived late_report_def)

lemma merge_all_derived:
  "derived j \<or> (\<exists>c \<in> snd ` set ds. bk_status c \<in> set terminal_chunk) \<Longrightarrow> derived (merge_all ds j)"
proof (induction ds arbitrary: j)
  case (Cons d ds)
  then show ?case by (cases d) (auto simp: merge_derived)
qed simp

lemma merge_heading:
  assumes "heading fin j" "bk_chunk_id c \<in> dom fin" "bk_status c \<in> set terminal_chunk \<longrightarrow> fin (bk_chunk_id c) = Some c"
  shows "heading fin (merge_chunk now j c)"
  using assms by (auto simp: heading_def merge_chunk_lookup split: if_splits)

lemma merge_all_heading:
  assumes "heading fin j" "\<forall>(now, c) \<in> set ds. bk_chunk_id c \<in> dom fin
      \<and> (bk_status c \<in> set terminal_chunk \<longrightarrow> fin (bk_chunk_id c) = Some c)"
  shows "heading fin (merge_all ds j)"
  using assms
proof (induction ds arbitrary: j)
  case (Cons d ds)
  then show ?case by (cases d) (auto intro!: Cons.IH merge_heading)
qed simp

lemma delivered_finished:
  "c \<in> snd ` set ds \<Longrightarrow> bk_status c \<in> set terminal_chunk \<Longrightarrow> finished_chunk (merge_all ds j) (bk_chunk_id c)"
proof (induction ds arbitrary: j)
  case (Cons d ds)
  obtain now c' where d: "d = (now, c')" by (cases d)
  show ?case
  proof (cases "c \<in> snd ` set ds")
    case True
    with Cons d show ?thesis by simp
  next
    case False
    with Cons.prems d have "c' = c" by auto
    with Cons.prems(2) have "finished_chunk (merge_chunk now j c') (bk_chunk_id c)"
      by (auto simp: finished_chunk_def merge_chunk_lookup late_report_def)
    then show ?thesis by (simp add: d finished_stays_all)
  qed
qed simp

lemma merge_all_settled:
  assumes "settles fin ds" "heading fin j"
  shows "map_of (bj_chunks (merge_all ds j)) = fin"
proof
  fix cid
  have h: "heading fin (merge_all ds j)"
    using assms by (intro merge_all_heading) (auto simp: settles_def)
  show "map_of (bj_chunks (merge_all ds j)) cid = fin cid"
  proof (cases "fin cid")
    case None
    with h show ?thesis by (cases "map_of (bj_chunks (merge_all ds j)) cid") (auto simp: heading_def)
  next
    case (Some c)
    then have "bk_chunk_id c = cid" "bk_status c \<in> set terminal_chunk" "c \<in> snd ` set ds"
      using assms(1) by (auto simp: settles_def)
    with delivered_finished[of c ds j] have "finished_chunk (merge_all ds j) cid" by simp
    with h Some show ?thesis by (auto simp: finished_chunk_def heading_def)
  qed
qed

lemma merge_chunk_wf_keys: "dict_wf (bj_chunks j) \<Longrightarrow> dict_wf (bj_chunks (merge_chunk now j c))"
  by (simp add: merge_chunk_cases)

lemma merge_all_wf_keys: "dict_wf (bj_chunks j) \<Longrightarrow> dict_wf (bj_chunks (merge_all ds j))"
proof (induction ds arbitrary: j)
  case (Cons d ds)
  then show ?case by (cases d) (simp add: merge_chunk_wf_keys)
qed simp

lemma merge_all_count [simp]: "bj_chunk_count (merge_all ds j) = bj_chunk_count j"
proof (induction ds arbitrary: j)
  case (Cons d ds)
  then show ?case by (cases d) simp
qed simp

lemma chunk_states_same_map:
  assumes "map_of (bj_chunks j) = map_of (bj_chunks j')" "dict_wf (bj_chunks j)" "dict_wf (bj_chunks j')"
  shows "mset (chunk_states j) = mset (chunk_states j')"
proof -
  have "mset (bj_chunks j) = mset (bj_chunks j')"
    using assms by (intro mset_same_map) (simp_all add: dict_keys_def)
  then show ?thesis by (simp add: chunk_states_def dict_values_def)
qed

lemma deliveries_converge:
  assumes "settles fin ds" "settles fin ds'" "fin \<noteq> Map.empty" "heading fin j" "dict_wf (bj_chunks j)"
  shows "map_of (bj_chunks (merge_all ds j)) = map_of (bj_chunks (merge_all ds' j))
    \<and> bj_status (merge_all ds j) = bj_status (merge_all ds' j)"
proof -
  have m: "map_of (bj_chunks (merge_all ds j)) = map_of (bj_chunks (merge_all ds' j))"
    using merge_all_settled assms(1,2,4) by metis
  obtain cid c where "fin cid = Some c" using assms(3) by (auto simp: fun_eq_iff)
  then have "c \<in> snd ` set ds" "c \<in> snd ` set ds'" "bk_status c \<in> set terminal_chunk"
    using assms(1,2) by (auto simp: settles_def)
  then have "derived (merge_all ds j)" "derived (merge_all ds' j)" using merge_all_derived by blast+
  moreover have "derive_job_status (merge_all ds j) = derive_job_status (merge_all ds' j)"
    using m assms(5) by (intro derive_cong chunk_states_same_map) (simp_all add: merge_all_wf_keys)
  ultimately show ?thesis using m by (simp add: derived_def)
qed

section \<open>The in-memory store\<close>

type_synonym batch_mem = "string \<rightharpoonup> job_status"

definition bm_put :: "batch_mem \<Rightarrow> job_status \<Rightarrow> batch_mem" where
  "bm_put m j = m(bj_job_id j \<mapsto> j)"

definition bm_get :: "batch_mem \<Rightarrow> string \<Rightarrow> job_status option" where
  "bm_get m job_id = m job_id"

definition bm_set_chunk ::
    "datetime \<Rightarrow> batch_mem \<Rightarrow> string \<Rightarrow> chunk_status \<Rightarrow> job_status option \<times> batch_mem" where
  "bm_set_chunk now m job_id c =
     (case m job_id of
        None \<Rightarrow> (None, m)
      | Some e \<Rightarrow> let merged = merge_chunk now e c in (Some merged, m(job_id \<mapsto> merged)))"

interpretation bm: snapshot_store "\<lambda>m j. Inr (bm_put m j)" "\<lambda>m i. Inr (bm_get m i)" bj_job_id "\<lambda>_. True" "\<lambda>j. j"
  by unfold_locales (auto simp: bm_put_def bm_get_def)

section \<open>The Valkey store\<close>

definition batch_job_key :: "string \<Rightarrow> string" where
  "batch_job_key job_id = ''fs:batch-job:'' @ job_id"

definition bv_put :: "(pyfloat \<Rightarrow> string) \<Rightarrow> snapshots \<Rightarrow> job_status \<Rightarrow> snapshots res" where
  "bv_put repr db j =
     rbind (encode_json repr (bj_to_dict j)) (\<lambda>d. Inr (db(batch_job_key (bj_job_id j) \<mapsto> d)))"

definition bv_get :: "snapshots \<Rightarrow> string \<Rightarrow> job_status option res" where
  "bv_get db job_id =
     (case db (batch_job_key job_id) of
        None \<Rightarrow> Inr None
      | Some raw \<Rightarrow> rbind (bj_from_dict raw) (\<lambda>j. Inr (Some j)))"

text \<open>
  \<^verbatim>\<open>_merge_in_txn\<close> on the watched value: the merged job and the text to set. An absent key
  writes nothing.
\<close>

definition merge_in_txn ::
    "(pyfloat \<Rightarrow> string) \<Rightarrow> datetime \<Rightarrow> chunk_status \<Rightarrow> json option \<Rightarrow> (job_status option \<times> json option) res" where
  "merge_in_txn repr now c raw =
     (case raw of
        None \<Rightarrow> Inr (None, None)
      | Some doc \<Rightarrow>
          rbind (bj_from_dict doc) (\<lambda>j.
          let merged = merge_chunk now j c in
          rbind (encode_json repr (bj_to_dict merged)) (\<lambda>d. Inr (Some merged, Some d))))"

definition set_if :: "string \<Rightarrow> json option \<Rightarrow> snapshots \<Rightarrow> snapshots" where
  "set_if key d db = (case d of None \<Rightarrow> db | Some x \<Rightarrow> db(key \<mapsto> x))"

text \<open>The transaction without contention.\<close>

definition bv_set_chunk ::
    "(pyfloat \<Rightarrow> string) \<Rightarrow> datetime \<Rightarrow> snapshots \<Rightarrow> string \<Rightarrow> chunk_status
      \<Rightarrow> (job_status option \<times> snapshots) res" where
  "bv_set_chunk repr now db job_id c =
     (let key = batch_job_key job_id in
      rbind (merge_in_txn repr now c (db key)) (\<lambda>(result, d). Inr (result, set_if key d db)))"

lemma batch_job_key_inj [simp]: "batch_job_key i = batch_job_key i' \<longleftrightarrow> i = i'"
  by (simp add: batch_job_key_def)

lemma encode_job: "bj_wf j \<Longrightarrow> encode_json repr (bj_to_dict j) = Inr (sort_keys (bj_to_dict j))"
  by (simp add: bj_plain)

interpretation bv: snapshot_store "bv_put repr" bv_get bj_job_id bj_wf bj_normal
  by unfold_locales (auto simp: bv_put_def bv_get_def encode_job bj_read)

text \<open>The text of a job does not depend on the order of its dictionaries.\<close>

lemma sort_keys_obj_cong:
  "map (\<lambda>(k, v). (k, sort_keys v)) a = map (\<lambda>(k, v). (k, sort_keys v)) b \<Longrightarrow>
     sort_keys (JObj a) = sort_keys (JObj b)"
  by (simp add: sort_keys.simps(2))

lemma mset_map_sort_key [simp]: "mset (map g (sort_key f xs)) = mset (map g xs)"
  by simp

lemma chunk_states_normal: "mset (chunk_states (bj_normal j)) = mset (chunk_states j)"
  by (simp add: chunk_states_def bj_normal_def dict_values_def)

lemma normal_counts:
  "completed_chunks (bj_normal j) = completed_chunks j" "failed_chunks (bj_normal j) = failed_chunks j"
  "failed_items (bj_normal j) = failed_items j"
proof -
  have l: "length (filter P xs) = size (filter_mset P (mset xs))" for P and xs :: "string list"
    by (metis mset_filter size_mset)
  show "completed_chunks (bj_normal j) = completed_chunks j" "failed_chunks (bj_normal j) = failed_chunks j"
    by (simp_all only: completed_chunks_def failed_chunks_def l chunk_states_normal)
  have "sum_list (map bk_failed_items (map snd (sort_key fst cs))) = sum_list (map bk_failed_items (map snd cs))"
    for cs :: "(string, chunk_status) dict"
    by (metis mset_map mset_sort sum_mset_sum_list)
  then show "failed_items (bj_normal j) = failed_items j"
    by (simp add: failed_items_def bj_normal_def dict_values_def)
qed

lemma job_text_normal: "sort_keys (bj_to_dict (bj_normal j)) = sort_keys (bj_to_dict j)"
proof -
  have chunks: "sort_keys (JObj (map (\<lambda>(cid, c). (cid, bk_to_dict c)) (bj_chunks (bj_normal j))))
      = sort_keys (JObj (map (\<lambda>(cid, c). (cid, bk_to_dict c)) (bj_chunks j)))"
    by (simp add: bj_normal_def sort_keys.simps(2) sort_key_map case_prod_beta comp_def)
  have errors: "sort_keys (JObj (bj_error_summary (bj_normal j))) = sort_keys (JObj (bj_error_summary j))"
    by (simp add: bj_normal_def sort_keys_obj)
  show ?thesis
    unfolding bj_to_dict_def normal_counts
    by (rule sort_keys_obj_cong, simp only: list.map prod.case chunks errors) (simp add: bj_normal_def)
qed

lemma job_text_cong: "bj_normal j = bj_normal j' \<Longrightarrow> sort_keys (bj_to_dict j) = sort_keys (bj_to_dict j')"
  by (metis job_text_normal)

text \<open>Merging into the job that was read back is merging into the job that was written.\<close>

lemma late_report_normal [simp]: "late_report (bj_normal j) c = late_report j c"
  by (simp add: late_report_def bj_normal_def)

lemma with_chunk_normal:
  assumes "dict_wf (bj_chunks j)"
  shows "bj_normal (with_chunk now (bj_normal j) c) = bj_normal (with_chunk now j c)"
proof -
  let ?set = "\<lambda>j. j\<lparr>bj_chunks := dict_set (bk_chunk_id c) c (bj_chunks j), bj_updated_at := now\<rparr>"
  have wf: "dict_wf (dict_set (bk_chunk_id c) c (bj_chunks (bj_normal j)))"
    "dict_wf (dict_set (bk_chunk_id c) c (bj_chunks j))"
    using assms by (intro dict_set_wf; simp add: bj_normal_def dict_keys_def)+
  have m: "map_of (dict_set (bk_chunk_id c) c (bj_chunks (bj_normal j))) = map_of (dict_set (bk_chunk_id c) c (bj_chunks j))"
    by (simp add: bj_normal_def fun_eq_iff)
  have "derive_job_status (?set (bj_normal j)) = derive_job_status (?set j)"
    using wf m by (intro derive_cong chunk_states_same_map) (simp_all add: bj_normal_def)
  moreover have "sort_key fst (dict_set (bk_chunk_id c) c (bj_chunks (bj_normal j)))
      = sort_key fst (dict_set (bk_chunk_id c) c (bj_chunks j))"
    using wf m by (intro sort_key_same_map) (simp_all add: dict_keys_def)
  ultimately show ?thesis by (simp add: with_chunk_def Let_def bj_normal_def)
qed

lemma merge_chunk_normal:
  "dict_wf (bj_chunks j) \<Longrightarrow> bj_normal (merge_chunk now (bj_normal j) c) = bj_normal (merge_chunk now j c)"
  by (simp add: merge_chunk_cases with_chunk_normal) (simp add: bj_normal_def)

lemma set_dict_set: "set (dict_set k v d) \<subseteq> insert (k, v) (set d)"
  by (induction d) (auto simp: dict_set_def)

lemma with_chunk_wf: "bj_wf j \<Longrightarrow> bk_wf c \<Longrightarrow> stamp now \<Longrightarrow> bj_wf (with_chunk now j c)"
  using set_dict_set[of "bk_chunk_id c" c "bj_chunks j"]
  by (auto simp: bj_wf_def with_chunk_def Let_def stamp_opt_def)

lemma merge_chunk_wf: "bj_wf j \<Longrightarrow> bk_wf c \<Longrightarrow> stamp now \<Longrightarrow> bj_wf (merge_chunk now j c)"
  by (simp add: merge_chunk_cases with_chunk_wf)

lemma merge_in_txn_stored:
  assumes "bj_wf j" "bk_wf c" "stamp now"
  shows "merge_in_txn repr now c (Some (sort_keys (bj_to_dict j)))
    = Inr (Some (merge_chunk now (bj_normal j) c), Some (sort_keys (bj_to_dict (merge_chunk now j c))))"
proof -
  have "bj_wf (merge_chunk now (bj_normal j) c)" using assms by (intro merge_chunk_wf bj_normal_wf)
  moreover have "sort_keys (bj_to_dict (merge_chunk now (bj_normal j) c)) = sort_keys (bj_to_dict (merge_chunk now j c))"
    using assms(1) by (intro job_text_cong merge_chunk_normal) (simp add: bj_wf_def)
  ultimately show ?thesis by (simp add: merge_in_txn_def bj_read[OF assms(1)] Let_def encode_job)
qed

section \<open>The Valkey store implements the in-memory store\<close>

definition batch_stored :: "snapshots \<Rightarrow> batch_mem \<Rightarrow> bool" where
  "batch_stored db m \<longleftrightarrow>
     (\<forall>i. db (batch_job_key i) = map_option (\<lambda>j. sort_keys (bj_to_dict j)) (m i))
     \<and> (\<forall>i j. m i = Some j \<longrightarrow> bj_wf j)"

lemma batch_put_simulation:
  assumes "batch_stored db m" "bj_wf j"
  shows "\<exists>db'. bv_put repr db j = Inr db' \<and> batch_stored db' (bm_put m j)"
  using assms by (auto simp: batch_stored_def bv_put_def bm_put_def encode_job)

lemma batch_get_simulation:
  assumes "batch_stored db m"
  shows "bv_get db job_id = Inr (map_option bj_normal (bm_get m job_id))"
  using assms by (cases "m job_id") (auto simp: batch_stored_def bv_get_def bm_get_def bj_read)

lemma batch_set_chunk_simulation:
  assumes "batch_stored db m" "bk_wf c" "stamp now"
  shows "\<exists>r db'. bv_set_chunk repr now db job_id c = Inr (r, db')
    \<and> map_option bj_normal r = map_option bj_normal (fst (bm_set_chunk now m job_id c))
    \<and> batch_stored db' (snd (bm_set_chunk now m job_id c))"
proof (cases "m job_id")
  case None
  with assms show ?thesis
    by (auto simp: batch_stored_def bv_set_chunk_def bm_set_chunk_def merge_in_txn_def set_if_def)
next
  case (Some j)
  then have j: "bj_wf j" "db (batch_job_key job_id) = Some (sort_keys (bj_to_dict j))"
    using assms(1) by (auto simp: batch_stored_def)
  then have "bj_normal (merge_chunk now (bj_normal j) c) = bj_normal (merge_chunk now j c)"
    by (intro merge_chunk_normal) (simp add: bj_wf_def)
  with assms j Some show ?thesis
    by (auto simp: batch_stored_def bv_set_chunk_def bm_set_chunk_def set_if_def
        merge_in_txn_stored Let_def merge_chunk_wf)
qed

section \<open>Concurrent chunk reports\<close>

text \<open>
  Writers report chunks of one job through WATCH/MULTI transactions. A writer reads the watched
  key, and its EXEC succeeds only while the key is unchanged; otherwise the client library runs
  the transaction function again. \<open>rep w\<close> is the report of writer \<open>w\<close> with its clock.
\<close>

record txn_state =
  tx_db :: snapshots
  tx_watch :: "nat \<Rightarrow> json option option"
  tx_done :: "nat list"  \<comment> \<open>the committed writers, in order\<close>

inductive txn_step ::
    "(pyfloat \<Rightarrow> string) \<Rightarrow> string \<Rightarrow> (nat \<Rightarrow> datetime \<times> chunk_status) \<Rightarrow> txn_state \<Rightarrow> txn_state \<Rightarrow> bool"
  for repr job_id rep where
  watch: "w \<notin> set (tx_done s) \<Longrightarrow> tx_watch s w = None \<Longrightarrow>
     txn_step repr job_id rep s (s\<lparr>tx_watch := (tx_watch s)(w := Some (tx_db s (batch_job_key job_id)))\<rparr>)"
| retry: "tx_watch s w = Some raw \<Longrightarrow> tx_db s (batch_job_key job_id) \<noteq> raw \<Longrightarrow>
     txn_step repr job_id rep s (s\<lparr>tx_watch := (tx_watch s)(w := None)\<rparr>)"
| exec: "tx_watch s w = Some raw \<Longrightarrow> tx_db s (batch_job_key job_id) = raw \<Longrightarrow>
     merge_in_txn repr (fst (rep w)) (snd (rep w)) raw = Inr (result, d) \<Longrightarrow>
     txn_step repr job_id rep s
       (s\<lparr>tx_db := set_if (batch_job_key job_id) d (tx_db s), tx_watch := (tx_watch s)(w := None),
          tx_done := tx_done s @ [w]\<rparr>)"

inductive_cases txn_stepE: "txn_step repr job_id rep s s'"

definition txn_invariant ::
    "string \<Rightarrow> (nat \<Rightarrow> datetime \<times> chunk_status) \<Rightarrow> job_status \<Rightarrow> txn_state \<Rightarrow> bool" where
  "txn_invariant job_id rep j s \<longleftrightarrow>
     distinct (tx_done s) \<and> (\<forall>w \<in> set (tx_done s). tx_watch s w = None)
     \<and> tx_db s (batch_job_key job_id) = Some (sort_keys (bj_to_dict (merge_all (map rep (tx_done s)) j)))"

lemma merge_all_wf:
  "bj_wf j \<Longrightarrow> \<forall>(now, c) \<in> set ds. bk_wf c \<and> stamp now \<Longrightarrow> bj_wf (merge_all ds j)"
proof (induction ds arbitrary: j)
  case (Cons d ds)
  then show ?case by (cases d) (auto intro!: Cons.IH merge_chunk_wf)
qed simp

lemma merge_all_snoc: "merge_all (ds @ [d]) j = merge_chunk (fst d) (merge_all ds j) (snd d)"
  by (simp add: merge_all_def case_prod_beta)

lemma txn_step_invariant:
  assumes "txn_step repr job_id rep s s'" "txn_invariant job_id rep j s"
    and "bj_wf j" "\<forall>w. bk_wf (snd (rep w)) \<and> stamp (fst (rep w))"
  shows "txn_invariant job_id rep j s'"
  using assms(1)
proof (cases rule: txn_step.cases)
  case (watch w)
  with assms(2) show ?thesis by (auto simp: txn_invariant_def)
next
  case (retry w raw)
  with assms(2) show ?thesis by (auto simp: txn_invariant_def)
next
  case (exec w raw result d)
  have "bj_wf (merge_all (map rep (tx_done s)) j)"
    using assms(3,4) by (intro merge_all_wf) (auto simp: case_prod_beta)
  then have "d = Some (sort_keys (bj_to_dict (merge_all (map rep (tx_done s @ [w])) j)))"
    using exec assms(2,4) by (auto simp: txn_invariant_def merge_in_txn_stored merge_all_snoc)
  with exec assms(2) show ?thesis by (auto simp: txn_invariant_def set_if_def)
qed

lemma txn_reachable_invariant:
  assumes "(txn_step repr job_id rep)\<^sup>*\<^sup>* s s'" "txn_invariant job_id rep j s"
    and "bj_wf j" "\<forall>w. bk_wf (snd (rep w)) \<and> stamp (fst (rep w))"
  shows "txn_invariant job_id rep j s'"
  using assms(1)
proof (induction rule: rtranclp_induct)
  case base
  show ?case by (rule assms(2))
next
  case (step y z)
  from txn_step_invariant[OF step.hyps(2) step.IH assms(3,4)] show ?case .
qed

text \<open>A writer that has not committed can always move.\<close>

lemma txn_not_stuck:
  assumes "txn_invariant job_id rep j s" "w \<notin> set (tx_done s)" "bj_wf j"
    and "\<forall>w. bk_wf (snd (rep w)) \<and> stamp (fst (rep w))"
  shows "\<exists>s'. txn_step repr job_id rep s s'
    \<and> (tx_watch s w = Some (tx_db s (batch_job_key job_id)) \<longrightarrow> tx_done s' = tx_done s @ [w])"
proof (cases "tx_watch s w")
  case None
  from txn_step.watch[where repr = repr and rep = rep, OF assms(2) None, of job_id] None show ?thesis by auto
next
  case (Some raw)
  show ?thesis
  proof (cases "tx_db s (batch_job_key job_id) = raw")
    case True
    have "bj_wf (merge_all (map rep (tx_done s)) j)"
      using assms(3,4) by (intro merge_all_wf) (auto simp: case_prod_beta)
    then obtain r d where "merge_in_txn repr (fst (rep w)) (snd (rep w)) raw = Inr (r, d)"
      using assms(1,4) True by (auto simp: txn_invariant_def merge_in_txn_stored)
    from txn_step.exec[where repr = repr and rep = rep, OF Some True this] show ?thesis by fastforce
  next
    case False
    from txn_step.retry[where repr = repr and rep = rep, OF Some False] False Some show ?thesis by auto
  qed
qed

end
