(* ===== verification/BatchEvents.thy ===== *)
theory BatchEvents
  imports Events Hashing
begin

text \<open>
  The remaining messages of fs_core/events/models.py: model score writes, batch chunks and their
  results, dead letters; and the idempotency key of a compute request.
\<close>

section \<open>Dictionaries of counts\<close>

definition of_int_dict :: "(string, int) dict \<Rightarrow> json" where
  "of_int_dict d = JObj (map (\<lambda>(n, i). (n, JInt i)) d)"

definition as_int_dict :: "json \<Rightarrow> (string, int) dict res" where
  "as_int_dict v = rbind (as_obj v) (map_res (\<lambda>(n, w). rbind (as_int w) (\<lambda>i. Inr (n, i))))"

lemma as_int_dict_of_int_dict [simp]: "as_int_dict (of_int_dict d) = Inr d"
  unfolding as_int_dict_def of_int_dict_def by (induction d) auto

lemma of_int_dict_sorted [simp]: "sort_keys (of_int_dict d) = of_int_dict (sort_key fst d)"
  by (simp add: of_int_dict_def sort_keys_obj sort_items_def sort_key_map case_prod_beta comp_def)

lemma of_opt_int_dict [simp]:
  "sort_keys (of_opt of_int_dict x) = of_opt of_int_dict (map_option (sort_key fst) x)"
  "json_plain (of_opt of_int_dict x)"
  "as_opt as_int_dict (of_opt of_int_dict x) = Inr x"
  by (auto simp: of_opt_def as_opt_def split: option.splits) (auto simp: of_int_dict_def)

section \<open>Model scores\<close>

record score_item =
  si_feature :: string
  si_value :: json
  si_data_ts :: datetime
  si_calc_ts :: datetime
  si_model_name :: string
  si_model_version :: string
  si_source_request_id :: "string option"
  si_decision_request_id :: "string option"
  si_context :: "(string, json) dict"

definition si_to_dict :: "score_item \<Rightarrow> json res" where
  "si_to_dict e =
     rbind (event_iso (si_data_ts e)) (\<lambda>data_ts.
     rbind (event_iso (si_calc_ts e)) (\<lambda>calc_ts.
     Inr (JObj
       [(''feature'', JStr (si_feature e)),
        (''value'', (si_value e)),
        (''data_ts'', data_ts),
        (''calc_ts'', calc_ts),
        (''model_name'', JStr (si_model_name e)),
        (''model_version'', JStr (si_model_version e)),
        (''source_request_id'', of_opt JStr (si_source_request_id e)),
        (''decision_request_id'', of_opt JStr (si_decision_request_id e)),
        (''context'', JObj (si_context e))])))"

definition si_from_dict :: "json \<Rightarrow> score_item res" where
  "si_from_dict d =
     rbind (str_item d ''feature'') (\<lambda>feature.
     rbind (jitem d ''value'') (\<lambda>value.
     rbind (iso_item d ''data_ts'') (\<lambda>data_ts.
     rbind (iso_item d ''calc_ts'') (\<lambda>calc_ts.
     rbind (str_item d ''model_name'') (\<lambda>model_name.
     rbind (str_item d ''model_version'') (\<lambda>model_version.
     rbind (opt_str_get d ''source_request_id'') (\<lambda>source_request_id.
     rbind (opt_str_get d ''decision_request_id'') (\<lambda>decision_request_id.
     rbind (rbind (jget d ''context'' (JObj [])) as_obj) (\<lambda>context.
     Inr \<lparr>si_feature = feature, si_value = value, si_data_ts = data_ts,
        si_calc_ts = calc_ts, si_model_name = model_name,
        si_model_version = model_version, si_source_request_id = source_request_id,
        si_decision_request_id = decision_request_id, si_context = context\<rparr>)))))))))"

definition si_wf :: "score_item \<Rightarrow> bool" where
  "si_wf e \<longleftrightarrow>
     json_plain (si_value e)
     \<and> stamp (si_data_ts e)
     \<and> stamp (si_calc_ts e)
     \<and> obj_plain (si_context e)"

definition si_normal :: "score_item \<Rightarrow> score_item" where
  "si_normal e = e\<lparr>si_value := sort_keys (si_value e), si_context := sort_items (si_context e)\<rparr>"

lemma si_written:
  assumes "si_wf e"
  shows "\<exists>d. si_to_dict e = Inr d \<and> json_plain d \<and> si_from_dict (sort_keys d) = Inr (si_normal e)"
  using assms unfolding si_to_dict_def si_from_dict_def si_wf_def si_normal_def field_reads
  by (simp add: obj_plain_def)

interpretation si: codec si_to_dict si_from_dict si_wf si_normal
  by (unfold_locales, erule si_written) (simp_all add: si_wf_def si_normal_def)

section \<open>Model score writes\<close>

record model_score_write =
  ms_event_type :: string
  ms_event_version :: int
  ms_score_write_id :: string
  ms_correlation_id :: string
  ms_occurred_at :: datetime
  ms_entity :: entity_ref
  ms_view :: string
  ms_view_version :: int
  ms_scores :: "score_item list"
  ms_idempotency_key :: string
  ms_write_online :: bool
  ms_write_offline :: bool

definition ms_to_dict :: "model_score_write \<Rightarrow> json res" where
  "ms_to_dict e =
     rbind (event_iso (ms_occurred_at e)) (\<lambda>occurred_at.
     rbind (map_res si_to_dict (ms_scores e)) (\<lambda>scores.
     Inr (JObj
       [(''event_type'', JStr (ms_event_type e)),
        (''event_version'', JInt (ms_event_version e)),
        (''score_write_id'', JStr (ms_score_write_id e)),
        (''correlation_id'', JStr (ms_correlation_id e)),
        (''occurred_at'', occurred_at),
        (''entity'', er_to_dict (ms_entity e)),
        (''view'', JStr (ms_view e)),
        (''view_version'', JInt (ms_view_version e)),
        (''scores'', JList scores),
        (''idempotency_key'', JStr (ms_idempotency_key e)),
        (''write_online'', JBool (ms_write_online e)),
        (''write_offline'', JBool (ms_write_offline e))])))"

definition ms_from_dict :: "json \<Rightarrow> model_score_write res" where
  "ms_from_dict d =
     rbind (str_item d ''score_write_id'') (\<lambda>score_write_id.
     rbind (str_item d ''correlation_id'') (\<lambda>correlation_id.
     rbind (iso_item d ''occurred_at'') (\<lambda>occurred_at.
     rbind (rbind (jitem d ''entity'') er_from_dict) (\<lambda>entity.
     rbind (str_item d ''view'') (\<lambda>view.
     rbind (int_item d ''view_version'') (\<lambda>view_version.
     rbind (list_item si_from_dict d ''scores'') (\<lambda>scores.
     rbind (str_item d ''idempotency_key'') (\<lambda>idempotency_key.
     rbind (bool_get d ''write_online'' True) (\<lambda>write_online.
     rbind (bool_get d ''write_offline'' True) (\<lambda>write_offline.
     rbind (str_get d ''event_type'' ''model_score.write.requested'') (\<lambda>event_type.
     rbind (int_get d ''event_version'' 1) (\<lambda>event_version.
     Inr \<lparr>ms_event_type = event_type, ms_event_version = event_version,
        ms_score_write_id = score_write_id, ms_correlation_id = correlation_id,
        ms_occurred_at = occurred_at, ms_entity = entity, ms_view = view,
        ms_view_version = view_version, ms_scores = scores,
        ms_idempotency_key = idempotency_key, ms_write_online = write_online,
        ms_write_offline = write_offline\<rparr>))))))))))))"

definition ms_wf :: "model_score_write \<Rightarrow> bool" where
  "ms_wf e \<longleftrightarrow>
     stamp (ms_occurred_at e)
     \<and> list_all si_wf (ms_scores e)"

definition ms_normal :: "model_score_write \<Rightarrow> model_score_write" where
  "ms_normal e = e\<lparr>ms_entity := er_normal (ms_entity e), ms_scores := map si_normal (ms_scores e)\<rparr>"

lemma ms_written:
  assumes "ms_wf e"
  shows "\<exists>d. ms_to_dict e = Inr d \<and> json_plain d \<and> ms_from_dict (sort_keys d) = Inr (ms_normal e)"
proof -
  from assms obtain ds where "map_res si_to_dict (ms_scores e) = Inr ds"
    "\<forall>d \<in> set ds. json_plain d"
    "map_res si_from_dict (map sort_keys ds) = Inr (map si_normal (ms_scores e))"
    using si.list_written[of "ms_scores e"] by (auto simp: ms_wf_def list_all_iff)
  with assms show ?thesis
    unfolding ms_to_dict_def ms_from_dict_def ms_wf_def ms_normal_def field_reads list_item_def
    by simp
qed

interpretation ms: codec ms_to_dict ms_from_dict ms_wf ms_normal
  by (unfold_locales, erule ms_written) (simp_all add: ms_wf_def ms_normal_def si.normal_normal si.wf_normal list_all_iff)

section \<open>Batch items\<close>

record batch_item =
  bi_entity_type :: string
  bi_entity_key :: "(string, string) dict"
  bi_inline_sources :: "(string, (string, json) dict) dict"
  bi_source_refs :: "(string, string) dict"

definition bi_to_dict :: "batch_item \<Rightarrow> json res" where
  "bi_to_dict e =
     Inr (JObj
       [(''entity_type'', JStr (bi_entity_type e)),
        (''entity_key'', of_str_dict (bi_entity_key e)),
        (''inline_sources'', of_obj_dict (bi_inline_sources e)),
        (''source_refs'', of_str_dict (bi_source_refs e))])"

definition bi_from_dict :: "json \<Rightarrow> batch_item res" where
  "bi_from_dict d =
     rbind (str_item d ''entity_type'') (\<lambda>entity_type.
     rbind (str_dict_item d ''entity_key'') (\<lambda>entity_key.
     rbind (rbind (jget d ''inline_sources'' (JObj [])) as_obj_dict) (\<lambda>inline_sources.
     rbind (rbind (jget d ''source_refs'' (JObj [])) as_str_dict) (\<lambda>source_refs.
     Inr \<lparr>bi_entity_type = entity_type, bi_entity_key = entity_key,
        bi_inline_sources = inline_sources, bi_source_refs = source_refs\<rparr>))))"

definition bi_wf :: "batch_item \<Rightarrow> bool" where
  "bi_wf e \<longleftrightarrow>
     json_plain (of_obj_dict (bi_inline_sources e))"

definition bi_normal :: "batch_item \<Rightarrow> batch_item" where
  "bi_normal e = e\<lparr>bi_entity_key := sort_key fst (bi_entity_key e), bi_inline_sources := sort_obj_dict (bi_inline_sources e), bi_source_refs := sort_key fst (bi_source_refs e)\<rparr>"

lemma bi_written:
  assumes "bi_wf e"
  shows "\<exists>d. bi_to_dict e = Inr d \<and> json_plain d \<and> bi_from_dict (sort_keys d) = Inr (bi_normal e)"
  using assms unfolding bi_to_dict_def bi_from_dict_def bi_wf_def bi_normal_def field_reads
  by simp

interpretation bi: codec bi_to_dict bi_from_dict bi_wf bi_normal
  by (unfold_locales, erule bi_written) (simp_all add: bi_wf_def bi_normal_def)

section \<open>Batch chunks\<close>

record batch_chunk_requested =
  bc_event_type :: string
  bc_event_version :: int
  bc_batch_job_id :: string
  bc_chunk_id :: string
  bc_chunk_index :: int
  bc_chunk_count :: int
  bc_correlation_id :: string
  bc_occurred_at :: datetime
  bc_view :: string
  bc_view_version :: int
  bc_items :: "batch_item list"
  bc_features :: "string list"
  bc_groups :: "string list"
  bc_write_online :: bool
  bc_total_items :: int
  bc_manifest_id :: "string option"
  bc_manifest_ids :: "string list"

definition bc_to_dict :: "batch_chunk_requested \<Rightarrow> json res" where
  "bc_to_dict e =
     rbind (event_iso (bc_occurred_at e)) (\<lambda>occurred_at.
     rbind (map_res bi_to_dict (bc_items e)) (\<lambda>items.
     Inr (JObj
       [(''event_type'', JStr (bc_event_type e)),
        (''event_version'', JInt (bc_event_version e)),
        (''batch_job_id'', JStr (bc_batch_job_id e)),
        (''chunk_id'', JStr (bc_chunk_id e)),
        (''chunk_index'', JInt (bc_chunk_index e)),
        (''chunk_count'', JInt (bc_chunk_count e)),
        (''correlation_id'', JStr (bc_correlation_id e)),
        (''occurred_at'', occurred_at),
        (''view'', JStr (bc_view e)),
        (''view_version'', JInt (bc_view_version e)),
        (''items'', JList items),
        (''requested_features'', of_str_list (bc_features e)),
        (''requested_feature_groups'', of_str_list (bc_groups e)),
        (''write_online'', JBool (bc_write_online e)),
        (''total_items'', JInt (bc_total_items e)),
        (''manifest_id'', of_opt JStr (bc_manifest_id e)),
        (''manifest_ids'', of_str_list (bc_manifest_ids e))])))"

definition bc_from_dict :: "json \<Rightarrow> batch_chunk_requested res" where
  "bc_from_dict d =
     rbind (str_item d ''batch_job_id'') (\<lambda>batch_job_id.
     rbind (str_item d ''chunk_id'') (\<lambda>chunk_id.
     rbind (int_item d ''chunk_index'') (\<lambda>chunk_index.
     rbind (int_item d ''chunk_count'') (\<lambda>chunk_count.
     rbind (str_item d ''correlation_id'') (\<lambda>correlation_id.
     rbind (iso_item d ''occurred_at'') (\<lambda>occurred_at.
     rbind (str_item d ''view'') (\<lambda>view.
     rbind (int_item d ''view_version'') (\<lambda>view_version.
     rbind (list_item bi_from_dict d ''items'') (\<lambda>items.
     rbind (str_list_get d ''requested_features'') (\<lambda>features.
     rbind (str_list_get d ''requested_feature_groups'') (\<lambda>groups.
     rbind (bool_get d ''write_online'' False) (\<lambda>write_online.
     rbind (int_get d ''total_items'' 0) (\<lambda>total_items.
     rbind (opt_str_get d ''manifest_id'') (\<lambda>manifest_id.
     rbind (str_list_get d ''manifest_ids'') (\<lambda>manifest_ids.
     rbind (str_get d ''event_type'' ''batch.chunk.requested'') (\<lambda>event_type.
     rbind (int_get d ''event_version'' 1) (\<lambda>event_version.
     Inr \<lparr>bc_event_type = event_type, bc_event_version = event_version,
        bc_batch_job_id = batch_job_id, bc_chunk_id = chunk_id,
        bc_chunk_index = chunk_index, bc_chunk_count = chunk_count,
        bc_correlation_id = correlation_id, bc_occurred_at = occurred_at,
        bc_view = view, bc_view_version = view_version, bc_items = items,
        bc_features = features, bc_groups = groups, bc_write_online = write_online,
        bc_total_items = total_items, bc_manifest_id = manifest_id,
        bc_manifest_ids = manifest_ids\<rparr>)))))))))))))))))"

definition bc_wf :: "batch_chunk_requested \<Rightarrow> bool" where
  "bc_wf e \<longleftrightarrow>
     stamp (bc_occurred_at e)
     \<and> list_all bi_wf (bc_items e)"

definition bc_normal :: "batch_chunk_requested \<Rightarrow> batch_chunk_requested" where
  "bc_normal e = e\<lparr>bc_items := map bi_normal (bc_items e)\<rparr>"

lemma bc_written:
  assumes "bc_wf e"
  shows "\<exists>d. bc_to_dict e = Inr d \<and> json_plain d \<and> bc_from_dict (sort_keys d) = Inr (bc_normal e)"
proof -
  from assms obtain ds where "map_res bi_to_dict (bc_items e) = Inr ds"
    "\<forall>d \<in> set ds. json_plain d"
    "map_res bi_from_dict (map sort_keys ds) = Inr (map bi_normal (bc_items e))"
    using bi.list_written[of "bc_items e"] by (auto simp: bc_wf_def list_all_iff)
  with assms show ?thesis
    unfolding bc_to_dict_def bc_from_dict_def bc_wf_def bc_normal_def field_reads list_item_def
    by simp
qed

interpretation bc: codec bc_to_dict bc_from_dict bc_wf bc_normal
  by (unfold_locales, erule bc_written) (simp_all add: bc_wf_def bc_normal_def bi.normal_normal bi.wf_normal list_all_iff)

text \<open>The Kafka key of a chunk.\<close>

definition batch_chunk_partition_key :: "batch_chunk_requested \<Rightarrow> string" where
  "batch_chunk_partition_key e = bc_chunk_id e"

section \<open>Processed batch chunks\<close>

record batch_chunk_processed =
  bp_event_type :: string
  bp_event_version :: int
  bp_batch_job_id :: string
  bp_chunk_id :: string
  bp_chunk_index :: int
  bp_chunk_count :: int
  bp_correlation_id :: string
  bp_processed_at :: datetime
  bp_status :: string
  bp_item_count :: int
  bp_ok_items :: int
  bp_failed_items :: int
  bp_first_errors :: "string list"
  bp_manifest_id :: "string option"
  bp_online_refresh_counts :: "(string, int) dict option"

definition bp_to_dict :: "batch_chunk_processed \<Rightarrow> json res" where
  "bp_to_dict e =
     rbind (event_iso (bp_processed_at e)) (\<lambda>processed_at.
     Inr (JObj
       [(''event_type'', JStr (bp_event_type e)),
        (''event_version'', JInt (bp_event_version e)),
        (''batch_job_id'', JStr (bp_batch_job_id e)),
        (''chunk_id'', JStr (bp_chunk_id e)),
        (''chunk_index'', JInt (bp_chunk_index e)),
        (''chunk_count'', JInt (bp_chunk_count e)),
        (''correlation_id'', JStr (bp_correlation_id e)),
        (''processed_at'', processed_at),
        (''status'', JStr (bp_status e)),
        (''item_count'', JInt (bp_item_count e)),
        (''ok_items'', JInt (bp_ok_items e)),
        (''failed_items'', JInt (bp_failed_items e)),
        (''first_errors'', of_str_list (bp_first_errors e)),
        (''manifest_id'', of_opt JStr (bp_manifest_id e)),
        (''online_refresh_counts'', of_opt of_int_dict (bp_online_refresh_counts e))]))"

definition bp_from_dict :: "json \<Rightarrow> batch_chunk_processed res" where
  "bp_from_dict d =
     rbind (str_item d ''batch_job_id'') (\<lambda>batch_job_id.
     rbind (str_item d ''chunk_id'') (\<lambda>chunk_id.
     rbind (int_item d ''chunk_index'') (\<lambda>chunk_index.
     rbind (int_item d ''chunk_count'') (\<lambda>chunk_count.
     rbind (str_item d ''correlation_id'') (\<lambda>correlation_id.
     rbind (iso_item d ''processed_at'') (\<lambda>processed_at.
     rbind (str_item d ''status'') (\<lambda>status.
     rbind (int_item d ''item_count'') (\<lambda>item_count.
     rbind (int_item d ''ok_items'') (\<lambda>ok_items.
     rbind (int_item d ''failed_items'') (\<lambda>failed_items.
     rbind (str_list_get d ''first_errors'') (\<lambda>first_errors.
     rbind (opt_str_get d ''manifest_id'') (\<lambda>manifest_id.
     rbind (rbind (jget d ''online_refresh_counts'' JNull) (as_opt as_int_dict)) (\<lambda>online_refresh_counts.
     rbind (str_get d ''event_type'' ''batch.chunk.processed'') (\<lambda>event_type.
     rbind (int_get d ''event_version'' 1) (\<lambda>event_version.
     Inr \<lparr>bp_event_type = event_type, bp_event_version = event_version,
        bp_batch_job_id = batch_job_id, bp_chunk_id = chunk_id,
        bp_chunk_index = chunk_index, bp_chunk_count = chunk_count,
        bp_correlation_id = correlation_id, bp_processed_at = processed_at,
        bp_status = status, bp_item_count = item_count, bp_ok_items = ok_items,
        bp_failed_items = failed_items, bp_first_errors = first_errors,
        bp_manifest_id = manifest_id,
        bp_online_refresh_counts = online_refresh_counts\<rparr>)))))))))))))))"

definition bp_wf :: "batch_chunk_processed \<Rightarrow> bool" where
  "bp_wf e \<longleftrightarrow>
     stamp (bp_processed_at e)"

definition bp_normal :: "batch_chunk_processed \<Rightarrow> batch_chunk_processed" where
  "bp_normal e = e\<lparr>bp_online_refresh_counts := map_option (sort_key fst) (bp_online_refresh_counts e)\<rparr>"

lemma bp_written:
  assumes "bp_wf e"
  shows "\<exists>d. bp_to_dict e = Inr d \<and> json_plain d \<and> bp_from_dict (sort_keys d) = Inr (bp_normal e)"
  using assms unfolding bp_to_dict_def bp_from_dict_def bp_wf_def bp_normal_def field_reads
  by simp

interpretation bp: codec bp_to_dict bp_from_dict bp_wf bp_normal
  by (unfold_locales, erule bp_written) (simp_all add: bp_wf_def bp_normal_def  option.map_comp comp_def)

section \<open>Dead letters (the ids come from an arbitrary document)\<close>

record dead_letter =
  dl_event_type :: string
  dl_event_version :: int
  dl_source_topic :: string
  dl_failure_stage :: string
  dl_failure_status :: string
  dl_error :: "string option"
  dl_occurred_at :: datetime
  dl_source_payload_b64 :: string
  dl_original_request_id :: json
  dl_original_job_id :: json
  dl_original_correlation_id :: json
  dl_attempt_count :: "int option"
  dl_max_attempts :: "int option"
  dl_original_event_type :: json

definition dl_to_dict :: "dead_letter \<Rightarrow> json res" where
  "dl_to_dict e =
     rbind (event_iso (dl_occurred_at e)) (\<lambda>occurred_at.
     Inr (JObj
       [(''event_type'', JStr (dl_event_type e)),
        (''event_version'', JInt (dl_event_version e)),
        (''source_topic'', JStr (dl_source_topic e)),
        (''failure_stage'', JStr (dl_failure_stage e)),
        (''failure_status'', JStr (dl_failure_status e)),
        (''error'', of_opt JStr (dl_error e)),
        (''occurred_at'', occurred_at),
        (''source_payload_b64'', JStr (dl_source_payload_b64 e)),
        (''original_request_id'', (dl_original_request_id e)),
        (''original_job_id'', (dl_original_job_id e)),
        (''original_correlation_id'', (dl_original_correlation_id e)),
        (''attempt_count'', of_opt JInt (dl_attempt_count e)),
        (''max_attempts'', of_opt JInt (dl_max_attempts e)),
        (''original_event_type'', (dl_original_event_type e))]))"

definition dl_from_dict :: "json \<Rightarrow> dead_letter res" where
  "dl_from_dict d =
     rbind (str_item d ''source_topic'') (\<lambda>source_topic.
     rbind (str_item d ''failure_stage'') (\<lambda>failure_stage.
     rbind (str_item d ''failure_status'') (\<lambda>failure_status.
     rbind (opt_str_get d ''error'') (\<lambda>error.
     rbind (iso_item d ''occurred_at'') (\<lambda>occurred_at.
     rbind (str_item d ''source_payload_b64'') (\<lambda>source_payload_b64.
     rbind (jget d ''original_request_id'' JNull) (\<lambda>original_request_id.
     rbind (jget d ''original_job_id'' JNull) (\<lambda>original_job_id.
     rbind (jget d ''original_correlation_id'' JNull) (\<lambda>original_correlation_id.
     rbind (opt_int_get d ''attempt_count'') (\<lambda>attempt_count.
     rbind (opt_int_get d ''max_attempts'') (\<lambda>max_attempts.
     rbind (jget d ''original_event_type'' JNull) (\<lambda>original_event_type.
     rbind (str_get d ''event_type'' ''event.dlq'') (\<lambda>event_type.
     rbind (int_get d ''event_version'' 1) (\<lambda>event_version.
     Inr \<lparr>dl_event_type = event_type, dl_event_version = event_version,
        dl_source_topic = source_topic, dl_failure_stage = failure_stage,
        dl_failure_status = failure_status, dl_error = error,
        dl_occurred_at = occurred_at, dl_source_payload_b64 = source_payload_b64,
        dl_original_request_id = original_request_id,
        dl_original_job_id = original_job_id,
        dl_original_correlation_id = original_correlation_id,
        dl_attempt_count = attempt_count, dl_max_attempts = max_attempts,
        dl_original_event_type = original_event_type\<rparr>))))))))))))))"

definition dl_wf :: "dead_letter \<Rightarrow> bool" where
  "dl_wf e \<longleftrightarrow>
     stamp (dl_occurred_at e)
     \<and> json_plain (dl_original_request_id e)
     \<and> json_plain (dl_original_job_id e)
     \<and> json_plain (dl_original_correlation_id e)
     \<and> json_plain (dl_original_event_type e)"

definition dl_normal :: "dead_letter \<Rightarrow> dead_letter" where
  "dl_normal e = e\<lparr>dl_original_request_id := sort_keys (dl_original_request_id e), dl_original_job_id := sort_keys (dl_original_job_id e), dl_original_correlation_id := sort_keys (dl_original_correlation_id e), dl_original_event_type := sort_keys (dl_original_event_type e)\<rparr>"

lemma dl_written:
  assumes "dl_wf e"
  shows "\<exists>d. dl_to_dict e = Inr d \<and> json_plain d \<and> dl_from_dict (sort_keys d) = Inr (dl_normal e)"
  using assms unfolding dl_to_dict_def dl_from_dict_def dl_wf_def dl_normal_def field_reads
  by simp

interpretation dl: codec dl_to_dict dl_from_dict dl_wf dl_normal
  by (unfold_locales, erule dl_written) (simp_all add: dl_wf_def dl_normal_def)

section \<open>The idempotency key of a compute request\<close>

definition build_idempotency_key ::
    "hasher \<Rightarrow> entity_ref \<Rightarrow> string list \<Rightarrow> string list \<Rightarrow> report_descriptor list \<Rightarrow> string res" where
  "build_idempotency_key H entity feature_groups features reports =
     rbind (json_dumps (float_repr H) plain_style
              (JObj [(''entity'', er_to_dict entity),
                     (''groups'', of_str_list (sort feature_groups)),
                     (''features'', of_str_list (sort features)),
                     (''reports'', of_str_list (sort (map rd_content_hash reports)))])) (\<lambda>digest_src.
     rbind (er_encoded entity) (\<lambda>key.
     let short = take 16 (sha256_hex H digest_src);
         joined = py_join ''|'' (sort feature_groups);
         gs = (if joined = [] then ''-'' else joined)
     in Inr (er_type entity @ '':'' @ key @ '':'' @ gs @ '':'' @ short)))"

text \<open>The key reads neither the order of the request nor that of the entity's parts.\<close>

lemma str_dict_dumps:
  "json_dumps repr st (of_str_dict d) = Inr (''{'' @ py_join (item_sep st)
     (map (\<lambda>(k, s). quote (ensure_ascii st) k @ key_sep st @ quote (ensure_ascii st) s) (sort_key fst d)) @ ''}'')"
proof -
  have "map_res (\<lambda>(k, v). rbind (json_dumps repr st v) (\<lambda>t. Inr (k, t))) (map (\<lambda>(k, s). (k, JStr s)) d)
      = Inr (map (\<lambda>(k, s). (k, quote (ensure_ascii st) s)) d)"
    by (intro map_res_read_back) auto
  then show ?thesis by (simp add: of_str_dict_def sort_key_map case_prod_unfold comp_def)
qed

lemma idempotency_key_perm:
  assumes "er_type e = er_type e'" "mset (er_key e) = mset (er_key e')" "dict_wf (er_key e)"
    "mset gs = mset gs'" "mset fs = mset fs'"
    "mset (map rd_content_hash rs) = mset (map rd_content_hash rs')"
    "build_idempotency_key H e gs fs rs = Inr k"
  shows "build_idempotency_key H e' gs' fs' rs' = Inr k"
proof -
  have s: "sort gs = sort gs'" "sort fs = sort fs'"
    "sort (map rd_content_hash rs) = sort (map rd_content_hash rs')"
    using assms(4-6) by (auto intro: sort_mset_cong)
  have p: "sort_key fst (er_key e) = sort_key fst (er_key e')"
    using assms(2,3) by (intro sort_key_perm) (simp_all add: dict_keys_def)
  have dumps: "json_dumps (float_repr H) plain_style (er_to_dict e)
      = json_dumps (float_repr H) plain_style (er_to_dict e')"
    by (simp add: er_to_dict_def str_dict_dumps assms(1) p)
  obtain key where key: "er_encoded e = Inr key" using assms(7) by (auto simp: build_idempotency_key_def)
  have dk: "dict_index (er_key e') = dict_index (er_key e)"
    using p by (metis (no_types, lifting) dict_index_def ext map_of_sort_key_fst)
  have "sort (dict_keys (er_key e')) = sort (dict_keys (er_key e))"
    using assms(2) by (intro sort_mset_cong) (simp add: dict_keys_def)
  moreover have "set (er_key e') = set (er_key e)" using assms(2) by (metis mset_eq_setD)
  moreover have "er_key e' = [] \<longleftrightarrow> er_key e = []" using assms(2) by auto
  ultimately have "er_encoded e' = Inr key"
    using key by (auto simp: er_encoded_def encode_entity_key_def dk)
  with assms(7) key show ?thesis by (simp add: build_idempotency_key_def dumps s assms(1))
qed

end
