(* ===== verification/RequestStatus.thy ===== *)
theory RequestStatus
  imports Events
begin

text \<open>
  The projections of one feature request: its operational status
  (fs_core/stores/request_status.py) and its own computed values
  (fs_core/stores/request_result.py), each with the in-memory and the Valkey store. The clock is
  a parameter.
\<close>

section \<open>The status of a request\<close>

record request_status =
  rq_request_id :: string
  rq_job_id :: string
  rq_status :: string
  rq_entity_type :: string
  rq_entity_key :: "(string, string) dict"
  rq_view :: string
  rq_view_version :: int
  rq_created_at :: datetime
  rq_updated_at :: datetime
  rq_features :: "string list"
  rq_groups :: "string list"
  rq_online_write_status :: "string option"
  rq_offline_write_status :: "string option"
  rq_metadata_write_status :: "string option"
  rq_started_at :: "datetime option"
  rq_finished_at :: "datetime option"
  rq_error :: "string option"

definition mk_request_status :: "request_status \<Rightarrow> request_status res" where
  "mk_request_status s =
     rbind (require_aware (rq_created_at s)) (\<lambda>_.
     rbind (require_aware (rq_updated_at s)) (\<lambda>_.
     rbind (require_aware_opt (rq_started_at s)) (\<lambda>_.
     rbind (require_aware_opt (rq_finished_at s)) (\<lambda>_. Inr s))))"

definition rq_to_dict :: "request_status \<Rightarrow> json" where
  "rq_to_dict s = JObj
     [(''request_id'', JStr (rq_request_id s)),
      (''job_id'', JStr (rq_job_id s)),
      (''status'', JStr (rq_status s)),
      (''entity_type'', JStr (rq_entity_type s)),
      (''entity_key'', of_str_dict (rq_entity_key s)),
      (''view'', JStr (rq_view s)),
      (''view_version'', JInt (rq_view_version s)),
      (''requested_features'', of_str_list (rq_features s)),
      (''requested_feature_groups'', of_str_list (rq_groups s)),
      (''online_write_status'', of_opt JStr (rq_online_write_status s)),
      (''offline_write_status'', of_opt JStr (rq_offline_write_status s)),
      (''metadata_write_status'', of_opt JStr (rq_metadata_write_status s)),
      (''created_at'', of_iso (rq_created_at s)),
      (''updated_at'', of_iso (rq_updated_at s)),
      (''started_at'', of_opt of_iso (rq_started_at s)),
      (''finished_at'', of_opt of_iso (rq_finished_at s)),
      (''error'', of_opt JStr (rq_error s))]"

definition rq_from_dict :: "json \<Rightarrow> request_status res" where
  "rq_from_dict d =
     rbind (str_item d ''request_id'') (\<lambda>request_id.
     rbind (str_item d ''job_id'') (\<lambda>job_id.
     rbind (str_item d ''status'') (\<lambda>status.
     rbind (str_item d ''entity_type'') (\<lambda>entity_type.
     rbind (str_dict_item d ''entity_key'') (\<lambda>entity_key.
     rbind (str_item d ''view'') (\<lambda>view.
     rbind (int_item d ''view_version'') (\<lambda>view_version.
     rbind (str_list_get d ''requested_features'') (\<lambda>features.
     rbind (str_list_get d ''requested_feature_groups'') (\<lambda>groups.
     rbind (opt_str_get d ''online_write_status'') (\<lambda>online.
     rbind (opt_str_get d ''offline_write_status'') (\<lambda>offline.
     rbind (opt_str_get d ''metadata_write_status'') (\<lambda>metadata.
     rbind (iso_item d ''created_at'') (\<lambda>created_at.
     rbind (iso_item d ''updated_at'') (\<lambda>updated_at.
     rbind (opt_iso_get d ''started_at'') (\<lambda>started_at.
     rbind (opt_iso_get d ''finished_at'') (\<lambda>finished_at.
     rbind (opt_str_get d ''error'') (\<lambda>err.
     mk_request_status \<lparr>rq_request_id = request_id, rq_job_id = job_id, rq_status = status,
        rq_entity_type = entity_type, rq_entity_key = entity_key, rq_view = view,
        rq_view_version = view_version, rq_created_at = created_at, rq_updated_at = updated_at,
        rq_features = features, rq_groups = groups, rq_online_write_status = online,
        rq_offline_write_status = offline, rq_metadata_write_status = metadata,
        rq_started_at = started_at, rq_finished_at = finished_at, rq_error = err\<rparr>)))))))))))))))))"

definition rq_wf :: "request_status \<Rightarrow> bool" where
  "rq_wf s \<longleftrightarrow>
     stamp (rq_created_at s) \<and> stamp (rq_updated_at s) \<and> stamp_opt (rq_started_at s)
     \<and> stamp_opt (rq_finished_at s)"

definition rq_normal :: "request_status \<Rightarrow> request_status" where
  "rq_normal s = s\<lparr>rq_entity_key := sort_key fst (rq_entity_key s)\<rparr>"

lemma aware_opt_stamp: "stamp_opt t \<Longrightarrow> require_aware_opt t = Inr ()"
  by (cases t) (simp_all add: stamp_opt_def stamp_def)

lemma mk_request_status_wf: "rq_wf s \<Longrightarrow> mk_request_status s = Inr s"
  by (simp add: rq_wf_def mk_request_status_def aware_opt_stamp stamp_def)

lemma rq_read:
  assumes "rq_wf s"
  shows "rq_from_dict (sort_keys (rq_to_dict s)) = Inr (rq_normal s)"
  using assms unfolding rq_from_dict_def rq_to_dict_def rq_wf_def rq_normal_def field_reads
  by (simp add: mk_request_status_wf rq_wf_def)

lemma rq_plain: "json_plain (rq_to_dict s)"
  by (simp add: rq_to_dict_def)

interpretation rq: codec "\<lambda>s. Inr (rq_to_dict s)" rq_from_dict rq_wf rq_normal
  by unfold_locales (simp_all add: rq_read rq_plain, simp_all add: rq_normal_def rq_wf_def)

section \<open>Updates\<close>

text \<open>
  The keyword arguments of \<^verbatim>\<open>update\<close>: one constructor per field of the status, and one for
  names that are no fields, which the code ignores. \<^verbatim>\<open>request_id\<close> is the method's own argument.
\<close>

datatype status_change =
    ChJobId string
  | ChStatus string
  | ChEntityType string
  | ChEntityKey "(string, string) dict"
  | ChView string
  | ChViewVersion int
  | ChCreatedAt datetime
  | ChUpdatedAt datetime
  | ChFeatures "string list"
  | ChGroups "string list"
  | ChOnline "string option"
  | ChOffline "string option"
  | ChMetadata "string option"
  | ChStartedAt "datetime option"
  | ChFinishedAt "datetime option"
  | ChError "string option"
  | ChUnknown string

fun change_field :: "status_change \<Rightarrow> string" where
  "change_field (ChJobId _) = ''job_id''"
| "change_field (ChStatus _) = ''status''"
| "change_field (ChEntityType _) = ''entity_type''"
| "change_field (ChEntityKey _) = ''entity_key''"
| "change_field (ChView _) = ''view''"
| "change_field (ChViewVersion _) = ''view_version''"
| "change_field (ChCreatedAt _) = ''created_at''"
| "change_field (ChUpdatedAt _) = ''updated_at''"
| "change_field (ChFeatures _) = ''requested_features''"
| "change_field (ChGroups _) = ''requested_feature_groups''"
| "change_field (ChOnline _) = ''online_write_status''"
| "change_field (ChOffline _) = ''offline_write_status''"
| "change_field (ChMetadata _) = ''metadata_write_status''"
| "change_field (ChStartedAt _) = ''started_at''"
| "change_field (ChFinishedAt _) = ''finished_at''"
| "change_field (ChError _) = ''error''"
| "change_field (ChUnknown name) = name"

fun set_field :: "status_change \<Rightarrow> request_status \<Rightarrow> request_status" where
  "set_field (ChJobId v) s = s\<lparr>rq_job_id := v\<rparr>"
| "set_field (ChStatus v) s = s\<lparr>rq_status := v\<rparr>"
| "set_field (ChEntityType v) s = s\<lparr>rq_entity_type := v\<rparr>"
| "set_field (ChEntityKey v) s = s\<lparr>rq_entity_key := v\<rparr>"
| "set_field (ChView v) s = s\<lparr>rq_view := v\<rparr>"
| "set_field (ChViewVersion v) s = s\<lparr>rq_view_version := v\<rparr>"
| "set_field (ChCreatedAt v) s = s\<lparr>rq_created_at := v\<rparr>"
| "set_field (ChUpdatedAt v) s = s\<lparr>rq_updated_at := v\<rparr>"
| "set_field (ChFeatures v) s = s\<lparr>rq_features := v\<rparr>"
| "set_field (ChGroups v) s = s\<lparr>rq_groups := v\<rparr>"
| "set_field (ChOnline v) s = s\<lparr>rq_online_write_status := v\<rparr>"
| "set_field (ChOffline v) s = s\<lparr>rq_offline_write_status := v\<rparr>"
| "set_field (ChMetadata v) s = s\<lparr>rq_metadata_write_status := v\<rparr>"
| "set_field (ChStartedAt v) s = s\<lparr>rq_started_at := v\<rparr>"
| "set_field (ChFinishedAt v) s = s\<lparr>rq_finished_at := v\<rparr>"
| "set_field (ChError v) s = s\<lparr>rq_error := v\<rparr>"
| "set_field (ChUnknown _) s = s"

definition change_fields :: "status_change list \<Rightarrow> string list" where
  "change_fields changes = map change_field changes"

text \<open>\<^verbatim>\<open>allowed.setdefault(name, now)\<close>.\<close>

definition default_change :: "status_change \<Rightarrow> status_change list \<Rightarrow> status_change list" where
  "default_change d changes =
     (if change_field d \<in> set (change_fields changes) then changes else changes @ [d])"

definition apply_changes :: "datetime \<Rightarrow> request_status \<Rightarrow> status_change list \<Rightarrow> request_status res" where
  "apply_changes now existing changes =
     mk_request_status (fold set_field (default_change (ChUpdatedAt now) changes) existing)"

definition create_required :: "string list" where
  "create_required = [''job_id'', ''status'', ''entity_type'', ''entity_key'', ''view'', ''view_version'']"

text \<open>The record that the keyword arguments of the constructor fill: the dataclass defaults.\<close>

definition blank_status :: "string \<Rightarrow> datetime \<Rightarrow> request_status" where
  "blank_status request_id now =
     \<lparr>rq_request_id = request_id, rq_job_id = [], rq_status = [], rq_entity_type = [],
      rq_entity_key = [], rq_view = [], rq_view_version = 0, rq_created_at = now,
      rq_updated_at = now, rq_features = [], rq_groups = [], rq_online_write_status = None,
      rq_offline_write_status = None, rq_metadata_write_status = None, rq_started_at = None,
      rq_finished_at = None, rq_error = None\<rparr>"

definition maybe_create :: "datetime \<Rightarrow> string \<Rightarrow> status_change list \<Rightarrow> request_status option res" where
  "maybe_create now request_id changes =
     (if \<not> (\<forall>k \<in> set create_required. k \<in> set (change_fields changes)) then Inr None
      else rbind (mk_request_status
             (fold set_field
                (default_change (ChUpdatedAt now) (default_change (ChCreatedAt now) changes))
                (blank_status request_id now)))
             (\<lambda>s. Inr (Some s)))"

section \<open>The stores\<close>

type_synonym status_mem = "string \<rightharpoonup> request_status"

definition rm_put :: "status_mem \<Rightarrow> request_status \<Rightarrow> status_mem" where
  "rm_put m s = m(rq_request_id s \<mapsto> s)"

definition rm_get :: "status_mem \<Rightarrow> string \<Rightarrow> request_status option" where
  "rm_get m request_id = m request_id"

definition rm_update ::
    "datetime \<Rightarrow> status_mem \<Rightarrow> string \<Rightarrow> status_change list \<Rightarrow> (request_status option \<times> status_mem) res" where
  "rm_update now m request_id changes =
     (case m request_id of
        None \<Rightarrow>
          rbind (maybe_create now request_id changes) (\<lambda>created.
          case created of
            None \<Rightarrow> Inr (None, m)
          | Some s \<Rightarrow> Inr (Some s, m(request_id \<mapsto> s)))
      | Some existing \<Rightarrow>
          rbind (apply_changes now existing changes) (\<lambda>merged.
          Inr (Some merged, m(request_id \<mapsto> merged))))"

definition status_key :: "string \<Rightarrow> string" where
  "status_key request_id = ''fs:request-status:'' @ request_id"

definition rv_put :: "(pyfloat \<Rightarrow> string) \<Rightarrow> snapshots \<Rightarrow> request_status \<Rightarrow> snapshots res" where
  "rv_put repr db s =
     rbind (encode_json repr (rq_to_dict s)) (\<lambda>d. Inr (db(status_key (rq_request_id s) \<mapsto> d)))"

definition rv_get :: "snapshots \<Rightarrow> string \<Rightarrow> request_status option res" where
  "rv_get db request_id =
     (case db (status_key request_id) of
        None \<Rightarrow> Inr None
      | Some raw \<Rightarrow> rbind (rq_from_dict raw) (\<lambda>s. Inr (Some s)))"

text \<open>The part of \<^verbatim>\<open>update\<close> after its read: what to put, computed from the status that was read.\<close>

definition rv_next ::
    "datetime \<Rightarrow> string \<Rightarrow> status_change list \<Rightarrow> request_status option \<Rightarrow> request_status option res" where
  "rv_next now request_id changes existing =
     (case existing of
        None \<Rightarrow> maybe_create now request_id changes
      | Some e \<Rightarrow> rbind (apply_changes now e changes) (\<lambda>s. Inr (Some s)))"

definition rv_update ::
    "(pyfloat \<Rightarrow> string) \<Rightarrow> datetime \<Rightarrow> snapshots \<Rightarrow> string \<Rightarrow> status_change list
      \<Rightarrow> (request_status option \<times> snapshots) res" where
  "rv_update repr now db request_id changes =
     rbind (rv_get db request_id) (\<lambda>existing.
     rbind (rv_next now request_id changes existing) (\<lambda>s.
     case s of
       None \<Rightarrow> Inr (None, db)
     | Some x \<Rightarrow> rbind (rv_put repr db x) (\<lambda>db'. Inr (Some x, db'))))"

interpretation rm: snapshot_store "\<lambda>m s. Inr (rm_put m s)" "\<lambda>m i. Inr (rm_get m i)" rq_request_id "\<lambda>_. True" "\<lambda>s. s"
  by unfold_locales (auto simp: rm_put_def rm_get_def)

lemma status_key_inj [simp]: "status_key i = status_key i' \<longleftrightarrow> i = i'"
  by (simp add: status_key_def)

lemma encode_status: "encode_json repr (rq_to_dict s) = Inr (sort_keys (rq_to_dict s))"
  by (simp add: rq_plain)

interpretation rv: snapshot_store "rv_put repr" rv_get rq_request_id rq_wf rq_normal
  by unfold_locales (auto simp: rv_put_def rv_get_def encode_status rq_read)

section \<open>What an update does\<close>

fun change_ok :: "status_change \<Rightarrow> bool" where
  "change_ok (ChCreatedAt t) = stamp t"
| "change_ok (ChUpdatedAt t) = stamp t"
| "change_ok (ChStartedAt t) = stamp_opt t"
| "change_ok (ChFinishedAt t) = stamp_opt t"
| "change_ok _ = True"

lemma set_field_id [simp]: "rq_request_id (set_field c s) = rq_request_id s"
  by (cases c) simp_all

lemma set_fields_id [simp]: "rq_request_id (fold set_field cs s) = rq_request_id s"
  by (induction cs arbitrary: s) simp_all

lemma set_field_wf: "rq_wf s \<Longrightarrow> change_ok c \<Longrightarrow> rq_wf (set_field c s)"
  by (cases c) (simp_all add: rq_wf_def)

lemma set_fields_wf: "rq_wf s \<Longrightarrow> \<forall>c \<in> set cs. change_ok c \<Longrightarrow> rq_wf (fold set_field cs s)"
  by (induction cs arbitrary: s) (simp_all add: set_field_wf)

lemma set_field_normal: "rq_normal (set_field c (rq_normal s)) = rq_normal (set_field c s)"
  by (cases c) (simp_all add: rq_normal_def)

lemma set_fields_normal: "rq_normal (fold set_field cs (rq_normal s)) = rq_normal (fold set_field cs s)"
proof (induction cs arbitrary: s)
  case (Cons c cs)
  show ?case using Cons.IH[of "set_field c (rq_normal s)"] Cons.IH[of "set_field c s"]
    by (simp add: set_field_normal)
qed (simp add: rq_normal_def)

lemma default_change_ok: "\<forall>c \<in> set cs. change_ok c \<Longrightarrow> change_ok d \<Longrightarrow> \<forall>c \<in> set (default_change d cs). change_ok c"
  by (auto simp: default_change_def)

lemma apply_changes_ok:
  assumes "rq_wf s" "\<forall>c \<in> set changes. change_ok c" "stamp now"
  shows "apply_changes now s changes = Inr (fold set_field (default_change (ChUpdatedAt now) changes) s)"
    and "rq_wf (fold set_field (default_change (ChUpdatedAt now) changes) s)"
proof -
  show wf: "rq_wf (fold set_field (default_change (ChUpdatedAt now) changes) s)"
    using assms by (intro set_fields_wf default_change_ok) auto
  then show "apply_changes now s changes = Inr (fold set_field (default_change (ChUpdatedAt now) changes) s)"
    by (simp add: apply_changes_def mk_request_status_wf)
qed

lemma maybe_create_ok:
  assumes "\<forall>c \<in> set changes. change_ok c" "stamp now"
  shows "\<exists>r. maybe_create now request_id changes = Inr r
    \<and> (\<forall>s. r = Some s \<longrightarrow> rq_wf s \<and> rq_request_id s = request_id)
    \<and> (r = None \<longleftrightarrow> \<not> set create_required \<subseteq> set (change_fields changes))"
proof -
  let ?s = "fold set_field (default_change (ChUpdatedAt now) (default_change (ChCreatedAt now) changes))
    (blank_status request_id now)"
  have "rq_wf ?s"
    using assms by (intro set_fields_wf default_change_ok) (auto simp: rq_wf_def blank_status_def stamp_opt_def)
  moreover have "rq_request_id ?s = request_id" by (simp add: blank_status_def)
  ultimately show ?thesis
    by (auto simp: maybe_create_def mk_request_status_wf subset_iff)
qed

section \<open>The Valkey store implements the in-memory store\<close>

definition status_stored :: "snapshots \<Rightarrow> status_mem \<Rightarrow> bool" where
  "status_stored db m \<longleftrightarrow>
     (\<forall>i. db (status_key i) = map_option (\<lambda>s. sort_keys (rq_to_dict s)) (m i))
     \<and> (\<forall>i s. m i = Some s \<longrightarrow> rq_wf s \<and> rq_request_id s = i)"

lemma rq_text_normal: "sort_keys (rq_to_dict (rq_normal s)) = sort_keys (rq_to_dict s)"
  unfolding rq_to_dict_def by (simp add: sort_keys.simps(2)) (simp add: rq_normal_def)

lemma rq_text_cong: "rq_normal s = rq_normal s' \<Longrightarrow> sort_keys (rq_to_dict s) = sort_keys (rq_to_dict s')"
  by (metis rq_text_normal)

lemma status_put_simulation:
  assumes "status_stored db m" "rq_wf s"
  shows "\<exists>db'. rv_put repr db s = Inr db' \<and> status_stored db' (rm_put m s)"
  using assms by (auto simp: status_stored_def rv_put_def rm_put_def encode_status)

lemma status_get_simulation:
  assumes "status_stored db m"
  shows "rv_get db i = Inr (map_option rq_normal (rm_get m i))"
  using assms by (cases "m i") (auto simp: status_stored_def rv_get_def rm_get_def rq_read)

lemma status_update_simulation:
  assumes "status_stored db m" "\<forall>c \<in> set changes. change_ok c" "stamp now"
  shows "\<exists>r r' m' db'. rm_update now m i changes = Inr (r, m') \<and> rv_update repr now db i changes = Inr (r', db')
    \<and> map_option rq_normal r' = map_option rq_normal r \<and> status_stored db' m'"
proof (cases "m i")
  case None
  have g: "rv_get db i = Inr None" using status_get_simulation[OF assms(1)] None by (simp add: rm_get_def)
  obtain r where r: "maybe_create now i changes = Inr r" "\<forall>s. r = Some s \<longrightarrow> rq_wf s \<and> rq_request_id s = i"
    using maybe_create_ok[OF assms(2,3)] by blast
  show ?thesis
  proof (cases r)
    case None
    with g r assms(1) \<open>m i = None\<close> show ?thesis by (simp add: rm_update_def rv_update_def rv_next_def)
  next
    case (Some s)
    with r assms(1) have "status_stored (db(status_key i \<mapsto> sort_keys (rq_to_dict s))) (m(i \<mapsto> s))"
      by (auto simp: status_stored_def)
    with g r Some \<open>m i = None\<close> show ?thesis
      by (simp add: rm_update_def rv_update_def rv_next_def rv_put_def encode_status)
  qed
next
  case (Some e)
  let ?cs = "default_change (ChUpdatedAt now) changes"
  have e: "rq_wf e" "rq_request_id e = i" "rq_wf (rq_normal e)"
    using assms(1) Some by (auto simp: status_stored_def rq.wf_normal)
  have g: "rv_get db i = Inr (Some (rq_normal e))" using status_get_simulation[OF assms(1)] Some by (simp add: rm_get_def)
  have n: "rq_normal (fold set_field ?cs (rq_normal e)) = rq_normal (fold set_field ?cs e)"
    by (rule set_fields_normal)
  have "status_stored (db(status_key i \<mapsto> sort_keys (rq_to_dict (fold set_field ?cs (rq_normal e)))))
      (m(i \<mapsto> fold set_field ?cs e))"
    using assms(1) e(2) apply_changes_ok(2)[OF e(1) assms(2,3)] rq_text_cong[OF n]
    by (auto simp: status_stored_def)
  then show ?thesis
    using g Some n e(2) apply_changes_ok(1)[OF e(1) assms(2,3)] apply_changes_ok(1)[OF e(3) assms(2,3)]
    by (simp add: rm_update_def rv_update_def rv_next_def rv_put_def encode_status) (simp add: rq_normal_def)
qed

section \<open>Interleaved updates\<close>

text \<open>
  \<^verbatim>\<open>update\<close> reads and writes in two commands, without a transaction. When two workers read the
  same status, the second write takes the first one's changes back.
\<close>

lemma interleaved_updates:
  assumes "rv_get db i = Inr (Some e)" "rq_wf e" "rq_request_id e = i"
    and "\<forall>c \<in> set cs1 \<union> set cs2. change_ok c" "stamp t1" "stamp t2"
  shows "\<exists>s1 s2 db1 db2. rv_next t1 i cs1 (Some e) = Inr (Some s1) \<and> rv_next t2 i cs2 (Some e) = Inr (Some s2)
    \<and> rv_put repr db s1 = Inr db1 \<and> rv_put repr db1 s2 = Inr db2
    \<and> rv_get db2 i = Inr (Some (rq_normal (fold set_field (default_change (ChUpdatedAt t2) cs2) e)))"
proof -
  have "\<forall>c \<in> set cs1. change_ok c" "\<forall>c \<in> set cs2. change_ok c" using assms(4) by auto
  from apply_changes_ok[OF assms(2) this(1) assms(5)] apply_changes_ok[OF assms(2) this(2) assms(6)]
  show ?thesis
    by (simp add: rv_next_def rv_put_def encode_status rv_get_def assms(3) rq_read)
qed

section \<open>The result of a request\<close>

record request_result =
  rr_request_id :: string
  rr_view :: string
  rr_view_version :: int
  rr_entity_key :: "(string, string) dict"
  rr_features :: "(string, (string, json) dict) dict"
  rr_created_at :: datetime

definition mk_request_result :: "request_result \<Rightarrow> request_result res" where
  "mk_request_result r = rbind (require_aware (rr_created_at r)) (\<lambda>_. Inr r)"

definition result_item :: "(string, string) dict \<Rightarrow> feature_result \<Rightarrow> (string, json) dict" where
  "result_item online_written r =
     [(''feature_version'', JInt (fr_version (r_ref r))),
      (''value'', r_value r),
      (''data_ts'', of_iso (r_data_ts r)),
      (''max_input_data_ts'', of_opt of_iso (r_max_input_data_ts r)),
      (''calc_ts'', of_iso (r_calc_ts r)),
      (''input_fingerprint'', of_opt JStr (r_input_fingerprint r)),
      (''value_hash'', of_opt JStr (r_value_hash r)),
      (''online_write_status'', of_opt JStr (map_of online_written (ref_text (r_ref r))))]"

definition rr_from_write_set ::
    "datetime \<Rightarrow> string \<Rightarrow> write_set \<Rightarrow> (string, string) dict \<Rightarrow> datetime option \<Rightarrow> request_result res" where
  "rr_from_write_set now request_id ws online_written created_at =
     mk_request_result \<lparr>rr_request_id = request_id, rr_view = ws_view ws,
       rr_view_version = ws_view_version ws, rr_entity_key = dict_of (ek_parts (ws_entity_key ws)),
       rr_features = map (\<lambda>(n, r). (n, result_item online_written r)) (ws_results ws),
       rr_created_at = (case created_at of Some t \<Rightarrow> t | None \<Rightarrow> now)\<rparr>"

definition rr_to_dict :: "request_result \<Rightarrow> json" where
  "rr_to_dict r = JObj
     [(''request_id'', JStr (rr_request_id r)),
      (''view'', JStr (rr_view r)),
      (''view_version'', JInt (rr_view_version r)),
      (''entity_key'', of_str_dict (rr_entity_key r)),
      (''features'', of_obj_dict (rr_features r)),
      (''created_at'', of_iso (rr_created_at r))]"

definition rr_from_dict :: "json \<Rightarrow> request_result res" where
  "rr_from_dict d =
     rbind (str_item d ''request_id'') (\<lambda>request_id.
     rbind (str_item d ''view'') (\<lambda>view.
     rbind (int_item d ''view_version'') (\<lambda>view_version.
     rbind (str_dict_item d ''entity_key'') (\<lambda>entity_key.
     rbind (rbind (jitem d ''features'') as_obj_dict) (\<lambda>features.
     rbind (iso_item d ''created_at'') (\<lambda>created_at.
     mk_request_result \<lparr>rr_request_id = request_id, rr_view = view, rr_view_version = view_version,
        rr_entity_key = entity_key, rr_features = features, rr_created_at = created_at\<rparr>))))))"

definition rr_wf :: "request_result \<Rightarrow> bool" where
  "rr_wf r \<longleftrightarrow> stamp (rr_created_at r) \<and> json_plain (of_obj_dict (rr_features r))"

definition rr_normal :: "request_result \<Rightarrow> request_result" where
  "rr_normal r = r\<lparr>rr_entity_key := sort_key fst (rr_entity_key r), rr_features := sort_obj_dict (rr_features r)\<rparr>"

lemma rr_read:
  assumes "rr_wf r"
  shows "rr_from_dict (sort_keys (rr_to_dict r)) = Inr (rr_normal r)"
  using assms unfolding rr_from_dict_def rr_to_dict_def rr_wf_def rr_normal_def field_reads
  by (simp add: mk_request_result_def stamp_def)

lemma rr_plain: "rr_wf r \<Longrightarrow> json_plain (rr_to_dict r)"
  by (simp add: rr_to_dict_def rr_wf_def)

interpretation rr: codec "\<lambda>r. Inr (rr_to_dict r)" rr_from_dict rr_wf rr_normal
  by unfold_locales (simp_all add: rr_read rr_plain, simp_all add: rr_normal_def rr_wf_def)

definition rrm_put :: "(string \<rightharpoonup> request_result) \<Rightarrow> request_result \<Rightarrow> string \<rightharpoonup> request_result" where
  "rrm_put m r = m(rr_request_id r \<mapsto> r)"

definition rrm_get :: "(string \<rightharpoonup> request_result) \<Rightarrow> string \<Rightarrow> request_result option" where
  "rrm_get m request_id = m request_id"

interpretation rrm: snapshot_store "\<lambda>m r. Inr (rrm_put m r)" "\<lambda>m i. Inr (rrm_get m i)" rr_request_id "\<lambda>_. True" "\<lambda>r. r"
  by unfold_locales (auto simp: rrm_put_def rrm_get_def)

definition result_key :: "string \<Rightarrow> string" where
  "result_key request_id = ''fs:request-result:'' @ request_id"

definition rrv_put :: "(pyfloat \<Rightarrow> string) \<Rightarrow> snapshots \<Rightarrow> request_result \<Rightarrow> snapshots res" where
  "rrv_put repr db r =
     rbind (encode_json repr (rr_to_dict r)) (\<lambda>d. Inr (db(result_key (rr_request_id r) \<mapsto> d)))"

definition rrv_get :: "snapshots \<Rightarrow> string \<Rightarrow> request_result option res" where
  "rrv_get db request_id =
     (case db (result_key request_id) of
        None \<Rightarrow> Inr None
      | Some raw \<Rightarrow> rbind (rr_from_dict raw) (\<lambda>r. Inr (Some r)))"

lemma result_key_inj [simp]: "result_key i = result_key i' \<longleftrightarrow> i = i'"
  by (simp add: result_key_def)

interpretation rrv: snapshot_store "rrv_put repr" rrv_get rr_request_id rr_wf rr_normal
  by unfold_locales (auto simp: rrv_put_def rrv_get_def rr_plain rr_read)

text \<open>What a client reads of one feature of its own request.\<close>

definition served_value :: "request_result \<Rightarrow> string \<Rightarrow> json option" where
  "served_value r name =
     (case map_of (rr_features r) name of None \<Rightarrow> None | Some item \<Rightarrow> map_of item ''value'')"

lemma served_value_normal: "served_value (rr_normal r) name = map_option sort_keys (served_value r name)"
proof -
  have "map_of (sort_obj_dict fs) name = map_option sort_items (map_of fs name)" for fs
    by (simp add: sort_obj_dict_def map_of_map_values)
  moreover have "map_of (sort_items item) k = map_option sort_keys (map_of item k)" for item k
    by (simp add: sort_items_def map_of_map_values)
  ultimately show ?thesis
    by (simp add: served_value_def rr_normal_def split: option.split)
qed

lemma written_result_wf:
  assumes "write_set_sendable ws" "rr_from_write_set now request_id ws online_written created_at = Inr r"
    "stamp now" "stamp_opt created_at"
  shows "rr_wf r \<and> rr_request_id r = request_id
    \<and> (\<forall>name. served_value r name = map_option r_value (map_of (ws_results ws) name))"
proof -
  have r: "r = \<lparr>rr_request_id = request_id, rr_view = ws_view ws,
       rr_view_version = ws_view_version ws, rr_entity_key = dict_of (ek_parts (ws_entity_key ws)),
       rr_features = map (\<lambda>(n, r). (n, result_item online_written r)) (ws_results ws),
       rr_created_at = (case created_at of Some t \<Rightarrow> t | None \<Rightarrow> now)\<rparr>"
    using assms(2) by (simp add: rr_from_write_set_def mk_request_result_def)
  have "obj_plain (result_item online_written x)" if "json_plain (r_value x)" for x
    using that by (simp add: result_item_def obj_plain_def)
  then have "json_plain (of_obj_dict (rr_features r))"
    using assms(1) by (auto simp: r json_plain_obj_dict write_set_sendable_def)
  moreover have "stamp (rr_created_at r)"
    using assms(3,4) by (cases created_at) (simp_all add: r stamp_opt_def)
  moreover have "served_value r name = map_option r_value (map_of (ws_results ws) name)" for name
    by (simp add: served_value_def r map_of_map_values result_item_def split: option.split)
  ultimately show ?thesis by (simp add: rr_wf_def r)
qed

end
