(* ===== verification/Runtime.thy ===== *)
theory Runtime
  imports BatchEvents RequestStatus FeatureStore
begin

text \<open>
  What the workers run on: the broker with the publisher (fs_core/events/publisher.py), consumed
  messages with their attempt header, and the dead-letter helpers (api/dlq.py). Logging and
  metrics are left out.
\<close>

section \<open>The broker\<close>

text \<open>
  A publish is acknowledged, or raises: then the message may or may not have reached the topic.
  The fates of the coming publishes are the nondeterministic input \<open>br_fates\<close>; after them every
  publish is acknowledged.
\<close>

datatype fate = Acked | Lost | AckLost

type_synonym headers = "(string, string) dict"

record published =
  pb_topic :: string
  pb_key :: string
  pb_doc :: json
  pb_headers :: headers

record broker =
  br_log :: "published list"
  br_fates :: "fate list"

text \<open>The event is serialised first (\<open>doc\<close>); a serialisation error reaches the caller.\<close>

definition publish ::
    "string \<Rightarrow> string \<Rightarrow> json res \<Rightarrow> headers \<Rightarrow> broker \<Rightarrow> unit res \<times> broker" where
  "publish topic key doc headers b =
     (case doc of
        Inl e \<Rightarrow> (Inl e, b)
      | Inr d \<Rightarrow>
          let msg = \<lparr>pb_topic = topic, pb_key = key, pb_doc = d, pb_headers = headers\<rparr>;
              failed = StoreError ''Kafka delivery failed''
          in case br_fates b of
               [] \<Rightarrow> (Inr (), b\<lparr>br_log := br_log b @ [msg]\<rparr>)
             | Acked # fs \<Rightarrow> (Inr (), b\<lparr>br_log := br_log b @ [msg], br_fates := fs\<rparr>)
             | Lost # fs \<Rightarrow> (Inl failed, b\<lparr>br_fates := fs\<rparr>)
             | AckLost # fs \<Rightarrow> (Inl failed, b\<lparr>br_log := br_log b @ [msg], br_fates := fs\<rparr>))"

lemma publish_log:
  "\<exists>ms. br_log (snd (publish topic key doc hs b)) = br_log b @ ms
     \<and> (\<forall>m \<in> set ms. pb_topic m = topic \<and> pb_key m = key \<and> doc = Inr (pb_doc m) \<and> pb_headers m = hs)
     \<and> length ms \<le> 1"
  by (auto simp: publish_def Let_def split: sum.split list.split fate.split)

lemma publish_acked:
  assumes "publish topic key doc hs b = (Inr u, b')"
  shows "\<exists>d. doc = Inr d \<and> br_log b' = br_log b @
    [\<lparr>pb_topic = topic, pb_key = key, pb_doc = d, pb_headers = hs\<rparr>]"
  using assms by (auto simp: publish_def Let_def split: sum.splits list.splits fate.splits)

section \<open>Messages and attempts\<close>

text \<open>
  A consumed message: the error the client reports instead of it, its bytes as JSON (None when
  they do not parse) and in base64, and its headers. Header values are texts.
\<close>

record message =
  msg_error :: "string option"
  msg_doc :: "json option"
  msg_b64 :: string
  msg_headers :: headers

definition attempt_header :: string where
  "attempt_header = ''x-fsp-attempt''"

text \<open>
  \<^verbatim>\<open>int(text)\<close>: surrounding whitespace, a sign, and digits with single underscores between them.
\<close>

fun digits_rest :: "nat \<Rightarrow> string \<Rightarrow> nat option" where
  "digits_rest n [] = Some n"
| "digits_rest n (c # cs) =
     (if is_digit c then digits_rest (10 * n + digit_val c) cs
      else if c = CHR ''_'' then
        (case cs of
           c' # cs' \<Rightarrow> if is_digit c' then digits_rest (10 * n + digit_val c') cs' else None
         | [] \<Rightarrow> None)
      else None)"

definition py_nat :: "string \<Rightarrow> nat option" where
  "py_nat s = (case s of c # cs \<Rightarrow> if is_digit c then digits_rest (digit_val c) cs else None | [] \<Rightarrow> None)"

definition py_int :: "string \<Rightarrow> int option" where
  "py_int s =
     (case py_strip s of
        c # cs \<Rightarrow>
          if c = CHR ''-'' then map_option (\<lambda>n. - int n) (py_nat cs)
          else if c = CHR ''+'' then map_option int (py_nat cs)
          else map_option int (py_nat (c # cs))
      | [] \<Rightarrow> None)"

definition get_attempt :: "headers \<Rightarrow> int" where
  "get_attempt hs =
     (case map_of hs attempt_header of
        None \<Rightarrow> 0
      | Some raw \<Rightarrow> case py_int raw of Some n \<Rightarrow> n | None \<Rightarrow> 0)"

definition next_attempt :: "headers \<Rightarrow> int" where
  "next_attempt hs = get_attempt hs + 1"

definition with_attempt_header :: "headers \<Rightarrow> int \<Rightarrow> headers" where
  "with_attempt_header hs attempt = dict_set attempt_header (int_str attempt) hs"

text \<open>The counter survives its text form.\<close>

lemma digits_rest_digits:
  "\<forall>c \<in> set s. is_digit c \<Longrightarrow> digits_rest n s = Some (foldl (\<lambda>a c. 10 * a + digit_val c) n s)"
  by (induction s arbitrary: n) auto

lemma py_nat_nat_str: "py_nat (nat_str n) = Some n"
proof (cases "nat_str n")
  case (Cons c cs)
  then have "\<forall>x \<in> set (c # cs). is_digit x" using nat_str_digits[of _ n] by simp
  moreover from this have "digits_rest (digit_val c) cs = Some (str_nat (nat_str n))"
    by (simp add: digits_rest_digits Cons str_nat_def)
  ultimately show ?thesis by (simp add: py_nat_def Cons str_nat_nat_str[of n, unfolded Cons])
qed simp

lemma py_strip_id: "\<forall>c \<in> set s. \<not> py_isspace c \<Longrightarrow> py_strip s = s"
proof -
  assume a: "\<forall>c \<in> set s. \<not> py_isspace c"
  have "dropWhile py_isspace t = t" if "\<forall>c \<in> set t. \<not> py_isspace c" for t
    using that by (cases t) auto
  from this[of s] this[of "rev s"] a show ?thesis by (simp add: py_strip_def)
qed

lemma digit_not_space: "is_digit c \<Longrightarrow> \<not> py_isspace c"
  by (auto simp: is_digit_def py_isspace_def Let_def)

lemma py_int_int_str: "py_int (int_str i) = Some i"
proof -
  have "\<not> py_isspace (CHR ''-'')" by (simp add: py_isspace_def)
  then have s: "py_strip (int_str i) = int_str i"
    using int_str_chars[of _ i] digit_not_space by (intro py_strip_id) blast
  show ?thesis
  proof (cases "i < 0")
    case True
    then show ?thesis by (simp add: py_int_def s) (simp add: int_str_def py_nat_nat_str)
  next
    case False
    obtain c cs where c: "nat_str (nat i) = c # cs" by (cases "nat_str (nat i)") auto
    then have "is_digit c" using nat_str_digits[of c "nat i"] by simp
    then have "c \<noteq> CHR ''-''" "c \<noteq> CHR ''+''" by (auto simp: is_digit_def)
    moreover have "int_str i = c # cs" using False c by (simp add: int_str_def)
    moreover have "py_nat (c # cs) = Some (nat i)" using py_nat_nat_str[of "nat i"] c by simp
    ultimately show ?thesis using False s by (simp add: py_int_def)
  qed
qed

lemma get_attempt_with [simp]: "get_attempt (with_attempt_header hs n) = n"
  by (simp add: get_attempt_def with_attempt_header_def py_int_int_str)

section \<open>Dead letters and retries\<close>

definition poison_statuses :: "string list" where
  "poison_statuses = [''deserialization_failed'', ''invalid_event'']"

definition is_poison :: "string \<Rightarrow> bool" where
  "is_poison status \<longleftrightarrow> status \<in> set poison_statuses"

text \<open>Python's truth of a parsed value, and \<^verbatim>\<open>parsed.get(a) or parsed.get(b)\<close>.\<close>

fun truthy :: "json \<Rightarrow> bool" where
  "truthy JNull = False"
| "truthy (JBool b) = b"
| "truthy (JInt i) = (i \<noteq> 0)"
| "truthy (JFloat f) = (f \<noteq> NegZero \<and> f \<noteq> Ratio 0 1)"
| "truthy (JStr s) = (s \<noteq> [])"
| "truthy (JList xs) = (xs \<noteq> [])"
| "truthy (JObj kvs) = (kvs \<noteq> [])"
| "truthy (JOpaque _) = True"

definition get_id :: "json option \<Rightarrow> string \<Rightarrow> json" where
  "get_id doc k =
     (case doc of
        Some (JObj kvs) \<Rightarrow> (case map_of kvs k of Some v \<Rightarrow> v | None \<Rightarrow> JNull)
      | _ \<Rightarrow> JNull)"

definition get_id_or :: "json option \<Rightarrow> string \<Rightarrow> string \<Rightarrow> json" where
  "get_id_or doc a b = (if truthy (get_id doc a) then get_id doc a else get_id doc b)"

definition build_dead_letter_event ::
    "datetime \<Rightarrow> string \<Rightarrow> string \<Rightarrow> string \<Rightarrow> string option \<Rightarrow> message \<Rightarrow> int option \<Rightarrow> int option
      \<Rightarrow> dead_letter" where
  "build_dead_letter_event now topic stage status err m attempts max_attempts =
     \<lparr>dl_event_type = ''event.dlq'', dl_event_version = 1, dl_source_topic = topic,
      dl_failure_stage = stage, dl_failure_status = status, dl_error = err, dl_occurred_at = now,
      dl_source_payload_b64 = msg_b64 m,
      dl_original_request_id = get_id_or (msg_doc m) ''request_id'' ''score_write_id'',
      dl_original_job_id = get_id_or (msg_doc m) ''job_id'' ''batch_job_id'',
      dl_original_correlation_id = get_id (msg_doc m) ''correlation_id'',
      dl_attempt_count = attempts, dl_max_attempts = max_attempts,
      dl_original_event_type = get_id (msg_doc m) ''event_type''\<rparr>"

definition event_json :: "(pyfloat \<Rightarrow> string) \<Rightarrow> json res \<Rightarrow> json res" where
  "event_json repr d = rbind d (encode_json repr)"

definition route_to_dlq ::
    "(pyfloat \<Rightarrow> string) \<Rightarrow> datetime \<Rightarrow> string \<Rightarrow> string \<Rightarrow> string \<Rightarrow> string option \<Rightarrow> message
      \<Rightarrow> int option \<Rightarrow> int option \<Rightarrow> broker \<Rightarrow> bool \<times> broker" where
  "route_to_dlq repr now topic stage status err m attempts max_attempts b =
     (let e = build_dead_letter_event now topic stage status err m attempts max_attempts
      in case publish ''fp.dlq'' topic (event_json repr (dl_to_dict e)) [] b of
           (Inr _, b') \<Rightarrow> (True, b') | (Inl _, b') \<Rightarrow> (False, b'))"

definition republish_with_attempt ::
    "string \<Rightarrow> string \<Rightarrow> json res \<Rightarrow> headers \<Rightarrow> int \<Rightarrow> broker \<Rightarrow> bool \<times> broker" where
  "republish_with_attempt topic key doc hs attempt b =
     (case publish topic key doc (with_attempt_header hs attempt) b of
        (Inr _, b') \<Rightarrow> (True, b') | (Inl _, b') \<Rightarrow> (False, b'))"

text \<open>The dead letter keeps the message: its bytes are in the published document.\<close>

lemma route_to_dlq_acked:
  assumes "route_to_dlq repr now topic stage status err m attempts max_attempts b = (True, b')"
  shows "\<exists>d hs. br_log b' = br_log b @ [\<lparr>pb_topic = ''fp.dlq'', pb_key = topic, pb_doc = d, pb_headers = hs\<rparr>]
    \<and> jitem d ''source_payload_b64'' = Inr (JStr (msg_b64 m))
    \<and> jitem d ''source_topic'' = Inr (JStr topic)"
proof -
  let ?e = "build_dead_letter_event now topic stage status err m attempts max_attempts"
  obtain b1 where "publish ''fp.dlq'' topic (event_json repr (dl_to_dict ?e)) [] b = (Inr (), b1)" "b1 = b'"
    using assms by (auto simp: route_to_dlq_def Let_def split: prod.splits sum.splits)
  from publish_acked[OF this(1)] this(2) obtain d where d: "event_json repr (dl_to_dict ?e) = Inr d"
    "br_log b' = br_log b @ [\<lparr>pb_topic = ''fp.dlq'', pb_key = topic, pb_doc = d, pb_headers = []\<rparr>]" by blast
  then obtain d0 where d0: "dl_to_dict ?e = Inr d0" "d = sort_keys d0"
    by (auto simp: event_json_def encode_json_def)
  have "jitem d0 ''source_payload_b64'' = Inr (JStr (msg_b64 m))" "jitem d0 ''source_topic'' = Inr (JStr topic)"
    using d0(1) by (auto simp: dl_to_dict_def build_dead_letter_event_def)
  with d d0 show ?thesis by auto
qed

lemma republish_acked:
  assumes "republish_with_attempt topic key doc hs n b = (True, b')"
  shows "\<exists>d hs'. doc = Inr d \<and> get_attempt hs' = n \<and>
    br_log b' = br_log b @ [\<lparr>pb_topic = topic, pb_key = key, pb_doc = d, pb_headers = hs'\<rparr>]"
proof -
  obtain u where "publish topic key doc (with_attempt_header hs n) b = (Inr u, b')"
    using assms by (auto simp: republish_with_attempt_def split: prod.splits sum.splits)
  from publish_acked[OF this] get_attempt_with show ?thesis by blast
qed

end
