(* ===== verification/OnlineWorker.thy ===== *)
theory OnlineWorker
  imports Runtime
begin

text \<open>
  The online worker: the handler of a compute request (api/online_worker.py) and one turn of its
  consumer loop (api/online_worker_runner.py) with the offset commit. The clock is a parameter
  (\<open>clock i\<close> is its i-th reading); metrics and logs are left out.
\<close>

section \<open>The world of a worker\<close>

record ('o, 'n, 'r, 's) world =
  w_offline :: 'o
  w_online :: 'n
  w_results :: 'r
  w_status :: 's
  w_broker :: broker
  w_committed :: bool  \<comment> \<open>whether the polled message's offset was committed\<close>

text \<open>
  The operations of the deployment: the two value stores, \<^verbatim>\<open>results.put\<close>, and the best-effort
  status update (\<^verbatim>\<open>_safe_update\<close>), which never raises.
\<close>

record ('o, 'n, 'r, 's) runtime =
  rt_stores :: "('o, 'n) store_ops"
  rt_put_result :: "'r \<Rightarrow> request_result \<Rightarrow> 'r res"
  rt_update_status :: "datetime \<Rightarrow> 's \<Rightarrow> string \<Rightarrow> status_change list \<Rightarrow> 's"
  rt_repr :: "pyfloat \<Rightarrow> string"
  rt_env :: fs_env

text \<open>\<^verbatim>\<open>_safe_update\<close> over the in-memory status store.\<close>

definition safe_update :: "datetime \<Rightarrow> status_mem \<Rightarrow> string \<Rightarrow> status_change list \<Rightarrow> status_mem" where
  "safe_update now m request_id changes =
     (case rm_update now m request_id changes of Inr (_, m') \<Rightarrow> m' | Inl _ \<Rightarrow> m)"

text \<open>\<^verbatim>\<open>except (KeyError, TypeError, ValueError)\<close>.\<close>

fun caught :: "exc \<Rightarrow> bool" where
  "caught (KeyError _) = True"
| "caught (TypeError _) = True"
| "caught e = is_value_error e"

fun outcome_text :: "outcome \<Rightarrow> string" where
  "outcome_text Written = ''written''"
| "outcome_text WrittenRecompute = ''written_recompute''"
| "outcome_text SkippedStale = ''skipped_stale''"
| "outcome_text Noop = ''noop''"

definition publish_event ::
    "('o, 'n, 'r, 's) runtime \<Rightarrow> string \<Rightarrow> string \<Rightarrow> json res \<Rightarrow> ('o, 'n, 'r, 's) world
      \<Rightarrow> unit res \<times> ('o, 'n, 'r, 's) world" where
  "publish_event R topic key doc w =
     (case publish topic key (event_json (rt_repr R) doc) [] (w_broker w) of
        (r, b) \<Rightarrow> (r, w\<lparr>w_broker := b\<rparr>))"

section \<open>The handler\<close>

record worker_result =
  wr_status :: string
  wr_view :: string
  wr_view_version :: int
  wr_entity_key :: string
  wr_online_written :: "(string, outcome) dict"
  wr_downstream_published :: bool
  wr_error :: "exc option"
  wr_write_set :: "write_set option"

definition worker_result_of :: "compute_requested \<Rightarrow> string \<Rightarrow> string \<Rightarrow> worker_result" where
  "worker_result_of ev status key =
     \<lparr>wr_status = status, wr_view = cq_view ev, wr_view_version = cq_view_version ev,
      wr_entity_key = key, wr_online_written = [], wr_downstream_published = False,
      wr_error = None, wr_write_set = None\<rparr>"

definition completion_of ::
    "compute_requested \<Rightarrow> datetime \<Rightarrow> string list \<Rightarrow> string \<Rightarrow> compute_completed" where
  "completion_of ev now written status =
     \<lparr>cc_event_type = ''feature_compute.completed'', cc_event_version = 1,
      cc_request_id = cq_request_id ev, cc_job_id = cq_job_id ev, cc_entity = cq_entity ev,
      cc_view = cq_view ev, cc_view_version = cq_view_version ev, cc_written_features = written,
      cc_online_write_status = Some status, cc_correlation_id = cq_correlation_id ev,
      cc_occurred_at = now\<rparr>"

definition offline_event_of :: "compute_requested \<Rightarrow> datetime \<Rightarrow> write_set \<Rightarrow> offline_write_requested" where
  "offline_event_of ev now ws =
     \<lparr>ow_event_type = ''feature_write.offline.requested'', ow_event_version = 1,
      ow_request_id = cq_request_id ev, ow_job_id = cq_job_id ev,
      ow_correlation_id = cq_correlation_id ev, ow_occurred_at = now, ow_write_set = ws\<rparr>"

text \<open>The dict comprehensions over the reports: the last descriptor of a source wins.\<close>

definition descriptors_by_source :: "compute_requested \<Rightarrow> (string, report_descriptor) dict" where
  "descriptors_by_source ev = dict_of (map (\<lambda>r. (rd_source_name r, r)) (cq_reports ev))"

definition make_descriptor_loader :: "fs_env \<Rightarrow> compute_requested \<Rightarrow> string \<Rightarrow> json res" where
  "make_descriptor_loader F ev source =
     (case map_of (descriptors_by_source ev) source of
        None \<Rightarrow> Inl (ValueError ''no report descriptor for source'')
      | Some r \<Rightarrow> fe_get_payload F (rd_object_key r))"

definition descriptor_stamp :: "report_descriptor \<Rightarrow> source_stamp res" where
  "descriptor_stamp r =
     mk_source_stamp (rd_report_ts r) (rd_content_hash r) (rd_available_at r)
       (case rd_available_at r of Some _ \<Rightarrow> Some ''ingestion_time'' | None \<Rightarrow> None)"

definition descriptor_stamps :: "compute_requested \<Rightarrow> (string, source_stamp) dict res" where
  "descriptor_stamps ev =
     rbind (map_res (\<lambda>r. rbind (descriptor_stamp r) (\<lambda>s. Inr (rd_source_name r, s))) (cq_reports ev))
       (\<lambda>kvs. Inr (dict_of kvs))"

text \<open>The entity key in the view's order of key fields; a missing field is a KeyError.\<close>

definition view_entity_key :: "view_def \<Rightarrow> (string, string) dict \<Rightarrow> entity_key res" where
  "view_entity_key v parts =
     rbind (map_res (\<lambda>k. rbind (dict_index parts k) (\<lambda>x. Inr (k, x))) (v_key_fields v)) (\<lambda>kvs.
     ek_from_mapping (dict_of kvs) (Some (v_key_fields v)))"

definition compute_request ::
    "fs_env \<Rightarrow> compute_requested \<Rightarrow> datetime \<Rightarrow> (entity_key \<times> write_set) res" where
  "compute_request F ev calc_ts =
     rbind (reg_find_view (fe_registry F) (cq_view ev) (cq_view_version ev)) (\<lambda>v.
     rbind (view_entity_key v (er_key (cq_entity ev))) (\<lambda>ek.
     rbind (plan_features v (cq_features ev) (cq_groups ev) False) (\<lambda>plan.
     rbind (descriptor_stamps ev) (\<lambda>stamps.
     rbind (compute_write_set F (Some (make_descriptor_loader F ev))
       \<lparr>fq_view = cq_view ev, fq_view_version = cq_view_version ev, fq_entity_key = ek,
        fq_features = p_compute_features plan,
        fq_source_refs = dict_of (map (\<lambda>r. (rd_source_name r, rd_report_ref r)) (cq_reports ev)),
        fq_source_stamps = stamps, fq_calc_ts = calc_ts, fq_request_id = Some (cq_request_id ev),
        fq_job_id = Some (cq_job_id ev), fq_run_id = None,
        fq_correlation_id = Some (cq_correlation_id ev), fq_write_policy = cq_write_policy ev\<rparr>)
       (\<lambda>ws. Inr (ek, ws))))))"

definition expired :: "compute_requested \<Rightarrow> datetime \<Rightarrow> bool res" where
  "expired ev now =
     (case cq_expires_at ev of None \<Rightarrow> Inr False | Some t \<Rightarrow> dt_compare (\<ge>) now t)"

definition written_features :: "write_set \<Rightarrow> (string, outcome) dict \<Rightarrow> string list" where
  "written_features ws online =
     map fst (filter (\<lambda>(_, r). \<exists>o1. map_of online (ref_text (r_ref r)) = Some o1
                                      \<and> o1 \<in> set write_outcomes) (ws_results ws))"

text \<open>The deadline branch: one completion without values, no store is touched.\<close>

definition handle_expired ::
    "('o, 'n, 'r, 's) runtime \<Rightarrow> datetime \<Rightarrow> compute_requested \<Rightarrow> string \<Rightarrow> ('o, 'n, 'r, 's) world
      \<Rightarrow> worker_result \<times> ('o, 'n, 'r, 's) world" where
  "handle_expired R now ev key w =
     (case publish_event R ''fp.feature-compute.completed'' key
             (cc_to_dict (completion_of ev now [] ''deadline_expired'')) w of
        (Inl e, w') \<Rightarrow> ((worker_result_of ev ''publish_failed'' key)\<lparr>wr_error := Some e\<rparr>, w')
      | (Inr _, w') \<Rightarrow> (worker_result_of ev ''deadline_expired'' key, w'))"

text \<open>After the compute: online first, then the offline-write event, then the completion.\<close>

definition handle_computed ::
    "('o, 'n, 'r, 's) runtime \<Rightarrow> (nat \<Rightarrow> datetime) \<Rightarrow> compute_requested \<Rightarrow> entity_key \<Rightarrow> write_set
      \<Rightarrow> ('o, 'n, 'r, 's) world \<Rightarrow> worker_result \<times> ('o, 'n, 'r, 's) world" where
  "handle_computed R clock ev ek ws w =
     (let key = ek_text ek in
      case so_write_many (rt_stores R) (w_online w) (cq_view ev) (cq_view_version ev)
             (dict_values (ws_results ws)) of
        (Inl e, on) \<Rightarrow>
          ((worker_result_of ev ''online_write_failed'' key)\<lparr>wr_error := Some e\<rparr>, w\<lparr>w_online := on\<rparr>)
      | (Inr online, on) \<Rightarrow>
          let w1 = w\<lparr>w_online := on\<rparr>;
              failed = (worker_result_of ev ''publish_failed'' key)\<lparr>wr_online_written := online\<rparr>
          in case publish_event R ''fp.feature-write.offline'' key
                    (ow_to_dict (offline_event_of ev (clock 2) ws)) w1 of
               (Inl e, w2) \<Rightarrow> (failed\<lparr>wr_error := Some e\<rparr>, w2)
             | (Inr _, w2) \<Rightarrow>
          case publish_event R ''fp.feature-compute.completed'' key
                 (cc_to_dict (completion_of ev (clock 3) (written_features ws online)
                   (outcome_text (aggregate_online_status (dict_values online))))) w2 of
            (Inl e, w3) \<Rightarrow> (failed\<lparr>wr_error := Some e\<rparr>, w3)
          | (Inr _, w3) \<Rightarrow>
              ((worker_result_of ev ''ok'' key)\<lparr>wr_online_written := online,
                 wr_downstream_published := True, wr_write_set := Some ws\<rparr>, w3))"

definition handle_compute_requested ::
    "('o, 'n, 'r, 's) runtime \<Rightarrow> (nat \<Rightarrow> datetime) \<Rightarrow> compute_requested \<Rightarrow> ('o, 'n, 'r, 's) world
      \<Rightarrow> worker_result res \<times> ('o, 'n, 'r, 's) world" where
  "handle_compute_requested R clock ev w =
     (case er_encoded (cq_entity ev) of
        Inl e \<Rightarrow> (Inl e, w)
      | Inr key \<Rightarrow>
      case expired ev (clock 0) of
        Inl e \<Rightarrow> (Inl e, w)
      | Inr True \<Rightarrow> (case handle_expired R (clock 1) ev key w of (r, w') \<Rightarrow> (Inr r, w'))
      | Inr False \<Rightarrow>
      case compute_request (rt_env R) ev (clock 1) of
        Inl e \<Rightarrow>
          if caught e then
            (Inr ((worker_result_of ev ''compute_failed'' key)\<lparr>wr_error := Some e\<rparr>), w)
          else (Inl e, w)
      | Inr (ek, ws) \<Rightarrow> (case handle_computed R clock ev ek ws w of (r, w') \<Rightarrow> (Inr r, w')))"

section \<open>One turn of the consumer\<close>

record process_result =
  pr_status :: string
  pr_committed :: bool

definition failed_pr :: "string \<Rightarrow> process_result" where
  "failed_pr status = \<lparr>pr_status = status, pr_committed = False\<rparr>"

definition committed_pr :: "string \<Rightarrow> process_result" where
  "committed_pr status = \<lparr>pr_status = status, pr_committed = True\<rparr>"

abbreviation commit :: "('o, 'n, 'r, 's) world \<Rightarrow> ('o, 'n, 'r, 's) world" where
  "commit w \<equiv> w\<lparr>w_committed := True\<rparr>"

text \<open>\<^verbatim>\<open>_dead_letter\<close> and the last branch of \<^verbatim>\<open>_retry_or_dlq\<close>.\<close>

definition to_dlq ::
    "('o, 'n, 'r, 's) runtime \<Rightarrow> datetime \<Rightarrow> string \<Rightarrow> string \<Rightarrow> message \<Rightarrow> string \<Rightarrow> string option
      \<Rightarrow> int option \<Rightarrow> int option \<Rightarrow> ('o, 'n, 'r, 's) world \<Rightarrow> process_result \<times> ('o, 'n, 'r, 's) world" where
  "to_dlq R now topic stage m status err attempts max_attempts w =
     (case route_to_dlq (rt_repr R) now topic stage status err m attempts max_attempts (w_broker w) of
        (True, b) \<Rightarrow> (committed_pr ''dead_lettered'', commit (w\<lparr>w_broker := b\<rparr>))
      | (False, b) \<Rightarrow> (failed_pr ''dlq_publish_failed'', w\<lparr>w_broker := b\<rparr>))"

definition retry_or_dlq ::
    "('o, 'n, 'r, 's) runtime \<Rightarrow> datetime \<Rightarrow> string \<Rightarrow> string \<Rightarrow> message \<Rightarrow> string \<Rightarrow> json res \<Rightarrow> string
      \<Rightarrow> string option \<Rightarrow> int \<Rightarrow> ('o, 'n, 'r, 's) world \<Rightarrow> process_result \<times> ('o, 'n, 'r, 's) world" where
  "retry_or_dlq R now topic stage m key doc status err max_attempts w =
     (let failed_attempt = next_attempt (msg_headers m) in
      if failed_attempt < max_attempts then
        (case republish_with_attempt topic key (event_json (rt_repr R) doc) (msg_headers m)
                failed_attempt (w_broker w) of
           (True, b) \<Rightarrow> (committed_pr ''retry_republished'', commit (w\<lparr>w_broker := b\<rparr>))
         | (False, b) \<Rightarrow> (failed_pr ''retry_publish_failed'', w\<lparr>w_broker := b\<rparr>))
      else to_dlq R now topic stage m status err (Some failed_attempt) (Some max_attempts) w)"

text \<open>The text of an exception is its message.\<close>

fun exc_text :: "exc \<Rightarrow> string" where
  "exc_text (ValueError s) = s" | "exc_text (KeyError s) = s" | "exc_text (TypeError s) = s"
| "exc_text (PlannerError s) = s" | "exc_text (PromotionError s) = s"
| "exc_text (ConflictError s) = s" | "exc_text (UdfError s) = s" | "exc_text (OverflowError s) = s"
| "exc_text (StoreError s) = s"

definition status_after_retry ::
    "('o, 'n, 'r, 's) runtime \<Rightarrow> datetime \<Rightarrow> string \<Rightarrow> string \<Rightarrow> string option
      \<Rightarrow> process_result \<times> ('o, 'n, 'r, 's) world \<Rightarrow> process_result \<times> ('o, 'n, 'r, 's) world" where
  "status_after_retry R now request_id failure err prw =
     (case prw of (pr, w) \<Rightarrow>
      (pr,
       if pr_status pr = ''retry_republished'' then
         w\<lparr>w_status := rt_update_status R now (w_status w) request_id
             [ChStatus ''running'', ChError (Some (''retrying: '' @ failure)), ChUpdatedAt now]\<rparr>
       else if pr_status pr = ''dead_lettered'' then
         w\<lparr>w_status := rt_update_status R now (w_status w) request_id
             [ChStatus ''failed'',
              ChError (case err of Some e \<Rightarrow> if e = [] then Some failure else err | None \<Rightarrow> Some failure),
              ChFinishedAt (Some now), ChUpdatedAt now]\<rparr>
       else w))"

definition online_topic :: string where
  "online_topic = ''fp.feature-compute.online''"

definition retry_event ::
    "('o, 'n, 'r, 's) runtime \<Rightarrow> (nat \<Rightarrow> datetime) \<Rightarrow> message \<Rightarrow> compute_requested \<Rightarrow> string
      \<Rightarrow> exc option \<Rightarrow> int \<Rightarrow> ('o, 'n, 'r, 's) world \<Rightarrow> process_result res \<times> ('o, 'n, 'r, 's) world" where
  "retry_event R clock m ev failure err max_attempts w =
     (case er_encoded (cq_entity ev) of
        Inl e \<Rightarrow>
          if next_attempt (msg_headers m) < max_attempts then (Inl e, w)
          else (case status_after_retry R (clock 6) (cq_request_id ev) failure (map_option exc_text err)
                  (to_dlq R (clock 5) online_topic ''online_worker'' m failure (map_option exc_text err)
                    (Some (next_attempt (msg_headers m))) (Some max_attempts) w) of
                (pr, w') \<Rightarrow> (Inr pr, w'))
      | Inr key \<Rightarrow>
          (case status_after_retry R (clock 6) (cq_request_id ev) failure (map_option exc_text err)
                  (retry_or_dlq R (clock 5) online_topic ''online_worker'' m key (cq_to_dict ev) failure
                    (map_option exc_text err) max_attempts w) of
             (pr, w') \<Rightarrow> (Inr pr, w')))"

text \<open>What follows the handler: the outcome decides about result, commit and status.\<close>

definition finish_request ::
    "('o, 'n, 'r, 's) runtime \<Rightarrow> (nat \<Rightarrow> datetime) \<Rightarrow> int \<Rightarrow> message \<Rightarrow> compute_requested \<Rightarrow> worker_result
      \<Rightarrow> ('o, 'n, 'r, 's) world \<Rightarrow> process_result res \<times> ('o, 'n, 'r, 's) world" where
  "finish_request R clock max_attempts m ev r w =
     (if wr_status r = ''ok'' then
        (case (case wr_write_set r of
                 None \<Rightarrow> Inl (TypeError ''no write set'')
               | Some ws \<Rightarrow>
                   rbind (rr_from_write_set (clock 4) (cq_request_id ev) ws
                            (map (\<lambda>(k, o1). (k, outcome_text o1)) (wr_online_written r)) None)
                     (rt_put_result R (w_results w))) of
           Inl e \<Rightarrow> (Inr (failed_pr ''result_store_failed''), w)
         | Inr results \<Rightarrow>
             let w1 = commit (w\<lparr>w_results := results\<rparr>) in
             (Inr (committed_pr ''ok''),
              w1\<lparr>w_status := rt_update_status R (clock 5) (w_status w1) (cq_request_id ev)
                 [ChStatus ''completed'',
                  ChOnline (Some (outcome_text (aggregate_online_status (dict_values (wr_online_written r))))),
                  ChOffline (Some ''pending''), ChMetadata (Some ''pending''),
                  ChFinishedAt (Some (clock 5)), ChUpdatedAt (clock 5), ChError None]\<rparr>))
      else if wr_status r = ''deadline_expired'' then
        (let w1 = commit w in
         (Inr (committed_pr ''deadline_expired''),
          w1\<lparr>w_status := rt_update_status R (clock 5) (w_status w1) (cq_request_id ev)
             [ChStatus ''completed'', ChOnline (Some ''deadline_expired''), ChOffline None,
              ChMetadata (Some ''pending''), ChFinishedAt (Some (clock 5)), ChUpdatedAt (clock 5),
              ChError None]\<rparr>))
      else if wr_status r = ''compute_failed'' then
        retry_event R clock m ev (wr_status r) (wr_error r) max_attempts w
      else (Inr (failed_pr (wr_status r)), w))"

text \<open>
  \<^verbatim>\<open>process_next\<close> after its poll. \<open>Inl\<close> is an exception that leaves the turn (the entity of the
  event cannot be encoded).
\<close>

definition process_next ::
    "('o, 'n, 'r, 's) runtime \<Rightarrow> (nat \<Rightarrow> datetime) \<Rightarrow> int \<Rightarrow> message option \<Rightarrow> ('o, 'n, 'r, 's) world
      \<Rightarrow> process_result res \<times> ('o, 'n, 'r, 's) world" where
  "process_next R clock max_attempts polled w =
     (case polled of
        None \<Rightarrow> (Inr (failed_pr ''idle''), w)
      | Some m \<Rightarrow>
      if msg_error m \<noteq> None then (Inr (failed_pr ''consume_error''), w)
      else case (case msg_doc m of None \<Rightarrow> Inl (ValueError ''Expecting value'') | Some d \<Rightarrow> cq_from_dict d) of
        Inl e \<Rightarrow>
          (case to_dlq R (clock 0) online_topic ''online_worker'' m ''deserialization_failed''
                  (Some (exc_text e)) None None w of (pr, w') \<Rightarrow> (Inr pr, w'))
      | Inr ev \<Rightarrow>
          let w1 = w\<lparr>w_status := rt_update_status R (clock 0) (w_status w) (cq_request_id ev)
                [ChStatus ''running'', ChStartedAt (Some (clock 0)), ChUpdatedAt (clock 0)]\<rparr>
          in case handle_compute_requested R clock ev w1 of
               (Inl e, w2) \<Rightarrow> retry_event R clock m ev ''unexpected_error'' (Some e) max_attempts w2
             | (Inr r, w2) \<Rightarrow> finish_request R clock max_attempts m ev r w2)"

section \<open>The loop over a partition\<close>

text \<open>
  A partition as Kafka keeps it for a consumer group: the consumer's position moves with every
  poll; a commit of a message sets the committed offset behind it, which covers all earlier
  messages; a restart resumes at the committed offset.
\<close>

record partition =
  pa_messages :: "message list"
  pa_position :: nat
  pa_committed :: nat

definition poll_message :: "partition \<Rightarrow> message option \<times> partition" where
  "poll_message p =
     (if pa_position p < length (pa_messages p)
      then (Some (pa_messages p ! pa_position p), p\<lparr>pa_position := pa_position p + 1\<rparr>)
      else (None, p))"

definition turn ::
    "('o, 'n, 'r, 's) runtime \<Rightarrow> (nat \<Rightarrow> datetime) \<Rightarrow> int \<Rightarrow> partition \<Rightarrow> ('o, 'n, 'r, 's) world
      \<Rightarrow> process_result res \<times> partition \<times> ('o, 'n, 'r, 's) world" where
  "turn R clock max_attempts p w =
     (case poll_message p of (polled, p1) \<Rightarrow>
      case process_next R clock max_attempts polled (w\<lparr>w_committed := False\<rparr>) of (r, w1) \<Rightarrow>
      (r, if w_committed w1 then p1\<lparr>pa_committed := pa_position p1\<rparr> else p1, w1))"

lemma turn_progress:
  assumes "turn R clock n p w = (Inr pr, p1, w1)" "pr_status pr \<noteq> ''idle''"
  shows "pa_messages p1 = pa_messages p \<and> pa_position p1 = pa_position p + 1
    \<and> pa_position p < length (pa_messages p)"
proof (cases "pa_position p < length (pa_messages p)")
  case True
  with assms show ?thesis by (auto simp: turn_def poll_message_def split: prod.splits if_splits)
next
  case False
  with assms show ?thesis
    by (auto simp: turn_def poll_message_def process_next_def failed_pr_def split: if_splits)
qed

text \<open>
  \<^verbatim>\<open>run\<close>: at most \<open>limit\<close> turns, or until a poll returns nothing; \<open>stop i\<close> says that a shutdown
  was requested before turn \<open>i\<close>, and \<open>clocks i\<close> is the clock of turn \<open>i\<close>. An exception ends
  the run.
\<close>

function run ::
    "('o, 'n, 'r, 's) runtime \<Rightarrow> (nat \<Rightarrow> nat \<Rightarrow> datetime) \<Rightarrow> (nat \<Rightarrow> bool) \<Rightarrow> int \<Rightarrow> nat option \<Rightarrow> nat
      \<Rightarrow> partition \<Rightarrow> ('o, 'n, 'r, 's) world
      \<Rightarrow> process_result list \<times> exc option \<times> partition \<times> ('o, 'n, 'r, 's) world" where
  "run R clocks stop max_attempts limit i p w =
     (if (\<exists>n. limit = Some n \<and> n \<le> i) \<or> stop i then ([], None, p, w)
      else case turn R (clocks i) max_attempts p w of
        (Inl e, p1, w1) \<Rightarrow> ([], Some e, p1, w1)
      | (Inr pr, p1, w1) \<Rightarrow>
          if limit = None \<and> pr_status pr = ''idle'' then ([pr], None, p1, w1)
          else (case run R clocks stop max_attempts limit (i + 1) p1 w1 of
                  (prs, e, p2, w2) \<Rightarrow> (pr # prs, e, p2, w2)))"
  by pat_completeness auto

termination
  by (relation "measure (\<lambda>(R, clocks, stop, n, limit, i, p, w).
      case limit of Some m \<Rightarrow> m - i | None \<Rightarrow> length (pa_messages p) - pa_position p)")
    (auto dest!: sym[of "(_, _, _)"] turn_progress split: option.splits)

declare run.simps [simp del]

text \<open>The number of turns is bounded, and the partition's messages stay.\<close>

lemma run_bounded:
  "length (fst (run R clocks stop n limit i p w))
    \<le> (case limit of Some k \<Rightarrow> k - i | None \<Rightarrow> Suc (length (pa_messages p) - pa_position p))
  \<and> pa_messages (fst (snd (snd (run R clocks stop n limit i p w)))) = pa_messages p"
proof (induction R clocks stop n limit i p w rule: run.induct)
  case (1 R clocks stop n limit i p w)
  note unf = run.simps[of R clocks stop n limit i p w]
  have tm: "pa_messages p1 = pa_messages p" if "turn R (clocks i) n p w = (r, p1, w1)" for r p1 w1
    using that by (auto simp: turn_def poll_message_def split: prod.splits if_splits)
  show ?case
  proof (cases "(\<exists>k. limit = Some k \<and> k \<le> i) \<or> stop i")
    case True
    then show ?thesis by (auto simp: unf)
  next
    case False
    obtain r p1 w1 where t: "turn R (clocks i) n p w = (r, p1, w1)" by (cases "turn R (clocks i) n p w")
    show ?thesis
    proof (cases r)
      case (Inl e)
      with False t tm[OF t] show ?thesis by (simp add: unf)
    next
      case (Inr pr)
      show ?thesis
      proof (cases "limit = None \<and> pr_status pr = ''idle''")
        case True
        with False t Inr tm[OF t] show ?thesis unfolding unf by auto
      next
        case go: False
        obtain prs e p2 w2 where rest: "run R clocks stop n limit (i + 1) p1 w1 = (prs, e, p2, w2)"
          by (cases "run R clocks stop n limit (i + 1) p1 w1")
        have ih: "length prs \<le> (case limit of Some k \<Rightarrow> k - (i + 1) | None \<Rightarrow> Suc (length (pa_messages p1) - pa_position p1))"
          "pa_messages p2 = pa_messages p1"
          using "1.IH"[OF False t[symmetric] Inr refl go] rest by simp_all
        have eq: "run R clocks stop n limit i p w = (pr # prs, e, p2, w2)"
          using False t Inr go rest by (auto simp: unf)
        show ?thesis
        proof (cases limit)
          case None
          with go have "pr_status pr \<noteq> ''idle''" by simp
          from turn_progress[OF t[unfolded Inr] this] ih eq None tm[OF t] show ?thesis by auto
        next
          case (Some k)
          with False ih eq tm[OF t] show ?thesis by auto
        qed
      qed
    qed
  qed
qed


section \<open>What each step keeps\<close>

text \<open>The broker's log only grows, and the worker never touches offline history.\<close>

definition grows :: "('o, 'n, 'r, 's) world \<Rightarrow> ('o, 'n, 'r, 's) world \<Rightarrow> published list \<Rightarrow> bool" where
  "grows w w' ms \<longleftrightarrow>
     br_log (w_broker w') = br_log (w_broker w) @ ms \<and> w_offline w' = w_offline w"

lemma grows_refl [simp]: "grows w w []"
  by (simp add: grows_def)

lemma grows_trans: "grows w w1 ms \<Longrightarrow> grows w1 w2 ns \<Longrightarrow> grows w w2 (ms @ ns)"
  by (simp add: grows_def)

lemma publish_event_sent:
  assumes "publish_event R topic key doc w = (Inr u, w')"
  shows "\<exists>d b. doc = Inr d \<and> w' = w\<lparr>w_broker := b\<rparr>
    \<and> grows w w' [\<lparr>pb_topic = topic, pb_key = key, pb_doc = sort_keys d, pb_headers = []\<rparr>]"
proof -
  obtain b where b: "publish topic key (event_json (rt_repr R) doc) [] (w_broker w) = (Inr u, b)" "w' = w\<lparr>w_broker := b\<rparr>"
    using assms by (auto simp: publish_event_def split: prod.splits)
  from publish_acked[OF b(1)] b(2) show ?thesis
    by (auto simp: grows_def event_json_def encode_json_def)
qed

lemma publish_event_any: "\<exists>ms b. snd (publish_event R topic key doc w) = w\<lparr>w_broker := b\<rparr> \<and>
    grows w (snd (publish_event R topic key doc w)) ms \<and> (\<forall>m \<in> set ms. pb_topic m = topic)"
  using publish_log[of topic key "event_json (rt_repr R) doc" "[]" "w_broker w"]
  by (auto simp: publish_event_def grows_def split: prod.splits)

lemma publish_event_failed:
  assumes "publish_event R topic key doc w = (Inl e, w')"
  shows "\<exists>ms b. w' = w\<lparr>w_broker := b\<rparr> \<and> grows w w' ms \<and> (\<forall>m \<in> set ms. pb_topic m = topic)"
  using publish_event_any[of R topic key doc w] by (simp add: assms)

lemma handle_expired_any:
  assumes "handle_expired R now ev key w = (r, w')"
  shows "(\<exists>b. w' = w\<lparr>w_broker := b\<rparr>) \<and> (\<exists>ms. grows w w' ms
      \<and> (\<forall>m \<in> set ms. pb_topic m = ''fp.feature-compute.completed'')
      \<and> (wr_status r = ''deadline_expired'' \<longrightarrow> (\<exists>m \<in> set ms.
           jitem (pb_doc m) ''online_write_status'' = Inr (JStr ''deadline_expired'')
           \<and> jitem (pb_doc m) ''request_id'' = Inr (JStr (cq_request_id ev)))))
    \<and> wr_status r \<in> {''deadline_expired'', ''publish_failed''}"
proof (cases "fst (publish_event R ''fp.feature-compute.completed'' key
    (cc_to_dict (completion_of ev now [] ''deadline_expired'')) w)")
  case (Inl e)
  then obtain w1 where p: "publish_event R ''fp.feature-compute.completed'' key
    (cc_to_dict (completion_of ev now [] ''deadline_expired'')) w = (Inl e, w1)" by (metis prod.collapse)
  from publish_event_failed[OF p] assms p show ?thesis
    by (auto simp: handle_expired_def worker_result_of_def)
next
  case (Inr u)
  then obtain w1 where p: "publish_event R ''fp.feature-compute.completed'' key
    (cc_to_dict (completion_of ev now [] ''deadline_expired'')) w = (Inr u, w1)" by (metis prod.collapse)
  from publish_event_sent[OF p] obtain d where
    d: "cc_to_dict (completion_of ev now [] ''deadline_expired'') = Inr d" by blast
  then have "jitem d ''online_write_status'' = Inr (JStr ''deadline_expired'')"
    "jitem d ''request_id'' = Inr (JStr (cq_request_id ev))"
    by (auto simp: cc_to_dict_def completion_of_def of_opt_def)
  with publish_event_sent[OF p] assms p d show ?thesis
    by (fastforce simp: handle_expired_def worker_result_of_def)
qed

text \<open>A computed request that ends well: both messages are out, in order.\<close>

definition announced :: "entity_key \<Rightarrow> write_set \<Rightarrow> published list \<Rightarrow> bool" where
  "announced ek ws ms \<longleftrightarrow>
     (\<exists>a b. ms = [a, b] \<and> pb_topic a = ''fp.feature-write.offline'' \<and> pb_key a = ek_text ek
        \<and> jitem (pb_doc a) ''write_set'' = Inr (sort_keys (write_set_to_dict ws))
        \<and> pb_topic b = ''fp.feature-compute.completed'' \<and> pb_key b = ek_text ek)"

lemma handle_computed_any:
  assumes "handle_computed R clock ev ek ws w = (r, w')"
  shows "(\<exists>on b. w' = w\<lparr>w_online := on, w_broker := b\<rparr>
      \<and> on = snd (so_write_many (rt_stores R) (w_online w) (cq_view ev) (cq_view_version ev) (dict_values (ws_results ws))))
    \<and> (\<exists>ms. grows w w' ms \<and> (wr_status r = ''ok'' \<longrightarrow> announced ek ws ms
         \<and> wr_write_set r = Some ws
         \<and> fst (so_write_many (rt_stores R) (w_online w) (cq_view ev) (cq_view_version ev)
             (dict_values (ws_results ws))) = Inr (wr_online_written r)))
    \<and> wr_status r \<in> {''ok'', ''online_write_failed'', ''publish_failed''}"
proof -
  let ?wm = "so_write_many (rt_stores R) (w_online w) (cq_view ev) (cq_view_version ev) (dict_values (ws_results ws))"
  obtain wres on where wm: "?wm = (wres, on)" by (cases ?wm)
  show ?thesis
  proof (cases wres)
    case (Inl e)
    with assms wm show ?thesis
      by (auto simp: handle_computed_def Let_def worker_result_of_def grows_def
          intro!: exI[of _ "w_broker w"] exI[of _ "[]"])
  next
    case (Inr online)
    let ?w1 = "w\<lparr>w_online := on\<rparr>"
    let ?p1 = "publish_event R ''fp.feature-write.offline'' (ek_text ek) (ow_to_dict (offline_event_of ev (clock 2) ws)) ?w1"
    obtain r1 w2 where p1: "?p1 = (r1, w2)" by (cases ?p1)
    show ?thesis
    proof (cases r1)
      case (Inl e)
      from publish_event_failed[OF p1[unfolded Inl]] assms wm Inr p1 Inl show ?thesis
        by (auto simp: handle_computed_def Let_def worker_result_of_def grows_def)
    next
      case (Inr u)
      let ?doc = "cc_to_dict (completion_of ev (clock 3) (written_features ws online)
                   (outcome_text (aggregate_online_status (dict_values online))))"
      let ?p2 = "publish_event R ''fp.feature-compute.completed'' (ek_text ek) ?doc w2"
      from publish_event_sent[OF p1[unfolded Inr]] obtain d b where
        d: "ow_to_dict (offline_event_of ev (clock 2) ws) = Inr d" "w2 = ?w1\<lparr>w_broker := b\<rparr>"
        "grows ?w1 w2 [\<lparr>pb_topic = ''fp.feature-write.offline'', pb_key = ek_text ek,
            pb_doc = sort_keys d, pb_headers = []\<rparr>]" by blast
      have ws: "jitem (sort_keys d) ''write_set'' = Inr (sort_keys (write_set_to_dict ws))"
        using d(1) by (auto simp: ow_to_dict_def offline_event_of_def)
      obtain r2 w3 where p2: "?p2 = (r2, w3)" by (cases ?p2)
      show ?thesis
      proof (cases r2)
        case (Inl e)
        from publish_event_failed[OF p2[unfolded Inl]] assms wm \<open>wres = Inr online\<close> p1 Inr p2 Inl d show ?thesis
          by (auto simp: handle_computed_def Let_def worker_result_of_def grows_def)
      next
        case (Inr u2)
        from publish_event_sent[OF p2[unfolded Inr]] assms wm \<open>wres = Inr online\<close> p1 \<open>r1 = Inr u\<close> p2 Inr d ws
        show ?thesis
          by (auto simp: handle_computed_def Let_def worker_result_of_def grows_def announced_def)
      qed
    qed
  qed
qed

section \<open>No committed message is lost\<close>

text \<open>Where a message can be found again, by the status of its turn.\<close>

definition dead_lettered :: "message \<Rightarrow> published list \<Rightarrow> bool" where
  "dead_lettered m ms \<longleftrightarrow>
     (\<exists>x \<in> set ms. pb_topic x = ''fp.dlq'' \<and> jitem (pb_doc x) ''source_payload_b64'' = Inr (JStr (msg_b64 m)))"

definition retried :: "string \<Rightarrow> int \<Rightarrow> message \<Rightarrow> published list \<Rightarrow> bool" where
  "retried topic n m ms \<longleftrightarrow>
     next_attempt (msg_headers m) < n
     \<and> (\<exists>x \<in> set ms. pb_topic x = topic \<and> get_attempt (pb_headers x) = next_attempt (msg_headers m))"

definition accounted ::
    "('o, 'n, 'r, 's) runtime \<Rightarrow> (nat \<Rightarrow> datetime) \<Rightarrow> int \<Rightarrow> message \<Rightarrow> string \<Rightarrow> published list
      \<Rightarrow> ('o, 'n, 'r, 's) world \<Rightarrow> ('o, 'n, 'r, 's) world \<Rightarrow> bool" where
  "accounted R clock n m status ms w w' \<longleftrightarrow>
     (status = ''dead_lettered'' \<and> dead_lettered m ms)
     \<or> (status = ''retry_republished'' \<and> retried online_topic n m ms)
     \<or> (status = ''deadline_expired'' \<and> w_online w' = w_online w
        \<and> (\<exists>x \<in> set ms. jitem (pb_doc x) ''online_write_status'' = Inr (JStr ''deadline_expired'')))
     \<or> (status = ''ok'' \<and> (\<exists>ev ek ws online result.
          rbind (case msg_doc m of Some d \<Rightarrow> Inr d | None \<Rightarrow> Inl (ValueError [])) cq_from_dict = Inr ev
          \<and> compute_request (rt_env R) ev (clock 1) = Inr (ek, ws)
          \<and> so_write_many (rt_stores R) (w_online w) (cq_view ev) (cq_view_version ev)
              (dict_values (ws_results ws)) = (Inr online, w_online w')
          \<and> announced ek ws ms
          \<and> rr_from_write_set (clock 4) (cq_request_id ev) ws
              (map (\<lambda>(k, o1). (k, outcome_text o1)) online) None = Inr result
          \<and> rt_put_result R (w_results w) result = Inr (w_results w')))"

lemma to_dlq_any:
  assumes "to_dlq R now topic stage m status err a b w = (pr, w')"
  shows "(\<exists>ms. grows w w' ms \<and> (pr_committed pr \<longrightarrow> dead_lettered m ms))
    \<and> pr_status pr \<in> {''dead_lettered'', ''dlq_publish_failed''}
    \<and> (pr_committed pr \<longleftrightarrow> pr_status pr = ''dead_lettered'')
    \<and> w_committed w' = (w_committed w \<or> pr_committed pr) \<and> w_online w' = w_online w"
proof -
  obtain okay br where r: "route_to_dlq (rt_repr R) now topic stage status err m a b (w_broker w) = (okay, br)"
    by (cases "route_to_dlq (rt_repr R) now topic stage status err m a b (w_broker w)")
  show ?thesis
  proof (cases okay)
    case True
    note r' = r[unfolded eqTrueI[OF True]]
    from route_to_dlq_acked[OF r'] assms r True show ?thesis
      by (auto simp: to_dlq_def committed_pr_def grows_def dead_lettered_def)
  next
    case False
    have "\<exists>ms. br_log br = br_log (w_broker w) @ ms"
      using r publish_log by (auto simp: route_to_dlq_def Let_def split: prod.splits sum.splits) (metis snd_conv)+
    with assms r False show ?thesis
      by (auto simp: to_dlq_def failed_pr_def grows_def)
  qed
qed

lemma retry_or_dlq_any:
  assumes "retry_or_dlq R now topic stage m key doc status err n w = (pr, w')"
  shows "(\<exists>ms. grows w w' ms \<and> (pr_committed pr \<longrightarrow>
        (pr_status pr = ''dead_lettered'' \<and> dead_lettered m ms)
        \<or> (pr_status pr = ''retry_republished'' \<and> retried topic n m ms)))
    \<and> (pr_committed pr \<longleftrightarrow> pr_status pr \<in> {''dead_lettered'', ''retry_republished''})
    \<and> w_committed w' = (w_committed w \<or> pr_committed pr) \<and> w_online w' = w_online w"
proof (cases "next_attempt (msg_headers m) < n")
  case False
  then have "to_dlq R now topic stage m status err (Some (next_attempt (msg_headers m))) (Some n) w = (pr, w')"
    using assms by (simp add: retry_or_dlq_def Let_def)
  from to_dlq_any[OF this] show ?thesis by auto
next
  case True
  obtain okay br where r: "republish_with_attempt topic key (event_json (rt_repr R) doc) (msg_headers m)
      (next_attempt (msg_headers m)) (w_broker w) = (okay, br)"
    by (cases "republish_with_attempt topic key (event_json (rt_repr R) doc) (msg_headers m)
      (next_attempt (msg_headers m)) (w_broker w)")
  show ?thesis
  proof (cases okay)
    case okay: True
    note r' = r[unfolded eqTrueI[OF okay]]
    from republish_acked[OF r'] assms r True okay show ?thesis
      by (auto simp: retry_or_dlq_def Let_def committed_pr_def grows_def retried_def)
  next
    case False
    have "\<exists>ms. br_log br = br_log (w_broker w) @ ms"
      using r publish_log by (auto simp: republish_with_attempt_def split: prod.splits sum.splits) (metis snd_conv)+
    with assms r True False show ?thesis
      by (auto simp: retry_or_dlq_def Let_def failed_pr_def grows_def)
  qed
qed

lemma status_after_retry_any:
  assumes "status_after_retry R now rid failure err (pr0, w0) = (pr, w')"
  shows "pr = pr0 \<and> (\<exists>s. w' = w0\<lparr>w_status := s\<rparr>)"
  using assms by (auto simp: status_after_retry_def split: if_splits intro: exI[of _ "w_status w0"])

lemma retry_event_any:
  assumes "retry_event R clock m ev failure err n w = (Inr pr, w')"
  shows "(\<exists>ms. grows w w' ms \<and> (pr_committed pr \<longrightarrow>
        (pr_status pr = ''dead_lettered'' \<and> dead_lettered m ms)
        \<or> (pr_status pr = ''retry_republished'' \<and> retried online_topic n m ms)))
    \<and> w_committed w' = (w_committed w \<or> pr_committed pr) \<and> w_online w' = w_online w"
proof (cases "er_encoded (cq_entity ev)")
  case (Inl e)
  obtain pr0 w0 where t: "to_dlq R (clock 5) online_topic ''online_worker'' m failure (map_option exc_text err)
      (Some (next_attempt (msg_headers m))) (Some n) w = (pr0, w0)"
    by (cases "to_dlq R (clock 5) online_topic ''online_worker'' m failure (map_option exc_text err)
      (Some (next_attempt (msg_headers m))) (Some n) w")
  with assms Inl have "status_after_retry R (clock 6) (cq_request_id ev) failure (map_option exc_text err) (pr0, w0) = (pr, w')"
    by (auto simp: retry_event_def split: if_splits prod.splits)
  from to_dlq_any[OF t] status_after_retry_any[OF this] show ?thesis by (auto simp: grows_def)
next
  case (Inr key)
  obtain pr0 w0 where t: "retry_or_dlq R (clock 5) online_topic ''online_worker'' m key (cq_to_dict ev) failure
      (map_option exc_text err) n w = (pr0, w0)"
    by (cases "retry_or_dlq R (clock 5) online_topic ''online_worker'' m key (cq_to_dict ev) failure
      (map_option exc_text err) n w")
  with assms Inr have "status_after_retry R (clock 6) (cq_request_id ev) failure (map_option exc_text err) (pr0, w0) = (pr, w')"
    by (auto simp: retry_event_def split: prod.splits)
  from retry_or_dlq_any[OF t] status_after_retry_any[OF this] show ?thesis by (auto simp: grows_def)
qed

lemma retry_event_raises: "retry_event R clock m ev failure err n w = (Inl e, w') \<Longrightarrow> w' = w"
  by (auto simp: retry_event_def split: sum.splits if_splits prod.splits)

text \<open>The three ways a handler call ends.\<close>

lemma handle_compute_cases:
  assumes "handle_compute_requested R clock ev w = (res, w')"
  obtains (raises) e where "res = Inl e" "w' = w"
    | (late) key r where "res = Inr r" "expired ev (clock 0) = Inr True" "handle_expired R (clock 1) ev key w = (r, w')"
    | (failed) r where "res = Inr r" "w' = w" "wr_status r = ''compute_failed''"
    | (computed) ek ws r where "res = Inr r" "expired ev (clock 0) = Inr False"
        "compute_request (rt_env R) ev (clock 1) = Inr (ek, ws)" "handle_computed R clock ev ek ws w = (r, w')"
  using assms
  by (auto simp: handle_compute_requested_def worker_result_of_def split: sum.splits bool.splits prod.splits if_splits)

lemma process_next_accounts:
  assumes "process_next R clock n (Some m) w = (Inr pr, w')" "\<not> w_committed w"
  shows "w_committed w' = pr_committed pr
    \<and> (\<exists>ms. grows w w' ms \<and> (pr_committed pr \<longrightarrow> accounted R clock n m (pr_status pr) ms w w'))"
proof (cases "msg_error m")
  case (Some e)
  have "grows w w []" by (simp add: grows_def)
  then have "\<exists>ms. grows w w ms" by blast
  with Some assms show ?thesis by (auto simp: process_next_def failed_pr_def)
next
  case None
  show ?thesis
  proof (cases "case msg_doc m of None \<Rightarrow> Inl (ValueError ''Expecting value'') | Some d \<Rightarrow> cq_from_dict d")
    case (Inl e)
    then have "to_dlq R (clock 0) online_topic ''online_worker'' m ''deserialization_failed''
        (Some (exc_text e)) None None w = (pr, w')"
      using assms(1) None by (auto simp: process_next_def split: prod.splits)
    from to_dlq_any[OF this] assms(2) show ?thesis by (auto simp: accounted_def)
  next
    case (Inr ev)
    define w1 where "w1 = w\<lparr>w_status := rt_update_status R (clock 0) (w_status w) (cq_request_id ev)
                [ChStatus ''running'', ChStartedAt (Some (clock 0)), ChUpdatedAt (clock 0)]\<rparr>"
    have w1: "grows w w1 []" "w_online w1 = w_online w" "w_results w1 = w_results w" "\<not> w_committed w1"
      using assms(2) by (simp_all add: w1_def grows_def)
    have doc: "rbind (case msg_doc m of Some d \<Rightarrow> Inr d | None \<Rightarrow> Inl (ValueError [])) cq_from_dict = Inr ev"
      using Inr by (cases "msg_doc m") auto
    obtain res w2 where h: "handle_compute_requested R clock ev w1 = (res, w2)"
      by (cases "handle_compute_requested R clock ev w1")
    have p: "(case res of Inl e \<Rightarrow> retry_event R clock m ev ''unexpected_error'' (Some e) n w2
        | Inr r \<Rightarrow> finish_request R clock n m ev r w2) = (Inr pr, w')"
      using assms(1) None Inr h by (simp add: process_next_def Let_def w1_def split: sum.splits)
    have retry: ?thesis if "retry_event R clock m ev failure err n w1 = (Inr pr, w')" for failure err
      using retry_event_any[OF that] w1 by (auto simp: accounted_def grows_def)
    from h show ?thesis
    proof (cases rule: handle_compute_cases)
      case (raises e)
      with p show ?thesis using retry by simp
    next
      case (failed r)
      with p show ?thesis using retry by (simp add: finish_request_def)
    next
      case (late key r)
      from handle_expired_any[OF late(3)] obtain ms b where e: "w2 = w1\<lparr>w_broker := b\<rparr>" "grows w1 w2 ms" and
        st: "wr_status r = ''deadline_expired'' \<longrightarrow> (\<exists>x \<in> set ms.
           jitem (pb_doc x) ''online_write_status'' = Inr (JStr ''deadline_expired'')
           \<and> jitem (pb_doc x) ''request_id'' = Inr (JStr (cq_request_id ev)))"
        "wr_status r \<in> {''deadline_expired'', ''publish_failed''}" by blast
      have ms: "grows w1 w2 ms" "w_online w2 = w_online w1" "\<not> w_committed w2"
        using e w1(4) by simp_all
      define told where "told \<longleftrightarrow> (\<exists>x \<in> set ms.
        jitem (pb_doc x) ''online_write_status'' = Inr (JStr ''deadline_expired''))"
      have told: "wr_status r = ''deadline_expired'' \<Longrightarrow> told" using st(1) told_def by blast
      from grows_trans[OF w1(1) ms(1)] ms w1 told st(2) p late(1) show ?thesis
        by (auto simp: finish_request_def failed_pr_def committed_pr_def Let_def accounted_def grows_def
            told_def[symmetric])
    next
      case (computed ek ws r)
      from handle_computed_any[OF computed(4)] obtain ms where ms: "grows w1 w2 ms" "w_results w2 = w_results w1"
        "\<not> w_committed w2" "w_online w2 = snd (so_write_many (rt_stores R) (w_online w1) (cq_view ev)
          (cq_view_version ev) (dict_values (ws_results ws)))" and
        st: "wr_status r = ''ok'' \<Longrightarrow> announced ek ws ms \<and> wr_write_set r = Some ws
         \<and> fst (so_write_many (rt_stores R) (w_online w1) (cq_view ev) (cq_view_version ev)
             (dict_values (ws_results ws))) = Inr (wr_online_written r)"
        "wr_status r \<in> {''ok'', ''online_write_failed'', ''publish_failed''}"
        using w1(4) by auto
      note g = grows_trans[OF w1(1) ms(1)]
      show ?thesis
      proof (cases "wr_status r = ''ok''")
        case False
        with st(2) p computed(1) g ms(3) show ?thesis
          by (auto simp: finish_request_def failed_pr_def accounted_def grows_def)
      next
        case True
        note k = st(1)[OF True]
        show ?thesis
        proof (cases "rbind (rr_from_write_set (clock 4) (cq_request_id ev) ws
            (map (\<lambda>(k, o1). (k, outcome_text o1)) (wr_online_written r)) None) (rt_put_result R (w_results w2))")
          case (Inl e)
          with p computed(1) True k g ms(3) show ?thesis
            by (auto simp: finish_request_def failed_pr_def grows_def)
        next
          case (Inr results)
          then obtain result where res: "rr_from_write_set (clock 4) (cq_request_id ev) ws
              (map (\<lambda>(k, o1). (k, outcome_text o1)) (wr_online_written r)) None = Inr result"
            "rt_put_result R (w_results w2) result = Inr results" by auto
          have pr: "pr = committed_pr ''ok''" "grows w w' ([] @ ms)" "w_committed w'" "w_results w' = results"
            "w_online w' = w_online w2"
            using p computed(1) True k Inr g by (auto simp: finish_request_def Let_def grows_def)
          have "so_write_many (rt_stores R) (w_online w) (cq_view ev) (cq_view_version ev)
              (dict_values (ws_results ws)) = (Inr (wr_online_written r), w_online w')"
            using k ms(4) pr(5) w1(2) by (metis prod.collapse)
          then have "accounted R clock n m ''ok'' ms w w'"
            unfolding accounted_def using doc computed(3) k res pr(4) ms(2) w1(3) by auto
          with pr show ?thesis by (auto simp: committed_pr_def)
        qed
      qed
    qed
  qed
qed

end
