(* ===== verification/Bundle.thy ===== *)
theory Bundle
  imports Loader Hashing
begin

text \<open>
  Registry bundles (fs_core/registry/bundle.py): the canonical content of a registry, the digests
  computed over it, the bundle record, and the two bundle stores. The canonical content is
  characterised: two registries have the same one exactly when they differ only in order.
\<close>

section \<open>Canonical content\<close>

definition propagation_text :: "propagation \<Rightarrow> string" where
  "propagation_text p = (case p of Lazy \<Rightarrow> ''lazy'' | Reactive \<Rightarrow> ''reactive''
     | Scheduled \<Rightarrow> ''scheduled'' | NoPropagation \<Rightarrow> ''none'')"

definition lifecycle_text :: "lifecycle \<Rightarrow> string" where
  "lifecycle_text l = (case l of Draft \<Rightarrow> ''draft'' | Shadow \<Rightarrow> ''shadow'' | Live \<Rightarrow> ''live''
     | Deprecated \<Rightarrow> ''deprecated'')"

text \<open>\<^verbatim>\<open>dep.version or features_by_name[dep.feature].feature_version\<close>.\<close>

definition pinned_version :: "(string, feature_def) dict \<Rightarrow> feature_dep \<Rightarrow> int res" where
  "pinned_version fbn d =
     (case d_version d of
        Some v \<Rightarrow> if v \<noteq> 0 then Inr v else rbind (dict_index fbn (d_feature d)) (\<lambda>f. Inr (f_version f))
      | None \<Rightarrow> rbind (dict_index fbn (d_feature d)) (\<lambda>f. Inr (f_version f)))"

definition dep_content :: "feature_dep \<Rightarrow> int \<Rightarrow> json" where
  "dep_content d v = JObj
     [(''feature'', JStr (d_feature d)), (''version'', JInt v), (''required'', JBool (d_required d)),
      (''max_input_age_seconds'', of_opt JInt (d_max_age d)),
      (''propagation'', JStr (propagation_text (d_propagation d)))]"

definition model_content :: "model_spec \<Rightarrow> json" where
  "model_content m = JObj
     [(''uri'', JStr (ms_uri m)), (''digest'', JStr (ms_digest m)),
      (''output_name'', JStr (ms_output_name m)), (''runner'', of_opt JStr (ms_runner m)),
      (''batch_only'', JBool (ms_batch_only m))]"

text \<open>\<^verbatim>\<open>sorted(xs, key=k)\<close> of freshly built dictionaries: each is carried with its key.\<close>

definition sorted_content :: "('k :: linorder \<times> json) list \<Rightarrow> json" where
  "sorted_content kds = JList (map snd (sort_key fst kds))"

definition feature_content :: "feature_def \<Rightarrow> json \<Rightarrow> json" where
  "feature_content f deps = JObj
     [(''name'', JStr (f_name f)), (''kind'', JStr (f_kind f)),
      (''feature_version'', JInt (f_version f)), (''dtype'', JStr (f_dtype f)),
      (''lifecycle'', JStr (lifecycle_text (f_lifecycle f))), (''udf'', JStr (f_udf f)),
      (''inputs'', of_str_list (sort (f_inputs f))), (''deps'', deps),
      (''model'', of_opt model_content (f_model f))]"

definition canonical_feature :: "(string, feature_def) dict \<Rightarrow> feature_def \<Rightarrow> json res" where
  "canonical_feature fbn f =
     rbind (map_res (\<lambda>d. rbind (pinned_version fbn d) (\<lambda>v. Inr ((d_feature d, v), dep_content d v)))
              (f_deps f))
       (\<lambda>deps. Inr (feature_content f (sorted_content deps)))"

definition groups_content :: "(string, string list) dict \<Rightarrow> json" where
  "groups_content gs = JObj (map (\<lambda>(g, ms). (g, of_str_list (sort ms))) gs)"

definition view_content :: "view_def \<Rightarrow> json \<Rightarrow> json" where
  "view_content v features = JObj
     [(''name'', JStr (v_name v)), (''entity'', JStr (v_entity v)),
      (''key_fields'', of_str_list (v_key_fields v)), (''view_version'', JInt (v_version v)),
      (''owner'', JStr (v_owner v)), (''status'', JStr (v_status v)),
      (''max_dependency_depth'', of_opt JInt (v_max_depth v)),
      (''feature_groups'', groups_content (v_groups v)), (''features'', features)]"

definition canonical_view :: "view_def \<Rightarrow> json res" where
  "canonical_view v =
     (let fbn = features_by_name v in
      rbind (map_res (\<lambda>f. rbind (canonical_feature fbn f) (\<lambda>d. Inr ((f_name f, f_version f), d)))
               (v_features v))
        (\<lambda>fs. Inr (view_content v (sorted_content fs))))"

definition entity_content :: "entity_def \<Rightarrow> json" where
  "entity_content e = JObj [(''name'', JStr (e_name e)), (''key_fields'', of_str_list (e_key_fields e))]"

definition source_content :: "source_def \<Rightarrow> json" where
  "source_content s = JObj
     [(''name'', JStr (s_name s)), (''type'', JStr (s_type s)),
      (''report_type'', JStr (s_report_type s)), (''ts_field'', JStr (s_ts_field s))]"

definition canonical_registry_content :: "registry \<Rightarrow> json res" where
  "canonical_registry_content r =
     rbind (map_res (\<lambda>v. rbind (canonical_view v) (\<lambda>d. Inr ((v_name v, v_version v), d))) (reg_views r))
       (\<lambda>views. Inr (JObj
         [(''entities'', sorted_content (map (\<lambda>e. (e_name e, entity_content e)) (reg_entities r))),
          (''sources'', sorted_content (map (\<lambda>s. (s_name s, source_content s)) (reg_sources r))),
          (''feature_views'', sorted_content views)]))"

definition compute_bundle_digest :: "hasher \<Rightarrow> registry \<Rightarrow> string res" where
  "compute_bundle_digest H r = rbind (canonical_registry_content r) (value_hash_of H)"

text \<open>The artifact-bound identity; the text sorts the keys of the artifact.\<close>

definition compute_final_bundle_digest :: "hasher \<Rightarrow> string \<Rightarrow> (string, string) dict \<Rightarrow> string res" where
  "compute_final_bundle_digest H digest artifact =
     value_hash_of H (JObj
       [(''registry_definition_digest'', JStr digest), (''feature_artifact'', of_str_dict (sort_key fst artifact))])"

section \<open>Registries that differ only in order\<close>

definition reordered :: "('a \<Rightarrow> 'b \<Rightarrow> bool) \<Rightarrow> 'a list \<Rightarrow> 'b list \<Rightarrow> bool" where
  "reordered R xs ys \<longleftrightarrow> (\<exists>zs. mset zs = mset ys \<and> list_all2 R xs zs)"

definition pin :: "(string, feature_def) dict \<Rightarrow> feature_dep \<Rightarrow> int option" where
  "pin fbn d = (case pinned_version fbn d of Inr v \<Rightarrow> Some v | Inl _ \<Rightarrow> None)"

definition same_dep ::
    "(string, feature_def) dict \<Rightarrow> (string, feature_def) dict \<Rightarrow> feature_dep \<Rightarrow> feature_dep \<Rightarrow> bool" where
  "same_dep fbn fbn' d e \<longleftrightarrow>
     d_feature d = d_feature e \<and> pin fbn d = pin fbn' e \<and> d_required d = d_required e
     \<and> d_max_age d = d_max_age e \<and> d_propagation d = d_propagation e"

definition same_feature ::
    "(string, feature_def) dict \<Rightarrow> (string, feature_def) dict \<Rightarrow> feature_def \<Rightarrow> feature_def \<Rightarrow> bool" where
  "same_feature fbn fbn' f g \<longleftrightarrow>
     f_name f = f_name g \<and> f_kind f = f_kind g \<and> f_version f = f_version g \<and> f_dtype f = f_dtype g
     \<and> f_lifecycle f = f_lifecycle g \<and> f_udf f = f_udf g \<and> mset (f_inputs f) = mset (f_inputs g)
     \<and> reordered (same_dep fbn fbn') (f_deps f) (f_deps g) \<and> f_model f = f_model g"

definition same_group :: "string \<times> string list \<Rightarrow> string \<times> string list \<Rightarrow> bool" where
  "same_group a b \<longleftrightarrow> fst a = fst b \<and> mset (snd a) = mset (snd b)"

definition same_view :: "view_def \<Rightarrow> view_def \<Rightarrow> bool" where
  "same_view v w \<longleftrightarrow>
     v_name v = v_name w \<and> v_entity v = v_entity w \<and> v_key_fields v = v_key_fields w
     \<and> v_version v = v_version w \<and> v_owner v = v_owner w \<and> v_status v = v_status w
     \<and> v_max_depth v = v_max_depth w \<and> reordered same_group (v_groups v) (v_groups w)
     \<and> reordered (same_feature (features_by_name v) (features_by_name w)) (v_features v) (v_features w)"

definition same_definitions :: "registry \<Rightarrow> registry \<Rightarrow> bool" where
  "same_definitions r s \<longleftrightarrow>
     mset (reg_entities r) = mset (reg_entities s) \<and> mset (reg_sources r) = mset (reg_sources s)
     \<and> reordered same_view (reg_views r) (reg_views s)"

lemma reordered_eq [simp]: "reordered (=) xs ys \<longleftrightarrow> mset xs = mset ys"
  by (auto simp: reordered_def list.rel_eq)

lemma reordered_mono:
  "reordered R xs ys \<Longrightarrow> (\<And>x y. x \<in> set xs \<Longrightarrow> y \<in> set ys \<Longrightarrow> R x y \<Longrightarrow> S x y) \<Longrightarrow> reordered S xs ys"
  unfolding reordered_def by (metis list.rel_mono_strong mset_eq_setD)

text \<open>Sorting by a key that identifies the elements undoes every reordering.\<close>

lemma sorted_pairs_reordered:
  fixes p :: "'a \<Rightarrow> 'k :: linorder \<times> 'v" and q :: "'b \<Rightarrow> 'k \<times> 'v"
  assumes R: "\<And>x y. x \<in> set xs \<Longrightarrow> y \<in> set ys \<Longrightarrow> R x y \<longleftrightarrow> p x = q y"
    and d: "distinct (map (\<lambda>x. fst (p x)) xs)"
  shows "reordered R xs ys \<longleftrightarrow> sort_key fst (map p xs) = sort_key fst (map q ys)"
proof
  assume "reordered R xs ys"
  then obtain zs where zs: "mset zs = mset ys" "list_all2 R xs zs" by (auto simp: reordered_def)
  have "list_all2 (\<lambda>x y. p x = q y) xs zs"
    using zs(2) by (rule list.rel_mono_strong) (metis R zs(1) mset_eq_setD)
  then have "map p xs = map q zs" by (simp add: list_all2_conv_all_nth list_eq_iff_nth_eq)
  then have "mset (map p xs) = mset (map q ys)" using zs(1) by simp
  then show "sort_key fst (map p xs) = sort_key fst (map q ys)"
    by (rule sort_key_perm) (use d in \<open>simp add: comp_def\<close>)
next
  assume "sort_key fst (map p xs) = sort_key fst (map q ys)"
  then have m: "mset (map p xs) = mset (map q ys)" by (metis mset_sort)
  have "list_all2 (\<lambda>a y. a = q y) (map q ys) ys" by (simp add: list_all2_conv_all_nth)
  from list_all2_reorder_left_invariance[OF this m] obtain zs where
    zs: "list_all2 (\<lambda>a y. a = q y) (map p xs) zs" "mset zs = mset ys" by blast
  have "list_all2 (\<lambda>x y. p x = q y) xs zs" using zs(1) by (simp add: list_all2_conv_all_nth)
  then have "list_all2 R xs zs"
    by (rule list.rel_mono_strong) (metis R zs(2) mset_eq_setD)
  with zs(2) show "reordered R xs ys" by (auto simp: reordered_def)
qed

lemma sort_keys_sorted_content:
  "sort_keys (sorted_content (map (\<lambda>x. (k x, g x)) xs))
     = JList (map snd (sort_key fst (map (\<lambda>x. (k x, sort_keys (g x))) xs)))"
  by (simp add: sorted_content_def sort_key_map comp_def)

lemma sorted_content_iff:
  fixes k :: "'a \<Rightarrow> 'k :: linorder" and k' :: "'b \<Rightarrow> 'k"
  assumes R: "\<And>x y. x \<in> set xs \<Longrightarrow> y \<in> set ys \<Longrightarrow> R x y \<longleftrightarrow> sort_keys (g x) = sort_keys (g' y)"
    and K: "\<And>x y. x \<in> set xs \<Longrightarrow> y \<in> set ys \<Longrightarrow> R x y \<Longrightarrow> k x = k' y"
    and D: "distinct (map k xs)"
  shows "sort_keys (sorted_content (map (\<lambda>x. (k x, g x)) xs))
      = sort_keys (sorted_content (map (\<lambda>y. (k' y, g' y)) ys)) \<longleftrightarrow> reordered R xs ys"
proof -
  let ?p = "\<lambda>x. (k x, sort_keys (g x))" and ?q = "\<lambda>y. (k' y, sort_keys (g' y))"
  have "reordered R xs ys \<longleftrightarrow> sort_key fst (map ?p xs) = sort_key fst (map ?q ys)"
    using R K by (intro sorted_pairs_reordered) (auto simp: D)
  also have "\<dots> \<longleftrightarrow> map snd (sort_key fst (map ?p xs)) = map snd (sort_key fst (map ?q ys))"
  proof
    assume eq: "map snd (sort_key fst (map ?p xs)) = map snd (sort_key fst (map ?q ys))"
    have s: "sort_key fst (map ?p xs) = map ?p (sort_key k xs)" "sort_key fst (map ?q ys) = map ?q (sort_key k' ys)"
      by (simp_all add: sort_key_map)
    have n: "length (sort_key k xs) = length (sort_key k' ys)" using arg_cong[OF eq, of length] by simp
    have "?p (sort_key k xs ! i) = ?q (sort_key k' ys ! i)" if i: "i < length (sort_key k xs)" for i
    proof -
      have m: "sort_key k xs ! i \<in> set xs" "sort_key k' ys ! i \<in> set ys"
        using i n by (metis nth_mem set_sort)+
      have "sort_keys (g (sort_key k xs ! i)) = sort_keys (g' (sort_key k' ys ! i))"
        using arg_cong[OF eq, of "\<lambda>l. l ! i"] i n by (simp add: s)
      with R[OF m] K[OF m] show ?thesis by blast
    qed
    with n show "sort_key fst (map ?p xs) = sort_key fst (map ?q ys)"
      unfolding s by (intro nth_equalityI) auto
  qed simp
  finally show ?thesis by (simp add: sort_keys_sorted_content)
qed

text \<open>Objects with the same keys are equal when their values are.\<close>

lemma same_keys_eq:
  "map fst xs = map fst ys \<Longrightarrow> distinct (map fst xs) \<Longrightarrow> set xs = set ys \<Longrightarrow> xs = ys"
proof (induction xs arbitrary: ys)
  case (Cons x xs)
  from Cons.prems(1) obtain y ys' where ys: "ys = y # ys'" "fst x = fst y" "map fst xs = map fst ys'"
    by (cases ys) auto
  have k: "fst ` set ys' = fst ` set xs" using ys(3) by (metis set_map)
  have "fst x \<notin> fst ` set xs" using Cons.prems(2) by simp
  then have "x \<notin> set ys'" "y \<notin> set xs" using k ys(2) by (metis image_eqI)+
  with Cons.prems(3) ys(1) have x: "x = y" by auto
  have "x \<notin> set xs" using Cons.prems(2) by auto
  with \<open>x \<notin> set ys'\<close> Cons.prems(3) ys(1) x have "set xs = set ys'" by (auto simp: insert_eq_iff)
  with Cons.IH[OF ys(3)] Cons.prems(2) x ys(1) show ?case by simp
qed simp

lemma sort_keys_obj_iff:
  assumes "map fst a = map fst b" "distinct (map fst a)"
  shows "sort_keys (JObj a) = sort_keys (JObj b) \<longleftrightarrow> map (\<lambda>x. sort_keys (snd x)) a = map (\<lambda>x. sort_keys (snd x)) b"
proof
  let ?s = "map (\<lambda>(k, v). (k, sort_keys v))"
  assume "sort_keys (JObj a) = sort_keys (JObj b)"
  then have "sort_key fst (?s a) = sort_key fst (?s b)" by (simp add: sort_keys.simps(2))
  then have "mset (?s a) = mset (?s b)" by (metis mset_sort)
  then have s: "set (?s a) = set (?s b)" by (rule mset_eq_setD)
  have f: "map fst (?s a) = map fst a" "map fst (?s b) = map fst b" by (simp_all add: case_prod_beta comp_def)
  have "?s a = ?s b" by (rule same_keys_eq) (simp_all only: f assms(2) s, simp_all only: assms(1))
  then have "map snd (?s a) = map snd (?s b)" by simp
  then show "map (\<lambda>x. sort_keys (snd x)) a = map (\<lambda>x. sort_keys (snd x)) b"
    by (simp add: case_prod_beta comp_def)
next
  assume "map (\<lambda>x. sort_keys (snd x)) a = map (\<lambda>x. sort_keys (snd x)) b"
  with assms(1) have "map (\<lambda>(k, v). (k, sort_keys v)) a = map (\<lambda>(k, v). (k, sort_keys v)) b"
    by (intro nth_equalityI) (auto simp: list_eq_iff_nth_eq case_prod_beta)
  then show "sort_keys (JObj a) = sort_keys (JObj b)" by (simp add: sort_keys.simps(2))
qed

section \<open>The content determines the definitions\<close>

lemma of_str_list_inj [simp]: "of_str_list xs = of_str_list ys \<longleftrightarrow> xs = ys"
  by (metis as_str_list_of_str_list sum.inject(2))

lemma of_opt_str_inj [simp]: "of_opt JStr x = of_opt JStr y \<longleftrightarrow> x = y"
  by (cases x; cases y) (simp_all add: of_opt_def)

lemma of_opt_int_inj [simp]: "of_opt JInt x = of_opt JInt y \<longleftrightarrow> x = y"
  by (cases x; cases y) (simp_all add: of_opt_def)

lemma propagation_text_inj [simp]: "propagation_text p = propagation_text q \<longleftrightarrow> p = q"
  by (cases p; cases q) (simp_all add: propagation_text_def)

lemma lifecycle_text_inj [simp]: "lifecycle_text p = lifecycle_text q \<longleftrightarrow> p = q"
  by (cases p; cases q) (simp_all add: lifecycle_text_def)

lemma sort_eq_iff: "sort xs = sort ys \<longleftrightarrow> mset xs = mset (ys :: 'a :: linorder list)"
  by (metis mset_sort sort_mset_cong)

lemma dep_content_iff: "sort_keys (dep_content d v) = sort_keys (dep_content e w) \<longleftrightarrow>
    d_feature d = d_feature e \<and> v = w \<and> d_required d = d_required e \<and> d_max_age d = d_max_age e
    \<and> d_propagation d = d_propagation e"
  unfolding dep_content_def by (subst sort_keys_obj_iff) auto

lemma model_content_iff: "sort_keys (model_content m) = sort_keys (model_content n) \<longleftrightarrow> m = (n :: model_spec)"
  unfolding model_content_def by (subst sort_keys_obj_iff) auto

lemma model_opt_iff:
  "sort_keys (of_opt model_content m) = sort_keys (of_opt model_content n) \<longleftrightarrow> m = (n :: model_spec option)"
proof (cases m; cases n)
  fix a b assume "m = Some a" "n = Some b"
  then show ?thesis by (simp add: of_opt_def model_content_iff)
qed (simp_all add: of_opt_def model_content_def sort_keys.simps(2))

lemma entity_content_iff: "sort_keys (entity_content e) = sort_keys (entity_content e') \<longleftrightarrow> e = (e' :: entity_def)"
  unfolding entity_content_def by (subst sort_keys_obj_iff) auto

lemma source_content_iff: "sort_keys (source_content s) = sort_keys (source_content s') \<longleftrightarrow> s = (s' :: source_def)"
  unfolding source_content_def by (subst sort_keys_obj_iff) auto

lemma feature_content_iff: "sort_keys (feature_content f ds) = sort_keys (feature_content g es) \<longleftrightarrow>
    f_name f = f_name g \<and> f_kind f = f_kind g \<and> f_version f = f_version g \<and> f_dtype f = f_dtype g
     \<and> f_lifecycle f = f_lifecycle g \<and> f_udf f = f_udf g \<and> mset (f_inputs f) = mset (f_inputs g)
     \<and> sort_keys ds = sort_keys es \<and> f_model f = f_model g"
  unfolding feature_content_def by (subst sort_keys_obj_iff) (auto simp: sort_eq_iff model_opt_iff)

lemma groups_content_iff:
  assumes "dict_wf gs"
  shows "sort_keys (groups_content gs) = sort_keys (groups_content hs) \<longleftrightarrow> reordered same_group gs hs"
proof -
  let ?p = "\<lambda>x :: string \<times> string list. (fst x, of_str_list (sort (snd x)))"
  have "reordered same_group gs hs \<longleftrightarrow> sort_key fst (map ?p gs) = sort_key fst (map ?p hs)"
    using assms by (intro sorted_pairs_reordered)
      (auto simp: same_group_def sort_eq_iff dict_keys_def case_prod_beta)
  then show ?thesis
    by (simp add: groups_content_def sort_keys.simps(2) case_prod_beta comp_def)
qed

lemma view_content_iff:
  assumes "dict_wf (v_groups v)"
  shows "sort_keys (view_content v fs) = sort_keys (view_content w gs) \<longleftrightarrow>
     v_name v = v_name w \<and> v_entity v = v_entity w \<and> v_key_fields v = v_key_fields w
     \<and> v_version v = v_version w \<and> v_owner v = v_owner w \<and> v_status v = v_status w
     \<and> v_max_depth v = v_max_depth w \<and> reordered same_group (v_groups v) (v_groups w)
     \<and> sort_keys fs = sort_keys gs"
  unfolding view_content_def by (subst sort_keys_obj_iff) (auto simp: groups_content_iff[OF assms])

text \<open>What the code computes when every dependency is a feature of the view.\<close>

definition deps_known :: "(string, feature_def) dict \<Rightarrow> feature_def \<Rightarrow> bool" where
  "deps_known fbn f \<longleftrightarrow> (\<forall>d \<in> set (f_deps f). map_of fbn (d_feature d) \<noteq> None)"

definition feature_doc :: "(string, feature_def) dict \<Rightarrow> feature_def \<Rightarrow> json" where
  "feature_doc fbn f = feature_content f (sorted_content
     (map (\<lambda>d. ((d_feature d, the (pin fbn d)), dep_content d (the (pin fbn d)))) (f_deps f)))"

definition view_doc :: "view_def \<Rightarrow> json" where
  "view_doc v = view_content v (sorted_content
     (map (\<lambda>f. ((f_name f, f_version f), feature_doc (features_by_name v) f)) (v_features v)))"

definition registry_doc :: "registry \<Rightarrow> json" where
  "registry_doc r = JObj
     [(''entities'', sorted_content (map (\<lambda>e. (e_name e, entity_content e)) (reg_entities r))),
      (''sources'', sorted_content (map (\<lambda>s. (s_name s, source_content s)) (reg_sources r))),
      (''feature_views'', sorted_content (map (\<lambda>v. ((v_name v, v_version v), view_doc v)) (reg_views r)))]"

lemma pinned_known: "map_of fbn (d_feature d) \<noteq> None \<Longrightarrow> \<exists>v. pinned_version fbn d = Inr v \<and> pin fbn d = Some v"
  by (auto simp: pin_def pinned_version_def dict_index_def split: option.splits)

lemma canonical_feature_known:
  assumes "deps_known fbn f"
  shows "canonical_feature fbn f = Inr (feature_doc fbn f)"
proof -
  have "map_res (\<lambda>d. rbind (pinned_version fbn d) (\<lambda>v. Inr ((d_feature d, v), dep_content d v))) (f_deps f)
    = Inr (map (\<lambda>d. ((d_feature d, the (pin fbn d)), dep_content d (the (pin fbn d)))) (f_deps f))"
  proof (rule map_res_all_Inr)
    fix d assume "d \<in> set (f_deps f)"
    then have "map_of fbn (d_feature d) \<noteq> None" using assms by (simp add: deps_known_def)
    from pinned_known[OF this] show "rbind (pinned_version fbn d) (\<lambda>v. Inr ((d_feature d, v), dep_content d v))
      = Inr ((d_feature d, the (pin fbn d)), dep_content d (the (pin fbn d)))" by auto
  qed
  then show ?thesis by (simp add: canonical_feature_def feature_doc_def)
qed

lemma canonical_view_known:
  assumes "\<forall>f \<in> set (v_features v). deps_known (features_by_name v) f"
  shows "canonical_view v = Inr (view_doc v)"
proof -
  have "map_res (\<lambda>f. rbind (canonical_feature (features_by_name v) f) (\<lambda>d. Inr ((f_name f, f_version f), d))) (v_features v)
    = Inr (map (\<lambda>f. ((f_name f, f_version f), feature_doc (features_by_name v) f)) (v_features v))"
    using assms by (intro map_res_all_Inr) (simp add: canonical_feature_known)
  then show ?thesis by (simp add: canonical_view_def view_doc_def)
qed

text \<open>
  The registries the digest is defined for: validated ones whose features name each dependency
  once. (The validator accepts a feature that lists a dependency twice; the two entries then have
  the same sorting key and their declared order shows in the content.)
\<close>

definition bundle_view :: "view_def \<Rightarrow> bool" where
  "bundle_view v \<longleftrightarrow> dict_wf (v_groups v) \<and> (\<forall>f \<in> set (v_features v). distinct (dep_names f))"

definition bundle_ready :: "registry \<Rightarrow> bool" where
  "bundle_ready r \<longleftrightarrow> registry_rules r \<and> (\<forall>v \<in> set (reg_views r). bundle_view v)"

lemma bundle_ready_view:
  assumes "bundle_ready r" "v \<in> set (reg_views r)"
  shows "dict_wf (v_groups v)" "distinct (map f_name (v_features v))"
    "\<forall>f \<in> set (v_features v). distinct (dep_names f) \<and> deps_known (features_by_name v) f"
proof -
  have v: "view_rules (reg_entities r) (reg_sources r) v" "bundle_view v"
    using assms by (auto simp: bundle_ready_def registry_rules_def)
  then show "dict_wf (v_groups v)" "distinct (map f_name (v_features v))"
    by (simp_all only: bundle_view_def view_rules_def)
  have "\<forall>f \<in> set (v_features v). \<forall>dep \<in> set (f_deps f). dep_valid v f dep" using v(1) by (simp add: view_rules_def)
  then show "\<forall>f \<in> set (v_features v). distinct (dep_names f) \<and> deps_known (features_by_name v) f"
    using v(2) unfolding bundle_view_def deps_known_def dep_valid_def by (metis option.distinct(1))
qed

lemma canonical_registry_known:
  assumes "bundle_ready r"
  shows "canonical_registry_content r = Inr (registry_doc r)"
proof -
  have "map_res (\<lambda>v. rbind (canonical_view v) (\<lambda>d. Inr ((v_name v, v_version v), d))) (reg_views r)
    = Inr (map (\<lambda>v. ((v_name v, v_version v), view_doc v)) (reg_views r))"
    using bundle_ready_view(3)[OF assms] by (intro map_res_all_Inr) (simp add: canonical_view_known)
  then show ?thesis by (simp add: canonical_registry_content_def registry_doc_def)
qed

lemma distinct_map_pair: "distinct (map k xs) \<Longrightarrow> distinct (map (\<lambda>x. (k x, j x)) xs)"
  by (auto simp: distinct_map inj_on_def)

lemma feature_doc_iff:
  assumes "distinct (dep_names f)" "deps_known fbn f" "deps_known fbn' g"
  shows "sort_keys (feature_doc fbn f) = sort_keys (feature_doc fbn' g) \<longleftrightarrow> same_feature fbn fbn' f g"
proof -
  have "sort_keys (sorted_content (map (\<lambda>d. ((d_feature d, the (pin fbn d)), dep_content d (the (pin fbn d)))) (f_deps f)))
      = sort_keys (sorted_content (map (\<lambda>d. ((d_feature d, the (pin fbn' d)), dep_content d (the (pin fbn' d)))) (f_deps g)))
      \<longleftrightarrow> reordered (same_dep fbn fbn') (f_deps f) (f_deps g)"
  proof (rule sorted_content_iff)
    fix d e assume "d \<in> set (f_deps f)" "e \<in> set (f_deps g)"
    then obtain v w where "pin fbn d = Some v" "pin fbn' e = Some w"
      using assms(2,3) pinned_known by (metis deps_known_def)
    then show "same_dep fbn fbn' d e \<longleftrightarrow>
        sort_keys (dep_content d (the (pin fbn d))) = sort_keys (dep_content e (the (pin fbn' e)))"
      by (auto simp: same_dep_def dep_content_iff)
  next
    show "distinct (map (\<lambda>d. (d_feature d, the (pin fbn d))) (f_deps f))"
      using assms(1) by (intro distinct_map_pair) (simp add: dep_names_def)
  qed (simp add: same_dep_def)
  then show ?thesis by (simp add: feature_doc_def feature_content_iff same_feature_def)
qed

lemma view_doc_iff:
  assumes "dict_wf (v_groups v)" "distinct (map f_name (v_features v))"
    and "\<forall>f \<in> set (v_features v). distinct (dep_names f) \<and> deps_known (features_by_name v) f"
    and "\<forall>f \<in> set (v_features w). deps_known (features_by_name w) f"
  shows "sort_keys (view_doc v) = sort_keys (view_doc w) \<longleftrightarrow> same_view v w"
proof -
  let ?d = "\<lambda>v f. ((f_name f, f_version f), feature_doc (features_by_name v) f)"
  have "sort_keys (sorted_content (map (?d v) (v_features v))) = sort_keys (sorted_content (map (?d w) (v_features w)))
    \<longleftrightarrow> reordered (same_feature (features_by_name v) (features_by_name w)) (v_features v) (v_features w)"
    using assms(2-4)
    by (intro sorted_content_iff) (auto simp: feature_doc_iff same_feature_def intro: distinct_map_pair)
  then show ?thesis by (simp add: view_doc_def view_content_iff[OF assms(1)] same_view_def)
qed

lemma registry_doc_iff:
  assumes "bundle_ready r" "bundle_ready s"
  shows "sort_keys (registry_doc r) = sort_keys (registry_doc s) \<longleftrightarrow> same_definitions r s"
proof -
  have rules: "distinct (map e_name (reg_entities r))" "distinct (map s_name (reg_sources r))"
    "distinct (map v_name (reg_views r))"
    using assms(1) by (auto simp: bundle_ready_def registry_rules_def)
  have e: "sort_keys (sorted_content (map (\<lambda>e. (e_name e, entity_content e)) (reg_entities r)))
      = sort_keys (sorted_content (map (\<lambda>e. (e_name e, entity_content e)) (reg_entities s)))
      \<longleftrightarrow> reordered (=) (reg_entities r) (reg_entities s)"
    by (rule sorted_content_iff) (simp_all add: entity_content_iff rules)
  have so: "sort_keys (sorted_content (map (\<lambda>e. (s_name e, source_content e)) (reg_sources r)))
      = sort_keys (sorted_content (map (\<lambda>e. (s_name e, source_content e)) (reg_sources s)))
      \<longleftrightarrow> reordered (=) (reg_sources r) (reg_sources s)"
    by (rule sorted_content_iff) (simp_all add: source_content_iff rules)
  have v: "sort_keys (sorted_content (map (\<lambda>v. ((v_name v, v_version v), view_doc v)) (reg_views r)))
      = sort_keys (sorted_content (map (\<lambda>v. ((v_name v, v_version v), view_doc v)) (reg_views s)))
      \<longleftrightarrow> reordered same_view (reg_views r) (reg_views s)"
  proof (rule sorted_content_iff)
    fix v w assume "v \<in> set (reg_views r)" "w \<in> set (reg_views s)"
    then show "same_view v w \<longleftrightarrow> sort_keys (view_doc v) = sort_keys (view_doc w)"
      using bundle_ready_view[OF assms(1)] bundle_ready_view(3)[OF assms(2)] by (intro view_doc_iff[symmetric]) auto
  qed (auto simp: same_view_def rules intro: distinct_map_pair)
  show ?thesis
    unfolding registry_doc_def by (subst sort_keys_obj_iff) (auto simp: e so v same_definitions_def)
qed

section \<open>The text of a document without its key order\<close>

definition outcome_of :: "'a res \<Rightarrow> 'a option" where
  "outcome_of r = (case r of Inr x \<Rightarrow> Some x | Inl _ \<Rightarrow> None)"

lemma outcome_of_simps [simp]: "outcome_of (Inr x) = Some x" "outcome_of (Inl e) = None"
  "outcome_of (rbind m g) = Option.bind (outcome_of m) (\<lambda>x. outcome_of (g x))"
  by (simp_all add: outcome_of_def) (cases m; simp)

lemma outcome_of_list:
  "outcome_of (map_res f xs) =
     (if \<forall>x \<in> set xs. outcome_of (f x) \<noteq> None then Some (map (\<lambda>x. the (outcome_of (f x))) xs) else None)"
  by (induction xs) (auto split: bind_splits)

lemma outcome_of_keyed:
  "outcome_of (map_res (\<lambda>(k, v). rbind (f v) (\<lambda>t. Inr (k, t))) kvs) =
     (if \<forall>x \<in> set kvs. outcome_of (f (snd x)) \<noteq> None
      then Some (map (\<lambda>(k, v). (k, the (outcome_of (f v)))) kvs) else None)"
  by (induction kvs) (auto split: bind_splits)

lemma dumps_sort_keys: "outcome_of (json_dumps repr st (sort_keys d)) = outcome_of (json_dumps repr st d)"
proof (induction d)
  case (JList xs)
  then show ?case by (simp add: outcome_of_list cong: map_cong)
next
  case (JObj kvs)
  let ?t = "\<lambda>v. the (outcome_of (json_dumps repr st v))"
  have i: "outcome_of (json_dumps repr st (sort_keys (snd x))) = outcome_of (json_dumps repr st (snd x))"
    if "x \<in> set kvs" for x
    using JObj.IH[OF that, of "snd x"] by (cases x) (simp add: snds.simps)
  have m: "map (\<lambda>x. (fst x, ?t (sort_keys (snd x)))) kvs = map (\<lambda>x. (fst x, ?t (snd x))) kvs"
    using i by simp
  have e: "map (\<lambda>(k, v). (k, ?t v)) kvs = map (\<lambda>x. (fst x, ?t (snd x))) kvs" by auto
  have "sort_key fst (map (\<lambda>(k, v). (k, ?t v)) (sort_key fst (map (\<lambda>(k, v). (k, sort_keys v)) kvs)))
      = sort_key fst (map (\<lambda>x. (fst x, ?t (sort_keys (snd x)))) kvs)"
    by (simp add: sort_key_map case_prod_beta comp_def)
  then have s: "sort_key fst (map (\<lambda>(k, v). (k, ?t v)) (sort_key fst (map (\<lambda>(k, v). (k, sort_keys v)) kvs)))
      = sort_key fst (map (\<lambda>(k, v). (k, ?t v)) kvs)"
    by (simp only: m e)
  have "(\<forall>x \<in> set (sort_key fst (map (\<lambda>(k, v). (k, sort_keys v)) kvs)). outcome_of (json_dumps repr st (snd x)) \<noteq> None)
      \<longleftrightarrow> (\<forall>x \<in> set kvs. outcome_of (json_dumps repr st (snd x)) \<noteq> None)"
    using i by (auto simp: case_prod_beta)
  with s show ?case by (simp add: sort_keys.simps(2) outcome_of_keyed)
qed simp_all

lemma canonical_text: "canonical_value_json H d = (case outcome_of (json_dumps (float_repr H) canonical_style d) of
    Some s \<Rightarrow> Inr s | None \<Rightarrow> Inl (ValueError ''value is not canonically JSON-serializable''))"
  by (simp add: canonical_value_json_def outcome_of_def split: sum.split)

lemma value_hash_sorted:
  assumes "sort_keys d = sort_keys d'"
  shows "value_hash_of H d = value_hash_of H d'"
proof -
  have "outcome_of (json_dumps (float_repr H) canonical_style d) = outcome_of (json_dumps (float_repr H) canonical_style d')"
    by (metis assms dumps_sort_keys)
  then show ?thesis by (simp add: value_hash_of_def canonical_text)
qed

lemma digest_order_independent:
  assumes "bundle_ready r" "bundle_ready s" "same_definitions r s"
  shows "compute_bundle_digest H r = compute_bundle_digest H s"
proof -
  have "value_hash_of H (registry_doc r) = value_hash_of H (registry_doc s)"
    by (rule value_hash_sorted) (use registry_doc_iff[OF assms(1,2)] assms(3) in simp)
  then show ?thesis by (simp only: compute_bundle_digest_def canonical_registry_known assms rbind.simps)
qed

end
