(* ===== verification/BundleStore.thy ===== *)
theory BundleStore
  imports Bundle Events
begin

text \<open>
  The registry bundle as a record with its document form, its construction from a registry, and
  the two bundle stores of fs_core/registry/bundle.py under one contract: what was published under
  a digest first is what is read under it for ever.
\<close>

section \<open>Bundles\<close>

record registry_bundle =
  bu_id :: string
  bu_digest :: string
  bu_created_at :: datetime
  bu_views :: "string list"
  bu_features :: "string list"
  bu_registry_version :: "string option"
  bu_source_ref :: "string option"
  bu_metadata :: "(string, string) dict"
  bu_artifact :: "(string, string) dict option"
  bu_definition_digest :: "string option"

type_synonym bundle_key = "string \<times> string option \<times> string list \<times> string list"

definition definitional_key :: "registry_bundle \<Rightarrow> bundle_key" where
  "definitional_key b = (bu_digest b, bu_registry_version b, bu_views b, bu_features b)"

definition bu_to_dict :: "registry_bundle \<Rightarrow> json" where
  "bu_to_dict b = JObj
     ([(''bundle_id'', JStr (bu_id b)), (''bundle_digest'', JStr (bu_digest b)),
       (''created_at'', of_iso (bu_created_at b)), (''views'', of_str_list (bu_views b)),
       (''features'', of_str_list (bu_features b)),
       (''registry_version'', of_opt JStr (bu_registry_version b)),
       (''source_ref'', of_opt JStr (bu_source_ref b)), (''metadata'', of_str_dict (bu_metadata b))]
      @ (case bu_artifact b of
           None \<Rightarrow> []
         | Some a \<Rightarrow> [(''feature_artifact'', of_str_dict a),
             (''registry_definition_digest'', of_opt JStr (bu_definition_digest b))]))"

definition bu_from_dict :: "json \<Rightarrow> registry_bundle res" where
  "bu_from_dict d =
     rbind (rbind (jget d ''feature_artifact'' JNull) (as_opt as_str_dict)) (\<lambda>artifact.
     rbind (str_item d ''bundle_id'') (\<lambda>id1.
     rbind (str_item d ''bundle_digest'') (\<lambda>digest1.
     rbind (iso_item d ''created_at'') (\<lambda>created_at.
     rbind (rbind (jitem d ''views'') as_str_list) (\<lambda>views.
     rbind (rbind (jitem d ''features'') as_str_list) (\<lambda>features.
     rbind (opt_str_get d ''registry_version'') (\<lambda>version.
     rbind (opt_str_get d ''source_ref'') (\<lambda>source_ref.
     rbind (rbind (jget d ''metadata'' (JObj [])) as_str_dict) (\<lambda>metadata.
     rbind (opt_str_get d ''registry_definition_digest'') (\<lambda>definition_digest.
     Inr \<lparr>bu_id = id1, bu_digest = digest1, bu_created_at = created_at, bu_views = views,
          bu_features = features, bu_registry_version = version, bu_source_ref = source_ref,
          bu_metadata = metadata, bu_artifact = artifact,
          bu_definition_digest = definition_digest\<rparr>))))))))))"

text \<open>A definition digest is kept with the artifact only, as the builder sets it.\<close>

definition bu_wf :: "registry_bundle \<Rightarrow> bool" where
  "bu_wf b \<longleftrightarrow> stamp (bu_created_at b) \<and> (bu_artifact b = None \<longrightarrow> bu_definition_digest b = None)"

definition bu_normal :: "registry_bundle \<Rightarrow> registry_bundle" where
  "bu_normal b = b\<lparr>bu_metadata := sort_key fst (bu_metadata b),
     bu_artifact := map_option (sort_key fst) (bu_artifact b)\<rparr>"

lemma bu_read:
  assumes "bu_wf b"
  shows "bu_from_dict (sort_keys (bu_to_dict b)) = Inr (bu_normal b)"
proof (cases "bu_artifact b")
  case None
  with assms show ?thesis
    by (simp add: bu_wf_def bu_to_dict_def bu_from_dict_def bu_normal_def field_reads as_opt_def[of _ JNull])
next
  case (Some a)
  have "as_opt as_str_dict (of_str_dict (sort_key fst a)) = Inr (Some (sort_key fst a))"
    by (simp add: as_opt_def of_str_dict_def as_str_dict_of_str_dict[unfolded of_str_dict_def])
  with Some assms show ?thesis
    by (simp add: bu_wf_def bu_to_dict_def bu_from_dict_def bu_normal_def field_reads)
qed

lemma bu_plain: "json_plain (bu_to_dict b)"
  by (cases "bu_artifact b") (auto simp: bu_to_dict_def)

interpretation bu: codec "\<lambda>b. Inr (bu_to_dict b)" bu_from_dict bu_wf bu_normal
  by unfold_locales (simp_all add: bu_read bu_plain, simp_all add: bu_wf_def bu_normal_def option.map_comp comp_def)

section \<open>Building a bundle\<close>

definition view_label :: "view_def \<Rightarrow> string" where
  "view_label v = v_name v @ '':v'' @ int_str (v_version v)"

definition feature_label :: "view_def \<Rightarrow> feature_def \<Rightarrow> string" where
  "feature_label v f = view_label v @ '':'' @ f_name f @ '':v'' @ int_str (f_version f)"

definition build_registry_bundle ::
    "hasher \<Rightarrow> registry \<Rightarrow> string option \<Rightarrow> datetime \<Rightarrow> string option \<Rightarrow> (string, string) dict option
      \<Rightarrow> (string, string) dict option \<Rightarrow> registry_bundle res" where
  "build_registry_bundle H r bundle_id created_at source_ref metadata artifact =
     rbind (compute_bundle_digest H r) (\<lambda>definition_digest.
     rbind (case artifact of
              None \<Rightarrow> Inr (definition_digest, None)
            | Some a \<Rightarrow> rbind (compute_final_bundle_digest H definition_digest a)
                (\<lambda>digest1. Inr (digest1, Some definition_digest))) (\<lambda>(digest1, registry_digest).
     Inr \<lparr>bu_id = (case bundle_id of Some i \<Rightarrow> if i = [] then digest1 else i | None \<Rightarrow> digest1),
          bu_digest = digest1, bu_created_at = created_at,
          bu_views = sort (map view_label (reg_views r)),
          bu_features = sort (concat (map (\<lambda>v. map (feature_label v) (v_features v)) (reg_views r))),
          bu_registry_version = Some (reg_version r), bu_source_ref = source_ref,
          bu_metadata = (case metadata of None \<Rightarrow> [] | Some m \<Rightarrow> m), bu_artifact = artifact,
          bu_definition_digest = registry_digest\<rparr>))"

text \<open>A bundle that the builder returns can be stored and read back.\<close>

lemma built_bundle_wf:
  assumes "build_registry_bundle H r i t src md a = Inr b" "stamp t"
  shows "bu_wf b"
proof (cases a)
  case None
  with assms show ?thesis by (clarsimp simp: build_registry_bundle_def bu_wf_def)
next
  case (Some x)
  with assms show ?thesis by (clarsimp simp: build_registry_bundle_def bu_wf_def)
qed

section \<open>The contract of a bundle store\<close>

locale bundle_store =
  fixes put :: "'s \<Rightarrow> registry_bundle \<Rightarrow> 's res"
    and get :: "'s \<Rightarrow> string \<Rightarrow> registry_bundle option res"
    and ok :: "registry_bundle \<Rightarrow> bool"
    and inv :: "'s \<Rightarrow> bool"
    and norm :: "registry_bundle \<Rightarrow> registry_bundle"
  assumes get_total: "inv s \<Longrightarrow> ok b \<Longrightarrow> \<exists>x. get s (bu_digest b) = Inr x"
    and put_new: "inv s \<Longrightarrow> ok b \<Longrightarrow> get s (bu_digest b) = Inr None \<Longrightarrow>
      \<exists>s'. put s b = Inr s' \<and> inv s' \<and> get s' (bu_digest b) = Inr (Some (norm b))
        \<and> (\<forall>c. ok c \<longrightarrow> bu_digest c \<noteq> bu_digest b \<longrightarrow> get s' (bu_digest c) = get s (bu_digest c))"
    and put_again: "inv s \<Longrightarrow> ok b \<Longrightarrow> get s (bu_digest b) = Inr (Some e) \<Longrightarrow>
      put s b = (if definitional_key e = definitional_key b then Inr s
                 else Inl (ValueError ''registry bundles are immutable''))"
begin

text \<open>A publisher that goes on after a refusal.\<close>

definition publish_bundle :: "registry_bundle \<Rightarrow> 's \<Rightarrow> 's" where
  "publish_bundle b s = (case put s b of Inr s' \<Rightarrow> s' | Inl _ \<Rightarrow> s)"

lemma publish_cases:
  assumes "inv s" "ok b"
  shows "inv (publish_bundle b s) \<and> (\<forall>c. ok c \<longrightarrow> get (publish_bundle b s) (bu_digest c) =
    (if bu_digest c = bu_digest b \<and> get s (bu_digest c) = Inr None then Inr (Some (norm b)) else get s (bu_digest c)))"
proof -
  from get_total[OF assms] obtain x where x: "get s (bu_digest b) = Inr x" by blast
  show ?thesis
  proof (cases x)
    case None
    from put_new[OF assms x[unfolded None]] obtain s' where "put s b = Inr s'" "inv s'"
      "get s' (bu_digest b) = Inr (Some (norm b))"
      "\<forall>c. ok c \<longrightarrow> bu_digest c \<noteq> bu_digest b \<longrightarrow> get s' (bu_digest c) = get s (bu_digest c)" by blast
    with x None show ?thesis by (auto simp: publish_bundle_def)
  next
    case (Some e)
    from put_again[OF assms x[unfolded Some]] assms x Some show ?thesis by (auto simp: publish_bundle_def)
  qed
qed

text \<open>The first bundle published under a digest is read under it after any later publications.\<close>

lemma first_published_stays:
  assumes "inv s" "\<forall>b \<in> set bs. ok b" "ok c"
  shows "inv (fold publish_bundle bs s) \<and> get (fold publish_bundle bs s) (bu_digest c) =
    (case get s (bu_digest c) of
       Inr None \<Rightarrow> Inr (map_option norm (find (\<lambda>b. bu_digest b = bu_digest c) bs))
     | r \<Rightarrow> r)"
  using assms(1,2)
proof (induction bs arbitrary: s)
  case Nil
  from get_total[OF Nil(1) assms(3)] Nil(1) show ?case by (auto split: option.split)
next
  case (Cons b bs)
  have b: "ok b" "\<forall>b \<in> set bs. ok b" using Cons.prems(2) by auto
  note p = publish_cases[OF Cons.prems(1) b(1)]
  from get_total[OF Cons.prems(1) assms(3)] obtain x where x: "get s (bu_digest c) = Inr x" by blast
  from Cons.IH[OF conjunct1[OF p] b(2)] p assms(3) x show ?case
    by (cases x) auto
qed

end

section \<open>In memory\<close>

type_synonym bundle_mem = "(string, registry_bundle) dict"

definition bmem_get :: "bundle_mem \<Rightarrow> string \<Rightarrow> registry_bundle option" where
  "bmem_get s digest1 = map_of s digest1"

definition bmem_put :: "bundle_mem \<Rightarrow> registry_bundle \<Rightarrow> bundle_mem res" where
  "bmem_put s b =
     (case map_of s (bu_digest b) of
        None \<Rightarrow> Inr (dict_set (bu_digest b) b s)
      | Some e \<Rightarrow>
          if definitional_key e \<noteq> definitional_key b
          then Inl (ValueError ''registry bundles are immutable'') else Inr s)"

definition bmem_list :: "bundle_mem \<Rightarrow> registry_bundle list" where
  "bmem_list s = dict_values s"

interpretation bmem: bundle_store bmem_put "\<lambda>s d. Inr (bmem_get s d)" "\<lambda>_. True" "\<lambda>_. True" "\<lambda>b. b"
  by unfold_locales (auto simp: bmem_put_def bmem_get_def)

section \<open>On the file system\<close>

text \<open>One JSON document per file of the directory; writing and parsing the text are inverse.\<close>

type_synonym bundle_files = "(string, json) dict"

definition digest_filename :: "string \<Rightarrow> string" where
  "digest_filename digest1 = map (\<lambda>c. if c = CHR '':'' then CHR ''_'' else c) digest1 @ ''.json''"

definition bfile_get :: "bundle_files \<Rightarrow> string \<Rightarrow> registry_bundle option res" where
  "bfile_get s digest1 =
     (case map_of s (digest_filename digest1) of
        None \<Rightarrow> Inr None
      | Some d \<Rightarrow> rbind (bu_from_dict d) (\<lambda>b. Inr (Some b)))"

definition bfile_put :: "(pyfloat \<Rightarrow> string) \<Rightarrow> bundle_files \<Rightarrow> registry_bundle \<Rightarrow> bundle_files res" where
  "bfile_put repr s b =
     rbind (bfile_get s (bu_digest b)) (\<lambda>existing.
     case existing of
       Some e \<Rightarrow>
         if definitional_key e \<noteq> definitional_key b
         then Inl (ValueError ''registry bundles are immutable'') else Inr s
     | None \<Rightarrow> rbind (encode_json repr (bu_to_dict b)) (\<lambda>d. Inr (dict_set (digest_filename (bu_digest b)) d s)))"

definition bfile_list :: "bundle_files \<Rightarrow> registry_bundle list res" where
  "bfile_list s = map_res (\<lambda>(_, d). bu_from_dict d) (sort_key fst s)"

text \<open>Digests of the form the platform computes have different file names.\<close>

definition sha_digest :: "string \<Rightarrow> bool" where
  "sha_digest d \<longleftrightarrow> (\<exists>hex. d = ''sha256:'' @ hex \<and> CHR '':'' \<notin> set hex)"

lemma digest_filename_inj:
  assumes "sha_digest d" "sha_digest d'" "digest_filename d = digest_filename d'"
  shows "d = d'"
proof -
  let ?f = "\<lambda>c. if c = CHR '':'' then CHR ''_'' else c"
  have hex: "map ?f hex = hex" if "CHR '':'' \<notin> set hex" for hex
    using that by (induction hex) auto
  from assms show ?thesis by (auto simp: sha_digest_def digest_filename_def hex)
qed

definition bfile_inv :: "bundle_files \<Rightarrow> bool" where
  "bfile_inv s \<longleftrightarrow> (\<forall>n d. map_of s n = Some d \<longrightarrow> (\<exists>b. bu_wf b \<and> d = sort_keys (bu_to_dict b)))"

interpretation bfile: bundle_store "bfile_put repr" bfile_get "\<lambda>b. bu_wf b \<and> sha_digest (bu_digest b)"
  bfile_inv bu_normal
proof unfold_locales
  fix s b
  assume s: "bfile_inv s"
  show "\<exists>x. bfile_get s (bu_digest b) = Inr x"
  proof (cases "map_of s (digest_filename (bu_digest b))")
    case (Some d)
    with s obtain c where "bu_wf c" "d = sort_keys (bu_to_dict c)" by (auto simp: bfile_inv_def)
    with Some show ?thesis by (simp add: bfile_get_def bu_read)
  qed (simp add: bfile_get_def)
next
  fix s b
  assume s: "bfile_inv s" and b: "bu_wf b \<and> sha_digest (bu_digest b)" and g: "bfile_get s (bu_digest b) = Inr None"
  let ?s = "dict_set (digest_filename (bu_digest b)) (sort_keys (bu_to_dict b)) s"
  have "bfile_put repr s b = Inr ?s" using g by (simp add: bfile_put_def bu_plain)
  moreover have "bfile_inv ?s" using s b by (auto simp: bfile_inv_def)
  moreover have "bfile_get ?s (bu_digest b) = Inr (Some (bu_normal b))" using b by (simp add: bfile_get_def bu_read)
  moreover have "bfile_get ?s (bu_digest c) = bfile_get s (bu_digest c)"
    if "bu_wf c \<and> sha_digest (bu_digest c)" "bu_digest c \<noteq> bu_digest b" for c
    using that b digest_filename_inj by (auto simp: bfile_get_def)
  ultimately show "\<exists>s'. bfile_put repr s b = Inr s' \<and> bfile_inv s' \<and>
      bfile_get s' (bu_digest b) = Inr (Some (bu_normal b)) \<and>
      (\<forall>c. bu_wf c \<and> sha_digest (bu_digest c) \<longrightarrow> bu_digest c \<noteq> bu_digest b \<longrightarrow>
        bfile_get s' (bu_digest c) = bfile_get s (bu_digest c))" by blast
next
  fix s and b e :: registry_bundle
  assume "bfile_get s (bu_digest b) = Inr (Some e)"
  then show "bfile_put repr s b = (if definitional_key e = definitional_key b then Inr s
      else Inl (ValueError ''registry bundles are immutable''))"
    by (simp add: bfile_put_def)
qed

end
