(* ===== verification/OfflineWriter.thy ===== *)
theory OfflineWriter
  imports OnlineWorker Propagation
begin

text \<open>
  The offline writer: the handler that appends the values of an offline-write event to history
  (api/offline_writer.py) and one turn of its consumer (api/offline_writer_runner.py). The handler
  catches every exception of its calls, so the \<^verbatim>\<open>unexpected_error\<close> path of the runner is not
  reached in this model and left out.
\<close>

section \<open>The handler\<close>

record offline_result =
  of_status :: string
  of_view :: string
  of_view_version :: int
  of_entity_key :: string
  of_received :: nat
  of_new :: nat
  of_skipped :: nat
  of_emitted :: nat
  of_error :: "exc option"

definition offline_emission :: "view_def \<Rightarrow> write_set \<Rightarrow> datetime \<Rightarrow> emission" where
  "offline_emission v ws now =
     \<lparr>em_entity_type = v_entity v, em_source = ''offline_writer'', em_run_id = ws_run_id ws,
      em_job_id = ws_job_id ws, em_manifest_id = None, em_occurred_at = now\<rparr>"

definition send_update ::
    "('o, 'n, 'r, 's) runtime \<Rightarrow> string \<Rightarrow> string \<Rightarrow> feature_updated \<Rightarrow> ('o, 'n, 'r, 's) world
      \<Rightarrow> unit res \<times> ('o, 'n, 'r, 's) world" where
  "send_update R topic key e w = publish_event R topic key (fu_to_dict e) w"

text \<open>The append: what is new goes to the store, with the number of skipped duplicates.\<close>

definition append_new ::
    "('o, 'n) store_ops \<Rightarrow> (pyfloat \<Rightarrow> string) \<Rightarrow> 'o \<Rightarrow> string \<Rightarrow> int \<Rightarrow> feature_result list
      \<Rightarrow> (feature_result list \<times> nat \<times> 'o) res" where
  "append_new ops repr off view vv results =
     rbind (partition_new_results repr (so_get ops off) view vv results) (\<lambda>(new, skipped).
     rbind (so_append_many ops off view vv new) (\<lambda>off'. Inr (new, skipped, off')))"

definition handle_feature_offline_write ::
    "('o, 'n, 'r, 's) runtime \<Rightarrow> datetime \<Rightarrow> (nat \<Rightarrow> string) \<Rightarrow> offline_write_requested
      \<Rightarrow> ('o, 'n, 'r, 's) world \<Rightarrow> offline_result \<times> ('o, 'n, 'r, 's) world" where
  "handle_feature_offline_write R now uuid ev w =
     (let ws = ow_write_set ev;
          view = ws_view ws; vv = ws_view_version ws;
          results = dict_values (ws_results ws);
          out = \<lparr>of_status = ''append_failed'', of_view = view, of_view_version = vv,
                 of_entity_key = ek_text (ws_entity_key ws), of_received = length results, of_new = 0,
                 of_skipped = 0, of_emitted = 0, of_error = None\<rparr>
      in case append_new (rt_stores R) (rt_repr R) (w_offline w) view vv results of
           Inl e \<Rightarrow> (out\<lparr>of_error := Some e\<rparr>, w)
         | Inr (new, skipped, off) \<Rightarrow>
             let w1 = w\<lparr>w_offline := off\<rparr>;
                 done = out\<lparr>of_status := ''ok'', of_new := length new, of_skipped := skipped\<rparr>
             in case find_view_in (reg_views (fe_registry (rt_env R))) view vv of
                  None \<Rightarrow> (done, w1)
                | Some v \<Rightarrow>
                    (case emit_feature_updates (send_update R) uuid v results
                            (offline_emission v ws now) w1 of
                       (Inl e, w2) \<Rightarrow> (done\<lparr>of_status := ''propagation_publish_failed'', of_error := Some e\<rparr>, w2)
                     | (Inr n, w2) \<Rightarrow> (done\<lparr>of_emitted := n\<rparr>, w2)))"

section \<open>One turn of the consumer\<close>

definition offline_topic :: string where
  "offline_topic = ''fp.feature-write.offline''"

definition offline_process_next ::
    "('o, 'n, 'r, 's) runtime \<Rightarrow> (nat \<Rightarrow> datetime) \<Rightarrow> (nat \<Rightarrow> string) \<Rightarrow> message option
      \<Rightarrow> ('o, 'n, 'r, 's) world \<Rightarrow> process_result \<times> ('o, 'n, 'r, 's) world" where
  "offline_process_next R clock uuid polled w =
     (case polled of
        None \<Rightarrow> (failed_pr ''idle'', w)
      | Some m \<Rightarrow>
      if msg_error m \<noteq> None then (failed_pr ''consume_error'', w)
      else case (case msg_doc m of None \<Rightarrow> Inl (ValueError ''Expecting value'') | Some d \<Rightarrow> ow_from_dict d) of
        Inl e \<Rightarrow> to_dlq R (clock 0) offline_topic ''offline_writer'' m ''deserialization_failed''
                  (Some (exc_text e)) None None w
      | Inr ev \<Rightarrow>
          (case handle_feature_offline_write R (clock 1) uuid ev w of
             (r, w1) \<Rightarrow>
               if of_status r = ''ok'' then
                 (let w2 = commit w1 in
                  (committed_pr ''ok'',
                   w2\<lparr>w_status := rt_update_status R (clock 2) (w_status w2) (ow_request_id ev)
                        [ChStatus ''completed'', ChOffline (Some ''written''), ChUpdatedAt (clock 2)]\<rparr>))
               else if is_poison (of_status r) then
                 (case to_dlq R (clock 0) offline_topic ''offline_writer'' m (of_status r)
                         (map_option exc_text (of_error r)) None None w1 of
                    (pr, w2) \<Rightarrow>
                      (pr, if pr_status pr = ''dead_lettered''
                           then w2\<lparr>w_status := rt_update_status R (clock 2) (w_status w2) (ow_request_id ev)
                             [ChOffline (Some ''failed_dlq''), ChError (map_option exc_text (of_error r)),
                              ChUpdatedAt (clock 2)]\<rparr>
                           else w2))
               else (failed_pr (of_status r), w1)))"

section \<open>What a publication loop sends\<close>

lemma publish_updates_log:
  assumes "publish_feature_updates (send_update R) es w = (res, w')"
  shows "\<exists>ms b. w' = w\<lparr>w_broker := b\<rparr> \<and> grows w w' ms \<and> (\<forall>x \<in> set ms. pb_topic x = ''fp.feature-updates'')
    \<and> (\<forall>u. res = Inr u \<longrightarrow> list_all2 (\<lambda>e x. \<exists>key d. er_encoded (fu_entity e) = Inr key
          \<and> fu_to_dict e = Inr d \<and> x = \<lparr>pb_topic = ''fp.feature-updates'', pb_key = key,
              pb_doc = sort_keys d, pb_headers = []\<rparr>) es ms)"
  using assms
proof (induction es arbitrary: w)
  case Nil
  then show ?case by (auto intro!: exI[of _ "w_broker w"] exI[of _ "[]"])
next
  case (Cons e es)
  show ?case
  proof (cases "er_encoded (fu_entity e)")
    case (Inl x)
    with Cons.prems show ?thesis by (auto intro!: exI[of _ "w_broker w"] exI[of _ "[]"])
  next
    case key: (Inr key)
    obtain r w1 where p: "publish_event R ''fp.feature-updates'' key (fu_to_dict e) w = (r, w1)"
      by (cases "publish_event R ''fp.feature-updates'' key (fu_to_dict e) w")
    show ?thesis
    proof (cases r)
      case (Inl x)
      from publish_event_failed[OF p[unfolded Inl]] Cons.prems key p Inl show ?thesis
        by (auto simp: send_update_def)
    next
      case (Inr u)
      from publish_event_sent[OF p[unfolded Inr]] obtain d b where d: "fu_to_dict e = Inr d" "w1 = w\<lparr>w_broker := b\<rparr>"
        "grows w w1 [\<lparr>pb_topic = ''fp.feature-updates'', pb_key = key, pb_doc = sort_keys d, pb_headers = []\<rparr>]"
        by blast
      have "publish_feature_updates (send_update R) es w1 = (res, w')"
        using Cons.prems key p Inr by (simp add: send_update_def[of R _ key e w])
      from Cons.IH[OF this] obtain ms b' where ms: "w' = w1\<lparr>w_broker := b'\<rparr>" "grows w1 w' ms"
        "\<forall>x \<in> set ms. pb_topic x = ''fp.feature-updates''"
        "\<forall>u. res = Inr u \<longrightarrow> list_all2 (\<lambda>e x. \<exists>key d. er_encoded (fu_entity e) = Inr key
          \<and> fu_to_dict e = Inr d \<and> x = \<lparr>pb_topic = ''fp.feature-updates'', pb_key = key,
              pb_doc = sort_keys d, pb_headers = []\<rparr>) es ms" by blast
      from grows_trans[OF d(3) ms(2)] show ?thesis
        using ms d(1,2) key
        by (intro exI[of _ "[\<lparr>pb_topic = ''fp.feature-updates'', pb_key = key, pb_doc = sort_keys d, pb_headers = []\<rparr>] @ ms"]
            exI[of _ b']) auto
    qed
  qed
qed

text \<open>The announcement of a result: its update event is in the log.\<close>

definition update_sent :: "view_def \<Rightarrow> emission \<Rightarrow> feature_result \<Rightarrow> published \<Rightarrow> bool" where
  "update_sent v em r x \<longleftrightarrow>
     (\<exists>uid d. fu_to_dict (feature_update_of v em uid r) = Inr d \<and> pb_doc x = sort_keys d
        \<and> pb_topic x = ''fp.feature-updates'')"

lemma emit_updates_log:
  assumes "emit_feature_updates (send_update R) uuid v results em w = (res, w')"
    and "\<forall>r \<in> set results. result_ok r" "em_source em \<in> set update_sources"
  shows "\<exists>ms b. w' = w\<lparr>w_broker := b\<rparr> \<and> grows w w' ms
    \<and> (\<forall>n. res = Inr n \<longrightarrow> list_all2 (update_sent v em) (filter (emits v) results) ms)"
proof -
  let ?es = "map (\<lambda>(i, r). feature_update_of v em (uuid i) r) (enumerate 0 (filter (emits v) results))"
  have es: "build_feature_updated_events uuid v results em = Inr ?es" by (rule build_events_exact[OF assms(2,3)])
  obtain r1 where p: "publish_feature_updates (send_update R) ?es w = (r1, w')" "\<forall>n. res = Inr n \<longrightarrow> isl r1 = False"
    using assms(1) es by (auto simp: emit_feature_updates_def split: prod.splits sum.splits)
  from publish_updates_log[OF p(1)] obtain ms b where ms: "w' = w\<lparr>w_broker := b\<rparr>" "grows w w' ms"
    "\<forall>u. r1 = Inr u \<longrightarrow> list_all2 (\<lambda>e x. \<exists>key d. er_encoded (fu_entity e) = Inr key
          \<and> fu_to_dict e = Inr d \<and> x = \<lparr>pb_topic = ''fp.feature-updates'', pb_key = key,
              pb_doc = sort_keys d, pb_headers = []\<rparr>) ?es ms" by blast
  have "list_all2 (update_sent v em) (filter (emits v) results) ms" if "res = Inr n" for n
  proof -
    from p(2) that obtain u where "r1 = Inr u" by (cases r1) auto
    with ms(3) have "list_all2 (\<lambda>e x. \<exists>key d. er_encoded (fu_entity e) = Inr key
          \<and> fu_to_dict e = Inr d \<and> x = \<lparr>pb_topic = ''fp.feature-updates'', pb_key = key,
              pb_doc = sort_keys d, pb_headers = []\<rparr>) ?es ms" by blast
    then show ?thesis
      by (auto simp: list_all2_conv_all_nth nth_enumerate_eq update_sent_def) (metis published.select_convs(1,3))
  qed
  with ms show ?thesis by blast
qed

lemma emit_updates_frame:
  assumes "emit_feature_updates (send_update R) uuid v results em w = (res, w')"
  shows "\<exists>b ms. w' = w\<lparr>w_broker := b\<rparr> \<and> grows w w' ms \<and> (\<forall>x \<in> set ms. pb_topic x = ''fp.feature-updates'')"
proof (cases "build_feature_updated_events uuid v results em")
  case (Inl e)
  with assms show ?thesis
    by (auto simp: emit_feature_updates_def intro!: exI[of _ "w_broker w"] exI[of _ "[]"])
next
  case (Inr es)
  with assms obtain r1 where "publish_feature_updates (send_update R) es w = (r1, w')"
    by (auto simp: emit_feature_updates_def split: prod.splits sum.splits)
  from publish_updates_log[OF this] show ?thesis by blast
qed

text \<open>With a broker that acknowledges, announcements of well-formed results always go out.\<close>

lemma publish_event_acked:
  assumes "br_fates (w_broker w) = []" "doc = Inr d" "json_plain d"
  shows "\<exists>w'. publish_event R topic key doc w = (Inr (), w') \<and> br_fates (w_broker w') = []"
  using assms by (auto simp: publish_event_def publish_def event_json_def Let_def)

lemma entity_encodes:
  assumes "ek_valid k"
  shows "\<exists>s. encode_entity_key (dict_of (ek_parts k)) None = Inr s"
proof -
  have d: "dict_of (ek_parts k) = ek_parts k" using assms by (simp add: ek_valid_def dict_of_distinct)
  have "map_res (\<lambda>n. rbind (dict_index (ek_parts k) n) (\<lambda>v. Inr (n @ ''='' @ v))) (sort (dict_keys (ek_parts k)))
      = Inr (map (\<lambda>n. n @ ''='' @ the (map_of (ek_parts k) n)) (sort (dict_keys (ek_parts k))))"
    by (rule map_res_lookup) (auto simp: dict_keys_def map_of_eq_None_iff)
  with assms d show ?thesis
    by (auto simp: encode_entity_key_def ek_valid_def for_each_Inr_iff[of validate_part, THEN iffD2])
qed

lemma publish_updates_acked:
  assumes "\<forall>e \<in> set es. fu_wf e \<and> (\<exists>s. er_encoded (fu_entity e) = Inr s)" "br_fates (w_broker w) = []"
  shows "\<exists>w'. publish_feature_updates (send_update R) es w = (Inr (), w')"
  using assms
proof (induction es arbitrary: w)
  case (Cons e es)
  obtain key where key: "er_encoded (fu_entity e) = Inr key" using Cons.prems by auto
  obtain d where d: "fu_to_dict e = Inr d" "json_plain d" using fu.written[of e] Cons.prems by auto
  from publish_event_acked[OF Cons.prems(2) d] obtain w1 where
    "publish_event R ''fp.feature-updates'' key (fu_to_dict e) w = (Inr (), w1)" "br_fates (w_broker w1) = []" by blast
  with Cons key show ?case by (simp add: send_update_def[of R _ key e w])
qed simp

lemma emit_updates_acked:
  assumes "\<forall>r \<in> set results. result_wf (r_entity_key r) r \<and> ek_valid (r_entity_key r)"
    and "stamp (em_occurred_at em)" "em_source em \<in> set update_sources" "br_fates (w_broker w) = []"
  shows "\<exists>n w'. emit_feature_updates (send_update R) uuid v results em w = (Inr n, w')"
proof -
  let ?es = "map (\<lambda>(i, r). feature_update_of v em (uuid i) r) (enumerate 0 (filter (emits v) results))"
  have ok: "\<forall>r \<in> set results. result_ok r" using assms(1) by (simp add: result_wf_def)
  have "fu_wf (feature_update_of v em u r)" if "r \<in> set results" for u r
    using assms(1-3) that
    by (cases "r_max_input_data_ts r")
      (auto simp: fu_wf_def feature_update_of_def result_wf_def result_ok_def stamp_def stamp_opt_def)
  moreover have "\<exists>s. er_encoded (fu_entity (feature_update_of v em u r)) = Inr s" if "r \<in> set results" for u r
    using entity_encodes[of "r_entity_key r"] assms(1) that by (simp add: er_encoded_def feature_update_of_def)
  ultimately have "\<forall>e \<in> set ?es. fu_wf e \<and> (\<exists>s. er_encoded (fu_entity e) = Inr s)"
    by (auto simp: in_set_enumerate_eq) (metis nth_mem filter_is_subset subsetD)+
  from publish_updates_acked[OF this assms(4)] obtain w' where
    "publish_feature_updates (send_update R) ?es w = (Inr (), w')" by blast
  then show ?thesis by (simp add: emit_feature_updates_def build_events_exact[OF ok assms(3)])
qed

section \<open>Durable before committed\<close>

text \<open>The store operations of a deployment over a store that keeps the offline contract.\<close>

locale offline_ops = offline_store inv adm proj append get get_pit
  for inv :: "'s \<Rightarrow> bool"
    and adm :: "'s \<Rightarrow> string \<Rightarrow> int \<Rightarrow> feature_result \<Rightarrow> bool"
    and proj :: "feature_result \<Rightarrow> feature_result"
    and append :: "'s \<Rightarrow> string \<Rightarrow> int \<Rightarrow> feature_result \<Rightarrow> 's res"
    and get :: "'s \<Rightarrow> offline_get_fn"
    and get_pit :: "'s \<Rightarrow> entity_key \<Rightarrow> string \<Rightarrow> int \<Rightarrow> string \<Rightarrow> int \<Rightarrow> datetime \<Rightarrow> timedelta
      \<Rightarrow> offline_record option res" +
  fixes ops :: "('s, 'n) store_ops"
  assumes ops_get: "so_get ops s = get s"
    and ops_append: "inv s \<Longrightarrow> \<forall>r \<in> set rs. adm s w wv r \<Longrightarrow> so_append_many ops s w wv rs = append_all s w wv rs"
    and ops_get_pit: "so_get_pit ops s = get_pit s"
begin

text \<open>Results that the store takes: admissible, one per feature, and equal to themselves.\<close>

definition storable :: "'s \<Rightarrow> string \<Rightarrow> int \<Rightarrow> feature_result list \<Rightarrow> bool" where
  "storable s view vv rs \<longleftrightarrow>
     (\<forall>r \<in> set rs. adm s view vv r \<and> self_equal (r_value r)) \<and> distinct (map r_ref rs)"

lemma exists_total: "inv s \<Longrightarrow> ek_valid (r_entity_key r) \<Longrightarrow> \<exists>b. exists_in_offline (get s) view vv r = Inr b"
  using get_ok[of s "r_entity_key r"] by (fastforce simp: exists_in_offline_def)

lemma partition_total:
  assumes "inv s" "\<forall>r \<in> set rs. ek_valid (r_entity_key r)"
  shows "\<exists>x. partition_new_results repr (get s) view vv rs = Inr x"
proof -
  have "\<exists>st'. fold_res (partition_step repr (get s) view vv) rs st = Inr st'" for st
    using assms(2)
  proof (induction rs arbitrary: st)
    case (Cons r rs)
    obtain sg where "signature repr r = Inr sg" using signature_total by blast
    moreover obtain b where "exists_in_offline (get s) view vv r = Inr b"
      using exists_total[OF assms(1)] Cons.prems by fastforce
    ultimately have "\<exists>st1. partition_step repr (get s) view vv r st = Inr st1"
      by (cases b) (simp_all add: partition_step_def)
    with Cons show ?case by auto
  qed simp
  then show ?thesis by (fastforce simp: partition_new_results_def)
qed

lemma same_signature_same_value:
  assumes "distinct (map r_ref rs)" "r \<in> set rs" "r' \<in> set rs" "signature repr r = Inr a"
    "signature repr r' = Inr b" "sig_eq a b"
  shows "r_value r = r_value r'"
proof -
  have "fr_name (r_ref r) = fr_name (r_ref r')" "fr_version (r_ref r) = fr_version (r_ref r')"
    using assms(4-6) by (auto simp: signature_def sig_eq_def)
  then have "r_ref r = r_ref r'" by simp
  with assms(1-3) have "r = r'" by (auto simp: distinct_map inj_on_def)
  then show ?thesis by simp
qed

lemma append_new_durable:
  assumes "inv s" "storable s view vv rs"
  shows "\<exists>new skipped s'. append_new ops repr s view vv rs = Inr (new, skipped, s') \<and> inv s'
    \<and> set new \<subseteq> set rs \<and> length new + skipped = length rs
    \<and> (\<forall>r \<in> set rs. exists_in_offline (get s') view vv r = Inr True)
    \<and> append_new ops repr s' view vv rs = Inr ([], length rs, s')"
proof -
  have adm: "\<forall>r \<in> set rs. adm s view vv r \<and> self_equal (r_value r)" using assms(2) by (simp add: storable_def)
  then have "\<forall>r \<in> set rs. ek_valid (r_entity_key r)" using adm_valid by blast
  from partition_total[OF assms(1) this] obtain new skipped where
    p: "partition_new_results repr (get s) view vv rs = Inr (new, skipped)" by fastforce
  have "\<exists>s'. append_all s view vv new = Inr s' \<and> inv s'
      \<and> (\<forall>r \<in> set rs. exists_in_offline (get s') view vv r = Inr True)"
    by (rule partition_durable[OF assms(1) adm _ p])
      (use assms(2) same_signature_same_value in \<open>auto simp: storable_def\<close>)
  then obtain s' where s': "append_all s view vv new = Inr s'" "inv s'"
    "\<forall>r \<in> set rs. exists_in_offline (get s') view vv r = Inr True" by blast
  note part = partition_new_resultsE[OF p]
  have "\<forall>r \<in> set new. adm s view vv r" using part(1) adm by blast
  then have "append_new ops repr s view vv rs = Inr (new, skipped, s')"
    using p s'(1) ops_append[OF assms(1)] by (simp add: append_new_def ops_get)
  moreover have "append_new ops repr s' view vv rs = Inr ([], length rs, s')"
    using partition_all_known[OF s'(3)] ops_append[OF s'(2), of "[]"]
    by (simp add: append_new_def ops_get append_all_def)
  ultimately show ?thesis using s'(2,3) part by blast
qed

text \<open>
  What the handler leaves: the values are in history whether or not the announcements went out,
  and a handler that ends well has announced every result with reactive dependents.
\<close>

lemma handler_durable:
  assumes "inv (w_offline w)" "rt_stores R = ops"
    and "storable (w_offline w) (ws_view (ow_write_set ev)) (ws_view_version (ow_write_set ev))
      (dict_values (ws_results (ow_write_set ev)))"
    and "handle_feature_offline_write R now uuid ev w = (r, w')"
  shows "inv (w_offline w') \<and> of_status r \<in> {''ok'', ''propagation_publish_failed''}
    \<and> w_committed w' = w_committed w \<and> w_online w' = w_online w \<and> w_results w' = w_results w
    \<and> (\<forall>x \<in> set (dict_values (ws_results (ow_write_set ev))). exists_in_offline (get (w_offline w'))
         (ws_view (ow_write_set ev)) (ws_view_version (ow_write_set ev)) x = Inr True)
    \<and> append_new ops (rt_repr R) (w_offline w') (ws_view (ow_write_set ev)) (ws_view_version (ow_write_set ev))
        (dict_values (ws_results (ow_write_set ev)))
      = Inr ([], length (dict_values (ws_results (ow_write_set ev))), w_offline w')
    \<and> (\<exists>ms. br_log (w_broker w') = br_log (w_broker w) @ ms \<and>
         (of_status r = ''ok'' \<longrightarrow> (\<forall>v. find_view_in (reg_views (fe_registry (rt_env R)))
             (ws_view (ow_write_set ev)) (ws_view_version (ow_write_set ev)) = Some v \<longrightarrow>
           list_all2 (update_sent v (offline_emission v (ow_write_set ev) now))
             (filter (emits v) (dict_values (ws_results (ow_write_set ev)))) ms)))"
proof -
  let ?ws = "ow_write_set ev"
  let ?view = "ws_view ?ws" and ?vv = "ws_view_version ?ws" and ?rs = "dict_values (ws_results ?ws)"
  from append_new_durable[OF assms(1,3)] obtain new skipped s' where a:
    "append_new ops (rt_repr R) (w_offline w) ?view ?vv ?rs = Inr (new, skipped, s')" "inv s'"
    "\<forall>x \<in> set ?rs. exists_in_offline (get s') ?view ?vv x = Inr True"
    "append_new ops (rt_repr R) s' ?view ?vv ?rs = Inr ([], length ?rs, s')" by blast
  have ok: "\<forall>r \<in> set ?rs. result_ok r" using assms(3) adm_valid by (auto simp: storable_def)
  show ?thesis
  proof (cases "find_view_in (reg_views (fe_registry (rt_env R))) ?view ?vv")
    case None
    with a assms(2,4) show ?thesis by (auto simp: handle_feature_offline_write_def Let_def)
  next
    case (Some v)
    let ?em = "offline_emission v ?ws now" and ?w1 = "w\<lparr>w_offline := s'\<rparr>"
    have em: "em_source ?em \<in> set update_sources" by (simp add: offline_emission_def update_sources_def)
    obtain res w2 where e: "emit_feature_updates (send_update R) uuid v ?rs ?em ?w1 = (res, w2)"
      by (cases "emit_feature_updates (send_update R) uuid v ?rs ?em ?w1")
    from emit_updates_log[OF e ok em] obtain ms b where ms: "w2 = ?w1\<lparr>w_broker := b\<rparr>" "grows ?w1 w2 ms"
      "\<forall>n. res = Inr n \<longrightarrow> list_all2 (update_sent v ?em) (filter (emits v) ?rs) ms" by blast
    have r: "w' = w2" "of_status r = (if isl res then ''propagation_publish_failed'' else ''ok'')"
      using assms(2,4) a(1) Some e
      by (auto simp: handle_feature_offline_write_def Let_def split: sum.splits)
    have "\<exists>ms. br_log (w_broker w') = br_log (w_broker w) @ ms \<and> (of_status r = ''ok'' \<longrightarrow>
        list_all2 (update_sent v ?em) (filter (emits v) ?rs) ms)"
      using ms(2,3) r by (cases res) (auto simp: grows_def)
    with a(2-4) ms(1) r Some show ?thesis by auto
  qed
qed

text \<open>
  The whole turn on a message that carries an offline-write event: whatever the broker does, a
  committed message has its values in history; when the broker acknowledges, the turn commits.
\<close>

lemma offline_turn:
  assumes "inv (w_offline w)" "rt_stores R = ops" "\<not> w_committed w"
    and "msg_error m = None" "msg_doc m = Some d" "ow_from_dict d = Inr ev"
    and "storable (w_offline w) (ws_view (ow_write_set ev)) (ws_view_version (ow_write_set ev))
      (dict_values (ws_results (ow_write_set ev)))"
    and "offline_process_next R clock uuid (Some m) w = (pr, w')"
  shows "inv (w_offline w')
    \<and> (\<forall>x \<in> set (dict_values (ws_results (ow_write_set ev))). exists_in_offline (get (w_offline w'))
         (ws_view (ow_write_set ev)) (ws_view_version (ow_write_set ev)) x = Inr True)
    \<and> append_new ops (rt_repr R) (w_offline w') (ws_view (ow_write_set ev)) (ws_view_version (ow_write_set ev))
        (dict_values (ws_results (ow_write_set ev)))
      = Inr ([], length (dict_values (ws_results (ow_write_set ev))), w_offline w')
    \<and> pr_status pr \<in> {''ok'', ''propagation_publish_failed''} \<and> (w_committed w' \<longleftrightarrow> pr_status pr = ''ok'')
    \<and> (\<exists>ms. br_log (w_broker w') = br_log (w_broker w) @ ms \<and>
         (w_committed w' \<longrightarrow> (\<forall>v. find_view_in (reg_views (fe_registry (rt_env R)))
             (ws_view (ow_write_set ev)) (ws_view_version (ow_write_set ev)) = Some v \<longrightarrow>
           list_all2 (update_sent v (offline_emission v (ow_write_set ev) (clock 1)))
             (filter (emits v) (dict_values (ws_results (ow_write_set ev)))) ms)))"
proof -
  obtain r w1 where h: "handle_feature_offline_write R (clock 1) uuid ev w = (r, w1)"
    by (cases "handle_feature_offline_write R (clock 1) uuid ev w")
  note hd = handler_durable[OF assms(1,2,7) h]
  have np: "\<not> is_poison (of_status r)" "of_status r = ''ok'' \<or> of_status r = ''propagation_publish_failed''"
    using hd by (auto simp: is_poison_def poison_statuses_def)
  show ?thesis
  proof (cases "of_status r = ''ok''")
    case True
    with assms(4-6,8) h have "pr = committed_pr ''ok'' \<and> (\<exists>s. w' = (commit w1)\<lparr>w_status := s\<rparr>)"
      by (auto simp: offline_process_next_def Let_def)
    with hd True show ?thesis by (auto simp: committed_pr_def)
  next
    case False
    with assms(4-6,8) h np have "pr = failed_pr (of_status r)" "w' = w1"
      by (auto simp: offline_process_next_def)
    with hd False np(2) assms(3) show ?thesis by (auto simp: failed_pr_def)
  qed
qed

end

interpretation memops: offline_ops mem_hist_ok mem_result_adm "\<lambda>r. r"
  "\<lambda>s w wv r. Inr (mem_append s w wv r)" mem_offline_get mem_get_pit mem_ops
  by unfold_locales (simp_all add: mem_ops_def mem_append_all)

interpretation pgops: offline_ops "pg_inv P" "pg_adm P" "pg_norm P" "pg_append P" "pg_get P" "pg_get_pit P"
  "prod_ops P" for P
  by unfold_locales (simp_all add: prod_ops_def pg_append_many_all)

end
