(* ===== verification/ModelBatch.thy ===== *)
theory ModelBatch
  imports OfflineWriter Bundle
begin

text \<open>
  The batch computation of a model feature (api/model_feature_batch.py): point-in-time rows, one
  call of the model for the whole batch, the results with their metadata, the durable append and
  the announcements. The model runner is a parameter; timing metrics are left out.
\<close>

section \<open>Rows\<close>

record model_ref =
  mr_uri :: string
  mr_digest :: string
  mr_output_name :: string

type_synonym model_frame = "(string, json) dict"

type_synonym model_runner = "model_ref \<Rightarrow> model_frame list \<Rightarrow> json list res"

record model_row =
  mrow_key :: entity_key
  mrow_frame :: model_frame
  mrow_inputs :: "(string \<times> datetime \<times> string) list"

record model_batch_result =
  mb_status :: string
  mb_feature :: string
  mb_feature_version :: int
  mb_model :: model_ref
  mb_input_refs :: "string list"
  mb_planned :: nat
  mb_computed :: nat
  mb_skipped :: nat
  mb_duplicates :: nat
  mb_downstream :: nat
  mb_run_id :: "string option"
  mb_job_id :: "string option"
  mb_wave_id :: "string option"

definition mb_counts :: "model_batch_result \<Rightarrow> (string, nat) dict" where
  "mb_counts m =
     [(''planned'', mb_planned m), (''computed'', mb_computed m), (''skipped'', mb_skipped m),
      (''duplicates_skipped'', mb_duplicates m), (''downstream_emitted'', mb_downstream m)]"

definition supported_model_uri_prefix :: string where
  "supported_model_uri_prefix = ''mlflow://''"

definition has_prefix :: "string \<Rightarrow> string \<Rightarrow> bool" where
  "has_prefix p s \<longleftrightarrow> take (length p) s = p"

text \<open>The first feature of the name, with its model.\<close>

definition resolve_model_feature :: "view_def \<Rightarrow> string \<Rightarrow> (feature_def \<times> model_spec) res" where
  "resolve_model_feature v name =
     (case find (\<lambda>f. f_name f = name) (v_features v) of
        None \<Rightarrow> Inl (ValueError ''feature is not a model (F3) feature in view'')
      | Some f \<Rightarrow>
          if f_kind f \<noteq> ''model'' then Inl (ValueError ''feature is not a model (F3) feature in view'')
          else case f_model f of
            None \<Rightarrow> Inl (StoreError ''NoneType has no attribute uri'')
          | Some m \<Rightarrow>
              if has_prefix supported_model_uri_prefix (ms_uri m) then Inr (f, m)
              else Inl (ValueError ''unsupported model uri''))"

definition dep_ref_text :: "(string, feature_def) dict \<Rightarrow> feature_dep \<Rightarrow> string res" where
  "dep_ref_text fbn dep =
     rbind (pinned_version fbn dep) (\<lambda>version.
     rbind (mk_feature_ref (d_feature dep) version) (\<lambda>ref. Inr (ref_text ref)))"

text \<open>\<^verbatim>\<open>_build_row\<close>: None when a required input is missing or nothing is eligible.\<close>

fun build_row ::
    "('o, 'n) store_ops \<Rightarrow> hasher \<Rightarrow> 'o \<Rightarrow> string \<Rightarrow> int \<Rightarrow> (string, feature_def) dict \<Rightarrow> datetime
      \<Rightarrow> timedelta \<Rightarrow> feature_dep list \<Rightarrow> model_row \<Rightarrow> model_row option res" where
  "build_row ops H off view vv fbn obs gap [] row =
     Inr (if mrow_inputs row = [] then None else Some row)"
| "build_row ops H off view vv fbn obs gap (dep # deps) row =
     rbind (pinned_version fbn dep) (\<lambda>version.
     rbind (so_get_pit ops off (mrow_key row) (d_feature dep) version view vv obs gap) (\<lambda>rec.
     case rec of
       None \<Rightarrow>
         if d_required dep then Inr None
         else build_row ops H off view vv fbn obs gap deps row
     | Some x \<Rightarrow>
         rbind (mk_feature_ref (d_feature dep) version) (\<lambda>ref.
         rbind (text_or (r_value_hash (or_result x)) (value_hash_of H (r_value (or_result x)))) (\<lambda>vh.
         build_row ops H off view vv fbn obs gap deps
           (row\<lparr>mrow_frame := dict_set (d_feature dep) (r_value (or_result x)) (mrow_frame row),
                mrow_inputs := mrow_inputs row @ [(ref_text ref, r_data_ts (or_result x), vh)]\<rparr>)))))"

definition build_rows ::
    "('o, 'n) store_ops \<Rightarrow> hasher \<Rightarrow> 'o \<Rightarrow> string \<Rightarrow> int \<Rightarrow> (string, feature_def) dict \<Rightarrow> datetime
      \<Rightarrow> timedelta \<Rightarrow> feature_def \<Rightarrow> entity_key list \<Rightarrow> (model_row list \<times> nat) res" where
  "build_rows ops H off view vv fbn obs gap f keys =
     fold_res (\<lambda>ek (rows, skipped).
         rbind (build_row ops H off view vv fbn obs gap (f_deps f)
                  \<lparr>mrow_key = ek, mrow_frame = [], mrow_inputs = []\<rparr>) (\<lambda>row.
         Inr (case row of None \<Rightarrow> (rows, skipped + 1) | Some r \<Rightarrow> (rows @ [r], skipped))))
       keys ([], 0)"

section \<open>Results\<close>

definition model_result ::
    "hasher \<Rightarrow> feature_def \<Rightarrow> model_spec \<Rightarrow> datetime \<Rightarrow> model_row \<times> json \<Rightarrow> feature_result res" where
  "model_result H f m obs rp =
     (let (row, prediction) = rp; input_ts = map (\<lambda>(_, ts, _). ts) (mrow_inputs row) in
      rbind (py_min input_ts) (\<lambda>oldest.
      rbind (mk_feature_ref (f_name f) (f_version f)) (\<lambda>ref.
      rbind (py_max input_ts) (\<lambda>newest.
      rbind (input_fingerprint_of H (mrow_inputs row
               @ [(''model:'' @ ms_uri m @ ''#'' @ ms_output_name m, oldest, ms_digest m)])) (\<lambda>fp.
      rbind (value_hash_of H prediction) (\<lambda>vh.
      mk_feature_result
        \<lparr>r_ref = ref, r_entity_key = mrow_key row, r_value = prediction, r_data_ts = oldest,
         r_calc_ts = obs, r_max_input_data_ts = Some newest, r_input_fingerprint = Some fp,
         r_value_hash = Some vh, r_available_at = None, r_availability_source = None,
         r_model_uri = Some (ms_uri m), r_model_digest = Some (ms_digest m),
         r_model_output_name = Some (ms_output_name m), r_bundle_digest = None\<rparr>))))))"

definition model_ref_of :: "model_spec \<Rightarrow> model_ref" where
  "model_ref_of m = \<lparr>mr_uri = ms_uri m, mr_digest = ms_digest m, mr_output_name = ms_output_name m\<rparr>"

text \<open>The predictions: the model is called once, and not at all without rows.\<close>

definition predict_rows :: "model_runner \<Rightarrow> model_spec \<Rightarrow> model_row list \<Rightarrow> json list res" where
  "predict_rows runner m rows =
     rbind (if rows = [] then Inr [] else runner (model_ref_of m) (map mrow_frame rows)) (\<lambda>predictions.
     rbind (require (length predictions = length rows)
              (ValueError ''model runner returned the wrong number of predictions'')) (\<lambda>_.
     Inr predictions))"

text \<open>Everything up to the append: the resolved feature, the results, what was skipped.\<close>

definition score_batch ::
    "('o, 'n) store_ops \<Rightarrow> fs_env \<Rightarrow> 'o \<Rightarrow> model_runner \<Rightarrow> string \<Rightarrow> int \<Rightarrow> string \<Rightarrow> entity_key list
      \<Rightarrow> datetime \<Rightarrow> timedelta
      \<Rightarrow> (view_def \<times> feature_def \<times> model_spec \<times> string list \<times> feature_result list \<times> nat) res" where
  "score_batch ops F off runner view vv name keys obs gap =
     (case find_view_in (reg_views (fe_registry F)) view vv of
        None \<Rightarrow> Inl (ValueError ''unknown view'')
      | Some v \<Rightarrow>
          rbind (resolve_model_feature v name) (\<lambda>(f, m).
          rbind (map_res (dep_ref_text (features_by_name v)) (f_deps f)) (\<lambda>refs.
          rbind (build_rows ops (fe_hasher F) off view vv (features_by_name v) obs gap f keys)
            (\<lambda>(rows, skipped).
          rbind (predict_rows runner m rows) (\<lambda>predictions.
          rbind (map_res (model_result (fe_hasher F) f m obs) (zip rows predictions)) (\<lambda>results.
          Inr (v, f, m, refs, results, skipped)))))))"

definition compute_model_feature_batch ::
    "('o, 'n, 'r, 's) runtime \<Rightarrow> model_runner \<Rightarrow> (nat \<Rightarrow> string) \<Rightarrow> datetime \<Rightarrow> string \<Rightarrow> int \<Rightarrow> string
      \<Rightarrow> entity_key list \<Rightarrow> datetime \<Rightarrow> timedelta \<Rightarrow> string option \<Rightarrow> string option \<Rightarrow> string option
      \<Rightarrow> string \<Rightarrow> ('o, 'n, 'r, 's) world \<Rightarrow> model_batch_result res \<times> ('o, 'n, 'r, 's) world" where
  "compute_model_feature_batch R runner uuid now view vv name keys obs gap run_id job_id wave_id source w =
     (case score_batch (rt_stores R) (rt_env R) (w_offline w) runner view vv name keys obs gap of
        Inl e \<Rightarrow> (Inl e, w)
      | Inr (v, f, m, refs, results, skipped) \<Rightarrow>
      case append_new (rt_stores R) (rt_repr R) (w_offline w) view vv results of
        Inl e \<Rightarrow> (Inl e, w)
      | Inr (new, duplicates, off) \<Rightarrow>
      let em = \<lparr>em_entity_type = v_entity v, em_source = source,
                em_run_id = (case run_id of Some i \<Rightarrow> if i = [] then wave_id else run_id | None \<Rightarrow> wave_id),
                em_job_id = job_id, em_manifest_id = None, em_occurred_at = now\<rparr>
      in case emit_feature_updates (send_update R) uuid v results em (w\<lparr>w_offline := off\<rparr>) of
        (Inl e, w') \<Rightarrow> (Inl e, w')
      | (Inr downstream, w') \<Rightarrow>
          (Inr \<lparr>mb_status = ''ok'', mb_feature = name, mb_feature_version = f_version f,
                mb_model = model_ref_of m, mb_input_refs = refs, mb_planned = length keys,
                mb_computed = length results, mb_skipped = skipped, mb_duplicates = duplicates,
                mb_downstream = downstream, mb_run_id = run_id, mb_job_id = job_id,
                mb_wave_id = wave_id\<rparr>, w'))"

text \<open>
  The deterministic runner of fs_core/model_runner.py: one prediction per row, the digest checked,
  the size of every batch recorded.
\<close>

definition fake_predict ::
    "(model_frame \<Rightarrow> json) \<Rightarrow> string option \<Rightarrow> model_ref \<Rightarrow> model_frame list \<Rightarrow> nat list
      \<Rightarrow> json list res \<times> nat list" where
  "fake_predict score expected ref rows calls =
     (if (case expected of Some d \<Rightarrow> mr_digest ref \<noteq> d | None \<Rightarrow> False)
      then (Inl (ValueError ''model digest mismatch''), calls)
      else (Inr (map score rows), calls @ [length rows]))"

section \<open>What a batch computes\<close>

lemma py_min_max_bounds:
  assumes "py_min (map f xs) = Inr a" "py_max (map f xs) = Inr b" "\<forall>x \<in> set xs. P (f x)"
  shows "P a" "P b" "\<forall>x \<in> set xs. instant a \<le> instant (f x) \<and> instant (f x) \<le> instant b"
  using py_min_Inr[OF assms(1)] py_max_Inr[OF assms(2)] assms(3) by auto

text \<open>The inputs of a row come from eligible history.\<close>

definition eligible_input :: "datetime \<Rightarrow> timedelta \<Rightarrow> string \<times> datetime \<times> string \<Rightarrow> bool" where
  "eligible_input obs gap i \<longleftrightarrow>
     (\<exists>r. pit_allowed obs gap r \<and> result_ok r \<and> fst (snd i) = r_data_ts r)"

lemma eligible_input_cutoff:
  "eligible_input obs gap i \<Longrightarrow> instant (fst (snd i)) \<le> instant obs - gap"
  by (auto simp: eligible_input_def pit_allowed_def)

definition model_row_ok :: "datetime \<Rightarrow> timedelta \<Rightarrow> model_row \<Rightarrow> bool" where
  "model_row_ok obs gap row \<longleftrightarrow>
     mrow_inputs row \<noteq> [] \<and> ek_valid (mrow_key row) \<and> (\<forall>i \<in> set (mrow_inputs row). eligible_input obs gap i)"

text \<open>What a scored result says.\<close>

definition scored :: "model_spec \<Rightarrow> feature_def \<Rightarrow> datetime \<Rightarrow> timedelta \<Rightarrow> feature_result \<Rightarrow> bool" where
  "scored m f obs gap r \<longleftrightarrow>
     result_ok r \<and> r_ref r = f_ref f \<and> r_calc_ts r = obs \<and> ek_valid (r_entity_key r)
     \<and> instant (r_data_ts r) \<le> instant obs - gap
     \<and> (\<exists>t. r_max_input_data_ts r = Some t \<and> instant (r_data_ts r) \<le> instant t \<and> instant t \<le> instant obs - gap)
     \<and> r_model_uri r = Some (ms_uri m) \<and> r_model_digest r = Some (ms_digest m)
     \<and> r_model_output_name r = Some (ms_output_name m)"

lemma model_result_scored:
  assumes "model_result H f m obs (row, p) = Inr r" "model_row_ok obs gap row"
  shows "scored m f obs gap r" "r_value r = p" "r_entity_key r = mrow_key row"
proof -
  obtain a b ref fp vh where
    m: "py_min (map (\<lambda>(_, ts, _). ts) (mrow_inputs row)) = Inr a"
       "py_max (map (\<lambda>(_, ts, _). ts) (mrow_inputs row)) = Inr b"
    and ref: "mk_feature_ref (f_name f) (f_version f) = Inr ref"
    and r: "mk_feature_result \<lparr>r_ref = ref, r_entity_key = mrow_key row, r_value = p, r_data_ts = a,
         r_calc_ts = obs, r_max_input_data_ts = Some b, r_input_fingerprint = Some fp,
         r_value_hash = Some vh, r_available_at = None, r_availability_source = None,
         r_model_uri = Some (ms_uri m), r_model_digest = Some (ms_digest m),
         r_model_output_name = Some (ms_output_name m), r_bundle_digest = None\<rparr> = Inr r"
    using assms(1) unfolding model_result_def Let_def by auto
  have "\<forall>i \<in> set (mrow_inputs row). instant ((\<lambda>(_, ts, _). ts) i) \<le> instant obs - gap"
    using assms(2) eligible_input_cutoff by (force simp: model_row_ok_def)
  note b = py_min_max_bounds[OF m this]
  have "instant a \<le> instant b" using b(3) assms(2) by (cases "mrow_inputs row") (force simp: model_row_ok_def)+
  moreover have "ref = f_ref f" using ref by (auto simp: mk_feature_ref_def f_ref_def)
  ultimately show "scored m f obs gap r" "r_value r = p" "r_entity_key r = mrow_key row"
    using r b(1,2) assms(2) by (auto simp: scored_def model_row_ok_def)
qed

lemma score_results:
  assumes "map_res (model_result H f m obs) (zip rows predictions) = Inr results"
    "\<forall>row \<in> set rows. model_row_ok obs gap row" "length predictions = length rows"
  shows "\<forall>r \<in> set results. scored m f obs gap r" "map r_value results = predictions"
    "map r_entity_key results = map mrow_key rows"
proof -
  have l: "list_all2 (\<lambda>x r. model_result H f m obs x = Inr r) (zip rows predictions) results"
    using assms(1) by (simp add: map_res_Inr_iff)
  have n: "length results = length rows" using list_all2_lengthD[OF l] assms(3) by simp
  have i: "scored m f obs gap (results ! k) \<and> r_value (results ! k) = predictions ! k
      \<and> r_entity_key (results ! k) = mrow_key (rows ! k)" if "k < length rows" for k
    using model_result_scored[of H f m obs "rows ! k" "predictions ! k" "results ! k" gap]
      list_all2_nthD2[OF l, of k] assms(2,3) n that by (simp add: list_all2_conv_all_nth)
  from i n assms(3) show "\<forall>r \<in> set results. scored m f obs gap r" "map r_value results = predictions"
    "map r_entity_key results = map mrow_key rows"
    by (auto simp: in_set_conv_nth list_eq_iff_nth_eq)
qed

lemma build_rows_count:
  assumes "build_rows ops H s view vv fbn obs gap f keys = Inr (rows, skipped)"
  shows "length rows + skipped = length keys"
proof -
  have "length rows' + skipped' = length rows0 + k0 + length keys"
    if "fold_res (\<lambda>ek (rows, skipped).
         rbind (build_row ops H s view vv fbn obs gap (f_deps f)
                  \<lparr>mrow_key = ek, mrow_frame = [], mrow_inputs = []\<rparr>) (\<lambda>row.
         Inr (case row of None \<Rightarrow> (rows, skipped + 1) | Some r \<Rightarrow> (rows @ [r], skipped)))) keys (rows0, k0)
      = Inr (rows', skipped')" for rows0 k0 rows' skipped'
    using that by (induction keys arbitrary: rows0 k0) (fastforce split: option.splits)+
  from this[OF assms[unfolded build_rows_def]] show ?thesis by simp
qed

text \<open>Every entity of a batch is computed or skipped.\<close>

lemma model_batch_accounts:
  assumes "compute_model_feature_batch R runner uuid now view vv name keys obs gap run_id job_id wave_id source w
      = (Inr mb, w')"
  shows "mb_computed mb + mb_skipped mb = length keys"
proof -
  obtain v f m refs results where
    s: "score_batch (rt_stores R) (rt_env R) (w_offline w) runner view vv name keys obs gap
      = Inr (v, f, m, refs, results, mb_skipped mb)" "mb_computed mb = length results"
    using assms unfolding compute_model_feature_batch_def Let_def by (auto split: sum.splits prod.splits)
  then obtain rows predictions where
    "build_rows (rt_stores R) (fe_hasher (rt_env R)) (w_offline w) view vv (features_by_name v) obs gap f keys
      = Inr (rows, mb_skipped mb)"
    "predict_rows runner m rows = Inr predictions"
    "map_res (model_result (fe_hasher (rt_env R)) f m obs) (zip rows predictions) = Inr results"
    by (auto simp: score_batch_def split: option.splits)
  with s(2) build_rows_count map_res_length[of _ "zip rows predictions" results] show ?thesis
    by (fastforce simp: predict_rows_def)
qed

text \<open>A batch touches neither the online store nor the results of requests.\<close>

lemma model_batch_frame:
  assumes "compute_model_feature_batch R runner uuid now view vv name keys obs gap run_id job_id wave_id source w
      = (res, w')"
  shows "\<exists>off b. w' = w\<lparr>w_offline := off, w_broker := b\<rparr>"
proof -
  consider "w' = w" | r v results em off where
    "emit_feature_updates (send_update R) uuid v results em (w\<lparr>w_offline := off\<rparr>) = (r, w')"
    using assms unfolding compute_model_feature_batch_def Let_def
    by (auto split: sum.splits prod.splits)
  then show ?thesis
  proof cases
    case 1
    then show ?thesis by (intro exI[of _ "w_offline w"] exI[of _ "w_broker w"]) simp
  next
    case 2
    from emit_updates_frame[OF this] show ?thesis by auto
  qed
qed

context offline_ops
begin

lemma build_row_eligible:
  assumes "inv s" "pit_args_ok obs gap"
    and "build_row ops H s view vv fbn obs gap deps row = Inr (Some row')"
    and "ek_valid (mrow_key row)" "\<forall>i \<in> set (mrow_inputs row). eligible_input obs gap i"
  shows "model_row_ok obs gap row' \<and> mrow_key row' = mrow_key row"
  using assms(3-5)
proof (induction deps arbitrary: row)
  case Nil
  then show ?case by (auto simp: model_row_ok_def split: if_splits)
next
  case (Cons dep deps)
  from Cons.prems(1) obtain version rec where
    get: "get_pit s (mrow_key row) (d_feature dep) version view vv obs gap = Inr rec"
    and rest: "(case rec of
       None \<Rightarrow>
         if d_required dep then Inr None
         else build_row ops H s view vv fbn obs gap deps row
     | Some x \<Rightarrow>
         rbind (mk_feature_ref (d_feature dep) version) (\<lambda>ref.
         rbind (text_or (r_value_hash (or_result x)) (value_hash_of H (r_value (or_result x)))) (\<lambda>vh.
         build_row ops H s view vv fbn obs gap deps
           (row\<lparr>mrow_frame := dict_set (d_feature dep) (r_value (or_result x)) (mrow_frame row),
                mrow_inputs := mrow_inputs row @ [(ref_text ref, r_data_ts (or_result x), vh)]\<rparr>)))) = Inr (Some row')"
    by (auto simp: ops_get_pit)
  show ?case
  proof (cases rec)
    case None
    with rest Cons.IH[OF _ Cons.prems(2,3)] show ?thesis by (auto split: if_splits)
  next
    case (Some x)
    have "pit_allowed obs gap (or_result x) \<and> result_ok (or_result x)"
      using get_pit_selected(2,3)[OF assms(1) Cons.prems(2) assms(2) get[unfolded Some]] by blast
    then have e: "eligible_input obs gap (t, r_data_ts (or_result x), h)" for t h
      by (auto simp: eligible_input_def)
    from Some rest obtain ref vh where
      "build_row ops H s view vv fbn obs gap deps
           (row\<lparr>mrow_frame := dict_set (d_feature dep) (r_value (or_result x)) (mrow_frame row),
                mrow_inputs := mrow_inputs row @ [(ref_text ref, r_data_ts (or_result x), vh)]\<rparr>) = Inr (Some row')"
      by auto
    from Cons.IH[OF this] Cons.prems(2,3) e show ?thesis by auto
  qed
qed

text \<open>A row exists only when every required input has an eligible value.\<close>

lemma build_row_required:
  assumes "build_row ops H s view vv fbn obs gap deps row = Inr (Some row')" "dep \<in> set deps" "d_required dep"
  shows "\<exists>version x. pinned_version fbn dep = Inr version
    \<and> get_pit s (mrow_key row) (d_feature dep) version view vv obs gap = Inr (Some x)"
  using assms(1,2)
proof (induction deps arbitrary: row)
  case (Cons d deps)
  from Cons.prems(1) obtain version rec where v: "pinned_version fbn d = Inr version"
    "get_pit s (mrow_key row) (d_feature d) version view vv obs gap = Inr rec"
    by (auto simp: ops_get_pit)
  show ?case
  proof (cases "dep = d")
    case True
    with v Cons.prems(1) assms(3) show ?thesis by (cases rec) (auto simp: ops_get_pit)
  next
    case False
    then have m: "dep \<in> set deps" using Cons.prems(2) by simp
    obtain row1 where "build_row ops H s view vv fbn obs gap deps row1 = Inr (Some row')" "mrow_key row1 = mrow_key row"
    proof (cases rec)
      case None
      with v Cons.prems(1) show ?thesis by (intro that[of row]) (auto simp: ops_get_pit split: if_splits)
    next
      case (Some x)
      with v Cons.prems(1) show ?thesis by (auto simp: ops_get_pit intro: that)
    qed
    from Cons.IH[OF this(1) m] this(2) show ?thesis by simp
  qed
qed simp

lemma build_rows_eligible:
  assumes "inv s" "pit_args_ok obs gap" "\<forall>k \<in> set keys. ek_valid k"
    and "build_rows ops H s view vv fbn obs gap f keys = Inr (rows, skipped)"
  shows "(\<forall>row \<in> set rows. model_row_ok obs gap row) \<and> length rows + skipped = length keys
    \<and> set (map mrow_key rows) \<subseteq> set keys"
proof -
  have "(\<forall>row \<in> set rows'. model_row_ok obs gap row) \<and> length rows' + skipped' = n + length keys
      \<and> set (map mrow_key rows') \<subseteq> K \<union> set keys"
    if "fold_res (\<lambda>ek (rows, skipped).
         rbind (build_row ops H s view vv fbn obs gap (f_deps f)
                  \<lparr>mrow_key = ek, mrow_frame = [], mrow_inputs = []\<rparr>) (\<lambda>row.
         Inr (case row of None \<Rightarrow> (rows, skipped + 1) | Some r \<Rightarrow> (rows @ [r], skipped)))) keys (rows0, k0)
      = Inr (rows', skipped')"
      "\<forall>row \<in> set rows0. model_row_ok obs gap row" "length rows0 + k0 = n" "set (map mrow_key rows0) \<subseteq> K"
    for rows0 k0 rows' skipped' n K
    using that assms(3)
  proof (induction keys arbitrary: rows0 k0 n K)
    case (Cons ek keys)
    from Cons.prems(1) obtain row where b: "build_row ops H s view vv fbn obs gap (f_deps f)
        \<lparr>mrow_key = ek, mrow_frame = [], mrow_inputs = []\<rparr> = Inr row"
      and rest: "fold_res (\<lambda>ek (rows, skipped).
         rbind (build_row ops H s view vv fbn obs gap (f_deps f)
                  \<lparr>mrow_key = ek, mrow_frame = [], mrow_inputs = []\<rparr>) (\<lambda>row.
         Inr (case row of None \<Rightarrow> (rows, skipped + 1) | Some r \<Rightarrow> (rows @ [r], skipped)))) keys
        (case row of None \<Rightarrow> (rows0, k0 + 1) | Some r \<Rightarrow> (rows0 @ [r], k0)) = Inr (rows', skipped')"
      by auto
    show ?case
    proof (cases row)
      case None
      from Cons.IH[OF rest[unfolded None option.case], of "n + 1" K] Cons.prems show ?thesis by auto
    next
      case (Some r)
      from build_row_eligible[OF assms(1,2) b[unfolded Some]] Cons.prems(5)
      have "model_row_ok obs gap r" "mrow_key r = ek" by simp_all
      with Cons.IH[OF rest[unfolded Some option.case], of "n + 1" "insert ek K"] Cons.prems show ?thesis by auto
    qed
  qed simp
  from this[OF assms(4)[unfolded build_rows_def], of 0 "{}"] show ?thesis by simp
qed

lemma score_batch_spec:
  assumes "inv s" "pit_args_ok obs gap" "\<forall>k \<in> set keys. ek_valid k"
    and "score_batch ops F s runner view vv name keys obs gap = Inr (v, f, m, refs, results, skipped)"
  shows "(\<forall>r \<in> set results. scored m f obs gap r \<and> r_entity_key r \<in> set keys)
    \<and> length results + skipped = length keys \<and> f_model f = Some m \<and> f_name f = name \<and> f_kind f = ''model''
    \<and> find_view_in (reg_views (fe_registry F)) view vv = Some v \<and> f \<in> set (v_features v)"
proof -
  obtain rows predictions where
    v: "find_view_in (reg_views (fe_registry F)) view vv = Some v"
    and f: "resolve_model_feature v name = Inr (f, m)"
    and rows: "build_rows ops (fe_hasher F) s view vv (features_by_name v) obs gap f keys = Inr (rows, skipped)"
    and p: "predict_rows runner m rows = Inr predictions"
    and r: "map_res (model_result (fe_hasher F) f m obs) (zip rows predictions) = Inr results"
    using assms(4) by (auto simp: score_batch_def split: option.splits)
  have "f_model f = Some m \<and> f_name f = name \<and> f_kind f = ''model'' \<and> f \<in> set (v_features v)"
    using f by (auto simp: resolve_model_feature_def find_Some_iff split: option.splits if_splits)
  moreover have "length predictions = length rows" using p by (auto simp: predict_rows_def)
  note score_results[OF r _ this] build_rows_eligible[OF assms(1-3) rows]
  moreover have "length results = length rows"
    using map_res_length[OF r] p by (auto simp: predict_rows_def)
  ultimately show ?thesis using v by (auto simp flip: set_map) (metis imageI list.set_map subsetD)
qed

text \<open>Whatever becomes of a batch, it appends nothing but scored results.\<close>

lemma model_batch_appends:
  assumes "inv (w_offline w)" "rt_stores R = ops" "pit_args_ok obs gap" "\<forall>k \<in> set keys. ek_valid k"
    and "compute_model_feature_batch R runner uuid now view vv name keys obs gap run_id job_id wave_id source w
      = (res, w')"
  shows "w_offline w' = w_offline w \<or> (\<exists>f m new. (\<forall>r \<in> set new. scored m f obs gap r)
    \<and> so_append_many ops (w_offline w) view vv new = Inr (w_offline w'))"
proof (cases "w_offline w' = w_offline w")
  case False
  obtain v f m refs results skipped new k off r em where
    s: "score_batch ops (rt_env R) (w_offline w) runner view vv name keys obs gap = Inr (v, f, m, refs, results, skipped)"
    and a: "append_new ops (rt_repr R) (w_offline w) view vv results = Inr (new, k, off)"
    and e: "emit_feature_updates (send_update R) uuid v results em (w\<lparr>w_offline := off\<rparr>) = (r, w')"
    using assms(5) False unfolding compute_model_feature_batch_def assms(2) Let_def
    by (auto split: sum.splits prod.splits)
  have "w_offline w' = off" using emit_updates_frame[OF e] by auto
  moreover have "set new \<subseteq> set results" "so_append_many ops (w_offline w) view vv new = Inr off"
    using a partition_new_resultsE(1) by (auto simp: append_new_def) blast
  ultimately show ?thesis using score_batch_spec[OF assms(1,3,4) s] by blast
qed simp

text \<open>
  A batch that ends well accounts for every entity, has written point-in-time safe results with
  the pinned model's identity, and announced them.
\<close>

lemma model_batch_spec:
  assumes "inv (w_offline w)" "rt_stores R = ops" "pit_args_ok obs gap" "\<forall>k \<in> set keys. ek_valid k"
    and "compute_model_feature_batch R runner uuid now view vv name keys obs gap run_id job_id wave_id source w
      = (Inr mb, w')"
  shows "mb_computed mb + mb_skipped mb = mb_planned mb \<and> mb_planned mb = length keys
    \<and> (\<exists>f m results new. (\<forall>r \<in> set results. scored m f obs gap r \<and> r_entity_key r \<in> set keys)
         \<and> length results = mb_computed mb \<and> f_name f = name \<and> mb_model mb = model_ref_of m
         \<and> set new \<subseteq> set results \<and> length new + mb_duplicates mb = length results
         \<and> so_append_many ops (w_offline w) view vv new = Inr (w_offline w'))"
proof -
  obtain v f m refs results skipped new off em where
    s: "score_batch ops (rt_env R) (w_offline w) runner view vv name keys obs gap = Inr (v, f, m, refs, results, skipped)"
    and a: "append_new ops (rt_repr R) (w_offline w) view vv results = Inr (new, mb_duplicates mb, off)"
    and e: "emit_feature_updates (send_update R) uuid v results em (w\<lparr>w_offline := off\<rparr>) = (Inr (mb_downstream mb), w')"
    and mb: "mb_planned mb = length keys" "mb_computed mb = length results" "mb_skipped mb = skipped"
      "mb_model mb = model_ref_of m"
    using assms(5) unfolding compute_model_feature_batch_def assms(2) Let_def
    by (auto split: sum.splits prod.splits)
  note sp = score_batch_spec[OF assms(1,3,4) s]
  obtain p where p: "partition_new_results (rt_repr R) (so_get ops (w_offline w)) view vv results = Inr (new, mb_duplicates mb)"
    and off: "so_append_many ops (w_offline w) view vv new = Inr off"
    using a by (auto simp: append_new_def)
  have "w_offline w' = off" using emit_updates_frame[OF e] by auto
  with sp mb off partition_new_resultsE[OF p] show ?thesis
    by (intro conjI exI[of _ f] exI[of _ m] exI[of _ results] exI[of _ new]) auto
qed

end

end
