(* ===== verification/PropagationWorker.thy ===== *)
theory PropagationWorker
  imports ModelBatch
begin

text \<open>
  The reactive propagation worker: planning an update into the debounce store, the recompute wave
  (api/propagation_worker.py), and the consumer that holds offsets until a wave has succeeded
  (api/propagation_worker_runner.py). Clocks, random ids and the model runner are parameters;
  metrics and logs are left out.
\<close>

section \<open>Observing an update\<close>

record update_result =
  ur_status :: string
  ur_candidates :: nat
  ur_error :: "exc option"

text \<open>The loop over the candidates; an exception leaves it, what was observed stays.\<close>

fun observe_each ::
    "(nat \<Rightarrow> datetime) \<Rightarrow> feature_updated \<Rightarrow> recompute_candidate list \<Rightarrow> debounce_store
      \<Rightarrow> unit res \<times> debounce_store" where
  "observe_each clock ev [] store = (Inr (), store)"
| "observe_each clock ev (c # cs) store =
     (case observe store c ev (clock 0) of
        Inl e \<Rightarrow> (Inl e, store)
      | Inr (_, store') \<Rightarrow> observe_each (\<lambda>i. clock (i + 1)) ev cs store')"

definition handle_feature_updated ::
    "registry \<Rightarrow> (nat \<Rightarrow> datetime) \<Rightarrow> feature_updated \<Rightarrow> debounce_store
      \<Rightarrow> update_result res \<times> debounce_store" where
  "handle_feature_updated reg clock ev store =
     (case plan_recompute_wave reg ev of
        Inl e \<Rightarrow>
          if caught e then (Inr \<lparr>ur_status = ''invalid_event'', ur_candidates = 0, ur_error = Some e\<rparr>, store)
          else (Inl e, store)
      | Inr cs \<Rightarrow>
          (case observe_each clock ev cs store of
             (Inl e, store') \<Rightarrow> (Inl e, store')
           | (Inr _, store') \<Rightarrow>
               (Inr \<lparr>ur_status = ''ok'', ur_candidates = length cs, ur_error = None\<rparr>, store')))"

section \<open>The wave\<close>

record recompute_wave =
  rw_wave_id :: string
  rw_trigger_update_ids :: "string list"
  rw_entity_count :: nat
  rw_dependent_feature_refs :: "string list"
  rw_status :: string
  rw_created_at :: datetime
  rw_planned :: nat
  rw_computed :: nat
  rw_skipped :: nat
  rw_failed :: nat
  rw_debounced :: nat
  rw_downstream_emitted :: nat

definition rw_counts :: "recompute_wave \<Rightarrow> (string, nat) dict" where
  "rw_counts v =
     [(''planned'', rw_planned v), (''computed'', rw_computed v), (''skipped'', rw_skipped v),
      (''failed'', rw_failed v), (''debounced'', rw_debounced v),
      (''downstream_emitted'', rw_downstream_emitted v)]"

text \<open>The tally; its two sets are lists without repetition.\<close>

record wave_tally =
  wt_computed :: nat
  wt_skipped :: nat
  wt_failed :: nat
  wt_downstream :: nat
  wt_entities :: "string list"
  wt_refs :: "string list"
  wt_triggers :: "string list"

definition empty_tally :: wave_tally where
  "empty_tally = \<lparr>wt_computed = 0, wt_skipped = 0, wt_failed = 0, wt_downstream = 0,
     wt_entities = [], wt_refs = [], wt_triggers = []\<rparr>"

definition note_entry :: "debounce_entry \<Rightarrow> wave_tally \<Rightarrow> wave_tally res" where
  "note_entry e t =
     rbind (er_encoded (de_entity e)) (\<lambda>encoded.
     Inr (t\<lparr>wt_triggers := wt_triggers t @ de_trigger_update_ids e,
            wt_refs := List.insert (de_dependent_feature e @ '':v'' @ int_str (de_dependent_version e)) (wt_refs t),
            wt_entities := List.insert (er_type (de_entity e) @ '':'' @ encoded) (wt_entities t)\<rparr>))"

text \<open>The entity key in the order of the view's key fields.\<close>

definition entry_key :: "view_def option \<Rightarrow> debounce_entry \<Rightarrow> entity_key res" where
  "entry_key v e =
     (case v of
        Some v \<Rightarrow> ek_from_mapping (er_key (de_entity e)) (Some (v_key_fields v))
      | None \<Rightarrow> mk_entity_key (er_key (de_entity e)))"

definition wave_emission :: "debounce_entry \<Rightarrow> datetime \<Rightarrow> emission" where
  "wave_emission e now =
     \<lparr>em_entity_type = er_type (de_entity e), em_source = ''recompute_wave'', em_run_id = None,
      em_job_id = None, em_manifest_id = None, em_occurred_at = now\<rparr>"

text \<open>What a wave is run with.\<close>

record wave_env =
  we_calc_ts :: datetime
  we_gap :: timedelta
  we_wave_id :: string
  we_runner :: "model_runner option"
  we_uuid :: "nat \<Rightarrow> nat \<Rightarrow> string"
  we_now :: "nat \<Rightarrow> datetime"

definition recompute_model_dependent ::
    "('o, 'n, 'r, 's) runtime \<Rightarrow> wave_env \<Rightarrow> nat \<Rightarrow> debounce_entry \<Rightarrow> entity_key \<Rightarrow> wave_tally
      \<Rightarrow> ('o, 'n, 'r, 's) world \<Rightarrow> wave_tally res \<times> ('o, 'n, 'r, 's) world" where
  "recompute_model_dependent R W i e ek t w =
     (case we_runner W of
        None \<Rightarrow> (Inr (t\<lparr>wt_skipped := wt_skipped t + 1\<rparr>), w)
      | Some runner \<Rightarrow>
          (case compute_model_feature_batch R runner (we_uuid W i) (we_now W i) (de_view e) (de_view_version e)
                  (de_dependent_feature e) [ek] (we_calc_ts W) (we_gap W) None None (Some (we_wave_id W))
                  ''recompute_wave'' w of
             (Inl x, w') \<Rightarrow> (if caught x then Inr (t\<lparr>wt_failed := wt_failed t + 1\<rparr>) else Inl x, w')
           | (Inr mb, w') \<Rightarrow>
               (Inr (t\<lparr>wt_computed := wt_computed t + mb_computed mb,
                       wt_skipped := wt_skipped t + mb_skipped mb,
                       wt_downstream := wt_downstream t + mb_downstream mb\<rparr>), w')))"

text \<open>A recomputed result: durable first, then announced.\<close>

definition store_recomputed ::
    "('o, 'n, 'r, 's) runtime \<Rightarrow> wave_env \<Rightarrow> nat \<Rightarrow> debounce_entry \<Rightarrow> view_def option \<Rightarrow> feature_result
      \<Rightarrow> wave_tally \<Rightarrow> ('o, 'n, 'r, 's) world \<Rightarrow> wave_tally res \<times> ('o, 'n, 'r, 's) world" where
  "store_recomputed R W i e v r t w =
     (case append_new (rt_stores R) (rt_repr R) (w_offline w) (de_view e) (de_view_version e) [r] of
        Inl x \<Rightarrow> (Inl x, w)
      | Inr (_, _, off) \<Rightarrow>
          let w1 = w\<lparr>w_offline := off\<rparr>; t1 = t\<lparr>wt_computed := wt_computed t + 1\<rparr>
          in case v of
               None \<Rightarrow> (Inr t1, w1)
             | Some v \<Rightarrow>
                 (case emit_feature_updates (send_update R) (we_uuid W i) v [r] (wave_emission e (we_now W i)) w1 of
                    (Inl x, w2) \<Rightarrow> (Inl x, w2)
                  | (Inr n, w2) \<Rightarrow> (Inr (t1\<lparr>wt_downstream := wt_downstream t1 + n\<rparr>), w2)))"

definition wave_unit ::
    "('o, 'n, 'r, 's) runtime \<Rightarrow> wave_env \<Rightarrow> nat \<Rightarrow> debounce_entry \<Rightarrow> wave_tally
      \<Rightarrow> ('o, 'n, 'r, 's) world \<Rightarrow> wave_tally res \<times> ('o, 'n, 'r, 's) world" where
  "wave_unit R W i e t0 w =
     (case note_entry e t0 of
        Inl x \<Rightarrow> (Inl x, w)
      | Inr t \<Rightarrow>
      let v = find_view_in (reg_views (fe_registry (rt_env R))) (de_view e) (de_view_version e);
          failed = (\<lambda>x. if caught x then Inr (t\<lparr>wt_failed := wt_failed t + 1\<rparr>) else Inl x)
      in case entry_key v e of
        Inl x \<Rightarrow> (failed x, w)
      | Inr ek \<Rightarrow>
      case (case v of None \<Rightarrow> None
            | Some v \<Rightarrow> find (\<lambda>f. f_name f = de_dependent_feature e) (v_features v)) of
        Some f \<Rightarrow>
          if f_kind f = ''model'' then recompute_model_dependent R W i e ek t w
          else (case compute_dependent_from_offline (rt_stores R) (rt_env R) (w_offline w) (de_view e)
                       (de_view_version e) ek (de_dependent_feature e) (we_calc_ts W) (we_gap W) of
                  Inl x \<Rightarrow> (failed x, w)
                | Inr None \<Rightarrow> (Inr (t\<lparr>wt_skipped := wt_skipped t + 1\<rparr>), w)
                | Inr (Some r) \<Rightarrow> store_recomputed R W i e v r t w)
      | None \<Rightarrow>
          (case compute_dependent_from_offline (rt_stores R) (rt_env R) (w_offline w) (de_view e)
                  (de_view_version e) ek (de_dependent_feature e) (we_calc_ts W) (we_gap W) of
             Inl x \<Rightarrow> (failed x, w)
           | Inr None \<Rightarrow> (Inr (t\<lparr>wt_skipped := wt_skipped t + 1\<rparr>), w)
           | Inr (Some r) \<Rightarrow> store_recomputed R W i e v r t w))"

fun wave_units ::
    "('o, 'n, 'r, 's) runtime \<Rightarrow> wave_env \<Rightarrow> nat \<Rightarrow> debounce_entry list \<Rightarrow> wave_tally
      \<Rightarrow> ('o, 'n, 'r, 's) world \<Rightarrow> wave_tally res \<times> ('o, 'n, 'r, 's) world" where
  "wave_units R W i [] t w = (Inr t, w)"
| "wave_units R W i (e # es) t w =
     (case wave_unit R W i e t w of
        (Inl x, w') \<Rightarrow> (Inl x, w')
      | (Inr t', w') \<Rightarrow> wave_units R W (i + 1) es t' w')"

text \<open>The store is drained before the first unit runs, whatever becomes of the wave.\<close>

definition execute_wave ::
    "('o, 'n, 'r, 's) runtime \<Rightarrow> wave_env \<Rightarrow> debounce_store \<Rightarrow> ('o, 'n, 'r, 's) world
      \<Rightarrow> recompute_wave res \<times> debounce_store \<times> ('o, 'n, 'r, 's) world" where
  "execute_wave R W store w =
     (case debounce_drain store of (entries, store') \<Rightarrow>
      case wave_units R W 0 entries empty_tally w of
        (Inl x, w') \<Rightarrow> (Inl x, store', w')
      | (Inr t, w') \<Rightarrow>
          (Inr \<lparr>rw_wave_id = we_wave_id W, rw_trigger_update_ids = wt_triggers t,
                rw_entity_count = length (wt_entities t), rw_dependent_feature_refs = sort (wt_refs t),
                rw_status = (if wt_failed t = 0 then ''completed'' else ''completed_with_errors''),
                rw_created_at = we_calc_ts W, rw_planned = length entries,
                rw_computed = wt_computed t, rw_skipped = wt_skipped t, rw_failed = wt_failed t,
                rw_debounced = 0, rw_downstream_emitted = wt_downstream t\<rparr>, store', w'))"

section \<open>The consumer\<close>

text \<open>
  The state of one round: the debounce store, the observed messages that are held for the flush
  (their offsets), the partition, and the world.
\<close>

record ('o, 'n, 'r, 's) prop_state =
  pw_debounce :: debounce_store
  pw_held :: "nat list"
  pw_partition :: partition
  pw_world :: "('o, 'n, 'r, 's) world"

definition updates_topic :: string where
  "updates_topic = ''fp.feature-updates''"

text \<open>The commit of a message puts the group's offset behind it.\<close>

definition commit_offset :: "nat \<Rightarrow> partition \<Rightarrow> partition" where
  "commit_offset n p = p\<lparr>pa_committed := n + 1\<rparr>"

definition prop_dead_letter ::
    "('o, 'n, 'r, 's) runtime \<Rightarrow> datetime \<Rightarrow> nat \<Rightarrow> message \<Rightarrow> string \<Rightarrow> string option
      \<Rightarrow> ('o, 'n, 'r, 's) prop_state \<Rightarrow> process_result \<times> ('o, 'n, 'r, 's) prop_state" where
  "prop_dead_letter R now n m status err s =
     (case route_to_dlq (rt_repr R) now updates_topic ''propagation_worker'' status err m None None
             (w_broker (pw_world s)) of
        (True, b) \<Rightarrow>
          (committed_pr ''dead_lettered'',
           s\<lparr>pw_world := (pw_world s)\<lparr>w_broker := b\<rparr>, pw_partition := commit_offset n (pw_partition s)\<rparr>)
      | (False, b) \<Rightarrow> (failed_pr ''dlq_publish_failed'', s\<lparr>pw_world := (pw_world s)\<lparr>w_broker := b\<rparr>\<rparr>))"

text \<open>
  \<^verbatim>\<open>process_next\<close> on the message at offset \<open>n\<close>. \<open>Inl\<close> is an exception that leaves the turn: the
  candidates are observed outside of the handler's \<^verbatim>\<open>try\<close>.
\<close>

definition prop_process_next ::
    "('o, 'n, 'r, 's) runtime \<Rightarrow> (nat \<Rightarrow> datetime) \<Rightarrow> nat \<Rightarrow> message option \<Rightarrow> ('o, 'n, 'r, 's) prop_state
      \<Rightarrow> process_result res \<times> ('o, 'n, 'r, 's) prop_state" where
  "prop_process_next R clock n polled s =
     (case polled of
        None \<Rightarrow> (Inr (failed_pr ''idle''), s)
      | Some m \<Rightarrow>
      if msg_error m \<noteq> None then (Inr (failed_pr ''consume_error''), s)
      else case (case msg_doc m of None \<Rightarrow> Inl (ValueError ''Expecting value'') | Some d \<Rightarrow> fu_from_dict d) of
        Inl e \<Rightarrow>
          (case prop_dead_letter R (clock 0) n m ''deserialization_failed'' (Some (exc_text e)) s of
             (pr, s') \<Rightarrow> (Inr pr, s'))
      | Inr ev \<Rightarrow>
      case handle_feature_updated (fe_registry (rt_env R)) (\<lambda>i. clock (i + 1)) ev (pw_debounce s) of
        (Inl e, store) \<Rightarrow> (Inl e, s\<lparr>pw_debounce := store\<rparr>)
      | (Inr r, store) \<Rightarrow>
          let s1 = s\<lparr>pw_debounce := store\<rparr>
          in if ur_status r \<noteq> ''ok'' then
               (case prop_dead_letter R (clock 0) n m ''invalid_event'' (map_option exc_text (ur_error r)) s1 of
                  (pr, s') \<Rightarrow> (Inr pr, s'))
             else (Inr (failed_pr ''observed''), s1\<lparr>pw_held := pw_held s1 @ [n]\<rparr>))"

definition prop_turn ::
    "('o, 'n, 'r, 's) runtime \<Rightarrow> (nat \<Rightarrow> datetime) \<Rightarrow> ('o, 'n, 'r, 's) prop_state
      \<Rightarrow> process_result res \<times> ('o, 'n, 'r, 's) prop_state" where
  "prop_turn R clock s =
     (case poll_message (pw_partition s) of (polled, p) \<Rightarrow>
      prop_process_next R clock (pa_position (pw_partition s)) polled (s\<lparr>pw_partition := p\<rparr>))"

record flush_result =
  fl_status :: string
  fl_wave :: "recompute_wave option"
  fl_committed :: nat
  fl_error :: "exc option"

definition flush_wave ::
    "('o, 'n, 'r, 's) runtime \<Rightarrow> wave_env \<Rightarrow> ('o, 'n, 'r, 's) prop_state
      \<Rightarrow> flush_result \<times> ('o, 'n, 'r, 's) prop_state" where
  "flush_wave R W s =
     (case execute_wave R W (pw_debounce s) (pw_world s) of
        (Inl e, store, w) \<Rightarrow>
          (\<lparr>fl_status = ''wave_failed'', fl_wave = None, fl_committed = 0, fl_error = Some e\<rparr>,
           s\<lparr>pw_debounce := store, pw_world := w\<rparr>)
      | (Inr v, store, w) \<Rightarrow>
          (\<lparr>fl_status = ''ok'', fl_wave = Some v, fl_committed = length (pw_held s), fl_error = None\<rparr>,
           s\<lparr>pw_debounce := store, pw_world := w, pw_held := [],
             pw_partition := fold commit_offset (pw_held s) (pw_partition s)\<rparr>))"

text \<open>The observing loop of a round, as \<open>run\<close> of the online worker.\<close>

function observe_loop ::
    "('o, 'n, 'r, 's) runtime \<Rightarrow> (nat \<Rightarrow> nat \<Rightarrow> datetime) \<Rightarrow> (nat \<Rightarrow> bool) \<Rightarrow> nat option \<Rightarrow> nat
      \<Rightarrow> ('o, 'n, 'r, 's) prop_state
      \<Rightarrow> process_result list \<times> exc option \<times> ('o, 'n, 'r, 's) prop_state" where
  "observe_loop R clocks stop limit i s =
     (if (\<exists>n. limit = Some n \<and> n \<le> i) \<or> stop i then ([], None, s)
      else case prop_turn R (clocks i) s of
        (Inl e, s1) \<Rightarrow> ([], Some e, s1)
      | (Inr pr, s1) \<Rightarrow>
          if limit = None \<and> pr_status pr = ''idle'' then ([pr], None, s1)
          else (case observe_loop R clocks stop limit (i + 1) s1 of
                  (prs, e, s2) \<Rightarrow> (pr # prs, e, s2)))"
  by pat_completeness auto

lemma prop_dead_letter_frame:
  assumes "prop_dead_letter R now n m status err s = (pr, s')"
  shows "pw_held s' = pw_held s \<and> pw_debounce s' = pw_debounce s
    \<and> pa_messages (pw_partition s') = pa_messages (pw_partition s)
    \<and> pa_position (pw_partition s') = pa_position (pw_partition s)
    \<and> pr_status pr \<in> {''dead_lettered'', ''dlq_publish_failed''}
    \<and> pa_committed (pw_partition s') =
        (if pr_committed pr then n + 1 else pa_committed (pw_partition s))"
  using assms by (auto simp: prop_dead_letter_def commit_offset_def committed_pr_def failed_pr_def
      split: prod.splits bool.splits)

text \<open>One turn: the offset is observed and held, dead-lettered and committed, or skipped.\<close>

definition update_at :: "partition \<Rightarrow> nat \<Rightarrow> feature_updated \<Rightarrow> bool" where
  "update_at p n ev \<longleftrightarrow>
     n < length (pa_messages p) \<and> (\<exists>d. msg_doc (pa_messages p ! n) = Some d \<and> fu_from_dict d = Inr ev)"

definition turn_kept ::
    "('o, 'n, 'r, 's) prop_state \<Rightarrow> process_result \<Rightarrow> ('o, 'n, 'r, 's) prop_state \<Rightarrow> bool" where
  "turn_kept s pr s' \<longleftrightarrow>
     pa_messages (pw_partition s') = pa_messages (pw_partition s)
     \<and> (if pr_status pr = ''observed'' then
          pw_held s' = pw_held s @ [pa_position (pw_partition s)]
          \<and> pa_position (pw_partition s') = pa_position (pw_partition s) + 1
          \<and> pa_committed (pw_partition s') = pa_committed (pw_partition s)
        else pw_held s' = pw_held s \<and> pw_debounce s' = pw_debounce s
          \<and> pa_position (pw_partition s) \<le> pa_position (pw_partition s')
          \<and> pa_committed (pw_partition s') \<in>
              {pa_committed (pw_partition s), pa_position (pw_partition s')})"

lemma handle_feature_updated_ok:
  assumes "handle_feature_updated reg clock ev store = (Inr r, store')"
  shows "ur_status r \<in> {''ok'', ''invalid_event''} \<and> (ur_status r \<noteq> ''ok'' \<longrightarrow> store' = store)"
  using assms by (auto simp: handle_feature_updated_def split: sum.splits if_splits prod.splits)

lemma prop_turn_kept:
  assumes "prop_turn R clock s = (Inr pr, s')"
  shows "turn_kept s pr s'"
proof -
  obtain polled p where po: "poll_message (pw_partition s) = (polled, p)" by (cases "poll_message (pw_partition s)")
  then have p: "pa_messages p = pa_messages (pw_partition s)" "pa_committed p = pa_committed (pw_partition s)"
    "pa_position p = (if polled = None then pa_position (pw_partition s) else pa_position (pw_partition s) + 1)"
    by (auto simp: poll_message_def split: if_splits)
  let ?n = "pa_position (pw_partition s)" and ?s = "s\<lparr>pw_partition := p\<rparr>"
  have run: "prop_process_next R clock ?n polled ?s = (Inr pr, s')" using assms po by (simp add: prop_turn_def)
  show ?thesis
  proof (cases polled)
    case None
    with run p show ?thesis by (auto simp: prop_process_next_def turn_kept_def failed_pr_def)
  next
    case (Some m)
    let ?ev = "case msg_doc m of None \<Rightarrow> Inl (ValueError ''Expecting value'') | Some d \<Rightarrow> fu_from_dict d"
    show ?thesis
    proof (cases "msg_error m = None")
      case False
      with run p Some show ?thesis by (auto simp: prop_process_next_def turn_kept_def failed_pr_def)
    next
      case True
      have dl: "turn_kept s pr s'" if "prop_dead_letter R (clock 0) ?n m st err ?s = (pr, s')" for st err
        using prop_dead_letter_frame[OF that] p Some by (auto simp: turn_kept_def)
      show ?thesis
      proof (cases ?ev)
        case (Inl e)
        with run True Some have "prop_dead_letter R (clock 0) ?n m ''deserialization_failed'' (Some (exc_text e)) ?s = (pr, s')"
          by (auto simp: prop_process_next_def split: prod.splits)
        then show ?thesis by (rule dl)
      next
        case (Inr ev)
        obtain r store where h: "handle_feature_updated (fe_registry (rt_env R)) (\<lambda>i. clock (i + 1)) ev (pw_debounce s) = (Inr r, store)"
          using run True Some Inr by (auto simp: prop_process_next_def split: prod.splits sum.splits)
        show ?thesis
        proof (cases "ur_status r = ''ok''")
          case True
          with run \<open>msg_error m = None\<close> Some Inr h p show ?thesis
            by (auto simp: prop_process_next_def Let_def turn_kept_def failed_pr_def)
        next
          case False
          then have "store = pw_debounce s" using handle_feature_updated_ok[OF h] by simp
          with run True Some Inr h False have
            "prop_dead_letter R (clock 0) ?n m ''invalid_event'' (map_option exc_text (ur_error r)) ?s = (pr, s')"
            by (auto simp: prop_process_next_def Let_def split: prod.splits)
          then show ?thesis by (rule dl)
        qed
      qed
    qed
  qed
qed

lemma prop_turn_progress:
  assumes "prop_turn R clock s = (Inr pr, s')" "pr_status pr \<noteq> ''idle''"
  shows "pa_messages (pw_partition s') = pa_messages (pw_partition s)
    \<and> pa_position (pw_partition s') = pa_position (pw_partition s) + 1
    \<and> pa_position (pw_partition s) < length (pa_messages (pw_partition s))"
proof (cases "pa_position (pw_partition s) < length (pa_messages (pw_partition s))")
  case True
  let ?n = "pa_position (pw_partition s)"
  let ?s = "s\<lparr>pw_partition := (pw_partition s)\<lparr>pa_position := ?n + 1\<rparr>\<rparr>"
  have "prop_process_next R clock ?n (Some (pa_messages (pw_partition s) ! ?n)) ?s = (Inr pr, s')"
    using assms(1) True by (simp add: prop_turn_def poll_message_def)
  then have "pa_position (pw_partition s') = ?n + 1"
    by (auto simp: prop_process_next_def Let_def split: if_splits sum.splits prod.splits
        dest!: prop_dead_letter_frame)
  with True prop_turn_kept[OF assms(1)] show ?thesis by (simp add: turn_kept_def)
next
  case False
  with assms show ?thesis
    by (auto simp: prop_turn_def poll_message_def prop_process_next_def failed_pr_def)
qed

termination observe_loop
  by (relation "measure (\<lambda>(R, clocks, stop, limit, i, s).
      case limit of Some m \<Rightarrow> m - i
      | None \<Rightarrow> length (pa_messages (pw_partition s)) - pa_position (pw_partition s))")
    (auto dest!: sym[of "(_, _)"] prop_turn_progress split: option.splits)

declare observe_loop.simps [simp del]

lemma observe_loop_bounded:
  "length (fst (observe_loop R clocks stop limit i s))
    \<le> (case limit of Some k \<Rightarrow> k - i
       | None \<Rightarrow> Suc (length (pa_messages (pw_partition s)) - pa_position (pw_partition s)))"
proof (induction R clocks stop limit i s rule: observe_loop.induct)
  case (1 R clocks stop limit i s)
  note unf = observe_loop.simps[of R clocks stop limit i s]
  show ?case
  proof (cases "(\<exists>k. limit = Some k \<and> k \<le> i) \<or> stop i")
    case True
    then show ?thesis by (auto simp: unf)
  next
    case False
    obtain r s1 where t: "prop_turn R (clocks i) s = (r, s1)" by (cases "prop_turn R (clocks i) s")
    show ?thesis
    proof (cases r)
      case (Inl e)
      with False t show ?thesis by (simp add: unf)
    next
      case (Inr pr)
      show ?thesis
      proof (cases "limit = None \<and> pr_status pr = ''idle''")
        case True
        with False t Inr show ?thesis unfolding unf by auto
      next
        case go: False
        obtain prs e s2 where rest: "observe_loop R clocks stop limit (i + 1) s1 = (prs, e, s2)"
          by (cases "observe_loop R clocks stop limit (i + 1) s1")
        have ih: "length prs \<le> (case limit of Some k \<Rightarrow> k - (i + 1)
            | None \<Rightarrow> Suc (length (pa_messages (pw_partition s1)) - pa_position (pw_partition s1)))"
          using "1.IH"[OF False t[symmetric] Inr go] rest by simp
        have eq: "observe_loop R clocks stop limit i s = (pr # prs, e, s2)"
          using False t Inr go rest by (auto simp: unf)
        show ?thesis
        proof (cases limit)
          case None
          with go have "pr_status pr \<noteq> ''idle''" by simp
          from prop_turn_progress[OF t[unfolded Inr] this] ih eq None show ?thesis by auto
        next
          case (Some k)
          with False ih eq show ?thesis by auto
        qed
      qed
    qed
  qed
qed

text \<open>\<^verbatim>\<open>run\<close>: observe, then flush one wave. An exception of a turn ends the worker.\<close>

definition prop_run ::
    "('o, 'n, 'r, 's) runtime \<Rightarrow> wave_env \<Rightarrow> (nat \<Rightarrow> nat \<Rightarrow> datetime) \<Rightarrow> (nat \<Rightarrow> bool) \<Rightarrow> nat option
      \<Rightarrow> debounce_store \<Rightarrow> partition \<Rightarrow> ('o, 'n, 'r, 's) world
      \<Rightarrow> process_result list \<times> flush_result res \<times> ('o, 'n, 'r, 's) prop_state" where
  "prop_run R W clocks stop limit debounce p w =
     (case observe_loop R clocks stop limit 0
             \<lparr>pw_debounce = debounce, pw_held = [], pw_partition = p, pw_world = w\<rparr> of
        (prs, Some e, s) \<Rightarrow> (prs, Inl e, s)
      | (prs, None, s) \<Rightarrow> (case flush_wave R W s of (f, s') \<Rightarrow> (prs, Inr f, s')))"

section \<open>What a wave does\<close>

lemma store_recomputed_frame:
  assumes "store_recomputed R W i e v r t w = (res, w')"
  shows "(\<exists>off b. w' = w\<lparr>w_offline := off, w_broker := b\<rparr>)
    \<and> (\<forall>t'. res = Inr t' \<longrightarrow> wt_computed t' = wt_computed t + 1 \<and> wt_skipped t' = wt_skipped t
        \<and> wt_failed t' = wt_failed t \<and> wt_entities t' = wt_entities t \<and> wt_triggers t' = wt_triggers t)"
proof -
  have id: "\<exists>off b. w = w\<lparr>w_offline := off, w_broker := b\<rparr>"
    by (intro exI[of _ "w_offline w"] exI[of _ "w_broker w"]) simp
  show ?thesis
  proof (cases "append_new (rt_stores R) (rt_repr R) (w_offline w) (de_view e) (de_view_version e) [r]")
    case (Inl x)
    with assms id show ?thesis by (auto simp: store_recomputed_def)
  next
    case (Inr a)
    obtain new k off where a: "a = (new, k, off)" by (cases a)
    show ?thesis
    proof (cases v)
      case None
      with assms Inr a show ?thesis
        by (auto simp: store_recomputed_def Let_def intro!: exI[of _ off] exI[of _ "w_broker w"])
    next
      case (Some vd)
      obtain er w2 where em: "emit_feature_updates (send_update R) (we_uuid W i) vd [r]
          (wave_emission e (we_now W i)) (w\<lparr>w_offline := off\<rparr>) = (er, w2)"
        by (cases "emit_feature_updates (send_update R) (we_uuid W i) vd [r]
          (wave_emission e (we_now W i)) (w\<lparr>w_offline := off\<rparr>)")
      from emit_updates_frame[OF em] obtain b where "w2 = w\<lparr>w_offline := off, w_broker := b\<rparr>" by auto
      with assms Inr a Some em show ?thesis
        by (cases er) (auto simp: store_recomputed_def Let_def intro!: exI[of _ off] exI[of _ b])
    qed
  qed
qed

lemma recompute_model_frame:
  assumes "recompute_model_dependent R W i e ek t w = (res, w')"
  shows "(\<exists>off b. w' = w\<lparr>w_offline := off, w_broker := b\<rparr>)
    \<and> (\<forall>t'. res = Inr t' \<longrightarrow> wt_computed t' + wt_skipped t' + wt_failed t' =
          wt_computed t + wt_skipped t + wt_failed t + 1 \<and> wt_entities t' = wt_entities t
          \<and> wt_triggers t' = wt_triggers t)"
proof (cases "we_runner W")
  case None
  with assms show ?thesis
    by (auto simp: recompute_model_dependent_def intro!: exI[of _ "w_offline w"] exI[of _ "w_broker w"])
next
  case (Some runner)
  let ?c = "compute_model_feature_batch R runner (we_uuid W i) (we_now W i) (de_view e) (de_view_version e)
                  (de_dependent_feature e) [ek] (we_calc_ts W) (we_gap W) None None (Some (we_wave_id W))
                  ''recompute_wave'' w"
  obtain r w1 where c: "?c = (r, w1)" by (cases ?c)
  note f = model_batch_frame[OF c]
  show ?thesis
  proof (cases r)
    case (Inl x)
    with assms Some c f show ?thesis by (auto simp: recompute_model_dependent_def split: if_splits)
  next
    case (Inr mb)
    with assms Some c f model_batch_accounts[OF c[unfolded Inr]] show ?thesis
      by (auto simp: recompute_model_dependent_def)
  qed
qed

lemma note_entry_counts:
  assumes "note_entry e t = Inr t'"
  shows "wt_computed t' = wt_computed t \<and> wt_skipped t' = wt_skipped t \<and> wt_failed t' = wt_failed t
    \<and> length (wt_entities t') \<le> length (wt_entities t) + 1
    \<and> wt_triggers t' = wt_triggers t @ de_trigger_update_ids e"
  using assms by (auto simp: note_entry_def List.insert_def)

text \<open>A unit is computed, skipped or failed, and leaves everything but history and broker alone.\<close>

lemma wave_unit_frame:
  assumes "wave_unit R W i e t w = (res, w')"
  shows "(\<exists>off b. w' = w\<lparr>w_offline := off, w_broker := b\<rparr>)
    \<and> (\<forall>t'. res = Inr t' \<longrightarrow> wt_computed t' + wt_skipped t' + wt_failed t' =
          wt_computed t + wt_skipped t + wt_failed t + 1
          \<and> length (wt_entities t') \<le> length (wt_entities t) + 1
          \<and> wt_triggers t' = wt_triggers t @ de_trigger_update_ids e)"
proof -
  have id: "\<exists>off b. w = w\<lparr>w_offline := off, w_broker := b\<rparr>"
    by (intro exI[of _ "w_offline w"] exI[of _ "w_broker w"]) simp
  show ?thesis
  proof (cases "note_entry e t")
    case (Inl x)
    with assms id show ?thesis by (auto simp: wave_unit_def)
  next
    case (Inr t1)
    note n = note_entry_counts[OF Inr]
    let ?v = "find_view_in (reg_views (fe_registry (rt_env R))) (de_view e) (de_view_version e)"
    show ?thesis
    proof (cases "entry_key ?v e")
      case (Inl x)
      with assms id \<open>note_entry e t = Inr t1\<close> n show ?thesis by (auto simp: wave_unit_def Let_def split: if_splits)
    next
      case (Inr ek)
      let ?c = "compute_dependent_from_offline (rt_stores R) (rt_env R) (w_offline w) (de_view e)
                  (de_view_version e) ek (de_dependent_feature e) (we_calc_ts W) (we_gap W)"
      let ?f = "case ?v of None \<Rightarrow> None | Some v \<Rightarrow> find (\<lambda>f. f_name f = de_dependent_feature e) (v_features v)"
      show ?thesis
      proof (cases "\<exists>f. ?f = Some f \<and> f_kind f = ''model''")
        case True
        then have "recompute_model_dependent R W i e ek t1 w = (res, w')"
          using assms \<open>note_entry e t = Inr t1\<close> Inr by (auto simp: wave_unit_def Let_def)
        from recompute_model_frame[OF this] n show ?thesis by auto
      next
        case False
        have run: "(case ?c of
             Inl x \<Rightarrow> (if caught x then Inr (t1\<lparr>wt_failed := wt_failed t1 + 1\<rparr>) else Inl x, w)
           | Inr None \<Rightarrow> (Inr (t1\<lparr>wt_skipped := wt_skipped t1 + 1\<rparr>), w)
           | Inr (Some r) \<Rightarrow> store_recomputed R W i e ?v r t1 w) = (res, w')"
          using assms \<open>note_entry e t = Inr t1\<close> Inr False by (cases ?f) (simp_all add: wave_unit_def Let_def)
        show ?thesis
        proof (cases ?c)
          case (Inl x)
          with run id n show ?thesis by (auto split: if_splits)
        next
          case (Inr ro)
          show ?thesis
          proof (cases ro)
            case None
            with run Inr have r: "res = Inr (t1\<lparr>wt_skipped := wt_skipped t1 + 1\<rparr>)" and w: "w' = w" by simp_all
            show ?thesis unfolding r w using n by (intro conjI id) simp
          next
            case (Some r)
            with run Inr have "store_recomputed R W i e ?v r t1 w = (res, w')" by simp
            note f = store_recomputed_frame[OF this]
            show ?thesis using f[THEN conjunct1] f[THEN conjunct2] n by (intro conjI allI impI) (assumption | simp)+
          qed
        qed
      qed
    qed
  qed
qed

lemma wave_units_frame:
  assumes "wave_units R W i es t w = (res, w')"
  shows "(\<exists>off b. w' = w\<lparr>w_offline := off, w_broker := b\<rparr>)
    \<and> (\<forall>t'. res = Inr t' \<longrightarrow> wt_computed t' + wt_skipped t' + wt_failed t' =
          wt_computed t + wt_skipped t + wt_failed t + length es
          \<and> length (wt_entities t') \<le> length (wt_entities t) + length es
          \<and> wt_triggers t' = wt_triggers t @ concat (map de_trigger_update_ids es))"
  using assms
proof (induction es arbitrary: i t w)
  case Nil
  then show ?case by (auto intro!: exI[of _ "w_offline w"] exI[of _ "w_broker w"])
next
  case (Cons e es)
  obtain r w1 where u: "wave_unit R W i e t w = (r, w1)" by (cases "wave_unit R W i e t w")
  note f = wave_unit_frame[OF u]
  show ?case
  proof (cases r)
    case (Inl x)
    with Cons.prems u f show ?thesis by auto
  next
    case (Inr t1)
    with Cons.prems u have "wave_units R W (i + 1) es t1 w1 = (res, w')" by simp
    from Cons.IH[OF this] f Inr show ?thesis by fastforce
  qed
qed

text \<open>Whatever happens: online values, results and statuses are untouched and the store is empty.\<close>

lemma execute_wave_frame:
  "\<exists>off b. snd (snd (execute_wave R W store w)) = w\<lparr>w_offline := off, w_broker := b\<rparr>"
  "fst (snd (execute_wave R W store w)) = []"
proof -
  obtain r w1 where u: "wave_units R W 0 (dict_values store) empty_tally w = (r, w1)"
    by (cases "wave_units R W 0 (dict_values store) empty_tally w")
  from wave_units_frame[OF u] show "\<exists>off b. snd (snd (execute_wave R W store w)) = w\<lparr>w_offline := off, w_broker := b\<rparr>"
    by (cases r) (auto simp: execute_wave_def debounce_drain_def u)
  show "fst (snd (execute_wave R W store w)) = []"
    by (cases r) (auto simp: execute_wave_def debounce_drain_def u)
qed

lemma execute_wave_accounts:
  assumes "execute_wave R W store w = (Inr v, rest)"
  shows "rw_planned v = length store \<and> rw_computed v + rw_skipped v + rw_failed v = rw_planned v
    \<and> rw_trigger_update_ids v = concat (map de_trigger_update_ids (dict_values store))
    \<and> rw_entity_count v \<le> rw_planned v \<and> (rw_status v = ''completed'' \<longleftrightarrow> rw_failed v = 0)"
proof -
  obtain t w1 where u: "wave_units R W 0 (dict_values store) empty_tally w = (Inr t, w1)"
    using assms by (auto simp: execute_wave_def debounce_drain_def split: prod.splits sum.splits)
  from wave_units_frame[OF u] assms u show ?thesis
    by (auto simp: execute_wave_def debounce_drain_def empty_tally_def dict_values_def split: if_splits)
qed

section \<open>A wave reads only eligible history\<close>

text \<open>What a wave appends to the in-memory history: neither clock of a result passes the cutoff.\<close>

definition within_wave :: "wave_env \<Rightarrow> feature_result \<Rightarrow> bool" where
  "within_wave W r \<longleftrightarrow>
     result_ok r \<and> ek_valid (r_entity_key r) \<and> r_calc_ts r = we_calc_ts W
     \<and> instant (r_data_ts r) \<le> instant (we_calc_ts W) - we_gap W
     \<and> (\<exists>m. r_max_input_data_ts r = Some m \<and> instant m \<le> instant (we_calc_ts W) - we_gap W)"

definition self_free :: "registry \<Rightarrow> bool" where
  "self_free reg \<longleftrightarrow>
     (\<forall>v \<in> set (reg_views reg). \<forall>n f. map_of (features_by_name v) n = Some f \<longrightarrow> n \<notin> set (dep_names f))"

lemma valid_registry_self_free:
  assumes "validate_registry reg = Inr ()" "\<forall>v \<in> set (reg_views reg). 0 \<le> graph_cap v"
  shows "self_free reg"
  unfolding self_free_def
proof (intro ballI allI impI notI)
  fix v n f
  assume v: "v \<in> set (reg_views reg)" and f: "map_of (features_by_name v) n = Some f" and d: "n \<in> set (dep_names f)"
  from v assms have "view_rules (reg_entities reg) (reg_sources reg) v"
    using validate_registry_iff[of reg] by (auto simp: registry_rules_def)
  then have short: "\<And>n m j. (dep_edge (features_by_name v) ^^ j) n m \<Longrightarrow> int j \<le> graph_cap v"
    by (auto simp: view_rules_def)
  have "dep_edge (features_by_name v) n n" using f d by (auto simp: dep_edge_def dep_names_def)
  then have loop: "(dep_edge (features_by_name v) ^^ j) n n" for j
    by (induction j) auto
  from short[OF loop[of "nat (graph_cap v) + 1"]] show False by (simp split: if_splits)
qed

lemma dependent_result_ok:
  assumes "compute_dependent_from_offline ops F off view version ek name calc_ts gap = Inr (Some r)"
  shows "result_ok r"
proof -
  let ?E = "fs_engine_env F (\<lambda>_. Inl (ValueError ''recompute wave cannot read raw source'')) [] calc_ts"
  from assms obtain cx results cx' where
    c: "compute ?E (fe_registry F) view version ek [name] cx = Inr (results, cx')"
    and r: "map_of results name = Some r"
    by (auto simp: compute_dependent_from_offline_def Let_def split: option.splits)
  have "ctx_ok ?E (features_by_name w) (feats cx) cx" for w by (simp add: ctx_ok_def)
  from compute_one[OF c r this] show ?thesis using computation_result_fields by blast
qed

lemma mem_append_new_spec:
  assumes "append_new mem_ops repr off view vv [r] = Inr (new, k, off')" "mem_hist_ok off" "within_wave W r"
  shows "\<exists>recs. off' = off @ recs \<and> mem_hist_ok off' \<and> (\<forall>rec \<in> set recs. within_wave W (or_result rec))"
proof -
  have new: "set new \<subseteq> {r}" "off' = off @ map (offline_rec view vv) new"
    using assms(1) partition_new_resultsE(1)
    by (fastforce simp: append_new_def mem_ops_def mem_append_many_hist)+
  then have "\<forall>rec \<in> set (map (offline_rec view vv) new). within_wave W (or_result rec)"
    using assms(3) by (auto simp: offline_rec_def)
  with new(2) assms(2) show ?thesis
    by (intro exI[of _ "map (offline_rec view vv) new"]) (auto simp: mem_hist_ok_def within_wave_def)
qed

lemma entry_key_valid: "entry_key v e = Inr ek \<Longrightarrow> ek_valid ek"
  by (auto simp: entry_key_def ek_from_mapping_def Let_def split: option.splits if_splits)

definition wave_safe :: "wave_env \<Rightarrow> offline_mem \<Rightarrow> offline_mem \<Rightarrow> bool" where
  "wave_safe W off off' \<longleftrightarrow>
     (\<exists>recs. off' = off @ recs \<and> (\<forall>rec \<in> set recs. within_wave W (or_result rec))) \<and> mem_hist_ok off'"

lemma wave_safe_trans: "wave_safe W a b \<Longrightarrow> wave_safe W b c \<Longrightarrow> wave_safe W a c"
  by (auto simp: wave_safe_def)

lemma wave_safe_refl: "mem_hist_ok a \<Longrightarrow> wave_safe W a a"
  by (simp add: wave_safe_def)

lemma store_recomputed_safe:
  assumes "store_recomputed R W i e v r t w = (res, w')" "rt_stores R = mem_ops"
    "mem_hist_ok (w_offline w)" "within_wave W r"
  shows "wave_safe W (w_offline w) (w_offline w')"
proof (cases "append_new mem_ops (rt_repr R) (w_offline w) (de_view e) (de_view_version e) [r]")
  case (Inl x)
  with assms show ?thesis by (auto simp: store_recomputed_def intro: wave_safe_refl)
next
  case (Inr a)
  obtain new k off where a: "a = (new, k, off)" by (cases a)
  have "w_offline w' = off"
  proof (cases v)
    case None
    with assms Inr a show ?thesis by (auto simp: store_recomputed_def Let_def)
  next
    case (Some vd)
    obtain er w2 where em: "emit_feature_updates (send_update R) (we_uuid W i) vd [r]
        (wave_emission e (we_now W i)) (w\<lparr>w_offline := off\<rparr>) = (er, w2)"
      by (cases "emit_feature_updates (send_update R) (we_uuid W i) vd [r]
        (wave_emission e (we_now W i)) (w\<lparr>w_offline := off\<rparr>)")
    from emit_updates_frame[OF em] have "w_offline w2 = off" by auto
    with assms(1,2) Inr a Some em show ?thesis by (cases er) (auto simp: store_recomputed_def Let_def)
  qed
  with mem_append_new_spec[OF Inr[unfolded a] assms(3,4)] show ?thesis by (auto simp: wave_safe_def)
qed

lemma recompute_model_safe:
  assumes "recompute_model_dependent R W i e ek t w = (res, w')" "rt_stores R = mem_ops"
    "mem_hist_ok (w_offline w)" "ek_valid ek" "pit_args_ok (we_calc_ts W) (we_gap W)"
  shows "wave_safe W (w_offline w) (w_offline w')"
proof (cases "we_runner W")
  case None
  with assms show ?thesis by (auto simp: recompute_model_dependent_def intro: wave_safe_refl)
next
  case (Some runner)
  let ?c = "compute_model_feature_batch R runner (we_uuid W i) (we_now W i) (de_view e) (de_view_version e)
                  (de_dependent_feature e) [ek] (we_calc_ts W) (we_gap W) None None (Some (we_wave_id W))
                  ''recompute_wave'' w"
  obtain r w1 where c: "?c = (r, w1)" by (cases ?c)
  then have w1: "w' = w1" using assms(1) Some by (auto simp: recompute_model_dependent_def split: sum.splits)
  have "\<forall>k \<in> set [ek]. ek_valid k" using assms(4) by simp
  from memops.model_batch_appends[OF assms(3,2,5) this c] show ?thesis
  proof
    assume "w_offline w1 = w_offline w"
    with assms(3) w1 show ?thesis by (simp add: wave_safe_refl)
  next
    assume "\<exists>f m new. (\<forall>r \<in> set new. scored m f (we_calc_ts W) (we_gap W) r)
      \<and> so_append_many mem_ops (w_offline w) (de_view e) (de_view_version e) new = Inr (w_offline w1)"
    then obtain f m new where n: "\<forall>r \<in> set new. scored m f (we_calc_ts W) (we_gap W) r"
      "w_offline w1 = w_offline w @ map (offline_rec (de_view e) (de_view_version e)) new"
      by (auto simp: mem_ops_def mem_append_many_hist)
    from n(1) have "\<forall>r \<in> set new. within_wave W r" by (auto simp: scored_def within_wave_def)
    then have "\<forall>rec \<in> set (map (offline_rec (de_view e) (de_view_version e)) new). within_wave W (or_result rec)"
      by (auto simp: offline_rec_def)
    with n(2) w1 assms(3) show ?thesis
      unfolding wave_safe_def by (auto simp: mem_hist_ok_def within_wave_def)
  qed
qed

lemma wave_unit_safe:
  assumes "wave_unit R W i e t w = (res, w')" "rt_stores R = mem_ops" "mem_hist_ok (w_offline w)"
    "pit_args_ok (we_calc_ts W) (we_gap W)" "self_free (fe_registry (rt_env R))"
  shows "wave_safe W (w_offline w) (w_offline w')"
proof -
  let ?v = "find_view_in (reg_views (fe_registry (rt_env R))) (de_view e) (de_view_version e)"
  consider "w' = w"
    | ek t1 where "entry_key ?v e = Inr ek" "recompute_model_dependent R W i e ek t1 w = (res, w')"
    | ek t1 r where "entry_key ?v e = Inr ek"
      "compute_dependent_from_offline mem_ops (rt_env R) (w_offline w) (de_view e)
         (de_view_version e) ek (de_dependent_feature e) (we_calc_ts W) (we_gap W) = Inr (Some r)"
      "store_recomputed R W i e ?v r t1 w = (res, w')"
    using assms(1) unfolding wave_unit_def Let_def assms(2)
    by (auto split: sum.splits option.splits if_splits)
  then show ?thesis
  proof cases
    case 1
    then show ?thesis using assms(3) by (simp add: wave_safe_refl)
  next
    case 2
    show ?thesis by (rule recompute_model_safe[OF 2(2) assms(2,3) entry_key_valid[OF 2(1)] assms(4)])
  next
    case 3
    note ek = entry_key_valid[OF 3(1)]
    have free: "\<And>v f. find_view_in (reg_views (fe_registry (rt_env R))) (de_view e) (de_view_version e) = Some v \<Longrightarrow>
        map_of (features_by_name v) (de_dependent_feature e) = Some f \<Longrightarrow>
        de_dependent_feature e \<notin> set (dep_names f)"
      using assms(5) find_view_in_Some unfolding self_free_def by blast
    have "within_wave W r"
      using dependent_within_cutoff[OF assms(3) ek assms(4) 3(2) free] dependent_result_ok[OF 3(2)] ek
      by (auto simp: within_wave_def)
    from store_recomputed_safe[OF 3(3) assms(2,3) this] show ?thesis .
  qed
qed

lemma wave_units_safe:
  assumes "wave_units R W i es t w = (res, w')" "rt_stores R = mem_ops" "mem_hist_ok (w_offline w)"
    "pit_args_ok (we_calc_ts W) (we_gap W)" "self_free (fe_registry (rt_env R))"
  shows "wave_safe W (w_offline w) (w_offline w')"
  using assms(1,3)
proof (induction es arbitrary: i t w)
  case Nil
  then show ?case by (simp add: wave_safe_refl)
next
  case (Cons e es)
  obtain r w1 where u: "wave_unit R W i e t w = (r, w1)" by (cases "wave_unit R W i e t w")
  have safe: "wave_safe W (w_offline w) (w_offline w1)"
    by (rule wave_unit_safe[OF u assms(2) Cons.prems(2) assms(4,5)])
  show ?case
  proof (cases r)
    case (Inl x)
    with Cons.prems u safe show ?thesis by simp
  next
    case (Inr t1)
    with Cons.prems u have "wave_units R W (i + 1) es t1 w1 = (res, w')" by simp
    moreover have "mem_hist_ok (w_offline w1)" using safe by (simp add: wave_safe_def)
    ultimately show ?thesis using Cons.IH safe wave_safe_trans by blast
  qed
qed

lemma execute_wave_safe:
  assumes "rt_stores R = mem_ops" "mem_hist_ok (w_offline w)"
    "pit_args_ok (we_calc_ts W) (we_gap W)" "self_free (fe_registry (rt_env R))"
  shows "wave_safe W (w_offline w) (w_offline (snd (snd (execute_wave R W store w))))"
proof -
  obtain r w1 where u: "wave_units R W 0 (dict_values store) empty_tally w = (r, w1)"
    by (cases "wave_units R W 0 (dict_values store) empty_tally w")
  from wave_units_safe[OF u assms] show ?thesis
    by (cases r) (auto simp: execute_wave_def debounce_drain_def u)
qed

section \<open>What the debounce store remembers\<close>

definition remembered :: "debounce_store \<Rightarrow> string set" where
  "remembered store = (\<Union>e \<in> set (dict_values store). set (de_trigger_update_ids e))"

lemma dict_set_values: "set (dict_values (dict_set k v d)) \<subseteq> insert v (set (dict_values d))"
  by (induction d) (auto simp: dict_values_def dict_set_def)

lemma observe_remembers:
  assumes "observe store c ev now = Inr (b, store')"
  shows "remembered store' \<subseteq> insert (fu_update_id ev) (remembered store)"
proof -
  obtain key e where st: "store' = dict_set key e store"
    and e: "set (de_trigger_update_ids e) \<subseteq> insert (fu_update_id ev) (remembered store)"
  proof (cases "debounce_key c")
    case (Inl x)
    with assms show ?thesis by (simp add: observe_def)
  next
    case (Inr key)
    show ?thesis
    proof (cases "map_of store key")
      case None
      with assms Inr show ?thesis by (intro that[of key "new_entry c ev now"]) (auto simp: observe_def new_entry_def)
    next
      case (Some e0)
      with assms Inr obtain e where e: "advance_entry e0 ev now = Inr e" "store' = dict_set key e store"
        by (auto simp: observe_def)
      have "de_trigger_update_ids e = de_trigger_update_ids e0 @ [fu_update_id ev]"
        using e(1) by (auto simp: advance_entry_def Let_def)
      moreover have "e0 \<in> set (dict_values store)"
        using Some by (force simp: dict_values_def dest: map_of_SomeD)
      ultimately show ?thesis by (intro that[OF e(2)]) (auto simp: remembered_def)
    qed
  qed
  show ?thesis
  proof
    fix u
    assume "u \<in> remembered store'"
    then obtain x where "x \<in> set (dict_values store')" "u \<in> set (de_trigger_update_ids x)"
      by (auto simp: remembered_def)
    with st dict_set_values[of key e store] e show "u \<in> insert (fu_update_id ev) (remembered store)"
      by (auto simp: remembered_def)
  qed
qed

lemma observe_each_remembers:
  assumes "observe_each clock ev cs store = (r, store')"
  shows "remembered store' \<subseteq> insert (fu_update_id ev) (remembered store)"
  using assms
proof (induction cs arbitrary: clock store)
  case (Cons c cs)
  show ?case
  proof (cases "observe store c ev (clock 0)")
    case (Inl e)
    with Cons.prems show ?thesis by auto
  next
    case (Inr x)
    obtain b st where x: "x = (b, st)" by (cases x)
    from Cons.prems Inr x have "observe_each (\<lambda>i. clock (i + 1)) ev cs st = (r, store')" by simp
    from Cons.IH[OF this] observe_remembers[OF Inr[unfolded x]] show ?thesis by blast
  qed
qed auto

lemma handle_feature_updated_remembers:
  assumes "handle_feature_updated reg clock ev store = (r, store')"
  shows "remembered store' \<subseteq> insert (fu_update_id ev) (remembered store)"
proof (cases "plan_recompute_wave reg ev")
  case (Inl e)
  with assms show ?thesis by (auto simp: handle_feature_updated_def split: if_splits)
next
  case (Inr cs)
  obtain r1 st where o: "observe_each clock ev cs store = (r1, st)" by (cases "observe_each clock ev cs store")
  with assms Inr have "st = store'" by (cases r1) (auto simp: handle_feature_updated_def)
  with observe_each_remembers[OF o] show ?thesis by simp
qed

text \<open>The updates carried by the messages of a stretch of the partition.\<close>

definition updates_between :: "partition \<Rightarrow> nat \<Rightarrow> nat \<Rightarrow> string set" where
  "updates_between p a b = {fu_update_id ev | n ev. a \<le> n \<and> n < b \<and> update_at p n ev}"

lemma updates_between_mono: "a' \<le> a \<Longrightarrow> b \<le> b' \<Longrightarrow> updates_between p a b \<subseteq> updates_between p a' b'"
  unfolding updates_between_def by (blast intro: order_trans order_less_le_trans)

lemma update_at_messages: "pa_messages p = pa_messages q \<Longrightarrow> update_at p = update_at q"
  by (simp add: update_at_def fun_eq_iff)

lemma prop_turn_remembers:
  assumes "prop_turn R clock s = (Inr pr, s')"
  shows "remembered (pw_debounce s') \<subseteq> remembered (pw_debounce s)
    \<union> updates_between (pw_partition s) (pa_position (pw_partition s)) (pa_position (pw_partition s'))"
proof (cases "pr_status pr = ''observed''")
  case False
  with prop_turn_kept[OF assms] show ?thesis by (auto simp: turn_kept_def)
next
  case True
  let ?p = "pw_partition s"
  let ?n = "pa_position ?p"
  have lt: "?n < length (pa_messages ?p)" "pa_position (pw_partition s') = ?n + 1"
    using prop_turn_progress[OF assms] True by auto
  let ?m = "pa_messages ?p ! ?n" and ?s = "s\<lparr>pw_partition := ?p\<lparr>pa_position := ?n + 1\<rparr>\<rparr>"
  have run: "prop_process_next R clock ?n (Some ?m) ?s = (Inr pr, s')"
    using assms lt by (simp add: prop_turn_def poll_message_def)
  have nd: "prop_dead_letter R now n m st err s1 = (pr', s2) \<Longrightarrow> pr_status pr' \<noteq> ''observed''" for now n m st err s1 pr' s2
    by (drule prop_dead_letter_frame) auto
  obtain ev d r store where ev: "msg_doc ?m = Some d" "fu_from_dict d = Inr ev"
    "handle_feature_updated (fe_registry (rt_env R)) (\<lambda>i. clock (i + 1)) ev (pw_debounce s) = (Inr r, store)"
    "pw_debounce s' = store"
    using run True nd
    by (auto simp: prop_process_next_def Let_def failed_pr_def split: if_splits sum.splits prod.splits option.splits)
  have "fu_update_id ev \<in> updates_between ?p ?n (?n + 1)"
    using ev(1,2) lt by (auto simp: updates_between_def update_at_def)
  with handle_feature_updated_remembers[OF ev(3)] ev(4) lt(2) show ?thesis by auto
qed

section \<open>Rounds\<close>

lemma observe_loop_kept:
  assumes "observe_loop R clocks stop limit i s = (prs, None, s')"
  shows "pa_messages (pw_partition s') = pa_messages (pw_partition s)
    \<and> pa_position (pw_partition s) \<le> pa_position (pw_partition s')
    \<and> (\<exists>hs. pw_held s' = pw_held s @ hs
         \<and> length hs = length (filter (\<lambda>pr. pr_status pr = ''observed'') prs)
         \<and> (\<forall>h \<in> set hs. pa_position (pw_partition s) \<le> h \<and> h < pa_position (pw_partition s')))
    \<and> remembered (pw_debounce s') \<subseteq> remembered (pw_debounce s)
        \<union> updates_between (pw_partition s) (pa_position (pw_partition s)) (pa_position (pw_partition s'))"
  using assms
proof (induction R clocks stop limit i s arbitrary: prs s' rule: observe_loop.induct)
  case (1 R clocks stop limit i s)
  show ?case
  proof (cases "(\<exists>n. limit = Some n \<and> n \<le> i) \<or> stop i")
    case True
    with "1.prems" show ?thesis by (simp add: observe_loop.simps[of R clocks stop limit i s])
  next
    case False
    obtain r s1 where t: "prop_turn R (clocks i) s = (r, s1)" by (cases "prop_turn R (clocks i) s")
    with "1.prems" False obtain pr where r: "r = Inr pr"
      by (cases r) (auto simp: observe_loop.simps[of R clocks stop limit i s])
    note k = prop_turn_kept[OF t[unfolded r]] and m = prop_turn_remembers[OF t[unfolded r]]
    show ?thesis
    proof (cases "limit = None \<and> pr_status pr = ''idle''")
      case True
      with "1.prems"[unfolded observe_loop.simps[of R clocks stop limit i s]] False t r
      have "prs = [pr]" "s' = s1" by auto
      with k m True show ?thesis by (auto simp: turn_kept_def)
    next
      case go: False
      obtain prs1 where rest: "observe_loop R clocks stop limit (i + 1) s1 = (prs1, None, s')" "prs = pr # prs1"
        using "1.prems" False t r go by (auto simp: observe_loop.simps[of R clocks stop limit i s] split: prod.splits)
      from "1.IH"[OF False t[symmetric] r go rest(1)] obtain hs where ih:
        "pa_messages (pw_partition s') = pa_messages (pw_partition s1)"
        "pa_position (pw_partition s1) \<le> pa_position (pw_partition s')"
        "pw_held s' = pw_held s1 @ hs"
        "length hs = length (filter (\<lambda>pr. pr_status pr = ''observed'') prs1)"
        "\<forall>h \<in> set hs. pa_position (pw_partition s1) \<le> h \<and> h < pa_position (pw_partition s')"
        "remembered (pw_debounce s') \<subseteq> remembered (pw_debounce s1)
          \<union> updates_between (pw_partition s1) (pa_position (pw_partition s1)) (pa_position (pw_partition s'))"
        by blast
      let ?hs = "(if pr_status pr = ''observed'' then [pa_position (pw_partition s)] else []) @ hs"
      have pos: "pa_position (pw_partition s) \<le> pa_position (pw_partition s1)"
        "pa_messages (pw_partition s1) = pa_messages (pw_partition s)"
        using k by (auto simp: turn_kept_def split: if_splits)
      have "updates_between (pw_partition s1) (pa_position (pw_partition s1)) (pa_position (pw_partition s'))
          \<subseteq> updates_between (pw_partition s) (pa_position (pw_partition s)) (pa_position (pw_partition s'))"
        using updates_between_mono[OF pos(1) order_refl] update_at_messages[OF pos(2)]
        by (simp add: updates_between_def)
      moreover have "updates_between (pw_partition s) (pa_position (pw_partition s)) (pa_position (pw_partition s1))
          \<subseteq> updates_between (pw_partition s) (pa_position (pw_partition s)) (pa_position (pw_partition s'))"
        using order_refl ih(2) by (rule updates_between_mono)
      ultimately have mem: "remembered (pw_debounce s') \<subseteq> remembered (pw_debounce s)
          \<union> updates_between (pw_partition s) (pa_position (pw_partition s)) (pa_position (pw_partition s'))"
        using ih(6) m by blast
      have "pw_held s' = pw_held s @ ?hs" "length ?hs = length (filter (\<lambda>pr. pr_status pr = ''observed'') prs)"
        "\<forall>h \<in> set ?hs. pa_position (pw_partition s) \<le> h \<and> h < pa_position (pw_partition s')"
        using ih k pos rest(2) by (fastforce simp: turn_kept_def split: if_splits)+
      with ih(1,2) pos mem show ?thesis by (intro conjI exI[of _ ?hs]) auto
    qed
  qed
qed

lemma fold_commit: "fold commit_offset (hs @ [h]) p = p\<lparr>pa_committed := h + 1\<rparr>"
  by (induction hs arbitrary: p) (simp_all add: commit_offset_def del: fold_append)

text \<open>
  A flush commits exactly when the wave went through, and everything that was held; a failed one
  commits nothing, but has forgotten the updates.
\<close>

lemma flush_wave_cases:
  assumes "flush_wave R W s = (f, s')"
  shows "pw_debounce s' = []
    \<and> (fl_status f = ''ok'' \<and> pw_held s' = [] \<and> fl_committed f = length (pw_held s)
         \<and> pw_partition s' = fold commit_offset (pw_held s) (pw_partition s)
         \<and> (\<exists>v. fl_wave f = Some v \<and> set (rw_trigger_update_ids v) = remembered (pw_debounce s))
       \<or> fl_status f = ''wave_failed'' \<and> pw_held s' = pw_held s \<and> fl_committed f = 0
         \<and> pw_partition s' = pw_partition s)"
proof -
  obtain r st w1 where e: "execute_wave R W (pw_debounce s) (pw_world s) = (r, st, w1)"
    by (cases "execute_wave R W (pw_debounce s) (pw_world s)") auto
  have st: "st = []" using execute_wave_frame(2)[of R W "pw_debounce s" "pw_world s"] e by simp
  show ?thesis
  proof (cases r)
    case (Inl x)
    with assms e st show ?thesis by (auto simp: flush_wave_def)
  next
    case (Inr v)
    from execute_wave_accounts[OF e[unfolded Inr]] have
      "set (rw_trigger_update_ids v) = remembered (pw_debounce s)" by (simp add: remembered_def)
    with assms e st Inr show ?thesis by (auto simp: flush_wave_def)
  qed
qed

text \<open>
  A round whose wave fails is overtaken: the worker goes on at its position, and the commit of the
  next successful round covers the updates of the failed one, which no wave contains.
\<close>

lemma failed_round_overtaken:
  assumes first: "prop_run R W clocks stop limit [] p w = (prs, Inr f, s)" "fl_status f = ''wave_failed''"
    and second: "prop_run R' W' clocks' stop' limit' [] (pw_partition s) w' = (prs', Inr f', s')"
      "fl_status f' = ''ok''"
    and some: "\<exists>pr \<in> set prs'. pr_status pr = ''observed''"
  shows "length (pw_held s) = length (filter (\<lambda>pr. pr_status pr = ''observed'') prs)
    \<and> (\<forall>n \<in> set (pw_held s). pa_position p \<le> n \<and> n < pa_committed (pw_partition s'))
    \<and> (\<exists>v. fl_wave f' = Some v \<and> set (rw_trigger_update_ids v)
          \<subseteq> updates_between p (pa_position (pw_partition s)) (pa_position (pw_partition s')))"
proof -
  let ?s0 = "\<lparr>pw_debounce = [], pw_held = [], pw_partition = p, pw_world = w\<rparr>"
  let ?t0 = "\<lparr>pw_debounce = [], pw_held = [], pw_partition = pw_partition s, pw_world = w'\<rparr>"
  have empty: "remembered [] = {}" by (simp add: remembered_def dict_values_def)
  obtain s1 where o1: "observe_loop R clocks stop limit 0 ?s0 = (prs, None, s1)" "flush_wave R W s1 = (f, s)"
    using first(1) by (auto simp: prop_run_def split: prod.splits option.splits)
  obtain t1 where o2: "observe_loop R' clocks' stop' limit' 0 ?t0 = (prs', None, t1)" "flush_wave R' W' t1 = (f', s')"
    using second(1) by (auto simp: prop_run_def split: prod.splits option.splits)
  have f1: "pw_partition s = pw_partition s1" "pw_held s = pw_held s1"
    using flush_wave_cases[OF o1(2)] first(2) by auto
  from flush_wave_cases[OF o2(2)] second(2) obtain v where
    f2: "pw_partition s' = fold commit_offset (pw_held t1) (pw_partition t1)"
    and v: "fl_wave f' = Some v" "set (rw_trigger_update_ids v) = remembered (pw_debounce t1)" by auto
  note k1 = observe_loop_kept[OF o1(1)] and k2 = observe_loop_kept[OF o2(1)]
  have "filter (\<lambda>pr. pr_status pr = ''observed'') prs' \<noteq> []" using some by (simp add: filter_empty_conv)
  then have "pw_held t1 \<noteq> []" using k2 by auto
  then obtain hs h where hs: "pw_held t1 = hs @ [h]" by (metis rev_exhaust)
  then have "pa_position (pw_partition s) \<le> h" using k2 by auto
  moreover have part: "pw_partition s' = (pw_partition t1)\<lparr>pa_committed := h + 1\<rparr>" using f2 hs fold_commit by simp
  ultimately have "\<forall>n \<in> set (pw_held s). pa_position p \<le> n \<and> n < pa_committed (pw_partition s')"
    using k1 f1 by (force simp: part)
  moreover have "update_at (pw_partition s) = update_at p"
    using k1 f1 by (intro update_at_messages) simp
  with k2 v(2) part empty have "set (rw_trigger_update_ids v)
      \<subseteq> updates_between p (pa_position (pw_partition s)) (pa_position (pw_partition s'))"
    by (simp add: updates_between_def)
  ultimately show ?thesis using k1 f1 v(1) by simp
qed

text \<open>
  An update whose entity cannot be encoded is neither dead-lettered nor committed: the exception
  of its first candidate leaves the turn.
\<close>

lemma unencodable_update_raises:
  assumes "msg_error m = None" "msg_doc m = Some d" "fu_from_dict d = Inr ev"
    and "plan_recompute_wave (fe_registry (rt_env R)) ev = Inr (c # cs)" "er_encoded (fu_entity ev) = Inl e"
    and "rc_entity c = fu_entity ev"
  shows "prop_process_next R clock n (Some m) s = (Inl e, s)"
  using assms by (simp add: prop_process_next_def handle_feature_updated_def observe_def debounce_key_def)

end
