(* ===== verification/ScoreWriter.thy ===== *)
theory ScoreWriter
  imports OnlineWorker BatchEvents
begin

text \<open>
  The model score writer: the handler that materialises supplied scores
  (api/model_score_writer.py) and one turn of its consumer (api/model_score_writer_runner.py).
  The handler catches every exception of its calls, so the runner's branch for an unexpected
  error is not reached and left out.
\<close>

section \<open>The handler\<close>

record writer_result =
  sw_status :: string
  sw_score_write_id :: string
  sw_online_written :: "(string, outcome) dict"
  sw_downstream_published :: bool
  sw_error :: "exc option"

definition writer_result_of :: "model_score_write \<Rightarrow> string \<Rightarrow> writer_result" where
  "writer_result_of ev status =
     \<lparr>sw_status = status, sw_score_write_id = ms_score_write_id ev, sw_online_written = [],
      sw_downstream_published = False, sw_error = None\<rparr>"

text \<open>A score takes its version from the registry, and only a \<^verbatim>\<open>model_score\<close> feature takes one.\<close>

definition score_result ::
    "(string, feature_def) dict \<Rightarrow> entity_key \<Rightarrow> score_item \<Rightarrow> feature_result res" where
  "score_result fbn ek si =
     (case map_of fbn (si_feature si) of
        None \<Rightarrow> Inl (ValueError ''unknown feature'')
      | Some f \<Rightarrow>
          if f_kind f \<noteq> ''model_score'' then Inl (ValueError ''feature is not a model_score feature'')
          else rbind (mk_feature_ref (si_feature si) (f_version f)) (\<lambda>ref.
            mk_feature_result
              \<lparr>r_ref = ref, r_entity_key = ek, r_value = si_value si, r_data_ts = si_data_ts si,
               r_calc_ts = si_calc_ts si, r_max_input_data_ts = None, r_input_fingerprint = None,
               r_value_hash = None, r_available_at = None, r_availability_source = None,
               r_model_uri = None, r_model_digest = None, r_model_output_name = None,
               r_bundle_digest = None\<rparr>))"

definition score_write_set :: "registry \<Rightarrow> model_score_write \<Rightarrow> write_set res" where
  "score_write_set reg ev =
     rbind (require (ms_write_online ev \<or> ms_write_offline ev)
              (ValueError ''write_online and write_offline are both false'')) (\<lambda>_.
     rbind (reg_find_view reg (ms_view ev) (ms_view_version ev)) (\<lambda>v.
     rbind (view_entity_key v (er_key (ms_entity ev))) (\<lambda>ek.
     rbind (map_res (\<lambda>si. rbind (score_result (features_by_name v) ek si) (\<lambda>r. Inr (si_feature si, r)))
              (ms_scores ev)) (\<lambda>kvs.
     Inr \<lparr>ws_view = ms_view ev, ws_view_version = ms_view_version ev, ws_entity_key = ek,
          ws_results = dict_of kvs, ws_source_refs = [], ws_request_id = Some (ms_score_write_id ev),
          ws_job_id = Some (ms_score_write_id ev), ws_run_id = Some (ms_score_write_id ev),
          ws_correlation_id = Some (ms_correlation_id ev), ws_write_policy = ''online_first'',
          ws_node_statuses = []\<rparr>))))"

definition score_offline_event :: "model_score_write \<Rightarrow> datetime \<Rightarrow> write_set \<Rightarrow> offline_write_requested" where
  "score_offline_event ev now ws =
     \<lparr>ow_event_type = ''feature_write.offline.requested'', ow_event_version = 1,
      ow_request_id = ms_score_write_id ev, ow_job_id = ms_score_write_id ev,
      ow_correlation_id = ms_correlation_id ev, ow_occurred_at = now, ow_write_set = ws\<rparr>"

definition handle_model_score_write ::
    "('o, 'n, 'r, 's) runtime \<Rightarrow> datetime \<Rightarrow> model_score_write \<Rightarrow> ('o, 'n, 'r, 's) world
      \<Rightarrow> writer_result res \<times> ('o, 'n, 'r, 's) world" where
  "handle_model_score_write R now ev w =
     (case score_write_set (fe_registry (rt_env R)) ev of
        Inl e \<Rightarrow>
          if caught e then (Inr ((writer_result_of ev ''invalid_event'')\<lparr>sw_error := Some e\<rparr>), w) else (Inl e, w)
      | Inr ws \<Rightarrow>
      case (if ms_write_online ev
            then so_write_many (rt_stores R) (w_online w) (ms_view ev) (ms_view_version ev)
                   (dict_values (ws_results ws))
            else (Inr [], w_online w)) of
        (Inl e, on) \<Rightarrow>
          (Inr ((writer_result_of ev ''online_write_failed'')\<lparr>sw_error := Some e\<rparr>), w\<lparr>w_online := on\<rparr>)
      | (Inr online, on) \<Rightarrow>
          let w1 = w\<lparr>w_online := on\<rparr>;
              done = (writer_result_of ev ''ok'')\<lparr>sw_online_written := online,
                        sw_downstream_published := ms_write_offline ev\<rparr>
          in if ms_write_offline ev then
               (case publish_event R ''fp.feature-write.offline'' (ek_text (ws_entity_key ws))
                       (ow_to_dict (score_offline_event ev now ws)) w1 of
                  (Inl e, w2) \<Rightarrow>
                    (Inr ((writer_result_of ev ''publish_failed'')\<lparr>sw_online_written := online, sw_error := Some e\<rparr>), w2)
                | (Inr _, w2) \<Rightarrow> (Inr done, w2))
             else (Inr done, w1))"

section \<open>One turn of the consumer\<close>

definition score_topic :: string where
  "score_topic = ''fp.model-score.write''"

definition score_process_next ::
    "('o, 'n, 'r, 's) runtime \<Rightarrow> (nat \<Rightarrow> datetime) \<Rightarrow> message option \<Rightarrow> ('o, 'n, 'r, 's) world
      \<Rightarrow> process_result \<times> ('o, 'n, 'r, 's) world" where
  "score_process_next R clock polled w =
     (case polled of
        None \<Rightarrow> (failed_pr ''idle'', w)
      | Some m \<Rightarrow>
      if msg_error m \<noteq> None then (failed_pr ''consume_error'', w)
      else case (case msg_doc m of None \<Rightarrow> Inl (ValueError ''Expecting value'') | Some d \<Rightarrow> ms_from_dict d) of
        Inl e \<Rightarrow> to_dlq R (clock 0) score_topic ''model_score_writer'' m ''deserialization_failed''
                  (Some (exc_text e)) None None w
      | Inr ev \<Rightarrow>
          (case handle_model_score_write R (clock 1) ev w of
             (Inl e, w1) \<Rightarrow> (failed_pr ''unexpected_error'', w1)
           | (Inr r, w1) \<Rightarrow>
               if sw_status r = ''ok'' then (committed_pr ''ok'', commit w1)
               else if sw_status r = ''invalid_event'' then
                 to_dlq R (clock 0) score_topic ''model_score_writer'' m ''invalid_event''
                   (map_option exc_text (sw_error r)) None None w1
               else (failed_pr (sw_status r), w1)))"

section \<open>What a score write leaves\<close>

lemma score_result_fields:
  assumes "score_result fbn ek si = Inr r"
  shows "\<exists>f. map_of fbn (si_feature si) = Some f \<and> f_kind f = ''model_score''
    \<and> fr_name (r_ref r) = si_feature si \<and> fr_version (r_ref r) = f_version f
    \<and> r_entity_key r = ek \<and> r_value r = si_value si \<and> r_data_ts r = si_data_ts si
    \<and> r_calc_ts r = si_calc_ts si \<and> result_ok r"
  using assms by (auto simp: score_result_def mk_feature_ref_def split: option.splits if_splits)

text \<open>The write set holds exactly the supplied scores, the last one per feature.\<close>

definition supplied :: "view_def \<Rightarrow> model_score_write \<Rightarrow> feature_result \<Rightarrow> bool" where
  "supplied v ev r \<longleftrightarrow>
     (\<exists>si \<in> set (ms_scores ev). \<exists>f. map_of (features_by_name v) (si_feature si) = Some f
        \<and> f_kind f = ''model_score'' \<and> fr_name (r_ref r) = si_feature si
        \<and> fr_version (r_ref r) = f_version f \<and> r_value r = si_value si \<and> r_data_ts r = si_data_ts si)"

lemma score_write_set_spec:
  assumes "score_write_set reg ev = Inr ws"
  shows "\<exists>v. find_view_in (reg_views reg) (ms_view ev) (ms_view_version ev) = Some v
    \<and> ek_valid (ws_entity_key ws) \<and> dict_wf (ws_results ws)
    \<and> (\<forall>n r. map_of (ws_results ws) n = Some r \<longrightarrow>
          supplied v ev r \<and> fr_name (r_ref r) = n \<and> r_entity_key r = ws_entity_key ws \<and> result_ok r)
    \<and> set (dict_keys (ws_results ws)) = set (map si_feature (ms_scores ev))"
proof -
  from assms obtain v ek kvs where
    v: "find_view_in (reg_views reg) (ms_view ev) (ms_view_version ev) = Some v"
    and ek: "view_entity_key v (er_key (ms_entity ev)) = Inr ek"
    and kvs: "map_res (\<lambda>si. rbind (score_result (features_by_name v) ek si) (\<lambda>r. Inr (si_feature si, r)))
        (ms_scores ev) = Inr kvs"
    and ws: "ws_entity_key ws = ek" "ws_results ws = dict_of kvs"
    by (auto simp: score_write_set_def reg_find_view_def split: option.splits)
  have mem: "supplied v ev r \<and> fr_name (r_ref r) = n \<and> r_entity_key r = ek \<and> result_ok r" if nr: "(n, r) \<in> set kvs" for n r
  proof -
    from map_res_set[OF kvs nr] obtain si where si: "si \<in> set (ms_scores ev)"
      "score_result (features_by_name v) ek si = Inr r" "n = si_feature si" by auto
    from score_result_fields[OF si(2)] si(1,3) show ?thesis by (auto simp: supplied_def)
  qed
  have keys: "map fst kvs = map si_feature (ms_scores ev)"
    using kvs unfolding map_res_Inr_iff by (induction rule: list_all2_induct) auto
  have "ek_valid ek"
    using ek by (auto simp: view_entity_key_def ek_from_mapping_def Let_def split: option.splits if_splits)
  moreover have "set (dict_keys (ws_results ws)) = set (map si_feature (ms_scores ev))"
    unfolding ws(2) keys[symmetric] by (simp add: dict_of_keys)
  ultimately show ?thesis using v ws mem by (auto dest!: dict_of_lookup_Some)
qed

text \<open>An offline-write event for the write set is in the log.\<close>

definition handed_over :: "write_set \<Rightarrow> published list \<Rightarrow> bool" where
  "handed_over ws ms \<longleftrightarrow>
     (\<exists>x. ms = [x] \<and> pb_topic x = ''fp.feature-write.offline'' \<and> pb_key x = ek_text (ws_entity_key ws)
        \<and> jitem (pb_doc x) ''write_set'' = Inr (sort_keys (write_set_to_dict ws)))"

definition score_written ::
    "('o, 'n, 'r, 's) runtime \<Rightarrow> model_score_write \<Rightarrow> write_set \<Rightarrow> published list
      \<Rightarrow> ('o, 'n, 'r, 's) world \<Rightarrow> ('o, 'n, 'r, 's) world \<Rightarrow> bool" where
  "score_written R ev ws ms w w' \<longleftrightarrow>
     (if ms_write_online ev then
        \<exists>online. so_write_many (rt_stores R) (w_online w) (ms_view ev) (ms_view_version ev)
          (dict_values (ws_results ws)) = (Inr online, w_online w')
      else w_online w' = w_online w)
     \<and> (if ms_write_offline ev then handed_over ws ms else ms = [])"

lemma handle_score_any:
  assumes "handle_model_score_write R now ev w = (Inr r, w')"
  shows "(\<exists>on b. w' = w\<lparr>w_online := on, w_broker := b\<rparr>)
    \<and> (\<exists>ms. grows w w' ms
      \<and> (sw_status r = ''invalid_event'' \<longrightarrow> w' = w)
      \<and> (sw_status r = ''ok'' \<longrightarrow>
          (\<exists>ws. score_write_set (fe_registry (rt_env R)) ev = Inr ws \<and> score_written R ev ws ms w w')))
    \<and> sw_status r \<in> {''ok'', ''invalid_event'', ''online_write_failed'', ''publish_failed''}"
proof (cases "score_write_set (fe_registry (rt_env R)) ev")
  case (Inl e)
  with assms show ?thesis
    by (auto simp: handle_model_score_write_def writer_result_of_def split: if_splits
        intro!: exI[of _ "w_online w"] exI[of _ "w_broker w"] exI[of _ "[]"])
next
  case (Inr ws)
  let ?wm = "if ms_write_online ev
            then so_write_many (rt_stores R) (w_online w) (ms_view ev) (ms_view_version ev)
                   (dict_values (ws_results ws))
            else (Inr [], w_online w)"
  obtain o1 on where wm: "?wm = (o1, on)" by (cases ?wm)
  have on: "if ms_write_online ev then so_write_many (rt_stores R) (w_online w) (ms_view ev) (ms_view_version ev)
                   (dict_values (ws_results ws)) = (o1, on) else on = w_online w"
    using wm by (auto split: if_splits)
  show ?thesis
  proof (cases o1)
    case (Inl e)
    with assms Inr wm show ?thesis
      by (auto simp: handle_model_score_write_def writer_result_of_def grows_def
          intro!: exI[of _ on] exI[of _ "w_broker w"] exI[of _ "[]"])
  next
    case online: (Inr online)
    show ?thesis
    proof (cases "ms_write_offline ev")
      case False
      with assms Inr wm online on have w': "w' = w\<lparr>w_online := on\<rparr>" "sw_status r = ''ok''"
        by (auto simp: handle_model_score_write_def Let_def writer_result_of_def)
      have "grows w w' [] \<and> score_written R ev ws [] w w'"
        using w' on online False by (auto simp: grows_def score_written_def)
      with w' Inr show ?thesis by (intro conjI exI[of _ on] exI[of _ "w_broker w"] exI[of _ "[]"]) auto
    next
      case True
      let ?w1 = "w\<lparr>w_online := on\<rparr>"
      let ?p = "publish_event R ''fp.feature-write.offline'' (ek_text (ws_entity_key ws))
                       (ow_to_dict (score_offline_event ev now ws)) ?w1"
      obtain pr w2 where p: "?p = (pr, w2)" by (cases ?p)
      show ?thesis
      proof (cases pr)
        case (Inl e)
        with assms Inr wm online True p have r: "w' = w2" "sw_status r = ''publish_failed''"
          by (auto simp: handle_model_score_write_def Let_def writer_result_of_def)
        from publish_event_failed[OF p[unfolded Inl]] r show ?thesis by (auto simp: grows_def)
      next
        case sent: (Inr u)
        with assms Inr wm online True p have r: "w' = w2" "sw_status r = ''ok''"
          by (auto simp: handle_model_score_write_def Let_def writer_result_of_def)
        from publish_event_sent[OF p[unfolded sent]] obtain d b where
          d: "ow_to_dict (score_offline_event ev now ws) = Inr d" "w2 = ?w1\<lparr>w_broker := b\<rparr>"
          "grows ?w1 w2 [\<lparr>pb_topic = ''fp.feature-write.offline'', pb_key = ek_text (ws_entity_key ws),
             pb_doc = sort_keys d, pb_headers = []\<rparr>]" by blast
        let ?ms = "[\<lparr>pb_topic = ''fp.feature-write.offline'', pb_key = ek_text (ws_entity_key ws),
             pb_doc = sort_keys d, pb_headers = []\<rparr>]"
        have "jitem (sort_keys d) ''write_set'' = Inr (sort_keys (write_set_to_dict ws))"
          using d(1) by (auto simp: ow_to_dict_def score_offline_event_def)
        then have "handed_over ws ?ms" by (simp add: handed_over_def)
        then have "score_written R ev ws ?ms w w'" using r(1) d(2) on online True by (auto simp: score_written_def)
        moreover have "grows w w' ?ms" using d(2,3) r(1) by (simp add: grows_def)
        ultimately show ?thesis using r d(2) Inr
          by (intro conjI exI[of _ on] exI[of _ b] exI[of _ ?ms]) auto
      qed
    qed
  qed
qed

text \<open>A committed message is in the dead letters, or its scores are where the event wants them.\<close>

lemma score_turn_accounts:
  assumes "score_process_next R clock (Some m) w = (pr, w')" "\<not> w_committed w"
  shows "\<exists>ms. grows w w' ms \<and> (w_committed w' \<longleftrightarrow> pr_committed pr)
    \<and> (w_committed w' \<longrightarrow>
        pr_status pr = ''dead_lettered'' \<and> dead_lettered m ms \<and> w_online w' = w_online w
        \<or> pr_status pr = ''ok'' \<and> (\<exists>d ev ws. msg_doc m = Some d \<and> ms_from_dict d = Inr ev
            \<and> score_write_set (fe_registry (rt_env R)) ev = Inr ws \<and> score_written R ev ws ms w w'))"
proof (cases "msg_error m = None")
  case False
  with assms show ?thesis by (auto simp: score_process_next_def failed_pr_def intro!: exI[of _ "[]"])
next
  case True
  let ?ev = "case msg_doc m of None \<Rightarrow> Inl (ValueError ''Expecting value'') | Some d \<Rightarrow> ms_from_dict d"
  have dlq: ?thesis if "to_dlq R now score_topic stage m status err None None w = (pr, w')" for now stage status err
    using to_dlq_any[OF that] assms(2) by blast
  show ?thesis
  proof (cases ?ev)
    case (Inl e)
    with assms(1) True have "to_dlq R (clock 0) score_topic ''model_score_writer'' m ''deserialization_failed''
        (Some (exc_text e)) None None w = (pr, w')" by (simp add: score_process_next_def)
    then show ?thesis by (rule dlq)
  next
    case (Inr ev)
    then obtain d where d: "msg_doc m = Some d" "ms_from_dict d = Inr ev" by (cases "msg_doc m") auto
    obtain hr w1 where h: "handle_model_score_write R (clock 1) ev w = (hr, w1)"
      by (cases "handle_model_score_write R (clock 1) ev w")
    show ?thesis
    proof (cases hr)
      case (Inl e)
      with h have "w1 = w"
        by (auto simp: handle_model_score_write_def Let_def split: sum.splits if_splits prod.splits)
      with assms True Inr h Inl show ?thesis
        by (auto simp: score_process_next_def failed_pr_def intro!: exI[of _ "[]"])
    next
      case res: (Inr r)
      from handle_score_any[OF h[unfolded res]] obtain on b ms where
        w1: "w1 = w\<lparr>w_online := on, w_broker := b\<rparr>" and ms: "grows w w1 ms"
        "sw_status r = ''invalid_event'' \<longrightarrow> w1 = w"
        "sw_status r = ''ok'' \<longrightarrow> (\<exists>ws. score_write_set (fe_registry (rt_env R)) ev = Inr ws \<and> score_written R ev ws ms w w1)"
        by blast
      consider "sw_status r = ''ok''" | "sw_status r = ''invalid_event''"
        | "sw_status r \<noteq> ''ok''" "sw_status r \<noteq> ''invalid_event''" by blast
      then show ?thesis
      proof cases
        case 1
        with assms(1) True Inr h res have pr: "pr = committed_pr ''ok''" "w' = commit w1"
          by (auto simp: score_process_next_def)
        from 1 ms(3) obtain ws where ws: "score_write_set (fe_registry (rt_env R)) ev = Inr ws"
          "score_written R ev ws ms w w1" by blast
        then have "score_written R ev ws ms w w'" by (simp add: pr score_written_def)
        then show ?thesis using pr ms(1) d ws(1) by (intro exI[of _ ms]) (auto simp: grows_def committed_pr_def)
      next
        case 2
        with assms(1) True Inr h res ms(2) have "to_dlq R (clock 0) score_topic ''model_score_writer'' m
            ''invalid_event'' (map_option exc_text (sw_error r)) None None w = (pr, w')"
          by (auto simp: score_process_next_def)
        then show ?thesis by (rule dlq)
      next
        case 3
        with assms(1) True Inr h res have "pr = failed_pr (sw_status r)" "w' = w1"
          by (auto simp: score_process_next_def)
        with ms(1) w1 assms(2) show ?thesis by (intro exI[of _ ms]) (simp add: failed_pr_def)
      qed
    qed
  qed
qed

text \<open>An accepted event: every result is a supplied score, and every scored feature has one.\<close>

definition scores_taken :: "registry \<Rightarrow> model_score_write \<Rightarrow> write_set \<Rightarrow> bool" where
  "scores_taken reg ev ws \<longleftrightarrow> score_write_set reg ev = Inr ws
     \<and> (\<exists>v. find_view_in (reg_views reg) (ms_view ev) (ms_view_version ev) = Some v
          \<and> (\<forall>n r. map_of (ws_results ws) n = Some r \<longrightarrow> supplied v ev r \<and> fr_name (r_ref r) = n))
     \<and> dict_wf (ws_results ws) \<and> set (dict_keys (ws_results ws)) = set (map si_feature (ms_scores ev))"

lemma scores_taken_iff: "score_write_set reg ev = Inr ws \<longleftrightarrow> scores_taken reg ev ws"
proof
  assume "score_write_set reg ev = Inr ws"
  with score_write_set_spec[OF this] show "scores_taken reg ev ws" unfolding scores_taken_def by blast
qed (simp add: scores_taken_def)

end
