(* ===== verification/Samples.thy ===== *)
theory Samples
  imports OnlineRefinement FeatureStore Training Promotion Loader Propagation BatchStatus OnlineWorker BundleStore OfflineWriter PropagationWorker ScoreWriter
begin

text \<open>
  Small concrete values on which the properties of the root theory are instantiated: one
  entity, results of one feature, a two-feature view, and a Postgres parameter that satisfies
  the documented laws.
\<close>

definition sample_key :: entity_key where
  "sample_key = \<lparr>ek_parts = [(''user_id'', ''u1'')]\<rparr>"

definition sample_result :: "string \<Rightarrow> int \<Rightarrow> datetime \<Rightarrow> datetime \<Rightarrow> feature_result" where
  "sample_result name v data_ts calc_ts =
     \<lparr>r_ref = \<lparr>fr_name = name, fr_version = 1\<rparr>, r_entity_key = sample_key, r_value = JInt v,
      r_data_ts = data_ts, r_calc_ts = calc_ts, r_max_input_data_ts = None, r_input_fingerprint = None,
      r_value_hash = None, r_available_at = None, r_availability_source = None, r_model_uri = None,
      r_model_digest = None, r_model_output_name = None, r_bundle_digest = None\<rparr>"

definition day1 :: datetime where "day1 = utc 2024 1 1 0"
definition day2 :: datetime where "day2 = utc 2024 1 2 0"
definition day3 :: datetime where "day3 = utc 2024 1 3 0"

definition early :: feature_result where "early = sample_result ''a'' 1 day1 day1"
definition late :: feature_result where "late = sample_result ''a'' 2 day3 day3"

definition sample_history :: "offline_record list" where
  "sample_history = [offline_rec ''v'' 1 early, offline_rec ''v'' 1 late]"

definition sample_pg :: pg where
  "sample_pg = \<lparr>pg_instant = instant,
     pg_datetime = (\<lambda>i. \<lparr>year = 1970, month = 1, day = 1, hour = 0, minute = 0, second = 0,
        microsecond = 0, utcoff = Some (- i)\<rparr>),
     pg_jsonb = Some, pg_accepts = (\<lambda>_. True), pg_repr = (\<lambda>_. ''0.0'')\<rparr>"

lemma sample_pg_laws [simp]: "pg_laws sample_pg"
  by (simp add: pg_laws_def sample_pg_def aware_def instant_def wall_us_def ordinal_def
      days_before_year_def numeral_eq_Suc)

lemma sample_instants: "instant day1 = 1704067200000000" "instant day2 = 1704153600000000"
  "instant day3 = 1704240000000000"
  by code_simp+

lemma sample_days_valid: "datetime_valid day1" "datetime_valid day2" "datetime_valid day3"
  "utcoff day1 = Some 0" "utcoff day2 = Some 0" "utcoff day3 = Some 0"
  by (simp_all add: datetime_valid_def day1_def day2_def day3_def utc_def days_in_month_def us_per_day_def)

lemma sample_canonical: "result_canonical early" "result_canonical late"
  by (simp_all add: result_canonical_def canonical_def sample_days_valid sample_instants
      early_def late_def sample_result_def)

definition sample_table :: pg_table where
  "sample_table =
     (case pg_append_many sample_pg \<lparr>t_rows = [], t_next = 0\<rparr> ''v'' 1 [early, late] of Inr t \<Rightarrow> t)"

lemma sample_results_ok: "result_ok early" "result_ok late" "ek_valid sample_key"
  "r_entity_key early = sample_key" "r_entity_key late = sample_key" "ref_ok (r_ref early)" "ref_ok (r_ref late)"
  by code_simp+

lemma sample_adm: "pg_adm sample_pg t view version early" "pg_adm sample_pg t view version late"
  using sample_results_ok
  by (simp_all add: pg_adm_def result_to_params_def dump_value_def sample_pg_def[THEN arg_cong[where f = pg_jsonb]]
      early_def late_def sample_result_def) (simp_all add: sample_pg_def)

lemma sample_table_ok: "pg_inv sample_pg sample_table"
  "pg_append_many sample_pg \<lparr>t_rows = [], t_next = 0\<rparr> ''v'' 1 [early, late] = Inr sample_table"
proof -
  have 0: "pg_inv sample_pg \<lparr>t_rows = [], t_next = 0\<rparr>" by (simp add: pg_inv_def)
  have "\<forall>r \<in> set [early, late]. pg_adm sample_pg \<lparr>t_rows = [], t_next = 0\<rparr> ''v'' 1 r"
    using sample_adm by simp
  from pg_append_many_history[OF 0 this] obtain t where
    t: "pg_append_many sample_pg \<lparr>t_rows = [], t_next = 0\<rparr> ''v'' 1 [early, late] = Inr t" "pg_inv sample_pg t"
    by blast
  then show "pg_inv sample_pg sample_table"
    "pg_append_many sample_pg \<lparr>t_rows = [], t_next = 0\<rparr> ''v'' 1 [early, late] = Inr sample_table"
    by (simp_all add: sample_table_def)
qed

lemma sample_valkey_adm: "valkey_adm repr ''v'' early" "valkey_adm repr ''v'' late"
  using sample_results_ok sample_canonical
  by (simp_all add: valkey_adm_def early_def late_def sample_result_def)

definition sample_view :: view_def where
  "sample_view =
     (let f = \<lambda>n ins deps. \<lparr>f_name = n, f_kind = ''udf'', f_version = 1, f_udf = ''u'', f_dtype = ''int'',
          f_status = ''live'', f_inputs = ins, f_deps = deps, f_model = None, f_description = None,
          f_lifecycle = Live\<rparr>;
          dep = \<lparr>d_feature = ''a'', d_version = Some 1, d_required = True, d_max_age = None, d_propagation = Reactive\<rparr>
      in \<lparr>v_name = ''v'', v_entity = ''user'', v_key_fields = [''user_id''], v_version = 1, v_owner = ''o'',
          v_status = ''active'', v_features = [f ''a'' [''s''] [], f ''b'' [] [dep]],
          v_groups = [(''g'', [''a'', ''b''])], v_max_depth = None\<rparr>)"

definition sample_registry :: registry where
  "sample_registry = \<lparr>reg_version = ''1'', reg_entities = [\<lparr>e_name = ''user'', e_key_fields = [''user_id'']\<rparr>],
     reg_sources = [\<lparr>s_name = ''s'', s_type = ''raw_report'', s_report_type = ''r'', s_ts_field = ''t''\<rparr>],
     reg_views = [sample_view]\<rparr>"

definition sample_hasher :: hasher where
  "sample_hasher = \<lparr>sha256_hex = (\<lambda>s. s), float_repr = (\<lambda>_. ''0.0'')\<rparr>"

text \<open>A UDF that returns its number of inputs, over a source stamped on the first day.\<close>

definition sample_env :: engine_env where
  "sample_env = \<lparr>en_load = (\<lambda>_. Inr (JInt 7)),
     en_stamps = [(''s'', \<lparr>ss_report_ts = day1, ss_content_hash = ''h'', ss_available_at = Some day1,
        ss_availability_source = Some ''source_provided''\<rparr>)],
     en_calc_ts = day2, en_udfs = [(''u'', \<lambda>sources deps. Inr (JInt (int (length sources + length deps))))],
     en_hasher = sample_hasher\<rparr>"

lemma sample_registry_valid: "validate_registry sample_registry = Inr ()"
  by code_simp

lemma sample_view_valid: "view_valid sample_view"
  by (rule validate_registry_view[OF sample_registry_valid]) code_simp+

lemma sample_features:
  "map_of (features_by_name sample_view) n = Some f \<Longrightarrow>
     f_udf f = ''u'' \<and> set (f_inputs f) \<subseteq> {''s''} \<and> (f_inputs f \<noteq> [] \<or> (\<exists>dep \<in> set (f_deps f). d_required dep))
     \<and> (\<forall>dep \<in> set (f_deps f). d_max_age dep = None)"
  using features_by_name_Some[of sample_view n f] by (auto simp: sample_view_def Let_def)

lemma sample_env_total: "env_total sample_env (features_by_name sample_view) S"
proof -
  have "\<exists>h. value_hash_of sample_hasher (JInt i) = Inr h" for i
    by (simp add: value_hash_of_def canonical_value_json_def)
  then have "udf_total sample_env f" if "f_udf f = ''u''" for f
    using that by (simp add: udf_total_def sample_env_def)
  moreover have "stamp_ok \<lparr>ss_report_ts = day1, ss_content_hash = ''h'', ss_available_at = Some day1,
        ss_availability_source = Some ''source_provided''\<rparr>" by code_simp
  ultimately show ?thesis
    unfolding env_total_def using sample_features
    by (fastforce simp: anchored_def sample_env_def day2_def)
qed

section \<open>Workflows\<close>

definition sample_meta :: raw_report_meta where
  "sample_meta = \<lparr>m_report_ref = ''ref'', m_report_type = ''r'', m_entity_type = ''user'',
     m_entity_key = sample_key, m_report_ts = day1, m_payload_size_bytes = 2, m_content_hash = ''h'',
     m_storage_uri = ''uri'', m_created_at = day1, m_format = ''json'', m_compression = ''none'',
     m_available_at = Some day1, m_availability_source = Some ''source_provided''\<rparr>"

definition sample_fs :: fs_env where
  "sample_fs = \<lparr>fe_registry = sample_registry, fe_udfs = en_udfs sample_env, fe_hasher = sample_hasher,
     fe_get_meta = (\<lambda>_. Inr sample_meta), fe_get_payload = (\<lambda>_. Inr (JInt 7))\<rparr>"

definition sample_request :: fs_request where
  "sample_request = \<lparr>fq_view = ''v'', fq_view_version = 1, fq_entity_key = sample_key,
     fq_features = [''a'', ''b''], fq_source_refs = [(''s'', ''ref'')], fq_source_stamps = en_stamps sample_env,
     fq_calc_ts = day2, fq_request_id = None, fq_job_id = None, fq_run_id = None,
     fq_correlation_id = None, fq_write_policy = ''online_first''\<rparr>"

definition sample_promotion :: promotion_request where
  "sample_promotion = \<lparr>rq_bundle_exists = True, rq_digest = ''d2'', rq_env = ''prod'', rq_stage = stage_live,
     rq_actor = ''ann'', rq_reason = ''release'', rq_now = day3, rq_profile = Some ''energy'',
     rq_approved_by = [''bob''], rq_override = False, rq_override_reason = None, rq_uuid = ''u2''\<rparr>"

definition sample_shadow :: env_pointer where
  "sample_shadow = \<lparr>pt_env = ''prod'', pt_stage = stage_shadow, pt_digest = ''d2'', pt_updated_at = day1,
     pt_shadow_started = Some day1, pt_previous = None\<rparr>"

definition sample_live :: env_pointer where
  "sample_live = \<lparr>pt_env = ''prod'', pt_stage = stage_live, pt_digest = ''d1'', pt_updated_at = day1,
     pt_shadow_started = Some day1, pt_previous = None\<rparr>"

definition sample_files :: file_pointers where
  "sample_files = \<lparr>fl_pointers = [(pointer_path ''prod'' stage_shadow, pointer_to_dict sample_shadow),
     (pointer_path ''prod'' stage_live, pointer_to_dict sample_live)], fl_records = []\<rparr>"

lemma sample_pointers_ok: "pointer_ok sample_shadow" "pointer_ok sample_live"
  by (simp_all add: pointer_ok_def sample_shadow_def sample_live_def stages_def sample_days_valid)

lemma sample_files_ok: "file_pointers_inv sample_files"
  using sample_pointers_ok by (auto simp: file_pointers_inv_def sample_files_def split: if_splits)

lemma sample_files_get:
  "ps_get file_pointer_ops sample_files ''prod'' stage_shadow = Inr (Some sample_shadow)"
  "ps_get file_pointer_ops sample_files ''prod'' stage_live = Inr (Some sample_live)"
  using sample_pointers_ok pointer_path_inj[of stage_live stage_shadow]
  by (simp_all add: file_pointer_ops_def sample_files_def pointer_from_to_dict stages_def
      stage_shadow_def stage_live_def)

lemma sample_promotes:
  "\<exists>rec s'. promote file_pointer_ops sample_files sample_promotion = Inr (rec, s')
    \<and> pr_created_at rec = day3 \<and> pr_shadow_started rec = Some day1"
proof -
  have a: "unique_approvers [''bob''] = Inr [''bob'']" by code_simp
  have p: "map_of profiles ''energy'' = Some profile_energy" by code_simp
  have d: "aware day3" "aware day1" by (simp_all add: day3_def day1_def)
  have "\<not> blank ''release''" by code_simp
  then show ?thesis
    by (simp add: promote_def promote_live_def sample_promotion_def a p profile_energy_def
        sample_files_get soak_check_def shadow_start_def sample_shadow_def sample_instants d Let_def
        stages_def stage_live_def stage_shadow_def sample_files_get[unfolded stage_live_def stage_shadow_def])
qed

lemma sample_record_adm:
  "fl_records s = [] \<Longrightarrow> datetime_valid (pr_created_at rec) \<Longrightarrow>
     (\<And>t. pr_shadow_started rec = Some t \<Longrightarrow> datetime_valid t) \<Longrightarrow> file_record_adm s rec"
  by (simp add: file_record_adm_def record_ok_def dict_keys_def)

definition sample_rollback :: rollback_request where
  "sample_rollback = \<lparr>rb_env = ''prod'', rb_actor = ''ann'', rb_reason = ''undo'', rb_now = day2,
     rb_stage = stage_live, rb_to_previous = True, rb_digest = None, rb_bundle_exists = None, rb_uuid = ''u3''\<rparr>"

definition sample_shadow_rollback :: rollback_request where
  "sample_shadow_rollback = \<lparr>rb_env = ''prod'', rb_actor = ''ann'', rb_reason = ''undo'', rb_now = day2,
     rb_stage = stage_shadow, rb_to_previous = False, rb_digest = Some ''never-in-shadow'',
     rb_bundle_exists = Some True, rb_uuid = ''u3''\<rparr>"

lemma time_stamp_days: "time_stamp day2 \<noteq> time_stamp day3"
  by (simp add: time_stamp_def day2_def day3_def utc_def pad2_def pad4_def pad6_def digit_def)

lemma record_path_day: "record_path r = time_stamp (pr_created_at r) @ ''_'' @ pr_id r @ ''.json''"
  by (simp add: record_path_def)

lemma time_stamp_length: "length (time_stamp d) = 21"
  by (simp add: time_stamp_def pad2_def pad4_def pad6_def)

lemma sample_rolls_back:
  assumes "promote file_pointer_ops sample_files sample_promotion = Inr (rec, s1)"
  shows "\<exists>rec2 s2. rollback file_pointer_ops s1 sample_rollback = Inr (rec2, s2) \<and> file_record_adm s1 rec2"
proof -
  from sample_promotes assms have r: "pr_created_at rec = day3" "pr_shadow_started rec = Some day1" by auto
  have adm: "file_record_adm sample_files rec"
    using r by (intro sample_record_adm) (simp_all add: sample_files_def sample_days_valid)
  have q: "datetime_valid (rq_now sample_promotion)" "rq_env sample_promotion = ''prod''"
    "rq_stage sample_promotion = stage_live"
    by (simp_all add: sample_promotion_def sample_days_valid)
  note e = fileptr.promote_effect[OF sample_files_ok q(1) assms adm]
  have cur: "ps_get file_pointer_ops s1 ''prod'' stage_live = Inr (Some (promoted_pointer sample_promotion rec))"
    using e q by (simp add: stages_def)
  have "pt_previous (promoted_pointer sample_promotion rec) = Some ''d1''"
    using e q sample_files_get(2) by (auto simp: promoted_pointer_def sample_live_def)
  moreover have "\<not> blank ''undo''" by code_simp
  ultimately obtain rec2 s2 where r2: "rollback file_pointer_ops s1 sample_rollback = Inr (rec2, s2)"
    "pr_created_at rec2 = day2" "pr_shadow_started rec2 = None"
    using cur by (simp add: rollback_def sample_rollback_def rollback_target_def Let_def stages_def
        stage_live_def stage_shadow_def)
  have "fl_records s1 = [(record_path rec, record_to_dict rec)]"
    using assms by (auto simp: promote_def Let_def file_pointer_ops_def sample_files_def dict_set_def)
  moreover have "record_path rec2 \<noteq> record_path rec"
    using time_stamp_days r(1) r2(2) by (simp add: record_path_day time_stamp_length append_eq_append_conv)
  ultimately have "file_record_adm s1 rec2"
    using r2(2,3) sample_days_valid by (simp add: file_record_adm_def record_ok_def dict_keys_def)
  with r2 show ?thesis by blast
qed

lemma sample_shadow_rolls_back:
  "\<exists>rec s'. rollback file_pointer_ops sample_files sample_shadow_rollback = Inr (rec, s') \<and> file_record_adm sample_files rec"
proof -
  have "\<not> blank ''undo''" by code_simp
  then obtain rec s' where "rollback file_pointer_ops sample_files sample_shadow_rollback = Inr (rec, s')"
    "pr_created_at rec = day2" "pr_shadow_started rec = Some day1"
    using sample_files_get(1)
    by (simp add: rollback_def sample_shadow_rollback_def rollback_target_def Let_def stages_def sample_shadow_def)
  then show ?thesis
    by (intro exI conjI sample_record_adm) (auto simp: sample_files_def sample_days_valid)
qed

lemma sample_meta_adm: "pg_meta_adm sample_pg s sample_meta"
  "pg_meta_adm sample_pg s (sample_meta\<lparr>m_content_hash := ''other''\<rparr>)"
  "pg_meta_adm sample_pg s (sample_meta\<lparr>m_available_at := Some day2\<rparr>)"
proof -
  have "meta_ok sample_meta" "meta_ok (sample_meta\<lparr>m_content_hash := ''other''\<rparr>)"
    "meta_ok (sample_meta\<lparr>m_available_at := Some day2\<rparr>)" "ek_valid (m_entity_key sample_meta)"
    by code_simp+
  then show "pg_meta_adm sample_pg s sample_meta"
    "pg_meta_adm sample_pg s (sample_meta\<lparr>m_content_hash := ''other''\<rparr>)"
    "pg_meta_adm sample_pg s (sample_meta\<lparr>m_available_at := Some day2\<rparr>)"
    by (simp_all add: pg_meta_adm_def)
qed

lemma sample_meta_written:
  "\<exists>s e. pg_upsert sample_pg \<lparr>pm_rows = [], pm_changes = []\<rparr> day1 sample_meta None = Inr (True, s)
    \<and> pg_meta_inv sample_pg s \<and> pg_get_meta sample_pg s ''ref'' = Inr e"
proof -
  let ?s0 = "\<lparr>pm_rows = [], pm_changes = []\<rparr>"
  have "pg_meta_inv sample_pg ?s0" by (simp add: pg_meta_inv_def)
  moreover have "m_report_ref sample_meta = ''ref''" by (simp add: sample_meta_def)
  moreover have "pg_get_meta sample_pg ?s0 ''ref'' = Inl (KeyError ''ref'')" by (simp add: pg_get_meta_def)
  ultimately show ?thesis
    using pgmeta.upsert_new[of sample_pg ?s0 sample_meta day1 None] sample_meta_adm(1) by fastforce
qed

end
