(* ===== verification/Consumers.thy ===== *)
theory Consumers
  imports OfflineWriter ScoreWriter
begin

text \<open>
  The bounded loop that the consumer runners share (\<^verbatim>\<open>run\<close> of api/offline_writer_runner.py,
  api/model_score_writer_runner.py and api/batch_worker_runner.py): poll, process one message,
  stop at the limit or, without one, at the first idle poll.
\<close>

section \<open>The loop\<close>

text \<open>
  \<open>step i m w\<close> processes message \<open>m\<close> in turn \<open>i\<close>. Every runner answers an empty poll with
  \<^verbatim>\<open>idle\<close>. Committing a message commits the position after it.
\<close>

type_synonym 'w consumer_step = "nat \<Rightarrow> message \<Rightarrow> 'w \<Rightarrow> process_result \<times> 'w"

definition consume_turn ::
    "'w consumer_step \<Rightarrow> nat \<Rightarrow> partition \<Rightarrow> 'w \<Rightarrow> process_result \<times> partition \<times> 'w" where
  "consume_turn step i p w =
     (case poll_message p of
        (None, p1) \<Rightarrow> (failed_pr ''idle'', p1, w)
      | (Some m, p1) \<Rightarrow>
          (case step i m w of
             (pr, w1) \<Rightarrow> (pr, if pr_committed pr then p1\<lparr>pa_committed := pa_position p1\<rparr> else p1, w1)))"

lemma consume_turn_messages:
  "consume_turn step i p w = (pr, p1, w1) \<Longrightarrow> pa_messages p1 = pa_messages p"
  by (auto simp: consume_turn_def poll_message_def split: prod.splits if_splits)

lemma consume_turn_progress:
  assumes "consume_turn step i p w = (pr, p1, w1)" "pr_status pr \<noteq> ''idle''"
  shows "pa_messages p1 = pa_messages p \<and> pa_position p1 = pa_position p + 1
    \<and> pa_position p < length (pa_messages p)"
  using assms by (auto simp: consume_turn_def poll_message_def failed_pr_def split: prod.splits if_splits)

function consume ::
    "'w consumer_step \<Rightarrow> (nat \<Rightarrow> bool) \<Rightarrow> nat option \<Rightarrow> nat \<Rightarrow> partition \<Rightarrow> 'w
      \<Rightarrow> process_result list \<times> partition \<times> 'w" where
  "consume step stop limit i p w =
     (if (\<exists>n. limit = Some n \<and> n \<le> i) \<or> stop i then ([], p, w)
      else case consume_turn step i p w of
        (pr, p1, w1) \<Rightarrow>
          if limit = None \<and> pr_status pr = ''idle'' then ([pr], p1, w1)
          else (case consume step stop limit (i + 1) p1 w1 of (prs, p2, w2) \<Rightarrow> (pr # prs, p2, w2)))"
  by pat_completeness auto

termination
  by (relation "measure (\<lambda>(step, stop, limit, i, p, w).
      case limit of Some m \<Rightarrow> m - i | None \<Rightarrow> length (pa_messages p) - pa_position p)")
    (auto dest!: sym[of "(_, _, _)"] consume_turn_progress split: option.splits)

declare consume.simps [simp del]

lemma consume_stop: "(\<exists>n. limit = Some n \<and> n \<le> i) \<or> stop i \<Longrightarrow> consume step stop limit i p w = ([], p, w)"
  by (simp only: consume.simps[of step stop limit i p w] if_True)

lemma consume_idle:
  assumes "\<not> ((\<exists>n. limit = Some n \<and> n \<le> i) \<or> stop i)" "consume_turn step i p w = (pr, p1, w1)"
    and "limit = None \<and> pr_status pr = ''idle''"
  shows "consume step stop limit i p w = ([pr], p1, w1)"
  by (simp only: consume.simps[of step stop limit i p w] assms(1,2) if_False prod.case) (simp add: assms(3))

lemma consume_go:
  assumes "\<not> ((\<exists>n. limit = Some n \<and> n \<le> i) \<or> stop i)" "consume_turn step i p w = (pr, p1, w1)"
    and "\<not> (limit = None \<and> pr_status pr = ''idle'')"
  shows "consume step stop limit i p w =
    (pr # fst (consume step stop limit (i + 1) p1 w1), snd (consume step stop limit (i + 1) p1 w1))"
  by (simp only: consume.simps[of step stop limit i p w] assms(1,2) if_False prod.case)
    (use assms(3) in \<open>auto simp: case_prod_beta\<close>)

text \<open>A rule for the loop: its three exits.\<close>

lemma consume_cases:
  obtains (stop) "consume step stop limit i p w = ([], p, w)"
  | (idle) pr p1 w1 where "consume_turn step i p w = (pr, p1, w1)" "limit = None" "pr_status pr = ''idle''"
      "consume step stop limit i p w = ([pr], p1, w1)"
  | (go) pr p1 w1 prs p2 w2 where "\<not> ((\<exists>n. limit = Some n \<and> n \<le> i) \<or> stop i)"
      "consume_turn step i p w = (pr, p1, w1)" "\<not> (limit = None \<and> pr_status pr = ''idle'')"
      "consume step stop limit (i + 1) p1 w1 = (prs, p2, w2)"
      "consume step stop limit i p w = (pr # prs, p2, w2)"
proof (cases "(\<exists>n. limit = Some n \<and> n \<le> i) \<or> stop i")
  case True
  show thesis by (rule stop[OF consume_stop[of limit i stop step p w, OF True]])
next
  case False
  obtain pr p1 w1 where t: "consume_turn step i p w = (pr, p1, w1)" by (cases "consume_turn step i p w")
  show thesis
  proof (cases "limit = None \<and> pr_status pr = ''idle''")
    case True
    with consume_idle[of limit i stop step p w, OF False t True] t show thesis by (intro idle) auto
  next
    case g: False
    obtain prs p2 w2 where "consume step stop limit (i + 1) p1 w1 = (prs, p2, w2)"
      by (cases "consume step stop limit (i + 1) p1 w1")
    with consume_go[of limit i stop step p w, OF False t g] False t g show thesis by (intro go) auto
  qed
qed

section \<open>What the loop does\<close>

lemma consume_bounded:
  "length (fst (consume step stop limit i p w))
    \<le> (case limit of Some k \<Rightarrow> k - i | None \<Rightarrow> Suc (length (pa_messages p) - pa_position p))
   \<and> pa_messages (fst (snd (consume step stop limit i p w))) = pa_messages p"
proof (induction step stop limit i p w rule: consume.induct)
  case (1 step stop limit i p w)
  show ?case
  proof (cases rule: consume_cases[of step stop limit i p w])
    case stop
    then show ?thesis by simp
  next
    case (idle pr p1 w1)
    with consume_turn_messages[OF idle(1)] show ?thesis by simp
  next
    case (go pr p1 w1 prs p2 w2)
    have ih: "length prs \<le> (case limit of Some k \<Rightarrow> k - (i + 1) | None \<Rightarrow> Suc (length (pa_messages p1) - pa_position p1))"
      "pa_messages p2 = pa_messages p1"
      using "1.IH"[OF go(1) go(2)[symmetric] refl go(3)] go(4) by simp_all
    have m: "pa_messages p1 = pa_messages p" by (rule consume_turn_messages[OF go(2)])
    show ?thesis
    proof (cases limit)
      case None
      with go(3) consume_turn_progress[OF go(2)] ih m go(5) show ?thesis by auto
    next
      case (Some k)
      with go(1,5) ih m show ?thesis by auto
    qed
  qed
qed

text \<open>An invariant of the state that every processed message keeps.\<close>

lemma consume_invariant:
  assumes step: "\<And>i m w pr w'. I w \<Longrightarrow> step i m w = (pr, w') \<Longrightarrow> I w'" and "I w"
  shows "I (snd (snd (consume step stop limit i p w)))"
  using assms
proof (induction step stop limit i p w rule: consume.induct)
  case (1 step stop limit i p w)
  have turn: "I w1" if "consume_turn step i p w = (pr, p1, w1)" for pr p1 w1
    using that "1.prems" by (auto simp: consume_turn_def poll_message_def split: prod.splits if_splits)
  show ?case
  proof (cases rule: consume_cases[of step stop limit i p w])
    case stop
    with "1.prems"(2) show ?thesis by simp
  next
    case (idle pr p1 w1)
    with turn show ?thesis by simp
  next
    case (go pr p1 w1 prs p2 w2)
    from "1.IH"[OF go(1) go(2)[symmetric] refl go(3) "1.prems"(1) turn[OF go(2)]] go(4,5) show ?thesis by simp
  qed
qed

text \<open>
  The committed position is past every committed message, so also past an uncommitted one before
  it: the consumer does not see that message again, and a restart does not deliver it.
\<close>

lemma consume_commits:
  assumes "consume step stop limit i p w = (prs, p', w')" "pa_committed p \<le> pa_position p"
  shows "pa_committed p \<le> pa_committed p' \<and> pa_committed p' \<le> pa_position p'
    \<and> (\<forall>k < length prs. pr_committed (prs ! k) \<longrightarrow>
         pa_position p + k < pa_committed p' \<and> pa_position p + k < length (pa_messages p))"
  using assms
proof (induction step stop limit i p w arbitrary: prs p' w' rule: consume.induct)
  case (1 step stop limit i p w)
  show ?case
  proof (cases rule: consume_cases[of step stop limit i p w])
    case stop
    with "1.prems" show ?thesis by simp
  next
    case (idle pr p1 w1)
    have "pa_committed p \<le> pa_committed p1 \<and> pa_committed p1 \<le> pa_position p1
      \<and> (pr_committed pr \<longrightarrow> pa_position p < pa_committed p1 \<and> pa_position p < length (pa_messages p))"
      using idle(1) "1.prems"(2)
      by (auto simp: consume_turn_def poll_message_def failed_pr_def split: prod.splits if_splits)
    with idle(4) "1.prems"(1) show ?thesis by simp
  next
    case (go pr p1 w1 rest p2 w2)
    have eq: "prs = pr # rest" "p' = p2" using go(5) "1.prems"(1) by simp_all
    have t: "pa_messages p1 = pa_messages p" "pa_committed p \<le> pa_committed p1" "pa_committed p1 \<le> pa_position p1"
      "pr_committed pr \<longrightarrow> pa_committed p1 = pa_position p + 1 \<and> pa_position p < length (pa_messages p)"
      "pa_position p1 = pa_position p + 1 \<or> pa_position p1 = pa_position p \<and> length (pa_messages p) \<le> pa_position p"
      using go(2) "1.prems"(2)
      by (auto simp: consume_turn_def poll_message_def failed_pr_def split: prod.splits if_splits)
    from "1.IH"[OF go(1) go(2)[symmetric] refl go(3) go(4) t(3)] have ih: "pa_committed p1 \<le> pa_committed p2"
      "pa_committed p2 \<le> pa_position p2"
      "\<And>k. k < length rest \<Longrightarrow> pr_committed (rest ! k) \<Longrightarrow>
         pa_position p1 + k < pa_committed p2 \<and> pa_position p1 + k < length (pa_messages p)"
      using t(1) by auto
    have "pa_position p + k < pa_committed p2 \<and> pa_position p + k < length (pa_messages p)"
      if k: "k < length (pr # rest)" "pr_committed ((pr # rest) ! k)" for k
    proof (cases k)
      case 0
      with k t(4) ih(1) show ?thesis by simp
    next
      case (Suc j)
      with k ih(3)[of j] t(5) show ?thesis by auto
    qed
    with ih t eq show ?thesis by auto
  qed
qed

section \<open>The runners\<close>

definition offline_run ::
    "('o, 'n, 'r, 's) runtime \<Rightarrow> (nat \<Rightarrow> nat \<Rightarrow> datetime) \<Rightarrow> (nat \<Rightarrow> nat \<Rightarrow> string) \<Rightarrow> (nat \<Rightarrow> bool)
      \<Rightarrow> nat option \<Rightarrow> partition \<Rightarrow> ('o, 'n, 'r, 's) world
      \<Rightarrow> process_result list \<times> partition \<times> ('o, 'n, 'r, 's) world" where
  "offline_run R clocks uuids stop limit p w =
     consume (\<lambda>i m w. offline_process_next R (clocks i) (uuids i) (Some m) (w\<lparr>w_committed := False\<rparr>))
       stop limit 0 p w"

definition score_run ::
    "('o, 'n, 'r, 's) runtime \<Rightarrow> (nat \<Rightarrow> nat \<Rightarrow> datetime) \<Rightarrow> (nat \<Rightarrow> bool)
      \<Rightarrow> nat option \<Rightarrow> partition \<Rightarrow> ('o, 'n, 'r, 's) world
      \<Rightarrow> process_result list \<times> partition \<times> ('o, 'n, 'r, 's) world" where
  "score_run R clocks stop limit p w =
     consume (\<lambda>i m w. score_process_next R (clocks i) (Some m) (w\<lparr>w_committed := False\<rparr>)) stop limit 0 p w"

text \<open>An empty poll is answered the way the loop has it.\<close>

lemma idle_turns:
  "offline_process_next R clock uuid None w = (failed_pr ''idle'', w)"
  "score_process_next R clock None w = (failed_pr ''idle'', w)"
  by (simp_all add: offline_process_next_def score_process_next_def)

end
