(* ===== verification/BatchControls.thy ===== *)
theory BatchControls
  imports Complex_Main Prelude
begin

text \<open>
  Isolation of batch from online serving (api/batch_controls.py): the pause decision, the token
  bucket and the wiring from settings. The seconds and tokens of the bucket are floats in the code
  and rationals here, so the arithmetic is exact; the clock is an argument of every operation.
\<close>

section \<open>Rate limiters\<close>

record token_bucket =
  tb_rate :: rat
  tb_burst :: rat
  tb_tokens :: rat
  tb_last :: rat

definition new_bucket :: "rat \<Rightarrow> rat \<Rightarrow> rat \<Rightarrow> token_bucket res" where
  "new_bucket rate_per_sec burst now =
     rbind (require (\<not> (rate_per_sec < 0 \<or> burst < 0))
              (ValueError ''rate_per_sec and burst must be non-negative'')) (\<lambda>_.
     Inr \<lparr>tb_rate = rate_per_sec, tb_burst = burst, tb_tokens = burst, tb_last = now\<rparr>)"

definition refill :: "rat \<Rightarrow> token_bucket \<Rightarrow> token_bucket" where
  "refill now b =
     (let elapsed = max 0 (now - tb_last b)
      in b\<lparr>tb_last := now, tb_tokens := min (tb_burst b) (tb_tokens b + elapsed * tb_rate b)\<rparr>)"

text \<open>\<^verbatim>\<open>int(x)\<close> of a float drops the fraction.\<close>

definition py_trunc :: "rat \<Rightarrow> int" where
  "py_trunc x = (if 0 \<le> x then \<lfloor>x\<rfloor> else \<lceil>x\<rceil>)"

definition bucket_acquire :: "rat \<Rightarrow> int \<Rightarrow> token_bucket \<Rightarrow> int \<times> token_bucket" where
  "bucket_acquire now n b =
     (if n \<le> 0 then (0, b)
      else let b1 = refill now b; granted = min n (py_trunc (tb_tokens b1))
           in (granted, b1\<lparr>tb_tokens := tb_tokens b1 - of_int granted\<rparr>))"

datatype limiter = Unlimited | Disabled | Bucket token_bucket

fun try_acquire :: "rat \<Rightarrow> int \<Rightarrow> limiter \<Rightarrow> int \<times> limiter" where
  "try_acquire now n Unlimited = (n, Unlimited)"
| "try_acquire now n Disabled = (0, Disabled)"
| "try_acquire now n (Bucket b) = (case bucket_acquire now n b of (g, b') \<Rightarrow> (g, Bucket b'))"

section \<open>Controls\<close>

record pause_decision =
  pz_paused :: bool
  pz_reason :: "string option"

record batch_controls =
  ct_rate_limiter :: limiter
  ct_refresh_limiter :: limiter
  ct_refresh_max :: int
  ct_pause_enabled :: bool
  ct_max_lag :: int

definition noop_controls :: batch_controls where
  "noop_controls = \<lparr>ct_rate_limiter = Unlimited, ct_refresh_limiter = Unlimited, ct_refresh_max = 0,
     ct_pause_enabled = False, ct_max_lag = 0\<rparr>"

text \<open>\<open>lag\<close> is None without a lag source, \<open>Some None\<close> when it does not know.\<close>

definition should_pause :: "batch_controls \<Rightarrow> int option option \<Rightarrow> pause_decision" where
  "should_pause c lag =
     (let go = \<lparr>pz_paused = False, pz_reason = None\<rparr>
      in if \<not> ct_pause_enabled c then go
         else case lag of
           Some (Some l) \<Rightarrow>
             if ct_max_lag c < l
             then \<lparr>pz_paused = True, pz_reason = Some (''online consumer lag '' @ int_str l @ '' > max ''
                     @ int_str (ct_max_lag c))\<rparr>
             else go
         | _ \<Rightarrow> go)"

record batch_settings =
  sg_refresh_enabled :: bool
  sg_refresh_tokens_per_sec :: rat
  sg_refresh_burst :: rat
  sg_refresh_max_features :: int
  sg_chunks_per_sec :: rat
  sg_pause_enabled :: bool
  sg_max_consumer_lag :: int

definition limiter_of :: "rat \<Rightarrow> rat \<Rightarrow> rat \<Rightarrow> limiter res" where
  "limiter_of rate_per_sec burst now =
     (if 0 < rate_per_sec
      then rbind (new_bucket rate_per_sec (if burst = 0 then rate_per_sec else burst) now) (\<lambda>b. Inr (Bucket b))
      else Inr Unlimited)"

definition build_batch_controls :: "batch_settings \<Rightarrow> rat \<Rightarrow> batch_controls res" where
  "build_batch_controls s now =
     rbind (if sg_refresh_enabled s then limiter_of (sg_refresh_tokens_per_sec s) (sg_refresh_burst s) now
            else Inr Disabled) (\<lambda>online.
     rbind (limiter_of (sg_chunks_per_sec s) (sg_chunks_per_sec s) now) (\<lambda>rate.
     Inr \<lparr>ct_rate_limiter = rate, ct_refresh_limiter = online, ct_refresh_max = sg_refresh_max_features s,
          ct_pause_enabled = sg_pause_enabled s, ct_max_lag = sg_max_consumer_lag s\<rparr>))"

section \<open>The bucket never grants more than its rate\<close>

definition bucket_ok :: "token_bucket \<Rightarrow> bool" where
  "bucket_ok b \<longleftrightarrow> 0 \<le> tb_rate b \<and> 0 \<le> tb_tokens b \<and> tb_tokens b \<le> tb_burst b"

lemma new_bucket_ok: "new_bucket r bu now = Inr b \<Longrightarrow> bucket_ok b \<and> tb_tokens b = bu \<and> tb_last b = now \<and> tb_rate b = r"
  by (auto simp: new_bucket_def bucket_ok_def)

text \<open>One request is paid from the tokens and the time since the last one.\<close>

lemma bucket_acquire_step:
  assumes "bucket_ok b" "tb_last b \<le> now" "bucket_acquire now n b = (g, b')"
  shows "bucket_ok b' \<and> tb_rate b' = tb_rate b \<and> tb_burst b' = tb_burst b \<and> tb_last b' \<le> now \<and> tb_last b \<le> tb_last b'
    \<and> 0 \<le> g \<and> g \<le> max 0 n
    \<and> of_int g + tb_tokens b' \<le> tb_tokens b + tb_rate b * (tb_last b' - tb_last b)"
proof (cases "n \<le> 0")
  case True
  with assms show ?thesis by (auto simp: bucket_acquire_def)
next
  case False
  let ?t = "min (tb_burst b) (tb_tokens b + (now - tb_last b) * tb_rate b)"
  have t: "0 \<le> ?t" "?t \<le> tb_burst b" "?t \<le> tb_tokens b + tb_rate b * (now - tb_last b)"
    using assms(1,2) by (auto simp: bucket_ok_def mult.commute min_def)
  have g: "g = min n \<lfloor>?t\<rfloor>" "b' = b\<lparr>tb_last := now, tb_tokens := ?t - of_int g\<rparr>"
    using assms(2,3) False t(1) by (auto simp: bucket_acquire_def refill_def Let_def py_trunc_def max_def)
  have fl: "0 \<le> \<lfloor>?t\<rfloor>" using t(1) by simp
  have "of_int \<lfloor>?t\<rfloor> \<le> ?t" by (rule of_int_floor_le)
  moreover have "g \<le> \<lfloor>?t\<rfloor>" "0 \<le> g" "g \<le> n" using g(1) False fl by simp_all
  moreover from this have "of_int g \<le> (of_int \<lfloor>?t\<rfloor> :: rat)" by (simp only: of_int_le_iff)
  ultimately have "of_int g \<le> ?t" "0 \<le> g" "g \<le> n" by linarith+
  with g(2) t assms(1,2) show ?thesis by (simp add: bucket_ok_def)
qed

text \<open>Requests at given times, each for some tokens.\<close>

fun acquire_all :: "(rat \<times> int) list \<Rightarrow> token_bucket \<Rightarrow> int \<times> token_bucket" where
  "acquire_all [] b = (0, b)"
| "acquire_all ((now, n) # qs) b =
     (case bucket_acquire now n b of (g, b1) \<Rightarrow>
      case acquire_all qs b1 of (gs, b2) \<Rightarrow> (g + gs, b2))"

lemma bucket_rate_bounded:
  assumes "bucket_ok b" "sorted (map fst qs)" "\<forall>q \<in> set qs. tb_last b \<le> fst q \<and> fst q \<le> t" "tb_last b \<le> t"
  shows "of_int (fst (acquire_all qs b)) \<le> tb_tokens b + tb_rate b * (t - tb_last b)
    \<and> bucket_ok (snd (acquire_all qs b))"
  using assms
proof (induction qs arbitrary: b)
  case Nil
  then show ?case by (simp add: bucket_ok_def)
next
  case (Cons q qs)
  obtain now n where q: "q = (now, n)" by (cases q)
  obtain g b1 where g: "bucket_acquire now n b = (g, b1)" by (cases "bucket_acquire now n b")
  have "tb_last b \<le> now" using Cons.prems(3) q by simp
  note s = bucket_acquire_step[OF Cons.prems(1) this g]
  have ih: "of_int (fst (acquire_all qs b1)) \<le> tb_tokens b1 + tb_rate b1 * (t - tb_last b1)
      \<and> bucket_ok (snd (acquire_all qs b1))"
  proof (rule Cons.IH)
    show "bucket_ok b1" using s by blast
    show "sorted (map fst qs)" using Cons.prems(2) by simp
    show "\<forall>q \<in> set qs. tb_last b1 \<le> fst q \<and> fst q \<le> t"
      using Cons.prems(2,3) q s by force
    show "tb_last b1 \<le> t" using Cons.prems(3) q s by force
  qed
  moreover have "of_int g + tb_tokens b1 + tb_rate b * (t - tb_last b1) \<le> tb_tokens b + tb_rate b * (t - tb_last b)"
    using s by (simp add: algebra_simps)
  moreover have "acquire_all (q # qs) b = (g + fst (acquire_all qs b1), snd (acquire_all qs b1))"
    by (simp add: q g case_prod_beta)
  ultimately show ?case using s by auto
qed

text \<open>Batch never touches online serving unless an operator enabled it.\<close>

lemma refresh_disabled_grants_nothing:
  assumes "build_batch_controls s now = Inr c" "\<not> sg_refresh_enabled s"
  shows "try_acquire t n (ct_refresh_limiter c) = (0, Disabled)"
  using assms by (auto simp: build_batch_controls_def)

end
