(* ===== verification/BatchWorker.thy ===== *)
theory BatchWorker
  imports Consumers BatchStatus BatchControls
begin

text \<open>
  The batch worker: one chunk of a job, either over landed reports (one bulk append) or over
  inline payloads (api/batch_worker.py, api/direct_compute.py), and its consumer
  (api/batch_worker_runner.py). Timing metrics and logs are left out.
\<close>

section \<open>What the worker runs on\<close>

text \<open>
  The raw-report side of the backend, with its state of type \<open>'m\<close>. Serialising gives the bytes;
  the parsing of an inline source by its pydantic model is a parameter (None is its
  ValidationError), its validator is modelled below.
\<close>

record inline_source =
  il_report_type :: string
  il_report_ts :: datetime
  il_payload :: json
  il_available_at :: "datetime option"

record 'm raw_ops =
  ra_get_meta :: "'m \<Rightarrow> string \<Rightarrow> raw_report_meta res"
  ra_add_meta :: "'m \<Rightarrow> raw_report_meta \<Rightarrow> 'm res"
  ra_get_payload :: "'m \<Rightarrow> string \<Rightarrow> json res"
  ra_put_payload :: "'m \<Rightarrow> string \<Rightarrow> json \<Rightarrow> 'm res"
  ra_serialize :: "json \<Rightarrow> string res"
  ra_storage_uri :: "string \<Rightarrow> string \<Rightarrow> datetime \<Rightarrow> string"
  ra_format :: string
  ra_compression :: string
  ra_parse_inline :: "(string, json) dict \<Rightarrow> inline_source option"

record ('o, 'n, 'r, 's, 'm, 'j) batch_runtime =
  bt_core :: "('o, 'n, 'r, 's) runtime"
  bt_write :: "'n \<Rightarrow> string \<Rightarrow> int \<Rightarrow> feature_result \<Rightarrow> outcome res \<times> 'n"
  bt_set_chunk :: "datetime \<Rightarrow> 'j \<Rightarrow> string \<Rightarrow> chunk_status \<Rightarrow> 'j res"
  bt_raw :: "'m raw_ops"

record ('o, 'n, 'r, 's, 'm, 'j) batch_world =
  bw_core :: "('o, 'n, 'r, 's) world"
  bw_jobs :: 'j
  bw_raw :: 'm
  bw_controls :: batch_controls

text \<open>
  The nondeterminism of one turn: the wall clock, the fresh report and update identifiers, the
  monotonic clock of the limiters, and the lag source.
\<close>

record batch_inputs =
  be_clock :: "nat \<Rightarrow> datetime"
  be_report_ref :: "nat \<Rightarrow> nat \<Rightarrow> string"
  be_uuid :: "nat \<Rightarrow> string"
  be_ticks :: "nat \<Rightarrow> rat"
  be_lag :: "int option option"

definition raw_env :: "'m raw_ops \<Rightarrow> 'm \<Rightarrow> fs_env \<Rightarrow> fs_env" where
  "raw_env ops raw F = F\<lparr>fe_get_meta := ra_get_meta ops raw, fe_get_payload := ra_get_payload ops raw\<rparr>"

section \<open>Inline sources\<close>

definition require_timezone_aware :: "inline_source \<Rightarrow> inline_source res" where
  "require_timezone_aware s =
     rbind (require (aware (il_report_ts s) \<and> aware_opt (il_available_at s))
       (ValueError ''must be timezone-aware'')) (\<lambda>_. Inr s)"

definition inline_source_of :: "'m raw_ops \<Rightarrow> (string, json) dict \<Rightarrow> inline_source res" where
  "inline_source_of ops kvs =
     (case ra_parse_inline ops kvs of
        None \<Rightarrow> Inl (ValueError ''validation error for InlineSource'')
      | Some s \<Rightarrow> require_timezone_aware s)"

record overlay =
  ov_payloads :: "(string, json) dict"
  ov_metas :: "(string, raw_report_meta) dict"
  ov_refs :: "(string, string) dict"
  ov_stamps :: "(string, source_stamp) dict"

text \<open>The metadata row of one inline source.\<close>

definition inline_meta ::
    "'m raw_ops \<Rightarrow> hasher \<Rightarrow> view_def \<Rightarrow> entity_key \<Rightarrow> datetime \<Rightarrow> string \<Rightarrow> inline_source
      \<Rightarrow> raw_report_meta res" where
  "inline_meta ops H v ek calc_ts ref s =
     rbind (ra_serialize ops (il_payload s)) (\<lambda>bytes.
     mk_raw_report_meta
       \<lparr>m_report_ref = ref, m_report_type = il_report_type s, m_entity_type = v_entity v,
        m_entity_key = ek, m_report_ts = il_report_ts s, m_payload_size_bytes = int (length bytes),
        m_content_hash = ''sha256:'' @ sha256_hex H bytes,
        m_storage_uri = ra_storage_uri ops (il_report_type s) ref (il_report_ts s),
        m_created_at = calc_ts, m_format = ra_format ops, m_compression = ra_compression ops,
        m_available_at = Some (case il_available_at s of Some t \<Rightarrow> t | None \<Rightarrow> calc_ts),
        m_availability_source = Some (case il_available_at s of Some _ \<Rightarrow> ''source_provided''
                                      | None \<Rightarrow> ''ingestion_time'')\<rparr>)"

text \<open>The loop over the inline sources: payload first, then metadata, then the overlay.\<close>

fun persist_sources ::
    "'m raw_ops \<Rightarrow> hasher \<Rightarrow> view_def \<Rightarrow> entity_key \<Rightarrow> datetime \<Rightarrow> (nat \<Rightarrow> string) \<Rightarrow> nat
      \<Rightarrow> (string, inline_source) dict \<Rightarrow> overlay \<Rightarrow> 'm \<Rightarrow> overlay res \<times> 'm" where
  "persist_sources ops H v ek calc_ts refs i [] ov raw = (Inr ov, raw)"
| "persist_sources ops H v ek calc_ts refs i ((name, s) # rest) ov raw =
     (case inline_meta ops H v ek calc_ts (refs i) s of
        Inl e \<Rightarrow> (Inl e, raw)
      | Inr meta \<Rightarrow>
      case ra_put_payload ops raw (m_storage_uri meta) (il_payload s) of
        Inl e \<Rightarrow> (Inl e, raw)
      | Inr raw1 \<Rightarrow>
      case ra_add_meta ops raw1 meta of
        Inl e \<Rightarrow> (Inl e, raw1)
      | Inr raw2 \<Rightarrow>
      case mk_source_stamp (il_report_ts s) (m_content_hash meta) (m_available_at meta) (m_availability_source meta) of
        Inl e \<Rightarrow> (Inl e, raw2)
      | Inr ss \<Rightarrow>
          persist_sources ops H v ek calc_ts refs (i + 1) rest
            \<lparr>ov_payloads = dict_set (m_storage_uri meta) (il_payload s) (ov_payloads ov),
             ov_metas = dict_set (refs i) meta (ov_metas ov),
             ov_refs = dict_set name (refs i) (ov_refs ov),
             ov_stamps = dict_set name ss (ov_stamps ov)\<rparr> raw2)"

definition overlay_env :: "overlay \<Rightarrow> fs_env \<Rightarrow> fs_env" where
  "overlay_env ov F =
     F\<lparr>fe_get_meta := overlay_get_meta (ov_metas ov) (fe_get_meta F),
       fe_get_payload := overlay_get_payload (ov_payloads ov) (fe_get_payload F)\<rparr>"

definition persist_and_compute ::
    "('o, 'n, 'r, 's, 'm, 'j) batch_runtime \<Rightarrow> datetime \<Rightarrow> (nat \<Rightarrow> string) \<Rightarrow> view_def \<Rightarrow> entity_key
      \<Rightarrow> (string, inline_source) dict \<Rightarrow> string list \<Rightarrow> bool \<Rightarrow> bool
      \<Rightarrow> ('o, 'n, 'r, 's, 'm, 'j) batch_world
      \<Rightarrow> (compute_outcome \<times> (string, string) dict) res \<times> ('o, 'n, 'r, 's, 'm, 'j) batch_world" where
  "persist_and_compute B calc_ts refs v ek sources features write_online skip_dup W =
     (let R = bt_core B; ops = bt_raw B in
      if sources = [] then (Inl (ValueError ''inline_sources must not be empty''), W)
      else case persist_sources ops (fe_hasher (rt_env R)) v ek calc_ts refs 0 sources
                  \<lparr>ov_payloads = [], ov_metas = [], ov_refs = [], ov_stamps = []\<rparr> (bw_raw W) of
        (Inl e, raw) \<Rightarrow> (Inl e, W\<lparr>bw_raw := raw\<rparr>)
      | (Inr ov, raw) \<Rightarrow>
          let w = bw_core W in
          case fs_compute (rt_stores R) (rt_repr R) (overlay_env ov (raw_env ops raw (rt_env R)))
                 \<lparr>fq_view = v_name v, fq_view_version = v_version v, fq_entity_key = ek,
                  fq_features = features, fq_source_refs = ov_refs ov, fq_source_stamps = ov_stamps ov,
                  fq_calc_ts = calc_ts, fq_request_id = None, fq_job_id = None, fq_run_id = None,
                  fq_correlation_id = None, fq_write_policy = ''online_first''\<rparr>
                 write_online skip_dup (w_offline w, w_online w) of
            (r, off, on) \<Rightarrow>
              (rbind r (\<lambda>out. Inr (out, ov_refs ov)),
               W\<lparr>bw_raw := raw, bw_core := w\<lparr>w_offline := off, w_online := on\<rparr>\<rparr>))"

section \<open>The items of a chunk\<close>

definition max_first_errors :: nat where
  "max_first_errors = 10"

record chunk_tally =
  kt_results :: "feature_result list"
  kt_ok :: nat
  kt_failed :: nat
  kt_errors :: "string list"

definition empty_chunk_tally :: chunk_tally where
  "empty_chunk_tally = \<lparr>kt_results = [], kt_ok = 0, kt_failed = 0, kt_errors = []\<rparr>"

definition item_done :: "feature_result list \<Rightarrow> chunk_tally \<Rightarrow> chunk_tally" where
  "item_done rs t = t\<lparr>kt_results := kt_results t @ rs, kt_ok := kt_ok t + 1\<rparr>"

definition item_failed :: "exc \<Rightarrow> chunk_tally \<Rightarrow> chunk_tally" where
  "item_failed e t = t\<lparr>kt_failed := kt_failed t + 1,
     kt_errors := (if length (kt_errors t) < max_first_errors then kt_errors t @ [take 200 (exc_text e)]
                   else kt_errors t)\<rparr>"

text \<open>The stamp of a landed report, with the ingestion time for rows without availability.\<close>

definition meta_stamp :: "raw_report_meta \<Rightarrow> source_stamp res" where
  "meta_stamp m =
     rbind (text_or (m_availability_source m) (Inr ''ingestion_time'')) (\<lambda>src.
     mk_source_stamp (m_report_ts m) (m_content_hash m)
       (Some (case m_available_at m of Some t \<Rightarrow> t | None \<Rightarrow> m_created_at m)) (Some src))"

definition item_write_set ::
    "('o, 'n, 'r, 's, 'm, 'j) batch_runtime \<Rightarrow> 'm \<Rightarrow> view_def \<Rightarrow> string list \<Rightarrow> datetime \<Rightarrow> batch_item
      \<Rightarrow> write_set res" where
  "item_write_set B raw v features now item =
     rbind (view_entity_key v (bi_entity_key item)) (\<lambda>ek.
     rbind (map_res (\<lambda>(name, ref). rbind (ra_get_meta (bt_raw B) raw ref) (\<lambda>m.
              rbind (meta_stamp m) (\<lambda>s. Inr (name, s)))) (bi_source_refs item)) (\<lambda>stamps.
     compute_write_set (raw_env (bt_raw B) raw (rt_env (bt_core B))) None
       \<lparr>fq_view = v_name v, fq_view_version = v_version v, fq_entity_key = ek, fq_features = features,
        fq_source_refs = bi_source_refs item, fq_source_stamps = dict_of stamps, fq_calc_ts = now,
        fq_request_id = None, fq_job_id = None, fq_run_id = None, fq_correlation_id = None,
        fq_write_policy = ''online_first''\<rparr>))"

definition ref_item ::
    "('o, 'n, 'r, 's, 'm, 'j) batch_runtime \<Rightarrow> 'm \<Rightarrow> view_def \<Rightarrow> string list \<Rightarrow> datetime \<Rightarrow> batch_item
      \<Rightarrow> chunk_tally \<Rightarrow> chunk_tally res" where
  "ref_item B raw v features now item t =
     (case item_write_set B raw v features now item of
        Inr ws \<Rightarrow> Inr (item_done (dict_values (ws_results ws)) t)
      | Inl e \<Rightarrow> if caught e then Inr (item_failed e t) else Inl e)"

text \<open>One inline item; the stores keep what it wrote before an error.\<close>

definition inline_item ::
    "('o, 'n, 'r, 's, 'm, 'j) batch_runtime \<Rightarrow> datetime \<Rightarrow> (nat \<Rightarrow> string) \<Rightarrow> view_def \<Rightarrow> string list \<Rightarrow> bool
      \<Rightarrow> batch_item \<Rightarrow> ('o, 'n, 'r, 's, 'm, 'j) batch_world
      \<Rightarrow> feature_result list res \<times> ('o, 'n, 'r, 's, 'm, 'j) batch_world" where
  "inline_item B now refs v features write_online item W =
     (case rbind (view_entity_key v (bi_entity_key item)) (\<lambda>ek.
           rbind (map_res (\<lambda>(name, kvs). rbind (inline_source_of (bt_raw B) kvs) (\<lambda>s. Inr (name, s)))
                    (bi_inline_sources item)) (\<lambda>sources. Inr (ek, dict_of sources))) of
        Inl e \<Rightarrow> (Inl e, W)
      | Inr (ek, sources) \<Rightarrow>
          (case persist_and_compute B now refs v ek sources features write_online True W of
             (Inl e, W1) \<Rightarrow> (Inl e, W1)
           | (Inr (out, _), W1) \<Rightarrow> (Inr (dict_values (cp_results out)), W1)))"

fun inline_items ::
    "('o, 'n, 'r, 's, 'm, 'j) batch_runtime \<Rightarrow> (nat \<Rightarrow> datetime) \<Rightarrow> (nat \<Rightarrow> nat \<Rightarrow> string) \<Rightarrow> view_def \<Rightarrow> string list
      \<Rightarrow> bool \<Rightarrow> nat \<Rightarrow> batch_item list \<Rightarrow> chunk_tally \<Rightarrow> ('o, 'n, 'r, 's, 'm, 'j) batch_world
      \<Rightarrow> chunk_tally res \<times> ('o, 'n, 'r, 's, 'm, 'j) batch_world" where
  "inline_items B clock refs v features write_online i [] t W = (Inr t, W)"
| "inline_items B clock refs v features write_online i (item # items) t W =
     (case inline_item B (clock i) (refs i) v features write_online item W of
        (Inr rs, W1) \<Rightarrow> inline_items B clock refs v features write_online (i + 1) items (item_done rs t) W1
      | (Inl e, W1) \<Rightarrow>
          if caught e then inline_items B clock refs v features write_online (i + 1) items (item_failed e t) W1
          else (Inl e, W1))"

section \<open>The guarded online refresh\<close>

definition refresh_keys :: "string list" where
  "refresh_keys = [''online_refresh_attempted'', ''online_refresh_written'',
     ''online_refresh_written_recompute'', ''online_refresh_skipped_stale'', ''online_refresh_noop'',
     ''online_refresh_rate_limited'', ''online_refresh_failed'']"

fun outcome_key :: "outcome \<Rightarrow> string" where
  "outcome_key Written = ''online_refresh_written''"
| "outcome_key WrittenRecompute = ''online_refresh_written_recompute''"
| "outcome_key SkippedStale = ''online_refresh_skipped_stale''"
| "outcome_key Noop = ''online_refresh_noop''"

definition bump :: "string \<Rightarrow> (string, int) dict \<Rightarrow> (string, int) dict" where
  "bump k counts = dict_set k ((case map_of counts k of Some n \<Rightarrow> n | None \<Rightarrow> 0) + 1) counts"

text \<open>One result: the feature cap, then a token, then the guarded write.\<close>

fun refresh_online ::
    "('n \<Rightarrow> string \<Rightarrow> int \<Rightarrow> feature_result \<Rightarrow> outcome res \<times> 'n) \<Rightarrow> (nat \<Rightarrow> rat) \<Rightarrow> int \<Rightarrow> string \<Rightarrow> int \<Rightarrow> nat
      \<Rightarrow> feature_result list \<Rightarrow> (string, int) dict \<Rightarrow> limiter \<Rightarrow> 'n
      \<Rightarrow> (string, int) dict \<times> limiter \<times> 'n" where
  "refresh_online write ticks cap view vv i [] counts lm on = (counts, lm, on)"
| "refresh_online write ticks cap view vv i (r # rs) counts lm on =
     (if cap \<noteq> 0 \<and> cap \<le> int i then
        refresh_online write ticks cap view vv (i + 1) rs (bump ''online_refresh_rate_limited'' counts) lm on
      else case try_acquire (ticks i) 1 lm of
        (g, lm1) \<Rightarrow>
          if g < 1 then
            refresh_online write ticks cap view vv (i + 1) rs (bump ''online_refresh_rate_limited'' counts) lm1 on
          else let counts1 = bump ''online_refresh_attempted'' counts in
            (case write on view vv r of
               (Inl e, on1) \<Rightarrow>
                 refresh_online write ticks cap view vv (i + 1) rs (bump ''online_refresh_failed'' counts1) lm1 on1
             | (Inr out, on1) \<Rightarrow>
                 refresh_online write ticks cap view vv (i + 1) rs (bump (outcome_key out) counts1) lm1 on1))"

definition guarded_online_refresh ::
    "('o, 'n, 'r, 's, 'm, 'j) batch_runtime \<Rightarrow> (nat \<Rightarrow> rat) \<Rightarrow> string \<Rightarrow> int \<Rightarrow> feature_result list
      \<Rightarrow> ('o, 'n, 'r, 's, 'm, 'j) batch_world
      \<Rightarrow> (string, int) dict \<times> ('o, 'n, 'r, 's, 'm, 'j) batch_world" where
  "guarded_online_refresh B ticks view vv rs W =
     (case refresh_online (bt_write B) ticks (ct_refresh_max (bw_controls W)) view vv 0 rs
             (map (\<lambda>k. (k, 0)) refresh_keys) (ct_refresh_limiter (bw_controls W)) (w_online (bw_core W)) of
        (counts, lm, on) \<Rightarrow>
          (counts, W\<lparr>bw_controls := (bw_controls W)\<lparr>ct_refresh_limiter := lm\<rparr>,
                     bw_core := (bw_core W)\<lparr>w_online := on\<rparr>\<rparr>))"

section \<open>The two shapes of a chunk\<close>

record chunk_outcome =
  ko_ok :: nat
  ko_failed :: nat
  ko_errors :: "string list"
  ko_refresh :: "(string, int) dict option"

definition batch_emission :: "view_def \<Rightarrow> string \<Rightarrow> string option \<Rightarrow> datetime \<Rightarrow> emission" where
  "batch_emission v job_id manifest_id now =
     \<lparr>em_entity_type = v_entity v, em_source = ''batch_worker'', em_run_id = None,
      em_job_id = Some job_id, em_manifest_id = manifest_id, em_occurred_at = now\<rparr>"

definition compute_ref_chunk ::
    "('o, 'n, 'r, 's, 'm, 'j) batch_runtime \<Rightarrow> batch_inputs \<Rightarrow> view_def \<Rightarrow> string list \<Rightarrow> batch_chunk_requested
      \<Rightarrow> ('o, 'n, 'r, 's, 'm, 'j) batch_world
      \<Rightarrow> chunk_outcome res \<times> ('o, 'n, 'r, 's, 'm, 'j) batch_world" where
  "compute_ref_chunk B I v features ev W =
     (let R = bt_core B; w = bw_core W in
      case fold_res (ref_item B (bw_raw W) v features (be_clock I 2)) (bc_items ev) empty_chunk_tally of
        Inl e \<Rightarrow> (Inl e, W)
      | Inr t \<Rightarrow>
      case append_new (rt_stores R) (rt_repr R) (w_offline w) (v_name v) (v_version v) (kt_results t) of
        Inl e \<Rightarrow> (Inl e, W)
      | Inr (new, skipped, off) \<Rightarrow>
      case emit_feature_updates (send_update R) (be_uuid I) v (kt_results t)
             (batch_emission v (bc_batch_job_id ev) (bc_manifest_id ev) (be_clock I 3)) (w\<lparr>w_offline := off\<rparr>) of
        (Inl e, w1) \<Rightarrow> (Inl e, W\<lparr>bw_core := w1\<rparr>)
      | (Inr _, w1) \<Rightarrow>
          let W1 = W\<lparr>bw_core := w1\<rparr>;
              out = \<lparr>ko_ok = kt_ok t, ko_failed = kt_failed t, ko_errors = kt_errors t, ko_refresh = None\<rparr>
          in if bc_write_online ev then
               (case guarded_online_refresh B (\<lambda>i. be_ticks I (Suc i)) (v_name v) (v_version v) (kt_results t) W1 of
                  (counts, W2) \<Rightarrow> (Inr (out\<lparr>ko_refresh := Some counts\<rparr>), W2))
             else (Inr out, W1))"

definition compute_inline_chunk ::
    "('o, 'n, 'r, 's, 'm, 'j) batch_runtime \<Rightarrow> batch_inputs \<Rightarrow> view_def \<Rightarrow> string list \<Rightarrow> batch_chunk_requested
      \<Rightarrow> ('o, 'n, 'r, 's, 'm, 'j) batch_world
      \<Rightarrow> chunk_outcome res \<times> ('o, 'n, 'r, 's, 'm, 'j) batch_world" where
  "compute_inline_chunk B I v features ev W =
     (case inline_items B (\<lambda>i. be_clock I (i + 6)) (be_report_ref I) v features (bc_write_online ev) 0
             (bc_items ev) empty_chunk_tally W of
        (Inl e, W1) \<Rightarrow> (Inl e, W1)
      | (Inr t, W1) \<Rightarrow>
      case emit_feature_updates (send_update (bt_core B)) (be_uuid I) v (kt_results t)
             (batch_emission v (bc_batch_job_id ev) (bc_manifest_id ev) (be_clock I 3)) (bw_core W1) of
        (Inl e, w2) \<Rightarrow> (Inl e, W1\<lparr>bw_core := w2\<rparr>)
      | (Inr _, w2) \<Rightarrow>
          (Inr \<lparr>ko_ok = kt_ok t, ko_failed = kt_failed t, ko_errors = kt_errors t, ko_refresh = None\<rparr>,
           W1\<lparr>bw_core := w2\<rparr>))"

section \<open>One chunk\<close>

record batch_result =
  bx_status :: string
  bx_chunk_id :: string
  bx_ok_items :: nat
  bx_failed_items :: nat
  bx_first_errors :: "string list"
  bx_error :: "exc option"
  bx_refresh :: "(string, int) dict option"

text \<open>The status is for observation only: a failing store leaves it as it was.\<close>

definition safe_set_chunk ::
    "('o, 'n, 'r, 's, 'm, 'j) batch_runtime \<Rightarrow> datetime \<Rightarrow> string \<Rightarrow> chunk_status
      \<Rightarrow> ('o, 'n, 'r, 's, 'm, 'j) batch_world \<Rightarrow> ('o, 'n, 'r, 's, 'm, 'j) batch_world" where
  "safe_set_chunk B now job_id c W =
     (case bt_set_chunk B now (bw_jobs W) job_id c of Inl _ \<Rightarrow> W | Inr jobs \<Rightarrow> W\<lparr>bw_jobs := jobs\<rparr>)"

definition running_report :: "batch_chunk_requested \<Rightarrow> datetime \<Rightarrow> chunk_status" where
  "running_report ev now =
     \<lparr>bk_chunk_id = bc_chunk_id ev, bk_chunk_index = bc_chunk_index ev, bk_status = ''running'',
      bk_item_count = int (length (bc_items ev)), bk_updated_at = now, bk_ok_items = 0, bk_failed_items = 0,
      bk_first_errors = [], bk_finished_at = None\<rparr>"

definition finished_report :: "batch_chunk_requested \<Rightarrow> datetime \<Rightarrow> chunk_outcome \<Rightarrow> chunk_status" where
  "finished_report ev now k =
     \<lparr>bk_chunk_id = bc_chunk_id ev, bk_chunk_index = bc_chunk_index ev,
      bk_status = (if ko_failed k = 0 then ''completed'' else ''completed_with_errors''),
      bk_item_count = int (length (bc_items ev)), bk_updated_at = now, bk_ok_items = int (ko_ok k),
      bk_failed_items = int (ko_failed k), bk_first_errors = ko_errors k, bk_finished_at = Some now\<rparr>"

definition processed_event :: "batch_chunk_requested \<Rightarrow> datetime \<Rightarrow> chunk_outcome \<Rightarrow> batch_chunk_processed" where
  "processed_event ev now k =
     \<lparr>bp_event_type = ''batch.chunk.processed'', bp_event_version = 1,
      bp_batch_job_id = bc_batch_job_id ev, bp_chunk_id = bc_chunk_id ev,
      bp_chunk_index = bc_chunk_index ev, bp_chunk_count = bc_chunk_count ev,
      bp_correlation_id = bc_correlation_id ev, bp_processed_at = now,
      bp_status = (if ko_failed k = 0 then ''completed'' else ''completed_with_errors''),
      bp_item_count = int (length (bc_items ev)), bp_ok_items = int (ko_ok k),
      bp_failed_items = int (ko_failed k), bp_first_errors = ko_errors k,
      bp_manifest_id = bc_manifest_id ev, bp_online_refresh_counts = ko_refresh k\<rparr>"

definition is_ref_chunk :: "batch_chunk_requested \<Rightarrow> bool" where
  "is_ref_chunk ev \<longleftrightarrow> (case bc_items ev of [] \<Rightarrow> False | item # _ \<Rightarrow> bi_source_refs item \<noteq> [])"

definition handle_batch_chunk ::
    "('o, 'n, 'r, 's, 'm, 'j) batch_runtime \<Rightarrow> batch_inputs \<Rightarrow> batch_chunk_requested
      \<Rightarrow> ('o, 'n, 'r, 's, 'm, 'j) batch_world
      \<Rightarrow> batch_result res \<times> ('o, 'n, 'r, 's, 'm, 'j) batch_world" where
  "handle_batch_chunk B I ev W =
     (let bad = \<lparr>bx_status = ''invalid_event'', bx_chunk_id = bc_chunk_id ev, bx_ok_items = 0,
                 bx_failed_items = 0, bx_first_errors = [], bx_error = None, bx_refresh = None\<rparr>
      in case rbind (reg_find_view (fe_registry (rt_env (bt_core B))) (bc_view ev) (bc_view_version ev)) (\<lambda>v.
              rbind (plan_features v (bc_features ev) (bc_groups ev) False) (\<lambda>plan. Inr (v, plan))) of
        Inl e \<Rightarrow> if caught e then (Inr (bad\<lparr>bx_error := Some e\<rparr>), W) else (Inl e, W)
      | Inr (v, plan) \<Rightarrow>
          let W1 = safe_set_chunk B (be_clock I 1) (bc_batch_job_id ev) (running_report ev (be_clock I 1)) W;
              features = p_compute_features plan
          in case (if is_ref_chunk ev then compute_ref_chunk B I v features ev W1
                   else compute_inline_chunk B I v features ev W1) of
               (Inl e, W2) \<Rightarrow> (Inl e, W2)
             | (Inr k, W2) \<Rightarrow>
                 let finished = be_clock I 4;
                     W3 = safe_set_chunk B finished (bc_batch_job_id ev) (finished_report ev finished k) W2;
                     done = \<lparr>bx_status = ''ok'', bx_chunk_id = bc_chunk_id ev, bx_ok_items = ko_ok k,
                             bx_failed_items = ko_failed k, bx_first_errors = ko_errors k, bx_error = None,
                             bx_refresh = ko_refresh k\<rparr>
                 in (case publish_event (bt_core B) ''fp.batch.events'' (bc_batch_job_id ev)
                            (bp_to_dict (processed_event ev finished k)) (bw_core W3) of
                       (Inl e, w4) \<Rightarrow>
                         (Inr (done\<lparr>bx_status := ''publish_failed'', bx_error := Some e\<rparr>), W3\<lparr>bw_core := w4\<rparr>)
                     | (Inr _, w4) \<Rightarrow> (Inr done, W3\<lparr>bw_core := w4\<rparr>)))"

section \<open>One turn of the consumer\<close>

definition batch_topic :: string where
  "batch_topic = ''fp.feature-compute.batch''"

definition batch_dead_letter ::
    "('o, 'n, 'r, 's, 'm, 'j) batch_runtime \<Rightarrow> datetime \<Rightarrow> message \<Rightarrow> string \<Rightarrow> exc option
      \<Rightarrow> ('o, 'n, 'r, 's, 'm, 'j) batch_world \<Rightarrow> process_result \<times> ('o, 'n, 'r, 's, 'm, 'j) batch_world" where
  "batch_dead_letter B now m status err W =
     (case to_dlq (bt_core B) now batch_topic ''batch_worker'' m status (map_option exc_text err) None None (bw_core W) of
        (pr, w) \<Rightarrow> (pr, W\<lparr>bw_core := w\<rparr>))"

text \<open>The gates come before the message is read: a pause, then one token per chunk.\<close>

definition batch_process_next ::
    "('o, 'n, 'r, 's, 'm, 'j) batch_runtime \<Rightarrow> batch_inputs \<Rightarrow> message option
      \<Rightarrow> ('o, 'n, 'r, 's, 'm, 'j) batch_world \<Rightarrow> process_result \<times> ('o, 'n, 'r, 's, 'm, 'j) batch_world" where
  "batch_process_next B I polled W =
     (case polled of
        None \<Rightarrow> (failed_pr ''idle'', W)
      | Some m \<Rightarrow>
      if msg_error m \<noteq> None then (failed_pr ''consume_error'', W)
      else if pz_paused (should_pause (bw_controls W) (be_lag I)) then (failed_pr ''paused'', W)
      else case try_acquire (be_ticks I 0) 1 (ct_rate_limiter (bw_controls W)) of
        (g, lm) \<Rightarrow>
      let W0 = W\<lparr>bw_controls := (bw_controls W)\<lparr>ct_rate_limiter := lm\<rparr>\<rparr> in
      if g < 1 then (failed_pr ''rate_limited'', W0)
      else case (case msg_doc m of None \<Rightarrow> Inl (ValueError ''Expecting value'') | Some d \<Rightarrow> bc_from_dict d) of
        Inl e \<Rightarrow> batch_dead_letter B (be_clock I 0) m ''deserialization_failed'' (Some e) W0
      | Inr ev \<Rightarrow>
          (case handle_batch_chunk B I ev W0 of
             (Inl e, W1) \<Rightarrow> (failed_pr ''infra_failed'', W1)
           | (Inr r, W1) \<Rightarrow>
               if bx_status r = ''ok'' then (committed_pr ''ok'', W1\<lparr>bw_core := commit (bw_core W1)\<rparr>)
               else if bx_status r = ''publish_failed'' then (failed_pr ''publish_failed'', W1)
               else batch_dead_letter B (be_clock I 0) m ''invalid_event'' (bx_error r) W1))"

text \<open>\<^verbatim>\<open>run\<close>; sleeping between turns has no effect on the state.\<close>

definition batch_run ::
    "('o, 'n, 'r, 's, 'm, 'j) batch_runtime \<Rightarrow> (nat \<Rightarrow> batch_inputs) \<Rightarrow> (nat \<Rightarrow> bool) \<Rightarrow> nat option
      \<Rightarrow> partition \<Rightarrow> ('o, 'n, 'r, 's, 'm, 'j) batch_world
      \<Rightarrow> process_result list \<times> partition \<times> ('o, 'n, 'r, 's, 'm, 'j) batch_world" where
  "batch_run B inputs stop limit p W =
     consume (\<lambda>i m W. batch_process_next B (inputs i) (Some m)
                (W\<lparr>bw_core := (bw_core W)\<lparr>w_committed := False\<rparr>\<rparr>)) stop limit 0 p W"

section \<open>The tally of a chunk\<close>

definition item_results ::
    "('o, 'n, 'r, 's, 'm, 'j) batch_runtime \<Rightarrow> 'm \<Rightarrow> view_def \<Rightarrow> string list \<Rightarrow> datetime \<Rightarrow> batch_item
      \<Rightarrow> feature_result list" where
  "item_results B raw v features now item =
     (case item_write_set B raw v features now item of Inr ws \<Rightarrow> dict_values (ws_results ws) | Inl _ \<Rightarrow> [])"

definition item_computes ::
    "('o, 'n, 'r, 's, 'm, 'j) batch_runtime \<Rightarrow> 'm \<Rightarrow> view_def \<Rightarrow> string list \<Rightarrow> datetime \<Rightarrow> batch_item \<Rightarrow> bool" where
  "item_computes B raw v features now item \<longleftrightarrow> \<not> isl (item_write_set B raw v features now item)"

lemma item_failed_bounded:
  "length (kt_errors t) \<le> max_first_errors \<Longrightarrow> length (kt_errors (item_failed e t)) \<le> max_first_errors"
  by (simp add: item_failed_def)

lemma ref_items_tally:
  assumes "fold_res (ref_item B raw v features now) items t = Inr t'" "length (kt_errors t) \<le> max_first_errors"
  shows "kt_results t' = kt_results t @ concat (map (item_results B raw v features now) items)
    \<and> kt_ok t' = kt_ok t + length (filter (item_computes B raw v features now) items)
    \<and> kt_ok t' + kt_failed t' = kt_ok t + kt_failed t + length items
    \<and> length (kt_errors t') \<le> max_first_errors"
  using assms
proof (induction items arbitrary: t)
  case (Cons item items)
  from Cons.prems(1) obtain t1 where t1: "ref_item B raw v features now item t = Inr t1"
    "fold_res (ref_item B raw v features now) items t1 = Inr t'" by auto
  have s: "kt_results t1 = kt_results t @ item_results B raw v features now item
    \<and> kt_ok t1 = kt_ok t + (if item_computes B raw v features now item then 1 else 0)
    \<and> kt_ok t1 + kt_failed t1 = kt_ok t + kt_failed t + 1 \<and> length (kt_errors t1) \<le> max_first_errors"
    using t1(1) Cons.prems(2) item_failed_bounded[of t]
    by (cases "item_write_set B raw v features now item")
      (auto simp: ref_item_def item_results_def item_computes_def item_done_def item_failed_def split: if_splits)
  with Cons.IH[OF t1(2)] show ?case by auto
qed simp

lemma inline_items_tally:
  assumes "inline_items B clock refs v features wo i items t W = (Inr t', W')" "length (kt_errors t) \<le> max_first_errors"
  shows "kt_ok t' + kt_failed t' = kt_ok t + kt_failed t + length items \<and> length (kt_errors t') \<le> max_first_errors"
  using assms
proof (induction items arbitrary: i t W)
  case (Cons item items)
  obtain r W1 where r: "inline_item B (clock i) (refs i) v features wo item W = (r, W1)"
    by (cases "inline_item B (clock i) (refs i) v features wo item W")
  show ?case
  proof (cases r)
    case (Inl e)
    with r Cons.prems(1) have c: "inline_items B clock refs v features wo (i + 1) items (item_failed e t) W1 = (Inr t', W')"
      by (auto split: if_splits)
    from Cons.IH[OF c item_failed_bounded[OF Cons.prems(2)]] show ?thesis by (simp add: item_failed_def)
  next
    case (Inr rs)
    with r Cons.prems(1) have c: "inline_items B clock refs v features wo (i + 1) items (item_done rs t) W1 = (Inr t', W')"
      by simp
    from Cons.IH[OF c] Cons.prems(2) show ?thesis by (simp add: item_done_def)
  qed
qed simp

section \<open>The refresh stays in its budget\<close>

definition tally_of :: "(string, int) dict \<Rightarrow> string \<Rightarrow> int" where
  "tally_of counts k = (case map_of counts k of Some n \<Rightarrow> n | None \<Rightarrow> 0)"

lemma tally_of_bump: "tally_of (bump k counts) k' = tally_of counts k' + (if k' = k then 1 else 0)"
  by (simp add: tally_of_def bump_def)

definition attempts_of :: "(string, int) dict \<Rightarrow> int" where
  "attempts_of counts = tally_of counts ''online_refresh_written'' + tally_of counts ''online_refresh_written_recompute''
     + tally_of counts ''online_refresh_skipped_stale'' + tally_of counts ''online_refresh_noop''
     + tally_of counts ''online_refresh_failed''"

lemma attempts_of_outcome: "attempts_of (bump (outcome_key out) counts) = attempts_of counts + 1"
  by (cases out) (simp_all add: attempts_of_def tally_of_bump)

lemma attempts_of_bump:
  "attempts_of (bump ''online_refresh_failed'' counts) = attempts_of counts + 1"
  "attempts_of (bump ''online_refresh_attempted'' counts) = attempts_of counts"
  "attempts_of (bump ''online_refresh_rate_limited'' counts) = attempts_of counts"
  by (simp_all add: attempts_of_def tally_of_bump)

text \<open>
  Every result is attempted or rate limited, every attempt has one outcome, the cap bounds the
  attempts, and a disabled limiter leaves the store alone.
\<close>

definition refresh_balanced :: "(string, int) dict \<Rightarrow> int \<Rightarrow> bool" where
  "refresh_balanced counts n \<longleftrightarrow>
     tally_of counts ''online_refresh_attempted'' + tally_of counts ''online_refresh_rate_limited'' = n
     \<and> attempts_of counts = tally_of counts ''online_refresh_attempted''"

lemma refresh_balanced_step:
  assumes "refresh_balanced counts n"
  shows "refresh_balanced (bump ''online_refresh_rate_limited'' counts) (n + 1)"
    "refresh_balanced (bump (outcome_key out) (bump ''online_refresh_attempted'' counts)) (n + 1)"
    "refresh_balanced (bump ''online_refresh_failed'' (bump ''online_refresh_attempted'' counts)) (n + 1)"
proof -
  show "refresh_balanced (bump ''online_refresh_rate_limited'' counts) (n + 1)"
    "refresh_balanced (bump ''online_refresh_failed'' (bump ''online_refresh_attempted'' counts)) (n + 1)"
    using assms by (simp_all add: refresh_balanced_def attempts_of_bump tally_of_bump)
  show "refresh_balanced (bump (outcome_key out) (bump ''online_refresh_attempted'' counts)) (n + 1)"
    using assms by (cases out) (simp_all add: refresh_balanced_def attempts_of_def tally_of_bump)
qed

lemma attempted_step:
  "tally_of (bump ''online_refresh_rate_limited'' c) ''online_refresh_attempted'' = tally_of c ''online_refresh_attempted''"
  "tally_of (bump (outcome_key out) c) ''online_refresh_attempted'' = tally_of c ''online_refresh_attempted''"
  "tally_of (bump ''online_refresh_failed'' c) ''online_refresh_attempted'' = tally_of c ''online_refresh_attempted''"
  "tally_of (bump ''online_refresh_attempted'' c) ''online_refresh_attempted'' = tally_of c ''online_refresh_attempted'' + 1"
  by (cases out; simp add: tally_of_bump)+

lemma refresh_online_budget:
  assumes "refresh_online write ticks cap view vv i rs counts lm on = (counts', lm', on')" "refresh_balanced counts n"
  shows "refresh_balanced counts' (n + int (length rs))
    \<and> (0 < cap \<longrightarrow> tally_of counts' ''online_refresh_attempted'' \<le>
         tally_of counts ''online_refresh_attempted'' + max 0 (cap - int i))
    \<and> (lm = Disabled \<longrightarrow> on' = on \<and> tally_of counts' ''online_refresh_attempted'' = tally_of counts ''online_refresh_attempted'')"
  using assms
proof (induction rs arbitrary: i counts lm on n)
  case (Cons r rs)
  let ?limited = "bump ''online_refresh_rate_limited'' counts" and ?att = "bump ''online_refresh_attempted'' counts"
  obtain g lm1 where g: "try_acquire (ticks i) 1 lm = (g, lm1)" by (cases "try_acquire (ticks i) 1 lm")
  consider (capped) "cap \<noteq> 0 \<and> cap \<le> int i" | (limited) "\<not> (cap \<noteq> 0 \<and> cap \<le> int i)" "g < 1"
    | (tried) "\<not> (cap \<noteq> 0 \<and> cap \<le> int i)" "\<not> g < 1" by blast
  then show ?case
  proof cases
    case capped
    with Cons.prems(1) have "refresh_online write ticks cap view vv (i + 1) rs ?limited lm on = (counts', lm', on')" by simp
    from Cons.IH[OF this refresh_balanced_step(1)[OF Cons.prems(2)]] show ?thesis
      by (auto simp: attempted_step algebra_simps)
  next
    case limited
    with Cons.prems(1) g have "refresh_online write ticks cap view vv (i + 1) rs ?limited lm1 on = (counts', lm', on')" by simp
    from Cons.IH[OF this refresh_balanced_step(1)[OF Cons.prems(2)]] g show ?thesis
      by (auto simp: attempted_step algebra_simps)
  next
    case tried
    have nd: "lm \<noteq> Disabled" using g tried(2) by auto
    obtain out on1 where o1: "write on view vv r = (out, on1)" by (cases "write on view vv r")
    let ?c = "case out of Inl e \<Rightarrow> bump ''online_refresh_failed'' ?att | Inr x \<Rightarrow> bump (outcome_key x) ?att"
    have step: "refresh_online write ticks cap view vv (i + 1) rs ?c lm1 on1 = (counts', lm', on')"
      using Cons.prems(1) g o1 tried by (auto simp: Let_def split: sum.splits)
    have b: "refresh_balanced ?c (n + 1)"
      using refresh_balanced_step(2,3)[OF Cons.prems(2)] by (cases out) simp_all
    have a: "tally_of ?c ''online_refresh_attempted'' = tally_of counts ''online_refresh_attempted'' + 1"
      by (cases out) (simp_all add: attempted_step)
    from Cons.IH[OF step b] a nd tried(1) show ?thesis by (auto simp: algebra_simps)
  qed
qed simp

section \<open>A committed chunk is stored\<close>

definition tokens_decide :: "(pyfloat \<Rightarrow> string) \<Rightarrow> feature_result list \<Rightarrow> bool" where
  "tokens_decide repr rs \<longleftrightarrow>
     (\<forall>r \<in> set rs. \<forall>r' \<in> set rs. value_token repr (r_value r) = value_token repr (r_value r') \<longrightarrow> r_value r = r_value r')"

context offline_ops
begin

lemma chunk_append_stored:
  assumes "inv s" "\<forall>r \<in> set rs. adm s view vv r \<and> self_equal (r_value r)" "tokens_decide repr rs"
    and "append_new ops repr s view vv rs = Inr (new, skipped, s')"
  shows "inv s' \<and> (\<forall>r \<in> set rs. exists_in_offline (get s') view vv r = Inr True)"
proof -
  from assms(4) have p: "partition_new_results repr (get s) view vv rs = Inr (new, skipped)"
    "so_append_many ops s view vv new = Inr s'" by (auto simp: append_new_def ops_get)
  have sv: "\<And>r r' a b. r \<in> set rs \<Longrightarrow> r' \<in> set rs \<Longrightarrow> signature repr r = Inr a
      \<Longrightarrow> signature repr r' = Inr b \<Longrightarrow> sig_eq a b \<Longrightarrow> r_value r = r_value r'"
  proof -
    fix r r' a b
    assume that: "r \<in> set rs" "r' \<in> set rs" "signature repr r = Inr a" "signature repr r' = Inr b" "sig_eq a b"
    have "value_token repr (r_value r) = value_token repr (r_value r')"
      using that(3-5) by (auto simp: signature_def sig_eq_def)
    with assms(3) that(1,2) show "r_value r = r_value r'" unfolding tokens_decide_def by blast
  qed
  have "\<exists>s1. append_all s view vv new = Inr s1 \<and> inv s1
      \<and> (\<forall>r \<in> set rs. exists_in_offline (get s1) view vv r = Inr True)"
    by (rule partition_durable[OF assms(1,2) _ p(1)]) (rule sv)
  then obtain s1 where s1: "append_all s view vv new = Inr s1" "inv s1"
    "\<forall>r \<in> set rs. exists_in_offline (get s1) view vv r = Inr True" by blast
  have "\<forall>r \<in> set new. adm s view vv r" using partition_new_resultsE(1)[OF p(1)] assms(2) by blast
  from ops_append[OF assms(1) this] p(2) s1 show ?thesis by simp
qed

end

section \<open>One turn\<close>

lemma safe_set_chunk_frame [simp]:
  "bw_core (safe_set_chunk B now j c W) = bw_core W" "bw_raw (safe_set_chunk B now j c W) = bw_raw W"
  "bw_controls (safe_set_chunk B now j c W) = bw_controls W"
  by (simp_all add: safe_set_chunk_def split: sum.split)

lemma guarded_refresh_frame:
  assumes "guarded_online_refresh B ticks view vv rs W = (counts, W')"
  shows "w_offline (bw_core W') = w_offline (bw_core W) \<and> w_broker (bw_core W') = w_broker (bw_core W)
    \<and> w_committed (bw_core W') = w_committed (bw_core W) \<and> bw_raw W' = bw_raw W
    \<and> refresh_balanced counts (int (length rs))
    \<and> (0 < ct_refresh_max (bw_controls W) \<longrightarrow>
         tally_of counts ''online_refresh_attempted'' \<le> ct_refresh_max (bw_controls W))
    \<and> (ct_refresh_limiter (bw_controls W) = Disabled \<longrightarrow> w_online (bw_core W') = w_online (bw_core W))"
proof -
  obtain lm on where r: "refresh_online (bt_write B) ticks (ct_refresh_max (bw_controls W)) view vv 0 rs
      (map (\<lambda>k. (k, 0)) refresh_keys) (ct_refresh_limiter (bw_controls W)) (w_online (bw_core W)) = (counts, lm, on)"
    "W' = W\<lparr>bw_controls := (bw_controls W)\<lparr>ct_refresh_limiter := lm\<rparr>, bw_core := (bw_core W)\<lparr>w_online := on\<rparr>\<rparr>"
    using assms by (auto simp: guarded_online_refresh_def split: prod.splits)
  have z: "tally_of (map (\<lambda>k. (k, 0)) refresh_keys) k = 0" for k
    by (simp add: tally_of_def refresh_keys_def)
  then have "refresh_balanced (map (\<lambda>k. (k, 0)) refresh_keys) 0"
    by (simp add: refresh_balanced_def attempts_of_def)
  from refresh_online_budget[OF r(1) this] z r(2) show ?thesis by auto
qed

text \<open>What a landed chunk that ends well has done.\<close>

lemma compute_ref_chunk_ok:
  assumes "compute_ref_chunk B I v features ev W = (Inr k, W')"
  shows "\<exists>t new skipped off ms. fold_res (ref_item B (bw_raw W) v features (be_clock I 2)) (bc_items ev) empty_chunk_tally = Inr t
    \<and> append_new (rt_stores (bt_core B)) (rt_repr (bt_core B)) (w_offline (bw_core W)) (v_name v) (v_version v)
        (kt_results t) = Inr (new, skipped, off)
    \<and> w_offline (bw_core W') = off \<and> w_committed (bw_core W') = w_committed (bw_core W)
    \<and> br_log (w_broker (bw_core W')) = br_log (w_broker (bw_core W)) @ ms
    \<and> (\<forall>x \<in> set ms. pb_topic x = ''fp.feature-updates'')
    \<and> ko_ok k = kt_ok t \<and> ko_failed k = kt_failed t \<and> ko_errors k = kt_errors t
    \<and> (bc_write_online ev = (ko_refresh k \<noteq> None))
    \<and> (\<not> bc_write_online ev \<or> ct_refresh_limiter (bw_controls W) = Disabled \<longrightarrow>
         w_online (bw_core W') = w_online (bw_core W))
    \<and> (\<forall>counts. ko_refresh k = Some counts \<longrightarrow> refresh_balanced counts (int (length (kt_results t)))
         \<and> (0 < ct_refresh_max (bw_controls W) \<longrightarrow>
              tally_of counts ''online_refresh_attempted'' \<le> ct_refresh_max (bw_controls W)))"
proof -
  let ?R = "bt_core B" and ?w = "bw_core W"
  obtain t where t: "fold_res (ref_item B (bw_raw W) v features (be_clock I 2)) (bc_items ev) empty_chunk_tally = Inr t"
    using assms by (auto simp: compute_ref_chunk_def Let_def split: sum.splits)
  obtain new skipped off where a: "append_new (rt_stores ?R) (rt_repr ?R) (w_offline ?w) (v_name v) (v_version v)
      (kt_results t) = Inr (new, skipped, off)"
    using assms t by (auto simp: compute_ref_chunk_def Let_def split: sum.splits)
  obtain r w1 where e: "emit_feature_updates (send_update ?R) (be_uuid I) v (kt_results t)
      (batch_emission v (bc_batch_job_id ev) (bc_manifest_id ev) (be_clock I 3)) (?w\<lparr>w_offline := off\<rparr>) = (r, w1)"
    by (cases "emit_feature_updates (send_update ?R) (be_uuid I) v (kt_results t)
      (batch_emission v (bc_batch_job_id ev) (bc_manifest_id ev) (be_clock I 3)) (?w\<lparr>w_offline := off\<rparr>)")
  from emit_updates_frame[OF e] obtain b ms where w1: "w1 = ?w\<lparr>w_offline := off, w_broker := b\<rparr>"
    "br_log b = br_log (w_broker ?w) @ ms" "\<forall>x \<in> set ms. pb_topic x = ''fp.feature-updates''"
    by (auto simp: grows_def)
  let ?out = "\<lparr>ko_ok = kt_ok t, ko_failed = kt_failed t, ko_errors = kt_errors t, ko_refresh = None\<rparr>"
  obtain n where n: "r = Inr n" using assms t a e by (cases r) (auto simp: compute_ref_chunk_def Let_def)
  show ?thesis
  proof (cases "bc_write_online ev")
    case False
    with assms t a e n have "k = ?out" "W' = W\<lparr>bw_core := w1\<rparr>"
      by (auto simp: compute_ref_chunk_def Let_def)
    with False t a w1 show ?thesis by auto
  next
    case True
    obtain counts W2 where g: "guarded_online_refresh B (\<lambda>i. be_ticks I (Suc i)) (v_name v) (v_version v) (kt_results t)
        (W\<lparr>bw_core := w1\<rparr>) = (counts, W2)"
      by (cases "guarded_online_refresh B (\<lambda>i. be_ticks I (Suc i)) (v_name v) (v_version v) (kt_results t)
        (W\<lparr>bw_core := w1\<rparr>)")
    with assms t a e n True have k: "k = ?out\<lparr>ko_refresh := Some counts\<rparr>" "W' = W2"
      by (auto simp: compute_ref_chunk_def Let_def)
    from guarded_refresh_frame[OF g] k True t a w1 show ?thesis by auto
  qed
qed

text \<open>Whatever happens, the log only grows and nothing but the turn commits.\<close>

definition log_kept :: "('o, 'n, 'r, 's) world \<Rightarrow> ('o, 'n, 'r, 's) world \<Rightarrow> bool" where
  "log_kept w w' \<longleftrightarrow> w_committed w' = w_committed w \<and> (\<exists>ms. br_log (w_broker w') = br_log (w_broker w) @ ms)"

lemma log_kept_refl [simp]: "log_kept w w"
  by (simp add: log_kept_def)

lemma log_kept_trans [trans]: "log_kept w w1 \<Longrightarrow> log_kept w1 w2 \<Longrightarrow> log_kept w w2"
  by (auto simp: log_kept_def)

lemma log_kept_stores [simp]: "log_kept w (w'\<lparr>w_offline := off\<rparr>) = log_kept w w'"
    "log_kept w (w'\<lparr>w_online := on\<rparr>) = log_kept w w'" "log_kept (w\<lparr>w_offline := off\<rparr>) w' = log_kept w w'"
  by (simp_all add: log_kept_def)

lemma emit_log_kept:
  "emit_feature_updates (send_update R) uuid v rs em w = (res, w') \<Longrightarrow> log_kept w w'"
  using emit_updates_frame[of R uuid v rs em w res w'] by (auto simp: log_kept_def grows_def)

lemma publish_log_kept: "publish_event R topic key doc w = (r, w') \<Longrightarrow> log_kept w w'"
proof -
  assume p: "publish_event R topic key doc w = (r, w')"
  have "\<exists>ms. br_log (snd (publish topic key (event_json (rt_repr R) doc) [] (w_broker w))) = br_log (w_broker w) @ ms"
    using publish_log[of topic key "event_json (rt_repr R) doc" "[]" "w_broker w"] by blast
  with p show "log_kept w w'" by (auto simp: publish_event_def log_kept_def split: prod.splits)
qed

lemma inline_item_log_kept:
  assumes "inline_item B now refs v features wo item W = (r, W')"
  shows "log_kept (bw_core W) (bw_core W')"
proof -
  have "log_kept (bw_core W) (bw_core (snd (persist_and_compute B now refs v ek sources features wo True W)))" for ek sources
    by (auto simp: persist_and_compute_def Let_def split: prod.split sum.split)
  with assms show ?thesis
    by (auto simp: inline_item_def split: sum.splits prod.splits) (metis snd_conv)+
qed

lemma inline_items_log_kept:
  assumes "inline_items B clock refs v features wo i items t W = (r, W')"
  shows "log_kept (bw_core W) (bw_core W')"
  using assms
proof (induction items arbitrary: i t W)
  case (Cons item items)
  obtain x W1 where x: "inline_item B (clock i) (refs i) v features wo item W = (x, W1)"
    by (cases "inline_item B (clock i) (refs i) v features wo item W")
  note first = inline_item_log_kept[OF x]
  show ?case
  proof (cases "\<exists>t1. inline_items B clock refs v features wo (i + 1) items t1 W1 = (r, W')")
    case True
    with Cons.IH first log_kept_trans show ?thesis by blast
  next
    case False
    with Cons.prems x have "W' = W1" by (auto split: sum.splits if_splits)
    with first show ?thesis by simp
  qed
qed simp

lemma chunk_log_kept:
  "compute_ref_chunk B I v features ev W = (r, W') \<Longrightarrow> log_kept (bw_core W) (bw_core W')"
  "compute_inline_chunk B I v features ev W = (r, W') \<Longrightarrow> log_kept (bw_core W) (bw_core W')"
proof -
  have g: "log_kept w (bw_core (snd (guarded_online_refresh B ticks view vv rs W1)))" if "log_kept w (bw_core W1)"
    for w ticks view vv rs W1
    using that by (auto simp: guarded_online_refresh_def split: prod.split)
  assume "compute_ref_chunk B I v features ev W = (r, W')"
  then show "log_kept (bw_core W) (bw_core W')"
    by (auto simp: compute_ref_chunk_def Let_def split: sum.splits prod.splits if_splits
        dest!: emit_log_kept) (metis g snd_conv batch_world.select_convs(1) batch_world.surjective batch_world.update_convs(1))+
next
  assume a: "compute_inline_chunk B I v features ev W = (r, W')"
  obtain x W1 where x: "inline_items B (\<lambda>i. be_clock I (i + 6)) (be_report_ref I) v features (bc_write_online ev) 0
             (bc_items ev) empty_chunk_tally W = (x, W1)" by fastforce
  from a x inline_items_log_kept[OF x] show "log_kept (bw_core W) (bw_core W')"
    by (auto simp: compute_inline_chunk_def split: sum.splits prod.splits dest!: emit_log_kept intro: log_kept_trans)
qed

section \<open>What a committed turn means\<close>

definition chunk_plan ::
    "('o, 'n, 'r, 's, 'm, 'j) batch_runtime \<Rightarrow> batch_chunk_requested \<Rightarrow> view_def \<Rightarrow> string list \<Rightarrow> bool" where
  "chunk_plan B ev v features \<longleftrightarrow>
     reg_find_view (fe_registry (rt_env (bt_core B))) (bc_view ev) (bc_view_version ev) = Inr v
     \<and> (\<exists>plan. plan_features v (bc_features ev) (bc_groups ev) False = Inr plan
          \<and> features = p_compute_features plan)"

text \<open>The last message of the log announces the chunk with outcome \<open>k\<close>.\<close>

definition chunk_announced ::
    "batch_chunk_requested \<Rightarrow> datetime \<Rightarrow> chunk_outcome \<Rightarrow> ('o, 'n, 'r, 's) world \<Rightarrow> ('o, 'n, 'r, 's) world \<Rightarrow> bool" where
  "chunk_announced ev finished k w w' \<longleftrightarrow>
     (\<exists>ms d. bp_to_dict (processed_event ev finished k) = Inr d
        \<and> br_log (w_broker w') = br_log (w_broker w) @ ms @
            [\<lparr>pb_topic = ''fp.batch.events'', pb_key = bc_batch_job_id ev, pb_doc = sort_keys d, pb_headers = []\<rparr>])"

lemma handle_chunk_cases:
  assumes "handle_batch_chunk B I ev W = (Inr r, W')"
  shows "bx_status r = ''invalid_event'' \<and> W' = W
    \<or> (\<exists>v features k W2. chunk_plan B ev v features
        \<and> (if is_ref_chunk ev then compute_ref_chunk else compute_inline_chunk) B I v features ev
            (safe_set_chunk B (be_clock I 1) (bc_batch_job_id ev) (running_report ev (be_clock I 1)) W) = (Inr k, W2)
        \<and> bx_status r \<in> {''ok'', ''publish_failed''} \<and> bx_ok_items r = ko_ok k \<and> bx_failed_items r = ko_failed k
        \<and> bx_refresh r = ko_refresh k
        \<and> w_offline (bw_core W') = w_offline (bw_core W2) \<and> w_online (bw_core W') = w_online (bw_core W2)
        \<and> log_kept (bw_core W2) (bw_core W') \<and> bw_raw W' = bw_raw W2
        \<and> (bx_status r = ''ok'' \<longrightarrow> chunk_announced ev (be_clock I 4) k (bw_core W2) (bw_core W')))"
proof -
  let ?p = "rbind (reg_find_view (fe_registry (rt_env (bt_core B))) (bc_view ev) (bc_view_version ev)) (\<lambda>v.
              rbind (plan_features v (bc_features ev) (bc_groups ev) False) (\<lambda>plan. Inr (v, plan)))"
  show ?thesis
  proof (cases ?p)
    case (Inl e)
    with assms show ?thesis by (auto simp: handle_batch_chunk_def Let_def split: if_splits)
  next
    case (Inr vp)
    obtain v plan where vp: "vp = (v, plan)" by (cases vp)
    let ?W1 = "safe_set_chunk B (be_clock I 1) (bc_batch_job_id ev) (running_report ev (be_clock I 1)) W"
    let ?run = "(if is_ref_chunk ev then compute_ref_chunk else compute_inline_chunk) B I v (p_compute_features plan) ev ?W1"
    have plan: "chunk_plan B ev v (p_compute_features plan)" using Inr vp by (auto simp: chunk_plan_def)
    obtain k W2 where k: "?run = (Inr k, W2)"
      using assms Inr vp by (auto simp: handle_batch_chunk_def Let_def split: sum.splits prod.splits if_splits)
    let ?W3 = "safe_set_chunk B (be_clock I 4) (bc_batch_job_id ev) (finished_report ev (be_clock I 4) k) W2"
    obtain pr w4 where p: "publish_event (bt_core B) ''fp.batch.events'' (bc_batch_job_id ev)
        (bp_to_dict (processed_event ev (be_clock I 4) k)) (bw_core ?W3) = (pr, w4)"
      by (cases "publish_event (bt_core B) ''fp.batch.events'' (bc_batch_job_id ev)
        (bp_to_dict (processed_event ev (be_clock I 4) k)) (bw_core ?W3)")
    have k': "(if is_ref_chunk ev then compute_ref_chunk B I v (p_compute_features plan) ev ?W1
        else compute_inline_chunk B I v (p_compute_features plan) ev ?W1) = (Inr k, W2)"
      using k by (auto split: if_splits)
    have w4: "w4 = (bw_core W2)\<lparr>w_broker := w_broker w4\<rparr>" using p by (auto simp: publish_event_def split: prod.splits)
    have "handle_batch_chunk B I ev W = (case publish_event (bt_core B) ''fp.batch.events'' (bc_batch_job_id ev)
        (bp_to_dict (processed_event ev (be_clock I 4) k)) (bw_core ?W3) of
          (Inl e, w4) \<Rightarrow> (Inr \<lparr>bx_status = ''publish_failed'', bx_chunk_id = bc_chunk_id ev, bx_ok_items = ko_ok k,
             bx_failed_items = ko_failed k, bx_first_errors = ko_errors k, bx_error = Some e,
             bx_refresh = ko_refresh k\<rparr>, ?W3\<lparr>bw_core := w4\<rparr>)
        | (Inr _, w4) \<Rightarrow> (Inr \<lparr>bx_status = ''ok'', bx_chunk_id = bc_chunk_id ev, bx_ok_items = ko_ok k,
             bx_failed_items = ko_failed k, bx_first_errors = ko_errors k, bx_error = None,
             bx_refresh = ko_refresh k\<rparr>, ?W3\<lparr>bw_core := w4\<rparr>))"
      by (simp only: handle_batch_chunk_def Let_def Inr vp sum.case prod.case k' batch_result.simps)
    with assms p have out: "W' = ?W3\<lparr>bw_core := w4\<rparr>" "bx_ok_items r = ko_ok k" "bx_failed_items r = ko_failed k"
      "bx_refresh r = ko_refresh k" "bx_status r = (if isl pr then ''publish_failed'' else ''ok'')"
      by (cases pr; auto)+
    have "chunk_announced ev (be_clock I 4) k (bw_core W2) w4" if "bx_status r = ''ok''"
    proof -
      from that out(5) obtain u where "pr = Inr u" by (cases pr) auto
      from publish_event_sent[OF p[unfolded this]] show ?thesis
        by (auto simp: chunk_announced_def grows_def intro!: exI[of _ "[]"])
    qed
    moreover have "log_kept (bw_core W2) w4" using publish_log_kept[OF p] by simp
    moreover have "w_offline w4 = w_offline (bw_core W2)" "w_online w4 = w_online (bw_core W2)"
      by (subst w4; simp)+
    ultimately show ?thesis using plan k out
      by (intro disjI2 exI[of _ v] exI[of _ "p_compute_features plan"] exI[of _ k] exI[of _ W2]) simp
  qed
qed

lemma handle_chunk_log_kept:
  assumes "handle_batch_chunk B I ev W = (r, W')"
  shows "log_kept (bw_core W) (bw_core W')"
proof (cases r)
  case (Inr x)
  from handle_chunk_cases[OF assms[unfolded Inr]] show ?thesis
  proof (elim disjE exE conjE)
    fix v features k W2
    assume c: "(if is_ref_chunk ev then compute_ref_chunk else compute_inline_chunk) B I v features ev
            (safe_set_chunk B (be_clock I 1) (bc_batch_job_id ev) (running_report ev (be_clock I 1)) W) = (Inr k, W2)"
      and l: "log_kept (bw_core W2) (bw_core W')"
    from c have "log_kept (bw_core W) (bw_core W2)" by (auto split: if_splits dest!: chunk_log_kept)
    then show ?thesis using l by (rule log_kept_trans)
  qed simp
next
  case (Inl e)
  with assms show ?thesis
    by (auto simp: handle_batch_chunk_def Let_def split: sum.splits prod.splits if_splits dest!: chunk_log_kept)
qed

lemma batch_turn_unfold:
  assumes "msg_error m = None" "\<not> pz_paused (should_pause (bw_controls W) (be_lag I))"
    and "try_acquire (be_ticks I 0) 1 (ct_rate_limiter (bw_controls W)) = (g, lm)" "\<not> g < 1"
    and "(case msg_doc m of None \<Rightarrow> Inl (ValueError ''Expecting value'') | Some d \<Rightarrow> bc_from_dict d) = Inr ev"
    and "handle_batch_chunk B I ev (W\<lparr>bw_controls := (bw_controls W)\<lparr>ct_rate_limiter := lm\<rparr>\<rparr>) = (hr, W1)"
  shows "batch_process_next B I (Some m) W = (case hr of
      Inl e \<Rightarrow> (failed_pr ''infra_failed'', W1)
    | Inr r \<Rightarrow> if bx_status r = ''ok'' then (committed_pr ''ok'', W1\<lparr>bw_core := commit (bw_core W1)\<rparr>)
        else if bx_status r = ''publish_failed'' then (failed_pr ''publish_failed'', W1)
        else batch_dead_letter B (be_clock I 0) m ''invalid_event'' (bx_error r) W1)"
  using assms by (simp add: batch_process_next_def split: sum.split)

text \<open>
  A turn commits exactly when it says so. A committed chunk is in the dead letters with both stores
  as they were, or it was computed and announced with counts that add up to its items; a paused or
  rate-limited message leaves stores, broker and job status alone.
\<close>

lemma batch_turn_accounts:
  assumes "batch_process_next B I (Some m) W = (pr, W')" "\<not> w_committed (bw_core W)"
  shows "(w_committed (bw_core W') \<longleftrightarrow> pr_committed pr)
    \<and> (\<exists>ms. br_log (w_broker (bw_core W')) = br_log (w_broker (bw_core W)) @ ms
         \<and> (pr_committed pr \<longrightarrow> pr_status pr = ''ok''
              \<or> pr_status pr = ''dead_lettered'' \<and> dead_lettered m ms
                \<and> w_offline (bw_core W') = w_offline (bw_core W) \<and> w_online (bw_core W') = w_online (bw_core W)))
    \<and> (pr_status pr \<in> {''paused'', ''rate_limited''} \<longrightarrow>
         bw_core W' = bw_core W \<and> bw_jobs W' = bw_jobs W \<and> bw_raw W' = bw_raw W)"
proof -
  obtain g lm where g: "try_acquire (be_ticks I 0) 1 (ct_rate_limiter (bw_controls W)) = (g, lm)"
    by (cases "try_acquire (be_ticks I 0) 1 (ct_rate_limiter (bw_controls W))")
  let ?W0 = "W\<lparr>bw_controls := (bw_controls W)\<lparr>ct_rate_limiter := lm\<rparr>\<rparr>"
  let ?doc = "case msg_doc m of None \<Rightarrow> Inl (ValueError ''Expecting value'') | Some d \<Rightarrow> bc_from_dict d"
  have dlq: ?thesis if "batch_dead_letter B now m status err ?W0 = (pr, W')" for now status err
  proof -
    from that obtain w where w: "to_dlq (bt_core B) now batch_topic ''batch_worker'' m status (map_option exc_text err)
        None None (bw_core W) = (pr, w)" "W' = ?W0\<lparr>bw_core := w\<rparr>"
      by (auto simp: batch_dead_letter_def split: prod.splits)
    from to_dlq_any[OF w(1)] assms(2) w(2) show ?thesis by (auto simp: grows_def)
  qed
  consider (error) "msg_error m \<noteq> None" | (paused) "msg_error m = None" "pz_paused (should_pause (bw_controls W) (be_lag I))"
    | (limited) "msg_error m = None" "\<not> pz_paused (should_pause (bw_controls W) (be_lag I))" "g < 1"
    | (go) "msg_error m = None" "\<not> pz_paused (should_pause (bw_controls W) (be_lag I))" "\<not> g < 1" by blast
  then show ?thesis
  proof cases
    case go
    show ?thesis
    proof (cases ?doc)
      case (Inl e)
      with assms(1) go g have "batch_dead_letter B (be_clock I 0) m ''deserialization_failed'' (Some e) ?W0 = (pr, W')"
        by (simp add: batch_process_next_def)
      then show ?thesis by (rule dlq)
    next
      case (Inr ev)
      obtain hr W1 where h: "handle_batch_chunk B I ev ?W0 = (hr, W1)" by (cases "handle_batch_chunk B I ev ?W0")
      from handle_chunk_log_kept[OF h] have kept: "log_kept (bw_core W) (bw_core W1)" by simp
      have out: "batch_process_next B I (Some m) W = (case hr of
             Inl e \<Rightarrow> (failed_pr ''infra_failed'', W1)
           | Inr r \<Rightarrow> if bx_status r = ''ok'' then (committed_pr ''ok'', W1\<lparr>bw_core := commit (bw_core W1)\<rparr>)
               else if bx_status r = ''publish_failed'' then (failed_pr ''publish_failed'', W1)
               else batch_dead_letter B (be_clock I 0) m ''invalid_event'' (bx_error r) W1)"
        by (rule batch_turn_unfold[OF go(1,2) g go(3) Inr h])
      consider "\<exists>e. hr = Inl e" | r where "hr = Inr r" "bx_status r \<in> {''ok'', ''publish_failed''}"
        | r where "hr = Inr r" "bx_status r \<notin> {''ok'', ''publish_failed''}" by (cases hr) auto
      then show ?thesis
      proof cases
        case 1
        with out assms kept show ?thesis by (auto simp: failed_pr_def log_kept_def)
      next
        case 2
        with out assms kept show ?thesis by (auto simp: failed_pr_def committed_pr_def log_kept_def split: if_splits)
      next
        case 3
        from handle_chunk_cases[OF h[unfolded 3(1)]] 3(2) have "W1 = ?W0" by auto
        with out assms(1) 3 dlq[of "be_clock I 0" "''invalid_event''" "bx_error r"] show ?thesis by simp
      qed
    qed
  qed (use assms g in \<open>auto simp: batch_process_next_def failed_pr_def\<close>)
qed

context offline_ops
begin

text \<open>A landed chunk that ends well is stored item by item, and its announcement counts it.\<close>

lemma batch_turn_stored:
  assumes "inv (w_offline (bw_core W))" "rt_stores (bt_core B) = ops"
    and "msg_doc m = Some d" "bc_from_dict d = Inr ev" "is_ref_chunk ev"
    and adm: "\<And>v features rs. chunk_plan B ev v features \<Longrightarrow>
        rs = concat (map (item_results B (bw_raw W) v features (be_clock I 2)) (bc_items ev)) \<Longrightarrow>
        (\<forall>r \<in> set rs. adm (w_offline (bw_core W)) (v_name v) (v_version v) r \<and> self_equal (r_value r))
        \<and> tokens_decide (rt_repr (bt_core B)) rs"
    and "batch_process_next B I (Some m) W = (pr, W')" "pr_status pr = ''ok''"
  shows "inv (w_offline (bw_core W')) \<and> (\<exists>v features k. chunk_plan B ev v features
    \<and> (\<forall>item \<in> set (bc_items ev). \<forall>r \<in> set (item_results B (bw_raw W) v features (be_clock I 2) item).
         exists_in_offline (get (w_offline (bw_core W'))) (v_name v) (v_version v) r = Inr True)
    \<and> chunk_announced ev (be_clock I 4) k (bw_core W) (bw_core W')
    \<and> ko_ok k = length (filter (item_computes B (bw_raw W) v features (be_clock I 2)) (bc_items ev))
    \<and> ko_ok k + ko_failed k = length (bc_items ev) \<and> length (ko_errors k) \<le> max_first_errors
    \<and> (\<not> bc_write_online ev \<or> ct_refresh_limiter (bw_controls W) = Disabled \<longrightarrow>
         w_online (bw_core W') = w_online (bw_core W)))"
proof -
  obtain g lm where g: "try_acquire (be_ticks I 0) 1 (ct_rate_limiter (bw_controls W)) = (g, lm)"
    by (cases "try_acquire (be_ticks I 0) 1 (ct_rate_limiter (bw_controls W))")
  let ?W0 = "W\<lparr>bw_controls := (bw_controls W)\<lparr>ct_rate_limiter := lm\<rparr>\<rparr>"
  have dlq: "pr_status p \<in> {''dead_lettered'', ''dlq_publish_failed''}"
    if "batch_dead_letter B now m status err V = (p, V')" for p now status err V V'
    using that to_dlq_any[of "bt_core B" now batch_topic "''batch_worker''" m status _ None None "bw_core V"]
    by (auto simp: batch_dead_letter_def split: prod.splits)
  have doc: "(case msg_doc m of None \<Rightarrow> Inl (ValueError ''Expecting value'') | Some d \<Rightarrow> bc_from_dict d) = Inr ev"
    using assms(3,4) by simp
  have gate: "msg_error m = None" "\<not> pz_paused (should_pause (bw_controls W) (be_lag I))" "\<not> g < 1"
    using assms(7,8) g by (auto simp: batch_process_next_def failed_pr_def Let_def split: if_splits)
  obtain hr W1 where hr: "handle_batch_chunk B I ev ?W0 = (hr, W1)" by (cases "handle_batch_chunk B I ev ?W0")
  note out = batch_turn_unfold[OF gate(1,2) g gate(3) doc hr]
  have "\<exists>r. hr = Inr r \<and> bx_status r = ''ok''"
  proof (cases hr)
    case (Inl e)
    with out assms(7,8) show ?thesis by (auto simp: failed_pr_def)
  next
    case (Inr r)
    with out assms(7,8) dlq[of "be_clock I 0" "''invalid_event''" "bx_error r" W1 pr W'] show ?thesis
      by (auto simp: failed_pr_def split: if_splits)
  qed
  then obtain r where h: "handle_batch_chunk B I ev ?W0 = (Inr r, W1)" "bx_status r = ''ok''"
    "W' = W1\<lparr>bw_core := commit (bw_core W1)\<rparr>"
    using out assms(7) hr by auto
  from handle_chunk_cases[OF h(1)] h(2) obtain v features k W2 where
    plan: "chunk_plan B ev v features" and
    run: "(if is_ref_chunk ev then compute_ref_chunk else compute_inline_chunk) B I v features ev
            (safe_set_chunk B (be_clock I 1) (bc_batch_job_id ev) (running_report ev (be_clock I 1)) ?W0) = (Inr k, W2)" and
    post: "w_offline (bw_core W1) = w_offline (bw_core W2)" "w_online (bw_core W1) = w_online (bw_core W2)"
      "chunk_announced ev (be_clock I 4) k (bw_core W2) (bw_core W1)" by auto
  let ?V = "safe_set_chunk B (be_clock I 1) (bc_batch_job_id ev) (running_report ev (be_clock I 1)) ?W0"
  have V: "bw_core ?V = bw_core W" "bw_raw ?V = bw_raw W"
    "ct_refresh_limiter (bw_controls ?V) = ct_refresh_limiter (bw_controls W)" by simp_all
  from run assms(5) have "compute_ref_chunk B I v features ev ?V = (Inr k, W2)" by simp
  from compute_ref_chunk_ok[OF this, unfolded V assms(2)] obtain t new skipped off ms where
    t: "fold_res (ref_item B (bw_raw W) v features (be_clock I 2)) (bc_items ev) empty_chunk_tally = Inr t" and
    a: "append_new ops (rt_repr (bt_core B)) (w_offline (bw_core W)) (v_name v) (v_version v) (kt_results t)
        = Inr (new, skipped, off)" "w_offline (bw_core W2) = off" and
    l: "br_log (w_broker (bw_core W2)) = br_log (w_broker (bw_core W)) @ ms" and
    k: "ko_ok k = kt_ok t" "ko_failed k = kt_failed t" "ko_errors k = kt_errors t" and
    on: "\<not> bc_write_online ev \<or> ct_refresh_limiter (bw_controls W) = Disabled \<longrightarrow>
         w_online (bw_core W2) = w_online (bw_core W)"
    by blast
  have "length (kt_errors empty_chunk_tally) \<le> max_first_errors" by (simp add: empty_chunk_tally_def)
  note tally = ref_items_tally[OF t this]
  have rs: "kt_results t = concat (map (item_results B (bw_raw W) v features (be_clock I 2)) (bc_items ev))"
    using tally by (simp add: empty_chunk_tally_def)
  note ok = adm[OF plan rs]
  from chunk_append_stored[OF assms(1) conjunct1[OF ok] conjunct2[OF ok] a(1)] have st: "inv off"
    "\<forall>r \<in> set (kt_results t). exists_in_offline (get off) (v_name v) (v_version v) r = Inr True" by blast+
  have "chunk_announced ev (be_clock I 4) k (bw_core W) (bw_core W')"
    using post(3) l h(3) by (auto simp: chunk_announced_def)
  moreover have "\<forall>item \<in> set (bc_items ev). \<forall>r \<in> set (item_results B (bw_raw W) v features (be_clock I 2) item).
      exists_in_offline (get (w_offline (bw_core W'))) (v_name v) (v_version v) r = Inr True"
    using st(2) rs post(1) a(2) h(3) by auto
  moreover have "inv (w_offline (bw_core W'))" using st(1) post(1) a(2) h(3) by simp
  moreover have "ko_ok k = length (filter (item_computes B (bw_raw W) v features (be_clock I 2)) (bc_items ev))"
    "ko_ok k + ko_failed k = length (bc_items ev)" "length (ko_errors k) \<le> max_first_errors"
    using tally k by (simp_all add: empty_chunk_tally_def)
  moreover have "\<not> bc_write_online ev \<or> ct_refresh_limiter (bw_controls W) = Disabled \<longrightarrow>
         w_online (bw_core W') = w_online (bw_core W)" using on post(2) h(3) by simp
  ultimately show ?thesis using plan by blast
qed

end

text \<open>
  The consumer reads past a paused message: when a later chunk commits, the committed position
  covers the paused one as well.
\<close>

lemma paused_chunk_overtaken:
  assumes "batch_run B inputs stop limit p W = (prs, p', W')" "pa_committed p \<le> pa_position p"
    and "i < j" "j < length prs" "pr_status (prs ! i) = ''paused''" "pr_committed (prs ! j)"
  shows "pa_position p + i < pa_committed p'"
  using consume_commits[OF assms(1)[unfolded batch_run_def] assms(2)] assms(3,4,6) by force

end
