(* ===== verification/MetadataStore.thy ===== *)
theory MetadataStore
  imports RawReports Events
begin

text \<open>
  The durable request projection (fs_core/stores/metadata.py): the snapshot of a request, its
  audit events, the non-regressing merge, and the in-memory and Postgres stores as one contract.
  The clock is a parameter.
\<close>

section \<open>Snapshots and audit events\<close>

definition terminal_request :: "string list" where
  "terminal_request = [''completed'', ''failed'']"

record request_metadata =
  qm_request_id :: string
  qm_updated_at :: datetime
  qm_job_id :: "string option"
  qm_status :: "string option"
  qm_entity_type :: "string option"
  qm_entity_key :: "(string, string) dict option"
  qm_view :: "string option"
  qm_view_version :: "int option"
  qm_features :: "string list"
  qm_groups :: "string list"
  qm_online_write_status :: "string option"
  qm_offline_write_status :: "string option"
  qm_created_at :: "datetime option"
  qm_finished_at :: "datetime option"
  qm_error :: "string option"

definition mk_request_metadata :: "request_metadata \<Rightarrow> request_metadata res" where
  "mk_request_metadata m =
     rbind (require_aware (qm_updated_at m)) (\<lambda>_.
     rbind (require_aware_opt (qm_created_at m)) (\<lambda>_.
     rbind (require_aware_opt (qm_finished_at m)) (\<lambda>_. Inr m)))"

text \<open>A snapshot with the dataclass defaults.\<close>

definition blank_metadata :: "string \<Rightarrow> datetime \<Rightarrow> request_metadata" where
  "blank_metadata request_id now =
     \<lparr>qm_request_id = request_id, qm_updated_at = now, qm_job_id = None, qm_status = None,
      qm_entity_type = None, qm_entity_key = None, qm_view = None, qm_view_version = None,
      qm_features = [], qm_groups = [], qm_online_write_status = None,
      qm_offline_write_status = None, qm_created_at = None, qm_finished_at = None, qm_error = None\<rparr>"

definition qm_to_dict :: "request_metadata \<Rightarrow> json" where
  "qm_to_dict m = JObj
     [(''request_id'', JStr (qm_request_id m)),
      (''job_id'', of_opt JStr (qm_job_id m)),
      (''status'', of_opt JStr (qm_status m)),
      (''entity_type'', of_opt JStr (qm_entity_type m)),
      (''entity_key'', of_opt of_str_dict (qm_entity_key m)),
      (''view'', of_opt JStr (qm_view m)),
      (''view_version'', of_opt JInt (qm_view_version m)),
      (''requested_features'', of_str_list (qm_features m)),
      (''requested_feature_groups'', of_str_list (qm_groups m)),
      (''online_write_status'', of_opt JStr (qm_online_write_status m)),
      (''offline_write_status'', of_opt JStr (qm_offline_write_status m)),
      (''created_at'', of_opt of_iso (qm_created_at m)),
      (''updated_at'', of_iso (qm_updated_at m)),
      (''finished_at'', of_opt of_iso (qm_finished_at m)),
      (''error'', of_opt JStr (qm_error m))]"

definition qm_from_dict :: "json \<Rightarrow> request_metadata res" where
  "qm_from_dict d =
     rbind (jget d ''entity_key'' JNull) (\<lambda>entity_key.
     rbind (str_item d ''request_id'') (\<lambda>request_id.
     rbind (iso_item d ''updated_at'') (\<lambda>updated_at.
     rbind (opt_str_get d ''job_id'') (\<lambda>job_id.
     rbind (opt_str_get d ''status'') (\<lambda>status.
     rbind (opt_str_get d ''entity_type'') (\<lambda>entity_type.
     rbind (as_opt as_str_dict entity_key) (\<lambda>entity_key.
     rbind (opt_str_get d ''view'') (\<lambda>view.
     rbind (opt_int_get d ''view_version'') (\<lambda>view_version.
     rbind (str_list_get d ''requested_features'') (\<lambda>features.
     rbind (str_list_get d ''requested_feature_groups'') (\<lambda>groups.
     rbind (opt_str_get d ''online_write_status'') (\<lambda>online.
     rbind (opt_str_get d ''offline_write_status'') (\<lambda>offline.
     rbind (opt_iso_get d ''created_at'') (\<lambda>created_at.
     rbind (opt_iso_get d ''finished_at'') (\<lambda>finished_at.
     rbind (opt_str_get d ''error'') (\<lambda>err.
     mk_request_metadata \<lparr>qm_request_id = request_id, qm_updated_at = updated_at,
        qm_job_id = job_id, qm_status = status, qm_entity_type = entity_type,
        qm_entity_key = entity_key, qm_view = view, qm_view_version = view_version,
        qm_features = features, qm_groups = groups, qm_online_write_status = online,
        qm_offline_write_status = offline, qm_created_at = created_at,
        qm_finished_at = finished_at, qm_error = err\<rparr>))))))))))))))))"

definition qm_wf :: "request_metadata \<Rightarrow> bool" where
  "qm_wf m \<longleftrightarrow> stamp (qm_updated_at m) \<and> stamp_opt (qm_created_at m) \<and> stamp_opt (qm_finished_at m)"

definition qm_normal :: "request_metadata \<Rightarrow> request_metadata" where
  "qm_normal m = m\<lparr>qm_entity_key := map_option (sort_key fst) (qm_entity_key m)\<rparr>"

lemma of_opt_dict_writes [simp]:
  "sort_keys (of_opt of_str_dict x) = of_opt of_str_dict (map_option (sort_key fst) x)"
  "json_plain (of_opt of_str_dict x)"
  "as_opt as_str_dict (of_opt of_str_dict x) = Inr x"
proof -
  show "sort_keys (of_opt of_str_dict x) = of_opt of_str_dict (map_option (sort_key fst) x)"
    by (cases x) (simp_all add: of_opt_def)
  show "json_plain (of_opt of_str_dict x)" by (cases x) (simp_all add: of_opt_def)
  show "as_opt as_str_dict (of_opt of_str_dict x) = Inr x"
    by (cases x) (simp_all add: of_opt_def as_opt_def of_str_dict_def
        as_str_dict_of_str_dict[unfolded of_str_dict_def])
qed

lemma stamp_aware: "stamp t \<Longrightarrow> aware t"
  by (simp add: stamp_def)

lemma qm_read:
  assumes "qm_wf m"
  shows "qm_from_dict (sort_keys (qm_to_dict m)) = Inr (qm_normal m)"
  using assms unfolding qm_from_dict_def qm_to_dict_def qm_wf_def qm_normal_def field_reads
  by (cases "qm_created_at m"; cases "qm_finished_at m")
    (simp_all add: mk_request_metadata_def stamp_def stamp_opt_def)

interpretation qm: codec "\<lambda>m. Inr (qm_to_dict m)" qm_from_dict qm_wf qm_normal
  by unfold_locales
    (simp_all add: qm_read, simp_all add: qm_to_dict_def qm_normal_def qm_wf_def option.map_comp comp_def)

record request_event =
  qe_event_hash :: string
  qe_event_type :: string
  qe_occurred_at :: datetime
  qe_created_at :: datetime
  qe_request_id :: json  \<comment> \<open>JNull: none\<close>
  qe_summary :: "(string, json) dict"

definition mk_request_event :: "request_event \<Rightarrow> request_event res" where
  "mk_request_event e =
     rbind (require_aware (qe_occurred_at e)) (\<lambda>_.
     rbind (require_aware (qe_created_at e)) (\<lambda>_. Inr e))"

definition qe_to_dict :: "request_event \<Rightarrow> json" where
  "qe_to_dict e = JObj
     [(''event_hash'', JStr (qe_event_hash e)),
      (''event_type'', JStr (qe_event_type e)),
      (''occurred_at'', of_iso (qe_occurred_at e)),
      (''created_at'', of_iso (qe_created_at e)),
      (''request_id'', qe_request_id e),
      (''summary'', JObj (qe_summary e))]"

definition qe_from_dict :: "json \<Rightarrow> request_event res" where
  "qe_from_dict d =
     rbind (str_item d ''event_hash'') (\<lambda>h.
     rbind (str_item d ''event_type'') (\<lambda>t.
     rbind (iso_item d ''occurred_at'') (\<lambda>occurred_at.
     rbind (iso_item d ''created_at'') (\<lambda>created_at.
     rbind (jget d ''request_id'' JNull) (\<lambda>request_id.
     rbind (rbind (jget d ''summary'' (JObj [])) as_obj) (\<lambda>summary.
     mk_request_event \<lparr>qe_event_hash = h, qe_event_type = t, qe_occurred_at = occurred_at,
        qe_created_at = created_at, qe_request_id = request_id, qe_summary = summary\<rparr>))))))"

definition qe_wf :: "request_event \<Rightarrow> bool" where
  "qe_wf e \<longleftrightarrow> stamp (qe_occurred_at e) \<and> stamp (qe_created_at e) \<and> json_plain (qe_request_id e)
     \<and> json_plain (JObj (qe_summary e))"

definition qe_normal :: "request_event \<Rightarrow> request_event" where
  "qe_normal e = e\<lparr>qe_request_id := sort_keys (qe_request_id e), qe_summary := sort_items (qe_summary e)\<rparr>"

lemma qe_read:
  assumes "qe_wf e"
  shows "qe_from_dict (sort_keys (qe_to_dict e)) = Inr (qe_normal e)"
  using assms unfolding qe_from_dict_def qe_to_dict_def qe_wf_def qe_normal_def field_reads
  by (simp add: mk_request_event_def stamp_aware)

lemma qe_plain: "qe_wf e \<Longrightarrow> json_plain (qe_to_dict e)"
  by (auto simp: qe_to_dict_def qe_wf_def)

lemma qe_normal_wf: "qe_wf e \<Longrightarrow> qe_wf (qe_normal e)"
  using json_plain_sort_keys[of "JObj (qe_summary e)"] by (simp add: qe_wf_def qe_normal_def sort_keys_obj)

interpretation qe: codec "\<lambda>e. Inr (qe_to_dict e)" qe_from_dict qe_wf qe_normal
  by unfold_locales (simp_all add: qe_read qe_plain qe_normal_wf, simp add: qe_normal_def)

definition metadata_ok :: "request_metadata \<Rightarrow> bool" where
  "metadata_ok m \<longleftrightarrow> aware (qm_updated_at m) \<and> aware_opt (qm_created_at m) \<and> aware_opt (qm_finished_at m)"

lemma mk_request_metadata_iff: "mk_request_metadata m = Inr m' \<longleftrightarrow> m' = m \<and> metadata_ok m"
  by (cases "qm_created_at m"; cases "qm_finished_at m") (auto simp: mk_request_metadata_def metadata_ok_def)

section \<open>The merge\<close>

definition pick :: "'a option \<Rightarrow> 'a option \<Rightarrow> 'a option" where
  "pick inc ex = (if inc \<noteq> None then inc else ex)"

definition merged_status :: "string option \<Rightarrow> string option \<Rightarrow> string option" where
  "merged_status existing incoming =
     (if incoming = None then existing
      else if existing \<in> Some ` set terminal_request \<and> incoming \<in> {None, Some ''accepted'', Some ''running''}
      then existing else incoming)"

definition merge_request ::
    "datetime \<Rightarrow> request_metadata \<Rightarrow> request_metadata \<Rightarrow> request_metadata res" where
  "merge_request now ex inc = mk_request_metadata
     \<lparr>qm_request_id = qm_request_id ex, qm_updated_at = now,
      qm_job_id = pick (qm_job_id inc) (qm_job_id ex),
      qm_status = merged_status (qm_status ex) (qm_status inc),
      qm_entity_type = pick (qm_entity_type inc) (qm_entity_type ex),
      qm_entity_key = pick (qm_entity_key inc) (qm_entity_key ex),
      qm_view = pick (qm_view inc) (qm_view ex),
      qm_view_version = pick (qm_view_version inc) (qm_view_version ex),
      qm_features = (if qm_features inc \<noteq> [] then qm_features inc else qm_features ex),
      qm_groups = (if qm_groups inc \<noteq> [] then qm_groups inc else qm_groups ex),
      qm_online_write_status = pick (qm_online_write_status inc) (qm_online_write_status ex),
      qm_offline_write_status = pick (qm_offline_write_status inc) (qm_offline_write_status ex),
      qm_created_at = (if qm_created_at ex \<noteq> None then qm_created_at ex else qm_created_at inc),
      qm_finished_at = pick (qm_finished_at inc) (qm_finished_at ex),
      qm_error = pick (qm_error inc) (qm_error ex)\<rparr>"

lemma merge_request_Inr:
  "merge_request now ex inc = Inr m \<Longrightarrow>
    metadata_ok m \<and> qm_request_id m = qm_request_id ex \<and> qm_status m = merged_status (qm_status ex) (qm_status inc)"
  by (auto simp: merge_request_def mk_request_metadata_iff)

section \<open>The stores\<close>

text \<open>Both stores read, merge and write one row; the two row operations are what differs.\<close>

record 's request_rows =
  qr_get :: "'s \<Rightarrow> string \<Rightarrow> request_metadata option res"
  qr_put :: "request_metadata \<Rightarrow> 's \<Rightarrow> 's"

definition upsert_request ::
    "'s request_rows \<Rightarrow> datetime \<Rightarrow> request_metadata \<Rightarrow> 's \<Rightarrow> unit res \<times> 's" where
  "upsert_request R now m s =
     (case rbind (qr_get R s (qm_request_id m)) (\<lambda>existing.
            case existing of
              None \<Rightarrow> mk_request_metadata (m\<lparr>qm_updated_at := now,
                qm_created_at := (if qm_created_at m \<noteq> None then qm_created_at m else Some now)\<rparr>)
            | Some ex \<Rightarrow> merge_request now ex m) of
        Inl e \<Rightarrow> (Inl e, s)
      | Inr merged \<Rightarrow> (Inr (), qr_put R merged s))"

record mem_requests =
  mq_requests :: "(string, request_metadata) dict"
  mq_hashes :: "string set"

definition mem_requests_rows :: "mem_requests request_rows" where
  "mem_requests_rows =
     \<lparr>qr_get = (\<lambda>s i. Inr (map_of (mq_requests s) i)),
      qr_put = (\<lambda>m s. s\<lparr>mq_requests := dict_set (qm_request_id m) m (mq_requests s)\<rparr>)\<rparr>"

definition mem_append_event :: "request_event \<Rightarrow> mem_requests \<Rightarrow> bool res \<times> mem_requests" where
  "mem_append_event e s =
     (if qe_event_hash e \<in> mq_hashes s then (Inr False, s)
      else (Inr True, s\<lparr>mq_hashes := insert (qe_event_hash e) (mq_hashes s)\<rparr>))"

text \<open>Rows of \<^verbatim>\<open>feature_requests\<close> and \<^verbatim>\<open>request_events\<close>; JSON columns hold what they read back as.\<close>

record request_row =
  qw_request_id :: string
  qw_job_id :: "string option"
  qw_status :: "string option"
  qw_entity_type :: "string option"
  qw_entity_key :: "(string, string) dict option"
  qw_view :: "string option"
  qw_view_version :: "int option"
  qw_features :: "string list"
  qw_groups :: "string list"
  qw_online_write_status :: "string option"
  qw_offline_write_status :: "string option"
  qw_created_at :: "int option"
  qw_updated_at :: int
  qw_finished_at :: "int option"
  qw_error :: "string option"

record event_row =
  ev_event_hash :: string
  ev_request_id :: json
  ev_event_type :: string
  ev_occurred_at :: int
  ev_summary :: "(string, json) dict"
  ev_created_at :: int

record pg_requests =
  pq_requests :: "(string, request_row) dict"  \<comment> \<open>PRIMARY KEY (request_id)\<close>
  pq_events :: "(string, event_row) dict"  \<comment> \<open>UNIQUE (event_hash)\<close>

definition request_to_params :: "pg \<Rightarrow> request_metadata \<Rightarrow> request_row" where
  "request_to_params P m =
     \<lparr>qw_request_id = qm_request_id m, qw_job_id = qm_job_id m, qw_status = qm_status m,
      qw_entity_type = qm_entity_type m, qw_entity_key = qm_entity_key m, qw_view = qm_view m,
      qw_view_version = qm_view_version m, qw_features = qm_features m, qw_groups = qm_groups m,
      qw_online_write_status = qm_online_write_status m,
      qw_offline_write_status = qm_offline_write_status m,
      qw_created_at = map_option (pg_instant P) (qm_created_at m),
      qw_updated_at = pg_instant P (qm_updated_at m),
      qw_finished_at = map_option (pg_instant P) (qm_finished_at m), qw_error = qm_error m\<rparr>"

definition request_of_row :: "pg \<Rightarrow> request_row \<Rightarrow> request_metadata" where
  "request_of_row P r =
     \<lparr>qm_request_id = qw_request_id r, qm_updated_at = pg_datetime P (qw_updated_at r),
      qm_job_id = qw_job_id r, qm_status = qw_status r, qm_entity_type = qw_entity_type r,
      qm_entity_key = qw_entity_key r, qm_view = qw_view r, qm_view_version = qw_view_version r,
      qm_features = qw_features r, qm_groups = qw_groups r,
      qm_online_write_status = qw_online_write_status r,
      qm_offline_write_status = qw_offline_write_status r,
      qm_created_at = map_option (pg_datetime P) (qw_created_at r),
      qm_finished_at = map_option (pg_datetime P) (qw_finished_at r), qm_error = qw_error r\<rparr>"

definition row_to_request :: "pg \<Rightarrow> request_row \<Rightarrow> request_metadata res" where
  "row_to_request P r = mk_request_metadata (request_of_row P r)"

definition event_to_params :: "pg \<Rightarrow> request_event \<Rightarrow> event_row" where
  "event_to_params P e =
     \<lparr>ev_event_hash = qe_event_hash e, ev_request_id = qe_request_id e,
      ev_event_type = qe_event_type e, ev_occurred_at = pg_instant P (qe_occurred_at e),
      ev_summary = qe_summary e, ev_created_at = pg_instant P (qe_created_at e)\<rparr>"

definition pg_requests_rows :: "pg \<Rightarrow> pg_requests request_rows" where
  "pg_requests_rows P =
     \<lparr>qr_get = (\<lambda>s i. case map_of (pq_requests s) i of
         None \<Rightarrow> Inr None | Some r \<Rightarrow> rbind (row_to_request P r) (\<lambda>m. Inr (Some m))),
      qr_put = (\<lambda>m s. s\<lparr>pq_requests :=
         dict_set (qm_request_id m) (request_to_params P m) (pq_requests s)\<rparr>)\<rparr>"

text \<open>\<^verbatim>\<open>INSERT ... ON CONFLICT (event_hash) DO NOTHING\<close>.\<close>

definition pg_append_event :: "pg \<Rightarrow> request_event \<Rightarrow> pg_requests \<Rightarrow> bool res \<times> pg_requests" where
  "pg_append_event P e s =
     (case map_of (pq_events s) (qe_event_hash e) of
        Some _ \<Rightarrow> (Inr False, s)
      | None \<Rightarrow> (Inr True, s\<lparr>pq_events := dict_set (qe_event_hash e) (event_to_params P e) (pq_events s)\<rparr>))"

section \<open>The contract\<close>

text \<open>
  \<open>req\<close> is the snapshot as it reads, \<open>logged\<close> the hashes of the audit log.
\<close>

locale request_store =
  fixes R :: "'s request_rows"
    and append_event :: "request_event \<Rightarrow> 's \<Rightarrow> bool res \<times> 's"
    and ok :: "'s \<Rightarrow> bool"
    and req :: "'s \<Rightarrow> string \<Rightarrow> request_metadata option"
    and logged :: "'s \<Rightarrow> string set"
  assumes read: "ok s \<Longrightarrow> qr_get R s i = Inr (req s i)"
    and req_id: "ok s \<Longrightarrow> req s i = Some m \<Longrightarrow> qm_request_id m = i"
    and put: "ok s \<Longrightarrow> metadata_ok m \<Longrightarrow> ok (qr_put R m s) \<and> logged (qr_put R m s) = logged s
      \<and> (\<exists>m'. qm_request_id m' = qm_request_id m \<and> qm_status m' = qm_status m
           \<and> req (qr_put R m s) = (req s)(qm_request_id m \<mapsto> m'))"
    and append: "ok s \<Longrightarrow> \<exists>s'. append_event e s = (Inr (qe_event_hash e \<notin> logged s), s') \<and> ok s'
      \<and> req s' = req s \<and> logged s' = insert (qe_event_hash e) (logged s)
      \<and> (qe_event_hash e \<in> logged s \<longrightarrow> s' = s)"
begin

definition finished :: "'s \<Rightarrow> string \<Rightarrow> bool" where
  "finished s i \<longleftrightarrow> (\<exists>m. req s i = Some m \<and> qm_status m \<in> Some ` set terminal_request)"

text \<open>An upsert keeps the log, and no finished request becomes unfinished.\<close>

lemma upsert_keeps:
  assumes "ok s" "qm_status m \<in> {None, Some ''accepted'', Some ''running''} \<union> Some ` set terminal_request"
    and r: "upsert_request R now m s = (r, s')"
  shows "ok s' \<and> logged s' = logged s \<and> (\<forall>i. finished s i \<longrightarrow> finished s' i)"
proof (cases r)
  case (Inl e)
  with r assms(1) show ?thesis by (auto simp: upsert_request_def split: sum.splits)
next
  case (Inr u)
  then obtain merged where m: "metadata_ok merged" "s' = qr_put R merged s" "qm_request_id merged = qm_request_id m"
    "\<forall>ex. req s (qm_request_id m) = Some ex \<longrightarrow> qm_status merged = merged_status (qm_status ex) (qm_status m)"
    using r req_id[OF assms(1)]
    by (auto simp: upsert_request_def read[OF assms(1)] mk_request_metadata_iff dest: merge_request_Inr
        split: sum.splits option.splits)
  from put[OF assms(1) m(1)] m(2,3) obtain m' where p: "ok s'" "logged s' = logged s"
    "qm_status m' = qm_status merged" "req s' = (req s)(qm_request_id m \<mapsto> m')" by auto
  have "finished s' i" if "finished s i" for i
  proof (cases "i = qm_request_id m")
    case True
    with that obtain ex where ex: "req s (qm_request_id m) = Some ex" "qm_status ex \<in> Some ` set terminal_request"
      by (auto simp: finished_def)
    then have "qm_status merged \<in> Some ` set terminal_request"
      using m(4) assms(2) by (auto simp: merged_status_def)
    with True p show ?thesis by (simp add: finished_def)
  qed (use that p in \<open>simp add: finished_def\<close>)
  with p show ?thesis by blast
qed

end

definition mem_requests_ok :: "mem_requests \<Rightarrow> bool" where
  "mem_requests_ok s \<longleftrightarrow> (\<forall>i m. map_of (mq_requests s) i = Some m \<longrightarrow> qm_request_id m = i)"

interpretation memreq: request_store mem_requests_rows mem_append_event mem_requests_ok
  "\<lambda>s. map_of (mq_requests s)" mq_hashes
  by unfold_locales
    (auto simp: mem_requests_rows_def mem_append_event_def mem_requests_ok_def)

definition pg_requests_ok :: "pg \<Rightarrow> pg_requests \<Rightarrow> bool" where
  "pg_requests_ok P s \<longleftrightarrow>
     pg_laws P \<and> (\<forall>i r. map_of (pq_requests s) i = Some r \<longrightarrow> qw_request_id r = i)"

definition pg_request :: "pg \<Rightarrow> pg_requests \<Rightarrow> string \<Rightarrow> request_metadata option" where
  "pg_request P s i = map_option (request_of_row P) (map_of (pq_requests s) i)"

lemma request_of_row_ok: "pg_laws P \<Longrightarrow> metadata_ok (request_of_row P r)"
  by (cases "qw_created_at r"; cases "qw_finished_at r") (auto simp: metadata_ok_def request_of_row_def pg_laws_def)

interpretation pgreq: request_store "pg_requests_rows P" "pg_append_event P" "pg_requests_ok P"
  "pg_request P" "\<lambda>s. dom (map_of (pq_events s))" for P
proof unfold_locales
  fix s i
  assume "pg_requests_ok P s"
  then have "pg_laws P" by (simp add: pg_requests_ok_def)
  then show "qr_get (pg_requests_rows P) s i = Inr (pg_request P s i)"
    by (simp add: pg_requests_rows_def pg_request_def row_to_request_def request_of_row_ok
        mk_request_metadata_iff[THEN iffD2] split: option.split)
next
  fix s i m
  assume "pg_requests_ok P s" "pg_request P s i = Some m"
  then show "qm_request_id m = i"
    by (auto simp: pg_requests_ok_def pg_request_def request_of_row_def)
next
  fix s m
  assume s: "pg_requests_ok P s"
  let ?m = "request_of_row P (request_to_params P m)"
  have "qm_request_id ?m = qm_request_id m" "qm_status ?m = qm_status m"
    by (simp_all add: request_of_row_def request_to_params_def)
  with s show "pg_requests_ok P (qr_put (pg_requests_rows P) m s)
      \<and> dom (map_of (pq_events (qr_put (pg_requests_rows P) m s))) = dom (map_of (pq_events s))
      \<and> (\<exists>m'. qm_request_id m' = qm_request_id m \<and> qm_status m' = qm_status m
           \<and> pg_request P (qr_put (pg_requests_rows P) m s) = (pg_request P s)(qm_request_id m \<mapsto> m'))"
    by (intro conjI exI[of _ ?m])
      (auto simp: pg_requests_rows_def pg_requests_ok_def pg_request_def fun_eq_iff request_to_params_def)
next
  fix s e
  assume "pg_requests_ok P s"
  then show "\<exists>s'. pg_append_event P e s = (Inr (qe_event_hash e \<notin> dom (map_of (pq_events s))), s')
      \<and> pg_requests_ok P s' \<and> pg_request P s' = pg_request P s
      \<and> dom (map_of (pq_events s')) = insert (qe_event_hash e) (dom (map_of (pq_events s)))
      \<and> (qe_event_hash e \<in> dom (map_of (pq_events s)) \<longrightarrow> s' = s)"
    by (cases "map_of (pq_events s) (qe_event_hash e)")
      (auto simp: pg_append_event_def pg_requests_ok_def pg_request_def fun_eq_iff)
qed

end
