(* ===== verification/BatchMetadata.thy ===== *)
theory BatchMetadata
  imports RawReports BatchStatus
begin

text \<open>
  The durable batch projection (fs_core/stores/batch_metadata.py): chunk and job rows, their
  merge rules, the in-memory and the Postgres store as one contract over the rows. The clock is
  a parameter; every \<^verbatim>\<open>datetime.now\<close> of an operation has its own reading.
\<close>

section \<open>Rows\<close>

record chunk_record =
  kc_chunk_id :: string
  kc_job_id :: string
  kc_chunk_index :: int
  kc_chunk_count :: int
  kc_status :: string
  kc_item_count :: int
  kc_created_at :: datetime
  kc_updated_at :: datetime
  kc_ok_items :: int
  kc_failed_items :: int
  kc_first_errors :: "string list"
  kc_finished_at :: "datetime option"

definition mk_chunk_record :: "chunk_record \<Rightarrow> chunk_record res" where
  "mk_chunk_record c =
     rbind (require_aware (kc_created_at c)) (\<lambda>_.
     rbind (require_aware (kc_updated_at c)) (\<lambda>_.
     rbind (require_aware_opt (kc_finished_at c)) (\<lambda>_. Inr c)))"

definition kc_to_dict :: "chunk_record \<Rightarrow> json" where
  "kc_to_dict c = JObj
     [(''chunk_id'', JStr (kc_chunk_id c)),
      (''job_id'', JStr (kc_job_id c)),
      (''chunk_index'', JInt (kc_chunk_index c)),
      (''chunk_count'', JInt (kc_chunk_count c)),
      (''status'', JStr (kc_status c)),
      (''item_count'', JInt (kc_item_count c)),
      (''ok_items'', JInt (kc_ok_items c)),
      (''failed_items'', JInt (kc_failed_items c)),
      (''first_errors'', of_str_list (kc_first_errors c)),
      (''created_at'', of_iso (kc_created_at c)),
      (''updated_at'', of_iso (kc_updated_at c)),
      (''finished_at'', of_opt of_iso (kc_finished_at c))]"

definition kc_from_dict :: "json \<Rightarrow> chunk_record res" where
  "kc_from_dict d =
     rbind (str_item d ''chunk_id'') (\<lambda>chunk_id.
     rbind (str_item d ''job_id'') (\<lambda>job_id.
     rbind (int_item d ''chunk_index'') (\<lambda>chunk_index.
     rbind (int_item d ''chunk_count'') (\<lambda>chunk_count.
     rbind (str_item d ''status'') (\<lambda>status.
     rbind (int_item d ''item_count'') (\<lambda>item_count.
     rbind (iso_item d ''created_at'') (\<lambda>created_at.
     rbind (iso_item d ''updated_at'') (\<lambda>updated_at.
     rbind (int_get d ''ok_items'' 0) (\<lambda>ok_items.
     rbind (int_get d ''failed_items'' 0) (\<lambda>failed_items.
     rbind (str_list_get d ''first_errors'') (\<lambda>first_errors.
     rbind (opt_iso_get d ''finished_at'') (\<lambda>finished_at.
     mk_chunk_record \<lparr>kc_chunk_id = chunk_id, kc_job_id = job_id, kc_chunk_index = chunk_index,
        kc_chunk_count = chunk_count, kc_status = status, kc_item_count = item_count,
        kc_created_at = created_at, kc_updated_at = updated_at, kc_ok_items = ok_items,
        kc_failed_items = failed_items, kc_first_errors = first_errors,
        kc_finished_at = finished_at\<rparr>))))))))))))"

definition kc_wf :: "chunk_record \<Rightarrow> bool" where
  "kc_wf c \<longleftrightarrow> stamp (kc_created_at c) \<and> stamp (kc_updated_at c) \<and> stamp_opt (kc_finished_at c)"

lemma mk_chunk_record_iff:
  "mk_chunk_record c = Inr c' \<longleftrightarrow>
     c' = c \<and> aware (kc_created_at c) \<and> aware (kc_updated_at c) \<and> aware_opt (kc_finished_at c)"
  by (cases "kc_finished_at c") (auto simp: mk_chunk_record_def )

interpretation kc: codec "\<lambda>c. Inr (kc_to_dict c)" kc_from_dict kc_wf "\<lambda>c. c"
proof unfold_locales
  fix c
  assume "kc_wf c"
  then have "kc_from_dict (sort_keys (kc_to_dict c)) = Inr c"
    unfolding kc_from_dict_def kc_to_dict_def kc_wf_def field_reads
    by (cases "kc_finished_at c") (simp_all add: mk_chunk_record_def stamp_def stamp_opt_def)
  then show "\<exists>d. Inr (kc_to_dict c) = Inr d \<and> json_plain d \<and> kc_from_dict (sort_keys d) = Inr c"
    by (simp add: kc_to_dict_def)
qed simp_all

record job_record =
  kj_job_id :: string
  kj_status :: string
  kj_created_at :: datetime
  kj_updated_at :: datetime
  kj_view :: "string option"
  kj_view_version :: "int option"
  kj_features :: "string list"
  kj_groups :: "string list"
  kj_total_items :: int
  kj_chunk_count :: int
  kj_write_online :: bool
  kj_finished_at :: "datetime option"
  kj_error_summary :: "(string, json) dict"
  kj_manifest_id :: "string option"
  kj_manifest_ids :: "string list"

definition mk_job_record :: "job_record \<Rightarrow> job_record res" where
  "mk_job_record j =
     rbind (require_aware (kj_created_at j)) (\<lambda>_.
     rbind (require_aware (kj_updated_at j)) (\<lambda>_.
     rbind (require_aware_opt (kj_finished_at j)) (\<lambda>_. Inr j)))"

lemma mk_job_record_iff:
  "mk_job_record j = Inr j' \<longleftrightarrow>
     j' = j \<and> aware (kj_created_at j) \<and> aware (kj_updated_at j) \<and> aware_opt (kj_finished_at j)"
  by (cases "kj_finished_at j") (auto simp: mk_job_record_def )

definition kj_to_dict :: "job_record \<Rightarrow> json" where
  "kj_to_dict j = JObj
     [(''job_id'', JStr (kj_job_id j)),
      (''status'', JStr (kj_status j)),
      (''view'', of_opt JStr (kj_view j)),
      (''view_version'', of_opt JInt (kj_view_version j)),
      (''requested_features'', of_str_list (kj_features j)),
      (''requested_feature_groups'', of_str_list (kj_groups j)),
      (''total_items'', JInt (kj_total_items j)),
      (''chunk_count'', JInt (kj_chunk_count j)),
      (''write_online'', JBool (kj_write_online j)),
      (''created_at'', of_iso (kj_created_at j)),
      (''updated_at'', of_iso (kj_updated_at j)),
      (''finished_at'', of_opt of_iso (kj_finished_at j)),
      (''error_summary'', JObj (kj_error_summary j)),
      (''manifest_id'', of_opt JStr (kj_manifest_id j)),
      (''manifest_ids'', of_str_list (kj_manifest_ids j))]"

definition kj_from_dict :: "json \<Rightarrow> job_record res" where
  "kj_from_dict d =
     rbind (str_item d ''job_id'') (\<lambda>job_id.
     rbind (str_item d ''status'') (\<lambda>status.
     rbind (iso_item d ''created_at'') (\<lambda>created_at.
     rbind (iso_item d ''updated_at'') (\<lambda>updated_at.
     rbind (opt_str_get d ''view'') (\<lambda>view.
     rbind (opt_int_get d ''view_version'') (\<lambda>view_version.
     rbind (str_list_get d ''requested_features'') (\<lambda>features.
     rbind (str_list_get d ''requested_feature_groups'') (\<lambda>groups.
     rbind (int_get d ''total_items'' 0) (\<lambda>total_items.
     rbind (int_get d ''chunk_count'' 0) (\<lambda>chunk_count.
     rbind (bool_get d ''write_online'' False) (\<lambda>write_online.
     rbind (opt_iso_get d ''finished_at'') (\<lambda>finished_at.
     rbind (rbind (jget d ''error_summary'' (JObj [])) as_obj) (\<lambda>error_summary.
     rbind (opt_str_get d ''manifest_id'') (\<lambda>manifest_id.
     rbind (str_list_get d ''manifest_ids'') (\<lambda>manifest_ids.
     mk_job_record \<lparr>kj_job_id = job_id, kj_status = status, kj_created_at = created_at,
        kj_updated_at = updated_at, kj_view = view, kj_view_version = view_version,
        kj_features = features, kj_groups = groups, kj_total_items = total_items,
        kj_chunk_count = chunk_count, kj_write_online = write_online, kj_finished_at = finished_at,
        kj_error_summary = error_summary, kj_manifest_id = manifest_id,
        kj_manifest_ids = manifest_ids\<rparr>)))))))))))))))"

definition kj_wf :: "job_record \<Rightarrow> bool" where
  "kj_wf j \<longleftrightarrow>
     stamp (kj_created_at j) \<and> stamp (kj_updated_at j) \<and> stamp_opt (kj_finished_at j)
     \<and> json_plain (JObj (kj_error_summary j))"

definition kj_normal :: "job_record \<Rightarrow> job_record" where
  "kj_normal j = j\<lparr>kj_error_summary := sort_items (kj_error_summary j)\<rparr>"

lemma kj_read:
  assumes "kj_wf j"
  shows "kj_from_dict (sort_keys (kj_to_dict j)) = Inr (kj_normal j)"
  using assms unfolding kj_from_dict_def kj_to_dict_def kj_wf_def kj_normal_def field_reads
  by (cases "kj_finished_at j") (simp_all add: mk_job_record_def stamp_def stamp_opt_def)

lemma kj_plain: "kj_wf j \<Longrightarrow> json_plain (kj_to_dict j)"
  by (auto simp: kj_to_dict_def kj_wf_def)

lemma kj_normal_wf: "kj_wf j \<Longrightarrow> kj_wf (kj_normal j)"
  using json_plain_sort_keys[of "JObj (kj_error_summary j)"]
  by (simp add: kj_wf_def kj_normal_def sort_keys_obj)

interpretation kj: codec "\<lambda>j. Inr (kj_to_dict j)" kj_from_dict kj_wf kj_normal
  by unfold_locales (simp_all add: kj_read kj_plain kj_normal_wf, simp add: kj_normal_def)

section \<open>Merge rules\<close>

definition processed_identity :: "chunk_record \<Rightarrow> string \<times> int \<times> int \<times> int \<times> string list" where
  "processed_identity c =
     (kc_status c, kc_item_count c, kc_ok_items c, kc_failed_items c, kc_first_errors c)"

text \<open>True: an identical replay. The conflict names the chunk.\<close>

definition check_processed_conflict :: "chunk_record option \<Rightarrow> chunk_record \<Rightarrow> bool res" where
  "check_processed_conflict existing incoming =
     (case existing of
        None \<Rightarrow> Inr False
      | Some e \<Rightarrow>
          if kc_status e \<notin> set terminal_chunk then Inr False
          else if processed_identity e = processed_identity incoming then Inr True
          else Inl (ConflictError (kc_chunk_id incoming)))"

definition status_of_rows :: "chunk_record list \<Rightarrow> int \<Rightarrow> string" where
  "status_of_rows cs chunk_count =
     (let statuses = map kc_status cs in
      if cs = [] then ''accepted''
      else if \<not> (chunk_count \<le> int (length cs) \<and> (\<forall>s \<in> set statuses. s \<in> set terminal_chunk)) then
        (if \<forall>s \<in> set statuses. s \<in> {''accepted'', ''requested''} then ''accepted'' else ''running'')
      else if \<forall>s \<in> set statuses. s = ''failed'' then ''failed''
      else if (\<exists>s \<in> set statuses. s \<in> {''failed'', ''completed_with_errors''})
              \<or> (\<exists>c \<in> set cs. kc_failed_items c > 0) then ''completed_with_errors''
      else ''completed'')"

text \<open>\<^verbatim>\<open>pick\<close> keeps the existing value when the incoming one is falsy.\<close>

definition pick_str :: "string option \<Rightarrow> string option \<Rightarrow> string option" where
  "pick_str inc ex = (if inc = None \<or> inc = Some [] then ex else inc)"

definition pick_opt_int :: "int option \<Rightarrow> int option \<Rightarrow> int option" where
  "pick_opt_int inc ex = (if inc = None \<or> inc = Some 0 then ex else inc)"

definition pick_int :: "int \<Rightarrow> int \<Rightarrow> int" where
  "pick_int inc ex = (if inc = 0 then ex else inc)"

definition pick_list :: "'a list \<Rightarrow> 'a list \<Rightarrow> 'a list" where
  "pick_list inc ex = (if inc = [] then ex else inc)"

definition merge_job_snapshot :: "datetime \<Rightarrow> job_record option \<Rightarrow> job_record \<Rightarrow> job_record res" where
  "merge_job_snapshot now existing incoming =
     (case existing of
        None \<Rightarrow> mk_job_record (incoming\<lparr>kj_updated_at := now\<rparr>)
      | Some e \<Rightarrow> mk_job_record
          (e\<lparr>kj_view := pick_str (kj_view incoming) (kj_view e),
             kj_view_version := pick_opt_int (kj_view_version incoming) (kj_view_version e),
             kj_features := pick_list (kj_features incoming) (kj_features e),
             kj_groups := pick_list (kj_groups incoming) (kj_groups e),
             kj_total_items := pick_int (kj_total_items incoming) (kj_total_items e),
             kj_chunk_count := pick_int (kj_chunk_count incoming) (kj_chunk_count e),
             kj_write_online := (kj_write_online incoming \<or> kj_write_online e),
             kj_manifest_id := pick_str (kj_manifest_id incoming) (kj_manifest_id e),
             kj_manifest_ids := pick_list (kj_manifest_ids incoming) (kj_manifest_ids e),
             kj_updated_at := now\<rparr>))"

section \<open>The operations over rows\<close>

text \<open>
  Both stores run the same steps over their rows: the reads and the two row writes are what
  differs. A read that fails to build its record raises.
\<close>

record 's batch_rows =
  rw_job :: "'s \<Rightarrow> string \<Rightarrow> job_record option res"
  rw_chunk :: "'s \<Rightarrow> string \<Rightarrow> chunk_record option res"
  rw_chunks :: "'s \<Rightarrow> string \<Rightarrow> chunk_record list res"
  rw_put_job :: "job_record \<Rightarrow> 's \<Rightarrow> 's"
  rw_put_chunk :: "chunk_record \<Rightarrow> 's \<Rightarrow> 's"

definition effective_count :: "job_record option \<Rightarrow> int \<Rightarrow> int" where
  "effective_count existing chunk_count =
     (case existing of
        Some j \<Rightarrow> if kj_chunk_count j \<noteq> 0 then kj_chunk_count j else chunk_count
      | None \<Rightarrow> chunk_count)"

definition recomputed_job ::
    "datetime \<Rightarrow> string \<Rightarrow> int \<Rightarrow> chunk_record list \<Rightarrow> job_record option \<Rightarrow> job_record" where
  "recomputed_job now job_id chunk_count cs existing =
     (let status = status_of_rows cs (effective_count existing chunk_count);
          finished = (if status \<in> set terminal_chunk then Some now else None)
      in case existing of
           None \<Rightarrow> \<lparr>kj_job_id = job_id, kj_status = status, kj_created_at = now, kj_updated_at = now,
             kj_view = None, kj_view_version = None, kj_features = [], kj_groups = [],
             kj_total_items = 0, kj_chunk_count = chunk_count, kj_write_online = False,
             kj_finished_at = finished, kj_error_summary = [], kj_manifest_id = None,
             kj_manifest_ids = []\<rparr>
         | Some j \<Rightarrow> j\<lparr>kj_status := status, kj_updated_at := now, kj_finished_at := finished\<rparr>)"

definition recompute_job_status ::
    "'s batch_rows \<Rightarrow> datetime \<Rightarrow> string \<Rightarrow> int \<Rightarrow> 's \<Rightarrow> unit res \<times> 's" where
  "recompute_job_status R now job_id chunk_count s =
     (case rbind (rw_chunks R s job_id) (\<lambda>cs. rbind (rw_job R s job_id) (\<lambda>existing.
            mk_job_record (recomputed_job now job_id chunk_count cs existing))) of
        Inl e \<Rightarrow> (Inl e, s)
      | Inr j \<Rightarrow> (Inr (), rw_put_job R j s))"

definition upsert_job ::
    "'s batch_rows \<Rightarrow> datetime \<times> datetime \<Rightarrow> job_record \<Rightarrow> 's \<Rightarrow> unit res \<times> 's" where
  "upsert_job R t job s =
     (case rbind (rw_job R s (kj_job_id job)) (\<lambda>existing. merge_job_snapshot (fst t) existing job) of
        Inl e \<Rightarrow> (Inl e, s)
      | Inr merged \<Rightarrow>
          recompute_job_status R (snd t) (kj_job_id job) (kj_chunk_count merged) (rw_put_job R merged s))"

text \<open>The row write of a chunk: it keeps the creation time of the row it replaces.\<close>

definition write_chunk ::
    "'s batch_rows \<Rightarrow> datetime \<Rightarrow> chunk_record option \<Rightarrow> chunk_record \<Rightarrow> 's \<Rightarrow> unit res \<times> 's" where
  "write_chunk R now existing c s =
     (case mk_chunk_record
            (c\<lparr>kc_created_at := (case existing of Some e \<Rightarrow> kc_created_at e | None \<Rightarrow> kc_created_at c)\<rparr>) of
        Inl e \<Rightarrow> (Inl e, s)
      | Inr c' \<Rightarrow>
          recompute_job_status R now (kc_job_id c) (kc_chunk_count c) (rw_put_chunk R c' s))"

definition upsert_chunk_requested ::
    "'s batch_rows \<Rightarrow> datetime \<Rightarrow> chunk_record \<Rightarrow> 's \<Rightarrow> unit res \<times> 's" where
  "upsert_chunk_requested R now c s =
     (case rw_chunk R s (kc_chunk_id c) of
        Inl e \<Rightarrow> (Inl e, s)
      | Inr existing \<Rightarrow>
          if (case existing of Some e \<Rightarrow> kc_status e \<in> set terminal_chunk | None \<Rightarrow> False) then (Inr (), s)
          else write_chunk R now existing c s)"

definition upsert_chunk_processed ::
    "'s batch_rows \<Rightarrow> datetime \<Rightarrow> chunk_record \<Rightarrow> 's \<Rightarrow> unit res \<times> 's" where
  "upsert_chunk_processed R now c s =
     (case rw_chunk R s (kc_chunk_id c) of
        Inl e \<Rightarrow> (Inl e, s)
      | Inr existing \<Rightarrow>
          (case check_processed_conflict existing c of
             Inl e \<Rightarrow> (Inl e, s)
           | Inr True \<Rightarrow> (Inr (), s)
           | Inr False \<Rightarrow> write_chunk R now existing c s))"

section \<open>In memory\<close>

record mem_batch =
  mb_jobs :: "(string, job_record) dict"
  mb_chunks :: "(string, chunk_record) dict"

definition mem_rows :: "mem_batch batch_rows" where
  "mem_rows =
     \<lparr>rw_job = (\<lambda>s job_id. Inr (map_of (mb_jobs s) job_id)),
      rw_chunk = (\<lambda>s cid. Inr (map_of (mb_chunks s) cid)),
      rw_chunks = (\<lambda>s job_id. Inr (filter (\<lambda>c. kc_job_id c = job_id) (dict_values (mb_chunks s)))),
      rw_put_job = (\<lambda>j s. s\<lparr>mb_jobs := dict_set (kj_job_id j) j (mb_jobs s)\<rparr>),
      rw_put_chunk = (\<lambda>c s. s\<lparr>mb_chunks := dict_set (kc_chunk_id c) c (mb_chunks s)\<rparr>)\<rparr>"

section \<open>On Postgres\<close>

text \<open>
  Rows of \<^verbatim>\<open>batch_jobs\<close> and \<^verbatim>\<open>batch_chunks\<close>, in the order of their insertion; the JSON
  columns hold their values as they are read back. A query without ORDER BY may answer in any
  order, which no caller sees.
\<close>

record job_row =
  y_job_id :: string
  y_status :: string
  y_view :: "string option"
  y_view_version :: "int option"
  y_features :: "string list"
  y_groups :: "string list"
  y_total_items :: int
  y_chunk_count :: int
  y_write_online :: bool
  y_created_at :: int
  y_updated_at :: int
  y_finished_at :: "int option"
  y_error_summary :: "(string, json) dict"
  y_manifest_id :: "string option"
  y_manifest_ids :: "string list option"

record chunk_row =
  x_chunk_id :: string
  x_job_id :: string
  x_chunk_index :: int
  x_chunk_count :: int
  x_status :: string
  x_item_count :: int
  x_ok_items :: int
  x_failed_items :: int
  x_first_errors :: "string list"
  x_created_at :: int
  x_updated_at :: int
  x_finished_at :: "int option"

record pg_batch =
  pb_jobs :: "(string, job_row) dict"  \<comment> \<open>PRIMARY KEY (job_id)\<close>
  pb_chunks :: "(string, chunk_row) dict"  \<comment> \<open>PRIMARY KEY (chunk_id)\<close>

definition job_to_params :: "pg \<Rightarrow> job_record \<Rightarrow> job_row" where
  "job_to_params P j =
     \<lparr>y_job_id = kj_job_id j, y_status = kj_status j, y_view = kj_view j,
      y_view_version = kj_view_version j, y_features = kj_features j, y_groups = kj_groups j,
      y_total_items = kj_total_items j, y_chunk_count = kj_chunk_count j,
      y_write_online = kj_write_online j, y_created_at = pg_instant P (kj_created_at j),
      y_updated_at = pg_instant P (kj_updated_at j),
      y_finished_at = map_option (pg_instant P) (kj_finished_at j),
      y_error_summary = kj_error_summary j, y_manifest_id = kj_manifest_id j,
      y_manifest_ids = (if kj_manifest_ids j = [] then None else Some (kj_manifest_ids j))\<rparr>"

definition chunk_to_params :: "pg \<Rightarrow> chunk_record \<Rightarrow> chunk_row" where
  "chunk_to_params P c =
     \<lparr>x_chunk_id = kc_chunk_id c, x_job_id = kc_job_id c, x_chunk_index = kc_chunk_index c,
      x_chunk_count = kc_chunk_count c, x_status = kc_status c, x_item_count = kc_item_count c,
      x_ok_items = kc_ok_items c, x_failed_items = kc_failed_items c,
      x_first_errors = kc_first_errors c, x_created_at = pg_instant P (kc_created_at c),
      x_updated_at = pg_instant P (kc_updated_at c),
      x_finished_at = map_option (pg_instant P) (kc_finished_at c)\<rparr>"

definition job_of_row :: "pg \<Rightarrow> job_row \<Rightarrow> job_record" where
  "job_of_row P r =
     \<lparr>kj_job_id = y_job_id r, kj_status = y_status r, kj_created_at = pg_datetime P (y_created_at r),
      kj_updated_at = pg_datetime P (y_updated_at r), kj_view = y_view r,
      kj_view_version = y_view_version r, kj_features = y_features r, kj_groups = y_groups r,
      kj_total_items = y_total_items r, kj_chunk_count = y_chunk_count r,
      kj_write_online = y_write_online r,
      kj_finished_at = map_option (pg_datetime P) (y_finished_at r),
      kj_error_summary = y_error_summary r, kj_manifest_id = y_manifest_id r,
      kj_manifest_ids = (case y_manifest_ids r of Some ids \<Rightarrow> ids | None \<Rightarrow> [])\<rparr>"

definition chunk_of_row :: "pg \<Rightarrow> chunk_row \<Rightarrow> chunk_record" where
  "chunk_of_row P r =
     \<lparr>kc_chunk_id = x_chunk_id r, kc_job_id = x_job_id r, kc_chunk_index = x_chunk_index r,
      kc_chunk_count = x_chunk_count r, kc_status = x_status r, kc_item_count = x_item_count r,
      kc_created_at = pg_datetime P (x_created_at r), kc_updated_at = pg_datetime P (x_updated_at r),
      kc_ok_items = x_ok_items r, kc_failed_items = x_failed_items r,
      kc_first_errors = x_first_errors r,
      kc_finished_at = map_option (pg_datetime P) (x_finished_at r)\<rparr>"

definition row_to_job :: "pg \<Rightarrow> job_row \<Rightarrow> job_record res" where
  "row_to_job P r = mk_job_record (job_of_row P r)"

definition row_to_chunk :: "pg \<Rightarrow> chunk_row \<Rightarrow> chunk_record res" where
  "row_to_chunk P r = mk_chunk_record (chunk_of_row P r)"

text \<open>
  The two \<^verbatim>\<open>INSERT ... ON CONFLICT DO UPDATE\<close> statements: a replaced job keeps its creation
  time, and its manifests when the new row has none; a replaced chunk keeps its job, its
  position and its creation time.
\<close>

definition job_on_conflict :: "job_row option \<Rightarrow> job_row \<Rightarrow> job_row" where
  "job_on_conflict old new =
     (case old of
        None \<Rightarrow> new
      | Some o1 \<Rightarrow> new\<lparr>y_created_at := y_created_at o1,
          y_manifest_ids := (if y_manifest_ids new = None then y_manifest_ids o1 else y_manifest_ids new)\<rparr>)"

definition chunk_on_conflict :: "chunk_row option \<Rightarrow> chunk_row \<Rightarrow> chunk_row" where
  "chunk_on_conflict old new =
     (case old of
        None \<Rightarrow> new
      | Some o1 \<Rightarrow> o1\<lparr>x_status := x_status new, x_item_count := x_item_count new,
          x_ok_items := x_ok_items new, x_failed_items := x_failed_items new,
          x_first_errors := x_first_errors new, x_updated_at := x_updated_at new,
          x_finished_at := x_finished_at new\<rparr>)"

definition pg_rows :: "pg \<Rightarrow> pg_batch batch_rows" where
  "pg_rows P =
     \<lparr>rw_job = (\<lambda>s job_id. case map_of (pb_jobs s) job_id of
         None \<Rightarrow> Inr None | Some r \<Rightarrow> rbind (row_to_job P r) (\<lambda>j. Inr (Some j))),
      rw_chunk = (\<lambda>s cid. case map_of (pb_chunks s) cid of
         None \<Rightarrow> Inr None | Some r \<Rightarrow> rbind (row_to_chunk P r) (\<lambda>c. Inr (Some c))),
      rw_chunks = (\<lambda>s job_id. map_res (row_to_chunk P)
         (filter (\<lambda>r. x_job_id r = job_id) (dict_values (pb_chunks s)))),
      rw_put_job = (\<lambda>j s. s\<lparr>pb_jobs := dict_set (kj_job_id j)
         (job_on_conflict (map_of (pb_jobs s) (kj_job_id j)) (job_to_params P j)) (pb_jobs s)\<rparr>),
      rw_put_chunk = (\<lambda>c s. s\<lparr>pb_chunks := dict_set (kc_chunk_id c)
         (chunk_on_conflict (map_of (pb_chunks s) (kc_chunk_id c)) (chunk_to_params P c)) (pb_chunks s)\<rparr>)\<rparr>"

section \<open>The contract of the rows\<close>

text \<open>
  \<open>job\<close> and \<open>chunk\<close> are the rows as they read, \<open>chunks\<close> the rows of a job. A row write may change
  what is read back within the limits below (the times are normalised, a replaced chunk may
  keep its job).
\<close>

definition job_ok :: "job_record \<Rightarrow> bool" where
  "job_ok j \<longleftrightarrow> aware (kj_created_at j) \<and> aware (kj_updated_at j) \<and> aware_opt (kj_finished_at j)"

definition chunk_ok :: "chunk_record \<Rightarrow> bool" where
  "chunk_ok c \<longleftrightarrow> aware (kc_created_at c) \<and> aware (kc_updated_at c) \<and> aware_opt (kc_finished_at c)"

lemma mk_job_ok [simp]: "job_ok j \<Longrightarrow> mk_job_record j = Inr j"
  by (simp add: mk_job_record_iff job_ok_def)

lemma mk_chunk_ok [simp]: "chunk_ok c \<Longrightarrow> mk_chunk_record c = Inr c"
  by (simp add: mk_chunk_record_iff chunk_ok_def)

definition same_job :: "job_record \<Rightarrow> job_record \<Rightarrow> bool" where
  "same_job j j' \<longleftrightarrow> kj_job_id j' = kj_job_id j \<and> kj_status j' = kj_status j
     \<and> kj_chunk_count j' = kj_chunk_count j \<and> (kj_finished_at j' = None \<longleftrightarrow> kj_finished_at j = None)"

definition same_result :: "chunk_record \<Rightarrow> chunk_record \<Rightarrow> bool" where
  "same_result c c' \<longleftrightarrow> kc_chunk_id c' = kc_chunk_id c \<and> processed_identity c' = processed_identity c"

text \<open>The status of a job row is the one its chunk rows give.\<close>

definition derived_from :: "chunk_record list \<Rightarrow> job_record \<Rightarrow> bool" where
  "derived_from cs j \<longleftrightarrow>
     (kj_chunk_count j \<noteq> 0 \<longrightarrow> kj_status j = status_of_rows cs (kj_chunk_count j))
     \<and> (kj_finished_at j \<noteq> None \<longleftrightarrow> kj_status j \<in> set terminal_chunk)"

lemma derived_same: "derived_from cs j \<Longrightarrow> same_job j j' \<Longrightarrow> derived_from cs j'"
  by (simp add: derived_from_def same_job_def)

lemma recomputed_derived: "derived_from cs (recomputed_job now job_id n cs existing)"
  by (auto simp: derived_from_def recomputed_job_def Let_def effective_count_def split: option.split)

datatype batch_op = OpJob job_record | OpRequested chunk_record | OpProcessed chunk_record

fun apply_batch_op :: "'s batch_rows \<Rightarrow> datetime \<times> datetime \<Rightarrow> batch_op \<Rightarrow> 's \<Rightarrow> unit res \<times> 's" where
  "apply_batch_op R t (OpJob j) s = upsert_job R t j s"
| "apply_batch_op R t (OpRequested c) s = upsert_chunk_requested R (fst t) c s"
| "apply_batch_op R t (OpProcessed c) s = upsert_chunk_processed R (fst t) c s"

text \<open>The clock readings are aware, the records valid, and every chunk belongs to its job.\<close>

fun op_ok :: "(string \<Rightarrow> string) \<Rightarrow> batch_op \<Rightarrow> bool" where
  "op_ok owner (OpJob j) = job_ok j"
| "op_ok owner (OpRequested c) = (chunk_ok c \<and> kc_job_id c = owner (kc_chunk_id c))"
| "op_ok owner (OpProcessed c) = (chunk_ok c \<and> kc_job_id c = owner (kc_chunk_id c))"

definition apply_batch_ops ::
    "'s batch_rows \<Rightarrow> ((datetime \<times> datetime) \<times> batch_op) list \<Rightarrow> 's \<Rightarrow> 's" where
  "apply_batch_ops R ops s = fold (\<lambda>(t, o1) s. snd (apply_batch_op R t o1 s)) ops s"

locale batch_store =
  fixes R :: "'s batch_rows"
    and ok :: "'s \<Rightarrow> bool"
    and job :: "'s \<Rightarrow> string \<Rightarrow> job_record option"
    and chunk :: "'s \<Rightarrow> string \<Rightarrow> chunk_record option"
    and chunks :: "'s \<Rightarrow> string \<Rightarrow> chunk_record list"
  assumes read_job: "ok s \<Longrightarrow> rw_job R s job_id = Inr (job s job_id)"
    and read_chunk: "ok s \<Longrightarrow> rw_chunk R s cid = Inr (chunk s cid)"
    and read_chunks: "ok s \<Longrightarrow> rw_chunks R s job_id = Inr (chunks s job_id)"
    and job_read: "ok s \<Longrightarrow> job s job_id = Some j \<Longrightarrow> job_ok j \<and> kj_job_id j = job_id"
    and chunk_read: "ok s \<Longrightarrow> chunk s cid = Some c \<Longrightarrow> chunk_ok c \<and> kc_chunk_id c = cid"
    and put_job: "ok s \<Longrightarrow> job_ok j \<Longrightarrow>
      ok (rw_put_job R j s) \<and> chunk (rw_put_job R j s) = chunk s \<and> chunks (rw_put_job R j s) = chunks s
      \<and> (\<exists>j'. same_job j j' \<and> job (rw_put_job R j s) = (job s)(kj_job_id j \<mapsto> j'))"
    and put_chunk: "ok s \<Longrightarrow> chunk_ok c \<Longrightarrow>
      ok (rw_put_chunk R c s) \<and> job (rw_put_chunk R c s) = job s
      \<and> (\<exists>c'. same_result c c' \<and> chunk (rw_put_chunk R c s) = (chunk s)(kc_chunk_id c \<mapsto> c')
          \<and> kc_job_id c' = (case chunk s (kc_chunk_id c) of Some e \<Rightarrow>
              (if kc_job_id c' = kc_job_id c then kc_job_id c else kc_job_id e) | None \<Rightarrow> kc_job_id c))"
    and put_chunk_others: "ok s \<Longrightarrow> chunk_ok c \<Longrightarrow> job_id \<noteq> kc_job_id c \<Longrightarrow>
      (\<forall>e. chunk s (kc_chunk_id c) = Some e \<longrightarrow> kc_job_id e \<noteq> job_id) \<Longrightarrow>
      chunks (rw_put_chunk R c s) job_id = chunks s job_id"
begin

definition heeded :: "(string \<Rightarrow> string) \<Rightarrow> 's \<Rightarrow> bool" where
  "heeded owner s \<longleftrightarrow> (\<forall>cid c. chunk s cid = Some c \<longrightarrow> kc_job_id c = owner cid)"

definition job_derived :: "'s \<Rightarrow> bool" where
  "job_derived s \<longleftrightarrow> (\<forall>job_id j. job s job_id = Some j \<longrightarrow> derived_from (chunks s job_id) j)"

definition done_kept :: "'s \<Rightarrow> 's \<Rightarrow> bool" where
  "done_kept s s' \<longleftrightarrow>
     (\<forall>cid c. chunk s cid = Some c \<and> kc_status c \<in> set terminal_chunk \<longrightarrow> chunk s' cid = Some c)"

lemma recompute:
  assumes "ok s" "aware now"
    and others: "\<forall>i j. i \<noteq> job_id \<and> job s i = Some j \<longrightarrow>
        derived_from (chunks s i) j"
  shows "\<exists>s'. recompute_job_status R now job_id n s = (Inr (), s') \<and> ok s' \<and> chunk s' = chunk s
    \<and> job_derived s'"
proof -
  let ?j = "recomputed_job now job_id n (chunks s job_id) (job s job_id)"
  have id: "kj_job_id ?j = job_id"
    using job_read[OF assms(1)] by (auto simp: recomputed_job_def Let_def split: option.split)
  have jok: "job_ok ?j"
    using job_read[OF assms(1)] assms(2)
    by (auto simp: recomputed_job_def Let_def job_ok_def split: option.split)
  from put_job[OF assms(1) jok] obtain j' where p: "ok (rw_put_job R ?j s)"
    "chunk (rw_put_job R ?j s) = chunk s" "chunks (rw_put_job R ?j s) = chunks s" "same_job ?j j'"
    "job (rw_put_job R ?j s) = (job s)(job_id \<mapsto> j')" unfolding id by blast
  have "recompute_job_status R now job_id n s = (Inr (), rw_put_job R ?j s)"
    using jok by (simp add: recompute_job_status_def read_job[OF assms(1)] read_chunks[OF assms(1)])
  moreover have "job_derived (rw_put_job R ?j s)"
    unfolding job_derived_def p(3,5) using others derived_same[OF recomputed_derived p(4)] by simp
  ultimately show ?thesis using p(1,2) by blast
qed

lemma row_write:
  assumes "ok s" "aware now" "chunk_ok c" "kc_job_id c = owner (kc_chunk_id c)" "heeded owner s"
    "job_derived s" "existing = chunk s (kc_chunk_id c)"
  shows "\<exists>s' c'. write_chunk R now existing c s = (Inr (), s') \<and> ok s' \<and> same_result c c'
    \<and> chunk s' = (chunk s)(kc_chunk_id c \<mapsto> c') \<and> heeded owner s' \<and> job_derived s'"
proof -
  let ?c = "c\<lparr>kc_created_at := (case existing of Some e \<Rightarrow> kc_created_at e | None \<Rightarrow> kc_created_at c)\<rparr>"
  have cok: "chunk_ok ?c"
    using assms(3) chunk_read[OF assms(1)] assms(7) by (auto simp: chunk_ok_def split: option.split)
  have id: "kc_chunk_id ?c = kc_chunk_id c" "kc_job_id ?c = kc_job_id c" by simp_all
  from put_chunk[OF assms(1) cok, unfolded id] obtain c' where p: "ok (rw_put_chunk R ?c s)"
    "job (rw_put_chunk R ?c s) = job s" "same_result ?c c'"
    "chunk (rw_put_chunk R ?c s) = (chunk s)(kc_chunk_id c \<mapsto> c')"
    "kc_job_id c' = (case chunk s (kc_chunk_id c) of Some e \<Rightarrow>
              (if kc_job_id c' = kc_job_id c then kc_job_id c else kc_job_id e) | None \<Rightarrow> kc_job_id c)"
    by blast
  have "kc_job_id c' = owner (kc_chunk_id c)"
    using p(5) assms(4,5) by (auto simp: heeded_def split: option.splits if_splits)
  then have h: "heeded owner (rw_put_chunk R ?c s)"
    using assms(5) p(4) by (auto simp: heeded_def)
  have "chunks (rw_put_chunk R ?c s) i = chunks s i" if "i \<noteq> kc_job_id c" for i
    using put_chunk_others[OF assms(1) cok, of i] that assms(4,5) by (auto simp: heeded_def)
  then have "\<forall>i j. i \<noteq> kc_job_id c \<and> job (rw_put_chunk R ?c s) i = Some j \<longrightarrow>
        derived_from (chunks (rw_put_chunk R ?c s) i) j"
    using assms(6) p(2) by (simp add: job_derived_def)
  from recompute[OF p(1) assms(2) this] obtain s' where s':
    "recompute_job_status R now (kc_job_id c) (kc_chunk_count c) (rw_put_chunk R ?c s) = (Inr (), s')"
    "ok s'" "chunk s' = chunk (rw_put_chunk R ?c s)" "job_derived s'" by blast
  moreover have "write_chunk R now existing c s = (Inr (), s')"
    using cok s'(1) by (simp add: write_chunk_def)
  moreover have "same_result c c'" using p(3) by (simp add: same_result_def processed_identity_def)
  moreover have "heeded owner s'" using h s'(3) by (simp add: heeded_def)
  ultimately show ?thesis using p(4) by auto
qed

lemma write_keeps:
  assumes "chunk s' = (chunk s)(cid \<mapsto> c')" "\<forall>e. chunk s cid = Some e \<longrightarrow> kc_status e \<notin> set terminal_chunk"
  shows "done_kept s s'"
  using assms by (auto simp: done_kept_def)

lemma done_kept_refl [simp]: "done_kept s s"
  by (simp add: done_kept_def)

lemma upsert_job_ok:
  assumes "ok s" "aware (fst t)" "aware (snd t)" "job_ok j" "job_derived s"
  shows "\<exists>s'. upsert_job R t j s = (Inr (), s') \<and> ok s' \<and> chunk s' = chunk s \<and> job_derived s'"
proof -
  obtain m where m: "merge_job_snapshot (fst t) (job s (kj_job_id j)) j = Inr m" "job_ok m"
    "kj_job_id m = kj_job_id j"
  proof (cases "job s (kj_job_id j)")
    case None
    have "job_ok (j\<lparr>kj_updated_at := fst t\<rparr>)" using assms(2,4) by (simp add: job_ok_def)
    with None that show ?thesis by (simp add: merge_job_snapshot_def)
  next
    case (Some e)
    from job_read[OF assms(1) this] assms(2) that Some show ?thesis
      by (simp add: merge_job_snapshot_def mk_job_record_iff job_ok_def)
  qed
  from put_job[OF assms(1) m(2)] obtain j' where p: "ok (rw_put_job R m s)"
    "chunk (rw_put_job R m s) = chunk s" "chunks (rw_put_job R m s) = chunks s"
    "job (rw_put_job R m s) = (job s)(kj_job_id j \<mapsto> j')" unfolding m(3) by blast
  have "\<forall>i j0. i \<noteq> kj_job_id j \<and> job (rw_put_job R m s) i = Some j0 \<longrightarrow>
        derived_from (chunks (rw_put_job R m s) i) j0"
    unfolding p(3,4) using assms(5) by (simp add: job_derived_def)
  from recompute[OF p(1) assms(3) this] p(2) show ?thesis
    by (auto simp: upsert_job_def read_job[OF assms(1)] m(1))
qed

text \<open>Every operation keeps the invariant and the finished chunks; it fails only as a conflict.\<close>

lemma op_keeps:
  assumes "ok s" "aware (fst t)" "aware (snd t)" "op_ok owner o1" "heeded owner s" "job_derived s"
    and r: "apply_batch_op R t o1 s = (r, s')"
  shows "ok s' \<and> heeded owner s' \<and> job_derived s' \<and> done_kept s s'
    \<and> (r = Inr () \<or> s' = s \<and> (\<exists>c. o1 = OpProcessed c \<and> r = Inl (ConflictError (kc_chunk_id c))))"
proof (cases o1)
  case (OpJob j)
  then show ?thesis
    using upsert_job_ok[OF assms(1,2,3) _ assms(6), of j] assms(4,5) r
    by (auto simp: heeded_def done_kept_def)
next
  case (OpRequested c)
  note w = row_write[OF assms(1,2), of c owner "chunk s (kc_chunk_id c)"]
  show ?thesis
  proof (cases "\<exists>e. chunk s (kc_chunk_id c) = Some e \<and> kc_status e \<in> set terminal_chunk")
    case True
    then show ?thesis using OpRequested r assms(1,5,6)
      by (auto simp: upsert_chunk_requested_def read_chunk[OF assms(1)])
  next
    case False
    have "upsert_chunk_requested R (fst t) c s = write_chunk R (fst t) (chunk s (kc_chunk_id c)) c s"
      using False by (auto simp: upsert_chunk_requested_def read_chunk[OF assms(1)] split: option.split)
    with w OpRequested r assms(4-6) False show ?thesis by (auto intro: write_keeps)
  qed
next
  case (OpProcessed c)
  note w = row_write[OF assms(1,2), of c owner "chunk s (kc_chunk_id c)"]
  show ?thesis
  proof (cases "check_processed_conflict (chunk s (kc_chunk_id c)) c")
    case (Inl e)
    then have "e = ConflictError (kc_chunk_id c)"
      by (auto simp: check_processed_conflict_def split: option.splits if_splits)
    with Inl OpProcessed r assms(1,5,6) show ?thesis
      by (auto simp: upsert_chunk_processed_def read_chunk[OF assms(1)])
  next
    case (Inr b)
    show ?thesis
    proof (cases b)
      case True
      with Inr OpProcessed r assms(1,5,6) show ?thesis
        by (auto simp: upsert_chunk_processed_def read_chunk[OF assms(1)])
    next
      case False
      with Inr have open1: "\<forall>e. chunk s (kc_chunk_id c) = Some e \<longrightarrow> kc_status e \<notin> set terminal_chunk"
        by (auto simp: check_processed_conflict_def split: option.splits if_splits)
      have "upsert_chunk_processed R (fst t) c s = write_chunk R (fst t) (chunk s (kc_chunk_id c)) c s"
        using Inr False by (simp add: upsert_chunk_processed_def read_chunk[OF assms(1)])
      with w OpProcessed r assms(4-6) open1 show ?thesis by (auto intro: write_keeps)
    qed
  qed
qed

text \<open>Whatever the clock says, no operation touches a finished chunk.\<close>

lemma recompute_frame:
  assumes "ok s" "recompute_job_status R now i n s = (r, s')"
  shows "ok s' \<and> chunk s' = chunk s"
proof (cases r)
  case (Inr u)
  then obtain j where "mk_job_record j = Inr j" "s' = rw_put_job R j s"
    using assms(2) by (auto simp: recompute_job_status_def mk_job_record_iff split: sum.splits)
  with put_job[OF assms(1), of j] show ?thesis by (simp add: mk_job_record_iff job_ok_def)
qed (use assms in \<open>auto simp: recompute_job_status_def split: sum.splits\<close>)

lemma write_frame:
  assumes "ok s" "write_chunk R now existing c s = (r, s')"
    "\<forall>e. chunk s (kc_chunk_id c) = Some e \<longrightarrow> kc_status e \<notin> set terminal_chunk"
  shows "ok s' \<and> done_kept s s'"
proof -
  let ?c = "c\<lparr>kc_created_at := (case existing of Some e \<Rightarrow> kc_created_at e | None \<Rightarrow> kc_created_at c)\<rparr>"
  show ?thesis
  proof (cases "chunk_ok ?c")
    case True
    then have "recompute_job_status R now (kc_job_id c) (kc_chunk_count c) (rw_put_chunk R ?c s) = (r, s')"
      using assms(2) by (simp add: write_chunk_def)
    moreover from put_chunk[OF assms(1) True] obtain c' where "ok (rw_put_chunk R ?c s)"
      "chunk (rw_put_chunk R ?c s) = (chunk s)(kc_chunk_id c \<mapsto> c')" by auto
    ultimately show ?thesis using recompute_frame assms(3) by (auto simp: done_kept_def)
  next
    case False
    then have "mk_chunk_record ?c \<noteq> Inr x" for x by (auto simp: mk_chunk_record_iff chunk_ok_def)
    with assms(1,2) show ?thesis by (auto simp: write_chunk_def split: sum.splits)
  qed
qed

lemma op_done_kept:
  assumes "ok s" "apply_batch_op R t o1 s = (r, s')"
  shows "ok s' \<and> done_kept s s'"
proof (cases o1)
  case (OpJob j)
  show ?thesis
  proof (cases "merge_job_snapshot (fst t) (job s (kj_job_id j)) j")
    case (Inl e)
    with OpJob assms show ?thesis by (simp add: upsert_job_def read_job[OF assms(1)])
  next
    case (Inr m)
    then have "job_ok m"
      by (auto simp: merge_job_snapshot_def mk_job_record_iff job_ok_def split: option.splits)
    from put_job[OF assms(1) this] have p: "ok (rw_put_job R m s)" "chunk (rw_put_job R m s) = chunk s" by auto
    from Inr OpJob assms(2)
    have "recompute_job_status R (snd t) (kj_job_id j) (kj_chunk_count m) (rw_put_job R m s) = (r, s')"
      by (simp add: upsert_job_def read_job[OF assms(1)])
    from recompute_frame[OF p(1) this] p(2) show ?thesis by (simp add: done_kept_def)
  qed
next
  case (OpRequested c)
  then have "(r, s') = (Inr (), s)
    \<or> write_chunk R (fst t) (chunk s (kc_chunk_id c)) c s = (r, s')
      \<and> (\<forall>e. chunk s (kc_chunk_id c) = Some e \<longrightarrow> kc_status e \<notin> set terminal_chunk)"
    using assms(2) by (auto simp: upsert_chunk_requested_def read_chunk[OF assms(1)] split: option.splits if_splits)
  then show ?thesis using write_frame[OF assms(1)] assms(1) by auto
next
  case (OpProcessed c)
  then have "s' = s
    \<or> write_chunk R (fst t) (chunk s (kc_chunk_id c)) c s = (r, s')
      \<and> (\<forall>e. chunk s (kc_chunk_id c) = Some e \<longrightarrow> kc_status e \<notin> set terminal_chunk)"
    using assms(2) by (auto simp: upsert_chunk_processed_def read_chunk[OF assms(1)] check_processed_conflict_def
        split: option.splits if_splits)
  then show ?thesis using write_frame[OF assms(1)] assms(1) by auto
qed

lemma done_kept_trans: "done_kept s s1 \<Longrightarrow> done_kept s1 s2 \<Longrightarrow> done_kept s s2"
  by (auto simp: done_kept_def)

lemma ops_keep:
  assumes "ok s" "\<forall>(t, o1) \<in> set ops. aware (fst t) \<and> aware (snd t) \<and> op_ok owner o1" "heeded owner s"
    "job_derived s"
  shows "ok (apply_batch_ops R ops s) \<and> heeded owner (apply_batch_ops R ops s)
    \<and> job_derived (apply_batch_ops R ops s) \<and> done_kept s (apply_batch_ops R ops s)"
  using assms
proof (induction ops arbitrary: s)
  case (Cons b ops)
  obtain t o1 where b: "b = (t, o1)" by (cases b)
  obtain r s' where r: "apply_batch_op R t o1 s = (r, s')" by (cases "apply_batch_op R t o1 s")
  have k: "ok s' \<and> heeded owner s' \<and> job_derived s' \<and> done_kept s s'"
    using op_keeps[OF Cons.prems(1) _ _ _ Cons.prems(3,4) r] Cons.prems(2) b by auto
  have "apply_batch_ops R (b # ops) s = apply_batch_ops R ops s'"
    by (simp add: apply_batch_ops_def b r)
  with Cons.IH[of s'] k Cons.prems(2) show ?case by (auto intro: done_kept_trans)
qed (simp add: apply_batch_ops_def)

end

section \<open>Both stores keep the contract\<close>

lemma filter_dict_set:
  "\<not> Q v \<Longrightarrow> (\<forall>e. map_of d k = Some e \<longrightarrow> \<not> Q e) \<Longrightarrow>
    filter Q (dict_values (dict_set k v d)) = filter Q (dict_values d)"
  unfolding dict_set_def dict_values_def by (induction d) auto

definition mem_batch_ok :: "mem_batch \<Rightarrow> bool" where
  "mem_batch_ok s \<longleftrightarrow>
     (\<forall>i j. map_of (mb_jobs s) i = Some j \<longrightarrow> job_ok j \<and> kj_job_id j = i)
     \<and> (\<forall>i c. map_of (mb_chunks s) i = Some c \<longrightarrow> chunk_ok c \<and> kc_chunk_id c = i)"

definition mem_chunks :: "mem_batch \<Rightarrow> string \<Rightarrow> chunk_record list" where
  "mem_chunks s job_id = filter (\<lambda>c. kc_job_id c = job_id) (dict_values (mb_chunks s))"

interpretation membatch: batch_store mem_rows mem_batch_ok "\<lambda>s. map_of (mb_jobs s)"
  "\<lambda>s. map_of (mb_chunks s)" mem_chunks
proof unfold_locales
  fix s j
  assume "mem_batch_ok s" "job_ok j"
  then show "mem_batch_ok (rw_put_job mem_rows j s)
      \<and> map_of (mb_chunks (rw_put_job mem_rows j s)) = map_of (mb_chunks s)
      \<and> mem_chunks (rw_put_job mem_rows j s) = mem_chunks s
      \<and> (\<exists>j'. same_job j j' \<and> map_of (mb_jobs (rw_put_job mem_rows j s)) = (map_of (mb_jobs s))(kj_job_id j \<mapsto> j'))"
    by (intro conjI exI[of _ j]) (auto simp: mem_rows_def mem_batch_ok_def mem_chunks_def same_job_def fun_eq_iff)
next
  fix s c
  assume "mem_batch_ok s" "chunk_ok c"
  then show "mem_batch_ok (rw_put_chunk mem_rows c s)
      \<and> map_of (mb_jobs (rw_put_chunk mem_rows c s)) = map_of (mb_jobs s)
      \<and> (\<exists>c'. same_result c c'
          \<and> map_of (mb_chunks (rw_put_chunk mem_rows c s)) = (map_of (mb_chunks s))(kc_chunk_id c \<mapsto> c')
          \<and> kc_job_id c' = (case map_of (mb_chunks s) (kc_chunk_id c) of
              None \<Rightarrow> kc_job_id c
            | Some e \<Rightarrow> if kc_job_id c' = kc_job_id c then kc_job_id c else kc_job_id e))"
    by (intro conjI exI[of _ c]) (auto simp: mem_rows_def mem_batch_ok_def same_result_def split: option.split)
next
  fix s c job_id
  assume "mem_batch_ok s" "chunk_ok c" "job_id \<noteq> kc_job_id c"
    "\<forall>e. map_of (mb_chunks s) (kc_chunk_id c) = Some e \<longrightarrow> kc_job_id e \<noteq> job_id"
  then show "mem_chunks (rw_put_chunk mem_rows c s) job_id = mem_chunks s job_id"
    unfolding mem_chunks_def by (simp add: mem_rows_def) (rule filter_dict_set, auto)
qed (auto simp: mem_rows_def mem_batch_ok_def mem_chunks_def)

definition pg_batch_ok :: "pg \<Rightarrow> pg_batch \<Rightarrow> bool" where
  "pg_batch_ok P s \<longleftrightarrow>
     pg_laws P
     \<and> (\<forall>i r. map_of (pb_jobs s) i = Some r \<longrightarrow> y_job_id r = i)
     \<and> (\<forall>i r. map_of (pb_chunks s) i = Some r \<longrightarrow> x_chunk_id r = i)"

definition pg_job :: "pg \<Rightarrow> pg_batch \<Rightarrow> string \<Rightarrow> job_record option" where
  "pg_job P s i = map_option (job_of_row P) (map_of (pb_jobs s) i)"

definition pg_chunk :: "pg \<Rightarrow> pg_batch \<Rightarrow> string \<Rightarrow> chunk_record option" where
  "pg_chunk P s i = map_option (chunk_of_row P) (map_of (pb_chunks s) i)"

definition pg_chunks :: "pg \<Rightarrow> pg_batch \<Rightarrow> string \<Rightarrow> chunk_record list" where
  "pg_chunks P s job_id =
     map (chunk_of_row P) (filter (\<lambda>r. x_job_id r = job_id) (dict_values (pb_chunks s)))"

lemma job_of_row_ok: "pg_laws P \<Longrightarrow> job_ok (job_of_row P r)"
  by (cases "y_finished_at r") (auto simp: job_ok_def job_of_row_def pg_laws_def)

lemma chunk_of_row_ok: "pg_laws P \<Longrightarrow> chunk_ok (chunk_of_row P r)"
  by (cases "x_finished_at r") (auto simp: chunk_ok_def chunk_of_row_def pg_laws_def)

interpretation pgbatch: batch_store "pg_rows P" "pg_batch_ok P" "pg_job P" "pg_chunk P" "pg_chunks P" for P
proof unfold_locales
  fix s job_id
  assume "pg_batch_ok P s"
  then have P: "pg_laws P" by (simp add: pg_batch_ok_def)
  show "rw_job (pg_rows P) s job_id = Inr (pg_job P s job_id)"
    by (simp add: pg_rows_def pg_job_def row_to_job_def job_of_row_ok[OF P] split: option.split)
  show "rw_chunk (pg_rows P) s job_id = Inr (pg_chunk P s job_id)"
    by (simp add: pg_rows_def pg_chunk_def row_to_chunk_def chunk_of_row_ok[OF P] split: option.split)
  show "rw_chunks (pg_rows P) s job_id = Inr (pg_chunks P s job_id)"
    by (simp add: pg_rows_def pg_chunks_def row_to_chunk_def chunk_of_row_ok[OF P] map_res_all_Inr)
next
  fix s job_id j
  assume "pg_batch_ok P s" "pg_job P s job_id = Some j"
  then show "job_ok j \<and> kj_job_id j = job_id"
    by (auto simp: pg_batch_ok_def pg_job_def job_of_row_ok) (simp add: job_of_row_def)
next
  fix s cid c
  assume "pg_batch_ok P s" "pg_chunk P s cid = Some c"
  then show "chunk_ok c \<and> kc_chunk_id c = cid"
    by (auto simp: pg_batch_ok_def pg_chunk_def chunk_of_row_ok) (simp add: chunk_of_row_def)
next
  fix s j
  assume s: "pg_batch_ok P s" and "job_ok j"
  let ?r = "job_on_conflict (map_of (pb_jobs s) (kj_job_id j)) (job_to_params P j)"
  have r: "y_job_id ?r = kj_job_id j" "same_job j (job_of_row P ?r)"
    by (auto simp: job_on_conflict_def job_to_params_def job_of_row_def same_job_def split: option.split)
  have "rw_put_job (pg_rows P) j s = s\<lparr>pb_jobs := dict_set (kj_job_id j) ?r (pb_jobs s)\<rparr>"
    by (simp add: pg_rows_def)
  with s r show "pg_batch_ok P (rw_put_job (pg_rows P) j s)
      \<and> pg_chunk P (rw_put_job (pg_rows P) j s) = pg_chunk P s
      \<and> pg_chunks P (rw_put_job (pg_rows P) j s) = pg_chunks P s
      \<and> (\<exists>j'. same_job j j' \<and> pg_job P (rw_put_job (pg_rows P) j s) = (pg_job P s)(kj_job_id j \<mapsto> j'))"
    by (intro conjI exI[of _ "job_of_row P ?r"])
      (auto simp: pg_batch_ok_def pg_chunk_def pg_chunks_def pg_job_def fun_eq_iff)
next
  fix s c
  assume s: "pg_batch_ok P s" and "chunk_ok c"
  let ?old = "map_of (pb_chunks s) (kc_chunk_id c)"
  let ?r = "chunk_on_conflict ?old (chunk_to_params P c)"
  have r: "x_chunk_id ?r = kc_chunk_id c" "same_result c (chunk_of_row P ?r)"
    using s by (auto simp: pg_batch_ok_def chunk_on_conflict_def chunk_to_params_def chunk_of_row_def
        same_result_def processed_identity_def split: option.split)
  have j: "kc_job_id (chunk_of_row P ?r) = (case pg_chunk P s (kc_chunk_id c) of
              None \<Rightarrow> kc_job_id c
            | Some e \<Rightarrow> if kc_job_id (chunk_of_row P ?r) = kc_job_id c then kc_job_id c else kc_job_id e)"
    by (auto simp: chunk_on_conflict_def chunk_to_params_def chunk_of_row_def pg_chunk_def split: option.split)
  have p: "rw_put_chunk (pg_rows P) c s = s\<lparr>pb_chunks := dict_set (kc_chunk_id c) ?r (pb_chunks s)\<rparr>"
    by (simp add: pg_rows_def)
  have "pg_chunk P (rw_put_chunk (pg_rows P) c s) = (pg_chunk P s)(kc_chunk_id c \<mapsto> chunk_of_row P ?r)"
    by (simp add: p pg_chunk_def fun_eq_iff)
  moreover have "pg_batch_ok P (rw_put_chunk (pg_rows P) c s)"
    using s r by (simp add: p pg_batch_ok_def)
  moreover have "pg_job P (rw_put_chunk (pg_rows P) c s) = pg_job P s"
    by (simp add: p pg_job_def fun_eq_iff)
  ultimately show "pg_batch_ok P (rw_put_chunk (pg_rows P) c s)
      \<and> pg_job P (rw_put_chunk (pg_rows P) c s) = pg_job P s
      \<and> (\<exists>c'. same_result c c'
          \<and> pg_chunk P (rw_put_chunk (pg_rows P) c s) = (pg_chunk P s)(kc_chunk_id c \<mapsto> c')
          \<and> kc_job_id c' = (case pg_chunk P s (kc_chunk_id c) of
              None \<Rightarrow> kc_job_id c
            | Some e \<Rightarrow> if kc_job_id c' = kc_job_id c then kc_job_id c else kc_job_id e))"
    using r j by blast
next
  fix s c job_id
  assume "pg_batch_ok P s" "chunk_ok c" "job_id \<noteq> kc_job_id c"
    and o: "\<forall>e. pg_chunk P s (kc_chunk_id c) = Some e \<longrightarrow> kc_job_id e \<noteq> job_id"
  let ?old = "map_of (pb_chunks s) (kc_chunk_id c)"
  let ?r = "chunk_on_conflict ?old (chunk_to_params P c)"
  have old: "\<forall>e. ?old = Some e \<longrightarrow> x_job_id e \<noteq> job_id"
    using o by (auto simp: pg_chunk_def chunk_of_row_def)
  then have "x_job_id ?r \<noteq> job_id"
    using \<open>job_id \<noteq> kc_job_id c\<close>
    by (auto simp: chunk_on_conflict_def chunk_to_params_def split: option.split)
  then show "pg_chunks P (rw_put_chunk (pg_rows P) c s) job_id = pg_chunks P s job_id"
    using old filter_dict_set[of "\<lambda>r. x_job_id r = job_id" ?r "pb_chunks s" "kc_chunk_id c"]
    by (simp add: pg_chunks_def pg_rows_def)
qed

section \<open>Order of delivery\<close>

text \<open>Rows that differ in their clock readings only.\<close>

definition job_but_times :: "job_record \<Rightarrow> job_record \<Rightarrow> bool" where
  "job_but_times j j' \<longleftrightarrow>
     j' = j\<lparr>kj_created_at := kj_created_at j', kj_updated_at := kj_updated_at j', kj_finished_at := kj_finished_at j'\<rparr>"

definition chunk_but_times :: "chunk_record \<Rightarrow> chunk_record \<Rightarrow> bool" where
  "chunk_but_times c c' \<longleftrightarrow>
     c' = c\<lparr>kc_created_at := kc_created_at c', kc_updated_at := kc_updated_at c'\<rparr>"

text \<open>A job snapshot whose set fields are truthy, as the events carry them.\<close>

definition snapshot_ok :: "job_record \<Rightarrow> bool" where
  "snapshot_ok j \<longleftrightarrow> job_ok j \<and> kj_chunk_count j \<noteq> 0 \<and> kj_view j \<noteq> Some [] \<and> kj_view_version j \<noteq> Some 0
     \<and> kj_manifest_id j \<noteq> Some [] \<and> kj_error_summary j = []"

text \<open>The snapshot a job row becomes, its times aside.\<close>

definition merged_job :: "datetime \<Rightarrow> job_record option \<Rightarrow> job_record \<Rightarrow> job_record" where
  "merged_job now existing j = (case merge_job_snapshot now existing j of Inr m \<Rightarrow> m | Inl _ \<Rightarrow> j)"

lemma merged_job_ok:
  assumes "mem_batch_ok s" "job_ok j" "aware now" "existing = map_of (mb_jobs s) (kj_job_id j)"
  shows "merge_job_snapshot now existing j = Inr (merged_job now existing j)
    \<and> job_ok (merged_job now existing j) \<and> kj_job_id (merged_job now existing j) = kj_job_id j"
proof (cases existing)
  case None
  have "job_ok (j\<lparr>kj_updated_at := now\<rparr>)" using assms(2,3) by (simp add: job_ok_def)
  with None show ?thesis by (simp add: merged_job_def merge_job_snapshot_def)
next
  case (Some e)
  with assms(1,4) have "job_ok e" "kj_job_id e = kj_job_id j" by (auto simp: mem_batch_ok_def)
  with assms(3) Some show ?thesis
    by (simp add: merged_job_def merge_job_snapshot_def job_ok_def mk_job_record_iff)
qed

lemma mem_recompute:
  fixes i n
  assumes "mem_batch_ok s" "aware now"
  defines "j \<equiv> recomputed_job now i n (mem_chunks s i) (map_of (mb_jobs s) i)"
  shows "\<exists>s'. recompute_job_status mem_rows now i n s = (Inr (), s') \<and> mem_batch_ok s'
    \<and> mb_chunks s' = mb_chunks s \<and> map_of (mb_jobs s') = (map_of (mb_jobs s))(i \<mapsto> j)"
proof -
  have ok: "job_ok j" and id: "kj_job_id j = i" unfolding j_def
    using assms by (auto simp: mem_batch_ok_def recomputed_job_def Let_def job_ok_def split: option.split)
  have "recompute_job_status mem_rows now i n s = (Inr (), rw_put_job mem_rows j s)"
    using ok unfolding j_def
    by (simp add: recompute_job_status_def membatch.read_job[OF assms(1)] membatch.read_chunks[OF assms(1)])
  moreover have "mem_batch_ok (rw_put_job mem_rows j s)" using membatch.put_job[OF assms(1) ok] by blast
  ultimately show ?thesis using id by (simp add: mem_rows_def)
qed

lemma mem_upsert_job:
  assumes "mem_batch_ok s" "aware (fst t)" "aware (snd t)" "job_ok j"
  defines "m \<equiv> merged_job (fst t) (map_of (mb_jobs s) (kj_job_id j)) j"
  shows "\<exists>s'. upsert_job mem_rows t j s = (Inr (), s') \<and> mem_batch_ok s' \<and> mb_chunks s' = mb_chunks s
    \<and> map_of (mb_jobs s') = (map_of (mb_jobs s))(kj_job_id j \<mapsto>
        recomputed_job (snd t) (kj_job_id j) (kj_chunk_count m) (mem_chunks s (kj_job_id j)) (Some m))"
proof -
  note m = merged_job_ok[OF assms(1,4,2) refl, folded m_def]
  let ?s = "rw_put_job mem_rows m s"
  have s: "mem_batch_ok ?s" using membatch.put_job[OF assms(1)] m by blast
  have p: "mb_chunks ?s = mb_chunks s" "map_of (mb_jobs ?s) = (map_of (mb_jobs s))(kj_job_id j \<mapsto> m)"
    using m by (simp_all add: mem_rows_def)
  have mc: "mem_chunks ?s = mem_chunks s" using p(1) by (simp add: mem_chunks_def fun_eq_iff)
  from mem_recompute[OF s assms(3), of "kj_job_id j" "kj_chunk_count m"] p mc m show ?thesis
    by (simp add: upsert_job_def membatch.read_job[OF assms(1)])
qed

lemma mem_write_chunk:
  assumes "mem_batch_ok s" "aware now" "chunk_ok c" "existing = map_of (mb_chunks s) (kc_chunk_id c)"
  defines "c' \<equiv> c\<lparr>kc_created_at := (case existing of Some e \<Rightarrow> kc_created_at e | None \<Rightarrow> kc_created_at c)\<rparr>"
  shows "\<exists>s'. write_chunk mem_rows now existing c s = (Inr (), s') \<and> mem_batch_ok s'
    \<and> mb_chunks s' = dict_set (kc_chunk_id c) c' (mb_chunks s)
    \<and> map_of (mb_jobs s') = (map_of (mb_jobs s))(kc_job_id c \<mapsto>
        recomputed_job now (kc_job_id c) (kc_chunk_count c) (mem_chunks s' (kc_job_id c))
          (map_of (mb_jobs s) (kc_job_id c)))"
proof -
  have ok: "chunk_ok c'" using assms(3,4) assms(1) unfolding c'_def
    by (auto simp: mem_batch_ok_def chunk_ok_def split: option.split)
  let ?s = "rw_put_chunk mem_rows c' s"
  have s: "mem_batch_ok ?s" using membatch.put_chunk[OF assms(1) ok] by blast
  have p: "mb_chunks ?s = dict_set (kc_chunk_id c) c' (mb_chunks s)" "mb_jobs ?s = mb_jobs s"
    by (simp_all add: mem_rows_def c'_def)
  from mem_recompute[OF s assms(2), of "kc_job_id c" "kc_chunk_count c"] obtain s' where s':
    "recompute_job_status mem_rows now (kc_job_id c) (kc_chunk_count c) ?s = (Inr (), s')" "mem_batch_ok s'"
    "mb_chunks s' = mb_chunks ?s"
    "map_of (mb_jobs s') = (map_of (mb_jobs s))(kc_job_id c \<mapsto>
       recomputed_job now (kc_job_id c) (kc_chunk_count c) (mem_chunks ?s (kc_job_id c))
          (map_of (mb_jobs s) (kc_job_id c)))" unfolding p(2) by blast
  have "mem_chunks s' = mem_chunks ?s" using s'(3) by (simp add: mem_chunks_def fun_eq_iff)
  moreover have "write_chunk mem_rows now existing c s = (Inr (), s')"
    using s'(1) ok unfolding c'_def by (simp add: write_chunk_def)
  ultimately show ?thesis using s' p by auto
qed

lemma dict_set_last: "k \<notin> set (dict_keys d) \<Longrightarrow> dict_set k v (d @ [(k, v0)]) = d @ [(k, v)]"
  unfolding dict_set_def dict_keys_def by (induction d) auto

lemma status_of_rows_created: "status_of_rows (cs @ [c\<lparr>kc_created_at := t\<rparr>]) n = status_of_rows (cs @ [c]) n"
  by (simp add: status_of_rows_def Let_def)

lemma merged_count: "snapshot_ok j \<Longrightarrow> mem_batch_ok s \<Longrightarrow> aware now \<Longrightarrow> e = map_of (mb_jobs s) (kj_job_id j) \<Longrightarrow>
    kj_chunk_count (merged_job now e j) = kj_chunk_count j"
  using merged_job_ok[of s j now e]
  by (auto simp: snapshot_ok_def merge_job_snapshot_def pick_int_def mk_job_record_iff split: option.splits)

text \<open>A recomputation changes the status and the times only.\<close>

lemma recomputed_some:
  "recomputed_job now i n cs (Some j) = j\<lparr>kj_status := status_of_rows cs (effective_count (Some j) n),
     kj_updated_at := now,
     kj_finished_at := (if status_of_rows cs (effective_count (Some j) n) \<in> set terminal_chunk then Some now else None)\<rparr>"
  by (simp add: recomputed_job_def Let_def)

lemma recomputed_but_times:
  "job_but_times (j\<lparr>kj_status := kj_status (recomputed_job now i n cs (Some j))\<rparr>) (recomputed_job now i n cs (Some j))"
  by (simp add: recomputed_some job_but_times_def)

lemma but_times_trans:
  "job_but_times (a\<lparr>kj_status := kj_status b\<rparr>) b \<Longrightarrow> job_but_times (b\<lparr>kj_status := kj_status c\<rparr>) c \<Longrightarrow>
    job_but_times (a\<lparr>kj_status := kj_status c\<rparr>) c"
  by (cases a; cases b; cases c) (simp add: job_but_times_def)

lemma merged_new: "job_ok j \<Longrightarrow> aware t \<Longrightarrow> merged_job t None j = j\<lparr>kj_updated_at := t\<rparr>"
  by (simp add: merged_job_def merge_job_snapshot_def job_ok_def mk_job_record_iff[THEN iffD2])

lemma merged_old:
  "job_ok e \<Longrightarrow> aware t \<Longrightarrow> merged_job t (Some e) j =
     e\<lparr>kj_view := pick_str (kj_view j) (kj_view e),
       kj_view_version := pick_opt_int (kj_view_version j) (kj_view_version e),
       kj_features := pick_list (kj_features j) (kj_features e),
       kj_groups := pick_list (kj_groups j) (kj_groups e),
       kj_total_items := pick_int (kj_total_items j) (kj_total_items e),
       kj_chunk_count := pick_int (kj_chunk_count j) (kj_chunk_count e),
       kj_write_online := (kj_write_online j \<or> kj_write_online e),
       kj_manifest_id := pick_str (kj_manifest_id j) (kj_manifest_id e),
       kj_manifest_ids := pick_list (kj_manifest_ids j) (kj_manifest_ids e), kj_updated_at := t\<rparr>"
  by (simp add: merged_job_def merge_job_snapshot_def job_ok_def mk_job_record_iff[THEN iffD2])

text \<open>Merging a snapshot before or after a recomputation gives the same row, status and times aside.\<close>

lemma merged_after:
  assumes "snapshot_ok j" "mem_batch_ok s" "aware t" "aware u" "aware v" "e = map_of (mb_jobs s) (kj_job_id j)"
  shows "job_but_times (merged_job t e j)
    ((merged_job u (Some (recomputed_job v (kj_job_id j) (kj_chunk_count j) cs e)) j)
      \<lparr>kj_status := kj_status (merged_job t e j)\<rparr>)"
proof (cases e)
  case None
  let ?q = "recomputed_job v (kj_job_id j) (kj_chunk_count j) cs e"
  have j: "job_ok j" using assms(1) by (simp add: snapshot_ok_def)
  have q: "job_ok ?q" using assms(5) None by (simp add: recomputed_job_def Let_def job_ok_def)
  show ?thesis
    unfolding merged_old[OF q assms(4)] unfolding None merged_new[OF j assms(3)]
    using assms(1)
    by (cases j) (simp add: recomputed_job_def Let_def job_but_times_def snapshot_ok_def pick_str_def
        pick_opt_int_def pick_list_def pick_int_def)
next
  case (Some e1)
  let ?q = "recomputed_job v (kj_job_id j) (kj_chunk_count j) cs e"
  from assms(2,6) Some have e1: "job_ok e1" by (auto simp: mem_batch_ok_def)
  then have q: "job_ok ?q" using assms(5) Some by (simp add: recomputed_some job_ok_def)
  show ?thesis
    unfolding merged_old[OF q assms(4)] unfolding Some merged_old[OF e1 assms(3)]
    by (simp add: recomputed_some job_but_times_def)
qed

lemma requested_replay_skipped:
  assumes "mem_batch_ok s" "map_of (mb_chunks s) (kc_chunk_id c) = Some e" "kc_status e \<in> set terminal_chunk"
  shows "upsert_chunk_requested mem_rows now c s = (Inr (), s)"
  using assms by (simp add: upsert_chunk_requested_def membatch.read_chunk)

lemma requested_fresh:
  assumes "mem_batch_ok s" "map_of (mb_chunks s) (kc_chunk_id c) = None"
  shows "upsert_chunk_requested mem_rows now c s = write_chunk mem_rows now None c s"
  using assms by (simp add: upsert_chunk_requested_def membatch.read_chunk)

lemma processed_open:
  assumes "mem_batch_ok s"
    "\<forall>e. map_of (mb_chunks s) (kc_chunk_id c) = Some e \<longrightarrow> kc_status e \<notin> set terminal_chunk"
  shows "upsert_chunk_processed mem_rows now c s
    = write_chunk mem_rows now (map_of (mb_chunks s) (kc_chunk_id c)) c s"
  using assms by (auto simp: upsert_chunk_processed_def membatch.read_chunk check_processed_conflict_def
      split: option.split)

lemma recomputed_agree:
  assumes "job_but_times m (w\<lparr>kj_status := kj_status m\<rparr>)" "job_but_times (m\<lparr>kj_status := kj_status r\<rparr>) r"
    "kj_chunk_count r = n" "kj_chunk_count w = n" "n \<noteq> 0"
  shows "job_but_times (recomputed_job a i n (cs @ [c\<lparr>kc_created_at := d\<rparr>]) (Some r))
    (recomputed_job b i n (cs @ [c]) (Some w))"
  using assms unfolding recomputed_some effective_count_def status_of_rows_created
  by (cases m; cases w; cases r) (simp add: job_but_times_def)

text \<open>Requested before processed, or after: the same rows, clock readings aside.\<close>

lemma delivery_order:
  fixes t :: "nat \<Rightarrow> datetime \<times> datetime" and jr cr cp s
  defines "i \<equiv> kj_job_id jr" and "k \<equiv> kc_chunk_id cp"
  assumes s: "mem_batch_ok s" "map_of (mb_chunks s) k = None"
    and jr: "snapshot_ok jr" and cr: "chunk_ok cr" "kc_chunk_id cr = k" "kc_job_id cr = i"
    "kc_chunk_count cr = kj_chunk_count jr" "kc_status cr = ''requested''"
    and cp: "chunk_ok cp" "kc_job_id cp = i" "kc_chunk_count cp = kj_chunk_count jr"
    "kc_status cp \<in> set terminal_chunk"
    and clock: "\<forall>n. aware (fst (t n)) \<and> aware (snd (t n))"
  defines "A \<equiv> apply_batch_ops mem_rows [(t 0, OpJob jr), (t 1, OpRequested cr), (t 2, OpProcessed cp)] s"
    and "B \<equiv> apply_batch_ops mem_rows [(t 3, OpProcessed cp), (t 4, OpJob jr), (t 5, OpRequested cr)] s"
  shows "\<exists>a b c d. map_of (mb_jobs A) = (map_of (mb_jobs s))(i \<mapsto> a)
    \<and> map_of (mb_jobs B) = (map_of (mb_jobs s))(i \<mapsto> b) \<and> job_but_times a b
    \<and> mb_chunks A = mb_chunks s @ [(k, c)] \<and> mb_chunks B = mb_chunks s @ [(k, d)]
    \<and> chunk_but_times c d \<and> processed_identity c = processed_identity cp"
proof -
  let ?e = "map_of (mb_jobs s) i"
  have new: "k \<notin> set (dict_keys (mb_chunks s))" using s(2) by (simp add: map_of_eq_None_iff dict_keys_def)
  have ct: "aware (fst (t n))" "aware (snd (t n))" for n using clock by auto
  have jok: "job_ok jr" using jr by (simp add: snapshot_ok_def)
  have req: "kc_status cr \<notin> set terminal_chunk" using cr(5) by (simp add: terminal_chunk_def)
  let ?m = "merged_job (fst (t 0)) ?e jr" and ?n = "kj_chunk_count jr"
  have n0: "?n \<noteq> 0" using jr by (simp add: snapshot_ok_def)
  have mn: "kj_chunk_count ?m = ?n" using merged_count[OF jr s(1) ct(1), of ?e] by (simp add: i_def)
  \<comment> \<open>requested first\<close>
  from mem_upsert_job[OF s(1) ct jok, of 0] obtain s1 r1 where s1:
    "upsert_job mem_rows (t 0) jr s = (Inr (), s1)" "mem_batch_ok s1" "mb_chunks s1 = mb_chunks s"
    and r1: "map_of (mb_jobs s1) = (map_of (mb_jobs s))(i \<mapsto> r1)" "job_but_times (?m\<lparr>kj_status := kj_status r1\<rparr>) r1"
    unfolding i_def[symmetric] using recomputed_but_times by blast
  have f1: "map_of (mb_chunks s1) (kc_chunk_id cr) = None" using s(2) s1(3) cr(2) by simp
  from mem_write_chunk[OF s1(2) ct(1) cr(1) f1[symmetric], of 1]
  have "\<exists>s2. write_chunk mem_rows (fst (t 1)) None cr s1 = (Inr (), s2) \<and> mem_batch_ok s2
    \<and> mb_chunks s2 = mb_chunks s @ [(k, cr)]
    \<and> map_of (mb_jobs s2) = (map_of (mb_jobs s))(i \<mapsto>
        recomputed_job (fst (t 1)) i ?n (mem_chunks s2 i) (Some r1))"
    using cr s1(3) r1(1) new by (simp add: dict_set_new)
  then obtain s2 r2 where s2:
    "write_chunk mem_rows (fst (t 1)) None cr s1 = (Inr (), s2)" "mem_batch_ok s2"
    "mb_chunks s2 = mb_chunks s @ [(k, cr)]"
    and r2: "map_of (mb_jobs s2) = (map_of (mb_jobs s))(i \<mapsto> r2)" "job_but_times (r1\<lparr>kj_status := kj_status r2\<rparr>) r2"
    using recomputed_but_times by blast
  have g2: "map_of (mb_chunks s2) (kc_chunk_id cp) = Some cr"
    using s(2) s2(3) by (simp add: k_def map_add_def)
  let ?c = "cp\<lparr>kc_created_at := kc_created_at cr\<rparr>" and ?X = "mem_chunks s i"
  from mem_write_chunk[OF s2(2) ct(1) cp(1) g2[symmetric], of 2] obtain s3 where s3:
    "write_chunk mem_rows (fst (t 2)) (Some cr) cp s2 = (Inr (), s3)"
    "mb_chunks s3 = mb_chunks s @ [(k, ?c)]"
    "map_of (mb_jobs s3) = (map_of (mb_jobs s))(i \<mapsto>
        recomputed_job (fst (t 2)) i ?n (mem_chunks s3 i) (Some r2))"
    using cp r2(1) s2(3) new by (auto simp: k_def[symmetric] dict_set_last)
  have x3: "mem_chunks s3 i = ?X @ [?c]" using s3(2) cp(2) by (simp add: mem_chunks_def dict_values_def)
  have A: "A = s3" unfolding A_def apply_batch_ops_def
    using s1(1) requested_fresh[OF s1(2) f1] s2(1) processed_open[OF s2(2), of cp] g2 req s3(1) by simp
  \<comment> \<open>processed first\<close>
  have f0: "map_of (mb_chunks s) (kc_chunk_id cp) = None" using s(2) by (simp add: k_def)
  from mem_write_chunk[OF s(1) ct(1) cp(1) f0[symmetric], of 3] obtain u1 where u1:
    "write_chunk mem_rows (fst (t 3)) None cp s = (Inr (), u1)" "mem_batch_ok u1"
    "mb_chunks u1 = mb_chunks s @ [(k, cp)]"
    "map_of (mb_jobs u1) = (map_of (mb_jobs s))(i \<mapsto>
        recomputed_job (fst (t 3)) i ?n (mem_chunks u1 i) ?e)"
    using cp new by (auto simp: k_def[symmetric] dict_set_new)
  let ?q = "recomputed_job (fst (t 3)) i ?n (mem_chunks u1 i) ?e"
  let ?w = "merged_job (fst (t 4)) (Some ?q) jr"
  have q: "map_of (mb_jobs u1) i = Some ?q" using u1(4) by simp
  have wn: "kj_chunk_count ?w = ?n" using merged_count[OF jr u1(2) ct(1), of "Some ?q"] q by (simp add: i_def)
  from mem_upsert_job[OF u1(2) ct jok, of 4, folded i_def, unfolded q wn] obtain u2 where u2:
    "upsert_job mem_rows (t 4) jr u1 = (Inr (), u2)" "mem_batch_ok u2" "mb_chunks u2 = mb_chunks u1"
    "map_of (mb_jobs u2) = (map_of (mb_jobs s))(i \<mapsto>
        recomputed_job (snd (t 4)) i ?n (mem_chunks u1 i) (Some ?w))"
    unfolding u1(4) by auto
  have x1: "mem_chunks u1 i = ?X @ [cp]" using u1(3) cp(2) by (simp add: mem_chunks_def dict_values_def)
  have g3: "map_of (mb_chunks u2) (kc_chunk_id cr) = Some cp"
    using s(2) u2(3) u1(3) cr(2) by (simp add: map_add_def)
  have B: "B = u2" unfolding B_def apply_batch_ops_def
    using processed_open[OF s(1), of cp] f0 u1(1) u2(1) requested_replay_skipped[OF u2(2) g3 cp(4)] by simp
  \<comment> \<open>the same rows\<close>
  have m: "job_but_times ?m (?w\<lparr>kj_status := kj_status ?m\<rparr>)"
    using merged_after[OF jr s(1) ct(1) ct(1) ct(1), of ?e] by (simp add: i_def)
  have rm: "job_but_times (?m\<lparr>kj_status := kj_status r2\<rparr>) r2" "kj_chunk_count r2 = ?n"
    using but_times_trans[OF r1(2) r2(2)] mn by (simp_all, cases r2) (simp add: job_but_times_def)
  have "job_but_times (recomputed_job (fst (t 2)) i ?n (mem_chunks s3 i) (Some r2))
      (recomputed_job (snd (t 4)) i ?n (mem_chunks u1 i) (Some ?w))"
    unfolding x3 x1 using recomputed_agree[OF m rm(1,2) _ n0] wn unfolding x1 .
  moreover have "chunk_but_times ?c cp" "processed_identity ?c = processed_identity cp"
    by (simp_all add: chunk_but_times_def processed_identity_def)
  ultimately show ?thesis unfolding A B using s3(2,3) u2(3,4)[unfolded u1(3)] by blast
qed

text \<open>
  A replayed request of a finished job keeps its chunks, and moves its end: every snapshot
  recomputes the job, and a recomputation that finds it finished takes the present time.
\<close>

lemma replay_moves_end:
  assumes s: "mem_batch_ok s" and t: "aware (fst t)" "aware (snd t)" and jr: "snapshot_ok jr"
    and j: "map_of (mb_jobs s) (kj_job_id jr) = Some j" "derived_from (mem_chunks s (kj_job_id jr)) j"
    "kj_chunk_count j = kj_chunk_count jr" "kj_status j \<in> set terminal_chunk"
  shows "\<exists>s' j'. upsert_job mem_rows t jr s = (Inr (), s') \<and> mb_chunks s' = mb_chunks s
    \<and> map_of (mb_jobs s') (kj_job_id jr) = Some j' \<and> kj_status j' = kj_status j
    \<and> kj_finished_at j' = Some (snd t)"
proof -
  have jok: "job_ok jr" "kj_chunk_count jr \<noteq> 0" using jr by (simp_all add: snapshot_ok_def)
  have n: "kj_chunk_count (merged_job (fst t) (Some j) jr) = kj_chunk_count jr"
    using merged_count[OF jr s t(1), of "Some j"] j(1) by simp
  have "kj_status j = status_of_rows (mem_chunks s (kj_job_id jr)) (kj_chunk_count jr)"
    using j(2,3) jok(2) by (simp add: derived_from_def)
  with mem_upsert_job[OF s t jok(1)] j(1,4) n jok(2) show ?thesis
    by (auto simp: recomputed_some effective_count_def)
qed

end
