(* ===== verification/MetadataWriter.thy ===== *)
theory MetadataWriter
  imports MetadataStore BatchMetadata OnlineWorker
begin

text \<open>
  The metadata writer: the projection of one message into the durable stores
  (api/metadata_writer.py) and one turn of its consumer (api/metadata_writer_runner.py).
  A store operation may fail in any way and may leave a partial write behind.
\<close>

section \<open>What the writer runs on\<close>

record ('q, 'm, 'b, 's) meta_runtime =
  mt_upsert :: "datetime \<Rightarrow> request_metadata \<Rightarrow> 'q \<Rightarrow> unit res \<times> 'q"
  mt_append :: "request_event \<Rightarrow> 'q \<Rightarrow> bool res \<times> 'q"
  mt_raw :: "datetime \<Rightarrow> raw_report_meta \<Rightarrow> 'm \<Rightarrow> unit res \<times> 'm"
  mt_batch :: "datetime \<times> datetime \<Rightarrow> batch_op \<Rightarrow> 'b \<Rightarrow> unit res \<times> 'b"
  mt_status_get :: "'s \<Rightarrow> string \<Rightarrow> request_status option res"
  mt_status_put :: "'s \<Rightarrow> request_status \<Rightarrow> 's res"
  mt_has_status :: bool  \<comment> \<open>whether a status store was given\<close>
  mt_hash :: "string \<Rightarrow> string"  \<comment> \<open>SHA-256 of the message bytes, given by their base64 text\<close>
  mt_repr :: "pyfloat \<Rightarrow> string"

record ('q, 'm, 'b, 's) meta_world =
  mw_requests :: 'q
  mw_raw :: 'm
  mw_batch :: 'b
  mw_status :: 's
  mw_broker :: broker
  mw_committed :: bool

text \<open>Statements that may raise, over the world: what was written before an error stays.\<close>

type_synonym ('a, 'w) proc = "'w \<Rightarrow> 'a res \<times> 'w"

definition st_lift :: "'a res \<Rightarrow> ('a, 'w) proc" where
  "st_lift r w = (r, w)"

definition st_bind :: "('a, 'w) proc \<Rightarrow> ('a \<Rightarrow> ('b, 'w) proc) \<Rightarrow> ('b, 'w) proc" where
  "st_bind m f w = (case m w of (Inl e, w1) \<Rightarrow> (Inl e, w1) | (Inr a, w1) \<Rightarrow> f a w1)"

text \<open>A relation that every statement keeps is kept by their composition.\<close>

definition st_keeps :: "('w \<Rightarrow> 'w \<Rightarrow> bool) \<Rightarrow> ('a, 'w) proc \<Rightarrow> bool" where
  "st_keeps K m \<longleftrightarrow> (\<forall>w. K w (snd (m w)))"

definition preorder_on_worlds :: "('w \<Rightarrow> 'w \<Rightarrow> bool) \<Rightarrow> bool" where
  "preorder_on_worlds K \<longleftrightarrow> (\<forall>w. K w w) \<and> (\<forall>a b c. K a b \<longrightarrow> K b c \<longrightarrow> K a c)"

lemma st_keeps_lift: "preorder_on_worlds K \<Longrightarrow> st_keeps K (st_lift r)"
  by (simp add: st_keeps_def st_lift_def preorder_on_worlds_def)

lemma st_keeps_bind:
  assumes "preorder_on_worlds K" "st_keeps K m" "\<And>a. st_keeps K (f a)"
  shows "st_keeps K (st_bind m f)"
proof -
  have "K w (snd (st_bind m f w))" for w
  proof (cases "m w")
    case (Pair r w1)
    then have 1: "K w w1" using assms(2) by (metis st_keeps_def snd_conv)
    show ?thesis
    proof (cases r)
      case (Inr a)
      have "K w1 (snd (f a w1))" using assms(3) by (simp add: st_keeps_def)
      with 1 Inr Pair assms(1) show ?thesis by (auto simp: st_bind_def preorder_on_worlds_def)
    qed (use 1 Pair in \<open>simp add: st_bind_def\<close>)
  qed
  then show ?thesis by (simp add: st_keeps_def)
qed

definition on_requests ::
    "('q \<Rightarrow> 'a res \<times> 'q) \<Rightarrow> ('a, ('q, 'm, 'b, 's) meta_world) proc" where
  "on_requests f w = (case f (mw_requests w) of (r, q) \<Rightarrow> (r, w\<lparr>mw_requests := q\<rparr>))"

definition on_raw :: "('m \<Rightarrow> 'a res \<times> 'm) \<Rightarrow> ('a, ('q, 'm, 'b, 's) meta_world) proc" where
  "on_raw f w = (case f (mw_raw w) of (r, m) \<Rightarrow> (r, w\<lparr>mw_raw := m\<rparr>))"

definition on_batch :: "('b \<Rightarrow> 'a res \<times> 'b) \<Rightarrow> ('a, ('q, 'm, 'b, 's) meta_world) proc" where
  "on_batch f w = (case f (mw_batch w) of (r, b) \<Rightarrow> (r, w\<lparr>mw_batch := b\<rparr>))"

section \<open>The projections\<close>

text \<open>
  \<open>clk i\<close> is the i-th clock reading: 0 in the projection, then those of the stores. \<open>h\<close> is the
  hash of the message, \<open>d\<close> its document; the result is the request id of the message.
\<close>

definition put_request ::
    "('q, 'm, 'b, 's) meta_runtime \<Rightarrow> datetime \<Rightarrow> request_metadata \<Rightarrow> (unit, ('q, 'm, 'b, 's) meta_world) proc" where
  "put_request M now m =
     st_bind (st_lift (mk_request_metadata m)) (\<lambda>m. on_requests (mt_upsert M now m))"

definition put_event ::
    "('q, 'm, 'b, 's) meta_runtime \<Rightarrow> request_event \<Rightarrow> (bool, ('q, 'm, 'b, 's) meta_world) proc" where
  "put_event M e = st_bind (st_lift (mk_request_event e)) (\<lambda>e. on_requests (mt_append M e))"

definition put_job ::
    "('q, 'm, 'b, 's) meta_runtime \<Rightarrow> datetime \<times> datetime \<Rightarrow> job_record
      \<Rightarrow> (unit, ('q, 'm, 'b, 's) meta_world) proc" where
  "put_job M t j = st_bind (st_lift (mk_job_record j)) (\<lambda>j. on_batch (mt_batch M t (OpJob j)))"

definition put_requested ::
    "('q, 'm, 'b, 's) meta_runtime \<Rightarrow> datetime \<times> datetime \<Rightarrow> chunk_record
      \<Rightarrow> (unit, ('q, 'm, 'b, 's) meta_world) proc" where
  "put_requested M t c = st_bind (st_lift (mk_chunk_record c)) (\<lambda>c. on_batch (mt_batch M t (OpRequested c)))"

definition put_processed ::
    "('q, 'm, 'b, 's) meta_runtime \<Rightarrow> datetime \<times> datetime \<Rightarrow> chunk_record
      \<Rightarrow> (unit, ('q, 'm, 'b, 's) meta_world) proc" where
  "put_processed M t c = st_bind (st_lift (mk_chunk_record c)) (\<lambda>c. on_batch (mt_batch M t (OpProcessed c)))"

text \<open>The metadata row of one report of a request.\<close>

definition report_row :: "compute_requested \<Rightarrow> datetime \<Rightarrow> report_descriptor \<Rightarrow> raw_report_meta res" where
  "report_row ev now r =
     rbind (ek_from_mapping (er_key (cq_entity ev)) None) (\<lambda>ek.
     mk_raw_report_meta \<lparr>m_report_ref = rd_report_ref r, m_report_type = rd_report_type r,
        m_entity_type = er_type (cq_entity ev), m_entity_key = ek, m_report_ts = rd_report_ts r,
        m_payload_size_bytes = rd_size_bytes r, m_content_hash = rd_content_hash r,
        m_storage_uri = rd_object_key r, m_created_at = now, m_format = rd_format r,
        m_compression = rd_compression r, m_available_at = rd_available_at r,
        m_availability_source = (if rd_available_at r \<noteq> None then Some ''ingestion_time'' else None)\<rparr>)"

fun project_reports ::
    "('q, 'm, 'b, 's) meta_runtime \<Rightarrow> (nat \<Rightarrow> datetime) \<Rightarrow> compute_requested \<Rightarrow> nat \<Rightarrow> report_descriptor list
      \<Rightarrow> (unit, ('q, 'm, 'b, 's) meta_world) proc" where
  "project_reports M clk ev i [] = st_lift (Inr ())"
| "project_reports M clk ev i (r # rs) =
     st_bind (st_lift (report_row ev (clk 0) r)) (\<lambda>m.
     st_bind (on_raw (mt_raw M (clk (i + 10)) m)) (\<lambda>_. project_reports M clk ev (i + 1) rs))"

definition requested_snapshot :: "compute_requested \<Rightarrow> datetime \<Rightarrow> request_metadata" where
  "requested_snapshot ev now = (blank_metadata (cq_request_id ev) now)
     \<lparr>qm_job_id := Some (cq_job_id ev), qm_status := Some ''accepted'',
      qm_entity_type := Some (er_type (cq_entity ev)), qm_entity_key := Some (er_key (cq_entity ev)),
      qm_view := Some (cq_view ev), qm_view_version := Some (cq_view_version ev),
      qm_features := cq_features ev, qm_groups := cq_groups ev,
      qm_created_at := Some (cq_occurred_at ev)\<rparr>"

definition project_requested ::
    "('q, 'm, 'b, 's) meta_runtime \<Rightarrow> (nat \<Rightarrow> datetime) \<Rightarrow> string \<Rightarrow> json
      \<Rightarrow> (json, ('q, 'm, 'b, 's) meta_world) proc" where
  "project_requested M clk h d =
     st_bind (st_lift (cq_from_dict d)) (\<lambda>ev.
     st_bind (put_request M (clk 1) (requested_snapshot ev (clk 0))) (\<lambda>_.
     st_bind (put_event M \<lparr>qe_event_hash = h, qe_event_type = cq_event_type ev,
        qe_occurred_at = cq_occurred_at ev, qe_created_at = clk 0,
        qe_request_id = JStr (cq_request_id ev),
        qe_summary =
          [(''request_id'', JStr (cq_request_id ev)), (''job_id'', JStr (cq_job_id ev)),
           (''entity'', er_to_dict (cq_entity ev)), (''view'', JStr (cq_view ev)),
           (''view_version'', JInt (cq_view_version ev)),
           (''report_refs'', of_str_list (map rd_report_ref (cq_reports ev)))]\<rparr>) (\<lambda>_.
     st_bind (project_reports M clk ev 0 (cq_reports ev)) (\<lambda>_.
     st_lift (Inr (JStr (cq_request_id ev)))))))"

text \<open>\<^verbatim>\<open>event.online_write_status or "written"\<close>.\<close>

definition projected_write_status :: "compute_completed \<Rightarrow> string" where
  "projected_write_status ev =
     (case cc_online_write_status ev of Some s \<Rightarrow> if s = [] then ''written'' else s | None \<Rightarrow> ''written'')"

definition completed_snapshot :: "compute_completed \<Rightarrow> datetime \<Rightarrow> request_metadata" where
  "completed_snapshot ev now = (blank_metadata (cc_request_id ev) now)
     \<lparr>qm_job_id := Some (cc_job_id ev), qm_status := Some ''completed'',
      qm_entity_type := Some (er_type (cc_entity ev)), qm_entity_key := Some (er_key (cc_entity ev)),
      qm_view := Some (cc_view ev), qm_view_version := Some (cc_view_version ev),
      qm_online_write_status := Some (projected_write_status ev), qm_finished_at := Some now\<rparr>"

definition project_completed ::
    "('q, 'm, 'b, 's) meta_runtime \<Rightarrow> (nat \<Rightarrow> datetime) \<Rightarrow> string \<Rightarrow> json
      \<Rightarrow> (json, ('q, 'm, 'b, 's) meta_world) proc" where
  "project_completed M clk h d =
     st_bind (st_lift (cc_from_dict d)) (\<lambda>ev.
     st_bind (put_request M (clk 1) (completed_snapshot ev (clk 0))) (\<lambda>_.
     st_bind (put_event M \<lparr>qe_event_hash = h, qe_event_type = cc_event_type ev,
        qe_occurred_at = cc_occurred_at ev, qe_created_at = clk 0,
        qe_request_id = JStr (cc_request_id ev),
        qe_summary =
          [(''request_id'', JStr (cc_request_id ev)), (''job_id'', JStr (cc_job_id ev)),
           (''view'', JStr (cc_view ev)), (''view_version'', JInt (cc_view_version ev)),
           (''written_features'', of_str_list (cc_written_features ev)),
           (''online_write_status'', JStr (projected_write_status ev))]\<rparr>) (\<lambda>_.
     st_lift (Inr (JStr (cc_request_id ev))))))"

definition project_offline_requested ::
    "('q, 'm, 'b, 's) meta_runtime \<Rightarrow> (nat \<Rightarrow> datetime) \<Rightarrow> string \<Rightarrow> json
      \<Rightarrow> (json, ('q, 'm, 'b, 's) meta_world) proc" where
  "project_offline_requested M clk h d =
     st_bind (st_lift (ow_from_dict d)) (\<lambda>ev. let ws = ow_write_set ev in
     st_bind (put_request M (clk 1) ((blank_metadata (ow_request_id ev) (clk 0))
        \<lparr>qm_job_id := Some (ow_job_id ev), qm_view := Some (ws_view ws),
         qm_view_version := Some (ws_view_version ws), qm_offline_write_status := Some ''pending''\<rparr>)) (\<lambda>_.
     st_bind (put_event M \<lparr>qe_event_hash = h, qe_event_type = ow_event_type ev,
        qe_occurred_at = ow_occurred_at ev, qe_created_at = clk 0,
        qe_request_id = JStr (ow_request_id ev),
        qe_summary =
          [(''request_id'', JStr (ow_request_id ev)), (''job_id'', JStr (ow_job_id ev)),
           (''view'', JStr (ws_view ws)), (''view_version'', JInt (ws_view_version ws)),
           (''source_refs'', of_str_dict (ws_source_refs ws))]\<rparr>) (\<lambda>_.
     st_lift (Inr (JStr (ow_request_id ev))))))"

text \<open>
  The snapshot of a dead-lettered request. An original id that is no text is refused as every
  ill-typed field is.
\<close>

definition dlq_snapshot :: "dead_letter \<Rightarrow> datetime \<Rightarrow> request_metadata option res" where
  "dlq_snapshot ev now =
     (if \<not> truthy (dl_original_request_id ev) \<or> dl_failure_stage ev = ''metadata_writer'' then Inr None
      else rbind (as_str (dl_original_request_id ev)) (\<lambda>request_id.
        let m = (blank_metadata request_id now)\<lparr>qm_error := dl_error ev\<rparr>
        in Inr (Some (if dl_failure_stage ev = ''offline_writer''
                      then m\<lparr>qm_offline_write_status := Some ''failed_dlq''\<rparr>
                      else m\<lparr>qm_status := Some ''failed''\<rparr>))))"

definition project_dlq ::
    "('q, 'm, 'b, 's) meta_runtime \<Rightarrow> (nat \<Rightarrow> datetime) \<Rightarrow> string \<Rightarrow> json
      \<Rightarrow> (json, ('q, 'm, 'b, 's) meta_world) proc" where
  "project_dlq M clk h d =
     st_bind (st_lift (dl_from_dict d)) (\<lambda>ev.
     st_bind (put_event M \<lparr>qe_event_hash = h, qe_event_type = dl_event_type ev,
        qe_occurred_at = dl_occurred_at ev, qe_created_at = clk 0,
        qe_request_id = dl_original_request_id ev,
        qe_summary =
          [(''failure_stage'', JStr (dl_failure_stage ev)), (''failure_status'', JStr (dl_failure_status ev)),
           (''error'', of_opt JStr (dl_error ev)), (''original_request_id'', dl_original_request_id ev),
           (''original_job_id'', dl_original_job_id ev),
           (''original_correlation_id'', dl_original_correlation_id ev),
           (''attempt_count'', of_opt JInt (dl_attempt_count ev)),
           (''max_attempts'', of_opt JInt (dl_max_attempts ev))]\<rparr>) (\<lambda>_.
     st_bind (st_lift (dlq_snapshot ev (clk 0))) (\<lambda>snapshot.
     st_bind (case snapshot of None \<Rightarrow> st_lift (Inr ()) | Some m \<Rightarrow> put_request M (clk 1) m) (\<lambda>_.
     st_lift (Inr (dl_original_request_id ev))))))"

definition project_model_score ::
    "('q, 'm, 'b, 's) meta_runtime \<Rightarrow> (nat \<Rightarrow> datetime) \<Rightarrow> string \<Rightarrow> json
      \<Rightarrow> (json, ('q, 'm, 'b, 's) meta_world) proc" where
  "project_model_score M clk h d =
     st_bind (st_lift (ms_from_dict d)) (\<lambda>ev.
     st_bind (put_event M \<lparr>qe_event_hash = h, qe_event_type = ms_event_type ev,
        qe_occurred_at = ms_occurred_at ev, qe_created_at = clk 0,
        qe_request_id = JStr (ms_score_write_id ev),
        qe_summary =
          [(''score_write_id'', JStr (ms_score_write_id ev)), (''entity'', er_to_dict (ms_entity ev)),
           (''view'', JStr (ms_view ev)), (''view_version'', JInt (ms_view_version ev)),
           (''features'', of_str_list (map si_feature (ms_scores ev))),
           (''models'', JList (map (\<lambda>s. JObj
              [(''feature'', JStr (si_feature s)), (''model_name'', JStr (si_model_name s)),
               (''model_version'', JStr (si_model_version s)),
               (''source_request_id'', of_opt JStr (si_source_request_id s)),
               (''decision_request_id'', of_opt JStr (si_decision_request_id s))]) (ms_scores ev))),
           (''write_online'', JBool (ms_write_online ev)),
           (''write_offline'', JBool (ms_write_offline ev))]\<rparr>) (\<lambda>_.
     st_lift (Inr (JStr (ms_score_write_id ev)))))"

definition requested_job :: "batch_chunk_requested \<Rightarrow> datetime \<Rightarrow> job_record" where
  "requested_job ev now =
     \<lparr>kj_job_id = bc_batch_job_id ev, kj_status = ''accepted'', kj_created_at = now,
      kj_updated_at = now, kj_view = Some (bc_view ev), kj_view_version = Some (bc_view_version ev),
      kj_features = bc_features ev, kj_groups = bc_groups ev, kj_total_items = bc_total_items ev,
      kj_chunk_count = bc_chunk_count ev, kj_write_online = bc_write_online ev,
      kj_finished_at = None, kj_error_summary = [], kj_manifest_id = bc_manifest_id ev,
      kj_manifest_ids = bc_manifest_ids ev\<rparr>"

definition requested_chunk :: "batch_chunk_requested \<Rightarrow> datetime \<Rightarrow> chunk_record" where
  "requested_chunk ev now =
     \<lparr>kc_chunk_id = bc_chunk_id ev, kc_job_id = bc_batch_job_id ev,
      kc_chunk_index = bc_chunk_index ev, kc_chunk_count = bc_chunk_count ev,
      kc_status = ''requested'', kc_item_count = int (length (bc_items ev)), kc_created_at = now,
      kc_updated_at = now, kc_ok_items = 0, kc_failed_items = 0, kc_first_errors = [],
      kc_finished_at = None\<rparr>"

definition project_batch_chunk_requested ::
    "('q, 'm, 'b, 's) meta_runtime \<Rightarrow> (nat \<Rightarrow> datetime) \<Rightarrow> string \<Rightarrow> json
      \<Rightarrow> (json, ('q, 'm, 'b, 's) meta_world) proc" where
  "project_batch_chunk_requested M clk h d =
     st_bind (st_lift (bc_from_dict d)) (\<lambda>ev.
     st_bind (put_job M (clk 1, clk 2) (requested_job ev (clk 0))) (\<lambda>_.
     st_bind (put_requested M (clk 3, clk 4) (requested_chunk ev (clk 0))) (\<lambda>_.
     st_bind (put_event M \<lparr>qe_event_hash = h, qe_event_type = bc_event_type ev,
        qe_occurred_at = bc_occurred_at ev, qe_created_at = clk 0,
        qe_request_id = JStr (bc_batch_job_id ev),
        qe_summary =
          [(''batch_job_id'', JStr (bc_batch_job_id ev)), (''chunk_id'', JStr (bc_chunk_id ev)),
           (''view'', JStr (bc_view ev)), (''view_version'', JInt (bc_view_version ev)),
           (''chunk_index'', JInt (bc_chunk_index ev)), (''chunk_count'', JInt (bc_chunk_count ev)),
           (''item_count'', JInt (int (length (bc_items ev))))]\<rparr>) (\<lambda>_.
     st_lift (Inr (JStr (bc_batch_job_id ev)))))))"

definition processed_chunk :: "batch_chunk_processed \<Rightarrow> datetime \<Rightarrow> chunk_record" where
  "processed_chunk ev now =
     \<lparr>kc_chunk_id = bp_chunk_id ev, kc_job_id = bp_batch_job_id ev,
      kc_chunk_index = bp_chunk_index ev, kc_chunk_count = bp_chunk_count ev,
      kc_status = bp_status ev, kc_item_count = bp_item_count ev, kc_created_at = now,
      kc_updated_at = now, kc_ok_items = bp_ok_items ev, kc_failed_items = bp_failed_items ev,
      kc_first_errors = bp_first_errors ev, kc_finished_at = Some (bp_processed_at ev)\<rparr>"

definition project_batch_chunk_processed ::
    "('q, 'm, 'b, 's) meta_runtime \<Rightarrow> (nat \<Rightarrow> datetime) \<Rightarrow> string \<Rightarrow> json
      \<Rightarrow> (json, ('q, 'm, 'b, 's) meta_world) proc" where
  "project_batch_chunk_processed M clk h d =
     st_bind (st_lift (bp_from_dict d)) (\<lambda>ev.
     st_bind (put_processed M (clk 1, clk 2) (processed_chunk ev (clk 0))) (\<lambda>_.
     st_bind (put_event M \<lparr>qe_event_hash = h, qe_event_type = bp_event_type ev,
        qe_occurred_at = bp_processed_at ev, qe_created_at = clk 0,
        qe_request_id = JStr (bp_batch_job_id ev),
        qe_summary =
          [(''batch_job_id'', JStr (bp_batch_job_id ev)), (''chunk_id'', JStr (bp_chunk_id ev)),
           (''status'', JStr (bp_status ev)), (''item_count'', JInt (bp_item_count ev)),
           (''ok_items'', JInt (bp_ok_items ev)), (''failed_items'', JInt (bp_failed_items ev)),
           (''first_errors'', of_str_list (bp_first_errors ev))]\<rparr>) (\<lambda>_.
     st_lift (Inr (JStr (bp_batch_job_id ev))))))"

section \<open>One message\<close>

definition handlers ::
    "('q, 'm, 'b, 's) meta_runtime \<Rightarrow>
      (string, (nat \<Rightarrow> datetime) \<Rightarrow> string \<Rightarrow> json \<Rightarrow> (json, ('q, 'm, 'b, 's) meta_world) proc) dict" where
  "handlers M =
     [(''feature_compute.requested'', project_requested M),
      (''feature_compute.completed'', project_completed M),
      (''feature_write.offline.requested'', project_offline_requested M),
      (''model_score.write.requested'', project_model_score M),
      (''batch.chunk.requested'', project_batch_chunk_requested M),
      (''batch.chunk.processed'', project_batch_chunk_processed M),
      (''event.dlq'', project_dlq M)]"

record projection_result =
  pn_status :: string
  pn_event_type :: json
  pn_request_id :: json
  pn_error :: "exc option"

definition event_type_of :: "json \<Rightarrow> json" where
  "event_type_of d =
     (case d of
        JObj kvs \<Rightarrow> (case map_of kvs ''event_type'' of Some t \<Rightarrow> t | None \<Rightarrow> JNull)
      | _ \<Rightarrow> JNull)"

text \<open>A dictionary lookup with a list or a dictionary as its key raises.\<close>

fun hashable :: "json \<Rightarrow> bool" where
  "hashable (JList _) = False"
| "hashable (JObj _) = False"
| "hashable _ = True"

definition lookup_handler ::
    "('q, 'm, 'b, 's) meta_runtime \<Rightarrow> json
      \<Rightarrow> ((nat \<Rightarrow> datetime) \<Rightarrow> string \<Rightarrow> json \<Rightarrow> (json, ('q, 'm, 'b, 's) meta_world) proc) option res" where
  "lookup_handler M t =
     (if \<not> hashable t then Inl (TypeError ''unhashable type'')
      else Inr (case t of JStr s \<Rightarrow> map_of (handlers M) s | _ \<Rightarrow> None))"

definition projection_failed :: "exc \<Rightarrow> string" where
  "projection_failed e =
     (if caught e then ''deserialization_failed''
      else case e of ConflictError _ \<Rightarrow> ''structural_conflict'' | _ \<Rightarrow> ''store_failed'')"

definition project_event ::
    "('q, 'm, 'b, 's) meta_runtime \<Rightarrow> (nat \<Rightarrow> datetime) \<Rightarrow> message
      \<Rightarrow> (projection_result, ('q, 'm, 'b, 's) meta_world) proc" where
  "project_event M clk m w =
     (let out = (\<lambda>status t. \<lparr>pn_status = status, pn_event_type = t, pn_request_id = JNull, pn_error = None\<rparr>) in
      case msg_doc m of
        None \<Rightarrow> (Inr ((out ''deserialization_failed'' JNull)\<lparr>pn_error := Some (ValueError ''Expecting value'')\<rparr>), w)
      | Some d \<Rightarrow>
          let t = event_type_of d in
          (case lookup_handler M t of
             Inl e \<Rightarrow> (Inl e, w)
           | Inr None \<Rightarrow> (Inr (out ''unknown_event_type'' t), w)
           | Inr (Some handler) \<Rightarrow>
               (case handler clk (mt_hash M (msg_b64 m)) d w of
                  (Inl e, w1) \<Rightarrow> (Inr ((out (projection_failed e) t)\<lparr>pn_error := Some e\<rparr>), w1)
                | (Inr request_id, w1) \<Rightarrow> (Inr ((out ''ok'' t)\<lparr>pn_request_id := request_id\<rparr>), w1))))"

section \<open>One turn of the consumer\<close>

definition topic_by_event_type :: "(string, string) dict" where
  "topic_by_event_type =
     [(''feature_compute.requested'', ''fp.feature-compute.online''),
      (''feature_compute.completed'', ''fp.feature-compute.completed''),
      (''feature_write.offline.requested'', ''fp.feature-write.offline''),
      (''model_score.write.requested'', ''fp.model-score.write''),
      (''batch.chunk.requested'', ''fp.feature-compute.batch''),
      (''batch.chunk.processed'', ''fp.batch.events''),
      (''event.dlq'', ''fp.dlq'')]"

definition topic_of_event :: "json \<Rightarrow> string" where
  "topic_of_event t =
     (case t of
        JStr s \<Rightarrow> (case map_of topic_by_event_type s of Some topic \<Rightarrow> topic | None \<Rightarrow> ''unknown'')
      | _ \<Rightarrow> ''unknown'')"

definition structural_statuses :: "string list" where
  "structural_statuses = [''structural_conflict'', ''deserialization_failed'', ''unknown_event_type'']"

definition meta_dead_letter ::
    "('q, 'm, 'b, 's) meta_runtime \<Rightarrow> datetime \<Rightarrow> message \<Rightarrow> projection_result
      \<Rightarrow> ('q, 'm, 'b, 's) meta_world \<Rightarrow> process_result \<times> ('q, 'm, 'b, 's) meta_world" where
  "meta_dead_letter M now m r w =
     (case route_to_dlq (mt_repr M) now (topic_of_event (pn_event_type r)) ''metadata_writer'' (pn_status r)
             (map_option exc_text (pn_error r)) m None None (mw_broker w) of
        (True, b) \<Rightarrow> (committed_pr ''dead_lettered'', w\<lparr>mw_broker := b, mw_committed := True\<rparr>)
      | (False, b) \<Rightarrow> (failed_pr ''dlq_publish_failed'', w\<lparr>mw_broker := b\<rparr>))"

definition mark_metadata_written ::
    "('q, 'm, 'b, 's) meta_runtime \<Rightarrow> datetime \<Rightarrow> string \<Rightarrow> ('q, 'm, 'b, 's) meta_world
      \<Rightarrow> ('q, 'm, 'b, 's) meta_world" where
  "mark_metadata_written M now request_id w =
     (case mt_status_get M (mw_status w) request_id of
        Inl _ \<Rightarrow> w
      | Inr None \<Rightarrow> w
      | Inr (Some current) \<Rightarrow>
          if rq_metadata_write_status current = Some ''written'' then w
          else case rbind (mk_request_status
                  (current\<lparr>rq_metadata_write_status := Some ''written'', rq_updated_at := now\<rparr>))
                  (mt_status_put M (mw_status w)) of
                 Inl _ \<Rightarrow> w
               | Inr s \<Rightarrow> w\<lparr>mw_status := s\<rparr>)"

definition meta_process_next ::
    "('q, 'm, 'b, 's) meta_runtime \<Rightarrow> (nat \<Rightarrow> datetime) \<Rightarrow> message option
      \<Rightarrow> (process_result, ('q, 'm, 'b, 's) meta_world) proc" where
  "meta_process_next M clk polled w =
     (case polled of
        None \<Rightarrow> (Inr (failed_pr ''idle''), w)
      | Some m \<Rightarrow>
      if msg_error m \<noteq> None then (Inr (failed_pr ''consume_error''), w)
      else case project_event M clk m w of
        (Inl e, w1) \<Rightarrow> (Inl e, w1)
      | (Inr r, w1) \<Rightarrow>
          if pn_status r = ''store_failed'' then (Inr (failed_pr ''store_failed''), w1)
          else if pn_status r \<in> set structural_statuses then
            (case meta_dead_letter M (clk 5) m r w1 of (pr, w2) \<Rightarrow> (Inr pr, w2))
          else
            let w2 = (case pn_request_id r of
                        JStr request_id \<Rightarrow>
                          if mt_has_status M \<and> request_id \<noteq> [] \<and> pn_event_type r = JStr ''feature_compute.completed''
                          then mark_metadata_written M (clk 6) request_id w1 else w1
                      | _ \<Rightarrow> w1)
            in (Inr (committed_pr ''ok''), w2\<lparr>mw_committed := True\<rparr>))"

text \<open>
  \<^verbatim>\<open>run\<close> over what the coming polls answer; its length is the bound on the messages. Without a
  bound it stops at the first idle poll. An exception that leaves the turn ends the process.
\<close>

fun meta_run ::
    "('q, 'm, 'b, 's) meta_runtime \<Rightarrow> (nat \<Rightarrow> nat \<Rightarrow> datetime) \<Rightarrow> bool \<Rightarrow> nat \<Rightarrow> message option list
      \<Rightarrow> ('q, 'm, 'b, 's) meta_world
      \<Rightarrow> process_result list \<times> exc option \<times> ('q, 'm, 'b, 's) meta_world" where
  "meta_run M clk bounded i [] w = ([], None, w)"
| "meta_run M clk bounded i (p # ps) w =
     (case meta_process_next M (clk i) p (w\<lparr>mw_committed := False\<rparr>) of
        (Inl e, w1) \<Rightarrow> ([], Some e, w1)
      | (Inr pr, w1) \<Rightarrow>
          if \<not> bounded \<and> pr_status pr = ''idle'' then ([pr], None, w1)
          else (case meta_run M clk bounded (i + 1) ps w1 of (prs, e, w2) \<Rightarrow> (pr # prs, e, w2)))"

section \<open>The outcome of a turn\<close>

lemma st_bind_Inr:
  "st_bind m f w = (Inr b, w2) \<Longrightarrow> \<exists>a w1. m w = (Inr a, w1) \<and> f a w1 = (Inr b, w2)"
  by (auto simp: st_bind_def split: prod.splits sum.splits)

text \<open>No statement of a projection touches the broker, the statuses or the commit.\<close>

definition frame :: "('q, 'm, 'b, 's) meta_world \<Rightarrow> ('q, 'm, 'b, 's) meta_world \<Rightarrow> bool" where
  "frame w w' \<longleftrightarrow> mw_broker w' = mw_broker w \<and> mw_status w' = mw_status w \<and> mw_committed w' = mw_committed w"

lemma frame_preorder: "preorder_on_worlds frame"
  by (auto simp: preorder_on_worlds_def frame_def)

lemma st_keeps_lift_bind:
  "(\<And>a. r = Inr a \<Longrightarrow> st_keeps K (f a)) \<Longrightarrow> preorder_on_worlds K \<Longrightarrow> st_keeps K (st_bind (st_lift r) f)"
  by (cases r) (auto simp: st_keeps_def st_bind_def st_lift_def preorder_on_worlds_def)

lemma dlq_snapshot_status:
  "dlq_snapshot ev now = Inr (Some m) \<Longrightarrow> qm_status m \<in> {None, Some ''accepted''} \<union> Some ` set terminal_request"
  by (auto simp: dlq_snapshot_def blank_metadata_def terminal_request_def Let_def split: if_splits)

lemma reports_keep:
  assumes "preorder_on_worlds K"
    and "\<And>ev now r m t. report_row ev now r = Inr m \<Longrightarrow> st_keeps K (on_raw (mt_raw M t m))"
  shows "st_keeps K (project_reports M clk ev i rs)"
  by (induction rs arbitrary: i)
    (auto intro!: st_keeps_lift[OF assms(1)] st_keeps_lift_bind[OF _ assms(1)] st_keeps_bind[OF assms(1)] assms(2))

text \<open>A projection keeps what its store statements keep.\<close>

lemma projections_keep:
  assumes K: "preorder_on_worlds K"
    and req: "\<And>t m. qm_status m \<in> {None, Some ''accepted''} \<union> Some ` set terminal_request \<Longrightarrow>
      st_keeps K (put_request M t m)"
    and ev: "\<And>e. qe_event_hash e = h \<Longrightarrow> st_keeps K (put_event M e)"
    and raw: "\<And>ev now r m t. report_row ev now r = Inr m \<Longrightarrow> st_keeps K (on_raw (mt_raw M t m))"
    and job: "\<And>t j. st_keeps K (put_job M t j)"
    and chunk: "\<And>t c. st_keeps K (put_requested M t c)" "\<And>t c. st_keeps K (put_processed M t c)"
    and handler: "(t, handler) \<in> set (handlers M)"
  shows "st_keeps K (handler clk h d)"
proof -
  note lift = st_keeps_lift[OF K] and bind = st_keeps_bind[OF K]
  have lb: "st_keeps K (st_bind (st_lift r) f)" if "\<And>a. r = Inr a \<Longrightarrow> st_keeps K (f a)" for r :: "'x res" and f :: "'x \<Rightarrow> ('y, _) proc"
    using st_keeps_lift_bind[OF that K] .
  have reports: "st_keeps K (project_reports M clk ev i rs)" for ev i rs
    by (rule reports_keep[OF K]) (rule raw)
  have dlq: "st_keeps K (project_dlq M clk h d)"
    unfolding project_dlq_def
  proof (intro lb bind lift ev)
    fix ev snapshot
    assume "dlq_snapshot ev (clk 0) = Inr snapshot"
    then show "st_keeps K (case snapshot of None \<Rightarrow> st_lift (Inr ()) | Some m \<Rightarrow> put_request M (clk 1) m)"
      by (cases snapshot) (auto intro!: lift req dest: dlq_snapshot_status)
  qed simp
  have rest: "st_keeps K (project_requested M clk h d)" "st_keeps K (project_completed M clk h d)"
    "st_keeps K (project_offline_requested M clk h d)" "st_keeps K (project_model_score M clk h d)"
    "st_keeps K (project_batch_chunk_requested M clk h d)" "st_keeps K (project_batch_chunk_processed M clk h d)"
    unfolding project_requested_def project_completed_def project_offline_requested_def
      project_model_score_def project_batch_chunk_requested_def project_batch_chunk_processed_def Let_def
    by (intro lb bind lift ev req reports job chunk; simp add: requested_snapshot_def completed_snapshot_def
        blank_metadata_def terminal_request_def)+
  from handler dlq rest show ?thesis by (auto simp: handlers_def)
qed

lemma on_frame: "st_keeps frame (on_requests f)" "st_keeps frame (on_raw g)" "st_keeps frame (on_batch k)"
  by (auto simp: st_keeps_def on_requests_def on_raw_def on_batch_def frame_def split: prod.split)

lemma handler_frame:
  assumes "(t, handler) \<in> set (handlers M)" "handler clk h d w = (r, w')"
  shows "frame w w'"
proof -
  note bind = st_keeps_bind[OF frame_preorder] and lift = st_keeps_lift[OF frame_preorder]
  have "st_keeps frame (handler clk h d)"
    by (rule projections_keep[OF frame_preorder _ _ _ _ _ _ assms(1)])
      (auto simp: put_request_def put_event_def put_job_def put_requested_def put_processed_def
        intro!: bind lift on_frame)
  with assms(2) show ?thesis by (metis st_keeps_def snd_conv)
qed

text \<open>Every way a projection can end.\<close>

lemma project_event_cases:
  assumes "project_event M clk m w = (r, w')"
  obtains (crashed) d e where "msg_doc m = Some d" "\<not> hashable (event_type_of d)" "r = Inl e" "w' = w"
  | (refused) x where "r = Inr x" "pn_status x \<in> set structural_statuses" "frame w w'"
  | (unstored) x where "r = Inr x" "pn_status x = ''store_failed''" "frame w w'"
  | (projected) d t handler id x where "msg_doc m = Some d" "event_type_of d = JStr t"
      "(t, handler) \<in> set (handlers M)" "handler clk (mt_hash M (msg_b64 m)) d w = (Inr id, w')"
      "r = Inr x" "pn_status x = ''ok''" "pn_request_id x = id" "frame w w'"
proof (cases "msg_doc m")
  case None
  with assms show thesis
    by (intro refused) (auto simp: project_event_def structural_statuses_def frame_def)
next
  case (Some d)
  show thesis
  proof (cases "lookup_handler M (event_type_of d)")
    case (Inl e)
    with Some assms show thesis
      by (intro crashed[of d e]) (auto simp: project_event_def lookup_handler_def split: if_splits)
  next
    case (Inr ho)
    show thesis
    proof (cases ho)
      case None
      with Some Inr assms show thesis
        by (intro refused) (auto simp: project_event_def structural_statuses_def frame_def)
    next
      case (Some handler)
      with Inr obtain t where t: "event_type_of d = JStr t" "(t, handler) \<in> set (handlers M)"
        by (auto simp: lookup_handler_def map_of_SomeD split: if_splits json.splits)
      obtain hr w1 where h: "handler clk (mt_hash M (msg_b64 m)) d w = (hr, w1)"
        by (cases "handler clk (mt_hash M (msg_b64 m)) d w")
      note fr = handler_frame[OF t(2) h]
      have ev: "project_event M clk m w =
        (case hr of Inl e \<Rightarrow> (Inr \<lparr>pn_status = projection_failed e, pn_event_type = JStr t,
             pn_request_id = JNull, pn_error = Some e\<rparr>, w1)
         | Inr i \<Rightarrow> (Inr \<lparr>pn_status = ''ok'', pn_event_type = JStr t, pn_request_id = i, pn_error = None\<rparr>, w1))"
        using \<open>msg_doc m = Some d\<close> Inr Some h t(1) by (simp add: project_event_def split: sum.split)
      show thesis
      proof (cases hr)
        case (Inl e)
        have "projection_failed e \<in> set structural_statuses \<or> projection_failed e = ''store_failed''"
          by (auto simp: projection_failed_def structural_statuses_def split: exc.split)
        with refused unstored Inl ev assms fr show thesis by fastforce
      next
        case (Inr i)
        with projected[OF \<open>msg_doc m = Some d\<close> t] h ev assms fr show thesis by auto
      qed
    qed
  qed
qed

lemma mark_frame:
  "mw_requests (mark_metadata_written M now i w) = mw_requests w"
  "mw_raw (mark_metadata_written M now i w) = mw_raw w"
  "mw_batch (mark_metadata_written M now i w) = mw_batch w"
  "mw_broker (mark_metadata_written M now i w) = mw_broker w"
  by (auto simp: mark_metadata_written_def split: sum.split option.split)

text \<open>
  What a turn on a message ends with: an exception exactly for an event type no dictionary takes
  as a key, and then nothing happened; else a commit after a projection or after the dead letter
  is on its topic, or no commit at all, when a store or the broker failed.
\<close>

lemma turn_outcome:
  assumes m: "msg_error m = None" and r: "meta_process_next M clk (Some m) w = (r, w')"
  shows "(case r of
      Inl e \<Rightarrow> w' = w \<and> (\<exists>d. msg_doc m = Some d \<and> \<not> hashable (event_type_of d))
    | Inr pr \<Rightarrow>
        (\<forall>d. msg_doc m = Some d \<longrightarrow> hashable (event_type_of d))
        \<and> (if pr_committed pr
            then mw_committed w' \<and>
              (pr_status pr = ''ok'' \<and> br_log (mw_broker w') = br_log (mw_broker w)
               \<or> pr_status pr = ''dead_lettered''
                 \<and> (\<exists>l. br_log (mw_broker w') = br_log (mw_broker w) @ [l] \<and> pb_topic l = ''fp.dlq''
                      \<and> jitem (pb_doc l) ''source_payload_b64'' = Inr (JStr (msg_b64 m))))
            else mw_committed w' = mw_committed w
              \<and> pr_status pr \<in> {''store_failed'', ''dlq_publish_failed''}))"
proof -
  obtain pe w1 where pe: "project_event M clk m w = (pe, w1)" by (cases "project_event M clk m w")
  from pe show ?thesis
  proof (cases rule: project_event_cases)
    case (crashed d e)
    with m r pe show ?thesis by (auto simp: meta_process_next_def)
  next
    case (refused x)
    have h: "hashable (event_type_of d)" if "msg_doc m = Some d" for d
      using that pe refused(1) by (auto simp: project_event_def lookup_handler_def Let_def split: if_splits)
    have ns: "pn_status x \<noteq> ''store_failed''" using refused(2) by (auto simp: structural_statuses_def)
    obtain pr w2 where d: "meta_dead_letter M (clk 5) m x w1 = (pr, w2)" by (cases "meta_dead_letter M (clk 5) m x w1")
    with m r pe refused ns have rw: "r = Inr pr" "w' = w2" by (auto simp: meta_process_next_def)
    from refused(3) have b: "mw_broker w1 = mw_broker w" "mw_committed w1 = mw_committed w" by (simp_all add: frame_def)
    obtain ok b2 where rt: "route_to_dlq (mt_repr M) (clk 5) (topic_of_event (pn_event_type x)) ''metadata_writer''
        (pn_status x) (map_option exc_text (pn_error x)) m None None (mw_broker w1) = (ok, b2)"
      using prod.exhaust by blast
    show ?thesis
    proof (cases ok)
      case True
      with d rt have "pr = committed_pr ''dead_lettered''" "w2 = w1\<lparr>mw_broker := b2, mw_committed := True\<rparr>"
        by (auto simp: meta_dead_letter_def)
      with route_to_dlq_acked[OF rt[unfolded eqTrueI[OF True]]] b rw h show ?thesis
        by (fastforce simp: committed_pr_def)
    next
      case False
      with d rt have "pr = failed_pr ''dlq_publish_failed''" "w2 = w1\<lparr>mw_broker := b2\<rparr>"
        by (auto simp: meta_dead_letter_def)
      with b rw h show ?thesis by (auto simp: failed_pr_def)
    qed
  next
    case (unstored x)
    have h: "hashable (event_type_of d)" if "msg_doc m = Some d" for d
      using that pe unstored(1) by (auto simp: project_event_def lookup_handler_def Let_def split: if_splits)
    from m r pe unstored h show ?thesis by (auto simp: meta_process_next_def failed_pr_def frame_def)
  next
    case (projected d t handler id x)
    from m r pe projected show ?thesis
      by (auto simp: meta_process_next_def committed_pr_def frame_def structural_statuses_def mark_frame
          split: json.splits)
  qed
qed

section \<open>The production stores\<close>

definition pg_runtime ::
    "pg \<Rightarrow> (string \<Rightarrow> string) \<Rightarrow> (pyfloat \<Rightarrow> string) \<Rightarrow> ('s \<Rightarrow> string \<Rightarrow> request_status option res)
      \<Rightarrow> ('s \<Rightarrow> request_status \<Rightarrow> 's res)
      \<Rightarrow> (pg_requests, pg_meta, pg_batch, 's) meta_runtime" where
  "pg_runtime P hash repr get put =
     \<lparr>mt_upsert = upsert_request (pg_requests_rows P), mt_append = pg_append_event P,
      mt_raw = (\<lambda>now m s. case pg_upsert P s now m None of Inl e \<Rightarrow> (Inl e, s) | Inr (_, s') \<Rightarrow> (Inr (), s')),
      mt_batch = apply_batch_op (pg_rows P), mt_status_get = get, mt_status_put = put,
      mt_has_status = True, mt_hash = hash, mt_repr = repr\<rparr>"

text \<open>
  What never changes, whatever is projected: a finished request stays finished, a finished
  chunk stays as it is, a report keeps its identity, and the audit log only grows, by the
  hash \<open>h\<close> of the message.
\<close>

definition stores_ok :: "pg \<Rightarrow> (pg_requests, pg_meta, pg_batch, 's) meta_world \<Rightarrow> bool" where
  "stores_ok P w \<longleftrightarrow>
     pg_requests_ok P (mw_requests w) \<and> pg_meta_inv P (mw_raw w) \<and> pg_batch_ok P (mw_batch w)"

definition audit_log :: "(pg_requests, pg_meta, pg_batch, 's) meta_world \<Rightarrow> string set" where
  "audit_log w = dom (map_of (pq_events (mw_requests w)))"

definition history_kept ::
    "pg \<Rightarrow> (pg_requests, pg_meta, pg_batch, 's) meta_world \<Rightarrow> (pg_requests, pg_meta, pg_batch, 's) meta_world \<Rightarrow> bool" where
  "history_kept P w w' \<longleftrightarrow>
     (\<forall>i m. pg_request P (mw_requests w) i = Some m \<and> qm_status m \<in> Some ` set terminal_request \<longrightarrow>
        (\<exists>m'. pg_request P (mw_requests w') i = Some m' \<and> qm_status m' \<in> Some ` set terminal_request))
     \<and> (\<forall>cid c. pg_chunk P (mw_batch w) cid = Some c \<and> kc_status c \<in> set terminal_chunk \<longrightarrow>
        pg_chunk P (mw_batch w') cid = Some c)
     \<and> (\<forall>ref e. pg_get_meta P (mw_raw w) ref = Inr e \<longrightarrow>
        (\<exists>e'. pg_get_meta P (mw_raw w') ref = Inr e' \<and> \<not> raw_meta_conflicts e e'))
     \<and> audit_log w \<subseteq> audit_log w'"

definition projected ::
    "pg \<Rightarrow> string \<Rightarrow> (pg_requests, pg_meta, pg_batch, 's) meta_world \<Rightarrow> (pg_requests, pg_meta, pg_batch, 's) meta_world \<Rightarrow> bool" where
  "projected P h w w' \<longleftrightarrow>
     (stores_ok P w \<longrightarrow> stores_ok P w' \<and> history_kept P w w' \<and> audit_log w' \<subseteq> insert h (audit_log w))"

lemma history_kept_refl [simp]: "history_kept P w w"
  by (auto simp: history_kept_def)

lemma history_kept_trans: "history_kept P a b \<Longrightarrow> history_kept P b c \<Longrightarrow> history_kept P a c"
  unfolding history_kept_def by (meson conflicts_trans subset_trans)

lemma projected_preorder: "preorder_on_worlds (projected P h)"
  unfolding preorder_on_worlds_def projected_def by (auto intro: history_kept_trans)

lemma pg_put_request:
  assumes "qm_status m \<in> {None, Some ''accepted''} \<union> Some ` set terminal_request"
  shows "st_keeps (projected P h) (put_request (pg_runtime P hash repr get put) t m)"
  unfolding put_request_def
proof (rule st_keeps_lift_bind[OF _ projected_preorder])
  fix m'
  assume "mk_request_metadata m = Inr m'"
  then have st: "qm_status m' \<in> {None, Some ''accepted'', Some ''running''} \<union> Some ` set terminal_request"
    using assms by (auto simp: mk_request_metadata_iff)
  show "st_keeps (projected P h) (on_requests (mt_upsert (pg_runtime P hash repr get put) t m'))"
    unfolding st_keeps_def
  proof
    fix w :: "(pg_requests, pg_meta, pg_batch, 's) meta_world"
    obtain r q where u: "upsert_request (pg_requests_rows P) t m' (mw_requests w) = (r, q)"
      by (cases "upsert_request (pg_requests_rows P) t m' (mw_requests w)")
    show "projected P h w (snd (on_requests (mt_upsert (pg_runtime P hash repr get put) t m') w))"
      using pgreq.upsert_keeps[OF _ st u]
      by (fastforce simp: on_requests_def pg_runtime_def u projected_def stores_ok_def history_kept_def
          audit_log_def pgreq.finished_def)
  qed
qed

lemma pg_put_event:
  assumes "qe_event_hash e = h"
  shows "st_keeps (projected P h) (put_event (pg_runtime P hash repr get put) e)"
  unfolding put_event_def
proof (rule st_keeps_lift_bind[OF _ projected_preorder])
  fix e'
  assume "mk_request_event e = Inr e'"
  then have e': "qe_event_hash e' = h" using assms by (auto simp: mk_request_event_def)
  show "st_keeps (projected P h) (on_requests (mt_append (pg_runtime P hash repr get put) e'))"
    unfolding st_keeps_def
  proof
    fix w :: "(pg_requests, pg_meta, pg_batch, 's) meta_world"
    show "projected P h w (snd (on_requests (mt_append (pg_runtime P hash repr get put) e') w))"
    proof (cases "pg_requests_ok P (mw_requests w)")
      case True
      from pgreq.append[OF this, of e'] obtain q where
        "pg_append_event P e' (mw_requests w) = (Inr (h \<notin> audit_log w), q)" "pg_requests_ok P q"
        "pg_request P q = pg_request P (mw_requests w)" "dom (map_of (pq_events q)) = insert h (audit_log w)"
        unfolding e' audit_log_def by blast
      then show ?thesis
        by (auto simp: on_requests_def pg_runtime_def projected_def stores_ok_def history_kept_def
            audit_log_def[of "w\<lparr>mw_requests := q\<rparr>"])
    qed (simp add: projected_def stores_ok_def)
  qed
qed

lemma pg_put_raw:
  assumes "report_row ev now r = Inr m"
  shows "st_keeps (projected P h) (on_raw (mt_raw (pg_runtime P hash repr get put) t m))"
  unfolding st_keeps_def
proof
  fix w :: "(pg_requests, pg_meta, pg_batch, 's) meta_world"
  have m: "meta_ok m" "ek_valid (m_entity_key m)"
    using assms by (auto simp: report_row_def dest: from_mapping_valid)
  show "projected P h w (snd (on_raw (mt_raw (pg_runtime P hash repr get put) t m) w))"
  proof (cases "pg_meta_inv P (mw_raw w)")
    case inv: True
    then have "pg_meta_adm P (mw_raw w) m" using m by (simp add: pg_meta_adm_def pg_meta_inv_def)
    from pgmeta.upsert_branches[OF inv this, of t None]
    have k: "\<exists>s'. snd (on_raw (mt_raw (pg_runtime P hash repr get put) t m) w) = w\<lparr>mw_raw := s'\<rparr> \<and> pg_meta_inv P s'
        \<and> (\<forall>ref e. pg_get_meta P (mw_raw w) ref = Inr e \<longrightarrow>
             (\<exists>e'. pg_get_meta P s' ref = Inr e' \<and> \<not> raw_meta_conflicts e e'))"
    proof (elim disjE exE conjE)
      fix s' changed e'
      assume a: "pg_upsert P (mw_raw w) t m None = Inr (changed, s')" "pg_meta_inv P s'"
        "pg_get_meta P s' (m_report_ref m) = Inr e'"
        "\<forall>ref. ref \<noteq> m_report_ref m \<longrightarrow> pg_get_meta P s' ref = pg_get_meta P (mw_raw w) ref"
        "\<forall>e. pg_get_meta P (mw_raw w) (m_report_ref m) = Inr e \<longrightarrow> \<not> raw_meta_conflicts e e'"
      have "\<exists>e1. pg_get_meta P s' ref = Inr e1 \<and> \<not> raw_meta_conflicts e e1"
        if "pg_get_meta P (mw_raw w) ref = Inr e" for ref e
        using that a(3-5) by (cases "ref = m_report_ref m") auto
      with a(1,2) show ?thesis by (auto simp: on_raw_def pg_runtime_def)
    next
      fix e
      assume "pg_upsert P (mw_raw w) t m None = Inl (ConflictError (m_report_ref m))"
      with inv show ?thesis
        by (intro exI[of _ "mw_raw w"]) (auto simp: on_raw_def pg_runtime_def intro!: exI)
    qed
    then show ?thesis by (auto simp: projected_def stores_ok_def history_kept_def audit_log_def)
  qed (simp add: projected_def stores_ok_def)
qed

lemma pg_on_batch: "st_keeps (projected P h) (on_batch (mt_batch (pg_runtime P hash repr get put) t o1))"
  unfolding st_keeps_def
proof
  fix w :: "(pg_requests, pg_meta, pg_batch, 's) meta_world"
  obtain r b where a: "apply_batch_op (pg_rows P) t o1 (mw_batch w) = (r, b)"
    by (cases "apply_batch_op (pg_rows P) t o1 (mw_batch w)")
  show "projected P h w (snd (on_batch (mt_batch (pg_runtime P hash repr get put) t o1) w))"
    using pgbatch.op_done_kept[OF _ a]
    by (auto simp: on_batch_def pg_runtime_def a projected_def stores_ok_def history_kept_def audit_log_def
        pgbatch.done_kept_def)
qed

lemma pg_put_batch:
  "st_keeps (projected P h) (put_job (pg_runtime P hash repr get put) t j)"
  "st_keeps (projected P h) (put_requested (pg_runtime P hash repr get put) t c)"
  "st_keeps (projected P h) (put_processed (pg_runtime P hash repr get put) t c)"
  unfolding put_job_def put_requested_def put_processed_def
  by (intro st_keeps_bind[OF projected_preorder] st_keeps_lift[OF projected_preorder] pg_on_batch)+

lemma pg_handler_keeps:
  assumes "(t, handler) \<in> set (handlers (pg_runtime P hash repr get put))"
  shows "st_keeps (projected P h) (handler clk h d)"
  by (rule projections_keep[OF projected_preorder _ _ _ _ _ _ assms])
    (auto intro: pg_put_request pg_put_event pg_put_raw pg_put_batch)

section \<open>Turns and runs\<close>

lemma pg_turn:
  assumes "stores_ok P w" "meta_process_next (pg_runtime P hash repr get put) clk polled w = (r, w')"
  shows "stores_ok P w' \<and> history_kept P w w'
    \<and> (\<forall>h \<in> audit_log w' - audit_log w. \<exists>m. polled = Some m \<and> h = hash (msg_b64 m))"
proof -
  let ?M = "pg_runtime P hash repr get put"
  have same: "stores_ok P w2 \<and> history_kept P w w2 \<and> audit_log w2 = audit_log w1"
    if "mw_requests w2 = mw_requests w1" "mw_raw w2 = mw_raw w1" "mw_batch w2 = mw_batch w1"
      "stores_ok P w1" "history_kept P w w1" for w1 w2 :: "(pg_requests, pg_meta, pg_batch, 'a) meta_world"
    using that by (simp add: stores_ok_def history_kept_def audit_log_def)
  show ?thesis
  proof (cases "\<exists>m. polled = Some m \<and> msg_error m = None")
    case False
    with assms show ?thesis by (auto simp: meta_process_next_def split: option.splits if_splits)
  next
    case True
    then obtain m where m: "polled = Some m" "msg_error m = None" by blast
    obtain pe w1 where pe: "project_event ?M clk m w = (pe, w1)" by (cases "project_event ?M clk m w")
    let ?h = "mt_hash ?M (msg_b64 m)"
    have "projected P ?h w w1"
    proof (cases "\<exists>d t handler. msg_doc m = Some d \<and> lookup_handler ?M (event_type_of d) = Inr (Some handler)
        \<and> (t, handler) \<in> set (handlers ?M) \<and> w1 = snd (handler clk ?h d w)")
      case True
      with pg_handler_keeps show ?thesis by (metis st_keeps_def)
    next
      case False
      have "w1 = w"
        using pe False
        by (auto simp: project_event_def lookup_handler_def Let_def split: option.splits sum.splits prod.splits
            if_splits json.splits dest!: map_of_SomeD)
      then show ?thesis by (auto simp: projected_def)
    qed
    then have p: "stores_ok P w1" "history_kept P w w1" "audit_log w1 \<subseteq> insert (hash (msg_b64 m)) (audit_log w)"
      using assms(1) by (auto simp: projected_def pg_runtime_def)
    have "mw_requests w' = mw_requests w1 \<and> mw_raw w' = mw_raw w1 \<and> mw_batch w' = mw_batch w1"
      using assms(2) m pe
      by (auto simp: meta_process_next_def meta_dead_letter_def mark_frame Let_def
          split: sum.splits prod.splits if_splits json.splits bool.splits)
    with same[OF _ _ _ p(1,2)] p(3) m show ?thesis by blast
  qed
qed

lemma pg_run_keeps:
  assumes "stores_ok P w"
  shows "stores_ok P (snd (snd (meta_run (pg_runtime P hash repr get put) clk bounded i polls w)))
    \<and> history_kept P w (snd (snd (meta_run (pg_runtime P hash repr get put) clk bounded i polls w)))
    \<and> audit_log (snd (snd (meta_run (pg_runtime P hash repr get put) clk bounded i polls w)))
        \<subseteq> audit_log w \<union> {h. \<exists>m. Some m \<in> set polls \<and> h = hash (msg_b64 m)}"
  using assms
proof (induction polls arbitrary: i w)
  case (Cons p ps)
  let ?M = "pg_runtime P hash repr get put" and ?w = "w\<lparr>mw_committed := False\<rparr>"
  have w: "stores_ok P ?w" "history_kept P w ?w" "audit_log ?w = audit_log w"
    using Cons.prems by (simp_all add: stores_ok_def history_kept_def audit_log_def)
  obtain r w1 where r: "meta_process_next ?M (clk i) p ?w = (r, w1)" by (cases "meta_process_next ?M (clk i) p ?w")
  note t = pg_turn[OF w(1) r]
  then have 1: "stores_ok P w1" "history_kept P w w1"
    "audit_log w1 \<subseteq> audit_log w \<union> {h. \<exists>m. Some m \<in> set (p # ps) \<and> h = hash (msg_b64 m)}"
    using history_kept_trans[OF w(2)] w(3) by auto
  note IH = Cons.IH[OF 1(1), of "i + 1"]
  show ?case
  proof (cases r)
    case (Inl e)
    with r 1 show ?thesis by simp
  next
    case (Inr pr)
    show ?thesis
    proof (cases "\<not> bounded \<and> pr_status pr = ''idle''")
      case True
      with Inr r 1 show ?thesis by simp
    next
      case False
      with Inr r have "snd (snd (meta_run ?M clk bounded i (p # ps) w)) = snd (snd (meta_run ?M clk bounded (i + 1) ps w1))"
        by (auto split: prod.split)
      with IH 1 show ?thesis by (auto intro: history_kept_trans)
    qed
  qed
qed simp

text \<open>A projection that succeeds has logged its message.\<close>

definition logs ::
    "pg \<Rightarrow> string \<Rightarrow> ('a, (pg_requests, pg_meta, pg_batch, 's) meta_world) proc \<Rightarrow> bool" where
  "logs P h m \<longleftrightarrow> (\<forall>w a w'. stores_ok P w \<and> m w = (Inr a, w') \<longrightarrow> h \<in> audit_log w')"

lemma logs_bind_first:
  assumes "logs P h m" "st_keeps (projected P h) m" "\<And>a. st_keeps (projected P h) (f a)"
  shows "logs P h (st_bind m f)"
  unfolding logs_def
proof (intro allI impI)
  fix w a w'
  assume a: "stores_ok P w \<and> st_bind m f w = (Inr a, w')"
  then obtain b w1 where b: "m w = (Inr b, w1)" "f b w1 = (Inr a, w')" using st_bind_Inr by metis
  have "stores_ok P w1" using assms(2) a b(1) by (metis projected_def st_keeps_def snd_conv)
  moreover have "projected P h w1 w'" using assms(3) b(2) by (metis st_keeps_def snd_conv)
  moreover have "h \<in> audit_log w1" using assms(1) a b(1) by (auto simp: logs_def)
  ultimately show "h \<in> audit_log w'" by (auto simp: projected_def history_kept_def)
qed

lemma logs_bind_second:
  assumes "st_keeps (projected P h) m" "\<And>a. logs P h (f a)"
  shows "logs P h (st_bind m f)"
  unfolding logs_def
proof (intro allI impI)
  fix w a w'
  assume a: "stores_ok P w \<and> st_bind m f w = (Inr a, w')"
  then obtain b w1 where b: "m w = (Inr b, w1)" "f b w1 = (Inr a, w')" using st_bind_Inr by metis
  moreover have "stores_ok P w1" using assms(1) a b(1) by (metis projected_def st_keeps_def snd_conv)
  ultimately show "h \<in> audit_log w'" using assms(2) by (auto simp: logs_def)
qed

lemma logs_put_event:
  assumes "qe_event_hash e = h"
  shows "logs P h (put_event (pg_runtime P hash repr get put) e)"
  unfolding logs_def
proof (intro allI impI)
  fix w :: "(pg_requests, pg_meta, pg_batch, 'a) meta_world" and a w'
  assume a: "stores_ok P w \<and> put_event (pg_runtime P hash repr get put) e w = (Inr a, w')"
  then have "put_event (pg_runtime P hash repr get put) e w = on_requests (pg_append_event P e) w"
    by (auto simp: put_event_def st_bind_def st_lift_def mk_request_event_def pg_runtime_def split: sum.splits)
  moreover from pgreq.append[of P "mw_requests w" e] a obtain q where
    "pg_append_event P e (mw_requests w) = (Inr (qe_event_hash e \<notin> dom (map_of (pq_events (mw_requests w)))), q)"
    "dom (map_of (pq_events q)) = insert (qe_event_hash e) (dom (map_of (pq_events (mw_requests w))))"
    unfolding stores_ok_def by blast
  ultimately show "h \<in> audit_log w'" using a assms by (auto simp: on_requests_def audit_log_def)
qed

lemma pg_handler_logs:
  assumes "(t, handler) \<in> set (handlers (pg_runtime P hash repr get put))"
  shows "logs P h (handler clk h d)"
proof -
  let ?M = "pg_runtime P hash repr get put"
  note lift = st_keeps_lift[OF projected_preorder] and bind = st_keeps_bind[OF projected_preorder]
  note step = logs_bind_second[OF lift] logs_bind_second[OF pg_put_request] logs_bind_second[OF pg_put_batch(1)]
    logs_bind_second[OF pg_put_batch(2)] logs_bind_second[OF pg_put_batch(3)]
    logs_bind_first[OF logs_put_event pg_put_event]
  have reports: "st_keeps (projected P h) (project_reports ?M clk ev i rs)" for ev i rs
    by (rule reports_keep[OF projected_preorder]) (rule pg_put_raw)
  have snap: "st_keeps (projected P h) (st_bind (st_lift (dlq_snapshot ev (clk 0))) (\<lambda>snapshot.
     st_bind (case snapshot of None \<Rightarrow> st_lift (Inr ()) | Some m \<Rightarrow> put_request ?M (clk 1) m) (\<lambda>_.
     st_lift (Inr (dl_original_request_id ev)))))" for ev
  proof (rule st_keeps_lift_bind[OF _ projected_preorder])
    fix snapshot
    assume "dlq_snapshot ev (clk 0) = Inr snapshot"
    then show "st_keeps (projected P h) (st_bind (case snapshot of None \<Rightarrow> st_lift (Inr ()) | Some m \<Rightarrow> put_request ?M (clk 1) m)
        (\<lambda>_. st_lift (Inr (dl_original_request_id ev))))"
      by (cases snapshot) (auto intro!: bind lift pg_put_request dest: dlq_snapshot_status)
  qed
  have "logs P h (project_requested ?M clk h d)" "logs P h (project_completed ?M clk h d)"
    "logs P h (project_offline_requested ?M clk h d)" "logs P h (project_model_score ?M clk h d)"
    "logs P h (project_batch_chunk_requested ?M clk h d)" "logs P h (project_batch_chunk_processed ?M clk h d)"
    "logs P h (project_dlq ?M clk h d)"
    unfolding project_requested_def project_completed_def project_offline_requested_def
      project_model_score_def project_batch_chunk_requested_def project_batch_chunk_processed_def
      project_dlq_def Let_def
    by (intro step lift bind reports snap; simp add: requested_snapshot_def completed_snapshot_def
        blank_metadata_def terminal_request_def)+
  with assms show ?thesis by (auto simp: handlers_def)
qed

lemma pg_turn_logs:
  assumes "stores_ok P w" "msg_error m = None"
    "meta_process_next (pg_runtime P hash repr get put) clk (Some m) w = (Inr pr, w')" "pr_status pr = ''ok''"
  shows "hash (msg_b64 m) \<in> audit_log w'"
proof -
  let ?M = "pg_runtime P hash repr get put"
  obtain pe w1 where pe: "project_event ?M clk m w = (pe, w1)" by (cases "project_event ?M clk m w")
  from pe show ?thesis
  proof (cases rule: project_event_cases)
    case (projected d t handler id x)
    have "logs P (hash (msg_b64 m)) (handler clk (hash (msg_b64 m)) d)"
      by (rule pg_handler_logs[OF projected(3)])
    with projected(4) assms(1) have h: "hash (msg_b64 m) \<in> audit_log w1"
      by (auto simp: logs_def pg_runtime_def)
    have "mw_requests w' = mw_requests w1"
      using assms(2,3) pe projected(5,6)
      by (auto simp: meta_process_next_def structural_statuses_def mark_frame Let_def split: if_splits json.splits)
    with h show ?thesis by (simp add: audit_log_def)
  next
    case (refused x)
    with assms pe show ?thesis
      by (auto simp: meta_process_next_def meta_dead_letter_def committed_pr_def failed_pr_def
          split: if_splits prod.splits bool.splits)
  qed (use assms pe in \<open>auto simp: meta_process_next_def failed_pr_def\<close>)
qed

text \<open>A message that was projected once adds nothing to the log when it comes again.\<close>

lemma pg_replay_logs_once:
  assumes "stores_ok P w" "hash (msg_b64 m) \<in> audit_log w"
    "meta_process_next (pg_runtime P hash repr get put) clk (Some m) w = (r, w')"
  shows "audit_log w' = audit_log w"
proof -
  from pg_turn[OF assms(1,3)] have "audit_log w \<subseteq> audit_log w'"
    "\<forall>h \<in> audit_log w' - audit_log w. h = hash (msg_b64 m)" by (simp_all add: history_kept_def)
  with assms(2) have "x \<in> audit_log w" if "x \<in> audit_log w'" for x
    using that by (cases "x \<in> audit_log w") auto
  with \<open>audit_log w \<subseteq> audit_log w'\<close> show ?thesis by blast
qed

section \<open>A score write that was dead-lettered\<close>

lemma st_bind_tail: "st_bind m (\<lambda>_. st_lift x) w = (r, w') \<Longrightarrow> w' = snd (m w)"
  by (auto simp: st_bind_def st_lift_def split: prod.splits sum.splits)

text \<open>
  The audit of a score write touches no request row; the dead letter of one makes a failed
  request of it.
\<close>

lemma score_audit_only:
  assumes "project_model_score (pg_runtime P hash repr get put) clk h d w = (r, w')" "pg_laws P"
    "pg_requests_ok P (mw_requests w)"
  shows "pg_request P (mw_requests w') = pg_request P (mw_requests w)"
proof -
  have e: "pg_request P (mw_requests (snd (put_event (pg_runtime P hash repr get put) e w))) = pg_request P (mw_requests w)" for e
  proof (cases "mk_request_event e")
    case (Inr e')
    from pgreq.append[OF assms(3), of e'] show ?thesis
      by (auto simp: put_event_def st_bind_def st_lift_def Inr on_requests_def pg_runtime_def)
  qed (simp add: put_event_def st_bind_def st_lift_def)
  show ?thesis
  proof (cases "ms_from_dict d")
    case (Inl x)
    with assms(1) show ?thesis by (auto simp: project_model_score_def st_bind_def st_lift_def)
  next
    case (Inr ev)
    with assms(1) have "\<exists>e. w' = snd (put_event (pg_runtime P hash repr get put) e w)"
      using st_bind_tail by (fastforce simp: project_model_score_def st_bind_def[of "st_lift (Inr ev)"] st_lift_def[of "Inr ev"])
    with e show ?thesis by auto
  qed
qed

lemma score_dead_letter_is_failed_request:
  assumes "dl_failure_stage ev = ''model_score_writer''" "dl_original_request_id ev = JStr i" "i \<noteq> []"
  shows "\<exists>m. dlq_snapshot ev now = Inr (Some m) \<and> qm_request_id m = i \<and> qm_status m = Some ''failed''"
  using assms by (simp add: dlq_snapshot_def blank_metadata_def)

section \<open>A message that ends the process\<close>

lemma unhashable_event_type_ends_run:
  assumes "msg_error m = None" "msg_doc m = Some d" "\<not> hashable (event_type_of d)"
  shows "\<exists>e. meta_run M clk bounded i (Some m # polls) w = ([], Some e, w\<lparr>mw_committed := False\<rparr>)"
  using assms by (simp add: meta_process_next_def project_event_def lookup_handler_def Let_def)

end
