(* ===== verification/SourceDatasets.thy ===== *)
theory SourceDatasets
  imports RawReports Events
begin

text \<open>
  The manifests of ingestion runs and their item index (fs_core/stores/source_dataset.py): the
  two documents, and the in-memory and the Postgres store as one contract.
\<close>

section \<open>Manifests\<close>

record manifest =
  sd_manifest_id :: string
  sd_dataset_id :: string
  sd_source_kind :: string
  sd_entity_type :: string
  sd_source_name :: string
  sd_copy_mode :: string
  sd_created_at :: datetime
  sd_report_type :: "string option"
  sd_landing_form :: string
  sd_view :: "string option"
  sd_view_version :: "int option"
  sd_status :: string
  sd_input_uri :: "string option"
  sd_created_by :: "string option"
  sd_read :: int
  sd_written :: int
  sd_duplicate :: int
  sd_rejected :: int
  sd_min_ts :: "datetime option"
  sd_max_ts :: "datetime option"
  sd_content_hash :: "string option"

definition copy_modes :: "string list" where
  "copy_modes = [''copy'', ''register_in_place'']"

definition landing_forms :: "string list" where
  "landing_forms = [''raw_reports'', ''feature_rows'']"

definition mk_manifest :: "manifest \<Rightarrow> manifest res" where
  "mk_manifest m =
     rbind (require_aware (sd_created_at m)) (\<lambda>_.
     rbind (require_aware_opt (sd_min_ts m)) (\<lambda>_.
     rbind (require_aware_opt (sd_max_ts m)) (\<lambda>_.
     rbind (require (sd_copy_mode m \<in> set copy_modes) (ValueError ''unknown copy_mode'')) (\<lambda>_.
     rbind (require (sd_landing_form m \<in> set landing_forms) (ValueError ''unknown landing_form'')) (\<lambda>_.
     Inr m)))))"

definition manifest_ok :: "manifest \<Rightarrow> bool" where
  "manifest_ok m \<longleftrightarrow> aware (sd_created_at m) \<and> aware_opt (sd_min_ts m) \<and> aware_opt (sd_max_ts m)
     \<and> sd_copy_mode m \<in> set copy_modes \<and> sd_landing_form m \<in> set landing_forms"

lemma mk_manifest_iff: "mk_manifest m = Inr m' \<longleftrightarrow> m' = m \<and> manifest_ok m"
  by (cases "sd_min_ts m"; cases "sd_max_ts m") (auto simp: mk_manifest_def manifest_ok_def)

definition sd_to_dict :: "manifest \<Rightarrow> json" where
  "sd_to_dict m = JObj
     [(''manifest_id'', JStr (sd_manifest_id m)),
      (''dataset_id'', JStr (sd_dataset_id m)),
      (''source_kind'', JStr (sd_source_kind m)),
      (''entity_type'', JStr (sd_entity_type m)),
      (''source_name'', JStr (sd_source_name m)),
      (''report_type'', of_opt JStr (sd_report_type m)),
      (''landing_form'', JStr (sd_landing_form m)),
      (''view'', of_opt JStr (sd_view m)),
      (''view_version'', of_opt JInt (sd_view_version m)),
      (''copy_mode'', JStr (sd_copy_mode m)),
      (''created_at'', of_iso (sd_created_at m)),
      (''status'', JStr (sd_status m)),
      (''input_uri'', of_opt JStr (sd_input_uri m)),
      (''created_by'', of_opt JStr (sd_created_by m)),
      (''item_count_read'', JInt (sd_read m)),
      (''item_count_written'', JInt (sd_written m)),
      (''item_count_duplicate'', JInt (sd_duplicate m)),
      (''item_count_rejected'', JInt (sd_rejected m)),
      (''watermark_min_event_ts'', of_opt of_iso (sd_min_ts m)),
      (''watermark_max_event_ts'', of_opt of_iso (sd_max_ts m)),
      (''content_hash'', of_opt JStr (sd_content_hash m))]"

definition sd_from_dict :: "json \<Rightarrow> manifest res" where
  "sd_from_dict d =
     rbind (str_item d ''manifest_id'') (\<lambda>manifest_id.
     rbind (str_item d ''dataset_id'') (\<lambda>dataset_id.
     rbind (str_item d ''source_kind'') (\<lambda>source_kind.
     rbind (str_item d ''entity_type'') (\<lambda>entity_type.
     rbind (str_item d ''source_name'') (\<lambda>source_name.
     rbind (opt_str_get d ''report_type'') (\<lambda>report_type.
     rbind (str_get d ''landing_form'' ''raw_reports'') (\<lambda>landing_form.
     rbind (opt_str_get d ''view'') (\<lambda>view.
     rbind (opt_int_get d ''view_version'') (\<lambda>view_version.
     rbind (str_item d ''copy_mode'') (\<lambda>copy_mode.
     rbind (iso_item d ''created_at'') (\<lambda>created_at.
     rbind (str_get d ''status'' ''pending'') (\<lambda>status.
     rbind (opt_str_get d ''input_uri'') (\<lambda>input_uri.
     rbind (opt_str_get d ''created_by'') (\<lambda>created_by.
     rbind (int_get d ''item_count_read'' 0) (\<lambda>rd.
     rbind (int_get d ''item_count_written'' 0) (\<lambda>wr.
     rbind (int_get d ''item_count_duplicate'' 0) (\<lambda>du.
     rbind (int_get d ''item_count_rejected'' 0) (\<lambda>rj.
     rbind (opt_iso_get d ''watermark_min_event_ts'') (\<lambda>min_ts.
     rbind (opt_iso_get d ''watermark_max_event_ts'') (\<lambda>max_ts.
     rbind (opt_str_get d ''content_hash'') (\<lambda>content_hash.
     mk_manifest \<lparr>sd_manifest_id = manifest_id, sd_dataset_id = dataset_id,
        sd_source_kind = source_kind, sd_entity_type = entity_type, sd_source_name = source_name,
        sd_copy_mode = copy_mode, sd_created_at = created_at, sd_report_type = report_type,
        sd_landing_form = landing_form, sd_view = view, sd_view_version = view_version,
        sd_status = status, sd_input_uri = input_uri, sd_created_by = created_by, sd_read = rd,
        sd_written = wr, sd_duplicate = du, sd_rejected = rj, sd_min_ts = min_ts,
        sd_max_ts = max_ts, sd_content_hash = content_hash\<rparr>)))))))))))))))))))))"

definition sd_wf :: "manifest \<Rightarrow> bool" where
  "sd_wf m \<longleftrightarrow> stamp (sd_created_at m) \<and> stamp_opt (sd_min_ts m) \<and> stamp_opt (sd_max_ts m)
     \<and> sd_copy_mode m \<in> set copy_modes \<and> sd_landing_form m \<in> set landing_forms"

lemma sd_read_back:
  assumes "sd_wf m"
  shows "sd_from_dict (sort_keys (sd_to_dict m)) = Inr m"
  using assms unfolding sd_from_dict_def sd_to_dict_def sd_wf_def field_reads
  by (cases "sd_min_ts m"; cases "sd_max_ts m") (simp_all add: mk_manifest_def stamp_def stamp_opt_def)

lemma sd_plain: "json_plain (sd_to_dict m)"
  by (simp add: sd_to_dict_def)

interpretation sd: codec "\<lambda>m. Inr (sd_to_dict m)" sd_from_dict sd_wf "\<lambda>m. m"
  by unfold_locales (simp_all add: sd_read_back sd_plain)

section \<open>Items\<close>

record dataset_item =
  di_manifest_id :: string
  di_index :: int
  di_status :: string
  di_source_name :: string
  di_report_type :: string
  di_entity_key :: "(string, string) dict option"
  di_report_ref :: "string option"
  di_event_ts :: "datetime option"
  di_content_hash :: "string option"
  di_error :: "string option"

definition mk_item :: "dataset_item \<Rightarrow> dataset_item res" where
  "mk_item i = rbind (require_aware_opt (di_event_ts i)) (\<lambda>_. Inr i)"

lemma mk_item_iff: "mk_item i = Inr i' \<longleftrightarrow> i' = i \<and> aware_opt (di_event_ts i)"
  by (cases "di_event_ts i") (auto simp: mk_item_def)

definition di_to_dict :: "dataset_item \<Rightarrow> json" where
  "di_to_dict i = JObj
     [(''manifest_id'', JStr (di_manifest_id i)),
      (''item_index'', JInt (di_index i)),
      (''status'', JStr (di_status i)),
      (''source_name'', JStr (di_source_name i)),
      (''report_type'', JStr (di_report_type i)),
      (''entity_key'', of_opt of_str_dict (di_entity_key i)),
      (''report_ref'', of_opt JStr (di_report_ref i)),
      (''event_ts'', of_opt of_iso (di_event_ts i)),
      (''content_hash'', of_opt JStr (di_content_hash i)),
      (''error'', of_opt JStr (di_error i))]"

definition di_from_dict :: "json \<Rightarrow> dataset_item res" where
  "di_from_dict d =
     rbind (jget d ''entity_key'' JNull) (\<lambda>entity_key.
     rbind (str_item d ''manifest_id'') (\<lambda>manifest_id.
     rbind (int_item d ''item_index'') (\<lambda>index.
     rbind (str_item d ''status'') (\<lambda>status.
     rbind (str_item d ''source_name'') (\<lambda>source_name.
     rbind (str_item d ''report_type'') (\<lambda>report_type.
     rbind (as_opt as_str_dict entity_key) (\<lambda>entity_key.
     rbind (opt_str_get d ''report_ref'') (\<lambda>report_ref.
     rbind (opt_iso_get d ''event_ts'') (\<lambda>event_ts.
     rbind (opt_str_get d ''content_hash'') (\<lambda>content_hash.
     rbind (opt_str_get d ''error'') (\<lambda>err.
     mk_item \<lparr>di_manifest_id = manifest_id, di_index = index, di_status = status,
        di_source_name = source_name, di_report_type = report_type, di_entity_key = entity_key,
        di_report_ref = report_ref, di_event_ts = event_ts, di_content_hash = content_hash,
        di_error = err\<rparr>)))))))))))"

section \<open>The stores\<close>

record mem_datasets =
  md_manifests :: "(string, manifest) dict"
  md_items :: "(string, dataset_item list) dict"

definition mem_put_manifest :: "manifest \<Rightarrow> mem_datasets \<Rightarrow> mem_datasets" where
  "mem_put_manifest m s = s\<lparr>md_manifests := dict_set (sd_manifest_id m) m (md_manifests s)\<rparr>"

definition mem_list_items :: "mem_datasets \<Rightarrow> string \<Rightarrow> dataset_item list" where
  "mem_list_items s mid = (case map_of (md_items s) mid of Some xs \<Rightarrow> xs | None \<Rightarrow> [])"

definition mem_add_items :: "dataset_item list \<Rightarrow> mem_datasets \<Rightarrow> mem_datasets" where
  "mem_add_items items s =
     fold (\<lambda>i s. s\<lparr>md_items := dict_set (di_manifest_id i) (mem_list_items s (di_manifest_id i) @ [i]) (md_items s)\<rparr>)
       items s"

text \<open>Rows of the two tables; the entity key column holds what it reads back as.\<close>

record manifest_row =
  mr_manifest_id :: string
  mr_dataset_id :: string
  mr_source_kind :: string
  mr_entity_type :: string
  mr_source_name :: string
  mr_report_type :: "string option"
  mr_landing_form :: string
  mr_view :: "string option"
  mr_view_version :: "int option"
  mr_copy_mode :: string
  mr_created_at :: int
  mr_status :: string
  mr_input_uri :: "string option"
  mr_created_by :: "string option"
  mr_read :: int
  mr_written :: int
  mr_duplicate :: int
  mr_rejected :: int
  mr_min_ts :: "int option"
  mr_max_ts :: "int option"
  mr_content_hash :: "string option"

record item_row =
  ir_manifest_id :: string
  ir_index :: int
  ir_status :: string
  ir_source_name :: string
  ir_report_type :: string
  ir_entity_key :: "(string, string) dict option"
  ir_report_ref :: "string option"
  ir_event_ts :: "int option"
  ir_content_hash :: "string option"
  ir_error :: "string option"

record pg_datasets =
  pd_manifests :: "(string, manifest_row) dict"  \<comment> \<open>PRIMARY KEY (manifest_id)\<close>
  pd_items :: "item_row list"  \<comment> \<open>PRIMARY KEY (manifest_id, item_index)\<close>

definition manifest_to_params :: "pg \<Rightarrow> manifest \<Rightarrow> manifest_row" where
  "manifest_to_params P m =
     \<lparr>mr_manifest_id = sd_manifest_id m, mr_dataset_id = sd_dataset_id m,
      mr_source_kind = sd_source_kind m, mr_entity_type = sd_entity_type m,
      mr_source_name = sd_source_name m, mr_report_type = sd_report_type m,
      mr_landing_form = sd_landing_form m, mr_view = sd_view m, mr_view_version = sd_view_version m,
      mr_copy_mode = sd_copy_mode m, mr_created_at = pg_instant P (sd_created_at m),
      mr_status = sd_status m, mr_input_uri = sd_input_uri m, mr_created_by = sd_created_by m,
      mr_read = sd_read m, mr_written = sd_written m, mr_duplicate = sd_duplicate m,
      mr_rejected = sd_rejected m, mr_min_ts = map_option (pg_instant P) (sd_min_ts m),
      mr_max_ts = map_option (pg_instant P) (sd_max_ts m), mr_content_hash = sd_content_hash m\<rparr>"

definition manifest_of_row :: "pg \<Rightarrow> manifest_row \<Rightarrow> manifest" where
  "manifest_of_row P r =
     \<lparr>sd_manifest_id = mr_manifest_id r, sd_dataset_id = mr_dataset_id r,
      sd_source_kind = mr_source_kind r, sd_entity_type = mr_entity_type r,
      sd_source_name = mr_source_name r, sd_copy_mode = mr_copy_mode r,
      sd_created_at = pg_datetime P (mr_created_at r), sd_report_type = mr_report_type r,
      sd_landing_form = mr_landing_form r, sd_view = mr_view r, sd_view_version = mr_view_version r,
      sd_status = mr_status r, sd_input_uri = mr_input_uri r, sd_created_by = mr_created_by r,
      sd_read = mr_read r, sd_written = mr_written r, sd_duplicate = mr_duplicate r,
      sd_rejected = mr_rejected r, sd_min_ts = map_option (pg_datetime P) (mr_min_ts r),
      sd_max_ts = map_option (pg_datetime P) (mr_max_ts r), sd_content_hash = mr_content_hash r\<rparr>"

definition row_to_manifest :: "pg \<Rightarrow> manifest_row \<Rightarrow> manifest res" where
  "row_to_manifest P r = mk_manifest (manifest_of_row P r)"

definition item_to_params :: "pg \<Rightarrow> dataset_item \<Rightarrow> item_row" where
  "item_to_params P m =
     \<lparr>ir_manifest_id = di_manifest_id m, ir_index = di_index m, ir_status = di_status m,
      ir_source_name = di_source_name m, ir_report_type = di_report_type m,
      ir_entity_key = di_entity_key m, ir_report_ref = di_report_ref m,
      ir_event_ts = map_option (pg_instant P) (di_event_ts m), ir_content_hash = di_content_hash m,
      ir_error = di_error m\<rparr>"

definition item_of_row :: "pg \<Rightarrow> item_row \<Rightarrow> dataset_item" where
  "item_of_row P r =
     \<lparr>di_manifest_id = ir_manifest_id r, di_index = ir_index r, di_status = ir_status r,
      di_source_name = ir_source_name r, di_report_type = ir_report_type r,
      di_entity_key = ir_entity_key r, di_report_ref = ir_report_ref r,
      di_event_ts = map_option (pg_datetime P) (ir_event_ts r), di_content_hash = ir_content_hash r,
      di_error = ir_error r\<rparr>"

definition row_to_item :: "pg \<Rightarrow> item_row \<Rightarrow> dataset_item res" where
  "row_to_item P r = mk_item (item_of_row P r)"

text \<open>A replaced manifest keeps what the run was about; a known item stays as it is.\<close>

definition manifest_on_conflict :: "manifest_row option \<Rightarrow> manifest_row \<Rightarrow> manifest_row" where
  "manifest_on_conflict old new =
     (case old of
        None \<Rightarrow> new
      | Some o1 \<Rightarrow> o1\<lparr>mr_status := mr_status new, mr_read := mr_read new, mr_written := mr_written new,
          mr_duplicate := mr_duplicate new, mr_rejected := mr_rejected new, mr_min_ts := mr_min_ts new,
          mr_max_ts := mr_max_ts new, mr_content_hash := mr_content_hash new\<rparr>)"

definition pg_put_manifest :: "pg \<Rightarrow> manifest \<Rightarrow> pg_datasets \<Rightarrow> pg_datasets" where
  "pg_put_manifest P m s = s\<lparr>pd_manifests := dict_set (sd_manifest_id m)
     (manifest_on_conflict (map_of (pd_manifests s) (sd_manifest_id m)) (manifest_to_params P m))
     (pd_manifests s)\<rparr>"

definition pg_add_items :: "pg \<Rightarrow> dataset_item list \<Rightarrow> pg_datasets \<Rightarrow> pg_datasets" where
  "pg_add_items P items s =
     fold (\<lambda>i s.
       if \<exists>r \<in> set (pd_items s). ir_manifest_id r = di_manifest_id i \<and> ir_index r = di_index i then s
       else s\<lparr>pd_items := pd_items s @ [item_to_params P i]\<rparr>) items s"

definition pg_get_manifest :: "pg \<Rightarrow> pg_datasets \<Rightarrow> string \<Rightarrow> manifest option res" where
  "pg_get_manifest P s mid =
     (case map_of (pd_manifests s) mid of
        None \<Rightarrow> Inr None | Some r \<Rightarrow> rbind (row_to_manifest P r) (\<lambda>m. Inr (Some m)))"

definition pg_list_items :: "pg \<Rightarrow> pg_datasets \<Rightarrow> string \<Rightarrow> dataset_item list res" where
  "pg_list_items P s mid =
     map_res (row_to_item P)
       (sort_key ir_index (filter (\<lambda>r. ir_manifest_id r = mid) (pd_items s)))"

section \<open>The contract\<close>

text \<open>\<open>pm\<close> and \<open>pi\<close> are what a manifest and an item read back as.\<close>

locale dataset_store =
  fixes ok :: "'s \<Rightarrow> bool"
    and put :: "manifest \<Rightarrow> 's \<Rightarrow> 's"
    and add :: "dataset_item list \<Rightarrow> 's \<Rightarrow> 's"
    and get :: "'s \<Rightarrow> string \<Rightarrow> manifest option res"
    and items :: "'s \<Rightarrow> string \<Rightarrow> dataset_item list res"
    and pm :: "manifest \<Rightarrow> manifest"
    and pi :: "dataset_item \<Rightarrow> dataset_item"
  assumes get_put: "ok s \<Longrightarrow> manifest_ok m \<Longrightarrow> get s (sd_manifest_id m) = Inr None \<Longrightarrow>
      get (put m s) (sd_manifest_id m) = Inr (Some (pm m))"
    and items_put: "items (put m s) = items s \<and> (ok s \<longrightarrow> ok (put m s))"
    and get_add: "get (add its s) = get s"
    and items_add: "ok s \<Longrightarrow> items s mid = Inr [] \<Longrightarrow> sorted_wrt (<) (map di_index its) \<Longrightarrow>
      \<forall>i \<in> set its. di_manifest_id i = mid \<and> aware_opt (di_event_ts i) \<Longrightarrow>
      items (add its s) mid = Inr (map pi its)"
begin

text \<open>What a run records reads back: its manifest, and its items in their order.\<close>

lemma run_recorded:
  assumes "ok s" "manifest_ok m" "get s (sd_manifest_id m) = Inr None" "items s (sd_manifest_id m) = Inr []"
    "sorted_wrt (<) (map di_index its)"
    "\<forall>i \<in> set its. di_manifest_id i = sd_manifest_id m \<and> aware_opt (di_event_ts i)"
  shows "get (add its (put m s)) (sd_manifest_id m) = Inr (Some (pm m))
    \<and> items (add its (put m s)) (sd_manifest_id m) = Inr (map pi its)"
  using assms by (simp add: get_put get_add items_add items_put)

end

lemma mem_add_one:
  "mem_list_items (mem_add_items [i] s) mid = mem_list_items s mid @ (if di_manifest_id i = mid then [i] else [])"
  by (simp add: mem_add_items_def mem_list_items_def)

lemma mem_add_Cons: "mem_add_items (i # is) s = mem_add_items is (mem_add_items [i] s)"
  by (simp add: mem_add_items_def)

lemma mem_add_all:
  "mem_list_items (mem_add_items its s) mid = mem_list_items s mid @ filter (\<lambda>i. di_manifest_id i = mid) its"
proof (induction its arbitrary: s)
  case (Cons i its)
  show ?case unfolding mem_add_Cons[of i its] Cons by (simp add: mem_add_one)
qed (simp add: mem_add_items_def)

lemma mem_add_manifests: "md_manifests (mem_add_items its s) = md_manifests s"
  unfolding mem_add_items_def by (induction its arbitrary: s) simp_all

interpretation memdata: dataset_store "\<lambda>_. True" mem_put_manifest mem_add_items
  "\<lambda>s mid. Inr (map_of (md_manifests s) mid)" "\<lambda>s mid. Inr (mem_list_items s mid)" "\<lambda>m. m" "\<lambda>i. i"
proof unfold_locales
  fix s mid and its :: "dataset_item list"
  assume "Inr (mem_list_items s mid) = (Inr [] :: dataset_item list res)"
    "\<forall>i \<in> set its. di_manifest_id i = mid \<and> aware_opt (di_event_ts i)"
  then show "Inr (mem_list_items (mem_add_items its s) mid) = (Inr (map (\<lambda>i. i) its) :: dataset_item list res)"
    by (simp add: mem_add_all)
qed (auto simp: mem_put_manifest_def mem_list_items_def mem_add_manifests)

definition norm_manifest :: "pg \<Rightarrow> manifest \<Rightarrow> manifest" where
  "norm_manifest P m = manifest_of_row P (manifest_to_params P m)"

definition norm_item :: "pg \<Rightarrow> dataset_item \<Rightarrow> dataset_item" where
  "norm_item P i = item_of_row P (item_to_params P i)"

lemma norm_manifest_ok: "pg_laws P \<Longrightarrow> manifest_ok m \<Longrightarrow> manifest_ok (norm_manifest P m)"
  unfolding norm_manifest_def manifest_of_row_def manifest_to_params_def manifest_ok_def
  by (cases "sd_min_ts m"; cases "sd_max_ts m") (simp_all add: pg_laws_def)

lemma pg_add_Cons: "pg_add_items P (i # is) s = pg_add_items P is (pg_add_items P [i] s)"
  by (simp add: pg_add_items_def)

lemma pg_add_manifests: "pd_manifests (pg_add_items P its s) = pd_manifests s"
  unfolding pg_add_items_def by (induction its arbitrary: s) simp_all

text \<open>Items of a new run are inserted behind the rows that are there.\<close>

lemma pg_add_new:
  assumes "\<forall>i \<in> set its. di_manifest_id i = mid" "sorted_wrt (<) (map di_index its)"
    "\<forall>i \<in> set its. \<forall>r \<in> set (pd_items s). ir_manifest_id r = mid \<longrightarrow> ir_index r < di_index i"
  shows "pd_items (pg_add_items P its s) = pd_items s @ map (item_to_params P) its"
  using assms
proof (induction its arbitrary: s)
  case (Cons i its)
  have 1: "pd_items (pg_add_items P [i] s) = pd_items s @ [item_to_params P i]"
  proof -
    have mid: "di_manifest_id i = mid" using Cons.prems(1) by simp
    have "\<forall>r \<in> set (pd_items s). ir_manifest_id r = mid \<longrightarrow> ir_index r < di_index i" using Cons.prems(3) by simp
    then have "\<not> (\<exists>r \<in> set (pd_items s). ir_manifest_id r = di_manifest_id i \<and> ir_index r = di_index i)"
      unfolding mid by (metis less_irrefl)
    then show ?thesis by (simp add: pg_add_items_def)
  qed
  have "pd_items (pg_add_items P its (pg_add_items P [i] s))
      = pd_items (pg_add_items P [i] s) @ map (item_to_params P) its"
  proof (rule Cons.IH)
    show "\<forall>i \<in> set its. di_manifest_id i = mid" "sorted_wrt (<) (map di_index its)"
      using Cons.prems(1,2) by simp_all
    show "\<forall>j \<in> set its. \<forall>r \<in> set (pd_items (pg_add_items P [i] s)). ir_manifest_id r = mid \<longrightarrow> ir_index r < di_index j"
    proof (intro ballI impI)
      fix j r
      assume "j \<in> set its" "r \<in> set (pd_items (pg_add_items P [i] s))" "ir_manifest_id r = mid"
      then show "ir_index r < di_index j"
        using Cons.prems(2,3) unfolding 1 by (cases "r \<in> set (pd_items s)") (simp_all add: item_to_params_def)
    qed
  qed
  then show ?case by (simp add: pg_add_Cons[of P i its] 1)
qed (simp add: pg_add_items_def)

lemma map_res_Nil_iff: "map_res f xs = Inr [] \<longleftrightarrow> xs = []"
  by (cases xs) auto

lemma pg_item_read: "pg_laws P \<Longrightarrow> aware_opt (di_event_ts i) \<Longrightarrow> row_to_item P (item_to_params P i) = Inr (norm_item P i)"
  unfolding row_to_item_def norm_item_def mk_item_iff
  by (cases "di_event_ts i") (simp_all add: item_of_row_def item_to_params_def pg_laws_def)

interpretation pgdata: dataset_store "\<lambda>_. pg_laws P" "pg_put_manifest P" "pg_add_items P" "pg_get_manifest P"
  "pg_list_items P" "norm_manifest P" "norm_item P" for P
proof unfold_locales
  fix s m
  assume P: "pg_laws P" and m: "manifest_ok m" and none: "pg_get_manifest P s (sd_manifest_id m) = Inr None"
  then have "map_of (pd_manifests s) (sd_manifest_id m) = None"
    by (auto simp: pg_get_manifest_def row_to_manifest_def split: option.splits)
  then show "pg_get_manifest P (pg_put_manifest P m s) (sd_manifest_id m) = Inr (Some (norm_manifest P m))"
    using norm_manifest_ok[OF P m]
    by (simp add: pg_get_manifest_def pg_put_manifest_def manifest_on_conflict_def row_to_manifest_def
        norm_manifest_def[symmetric] mk_manifest_iff[THEN iffD2])
next
  fix s mid and its :: "dataset_item list"
  assume P: "pg_laws P" and none: "pg_list_items P s mid = Inr []" and srt: "sorted_wrt (<) (map di_index its)"
    and its: "\<forall>i \<in> set its. di_manifest_id i = mid \<and> aware_opt (di_event_ts i)"
  have e: "filter (\<lambda>r. ir_manifest_id r = mid) (pd_items s) = []"
    using none by (simp add: pg_list_items_def map_res_Nil_iff) (metis set_empty set_sort)
  then have p: "pd_items (pg_add_items P its s) = pd_items s @ map (item_to_params P) its"
    using srt its by (intro pg_add_new) (auto simp: filter_empty_conv)
  have "filter (\<lambda>r. ir_manifest_id r = mid) (map (item_to_params P) its) = map (item_to_params P) its"
    using its by (intro filter_True) (auto simp: item_to_params_def)
  with e p have f: "filter (\<lambda>r. ir_manifest_id r = mid) (pd_items (pg_add_items P its s)) = map (item_to_params P) its"
    by simp
  have s: "sorted (map ir_index (map (item_to_params P) its))"
    using srt by (simp add: comp_def item_to_params_def strict_sorted_imp_sorted)
  have "map_res (row_to_item P) (map (item_to_params P) its) = Inr (map (norm_item P) its)"
    by (rule map_res_read_back) (use P its pg_item_read in blast)
  with f sort_key_id_if_sorted[OF s] show "pg_list_items P (pg_add_items P its s) mid = Inr (map (norm_item P) its)"
    by (simp add: pg_list_items_def)
qed (auto simp: pg_list_items_def pg_put_manifest_def pg_get_manifest_def pg_add_manifests fun_eq_iff)

end
