(* ===== verification/Ingestion.thy ===== *)
theory Ingestion
  imports SourceDatasets BatchWorker
begin

text \<open>
  Ingestion: landing raw reports from JSON lines under a run manifest (api/jsonl_ingestion.py)
  and backfilling feature history from them (api/backfill.py). The parsers of the lines (JSON and
  the pydantic models) are parameters; the models' validators are modelled.
\<close>

section \<open>Rows\<close>

record jsonl_row =
  jl_entity_key :: "(string, string) dict"
  jl_event_ts :: datetime
  jl_payload :: json
  jl_report_ref :: "string option"
  jl_source_name :: "string option"
  jl_report_type :: "string option"
  jl_available_at :: "datetime option"

definition validate_row :: "jsonl_row \<Rightarrow> jsonl_row res" where
  "validate_row r =
     rbind (require (jl_entity_key r \<noteq> []) (ValueError ''entity_key must be non-empty'')) (\<lambda>_.
     rbind (require (aware (jl_event_ts r) \<and> aware_opt (jl_available_at r))
       (ValueError ''must be timezone-aware'')) (\<lambda>_. Inr r))"

text \<open>A prepared row: a parsed report or the reason of its rejection.\<close>

type_synonym prepared_row = "string + jsonl_row"

definition prepare_line :: "(string \<Rightarrow> json option) \<Rightarrow> (json \<Rightarrow> jsonl_row option) \<Rightarrow> string \<Rightarrow> prepared_row" where
  "prepare_line loads parse line =
     (case loads line of
        None \<Rightarrow> Inl ''Expecting value''
      | Some d \<Rightarrow>
          (case parse d of
             None \<Rightarrow> Inl ''validation error for JsonlReportRow''
           | Some r \<Rightarrow> (case validate_row r of Inl e \<Rightarrow> Inl (exc_text e) | Inr r \<Rightarrow> Inr r)))"

definition iter_jsonl ::
    "(string \<Rightarrow> json option) \<Rightarrow> (json \<Rightarrow> jsonl_row option) \<Rightarrow> string list \<Rightarrow> prepared_row list" where
  "iter_jsonl loads parse lines = map (prepare_line loads parse) (filter (\<lambda>l. \<not> blank l) lines)"

definition derive_report_ref :: "hasher \<Rightarrow> string \<Rightarrow> string \<Rightarrow> string \<Rightarrow> string \<Rightarrow> string" where
  "derive_report_ref H encoded source report_type hash =
     ''rep_'' @ take 32 (sha256_hex H (py_join ''|'' [encoded, source, report_type, hash]))"

section \<open>Landing\<close>

text \<open>The stores of the backend: metadata rows \<open>'m\<close>, payloads \<open>'p\<close>, manifests \<open>'d\<close>.\<close>

record ('m, 'p, 'd) landing =
  ld_upsert :: "'m \<Rightarrow> datetime \<Rightarrow> raw_report_meta \<Rightarrow> correction_context option \<Rightarrow> (bool \<times> 'm) res"
  ld_put_payload :: "'p \<Rightarrow> string \<Rightarrow> json \<Rightarrow> 'p res"
  ld_put_manifest :: "manifest \<Rightarrow> 'd \<Rightarrow> 'd res"
  ld_add_items :: "dataset_item list \<Rightarrow> 'd \<Rightarrow> 'd res"
  ld_serialize :: "json \<Rightarrow> string res"
  ld_storage_uri :: "string \<Rightarrow> string \<Rightarrow> datetime \<Rightarrow> string"
  ld_format :: string
  ld_compression :: string
  ld_hasher :: hasher

record run_args =
  rg_source_kind :: string
  rg_entity_type :: string
  rg_source_name :: string
  rg_report_type :: string
  rg_copy_mode :: string
  rg_dataset_id :: "string option"
  rg_input_uri :: "string option"
  rg_created_by :: "string option"

text \<open>\<^verbatim>\<open>row.source_name or source_name\<close>.\<close>

definition or_default :: "string option \<Rightarrow> string \<Rightarrow> string" where
  "or_default x d = (case x of Some s \<Rightarrow> if s = [] then d else s | None \<Rightarrow> d)"

definition land_meta ::
    "('m, 'p, 'd) landing \<Rightarrow> run_args \<Rightarrow> datetime \<Rightarrow> jsonl_row \<Rightarrow> raw_report_meta res" where
  "land_meta L A created r =
     (let src = or_default (jl_source_name r) (rg_source_name A);
          rtype = or_default (jl_report_type r) (rg_report_type A) in
      rbind (ek_from_mapping (jl_entity_key r) None) (\<lambda>ek.
      rbind (ld_serialize L (jl_payload r)) (\<lambda>bytes.
      let hash = ''sha256:'' @ sha256_hex (ld_hasher L) bytes in
      rbind (if or_default (jl_report_ref r) [] \<noteq> [] then Inr (or_default (jl_report_ref r) [])
             else rbind (ek_encode ek) (\<lambda>encoded. Inr (derive_report_ref (ld_hasher L) encoded src rtype hash))) (\<lambda>ref.
      mk_raw_report_meta
        \<lparr>m_report_ref = ref, m_report_type = rtype, m_entity_type = rg_entity_type A,
         m_entity_key = ek, m_report_ts = jl_event_ts r, m_payload_size_bytes = int (length bytes),
         m_content_hash = hash, m_storage_uri = ld_storage_uri L rtype ref (jl_event_ts r),
         m_created_at = created, m_format = ld_format L, m_compression = ld_compression L,
         m_available_at = Some (case jl_available_at r of Some t \<Rightarrow> t | None \<Rightarrow> created),
         m_availability_source = Some (case jl_available_at r of Some _ \<Rightarrow> ''source_provided''
                                       | None \<Rightarrow> ''ingestion_time'')\<rparr>))))"

text \<open>
  One row against the stores: metadata first, so that a conflicting payload is never written.
  The result tells whether the row is new.
\<close>

definition land_row ::
    "('m, 'p, 'd) landing \<Rightarrow> run_args \<Rightarrow> correction_context \<Rightarrow> datetime \<Rightarrow> datetime \<Rightarrow> jsonl_row
      \<Rightarrow> 'm \<times> 'p \<Rightarrow> (bool \<times> raw_report_meta) res \<times> 'm \<times> 'p" where
  "land_row L A ctx created now r = (\<lambda>(metas, payloads).
     (case land_meta L A created r of
        Inl e \<Rightarrow> (Inl e, metas, payloads)
      | Inr m \<Rightarrow>
      case ld_upsert L metas now m (Some ctx) of
        Inl e \<Rightarrow> (Inl e, metas, payloads)
      | Inr (is_new, metas1) \<Rightarrow>
      case ld_put_payload L payloads (m_storage_uri m) (jl_payload r) of
        Inl e \<Rightarrow> (Inl e, metas1, payloads)
      | Inr payloads1 \<Rightarrow> (Inr (is_new, m), metas1, payloads1)))"

record landing_tally =
  lt_read :: nat
  lt_written :: nat
  lt_duplicate :: nat
  lt_rejected :: nat
  lt_min :: "datetime option"
  lt_max :: "datetime option"
  lt_hashes :: "string list"
  lt_items :: "dataset_item list"

definition empty_landing :: landing_tally where
  "empty_landing = \<lparr>lt_read = 0, lt_written = 0, lt_duplicate = 0, lt_rejected = 0, lt_min = None,
     lt_max = None, lt_hashes = [], lt_items = []\<rparr>"

definition reject_row :: "run_args \<Rightarrow> string \<Rightarrow> string \<Rightarrow> landing_tally \<Rightarrow> landing_tally" where
  "reject_row A mid reason t =
     t\<lparr>lt_read := lt_read t + 1, lt_rejected := lt_rejected t + 1,
       lt_items := lt_items t @
         [\<lparr>di_manifest_id = mid, di_index = int (lt_read t), di_status = ''rejected'',
           di_source_name = rg_source_name A, di_report_type = rg_report_type A, di_entity_key = None,
           di_report_ref = None, di_event_ts = None, di_content_hash = None, di_error = Some reason\<rparr>]\<rparr>"

definition reject_reason :: "exc \<Rightarrow> string" where
  "reject_reason e = (case e of ConflictError r \<Rightarrow> ''report_ref conflict: '' @ r | _ \<Rightarrow> exc_text e)"

text \<open>\<^verbatim>\<open>min\<close> and \<^verbatim>\<open>max\<close> keep their first argument on a tie.\<close>

definition min_ts :: "datetime option \<Rightarrow> datetime \<Rightarrow> datetime" where
  "min_ts a t = (case a of None \<Rightarrow> t | Some s \<Rightarrow> if instant t < instant s then t else s)"

definition max_ts :: "datetime option \<Rightarrow> datetime \<Rightarrow> datetime" where
  "max_ts a t = (case a of None \<Rightarrow> t | Some s \<Rightarrow> if instant s < instant t then t else s)"

definition accept_row ::
    "run_args \<Rightarrow> string \<Rightarrow> bool \<Rightarrow> raw_report_meta \<Rightarrow> jsonl_row \<Rightarrow> landing_tally \<Rightarrow> landing_tally" where
  "accept_row A mid is_new m r t =
     t\<lparr>lt_read := lt_read t + 1,
       lt_written := lt_written t + (if is_new then 1 else 0),
       lt_duplicate := lt_duplicate t + (if is_new then 0 else 1),
       lt_min := Some (min_ts (lt_min t) (jl_event_ts r)),
       lt_max := Some (max_ts (lt_max t) (jl_event_ts r)),
       lt_hashes := lt_hashes t @ [m_content_hash m],
       lt_items := lt_items t @
         [\<lparr>di_manifest_id = mid, di_index = int (lt_read t),
           di_status = (if is_new then ''written'' else ''duplicate''),
           di_source_name = or_default (jl_source_name r) (rg_source_name A),
           di_report_type = m_report_type m, di_entity_key = Some (jl_entity_key r),
           di_report_ref = Some (m_report_ref m), di_event_ts = Some (jl_event_ts r),
           di_content_hash = Some (m_content_hash m), di_error = None\<rparr>]\<rparr>"

text \<open>The loop over the rows; with \<open>fail_fast\<close> the first rejected row ends the run.\<close>

fun land_rows ::
    "('m, 'p, 'd) landing \<Rightarrow> run_args \<Rightarrow> correction_context \<Rightarrow> string \<Rightarrow> bool \<Rightarrow> datetime \<Rightarrow> (nat \<Rightarrow> datetime)
      \<Rightarrow> prepared_row list \<Rightarrow> landing_tally \<Rightarrow> 'm \<times> 'p \<Rightarrow> landing_tally res \<times> 'm \<times> 'p" where
  "land_rows L A ctx mid fail_fast created clk [] t s = (Inr t, s)"
| "land_rows L A ctx mid fail_fast created clk (p # ps) t s =
     (case p of
        Inl reason \<Rightarrow>
          if fail_fast then (Inl (ValueError reason), s)
          else land_rows L A ctx mid fail_fast created clk ps (reject_row A mid reason t) s
      | Inr r \<Rightarrow>
          (case land_row L A ctx created (clk (lt_read t)) r s of
             (Inl e, s1) \<Rightarrow>
               if fail_fast then (Inl e, s1)
               else land_rows L A ctx mid fail_fast created clk ps (reject_row A mid (reject_reason e) t) s1
           | (Inr (is_new, m), s1) \<Rightarrow>
               land_rows L A ctx mid fail_fast created clk ps (accept_row A mid is_new m r t) s1))"

definition dataset_fingerprint :: "hasher \<Rightarrow> string list \<Rightarrow> string" where
  "dataset_fingerprint H hashes =
     (case json_dumps (float_repr H) plain_style (JList (map JStr (sort hashes))) of
        Inr s \<Rightarrow> ''sha256:'' @ sha256_hex H s | Inl _ \<Rightarrow> [])"

definition run_manifest ::
    "('m, 'p, 'd) landing \<Rightarrow> run_args \<Rightarrow> string \<Rightarrow> string \<Rightarrow> datetime \<Rightarrow> landing_tally \<Rightarrow> manifest" where
  "run_manifest L A mid dataset_id created t =
     \<lparr>sd_manifest_id = mid, sd_dataset_id = dataset_id, sd_source_kind = rg_source_kind A,
      sd_entity_type = rg_entity_type A, sd_source_name = rg_source_name A,
      sd_copy_mode = rg_copy_mode A, sd_created_at = created,
      sd_report_type = Some (rg_report_type A), sd_landing_form = ''raw_reports'', sd_view = None,
      sd_view_version = None, sd_status = ''completed'', sd_input_uri = rg_input_uri A,
      sd_created_by = rg_created_by A, sd_read = int (lt_read t), sd_written = int (lt_written t),
      sd_duplicate = int (lt_duplicate t), sd_rejected = int (lt_rejected t), sd_min_ts = lt_min t,
      sd_max_ts = lt_max t,
      sd_content_hash = Some (dataset_fingerprint (ld_hasher L) (lt_hashes t))\<rparr>"

definition correction_origin :: "run_args \<Rightarrow> string" where
  "correction_origin A = (if rg_source_kind A = ''object_storage_jsonl'' then ''jsonl_ingestion'' else ''dwh_import'')"

text \<open>The fresh ids are inputs: of the manifest, and of the dataset when none was given.\<close>

definition land_report_rows ::
    "('m, 'p, 'd) landing \<Rightarrow> run_args \<Rightarrow> string \<Rightarrow> string \<Rightarrow> bool \<Rightarrow> datetime \<Rightarrow> (nat \<Rightarrow> datetime)
      \<Rightarrow> prepared_row list \<Rightarrow> ('m \<times> 'p) \<times> 'd \<Rightarrow> manifest res \<times> ('m \<times> 'p) \<times> 'd" where
  "land_report_rows L A fresh_mid fresh_ds fail_fast created clk rows = (\<lambda>(s, ds).
     (if rg_copy_mode A = ''register_in_place'' then
        (Inl (ValueError ''copy_mode='register_in_place' is not supported yet (copy-only)''), s, ds)
      else if rg_copy_mode A \<noteq> ''copy'' then (Inl (ValueError ''unknown copy_mode''), s, ds)
      else
        let mid = ''sdm_'' @ fresh_mid;
            ctx = \<lparr>cc_change_origin = correction_origin A, cc_manifest_id = Some mid,
                   cc_request_id = None, cc_actor_key_id = None\<rparr>
        in case land_rows L A ctx mid fail_fast created clk rows empty_landing s of
             (Inl e, s1) \<Rightarrow> (Inl e, s1, ds)
           | (Inr t, s1) \<Rightarrow>
             case mk_manifest (run_manifest L A mid (or_default (rg_dataset_id A) (''ds_'' @ fresh_ds)) created t) of
               Inl e \<Rightarrow> (Inl e, s1, ds)
             | Inr m \<Rightarrow>
             case ld_put_manifest L m ds of
               Inl e \<Rightarrow> (Inl e, s1, ds)
             | Inr ds1 \<Rightarrow>
             case ld_add_items L (lt_items t) ds1 of
               Inl e \<Rightarrow> (Inl e, s1, ds1)
             | Inr ds2 \<Rightarrow> (Inr m, s1, ds2)))"

definition run_jsonl_ingestion ::
    "('m, 'p, 'd) landing \<Rightarrow> (string \<Rightarrow> json option) \<Rightarrow> (json \<Rightarrow> jsonl_row option) \<Rightarrow> run_args \<Rightarrow> string \<Rightarrow> string
      \<Rightarrow> bool \<Rightarrow> datetime \<Rightarrow> (nat \<Rightarrow> datetime) \<Rightarrow> string list \<Rightarrow> ('m \<times> 'p) \<times> 'd
      \<Rightarrow> manifest res \<times> ('m \<times> 'p) \<times> 'd" where
  "run_jsonl_ingestion L loads parse A fresh_mid fresh_ds fail_fast created clk lines =
     land_report_rows L (A\<lparr>rg_source_kind := ''object_storage_jsonl''\<rparr>) fresh_mid fresh_ds fail_fast created clk
       (iter_jsonl loads parse lines)"

section \<open>Accounting\<close>

definition tally_balanced :: "string \<Rightarrow> landing_tally \<Rightarrow> bool" where
  "tally_balanced mid t \<longleftrightarrow>
     lt_read t = lt_written t + lt_duplicate t + lt_rejected t
     \<and> length (lt_items t) = lt_read t
     \<and> map di_index (lt_items t) = map int [0..<lt_read t]
     \<and> (\<forall>i \<in> set (lt_items t). di_manifest_id i = mid)
     \<and> lt_written t = length (filter (\<lambda>i. di_status i = ''written'') (lt_items t))
     \<and> lt_duplicate t = length (filter (\<lambda>i. di_status i = ''duplicate'') (lt_items t))
     \<and> lt_rejected t = length (filter (\<lambda>i. di_status i = ''rejected'') (lt_items t))"

lemma empty_balanced [simp]: "tally_balanced mid empty_landing"
  by (simp add: tally_balanced_def empty_landing_def)

lemma reject_balanced [simp]: "tally_balanced mid t \<Longrightarrow> tally_balanced mid (reject_row A mid reason t)"
  by (auto simp: tally_balanced_def reject_row_def)

lemma accept_balanced [simp]: "tally_balanced mid t \<Longrightarrow> tally_balanced mid (accept_row A mid is_new m r t)"
  by (auto simp: tally_balanced_def accept_row_def)

lemma tally_read [simp]:
  "lt_read (reject_row A mid reason t) = Suc (lt_read t)"
  "lt_read (accept_row A mid is_new m r t) = Suc (lt_read t)"
  by (simp_all add: reject_row_def accept_row_def)

lemma land_rows_balanced:
  assumes "land_rows L A ctx mid fail_fast created clk rows t s = (Inr t', s')" "tally_balanced mid t"
  shows "tally_balanced mid t' \<and> lt_read t' = lt_read t + length rows"
  using assms
proof (induction rows arbitrary: t s)
  case (Cons p ps)
  show ?case
  proof (cases p)
    case (Inl reason)
    with Cons.prems have "land_rows L A ctx mid fail_fast created clk ps (reject_row A mid reason t) s = (Inr t', s')"
      by (auto split: if_splits)
    from Cons.IH[OF this] Cons.prems(2) show ?thesis by simp
  next
    case (Inr r)
    obtain x s1 where x: "land_row L A ctx created (clk (lt_read t)) r s = (x, s1)"
      by (cases "land_row L A ctx created (clk (lt_read t)) r s")
    show ?thesis
    proof (cases x)
      case (Inl e)
      with Inr x Cons.prems have
        "land_rows L A ctx mid fail_fast created clk ps (reject_row A mid (reject_reason e) t) s1 = (Inr t', s')"
        by (auto split: if_splits)
      from Cons.IH[OF this] Cons.prems(2) show ?thesis by simp
    next
      case (Inr y)
      obtain b m where "y = (b, m)" by (cases y)
      with Inr \<open>p = Inr r\<close> x Cons.prems have
        "land_rows L A ctx mid fail_fast created clk ps (accept_row A mid b m r t) s1 = (Inr t', s')" by simp
      from Cons.IH[OF this] Cons.prems(2) show ?thesis by simp
    qed
  qed
qed simp

section \<open>Landing the same rows again\<close>

text \<open>A row whose availability is the time of its landing, as it is landed at a given time.\<close>

definition lands_as :: "('m, 'p, 'd) landing \<Rightarrow> run_args \<Rightarrow> datetime \<Rightarrow> prepared_row \<Rightarrow> raw_report_meta \<Rightarrow> bool" where
  "lands_as L A created p m \<longleftrightarrow>
     (case p of Inl _ \<Rightarrow> False
      | Inr r \<Rightarrow> jl_available_at r = None \<and> land_meta L A created r = Inr m)"

lemma land_meta_ok: "land_meta L A created r = Inr m \<Longrightarrow> meta_ok m"
  by (auto simp: land_meta_def Let_def split: if_splits option.splits)

lemma land_meta_time:
  assumes "land_meta L A created r = Inr m" "jl_available_at r = None"
  shows "m_created_at m = created \<and> m_available_at m = Some created
    \<and> m_availability_source m = Some ''ingestion_time''"
  using assms by (auto simp: land_meta_def Let_def split: if_splits)

lemma land_meta_again:
  assumes "land_meta L A created r = Inr m" "jl_available_at r = None"
    "aware created2" "instant created \<le> instant created2"
  shows "land_meta L A created2 r = Inr (m\<lparr>m_created_at := created2, m_available_at := Some created2\<rparr>)"
  using assms
  by (auto simp: land_meta_def Let_def meta_ok_def split: if_splits)

lemma same_but_times:
  "\<not> raw_meta_conflicts e (m\<lparr>m_created_at := t, m_available_at := a\<rparr>) \<longleftrightarrow> \<not> raw_meta_conflicts e m"
  by (simp add: raw_meta_conflicts_def)

text \<open>The tally of a run in which every row is already known.\<close>

fun all_duplicate :: "run_args \<Rightarrow> string \<Rightarrow> (raw_report_meta \<times> jsonl_row) list \<Rightarrow> landing_tally \<Rightarrow> landing_tally" where
  "all_duplicate A mid [] t = t"
| "all_duplicate A mid ((m, r) # xs) t = all_duplicate A mid xs (accept_row A mid False m r t)"

lemma all_duplicate_tally:
  "lt_written (all_duplicate A mid xs t) = lt_written t"
  "lt_rejected (all_duplicate A mid xs t) = lt_rejected t"
  "lt_duplicate (all_duplicate A mid xs t) = lt_duplicate t + length xs"
  "lt_hashes (all_duplicate A mid xs t) = lt_hashes t @ map (m_content_hash \<circ> fst) xs"
  by (induction xs arbitrary: t) (auto simp: accept_row_def)

lemma rejected_grows:
  "land_rows L A ctx mid ff created clk rows t s = (Inr t', s') \<Longrightarrow> lt_rejected t \<le> lt_rejected t'"
proof (induction rows arbitrary: t s)
  case (Cons p ps)
  show ?case
  proof (cases p)
    case (Inl reason)
    with Cons.prems have "land_rows L A ctx mid ff created clk ps (reject_row A mid reason t) s = (Inr t', s')"
      by (auto split: if_splits)
    from Cons.IH[OF this] show ?thesis by (simp add: reject_row_def)
  next
    case (Inr r)
    obtain x s1 where x: "land_row L A ctx created (clk (lt_read t)) r s = (x, s1)"
      by (cases "land_row L A ctx created (clk (lt_read t)) r s")
    show ?thesis
    proof (cases x)
      case (Inl e)
      with Inr x Cons.prems have
        "land_rows L A ctx mid ff created clk ps (reject_row A mid (reject_reason e) t) s1 = (Inr t', s')"
        by (auto split: if_splits)
      from Cons.IH[OF this] show ?thesis by (simp add: reject_row_def)
    next
      case (Inr y)
      obtain b m where "y = (b, m)" by (cases y)
      with Inr \<open>p = Inr r\<close> x Cons.prems have
        "land_rows L A ctx mid ff created clk ps (accept_row A mid b m r t) s1 = (Inr t', s')" by simp
      from Cons.IH[OF this] show ?thesis by (simp add: accept_row_def)
    qed
  qed
qed simp

text \<open>Without a rejection every row lands, and its hash and times are counted.\<close>

lemma land_rows_all:
  assumes "land_rows L A ctx mid ff created clk (p # ps) t s = (Inr t', s')" "lt_rejected t' = lt_rejected t"
  shows "\<exists>r m b s1. p = Inr r \<and> land_row L A ctx created (clk (lt_read t)) r s = (Inr (b, m), s1)
    \<and> land_rows L A ctx mid ff created clk ps (accept_row A mid b m r t) s1 = (Inr t', s')"
proof (cases p)
  case (Inl reason)
  with assms(1) have "land_rows L A ctx mid ff created clk ps (reject_row A mid reason t) s = (Inr t', s')"
    by (auto split: if_splits)
  from rejected_grows[OF this] assms(2) show ?thesis by (simp add: reject_row_def)
next
  case (Inr r)
  obtain x s1 where x: "land_row L A ctx created (clk (lt_read t)) r s = (x, s1)"
    by (cases "land_row L A ctx created (clk (lt_read t)) r s")
  show ?thesis
  proof (cases x)
    case (Inl e)
    with Inr x assms(1) have
      "land_rows L A ctx mid ff created clk ps (reject_row A mid (reject_reason e) t) s1 = (Inr t', s')"
      by (auto split: if_splits)
    from rejected_grows[OF this] assms(2) show ?thesis by (simp add: reject_row_def)
  next
    case (Inr y)
    obtain b m where "y = (b, m)" by (cases y)
    with Inr \<open>p = Inr r\<close> x assms(1) show ?thesis by (intro exI[of _ r] exI[of _ m] exI[of _ b] exI[of _ s1]) simp
  qed
qed

lemma land_row_Inr:
  assumes "land_row L A ctx created now r (ms, ps) = (Inr (b, m), s1)"
  shows "\<exists>ms1 ps1. s1 = (ms1, ps1) \<and> land_meta L A created r = Inr m
    \<and> ld_upsert L ms now m (Some ctx) = Inr (b, ms1)"
  using assms by (auto simp: land_row_def split: sum.splits)

context meta_repository
begin

text \<open>A later state keeps every report a state holds, up to its availability.\<close>

lemma upsert_step:
  assumes "inv s" "adm s m" "upsert s now m ctx = Inr (b, s')"
  shows "inv s' \<and> (\<exists>e. get s' (m_report_ref m) = Inr e \<and> \<not> raw_meta_conflicts e m)
    \<and> (\<forall>ref e. get s ref = Inr e \<longrightarrow> (\<exists>e'. get s' ref = Inr e' \<and> \<not> raw_meta_conflicts e e'))
    \<and> (\<forall>m'. adm s m' \<longrightarrow> adm s' m')"
  using upsert_branches[OF assms(1,2), of now ctx]
proof (elim disjE exE conjE)
  fix s1 b' e'
  assume u: "upsert s now m ctx = Inr (b', s1)" "inv s1" "get s1 (m_report_ref m) = Inr e'"
    "\<not> raw_meta_conflicts e' m" "\<forall>ref. ref \<noteq> m_report_ref m \<longrightarrow> get s1 ref = get s ref"
    "\<forall>e. get s (m_report_ref m) = Inr e \<longrightarrow> \<not> raw_meta_conflicts e e'"
    "\<forall>m'. adm s m' \<longrightarrow> adm s1 m'"
  have s1: "s1 = s'" using u(1) assms(3) by simp
  have "\<exists>e1. get s1 ref = Inr e1 \<and> \<not> raw_meta_conflicts e e1" if "get s ref = Inr e" for ref e
    using that u(3,5,6) by (cases "ref = m_report_ref m") auto
  then show ?thesis using u(2,3,4,7) unfolding s1 by blast
next
  fix e assume "upsert s now m ctx = Inl (ConflictError (m_report_ref m))"
  with assms(3) show ?thesis by simp
qed

text \<open>After a run without a rejection every landed report is stored.\<close>

lemma landed_stored:
  assumes "land_rows L A ctx mid ff created clk rows t (s, ps) = (Inr t', s', ps')"
    "ld_upsert L = upsert" "lt_rejected t' = lt_rejected t" "inv s"
    "\<forall>r m. Inr r \<in> set rows \<longrightarrow> land_meta L A created r = Inr m \<longrightarrow> adm s m"
  shows "inv s'
    \<and> (\<forall>ref e. get s ref = Inr e \<longrightarrow> (\<exists>e'. get s' ref = Inr e' \<and> \<not> raw_meta_conflicts e e'))
    \<and> (\<forall>p \<in> set rows. \<exists>r m e. p = Inr r \<and> land_meta L A created r = Inr m
         \<and> get s' (m_report_ref m) = Inr e \<and> \<not> raw_meta_conflicts e m)
    \<and> lt_hashes t' = lt_hashes t @ map (\<lambda>p. case p of Inl _ \<Rightarrow> [] | Inr r \<Rightarrow>
         (case land_meta L A created r of Inl _ \<Rightarrow> [] | Inr m \<Rightarrow> m_content_hash m)) rows"
  using assms(1,3,4,5)
proof (induction rows arbitrary: t s ps)
  case Nil
  then show ?case by auto
next
  case (Cons p rows)
  from land_rows_all[OF Cons.prems(1,2)] obtain r m b s1 where
    p: "p = Inr r" and r: "land_row L A ctx created (clk (lt_read t)) r (s, ps) = (Inr (b, m), s1)"
    and rest: "land_rows L A ctx mid ff created clk rows (accept_row A mid b m r t) s1 = (Inr t', s', ps')"
    by blast
  from land_row_Inr[OF r] obtain ms1 ps1 where s1: "s1 = (ms1, ps1)"
    and lm: "land_meta L A created r = Inr m" and u: "upsert s (clk (lt_read t)) m (Some ctx) = Inr (b, ms1)"
    using assms(2) by auto
  have adm: "adm s m" using Cons.prems(4) p lm by simp
  from upsert_step[OF Cons.prems(3) adm u] obtain e where
    st: "inv ms1" "get ms1 (m_report_ref m) = Inr e" "\<not> raw_meta_conflicts e m"
    "\<And>ref e. get s ref = Inr e \<Longrightarrow> \<exists>e'. get ms1 ref = Inr e' \<and> \<not> raw_meta_conflicts e e'"
    "\<And>m'. adm s m' \<Longrightarrow> adm ms1 m'" by blast
  have rej: "lt_rejected t' = lt_rejected (accept_row A mid b m r t)"
    using Cons.prems(2) by (simp add: accept_row_def)
  have adm': "\<forall>r m. Inr r \<in> set rows \<longrightarrow> land_meta L A created r = Inr m \<longrightarrow> adm ms1 m"
    using Cons.prems(4) st(5) by simp
  note ih = Cons.IH[OF rest[unfolded s1] rej st(1) adm']
  have keep: "\<exists>e2. get s' ref = Inr e2 \<and> \<not> raw_meta_conflicts e0 e2" if "get s ref = Inr e0" for ref e0
  proof -
    from st(4)[OF that] obtain e1 where e1: "get ms1 ref = Inr e1" "\<not> raw_meta_conflicts e0 e1" by blast
    with ih obtain e2 where e2: "get s' ref = Inr e2" "\<not> raw_meta_conflicts e1 e2" by blast
    show ?thesis using e2(1) conflicts_trans[OF e1(2) e2(2)] by blast
  qed
  from ih st(2) obtain e2 where e2: "get s' (m_report_ref m) = Inr e2" "\<not> raw_meta_conflicts e e2" by blast
  have "\<not> raw_meta_conflicts e2 m"
    using conflicts_trans e2(2) st(3) conflicts_sym by blast
  then have here: "\<exists>r m e. p = Inr r \<and> land_meta L A created r = Inr m
         \<and> get s' (m_report_ref m) = Inr e \<and> \<not> raw_meta_conflicts e m"
    using p lm e2(1) by blast
  show ?case using ih keep here by (simp add: p lm accept_row_def)
qed

text \<open>Rows whose reports are stored are all duplicates, and the metadata does not change.\<close>

lemma stored_rows_duplicate:
  assumes "ld_upsert L = upsert" "\<And>ps u j. \<exists>ps'. ld_put_payload L ps u j = Inr ps'" "inv s"
    "\<forall>p \<in> set rows. \<exists>m e. lands_as L A created p m \<and> get s (m_report_ref m) = Inr e \<and> \<not> raw_meta_conflicts e m"
  shows "\<exists>t' ps'. land_rows L A ctx mid ff created clk rows t (s, ps) = (Inr t', s, ps')
    \<and> lt_written t' = lt_written t \<and> lt_rejected t' = lt_rejected t
    \<and> lt_duplicate t' = lt_duplicate t + length rows
    \<and> lt_hashes t' = lt_hashes t @ map (\<lambda>p. case p of Inl _ \<Rightarrow> [] | Inr r \<Rightarrow>
         (case land_meta L A created r of Inl _ \<Rightarrow> [] | Inr m \<Rightarrow> m_content_hash m)) rows"
  using assms(4)
proof (induction rows arbitrary: t ps)
  case (Cons p rows)
  then obtain m e where la: "lands_as L A created p m" and e: "get s (m_report_ref m) = Inr e"
    and nc: "\<not> raw_meta_conflicts e m" by auto
  obtain r where p: "p = Inr r" and r: "jl_available_at r = None" "land_meta L A created r = Inr m"
    using la by (cases p) (auto simp: lands_as_def)
  have nocorr: "\<not> is_availability_correction e m"
    using land_meta_time[OF r(2,1)] by (simp add: is_availability_correction_def)
  have u: "upsert s now m ctx' = Inr (False, s)" for now ctx'
    by (rule upsert_same[OF assms(3) e nc nocorr])
  obtain ps1 where pp: "ld_put_payload L ps (m_storage_uri m) (jl_payload r) = Inr ps1"
    using assms(2) by blast
  have lr: "land_row L A ctx created now r (s, ps) = (Inr (False, m), s, ps1)" for now
    by (simp add: land_row_def r assms(1) u pp)
  from Cons.IH[of "accept_row A mid False m r t" ps1] Cons.prems show ?case
    by (auto simp: p lr r accept_row_def)
qed simp

end

text \<open>
  Landing the same lines again later, in memory: nothing is written, every row is a duplicate, the
  repository is unchanged and the dataset fingerprint is that of the first run.
\<close>

definition undated :: "prepared_row \<Rightarrow> bool" where
  "undated p \<longleftrightarrow> (case p of Inl _ \<Rightarrow> True | Inr r \<Rightarrow> jl_available_at r = None)"

lemma rerun_is_idle:
  assumes L: "ld_upsert L = mem_upsert" "\<And>ps u j. \<exists>ps'. ld_put_payload L ps u j = Inr ps'"
    and s: "mem_meta_inv s"
    and run: "land_rows L A ctx mid ff created clk rows empty_landing (s, ps) = (Inr t, s1, ps1)"
    and ok: "lt_rejected t = 0" "\<forall>p \<in> set rows. undated p"
    and at: "aware created2" "instant created \<le> instant created2"
  shows "\<exists>t2 ps3. land_rows L A ctx2 mid2 ff2 created2 clk2 rows empty_landing (s1, ps2) = (Inr t2, s1, ps3)
    \<and> lt_written t2 = 0 \<and> lt_rejected t2 = 0 \<and> lt_duplicate t2 = length rows
    \<and> lt_hashes t2 = lt_hashes t"
proof -
  have rej: "lt_rejected t = lt_rejected empty_landing" using ok(1) by (simp add: empty_landing_def)
  have st: "mem_meta_inv s1"
    "\<forall>p \<in> set rows. \<exists>r m e. p = Inr r \<and> land_meta L A created r = Inr m
         \<and> mem_get_meta s1 (m_report_ref m) = Inr e \<and> \<not> raw_meta_conflicts e m"
    "lt_hashes t = lt_hashes empty_landing @ map (\<lambda>p. case p of Inl _ \<Rightarrow> [] | Inr r \<Rightarrow>
         (case land_meta L A created r of Inl _ \<Rightarrow> [] | Inr m \<Rightarrow> m_content_hash m)) rows"
    using memmeta.landed_stored[OF run L(1) rej s] land_meta_ok[of L A created] by blast+
  have again: "\<exists>r m. p = Inr r \<and> land_meta L A created r = Inr m
      \<and> land_meta L A created2 r = Inr (m\<lparr>m_created_at := created2, m_available_at := Some created2\<rparr>)
      \<and> (\<exists>e. mem_get_meta s1 (m_report_ref m) = Inr e \<and> \<not> raw_meta_conflicts e m) \<and> jl_available_at r = None"
    if p: "p \<in> set rows" for p
  proof -
    from p st(2) obtain r m e where r: "p = Inr r" "land_meta L A created r = Inr m"
      "mem_get_meta s1 (m_report_ref m) = Inr e" "\<not> raw_meta_conflicts e m" by blast
    have "jl_available_at r = None" using p ok(2) r(1) by (auto simp: undated_def)
    with land_meta_again[OF r(2) this at] r show ?thesis by blast
  qed
  have "\<forall>p \<in> set rows. \<exists>m e. lands_as L A created2 p m \<and> mem_get_meta s1 (m_report_ref m) = Inr e
      \<and> \<not> raw_meta_conflicts e m"
  proof
    fix p assume "p \<in> set rows"
    from again[OF this] obtain r m e where r: "p = Inr r" "jl_available_at r = None"
      "land_meta L A created2 r = Inr (m\<lparr>m_created_at := created2, m_available_at := Some created2\<rparr>)"
      "mem_get_meta s1 (m_report_ref m) = Inr e" "\<not> raw_meta_conflicts e m" by blast
    then show "\<exists>m e. lands_as L A created2 p m \<and> mem_get_meta s1 (m_report_ref m) = Inr e \<and> \<not> raw_meta_conflicts e m"
      by (intro exI[of _ "m\<lparr>m_created_at := created2, m_available_at := Some created2\<rparr>"] exI[of _ e])
        (simp add: lands_as_def same_but_times[simplified])
  qed
  from memmeta.stored_rows_duplicate[OF L(1,2) st(1) this, of ctx2 mid2 ff2 clk2 empty_landing ps2]
  obtain t2 ps3 where t2: "land_rows L A ctx2 mid2 ff2 created2 clk2 rows empty_landing (s1, ps2) = (Inr t2, s1, ps3)"
    "lt_written t2 = 0" "lt_rejected t2 = 0" "lt_duplicate t2 = length rows"
    "lt_hashes t2 = lt_hashes empty_landing @ map (\<lambda>p. case p of Inl _ \<Rightarrow> [] | Inr r \<Rightarrow>
         (case land_meta L A created2 r of Inl _ \<Rightarrow> [] | Inr m \<Rightarrow> m_content_hash m)) rows"
    by (auto simp: empty_landing_def)
  have "lt_hashes t2 = lt_hashes t"
    unfolding t2(5) st(3) using again by (fastforce intro!: map_cong)
  with t2 show ?thesis by blast
qed

text \<open>
  The reference derived for a row does not depend on its time: the same content at a later time is
  a conflict with what was landed, not a new report.
\<close>

lemma same_content_later_conflicts:
  assumes L: "ld_upsert L = mem_upsert"
    and r: "land_meta L A created r = Inr m" "land_meta L A created2 (r\<lparr>jl_event_ts := d\<rparr>) = Inr m2"
    and noref: "or_default (jl_report_ref r) [] = []"
    and e: "mem_get_meta s (m_report_ref m) = Inr e" "\<not> raw_meta_conflicts e m"
    and later: "\<not> dt_eq d (jl_event_ts r)"
  shows "land_row L A ctx created2 now (r\<lparr>jl_event_ts := d\<rparr>) (s, ps)
    = (Inl (ConflictError (m_report_ref m)), s, ps)"
proof -
  have m: "m_report_ref m2 = m_report_ref m \<and> m_report_ts m2 = d \<and> m_report_ts m = jl_event_ts r"
    using r noref by (auto simp: land_meta_def Let_def)
  have "map_of (mm_meta s) (m_report_ref m) = Some e"
    using e(1) by (simp add: mem_get_meta_def split: option.splits)
  moreover have "raw_meta_conflicts e m2"
    using e(2) m later by (auto simp: raw_meta_conflicts_def dt_eq_def)
  ultimately show ?thesis using m by (simp add: land_row_def r(2) L mem_upsert_def)
qed

text \<open>A landing that returned a manifest, through its tally.\<close>

lemma landed:
  assumes "run_jsonl_ingestion L loads parse A mid ds ff created clk lines (s, d) = (Inr m, s1, d1)"
  shows "rg_copy_mode A = ''copy'' \<and> (\<exists>t ctx. land_rows L (A\<lparr>rg_source_kind := ''object_storage_jsonl''\<rparr>) ctx
        (''sdm_'' @ mid) ff created clk (iter_jsonl loads parse lines) empty_landing s = (Inr t, s1)
    \<and> sd_read m = int (lt_read t) \<and> sd_rejected m = int (lt_rejected t)
    \<and> sd_content_hash m = Some (dataset_fingerprint (ld_hasher L) (lt_hashes t)))"
proof -
  have mk: "mk_manifest x = Inr m \<Longrightarrow> m = x" for x by (auto simp: mk_manifest_def)
  note u = assms[unfolded run_jsonl_ingestion_def land_report_rows_def prod.case Let_def]
  show ?thesis using u
    by (auto simp: run_manifest_def dest!: mk split: if_splits prod.splits sum.splits)
qed

lemma iter_rows_aware: "Inr r \<in> set (iter_jsonl loads parse lines) \<Longrightarrow> aware (jl_event_ts r)"
  by (auto simp: iter_jsonl_def prepare_line_def validate_row_def require_def split: option.splits sum.splits if_splits)

lemma land_rows_aware:
  assumes "land_rows L A ctx mid ff created clk rows t s = (Inr t', s')"
    "\<forall>r. Inr r \<in> set rows \<longrightarrow> aware (jl_event_ts r)" "aware_opt (lt_min t)" "aware_opt (lt_max t)"
  shows "aware_opt (lt_min t') \<and> aware_opt (lt_max t')"
  using assms
proof (induction rows arbitrary: t s)
  case (Cons p ps)
  have ps: "\<forall>r. Inr r \<in> set ps \<longrightarrow> aware (jl_event_ts r)" using Cons.prems(2) by simp
  have rej: "aware_opt (lt_min (reject_row A mid why t)) \<and> aware_opt (lt_max (reject_row A mid why t))" for why
    using Cons.prems(3,4) by (simp add: reject_row_def)
  have acc: "aware_opt (lt_min (accept_row A mid b m r t)) \<and> aware_opt (lt_max (accept_row A mid b m r t))"
    if "p = Inr r" for b m r
    using that Cons.prems(2-4) by (auto simp: accept_row_def min_ts_def max_ts_def split: option.splits)
  show ?case
    using Cons.prems(1) Cons.IH[OF _ ps] rej acc
    by (cases p) (fastforce split: if_splits prod.splits sum.splits)+
qed simp

text \<open>The run as a whole, against stores that accept what they are given.\<close>

lemma run_again_idle:
  assumes L: "ld_upsert L = mem_upsert" "\<forall>ps u j. \<exists>ps'. ld_put_payload L ps u j = Inr ps'"
      "\<forall>m d. \<exists>d'. ld_put_manifest L m d = Inr d'" "\<forall>xs d. \<exists>d'. ld_add_items L xs d = Inr d'"
    and s: "mem_meta_inv s"
    and run: "run_jsonl_ingestion L loads parse A mid ds ff created clk lines ((s, ps), d) = (Inr m, (s1, ps1), d1)"
    and ok: "sd_rejected m = 0" "\<forall>p \<in> set (iter_jsonl loads parse lines). undated p"
    and at: "aware created2" "instant created \<le> instant created2"
  shows "\<exists>m2 ps3 d3. run_jsonl_ingestion L loads parse A mid2 ds2 ff2 created2 clk2 lines ((s1, ps2), d2)
        = (Inr m2, (s1, ps3), d3)
    \<and> sd_written m2 = 0 \<and> sd_rejected m2 = 0 \<and> sd_duplicate m2 = sd_read m
    \<and> sd_content_hash m2 = sd_content_hash m"
proof -
  let ?rows = "iter_jsonl loads parse lines" and ?A = "A\<lparr>rg_source_kind := ''object_storage_jsonl''\<rparr>"
  have pay: "\<And>ps u j. \<exists>ps'. ld_put_payload L ps u j = Inr ps'" using L(2) by blast
  obtain t ctx where copy: "rg_copy_mode A = ''copy''"
    and t: "land_rows L ?A ctx (''sdm_'' @ mid) ff created clk ?rows empty_landing (s, ps) = (Inr t, s1, ps1)"
    and m: "sd_rejected m = int (lt_rejected t)" "sd_read m = int (lt_read t)"
      "sd_content_hash m = Some (dataset_fingerprint (ld_hasher L) (lt_hashes t))"
    using landed[OF run] by blast
  let ?ctx2 = "\<lparr>cc_change_origin = correction_origin ?A, cc_manifest_id = Some (''sdm_'' @ mid2),
    cc_request_id = None, cc_actor_key_id = None\<rparr>"
  have "lt_rejected t = 0" using m(1) ok(1) by simp
  from rerun_is_idle[OF L(1) pay s t this ok(2) at, of ?ctx2 "''sdm_'' @ mid2" ff2 clk2 ps2] obtain t2 ps3 where
    t2: "land_rows L ?A ?ctx2 (''sdm_'' @ mid2) ff2 created2 clk2 ?rows empty_landing (s1, ps2) = (Inr t2, s1, ps3)"
    and tally: "lt_written t2 = 0" "lt_rejected t2 = 0" "lt_duplicate t2 = length ?rows" "lt_hashes t2 = lt_hashes t"
    by blast
  have len: "lt_read t = length ?rows"
    using land_rows_balanced[OF t empty_balanced] by (simp add: empty_landing_def)
  have "aware_opt (lt_min t2) \<and> aware_opt (lt_max t2)"
    using land_rows_aware[OF t2] iter_rows_aware by (simp add: empty_landing_def)
  then have mk: "mk_manifest (run_manifest L ?A (''sdm_'' @ mid2) x created2 t2)
      = Inr (run_manifest L ?A (''sdm_'' @ mid2) x created2 t2)" for x
    using at(1) copy
    by (simp add: mk_manifest_iff manifest_ok_def run_manifest_def copy_modes_def landing_forms_def)
  obtain d3 d4 where d: "ld_put_manifest L (run_manifest L ?A (''sdm_'' @ mid2)
      (or_default (rg_dataset_id ?A) (''ds_'' @ ds2)) created2 t2) d2 = Inr d3"
    "ld_add_items L (lt_items t2) d3 = Inr d4" using L(3,4) by blast
  show ?thesis
    unfolding run_jsonl_ingestion_def land_report_rows_def prod.case Let_def
    using copy t2 mk d tally m len by (simp add: run_manifest_def)
qed

end
