(* ===== verification/Security.thy ===== *)
theory Security
  imports PyJson "HOL-Library.Sublist"
begin

text \<open>
  API-key security of the HTTP services (api/security.py): the configuration read from the
  environment, its start-up validation, and the decision on one request. The JSON parser of the
  key list and \<^verbatim>\<open>str\<close> of a non-string value are parameters; the start-up warning is a log line
  and is left out.
\<close>

section \<open>The configuration\<close>

text \<open>A \<^verbatim>\<open>RuntimeError\<close> at start-up, or the two refusals of a request.\<close>

datatype security_error =
    Misconfigured string
  | Unauthorized string
  | Forbidden string string string  \<comment> \<open>key id, role, required group\<close>

type_synonym 'a secured = "security_error + 'a"

record api_key =
  ak_key_id :: string
  ak_role :: string
  ak_secret :: string

record auth_context =
  au_key_id :: string
  au_role :: string

record security_config =
  sx_mode :: string
  sx_environment :: string
  sx_keys :: "api_key list"

definition roles :: "string list" where
  "roles = [''service'', ''operator'']"

definition modes :: "string list" where
  "modes = [''api_key'', ''disabled'']"

definition min_secret_length :: nat where
  "min_secret_length = 32"

definition placeholder_markers :: "string list" where
  "placeholder_markers = [''replace'', ''changeme'', ''change-me'', ''placeholder'', ''example'',
     ''secret'', ''password'', ''your-key'', ''xxx'']"

text \<open>\<^verbatim>\<open>_GROUP_ROLES\<close>: the roles that may use a grp of endpoints.\<close>

definition group_roles :: "(string, string list) dict" where
  "group_roles = [(''service_or_operator'', [''service'', ''operator'']), (''operator'', [''operator''])]"

fun str_of :: "(json \<Rightarrow> string) \<Rightarrow> json \<Rightarrow> string" where
  "str_of py_str (JStr s) = s"
| "str_of py_str j = py_str j"

definition key_of_item :: "(json \<Rightarrow> string) \<Rightarrow> json \<Rightarrow> api_key secured" where
  "key_of_item py_str item =
     (case item of
        JObj kvs \<Rightarrow>
          (if set (map fst kvs) = {''key_id'', ''role'', ''secret''} then
             (case (map_of kvs ''key_id'', map_of kvs ''role'', map_of kvs ''secret'') of
                (Some i, Some r, Some s) \<Rightarrow>
                  Inr \<lparr>ak_key_id = str_of py_str i, ak_role = str_of py_str r, ak_secret = str_of py_str s\<rparr>
              | _ \<Rightarrow> Inl (Misconfigured ''must have exactly key_id/role/secret''))
           else Inl (Misconfigured ''must have exactly key_id/role/secret''))
      | _ \<Rightarrow> Inl (Misconfigured ''must have exactly key_id/role/secret''))"

fun keys_of_items :: "(json \<Rightarrow> string) \<Rightarrow> json list \<Rightarrow> api_key list secured" where
  "keys_of_items py_str [] = Inr []"
| "keys_of_items py_str (x # xs) =
     (case key_of_item py_str x of
        Inl e \<Rightarrow> Inl e
      | Inr k \<Rightarrow> (case keys_of_items py_str xs of Inl e \<Rightarrow> Inl e | Inr ks \<Rightarrow> Inr (k # ks)))"

definition env_get :: "(string, string) dict \<Rightarrow> string \<Rightarrow> string \<Rightarrow> string" where
  "env_get env k d = (case map_of env k of Some v \<Rightarrow> v | None \<Rightarrow> d)"

definition from_env ::
    "(string \<Rightarrow> json option) \<Rightarrow> (json \<Rightarrow> string) \<Rightarrow> (string, string) dict \<Rightarrow> security_config secured" where
  "from_env loads py_str env =
     (let raw = env_get env ''FSP_API_KEYS'' [];
          config = (\<lambda>keys. \<lparr>sx_mode = env_get env ''FSP_SECURITY_MODE'' ''api_key'',
                            sx_environment = env_get env ''FSP_ENVIRONMENT'' ''development'', sx_keys = keys\<rparr>)
      in if blank raw then Inr (config [])
         else case loads raw of
             None \<Rightarrow> Inl (Misconfigured ''FSP_API_KEYS is not valid JSON'')
           | Some (JList items) \<Rightarrow>
               (case keys_of_items py_str items of Inl e \<Rightarrow> Inl e | Inr keys \<Rightarrow> Inr (config keys))
           | Some _ \<Rightarrow> Inl (Misconfigured ''FSP_API_KEYS must be a JSON list''))"

section \<open>Start-up validation\<close>

definition looks_like_placeholder :: "string \<Rightarrow> bool" where
  "looks_like_placeholder s \<longleftrightarrow> (\<exists>m \<in> set placeholder_markers. sublist m (py_lower s))"

definition validate_key :: "api_key \<Rightarrow> unit secured" where
  "validate_key k =
     (if ak_role k \<notin> set roles then Inl (Misconfigured ''role must be one of'')
      else if length (ak_secret k) < min_secret_length then Inl (Misconfigured ''secret is shorter than 32 characters'')
      else if looks_like_placeholder (ak_secret k) then Inl (Misconfigured ''secret looks like a placeholder'')
      else Inr ())"

fun validate_keys :: "api_key list \<Rightarrow> unit secured" where
  "validate_keys [] = Inr ()"
| "validate_keys (k # ks) = (case validate_key k of Inl e \<Rightarrow> Inl e | Inr _ \<Rightarrow> validate_keys ks)"

definition validate_config :: "security_config \<Rightarrow> unit secured" where
  "validate_config c =
     (if sx_mode c \<notin> set modes then Inl (Misconfigured ''FSP_SECURITY_MODE must be one of'')
      else if sx_mode c = ''disabled'' then
        (if sx_environment c \<noteq> ''development'' then
           Inl (Misconfigured ''FSP_SECURITY_MODE=disabled is allowed only with FSP_ENVIRONMENT=development'')
         else Inr ())
      else if sx_keys c = [] then Inl (Misconfigured ''api_key mode requires at least one key'')
      else if card (set (map ak_key_id (sx_keys c))) \<noteq> length (map ak_key_id (sx_keys c)) then
        Inl (Misconfigured ''duplicate key_id values'')
      else if card (set (map ak_secret (sx_keys c))) \<noteq> length (map ak_secret (sx_keys c)) then
        Inl (Misconfigured ''duplicate secret values'')
      else validate_keys (sx_keys c))"

section \<open>One request\<close>

text \<open>The scan keeps the last match; \<^verbatim>\<open>compare_digest\<close> is equality of the two byte strings.\<close>

definition resolve_key :: "security_config \<Rightarrow> string \<Rightarrow> api_key option" where
  "resolve_key c presented =
     fold (\<lambda>k found. if ak_secret k = presented then Some k else found) (sx_keys c) None"

text \<open>\<^verbatim>\<open>header.partition(" ")\<close>.\<close>

definition partition_space :: "string \<Rightarrow> string \<times> string" where
  "partition_space s = (takeWhile (\<lambda>c. c \<noteq> CHR '' '') s, drop 1 (dropWhile (\<lambda>c. c \<noteq> CHR '' '') s))"

definition require_role :: "security_config \<Rightarrow> string list \<Rightarrow> string \<Rightarrow> string option \<Rightarrow> auth_context secured" where
  "require_role c allowed grp header =
     (if sx_mode c = ''disabled'' then Inr \<lparr>au_key_id = ''dev-bypass'', au_role = ''operator''\<rparr>
      else
        case partition_space (case header of Some h \<Rightarrow> h | None \<Rightarrow> []) of
          (scheme, credential) \<Rightarrow>
            if py_lower scheme \<noteq> ''bearer'' \<or> py_strip credential = [] then
              Inl (Unauthorized ''missing or malformed Authorization header'')
            else
              case resolve_key c (py_strip credential) of
                None \<Rightarrow> Inl (Unauthorized ''unknown API key'')
              | Some k \<Rightarrow>
                  if ak_role k \<notin> set allowed then Inl (Forbidden (ak_key_id k) (ak_role k) grp)
                  else Inr \<lparr>au_key_id = ak_key_id k, au_role = ak_role k\<rparr>)"

text \<open>The dependency of an endpoint group; an unknown group raises \<^verbatim>\<open>KeyError\<close> at start-up.\<close>

definition dependency :: "security_config \<Rightarrow> string \<Rightarrow> (string option \<Rightarrow> auth_context secured) option" where
  "dependency c grp = map_option (\<lambda>allowed. require_role c allowed grp) (map_of group_roles grp)"

text \<open>The start-up guard over the mounted paths and the policy.\<close>

definition docs_routes :: "string list" where
  "docs_routes = [''/docs'', ''/redoc'', ''/openapi.json'', ''/docs/oauth2-redirect'']"

definition assert_policy_complete :: "string list \<Rightarrow> (string, string) dict \<Rightarrow> unit secured" where
  "assert_policy_complete routes policy =
     (let mounted = filter (\<lambda>r. r \<notin> set docs_routes) routes in
      if \<exists>r \<in> set mounted. r \<notin> set (map fst policy) then
        Inl (Misconfigured ''routes without a security classification'')
      else if \<exists>r \<in> set (map fst policy). r \<notin> set mounted then
        Inl (Misconfigured ''endpoint policy lists unknown routes'')
      else Inr ())"

section \<open>What a validated configuration decides\<close>

lemma validate_keys_Inr: "validate_keys ks = Inr () \<longleftrightarrow> (\<forall>k \<in> set ks. validate_key k = Inr ())"
  by (induction ks) (auto split: sum.splits)

lemma validate_key_Inr:
  "validate_key k = Inr () \<longleftrightarrow> ak_role k \<in> set roles \<and> 32 \<le> length (ak_secret k)
     \<and> \<not> looks_like_placeholder (ak_secret k)"
  by (auto simp: validate_key_def min_secret_length_def)

text \<open>The two ways a configuration starts.\<close>

lemma validated:
  "validate_config c = Inr () \<longleftrightarrow>
     (sx_mode c = ''disabled'' \<and> sx_environment c = ''development'')
     \<or> (sx_mode c = ''api_key'' \<and> sx_keys c \<noteq> [] \<and> distinct (map ak_key_id (sx_keys c))
        \<and> distinct (map ak_secret (sx_keys c)) \<and> (\<forall>k \<in> set (sx_keys c). validate_key k = Inr ()))"
proof -
  have d: "card (set xs) \<noteq> length xs \<longleftrightarrow> \<not> distinct xs" for xs :: "string list"
    using card_distinct distinct_card by blast
  show ?thesis unfolding validate_config_def d by (auto simp: modes_def validate_keys_Inr)
qed

lemma resolve_fold:
  assumes "distinct (map ak_secret ks)"
  shows "fold (\<lambda>k found. if ak_secret k = s then Some k else found) ks found = Some k \<longleftrightarrow>
     k \<in> set ks \<and> ak_secret k = s \<or> s \<notin> ak_secret ` set ks \<and> found = Some k"
  using assms by (induction ks arbitrary: found) (auto simp: rev_image_eqI)

lemma resolve_iff:
  assumes "validate_config c = Inr ()" "sx_mode c = ''api_key''"
  shows "resolve_key c s = Some k \<longleftrightarrow> k \<in> set (sx_keys c) \<and> ak_secret k = s"
proof -
  have "distinct (map ak_secret (sx_keys c))" using assms by (auto simp: validated)
  from resolve_fold[OF this, of s None k] show ?thesis by (simp add: resolve_key_def)
qed

lemma group_roles_lookup:
  "map_of group_roles g = Some allowed \<longleftrightarrow>
     g = ''service_or_operator'' \<and> allowed = [''service'', ''operator'']
     \<or> g = ''operator'' \<and> allowed = [''operator'']"
  by (auto simp: group_roles_def split: if_splits)

definition bearer :: "string option \<Rightarrow> string option" where
  "bearer header =
     (case partition_space (case header of Some h \<Rightarrow> h | None \<Rightarrow> []) of
        (scheme, credential) \<Rightarrow>
          if py_lower scheme = ''bearer'' \<and> py_strip credential \<noteq> [] then Some (py_strip credential) else None)"

lemma require_role_secured:
  assumes "sx_mode c \<noteq> ''disabled''"
  shows "require_role c allowed grp header =
    (case bearer header of
       None \<Rightarrow> Inl (Unauthorized ''missing or malformed Authorization header'')
     | Some s \<Rightarrow>
         (case resolve_key c s of
            None \<Rightarrow> Inl (Unauthorized ''unknown API key'')
          | Some k \<Rightarrow>
              if ak_role k \<notin> set allowed then Inl (Forbidden (ak_key_id k) (ak_role k) grp)
              else Inr \<lparr>au_key_id = ak_key_id k, au_role = ak_role k\<rparr>))"
  using assms by (auto simp: require_role_def bearer_def split: prod.splits)

text \<open>Every decision of a started service in \<open>api_key\<close> mode.\<close>

lemma dependency_cases:
  assumes "dependency c grp = Some check"
  shows "(grp = ''service_or_operator'' \<and> check = require_role c [''service'', ''operator''] grp)
    \<or> (grp = ''operator'' \<and> check = require_role c [''operator''] grp)"
  using assms by (auto simp: dependency_def group_roles_lookup)

lemma known_decision:
  assumes "validate_config c = Inr ()" "sx_mode c = ''api_key''" "dependency c grp = Some check"
    "k \<in> set (sx_keys c)" "bearer header = Some (ak_secret k)"
  shows "check header = (if ak_role k = ''operator'' \<or> grp = ''service_or_operator''
    then Inr \<lparr>au_key_id = ak_key_id k, au_role = ak_role k\<rparr>
    else Inl (Forbidden (ak_key_id k) (ak_role k) grp))"
proof -
  have r: "resolve_key c (ak_secret k) = Some k" using resolve_iff[OF assms(1,2)] assms(4) by simp
  have m: "sx_mode c \<noteq> ''disabled''" using assms(2) by simp
  have ok: "ak_role k = ''service'' \<or> ak_role k = ''operator''"
    using assms(1,2,4) by (auto simp: validated validate_key_Inr roles_def)
  from dependency_cases[OF assms(3)] ok show ?thesis
    by (elim disjE conjE) (simp_all add: require_role_secured[OF m] assms(5) r)
qed

lemma unknown_decision:
  assumes "validate_config c = Inr ()" "sx_mode c = ''api_key''" "dependency c grp = Some check"
    "\<forall>k \<in> set (sx_keys c). bearer header \<noteq> Some (ak_secret k)"
  shows "\<exists>why. check header = Inl (Unauthorized why)"
proof -
  have m: "sx_mode c \<noteq> ''disabled''" using assms(2) by simp
  obtain allowed where chk: "check = require_role c allowed grp"
    using dependency_cases[OF assms(3)] by auto
  show ?thesis
  proof (cases "bearer header")
    case (Some s)
    have "resolve_key c s = None" using resolve_iff[OF assms(1,2), of s] assms(4) Some by (metis not_None_eq)
    then show ?thesis by (simp add: chk require_role_secured[OF m] Some)
  qed (simp add: chk require_role_secured[OF m])
qed

text \<open>An operator may do what a service may, and a short or placeholder credential does nothing.\<close>

lemma operator_superset:
  assumes "dependency c ''operator'' = Some op" "dependency c ''service_or_operator'' = Some sv"
    "op header = Inr a"
  shows "sv header = Inr a"
proof -
  have "op = require_role c [''operator''] ''operator''"
    "sv = require_role c [''service'', ''operator''] ''service_or_operator''"
    using assms(1,2) dependency_cases by fastforce+
  note d = this
  show ?thesis
  proof (cases "sx_mode c = ''disabled''")
    case True
    with assms(3) show ?thesis unfolding d by (simp add: require_role_def)
  next
    case False
    with assms(3) show ?thesis unfolding d require_role_secured[OF False]
      by (auto split: option.splits if_splits)
  qed
qed

lemma weak_credential_refused:
  assumes "validate_config c = Inr ()" "sx_mode c = ''api_key''" "dependency c grp = Some check"
    "bearer header = Some s" "length s < 32 \<or> looks_like_placeholder s"
  shows "\<exists>why. check header = Inl (Unauthorized why)"
proof -
  have "\<forall>k \<in> set (sx_keys c). ak_secret k \<noteq> s"
    using assms(1,2,5) by (auto simp: validated validate_key_Inr)
  then have "\<forall>k \<in> set (sx_keys c). bearer header \<noteq> Some (ak_secret k)" using assms(4) by auto
  then show ?thesis by (rule unknown_decision[OF assms(1-3)])
qed

lemma policy_complete_iff:
  "assert_policy_complete routes policy = Inr () \<longleftrightarrow>
     set routes - set docs_routes = set (map fst policy)"
  unfolding assert_policy_complete_def Let_def by auto

end
