(* ===== verification/Backfill.thy ===== *)
theory Backfill
  imports BatchWorker
begin

text \<open>
  The raw JSON backfill (api/backfill.py): each line is parsed, keyed and computed through the
  inline path of the batch worker, with the duplicate filter on; a failing row is counted and the
  run goes on. The run identifier and the clock are inputs, the JSON and pydantic parsers are
  parameters.
\<close>

section \<open>The run\<close>

record backfill_item =
  fi_entity :: "(string, string) dict"
  fi_sources :: "(string, inline_source) dict"

record backfill_result =
  fr_row_index :: nat
  fr_status :: string
  fr_report_refs :: "(string, string) dict"
  fr_features_written :: int
  fr_error :: "string option"

record backfill_tally =
  ft_read :: nat
  ft_blank :: nat
  ft_succeeded :: nat
  ft_failed :: nat
  ft_candidate :: int
  ft_written :: int
  ft_duplicates :: int
  ft_online :: int
  ft_errors :: "(nat \<times> string) list"
  ft_results :: "backfill_result list"

record backfill_summary =
  fb_run_id :: string
  fb_write_mode :: string
  fb_tally :: backfill_tally
  fb_rows_total :: nat
  fb_started_at :: datetime
  fb_finished_at :: datetime
  fb_expected_rows :: "int option"
  fb_source_name :: "string option"
  fb_source_file :: "string option"
  fb_source_checksum :: "string option"
  fb_warnings :: "string list"

definition write_modes :: "string list" where
  "write_modes = [''offline_only'', ''offline_and_online'']"

definition write_online_for_mode :: "string \<Rightarrow> bool res" where
  "write_online_for_mode mode =
     (if mode \<notin> set write_modes then Inl (ValueError ''unknown write_mode'')
      else Inr (mode = ''offline_and_online''))"

definition resolve_view :: "registry \<Rightarrow> string \<Rightarrow> int \<Rightarrow> view_def res" where
  "resolve_view reg view version =
     (case filter (\<lambda>v. v_name v = view \<and> v_version v = version) (reg_views reg) of
        [] \<Rightarrow> Inl (ValueError ''unknown view'') | v # _ \<Rightarrow> Inr v)"

text \<open>\<^verbatim>\<open>_parse_row\<close>: pydantic parses the row, then checks the times of its inline sources.\<close>

definition parse_row ::
    "(string \<Rightarrow> json option) \<Rightarrow> (json \<Rightarrow> backfill_item option) \<Rightarrow> string \<Rightarrow> backfill_item res" where
  "parse_row loads parse line =
     (case loads line of
        None \<Rightarrow> Inl (ValueError ''Expecting value'')
      | Some d \<Rightarrow>
      case parse d of
        None \<Rightarrow> Inl (ValueError ''validation error for RawBackfillItem'')
      | Some item \<Rightarrow>
          rbind (map_res (\<lambda>(name, s). require_timezone_aware s) (fi_sources item)) (\<lambda>_. Inr item))"

definition backfill_row ::
    "('o, 'n, 'r, 's, 'm, 'j) batch_runtime \<Rightarrow> (string \<Rightarrow> json option) \<Rightarrow> (json \<Rightarrow> backfill_item option)
      \<Rightarrow> datetime \<Rightarrow> (nat \<Rightarrow> string) \<Rightarrow> view_def \<Rightarrow> string list \<Rightarrow> bool \<Rightarrow> string
      \<Rightarrow> ('o, 'n, 'r, 's, 'm, 'j) batch_world
      \<Rightarrow> (compute_outcome \<times> (string, string) dict) res \<times> ('o, 'n, 'r, 's, 'm, 'j) batch_world" where
  "backfill_row B loads parse now refs v features write_online line W =
     (case rbind (parse_row loads parse line) (\<lambda>item.
           rbind (view_entity_key v (fi_entity item)) (\<lambda>ek. Inr (item, ek))) of
        Inl e \<Rightarrow> (Inl e, W)
      | Inr (item, ek) \<Rightarrow> persist_and_compute B now refs v ek (fi_sources item) features write_online True W)"

definition row_failed :: "exc \<Rightarrow> backfill_tally \<Rightarrow> backfill_tally" where
  "row_failed e t =
     (let index = ft_succeeded t + ft_failed t in
      t\<lparr>ft_read := ft_read t + 1, ft_failed := ft_failed t + 1,
        ft_errors := ft_errors t @ [(index, exc_text e)],
        ft_results := ft_results t @ [\<lparr>fr_row_index = index, fr_status = ''error'', fr_report_refs = [],
          fr_features_written = 0, fr_error = Some (exc_text e)\<rparr>]\<rparr>)"

definition online_count :: "compute_outcome \<Rightarrow> int" where
  "online_count out = int (length (filter (\<lambda>w. case w of Some o1 \<Rightarrow> o1 \<in> set write_outcomes | None \<Rightarrow> False)
     (dict_values (cp_online out))))"

definition row_done :: "compute_outcome \<Rightarrow> (string, string) dict \<Rightarrow> backfill_tally \<Rightarrow> backfill_tally" where
  "row_done out refs t =
     (let index = ft_succeeded t + ft_failed t;
          computed = int (length (cp_results out));
          written = computed - int (cp_skipped out)
      in t\<lparr>ft_read := ft_read t + 1, ft_succeeded := ft_succeeded t + 1,
           ft_candidate := ft_candidate t + computed, ft_written := ft_written t + written,
           ft_duplicates := ft_duplicates t + int (cp_skipped out),
           ft_online := ft_online t + online_count out,
           ft_results := ft_results t @ [\<lparr>fr_row_index = index, fr_status = ''ok'', fr_report_refs = refs,
             fr_features_written = written, fr_error = None\<rparr>]\<rparr>)"

fun backfill_rows ::
    "('o, 'n, 'r, 's, 'm, 'j) batch_runtime \<Rightarrow> (string \<Rightarrow> json option) \<Rightarrow> (json \<Rightarrow> backfill_item option)
      \<Rightarrow> (nat \<Rightarrow> datetime) \<Rightarrow> (nat \<Rightarrow> nat \<Rightarrow> string) \<Rightarrow> view_def \<Rightarrow> string list \<Rightarrow> bool \<Rightarrow> bool
      \<Rightarrow> string list \<Rightarrow> backfill_tally \<Rightarrow> ('o, 'n, 'r, 's, 'm, 'j) batch_world
      \<Rightarrow> backfill_tally res \<times> ('o, 'n, 'r, 's, 'm, 'j) batch_world" where
  "backfill_rows B loads parse clock refs v features write_online fail_fast [] t W = (Inr t, W)"
| "backfill_rows B loads parse clock refs v features write_online fail_fast (line # lines) t W =
     (if blank line then
        backfill_rows B loads parse clock refs v features write_online fail_fast lines
          (t\<lparr>ft_read := ft_read t + 1, ft_blank := ft_blank t + 1\<rparr>) W
      else case backfill_row B loads parse (clock (ft_read t)) (refs (ft_read t)) v features write_online line W of
        (Inl e, W1) \<Rightarrow>
          if fail_fast then (Inl e, W1)
          else backfill_rows B loads parse clock refs v features write_online fail_fast lines (row_failed e t) W1
      | (Inr (out, rs), W1) \<Rightarrow>
          backfill_rows B loads parse clock refs v features write_online fail_fast lines (row_done out rs t) W1)"

definition empty_backfill :: backfill_tally where
  "empty_backfill = \<lparr>ft_read = 0, ft_blank = 0, ft_succeeded = 0, ft_failed = 0, ft_candidate = 0,
     ft_written = 0, ft_duplicates = 0, ft_online = 0, ft_errors = [], ft_results = []\<rparr>"

record backfill_args =
  fa_view :: string
  fa_view_version :: int
  fa_features :: "string list"
  fa_write_mode :: string
  fa_fail_fast :: bool
  fa_run_id :: "string option"
  fa_expected_rows :: "int option"
  fa_source_name :: "string option"
  fa_source_file :: "string option"
  fa_source_checksum :: "string option"

definition run_raw_json_backfill ::
    "('o, 'n, 'r, 's, 'm, 'j) batch_runtime \<Rightarrow> (string \<Rightarrow> json option) \<Rightarrow> (json \<Rightarrow> backfill_item option)
      \<Rightarrow> backfill_args \<Rightarrow> string \<Rightarrow> datetime \<Rightarrow> datetime \<Rightarrow> (nat \<Rightarrow> datetime) \<Rightarrow> (nat \<Rightarrow> nat \<Rightarrow> string)
      \<Rightarrow> string list \<Rightarrow> ('o, 'n, 'r, 's, 'm, 'j) batch_world
      \<Rightarrow> backfill_summary res \<times> ('o, 'n, 'r, 's, 'm, 'j) batch_world" where
  "run_raw_json_backfill B loads parse A fresh_id started finished clock refs lines W =
     (let run_id = (case fa_run_id A of Some r \<Rightarrow> if r = [] then fresh_id else r | None \<Rightarrow> fresh_id) in
      case rbind (write_online_for_mode (fa_write_mode A)) (\<lambda>online.
           rbind (resolve_view (fe_registry (rt_env (bt_core B))) (fa_view A) (fa_view_version A))
             (\<lambda>v. Inr (online, v))) of
        Inl e \<Rightarrow> (Inl e, W)
      | Inr (online, v) \<Rightarrow>
          (case backfill_rows B loads parse clock refs v (fa_features A) online (fa_fail_fast A) lines
                  empty_backfill W of
             (Inl e, W1) \<Rightarrow> (Inl e, W1)
           | (Inr t, W1) \<Rightarrow>
               let total = ft_succeeded t + ft_failed t in
               (Inr \<lparr>fb_run_id = run_id, fb_write_mode = fa_write_mode A, fb_tally = t,
                     fb_rows_total = total, fb_started_at = started, fb_finished_at = finished,
                     fb_expected_rows = fa_expected_rows A, fb_source_name = fa_source_name A,
                     fb_source_file = fa_source_file A, fb_source_checksum = fa_source_checksum A,
                     fb_warnings = (case fa_expected_rows A of
                        Some n \<Rightarrow> if n \<noteq> int total then [''expected_rows_mismatch''] else [] | None \<Rightarrow> [])\<rparr>, W1)))"

section \<open>Accounting\<close>

definition backfill_balanced :: "backfill_tally \<Rightarrow> bool" where
  "backfill_balanced t \<longleftrightarrow>
     ft_read t = ft_blank t + ft_succeeded t + ft_failed t
     \<and> map fr_row_index (ft_results t) = [0..<ft_succeeded t + ft_failed t]
     \<and> ft_failed t = length (ft_errors t)
     \<and> map fst (ft_errors t) = map fr_row_index (filter (\<lambda>r. fr_status r = ''error'') (ft_results t))
     \<and> ft_candidate t = ft_written t + ft_duplicates t
     \<and> ft_written t = sum_list (map fr_features_written (ft_results t))"

lemma empty_backfill_balanced [simp]: "backfill_balanced empty_backfill"
  by (simp add: backfill_balanced_def empty_backfill_def)

lemma blank_balanced [simp]:
  "backfill_balanced t \<Longrightarrow> backfill_balanced (t\<lparr>ft_read := Suc (ft_read t), ft_blank := Suc (ft_blank t)\<rparr>)"
  by (simp add: backfill_balanced_def)

lemma row_failed_balanced [simp]: "backfill_balanced t \<Longrightarrow> backfill_balanced (row_failed e t)"
  by (simp add: backfill_balanced_def row_failed_def Let_def)

lemma row_done_balanced [simp]: "backfill_balanced t \<Longrightarrow> backfill_balanced (row_done out refs t)"
  by (simp add: backfill_balanced_def row_done_def Let_def)

lemma row_read [simp]:
  "ft_read (row_failed e t) = ft_read t + 1" "ft_blank (row_failed e t) = ft_blank t"
  "ft_read (row_done out refs t) = ft_read t + 1" "ft_blank (row_done out refs t) = ft_blank t"
  by (simp_all add: row_failed_def row_done_def Let_def)

lemma backfill_rows_balanced:
  assumes "backfill_rows B loads parse clock refs v features online ff lines t W = (Inr t', W')"
    "backfill_balanced t"
  shows "backfill_balanced t' \<and> ft_read t' = ft_read t + length lines
    \<and> ft_blank t' = ft_blank t + length (filter blank lines)"
  using assms
proof (induction lines arbitrary: t W)
  case (Cons line lines)
  show ?case
  proof (cases "blank line")
    case True
    with Cons.prems(1) have
      "backfill_rows B loads parse clock refs v features online ff lines
        (t\<lparr>ft_read := ft_read t + 1, ft_blank := ft_blank t + 1\<rparr>) W = (Inr t', W')" by simp
    from Cons.IH[OF this] Cons.prems(2) True show ?thesis by simp
  next
    case False
    obtain x W1 where x: "backfill_row B loads parse (clock (ft_read t)) (refs (ft_read t)) v features online line W
        = (x, W1)" by (cases "backfill_row B loads parse (clock (ft_read t)) (refs (ft_read t)) v features online line W")
    show ?thesis
    proof (cases x)
      case (Inl e)
      with False x Cons.prems(1) have
        "backfill_rows B loads parse clock refs v features online ff lines (row_failed e t) W1 = (Inr t', W')"
        by (auto split: if_splits)
      from Cons.IH[OF this] Cons.prems(2) False show ?thesis by simp
    next
      case (Inr y)
      obtain out rs where "y = (out, rs)" by (cases y)
      with Inr False x Cons.prems(1) have
        "backfill_rows B loads parse clock refs v features online ff lines (row_done out rs t) W1 = (Inr t', W')"
        by simp
      from Cons.IH[OF this] Cons.prems(2) False show ?thesis by simp
    qed
  qed
qed simp

text \<open>A run that is not cut short accounts for every line; the warning is exact.\<close>

lemma backfill_accounts:
  assumes "run_raw_json_backfill B loads parse A fresh_id started finished clock refs lines W = (Inr S, W')"
  shows "backfill_balanced (fb_tally S) \<and> ft_read (fb_tally S) = length lines
    \<and> fb_rows_total S = length (filter (\<lambda>l. \<not> blank l) lines)
    \<and> (fb_warnings S = [] \<longleftrightarrow> fa_expected_rows A = None \<or> fa_expected_rows A = Some (int (fb_rows_total S)))"
proof -
  obtain online v t where
    r: "backfill_rows B loads parse clock refs v (fa_features A) online (fa_fail_fast A) lines empty_backfill W = (Inr t, W')"
    and S: "fb_tally S = t" "fb_rows_total S = ft_succeeded t + ft_failed t"
      "fb_warnings S = (case fa_expected_rows A of
         Some n \<Rightarrow> if n \<noteq> int (ft_succeeded t + ft_failed t) then [''expected_rows_mismatch''] else [] | None \<Rightarrow> [])"
  proof -
    from assms obtain online v where ov: "rbind (write_online_for_mode (fa_write_mode A)) (\<lambda>online.
        rbind (resolve_view (fe_registry (rt_env (bt_core B))) (fa_view A) (fa_view_version A))
          (\<lambda>v. Inr (online, v))) = Inr (online, v)"
      unfolding run_raw_json_backfill_def Let_def by (fastforce split: sum.splits)
    obtain x W1 where x: "backfill_rows B loads parse clock refs v (fa_features A) online (fa_fail_fast A) lines
        empty_backfill W = (x, W1)" by (rule prod.exhaust)
    show ?thesis
    proof (cases x)
      case (Inl e)
      with assms ov x show ?thesis by (simp add: run_raw_json_backfill_def Let_def del: rbind_Inr_iff)
    next
      case (Inr t)
      with assms ov x have "W1 = W'" "fb_tally S = t" "fb_rows_total S = ft_succeeded t + ft_failed t"
        "fb_warnings S = (case fa_expected_rows A of
           Some n \<Rightarrow> if n \<noteq> int (ft_succeeded t + ft_failed t) then [''expected_rows_mismatch''] else [] | None \<Rightarrow> [])"
        by (auto simp add: run_raw_json_backfill_def Let_def simp del: rbind_Inr_iff)
      with x Inr show ?thesis by (intro that[of v online t]) simp_all
    qed
  qed
  from backfill_rows_balanced[OF r] have b: "backfill_balanced t" "ft_read t = length lines"
    "ft_blank t = length (filter blank lines)"
    by (simp_all add: empty_backfill_def backfill_balanced_def)
  have "length (filter blank lines) + length (filter (\<lambda>l. \<not> blank l) lines) = length lines"
    by (rule sum_length_filter_compl)
  with b have "ft_succeeded t + ft_failed t = length (filter (\<lambda>l. \<not> blank l) lines)"
    by (simp add: backfill_balanced_def)
  with b S show ?thesis by (cases "fa_expected_rows A") auto
qed

text \<open>Without \<open>fail_fast\<close> a run with a known mode and view always returns its summary.\<close>

lemma backfill_rows_total:
  "\<exists>t' W'. backfill_rows B loads parse clock refs v features online False lines t W = (Inr t', W')"
proof (induction lines arbitrary: t W)
  case (Cons line lines)
  obtain x W1 where "backfill_row B loads parse (clock (ft_read t)) (refs (ft_read t)) v features online line W
      = (x, W1)" by (cases "backfill_row B loads parse (clock (ft_read t)) (refs (ft_read t)) v features online line W")
  with Cons show ?case by (cases x) auto
qed simp

lemma backfill_returns:
  assumes "fa_fail_fast A = False" "fa_write_mode A \<in> set write_modes"
    "\<exists>v \<in> set (reg_views (fe_registry (rt_env (bt_core B)))). v_name v = fa_view A \<and> v_version v = fa_view_version A"
  shows "\<exists>S W'. run_raw_json_backfill B loads parse A fresh_id started finished clock refs lines W = (Inr S, W')"
proof -
  let ?vs = "filter (\<lambda>v. v_name v = fa_view A \<and> v_version v = fa_view_version A)
    (reg_views (fe_registry (rt_env (bt_core B))))"
  have "?vs \<noteq> []" using assms(3) by (auto simp: filter_empty_conv)
  then obtain v where v: "resolve_view (fe_registry (rt_env (bt_core B))) (fa_view A) (fa_view_version A) = Inr v"
    by (cases ?vs) (auto simp: resolve_view_def)
  obtain t W1 where "backfill_rows B loads parse clock refs v (fa_features A)
      (fa_write_mode A = ''offline_and_online'') False lines empty_backfill W = (Inr t, W1)"
    using backfill_rows_total by blast
  then show ?thesis
    by (simp add: run_raw_json_backfill_def write_online_for_mode_def assms(1,2) v Let_def)
qed

end
