(* ===== verification/BatchApi.thy ===== *)
theory BatchApi
  imports BatchWorker SourceDatasets
begin

text \<open>
  Accepting a batch job (api/app.py): the items of the three scopes, the identity behind an
  idempotency key, the chunks, and the publication. HTTP errors are values; any other exception
  leaves the handler as it is. The clock is an input.
\<close>

section \<open>Responses\<close>

datatype api_error = Http int string | Raised exc

type_synonym 'a api = "api_error + 'a"

fun abind :: "'a api \<Rightarrow> ('a \<Rightarrow> 'b api) \<Rightarrow> 'b api" where
  "abind (Inl e) f = Inl e"
| "abind (Inr x) f = f x"

text \<open>\<^verbatim>\<open>if not c: raise HTTPException(code, detail)\<close>.\<close>

definition demand :: "bool \<Rightarrow> int \<Rightarrow> string \<Rightarrow> unit api" where
  "demand c code detail = (if c then Inr () else Inl (Http code detail))"

text \<open>A call whose exceptions \<open>p\<close> become a 400; the others leave.\<close>

definition or_400 :: "(exc \<Rightarrow> bool) \<Rightarrow> 'a res \<Rightarrow> 'a api" where
  "or_400 p r = (case r of Inr x \<Rightarrow> Inr x | Inl e \<Rightarrow> if p e then Inl (Http 400 (exc_text e)) else Inl (Raised e))"

abbreviation leaves :: "'a res \<Rightarrow> 'a api" where
  "leaves r \<equiv> or_400 (\<lambda>_. False) r"

fun fold_api :: "('a \<Rightarrow> 's \<Rightarrow> 's api) \<Rightarrow> 'a list \<Rightarrow> 's \<Rightarrow> 's api" where
  "fold_api f [] s = Inr s"
| "fold_api f (x # xs) s = abind (f x s) (fold_api f xs)"

fun map_api :: "('a \<Rightarrow> 'b api) \<Rightarrow> 'a list \<Rightarrow> 'b list api" where
  "map_api f [] = Inr []"
| "map_api f (x # xs) = abind (f x) (\<lambda>y. abind (map_api f xs) (\<lambda>ys. Inr (y # ys)))"

lemma abind_Inr [simp]: "abind r f = Inr y \<longleftrightarrow> (\<exists>x. r = Inr x \<and> f x = Inr y)"
  by (cases r) auto

lemma demand_Inr [simp]: "demand c code d = Inr u \<longleftrightarrow> c"
  by (simp add: demand_def)

lemma or_400_Inr [simp]: "or_400 p r = Inr x \<longleftrightarrow> r = Inr x"
  by (cases r) (auto simp: or_400_def)

lemma map_api_Inr: "map_api f xs = Inr ys \<longleftrightarrow> list_all2 (\<lambda>x y. f x = Inr y) xs ys"
  by (induction xs arbitrary: ys) (auto simp: list_all2_Cons1)

section \<open>Requests\<close>

record batch_item_in =
  ni_entity_type :: string
  ni_entity_key :: "(string, string) dict"
  ni_inline_sources :: "(string, inline_source) dict"

record batch_scope =
  sp_type :: string
  sp_items :: "batch_item_in list"
  sp_manifest_id :: "string option"
  sp_include_duplicates :: bool
  sp_manifest_ids :: "string list option"

record batch_job_in =
  jq_view :: string
  jq_view_version :: int
  jq_scope :: batch_scope
  jq_key :: string
  jq_features :: "string list"
  jq_groups :: "string list"
  jq_write_online :: bool
  jq_refresh_mode :: "string option"
  jq_chunk_size :: int

record batch_job_response =
  br_job_id :: string
  br_status :: string
  br_chunk_count :: int
  br_total_items :: int
  br_manifest_id :: "string option"
  br_manifest_ids :: "string list"

text \<open>The backend of the handler, and the settings; \<open>ba_dump\<close> is pydantic's \<^verbatim>\<open>model_dump\<close>.\<close>

record ('o, 'n, 'r, 's, 'j) batch_api =
  ba_core :: "('o, 'n, 'r, 's) runtime"
  ba_get_manifest :: "string \<Rightarrow> manifest option res"
  ba_list_items :: "string \<Rightarrow> dataset_item list res"
  ba_get_job :: "'j \<Rightarrow> string \<Rightarrow> job_status option res"
  ba_put_job :: "'j \<Rightarrow> job_status \<Rightarrow> 'j res"
  ba_dump :: "inline_source \<Rightarrow> (string, json) dict"
  ba_max_chunk :: int
  ba_max_items :: int
  ba_max_manifest :: int

section \<open>The items of a scope\<close>

definition inline_batch_items :: "(inline_source \<Rightarrow> (string, json) dict) \<Rightarrow> batch_scope \<Rightarrow> batch_item list" where
  "inline_batch_items dump scope =
     map (\<lambda>i. \<lparr>bi_entity_type = ni_entity_type i, bi_entity_key = ni_entity_key i,
               bi_inline_sources = map (\<lambda>(n, s). (n, dump s)) (ni_inline_sources i),
               bi_source_refs = []\<rparr>) (sp_items scope)"

text \<open>\<^verbatim>\<open>item.report_ref and item.entity_key\<close>.\<close>

definition bound_item :: "dataset_item \<Rightarrow> (string \<times> (string, string) dict) option" where
  "bound_item i =
     (case (di_report_ref i, di_entity_key i) of
        (Some r, Some k) \<Rightarrow> if r = [] \<or> k = [] then None else Some (r, k)
      | _ \<Rightarrow> None)"

definition guarded_only :: "batch_job_in \<Rightarrow> unit api" where
  "guarded_only q =
     demand (\<not> (jq_write_online q \<and> jq_refresh_mode q \<notin> {None, Some ''guarded''})) 400
       ''manifest-scoped write_online requires guarded online_refresh_mode''"

definition raw_manifest :: "('o, 'n, 'r, 's, 'j) batch_api \<Rightarrow> string \<Rightarrow> manifest api" where
  "raw_manifest B mid =
     abind (leaves (ba_get_manifest B mid)) (\<lambda>o1.
     case o1 of
       None \<Rightarrow> Inl (Http 404 ''unknown manifest'')
     | Some m \<Rightarrow>
         abind (demand (sd_landing_form m = ''raw_reports'') 400 ''landing_form is not computable by batch'')
           (\<lambda>_. Inr m))"

definition manifest_batch_items ::
    "('o, 'n, 'r, 's, 'j) batch_api \<Rightarrow> batch_job_in \<Rightarrow> (batch_item list \<times> string) api" where
  "manifest_batch_items B q =
     (let scope = jq_scope q; mid = (case sp_manifest_id scope of Some m \<Rightarrow> m | None \<Rightarrow> []) in
      abind (demand (mid \<noteq> []) 400 ''scope.manifest_id is required'') (\<lambda>_.
      abind (guarded_only q) (\<lambda>_.
      abind (raw_manifest B mid) (\<lambda>m.
      abind (leaves (ba_list_items B mid)) (\<lambda>items.
      let eligible = [''written''] @ (if sp_include_duplicates scope then [''duplicate''] else []) in
      Inr (concat (map (\<lambda>i.
             (case bound_item i of
                Some (r, k) \<Rightarrow>
                  if di_status i \<in> set eligible then
                    [\<lparr>bi_entity_type = sd_entity_type m, bi_entity_key = k, bi_inline_sources = [],
                      bi_source_refs = [(di_source_name i, r)]\<rparr>]
                  else []
              | None \<Rightarrow> [])) items), sd_manifest_id m))))))"

subsection \<open>The join of several manifests\<close>

record joined =
  jn_bindings :: "(string, (string, string) dict) dict"
  jn_parts :: "(string, (string, string) dict) dict"
  jn_ambiguous :: nat
  jn_sources :: "string list"

definition empty_join :: joined where
  "empty_join = \<lparr>jn_bindings = [], jn_parts = [], jn_ambiguous = 0, jn_sources = []\<rparr>"

record binding =
  bd_key :: string
  bd_parts :: "(string, string) dict"
  bd_source :: string
  bd_ref :: string

text \<open>The complete canonical key of an item, over the key fields of the view.\<close>

definition row_binding :: "view_def \<Rightarrow> dataset_item \<Rightarrow> binding option api" where
  "row_binding v i =
     (if di_status i \<notin> {''written'', ''duplicate''} then Inr None
      else case bound_item i of
        None \<Rightarrow> Inr None
      | Some (r, k) \<Rightarrow>
          abind (or_400 (\<lambda>e. case e of KeyError _ \<Rightarrow> True | _ \<Rightarrow> is_value_error e)
            (rbind (map_res (\<lambda>n. rbind (dict_index k n) (\<lambda>x. Inr (n, x))) (v_key_fields v)) (\<lambda>kvs.
             rbind (ek_from_mapping (dict_of kvs) (Some (v_key_fields v))) (\<lambda>ek. Inr (kvs, ek)))))
            (\<lambda>(kvs, ek).
          abind (leaves (ek_encode ek)) (\<lambda>enc.
          Inr (Some \<lparr>bd_key = enc, bd_parts = dict_of kvs, bd_source = di_source_name i, bd_ref = r\<rparr>))))"

definition bind_ref :: "binding \<Rightarrow> joined \<Rightarrow> joined" where
  "bind_ref b J =
     (let bindings = (case map_of (jn_bindings J) (bd_key b) of Some d \<Rightarrow> d | None \<Rightarrow> []) in
      case map_of bindings (bd_source b) of
        None \<Rightarrow> J\<lparr>jn_bindings := dict_set (bd_key b) (dict_set (bd_source b) (bd_ref b) bindings) (jn_bindings J),
                  jn_parts := dict_set (bd_key b) (bd_parts b) (jn_parts J)\<rparr>
      | Some r \<Rightarrow>
          if r \<noteq> bd_ref b then
            J\<lparr>jn_ambiguous := jn_ambiguous J + 1, jn_sources := jn_sources J @ [bd_source b]\<rparr>
          else J)"

definition join_item :: "view_def \<Rightarrow> dataset_item \<Rightarrow> joined \<Rightarrow> joined api" where
  "join_item v i J =
     abind (row_binding v i) (\<lambda>o1. Inr (case o1 of None \<Rightarrow> J | Some b \<Rightarrow> bind_ref b J))"

definition join_manifest ::
    "('o, 'n, 'r, 's, 'j) batch_api \<Rightarrow> view_def \<Rightarrow> manifest \<Rightarrow> joined \<Rightarrow> joined api" where
  "join_manifest B v m J =
     abind (leaves (ba_list_items B (sd_manifest_id m))) (\<lambda>items. fold_api (join_item v) items J)"

definition joined_items :: "string \<Rightarrow> joined \<Rightarrow> batch_item list" where
  "joined_items entity_type J =
     map (\<lambda>enc. \<lparr>bi_entity_type = entity_type, bi_entity_key = the (map_of (jn_parts J) enc),
                 bi_inline_sources = [], bi_source_refs = the (map_of (jn_bindings J) enc)\<rparr>)
       (sort (dict_keys (jn_bindings J)))"

definition selected_manifests ::
    "('o, 'n, 'r, 's, 'j) batch_api \<Rightarrow> string list \<Rightarrow> manifest list api" where
  "selected_manifests B mids =
     map_api (\<lambda>mid. abind (raw_manifest B mid) (\<lambda>m.
       abind (demand (sd_source_name m \<in> set (map s_name (reg_sources (fe_registry (rt_env (ba_core B))))))
         400 ''source is not a registered raw source'') (\<lambda>_. Inr m))) (sort mids)"

definition multi_manifest_batch_items ::
    "('o, 'n, 'r, 's, 'j) batch_api \<Rightarrow> batch_job_in \<Rightarrow> view_def \<Rightarrow> (batch_item list \<times> string list) api" where
  "multi_manifest_batch_items B q v =
     (let scope = jq_scope q; mids = (case sp_manifest_ids scope of Some ms \<Rightarrow> ms | None \<Rightarrow> []) in
      abind (demand (\<not> sp_include_duplicates scope) 400 ''include_duplicate_items is not supported'') (\<lambda>_.
      abind (demand (mids \<noteq> []) 400 ''scope.manifest_ids is required'') (\<lambda>_.
      abind (demand (distinct mids) 400 ''scope.manifest_ids contains duplicate manifest ids'') (\<lambda>_.
      abind (guarded_only q) (\<lambda>_.
      abind (selected_manifests B mids) (\<lambda>manifests.
      abind (demand (card (set (map sd_entity_type manifests)) = 1) 400 ''manifests disagree on entity_type'') (\<lambda>_.
      abind (fold_api (join_manifest B v) manifests empty_join) (\<lambda>J.
      abind (demand (jn_ambiguous J = 0) 400 ''ambiguous_source_binding'') (\<lambda>_.
      Inr (joined_items (sd_entity_type (hd manifests)) J, sort mids))))))))))"

section \<open>The identity behind an idempotency key\<close>

record job_identity =
  id_scope :: string
  id_provenance :: "string list"
  id_view :: string
  id_view_version :: int
  id_outputs :: "(string \<times> int) list"
  id_write_online :: bool
  id_refresh_mode :: "string option"
  id_total_items :: int
  id_chunk_count :: int

definition batch_request_identity ::
    "string \<Rightarrow> int \<Rightarrow> (string \<times> int) list \<Rightarrow> string option \<Rightarrow> string list \<Rightarrow> bool \<Rightarrow> string option \<Rightarrow> int \<Rightarrow> int
      \<Rightarrow> job_identity" where
  "batch_request_identity view version outputs manifest_id manifest_ids online mode total_items chunks =
     (let (category, provenance) =
        (case manifest_id of
           Some m \<Rightarrow> (''source_dataset_manifest'', [m])
         | None \<Rightarrow> if manifest_ids \<noteq> [] then (''source_dataset_manifests'', sort manifest_ids) else (''inline'', []))
      in \<lparr>id_scope = category, id_provenance = provenance, id_view = view, id_view_version = version,
          id_outputs = sort outputs, id_write_online = online, id_refresh_mode = mode,
          id_total_items = total_items, id_chunk_count = chunks\<rparr>)"

definition output_versions :: "feature_plan \<Rightarrow> (string \<times> int) list" where
  "output_versions p = map (\<lambda>r. (fr_name r, fr_version r)) (p_requested_outputs p)"

text \<open>A stored request that no longer plans has no identity.\<close>

definition existing_job_identity :: "registry \<Rightarrow> job_status \<Rightarrow> job_identity option res" where
  "existing_job_identity reg j =
     (case rbind (reg_find_view reg (bj_view j) (bj_view_version j)) (\<lambda>v.
           plan_features v (bj_features j) (bj_groups j) False) of
        Inl e \<Rightarrow> if is_value_error e then Inr None else Inl e
      | Inr p \<Rightarrow> Inr (Some (batch_request_identity (bj_view j) (bj_view_version j) (output_versions p)
          (bj_manifest_id j) (bj_manifest_ids j) (bj_write_online j) (bj_online_refresh_mode j)
          (bj_total_items j) (bj_chunk_count j))))"

section \<open>Chunks\<close>

function chunks_of :: "nat \<Rightarrow> 'a list \<Rightarrow> 'a list list" where
  "chunks_of n xs = (if n = 0 \<or> xs = [] then [] else take n xs # chunks_of n (drop n xs))"
  by auto
termination
  by (relation "measure (\<lambda>(n, xs). length xs)") auto

declare chunks_of.simps [simp del]

definition chunk_event ::
    "batch_job_in \<Rightarrow> datetime \<Rightarrow> int \<Rightarrow> int \<Rightarrow> string option \<Rightarrow> string list \<Rightarrow> nat \<times> batch_item list
      \<Rightarrow> batch_chunk_requested" where
  "chunk_event q now chunk_count total_items manifest_id manifest_ids = (\<lambda>(index, items).
     \<lparr>bc_event_type = ''batch.chunk.requested'', bc_event_version = 1, bc_batch_job_id = jq_key q,
      bc_chunk_id = jq_key q @ '':'' @ nat_str index, bc_chunk_index = int index, bc_chunk_count = chunk_count,
      bc_correlation_id = jq_key q, bc_occurred_at = now, bc_view = jq_view q,
      bc_view_version = jq_view_version q, bc_items = items, bc_features = jq_features q,
      bc_groups = jq_groups q, bc_write_online = jq_write_online q, bc_total_items = total_items,
      bc_manifest_id = manifest_id, bc_manifest_ids = manifest_ids\<rparr>)"

definition accepted_chunk :: "datetime \<Rightarrow> batch_chunk_requested \<Rightarrow> chunk_status" where
  "accepted_chunk now e =
     \<lparr>bk_chunk_id = bc_chunk_id e, bk_chunk_index = bc_chunk_index e, bk_status = ''accepted'',
      bk_item_count = int (length (bc_items e)), bk_updated_at = now, bk_ok_items = 0, bk_failed_items = 0,
      bk_first_errors = [], bk_finished_at = None\<rparr>"

definition accepted_job ::
    "batch_job_in \<Rightarrow> datetime \<Rightarrow> int \<Rightarrow> int \<Rightarrow> string option \<Rightarrow> string list \<Rightarrow> batch_chunk_requested list
      \<Rightarrow> job_status" where
  "accepted_job q now chunk_count total_items manifest_id manifest_ids events =
     \<lparr>bj_job_id = jq_key q, bj_status = ''accepted'', bj_view = jq_view q,
      bj_view_version = jq_view_version q, bj_created_at = now, bj_updated_at = now,
      bj_total_items = total_items, bj_chunk_count = chunk_count, bj_write_online = jq_write_online q,
      bj_features = jq_features q, bj_groups = jq_groups q,
      bj_chunks = dict_of (map (\<lambda>e. (bc_chunk_id e, accepted_chunk now e)) events),
      bj_finished_at = None, bj_error_summary = [], bj_manifest_id = manifest_id,
      bj_manifest_ids = manifest_ids, bj_online_refresh_mode = jq_refresh_mode q\<rparr>"

text \<open>The publishing loop: how many went out, and the exception with the index it stopped at.\<close>

fun publish_chunks ::
    "('o, 'n, 'r, 's) runtime \<Rightarrow> batch_chunk_requested list \<Rightarrow> nat \<Rightarrow> ('o, 'n, 'r, 's) world
      \<Rightarrow> (nat \<times> int \<times> exc) option \<times> ('o, 'n, 'r, 's) world" where
  "publish_chunks R [] n w = (None, w)"
| "publish_chunks R (e # es) n w =
     (case publish_event R batch_topic (batch_chunk_partition_key e) (bc_to_dict e) w of
        (Inl x, w1) \<Rightarrow> (Some (n, bc_chunk_index e, x), w1)
      | (Inr _, w1) \<Rightarrow> publish_chunks R es (n + 1) w1)"

section \<open>The handler\<close>

record batch_request =
  bs_items :: "batch_item list"
  bs_plan :: feature_plan
  bs_manifest_id :: "string option"
  bs_manifest_ids :: "string list"

text \<open>Everything before the first write.\<close>

definition read_batch_request ::
    "('o, 'n, 'r, 's, 'j) batch_api \<Rightarrow> batch_job_in \<Rightarrow> batch_request api" where
  "read_batch_request B q =
     abind (demand (\<not> (jq_chunk_size q \<le> 0 \<or> ba_max_chunk B < jq_chunk_size q)) 400 ''chunk_size must be in range'') (\<lambda>_.
     abind (or_400 is_value_error
       (rbind (reg_find_view (fe_registry (rt_env (ba_core B))) (jq_view q) (jq_view_version q)) (\<lambda>v.
        rbind (plan_features v (jq_features q) (jq_groups q) False) (\<lambda>p. Inr (v, p))))) (\<lambda>(v, p).
     abind (if sp_type (jq_scope q) = ''inline'' then
              Inr (inline_batch_items (ba_dump B) (jq_scope q), None, [])
            else if sp_type (jq_scope q) = ''source_dataset_manifest'' then
              abind (manifest_batch_items B q) (\<lambda>(items, mid). Inr (items, Some mid, [mid]))
            else if sp_type (jq_scope q) = ''source_dataset_manifests'' then
              abind (multi_manifest_batch_items B q v) (\<lambda>(items, mids). Inr (items, None, mids))
            else Inl (Http 400 ''unsupported scope type'')) (\<lambda>(items, mid, mids).
     abind (demand (items \<noteq> []) 400 ''scope produced no eligible items'') (\<lambda>_.
     abind (demand (int (length items) \<le> (if mids \<noteq> [] then ba_max_manifest B else ba_max_items B)) 400
       ''total items exceeds cap'') (\<lambda>_.
     Inr \<lparr>bs_items = items, bs_plan = p, bs_manifest_id = mid, bs_manifest_ids = mids\<rparr>)))))"

definition incoming_identity :: "batch_job_in \<Rightarrow> batch_request \<Rightarrow> job_identity" where
  "incoming_identity q s =
     batch_request_identity (jq_view q) (jq_view_version q) (output_versions (bs_plan s)) (bs_manifest_id s)
       (bs_manifest_ids s) (jq_write_online q) (jq_refresh_mode q) (int (length (bs_items s)))
       (- ((- int (length (bs_items s))) div jq_chunk_size q))"

definition replay_response :: "job_status \<Rightarrow> batch_job_response" where
  "replay_response j =
     \<lparr>br_job_id = bj_job_id j, br_status = ''accepted'', br_chunk_count = bj_chunk_count j,
      br_total_items = bj_total_items j, br_manifest_id = bj_manifest_id j,
      br_manifest_ids = bj_manifest_ids j\<rparr>"

definition failed_job :: "job_status \<Rightarrow> datetime \<Rightarrow> nat \<Rightarrow> int \<Rightarrow> exc \<Rightarrow> job_status" where
  "failed_job j now published index e =
     j\<lparr>bj_status := ''publish_failed'', bj_updated_at := now,
       bj_error_summary := [(''published_chunks'', JInt (int published)), (''failed_chunk_index'', JInt index),
         (''error'', JStr (exc_text e))]\<rparr>"

definition submit_chunks ::
    "('o, 'n, 'r, 's, 'j) batch_api \<Rightarrow> datetime \<Rightarrow> datetime \<Rightarrow> batch_job_in \<Rightarrow> batch_request
      \<Rightarrow> 'j \<times> ('o, 'n, 'r, 's) world \<Rightarrow> batch_job_response api \<times> 'j \<times> ('o, 'n, 'r, 's) world" where
  "submit_chunks B now later q s = (\<lambda>(jobs, w).
     (let chunks = chunks_of (nat (jq_chunk_size q)) (bs_items s);
          chunk_count = int (length chunks);
          total_items = int (length (bs_items s));
          events = map (chunk_event q now chunk_count total_items (bs_manifest_id s) (bs_manifest_ids s))
            (zip [0..<length chunks] chunks)
      in case rbind (mk_job_status (accepted_job q now chunk_count total_items (bs_manifest_id s) (bs_manifest_ids s) events))
                (\<lambda>job. rbind (ba_put_job B jobs job) (\<lambda>jobs1. Inr (job, jobs1))) of
           Inl e \<Rightarrow> (Inl (Raised e), jobs, w)
         | Inr (job, jobs1) \<Rightarrow>
             (case publish_chunks (ba_core B) events 0 w of
                (None, w1) \<Rightarrow>
                  (Inr \<lparr>br_job_id = jq_key q, br_status = ''accepted'', br_chunk_count = chunk_count,
                        br_total_items = total_items, br_manifest_id = bs_manifest_id s,
                        br_manifest_ids = bs_manifest_ids s\<rparr>, jobs1, w1)
              | (Some (n, index, e), w1) \<Rightarrow>
                  (case rbind (mk_job_status (failed_job job later n index e)) (ba_put_job B jobs1) of
                     Inl e1 \<Rightarrow> (Inl (Raised e1), jobs1, w1)
                   | Inr jobs2 \<Rightarrow> (Inl (Http 503 ''failed to publish chunk''), jobs2, w1)))))"

definition create_batch_job ::
    "('o, 'n, 'r, 's, 'j) batch_api \<Rightarrow> datetime \<Rightarrow> datetime \<Rightarrow> batch_job_in
      \<Rightarrow> 'j \<times> ('o, 'n, 'r, 's) world \<Rightarrow> batch_job_response api \<times> 'j \<times> ('o, 'n, 'r, 's) world" where
  "create_batch_job B now later q = (\<lambda>(jobs, w).
     (case abind (read_batch_request B q) (\<lambda>s.
           abind (leaves (ba_get_job B jobs (jq_key q))) (\<lambda>existing. Inr (s, existing))) of
        Inl e \<Rightarrow> (Inl e, jobs, w)
      | Inr (s, existing) \<Rightarrow>
          (case existing of
             Some j \<Rightarrow>
               if bj_status j \<noteq> ''publish_failed'' then
                 (case existing_job_identity (fe_registry (rt_env (ba_core B))) j of
                    Inl e \<Rightarrow> (Inl (Raised e), jobs, w)
                  | Inr identity \<Rightarrow>
                      if identity \<noteq> Some (incoming_identity q s) then
                        (Inl (Http 409 ''idempotency_key is already used by a different batch request''), jobs, w)
                      else (Inr (replay_response j), jobs, w))
               else submit_chunks B now later q s (jobs, w)
           | None \<Rightarrow> submit_chunks B now later q s (jobs, w))))"

section \<open>The join\<close>

definition bound :: "joined \<Rightarrow> string \<Rightarrow> string \<Rightarrow> string option" where
  "bound J enc src = (case map_of (jn_bindings J) enc of None \<Rightarrow> None | Some d \<Rightarrow> map_of d src)"

definition first_ref :: "binding list \<Rightarrow> string \<Rightarrow> string \<Rightarrow> string option" where
  "first_ref bs enc src = map_of (map (\<lambda>b. ((bd_key b, bd_source b), bd_ref b)) bs) (enc, src)"

text \<open>What the join of a list of bindings holds: the first reference of each pair.\<close>

definition joins :: "binding list \<Rightarrow> joined \<Rightarrow> bool" where
  "joins bs J \<longleftrightarrow>
     (\<forall>enc src. bound J enc src = first_ref bs enc src)
     \<and> (jn_ambiguous J = 0 \<longleftrightarrow> (\<forall>b \<in> set bs. first_ref bs (bd_key b) (bd_source b) = Some (bd_ref b)))
     \<and> dict_wf (jn_bindings J)
     \<and> set (dict_keys (jn_bindings J)) = bd_key ` set bs
     \<and> (\<forall>enc \<in> bd_key ` set bs. \<exists>b \<in> set bs. bd_key b = enc \<and> map_of (jn_parts J) enc = Some (bd_parts b))"

lemma joins_empty: "joins [] empty_join"
  by (simp add: joins_def empty_join_def bound_def first_ref_def dict_keys_def)

lemma first_ref_snoc:
  "first_ref (bs @ [b]) enc src =
     (case first_ref bs enc src of
        Some r \<Rightarrow> Some r | None \<Rightarrow> if bd_key b = enc \<and> bd_source b = src then Some (bd_ref b) else None)"
  by (auto simp: first_ref_def map_add_def split: option.splits)

lemma first_ref_known: "first_ref bs enc src = Some r \<Longrightarrow> \<exists>b \<in> set bs. bd_key b = enc \<and> bd_source b = src \<and> bd_ref b = r"
  by (auto simp: first_ref_def dest!: map_of_SomeD)

lemma first_ref_some: "b \<in> set bs \<Longrightarrow> \<exists>r. first_ref bs (bd_key b) (bd_source b) = Some r"
  unfolding first_ref_def by (rule weak_map_of_SomeI) force

lemma bound_bind_ref:
  "bound (bind_ref b J) enc src =
     (case bound J enc src of
        Some r \<Rightarrow> Some r | None \<Rightarrow> if bd_key b = enc \<and> bd_source b = src then Some (bd_ref b) else None)"
  by (auto simp: bound_def bind_ref_def Let_def split: option.splits)

lemma bind_ref_known:
  "bound J (bd_key b) (bd_source b) = Some r \<Longrightarrow>
     bind_ref b J = (if r \<noteq> bd_ref b
       then J\<lparr>jn_ambiguous := jn_ambiguous J + 1, jn_sources := jn_sources J @ [bd_source b]\<rparr> else J)"
  by (auto simp: bound_def bind_ref_def Let_def split: option.splits)

lemma bind_ref_new:
  assumes "bound J (bd_key b) (bd_source b) = None"
  shows "\<exists>d. bind_ref b J = J\<lparr>jn_bindings := dict_set (bd_key b) d (jn_bindings J),
    jn_parts := dict_set (bd_key b) (bd_parts b) (jn_parts J)\<rparr>"
  using assms by (auto simp: bound_def bind_ref_def Let_def split: option.splits)

lemma joins_snoc:
  assumes "joins bs J"
  shows "joins (bs @ [b]) (bind_ref b J)"
proof -
  have same: "bound J enc src = first_ref bs enc src" for enc src using assms by (simp add: joins_def)
  have bnd: "bound (bind_ref b J) enc src = first_ref (bs @ [b]) enc src" for enc src
    by (simp add: bound_bind_ref first_ref_snoc same)
  have old: "first_ref (bs @ [b]) (bd_key x) (bd_source x) = first_ref bs (bd_key x) (bd_source x)"
    if "x \<in> set bs" for x
    using first_ref_some[OF that] by (auto simp: first_ref_snoc)
  show ?thesis
  proof (cases "bound J (bd_key b) (bd_source b)")
    case (Some r)
    then have f: "first_ref bs (bd_key b) (bd_source b) = Some r" by (simp add: same)
    from first_ref_known[OF f] have k: "bd_key b \<in> bd_key ` set bs" by (metis imageI)
    have keys: "bd_key ` set (bs @ [b]) = bd_key ` set bs" using k by auto
    have parts: "jn_bindings (bind_ref b J) = jn_bindings J" "jn_parts (bind_ref b J) = jn_parts J"
      by (simp_all add: bind_ref_known[OF Some])
    have amb: "jn_ambiguous (bind_ref b J) = 0 \<longleftrightarrow> jn_ambiguous J = 0 \<and> r = bd_ref b"
      by (simp add: bind_ref_known[OF Some])
    have snoc: "first_ref (bs @ [b]) (bd_key b) (bd_source b) = Some r" by (simp add: first_ref_snoc f)
    have "(\<forall>x \<in> set (bs @ [b]). first_ref (bs @ [b]) (bd_key x) (bd_source x) = Some (bd_ref x))
        \<longleftrightarrow> (\<forall>x \<in> set bs. first_ref bs (bd_key x) (bd_source x) = Some (bd_ref x)) \<and> r = bd_ref b"
      using old snoc by auto
    note eq = this
    have held: "\<exists>x \<in> set (bs @ [b]). bd_key x = enc \<and> map_of (jn_parts J) enc = Some (bd_parts x)"
      if "enc \<in> bd_key ` set (bs @ [b])" for enc
    proof -
      have "enc \<in> bd_key ` set bs" using that unfolding keys .
      then obtain x where "x \<in> set bs" "bd_key x = enc" "map_of (jn_parts J) enc = Some (bd_parts x)"
        using assms unfolding joins_def by blast
      then show ?thesis by auto
    qed
    from assms have j: "jn_ambiguous J = 0 \<longleftrightarrow> (\<forall>b \<in> set bs. first_ref bs (bd_key b) (bd_source b) = Some (bd_ref b))"
      "dict_wf (jn_bindings J)" "set (dict_keys (jn_bindings J)) = bd_key ` set bs"
      by (simp_all add: joins_def)
    show ?thesis unfolding joins_def parts amb j(1) eq
      using bnd j(2,3) held by (simp only: keys) blast
  next
    case None
    from bind_ref_new[OF None] obtain d where
      d: "bind_ref b J = J\<lparr>jn_bindings := dict_set (bd_key b) d (jn_bindings J),
        jn_parts := dict_set (bd_key b) (bd_parts b) (jn_parts J)\<rparr>" by blast
    have snoc: "first_ref (bs @ [b]) (bd_key b) (bd_source b) = Some (bd_ref b)"
      using None by (simp add: first_ref_snoc same)
    have amb: "(\<forall>x \<in> set (bs @ [b]). first_ref (bs @ [b]) (bd_key x) (bd_source x) = Some (bd_ref x))
        \<longleftrightarrow> (\<forall>x \<in> set bs. first_ref bs (bd_key x) (bd_source x) = Some (bd_ref x))"
      using old snoc by auto
    have "\<exists>x \<in> set (bs @ [b]). bd_key x = enc \<and> map_of (jn_parts (bind_ref b J)) enc = Some (bd_parts x)"
      if "enc \<in> bd_key ` set (bs @ [b])" for enc
    proof (cases "enc = bd_key b")
      case True
      then show ?thesis by (intro bexI[of _ b]) (simp_all add: d)
    next
      case False
      with that have "enc \<in> bd_key ` set bs" by auto
      then obtain x where "x \<in> set bs" "bd_key x = enc" "map_of (jn_parts J) enc = Some (bd_parts x)"
        using assms unfolding joins_def by blast
      with False show ?thesis by (intro bexI[of _ x]) (auto simp: d)
    qed
    moreover have "jn_ambiguous (bind_ref b J) = jn_ambiguous J" "dict_wf (jn_bindings (bind_ref b J))"
      "set (dict_keys (jn_bindings (bind_ref b J))) = bd_key ` set (bs @ [b])"
      using assms by (auto simp: d joins_def)
    ultimately show ?thesis using assms bnd amb unfolding joins_def by metis
  qed
qed

text \<open>The bindings a run reads, in reading order.\<close>

definition item_bindings :: "view_def \<Rightarrow> dataset_item list \<Rightarrow> binding list" where
  "item_bindings v items =
     concat (map (\<lambda>i. case row_binding v i of Inr (Some b) \<Rightarrow> [b] | _ \<Rightarrow> []) items)"

lemma join_item_Inr:
  "join_item v i J = Inr J' \<longleftrightarrow>
     (\<exists>o1. row_binding v i = Inr o1 \<and> J' = (case o1 of None \<Rightarrow> J | Some b \<Rightarrow> bind_ref b J))"
  by (auto simp: join_item_def)

lemma join_manifest_Inr:
  "join_manifest B v m J = Inr J' \<longleftrightarrow>
     (\<exists>items. ba_list_items B (sd_manifest_id m) = Inr items \<and> fold_api (join_item v) items J = Inr J')"
  by (auto simp: join_manifest_def)

lemma join_items_joins:
  assumes "fold_api (join_item v) items J = Inr J'" "joins bs J"
  shows "joins (bs @ item_bindings v items) J'"
  using assms
proof (induction items arbitrary: bs J)
  case (Cons i items)
  from Cons.prems(1) obtain o1 where o1: "row_binding v i = Inr o1"
    and rest: "fold_api (join_item v) items (case o1 of None \<Rightarrow> J | Some b \<Rightarrow> bind_ref b J) = Inr J'"
    by (auto simp: join_item_Inr)
  show ?case
  proof (cases o1)
    case None
    with rest Cons.IH[of J bs] Cons.prems(2) o1 show ?thesis by (simp add: item_bindings_def)
  next
    case (Some b)
    with rest Cons.IH[OF _ joins_snoc[OF Cons.prems(2), of b]] o1 show ?thesis by (simp add: item_bindings_def)
  qed
qed (simp add: item_bindings_def)

definition manifest_bindings ::
    "('o, 'n, 'r, 's, 'j) batch_api \<Rightarrow> view_def \<Rightarrow> manifest list \<Rightarrow> binding list" where
  "manifest_bindings B v ms =
     concat (map (\<lambda>m. case ba_list_items B (sd_manifest_id m) of Inr items \<Rightarrow> item_bindings v items | Inl _ \<Rightarrow> []) ms)"

lemma join_manifests_joins:
  assumes "fold_api (join_manifest B v) ms J = Inr J'" "joins bs J"
  shows "joins (bs @ manifest_bindings B v ms) J'"
  using assms
proof (induction ms arbitrary: bs J)
  case (Cons m ms)
  from Cons.prems(1) obtain items J1 where items: "ba_list_items B (sd_manifest_id m) = Inr items"
    and J1: "fold_api (join_item v) items J = Inr J1" and rest: "fold_api (join_manifest B v) ms J1 = Inr J'"
    by (auto simp: join_manifest_Inr)
  from Cons.IH[OF rest join_items_joins[OF J1 Cons.prems(2)]] items show ?case
    by (simp add: manifest_bindings_def)
qed (simp add: manifest_bindings_def)

lemma indexed_parts:
  "map_res (\<lambda>n. rbind (dict_index k n) (\<lambda>x. Inr (n, x))) ns = Inr kvs \<Longrightarrow>
     map fst kvs = ns \<and> (\<forall>n x. (n, x) \<in> set kvs \<longrightarrow> map_of k n = Some x)"
proof (induction ns arbitrary: kvs)
  case (Cons n ns)
  from Cons.prems obtain x xs where x: "dict_index k n = Inr x" and kvs: "kvs = (n, x) # xs"
    and xs: "map_res (\<lambda>n. rbind (dict_index k n) (\<lambda>x. Inr (n, x))) ns = Inr xs" by auto
  from x have "map_of k n = Some x" by (simp add: dict_index_def split: option.splits)
  with Cons.IH[OF xs] kvs show ?case by simp
qed simp

lemma row_binding_key:
  assumes "row_binding v i = Inr (Some b)"
  shows "\<exists>ek. view_entity_key v (bd_parts b) = Inr ek \<and> ek_encode ek = Inr (bd_key b)"
proof -
  from assms obtain r k kvs ek where
    kvs: "map_res (\<lambda>n. rbind (dict_index k n) (\<lambda>x. Inr (n, x))) (v_key_fields v) = Inr kvs"
    and ek: "ek_from_mapping (dict_of kvs) (Some (v_key_fields v)) = Inr ek" "ek_encode ek = Inr (bd_key b)"
    and b: "bd_parts b = dict_of kvs"
    by (auto simp: row_binding_def split: if_splits option.splits)
  from indexed_parts[OF kvs] have n: "map fst kvs = v_key_fields v"
    and x: "\<And>n x. (n, x) \<in> set kvs \<Longrightarrow> map_of k n = Some x" by auto
  have look: "map_of (dict_of kvs) n = Some x" if "(n, x) \<in> set kvs" for n x
  proof -
    have "n \<in> fst ` set kvs" using that by force
    then have "map_of (dict_of kvs) n \<noteq> None" by (simp add: dict_of_lookup_None)
    then obtain y where y: "map_of (dict_of kvs) n = Some y" by blast
    from x[OF dict_of_lookup_Some[OF y]] x[OF that] y show ?thesis by simp
  qed
  have "map_res (\<lambda>n. rbind (dict_index (dict_of kvs) n) (\<lambda>x. Inr (n, x))) (map fst xs) = Inr xs"
    if "set xs \<subseteq> set kvs" for xs
    using that by (induction xs) (auto simp: dict_index_def look split: option.splits)
  from this[of kvs] have "view_entity_key v (dict_of kvs) = Inr ek"
    by (simp add: view_entity_key_def flip: n) (simp add: n ek)
  with ek b show ?thesis by auto
qed

definition binds ::
    "('o, 'n, 'r, 's, 'j) batch_api \<Rightarrow> view_def \<Rightarrow> string list \<Rightarrow> string \<Rightarrow> string \<Rightarrow> string \<Rightarrow> bool" where
  "binds B v mids enc src ref \<longleftrightarrow>
     (\<exists>mid \<in> set mids. \<exists>its i b. ba_list_items B mid = Inr its \<and> i \<in> set its
        \<and> row_binding v i = Inr (Some b) \<and> bd_key b = enc \<and> bd_source b = src \<and> bd_ref b = ref)"

lemma item_bindings_set: "b \<in> set (item_bindings v its) \<longleftrightarrow> (\<exists>i \<in> set its. row_binding v i = Inr (Some b))"
  by (auto simp: item_bindings_def split: sum.splits option.splits intro!: bexI)

lemma manifest_bindings_set:
  "b \<in> set (manifest_bindings B v ms) \<longleftrightarrow>
     (\<exists>m \<in> set ms. \<exists>its. ba_list_items B (sd_manifest_id m) = Inr its
        \<and> (\<exists>i \<in> set its. row_binding v i = Inr (Some b)))"
  by (force simp: manifest_bindings_def item_bindings_set split: sum.splits)

lemma raw_manifest_get: "raw_manifest B mid = Inr m \<Longrightarrow> ba_get_manifest B mid = Inr (Some m)"
  by (auto simp: raw_manifest_def split: option.splits)

lemma selected_ids:
  assumes "selected_manifests B mids = Inr ms"
    "\<And>mid m. ba_get_manifest B mid = Inr (Some m) \<Longrightarrow> sd_manifest_id m = mid"
  shows "map sd_manifest_id ms = sort mids"
proof -
  have "list_all2 (\<lambda>mid m. raw_manifest B mid = Inr m) (sort mids) ms"
    using assms(1) unfolding selected_manifests_def map_api_Inr by (rule list_all2_mono) auto
  then have "list_all2 (\<lambda>mid m. sd_manifest_id m = mid) (sort mids) ms"
    by (rule list_all2_mono) (metis raw_manifest_get assms(2))
  then show ?thesis by (induction rule: list_all2_induct) auto
qed

text \<open>
  The join: one item per complete key, in key order, carrying exactly the references of the
  selected manifests for that key, and the key the worker reads back from it.
\<close>

lemma multi_joined:
  assumes law: "\<And>mid m. ba_get_manifest B mid = Inr (Some m) \<Longrightarrow> sd_manifest_id m = mid"
    and r: "multi_manifest_batch_items B q v = Inr (items, ids)"
  shows "\<exists>encs. sorted encs \<and> distinct encs
    \<and> list_all2 (\<lambda>enc it. (\<exists>ek. view_entity_key v (bi_entity_key it) = Inr ek \<and> ek_encode ek = Inr enc)
         \<and> bi_inline_sources it = []
         \<and> (\<forall>src ref. map_of (bi_source_refs it) src = Some ref \<longleftrightarrow> binds B v ids enc src ref)) encs items
    \<and> (\<forall>enc src ref. binds B v ids enc src ref \<longrightarrow> enc \<in> set encs)"
proof -
  define mids where "mids = (case sp_manifest_ids (jq_scope q) of Some ms \<Rightarrow> ms | None \<Rightarrow> [])"
  from r obtain ms J where ms: "selected_manifests B mids = Inr ms"
    and J: "fold_api (join_manifest B v) ms empty_join = Inr J" and amb: "jn_ambiguous J = 0"
    and items: "items = joined_items (sd_entity_type (hd ms)) J" and ids: "ids = sort mids"
    by (auto simp: multi_manifest_batch_items_def Let_def mids_def)
  let ?bs = "manifest_bindings B v ms" and ?encs = "sort (dict_keys (jn_bindings J))"
  have jn: "joins ?bs J" using join_manifests_joins[OF J joins_empty] by simp
  have sel: "map sd_manifest_id ms = ids" using selected_ids[OF ms law] ids by simp
  have b_iff: "binds B v ids enc src ref \<longleftrightarrow>
      (\<exists>b \<in> set ?bs. bd_key b = enc \<and> bd_source b = src \<and> bd_ref b = ref)" for enc src ref
    unfolding binds_def manifest_bindings_set Bex_def sel[symmetric] by (auto 0 4)
  have ref_iff: "bound J enc src = Some ref \<longleftrightarrow> binds B v ids enc src ref" for enc src ref
  proof
    assume "bound J enc src = Some ref"
    then have "first_ref ?bs enc src = Some ref" using jn by (simp add: joins_def)
    from first_ref_known[OF this] show "binds B v ids enc src ref" unfolding b_iff .
  next
    assume "binds B v ids enc src ref"
    then obtain b where b: "b \<in> set ?bs" "bd_key b = enc" "bd_source b = src" "bd_ref b = ref" unfolding b_iff by blast
    have "\<forall>b \<in> set ?bs. first_ref ?bs (bd_key b) (bd_source b) = Some (bd_ref b)"
      using jn amb by (simp add: joins_def)
    with b jn show "bound J enc src = Some ref" by (auto simp: joins_def)
  qed
  have keys: "set ?encs = bd_key ` set ?bs" using jn by (simp add: joins_def)
  have "list_all2 (\<lambda>enc it. (\<exists>ek. view_entity_key v (bi_entity_key it) = Inr ek \<and> ek_encode ek = Inr enc)
         \<and> bi_inline_sources it = []
         \<and> (\<forall>src ref. map_of (bi_source_refs it) src = Some ref \<longleftrightarrow> binds B v ids enc src ref)) ?encs items"
    unfolding items joined_items_def list_all2_map2
  proof (rule list.rel_refl_strong)
    fix enc assume enc: "enc \<in> set ?encs"
    then have "enc \<in> bd_key ` set ?bs" using keys by simp
    then obtain b where b: "b \<in> set ?bs" "bd_key b = enc" "map_of (jn_parts J) enc = Some (bd_parts b)"
      using jn unfolding joins_def by blast
    from b(1) obtain i where "row_binding v i = Inr (Some b)" by (auto simp: manifest_bindings_set)
    from row_binding_key[OF this] b have k: "\<exists>ek. view_entity_key v (the (map_of (jn_parts J) enc)) = Inr ek
        \<and> ek_encode ek = Inr enc" by simp
    have "enc \<in> set (dict_keys (jn_bindings J))" using enc by simp
    then obtain d where d: "map_of (jn_bindings J) enc = Some d"
      by (auto simp: dict_keys_def dest: weak_map_of_SomeI)
    have "map_of d src = Some ref \<longleftrightarrow> binds B v ids enc src ref" for src ref
      using ref_iff[of enc src ref] by (simp add: bound_def d)
    with k d show "(\<exists>ek. view_entity_key v (bi_entity_key \<lparr>bi_entity_type = sd_entity_type (hd ms),
          bi_entity_key = the (map_of (jn_parts J) enc), bi_inline_sources = [],
          bi_source_refs = the (map_of (jn_bindings J) enc)\<rparr>) = Inr ek \<and> ek_encode ek = Inr enc)
        \<and> bi_inline_sources \<lparr>bi_entity_type = sd_entity_type (hd ms),
          bi_entity_key = the (map_of (jn_parts J) enc), bi_inline_sources = [],
          bi_source_refs = the (map_of (jn_bindings J) enc)\<rparr> = []
        \<and> (\<forall>src ref. map_of (bi_source_refs \<lparr>bi_entity_type = sd_entity_type (hd ms),
          bi_entity_key = the (map_of (jn_parts J) enc), bi_inline_sources = [],
          bi_source_refs = the (map_of (jn_bindings J) enc)\<rparr>) src = Some ref \<longleftrightarrow> binds B v ids enc src ref)"
      by simp
  qed
  moreover have "distinct ?encs" using jn by (simp add: joins_def dict_keys_def)
  moreover have "\<forall>enc src ref. binds B v ids enc src ref \<longrightarrow> enc \<in> set ?encs"
    unfolding b_iff keys by blast
  ultimately show ?thesis by (intro exI[of _ ?encs]) simp
qed

text \<open>The order of the selected manifests does not matter.\<close>

lemma sort_mset: "mset xs = mset ys \<Longrightarrow> sort xs = sort ys"
  by (rule properties_for_sort) simp_all

lemma multi_order_free:
  assumes "mset ids = mset ids'"
  shows "multi_manifest_batch_items B (q\<lparr>jq_scope := sc\<lparr>sp_manifest_ids := Some ids\<rparr>\<rparr>) v
    = multi_manifest_batch_items B (q\<lparr>jq_scope := sc\<lparr>sp_manifest_ids := Some ids'\<rparr>\<rparr>) v"
proof -
  have "sort ids = sort ids'" by (rule sort_mset[OF assms])
  moreover have "distinct ids \<longleftrightarrow> distinct ids'" using assms mset_eq_imp_distinct_iff by blast
  moreover have "ids = [] \<longleftrightarrow> ids' = []" using assms by auto
  ultimately show ?thesis
    by (simp add: multi_manifest_batch_items_def Let_def selected_manifests_def guarded_only_def)
qed

section \<open>Chunking\<close>

lemma chunks_of_props:
  assumes "0 < n"
  shows "concat (chunks_of n xs) = xs \<and> (\<forall>c \<in> set (chunks_of n xs). c \<noteq> [] \<and> length c \<le> n)
    \<and> int (length (chunks_of n xs)) = - ((- int (length xs)) div int n)"
  using assms
proof (induction n xs rule: chunks_of.induct)
  case (1 n xs)
  show ?case
  proof (cases "xs = []")
    case False
    with 1 have ih: "concat (chunks_of n (drop n xs)) = drop n xs"
      "\<forall>c \<in> set (chunks_of n (drop n xs)). c \<noteq> [] \<and> length c \<le> n"
      "int (length (chunks_of n (drop n xs))) = - ((- int (length (drop n xs))) div int n)" by auto
    have u: "chunks_of n xs = take n xs # chunks_of n (drop n xs)" using False 1(2) by (subst chunks_of.simps) simp
    have "1 + - ((- int (length (drop n xs))) div int n) = - ((- int (length xs)) div int n)"
    proof (cases "n \<le> length xs")
      case True
      then have "- int (length (drop n xs)) = - int (length xs) + int n" by simp
      moreover have "(- int (length xs) + int n) div int n = (- int (length xs)) div int n + 1"
        using 1(2) by (intro div_add_self2) simp
      ultimately show ?thesis by (simp only:)
    next
      case False
      then have "(- int (length xs)) div int n = -1" using \<open>xs \<noteq> []\<close>
        by (intro int_div_pos_eq[of _ _ _ "int n - int (length xs)"]) auto
      then show ?thesis using False by simp
    qed
    with ih u False 1(2) show ?thesis by auto
  qed (simp add: chunks_of.simps)
qed

section \<open>The handler\<close>

text \<open>A job that was not a failed publication is never touched again: replay or conflict.\<close>

lemma known_job_replays:
  assumes "read_batch_request B q = Inr s" "ba_get_job B jobs (jq_key q) = Inr (Some j)"
    "bj_status j \<noteq> ''publish_failed''"
  shows "create_batch_job B now later q (jobs, w) =
    (case existing_job_identity (fe_registry (rt_env (ba_core B))) j of
       Inl e \<Rightarrow> (Inl (Raised e), jobs, w)
     | Inr identity \<Rightarrow>
         if identity = Some (incoming_identity q s) then (Inr (replay_response j), jobs, w)
         else (Inl (Http 409 ''idempotency_key is already used by a different batch request''), jobs, w))"
proof -
  have "abind (read_batch_request B q) (\<lambda>s.
      abind (leaves (ba_get_job B jobs (jq_key q))) (\<lambda>existing. Inr (s, existing))) = Inr (s, Some j)"
    by (simp add: assms)
  then show ?thesis
    unfolding create_batch_job_def by (auto simp: assms(3) simp del: abind_Inr split: sum.splits)
qed

lemma open_job_submits:
  assumes "read_batch_request B q = Inr s"
    "ba_get_job B jobs (jq_key q) = Inr None
     \<or> ba_get_job B jobs (jq_key q) = Inr (Some j) \<and> bj_status j = ''publish_failed''"
  shows "create_batch_job B now later q (jobs, w) = submit_chunks B now later q s (jobs, w)"
proof -
  obtain o1 where o1: "ba_get_job B jobs (jq_key q) = Inr o1" "o1 = None \<or> (\<exists>j. o1 = Some j \<and> bj_status j = ''publish_failed'')"
    using assms(2) by auto
  have "abind (read_batch_request B q) (\<lambda>s.
      abind (leaves (ba_get_job B jobs (jq_key q))) (\<lambda>existing. Inr (s, existing))) = Inr (s, o1)"
    by (simp add: assms(1) o1(1))
  then show ?thesis
    using o1(2) unfolding create_batch_job_def by (auto simp del: abind_Inr)
qed

text \<open>A refused request writes nothing.\<close>

lemma refused_unchanged:
  assumes "read_batch_request B q = Inl e"
  shows "create_batch_job B now later q (jobs, w) = (Inl e, jobs, w)"
  by (simp add: create_batch_job_def assms)

definition chunk_message :: "('o, 'n, 'r, 's) runtime \<Rightarrow> batch_chunk_requested \<Rightarrow> published \<Rightarrow> bool" where
  "chunk_message R e m \<longleftrightarrow>
     pb_topic m = batch_topic \<and> pb_key m = bc_chunk_id e \<and> event_json (rt_repr R) (bc_to_dict e) = Inr (pb_doc m)"

lemma publish_chunks_all:
  assumes "publish_chunks R es n w = (None, w')"
  shows "\<exists>ms. br_log (w_broker w') = br_log (w_broker w) @ ms \<and> list_all2 (chunk_message R) es ms
    \<and> w' = w\<lparr>w_broker := w_broker w'\<rparr>"
  using assms
proof (induction es arbitrary: n w)
  case (Cons e es)
  obtain r w1 where e: "publish_event R batch_topic (batch_chunk_partition_key e) (bc_to_dict e) w = (r, w1)"
    by (rule prod.exhaust)
  from Cons.prems e have r: "r = Inr ()" and rest: "publish_chunks R es (n + 1) w1 = (None, w')"
    by (auto split: sum.splits)
  from e r have p: "publish batch_topic (batch_chunk_partition_key e) (event_json (rt_repr R) (bc_to_dict e)) []
      (w_broker w) = (Inr (), w_broker w1)" and w1: "w1 = w\<lparr>w_broker := w_broker w1\<rparr>"
    by (auto simp: publish_event_def split: prod.splits)
  from publish_acked[OF p] obtain d where d: "event_json (rt_repr R) (bc_to_dict e) = Inr d"
    "br_log (w_broker w1) = br_log (w_broker w) @
      [\<lparr>pb_topic = batch_topic, pb_key = batch_chunk_partition_key e, pb_doc = d, pb_headers = []\<rparr>]" by blast
  from Cons.IH[OF rest] obtain ms where ms: "br_log (w_broker w') = br_log (w_broker w1) @ ms"
    "list_all2 (chunk_message R) es ms" "w' = w1\<lparr>w_broker := w_broker w'\<rparr>" by blast
  have "w' = w\<lparr>w_broker := w_broker w'\<rparr>" using ms(3) w1 by (cases w1; cases w; cases w') simp
  moreover have "chunk_message R e
      \<lparr>pb_topic = batch_topic, pb_key = batch_chunk_partition_key e, pb_doc = d, pb_headers = []\<rparr>"
    using d(1) by (simp add: chunk_message_def batch_chunk_partition_key_def)
  ultimately show ?case using ms(1,2) d(2)
    by (intro exI[of _ "\<lparr>pb_topic = batch_topic, pb_key = batch_chunk_partition_key e, pb_doc = d, pb_headers = []\<rparr> # ms"]) simp
qed simp

definition job_events :: "batch_job_in \<Rightarrow> datetime \<Rightarrow> batch_request \<Rightarrow> batch_chunk_requested list" where
  "job_events q now s =
     (let chunks = chunks_of (nat (jq_chunk_size q)) (bs_items s) in
      map (chunk_event q now (int (length chunks)) (int (length (bs_items s))) (bs_manifest_id s) (bs_manifest_ids s))
        (zip [0..<length chunks] chunks))"

lemma job_events_items: "map bc_items (job_events q now s) = chunks_of (nat (jq_chunk_size q)) (bs_items s)"
proof -
  have "bc_items \<circ> chunk_event q now a b c d = snd" for a b c d
    by (simp add: fun_eq_iff chunk_event_def case_prod_beta)
  then show ?thesis by (simp add: job_events_def Let_def)
qed

lemma job_events_ids: "distinct (map bc_chunk_id (job_events q now s))"
  by (auto simp: job_events_def Let_def chunk_event_def distinct_map case_prod_beta inj_on_def in_set_zip
    intro: distinct_zipI1)

text \<open>
  An accepted submission: the job is stored with one accepted chunk per event, and the events, in
  order, carry the items of the scope, none lost and none twice.
\<close>

lemma submission_covers:
  assumes size: "0 < jq_chunk_size q"
    and r: "submit_chunks B now later q s (jobs, w) = (Inr resp, jobs', w')"
  shows "\<exists>ms job. br_log (w_broker w') = br_log (w_broker w) @ ms
    \<and> list_all2 (chunk_message (ba_core B)) (job_events q now s) ms
    \<and> concat (map bc_items (job_events q now s)) = bs_items s
    \<and> (\<forall>e \<in> set (job_events q now s). bc_items e \<noteq> [] \<and> int (length (bc_items e)) \<le> jq_chunk_size q)
    \<and> distinct (map bc_chunk_id (job_events q now s))
    \<and> ba_put_job B jobs job = Inr jobs' \<and> bj_job_id job = jq_key q \<and> bj_status job = ''accepted''
    \<and> bj_chunks job = map (\<lambda>e. (bc_chunk_id e, accepted_chunk now e)) (job_events q now s)
    \<and> br_chunk_count resp = int (length ms) \<and> br_total_items resp = int (length (bs_items s))"
proof -
  let ?ev = "job_events q now s" and ?cs = "chunks_of (nat (jq_chunk_size q)) (bs_items s)"
  let ?job = "accepted_job q now (int (length ?cs)) (int (length (bs_items s))) (bs_manifest_id s) (bs_manifest_ids s) ?ev"
  have n: "0 < nat (jq_chunk_size q)" using size by simp
  note cs = chunks_of_props[OF n, of "bs_items s"]
  have len: "length ?ev = length ?cs" by (simp add: job_events_def Let_def)
  have sub: "submit_chunks B now later q s (jobs, w) =
      (case rbind (mk_job_status ?job) (\<lambda>job. rbind (ba_put_job B jobs job) (\<lambda>jobs1. Inr (job, jobs1))) of
         Inl e \<Rightarrow> (Inl (Raised e), jobs, w)
       | Inr (job, jobs1) \<Rightarrow>
           (case publish_chunks (ba_core B) ?ev 0 w of
              (None, w1) \<Rightarrow>
                (Inr \<lparr>br_job_id = jq_key q, br_status = ''accepted'', br_chunk_count = int (length ?cs),
                      br_total_items = int (length (bs_items s)), br_manifest_id = bs_manifest_id s,
                      br_manifest_ids = bs_manifest_ids s\<rparr>, jobs1, w1)
            | (Some (n, index, e), w1) \<Rightarrow>
                (case rbind (mk_job_status (failed_job job later n index e)) (ba_put_job B jobs1) of
                   Inl e1 \<Rightarrow> (Inl (Raised e1), jobs1, w1)
                 | Inr jobs2 \<Rightarrow> (Inl (Http 503 ''failed to publish chunk''), jobs2, w1))))"
    unfolding submit_chunks_def job_events_def Let_def prod.case ..
  obtain job jobs1 where put: "mk_job_status ?job = Inr job" "ba_put_job B jobs job = Inr jobs1"
    using r unfolding sub by (auto simp del: rbind_Inr_iff split: sum.splits) auto
  have job: "job = ?job" using put(1) by (auto simp: mk_job_status_def split: option.splits)
  obtain x w1 where x: "publish_chunks (ba_core B) ?ev 0 w = (x, w1)" by (rule prod.exhaust)
  have ok: "x = None \<and> jobs1 = jobs' \<and> w1 = w'
      \<and> br_chunk_count resp = int (length ?cs) \<and> br_total_items resp = int (length (bs_items s))"
    using r unfolding sub put(1) rbind.simps put(2) sum.case prod.case x
    by (auto simp del: rbind_Inr_iff split: option.splits sum.splits)
  from publish_chunks_all[of "ba_core B" ?ev 0 w w'] x ok obtain ms where ms:
    "br_log (w_broker w') = br_log (w_broker w) @ ms" "list_all2 (chunk_message (ba_core B)) ?ev ms" by auto
  have "int (length c) \<le> jq_chunk_size q" if "length c \<le> nat (jq_chunk_size q)" for c :: "batch_item list"
    using that size by linarith
  then have each: "\<forall>e \<in> set ?ev. bc_items e \<noteq> [] \<and> int (length (bc_items e)) \<le> jq_chunk_size q"
    using cs job_events_items[of q now s] by (metis imageI list.set_map)
  have "concat (map bc_items ?ev) = bs_items s" unfolding job_events_items using cs by simp
  moreover have "bj_chunks ?job = map (\<lambda>e. (bc_chunk_id e, accepted_chunk now e)) ?ev"
    using job_events_ids[of q now s] by (simp add: accepted_job_def dict_of_distinct comp_def)
  moreover have "bj_job_id ?job = jq_key q" "bj_status ?job = ''accepted''" by (simp_all add: accepted_job_def)
  ultimately show ?thesis
    using ms each job_events_ids ok put(2) len list_all2_lengthD[OF ms(2)] unfolding job by auto
qed

text \<open>
  A failed publication is marked so that the same request submits it again. One report of a chunk
  that did go out takes the mark away: then the same request is answered as accepted and nothing
  is published, so the missing chunks never run.
\<close>

lemma report_unmarks:
  assumes "\<not> late_report j c"
  shows "bj_status (merge_chunk now j c) \<noteq> ''publish_failed''"
proof -
  have "derive_job_status j' \<noteq> ''publish_failed''" for j'
    by (simp add: derive_job_status_def Let_def)
  then show ?thesis using assms by (simp add: merge_chunk_cases with_chunk_def Let_def)
qed

lemma lost_chunks_replayed:
  assumes "read_batch_request B q = Inr s" "\<not> late_report j c"
    "ba_get_job B jobs (jq_key q) = Inr (Some (merge_chunk t j c))"
    "existing_job_identity (fe_registry (rt_env (ba_core B))) (merge_chunk t j c) = Inr (Some (incoming_identity q s))"
  shows "create_batch_job B now later q (jobs, w) = (Inr (replay_response (merge_chunk t j c)), jobs, w)"
  using known_job_replays[OF assms(1,3) report_unmarks[OF assms(2)]] assms(4) by simp

text \<open>A broker that acknowledges takes every chunk.\<close>

lemma publish_chunks_acked:
  assumes "br_fates (w_broker w) = []" "\<forall>e \<in> set es. bc_wf e"
  shows "\<exists>w'. publish_chunks R es n w = (None, w')"
  using assms
proof (induction es arbitrary: n w)
  case (Cons e es)
  then have "bc_wf e" by simp
  from bc.written[OF this] obtain d where "bc_to_dict e = Inr d" "json_plain d" by blast
  from publish_event_acked[OF Cons.prems(1) this] obtain w1 where
    "publish_event R batch_topic (batch_chunk_partition_key e) (bc_to_dict e) w = (Inr (), w1)"
    "br_fates (w_broker w1) = []" by blast
  with Cons show ?case by simp
qed simp

end
