(* ===== verification/RequestApi.thy ===== *)
theory RequestApi
  imports BatchApi MetadataStore
begin

text \<open>
  Accepting a feature request, waiting for it, and reading its status and values (api/app.py).
  The wall clock, the monotonic clock of the wait, the fresh identifiers and what each poll reads
  are inputs.
\<close>

section \<open>Adding a timedelta\<close>

text \<open>\<^verbatim>\<open>datetime + timedelta\<close> for a duration that is not negative.\<close>

definition next_day :: "datetime \<Rightarrow> datetime" where
  "next_day d =
     (if day d < days_in_month (year d) (month d) then d\<lparr>day := day d + 1\<rparr>
      else if month d < 12 then d\<lparr>month := month d + 1, day := 1\<rparr>
      else d\<lparr>year := year d + 1, month := 1, day := 1\<rparr>)"

definition time_us :: "datetime \<Rightarrow> nat" where
  "time_us d = ((hour d * 60 + minute d) * 60 + second d) * 1000000 + microsecond d"

definition day_us :: nat where
  "day_us = 86400000000"

definition set_time :: "nat \<Rightarrow> datetime \<Rightarrow> datetime" where
  "set_time r d = d\<lparr>hour := r div 3600000000, minute := r div 60000000 mod 60,
     second := r div 1000000 mod 60, microsecond := r mod 1000000\<rparr>"

definition plus_us :: "datetime \<Rightarrow> nat \<Rightarrow> datetime res" where
  "plus_us d n =
     (let t = time_us d + n;
          d' = set_time (t mod day_us) ((next_day ^^ (t div day_us)) d)
      in if year d' \<le> 9999 then Inr d' else Inl (OverflowError ''date value out of range''))"

definition date_valid :: "datetime \<Rightarrow> bool" where
  "date_valid d \<longleftrightarrow> 1 \<le> year d \<and> 1 \<le> month d \<and> month d \<le> 12
     \<and> 1 \<le> day d \<and> day d \<le> days_in_month (year d) (month d)"

lemma days_in_month_pos: "1 \<le> m \<Longrightarrow> m \<le> 12 \<Longrightarrow> 28 \<le> days_in_month y m"
  by (simp add: days_in_month_def)

lemma next_day_valid: "date_valid d \<Longrightarrow> date_valid (next_day d)"
  using days_in_month_pos[of "month d + 1" "year d"] days_in_month_pos[of 1 "year d + 1"]
  by (auto simp: date_valid_def next_day_def)

lemma next_day_ordinal: "date_valid d \<Longrightarrow> ordinal (next_day d) = ordinal d + 1"
proof -
  assume v: "date_valid d"
  consider "day d < days_in_month (year d) (month d)"
    | "\<not> day d < days_in_month (year d) (month d)" "month d < 12"
    | "\<not> day d < days_in_month (year d) (month d)" "\<not> month d < 12" by blast
  then show ?thesis
  proof cases
    case 2
    then have "day d = days_in_month (year d) (month d)" using v by (simp add: date_valid_def)
    with 2 v show ?thesis by (simp add: next_day_def ordinal_def date_valid_def)
  next
    case 3
    then have m: "month d = 12" "day d = 31" using v by (auto simp: date_valid_def days_in_month_def)
    have "days_before_year (Suc (year d)) = days_before_year (year d) + year_length (year d)"
      using v by (intro days_before_year_Suc) (simp add: date_valid_def)
    with 3 m show ?thesis
      using days_before_december[of "year d"] by (simp add: next_day_def ordinal_def)
  qed (simp add: next_day_def ordinal_def)
qed

lemma next_day_time [simp]:
  "hour (next_day d) = hour d" "minute (next_day d) = minute d" "second (next_day d) = second d"
  "microsecond (next_day d) = microsecond d" "utcoff (next_day d) = utcoff d"
  by (simp_all add: next_day_def)

lemma days_later:
  assumes "date_valid d"
  shows "date_valid ((next_day ^^ k) d) \<and> ordinal ((next_day ^^ k) d) = ordinal d + int k
    \<and> utcoff ((next_day ^^ k) d) = utcoff d"
  using assms by (induction k) (simp_all add: next_day_valid next_day_ordinal)

lemma set_time_us:
  shows "time_us (set_time r d) = r"
proof -
  have "r div 60000000 div 60 = r div 3600000000" "r div 1000000 div 60 = r div 60000000"
    by (simp_all add: div_mult2_eq[symmetric])
  then have "r div 3600000000 * 60 + r div 60000000 mod 60 = r div 60000000"
    "r div 60000000 * 60 + r div 1000000 mod 60 = r div 1000000"
    by (metis div_mult_mod_eq)+
  then show ?thesis unfolding time_us_def set_time_def by simp
qed

lemma wall_us_split: "wall_us d = (ordinal d - 719163) * us_per_day + int (time_us d)"
  by (simp add: wall_us_def time_us_def)

lemma plus_us_instant:
  assumes "datetime_valid d" "plus_us d n = Inr d'"
  shows "instant d' = instant d + int n \<and> aware d' = aware d \<and> datetime_valid d'"
proof -
  let ?t = "time_us d + n"
  let ?e = "(next_day ^^ (?t div day_us)) d"
  have d': "d' = set_time (?t mod day_us) ?e" "year d' \<le> 9999"
    using assms(2) by (auto simp: plus_us_def Let_def split: if_splits)
  have v: "date_valid d" using assms(1) by (simp add: datetime_valid_def date_valid_def)
  note e = days_later[OF v, of "?t div day_us"]
  have o1: "ordinal d' = ordinal ?e" "utcoff d' = utcoff d" "year d' = year ?e" "month d' = month ?e" "day d' = day ?e"
    using e by (simp_all add: d'(1) set_time_def ordinal_def)
  have t: "time_us d' = ?t mod day_us" unfolding d'(1) by (rule set_time_us)
  have "int (?t div day_us) * int day_us + int (?t mod day_us) = int ?t"
    by (metis div_mult_mod_eq of_nat_add of_nat_mult)
  moreover have "int day_us = us_per_day" by (simp add: day_us_def us_per_day_def)
  ultimately have "int (?t div day_us) * us_per_day + int (?t mod day_us) = int ?t" by simp
  then have w: "wall_us d' = wall_us d + int n"
    using e unfolding wall_us_split o1(1) t by (simp add: left_diff_distrib distrib_right)
  have "?t mod day_us < 24 * 3600000000" by (simp add: day_us_def)
  then have "hour d' < 24 \<and> minute d' < 60 \<and> second d' < 60 \<and> microsecond d' < 1000000"
    unfolding d'(1) by (simp add: set_time_def less_mult_imp_div_less)
  with e o1 d'(2) assms(1) have "datetime_valid d'"
    by (simp add: datetime_valid_def date_valid_def)
  with w o1(2) show ?thesis by (simp add: instant_def aware_def)
qed

section \<open>Submission\<close>

record report_in =
  ni_source_name :: string
  ni_report_type :: string
  ni_report_ts :: datetime
  ni_payload :: json
  ni_schema_version :: string
  ni_report_ref :: "string option"

record feature_request_in =
  nq_entity_type :: string
  nq_entity_key :: "(string, string) dict"
  nq_view :: string
  nq_view_version :: int
  nq_reports :: "report_in list"
  nq_groups :: "string list"
  nq_features :: "string list"
  nq_write_policy :: string
  nq_priority :: string
  nq_deadline_ms :: int
  nq_idempotency_key :: "string option"
  nq_correlation_id :: "string option"

record submit_result =
  sr_request_id :: string
  sr_job_id :: string
  sr_report_refs :: "string list"
  sr_entity :: entity_ref
  sr_output_features :: "string list"
  sr_expires_at :: datetime

record ('o, 'n, 'r, 's, 'm) request_api =
  qa_core :: "('o, 'n, 'r, 's) runtime"
  qa_raw :: "'m raw_ops"
  qa_put_status :: "'s \<Rightarrow> request_status \<Rightarrow> 's res"
  qa_max_deadline_ms :: int
  qa_max_wait_ms :: int

text \<open>The identifiers and the two clock readings of one submission.\<close>

record submit_inputs =
  in_request_uuid :: string
  in_job_uuid :: string
  in_report_uuid :: "nat \<Rightarrow> string"
  in_accepted_at :: datetime
  in_status_at :: datetime

definition text_or_fresh :: "string option \<Rightarrow> string \<Rightarrow> string" where
  "text_or_fresh x d = (case x of Some s \<Rightarrow> if s = [] then d else s | None \<Rightarrow> d)"

definition type_or_value :: "exc \<Rightarrow> bool" where
  "type_or_value e = (case e of TypeError _ \<Rightarrow> True | _ \<Rightarrow> is_value_error e)"

text \<open>The loop over the reports: each payload is stored as soon as it is serialised.\<close>

fun store_reports ::
    "'m raw_ops \<Rightarrow> hasher \<Rightarrow> datetime \<Rightarrow> (nat \<Rightarrow> string) \<Rightarrow> nat \<Rightarrow> report_in list \<Rightarrow> report_descriptor list \<Rightarrow> 'm
      \<Rightarrow> report_descriptor list api \<times> 'm" where
  "store_reports ops H accepted uuids i [] ds raw = (Inr ds, raw)"
| "store_reports ops H accepted uuids i (r # rs) ds raw =
     (let ref = text_or_fresh (ni_report_ref r) (''rep_'' @ uuids i) in
      case or_400 type_or_value (ra_serialize ops (ni_payload r)) of
        Inl e \<Rightarrow> (Inl e, raw)
      | Inr bytes \<Rightarrow>
          let uri = ra_storage_uri ops (ni_report_type r) ref (ni_report_ts r) in
          case ra_put_payload ops raw uri (ni_payload r) of
            Inl e \<Rightarrow> (Inl (Raised e), raw)
          | Inr raw1 \<Rightarrow>
              store_reports ops H accepted uuids (i + 1) rs
                (ds @ [\<lparr>rd_report_ref = ref, rd_source_name = ni_source_name r,
                  rd_report_type = ni_report_type r, rd_schema_version = ni_schema_version r,
                  rd_report_ts = ni_report_ts r, rd_object_key = uri,
                  rd_content_hash = ''sha256:'' @ sha256_hex H bytes, rd_size_bytes = int (length bytes),
                  rd_compression = ra_compression ops, rd_format = ra_format ops,
                  rd_available_at = Some accepted\<rparr>]) raw1)"

definition request_plan ::
    "('o, 'n, 'r, 's, 'm) request_api \<Rightarrow> feature_request_in \<Rightarrow> feature_plan api" where
  "request_plan A q =
     abind (or_400 is_value_error (ek_from_mapping (nq_entity_key q) None)) (\<lambda>_.
     abind (demand (nq_reports q \<noteq> []) 400 ''at least one report is required'') (\<lambda>_.
     or_400 is_value_error
       (rbind (reg_find_view (fe_registry (rt_env (qa_core A))) (nq_view q) (nq_view_version q)) (\<lambda>v.
        plan_features v (nq_features q) (nq_groups q) False))))"

definition deadline_of :: "('o, 'n, 'r, 's, 'm) request_api \<Rightarrow> feature_request_in \<Rightarrow> int" where
  "deadline_of A q = max 1 (min (nq_deadline_ms q) (qa_max_deadline_ms A))"

definition compute_event ::
    "('o, 'n, 'r, 's, 'm) request_api \<Rightarrow> submit_inputs \<Rightarrow> feature_request_in \<Rightarrow> report_descriptor list
      \<Rightarrow> compute_requested res" where
  "compute_event A I q ds =
     (let entity = \<lparr>er_type = nq_entity_type q, er_key = nq_entity_key q\<rparr>;
          H = fe_hasher (rt_env (qa_core A)); request_id = ''freq_'' @ in_request_uuid I in
      rbind (if text_or_fresh (nq_idempotency_key q) [] \<noteq> [] then Inr (text_or_fresh (nq_idempotency_key q) [])
             else build_idempotency_key H entity (nq_groups q) (nq_features q) ds) (\<lambda>key.
      rbind (plus_us (in_accepted_at I) (nat (deadline_of A q) * 1000)) (\<lambda>expires.
      mk_compute_requested
        \<lparr>cq_event_type = ''feature.compute.requested'', cq_event_version = 1, cq_request_id = request_id,
         cq_job_id = ''job_'' @ in_job_uuid I, cq_priority = nq_priority q,
         cq_deadline_ms = deadline_of A q, cq_entity = entity, cq_view = nq_view q,
         cq_view_version = nq_view_version q, cq_groups = nq_groups q, cq_features = nq_features q,
         cq_reports = ds, cq_write_policy = nq_write_policy q, cq_idempotency_key = key,
         cq_correlation_id = text_or_fresh (nq_correlation_id q) request_id,
         cq_occurred_at = in_accepted_at I, cq_event_ts = Some (in_accepted_at I),
         cq_expires_at = Some expires\<rparr>)))"

text \<open>The best-effort first status.\<close>

definition accepted_status ::
    "submit_inputs \<Rightarrow> feature_request_in \<Rightarrow> string list \<Rightarrow> request_status" where
  "accepted_status I q outputs =
     \<lparr>rq_request_id = ''freq_'' @ in_request_uuid I, rq_job_id = ''job_'' @ in_job_uuid I,
      rq_status = ''accepted'', rq_entity_type = nq_entity_type q, rq_entity_key = nq_entity_key q,
      rq_view = nq_view q, rq_view_version = nq_view_version q, rq_created_at = in_status_at I,
      rq_updated_at = in_status_at I, rq_features = outputs, rq_groups = nq_groups q,
      rq_online_write_status = None, rq_offline_write_status = None,
      rq_metadata_write_status = Some ''pending'', rq_started_at = None, rq_finished_at = None,
      rq_error = None\<rparr>"

definition submit_feature_request ::
    "('o, 'n, 'r, 's, 'm) request_api \<Rightarrow> submit_inputs \<Rightarrow> feature_request_in \<Rightarrow> 'm \<times> ('o, 'n, 'r, 's) world
      \<Rightarrow> submit_result api \<times> 'm \<times> ('o, 'n, 'r, 's) world" where
  "submit_feature_request A I q = (\<lambda>(raw, w).
     (let R = qa_core A in
      case request_plan A q of
        Inl e \<Rightarrow> (Inl e, raw, w)
      | Inr plan \<Rightarrow>
      case store_reports (qa_raw A) (fe_hasher (rt_env R)) (in_accepted_at I) (in_report_uuid I) 0
             (nq_reports q) [] raw of
        (Inl e, raw1) \<Rightarrow> (Inl e, raw1, w)
      | (Inr ds, raw1) \<Rightarrow>
      case rbind (compute_event A I q ds) (\<lambda>ev. rbind (er_encoded (cq_entity ev)) (\<lambda>key. Inr (ev, key))) of
        Inl e \<Rightarrow> (Inl (Raised e), raw1, w)
      | Inr (ev, key) \<Rightarrow>
      case publish_event R ''fp.feature-compute.online'' key (cq_to_dict ev) w of
        (Inl e, w1) \<Rightarrow> (Inl (Raised e), raw1, w1)
      | (Inr _, w1) \<Rightarrow>
          let w2 = (case rbind (mk_request_status (accepted_status I q (p_compute_features plan)))
                           (qa_put_status A (w_status w1)) of
                      Inl _ \<Rightarrow> w1 | Inr s \<Rightarrow> w1\<lparr>w_status := s\<rparr>)
          in (Inr \<lparr>sr_request_id = cq_request_id ev, sr_job_id = cq_job_id ev,
                   sr_report_refs = map rd_report_ref ds, sr_entity = cq_entity ev,
                   sr_output_features = p_compute_features plan,
                   sr_expires_at = (case cq_expires_at ev of Some t \<Rightarrow> t | None \<Rightarrow> in_accepted_at I)\<rparr>, raw1, w2)))"

text \<open>What was asked for is checked before the first write.\<close>

lemma refused_request_unchanged:
  "request_plan A q = Inl e \<Longrightarrow> submit_feature_request A I q (raw, w) = (Inl e, raw, w)"
  by (simp add: submit_feature_request_def Let_def)

lemma store_reports_stamps:
  assumes "store_reports ops H accepted uuids i rs ds raw = (Inr ds', raw')"
  shows "\<exists>new. ds' = ds @ new \<and> map rd_source_name new = map ni_source_name rs
    \<and> (\<forall>d \<in> set new. rd_available_at d = Some accepted)"
  using assms
proof (induction rs arbitrary: i ds raw)
  case (Cons r rs)
  from Cons.prems obtain bytes raw1 where
    "ra_serialize ops (ni_payload r) = Inr bytes"
    and step: "store_reports ops H accepted uuids (i + 1) rs
      (ds @ [\<lparr>rd_report_ref = text_or_fresh (ni_report_ref r) (''rep_'' @ uuids i), rd_source_name = ni_source_name r,
        rd_report_type = ni_report_type r, rd_schema_version = ni_schema_version r,
        rd_report_ts = ni_report_ts r,
        rd_object_key = ra_storage_uri ops (ni_report_type r) (text_or_fresh (ni_report_ref r) (''rep_'' @ uuids i)) (ni_report_ts r),
        rd_content_hash = ''sha256:'' @ sha256_hex H bytes, rd_size_bytes = int (length bytes),
        rd_compression = ra_compression ops, rd_format = ra_format ops,
        rd_available_at = Some accepted\<rparr>]) raw1 = (Inr ds', raw')"
    by (auto simp: Let_def or_400_def split: sum.splits if_splits)
  from Cons.IH[OF step] show ?case by auto
qed simp

text \<open>
  An accepted request was published, once; its deadline is clamped and absolute, and the server
  dated the availability of every report.
\<close>

lemma accepted_request:
  assumes valid: "datetime_valid (in_accepted_at I)"
    and r: "submit_feature_request A I q (raw, w) = (Inr res, raw', w')"
  shows "\<exists>ev m. br_log (w_broker w') = br_log (w_broker w) @ [m]
    \<and> pb_topic m = ''fp.feature-compute.online'' \<and> er_encoded (sr_entity res) = Inr (pb_key m)
    \<and> event_json (rt_repr (qa_core A)) (cq_to_dict ev) = Inr (pb_doc m)
    \<and> cq_request_id ev = sr_request_id res
    \<and> map rd_source_name (cq_reports ev) = map ni_source_name (nq_reports q)
    \<and> map rd_report_ref (cq_reports ev) = sr_report_refs res
    \<and> (\<forall>d \<in> set (cq_reports ev). rd_available_at d = Some (in_accepted_at I))
    \<and> cq_deadline_ms ev = deadline_of A q \<and> 1 \<le> cq_deadline_ms ev
    \<and> (1 \<le> qa_max_deadline_ms A \<longrightarrow> cq_deadline_ms ev \<le> qa_max_deadline_ms A)
    \<and> cq_expires_at ev = Some (sr_expires_at res)
    \<and> instant (sr_expires_at res) = instant (in_accepted_at I) + cq_deadline_ms ev * 1000"
proof -
  from r obtain plan where plan: "request_plan A q = Inr plan"
    by (cases "request_plan A q") (auto simp: submit_feature_request_def Let_def)
  obtain x raw1 where x: "store_reports (qa_raw A) (fe_hasher (rt_env (qa_core A))) (in_accepted_at I)
      (in_report_uuid I) 0 (nq_reports q) [] raw = (x, raw1)" by (rule prod.exhaust)
  from r plan x obtain ds where ds: "x = Inr ds"
    by (cases x) (auto simp: submit_feature_request_def Let_def)
  obtain z where z: "rbind (compute_event A I q ds) (\<lambda>ev. rbind (er_encoded (cq_entity ev)) (\<lambda>key. Inr (ev, key))) = z"
    by blast
  note u = r[unfolded submit_feature_request_def Let_def prod.case plan x[unfolded ds] sum.case z]
  obtain ev key where zz: "z = Inr (ev, key)" using u by (cases z) auto
  with z have ev: "compute_event A I q ds = Inr ev" "er_encoded (cq_entity ev) = Inr key" by auto
  obtain y w1 where y: "publish_event (qa_core A) ''fp.feature-compute.online'' key (cq_to_dict ev) w = (y, w1)"
    by (rule prod.exhaust)
  note u = u[unfolded zz sum.case prod.case y]
  have yy: "y = Inr ()" using u by (cases y) auto
  note u = u[unfolded yy sum.case prod.case prod.inject sum.inject]
  have res: "res = \<lparr>sr_request_id = cq_request_id ev,
      sr_job_id = cq_job_id ev, sr_report_refs = map rd_report_ref ds, sr_entity = cq_entity ev,
      sr_output_features = p_compute_features plan,
      sr_expires_at = (case cq_expires_at ev of Some t \<Rightarrow> t | None \<Rightarrow> in_accepted_at I)\<rparr>"
    and w': "w_broker w' = w_broker w1"
    using u by (auto split: sum.splits)
  from y yy have "publish ''fp.feature-compute.online'' key (event_json (rt_repr (qa_core A)) (cq_to_dict ev)) []
      (w_broker w) = (Inr (), w_broker w1)" by (auto simp: publish_event_def split: prod.splits)
  from publish_acked[OF this] obtain d where d: "event_json (rt_repr (qa_core A)) (cq_to_dict ev) = Inr d"
    "br_log (w_broker w1) = br_log (w_broker w) @
      [\<lparr>pb_topic = ''fp.feature-compute.online'', pb_key = key, pb_doc = d, pb_headers = []\<rparr>]" by blast
  obtain expires where ex: "plus_us (in_accepted_at I) (nat (deadline_of A q) * 1000) = Inr expires"
    and fields: "cq_reports ev = ds" "cq_deadline_ms ev = deadline_of A q" "cq_expires_at ev = Some expires"
    using ev(1) by (auto simp: compute_event_def Let_def mk_compute_requested_def split: if_splits)
  have pos: "1 \<le> deadline_of A q" by (simp add: deadline_of_def)
  have "instant expires = instant (in_accepted_at I) + deadline_of A q * 1000"
    using plus_us_instant[OF valid ex] pos by simp
  moreover from store_reports_stamps[OF x[unfolded ds]] have
    "map rd_source_name ds = map ni_source_name (nq_reports q)" "\<forall>d \<in> set ds. rd_available_at d = Some (in_accepted_at I)"
    by auto
  moreover have "1 \<le> qa_max_deadline_ms A \<Longrightarrow> deadline_of A q \<le> qa_max_deadline_ms A" by (simp add: deadline_of_def)
  ultimately show ?thesis
    using d w' ev(2) fields pos
    by (intro exI[of _ ev] exI[of _ "\<lparr>pb_topic = ''fp.feature-compute.online'', pb_key = key, pb_doc = d, pb_headers = []\<rparr>"])
      (simp add: res)
qed

section \<open>The result of a request\<close>

record latest_out =
  lo_version :: int
  lo_value :: json
  lo_data_ts :: datetime
  lo_calc_ts :: datetime

definition stored_out :: "(string, json) dict \<Rightarrow> latest_out res" where
  "stored_out item =
     rbind (int_item (JObj item) ''feature_version'') (\<lambda>version.
     rbind (jitem (JObj item) ''value'') (\<lambda>value.
     rbind (iso_item (JObj item) ''data_ts'') (\<lambda>data_ts.
     rbind (iso_item (JObj item) ''calc_ts'') (\<lambda>calc_ts.
     Inr \<lparr>lo_version = version, lo_value = value, lo_data_ts = data_ts, lo_calc_ts = calc_ts\<rparr>))))"

text \<open>The values of the request itself, or that they are missing; never the latest values.\<close>

definition read_request_result ::
    "request_result option res \<Rightarrow> string list
      \<Rightarrow> ((string, latest_out) dict \<times> string list \<times> string option) res" where
  "read_request_result stored outputs =
     (case stored of
        Inr (Some r) \<Rightarrow>
          rbind (fold_res (\<lambda>name features.
                   (case map_of (rr_features r) name of
                      None \<Rightarrow> Inr features
                    | Some item \<Rightarrow> rbind (stored_out item) (\<lambda>out. Inr (dict_set name out features)))) outputs [])
            (\<lambda>features. Inr (features, filter (\<lambda>n. n \<notin> set (dict_keys features)) outputs, None))
      | _ \<Rightarrow> Inr ([], outputs, Some ''result_missing''))"

lemma own_values:
  assumes "fold_res (\<lambda>name features.
       (case map_of (rr_features r) name of
          None \<Rightarrow> Inr features
        | Some item \<Rightarrow> rbind (stored_out item) (\<lambda>out. Inr (dict_set name out features)))) names fs0 = Inr fs"
  shows "(\<forall>n o1. map_of fs n = Some o1 \<longrightarrow>
       map_of fs0 n = Some o1 \<or> n \<in> set names \<and> served_value r n = Some (lo_value o1))
    \<and> (\<forall>n \<in> set names. map_of (rr_features r) n \<noteq> None \<longrightarrow> map_of fs n \<noteq> None)
    \<and> (\<forall>n. map_of fs0 n \<noteq> None \<longrightarrow> map_of fs n \<noteq> None)"
  using assms
proof (induction names arbitrary: fs0)
  case (Cons n names)
  show ?case
  proof (cases "map_of (rr_features r) n")
    case None
    with Cons.prems Cons.IH[of fs0] show ?thesis by fastforce
  next
    case (Some item)
    with Cons.prems obtain out where out: "stored_out item = Inr out"
      and rest: "fold_res (\<lambda>name features.
       (case map_of (rr_features r) name of
          None \<Rightarrow> Inr features
        | Some item \<Rightarrow> rbind (stored_out item) (\<lambda>out. Inr (dict_set name out features)))) names
          (dict_set n out fs0) = Inr fs" by auto
    from out have v: "map_of item ''value'' = Some (lo_value out)"
      by (auto simp: stored_out_def split: option.splits)
    then have s: "served_value r n = Some (lo_value out)" by (simp add: served_value_def Some)
    note ih = Cons.IH[OF rest]
    have 1: "map_of fs0 m = Some o1 \<or> m \<in> set (n # names) \<and> served_value r m = Some (lo_value o1)"
      if "map_of fs m = Some o1" for m o1
    proof -
      from ih that have "map_of (dict_set n out fs0) m = Some o1
        \<or> m \<in> set names \<and> served_value r m = Some (lo_value o1)" by blast
      then show ?thesis using s by (cases "m = n") auto
    qed
    have 2: "map_of fs n \<noteq> None" "\<And>m. map_of fs0 m \<noteq> None \<Longrightarrow> map_of fs m \<noteq> None"
      using ih by (force simp: dict_set_lookup)+
    from 1 2 ih show ?thesis by (metis set_ConsD)
  qed
qed simp

section \<open>Waiting for a request\<close>

record hybrid_response =
  hr_status :: string
  hr_features :: "(string, latest_out) dict option"
  hr_missing :: "string list option"
  hr_online :: "string option"
  hr_offline :: "string option"
  hr_error :: "string option"

text \<open>What one poll of the loop sees.\<close>

record poll =
  po_status :: "request_status option res"
  po_result :: "request_result option res"
  po_mono :: rat
  po_now :: datetime

definition bare_response :: "string \<Rightarrow> hybrid_response" where
  "bare_response status = \<lparr>hr_status = status, hr_features = None, hr_missing = None, hr_online = None,
     hr_offline = None, hr_error = None\<rparr>"

text \<open>One turn of the loop; None is another turn after a sleep.\<close>

definition hybrid_poll :: "submit_result \<Rightarrow> rat \<Rightarrow> poll \<Rightarrow> hybrid_response option res" where
  "hybrid_poll res deadline p =
     (let status = (case po_status p of Inr s \<Rightarrow> s | Inl _ \<Rightarrow> None);
          waiting =
            (if deadline - po_mono p \<le> 0 then
               rbind (dt_compare (\<le>) (sr_expires_at res) (po_now p)) (\<lambda>expired.
               Inr (Some ((bare_response (if expired then ''deadline_expired'' else ''pending''))
                 \<lparr>hr_online := (if expired then Some ''deadline_expired'' else None)\<rparr>)))
             else Inr None)
      in case status of
           None \<Rightarrow> waiting
         | Some s \<Rightarrow>
             if rq_status s = ''completed'' then
               (if rq_online_write_status s = Some ''deadline_expired'' then
                  Inr (Some ((bare_response ''deadline_expired'')\<lparr>hr_features := Some [],
                    hr_missing := Some (sr_output_features res), hr_online := Some ''deadline_expired'',
                    hr_offline := rq_offline_write_status s\<rparr>))
                else rbind (read_request_result (po_result p) (sr_output_features res)) (\<lambda>(features, missing, err).
                  Inr (Some ((bare_response ''completed'')\<lparr>hr_features := Some features,
                    hr_missing := Some missing, hr_online := rq_online_write_status s,
                    hr_offline := rq_offline_write_status s, hr_error := err\<rparr>))))
             else if rq_status s = ''failed'' then
               Inr (Some ((bare_response ''failed'')\<lparr>hr_error := rq_error s\<rparr>))
             else waiting)"

text \<open>The deadline of the wait on the monotonic clock, in seconds.\<close>

definition wait_deadline ::
    "('o, 'n, 'r, 's, 'm) request_api \<Rightarrow> int option \<Rightarrow> submit_result \<Rightarrow> datetime \<Rightarrow> rat \<Rightarrow> rat" where
  "wait_deadline A wait res now start =
     (let requested = (case wait of Some ms \<Rightarrow> ms | None \<Rightarrow> 1000);
          wait_ms = max 0 (min requested (qa_max_wait_ms A));
          to_expiry = of_int (instant (sr_expires_at res) - instant now) / 1000000
      in start + min (of_int wait_ms / 1000) (max 0 to_expiry))"

text \<open>The loop, over at most \<open>fuel\<close> polls.\<close>

fun hybrid_wait :: "submit_result \<Rightarrow> rat \<Rightarrow> (nat \<Rightarrow> poll) \<Rightarrow> nat \<Rightarrow> nat \<Rightarrow> hybrid_response option res" where
  "hybrid_wait res deadline polls i 0 = Inr None"
| "hybrid_wait res deadline polls i (Suc fuel) =
     (case hybrid_poll res deadline (polls i) of
        Inl e \<Rightarrow> Inl e
      | Inr (Some r) \<Rightarrow> Inr (Some r)
      | Inr None \<Rightarrow> hybrid_wait res deadline polls (i + 1) fuel)"

lemma poll_at_deadline: "deadline \<le> po_mono p \<Longrightarrow> hybrid_poll res deadline p \<noteq> Inr None"
proof -
  assume "deadline \<le> po_mono p"
  then have w: "deadline - po_mono p \<le> 0" by simp
  have nb: "rbind x (\<lambda>e. Inr (Some (g e))) \<noteq> Inr None" for x :: "bool res" and g :: "bool \<Rightarrow> hybrid_response"
    by (cases x) auto
  have nb': "rbind y (\<lambda>(f, m, e). Inr (Some (h f m e))) \<noteq> Inr None"
    for y :: "((string, latest_out) dict \<times> string list \<times> string option) res"
      and h :: "(string, latest_out) dict \<Rightarrow> string list \<Rightarrow> string option \<Rightarrow> hybrid_response"
    by (cases y) auto
  show ?thesis
    unfolding hybrid_poll_def Let_def if_P[OF w]
    using nb nb' by (auto simp del: rbind_Inr_iff split: option.split sum.split)
qed

text \<open>The wait ends: by the first poll at or after its deadline there is a response.\<close>

lemma wait_ends:
  assumes "deadline \<le> po_mono (polls (i + n))" "n < fuel"
  shows "hybrid_wait res deadline polls i fuel \<noteq> Inr None"
  using assms
proof (induction fuel arbitrary: i n)
  case (Suc fuel)
  show ?case
  proof (cases n)
    case 0
    with Suc.prems have "deadline \<le> po_mono (polls i)" by simp
    from poll_at_deadline[OF this] show ?thesis by (auto split: sum.split option.split)
  next
    case (Suc k)
    with Suc.prems Suc.IH[of "i + 1" k] show ?thesis by (auto split: sum.split option.split)
  qed
qed simp

text \<open>
  A completed response carries the request's own values: each was stored for this request, and
  every requested output is a value or reported missing.
\<close>

lemma completed_own_values:
  assumes "hybrid_wait res deadline polls i fuel = Inr (Some r)" "hr_status r = ''completed''"
  shows "\<exists>j s. i \<le> j \<and> po_status (polls j) = Inr (Some s) \<and> rq_status s = ''completed''
    \<and> (case po_result (polls j) of
         Inr (Some stored) \<Rightarrow> hr_error r = None
           \<and> (\<exists>fs missing. hr_features r = Some fs \<and> hr_missing r = Some missing
              \<and> (\<forall>n o1. map_of fs n = Some o1 \<longrightarrow>
                   n \<in> set (sr_output_features res) \<and> served_value stored n = Some (lo_value o1))
              \<and> (\<forall>n \<in> set (sr_output_features res). n \<in> set missing \<longleftrightarrow> map_of (rr_features stored) n = None))
       | _ \<Rightarrow> hr_error r = Some ''result_missing'' \<and> hr_features r = Some []
           \<and> hr_missing r = Some (sr_output_features res))"
  using assms
proof (induction fuel arbitrary: i)
  case (Suc fuel)
  show ?case
  proof (cases "hybrid_poll res deadline (polls i) = Inr None")
    case True
    with Suc.prems have "hybrid_wait res deadline polls (i + 1) fuel = Inr (Some r)" by simp
    from Suc.IH[OF this Suc.prems(2)] obtain j where "i + 1 \<le> j" and j: "\<exists>s. po_status (polls j) = Inr (Some s)
      \<and> rq_status s = ''completed'' \<and> (case po_result (polls j) of
         Inr (Some stored) \<Rightarrow> hr_error r = None
           \<and> (\<exists>fs missing. hr_features r = Some fs \<and> hr_missing r = Some missing
              \<and> (\<forall>n o1. map_of fs n = Some o1 \<longrightarrow>
                   n \<in> set (sr_output_features res) \<and> served_value stored n = Some (lo_value o1))
              \<and> (\<forall>n \<in> set (sr_output_features res). n \<in> set missing \<longleftrightarrow> map_of (rr_features stored) n = None))
       | _ \<Rightarrow> hr_error r = Some ''result_missing'' \<and> hr_features r = Some []
           \<and> hr_missing r = Some (sr_output_features res))" by blast
    then show ?thesis by (intro exI[of _ j]) simp
  next
    case False
    with Suc.prems(1) have p: "hybrid_poll res deadline (polls i) = Inr (Some r)"
      by (auto split: sum.splits option.splits)
    from p Suc.prems(2) obtain s features missing err where
      s: "po_status (polls i) = Inr (Some s)" "rq_status s = ''completed''"
      and rd: "read_request_result (po_result (polls i)) (sr_output_features res) = Inr (features, missing, err)"
      and r: "hr_features r = Some features" "hr_missing r = Some missing" "hr_error r = err"
      by (auto simp: hybrid_poll_def Let_def bare_response_def split: sum.splits option.splits if_splits)
    show ?thesis
    proof (cases "\<exists>stored. po_result (polls i) = Inr (Some stored)")
      case True
      then obtain stored where st: "po_result (polls i) = Inr (Some stored)" by blast
      with rd have f: "fold_res (\<lambda>name features.
         (case map_of (rr_features stored) name of
            None \<Rightarrow> Inr features
          | Some item \<Rightarrow> rbind (stored_out item) (\<lambda>out. Inr (dict_set name out features))))
          (sr_output_features res) [] = Inr features"
        and m: "missing = filter (\<lambda>n. n \<notin> set (dict_keys features)) (sr_output_features res)" and e: "err = None"
        by (auto simp: read_request_result_def)
      note own = own_values[OF f]
      have k: "n \<in> set (dict_keys features) \<longleftrightarrow> map_of features n \<noteq> None" for n
        by (auto simp: dict_keys_def map_of_eq_None_iff)
      have l: "map_of features n \<noteq> None \<Longrightarrow> map_of (rr_features stored) n \<noteq> None" for n
        using own by (auto simp: served_value_def split: option.splits)
      have "\<forall>n \<in> set (sr_output_features res). n \<in> set missing \<longleftrightarrow> map_of (rr_features stored) n = None"
        using own l unfolding m set_filter mem_Collect_eq k by metis
      moreover have "\<forall>n o1. map_of features n = Some o1 \<longrightarrow>
          n \<in> set (sr_output_features res) \<and> served_value stored n = Some (lo_value o1)" using own by simp
      ultimately show ?thesis using s st r e by (intro exI[of _ i] exI[of _ s]) simp
    next
      case False
      with rd have "features = []" "missing = sr_output_features res" "err = Some ''result_missing''"
        by (auto simp: read_request_result_def split: sum.splits option.splits)
      with False s r show ?thesis
        by (intro exI[of _ i] exI[of _ s]) (auto split: sum.splits option.splits)
    qed
  qed
qed simp

section \<open>Reading\<close>

text \<open>A pending metadata status against the durable projection, with a best-effort repair.\<close>

definition reconcile_metadata_status ::
    "(string \<Rightarrow> request_metadata option res) \<Rightarrow> ('s \<Rightarrow> request_status \<Rightarrow> 's res) \<Rightarrow> datetime \<Rightarrow> request_status
      \<Rightarrow> 's \<Rightarrow> request_status \<times> 's" where
  "reconcile_metadata_status durable put now s store =
     (if rq_metadata_write_status s \<noteq> Some ''pending'' then (s, store)
      else case durable (rq_request_id s) of
        Inr (Some m) \<Rightarrow>
          if qm_status m \<noteq> Some ''completed'' then (s, store)
          else let repaired = s\<lparr>rq_metadata_write_status := Some ''written'', rq_updated_at := now\<rparr> in
            (repaired, case put store repaired of Inr store' \<Rightarrow> store' | Inl _ \<Rightarrow> store)
      | _ \<Rightarrow> (s, store))"

definition get_feature_request ::
    "('s \<Rightarrow> string \<Rightarrow> request_status option res) \<Rightarrow> (string \<Rightarrow> request_metadata option res)
      \<Rightarrow> ('s \<Rightarrow> request_status \<Rightarrow> 's res) \<Rightarrow> datetime \<Rightarrow> string \<Rightarrow> 's \<Rightarrow> request_status api \<times> 's" where
  "get_feature_request get durable put now request_id store =
     (case get store request_id of
        Inl e \<Rightarrow> (Inl (Raised e), store)
      | Inr None \<Rightarrow> (Inl (Http 404 ''unknown or expired request_id''), store)
      | Inr (Some s) \<Rightarrow>
          (case reconcile_metadata_status durable put now s store of (s', store') \<Rightarrow> (Inr s', store')))"

text \<open>\<^verbatim>\<open>written\<close> is reported for a pending request only with a completed durable projection.\<close>

lemma reconcile_evidence:
  assumes "reconcile_metadata_status durable put now s store = (s', store')"
  shows "s' = s \<and> store' = store
    \<or> (rq_metadata_write_status s = Some ''pending''
       \<and> (\<exists>m. durable (rq_request_id s) = Inr (Some m) \<and> qm_status m = Some ''completed'')
       \<and> s' = s\<lparr>rq_metadata_write_status := Some ''written'', rq_updated_at := now\<rparr>
       \<and> (store' = store \<or> put store s' = Inr store'))"
  using assms
  by (auto simp: reconcile_metadata_status_def Let_def split: if_splits sum.splits option.splits)

definition request_entity_key :: "view_def \<Rightarrow> (string, string) dict \<Rightarrow> entity_key api" where
  "request_entity_key v entity =
     or_400 (\<lambda>e. case e of KeyError _ \<Rightarrow> True | _ \<Rightarrow> is_value_error e) (view_entity_key v entity)"

fun read_online_features ::
    "(string \<Rightarrow> int \<Rightarrow> entity_key \<Rightarrow> string \<Rightarrow> int \<Rightarrow> feature_result option res) \<Rightarrow> (string, feature_def) dict
      \<Rightarrow> string \<Rightarrow> int \<Rightarrow> entity_key \<Rightarrow> string list \<Rightarrow> (string, latest_out) dict \<times> string list
      \<Rightarrow> ((string, latest_out) dict \<times> string list) api" where
  "read_online_features get fbn view version ek [] acc = Inr acc"
| "read_online_features get fbn view version ek (n # ns) (features, missing) =
     (case map_of fbn n of
        None \<Rightarrow> Inl (Http 400 ''unknown feature'')
      | Some f \<Rightarrow>
          abind (leaves (get view version ek n (f_version f))) (\<lambda>o1.
          read_online_features get fbn view version ek ns
            (case o1 of
               None \<Rightarrow> (features, missing @ [n])
             | Some r \<Rightarrow> (dict_set n \<lparr>lo_version = fr_version (r_ref r), lo_value = r_value r,
                 lo_data_ts = r_data_ts r, lo_calc_ts = r_calc_ts r\<rparr> features, missing))))"

definition read_latest ::
    "registry \<Rightarrow> (string \<Rightarrow> int \<Rightarrow> entity_key \<Rightarrow> string \<Rightarrow> int \<Rightarrow> feature_result option res) \<Rightarrow> string \<Rightarrow> int
      \<Rightarrow> (string, string) dict \<Rightarrow> string list \<Rightarrow> (string \<times> (string, latest_out) dict \<times> string list) api" where
  "read_latest reg get view version entity features =
     abind (or_400 is_value_error (reg_find_view reg view version)) (\<lambda>v.
     abind (request_entity_key v entity) (\<lambda>ek.
     abind (read_online_features get (features_by_name v) view version ek features ([], [])) (\<lambda>(fs, missing).
     abind (leaves (ek_encode ek)) (\<lambda>key. Inr (key, fs, missing)))))"

definition find_view_by_name :: "registry \<Rightarrow> string \<Rightarrow> int option \<Rightarrow> view_def res" where
  "find_view_by_name reg name version =
     (case version of
        Some ver \<Rightarrow> reg_find_view reg name ver
      | None \<Rightarrow>
          (case filter (\<lambda>v. v_name v = name) (reg_views reg) of
             [] \<Rightarrow> Inl (ValueError ''unknown view'') | v # _ \<Rightarrow> Inr v))"

definition read_history ::
    "registry \<Rightarrow> offline_get_fn \<Rightarrow> string \<Rightarrow> int option \<Rightarrow> (string, string) dict \<Rightarrow> string option
      \<Rightarrow> int option \<Rightarrow> (string \<times> offline_record list) api" where
  "read_history reg get view version entity feature feature_version =
     abind (or_400 is_value_error (find_view_by_name reg view version)) (\<lambda>v.
     abind (request_entity_key v entity) (\<lambda>ek.
     abind (demand (case feature of None \<Rightarrow> True | Some n \<Rightarrow> n \<in> f_name ` set (v_features v)) 400 ''unknown feature'') (\<lambda>_.
     abind (leaves (get ek feature feature_version (Some view) version)) (\<lambda>records.
     abind (leaves (ek_encode ek)) (\<lambda>key. Inr (key, records))))))"

section \<open>Model scores\<close>

record score_in =
  nc_feature :: string
  nc_value :: json
  nc_data_ts :: datetime
  nc_calc_ts :: "datetime option"
  nc_model_name :: string
  nc_model_version :: string
  nc_source_request_id :: "string option"
  nc_decision_request_id :: "string option"
  nc_context :: "(string, json) dict"

record score_write_in =
  nw_entity_type :: string
  nw_entity_key :: "(string, string) dict"
  nw_view :: string
  nw_view_version :: int
  nw_scores :: "score_in list"
  nw_idempotency_key :: string
  nw_write_online :: bool
  nw_write_offline :: bool
  nw_correlation_id :: "string option"

definition score_of :: "datetime \<Rightarrow> score_in \<Rightarrow> score_item" where
  "score_of now s =
     \<lparr>si_feature = nc_feature s, si_value = nc_value s, si_data_ts = nc_data_ts s,
      si_calc_ts = (case nc_calc_ts s of Some t \<Rightarrow> t | None \<Rightarrow> now), si_model_name = nc_model_name s,
      si_model_version = nc_model_version s, si_source_request_id = nc_source_request_id s,
      si_decision_request_id = nc_decision_request_id s, si_context = nc_context s\<rparr>"

definition score_event :: "datetime \<Rightarrow> score_write_in \<Rightarrow> model_score_write" where
  "score_event now q =
     \<lparr>ms_event_type = ''model_score.write.requested'', ms_event_version = 1,
      ms_score_write_id = nw_idempotency_key q,
      ms_correlation_id = text_or_fresh (nw_correlation_id q) (nw_idempotency_key q),
      ms_occurred_at = now, ms_entity = \<lparr>er_type = nw_entity_type q, er_key = nw_entity_key q\<rparr>,
      ms_view = nw_view q, ms_view_version = nw_view_version q, ms_scores = map (score_of now) (nw_scores q),
      ms_idempotency_key = nw_idempotency_key q, ms_write_online = nw_write_online q,
      ms_write_offline = nw_write_offline q\<rparr>"

definition check_scores :: "registry \<Rightarrow> score_write_in \<Rightarrow> unit api" where
  "check_scores reg q =
     abind (demand (nw_scores q \<noteq> []) 400 ''at least one score is required'') (\<lambda>_.
     abind (demand (nw_write_online q \<or> nw_write_offline q) 400 ''at least one of write_online/write_offline must be true'') (\<lambda>_.
     abind (or_400 is_value_error (rbind (ek_from_mapping (nw_entity_key q) None) (\<lambda>_.
       reg_find_view reg (nw_view q) (nw_view_version q)))) (\<lambda>v.
     fold_api (\<lambda>s _.
       case map_of (features_by_name v) (nc_feature s) of
         None \<Rightarrow> Inl (Http 400 ''unknown feature'')
       | Some f \<Rightarrow> demand (f_kind f = ''model_score'') 400 ''is not a model_score feature'') (nw_scores q) ())))"

definition write_model_scores ::
    "('o, 'n, 'r, 's) runtime \<Rightarrow> datetime \<Rightarrow> score_write_in \<Rightarrow> ('o, 'n, 'r, 's) world
      \<Rightarrow> string api \<times> ('o, 'n, 'r, 's) world" where
  "write_model_scores R now q w =
     (case check_scores (fe_registry (rt_env R)) q of
        Inl e \<Rightarrow> (Inl e, w)
      | Inr _ \<Rightarrow>
      case er_encoded (ms_entity (score_event now q)) of
        Inl e \<Rightarrow> (Inl (Raised e), w)
      | Inr key \<Rightarrow>
      case publish_event R ''fp.model-score.write'' key (ms_to_dict (score_event now q)) w of
        (Inl e, w1) \<Rightarrow> (Inl (Raised e), w1)
      | (Inr _, w1) \<Rightarrow> (Inr (nw_idempotency_key q), w1))"

text \<open>Only scores of model score features of the exact view are published.\<close>

lemma fold_api_unit_Inr: "fold_api (\<lambda>x _. f x) xs () = Inr () \<longleftrightarrow> (\<forall>x \<in> set xs. f x = Inr ())"
  by (induction xs) auto

lemma checked_scores:
  "check_scores reg q = Inr () \<Longrightarrow>
     nw_scores q \<noteq> [] \<and> (nw_write_online q \<or> nw_write_offline q)
     \<and> (\<exists>v. reg_find_view reg (nw_view q) (nw_view_version q) = Inr v
        \<and> (\<forall>s \<in> set (nw_scores q). \<exists>f. map_of (features_by_name v) (nc_feature s) = Some f \<and> f_kind f = ''model_score''))"
  by (force simp: check_scores_def fold_api_unit_Inr split: option.splits)

lemma unpublished_scores:
  "check_scores (fe_registry (rt_env R)) q = Inl e \<Longrightarrow> write_model_scores R now q w = (Inl e, w)"
  by (simp add: write_model_scores_def)

end
