(* ===== verification/WorkerSamples.thy ===== *)
theory WorkerSamples
  imports Samples BatchWorker MetadataWriter Ingestion Security Backfill RequestApi
begin

text \<open>
  Concrete deployments, messages and worlds on which the properties of the workers are
  instantiated in the root theory.
\<close>

section \<open>Deployments\<close>

definition sample_runtime ::
    "(offline_mem, online_mem, string \<rightharpoonup> request_result, status_mem) runtime" where
  "sample_runtime = \<lparr>rt_stores = mem_ops, rt_put_result = (\<lambda>m r. Inr (rrm_put m r)),
     rt_update_status = safe_update, rt_repr = (\<lambda>_. ''0.0''), rt_env = sample_fs\<rparr>"

definition sample_world ::
    "(offline_mem, online_mem, string \<rightharpoonup> request_result, status_mem) world" where
  "sample_world = \<lparr>w_offline = sample_history, w_online = Map.empty, w_results = Map.empty,
     w_status = Map.empty, w_broker = \<lparr>br_log = [], br_fates = []\<rparr>, w_committed = False\<rparr>"

text \<open>The production stores on the same environment.\<close>

definition sample_pg_runtime ::
    "(pg_table, valkey, string \<rightharpoonup> request_result, status_mem) runtime" where
  "sample_pg_runtime = \<lparr>rt_stores = prod_ops sample_pg, rt_put_result = (\<lambda>m r. Inr (rrm_put m r)),
     rt_update_status = safe_update, rt_repr = (\<lambda>_. ''0.0''), rt_env = sample_fs\<rparr>"

definition sample_pg_world ::
    "(pg_table, valkey, string \<rightharpoonup> request_result, status_mem) world" where
  "sample_pg_world = \<lparr>w_offline = \<lparr>t_rows = [], t_next = 0\<rparr>, w_online = Map.empty, w_results = Map.empty,
     w_status = Map.empty, w_broker = \<lparr>br_log = [], br_fates = []\<rparr>, w_committed = False\<rparr>"

text \<open>A deployment whose history cannot be read.\<close>

definition down_runtime ::
    "(offline_mem, online_mem, string \<rightharpoonup> request_result, status_mem) runtime" where
  "down_runtime = sample_runtime\<lparr>rt_stores := mem_ops\<lparr>so_get_pit := \<lambda>_ _ _ _ _ _ _ _. Inl (StoreError ''down'')\<rparr>\<rparr>"

section \<open>Messages\<close>

definition garbage :: message where
  "garbage = \<lparr>msg_error = None, msg_doc = None, msg_b64 = ''AAA='', msg_headers = []\<rparr>"

definition carrying :: "json \<Rightarrow> message" where
  "carrying d = \<lparr>msg_error = None, msg_doc = Some d, msg_b64 = ''AAA='', msg_headers = []\<rparr>"

lemma day_stamps [simp]: "stamp day1" "stamp day2" "stamp day3" "aware day1" "aware day2" "aware day3"
  by (simp_all add: stamp_def sample_days_valid aware_def)

text \<open>An undecodable message ends in the dead letters when the broker acknowledges.\<close>

lemma garbage_dead_lettered:
  assumes "stamp now" "br_fates (w_broker w) = []"
  shows "\<exists>b. to_dlq R now topic stage garbage status err attempts max_attempts w
    = (committed_pr ''dead_lettered'', commit (w\<lparr>w_broker := b\<rparr>))"
proof -
  let ?e = "build_dead_letter_event now topic stage status err garbage attempts max_attempts"
  have "dl_wf ?e"
    using assms(1) by (simp add: dl_wf_def build_dead_letter_event_def garbage_def get_id_or_def get_id_def)
  from dl.to_json_total[OF this, of "rt_repr R"] obtain d where
    "event_json (rt_repr R) (dl_to_dict ?e) = Inr d" by (auto simp: event_json_def)
  with assms(2) show ?thesis by (simp add: to_dlq_def route_to_dlq_def Let_def publish_def) blast
qed

section \<open>An update of feature a\<close>

definition sample_update :: "string \<Rightarrow> feature_updated" where
  "sample_update uid =
     \<lparr>fu_event_type = ''feature_updated'', fu_event_version = 1, fu_update_id = uid,
      fu_entity = \<lparr>er_type = ''user'', er_key = [(''user_id'', ''u1'')]\<rparr>, fu_view = ''v'',
      fu_view_version = 1, fu_feature_name = ''a'', fu_feature_version = 1, fu_data_ts = day1,
      fu_calc_ts = day1, fu_max_input_data_ts = None, fu_input_fingerprint = None, fu_value_hash = None,
      fu_run_id = None, fu_job_id = None, fu_manifest_id = None, fu_source = ''offline_writer'',
      fu_occurred_at = day1\<rparr>"

definition sample_candidate :: recompute_candidate where
  "sample_candidate =
     \<lparr>rc_entity = \<lparr>er_type = ''user'', er_key = [(''user_id'', ''u1'')]\<rparr>, rc_view = ''v'',
      rc_view_version = 1, rc_dependent_feature = ''b'', rc_dependent_version = 1,
      rc_changed_input_feature = ''a'', rc_changed_input_version = 1, rc_policy = ''reactive'',
      rc_reason = ''reactive_edge''\<rparr>"

lemma sample_update_wf: "fu_wf (sample_update uid)"
  by (simp add: fu_wf_def sample_update_def stamp_opt_def update_sources_def)

lemma sample_update_normal: "fu_normal (sample_update uid) = sample_update uid"
  by (simp add: fu_normal_def sample_update_def er_normal_def)

definition sample_update_doc :: "string \<Rightarrow> json" where
  "sample_update_doc uid = (case fu_to_dict (sample_update uid) of Inr d \<Rightarrow> sort_keys d)"

lemma sample_update_read: "fu_from_dict (sample_update_doc uid) = Inr (sample_update uid)"
  using fu.written[OF sample_update_wf[of uid]] by (auto simp: sample_update_doc_def sample_update_normal)

lemma sample_candidates: "plan_recompute_wave sample_registry (sample_update uid) = Inr [sample_candidate]"
proof -
  have "plan_recompute_wave sample_registry ((sample_update ''u'')\<lparr>fu_update_id := uid\<rparr>) = Inr [sample_candidate]"
    by code_simp
  then show ?thesis by (simp add: sample_update_def)
qed

definition sample_debounce_key :: debounce_key where
  "sample_debounce_key = (''user'', ''user_id=u1'', ''v'', 1, ''b'', 1)"

lemma sample_candidate_key: "debounce_key sample_candidate = Inr sample_debounce_key"
  by code_simp

lemma sample_registry_graph: "\<forall>v \<in> set (reg_views sample_registry). 0 \<le> graph_cap v"
  by code_simp

section \<open>Writes and rounds\<close>

definition sample_ws :: write_set where
  "sample_ws = \<lparr>ws_view = ''v'', ws_view_version = 1, ws_entity_key = sample_key,
     ws_results = [(''a'', early)], ws_source_refs = [], ws_request_id = Some ''r1'', ws_job_id = Some ''j1'',
     ws_run_id = None, ws_correlation_id = Some ''c1'', ws_write_policy = ''online_first'',
     ws_node_statuses = []\<rparr>"

definition sample_offline_write :: offline_write_requested where
  "sample_offline_write = \<lparr>ow_event_type = ''feature_write.offline.requested'', ow_event_version = 1,
     ow_request_id = ''r1'', ow_job_id = ''j1'', ow_correlation_id = ''c1'', ow_occurred_at = day2,
     ow_write_set = sample_ws\<rparr>"

lemma early_wf: "result_wf sample_key early" "r_value early = JInt 1" "result_normal early = early"
  using sample_results_ok sample_days_valid
  by (simp_all add: result_wf_def early_def sample_result_def result_normal_def)

lemma sample_offline_write_wf: "ow_wf sample_offline_write" "ow_normal sample_offline_write = sample_offline_write"
  using sample_results_ok early_wf
  by (simp_all add: ow_wf_def sample_offline_write_def write_set_sendable_def sample_ws_def write_set_wf_def
      ow_normal_def ws_normal_def)

lemma sample_offline_write_delivered:
  "\<exists>d. ow_to_dict sample_offline_write = Inr d \<and> ow_from_dict (sort_keys d) = Inr sample_offline_write"
  using ow.written[OF sample_offline_write_wf(1)] sample_offline_write_wf(2) by auto

text \<open>The broker acknowledges, so the turn commits.\<close>

lemma sample_offline_turn:
  assumes "ow_from_dict d = Inr sample_offline_write"
  shows "\<exists>w'. offline_process_next sample_pg_runtime (\<lambda>_. day2) (\<lambda>_. ''u'') (Some (carrying d)) sample_pg_world
      = (committed_pr ''ok'', w')"
proof -
  have inv: "pg_inv sample_pg (w_offline sample_pg_world)" by (simp add: sample_pg_world_def pg_inv_def)
  have "pgops.storable sample_pg (w_offline sample_pg_world) ''v'' 1 [early]"
    using sample_adm(1) early_wf(2) by (simp add: pgops.storable_def)
  from pgops.append_new_durable[OF inv this, of "\<lambda>_. ''0.0''"] obtain new k off where
    a: "append_new (prod_ops sample_pg) (\<lambda>_. ''0.0'') (w_offline sample_pg_world) ''v'' 1 [early] = Inr (new, k, off)"
    by blast
  let ?em = "offline_emission sample_view sample_ws day2" and ?w1 = "sample_pg_world\<lparr>w_offline := off\<rparr>"
  obtain n w2 where e: "emit_feature_updates (send_update sample_pg_runtime) (\<lambda>_. ''u'') sample_view [early] ?em ?w1 = (Inr n, w2)"
    using emit_updates_acked[of "[early]" ?em ?w1 sample_pg_runtime "\<lambda>_. ''u''" sample_view]
      early_wf(1) sample_results_ok
    by (auto simp: offline_emission_def update_sources_def sample_pg_world_def)
  have v: "find_view_in (reg_views (fe_registry sample_fs)) ''v'' 1 = Some sample_view"
    by (simp add: sample_fs_def sample_registry_def) (simp add: sample_view_def Let_def)
  have "handle_feature_offline_write sample_pg_runtime day2 (\<lambda>_. ''u'') sample_offline_write sample_pg_world
      = (fst (handle_feature_offline_write sample_pg_runtime day2 (\<lambda>_. ''u'') sample_offline_write sample_pg_world), w2)
    \<and> of_status (fst (handle_feature_offline_write sample_pg_runtime day2 (\<lambda>_. ''u'') sample_offline_write sample_pg_world)) = ''ok''"
    using a e v
    by (simp add: handle_feature_offline_write_def sample_offline_write_def sample_ws_def dict_values_def
        sample_pg_runtime_def Let_def)
  then obtain r where "handle_feature_offline_write sample_pg_runtime day2 (\<lambda>_. ''u'') sample_offline_write sample_pg_world = (r, w2)"
    "of_status r = ''ok''" by metis
  with assms show ?thesis by (simp add: offline_process_next_def carrying_def Let_def)
qed

definition sample_wave :: wave_env where
  "sample_wave = \<lparr>we_calc_ts = day2, we_gap = 0, we_wave_id = ''w'', we_runner = None,
     we_uuid = (\<lambda>_ _. ''u''), we_now = (\<lambda>_. day2)\<rparr>"

definition sample_store :: "string \<Rightarrow> debounce_store" where
  "sample_store uid = [(sample_debounce_key, new_entry sample_candidate (sample_update uid) day1)]"

text \<open>A round of one turn over an update of feature a.\<close>

lemma sample_observed:
  assumes "fe_registry (rt_env R) = sample_registry" "pa_position p < length (pa_messages p)"
    "pa_messages p ! pa_position p = carrying (sample_update_doc uid)"
  shows "observe_loop R (\<lambda>_ _. day1) (\<lambda>_. False) (Some 1) 0
      \<lparr>pw_debounce = [], pw_held = [], pw_partition = p, pw_world = w\<rparr>
    = ([failed_pr ''observed''], None, \<lparr>pw_debounce = sample_store uid, pw_held = [pa_position p],
         pw_partition = p\<lparr>pa_position := pa_position p + 1\<rparr>, pw_world = w\<rparr>)"
proof -
  have "observe_each (\<lambda>i. day1) (sample_update uid) [sample_candidate] [] = (Inr (), sample_store uid)"
    by (simp add: observe_def sample_candidate_key sample_store_def dict_set_def)
  then have "handle_feature_updated sample_registry (\<lambda>i. day1) (sample_update uid) []
      = (Inr \<lparr>ur_status = ''ok'', ur_candidates = 1, ur_error = None\<rparr>, sample_store uid)"
    by (simp add: handle_feature_updated_def sample_candidates del: observe_each.simps)
  with assms have "prop_turn R (\<lambda>_. day1) \<lparr>pw_debounce = [], pw_held = [], pw_partition = p, pw_world = w\<rparr>
      = (Inr (failed_pr ''observed''), \<lparr>pw_debounce = sample_store uid, pw_held = [pa_position p],
         pw_partition = p\<lparr>pa_position := pa_position p + 1\<rparr>, pw_world = w\<rparr>)"
    by (simp add: prop_turn_def poll_message_def prop_process_next_def carrying_def sample_update_read)
  then show ?thesis by (simp add: observe_loop.simps)
qed

lemma sample_waves:
  "isl (fst (execute_wave down_runtime sample_wave (sample_store ''u1'') sample_world))"
  "\<not> isl (fst (execute_wave sample_runtime sample_wave (sample_store ''u2'') sample_world))"
  by code_simp+

section \<open>Scores, registries, bundles, batches and requests\<close>

definition sample_scores :: model_score_write where
  "sample_scores = \<lparr>ms_event_type = ''model_score.write.requested'', ms_event_version = 1,
     ms_score_write_id = ''w1'', ms_correlation_id = ''c1'', ms_occurred_at = day2,
     ms_entity = \<lparr>er_type = ''user'', er_key = [(''user_id'', ''u1'')]\<rparr>, ms_view = ''v'', ms_view_version = 1,
     ms_scores = [\<lparr>si_feature = ''m'', si_value = JInt 3, si_data_ts = day1, si_calc_ts = day2,
       si_model_name = ''m'', si_model_version = ''1'', si_source_request_id = None,
       si_decision_request_id = None, si_context = []\<rparr>],
     ms_idempotency_key = ''i'', ms_write_online = True, ms_write_offline = False\<rparr>"

lemma sample_scores_wf: "ms_wf sample_scores" "ms_normal sample_scores = sample_scores"
  by (simp_all add: ms_wf_def sample_scores_def si_wf_def obj_plain_def ms_normal_def si_normal_def er_normal_def sort_items_def sort_key_def)

definition score_feature :: feature_def where
  "score_feature = \<lparr>f_name = ''m'', f_kind = ''model_score'', f_version = 2, f_udf = [], f_dtype = ''int'',
     f_status = ''live'', f_inputs = [], f_deps = [], f_model = None, f_description = None, f_lifecycle = Live\<rparr>"

definition score_runtime ::
    "(offline_mem, online_mem, string \<rightharpoonup> request_result, status_mem) runtime" where
  "score_runtime = sample_runtime\<lparr>rt_env := sample_fs\<lparr>fe_registry := sample_registry\<lparr>reg_views :=
     [sample_view\<lparr>v_features := v_features sample_view @ [score_feature]\<rparr>]\<rparr>\<rparr>\<rparr>"

lemma dict_single:
  assumes "dict_wf d" "set (dict_keys d) = {k}"
  shows "\<exists>v. d = [(k, v)]"
proof -
  have "length (dict_keys d) = 1" using distinct_card[OF assms(1)] assms(2) by simp
  then obtain kv where "d = [kv]" by (auto simp: dict_keys_def length_Suc_conv)
  with assms(2) show ?thesis by (cases kv) (simp add: dict_keys_def)
qed

lemma sample_scores_handled:
  "\<exists>r w'. handle_model_score_write score_runtime day2 sample_scores sample_world = (Inr r, w') \<and> sw_status r = ''ok''"
proof -
  have "(case fst (handle_model_score_write score_runtime day2 sample_scores sample_world) of
      Inr r \<Rightarrow> sw_status r = ''ok'' | Inl e \<Rightarrow> False)" by code_simp
  then show ?thesis
    by (cases "handle_model_score_write score_runtime day2 sample_scores sample_world") (auto split: sum.splits)
qed

definition sample_doc :: json where
  "sample_doc =
     (let f = \<lambda>ins deps. JObj [(''kind'', JStr ''udf''), (''feature_version'', JInt 1), (''udf'', JStr ''u''),
          (''dtype'', JStr ''int''), (''status'', JStr ''live''), (''inputs'', JList ins), (''deps'', JList deps)]
      in JObj
        [(''registry_version'', JStr ''1''),
         (''entities'', JObj [(''user'', JObj [(''key_fields'', JList [JStr ''user_id''])])]),
         (''sources'', JObj [(''s'', JObj [(''type'', JStr ''raw_report''), (''report_type'', JStr ''r''),
            (''ts_field'', JStr ''t'')])]),
         (''feature_views'', JObj [(''v'', JObj [(''entity'', JStr ''user''),
            (''key_fields'', JList [JStr ''user_id'']), (''view_version'', JInt 1), (''owner'', JStr ''o''),
            (''status'', JStr ''active''),
            (''features'', JObj [(''a'', f [JStr ''s''] []),
               (''b'', f [] [JObj [(''feature'', JStr ''a''), (''version'', JInt 1)]])])])])])"

lemma sample_doc_loads: "\<exists>r. build_registry sample_doc = Inr r"
proof -
  have "(case build_registry sample_doc of Inr r \<Rightarrow> True | Inl e \<Rightarrow> False)" by code_simp
  then show ?thesis by (cases "build_registry sample_doc") auto
qed

definition reversed_registry :: registry where
  "reversed_registry = sample_registry\<lparr>reg_views := [sample_view\<lparr>v_features := rev (v_features sample_view)\<rparr>]\<rparr>"

lemma sample_bundles_ready: "bundle_ready sample_registry" "bundle_ready reversed_registry"
proof -
  have "validate_registry reversed_registry = Inr ()" "\<forall>v \<in> set (reg_views reversed_registry). 0 \<le> graph_cap v"
    by code_simp+
  with validate_registry_iff sample_registry_valid sample_registry_graph
  have "registry_rules sample_registry" "registry_rules reversed_registry" by blast+
  moreover have "\<forall>v \<in> set (reg_views sample_registry). bundle_view v" "\<forall>v \<in> set (reg_views reversed_registry). bundle_view v"
    by code_simp+
  ultimately show "bundle_ready sample_registry" "bundle_ready reversed_registry" by (simp_all add: bundle_ready_def)
qed

definition sample_bundle :: "string \<Rightarrow> string list \<Rightarrow> registry_bundle" where
  "sample_bundle n features = \<lparr>bu_id = n, bu_digest = ''sha256:ab'', bu_created_at = day1, bu_views = [''v@1''],
     bu_features = features, bu_registry_version = None, bu_source_ref = None, bu_metadata = [],
     bu_artifact = None, bu_definition_digest = None\<rparr>"

lemma sample_bundle_ok: "bu_wf (sample_bundle n features)" "sha_digest (bu_digest (sample_bundle n features))"
  by (simp_all add: bu_wf_def sample_bundle_def sha_digest_def)

definition sample_job :: job_status where
  "sample_job = \<lparr>bj_job_id = ''j'', bj_status = ''accepted'', bj_view = ''v'', bj_view_version = 1,
     bj_created_at = day1, bj_updated_at = day1, bj_total_items = 4, bj_chunk_count = 2, bj_write_online = True,
     bj_features = [], bj_groups = [], bj_chunks = [], bj_finished_at = None, bj_error_summary = [],
     bj_manifest_id = None, bj_manifest_ids = [], bj_online_refresh_mode = None\<rparr>"

definition sample_report :: "nat \<Rightarrow> datetime \<times> chunk_status" where
  "sample_report w = (day2, \<lparr>bk_chunk_id = (if w = 0 then ''c0'' else ''c1''), bk_chunk_index = int w,
     bk_status = ''completed'', bk_item_count = 2, bk_updated_at = day2, bk_ok_items = 2, bk_failed_items = 0,
     bk_first_errors = [], bk_finished_at = Some day2\<rparr>)"

lemma sample_job_ok: "bj_wf sample_job" "\<forall>w. bk_wf (snd (sample_report w)) \<and> stamp (fst (sample_report w))"
  by (simp_all add: bj_wf_def sample_job_def bk_wf_def sample_report_def stamp_opt_def dict_keys_def)

text \<open>A report changes the stored job.\<close>

lemma sample_reported: "sort_keys (bj_to_dict (merge_all [sample_report 0] sample_job)) \<noteq> sort_keys (bj_to_dict sample_job)"
proof
  assume "sort_keys (bj_to_dict (merge_all [sample_report 0] sample_job)) = sort_keys (bj_to_dict sample_job)"
  moreover have "bj_wf (merge_all [sample_report 0] sample_job)"
    using sample_job_ok by (intro merge_all_wf) (simp_all add: case_prod_beta)
  ultimately have "bj_normal (merge_all [sample_report 0] sample_job) = bj_normal sample_job"
    using bj_read[OF sample_job_ok(1)] bj_read[of "merge_all [sample_report 0] sample_job"] by simp
  then have "bj_updated_at (merge_all [sample_report 0] sample_job) = bj_updated_at sample_job"
    by (auto dest: arg_cong[where f = bj_updated_at] simp: bj_normal_def)
  then show False
    by (simp add: merge_all_def sample_report_def sample_job_def merge_chunk_def with_chunk_def Let_def)
      (simp add: day1_def day2_def utc_def)
qed

definition sample_txn :: txn_state where
  "sample_txn = \<lparr>tx_db = [batch_job_key ''j'' \<mapsto> sort_keys (bj_to_dict sample_job)], tx_watch = \<lambda>_. None, tx_done = []\<rparr>"

definition sample_compute_event :: compute_requested where
  "sample_compute_event = \<lparr>cq_event_type = ''feature_compute.requested'', cq_event_version = 1, cq_request_id = ''r1'',
     cq_job_id = ''j1'', cq_priority = ''normal'', cq_deadline_ms = 1000,
     cq_entity = \<lparr>er_type = ''user'', er_key = [(''user_id'', ''u1'')]\<rparr>, cq_view = ''v'', cq_view_version = 1,
     cq_groups = [], cq_features = [''b''],
     cq_reports = [\<lparr>rd_report_ref = ''ref'', rd_source_name = ''s'', rd_report_type = ''r'',
       rd_schema_version = ''1'', rd_report_ts = day1, rd_object_key = ''o'', rd_content_hash = ''h'',
       rd_size_bytes = 2, rd_compression = ''none'', rd_format = ''json'', rd_available_at = Some day1\<rparr>],
     cq_write_policy = ''online_first'', cq_idempotency_key = ''i'', cq_correlation_id = ''c1'',
     cq_occurred_at = day1, cq_event_ts = Some day1, cq_expires_at = Some day2\<rparr>"

definition sample_chunk :: batch_chunk_requested where
  "sample_chunk = \<lparr>bc_event_type = ''batch.chunk.requested'', bc_event_version = 1, bc_batch_job_id = ''j'',
     bc_chunk_id = ''c0'', bc_chunk_index = 0, bc_chunk_count = 1, bc_correlation_id = ''c1'',
     bc_occurred_at = day1, bc_view = ''v'', bc_view_version = 1, bc_items = [], bc_features = [''b''],
     bc_groups = [], bc_write_online = True, bc_total_items = 0, bc_manifest_id = None, bc_manifest_ids = []\<rparr>"

lemma sample_events_wf: "cq_wf sample_compute_event" "bc_wf sample_chunk"
  by (simp_all add: cq_wf_def sample_compute_event_def rd_wf_def stamp_opt_def deadline_ok_def sample_instants
      bc_wf_def sample_chunk_def)

section \<open>Batch chunks, ingestion and the HTTP handlers\<close>

definition sample_raw :: "unit raw_ops" where
  "sample_raw = \<lparr>ra_get_meta = (\<lambda>_ _. Inr sample_meta), ra_add_meta = (\<lambda>s _. Inr s),
     ra_get_payload = (\<lambda>_ _. Inr (JInt 7)), ra_put_payload = (\<lambda>s _ _. Inr s),
     ra_serialize = (\<lambda>j. json_dumps (\<lambda>_. ''0.0'') plain_style j), ra_storage_uri = (\<lambda>t r d. t @ ''/'' @ r),
     ra_format = ''json'', ra_compression = ''none'', ra_parse_inline = (\<lambda>_. None)\<rparr>"

definition sample_batch ::
    "(pg_table, valkey, string \<rightharpoonup> request_result, status_mem, unit, batch_mem) batch_runtime" where
  "sample_batch = \<lparr>bt_core = sample_pg_runtime, bt_write = (\<lambda>on v vv r. (Inr Written, on)),
     bt_set_chunk = (\<lambda>now m j c. Inr (snd (bm_set_chunk now m j c))), bt_raw = sample_raw\<rparr>"

definition sample_batch_world ::
    "(pg_table, valkey, string \<rightharpoonup> request_result, status_mem, unit, batch_mem) batch_world" where
  "sample_batch_world = \<lparr>bw_core = sample_pg_world, bw_jobs = Map.empty, bw_raw = (), bw_controls = noop_controls\<rparr>"

definition sample_inputs :: batch_inputs where
  "sample_inputs = \<lparr>be_clock = (\<lambda>_. day2), be_report_ref = (\<lambda>_ _. ''x''), be_uuid = (\<lambda>_. ''u''),
     be_ticks = (\<lambda>_. 0), be_lag = None\<rparr>"

definition sample_ref_chunk :: batch_chunk_requested where
  "sample_ref_chunk = sample_chunk\<lparr>bc_items := [\<lparr>bi_entity_type = ''user'',
     bi_entity_key = [(''user_id'', ''u1'')], bi_inline_sources = [], bi_source_refs = [(''s'', ''ref'')]\<rparr>],
     bc_write_online := False, bc_total_items := 1\<rparr>"

lemma sample_ref_chunk_wf: "bc_wf sample_ref_chunk" "bc_normal sample_ref_chunk = sample_ref_chunk"
  by (simp_all add: bc_wf_def sample_ref_chunk_def sample_chunk_def bi_wf_def of_obj_dict_def bc_normal_def
      bi_normal_def sort_obj_dict_def)

lemma sample_ref_chunk_read: "\<exists>d. bc_from_dict d = Inr sample_ref_chunk"
  using bc.written[OF sample_ref_chunk_wf(1)] sample_ref_chunk_wf(2) by auto

text \<open>The item computes feature b from feature a.\<close>

definition sample_item :: batch_item where
  "sample_item = hd (bc_items sample_ref_chunk)"

definition sample_computed :: feature_result where
  "sample_computed = (case item_write_set sample_batch () sample_view [''b''] day2 sample_item of
     Inr ws \<Rightarrow> hd (dict_values (ws_results ws)))"

definition plain_result :: "feature_result \<Rightarrow> bool" where
  "plain_result r \<longleftrightarrow> result_ok r \<and> ek_valid (r_entity_key r) \<and> ref_ok (r_ref r) \<and> r_value r = JInt 1
     \<and> fr_name (r_ref r) = ''b''"

lemma sample_item_run:
  "case item_write_set sample_batch () sample_view [''b''] day2 sample_item of
     Inr ws \<Rightarrow> (case dict_values (ws_results ws) of [r] \<Rightarrow> plain_result r | _ \<Rightarrow> False)
   | Inl e \<Rightarrow> False"
  by code_simp

lemma sample_item_computes:
  "item_results sample_batch () sample_view [''b''] day2 sample_item = [sample_computed]"
  "item_computes sample_batch () sample_view [''b''] day2 sample_item"
  "ref_item sample_batch () sample_view [''b''] day2 sample_item empty_chunk_tally
     = Inr (item_done [sample_computed] empty_chunk_tally)"
  "result_ok sample_computed" "ek_valid (r_entity_key sample_computed)" "ref_ok (r_ref sample_computed)"
  "r_value sample_computed = JInt 1" "fr_name (r_ref sample_computed) = ''b''"
proof -
  from sample_item_run obtain ws r where ws: "item_write_set sample_batch () sample_view [''b''] day2 sample_item = Inr ws"
    "dict_values (ws_results ws) = [r]" "plain_result r" by (auto split: sum.splits list.splits)
  then have "r = sample_computed" by (simp add: sample_computed_def)
  with ws show "item_results sample_batch () sample_view [''b''] day2 sample_item = [sample_computed]"
    "item_computes sample_batch () sample_view [''b''] day2 sample_item"
    "ref_item sample_batch () sample_view [''b''] day2 sample_item empty_chunk_tally
       = Inr (item_done [sample_computed] empty_chunk_tally)"
    "result_ok sample_computed" "ek_valid (r_entity_key sample_computed)" "ref_ok (r_ref sample_computed)"
    "r_value sample_computed = JInt 1" "fr_name (r_ref sample_computed) = ''b''"
    by (simp_all add: item_results_def item_computes_def ref_item_def plain_result_def)
qed

lemma sample_computed_storable: "pgops.storable sample_pg t ''v'' 1 [sample_computed]"
  using sample_item_computes(4-8)
  by (simp add: pgops.storable_def pg_adm_def result_to_params_def dump_value_def
      sample_pg_def[THEN arg_cong[where f = pg_jsonb]]) (simp add: sample_pg_def)

lemma sample_plan: "chunk_plan sample_batch sample_ref_chunk v features \<longleftrightarrow> v = sample_view \<and> features = [''b'']"
proof -
  have "reg_find_view sample_registry ''v'' 1 = Inr sample_view" by code_simp
  moreover have "(case plan_features sample_view [''b''] [] False of Inr p \<Rightarrow> p_compute_features p = [''b''] | Inl e \<Rightarrow> False)"
    by code_simp
  ultimately show ?thesis
    by (auto simp: chunk_plan_def sample_batch_def sample_pg_runtime_def sample_fs_def sample_ref_chunk_def
        sample_chunk_def split: sum.splits)
qed

lemma sample_ref_chunk_handled:
  "\<exists>r W'. handle_batch_chunk sample_batch sample_inputs sample_ref_chunk sample_batch_world = (Inr r, W')
     \<and> bx_status r = ''ok''"
proof -
  let ?B = sample_batch and ?ev = sample_ref_chunk and ?W = sample_batch_world
  let ?W1 = "safe_set_chunk ?B day2 ''j'' (running_report ?ev day2) ?W"
  have cfg: "bt_core ?B = sample_pg_runtime" "rt_stores sample_pg_runtime = prod_ops sample_pg"
    "rt_repr sample_pg_runtime = (\<lambda>_. ''0.0'')" "fe_registry (rt_env sample_pg_runtime) = sample_registry"
    "be_clock sample_inputs = (\<lambda>_. day2)" "be_uuid sample_inputs = (\<lambda>_. ''u'')"
    by (simp_all add: sample_batch_def sample_pg_runtime_def sample_fs_def sample_inputs_def)
  have ev: "bc_batch_job_id ?ev = ''j''" "bc_items ?ev = [sample_item]" "bc_write_online ?ev = False"
    "is_ref_chunk ?ev" "v_name sample_view = ''v''" "v_version sample_view = 1"
    by (simp_all add: sample_ref_chunk_def sample_chunk_def sample_item_def is_ref_chunk_def sample_view_def Let_def)
  have w: "bw_core ?W = sample_pg_world" "bw_raw ?W = ()" by (simp_all add: sample_batch_world_def)
  from sample_plan[of sample_view "[''b'']"] obtain plan where
    p: "reg_find_view sample_registry (bc_view ?ev) (bc_view_version ?ev) = Inr sample_view"
      "plan_features sample_view (bc_features ?ev) (bc_groups ?ev) False = Inr plan" "p_compute_features plan = [''b'']"
    by (auto simp: chunk_plan_def cfg)
  have inv: "pg_inv sample_pg (w_offline sample_pg_world)" by (simp add: sample_pg_world_def pg_inv_def)
  from pgops.append_new_durable[OF inv sample_computed_storable, of "\<lambda>_. ''0.0''"] obtain new k off where
    a: "append_new (prod_ops sample_pg) (\<lambda>_. ''0.0'') (w_offline sample_pg_world) ''v'' 1 [sample_computed] = Inr (new, k, off)"
    by blast
  have "\<not> emits sample_view sample_computed"
  proof -
    have "''b'' \<notin> set (features_with_reactive_dependents sample_view)" by code_simp
    then show ?thesis by (simp add: emits_def sample_item_computes(8))
  qed
  moreover have "em_source (batch_emission sample_view ''j'' (bc_manifest_id ?ev) day2) \<in> set update_sources"
    by (simp add: batch_emission_def update_sources_def)
  ultimately have e: "emit_feature_updates (send_update sample_pg_runtime) (\<lambda>_. ''u'') sample_view [sample_computed]
      (batch_emission sample_view ''j'' (bc_manifest_id ?ev) day2) (sample_pg_world\<lparr>w_offline := off\<rparr>)
      = (Inr 0, sample_pg_world\<lparr>w_offline := off\<rparr>)"
    using sample_item_computes(4) by (simp add: emit_feature_updates_def build_events_exact)
  define K where "K = \<lparr>ko_ok = 1, ko_failed = 0, ko_errors = [], ko_refresh = (None :: (string, int) dict option)\<rparr>"
  have c: "compute_ref_chunk ?B sample_inputs sample_view [''b''] ?ev ?W1
      = (Inr K, ?W1\<lparr>bw_core := sample_pg_world\<lparr>w_offline := off\<rparr>\<rparr>)"
    using a e sample_item_computes(3)
    by (simp add: compute_ref_chunk_def Let_def cfg ev w K_def item_done_def empty_chunk_tally_def)
  let ?W2 = "safe_set_chunk ?B day2 ''j'' (finished_report ?ev day2 K) (?W1\<lparr>bw_core := sample_pg_world\<lparr>w_offline := off\<rparr>\<rparr>)"
  have core: "bw_core ?W2 = sample_pg_world\<lparr>w_offline := off\<rparr>" by simp
  have "bp_wf (processed_event ?ev day2 K)" by (simp add: bp_wf_def processed_event_def)
  from bp.written[OF this] obtain d where d: "bp_to_dict (processed_event ?ev day2 K) = Inr d" "json_plain d" by blast
  have "br_fates (w_broker (bw_core ?W2)) = []" by (simp add: core sample_pg_world_def)
  from publish_event_acked[OF this d] obtain w4 where
    "publish_event sample_pg_runtime ''fp.batch.events'' ''j'' (bp_to_dict (processed_event ?ev day2 K)) (bw_core ?W2)
      = (Inr (), w4)" by blast
  then show ?thesis
    unfolding handle_batch_chunk_def Let_def cfg p rbind.simps sum.case prod.case ev(1) if_P[OF ev(4)] p(3) c
    by simp
qed

definition meta_empty :: "(pg_requests, pg_meta, pg_batch, status_mem) meta_world" where
  "meta_empty = \<lparr>mw_requests = \<lparr>pq_requests = [], pq_events = []\<rparr>, mw_raw = \<lparr>pm_rows = [], pm_changes = []\<rparr>,
     mw_batch = \<lparr>pb_jobs = [], pb_chunks = []\<rparr>, mw_status = Map.empty,
     mw_broker = \<lparr>br_log = [], br_fates = []\<rparr>, mw_committed = False\<rparr>"

definition meta_sample :: "(pg_requests, pg_meta, pg_batch, status_mem) meta_runtime" where
  "meta_sample = pg_runtime sample_pg (\<lambda>s. s) (\<lambda>_. ''0.0'') (\<lambda>m i. Inr (rm_get m i)) (\<lambda>m s. Inr (rm_put m s))"

lemma meta_empty_ok: "stores_ok sample_pg meta_empty"
  by (simp add: stores_ok_def meta_empty_def pg_requests_ok_def pg_meta_inv_def pg_batch_ok_def)

text \<open>Credentials, manifests and polls of the HTTP handlers.\<close>

definition sample_security :: security_config where
  "sample_security = \<lparr>sx_mode = ''api_key'', sx_environment = ''production'',
     sx_keys = [\<lparr>ak_key_id = ''svc'', ak_role = ''service'', ak_secret = ''0123456789abcdef0123456789abcdef''\<rparr>,
                \<lparr>ak_key_id = ''ops'', ak_role = ''operator'', ak_secret = ''fedcba9876543210fedcba9876543210''\<rparr>]\<rparr>"

lemma sample_security_valid: "validate_config sample_security = Inr ()"
  by code_simp

definition sample_manifest :: "string \<Rightarrow> manifest" where
  "sample_manifest mid = \<lparr>sd_manifest_id = mid, sd_dataset_id = ''ds'', sd_source_kind = ''object_storage_jsonl'',
     sd_entity_type = ''user'', sd_source_name = ''s'', sd_copy_mode = ''copy'', sd_created_at = day1,
     sd_report_type = Some ''r'', sd_landing_form = ''raw_reports'', sd_view = None, sd_view_version = None,
     sd_status = ''completed'', sd_input_uri = None, sd_created_by = None, sd_read = 1, sd_written = 1,
     sd_duplicate = 0, sd_rejected = 0, sd_min_ts = None, sd_max_ts = None, sd_content_hash = None\<rparr>"

definition sample_dataset_item :: "string \<Rightarrow> string \<Rightarrow> string \<Rightarrow> string \<Rightarrow> dataset_item" where
  "sample_dataset_item mid src u ref = \<lparr>di_manifest_id = mid, di_index = 0, di_status = ''written'',
     di_source_name = src, di_report_type = ''r'', di_entity_key = Some [(''user_id'', u)],
     di_report_ref = Some ref, di_event_ts = Some day1, di_content_hash = None, di_error = None\<rparr>"

definition sample_batch_api ::
    "(pg_table, valkey, string \<rightharpoonup> request_result, status_mem, batch_mem) batch_api" where
  "sample_batch_api = \<lparr>ba_core = sample_pg_runtime, ba_get_manifest = (\<lambda>mid. Inr (Some (sample_manifest mid))),
     ba_list_items = (\<lambda>mid. Inr (if mid = ''m1'' then [sample_dataset_item mid ''s'' ''u1'' ''r1'']
       else [sample_dataset_item mid ''t'' ''u1'' ''r2'', sample_dataset_item mid ''s'' ''u2'' ''r3''])),
     ba_get_job = (\<lambda>m j. Inr (bm_get m j)), ba_put_job = (\<lambda>m j. Inr (bm_put m j)),
     ba_dump = (\<lambda>_. []), ba_max_chunk = 100, ba_max_items = 1000, ba_max_manifest = 100000\<rparr>"

definition sample_job_in :: batch_job_in where
  "sample_job_in = \<lparr>jq_view = ''v'', jq_view_version = 1,
     jq_scope = \<lparr>sp_type = ''source_dataset_manifests'', sp_items = [], sp_manifest_id = None,
       sp_include_duplicates = False, sp_manifest_ids = Some [''m2'', ''m1'']\<rparr>,
     jq_key = ''k'', jq_features = [''b''], jq_groups = [], jq_write_online = False, jq_refresh_mode = None,
     jq_chunk_size = 2\<rparr>"

definition sample_joined :: "batch_item list" where
  "sample_joined = map (\<lambda>(u, refs). \<lparr>bi_entity_type = ''user'', bi_entity_key = [(''user_id'', u)],
     bi_inline_sources = [], bi_source_refs = refs\<rparr>)
     [(''u1'', [(''s'', ''r1''), (''t'', ''r2'')]), (''u2'', [(''s'', ''r3'')])]"

lemma sample_join: "multi_manifest_batch_items sample_batch_api sample_job_in sample_view
    = Inr (sample_joined, [''m1'', ''m2''])"
  by code_simp

text \<open>Two lines about one entity.\<close>

definition sample_loads :: "string \<Rightarrow> json option" where
  "sample_loads l = Some (JStr l)"

definition sample_parse :: "json \<Rightarrow> jsonl_row option" where
  "sample_parse j = Some \<lparr>jl_entity_key = [(''user_id'', ''u1'')], jl_event_ts = day1, jl_payload = j,
     jl_report_ref = None, jl_source_name = None, jl_report_type = None, jl_available_at = None\<rparr>"

definition sample_run :: run_args where
  "sample_run = \<lparr>rg_source_kind = ''object_storage_jsonl'', rg_entity_type = ''user'', rg_source_name = ''s'',
     rg_report_type = ''r'', rg_copy_mode = ''copy'', rg_dataset_id = None, rg_input_uri = None,
     rg_created_by = None\<rparr>"

definition sample_landing :: "(mem_meta, string \<rightharpoonup> json, mem_datasets) landing" where
  "sample_landing = \<lparr>ld_upsert = mem_upsert, ld_put_payload = (\<lambda>ps u j. Inr (ps(u \<mapsto> j))),
     ld_put_manifest = (\<lambda>m d. Inr (mem_put_manifest m d)),
     ld_add_items = (\<lambda>xs d. Inr (mem_add_items xs d)),
     ld_serialize = (\<lambda>j. json_dumps (\<lambda>_. ''0.0'') plain_style j),
     ld_storage_uri = (\<lambda>t r d. t @ ''/'' @ r), ld_format = ''json'', ld_compression = ''none'',
     ld_hasher = sample_hasher\<rparr>"

text \<open>A request for feature b, and the polls of a caller that waits for it.\<close>

definition sample_request_api ::
    "(pg_table, valkey, string \<rightharpoonup> request_result, status_mem, unit) request_api" where
  "sample_request_api = \<lparr>qa_core = sample_pg_runtime, qa_raw = sample_raw,
     qa_put_status = (\<lambda>m s. Inr (rm_put m s)), qa_max_deadline_ms = 60000, qa_max_wait_ms = 5000\<rparr>"

definition sample_submission :: submit_inputs where
  "sample_submission = \<lparr>in_request_uuid = ''1'', in_job_uuid = ''2'', in_report_uuid = (\<lambda>_. ''3''),
     in_accepted_at = day1, in_status_at = day1\<rparr>"

definition sample_request_in :: feature_request_in where
  "sample_request_in = \<lparr>nq_entity_type = ''user'', nq_entity_key = [(''user_id'', ''u1'')], nq_view = ''v'',
     nq_view_version = 1,
     nq_reports = [\<lparr>ni_source_name = ''s'', ni_report_type = ''r'', ni_report_ts = day1, ni_payload = JInt 7,
       ni_schema_version = ''1'', ni_report_ref = None\<rparr>],
     nq_groups = [], nq_features = [''b''], nq_write_policy = ''online_first'', nq_priority = ''normal'',
     nq_deadline_ms = 90000, nq_idempotency_key = Some ''k'', nq_correlation_id = None\<rparr>"

definition sample_submitted :: submit_result where
  "sample_submitted = \<lparr>sr_request_id = ''freq_1'', sr_job_id = ''job_2'', sr_report_refs = [''rep_3''],
     sr_entity = \<lparr>er_type = ''user'', er_key = [(''user_id'', ''u1'')]\<rparr>, sr_output_features = [''b'', ''c''],
     sr_expires_at = day2\<rparr>"

definition sample_stored :: request_result where
  "sample_stored = \<lparr>rr_request_id = ''freq_1'', rr_view = ''v'', rr_view_version = 1,
     rr_entity_key = [(''user_id'', ''u1'')],
     rr_features = [(''b'', [(''feature_version'', JInt 1), (''value'', JInt 7),
       (''data_ts'', of_iso day1), (''calc_ts'', of_iso day1)])], rr_created_at = day1\<rparr>"

definition sample_polls :: "nat \<Rightarrow> poll" where
  "sample_polls i = \<lparr>po_status = Inr (if i = 0 then None else
       Some ((accepted_status sample_submission sample_request_in [''b''])\<lparr>rq_status := ''completed''\<rparr>)),
     po_result = Inr (Some sample_stored), po_mono = of_nat i, po_now = day1\<rparr>"

lemma sample_stored_read:
  "\<exists>fs. read_request_result (Inr (Some sample_stored)) [''b'', ''c''] = Inr (fs, [''c''], None)"
  by (simp add: read_request_result_def sample_stored_def stored_out_def int_item_def iso_item_def dict_set_def
      dict_keys_def)

lemma sample_minute: "\<exists>t. plus_us day1 60000000 = Inr t \<and> stamp t \<and> instant t = instant day1 + 60000000"
proof -
  have "\<exists>t. plus_us day1 60000000 = Inr t"
    by (simp add: plus_us_def time_us_def day1_def utc_def day_us_def set_time_def Let_def)
  then obtain t where t: "plus_us day1 60000000 = Inr t" by blast
  from plus_us_instant[OF sample_days_valid(1) t] t show ?thesis by (simp add: stamp_def)
qed

end
