(* ===== verification/Spec2Isabelle.thy ===== *)
theory Spec2Isabelle
  imports WorkerSamples
begin

text \<open>
  A model of fintech_feature_platform, a feature platform: features are computed from raw
  reports under a registry of views, written to an online store for serving and to an
  append-only offline store for training, and promoted bundle by bundle under approval rules.
  Workers move feature requests, batch chunks, score writes, feature updates and metadata
  between these stores over a message log; an HTTP service accepts and answers the requests.
  Paths below are relative to src/src/fintech_feature_platform/.

  \<^bold>\<open>Theories and sources.\<close>
  Values: \<^verbatim>\<open>Prelude\<close> (exceptions as values, dicts as association lists, strings),
  \<^verbatim>\<open>PyTime\<close> (datetime, its instants and ISO text), \<^verbatim>\<open>PyJson\<close> (JSON trees and dumps),
  \<^verbatim>\<open>Documents\<close> (typed reads of JSON documents, the locale \<^verbatim>\<open>codec\<close>),
  \<^verbatim>\<open>KeyCodec\<close> and \<^verbatim>\<open>Models\<close> (fs_core/keycodec.py, models.py), \<^verbatim>\<open>Hashing\<close> (hashing.py).
  Registry: \<^verbatim>\<open>Registry\<close>, \<^verbatim>\<open>Validator\<close>, \<^verbatim>\<open>Acceptance\<close> (registry/models.py, validator.py),
  \<^verbatim>\<open>Loader\<close> (loader.py), \<^verbatim>\<open>Planner\<close> (planner.py), \<^verbatim>\<open>Bundle\<close>, \<^verbatim>\<open>BundleStore\<close> (bundle.py),
  \<^verbatim>\<open>Promotion\<close> (registry/promotion.py), \<^verbatim>\<open>Propagation\<close> (propagation.py).
  Stores: \<^verbatim>\<open>WriteGuard\<close>, \<^verbatim>\<open>OnlineStore\<close>, \<^verbatim>\<open>ValkeyOnline\<close>, \<^verbatim>\<open>OnlineRefinement\<close> (write_guard.py,
  stores/online.py, stores/valkey_online.py), \<^verbatim>\<open>Pit\<close>, \<^verbatim>\<open>OfflineStore\<close>, \<^verbatim>\<open>PostgresOffline\<close>
  (pit.py, stores/offline.py, stores/postgres_offline.py), \<^verbatim>\<open>RawReports\<close> (raw/),
  \<^verbatim>\<open>BatchStatus\<close>, \<^verbatim>\<open>RequestStatus\<close> (the Valkey projections), \<^verbatim>\<open>BatchMetadata\<close>, \<^verbatim>\<open>MetadataStore\<close>,
  \<^verbatim>\<open>SourceDatasets\<close> (the metadata tables, stores/).
  Workflows: \<^verbatim>\<open>Compute\<close>, \<^verbatim>\<open>Engine\<close> (compute/), \<^verbatim>\<open>Dedup\<close>, \<^verbatim>\<open>Consistency\<close>, \<^verbatim>\<open>Training\<close>,
  \<^verbatim>\<open>FeatureStore\<close> (dedup.py, consistency.py, training.py, feature_store.py).
  Messages: \<^verbatim>\<open>Events\<close>, \<^verbatim>\<open>BatchEvents\<close> (events/models.py), \<^verbatim>\<open>Runtime\<close> (publishing, consumed messages,
  dead letters: events/publisher.py, api/dlq.py), \<^verbatim>\<open>Consumers\<close> (a partition with its position and
  committed offset, and the loop every worker runs).
  Workers (api/): \<^verbatim>\<open>OnlineWorker\<close>, \<^verbatim>\<open>OfflineWriter\<close>, \<^verbatim>\<open>ScoreWriter\<close>, \<^verbatim>\<open>ModelBatch\<close>,
  \<^verbatim>\<open>PropagationWorker\<close>, \<^verbatim>\<open>BatchControls\<close>, \<^verbatim>\<open>BatchWorker\<close>, \<^verbatim>\<open>MetadataWriter\<close>, each with the handler,
  one consumer turn and the loop of its runner.
  Service (api/): \<^verbatim>\<open>Security\<close> (security.py), \<^verbatim>\<open>BatchApi\<close> and \<^verbatim>\<open>RequestApi\<close> (the handlers of app.py),
  \<^verbatim>\<open>Ingestion\<close> (jsonl_ingestion.py), \<^verbatim>\<open>Backfill\<close> (backfill.py).
  \<^verbatim>\<open>Samples\<close> and \<^verbatim>\<open>WorkerSamples\<close> hold the concrete values of the instances.

  \<^bold>\<open>Interfaces.\<close> A locale states what the client of a store relies on, and the stores of the
  program interpret it: \<^verbatim>\<open>online_store\<close> (in memory as \<^verbatim>\<open>mem\<close>, Valkey as \<^verbatim>\<open>valkey\<close>),
  \<^verbatim>\<open>offline_store\<close> (\<^verbatim>\<open>memoff\<close>, Postgres as \<^verbatim>\<open>pgoff\<close>), extended by \<^verbatim>\<open>offline_ops\<close> for the workers
  (\<^verbatim>\<open>memops\<close>, \<^verbatim>\<open>pgops\<close>), \<^verbatim>\<open>meta_repository\<close> (\<^verbatim>\<open>memmeta\<close>, \<^verbatim>\<open>pgmeta\<close>), \<^verbatim>\<open>pointer_store\<close> (\<^verbatim>\<open>memptr\<close>, the
  filesystem as \<^verbatim>\<open>fileptr\<close>), \<^verbatim>\<open>bundle_store\<close> (\<^verbatim>\<open>bmem\<close>, \<^verbatim>\<open>bfile\<close>), \<^verbatim>\<open>snapshot_store\<close> (the status
  and result projections in memory and in Valkey), \<^verbatim>\<open>batch_store\<close> (\<^verbatim>\<open>membatch\<close>, \<^verbatim>\<open>pgbatch\<close>),
  \<^verbatim>\<open>request_store\<close> (\<^verbatim>\<open>memreq\<close>, \<^verbatim>\<open>pgreq\<close>) and \<^verbatim>\<open>dataset_store\<close> (\<^verbatim>\<open>memdata\<close>, \<^verbatim>\<open>pgdata\<close>).
  \<^verbatim>\<open>codec\<close> is the contract of a document with its renderer and its parser; every event and
  stored document interprets it. Deduplication, training, governance, durable appends and the
  metadata merges are proved once over the interface.

  \<^bold>\<open>Conventions.\<close> A raised exception is \<open>Inl\<close>, with the constant part of its message. A
  mutated object is a state that is returned updated; on an error path of the FeatureStore and
  of a worker the state is returned too. Strings are lists of code points below 256. A datetime
  is its fields and an optional offset in microseconds; validated timestamps are compared by
  their instants; a timedelta is an integer of microseconds. \<^verbatim>\<open>fromisoformat\<close> accepts the extended
  form that \<^verbatim>\<open>isoformat\<close> writes. Reading a JSON value of the wrong type is a TypeError. The wall
  clock, the monotonic clock, consumer lag, what a poll reads and fresh identifiers are
  arguments; the floats of token buckets and monotonic deadlines are rationals. The broker is a
  log with a list of fates that decides which publications are refused. The depth-first
  searches of validator, planner and engine recurse on the known names outside their stack, so
  no fuel is needed. \<^verbatim>\<open>hybrid_wait\<close> has a number of polls as fuel: one more than the index of
  the first poll at or after the deadline is enough, which is proved.

  \<^bold>\<open>Parameters.\<close> SHA-256 and the float rendering (\<open>hasher\<close>), UDFs, model runners and source
  loaders (pure functions), the parse of an untyped document by pydantic or YAML, payload
  stores, and the Postgres server with its driver (\<open>pg\<close>, with \<open>pg_laws\<close> as what the driver
  documents of TIMESTAMPTZ). Valkey values and pointer files are JSON trees, with the JSON codec
  as an inverse pair.

  \<^bold>\<open>What is shown.\<close> Point-in-time reads and training rows never see the future and are
  maximal; the Postgres and Valkey stores refine the in-memory ones; online keys keep the
  freshest value; computed values carry the right timestamps and hashes and satisfy the age
  bounds of their edges; validation and planning accept exactly what their rules say, and a
  planned request runs; reruns add nothing; promotions obey the approval rules; bundle digests
  identify registries and published bundles stay; metadata identity is immutable; encodings and
  events parse back. Workers commit a message only when it is accounted for, the offline writer
  and the batch worker only after the values can be read back, recompute waves see no future
  and cascades are bounded, concurrent chunk reports are all merged, projections keep their
  history, and the loops end. Access decisions follow the configured roles; an accepted request
  is published once and answered by its deadline; a batch submission covers its scope exactly or
  repeats a known job; the manifest join is exact; ingesting again is idle.

  \<^bold>\<open>Not modelled.\<close> Client construction, metrics and logging (I/O); FastAPI wiring, response
  rendering and the routes that only call modelled components; process entry points, readiness
  probes and settings; the command line (argument parsing and scaffolding); dynamic import of UDF
  modules and the startup verification of installed artifacts (import machinery and files); the
  warehouse and object-store adapters and the export of datasets (calls into third-party
  clients, whose type coercions decide the outcome).
\<close>

section \<open>Point-in-time reads and training data\<close>

text \<open>
  C1: The point-in-time selection is leakage free and maximal. A selected record is not newer
  than the observation minus the safety gap and was available at the observation; it is the last
  of the eligible records with the greatest (data, calculation) timestamps; nothing is selected
  only when no record is eligible; and the second component counts the records of the future.
\<close>

theorem pit_selection_leakage_free:
  assumes "records_ok records" "select_pit records obs gap = Inr (sel, ignored)"
  shows "(case sel of
      None \<Rightarrow> \<forall>rec \<in> set records. \<not> pit_allowed obs gap (or_result rec)
    | Some rec \<Rightarrow>
        instant (r_data_ts (or_result rec)) \<le> instant obs - gap
        \<and> instant (effective_available (or_result rec)) \<le> instant obs
        \<and> (\<exists>pre post. records = pre @ rec # post
             \<and> (\<forall>x \<in> set pre. pit_allowed obs gap (or_result x) \<longrightarrow> pit_key x \<le> pit_key rec)
             \<and> (\<forall>x \<in> set post. pit_allowed obs gap (or_result x) \<longrightarrow> pit_key x < pit_key rec)))
    \<and> ignored = length (filter (\<lambda>rec. instant obs < instant (r_data_ts (or_result rec))) records)"
proof (cases sel)
  case None
  with select_pit_None[OF assms(1)] select_pit_count[OF assms] assms(2) show ?thesis by auto
next
  case (Some rec)
  with assms(2) have "select_pit records obs gap = Inr (Some rec, ignored)" by simp
  from select_pit_split[OF assms(1) this] have
    "\<exists>pre post. records = pre @ rec # post \<and> pit_allowed obs gap (or_result rec)
      \<and> (\<forall>x \<in> set pre. pit_allowed obs gap (or_result x) \<longrightarrow> pit_key x \<le> pit_key rec)
      \<and> (\<forall>x \<in> set post. pit_allowed obs gap (or_result x) \<longrightarrow> pit_key x < pit_key rec)" .
  moreover from this have "pit_allowed obs gap (or_result rec)" by blast
  then have "instant (r_data_ts (or_result rec)) \<le> instant obs - gap"
    "instant (effective_available (or_result rec)) \<le> instant obs" by (auto simp: pit_allowed_def)
  ultimately show ?thesis unfolding Some option.case using select_pit_count[OF assms] by blast
qed

theorem pit_selection_leakage_free_witness:
  "select_pit sample_history day2 0 = Inr (Some (offline_rec ''v'' 1 early), 1)
   \<and> instant (r_data_ts early) \<le> instant day2"
proof -
  have 1: "records_ok sample_history" by code_simp
  have 2: "select_pit sample_history day2 0 = Inr (Some (offline_rec ''v'' 1 early), 1)" by code_simp
  from pit_selection_leakage_free[OF 1 2] 2 show ?thesis by (simp add: offline_rec_def)
qed



text \<open>
  C3: The SQL reads of the Postgres store refine the in-memory store: on the history its table
  stands for, a lookup returns the same records in the same order, and the query
  ORDER BY data_ts DESC, calc_ts DESC, row_id DESC LIMIT 1 returns the record that the Python
  loop selects.
\<close>

theorem postgres_reads_refine:
  assumes "pg_inv P t" "ek_valid ek" "pit_args_ok obs gap"
  shows "pg_get P t ek name version view vv = mem_offline_get (pg_history P t) ek name version view vv
    \<and> pg_get_pit P t ek fname fversion w wv obs gap = mem_get_pit (pg_history P t) ek fname fversion w wv obs gap"
  using pg_get_history[OF assms(1,2)]
  by (simp_all add: pg_get_pit_loop[OF assms] mem_get_pit_def)

theorem postgres_reads_refine_witness:
  "\<exists>rec. pg_get_pit sample_pg sample_table sample_key ''a'' 1 ''v'' 1 day2 0 = Inr (Some rec)
    \<and> mem_get_pit (pg_history sample_pg sample_table) sample_key ''a'' 1 ''v'' 1 day2 0 = Inr (Some rec)
    \<and> r_value (or_result rec) = JInt 1"
proof -
  have a: "pit_args_ok day2 0" by code_simp
  have "(case pg_get_pit sample_pg sample_table sample_key ''a'' 1 ''v'' 1 day2 0 of
      Inr (Some rec) \<Rightarrow> r_value (or_result rec) = JInt 1 | _ \<Rightarrow> False)" by code_simp
  then obtain rec where "pg_get_pit sample_pg sample_table sample_key ''a'' 1 ''v'' 1 day2 0 = Inr (Some rec)"
    "r_value (or_result rec) = JInt 1" by (auto split: sum.splits option.splits)
  with postgres_reads_refine[OF sample_table_ok(1) sample_results_ok(3) a] show ?thesis by auto
qed

text \<open>
  C4: The batched COPY of the Postgres store refines the appends of the in-memory store: the rows
  it adds stand for the same records in the same order, up to the time zone of timestamps and the
  normal form of jsonb values, and it keeps the table's invariant.
\<close>

theorem postgres_appends_refine:
  assumes "pg_inv P t" "\<forall>r \<in> set rs. pg_adm P t view version r"
  shows "\<exists>t'. pg_append_many P t view version rs = Inr t' \<and> pg_inv P t'
    \<and> pg_history P t' = mem_append_many (pg_history P t) view version (map (pg_norm P) rs)"
  by (rule pg_append_many_history[OF assms])

theorem postgres_appends_refine_witness:
  "\<exists>t'. pg_append_many sample_pg sample_table ''v'' 1 [late] = Inr t'
    \<and> pg_history sample_pg t' = mem_append_many (pg_history sample_pg sample_table) ''v'' 1 [pg_norm sample_pg late]"
  using postgres_appends_refine[OF sample_table_ok(1), of "[late]" "''v''" 1] sample_adm by auto

section \<open>Online serving\<close>

text \<open>
  C5: After any sequence of writes to the in-memory online store, in any order and with
  repetitions, a serving key holds a result of the greatest freshness, the pair of data timestamp
  and newest input timestamp, that was ever written to it.
\<close>

theorem online_keeps_freshest:
  assumes "\<forall>(view, version, r) \<in> set ws. mem_adm view r" "mem_adm_key k" "freshness_under k ws \<noteq> []"
  shows "map_option freshness (mem_get (snd (online_run Map.empty ws)) k)
    = Some (Max (set (freshness_under k ws)))"
  by (rule online_run_freshness[OF assms])

theorem online_keeps_freshest_witness:
  "map_option freshness (mem_get (snd (online_run Map.empty [(''v'', 1, late), (''v'', 1, early)]))
     (serving_key ''v'' 1 late)) = Some (freshness late)"
proof -
  let ?ws = "[(''v'', 1, late), (''v'', 1, early)]"
  have 1: "\<forall>(view, version, r) \<in> set ?ws. mem_adm view r"
    using sample_results_ok by (simp add: mem_adm_def)
  have 2: "mem_adm_key (serving_key ''v'' 1 late)"
    using sample_results_ok by (simp add: mem_adm_key_def serving_key_def)
  have f: "freshness_under (serving_key ''v'' 1 late) ?ws = [freshness late, freshness early]" by code_simp
  have "freshness early \<le> freshness late" by code_simp
  with online_keeps_freshest[OF 1 2] f show ?thesis by (simp add: max_def)
qed



text \<open>
  A replayed write is a no-op in the Valkey store: writing again the result that a write has
  just stored returns the outcome noop and changes no serving key.
\<close>

theorem valkey_replay_noop:
  assumes "valkey_inv repr db" "valkey_adm repr view r"
    and "valkey_write repr db view version r = Inr (out, db1)" "out \<in> set write_outcomes"
  shows "\<exists>db2. valkey_write repr db1 view version r = Inr (Noop, db2) \<and> valkey_inv repr db2
    \<and> (\<forall>k. valkey_adm_key k \<longrightarrow> valkey_lookup db2 k = valkey_lookup db1 k)"
proof -
  let ?k = "serving_key view version r"
  have k: "valkey_adm_key ?k" by (rule valkey_adm_serving[OF assms(2)])
  obtain s1 where s1: "valkey_write repr db view version r = Inr (decide_result r (valkey_lookup db ?k), s1)"
    "valkey_inv repr s1"
    "\<And>k. valkey_adm_key k \<Longrightarrow> valkey_lookup s1 k = (if k = ?k
       \<and> decide_result r (valkey_lookup db ?k) \<in> set write_outcomes then Some (drop_lineage r) else valkey_lookup db k)"
    using valkey.put_ok[OF assms(1,2), of version] by blast
  with assms(3,4) have "db1 = s1" "valkey_lookup db1 ?k = Some (drop_lineage r)" using k by auto
  with valkey.decide_proj(1) have noop: "decide_result r (valkey_lookup db1 ?k) = Noop"
    by (simp add: decide_result_replay)
  have inv1: "valkey_inv repr db1" using s1(2) \<open>db1 = s1\<close> by simp
  obtain s2 where "valkey_write repr db1 view version r = Inr (decide_result r (valkey_lookup db1 ?k), s2)"
    "valkey_inv repr s2"
    "\<And>k. valkey_adm_key k \<Longrightarrow> valkey_lookup s2 k = (if k = ?k
       \<and> decide_result r (valkey_lookup db1 ?k) \<in> set write_outcomes then Some (drop_lineage r) else valkey_lookup db1 k)"
    using valkey.put_ok[OF inv1 assms(2), of version] by blast
  with noop show ?thesis by auto
qed

theorem valkey_replay_noop_witness:
  "\<exists>db1 db2. valkey_write (\<lambda>_. ''0.0'') Map.empty ''v'' 1 early = Inr (Written, db1)
    \<and> valkey_write (\<lambda>_. ''0.0'') db1 ''v'' 1 early = Inr (Noop, db2)"
proof -
  note adm = sample_valkey_adm(1)[of "\<lambda>_. ''0.0''"]
  have "valkey_lookup Map.empty (serving_key ''v'' 1 early) = None"
    by (simp add: valkey_lookup_def serving_key_def valkey_get_def hget_def)
  then obtain db1 where 1: "valkey_write (\<lambda>_. ''0.0'') Map.empty ''v'' 1 early = Inr (Written, db1)"
    using valkey.put_ok[OF valkey_empty(1) adm, of 1] by auto
  from valkey_replay_noop[OF valkey_empty(1) adm 1] 1 show ?thesis by auto
qed

section \<open>Computing features\<close>



text \<open>
  C8: A planned request runs. When a validated view accepts a plan, every source loads and is
  stamped, every UDF below the plan returns a value that hashes, and every such feature reads a
  source or has a required dependency, the engine computes the plan without raising.
\<close>

theorem planned_request_runs:
  assumes "validate_registry reg = Inr ()" "engine_find_view (reg_views reg) view version = Inr v"
    "0 \<le> graph_cap v" "plan_features v req groups shadow = Inr p"
    "env_total E (features_by_name v) (below v (set (p_compute_features p)))"
  shows "\<exists>results cx. compute E reg view version ek (p_compute_features p) empty_context = Inr (results, cx)"
proof -
  have "v \<in> set (reg_views reg)" using engine_find_view_Inr[OF assms(2)] by simp
  with assms(1,3) have valid: "view_valid v" by (intro validate_registry_view)
  then obtain rank where rank: "ranked (features_by_name v) (graph_cap v) rank" by (auto simp: view_valid_def)
  have W: "set (p_compute_features p) = wanted v req groups"
    using plan_outputs[OF assms(4)] by (simp add: wanted_def)
  have "plan_closed (features_by_name v) (below v (set (p_compute_features p)))"
    using plan_features_request_ok[OF assms(4)] unfolding W
    by (intro below_plan_closed[OF valid]) (auto simp: request_ok_def)
  moreover have "set (p_compute_features p) \<subseteq> below v (set (p_compute_features p))" using below_self by blast
  ultimately show ?thesis using compute_total[OF rank _ assms(5,2)] by blast
qed

theorem planned_request_runs_witness:
  "\<exists>p results cx. plan_features sample_view [] [''g''] False = Inr p
    \<and> compute sample_env sample_registry ''v'' 1 sample_key (p_compute_features p) empty_context = Inr (results, cx)"
proof -
  have v: "engine_find_view (reg_views sample_registry) ''v'' 1 = Inr sample_view" by code_simp
  have c: "0 \<le> graph_cap sample_view" by code_simp
  have "(case plan_features sample_view [] [''g''] False of
      Inr p \<Rightarrow> p_compute_features p = [''a'', ''b''] | Inl e \<Rightarrow> False)" by code_simp
  then obtain p where p: "plan_features sample_view [] [''g''] False = Inr p" "p_compute_features p = [''a'', ''b'']"
    by (auto split: sum.splits)
  have "env_total sample_env (features_by_name sample_view) (below sample_view (set (p_compute_features p)))"
    by (rule sample_env_total)
  from planned_request_runs[OF sample_registry_valid v c p(1) this] p(1) show ?thesis by blast
qed

section \<open>Registry and planner\<close>

text \<open>
  C9: The registry validator accepts exactly the registries that satisfy its rules: unique names,
  views that name a known entity and its key fields, inputs from known sources, dependencies on
  known features of an allowed lifecycle at the pinned version, no dependency chain longer than
  the cap (hence no cycle), and groups of known features.
\<close>

theorem validator_accepts_exactly_rules:
  assumes "\<forall>v \<in> set (reg_views r). 0 \<le> graph_cap v"
  shows "validate_registry r = Inr () \<longleftrightarrow> registry_rules r"
  by (rule validate_registry_iff[OF assms])

theorem validator_accepts_exactly_rules_witness: "registry_rules sample_registry"
proof -
  have "\<forall>v \<in> set (reg_views sample_registry). 0 \<le> graph_cap v" by code_simp
  from validator_accepts_exactly_rules[OF this] sample_registry_valid show ?thesis by simp
qed

text \<open>
  C10: In an accepted registry a live feature depends, through any chain of dependencies, only on
  live features.
\<close>

theorem live_depends_on_live:
  assumes "validate_registry r = Inr ()" "v \<in> set (reg_views r)" "0 \<le> graph_cap v"
    "(dep_edge (features_by_name v))\<^sup>*\<^sup>* n m"
    "map_of (features_by_name v) n = Some f" "f_lifecycle f = Live"
  shows "\<exists>g. map_of (features_by_name v) m = Some g \<and> f_lifecycle g = Live"
  by (rule live_below[OF validate_registry_view[OF assms(1-3)] assms(4-6)])

theorem live_depends_on_live_witness:
  "\<exists>g. map_of (features_by_name sample_view) ''a'' = Some g \<and> f_lifecycle g = Live"
proof -
  have v: "sample_view \<in> set (reg_views sample_registry)" by (simp add: sample_registry_def)
  have c: "0 \<le> graph_cap sample_view" by code_simp
  have "(case map_of (features_by_name sample_view) ''b'' of
      Some f \<Rightarrow> f_lifecycle f = Live \<and> ''a'' \<in> set (dep_names f) | None \<Rightarrow> False)" by code_simp
  then obtain f where f: "map_of (features_by_name sample_view) ''b'' = Some f" "f_lifecycle f = Live"
    "''a'' \<in> set (dep_names f)" by (auto split: option.splits)
  then have "dep_edge (features_by_name sample_view) ''b'' ''a''" by (auto simp: dep_edge_def dep_names_def)
  then have "(dep_edge (features_by_name sample_view))\<^sup>*\<^sup>* ''b'' ''a''" by blast
  from live_depends_on_live[OF sample_registry_valid v c this f(1,2)] show ?thesis .
qed

text \<open>
  C11: On a view of an accepted registry the planner succeeds exactly when the request names at
  least one feature, every named group is known, every named feature is known, of a computable
  kind and live (or shadow where allowed), and nothing below them is a batch-only model feature.
\<close>

theorem planner_accepts_exactly:
  assumes "view_valid v"
  shows "(\<exists>p. plan_features v req groups shadow = Inr p) \<longleftrightarrow> request_ok v req groups shadow"
  using plan_features_complete[OF assms] plan_features_request_ok by blast

theorem planner_accepts_exactly_witness:
  "request_ok sample_view [] [''g''] False \<and> \<not> request_ok sample_view [''c''] [] False"
proof -
  have "\<not> isl (plan_features sample_view [] [''g''] False)" "isl (plan_features sample_view [''c''] [] False)"
    by code_simp+
  with planner_accepts_exactly[OF sample_view_valid] show ?thesis by (metis isl_def obj_sumE sum.distinct(1))
qed

text \<open>
  C12: A plan computes each requested feature and each member of a requested group once and nothing
  else, every output is computable, and the dependencies below the outputs are all known and
  free of cycles.
\<close>

theorem plan_is_complete_and_acyclic:
  assumes "plan_features v req groups shadow = Inr p"
  shows "distinct (p_compute_features p) \<and> set (p_compute_features p) = wanted v req groups
    \<and> (\<forall>n \<in> set (p_compute_features p). \<exists>f. map_of (features_by_name v) n = Some f \<and> computable shadow f)
    \<and> (\<forall>m \<in> below v (wanted v req groups). map_of (features_by_name v) m \<noteq> None
         \<and> \<not> (dep_edge (features_by_name v))\<^sup>+\<^sup>+ m m)"
proof -
  have W: "set (p_compute_features p) = wanted v req groups" "planned (features_by_name v) shadow (p_compute_features p)"
    using plan_outputs[OF assms] by (auto simp: wanted_def)
  from plan_topological[OF assms] obtain d where d: "topological (features_by_name v) d"
    "wanted v req groups \<subseteq> set d" using W by blast
  have "m \<in> set d" if "m \<in> below v (wanted v req groups)" for m
    using that topological_closed[OF _ d(1)] d(2) by (auto simp: below_def)
  with d(1) topological_known topological_acyclic have
    "\<forall>m \<in> below v (wanted v req groups). map_of (features_by_name v) m \<noteq> None
       \<and> \<not> (dep_edge (features_by_name v))\<^sup>+\<^sup>+ m m" by blast
  with W show ?thesis by (simp add: planned_def)
qed

theorem plan_is_complete_and_acyclic_witness:
  "\<not> (dep_edge (features_by_name sample_view))\<^sup>+\<^sup>+ ''b'' ''b''"
proof -
  have "\<not> isl (plan_features sample_view [''b''] [] False)" by code_simp
  then obtain p where "plan_features sample_view [''b''] [] False = Inr p" by (metis isl_def obj_sumE)
  from plan_is_complete_and_acyclic[OF this] show ?thesis by (auto simp: below_def wanted_def)
qed

section \<open>Workflows\<close>

text \<open>
  C13: Computing twice adds nothing. After a FeatureStore call over the in-memory stores with
  duplicate skipping, an identical call succeeds, returns the same results, reports every one of
  them as an exact duplicate, and leaves both stores as they were (values must equal themselves,
  which rules out NaN).
\<close>

theorem compute_rerun_adds_nothing:
  assumes "mem_hist_ok off" "ek_valid (fq_entity_key q)"
    "fs_compute mem_ops repr F q online True (off, on) = (Inr out, off1, on1)"
    "\<forall>n r. map_of (cp_results out) n = Some r \<longrightarrow> self_equal (r_value r)"
  shows "\<exists>out2. fs_compute mem_ops repr F q online True (off1, on1) = (Inr out2, off1, on1)
    \<and> cp_results out2 = cp_results out \<and> cp_skipped out2 = length (cp_results out)
    \<and> cp_online out2 = []"
  using fs_compute_rerun[OF assms(1-3)] assms(4) by blast

theorem compute_rerun_adds_nothing_witness:
  "\<exists>out off1 on1 out2. fs_compute mem_ops (\<lambda>_. ''0.0'') sample_fs sample_request True True ([], Map.empty)
      = (Inr out, off1, on1)
    \<and> fs_compute mem_ops (\<lambda>_. ''0.0'') sample_fs sample_request True True (off1, on1) = (Inr out2, off1, on1)
    \<and> cp_skipped out2 = 2"
proof -
  have "(case fs_compute mem_ops (\<lambda>_. ''0.0'') sample_fs sample_request True True ([], Map.empty) of
      (Inr out, st) \<Rightarrow> length (cp_results out) = 2
         \<and> (\<forall>(n, r) \<in> set (cp_results out). self_equal (r_value r)) | _ \<Rightarrow> False)" by code_simp
  then obtain out off1 on1 where
    run: "fs_compute mem_ops (\<lambda>_. ''0.0'') sample_fs sample_request True True ([], Map.empty) = (Inr out, off1, on1)"
    and out: "length (cp_results out) = 2" "\<forall>(n, r) \<in> set (cp_results out). self_equal (r_value r)"
    by (auto split: sum.splits prod.splits)
  have self: "\<forall>n r. map_of (cp_results out) n = Some r \<longrightarrow> self_equal (r_value r)"
    using out(2) by (auto dest: map_of_SomeD)
  have key: "ek_valid (fq_entity_key sample_request)"
    using sample_results_ok(3) by (simp add: sample_request_def)
  have "mem_hist_ok []" by (simp add: mem_hist_ok_def)
  from compute_rerun_adds_nothing[OF this key run self] run out(1) show ?thesis by auto
qed

text \<open>
  C14: A dependent recomputed from offline history reads no future: its data timestamp and its
  newest-input timestamp are at or before the recomputation time minus the safety gap.
\<close>

theorem recomputed_dependent_within_cutoff:
  assumes "mem_hist_ok off" "ek_valid ek" "pit_args_ok calc_ts gap"
    "compute_dependent_from_offline mem_ops F off view version ek name calc_ts gap = Inr (Some r)"
    "\<forall>v f. find_view_in (reg_views (fe_registry F)) view version = Some v \<longrightarrow>
       map_of (features_by_name v) name = Some f \<longrightarrow> name \<notin> set (dep_names f)"
  shows "instant (r_data_ts r) \<le> instant calc_ts - gap
    \<and> (\<exists>m. r_max_input_data_ts r = Some m \<and> instant m \<le> instant calc_ts - gap)
    \<and> r_calc_ts r = calc_ts \<and> r_entity_key r = ek"
  using dependent_within_cutoff[OF assms(1-4)] assms(5) by blast

theorem recomputed_dependent_within_cutoff_witness:
  "\<exists>r. compute_dependent_from_offline mem_ops sample_fs sample_history ''v'' 1 sample_key ''b'' day2 0 = Inr (Some r)
    \<and> instant (r_data_ts r) \<le> instant day2"
proof -
  have "(case compute_dependent_from_offline mem_ops sample_fs sample_history ''v'' 1 sample_key ''b'' day2 0 of
      Inr x \<Rightarrow> x \<noteq> None | Inl e \<Rightarrow> False)" by code_simp
  then obtain r where
    r: "compute_dependent_from_offline mem_ops sample_fs sample_history ''v'' 1 sample_key ''b'' day2 0 = Inr (Some r)"
    by (auto split: sum.splits)
  have h: "mem_hist_ok sample_history"
    using sample_results_ok by (auto simp: mem_hist_ok_def sample_history_def offline_rec_def)
  have a: "pit_args_ok day2 0" by code_simp
  have "case map_of (features_by_name sample_view) ''b'' of Some f \<Rightarrow> ''b'' \<notin> set (dep_names f) | None \<Rightarrow> True"
    by code_simp
  then have "\<forall>v f. find_view_in (reg_views (fe_registry sample_fs)) ''v'' 1 = Some v \<longrightarrow>
       map_of (features_by_name v) ''b'' = Some f \<longrightarrow> ''b'' \<notin> set (dep_names f)"
    by (auto simp: sample_fs_def sample_registry_def split: if_splits)
  from recomputed_dependent_within_cutoff[OF h sample_results_ok(3) a r this] r show ?thesis by auto
qed

text \<open>
  Duplicate skipping makes a batch replay safe on Postgres: partition a batch, append the new
  results, and partition the same batch again: nothing is new and every result is counted as
  skipped. Results that share a signature must share their value, and values must equal
  themselves.
\<close>

theorem postgres_batch_replay_skips_all:
  assumes "pg_inv P t" "\<forall>r \<in> set results. pg_adm P t view version r \<and> self_equal (r_value r)"
    "\<forall>r \<in> set results. \<forall>r' \<in> set results. \<forall>a b. signature repr r = Inr a \<longrightarrow> signature repr r' = Inr b
       \<longrightarrow> sig_eq a b \<longrightarrow> r_value r = r_value r'"
    "partition_new_results repr (pg_get P t) view version results = Inr (new, skipped)"
  shows "\<exists>t'. pg_append_many P t view version new = Inr t'
    \<and> partition_new_results repr (pg_get P t') view version results = Inr ([], length results)"
proof -
  have sv: "r_value r = r_value r'" if "r \<in> set results" "r' \<in> set results" "signature repr r = Inr a"
    "signature repr r' = Inr b" "sig_eq a b" for r r' a b
    using assms(3) that by blast
  have "\<forall>r \<in> set new. pg_adm P t view version r"
    using partition_new_resultsE(1)[OF assms(4)] assms(2) by blast
  note all = pg_append_many_all[OF this]
  have "\<exists>s'. pgoff.append_all P t view version new = Inr s' \<and> pg_inv P s'
      \<and> partition_new_results repr (pg_get P s') view version results = Inr ([], length results)"
    by (rule pgoff.partition_rerun[OF assms(1,2) _ assms(4)]) (rule sv, assumption+)
  then show ?thesis unfolding all by blast
qed

theorem postgres_batch_replay_skips_all_witness:
  "\<exists>new skipped t'. partition_new_results (\<lambda>_. ''0.0'') (pg_get sample_pg sample_table) ''v'' 1 [early]
      = Inr (new, skipped)
    \<and> pg_append_many sample_pg sample_table ''v'' 1 new = Inr t'
    \<and> partition_new_results (\<lambda>_. ''0.0'') (pg_get sample_pg t') ''v'' 1 [early] = Inr ([], 1)"
proof -
  have "\<not> isl (partition_new_results (\<lambda>_. ''0.0'') (pg_get sample_pg sample_table) ''v'' 1 [early])" by code_simp
  then obtain new skipped where
    run: "partition_new_results (\<lambda>_. ''0.0'') (pg_get sample_pg sample_table) ''v'' 1 [early] = Inr (new, skipped)"
    by (metis isl_def obj_sumE surj_pair)
  have "self_equal (r_value early)" by (simp add: early_def sample_result_def)
  then have "\<forall>r \<in> set [early]. pg_adm sample_pg sample_table ''v'' 1 r \<and> self_equal (r_value r)"
    using sample_adm by simp
  from postgres_batch_replay_skips_all[OF sample_table_ok(1) this _ run] run show ?thesis by auto
qed

text \<open>
  The partition of a batch loses nothing and keeps nothing known: the kept results come from
  the batch and were not in the store, kept and skipped add up to the batch, and a result is
  skipped only when it is in the store or has the signature of a kept one.
\<close>

theorem partition_keeps_exactly_new:
  assumes "partition_new_results repr get view version results = Inr (new, skipped)"
  shows "set new \<subseteq> set results \<and> length new + skipped = length results
    \<and> (\<forall>k \<in> set new. exists_in_offline get view version k = Inr False)
    \<and> (\<forall>r \<in> set results. r \<in> set new \<or> exists_in_offline get view version r = Inr True
         \<or> (\<exists>k \<in> set new. \<exists>a b. signature repr k = Inr a \<and> signature repr r = Inr b \<and> sig_eq a b))"
  using partition_new_resultsE[OF assms] unfolding covered_by_iff by blast

theorem partition_keeps_exactly_new_witness:
  "\<exists>new skipped. partition_new_results (\<lambda>_. ''0.0'') (mem_offline_get [offline_rec ''v'' 1 early]) ''v'' 1 [early, late, late]
     = Inr (new, skipped) \<and> length new + skipped = 3 \<and> set new \<subseteq> {early, late}"
proof -
  have "\<not> isl (partition_new_results (\<lambda>_. ''0.0'') (mem_offline_get [offline_rec ''v'' 1 early]) ''v'' 1 [early, late, late])"
    by code_simp
  then obtain new skipped where
    run: "partition_new_results (\<lambda>_. ''0.0'') (mem_offline_get [offline_rec ''v'' 1 early]) ''v'' 1 [early, late, late]
      = Inr (new, skipped)"
    by (metis isl_def obj_sumE surj_pair)
  from partition_keeps_exactly_new[OF run] run show ?thesis by auto
qed



section \<open>Registry documents and bundles\<close>



text \<open>
  C17: The canonical content of a bundle identifies the registry up to order: two registries have
  the same content exactly when they declare the same definitions, dependencies compared by the
  versions they pin, and registries that only differ in order have the same bundle digest. (Views
  where a feature lists one dependency twice are excluded.)
\<close>

theorem bundle_digest_identifies:
  assumes "bundle_ready r" "bundle_ready s"
  shows "\<exists>c d. canonical_registry_content r = Inr c \<and> canonical_registry_content s = Inr d
    \<and> (sort_keys c = sort_keys d \<longleftrightarrow> same_definitions r s)
    \<and> (same_definitions r s \<longrightarrow> compute_bundle_digest H r = compute_bundle_digest H s)"
  using registry_doc_iff[OF assms] canonical_registry_known assms digest_order_independent[OF assms] by blast

theorem bundle_digest_identifies_witness:
  "compute_bundle_digest sample_hasher sample_registry = compute_bundle_digest sample_hasher reversed_registry
   \<and> sample_registry \<noteq> reversed_registry"
proof -
  have "sort_keys (registry_doc sample_registry) = sort_keys (registry_doc reversed_registry)"
    "sample_registry \<noteq> reversed_registry" by code_simp+
  with bundle_digest_identifies[OF sample_bundles_ready, of sample_hasher]
    canonical_registry_known[OF sample_bundles_ready(1)] canonical_registry_known[OF sample_bundles_ready(2)]
  show ?thesis by auto
qed

text \<open>
  C18: Published bundles are immutable. Whatever sequence of bundles is published into the file
  store, refused publications included, the first bundle published under a digest is what is read
  under it; publishing one with the same definitional key again changes nothing, and one with
  another key is refused.
\<close>

theorem published_bundle_stays:
  assumes "\<forall>b \<in> set bs. bu_wf b \<and> sha_digest (bu_digest b)" "bu_wf c" "sha_digest (bu_digest c)"
    and "s = fold (\<lambda>b s. case bfile_put repr s b of Inr s' \<Rightarrow> s' | Inl _ \<Rightarrow> s) bs []"
  shows "bfile_get s (bu_digest c) = Inr (map_option bu_normal (find (\<lambda>b. bu_digest b = bu_digest c) bs))
    \<and> (\<forall>e. bfile_get s (bu_digest c) = Inr (Some e) \<longrightarrow>
         bfile_put repr s c = (if definitional_key e = definitional_key c then Inr s
           else Inl (ValueError ''registry bundles are immutable'')))"
proof -
  have s: "s = fold (bfile.publish_bundle repr) bs []"
    unfolding assms(4) by (rule arg_cong[where f = "\<lambda>f. fold f bs []"]) (simp add: fun_eq_iff bfile.publish_bundle_def)
  have "bfile_inv []" "bfile_get [] (bu_digest c) = Inr None" by (simp_all add: bfile_inv_def bfile_get_def)
  with bfile.first_published_stays[of "[]" bs c repr] assms(1-3) s
    bfile.put_again[of s c _ repr] show ?thesis by auto
qed

theorem published_bundle_stays_witness:
  "\<exists>s. bfile_put (\<lambda>_. ''0'') [] (sample_bundle ''1'' [''a'']) = Inr s
    \<and> bfile_put (\<lambda>_. ''0'') s (sample_bundle ''2'' [''b'']) = Inl (ValueError ''registry bundles are immutable'')
    \<and> bfile_get s ''sha256:ab'' = Inr (Some (sample_bundle ''1'' [''a'']))"
proof -
  let ?a = "sample_bundle ''1'' [''a'']" and ?b = "sample_bundle ''2'' [''b'']"
  obtain s where s: "bfile_put (\<lambda>_. ''0'') [] ?a = Inr s"
    by (simp add: bfile_put_def bfile_get_def bu_plain)
  from published_bundle_stays[of "[?a]" ?b s "\<lambda>_. ''0''"] sample_bundle_ok s
  have "bfile_get s ''sha256:ab'' = Inr (Some ?a)"
    "bfile_put (\<lambda>_. ''0'') s ?b = Inl (ValueError ''registry bundles are immutable'')"
    by (simp_all add: sample_bundle_def bu_normal_def definitional_key_def)
  with s show ?thesis by blast
qed

section \<open>Workers\<close>



text \<open>
  C20: The offline writer commits after the append, on the Postgres store: for an admissible write
  the turn commits exactly when its status is ok, and whether it commits or not every result of
  the write set is stored after it, so that a redelivery appends nothing; a committed turn has
  published one update per result that feeds a dependent feature, in order.
\<close>

theorem offline_commit_is_durable:
  assumes "pg_inv P (w_offline w)" "rt_stores R = prod_ops P" "\<not> w_committed w"
    and "msg_error m = None" "msg_doc m = Some d" "ow_from_dict d = Inr ev"
    and "ws = ow_write_set ev" "rs = dict_values (ws_results ws)"
    and "\<forall>r \<in> set rs. pg_adm P (w_offline w) (ws_view ws) (ws_view_version ws) r \<and> self_equal (r_value r)"
    and "distinct (map r_ref rs)"
    and "offline_process_next R clock uuid (Some m) w = (pr, w')"
  shows "(w_committed w' \<longleftrightarrow> pr_status pr = ''ok'')
    \<and> (\<forall>r \<in> set rs. exists_in_offline (pg_get P (w_offline w')) (ws_view ws) (ws_view_version ws) r = Inr True)
    \<and> append_new (prod_ops P) (rt_repr R) (w_offline w') (ws_view ws) (ws_view_version ws) rs
        = Inr ([], length rs, w_offline w')
    \<and> (\<exists>ms. br_log (w_broker w') = br_log (w_broker w) @ ms \<and>
         (w_committed w' \<longrightarrow> (\<forall>v. find_view_in (reg_views (fe_registry (rt_env R))) (ws_view ws) (ws_view_version ws)
               = Some v \<longrightarrow>
           list_all2 (update_sent v (offline_emission v ws (clock 1))) (filter (emits v) rs) ms)))"
proof -
  have "pgops.storable P (w_offline w) (ws_view ws) (ws_view_version ws) rs"
    using assms(9,10) by (simp add: pgops.storable_def)
  from pgops.offline_turn[OF assms(1-6) this[unfolded assms(7,8)] assms(11)] show ?thesis
    unfolding assms(7,8) by blast
qed

theorem offline_commit_is_durable_witness:
  "\<exists>w' d. ow_to_dict sample_offline_write = Inr d
    \<and> offline_process_next sample_pg_runtime (\<lambda>_. day2) (\<lambda>_. ''u'') (Some (carrying (sort_keys d))) sample_pg_world
      = (committed_pr ''ok'', w')
    \<and> w_committed w' \<and> exists_in_offline (pg_get sample_pg (w_offline w')) ''v'' 1 early = Inr True"
proof -
  obtain d where d: "ow_to_dict sample_offline_write = Inr d" "ow_from_dict (sort_keys d) = Inr sample_offline_write"
    using sample_offline_write_delivered by blast
  obtain w' where t: "offline_process_next sample_pg_runtime (\<lambda>_. day2) (\<lambda>_. ''u'') (Some (carrying (sort_keys d)))
      sample_pg_world = (committed_pr ''ok'', w')"
    using sample_offline_turn[OF d(2)] by blast
  have "pg_inv sample_pg (w_offline sample_pg_world)" by (simp add: sample_pg_world_def pg_inv_def)
  from offline_commit_is_durable[OF this _ _ _ _ d(2) refl refl _ _ t] d(1) t sample_adm(1) early_wf(2)
  show ?thesis
    by (auto simp: sample_pg_runtime_def sample_pg_world_def carrying_def sample_offline_write_def sample_ws_def
        dict_values_def committed_pr_def)
qed

text \<open>
  The model score writer commits a message only when it is in the dead letters with its payload
  and the online store unchanged, or when its scores were accepted: every result is a supplied
  score of a model_score feature under the version the registry declares, every scored feature
  has one, and they were written online and handed over for the offline store as the event asks.
\<close>

theorem score_write_accounted:
  assumes "score_process_next R clock (Some m) w = (pr, w')" "\<not> w_committed w"
  shows "\<exists>ms. grows w w' ms \<and> (w_committed w' \<longleftrightarrow> pr_committed pr)
    \<and> (w_committed w' \<longrightarrow>
        pr_status pr = ''dead_lettered'' \<and> dead_lettered m ms \<and> w_online w' = w_online w
        \<or> pr_status pr = ''ok'' \<and> (\<exists>d ev ws. msg_doc m = Some d \<and> ms_from_dict d = Inr ev
            \<and> scores_taken (fe_registry (rt_env R)) ev ws \<and> score_written R ev ws ms w w'))"
  by (rule score_turn_accounts[OF assms, unfolded scores_taken_iff])

theorem score_write_accounted_witness:
  "\<exists>d w'. ms_to_dict sample_scores = Inr d
    \<and> score_process_next score_runtime (\<lambda>_. day2) (Some (carrying (sort_keys d))) sample_world
      = (committed_pr ''ok'', w')
    \<and> (\<exists>ws r. ws_results ws = [(''m'', r)] \<and> score_written score_runtime sample_scores ws [] sample_world w')"
proof -
  from ms.written[OF sample_scores_wf(1)] sample_scores_wf(2) obtain d where
    d: "ms_to_dict sample_scores = Inr d" "ms_from_dict (sort_keys d) = Inr sample_scores" by auto
  from sample_scores_handled obtain r w1 where
    "handle_model_score_write score_runtime day2 sample_scores sample_world = (Inr r, w1)" "sw_status r = ''ok''" by blast
  with d(2) have t: "score_process_next score_runtime (\<lambda>_. day2) (Some (carrying (sort_keys d))) sample_world
      = (committed_pr ''ok'', commit w1)"
    by (simp add: score_process_next_def carrying_def)
  have "\<not> w_committed sample_world" by (simp add: sample_world_def)
  from score_write_accounted[OF t this] obtain ms d' ev ws where w: "msg_doc (carrying (sort_keys d)) = Some d'"
    "ms_from_dict d' = Inr ev" "scores_taken (fe_registry (rt_env score_runtime)) ev ws"
    "score_written score_runtime ev ws ms sample_world (commit w1)"
    by (auto simp: committed_pr_def)
  then have ev: "ev = sample_scores" using d(2) by (simp add: carrying_def)
  have s: "ms_scores sample_scores = [hd (ms_scores sample_scores)]" "si_feature (hd (ms_scores sample_scores)) = ''m''"
    "\<not> ms_write_offline sample_scores"
    by (simp_all add: sample_scores_def)
  have "ms = []" using w(4) s(3) unfolding ev score_written_def by simp
  moreover have "\<exists>r. ws_results ws = [(''m'', r)]"
  proof (rule dict_single)
    show "dict_wf (ws_results ws)" using w(3) by (simp add: scores_taken_def)
    have "set (dict_keys (ws_results ws)) = set (map si_feature (ms_scores sample_scores))"
      using w(3) unfolding ev scores_taken_def by blast
    also have "\<dots> = {''m''}" by (simp add: sample_scores_def)
    finally show "set (dict_keys (ws_results ws)) = {''m''}" .
  qed
  ultimately show ?thesis using w(4) d(1) t unfolding ev by blast
qed

text \<open>
  A recompute wave accounts for every planned unit: computed, skipped and failed add up to the
  debounced entries, and the status is completed exactly when nothing failed. Whether or not the
  wave raises, the debounce store is drained and the online store, the results and the request
  statuses are untouched.
\<close>

theorem wave_accounts_for_every_unit:
  "(case fst (execute_wave R W store w) of
      Inr v \<Rightarrow> rw_planned v = length store \<and> rw_computed v + rw_skipped v + rw_failed v = rw_planned v
        \<and> rw_entity_count v \<le> rw_planned v \<and> (rw_status v = ''completed'') = (rw_failed v = 0)
    | Inl _ \<Rightarrow> True)
   \<and> fst (snd (execute_wave R W store w)) = []
   \<and> w_online (snd (snd (execute_wave R W store w))) = w_online w
   \<and> w_results (snd (snd (execute_wave R W store w))) = w_results w
   \<and> w_status (snd (snd (execute_wave R W store w))) = w_status w"
proof -
  obtain r st w' where e: "execute_wave R W store w = (r, st, w')" by (cases "execute_wave R W store w")
  from execute_wave_frame[of R W store w] e execute_wave_accounts[of R W store w] show ?thesis
    by (cases r) auto
qed

text \<open>
  C21: A recompute wave never sees the future. On a valid registry it only appends to the history,
  and every record it appends carries the calculation time of the wave and rests on inputs no
  newer than that time minus the safety gap.
\<close>

theorem wave_point_in_time:
  assumes "rt_stores R = mem_ops" "mem_hist_ok (w_offline w)"
    and "aware (we_calc_ts W)" "0 \<le> we_gap W" "wall_min \<le> wall_us (we_calc_ts W) - we_gap W"
    and "validate_registry (fe_registry (rt_env R)) = Inr ()"
    and "\<forall>v \<in> set (reg_views (fe_registry (rt_env R))). 0 \<le> graph_cap v"
  shows "\<exists>recs. w_offline (snd (snd (execute_wave R W store w))) = w_offline w @ recs
    \<and> (\<forall>rec \<in> set recs. r_calc_ts (or_result rec) = we_calc_ts W
         \<and> instant (r_data_ts (or_result rec)) \<le> instant (we_calc_ts W) - we_gap W
         \<and> (\<exists>m. r_max_input_data_ts (or_result rec) = Some m
              \<and> instant m \<le> instant (we_calc_ts W) - we_gap W))"
proof -
  have "pit_args_ok (we_calc_ts W) (we_gap W)" using assms(3-5) by (simp add: pit_args_ok_def)
  from execute_wave_safe[OF assms(1,2) this valid_registry_self_free[OF assms(6,7)]]
  show ?thesis unfolding wave_safe_def within_wave_def by blast
qed

theorem wave_point_in_time_witness:
  "\<exists>rec. w_offline (snd (snd (execute_wave sample_runtime sample_wave (sample_store ''u1'') sample_world)))
      = sample_history @ [rec]
    \<and> instant (r_data_ts (or_result rec)) \<le> instant day2 \<and> r_calc_ts (or_result rec) = day2"
proof -
  have r: "rt_stores sample_runtime = mem_ops" "mem_hist_ok (w_offline sample_world)"
    "fe_registry (rt_env sample_runtime) = sample_registry" "w_offline sample_world = sample_history"
    using sample_results_ok
    by (simp_all add: sample_runtime_def sample_world_def sample_fs_def mem_hist_ok_def sample_history_def offline_rec_def)
  have w: "we_calc_ts sample_wave = day2" "we_gap sample_wave = 0" by (simp_all add: sample_wave_def)
  have "wall_min \<le> wall_us day2 - 0" by code_simp
  with wave_point_in_time[of sample_runtime sample_world sample_wave "(sample_store ''u1'')"] r w
    sample_registry_valid sample_registry_graph obtain recs where
    recs: "w_offline (snd (snd (execute_wave sample_runtime sample_wave (sample_store ''u1'') sample_world))) = sample_history @ recs"
    "\<forall>rec \<in> set recs. r_calc_ts (or_result rec) = day2 \<and> instant (r_data_ts (or_result rec)) \<le> instant day2"
    by auto
  have "length (w_offline (snd (snd (execute_wave sample_runtime sample_wave (sample_store ''u1'') sample_world)))) = 3"
    by code_simp
  with recs(1) have "length recs = 1" by (simp add: sample_history_def)
  then obtain rec where "recs = [rec]" by (auto simp: length_Suc_conv)
  with recs show ?thesis by simp
qed



text \<open>
  C23: On a valid registry a cascade of reactive updates is at most as long as the dependency depth
  the view declares: an update that triggers a recompute which triggers another ends.
\<close>

theorem reactive_cascade_bounded:
  assumes "validate_registry R = Inr ()" "\<forall>v \<in> set (reg_views R). 0 \<le> graph_cap v"
    and "find_view_in (reg_views R) (fu_view ev) (fu_view_version ev) = Some v"
    and "cascade R ev k ev'"
  shows "int k \<le> graph_cap v"
  by (rule cascade_bounded[OF assms])

theorem reactive_cascade_bounded_witness:
  "\<exists>ev'. cascade sample_registry (sample_update ''u1'') 1 ev' \<and> 1 \<le> graph_cap sample_view"
proof -
  let ?ev = "(sample_update ''u2'')\<lparr>fu_feature_name := ''b''\<rparr>"
  have c: "cascade sample_registry (sample_update ''u1'') (Suc 0) ?ev"
    by (rule cascade.wave[OF cascade.start sample_candidates, where c = sample_candidate])
      (simp_all add: announces_def sample_candidate_def sample_update_def)
  have v: "find_view_in (reg_views sample_registry) (fu_view (sample_update ''u1''))
      (fu_view_version (sample_update ''u1'')) = Some sample_view"
    by (simp add: sample_registry_def sample_update_def) (simp add: sample_view_def Let_def)
  from reactive_cascade_bounded[OF sample_registry_valid sample_registry_graph v c] c show ?thesis by auto
qed

text \<open>
  Debouncing merges every update of one dependent feature of one entity into one entry with the
  first and last observation times, the count and the triggering update identifiers, whatever
  else is observed in between.
\<close>

theorem debounce_coalesces:
  assumes "\<forall>(c, ev, now) \<in> set os. aware (fu_data_ts ev) \<and> (\<exists>k. debounce_key c = Inr k)"
  shows "\<exists>store. observe_all os [] = Inr store \<and> dict_wf store
    \<and> (\<forall>k. map_of store k = coalesced (of_key k os))"
  by (rule observe_all_coalesced) (use assms in auto)

theorem debounce_coalesces_witness:
  "\<exists>store. observe_all [(sample_candidate, sample_update ''u1'', day2), (sample_candidate, sample_update ''u2'', day3)] []
      = Inr store
    \<and> map_option (\<lambda>e. (de_count e, de_trigger_update_ids e, de_first_seen_at e, de_updated_at e))
        (map_of store sample_debounce_key) = Some (2, [''u1'', ''u2''], day2, day3)"
proof -
  let ?os = "[(sample_candidate, sample_update ''u1'', day2), (sample_candidate, sample_update ''u2'', day3)]"
  have "\<forall>(c, ev, now) \<in> set ?os. aware (fu_data_ts ev) \<and> (\<exists>k. debounce_key c = Inr k)"
    using exI[of "\<lambda>k. debounce_key sample_candidate = Inr k", OF sample_candidate_key]
    by (simp add: sample_update_def)
  from debounce_coalesces[OF this] obtain store where st: "observe_all ?os [] = Inr store"
    "map_of store sample_debounce_key = coalesced (of_key sample_debounce_key ?os)" by blast
  have "of_key sample_debounce_key ?os = ?os" by (simp add: of_key_def sample_candidate_key)
  moreover have "map_option (\<lambda>e. (de_count e, de_trigger_update_ids e, de_first_seen_at e, de_updated_at e))
      (coalesced ?os) = Some (2, [''u1'', ''u2''], day2, day3)" by code_simp
  ultimately show ?thesis using st by auto
qed




text \<open>
  C26: The batch worker commits a chunk after its work, on the Postgres store: a committed reference
  chunk ran the plan of its request, every value an item computed can be read back from the
  history, the completion of the chunk was published, and its counts are those of the items that
  computed and failed, which together are all its items.
\<close>

theorem chunk_commit_is_durable:
  assumes "pg_inv P (w_offline (bw_core W))" "rt_stores (bt_core B) = prod_ops P"
    and "msg_doc m = Some d" "bc_from_dict d = Inr ev" "is_ref_chunk ev"
    and "\<forall>v features. chunk_plan B ev v features \<longrightarrow>
        (let rs = concat (map (item_results B (bw_raw W) v features (be_clock I 2)) (bc_items ev)) in
          (\<forall>r \<in> set rs. pg_adm P (w_offline (bw_core W)) (v_name v) (v_version v) r \<and> self_equal (r_value r))
          \<and> tokens_decide (rt_repr (bt_core B)) rs)"
    and "batch_process_next B I (Some m) W = (pr, W')" "pr_status pr = ''ok''"
  shows "pg_inv P (w_offline (bw_core W')) \<and> (\<exists>v features k. chunk_plan B ev v features
    \<and> (\<forall>item \<in> set (bc_items ev). \<forall>r \<in> set (item_results B (bw_raw W) v features (be_clock I 2) item).
         exists_in_offline (pg_get P (w_offline (bw_core W'))) (v_name v) (v_version v) r = Inr True)
    \<and> chunk_announced ev (be_clock I 4) k (bw_core W) (bw_core W')
    \<and> ko_ok k = length (filter (item_computes B (bw_raw W) v features (be_clock I 2)) (bc_items ev))
    \<and> ko_ok k + ko_failed k = length (bc_items ev))"
proof -
  have "pg_inv P (w_offline (bw_core W')) \<and> (\<exists>v features k. chunk_plan B ev v features
    \<and> (\<forall>item \<in> set (bc_items ev). \<forall>r \<in> set (item_results B (bw_raw W) v features (be_clock I 2) item).
         exists_in_offline (pg_get P (w_offline (bw_core W'))) (v_name v) (v_version v) r = Inr True)
    \<and> chunk_announced ev (be_clock I 4) k (bw_core W) (bw_core W')
    \<and> ko_ok k = length (filter (item_computes B (bw_raw W) v features (be_clock I 2)) (bc_items ev))
    \<and> ko_ok k + ko_failed k = length (bc_items ev) \<and> length (ko_errors k) \<le> max_first_errors
    \<and> (\<not> bc_write_online ev \<or> ct_refresh_limiter (bw_controls W) = Disabled \<longrightarrow>
         w_online (bw_core W') = w_online (bw_core W)))"
    by (rule pgops.batch_turn_stored[OF assms(1-5) _ assms(7,8)]) (use assms(6) in \<open>simp add: Let_def\<close>)
  then show ?thesis by blast
qed

theorem chunk_commit_is_durable_witness:
  "\<exists>m W'. batch_process_next sample_batch sample_inputs (Some m) sample_batch_world = (committed_pr ''ok'', W')
    \<and> exists_in_offline (pg_get sample_pg (w_offline (bw_core W'))) ''v'' 1 sample_computed = Inr True"
proof -
  obtain d where d: "bc_from_dict d = Inr sample_ref_chunk" using sample_ref_chunk_read by blast
  obtain r W1 where h: "handle_batch_chunk sample_batch sample_inputs sample_ref_chunk sample_batch_world = (Inr r, W1)"
    "bx_status r = ''ok''" using sample_ref_chunk_handled by blast
  have c: "bw_controls sample_batch_world = noop_controls" "bw_raw sample_batch_world = ()"
    "be_clock sample_inputs = (\<lambda>_. day2)" "bc_items sample_ref_chunk = [sample_item]"
    "v_name sample_view = ''v''" "v_version sample_view = 1"
    by (simp_all add: sample_batch_world_def sample_inputs_def sample_ref_chunk_def sample_chunk_def sample_item_def
        sample_view_def Let_def)
  let ?W' = "W1\<lparr>bw_core := commit (bw_core W1)\<rparr>"
  have t: "batch_process_next sample_batch sample_inputs (Some (carrying d)) sample_batch_world = (committed_pr ''ok'', ?W')"
    using h d by (simp add: batch_process_next_def carrying_def c noop_controls_def should_pause_def Let_def
        sample_batch_world_def)
  have pre: "pg_inv sample_pg (w_offline (bw_core sample_batch_world))" "rt_stores (bt_core sample_batch) = prod_ops sample_pg"
    "is_ref_chunk sample_ref_chunk" "msg_doc (carrying d) = Some d" "pr_status (committed_pr ''ok'') = ''ok''"
    by (simp_all add: sample_batch_world_def sample_pg_world_def pg_inv_def sample_batch_def sample_pg_runtime_def
        is_ref_chunk_def sample_ref_chunk_def sample_chunk_def carrying_def committed_pr_def)
  have "\<forall>v features. chunk_plan sample_batch sample_ref_chunk v features \<longrightarrow>
      (let rs = concat (map (item_results sample_batch (bw_raw sample_batch_world) v features (be_clock sample_inputs 2))
        (bc_items sample_ref_chunk)) in
        (\<forall>r \<in> set rs. pg_adm sample_pg (w_offline (bw_core sample_batch_world)) (v_name v) (v_version v) r
          \<and> self_equal (r_value r)) \<and> tokens_decide (rt_repr (bt_core sample_batch)) rs)"
    using sample_computed_storable
    by (simp add: sample_plan sample_item_computes(1) c pgops.storable_def tokens_decide_def)
  from chunk_commit_is_durable[OF pre(1,2,4) d pre(3) this t pre(5)] t show ?thesis
    using sample_plan sample_item_computes(1) by (fastforce simp: c)
qed



text \<open>
  C28: Whatever messages the metadata writer consumes on Postgres, failed and repeated ones included,
  the stores stay well formed, the history of the projections only grows, the audit log gains
  nothing but the consumed messages, and a message it holds is not logged again.
\<close>

theorem projection_history_kept:
  assumes "stores_ok P w"
    and "meta_run (pg_runtime P hash repr get put) clk bounded i polls w = (x, y, w')"
  shows "stores_ok P w' \<and> history_kept P w w'
    \<and> audit_log w' \<subseteq> audit_log w \<union> {h. \<exists>m. Some m \<in> set polls \<and> h = hash (msg_b64 m)}
    \<and> (\<forall>m r w''. hash (msg_b64 m) \<in> audit_log w'
         \<longrightarrow> meta_process_next (pg_runtime P hash repr get put) (clk i) (Some m) w' = (r, w'')
         \<longrightarrow> audit_log w'' = audit_log w')"
proof -
  from pg_run_keeps[OF assms(1), of hash repr get put clk bounded i polls] assms(2)
  have k: "stores_ok P w'" "history_kept P w w'"
    "audit_log w' \<subseteq> audit_log w \<union> {h. \<exists>m. Some m \<in> set polls \<and> h = hash (msg_b64 m)}" by auto
  from pg_replay_logs_once[OF k(1)] k show ?thesis by blast
qed

theorem projection_history_kept_witness:
  "stores_ok sample_pg (snd (snd (meta_run meta_sample (\<lambda>_ _. day2) False 0 [Some garbage] meta_empty)))
   \<and> audit_log (snd (snd (meta_run meta_sample (\<lambda>_ _. day2) False 0 [Some garbage] meta_empty))) \<subseteq> {''AAA=''}"
proof -
  obtain x y w' where r: "meta_run meta_sample (\<lambda>_ _. day2) False 0 [Some garbage] meta_empty = (x, y, w')"
    using prod_cases3 by blast
  have "audit_log meta_empty = {}" "msg_b64 garbage = ''AAA=''"
    by (simp_all add: audit_log_def meta_empty_def garbage_def)
  have "stores_ok sample_pg w'" "audit_log w' \<subseteq> {''AAA=''}"
    using projection_history_kept[OF meta_empty_ok r[unfolded meta_sample_def]] \<open>audit_log meta_empty = {}\<close>
      \<open>msg_b64 garbage = ''AAA=''\<close> by auto
  then show ?thesis unfolding r snd_conv by blast
qed

section \<open>The HTTP service and ingestion\<close>







text \<open>
  C32: An accepted batch submission either repeats a known job, with the same identity, and changes
  nothing, or it stores a new job and publishes, in order, chunks of the requested size at most
  with distinct ids that carry the items of the scope, none lost and none twice, one accepted
  chunk status per message.
\<close>

theorem batch_submission_settled:
  assumes "create_batch_job B now later q (jobs, w) = (Inr resp, jobs', w')"
  shows "\<exists>s. read_batch_request B q = Inr s
    \<and> ((\<exists>j. ba_get_job B jobs (jq_key q) = Inr (Some j) \<and> bj_status j \<noteq> ''publish_failed''
          \<and> existing_job_identity (fe_registry (rt_env (ba_core B))) j = Inr (Some (incoming_identity q s))
          \<and> resp = replay_response j \<and> jobs' = jobs \<and> w' = w)
      \<or> (\<exists>ms job. br_log (w_broker w') = br_log (w_broker w) @ ms
          \<and> list_all2 (chunk_message (ba_core B)) (job_events q now s) ms
          \<and> concat (map bc_items (job_events q now s)) = bs_items s
          \<and> (\<forall>e \<in> set (job_events q now s). bc_items e \<noteq> [] \<and> int (length (bc_items e)) \<le> jq_chunk_size q)
          \<and> distinct (map bc_chunk_id (job_events q now s))
          \<and> ba_put_job B jobs job = Inr jobs' \<and> bj_job_id job = jq_key q \<and> bj_status job = ''accepted''
          \<and> bj_chunks job = map (\<lambda>e. (bc_chunk_id e, accepted_chunk now e)) (job_events q now s)
          \<and> br_chunk_count resp = int (length ms) \<and> br_total_items resp = int (length (bs_items s))))"
proof -
  obtain s where s: "read_batch_request B q = Inr s"
    using assms refused_unchanged[of B q _ now later jobs w] by (cases "read_batch_request B q") auto
  then have size: "0 < jq_chunk_size q" by (auto simp: read_batch_request_def demand_def split: if_splits)
  obtain existing where e: "ba_get_job B jobs (jq_key q) = Inr existing"
    using assms s by (cases "ba_get_job B jobs (jq_key q)") (auto simp: create_batch_job_def or_400_def)
  show ?thesis
  proof (cases "\<exists>j. existing = Some j \<and> bj_status j \<noteq> ''publish_failed''")
    case True
    then obtain j where j: "ba_get_job B jobs (jq_key q) = Inr (Some j)" "bj_status j \<noteq> ''publish_failed''"
      using e by blast
    from known_job_replays[OF s j, of now later w] assms j s show ?thesis
      by (auto split: sum.splits if_splits)
  next
    case False
    with e have "ba_get_job B jobs (jq_key q) = Inr None
      \<or> ba_get_job B jobs (jq_key q) = Inr (Some (the existing)) \<and> bj_status (the existing) = ''publish_failed''"
      by (cases existing) auto
    from open_job_submits[OF s this, of now later w] assms have
      "submit_chunks B now later q s (jobs, w) = (Inr resp, jobs', w')" by simp
    from submission_covers[OF size this] s show ?thesis by blast
  qed
qed

theorem batch_submission_settled_witness:
  "\<exists>resp jobs' w' s. create_batch_job sample_batch_api day2 day2 sample_job_in (Map.empty, sample_pg_world) = (Inr resp, jobs', w')
    \<and> read_batch_request sample_batch_api sample_job_in = Inr s \<and> bs_items s = sample_joined
    \<and> br_log (w_broker w') \<noteq> []"
proof -
  have "(case read_batch_request sample_batch_api sample_job_in of
      Inr s \<Rightarrow> bs_items s = sample_joined \<and> bs_manifest_id s = None \<and> bs_manifest_ids s = [''m1'', ''m2'']
    | Inl e \<Rightarrow> False)" by code_simp
  then obtain s where s: "read_batch_request sample_batch_api sample_job_in = Inr s" "bs_items s = sample_joined"
    "bs_manifest_id s = None" "bs_manifest_ids s = [''m1'', ''m2'']" by (auto split: sum.splits)
  let ?B = sample_batch_api and ?q = sample_job_in and ?w = sample_pg_world
  have cfg: "ba_get_job ?B Map.empty (jq_key ?q) = Inr None" "ba_core ?B = sample_pg_runtime" "ba_put_job ?B m j = Inr (bm_put m j)"
    "jq_chunk_size ?q = 2" "br_fates (w_broker ?w) = []" for m j
    by (simp_all add: sample_batch_api_def bm_get_def sample_job_in_def sample_pg_world_def)
  have chunks: "chunks_of 2 sample_joined = [sample_joined]"
    by (simp add: chunks_of.simps sample_joined_def)
  have "list_all bi_wf sample_joined" by (simp add: sample_joined_def bi_wf_def of_obj_dict_def)
  then have "\<forall>e \<in> set (job_events ?q day2 s). bc_wf e"
    by (simp add: job_events_def Let_def s cfg chunks chunk_event_def bc_wf_def)
  from publish_chunks_acked[OF cfg(5) this, of sample_pg_runtime 0] obtain w' where
    p: "publish_chunks sample_pg_runtime (job_events ?q day2 s) 0 ?w = (None, w')" by blast
  have j: "mk_job_status (accepted_job ?q day2 (int (length (chunks_of 2 sample_joined))) (int (length sample_joined)) None
      [''m1'', ''m2''] (job_events ?q day2 s)) = Inr (accepted_job ?q day2 (int (length (chunks_of 2 sample_joined)))
      (int (length sample_joined)) None [''m1'', ''m2''] (job_events ?q day2 s))"
    by (simp add: mk_job_status_def accepted_job_def)
  from open_job_submits[OF s(1), of Map.empty] cfg(1) p j have
    "\<exists>resp jobs'. create_batch_job ?B day2 day2 ?q (Map.empty, ?w) = (Inr resp, jobs', w')"
    by (simp add: submit_chunks_def Let_def cfg s job_events_def)
  then obtain resp jobs' where r: "create_batch_job ?B day2 day2 ?q (Map.empty, ?w) = (Inr resp, jobs', w')" by blast
  from batch_submission_settled[OF r] s(1) cfg(1) obtain ms where
    "br_log (w_broker w') = br_log (w_broker ?w) @ ms" "list_all2 (chunk_message (ba_core ?B)) (job_events ?q day2 s) ms"
    by auto
  moreover have "job_events ?q day2 s \<noteq> []" by (simp add: job_events_def Let_def s cfg chunks)
  ultimately have "br_log (w_broker w') \<noteq> []" by auto
  with r s(1,2) show ?thesis by blast
qed

text \<open>
  C33: The join of several dataset manifests is exact: it gives one item per complete entity key, in
  the order of the encoded keys, each with the key the worker reads back and exactly the
  references the selected manifests hold for it, none left out; and the order in which the
  manifests are named does not matter.
\<close>

theorem manifest_join_exact:
  assumes "\<forall>mid m. ba_get_manifest B mid = Inr (Some m) \<longrightarrow> sd_manifest_id m = mid"
    and "multi_manifest_batch_items B q v = Inr (items, ids)"
  shows "(\<exists>encs. sorted encs \<and> distinct encs
      \<and> list_all2 (\<lambda>enc it. (\<exists>ek. view_entity_key v (bi_entity_key it) = Inr ek \<and> ek_encode ek = Inr enc)
           \<and> bi_inline_sources it = []
           \<and> (\<forall>src ref. map_of (bi_source_refs it) src = Some ref \<longleftrightarrow> binds B v ids enc src ref)) encs items
      \<and> (\<forall>enc src ref. binds B v ids enc src ref \<longrightarrow> enc \<in> set encs))
    \<and> (\<forall>ids'. mset ids' = mset ids \<longrightarrow>
         multi_manifest_batch_items B (q\<lparr>jq_scope := (jq_scope q)\<lparr>sp_manifest_ids := Some ids'\<rparr>\<rparr>) v
           = Inr (items, ids))"
proof -
  have law: "\<And>mid m. ba_get_manifest B mid = Inr (Some m) \<Longrightarrow> sd_manifest_id m = mid" using assms(1) by blast
  obtain mids where mids: "sp_manifest_ids (jq_scope q) = Some mids" "ids = sort mids"
    using assms(2) by (auto simp: multi_manifest_batch_items_def Let_def split: option.splits)
  have "q = q\<lparr>jq_scope := (jq_scope q)\<lparr>sp_manifest_ids := Some mids\<rparr>\<rparr>" using mids(1) by simp
  then have "multi_manifest_batch_items B (q\<lparr>jq_scope := (jq_scope q)\<lparr>sp_manifest_ids := Some ids'\<rparr>\<rparr>) v
      = Inr (items, ids)" if "mset ids' = mset ids" for ids'
    using multi_order_free[where ids = ids' and ids' = mids and B = B and q = q and sc = "jq_scope q" and v = v]
      that mids(2) assms(2) by simp
  with multi_joined[OF law assms(2)] show ?thesis by blast
qed

theorem manifest_join_exact_witness:
  "binds sample_batch_api sample_view [''m1'', ''m2''] ''user_id=u1'' ''t'' ''r2''
   \<and> multi_manifest_batch_items sample_batch_api
       (sample_job_in\<lparr>jq_scope := (jq_scope sample_job_in)\<lparr>sp_manifest_ids := Some [''m1'', ''m2'']\<rparr>\<rparr>) sample_view
     = Inr (sample_joined, [''m1'', ''m2''])"
proof -
  have "\<forall>mid m. ba_get_manifest sample_batch_api mid = Inr (Some m) \<longrightarrow> sd_manifest_id m = mid"
    by (simp add: sample_batch_api_def sample_manifest_def)
  note j = manifest_join_exact[OF this sample_join]
  from j have "multi_manifest_batch_items sample_batch_api
       (sample_job_in\<lparr>jq_scope := (jq_scope sample_job_in)\<lparr>sp_manifest_ids := Some [''m1'', ''m2'']\<rparr>\<rparr>) sample_view
     = Inr (sample_joined, [''m1'', ''m2''])" by blast
  moreover have "binds sample_batch_api sample_view [''m1'', ''m2''] ''user_id=u1'' ''t'' ''r2''"
  proof -
    from j obtain encs where "list_all2 (\<lambda>enc it. (\<exists>ek. view_entity_key sample_view (bi_entity_key it) = Inr ek
        \<and> ek_encode ek = Inr enc)
      \<and> bi_inline_sources it = []
      \<and> (\<forall>src ref. map_of (bi_source_refs it) src = Some ref
           \<longleftrightarrow> binds sample_batch_api sample_view [''m1'', ''m2''] enc src ref)) encs sample_joined" by blast
    then obtain enc ek where enc: "view_entity_key sample_view [(''user_id'', ''u1'')] = Inr ek" "ek_encode ek = Inr enc"
      and "\<forall>src ref. map_of [(''s'', ''r1''), (''t'', ''r2'')] src = Some ref
           \<longleftrightarrow> binds sample_batch_api sample_view [''m1'', ''m2''] enc src ref"
      by (simp add: sample_joined_def list_all2_Cons2) blast
    then have "map_of [(''s'', ''r1''), (''t'', ''r2'')] ''t'' = Some ''r2''
        \<longleftrightarrow> binds sample_batch_api sample_view [''m1'', ''m2''] enc ''t'' ''r2''" by blast
    then have b: "binds sample_batch_api sample_view [''m1'', ''m2''] enc ''t'' ''r2''" by simp
    have "rbind (view_entity_key sample_view [(''user_id'', ''u1'')]) ek_encode = Inr ''user_id=u1''" by code_simp
    with enc b show ?thesis by simp
  qed
  ultimately show ?thesis by simp
qed

text \<open>
  C34: Ingesting the same lines again is idle. After a run over the in-memory repository in which no
  line was rejected and no line dates its own availability, a later run over the same lines succeeds,
  writes nothing, leaves the metadata as it is, counts every line as a duplicate, and its manifest
  has the same dataset fingerprint.
\<close>

theorem ingestion_rerun_idle:
  assumes "ld_upsert L = mem_upsert" "\<forall>ps u j. \<exists>ps'. ld_put_payload L ps u j = Inr ps'"
      "\<forall>m d. \<exists>d'. ld_put_manifest L m d = Inr d'" "\<forall>xs d. \<exists>d'. ld_add_items L xs d = Inr d'"
    and "mem_meta_inv s"
    and "run_jsonl_ingestion L loads parse A mid ds ff created clk lines ((s, ps), d) = (Inr m, (s1, ps1), d1)"
    and "sd_rejected m = 0" "\<forall>p \<in> set (iter_jsonl loads parse lines). undated p"
    and "aware created2" "instant created \<le> instant created2"
  shows "\<exists>m2 ps3 d3. run_jsonl_ingestion L loads parse A mid2 ds2 ff2 created2 clk2 lines ((s1, ps2), d2)
        = (Inr m2, (s1, ps3), d3)
    \<and> sd_written m2 = 0 \<and> sd_rejected m2 = 0 \<and> sd_duplicate m2 = sd_read m
    \<and> sd_content_hash m2 = sd_content_hash m"
  by (rule run_again_idle[OF assms])

theorem ingestion_rerun_idle_witness:
  "\<exists>m s1 ps1 d1 m2 ps3 d3.
     run_jsonl_ingestion sample_landing sample_loads sample_parse sample_run ''1'' ''d'' False day1 (\<lambda>_. day1)
       [''x'', ''y''] ((\<lparr>mm_meta = [], mm_changes = []\<rparr>, Map.empty), \<lparr>md_manifests = [], md_items = []\<rparr>)
       = (Inr m, (s1, ps1), d1) \<and> sd_written m = 2
     \<and> run_jsonl_ingestion sample_landing sample_loads sample_parse sample_run ''2'' ''d'' True day2 (\<lambda>_. day2)
       [''x'', ''y''] ((s1, ps1), d1) = (Inr m2, (s1, ps3), d3) \<and> sd_written m2 = 0 \<and> sd_duplicate m2 = 2"
proof -
  have "(case run_jsonl_ingestion sample_landing sample_loads sample_parse sample_run ''1'' ''d'' False day1 (\<lambda>_. day1)
      [''x'', ''y''] ((\<lparr>mm_meta = [], mm_changes = []\<rparr>, Map.empty), \<lparr>md_manifests = [], md_items = []\<rparr>) of
        (Inr m, s, d) \<Rightarrow> sd_written m = 2 \<and> sd_rejected m = 0 \<and> sd_read m = 2 | _ \<Rightarrow> False)"
    by code_simp
  then obtain m s1 ps1 d1 where r: "run_jsonl_ingestion sample_landing sample_loads sample_parse sample_run ''1'' ''d''
      False day1 (\<lambda>_. day1) [''x'', ''y''] ((\<lparr>mm_meta = [], mm_changes = []\<rparr>, Map.empty), \<lparr>md_manifests = [], md_items = []\<rparr>) = (Inr m, (s1, ps1), d1)"
    and m: "sd_written m = 2" "sd_rejected m = 0" "sd_read m = 2"
    by (auto split: prod.splits sum.splits)
  have u: "\<forall>p \<in> set (iter_jsonl sample_loads sample_parse [''x'', ''y'']). undated p" by code_simp
  have i: "mem_meta_inv \<lparr>mm_meta = [], mm_changes = []\<rparr>" by (simp add: mem_meta_inv_def)
  have L: "ld_upsert sample_landing = mem_upsert" "\<forall>ps u j. \<exists>ps'. ld_put_payload sample_landing ps u j = Inr ps'"
    "\<forall>m d. \<exists>d'. ld_put_manifest sample_landing m d = Inr d'" "\<forall>xs d. \<exists>d'. ld_add_items sample_landing xs d = Inr d'"
    by (simp_all add: sample_landing_def)
  have t: "instant day1 \<le> instant day2" by code_simp
  from ingestion_rerun_idle[OF L i r m(2) u day_stamps(5) t, of "''2''" "''d''" True "\<lambda>_. day2" ps1 d1] r m
  show ?thesis by fastforce
qed

section \<open>Shared snapshots and the wire\<close>

text \<open>
  C35: Concurrent reports of the chunks of one batch job lose nothing: in every state that writers
  reach through watched transactions, retries included, the stored job is the merge of the
  committed reports in commit order, each once, and a writer that has not committed can move, its
  EXEC succeeding while the job is unchanged since it was read.
\<close>

theorem concurrent_chunk_reports:
  assumes "bj_wf j" "\<forall>w. bk_wf (snd (rep w)) \<and> stamp (fst (rep w))"
    and "tx_db s (batch_job_key job_id) = Some (sort_keys (bj_to_dict j))" "tx_watch s = (\<lambda>_. None)" "tx_done s = []"
    and "(txn_step repr job_id rep)\<^sup>*\<^sup>* s s'"
  shows "distinct (tx_done s')
    \<and> tx_db s' (batch_job_key job_id) = Some (sort_keys (bj_to_dict (merge_all (map rep (tx_done s')) j)))
    \<and> (\<forall>w. w \<notin> set (tx_done s') \<longrightarrow> (\<exists>s''. txn_step repr job_id rep s' s''
         \<and> (tx_watch s' w = Some (tx_db s' (batch_job_key job_id)) \<longrightarrow> tx_done s'' = tx_done s' @ [w])))"
proof -
  have "txn_invariant job_id rep j s" using assms(3-5) by (simp add: txn_invariant_def merge_all_def)
  from txn_reachable_invariant[OF assms(6) this assms(1,2)] have i: "txn_invariant job_id rep j s'" .
  then show ?thesis using txn_not_stuck[OF i _ assms(1,2)] by (auto simp: txn_invariant_def)
qed

theorem concurrent_chunk_reports_witness:
  "\<exists>s. (txn_step (\<lambda>_. ''0'') ''j'' sample_report)\<^sup>*\<^sup>* sample_txn s \<and> tx_done s = [0]
    \<and> tx_watch s 1 = Some (tx_db sample_txn (batch_job_key ''j''))
    \<and> tx_db s (batch_job_key ''j'') \<noteq> tx_db sample_txn (batch_job_key ''j'')
    \<and> tx_db s (batch_job_key ''j'') = Some (sort_keys (bj_to_dict (merge_all [sample_report 0] sample_job)))"
proof -
  let ?k = "batch_job_key ''j''" and ?d = "sort_keys (bj_to_dict sample_job)"
  let ?s1 = "sample_txn\<lparr>tx_watch := (\<lambda>_. None)(0 := Some (Some ?d))\<rparr>"
  let ?s2 = "sample_txn\<lparr>tx_watch := (\<lambda>_. None)(0 := Some (Some ?d), 1 := Some (Some ?d))\<rparr>"
  have 1: "txn_step (\<lambda>_. ''0'') ''j'' sample_report sample_txn ?s1"
    using txn_step.watch[of 0 sample_txn "\<lambda>_. ''0''" "''j''" sample_report] by (simp add: sample_txn_def)
  have 2: "txn_step (\<lambda>_. ''0'') ''j'' sample_report ?s1 ?s2"
    using txn_step.watch[of 1 ?s1 "\<lambda>_. ''0''" "''j''" sample_report] by (simp add: sample_txn_def)
  obtain r d where m: "merge_in_txn (\<lambda>_. ''0'') (fst (sample_report 0)) (snd (sample_report 0)) (Some ?d) = Inr (r, d)"
    using merge_in_txn_stored[OF sample_job_ok(1)] sample_job_ok(2) by blast
  let ?s3 = "?s2\<lparr>tx_db := set_if ?k d (tx_db ?s2), tx_watch := (tx_watch ?s2)(0 := None), tx_done := tx_done ?s2 @ [0]\<rparr>"
  have 3: "txn_step (\<lambda>_. ''0'') ''j'' sample_report ?s2 ?s3"
  proof (rule txn_step.exec[where rep = sample_report])
    show "tx_watch ?s2 0 = Some (Some ?d)" "tx_db ?s2 ?k = Some ?d" by (simp_all add: sample_txn_def)
    show "merge_in_txn (\<lambda>_. ''0'') (fst (sample_report 0)) (snd (sample_report 0)) (Some ?d) = Inr (r, d)" by (rule m)
  qed
  have r: "(txn_step (\<lambda>_. ''0'') ''j'' sample_report)\<^sup>*\<^sup>* sample_txn ?s3"
    by (rule rtranclp_trans[OF rtranclp_trans[OF r_into_rtranclp r_into_rtranclp] r_into_rtranclp])
      (rule 1, rule 2, rule 3)
  have n: "sort_keys (bj_to_dict (merge_all [sample_report 0] sample_job)) \<noteq> ?d"
    by (rule sample_reported)
  have 4: "tx_done ?s3 = [0]" "tx_watch ?s3 1 = Some (Some ?d)" "tx_db sample_txn ?k = Some ?d"
    by (simp_all add: sample_txn_def)
  have "tx_watch sample_txn = (\<lambda>_. None)" "tx_done sample_txn = []" by (simp_all add: sample_txn_def)
  from concurrent_chunk_reports[OF sample_job_ok 4(3) this r] 4(1)
  have "tx_db ?s3 ?k = Some (sort_keys (bj_to_dict (merge_all [sample_report 0] sample_job)))" by simp
  with r 4 n show ?thesis by (intro exI[of _ ?s3]) (simp only: option.inject simp_thms not_False_eq_True)
qed

text \<open>
  C36: Events survive the wire: a compute request, a feature update, a model score write and a batch
  chunk, serialised to JSON text with sorted keys and parsed back, are the same event up to the
  order of the keys of their mappings.
\<close>

theorem events_survive_the_wire:
  assumes "cq_wf q" "fu_wf u" "ms_wf m" "bc_wf c"
  shows "rbind (rbind (cq_to_dict q) (encode_json repr)) cq_from_dict = Inr (cq_normal q)
    \<and> rbind (rbind (fu_to_dict u) (encode_json repr)) fu_from_dict = Inr (fu_normal u)
    \<and> rbind (rbind (ms_to_dict m) (encode_json repr)) ms_from_dict = Inr (ms_normal m)
    \<and> rbind (rbind (bc_to_dict c) (encode_json repr)) bc_from_dict = Inr (bc_normal c)
    \<and> er_normal (cq_entity q) = cq_entity (cq_normal q) \<and> cq_normal q = q\<lparr>cq_entity := er_normal (cq_entity q)\<rparr>"
  using cq.wire[OF assms(1)] fu.wire[OF assms(2)] ms.wire[OF assms(3)] bc.wire[OF assms(4)]
  by (simp add: cq_normal_def)

theorem events_survive_the_wire_witness:
  "rbind (rbind (cq_to_dict sample_compute_event) (encode_json (\<lambda>_. ''0''))) cq_from_dict = Inr sample_compute_event
   \<and> rbind (rbind (fu_to_dict (sample_update ''u1'')) (encode_json (\<lambda>_. ''0''))) fu_from_dict = Inr (sample_update ''u1'')
   \<and> rbind (rbind (ms_to_dict sample_scores) (encode_json (\<lambda>_. ''0''))) ms_from_dict = Inr sample_scores
   \<and> rbind (rbind (bc_to_dict sample_chunk) (encode_json (\<lambda>_. ''0''))) bc_from_dict = Inr sample_chunk"
proof -
  have "cq_normal sample_compute_event = sample_compute_event" "bc_normal sample_chunk = sample_chunk" by code_simp+
  with events_survive_the_wire[OF sample_events_wf(1) sample_update_wf sample_scores_wf(1) sample_events_wf(2)] sample_update_normal sample_scores_wf(2)
  show ?thesis by metis
qed

section \<open>Governance\<close>

text \<open>
  C37: A live promotion on the filesystem store obeys its approval profile: enough distinct
  non-blank approvers taken from the request, and either a shadow soak of the same digest of at
  least the profile's days or an override with a reason; it repoints the live pointer of its
  environment and nothing else, and adds one audit record.
\<close>

theorem live_promotion_governed:
  assumes "file_pointers_inv s" "datetime_valid (rq_now q)" "rq_stage q = stage_live"
    "promote file_pointer_ops s q = Inr (rec, s')" "file_record_adm s rec"
  shows "(\<exists>shadow. ps_get file_pointer_ops s (rq_env q) stage_shadow = Inr shadow \<and> live_governed q shadow rec)
    \<and> (\<forall>env stage. stage \<in> set stages \<longrightarrow> ps_get file_pointer_ops s' env stage =
         (if env = rq_env q \<and> stage = stage_live then Inr (Some (promoted_pointer q rec))
          else ps_get file_pointer_ops s env stage))
    \<and> (\<exists>rs rs'. ps_records file_pointer_ops s = Inr rs \<and> ps_records file_pointer_ops s' = Inr rs'
         \<and> mset rs' = add_mset rec (mset rs))"
proof -
  have "stage_shadow \<in> set stages" by (simp add: stages_def)
  with fileptr.get_total[OF assms(1)] obtain shadow where
    sh: "ps_get file_pointer_ops s (rq_env q) stage_shadow = Inr shadow" by blast
  have "promote_live file_pointer_ops s q = Inr rec"
    using assms(3,4) by (auto simp: promote_def stage_live_def stage_shadow_def)
  from promote_live_governed[OF this sh] sh fileptr.promote_effect[OF assms(1,2,4,5)] assms(3)
  show ?thesis by auto
qed

theorem live_promotion_governed_witness:
  "\<exists>rec s'. promote file_pointer_ops sample_files sample_promotion = Inr (rec, s')
    \<and> live_governed sample_promotion (Some sample_shadow) rec"
proof -
  from sample_promotes obtain rec s' where
    p: "promote file_pointer_ops sample_files sample_promotion = Inr (rec, s')"
    and r: "pr_created_at rec = day3" "pr_shadow_started rec = Some day1" by blast
  have adm: "file_record_adm sample_files rec"
    using r by (intro sample_record_adm) (simp_all add: sample_files_def sample_days_valid)
  have v: "datetime_valid (rq_now sample_promotion)" "rq_stage sample_promotion = stage_live"
    by (simp_all add: sample_promotion_def sample_days_valid)
  have "rq_env sample_promotion = ''prod''" by (simp add: sample_promotion_def)
  with live_promotion_governed[OF sample_files_ok v p adm] p sample_files_get(1) show ?thesis by auto
qed

text \<open>
  C38: A promotion is undone by a rollback to the previous digest: the pointer of that environment
  and stage then holds the digest it held before, and remembers the promoted one as previous.
\<close>

theorem promotion_then_rollback_restores:
  assumes "file_pointers_inv s" "datetime_valid (rq_now q)" "promote file_pointer_ops s q = Inr (rec, s1)"
    "file_record_adm s rec" "ps_get file_pointer_ops s (rq_env q) (rq_stage q) = Inr (Some cur)"
    "rb_env b = rq_env q" "rb_stage b = rq_stage q" "rb_to_previous b" "datetime_valid (rb_now b)"
    "rollback file_pointer_ops s1 b = Inr (rec2, s2)" "file_record_adm s1 rec2"
  shows "\<exists>p. ps_get file_pointer_ops s2 (rq_env q) (rq_stage q) = Inr (Some p)
    \<and> pt_digest p = pt_digest cur \<and> pt_previous p = Some (rq_digest q)"
  by (rule fileptr.promote_rollback[OF assms])

theorem promotion_then_rollback_restores_witness:
  "\<exists>rec s1 rec2 s2 p. promote file_pointer_ops sample_files sample_promotion = Inr (rec, s1)
    \<and> rollback file_pointer_ops s1 sample_rollback = Inr (rec2, s2)
    \<and> ps_get file_pointer_ops s2 ''prod'' stage_live = Inr (Some p) \<and> pt_digest p = ''d1''"
proof -
  from sample_promotes obtain rec s1 where
    p: "promote file_pointer_ops sample_files sample_promotion = Inr (rec, s1)"
    and r: "pr_created_at rec = day3" "pr_shadow_started rec = Some day1" by blast
  have adm: "file_record_adm sample_files rec"
    using r by (intro sample_record_adm) (simp_all add: sample_files_def sample_days_valid)
  have q: "datetime_valid (rq_now sample_promotion)" "rq_env sample_promotion = ''prod''"
    "rq_stage sample_promotion = stage_live"
    by (simp_all add: sample_promotion_def sample_days_valid)
  have b: "rb_env sample_rollback = rq_env sample_promotion" "rb_stage sample_rollback = rq_stage sample_promotion"
    "rb_to_previous sample_rollback" "datetime_valid (rb_now sample_rollback)"
    by (simp_all add: sample_rollback_def sample_promotion_def sample_days_valid)
  obtain rec2 s2 where b2: "rollback file_pointer_ops s1 sample_rollback = Inr (rec2, s2)" "file_record_adm s1 rec2"
    using sample_rolls_back[OF p] by blast
  have cur: "ps_get file_pointer_ops sample_files (rq_env sample_promotion) (rq_stage sample_promotion) = Inr (Some sample_live)"
    using sample_files_get(2) q by simp
  from promotion_then_rollback_restores[OF sample_files_ok q(1) p adm cur b b2] q p b2
  show ?thesis by (auto simp: sample_live_def)
qed

text \<open>
  A rollback of the shadow pointer to an explicit digest keeps the soak start of the bundle it
  leaves, so a digest that was never promoted to shadow satisfies the soak requirement of a live
  promotion at once.
\<close>

theorem shadow_rollback_inherits_soak:
  assumes "file_pointers_inv s" "ps_get file_pointer_ops s env stage_shadow = Inr (Some cur)"
    "pt_shadow_started cur = Some t" "days * us_per_day \<le> instant now - instant t"
    "rb_env b = env" "rb_stage b = stage_shadow" "\<not> rb_to_previous b" "rb_digest b = Some d" "d \<noteq> []"
    "datetime_valid (rb_now b)" "rollback file_pointer_ops s b = Inr (rec, s')" "file_record_adm s rec"
  shows "\<exists>shadow. ps_get file_pointer_ops s' env stage_shadow = Inr shadow \<and> soaked shadow d now days"
  by (rule fileptr.shadow_rollback_soaks[OF assms])

theorem shadow_rollback_inherits_soak_witness:
  "\<exists>rec s' shadow. rollback file_pointer_ops sample_files sample_shadow_rollback = Inr (rec, s')
    \<and> ps_get file_pointer_ops s' ''prod'' stage_shadow = Inr shadow \<and> soaked shadow ''never-in-shadow'' day3 2"
proof -
  obtain rec s' where r: "rollback file_pointer_ops sample_files sample_shadow_rollback = Inr (rec, s')"
    "file_record_adm sample_files rec"
    using sample_shadow_rolls_back by blast
  have b: "rb_env sample_shadow_rollback = ''prod''" "rb_stage sample_shadow_rollback = stage_shadow"
    "\<not> rb_to_previous sample_shadow_rollback" "rb_digest sample_shadow_rollback = Some ''never-in-shadow''"
    "''never-in-shadow'' \<noteq> []" "datetime_valid (rb_now sample_shadow_rollback)"
    by (simp_all add: sample_shadow_rollback_def sample_days_valid)
  have t: "pt_shadow_started sample_shadow = Some day1" "2 * us_per_day \<le> instant day3 - instant day1"
    by (simp_all add: sample_shadow_def sample_instants us_per_day_def)
  from shadow_rollback_inherits_soak[OF sample_files_ok sample_files_get(1) t b r] r(1) show ?thesis by blast
qed

section \<open>Raw report metadata\<close>

text \<open>
  C39: The identity of a raw report is immutable on Postgres: whatever sequence of projection
  writes follows, rejected ones included, a known report keeps every identity field, and the
  availability audit trail never shrinks.
\<close>

theorem report_identity_immutable:
  assumes "pg_meta_inv P s" "\<forall>(now, m, ctx) \<in> set ws. pg_meta_adm P s m" "pg_get_meta P s ref = Inr e"
  shows "\<exists>e'. pg_get_meta P (pg_upsert_all P s ws) ref = Inr e' \<and> m_report_ref e' = ref
      \<and> \<not> raw_meta_conflicts e e' \<and> length (pm_changes s) \<le> length (pm_changes (pg_upsert_all P s ws))"
  using pgmeta.upsert_all_identity[OF assms] unfolding pg_upsert_all_run by blast

theorem report_identity_immutable_witness:
  "\<exists>s e e'. pg_upsert sample_pg \<lparr>pm_rows = [], pm_changes = []\<rparr> day1 sample_meta None = Inr (True, s)
    \<and> pg_get_meta sample_pg s ''ref'' = Inr e
    \<and> pg_get_meta sample_pg (pg_upsert_all sample_pg s
         [(day2, sample_meta\<lparr>m_content_hash := ''other''\<rparr>, None),
          (day2, sample_meta\<lparr>m_available_at := Some day2\<rparr>, None)]) ''ref'' = Inr e'
    \<and> \<not> raw_meta_conflicts e e'"
proof -
  obtain s e where s: "pg_upsert sample_pg \<lparr>pm_rows = [], pm_changes = []\<rparr> day1 sample_meta None = Inr (True, s)"
    "pg_meta_inv sample_pg s" "pg_get_meta sample_pg s ''ref'' = Inr e"
    using sample_meta_written by blast
  have "\<forall>(now, m, ctx) \<in> set [(day2, sample_meta\<lparr>m_content_hash := ''other''\<rparr>, None :: correction_context option),
          (day2, sample_meta\<lparr>m_available_at := Some day2\<rparr>, None)]. pg_meta_adm sample_pg s m"
    using sample_meta_adm by simp
  from report_identity_immutable[OF s(2) this s(3)] s show ?thesis by blast
qed

text \<open>
  The projection write is idempotent on Postgres: writing a report that a write has just
  accepted changes nothing and says so.
\<close>

theorem report_write_idempotent:
  assumes "pg_meta_inv P s" "pg_meta_adm P s m" "pg_upsert P s now m ctx = Inr (changed, s')"
  shows "pg_upsert P s' now' m ctx' = Inr (False, s')"
  by (rule pgmeta.upsert_idempotent[OF assms])

theorem report_write_idempotent_witness:
  "\<exists>s. pg_upsert sample_pg \<lparr>pm_rows = [], pm_changes = []\<rparr> day1 sample_meta None = Inr (True, s)
    \<and> pg_upsert sample_pg s day2 sample_meta None = Inr (False, s)"
proof -
  obtain s where s: "pg_upsert sample_pg \<lparr>pm_rows = [], pm_changes = []\<rparr> day1 sample_meta None = Inr (True, s)"
    using sample_meta_written by blast
  have "pg_meta_inv sample_pg \<lparr>pm_rows = [], pm_changes = []\<rparr>" by (simp add: pg_meta_inv_def)
  from report_write_idempotent[OF this sample_meta_adm(1) s] s show ?thesis by blast
qed

section \<open>Encodings\<close>

text \<open>
  A write set survives its dictionary form: parsing what was rendered gives the write set
  back, up to the node statuses, which the form does not carry.
\<close>

theorem write_set_roundtrip:
  assumes "write_set_wf w"
  shows "write_set_from_dict (write_set_to_dict w) = Inr (w\<lparr>ws_node_statuses := []\<rparr>)"
  by (rule write_set_from_to_dict[OF assms])

theorem write_set_roundtrip_witness:
  "\<exists>w. ws_results w = [(''a'', early)] \<and> write_set_from_dict (write_set_to_dict w) = Inr w"
proof -
  let ?w = "\<lparr>ws_view = ''v'', ws_view_version = 1, ws_entity_key = sample_key, ws_results = [(''a'', early)],
     ws_source_refs = [], ws_request_id = None, ws_job_id = None, ws_run_id = None, ws_correlation_id = None,
     ws_write_policy = ''online_first'', ws_node_statuses = []\<rparr>"
  have "datetime_valid (r_data_ts early)" "datetime_valid (r_calc_ts early)"
    "r_max_input_data_ts early = None" "r_available_at early = None"
    by (simp_all add: early_def sample_result_def sample_days_valid)
  then have "write_set_wf ?w" using sample_results_ok by (simp add: write_set_wf_def result_wf_def)
  from write_set_roundtrip[OF this] show ?thesis by (intro exI[of _ ?w]) simp
qed

text \<open>
  C40: The entity-key encoding is canonical and injective: keys with the same encoding are equal,
  and a mapping given in another order yields the same key.
\<close>

theorem entity_key_canonical:
  assumes "ek_encode a = Inr text" "ek_encode b = Inr text"
    "dict_wf d" "dict_wf e" "set d = set e" "ek_from_mapping d None = Inr k"
  shows "a = b \<and> ek_from_mapping e None = Inr k"
  using ek_encode_Inr[OF assms(1)] ek_encode_Inr[OF assms(2)] ek_text_inj from_mapping_order[OF assms(3-6)]
  by metis

theorem entity_key_canonical_witness:
  "ek_from_mapping [(''b'', ''2''), (''a'', ''1'')] None
    = Inr \<lparr>ek_parts = [(''a'', ''1''), (''b'', ''2'')]\<rparr>"
proof -
  have k: "ek_encode sample_key = Inr ''user_id=u1''" by code_simp
  have m: "ek_from_mapping [(''a'', ''1''), (''b'', ''2'')] None = Inr \<lparr>ek_parts = [(''a'', ''1''), (''b'', ''2'')]\<rparr>"
    by code_simp
  have "dict_wf [(''a'', ''1''), (''b'', ''2'')]" "dict_wf [(''b'', ''2''), (''a'', ''1'')]"
    by (simp_all add: dict_keys_def)
  from entity_key_canonical[OF k k this _ m] show ?thesis by auto
qed

text \<open>
  The input fingerprint depends only on the inputs themselves: neither their order nor the
  UTC offset in which a timestamp is written changes it.
\<close>

theorem fingerprint_ignores_order_and_offset:
  assumes "\<forall>x \<in> set xs. aware (fst (snd x))" "\<forall>x \<in> set ys. aware (fst (snd x))"
    "mset (map (\<lambda>(i, ts, h). (i, instant ts, h)) xs) = mset (map (\<lambda>(i, ts, h). (i, instant ts, h)) ys)"
  shows "input_fingerprint_of H xs = input_fingerprint_of H ys"
  by (rule fingerprint_of_instants[OF assms])

theorem fingerprint_ignores_order_and_offset_witness:
  "input_fingerprint_of sample_hasher [(''a'', day1, ''h''), (''b'', utc 2024 1 1 2, ''k'')]
   = input_fingerprint_of sample_hasher [(''b'', (utc 2024 1 1 5)\<lparr>utcoff := Some 10800000000\<rparr>, ''k''), (''a'', day1, ''h'')]"
proof (rule fingerprint_ignores_order_and_offset)
  have "instant ((utc 2024 1 1 5)\<lparr>utcoff := Some 10800000000\<rparr>) = instant (utc 2024 1 1 2)" by code_simp
  then show "mset (map (\<lambda>(i, ts, h). (i, instant ts, h)) [(''a'', day1, ''h''), (''b'', utc 2024 1 1 2, ''k'')])
    = mset (map (\<lambda>(i, ts, h). (i, instant ts, h))
        [(''b'', (utc 2024 1 1 5)\<lparr>utcoff := Some 10800000000\<rparr>, ''k''), (''a'', day1, ''h'')])"
    by simp
qed (simp_all add: day1_def aware_def utc_def)

text \<open>
  The JSON forms of environment pointers and audit records parse back to what was written,
  timestamps and offsets included.
\<close>

theorem promotion_documents_roundtrip:
  assumes "pointer_ok p" "record_ok r"
  shows "pointer_from_dict (pointer_to_dict p) = Inr p \<and> record_from_dict (record_to_dict r) = Inr r"
  using pointer_from_to_dict[OF assms(1)] record_from_to_dict[OF assms(2)] by simp

theorem promotion_documents_roundtrip_witness:
  "\<exists>rec s'. promote file_pointer_ops sample_files sample_promotion = Inr (rec, s')
    \<and> record_from_dict (record_to_dict rec) = Inr rec \<and> pointer_from_dict (pointer_to_dict sample_live) = Inr sample_live"
proof -
  from sample_promotes obtain rec s' where p: "promote file_pointer_ops sample_files sample_promotion = Inr (rec, s')"
    and r: "pr_created_at rec = day3" "pr_shadow_started rec = Some day1" by blast
  have "record_ok rec" using r sample_days_valid by (simp add: record_ok_def)
  from promotion_documents_roundtrip[OF sample_pointers_ok(2) this] p show ?thesis by blast
qed

section \<open>Edge cases\<close>

text \<open>
  A feature that reads no source and whose dependencies are all optional and all skipped is
  not computed as degraded: the minimum over its inputs is empty and the request raises a
  ValueError.
\<close>

theorem optional_only_feature_raises:
  assumes "map_of fbn name = Some f" "feats cx name = None" "\<not> is_skipped name cx" "f_inputs f = []"
    "\<forall>dep \<in> set (f_deps f). \<not> d_required dep \<and> feats cx (d_feature dep) = None \<and> is_skipped (d_feature dep) cx"
    "map_of (en_udfs E) (f_udf f) = Some u" "u [] [] = Inr v"
  shows "resolve E fbn [] name cx = Inl (ValueError ''min() arg is an empty sequence'')"
  by (rule optional_only_raises[OF assms])

theorem optional_only_feature_raises_witness:
  "resolve sample_env
     [(''c'', (hd (v_features sample_view))\<lparr>f_name := ''c'', f_inputs := [],
        f_deps := [\<lparr>d_feature = ''a'', d_version = None, d_required = False, d_max_age = None,
                    d_propagation = Lazy\<rparr>]\<rparr>)]
     [] ''c'' (mark_skipped ''a'' empty_context) = Inl (ValueError ''min() arg is an empty sequence'')"
  by (rule optional_only_feature_raises[where v = "JInt 0"
        and u = "\<lambda>sources deps. Inr (JInt (int (length sources + length deps)))"])
    ((simp_all add: is_skipped_def mark_skipped_def empty_context_def dict_set_def sample_env_def
      sample_view_def Let_def)+)

text \<open>
  On equal freshness and fingerprint the Lua script compares availability times as texts
  where the shared guard compares instants: one instant written with another UTC offset is a
  no-op for the guard and a rewrite for Valkey.
\<close>

theorem lua_guard_compares_texts:
  assumes "valkey_adm repr view c" "hget db (valkey_key view version (ek_text (r_entity_key c)))
      (valkey_field (fr_name (r_ref c)) (fr_version (r_ref c))) = Some (doc_of c)"
    "trusted_available_at c = Some a" "dt_eq b a" "isoformat b \<noteq> isoformat a"
  shows "decide_result (c\<lparr>r_available_at := Some b\<rparr>) (Some c) = Noop
    \<and> (\<exists>db'. valkey_write repr db view version (c\<lparr>r_available_at := Some b\<rparr>) = Inr (WrittenRecompute, db'))"
proof -
  have "r_availability_source c = Some ''source_provided''"
    using assms(3) by (auto simp: trusted_available_at_def split: if_splits)
  then have "trusted_available_at (c\<lparr>r_available_at := Some b\<rparr>) = Some b" by (simp add: trusted_available_at_def)
  moreover have "freshness (c\<lparr>r_available_at := Some b\<rparr>) = freshness c"
    by (simp add: freshness_def result_tuple_def)
  ultimately have "decide_result (c\<lparr>r_available_at := Some b\<rparr>) (Some c) = Noop"
    using assms(3,4) by (simp add: decide_result_Some)
  with availability_text_decides[OF assms(1-3,5)] show ?thesis by blast
qed

theorem lua_guard_compares_texts_witness:
  "\<exists>c db b. decide_result (c\<lparr>r_available_at := Some b\<rparr>) (Some c) = Noop
    \<and> (\<exists>db'. valkey_write (\<lambda>_. ''0.0'') db ''v'' 1 (c\<lparr>r_available_at := Some b\<rparr>) = Inr (WrittenRecompute, db'))"
proof -
  let ?c = "early\<lparr>r_available_at := Some day1, r_availability_source := Some ''source_provided''\<rparr>"
  let ?b = "day1\<lparr>hour := 1, utcoff := Some 3600000000\<rparr>"
  let ?key = "valkey_key ''v'' 1 (ek_text (r_entity_key ?c))" and ?field = "valkey_field (fr_name (r_ref ?c)) (fr_version (r_ref ?c))"
  have adm: "valkey_adm (\<lambda>_. ''0.0'') ''v'' ?c"
    using sample_valkey_adm(1) sample_canonical(1)
    by (simp add: valkey_adm_def result_canonical_def early_def sample_result_def)
  have at: "hget (hset Map.empty ?key ?field (doc_of ?c)) ?key ?field = Some (doc_of ?c)" by (simp add: hget_hset)
  have t: "trusted_available_at ?c = Some day1" by (simp add: trusted_available_at_def)
  have b: "dt_eq ?b day1" by code_simp
  have "isoformat ?b \<noteq> isoformat day1" by (simp add: isoformat_def day1_def utc_def pad2_def digit_def)
  from lua_guard_compares_texts[OF adm at t b this] show ?thesis by blast
qed

text \<open>
  The Valkey key of a view whose name contains a colon can coincide with the key of another
  view: a value written for one is then served for the other, which the in-memory store keeps
  apart.
\<close>

theorem valkey_keys_collide:
  assumes "r_entity_key r = \<lparr>ek_parts = [(name, x)]\<rparr>" "valkey_adm repr view0 r"
  shows "\<exists>db. valkey_write repr Map.empty (view @ '':v'' @ int_str i) j r = Inr (Written, db)
    \<and> valkey_get db view i \<lparr>ek_parts = [(CHR ''v'' # int_str j @ '':'' @ name, x)]\<rparr> (fr_name (r_ref r)) (fr_version (r_ref r))
      = Inr (Some ((drop_lineage r)\<lparr>r_entity_key := \<lparr>ek_parts = [(CHR ''v'' # int_str j @ '':'' @ name, x)]\<rparr>\<rparr>))
    \<and> online_get (snd (online_write Map.empty (view @ '':v'' @ int_str i) j r)) view i
        \<lparr>ek_parts = [(CHR ''v'' # int_str j @ '':'' @ name, x)]\<rparr> (fr_name (r_ref r)) (fr_version (r_ref r)) = None"
proof -
  let ?ek = "\<lparr>ek_parts = [(CHR ''v'' # int_str j @ '':'' @ name, x)]\<rparr>"
  let ?key = "valkey_key (view @ '':v'' @ int_str i) j (ek_text (r_entity_key r))"
  let ?field = "valkey_field (fr_name (r_ref r)) (fr_version (r_ref r))"
  obtain s where s: "json_dumps repr plain_style (r_value r) = Inr s" using assms(2) by (auto simp: valkey_adm_def)
  have aw: "aware (r_data_ts r)" "aware_opt (r_max_input_data_ts r)"
    using assms(2) by (auto simp: valkey_adm_def result_canonical_def)
  have "valkey_key view i (ek_text ?ek) = ?key"
    by (simp add: valkey_key_def assms(1) ek_text_def part_text_def)
  moreover have "decode_record (doc_of r) ?ek (fr_name (r_ref r)) (fr_version (r_ref r))
      = Inr ((drop_lineage r)\<lparr>r_entity_key := ?ek\<rparr>)"
    by (rule decode_doc_as[OF assms(2)])
  ultimately have "valkey_get (hset Map.empty ?key ?field (doc_of r)) view i ?ek (fr_name (r_ref r)) (fr_version (r_ref r))
      = Inr (Some ((drop_lineage r)\<lparr>r_entity_key := ?ek\<rparr>))"
    by (simp add: valkey_get_def hget_hset)
  moreover have "online_get (snd (online_write Map.empty (view @ '':v'' @ int_str i) j r)) view i ?ek
      (fr_name (r_ref r)) (fr_version (r_ref r)) = None"
    by (auto simp: online_get_def online_write_decide Let_def online_key_def mem_get_def serving_key_def)
  ultimately show ?thesis using write_empty[OF aw s] by blast
qed

theorem valkey_keys_collide_witness:
  "\<exists>db x. valkey_write (\<lambda>_. ''0.0'') Map.empty ''a:v1'' 2 early = Inr (Written, db)
    \<and> valkey_get db ''a'' 1 \<lparr>ek_parts = [(''v2:user_id'', ''u1'')]\<rparr> ''a'' 1 = Inr (Some x)"
proof -
  have k: "r_entity_key early = \<lparr>ek_parts = [(''user_id'', ''u1'')]\<rparr>"
    by (simp add: early_def sample_result_def sample_key_def)
  have t: "int_str 1 = ''1''" "int_str 2 = ''2''" by code_simp+
  have n: "fr_name (r_ref early) = ''a''" "fr_version (r_ref early) = 1"
    by (simp_all add: early_def sample_result_def)
  from valkey_keys_collide[OF k sample_valkey_adm(1)[of "\<lambda>_. ''0.0''"], of "''a''" 1 2]
  show ?thesis by (auto simp: t n)
qed

text \<open>
  A recomputation from offline history needs an eligible value of every dependency, optional
  ones included: when it returns a result, the point-in-time read of each dependency found a
  record.
\<close>

theorem recompute_needs_optional_inputs:
  assumes "compute_dependent_from_offline ops F off view version ek name calc_ts gap = Inr (Some r)"
    "find_view_in (reg_views (fe_registry F)) view version = Some v"
    "map_of (features_by_name v) name = Some f" "dep \<in> set (f_deps f)"
  shows "\<exists>target rec. map_of (features_by_name v) (d_feature dep) = Some target
    \<and> so_get_pit ops off ek (d_feature dep)
        (case d_version dep of Some w \<Rightarrow> w | None \<Rightarrow> f_version target) view version calc_ts gap = Inr (Some rec)"
  by (rule dependent_needs_all[OF assms])

theorem recompute_needs_optional_inputs_witness:
  "\<exists>r rec. compute_dependent_from_offline mem_ops sample_fs sample_history ''v'' 1 sample_key ''b'' day2 0 = Inr (Some r)
    \<and> mem_get_pit sample_history sample_key ''a'' 1 ''v'' 1 day2 0 = Inr (Some rec)"
proof -
  have "(case compute_dependent_from_offline mem_ops sample_fs sample_history ''v'' 1 sample_key ''b'' day2 0 of
      Inr x \<Rightarrow> x \<noteq> None | Inl e \<Rightarrow> False)" by code_simp
  then obtain r where
    r: "compute_dependent_from_offline mem_ops sample_fs sample_history ''v'' 1 sample_key ''b'' day2 0 = Inr (Some r)"
    by (auto split: sum.splits)
  have v: "find_view_in (reg_views (fe_registry sample_fs)) ''v'' 1 = Some sample_view"
    by (simp add: sample_fs_def sample_registry_def) (simp add: sample_view_def Let_def)
  have "(case map_of (features_by_name sample_view) ''b'' of
      Some f \<Rightarrow> map (\<lambda>d. (d_feature d, d_version d)) (f_deps f) = [(''a'', Some 1)] | None \<Rightarrow> False)" by code_simp
  then obtain f dep where f: "map_of (features_by_name sample_view) ''b'' = Some f" "dep \<in> set (f_deps f)"
    "d_feature dep = ''a''" "d_version dep = Some 1"
    by (auto split: option.splits simp: map_eq_Cons_conv)
  from recompute_needs_optional_inputs[OF r v f(1,2)] r f(3,4) show ?thesis by (auto simp: mem_ops_def)
qed

end
